(* ===== verification/Prelude.thy ===== *)
theory Prelude
  imports Main "HOL-Library.List_Lexorder" "HOL-Library.Char_ord" "HOL-Library.Multiset"
begin

text \<open>
  What every component of the development shares.

  \<^item> Go values: a Go \<^verbatim>\<open>string\<close> is a \<^typ>\<open>string\<close>, whose characters are bytes, ordered
    bytewise (\<^verbatim>\<open>Char_ord\<close>, \<^verbatim>\<open>List_Lexorder\<close>), as Go compares strings; the empty string is
    Go's zero value. A pointer that may be nil is an \<^typ>\<open>'a option\<close>. A time is an integer
    count of nanoseconds; a duration likewise.
  \<^item> Errors of the Kubernetes API as a class and a text (\<open>api_error\<close>): the code only ever asks
    for the class, through apierrors' predicates, for the cause \<^verbatim>\<open>NamespaceTerminating\<close>, or prints the
    text. \<open>EStatus\<close> is a status of any other reason, \<open>EOther\<close> an error that is no API status.
  \<^item> Human-readable messages: \<open>msgf\<close> keeps a short tag for the sentence and every value the
    source interpolates into it, in order; the prose itself is not reproduced.
  \<^item> The generic list operations the components use (\<open>find\<close>-based lookups, replacement of the
    first match, bounded append) with their lemmas, and the \<^theory_text>\<open>named_theorems\<close>
    collections the component proofs draw on.
\<close>

named_theorems go_simps \<open>equations of the Go-level helpers\<close>
named_theorems eval_inv \<open>facts that an operation keeps the eval record's invariant\<close>
named_theorems status_frame \<open>fields of a status an operation leaves as they are\<close>

type_synonym go_time = int
type_synonym duration = int

abbreviation second :: duration where
  "second \<equiv> 1000000000"

section \<open>Errors of the API server\<close>

datatype err_class =
    ENotFound | EForbidden | EUnauthorized | ENoMatch | ETimeout | EServerTimeout
  | EDeadlineExceeded | ETooManyRequests | EInternal | EServiceUnavailable
  | EUnexpectedServer | EConflict | EAlreadyExists | EInvalid | EStatus | EOther

record api_error =
  err_class :: err_class
  err_text :: string
  err_nsTerminating :: bool

abbreviation IsNotFound :: "api_error \<Rightarrow> bool" where
  "IsNotFound e \<equiv> err_class e = ENotFound"

abbreviation IsForbidden :: "api_error \<Rightarrow> bool" where
  "IsForbidden e \<equiv> err_class e = EForbidden"

abbreviation IsConflict :: "api_error \<Rightarrow> bool" where
  "IsConflict e \<equiv> err_class e = EConflict"

section \<open>Strings\<close>

definition join :: "string \<Rightarrow> string list \<Rightarrow> string" where
  "join sep xs = (case xs of [] \<Rightarrow> [] | y # ys \<Rightarrow> y @ concat (map (\<lambda>z. sep @ z) ys))"

definition msgf :: "string \<Rightarrow> string list \<Rightarrow> string" where
  "msgf tag args = tag @ ''('' @ join ''; '' args @ '')''"

lemma msgf_nonempty [simp]: "msgf tag args \<noteq> []"
  by (simp add: msgf_def)

lemma join_simps [simp]:
  "join sep [] = []"
  "join sep [x] = x"
  "join sep (x # y # ys) = x @ sep @ join sep (y # ys)"
  by (simp_all add: join_def)

text \<open>Go's \<^verbatim>\<open>strings.TrimSuffix\<close>, \<^verbatim>\<open>strings.HasPrefix\<close> and \<^verbatim>\<open>strings.Contains\<close>.\<close>

definition has_prefix :: "string \<Rightarrow> string \<Rightarrow> bool" where
  "has_prefix s p \<longleftrightarrow> take (length p) s = p"

definition has_suffix :: "string \<Rightarrow> string \<Rightarrow> bool" where
  "has_suffix s p \<longleftrightarrow> length p \<le> length s \<and> drop (length s - length p) s = p"

definition trim_suffix :: "string \<Rightarrow> string \<Rightarrow> string" where
  "trim_suffix s p = (if has_suffix s p then take (length s - length p) s else s)"

fun str_contains :: "string \<Rightarrow> string \<Rightarrow> bool" where
  "str_contains s p = (has_prefix s p \<or> (case s of [] \<Rightarrow> False | _ # s' \<Rightarrow> str_contains s' p))"

declare str_contains.simps [simp del]

lemma has_prefix_iff: "has_prefix s p \<longleftrightarrow> (\<exists>t. s = p @ t)"
  by (metis append_eq_conv_conj append_take_drop_id has_prefix_def)

lemma str_contains_iff: "str_contains s p \<longleftrightarrow> (\<exists>u v. s = u @ p @ v)"
proof (induction s p rule: str_contains.induct)
  case (1 s p)
  show ?case
  proof (cases s)
    case Nil
    then show ?thesis by (subst str_contains.simps) (auto simp: has_prefix_iff)
  next
    case (Cons c s')
    have "str_contains s p \<longleftrightarrow> has_prefix s p \<or> (\<exists>u v. s' = u @ p @ v)"
      using "1.IH" [OF Cons] Cons by (subst str_contains.simps) simp
    also have "\<dots> \<longleftrightarrow> (\<exists>u v. s = u @ p @ v)"
      unfolding has_prefix_iff Cons by (metis append_Cons append_Nil neq_Nil_conv list.inject)
    finally show ?thesis .
  qed
qed

section \<open>Lists\<close>

text \<open>
  \<open>replace_first p x xs\<close> overwrites the first element satisfying \<open>p\<close>, as a Go loop that assigns
  \<^verbatim>\<open>xs[i] = x\<close> and returns does; \<open>append_capped n xs x\<close> appends and keeps the newest \<open>n\<close>, as
  \<^verbatim>\<open>out[len(out)-n:]\<close> does.
\<close>

fun replace_first :: "('a \<Rightarrow> bool) \<Rightarrow> 'a \<Rightarrow> 'a list \<Rightarrow> 'a list" where
  "replace_first p x [] = []"
| "replace_first p x (y # ys) = (if p y then x # ys else y # replace_first p x ys)"

definition append_capped :: "nat \<Rightarrow> 'a list \<Rightarrow> 'a \<Rightarrow> 'a list" where
  "append_capped n xs x = (let out = xs @ [x] in drop (length out - n) out)"

lemma length_replace_first [simp]: "length (replace_first p x xs) = length xs"
  by (induction xs) auto

lemma find_replace_first:
  "p x \<Longrightarrow> find p (replace_first p x xs) = (if find p xs = None then None else Some x)"
  by (induction xs) auto

lemma find_replace_first_other:
  assumes "\<And>y. q y \<Longrightarrow> \<not> p y" and "\<not> q x"
  shows "find q (replace_first p x xs) = find q xs"
  using assms by (induction xs) auto

lemma length_append_capped: "length (append_capped n xs x) \<le> n"
  by (simp add: append_capped_def Let_def)

lemma append_capped_newest: "0 < n \<Longrightarrow> x \<in> set (append_capped n xs x)"
  by (cases n) (auto simp: append_capped_def Let_def)

lemma set_append_capped: "set (append_capped n xs x) \<subseteq> insert x (set xs)"
  by (auto simp: append_capped_def Let_def dest: in_set_dropD)

lemma append_capped_small: "length xs < n \<Longrightarrow> append_capped n xs x = xs @ [x]"
  by (simp add: append_capped_def Let_def)

lemma find_append: "find p (xs @ ys) = (case find p xs of None \<Rightarrow> find p ys | Some x \<Rightarrow> Some x)"
  by (induction xs) auto

lemma find_filter_out:
  "(\<And>y. q y \<Longrightarrow> p y) \<Longrightarrow> find q (filter p xs) = find q xs"
  by (induction xs) auto

lemma find_None_filter: "find p (filter (\<lambda>x. \<not> p x) xs) = None"
  by (auto simp: find_None_iff)

text \<open>\<open>update_first p f xs\<close> changes the first element satisfying \<open>p\<close> in place, as a Go loop that takes the
  element's address does.\<close>

fun update_first :: "('a \<Rightarrow> bool) \<Rightarrow> ('a \<Rightarrow> 'a) \<Rightarrow> 'a list \<Rightarrow> 'a list" where
  "update_first p f [] = []"
| "update_first p f (y # ys) = (if p y then f y # ys else y # update_first p f ys)"

lemma length_update_first [simp]: "length (update_first p f xs) = length xs"
  by (induction xs) auto

lemma find_update_first:
  "(\<And>y. p y \<Longrightarrow> p (f y)) \<Longrightarrow> find p (update_first p f xs) = map_option f (find p xs)"
  by (induction xs) auto

lemma find_update_first_other:
  assumes "\<And>y. p y \<Longrightarrow> \<not> q y" and "\<And>y. p y \<Longrightarrow> \<not> q (f y)"
  shows "find q (update_first p f xs) = find q xs"
  using assms by (induction xs) auto

text \<open>
  A keyed record: a list looked up by a key and written by key. The status keeps several (cards by
  revision digest, cases by id, passed pairs by revision digest); \<open>stored k w\<close> is what a write of
  \<open>w\<close> under \<open>k\<close> leaves to be read. What each write promises is one contract, and its consequences
  are proved once.
\<close>

locale keyed_record =
  fixes lookup :: "'s \<Rightarrow> 'k \<Rightarrow> 'v option"
    and put :: "'k \<Rightarrow> 'w \<Rightarrow> 's \<Rightarrow> 's"
    and stored :: "'k \<Rightarrow> 'w \<Rightarrow> 'v"
  assumes lookup_put_same: "lookup (put k w s) k = Some (stored k w)"
    and lookup_put_other: "k \<noteq> j \<Longrightarrow> lookup (put k w s) j = lookup s j"
begin

lemma lookup_put: "lookup (put k w s) j = (if j = k then Some (stored k w) else lookup s j)"
  using lookup_put_same lookup_put_other by metis

lemma put_put_same: "lookup (put k v (put k w s)) j = lookup (put k v s) j"
  by (simp add: lookup_put)

lemma put_commute: "k \<noteq> l \<Longrightarrow> lookup (put k v (put l w s)) j = lookup (put l w (put k v s)) j"
  by (simp add: lookup_put)

lemma put_keeps: "lookup s j \<noteq> None \<Longrightarrow> lookup (put k v s) j \<noteq> None"
  by (simp add: lookup_put)

lemma puts_lookup:
  "distinct (map fst kvs) \<Longrightarrow> lookup (fold (\<lambda>(k, v). put k v) kvs s) j =
     (case map_of kvs j of None \<Rightarrow> lookup s j | Some v \<Rightarrow> Some (stored j v))"
proof (induction kvs arbitrary: s)
  case (Cons kv kvs)
  obtain k v where kv: "kv = (k, v)" by force
  from Cons.prems have "map_of kvs k = None" using kv by (auto simp: map_of_eq_None_iff)
  with Cons kv show ?case by (simp add: lookup_put split: option.split)
qed simp

end

text \<open>
  A bounded log: a list that grows at the end and forgets at the front, never past its bound, an
  entry just written always kept if it is one the log records.
\<close>

locale bounded_log =
  fixes add :: "'a \<Rightarrow> 'a list \<Rightarrow> 'a list"
    and bound :: nat
    and recorded :: "'a \<Rightarrow> bool"
  assumes add_bound: "length xs \<le> bound \<Longrightarrow> length (add x xs) \<le> bound"
    and add_member: "recorded x \<Longrightarrow> x \<in> set (add x xs)"
    and add_subset: "set (add x xs) \<subseteq> insert x (set xs)"
begin

lemma adds_bound: "length xs \<le> bound \<Longrightarrow> length (fold add ys xs) \<le> bound"
  by (induction ys arbitrary: xs) (auto simp: add_bound)

lemma adds_subset: "set (fold add ys xs) \<subseteq> set ys \<union> set xs"
proof (induction ys arbitrary: xs)
  case (Cons y ys)
  have "set (fold add ys (add y xs)) \<subseteq> set ys \<union> set (add y xs)" by (rule Cons.IH)
  then show ?case using add_subset [of y xs] by auto
qed simp

lemma adds_last: "ys \<noteq> [] \<Longrightarrow> recorded (last ys) \<Longrightarrow> last ys \<in> set (fold add ys xs)"
  by (induction ys rule: rev_induct) (auto simp: add_member)

end

section \<open>Sorting\<close>

text \<open>
  \<^verbatim>\<open>sort.Strings\<close> and \<^verbatim>\<open>sort.Slice\<close> by a key are \<^const>\<open>sort\<close> and \<^const>\<open>sort_key\<close>. Where keys are
  distinct the sorted list is unique, whatever algorithm produced it.
\<close>

lemma sort_key_perm_unique:
  assumes "mset xs = mset ys" and "distinct (map f xs)"
  shows "sort_key f xs = sort_key f ys"
proof (rule sort_key_inj_key_eq)
  show "mset xs = mset (sort_key f ys)" using assms(1) by simp
  show "inj_on f (set xs)"
    using assms(2) by (simp add: distinct_map)
  show "sorted (map f (sort_key f ys))" by simp
qed

end
