(* ===== verification/Api_Types.thy ===== *)
theory Api_Types
  imports Prelude
begin

text \<open>
  The custom resources (\<^verbatim>\<open>api/v1alpha1\<close>): the Agent's spec and status and the EvalSuite's spec,
  one record per Go struct, fields in declaration order under a prefix. A pointer or an
  optional struct is an option, a named string type with constants is a \<^typ>\<open>string\<close> with
  abbreviations for the constants, an integer is an \<^typ>\<open>int\<close> within the width its readers rely
  on. A nil and an empty slice are one list, except where the code tells them apart
  (\<open>llm_EgressAllowlist\<close>).

  Types of \<^verbatim>\<open>k8s.io/api\<close> appear as far as the operator reads them. An env source carries, beside
  the arms the code looks at, the text \<^verbatim>\<open>json.Marshal\<close> writes for the whole value
  (\<open>vf_Marshalled\<close>, \<open>ef_Marshalled\<close>), which is what a revision's identity covers; \<open>vf_Rest\<close> is what
  the source holds besides the names and optionality of its references (the keys, the other arms),
  which a Pod template copies and never looks into. Resources are opaque.
\<close>

section \<open>The Agent's spec\<close>

record SandboxSpec =
  sb_Profile :: string

record EnvVarSource =
  vf_ConfigMapKeyRef :: "string option"
  vf_ConfigMapOptional :: "bool option"
  vf_SecretKeyRef :: "string option"
  vf_SecretOptional :: "bool option"
  vf_Rest :: string
  vf_FieldRef :: bool
  vf_ResourceFieldRef :: bool
  vf_Marshalled :: string

record EnvVar =
  ev_Name :: string
  ev_Value :: string
  ev_ValueFrom :: "EnvVarSource option"

record EnvFromSource =
  ef_Prefix :: string
  ef_ConfigMapRef :: "string option"
  ef_ConfigMapOptional :: "bool option"
  ef_SecretRef :: "string option"
  ef_SecretOptional :: "bool option"
  ef_Marshalled :: string

record AgentRuntime =
  rt_Image :: string
  rt_Replicas :: int
  rt_Port :: int
  rt_Sandbox :: "SandboxSpec option"
  rt_Resources :: string
  rt_Env :: "EnvVar list"
  rt_EnvFrom :: "EnvFromSource list"

record ExternalAgent =
  ex_Endpoint :: string
  ex_OAuthClientRef :: string
  ex_InlineCard :: string

record CardSpec =
  cs_Path :: string

record KGScope =
  kg_EntityTypes :: "string list"

record KnowledgeBinding =
  kb_Name :: string
  kb_Version :: string
  kb_Scope :: "KGScope option"

record ToolBinding =
  tb_Name :: string
  tb_RequiresApproval :: bool

type_synonym LLMArm = string

record AzureOpenAIInstance =
  az_Endpoint :: string
  az_DeploymentName :: string
  az_APIVersion :: string

record VertexAIInstance =
  vx_ProjectID :: string
  vx_Region :: string

record BedrockInstance =
  br_Region :: string
  br_Guardrail :: string

record CustomInstance =
  cu_Host :: string
  cu_Port :: int
  cu_PathPrefix :: string

record LLMEndpoint =
  le_Arm :: LLMArm
  le_Model :: string
  le_AzureOpenAI :: "AzureOpenAIInstance option"
  le_VertexAI :: "VertexAIInstance option"
  le_Bedrock :: "BedrockInstance option"
  le_Custom :: "CustomInstance option"

record LLMAllowEntry =
  la_Arm :: LLMArm
  la_Models :: "string list"
  la_AzureOpenAI :: "AzureOpenAIInstance option"
  la_VertexAI :: "VertexAIInstance option"
  la_Bedrock :: "BedrockInstance option"
  la_Custom :: "CustomInstance option"

record LLMSpec =
  llm_Providers :: "LLMEndpoint list"
  llm_EgressAllowlist :: "LLMAllowEntry list option"
  llm_Fallback :: "LLMEndpoint option"

record BudgetSpec =
  bg_TokensPerDay :: "int option"
  bg_USDPerDay :: "string option"
  bg_TaskTimeout :: "duration option"
  bg_MaxHops :: "int option"

record LoopSpec =
  lp_AllowReentry :: bool
  lp_MaxVisits :: int

record ReleaseSpec =
  rl_TargetRevisionDigest :: string

record GateRef =
  gr_EvalSuiteRef :: string

record ExposeProtocol =
  xp_Visibility :: string
  xp_Auth :: string

record ExposeSpec =
  xs_A2A :: "ExposeProtocol option"

record AgentSpec =
  sp_Runtime :: "AgentRuntime option"
  sp_External :: "ExternalAgent option"
  sp_Release :: "ReleaseSpec option"
  sp_Card :: CardSpec
  sp_Knowledge :: "KnowledgeBinding list"
  sp_Tools :: "ToolBinding list"
  sp_LLM :: "LLMSpec option"
  sp_Budget :: "BudgetSpec option"
  sp_Loop :: "LoopSpec option"
  sp_Gates :: "GateRef list"
  sp_Expose :: "ExposeSpec option"

section \<open>The Agent's status\<close>

type_synonym AgentPhase = string

abbreviation PhasePending :: AgentPhase where "PhasePending \<equiv> ''Pending''"
abbreviation PhaseHeld :: AgentPhase where "PhaseHeld \<equiv> ''Held''"
abbreviation PhaseReady :: AgentPhase where "PhaseReady \<equiv> ''Ready''"
abbreviation PhaseDegraded :: AgentPhase where "PhaseDegraded \<equiv> ''Degraded''"

abbreviation CondGatesPassed :: string where "CondGatesPassed \<equiv> ''GatesPassed''"
abbreviation CondGatesSkipped :: string where "CondGatesSkipped \<equiv> ''GatesSkipped''"
abbreviation CondRegistered :: string where "CondRegistered \<equiv> ''Registered''"
abbreviation CondReady :: string where "CondReady \<equiv> ''Ready''"
abbreviation CondDegraded :: string where "CondDegraded \<equiv> ''Degraded''"
abbreviation CondProgressing :: string where "CondProgressing \<equiv> ''Progressing''"
abbreviation CondActiveRevisionPassUnrecorded :: string where
  "CondActiveRevisionPassUnrecorded \<equiv> ''ActiveRevisionPassUnrecorded''"
abbreviation CondPolicyApplyIncomplete :: string where
  "CondPolicyApplyIncomplete \<equiv> ''PolicyApplyIncomplete''"
abbreviation CondPolicyCompileFailed :: string where
  "CondPolicyCompileFailed \<equiv> ''PolicyCompileFailed''"
abbreviation CondGovernanceSkipped :: string where "CondGovernanceSkipped \<equiv> ''GovernanceSkipped''"
abbreviation CondRunNamespaceUnavailable :: string where
  "CondRunNamespaceUnavailable \<equiv> ''RunNamespaceUnavailable''"
abbreviation CondEnvSourceProtectionUnavailable :: string where
  "CondEnvSourceProtectionUnavailable \<equiv> ''EnvSourceProtectionUnavailable''"
abbreviation CondRevisionHashCollision :: string where
  "CondRevisionHashCollision \<equiv> ''RevisionHashCollision''"
abbreviation CondTaskStateUnverified :: string where
  "CondTaskStateUnverified \<equiv> ''TaskStateUnverified''"
abbreviation CondSandboxDowngraded :: string where "CondSandboxDowngraded \<equiv> ''SandboxDowngraded''"
abbreviation CondCardUnsigned :: string where "CondCardUnsigned \<equiv> ''CardUnsigned''"
abbreviation CondRevisionMaterialUnavailable :: string where
  "CondRevisionMaterialUnavailable \<equiv> ''RevisionMaterialUnavailable''"
abbreviation CondImageSignatureUnverified :: string where
  "CondImageSignatureUnverified \<equiv> ''ImageSignatureUnverified''"
abbreviation CondEnvSourceUnresolved :: string where
  "CondEnvSourceUnresolved \<equiv> ''EnvSourceUnresolved''"

text \<open>\<^verbatim>\<open>metav1.Condition\<close>.\<close>

datatype cond_status = CTrue | CFalse | CUnknown

record condition =
  c_Type :: string
  c_Status :: cond_status
  c_ObservedGeneration :: int
  c_LastTransitionTime :: go_time
  c_Reason :: string
  c_Message :: string

record RevisionServiceRecord =
  rs_Revision :: string
  rs_RevisionDigest :: string
  rs_UID :: string

record CardStatus =
  cd_Revision :: string
  cd_RevisionDigest :: string
  cd_Name :: string
  cd_Version :: string
  cd_FetchedAt :: "go_time option"
  cd_Digest :: string
  cd_Signed :: bool
  cd_SharedTaskState :: bool

datatype EvalVerdict = NoVerdict | EvalVerdictRunning | EvalVerdictPassed | EvalVerdictFailed

record EvalBlocked =
  eb_Reason :: string
  eb_Message :: string

record EvalBlockedFor =
  bf_RevisionDigest :: string
  bf_SuiteDigest :: string
  bf_LockDeadline :: "go_time option"

datatype EvalCaseOutcome = EvalCaseSending | EvalCasePassed | EvalCaseFailed

record EvalCaseRecord =
  ec_ID :: string
  ec_Outcome :: EvalCaseOutcome
  ec_Reason :: string
  ec_Claim :: string

record EvalPair =
  ep_RevisionDigest :: string
  ep_SuiteDigest :: string

record EvalStatus =
  es_Score :: string
  es_Suite :: string
  es_Revision :: string
  es_RevisionDigest :: string
  es_At :: "go_time option"
  es_SuiteDigest :: string
  es_EndpointPath :: string
  es_CardDigest :: string
  es_Blocked :: "EvalBlocked option"
  es_BlockedFor :: "EvalBlockedFor option"
  es_Verdict :: EvalVerdict
  es_Cases :: "EvalCaseRecord list"
  es_Failed :: "EvalPair list"
  es_Passed :: "EvalPair list"

record AuthVerification =
  vr_ReplicasProbed :: int
  vr_ReplicasDeclared :: "int option"

record AuthProbe =
  pr_Before :: "int option"
  pr_After :: "int option"

record AuthTransaction =
  tx_Kind :: string
  tx_TargetMode :: string
  tx_TargetDigest :: string
  tx_Stage :: string
  tx_Written :: bool
  tx_Deadline :: "go_time option"
  tx_Probe :: "AuthProbe option"
  tx_BeforeObserved :: bool
  tx_BeforeRevision :: string
  tx_RefusedMode :: string

record AuthStatus =
  au_Mode :: string
  au_KeySource :: string
  au_AdmittedGroups :: "string list"
  au_AppliedDigest :: string
  au_Verified :: "AuthVerification option"
  au_Transaction :: "AuthTransaction option"
  au_RouteRefused :: bool
  au_PolicyUnattached :: bool
  au_KeySourceEmpty :: bool

record AgentStatus =
  st_Phase :: AgentPhase
  st_ActiveRevision :: string
  st_CandidateRevision :: string
  st_ActiveRevisionDigest :: string
  st_CandidateRevisionDigest :: string
  st_ServiceReplacedRevision :: string
  st_ServiceReplacedAt :: "go_time option"
  st_RevisionServices :: "RevisionServiceRecord list"
  st_SupersededCandidates :: "string list"
  st_Cards :: "CardStatus list"
  st_Auth :: "AuthStatus option"
  st_Eval :: "EvalStatus option"
  st_Conditions :: "condition list"
  st_ObservedGeneration :: int

text \<open>
  The object: the metadata the code reads, the spec and the status. Of the opaque resource version
  only equality matters; it is a counter here.
\<close>

record Agent =
  ag_Name :: string
  ag_Namespace :: string
  ag_UID :: string
  ag_Generation :: int
  ag_ResourceVersion :: nat
  ag_DeletionTimestamp :: "go_time option"
  ag_Finalizers :: "string list"
  ag_Spec :: AgentSpec
  ag_Status :: AgentStatus

section \<open>The EvalSuite\<close>

record EvalExpect =
  xe_Contains :: string
  xe_Equals :: string

record EvalCase =
  ca_ID :: string
  ca_Message :: string
  ca_Expect :: EvalExpect

record EvalDataset =
  ds_Cases :: "EvalCase list"

record EvalMetric =
  em_Name :: string
  em_Threshold :: string

record EvalSuiteSpec =
  su_Dataset :: EvalDataset
  su_Metrics :: "EvalMetric list"
  su_CaseTimeoutSeconds :: int

section \<open>Zero values\<close>

definition zero_spec :: AgentSpec where
  "zero_spec = \<lparr> sp_Runtime = None, sp_External = None, sp_Release = None,
     sp_Card = \<lparr> cs_Path = '''' \<rparr>, sp_Knowledge = [], sp_Tools = [], sp_LLM = None,
     sp_Budget = None, sp_Loop = None, sp_Gates = [], sp_Expose = None \<rparr>"

definition zero_eval :: EvalStatus where
  "zero_eval = \<lparr> es_Score = '''', es_Suite = '''', es_Revision = '''', es_RevisionDigest = '''',
     es_At = None, es_SuiteDigest = '''', es_EndpointPath = '''', es_CardDigest = '''',
     es_Blocked = None, es_BlockedFor = None, es_Verdict = NoVerdict, es_Cases = [],
     es_Failed = [], es_Passed = [] \<rparr>"

definition zero_status :: AgentStatus where
  "zero_status = \<lparr> st_Phase = '''', st_ActiveRevision = '''', st_CandidateRevision = '''',
     st_ActiveRevisionDigest = '''', st_CandidateRevisionDigest = '''',
     st_ServiceReplacedRevision = '''', st_ServiceReplacedAt = None, st_RevisionServices = [],
     st_SupersededCandidates = [], st_Cards = [], st_Auth = None, st_Eval = None,
     st_Conditions = [], st_ObservedGeneration = 0 \<rparr>"

end
