(* ===== verification/Go_Sha256.thy ===== *)
theory Go_Sha256
  imports Prelude "HOL-Library.Word"
begin

unbundle bit_operations_syntax

text \<open>
  Go's \<^verbatim>\<open>crypto/sha256\<close> and \<^verbatim>\<open>encoding/hex\<close>, as far as the operator uses them: \<^verbatim>\<open>sha256.Sum256\<close>
  of a byte string (FIPS 180-4, on 32-bit words) and \<^verbatim>\<open>hex.EncodeToString\<close>. Every digest the
  operator records is \<open>hex_sum256\<close> of a serialization, so the shape lemmas below (64 lowercase
  hex digits) hold for all of them. Nothing is assumed about collisions: the theorems about
  digests say "the serializations are equal, or this is a collision" (\<open>sha256_collision\<close>).
\<close>

definition hex_digit :: "nat \<Rightarrow> char" where
  "hex_digit n = (''0123456789abcdef'' ! n)"

definition hex_char :: "char \<Rightarrow> string" where
  "hex_char c = [hex_digit (of_char c div 16), hex_digit (of_char c mod 16)]"

definition hex_encode :: "string \<Rightarrow> string" where
  "hex_encode s = concat (map hex_char s)"

definition is_hex :: "char \<Rightarrow> bool" where
  "is_hex c \<longleftrightarrow> c \<in> set ''0123456789abcdef''"

text \<open>The round constants, in decimal.\<close>

definition sha_K :: "32 word list" where
  "sha_K = [
     1116352408, 1899447441, 3049323471, 3921009573, 961987163, 1508970993, 2453635748, 2870763221,
     3624381080, 310598401, 607225278, 1426881987, 1925078388, 2162078206, 2614888103, 3248222580,
     3835390401, 4022224774, 264347078, 604807628, 770255983, 1249150122, 1555081692, 1996064986,
     2554220882, 2821834349, 2952996808, 3210313671, 3336571891, 3584528711, 113926993, 338241895,
     666307205, 773529912, 1294757372, 1396182291, 1695183700, 1986661051, 2177026350, 2456956037,
     2730485921, 2820302411, 3259730800, 3345764771, 3516065817, 3600352804, 4094571909, 275423344,
     430227734, 506948616, 659060556, 883997877, 958139571, 1322822218, 1537002063, 1747873779,
     1955562222, 2024104815, 2227730452, 2361852424, 2428436474, 2756734187, 3204031479, 3329325298]"

record sha_state =
  sa :: "32 word"  sb :: "32 word"  sc :: "32 word"  sd :: "32 word"
  se :: "32 word"  sf :: "32 word"  sg :: "32 word"  sh :: "32 word"

definition sha_init :: sha_state where
  "sha_init = \<lparr>sa = 0x6a09e667, sb = 0xbb67ae85, sc = 0x3c6ef372, sd = 0xa54ff53a,
               se = 0x510e527f, sf = 0x9b05688c, sg = 0x1f83d9ab, sh = 0x5be0cd19\<rparr>"

text \<open>Padding: the message, the byte 0x80, zeros, and the bit length as 8 big-endian bytes.\<close>

definition be_bytes :: "nat \<Rightarrow> nat \<Rightarrow> nat list" where
  "be_bytes k n = map (\<lambda>i. (n div 256 ^ (k - 1 - i)) mod 256) [0..<k]"

definition sha_pad :: "nat list \<Rightarrow> nat list" where
  "sha_pad m = m @ 128 # replicate ((119 - length m mod 64) mod 64) 0 @ be_bytes 8 (8 * length m)"

fun chunks :: "nat \<Rightarrow> 'a list \<Rightarrow> 'a list list" where
  "chunks n xs = (if n = 0 \<or> xs = [] then [] else take n xs # chunks n (drop n xs))"

declare chunks.simps [simp del]

definition be_word :: "nat list \<Rightarrow> 32 word" where
  "be_word bs = of_nat (foldl (\<lambda>a b. a * 256 + b) 0 bs)"

text \<open>The message schedule, newest word first: 16 words of the block, then 48 derived ones.\<close>

definition sched_next :: "32 word list \<Rightarrow> 32 word" where
  "sched_next w =
     (let w2 = w ! 1; w7 = w ! 6; w15 = w ! 14; w16 = w ! 15;
          s0 = word_rotr 7 w15 XOR word_rotr 18 w15 XOR drop_bit 3 w15;
          s1 = word_rotr 17 w2 XOR word_rotr 19 w2 XOR drop_bit 10 w2
      in w16 + s0 + w7 + s1)"

fun sched_extend :: "nat \<Rightarrow> 32 word list \<Rightarrow> 32 word list" where
  "sched_extend 0 w = w"
| "sched_extend (Suc n) w = sched_extend n (sched_next w # w)"

definition sha_round :: "sha_state \<Rightarrow> 32 word \<times> 32 word \<Rightarrow> sha_state" where
  "sha_round s kw =
     (let s1 = word_rotr 6 (se s) XOR word_rotr 11 (se s) XOR word_rotr 25 (se s);
          ch = (se s AND sf s) XOR (NOT (se s) AND sg s);
          t1 = sh s + s1 + ch + fst kw + snd kw;
          s0 = word_rotr 2 (sa s) XOR word_rotr 13 (sa s) XOR word_rotr 22 (sa s);
          maj = (sa s AND sb s) XOR (sa s AND sc s) XOR (sb s AND sc s);
          t2 = s0 + maj
      in \<lparr>sa = t1 + t2, sb = sa s, sc = sb s, sd = sc s,
          se = sd s + t1, sf = se s, sg = sf s, sh = sg s\<rparr>)"

definition sha_block :: "sha_state \<Rightarrow> nat list \<Rightarrow> sha_state" where
  "sha_block h blk =
     (let w = rev (sched_extend 48 (rev (map be_word (chunks 4 blk))));
          r = foldl sha_round h (zip sha_K w)
      in \<lparr>sa = sa h + sa r, sb = sb h + sb r, sc = sc h + sc r, sd = sd h + sd r,
          se = se h + se r, sf = sf h + sf r, sg = sg h + sg r, sh = sh h + sh r\<rparr>)"

definition word_bytes :: "32 word \<Rightarrow> string" where
  "word_bytes w = map (\<lambda>n. char_of n) (be_bytes 4 (unat w))"

definition sum256 :: "string \<Rightarrow> string" where
  "sum256 m =
     (let s = foldl sha_block sha_init (chunks 64 (sha_pad (map of_char m)))
      in concat (map word_bytes [sa s, sb s, sc s, sd s, se s, sf s, sg s, sh s]))"

definition hex_sum256 :: "string \<Rightarrow> string" where
  "hex_sum256 m = hex_encode (sum256 m)"

definition sha256_collision :: "string \<Rightarrow> string \<Rightarrow> bool" where
  "sha256_collision a b \<longleftrightarrow> a \<noteq> b \<and> sum256 a = sum256 b"

section \<open>The shape of a digest\<close>

lemma length_word_bytes [simp]: "length (word_bytes w) = 4"
  by (simp add: word_bytes_def be_bytes_def)

lemma length_sum256: "length (sum256 m) = 32"
  by (simp add: sum256_def Let_def)

lemma length_hex_encode: "length (hex_encode s) = 2 * length s"
  by (induction s) (simp_all add: hex_encode_def hex_char_def)

lemma hex_digit_is_hex: "n < 16 \<Longrightarrow> is_hex (hex_digit n)"
  unfolding is_hex_def hex_digit_def by (rule nth_mem) simp

lemma of_char_less: "(of_char c :: nat) < 256"
  by (rule nat_of_char_less_256)

lemma hex_encode_is_hex: "c \<in> set (hex_encode s) \<Longrightarrow> is_hex c"
proof -
  have "(of_char b :: nat) div 16 < 16" for b
    using of_char_less [of b] by (simp add: less_mult_imp_div_less)
  then show "c \<in> set (hex_encode s) \<Longrightarrow> is_hex c"
    by (auto simp: hex_encode_def hex_char_def intro!: hex_digit_is_hex)
qed

lemma length_hex_sum256 [simp]: "length (hex_sum256 m) = 64"
  by (simp add: hex_sum256_def length_hex_encode length_sum256)

lemma hex_sum256_is_hex: "c \<in> set (hex_sum256 m) \<Longrightarrow> is_hex c"
  by (simp add: hex_sum256_def hex_encode_is_hex)

lemma hex_sum256_nonempty [simp]: "hex_sum256 m \<noteq> []"
  using length_hex_sum256 [of m] by (metis length_0_conv zero_neq_numeral)

text \<open>Hexadecimal loses nothing, so equal digests are equal sums.\<close>

lemma hex_digit_inj: "m < 16 \<Longrightarrow> n < 16 \<Longrightarrow> hex_digit m = hex_digit n \<Longrightarrow> m = n"
proof -
  assume "m < 16" "n < 16" "hex_digit m = hex_digit n"
  moreover have "distinct ''0123456789abcdef''" by simp
  ultimately show "m = n"
    unfolding hex_digit_def by (subst (asm) nth_eq_iff_index_eq) simp_all
qed

lemma hex_char_inj: "hex_char a = hex_char b \<Longrightarrow> a = b"
proof -
  assume eq: "hex_char a = hex_char b"
  have d: "(of_char x :: nat) div 16 < 16" for x
    using of_char_less [of x] by (simp add: less_mult_imp_div_less)
  have "(of_char a :: nat) div 16 = of_char b div 16"
    using eq d [of a] d [of b] by (auto simp: hex_char_def dest: hex_digit_inj)
  moreover have "(of_char a :: nat) mod 16 = of_char b mod 16"
    using eq by (intro hex_digit_inj) (simp_all add: hex_char_def)
  ultimately have "(of_char a :: nat) = of_char b"
    by (metis mod_div_mult_eq)
  then show "a = b" by (simp only: of_char_eq_iff)
qed

lemma hex_encode_inj: "hex_encode s = hex_encode t \<Longrightarrow> s = t"
proof (induction s arbitrary: t)
  case Nil
  then show ?case by (cases t) (simp_all add: hex_encode_def hex_char_def)
next
  case (Cons a s)
  then obtain b t' where t: "t = b # t'"
    by (cases t) (auto simp: hex_encode_def hex_char_def)
  with Cons.prems have "hex_char a = hex_char b" "hex_encode s = hex_encode t'"
    by (auto simp: hex_encode_def hex_char_def)
  with Cons.IH t show ?case by (auto dest: hex_char_inj)
qed

lemma hex_sum256_eqD:
  "hex_sum256 a = hex_sum256 b \<Longrightarrow> a = b \<or> sha256_collision a b"
  unfolding hex_sum256_def sha256_collision_def by (blast dest: hex_encode_inj)

text \<open>
  What a digest is for: the operator compares digests in place of the things they are of. A
  component promises that its preimage determines the normal form it cares about; then equal
  digests determine it too, unless the two preimages are a collision.
\<close>

locale digest_identity =
  fixes preimage :: "'a \<Rightarrow> string"
    and valid :: "'a \<Rightarrow> bool"
    and normal :: "'a \<Rightarrow> 'b"
  assumes preimage_inj: "valid a \<Longrightarrow> valid b \<Longrightarrow> preimage a = preimage b \<Longrightarrow> normal a = normal b"
begin

lemma digest_eq_normal:
  assumes "hex_sum256 (preimage a) = hex_sum256 (preimage b)" "valid a" "valid b"
    and "\<not> sha256_collision (preimage a) (preimage b)"
  shows "normal a = normal b"
  using assms hex_sum256_eqD preimage_inj by blast

lemma normal_neq_digest:
  assumes "normal a \<noteq> normal b" "valid a" "valid b" "hex_sum256 (preimage a) = hex_sum256 (preimage b)"
  shows "sha256_collision (preimage a) (preimage b)"
  using assms digest_eq_normal by blast

end

end
