(* ===== verification/Go_Json.thy ===== *)
theory Go_Json
  imports Go_Sha256
begin

text \<open>
  Go's decimal formatting, \<^verbatim>\<open>unicode/utf8\<close> and the writer of \<^verbatim>\<open>encoding/json\<close>, as far as the
  operator's digests depend on them. \<open>json_encode True\<close> is \<^verbatim>\<open>json.Marshal\<close> (HTML characters
  escaped), \<open>json_encode False\<close> an \<^verbatim>\<open>Encoder\<close> with \<^verbatim>\<open>SetEscapeHTML(false)\<close>; object members
  are written in the order given, so a struct lists its fields in declaration order and a Go map
  its keys sorted.

  The main result is \<open>json_encode_inj\<close>: on values whose strings are valid UTF-8 the writer is
  injective. Strings are recovered by a decoder (\<open>json_unescape\<close>); the structure by induction
  over the value with the text that follows it as a parameter.
\<close>

section \<open>Decimal numbers\<close>

definition digit_char :: "nat \<Rightarrow> char" where
  "digit_char n = char_of (48 + n)"

definition is_digit :: "char \<Rightarrow> bool" where
  "is_digit c \<longleftrightarrow> 48 \<le> (of_char c :: nat) \<and> (of_char c :: nat) \<le> 57"

definition digit_val :: "char \<Rightarrow> nat" where
  "digit_val c = of_char c - 48"

fun dec :: "nat \<Rightarrow> string" where
  "dec n = (if n < 10 then [digit_char n] else dec (n div 10) @ [digit_char (n mod 10)])"

declare dec.simps [simp del]

definition itoa :: "int \<Rightarrow> string" where
  "itoa i = (if i < 0 then CHR ''-'' # dec (nat (- i)) else dec (nat i))"

definition undec :: "string \<Rightarrow> nat" where
  "undec s = foldl (\<lambda>a c. a * 10 + digit_val c) 0 s"

lemma of_char_char_of [simp]: "n < 256 \<Longrightarrow> (of_char (char_of n) :: nat) = n"
  by (simp add: of_char_of)

lemma digit_val_char: "n < 10 \<Longrightarrow> digit_val (digit_char n) = n"
  by (simp add: digit_val_def digit_char_def)

lemma is_digit_char: "n < 10 \<Longrightarrow> is_digit (digit_char n)"
  by (simp add: is_digit_def digit_char_def)

lemma undec_dec: "undec (dec n) = n"
proof (induction n rule: dec.induct)
  case (1 n)
  show ?case
  proof (cases "n < 10")
    case True
    then show ?thesis by (simp add: dec.simps [of n] undec_def digit_val_char)
  next
    case False
    with 1 have "undec (dec (n div 10)) = n div 10" by simp
    with False show ?thesis
      by (simp add: dec.simps [of n] undec_def digit_val_char)
  qed
qed

lemma dec_digits: "c \<in> set (dec n) \<Longrightarrow> is_digit c"
proof (induction n rule: dec.induct)
  case (1 n)
  then show ?case
    by (cases "n < 10") (auto simp: dec.simps [of n] is_digit_char)
qed

lemma dec_nonempty [simp]: "dec n \<noteq> []"
  by (subst dec.simps) simp

lemma dec_inj: "dec m = dec n \<Longrightarrow> m = n"
  by (metis undec_dec)

lemma minus_not_digit [simp]: "\<not> is_digit CHR ''-''"
  by (simp add: is_digit_def)

lemma itoa_nonempty [simp]: "itoa i \<noteq> []"
  by (simp add: itoa_def)

text \<open>A number is delimited by anything that is not a digit.\<close>

definition no_digit :: "string \<Rightarrow> bool" where
  "no_digit r \<longleftrightarrow> r = [] \<or> \<not> is_digit (hd r)"

lemma digits_split:
  assumes "\<forall>c \<in> set a. is_digit c" "\<forall>c \<in> set b. is_digit c" "no_digit r" "no_digit r'"
    and "a @ r = b @ r'"
  shows "a = b \<and> r = r'"
proof -
  have "takeWhile is_digit (a @ r) = a" if "\<forall>c \<in> set a. is_digit c" "no_digit r" for a r
    using that by (cases r) (auto simp: takeWhile_append no_digit_def)
  then have "a = b" using assms by metis
  with assms(5) show ?thesis by simp
qed

lemma itoa_split:
  assumes "no_digit r" "no_digit r'" "itoa i @ r = itoa j @ r'"
  shows "i = j \<and> r = r'"
proof -
  have d: "\<forall>c \<in> set (dec n). is_digit c" for n by (blast intro: dec_digits)
  have nm: "hd (dec n) \<noteq> CHR ''-''" for n
    using d [of n] by (metis dec_nonempty hd_in_set minus_not_digit)
  show ?thesis
  proof (cases "(i < 0) = (j < 0)")
    case True
    then have "dec (nat \<bar>i\<bar>) @ r = dec (nat \<bar>j\<bar>) @ r'"
      using assms(3) by (auto simp: itoa_def abs_if split: if_splits)
    then have "dec (nat \<bar>i\<bar>) = dec (nat \<bar>j\<bar>) \<and> r = r'"
      using digits_split [OF d d assms(1,2)] by simp
    with True show ?thesis by (auto dest!: dec_inj simp: abs_if split: if_splits)
  next
    case False
    have "hd (itoa i @ r) = CHR ''-'' \<longleftrightarrow> i < 0" "hd (itoa j @ r') = CHR ''-'' \<longleftrightarrow> j < 0"
      using nm by (simp_all add: itoa_def)
    with False assms(3) show ?thesis by simp
  qed
qed

section \<open>UTF-8\<close>

text \<open>
  \<open>utf8_size s\<close> is the length of the UTF-8 sequence at the head of \<open>s\<close>, 0 where Go's decoder
  reports \<^verbatim>\<open>RuneError\<close> of width 1 (or the input is empty).
\<close>

abbreviation byte :: "char \<Rightarrow> nat" where
  "byte c \<equiv> of_char c"

definition cont_byte :: "char \<Rightarrow> bool" where
  "cont_byte c \<longleftrightarrow> 128 \<le> byte c \<and> byte c \<le> 191"

definition second_ok :: "char \<Rightarrow> char \<Rightarrow> bool" where
  "second_ok a b \<longleftrightarrow>
     (if byte a = 224 then 160 else if byte a = 240 then 144 else 128) \<le> byte b \<and>
     byte b \<le> (if byte a = 237 then 159 else if byte a = 244 then 143 else 191)"

definition utf8_size :: "string \<Rightarrow> nat" where
  "utf8_size s = (case s of [] \<Rightarrow> 0 | a # t \<Rightarrow>
     if byte a < 128 then 1
     else if 194 \<le> byte a \<and> byte a \<le> 223 then
       (case t of b # _ \<Rightarrow> if cont_byte b then 2 else 0 | [] \<Rightarrow> 0)
     else if 224 \<le> byte a \<and> byte a \<le> 239 then
       (case t of b # c # _ \<Rightarrow> if second_ok a b \<and> cont_byte c then 3 else 0 | _ \<Rightarrow> 0)
     else if 240 \<le> byte a \<and> byte a \<le> 244 then
       (case t of b # c # d # _ \<Rightarrow> if second_ok a b \<and> cont_byte c \<and> cont_byte d then 4 else 0
        | _ \<Rightarrow> 0)
     else 0)"

lemma utf8_size_multi:
  assumes "utf8_size (a # t) = n" "n \<noteq> 0" "128 \<le> byte a"
  shows "2 \<le> n" "n \<le> length (a # t)" "\<forall>c \<in> set (take n (a # t)). 128 \<le> byte c"
proof -
  have so: "second_ok x y \<Longrightarrow> 128 \<le> byte y" for x y
    by (auto simp: second_ok_def split: if_splits)
  have "2 \<le> n \<and> n \<le> length (a # t) \<and> (\<forall>c \<in> set (take n (a # t)). 128 \<le> byte c)"
    using assms
    by (auto simp: utf8_size_def cont_byte_def numeral_eq_Suc dest!: so
        split: list.splits if_splits)
  then show "2 \<le> n" "n \<le> length (a # t)" "\<forall>c \<in> set (take n (a # t)). 128 \<le> byte c"
    by blast+
qed

lemma utf8_size_ascii [simp]: "byte a < 128 \<Longrightarrow> utf8_size (a # t) = 1"
  by (simp add: utf8_size_def)

text \<open>\<^verbatim>\<open>utf8.ValidString\<close> and \<^verbatim>\<open>utf8.RuneCountInString\<close>.\<close>

function valid_utf8 :: "string \<Rightarrow> bool" where
  "valid_utf8 s =
     (if s = [] then True else if utf8_size s = 0 then False
      else valid_utf8 (drop (utf8_size s) s))"
  by pat_completeness auto
termination by (relation "measure length") auto

declare valid_utf8.simps [simp del]

function rune_count :: "string \<Rightarrow> nat" where
  "rune_count s = (if s = [] then 0 else Suc (rune_count (drop (max 1 (utf8_size s)) s)))"
  by pat_completeness auto
termination by (relation "measure length") auto

declare rune_count.simps [simp del]

lemma valid_utf8_Nil [simp]: "valid_utf8 []"
  by (simp add: valid_utf8.simps)

lemma valid_utf8_ascii_Cons: "byte a < 128 \<Longrightarrow> valid_utf8 (a # s) = valid_utf8 s"
  by (simp add: valid_utf8.simps [of "a # s"])

lemma valid_utf8_ascii: "\<forall>c \<in> set s. byte c < 128 \<Longrightarrow> valid_utf8 s"
  by (induction s) (simp_all add: valid_utf8_ascii_Cons)

section \<open>JSON strings\<close>

text \<open>
  The escaping of \<^verbatim>\<open>encoding/json\<close> (Go 1.26): backspace and form feed have short escapes since
  Go 1.22; \<open>h\<close> is the encoder's escapeHTML flag.
\<close>

definition esc_u00 :: "char \<Rightarrow> string" where
  "esc_u00 c = CHR 0x5C # ''u00'' @ hex_char c"

definition json_escape_ascii :: "bool \<Rightarrow> char \<Rightarrow> string" where
  "json_escape_ascii h c =
     (if c = CHR 0x22 \<or> c = CHR 0x5C then [CHR 0x5C, c]
      else if byte c = 8 then [CHR 0x5C, CHR ''b'']
      else if byte c = 12 then [CHR 0x5C, CHR ''f'']
      else if byte c = 10 then [CHR 0x5C, CHR ''n'']
      else if byte c = 13 then [CHR 0x5C, CHR ''r'']
      else if byte c = 9 then [CHR 0x5C, CHR ''t'']
      else if byte c < 32 \<or> (h \<and> c \<in> set ''<>&'') then esc_u00 c
      else [c])"

definition line_sep :: string where "line_sep = [CHR 0xE2, CHR 0x80, CHR 0xA8]"
definition para_sep :: string where "para_sep = [CHR 0xE2, CHR 0x80, CHR 0xA9]"

definition json_escape_multi :: "string \<Rightarrow> string" where
  "json_escape_multi q =
     (if q = line_sep then CHR 0x5C # ''u2028'' else if q = para_sep then CHR 0x5C # ''u2029'' else q)"

function json_escape :: "bool \<Rightarrow> string \<Rightarrow> string" where
  "json_escape h [] = []"
| "json_escape h (c # s) =
     (if byte c < 128 then json_escape_ascii h c @ json_escape h s
      else let n = utf8_size (c # s) in
        if n = 0 then CHR 0x5C # ''ufffd'' @ json_escape h s
        else json_escape_multi (take n (c # s)) @ json_escape h (drop n (c # s)))"
  by pat_completeness auto
termination by (relation "measure (length \<circ> snd)") auto

declare json_escape.simps(2) [simp del]

definition hex_val :: "char \<Rightarrow> nat" where
  "hex_val c = (if is_digit c then byte c - 48 else byte c - 87)"

text \<open>Reading a string back, up to its closing quote; the rest of the text is returned.\<close>

fun json_unescape :: "string \<Rightarrow> (string \<times> string) option" where
  "json_unescape [] = None"
| "json_unescape (c # s) =
     (if c = CHR 0x22 then Some ([], s)
      else if c = CHR 0x5C then
        (case s of
          [] \<Rightarrow> None
        | d # s' \<Rightarrow>
          if d = CHR ''u'' then
            (case s' of
              e # f # g # k # s'' \<Rightarrow>
                map_option (map_prod (\<lambda>x.
                   (if e = CHR ''0'' then [char_of (16 * hex_val g + hex_val k)]
                    else if k = CHR ''8'' then line_sep else para_sep) @ x) id) (json_unescape s'')
            | _ \<Rightarrow> None)
          else map_option (map_prod (\<lambda>x.
                 (if d = CHR ''b'' then CHR 0x08 else if d = CHR ''f'' then CHR 0x0C
                  else if d = CHR ''n'' then CHR 0x0A else if d = CHR ''r'' then CHR 0x0D
                  else if d = CHR ''t'' then CHR 0x09 else d) # x) id) (json_unescape s'))
      else map_option (map_prod (\<lambda>x. c # x) id) (json_unescape s))"

declare json_unescape.simps(2) [simp del]

lemma hex_val_digit: "n < 16 \<Longrightarrow> hex_val (hex_digit n) = n"
proof -
  assume "n < 16"
  then have "n \<in> set [0..<16]" by simp
  moreover have "\<forall>n \<in> set [0..<16]. hex_val (hex_digit n) = n"
    by (simp add: upt_rec hex_val_def hex_digit_def is_digit_def)
  ultimately show ?thesis by blast
qed

lemma char_eq_byte: "c = d \<longleftrightarrow> byte c = byte d"
  by (simp only: of_char_eq_iff)

lemma json_unescape_u00:
  "json_unescape (esc_u00 c @ t) = map_option (map_prod ((#) c) id) (json_unescape t)"
proof -
  have "byte c div 16 < 16"
    using of_char_less [of c] by (simp add: less_mult_imp_div_less)
  then have "char_of (16 * hex_val (hex_digit (byte c div 16)) + hex_val (hex_digit (byte c mod 16))) = c"
    by (simp add: hex_val_digit)
  moreover have "(@) [c] = (#) c" by (simp add: fun_eq_iff)
  ultimately show ?thesis
    by (simp add: esc_u00_def hex_char_def json_unescape.simps(2))
qed

lemma json_unescape_ascii:
  "json_unescape (json_escape_ascii h c @ t) = map_option (map_prod ((#) c) id) (json_unescape t)"
proof (cases "byte c < 32 \<and> byte c \<notin> {8,9,10,12,13} \<or> (h \<and> c \<in> set ''<>&'')")
  case True
  then have "json_escape_ascii h c = esc_u00 c"
    by (auto simp: json_escape_ascii_def)
  then show ?thesis by (simp add: json_unescape_u00)
next
  case False
  show ?thesis
  proof (cases "byte c < 32")
    case True
    with False have "byte c \<in> {8,9,10,12,13}" by auto
    then have "c \<in> {CHR 0x08, CHR 0x09, CHR 0x0A, CHR 0x0C, CHR 0x0D}"
      by (auto simp: char_eq_byte)
    then show ?thesis
      by (auto simp: json_escape_ascii_def json_unescape.simps(2) fun_eq_iff)
  next
    case big: False
    with False have "json_escape_ascii h c = (if c = CHR 0x22 \<or> c = CHR 0x5C then [CHR 0x5C, c] else [c])"
      by (auto simp: json_escape_ascii_def)
    then show ?thesis
      by (auto simp: json_unescape.simps(2) fun_eq_iff)
  qed
qed

lemma json_unescape_raw:
  "\<forall>c \<in> set q. 128 \<le> byte c \<Longrightarrow>
   json_unescape (q @ t) = map_option (map_prod (\<lambda>x. q @ x) id) (json_unescape t)"
proof (induction q)
  case Nil
  then show ?case by (simp add: map_prod.identity option.map_ident map_prod.id)
next
  case (Cons c q)
  then have "c \<noteq> CHR 0x22" "c \<noteq> CHR 0x5C" by auto
  with Cons show ?case
    by (cases "json_unescape t") (auto simp: json_unescape.simps(2))
qed

lemma json_unescape_multi:
  "\<forall>c \<in> set q. 128 \<le> byte c \<Longrightarrow>
   json_unescape (json_escape_multi q @ t) = map_option (map_prod (\<lambda>x. q @ x) id) (json_unescape t)"
  by (auto simp: json_escape_multi_def json_unescape_raw json_unescape.simps(2))

lemma json_unescape_escape:
  "valid_utf8 s \<Longrightarrow> json_unescape (json_escape h s @ CHR 0x22 # r) = Some (s, r)"
proof (induction h s rule: json_escape.induct)
  case (1 h)
  then show ?case by (simp add: json_unescape.simps(2))
next
  case (2 h c s)
  show ?case
  proof (cases "byte c < 128")
    case True
    with 2 have "json_unescape (json_escape h s @ CHR 0x22 # r) = Some (s, r)"
      by (simp add: valid_utf8_ascii_Cons)
    with True show ?thesis
      by (simp add: json_escape.simps(2) json_unescape_ascii)
  next
    case False
    let ?n = "utf8_size (c # s)"
    from "2.prems" have n: "?n \<noteq> 0" "valid_utf8 (drop ?n (c # s))"
      by (metis list.distinct(1) valid_utf8.simps)+
    with False have raw: "\<forall>x \<in> set (take ?n (c # s)). 128 \<le> byte x"
      using utf8_size_multi(3) [of c s ?n] by simp
    from 2(3) [OF False refl n(1)] n(2)
    have "json_unescape (json_escape h (drop ?n (c # s)) @ CHR 0x22 # r) = Some (drop ?n (c # s), r)"
      by simp
    with False n(1) raw show ?thesis
      by (simp add: json_escape.simps(2) Let_def json_unescape_multi del: take_Suc_Cons)
  qed
qed

section \<open>JSON values\<close>

datatype json =
    JNull | JBool bool | JNum int | JStr string
  | JArr "json list" | JObj "(string \<times> json) list"

definition json_quote :: "bool \<Rightarrow> string \<Rightarrow> string" where
  "json_quote h s = CHR 0x22 # json_escape h s @ [CHR 0x22]"

text \<open>
  The tails \<open>json_elems\<close> and \<open>json_members\<close> write what follows an element: a comma and the next
  element, or the closing bracket.
\<close>

fun json_encode :: "bool \<Rightarrow> json \<Rightarrow> string"
  and json_elems :: "bool \<Rightarrow> json list \<Rightarrow> string"
  and json_members :: "bool \<Rightarrow> (string \<times> json) list \<Rightarrow> string" where
  "json_encode h JNull = ''null''"
| "json_encode h (JBool b) = (if b then ''true'' else ''false'')"
| "json_encode h (JNum i) = itoa i"
| "json_encode h (JStr s) = json_quote h s"
| "json_encode h (JArr []) = ''[]''"
| "json_encode h (JArr (x # xs)) = CHR ''['' # json_encode h x @ json_elems h xs"
| "json_encode h (JObj []) = ''{}''"
| "json_encode h (JObj ((k, v) # ms)) =
     CHR ''{'' # json_quote h k @ CHR '':'' # json_encode h v @ json_members h ms"
| "json_elems h [] = '']''"
| "json_elems h (x # xs) = CHR '','' # json_encode h x @ json_elems h xs"
| "json_members h [] = ''}''"
| "json_members h ((k, v) # ms) =
     CHR '','' # json_quote h k @ CHR '':'' # json_encode h v @ json_members h ms"

fun json_valid :: "json \<Rightarrow> bool"
  and json_valids :: "json list \<Rightarrow> bool"
  and json_validm :: "(string \<times> json) list \<Rightarrow> bool" where
  "json_valid (JStr s) = valid_utf8 s"
| "json_valid (JArr xs) = json_valids xs"
| "json_valid (JObj ms) = json_validm ms"
| "json_valid _ = True"
| "json_valids [] = True"
| "json_valids (x # xs) = (json_valid x \<and> json_valids xs)"
| "json_validm [] = True"
| "json_validm ((k, v) # ms) = (valid_utf8 k \<and> json_valid v \<and> json_validm ms)"

lemma json_valids_iff: "json_valids xs \<longleftrightarrow> (\<forall>x \<in> set xs. json_valid x)"
  by (induction xs) auto

lemma json_quote_split:
  assumes "valid_utf8 s" "valid_utf8 t" "json_quote h s @ r = json_quote h t @ r'"
  shows "s = t \<and> r = r'"
proof -
  from assms(3) have "json_escape h s @ CHR 0x22 # r = json_escape h t @ CHR 0x22 # r'"
    by (simp add: json_quote_def)
  then show ?thesis
    using json_unescape_escape [OF assms(1), of h r] json_unescape_escape [OF assms(2), of h r']
    by (metis option.inject prod.inject)
qed

lemma no_digit_tails [simp]:
  "no_digit (json_elems h xs @ r)" "no_digit (json_members h ms @ r)"
  by (cases xs; simp add: no_digit_def is_digit_def)
    (cases "(h, ms)" rule: json_members.cases; simp add: no_digit_def is_digit_def)

text \<open>What the first character of an encoding says about the value.\<close>

definition json_head :: "json \<Rightarrow> char \<Rightarrow> bool" where
  "json_head v c = (case v of
     JNull \<Rightarrow> c = CHR ''n'' | JBool b \<Rightarrow> c = (if b then CHR ''t'' else CHR ''f'')
   | JNum _ \<Rightarrow> is_digit c \<or> c = CHR ''-'' | JStr _ \<Rightarrow> c = CHR 0x22
   | JArr _ \<Rightarrow> c = CHR ''['' | JObj _ \<Rightarrow> c = CHR ''{'')"

lemma itoa_hd: "is_digit (hd (itoa i @ r)) \<or> hd (itoa i @ r) = CHR ''-''"
  using dec_digits [OF hd_in_set [OF dec_nonempty], of "nat i"] by (simp add: itoa_def)

lemma json_encode_head: "json_head v (hd (json_encode h v @ r))"
  by (cases "(h, v)" rule: json_encode.cases) (auto simp: json_head_def json_quote_def itoa_hd [where r = "[]", simplified])

lemma json_encode_nonempty: "json_encode h v \<noteq> []"
  by (cases "(h, v)" rule: json_encode.cases) (auto simp: json_quote_def)

lemma json_same_shape:
  assumes "json_encode h v @ r = json_encode h w @ r'"
  shows "(case v of JNull \<Rightarrow> w = JNull | JBool b \<Rightarrow> w = JBool b | JNum _ \<Rightarrow> (\<exists>i. w = JNum i)
    | JStr _ \<Rightarrow> (\<exists>s. w = JStr s) | JArr _ \<Rightarrow> (\<exists>s. w = JArr s) | JObj _ \<Rightarrow> (\<exists>s. w = JObj s))"
proof -
  have "json_head v c \<Longrightarrow> json_head w c \<Longrightarrow> ?thesis" for c
    by (cases v; cases w) (auto simp: json_head_def is_digit_def split: if_splits)
  then show ?thesis using json_encode_head assms by metis
qed

lemma json_member_split:
  assumes "valid_utf8 k" "valid_utf8 l" "json_quote h k @ CHR '':'' # s = json_quote h l @ CHR '':'' # t"
  shows "k = l \<and> s = t"
  using json_quote_split [OF assms] by simp

lemma json_close_head:
  "CHR '']'' # r = json_encode h x @ s \<Longrightarrow> False" "json_encode h x @ s = CHR '']'' # r \<Longrightarrow> False"
proof -
  have "\<not> json_head x CHR '']''"
    by (simp add: json_head_def is_digit_def split: json.split)
  then show "CHR '']'' # r = json_encode h x @ s \<Longrightarrow> False" "json_encode h x @ s = CHR '']'' # r \<Longrightarrow> False"
    using json_encode_head [of x h s] by (metis list.sel(1))+
qed

lemma json_obj_close:
  "CHR ''}'' # r = json_quote h k @ s \<Longrightarrow> False" "json_quote h k @ s = CHR ''}'' # r \<Longrightarrow> False"
  by (simp_all add: json_quote_def)

text \<open>
  Injectivity, by induction over the first value; the text after it is arbitrary up to the
  delimiter a number needs.
\<close>

lemma json_encode_split:
  "json_valid v \<Longrightarrow> json_valid w \<Longrightarrow> no_digit r \<Longrightarrow> no_digit r' \<Longrightarrow>
     json_encode h v @ r = json_encode h w @ r' \<Longrightarrow> v = w \<and> r = r'"
  and json_elems_split:
  "json_valids xs \<Longrightarrow> json_valids ys \<Longrightarrow>
     json_elems h xs @ r = json_elems h ys @ r' \<Longrightarrow> xs = ys \<and> r = r'"
  and json_members_split:
  "json_validm ms \<Longrightarrow> json_validm ns \<Longrightarrow>
     json_members h ms @ r = json_members h ns @ r' \<Longrightarrow> ms = ns \<and> r = r'"
proof (induction h v and h xs and h ms arbitrary: w r r' and ys r r' and ns r r'
    rule: json_encode_json_elems_json_members.induct)
  case (1 h)
  then show ?case using json_same_shape [OF "1.prems"(5)] by simp
next
  case (2 h b)
  then show ?case using json_same_shape [OF "2.prems"(5)] by simp
next
  case (3 h i)
  then obtain j where "w = JNum j" using json_same_shape [OF "3.prems"(5)] by auto
  with 3 show ?case using itoa_split [of r r' i j] by simp
next
  case (4 h s)
  then obtain t where "w = JStr t" using json_same_shape [OF "4.prems"(5)] by auto
  with 4 show ?case using json_quote_split [of s t h r r'] by simp
next
  case (5 h)
  then obtain ys where w: "w = JArr ys" using json_same_shape [OF "5.prems"(5)] by auto
  show ?case
  proof (cases ys)
    case (Cons y zs)
    with "5.prems"(5) w json_close_head show ?thesis by auto
  qed (use "5.prems"(5) w in simp)
next
  case (6 h x xs)
  then obtain ys where w: "w = JArr ys" using json_same_shape [OF "6.prems"(5)] by auto
  show ?case
  proof (cases ys)
    case Nil
    with "6.prems"(5) w json_close_head show ?thesis by auto
  next
    case (Cons y zs)
    with w "6.prems" have "x = y \<and> json_elems h xs @ r = json_elems h zs @ r'"
      by (intro "6.IH"(1)) simp_all
    then have "x = y" "xs = zs \<and> r = r'"
      using "6.IH"(2) [of zs r r'] "6.prems" w Cons by simp_all
    with w Cons show ?thesis by simp
  qed
next
  case (7 h)
  then obtain ns where w: "w = JObj ns" using json_same_shape [OF "7.prems"(5)] by auto
  show ?case
  proof (cases ns)
    case (Cons n ns')
    with "7.prems"(5) w json_obj_close show ?thesis by (cases n) auto
  qed (use "7.prems"(5) w in simp)
next
  case (8 h k v ms)
  then obtain ns where w: "w = JObj ns" using json_same_shape [OF "8.prems"(5)] by auto
  show ?case
  proof (cases ns)
    case Nil
    with "8.prems"(5) w json_obj_close show ?thesis by auto
  next
    case (Cons n ns')
    obtain l y where n: "n = (l, y)" by force
    have "k = l \<and> json_encode h v @ json_members h ms @ r = json_encode h y @ json_members h ns' @ r'"
      by (rule json_member_split [of _ _ h]) (use w Cons n "8.prems" in simp_all)
    then have k: "k = l"
      and eq: "json_encode h v @ json_members h ms @ r = json_encode h y @ json_members h ns' @ r'"
      by simp_all
    from eq w Cons n "8.prems" have "v = y \<and> json_members h ms @ r = json_members h ns' @ r'"
      by (intro "8.IH"(1)) simp_all
    then have "v = y" "ms = ns' \<and> r = r'"
      using "8.IH"(2) [of ns' r r'] "8.prems" w Cons n by simp_all
    with w Cons n k show ?thesis by simp
  qed
next
  case (9 h)
  then show ?case by (cases ys) auto
next
  case (10 h x xs)
  show ?case
  proof (cases ys)
    case Nil
    with 10 show ?thesis by simp
  next
    case (Cons y zs)
    with "10.prems" have "x = y \<and> json_elems h xs @ r = json_elems h zs @ r'"
      by (intro "10.IH"(1)) simp_all
    then have "x = y" "xs = zs \<and> r = r'"
      using "10.IH"(2) [of zs r r'] "10.prems" Cons by simp_all
    with Cons show ?thesis by simp
  qed
next
  case (11 h)
  then show ?case by (cases "(h, ns)" rule: json_members.cases) auto
next
  case (12 h k v ms)
  show ?case
  proof (cases ns)
    case Nil
    with 12 show ?thesis by simp
  next
    case (Cons n ns')
    obtain l y where n: "n = (l, y)" by force
    have "k = l \<and> json_encode h v @ json_members h ms @ r = json_encode h y @ json_members h ns' @ r'"
      by (rule json_member_split [of _ _ h]) (use Cons n "12.prems" in simp_all)
    then have k: "k = l"
      and eq: "json_encode h v @ json_members h ms @ r = json_encode h y @ json_members h ns' @ r'"
      by simp_all
    from eq Cons n "12.prems" have "v = y \<and> json_members h ms @ r = json_members h ns' @ r'"
      by (intro "12.IH"(1)) simp_all
    then have "v = y" "ms = ns' \<and> r = r'"
      using "12.IH"(2) [of ns' r r'] "12.prems" Cons n by simp_all
    with Cons n k show ?thesis by simp
  qed
qed

theorem json_encode_inj:
  assumes "json_valid v" "json_valid w" "json_encode h v = json_encode h w"
  shows "v = w"
  using json_encode_split [of v w "[]" "[]" h] assms by (simp add: no_digit_def)

end
