(* ===== verification/Eval_Suite.thy ===== *)
theory Eval_Suite
  imports Api_Types Go_Json "HOL-Library.Word"
begin

text \<open>
  Package \<^verbatim>\<open>internal/evalsuite\<close>: the suite digest (\<^verbatim>\<open>digest.go\<close>) and the threshold and verdict rule
  (\<^verbatim>\<open>threshold.go\<close>).

  The digest is SHA-256 of the canonical JSON of the spec, with the timeout's default applied and
  the cases sorted by id. It is shown invariant under reordering of the cases and, up to a SHA-256
  collision, to determine everything else the suite says. The threshold is read digit by digit as
  thousandths; int64 arithmetic is written out with its wrap-around (\<open>int64\<close>), and the verdict
  rule shown exact on every input the bounds admit.
\<close>

section \<open>Canonical JSON\<close>

text \<open>
  \<^verbatim>\<open>json.Marshal\<close> writes the replacement character for a byte that is not part of valid UTF-8, so
  that is what decoding the marshalled text yields.
\<close>

function utf8_coerce :: "string \<Rightarrow> string" where
  "utf8_coerce s =
     (if s = [] then []
      else if utf8_size s = 0 then [CHR 0xEF, CHR 0xBF, CHR 0xBD] @ utf8_coerce (tl s)
      else take (utf8_size s) s @ utf8_coerce (drop (utf8_size s) s))"
  by pat_completeness auto
termination by (relation "measure length") auto

declare utf8_coerce.simps [simp del]

lemma utf8_coerce_valid: "valid_utf8 s \<Longrightarrow> utf8_coerce s = s"
proof (induction s rule: utf8_coerce.induct)
  case (1 s)
  then show ?case
    by (cases "s = []")
      (simp_all add: utf8_coerce.simps [of s] utf8_coerce.simps [of "[]"] valid_utf8.simps [of s]
        split: if_splits)
qed

text \<open>Decoding into generic maps and encoding again: every object's keys sorted bytewise.\<close>

fun canon :: "json \<Rightarrow> json" where
  "canon (JStr s) = JStr (utf8_coerce s)"
| "canon (JArr xs) = JArr (map canon xs)"
| "canon (JObj ms) = JObj (sort_key fst (map (\<lambda>(k, v). (utf8_coerce k, canon v)) ms))"
| "canon v = v"

definition canonicalJSON :: "json \<Rightarrow> string" where
  "canonicalJSON v = json_encode False (canon v)"

section \<open>The suite digest\<close>

abbreviation (input) DefaultCaseTimeoutSeconds :: int where
  "DefaultCaseTimeoutSeconds \<equiv> 10"

text \<open>\<^verbatim>\<open>omitempty\<close> drops a member holding the zero value of its type.\<close>

definition omit_str :: "string \<Rightarrow> string \<Rightarrow> (string \<times> json) list" where
  "omit_str k s = (if s = [] then [] else [(k, JStr s)])"

definition omit_num :: "string \<Rightarrow> int \<Rightarrow> (string \<times> json) list" where
  "omit_num k i = (if i = 0 then [] else [(k, JNum i)])"

definition omit_arr :: "string \<Rightarrow> json list \<Rightarrow> (string \<times> json) list" where
  "omit_arr k xs = (if xs = [] then [] else [(k, JArr xs)])"

definition omit_bool :: "string \<Rightarrow> bool \<Rightarrow> (string \<times> json) list" where
  "omit_bool k b = (if b then [(k, JBool True)] else [])"

definition omit_ptr :: "string \<Rightarrow> ('a \<Rightarrow> json) \<Rightarrow> 'a option \<Rightarrow> (string \<times> json) list" where
  "omit_ptr k f p = (case p of None \<Rightarrow> [] | Some x \<Rightarrow> [(k, f x)])"

definition expect_json :: "EvalExpect \<Rightarrow> json" where
  "expect_json e = JObj (omit_str ''contains'' (xe_Contains e) @ omit_str ''equals'' (xe_Equals e))"

definition case_json :: "EvalCase \<Rightarrow> json" where
  "case_json c = JObj [(''id'', JStr (ca_ID c)), (''message'', JStr (ca_Message c)),
     (''expect'', expect_json (ca_Expect c))]"

definition metric_json :: "EvalMetric \<Rightarrow> json" where
  "metric_json m = JObj [(''name'', JStr (em_Name m)), (''threshold'', JStr (em_Threshold m))]"

definition suite_json :: "EvalSuiteSpec \<Rightarrow> json" where
  "suite_json s = JObj
     ([(''dataset'', JObj [(''cases'', JArr (map case_json (ds_Cases (su_Dataset s))))])]
      @ omit_arr ''metrics'' (map metric_json (su_Metrics s))
      @ omit_num ''caseTimeoutSeconds'' (su_CaseTimeoutSeconds s))"

text \<open>The normalised spec the digest is of: default applied, cases stably sorted by id.\<close>

definition suite_normal :: "EvalSuiteSpec \<Rightarrow> EvalSuiteSpec" where
  "suite_normal s = s
     \<lparr> su_CaseTimeoutSeconds :=
         (if su_CaseTimeoutSeconds s = 0 then DefaultCaseTimeoutSeconds else su_CaseTimeoutSeconds s),
       su_Dataset := \<lparr> ds_Cases = sort_key ca_ID (ds_Cases (su_Dataset s)) \<rparr> \<rparr>"

definition suite_Digest :: "EvalSuiteSpec \<Rightarrow> string" where
  "suite_Digest s = hex_sum256 (canonicalJSON (suite_json (suite_normal s)))"

section \<open>The threshold and the verdict rule\<close>

text \<open>The two's complement reading of an unbounded integer in 64 bits.\<close>

definition int64 :: "int \<Rightarrow> int" where
  "int64 i = signed_take_bit 63 i"

text \<open>
  The regular expression \<^verbatim>\<open>^(0([.][0-9]{1,3})?|1([.]0{1,3})?)$\<close>.
\<close>

definition thresholdForm :: "string \<Rightarrow> bool" where
  "thresholdForm s = (case s of
     [] \<Rightarrow> False
   | c # t \<Rightarrow> (c = CHR ''0'' \<or> c = CHR ''1'') \<and>
       (t = [] \<or> (hd t = CHR ''.'' \<and> 1 \<le> length (tl t) \<and> length (tl t) \<le> 3 \<and>
          (\<forall>d \<in> set (tl t). if c = CHR ''0'' then is_digit d else d = CHR ''0''))))"

definition dval :: "char \<Rightarrow> int" where
  "dval c = int (of_char c) - 48"

definition Threshold :: "EvalSuiteSpec \<Rightarrow> string + int" where
  "Threshold spec = (case su_Metrics spec of
     [] \<Rightarrow> Inr 1000
   | m # _ \<Rightarrow>
     (let s = em_Threshold m in
      if \<not> thresholdForm s then Inl (msgf ''threshold is not a decimal'' [s])
      else
       let th0 = dval (s ! 0) * 1000;
           th = (if 2 < length s
                 then let frac = drop 2 s @ ''00'' in
                      th0 + (dval (frac ! 0) * 100 + dval (frac ! 1) * 10 + dval (frac ! 2))
                 else th0)
       in if th = 0 then Inl (msgf ''threshold is 0'' [s]) else Inr th))"

definition Passes :: "int \<Rightarrow> int \<Rightarrow> int \<Rightarrow> bool" where
  "Passes passed n threshold =
     (if n \<le> 0 then False
      else int64 (threshold * int64 n) \<le> int64 (int64 passed * 1000))"

text \<open>\<^verbatim>\<open>fmt.Sprintf("%d.%03d", th/1000, th%1000)\<close>; Go's division truncates, and the width pads with
  zeros after a sign.\<close>

definition pad3 :: "int \<Rightarrow> string" where
  "pad3 i = (let d = dec (nat \<bar>i\<bar>); sgn = (if i < 0 then ''-'' else []) in
     sgn @ replicate (3 - length sgn - length d) CHR ''0'' @ d)"

definition go_div :: "int \<Rightarrow> int \<Rightarrow> int" where
  "go_div a b = sgn a * sgn b * (\<bar>a\<bar> div \<bar>b\<bar>)"

definition go_mod :: "int \<Rightarrow> int \<Rightarrow> int" where
  "go_mod a b = sgn a * (\<bar>a\<bar> mod \<bar>b\<bar>)"

definition FormatThreshold :: "int \<Rightarrow> string" where
  "FormatThreshold th = itoa (go_div th 1000) @ ''.'' @ pad3 (go_mod th 1000)"

section \<open>Facts on the threshold\<close>

lemma thresholdForm_cases:
  assumes "thresholdForm s"
  obtains "s = ''0''" | "s = ''1''"
  | a where "s = [CHR ''0'', CHR ''.'', a]" "is_digit a"
  | a b where "s = [CHR ''0'', CHR ''.'', a, b]" "is_digit a" "is_digit b"
  | a b c where "s = [CHR ''0'', CHR ''.'', a, b, c]" "is_digit a" "is_digit b" "is_digit c"
  | n where "s = ''1.'' @ replicate n CHR ''0''" "1 \<le> n" "n \<le> 3"
proof -
  from assms obtain x t where s: "s = x # t" and x: "x = CHR ''0'' \<or> x = CHR ''1''"
    and t: "t = [] \<or> (hd t = CHR ''.'' \<and> 1 \<le> length (tl t) \<and> length (tl t) \<le> 3 \<and>
          (\<forall>d \<in> set (tl t). if x = CHR ''0'' then is_digit d else d = CHR ''0''))"
    by (auto simp: thresholdForm_def split: list.splits)
  show thesis
  proof (cases "t = []")
    case True
    with s x that(1,2) show ?thesis by auto
  next
    case False
    with t obtain u where u: "t = CHR ''.'' # u" "1 \<le> length u" "length u \<le> 3"
      and ds: "\<forall>d \<in> set u. if x = CHR ''0'' then is_digit d else d = CHR ''0''"
      by (cases t) auto
    show ?thesis
    proof (cases "x = CHR ''0''")
      case True
      with u consider a where "u = [a]" | a b where "u = [a, b]" | a b c where "u = [a, b, c]"
        by (auto simp: length_Suc_conv le_Suc_eq numeral_eq_Suc)
      then show ?thesis using that(3-5) s u(1) ds True by cases auto
    next
      case False
      with ds have "u = replicate (length u) CHR ''0''"
        by (metis replicate_eqI)
      with x False s u that(6) [of "length u"] show ?thesis by auto
    qed
  qed
qed

lemma dval_digit: "is_digit c \<Longrightarrow> 0 \<le> dval c \<and> dval c \<le> 9"
  by (simp add: dval_def is_digit_def)

lemma dval_digit_val: "is_digit c \<Longrightarrow> int (digit_val c) = dval c"
  by (simp add: dval_def digit_val_def is_digit_def)

text \<open>What the digits of an admitted threshold denote, as numerator over a power of ten.\<close>

definition threshold_frac :: "string \<Rightarrow> string" where
  "threshold_frac s = drop 2 s"

definition threshold_num :: "string \<Rightarrow> nat" where
  "threshold_num s = undec (take 1 s @ threshold_frac s)"

definition threshold_of :: "string \<Rightarrow> int" where
  "threshold_of s = (let frac = drop 2 s @ ''00'' in
     dval (s ! 0) * 1000 + (if 2 < length s
       then dval (frac ! 0) * 100 + dval (frac ! 1) * 10 + dval (frac ! 2) else 0))"

lemma Threshold_alt:
  "Threshold spec = (case su_Metrics spec of [] \<Rightarrow> Inr 1000 | m # _ \<Rightarrow>
     if \<not> thresholdForm (em_Threshold m) then Inl (msgf ''threshold is not a decimal'' [em_Threshold m])
     else if threshold_of (em_Threshold m) = 0 then Inl (msgf ''threshold is 0'' [em_Threshold m])
     else Inr (threshold_of (em_Threshold m)))"
  by (simp add: Threshold_def threshold_of_def Let_def split: list.split)

lemma threshold_of_bounds:
  assumes "thresholdForm s"
  shows "0 \<le> threshold_of s" "threshold_of s \<le> 1000"
proof -
  have "0 \<le> threshold_of s \<and> threshold_of s \<le> 1000"
    using assms
  proof (cases rule: thresholdForm_cases)
    case (6 n)
    then have "n = 1 \<or> n = 2 \<or> n = 3" by auto
    with 6 show ?thesis by (auto simp: threshold_of_def dval_def numeral_eq_Suc)
  qed (auto dest!: dval_digit simp: threshold_of_def dval_def [of "CHR ''0''"] dval_def [of "CHR ''1''"])
  then show "0 \<le> threshold_of s" "threshold_of s \<le> 1000" by auto
qed

lemma threshold_of_exact:
  assumes "thresholdForm s"
  shows "threshold_of s * 10 ^ length (threshold_frac s) = int (threshold_num s) * 1000"
  using assms
proof (cases rule: thresholdForm_cases)
  case (6 n)
  then have "n = 1 \<or> n = 2 \<or> n = 3" by auto
  with 6 show ?thesis
    by (auto simp: threshold_of_def threshold_num_def threshold_frac_def dval_def undec_def
        digit_val_def numeral_eq_Suc)
qed (auto simp: threshold_of_def threshold_num_def threshold_frac_def undec_def
      dval_digit_val dval_def [of "CHR ''0''"] dval_def [of "CHR ''1''"] digit_val_def [of "CHR ''0''"]
      digit_val_def [of "CHR ''1''"])

lemma Threshold_bounds:
  "Threshold spec = Inr th \<Longrightarrow> 0 < th \<and> th \<le> 1000"
  using threshold_of_bounds
  by (force simp: Threshold_alt split: list.splits if_splits)

section \<open>Facts on the verdict rule\<close>

lemma int64_id: "- 9223372036854775808 \<le> i \<Longrightarrow> i < 9223372036854775808 \<Longrightarrow> int64 i = i"
  by (simp add: int64_def signed_take_bit_int_eq_self)

lemma Passes_iff:
  assumes "0 < th" "th \<le> 1000" "0 \<le> passed" "passed \<le> n" "n \<le> 9223372036854775"
  shows "Passes passed n th \<longleftrightarrow> 0 < n \<and> th * n \<le> passed * 1000"
proof (cases "0 < n")
  case True
  have "th * n \<le> 1000 * n" using assms True by simp
  moreover have "0 \<le> th * n" using assms True by simp
  ultimately have "int64 (th * n) = th * n"
    using assms(5) by - (rule int64_id; linarith)
  moreover have "int64 n = n" "int64 passed = passed" "int64 (passed * 1000) = passed * 1000"
    using assms by (auto intro!: int64_id)
  ultimately show ?thesis using True by (simp add: Passes_def)
qed (simp add: Passes_def)

lemma Passes_bounds:
  assumes "0 < th" "th \<le> 1000" "0 < n" "n \<le> 9223372036854775"
  shows "Passes n n th" "\<not> Passes 0 n th"
  using assms Passes_iff [of th n n] Passes_iff [of th 0 n] by (auto simp: mult.commute mult_le_0_iff)

section \<open>Rendering a threshold\<close>

lemma dec_small: "n < 10 \<Longrightarrow> dec n = [digit_char n]"
  by (simp add: dec.simps [of n])

lemma digit_char_01: "digit_char 0 = CHR ''0''" "digit_char (Suc 0) = CHR ''1''"
  by (simp_all add: char_eq_byte digit_char_def)

lemma pad3_digits:
  assumes "0 \<le> i" "i < 1000"
  shows "pad3 i = [digit_char (nat i div 100), digit_char (nat i div 10 mod 10), digit_char (nat i mod 10)]"
proof -
  let ?n = "nat i"
  have abs: "nat \<bar>i\<bar> = ?n" "\<not> i < 0" using assms by simp_all
  have rep2: "replicate 2 CHR ''0'' = ''00''" by (simp add: numeral_2_eq_2)
  consider "?n < 10" | "10 \<le> ?n" "?n < 100" | "100 \<le> ?n" "?n < 1000" using assms by linarith
  then show ?thesis
  proof cases
    case 1
    then have "?n div 100 = 0" "?n div 10 mod 10 = 0" "?n mod 10 = ?n" by simp_all
    then show ?thesis using abs 1 by (simp add: pad3_def dec_small digit_char_01 rep2)
  next
    case 2
    then have d: "?n div 10 < 10" "?n div 100 = 0" "?n div 10 mod 10 = ?n div 10" by auto
    then have "dec ?n = [digit_char (?n div 10), digit_char (?n mod 10)]"
      using 2 by (simp add: dec.simps [of ?n] dec_small)
    then show ?thesis using abs d by (simp add: pad3_def digit_char_01)
  next
    case 3
    then have "\<not> ?n div 10 < 10" "?n div 10 div 10 < 10" by auto
    then have "dec ?n = [digit_char (?n div 10 div 10), digit_char (?n div 10 mod 10), digit_char (?n mod 10)]"
      using 3 by (simp add: dec.simps [of ?n] dec.simps [of "?n div 10"] dec_small)
    then show ?thesis using abs by (simp add: pad3_def flip: div_mult2_eq)
  qed
qed

lemma dval_digit_char: "n < 10 \<Longrightarrow> dval (digit_char n) = int n"
  by (simp add: dval_def digit_char_def)

lemma FormatThreshold_form:
  assumes "0 < th" "th \<le> 1000"
  shows "thresholdForm (FormatThreshold th)" "threshold_of (FormatThreshold th) = th"
proof -
  let ?n = "nat th"
  have "thresholdForm (FormatThreshold th) \<and> threshold_of (FormatThreshold th) = th"
  proof (cases "th = 1000")
    case True
    then have "FormatThreshold th = ''1.000''"
      by (simp add: FormatThreshold_def go_div_def go_mod_def itoa_def dec_small digit_char_01 pad3_digits)
    then show ?thesis using True by (simp add: thresholdForm_def threshold_of_def dval_def)
  next
    case False
    then have n: "?n < 1000" using assms by simp
    have "go_div th 1000 = 0" "go_mod th 1000 = th"
      using assms False by (simp_all add: go_div_def go_mod_def)
    then have f: "FormatThreshold th = [CHR ''0'', CHR ''.'', digit_char (?n div 100),
        digit_char (?n div 10 mod 10), digit_char (?n mod 10)]"
      using assms False
      by (simp add: FormatThreshold_def itoa_def dec_small digit_char_01 pad3_digits)
    have b: "?n div 100 < 10" "?n div 10 mod 10 < 10" "?n mod 10 < 10" using n by auto
    have "?n div 10 div 10 = ?n div 100" by (simp flip: div_mult2_eq)
    then have "?n div 100 * 100 + ?n div 10 mod 10 * 10 + ?n mod 10 = ?n"
      using div_mult_mod_eq [of ?n 10] div_mult_mod_eq [of "?n div 10" 10] by linarith
    then have "int (?n div 100) * 100 + int (?n div 10 mod 10) * 10 + int (?n mod 10) = int ?n"
      by linarith
    then have "threshold_of (FormatThreshold th) = th"
      using assms b unfolding f threshold_of_def
      by (simp add: dval_digit_char dval_def [of "CHR ''0''"] del: of_nat_mod of_nat_div)
    moreover have "thresholdForm (FormatThreshold th)"
      using b unfolding f by (simp add: thresholdForm_def is_digit_char)
    ultimately show ?thesis by simp
  qed
  then show "thresholdForm (FormatThreshold th)" "threshold_of (FormatThreshold th) = th" by simp_all
qed

section \<open>Facts on the suite digest\<close>

lemma map_of_sort_key:
  assumes "distinct (map fst ms)"
  shows "map_of (sort_key fst ms) = map_of ms"
proof (rule map_of_eqI)
  show "set (map fst (sort_key fst ms)) = set (map fst ms)" by simp
  have "distinct (map fst (sort_key fst ms))"
    using assms by (simp add: distinct_map)
  with assms show "\<forall>k \<in> set (map fst (sort_key fst ms)). map_of (sort_key fst ms) k = map_of ms k"
    by (auto simp: map_of_eq_Some_iff)
qed

text \<open>
  A canonical object determines its members: the member under a key, canonical itself, is read off
  with \<open>json_field\<close>.
\<close>

definition json_field :: "string \<Rightarrow> json \<Rightarrow> json option" where
  "json_field k v = (case v of JObj ms \<Rightarrow> map_of ms k | _ \<Rightarrow> None)"

definition keys_ok :: "(string \<times> json) list \<Rightarrow> bool" where
  "keys_ok ms \<longleftrightarrow> distinct (map fst ms) \<and> (\<forall>k \<in> set (map fst ms). valid_utf8 k)"

lemma json_field_canon:
  assumes "keys_ok ms"
  shows "json_field k (canon (JObj ms)) = map_option canon (map_of ms k)"
proof -
  from assms have eq: "map (\<lambda>(k, v). (utf8_coerce k, canon v)) ms = map (\<lambda>(k, v). (k, canon v)) ms"
    by (auto simp: utf8_coerce_valid keys_ok_def)
  have "map fst (map (\<lambda>(k, v). (k, canon v)) ms) = map fst ms" by (induction ms) auto
  with assms have "map_of (sort_key fst (map (\<lambda>(k, v). (k, canon v)) ms)) = map_of (map (\<lambda>(k, v). (k, canon v)) ms)"
    by (intro map_of_sort_key) (simp add: keys_ok_def del: map_map)
  then show ?thesis by (simp only: json_field_def canon.simps json.case eq map_of_map comp_def)
qed

lemmas omit_defs = omit_str_def omit_num_def omit_arr_def omit_bool_def omit_ptr_def

lemma ascii_lit [simp]: "byte a < 128 \<Longrightarrow> valid_utf8 (a # s) = valid_utf8 s"
  by (rule valid_utf8_ascii_Cons)

definition expect_valid :: "EvalExpect \<Rightarrow> bool" where
  "expect_valid e \<longleftrightarrow> valid_utf8 (xe_Contains e) \<and> valid_utf8 (xe_Equals e)"

definition case_valid :: "EvalCase \<Rightarrow> bool" where
  "case_valid c \<longleftrightarrow> valid_utf8 (ca_ID c) \<and> valid_utf8 (ca_Message c) \<and> expect_valid (ca_Expect c)"

definition metric_valid :: "EvalMetric \<Rightarrow> bool" where
  "metric_valid m \<longleftrightarrow> valid_utf8 (em_Name m) \<and> valid_utf8 (em_Threshold m)"

definition suite_valid :: "EvalSuiteSpec \<Rightarrow> bool" where
  "suite_valid s \<longleftrightarrow> list_all case_valid (ds_Cases (su_Dataset s)) \<and>
     list_all metric_valid (su_Metrics s)"

lemma json_field_expect:
  "json_field k (canon (expect_json e)) =
     (if k = ''contains'' \<and> xe_Contains e \<noteq> [] then Some (JStr (utf8_coerce (xe_Contains e)))
      else if k = ''equals'' \<and> xe_Equals e \<noteq> [] then Some (JStr (utf8_coerce (xe_Equals e))) else None)"
  unfolding expect_json_def by (subst json_field_canon) (auto simp: omit_defs keys_ok_def)

lemma expect_json_inj:
  assumes "canon (expect_json a) = canon (expect_json b)" "expect_valid a" "expect_valid b"
  shows "a = b"
proof -
  have "json_field k (canon (expect_json a)) = json_field k (canon (expect_json b))" for k
    using assms(1) by simp
  from this [of "''contains''"] this [of "''equals''"] assms(2,3)
  have "xe_Contains a = xe_Contains b" "xe_Equals a = xe_Equals b"
    by (auto simp: json_field_expect expect_valid_def utf8_coerce_valid split: if_splits)
  then show ?thesis by simp
qed

lemma json_field_case:
  "json_field ''id'' (canon (case_json c)) = Some (JStr (utf8_coerce (ca_ID c)))"
  "json_field ''message'' (canon (case_json c)) = Some (JStr (utf8_coerce (ca_Message c)))"
  "json_field ''expect'' (canon (case_json c)) = Some (canon (expect_json (ca_Expect c)))"
  unfolding case_json_def by (subst json_field_canon; simp add: keys_ok_def)+

lemma case_json_inj:
  assumes "canon (case_json a) = canon (case_json b)" "case_valid a" "case_valid b"
  shows "a = b"
proof -
  have "json_field k (canon (case_json a)) = json_field k (canon (case_json b))" for k
    using assms(1) by simp
  from this [of "''id''"] this [of "''message''"] this [of "''expect''"] assms(2,3)
  have "ca_ID a = ca_ID b" "ca_Message a = ca_Message b" "ca_Expect a = ca_Expect b"
    by (auto simp: json_field_case case_valid_def utf8_coerce_valid intro: expect_json_inj)
  then show ?thesis by simp
qed

lemma json_field_metric:
  "json_field ''name'' (canon (metric_json m)) = Some (JStr (utf8_coerce (em_Name m)))"
  "json_field ''threshold'' (canon (metric_json m)) = Some (JStr (utf8_coerce (em_Threshold m)))"
  unfolding metric_json_def by (subst json_field_canon; simp add: keys_ok_def)+

lemma metric_json_inj:
  assumes "canon (metric_json a) = canon (metric_json b)" "metric_valid a" "metric_valid b"
  shows "a = b"
proof -
  have "json_field k (canon (metric_json a)) = json_field k (canon (metric_json b))" for k
    using assms(1) by simp
  from this [of "''name''"] this [of "''threshold''"] assms(2,3)
  have "em_Name a = em_Name b" "em_Threshold a = em_Threshold b"
    by (auto simp: json_field_metric metric_valid_def utf8_coerce_valid)
  then show ?thesis by simp
qed

lemma map_canon_inj:
  assumes "map (canon \<circ> f) xs = map (canon \<circ> f) ys" "list_all P xs" "list_all P ys"
    and "\<And>a b. canon (f a) = canon (f b) \<Longrightarrow> P a \<Longrightarrow> P b \<Longrightarrow> a = b"
  shows "xs = ys"
  using assms(1-3)
proof (induction xs arbitrary: ys)
  case (Cons x xs)
  then show ?case using assms(4) by (cases ys) auto
qed simp

lemma json_field_suite:
  "json_field ''dataset'' (canon (suite_json s)) =
     Some (canon (JObj [(''cases'', JArr (map case_json (ds_Cases (su_Dataset s))))]))"
  "json_field ''metrics'' (canon (suite_json s)) =
     (if su_Metrics s = [] then None else Some (JArr (map (canon \<circ> metric_json) (su_Metrics s))))"
  "json_field ''caseTimeoutSeconds'' (canon (suite_json s)) =
     (if su_CaseTimeoutSeconds s = 0 then None else Some (JNum (su_CaseTimeoutSeconds s)))"
  unfolding suite_json_def by (subst json_field_canon; simp add: keys_ok_def omit_defs)+

lemma suite_json_inj:
  assumes "canon (suite_json s) = canon (suite_json t)" "suite_valid s" "suite_valid t"
  shows "s = t"
proof -
  have f: "json_field k (canon (suite_json s)) = json_field k (canon (suite_json t))" for k
    using assms(1) by simp
  have "map (canon \<circ> case_json) (ds_Cases (su_Dataset s)) = map (canon \<circ> case_json) (ds_Cases (su_Dataset t))"
    using f [of "''dataset''"] by (simp add: json_field_suite)
  then have "ds_Cases (su_Dataset s) = ds_Cases (su_Dataset t)"
    using assms(2,3) case_json_inj unfolding suite_valid_def by (blast intro: map_canon_inj)
  moreover have "map (canon \<circ> metric_json) (su_Metrics s) = map (canon \<circ> metric_json) (su_Metrics t)"
    using f [of "''metrics''"] by (simp add: json_field_suite split: if_splits)
  then have "su_Metrics s = su_Metrics t"
    using assms(2,3) metric_json_inj unfolding suite_valid_def by (blast intro: map_canon_inj)
  moreover have "su_CaseTimeoutSeconds s = su_CaseTimeoutSeconds t"
    using f [of "''caseTimeoutSeconds''"] by (simp add: json_field_suite split: if_splits)
  ultimately show ?thesis by simp
qed

lemma json_validm_iff: "json_validm ms \<longleftrightarrow> (\<forall>(k, v) \<in> set ms. valid_utf8 k \<and> json_valid v)"
  by (induction ms) auto

lemma canon_valid: "json_valid v \<Longrightarrow> json_valid (canon v)"
  by (induction v rule: canon.induct)
    (auto simp: json_valids_iff json_validm_iff utf8_coerce_valid)

lemma suite_json_valid: "suite_valid s \<Longrightarrow> json_valid (suite_json s)"
  by (auto simp: suite_valid_def suite_json_def case_json_def metric_json_def expect_json_def
      case_valid_def expect_valid_def metric_valid_def omit_defs json_valids_iff json_validm_iff
      list_all_iff)

lemma suite_valid_normal: "suite_valid (suite_normal s) = suite_valid s"
  by (simp add: suite_valid_def suite_normal_def list_all_iff)

text \<open>Two suites with one digest are one normalised suite, or exhibit a SHA-256 collision.\<close>

interpretation suite_id: digest_identity
  "\<lambda>s. canonicalJSON (suite_json (suite_normal s))" suite_valid suite_normal
proof
  fix s t
  assume v: "suite_valid s" "suite_valid t"
    and "canonicalJSON (suite_json (suite_normal s)) = canonicalJSON (suite_json (suite_normal t))"
  moreover have "json_valid (canon (suite_json (suite_normal u)))" if "suite_valid u" for u
    using that by (simp add: canon_valid suite_json_valid suite_valid_normal)
  ultimately have "canon (suite_json (suite_normal s)) = canon (suite_json (suite_normal t))"
    using json_encode_inj unfolding canonicalJSON_def by blast
  then show "suite_normal s = suite_normal t" using suite_json_inj v by (simp add: suite_valid_normal)
qed

lemma suite_normal_perm:
  assumes "mset (ds_Cases (su_Dataset s)) = mset (ds_Cases (su_Dataset t))"
    and "distinct (map ca_ID (ds_Cases (su_Dataset s)))"
    and "su_Metrics s = su_Metrics t"
    and "su_CaseTimeoutSeconds (suite_normal s) = su_CaseTimeoutSeconds (suite_normal t)"
  shows "suite_normal s = suite_normal t"
  using assms sort_key_perm_unique [OF assms(1,2)]
  by (simp add: suite_normal_def)

section \<open>Properties of the suite rules\<close>

definition sample_case :: "string \<Rightarrow> EvalCase" where
  "sample_case i = \<lparr> ca_ID = i, ca_Message = ''status'', ca_Expect = \<lparr> xe_Contains = '''', xe_Equals = ''ok'' \<rparr> \<rparr>"

definition sample_suite :: "string list \<Rightarrow> string \<Rightarrow> int \<Rightarrow> EvalSuiteSpec" where
  "sample_suite ids th tmo = \<lparr> su_Dataset = \<lparr> ds_Cases = map sample_case ids \<rparr>,
     su_Metrics = [\<lparr> em_Name = ''task_completion'', em_Threshold = th \<rparr>], su_CaseTimeoutSeconds = tmo \<rparr>"

lemmas sample_defs = sample_case_def sample_suite_def

text \<open>
  \<open>Threshold\<close> reads an admitted threshold exactly and refuses every other: with a metric, it
  returns a value if and only if the string has the admitted form and is not zero; the value is
  between 1 and 1000, and as thousandths it is the decimal number written, no digit rounded.
\<close>

theorem Threshold_exact:
  assumes "su_Metrics spec = m # ms"
  shows "((\<exists>th. Threshold spec = Inr th) \<longleftrightarrow>
      thresholdForm (em_Threshold m) \<and> threshold_num (em_Threshold m) \<noteq> 0) \<and>
    (\<forall>th. Threshold spec = Inr th \<longrightarrow> 0 < th \<and> th \<le> 1000 \<and>
      th * 10 ^ length (threshold_frac (em_Threshold m)) = int (threshold_num (em_Threshold m)) * 1000)"
proof (intro conjI allI impI)
  show "(\<exists>th. Threshold spec = Inr th) \<longleftrightarrow>
      thresholdForm (em_Threshold m) \<and> threshold_num (em_Threshold m) \<noteq> 0"
    using assms threshold_of_exact [of "em_Threshold m"]
    by (cases "threshold_num (em_Threshold m) = 0") (auto simp: Threshold_alt)
  fix th assume th: "Threshold spec = Inr th"
  then show "0 < th" "th \<le> 1000" using Threshold_bounds by blast+
  show "th * 10 ^ length (threshold_frac (em_Threshold m)) = int (threshold_num (em_Threshold m)) * 1000"
    using th assms threshold_of_exact [of "em_Threshold m"]
    by (auto simp: Threshold_alt split: if_splits)
qed

theorem Threshold_exact_witness:
  "Threshold (sample_suite [''a''] ''0.66'' 10) = Inr 660 \<and>
   660 * 10 ^ length (threshold_frac ''0.66'') = int (threshold_num ''0.66'') * 1000"
proof -
  have th: "Threshold (sample_suite [''a''] ''0.66'' 10) = Inr 660"
    by (simp add: sample_defs Threshold_def thresholdForm_def is_digit_def dval_def Let_def)
  show ?thesis
    using th Threshold_exact [of "sample_suite [''a''] ''0.66'' 10"] by (auto simp: sample_suite_def)
qed

text \<open>
  The verdict rule decides the rational inequality \<^verbatim>\<open>threshold/1000 <= passed/total\<close> exactly,
  in int64 arithmetic with its wrap-around, for every threshold \<open>Threshold\<close> returns and every
  count up to \<^verbatim>\<open>MaxInt64 / 1000\<close>; a run with no cases never passes, and one with every case passed
  always does.
\<close>

theorem Passes_exact:
  assumes "Threshold spec = Inr th" "0 \<le> passed" "passed \<le> n" "n \<le> 9223372036854775"
  shows "(Passes passed n th \<longleftrightarrow> 0 < n \<and> th * n \<le> passed * 1000) \<and>
    (Passes n n th \<longleftrightarrow> 0 < n) \<and> \<not> Passes 0 n th"
proof (intro conjI)
  note b = Threshold_bounds [OF assms(1)]
  show "Passes passed n th \<longleftrightarrow> 0 < n \<and> th * n \<le> passed * 1000"
    using b assms(2-4) by (intro Passes_iff) auto
  show "Passes n n th \<longleftrightarrow> 0 < n" "\<not> Passes 0 n th"
    using b assms(2-4) Passes_bounds [of th n] by (auto simp: Passes_def)
qed

theorem Passes_exact_witness:
  "Threshold (sample_suite [''a''] ''0.666'' 10) = Inr 666 \<and> Passes 2 3 666 \<and> \<not> Passes 2 3 667"
proof -
  have th: "Threshold (sample_suite [''a''] ''0.666'' 10) = Inr 666"
    "Threshold (sample_suite [''a''] ''0.667'' 10) = Inr 667"
    by (simp_all add: sample_defs Threshold_def thresholdForm_def is_digit_def dval_def Let_def)
  show ?thesis
    using th Passes_exact [OF th(1), of 2 3] Passes_exact [OF th(2), of 2 3] by simp
qed

text \<open>
  \<open>FormatThreshold\<close> and \<open>Threshold\<close> are inverse: what a message prints for a threshold is a
  string admission accepts, and reading it gives the threshold back.
\<close>

theorem FormatThreshold_roundtrip:
  assumes "Threshold spec = Inr th" "su_Metrics spec' = [m]" "em_Threshold m = FormatThreshold th"
  shows "Threshold spec' = Inr th"
  using assms(2,3) Threshold_bounds [OF assms(1)] FormatThreshold_form [of th]
  by (simp add: Threshold_alt)

theorem FormatThreshold_roundtrip_witness:
  "Threshold (sample_suite [''a''] (FormatThreshold 660) 10) = Inr 660"
proof -
  have th: "Threshold (sample_suite [''a''] ''0.66'' 10) = Inr 660"
    by (simp add: sample_defs Threshold_def thresholdForm_def is_digit_def dval_def Let_def)
  show ?thesis
    by (rule FormatThreshold_roundtrip [OF th,
          of _ "\<lparr> em_Name = ''task_completion'', em_Threshold = FormatThreshold 660 \<rparr>"])
      (simp_all add: sample_suite_def)
qed

text \<open>
  The suite digest does not depend on the order in which the cases are written, nor on whether
  the timeout's default was written: suites whose cases are a permutation of each other (ids being
  distinct, as admission requires) digest the same.
\<close>

theorem suite_Digest_order:
  assumes "mset (ds_Cases (su_Dataset s)) = mset (ds_Cases (su_Dataset t))"
    and "distinct (map ca_ID (ds_Cases (su_Dataset s)))"
    and "su_Metrics s = su_Metrics t"
    and "su_CaseTimeoutSeconds s = su_CaseTimeoutSeconds t \<or>
         (su_CaseTimeoutSeconds s = 0 \<and> su_CaseTimeoutSeconds t = DefaultCaseTimeoutSeconds)"
  shows "suite_Digest s = suite_Digest t"
proof -
  have "suite_normal s = suite_normal t"
    using assms by (intro suite_normal_perm) (auto simp: suite_normal_def)
  then show ?thesis by (simp add: suite_Digest_def)
qed

theorem suite_Digest_order_witness:
  "suite_Digest (sample_suite [''b'', ''a''] ''0.5'' 0) = suite_Digest (sample_suite [''a'', ''b''] ''0.5'' 10)"
  by (rule suite_Digest_order) (simp_all add: sample_defs)

text \<open>
  The suite digest is sensitive to everything else: two suites of one digest have the same
  cases up to order, the same metrics and the same effective timeout, or they exhibit a collision
  of SHA-256 itself.
\<close>

theorem suite_Digest_sensitive:
  assumes "suite_Digest s = suite_Digest t" "suite_valid s" "suite_valid t"
    and "\<not> sha256_collision (canonicalJSON (suite_json (suite_normal s)))
                            (canonicalJSON (suite_json (suite_normal t)))"
  shows "mset (ds_Cases (su_Dataset s)) = mset (ds_Cases (su_Dataset t)) \<and>
     su_Metrics s = su_Metrics t \<and>
     su_CaseTimeoutSeconds (suite_normal s) = su_CaseTimeoutSeconds (suite_normal t)"
proof -
  have eq: "suite_normal s = suite_normal t"
    by (rule suite_id.digest_eq_normal [OF assms(1) [unfolded suite_Digest_def] assms(2-4)])
  have "ds_Cases (su_Dataset (suite_normal u)) = sort_key ca_ID (ds_Cases (su_Dataset u))"
    "su_Metrics (suite_normal u) = su_Metrics u" for u
    by (simp_all add: suite_normal_def)
  then have "sort_key ca_ID (ds_Cases (su_Dataset s)) = sort_key ca_ID (ds_Cases (su_Dataset t))"
    "su_Metrics s = su_Metrics t"
    using eq by metis+
  then show ?thesis using eq by (metis mset_sort)
qed

theorem suite_Digest_sensitive_witness:
  "mset (ds_Cases (su_Dataset (sample_suite [''b'', ''a''] ''0.5'' 0))) =
   mset (ds_Cases (su_Dataset (sample_suite [''a'', ''b''] ''0.5'' 10)))"
proof -
  let ?s = "sample_suite [''b'', ''a''] ''0.5'' 0" and ?t = "sample_suite [''a'', ''b''] ''0.5'' 10"
  have n: "suite_normal ?s = suite_normal ?t"
    by (simp add: suite_normal_def sample_defs)
  have "suite_valid ?s" "suite_valid ?t"
    by (simp_all add: suite_valid_def case_valid_def expect_valid_def metric_valid_def sample_defs)
  with n show ?thesis
    using suite_Digest_sensitive [of ?s ?t] by (simp add: suite_Digest_def sha256_collision_def)
qed

end
