(* ===== verification/Revision.thy ===== *)
theory Revision
  imports Eval_Suite "HOL-Library.Product_Lexorder"
begin

text \<open>
  Package \<^verbatim>\<open>internal/revision\<close>: the identity of a revision.

  \<^item> \<^verbatim>\<open>sources.go\<close>: which ConfigMaps and Secrets a spec's runtime reads (\<open>EnvSources\<close>), the arms it
    cannot name (\<open>UnknownEnvArms\<close>), what is not resolved (\<open>MissingSources\<close>), and the digest of a
    source's content (\<open>ContentDigest\<close>).
  \<^item> \<^verbatim>\<open>revision.go\<close>: the projection of a spec on its behaviour (\<open>project\<close>), its encoding
    (\<open>rev_encode\<close>), the 256-bit identity (\<open>rev_Digest\<close>) and the 10-character name (\<open>rev_Hash\<close>).
  \<^item> \<^verbatim>\<open>leaves.go\<close>: the classification of the spec's leaves.

  Resolved sources are a finite map from a reference to a content digest, as in the code.
\<close>

section \<open>Sources of a runtime's environment\<close>

record SourceRef =
  sr_Kind :: string
  sr_Name :: string

definition SourceRef_String :: "SourceRef \<Rightarrow> string" where
  "SourceRef_String r = sr_Kind r @ ''/'' @ sr_Name r"

type_synonym Resolved = "SourceRef \<rightharpoonup> string"

text \<open>
  \<open>ContentDigest\<close> hashes both maps in sorted key order, every key and value preceded by its
  length. A Go map is an association list with distinct keys; its order is immaterial.
\<close>

definition data_entry :: "string \<times> string \<Rightarrow> string" where
  "data_entry kv = ''data:'' @ dec (length (fst kv)) @ '':'' @ fst kv @ ''='' @
     dec (length (snd kv)) @ '':'' @ snd kv @ [CHR 0x0A]"

definition binary_entry :: "string \<times> string \<Rightarrow> string" where
  "binary_entry kv = ''binaryData:'' @ dec (length (fst kv)) @ '':'' @ fst kv @ ''='' @
     dec (length (snd kv)) @ '':'' @ snd kv @ [CHR 0x0A]"

definition content_preimage :: "(string \<times> string) list \<Rightarrow> (string \<times> string) list \<Rightarrow> string" where
  "content_preimage data binary =
     concat (map data_entry (sort_key fst data)) @ concat (map binary_entry (sort_key fst binary))"

definition ContentDigest :: "(string \<times> string) list \<Rightarrow> (string \<times> string) list \<Rightarrow> string" where
  "ContentDigest data binary = hex_sum256 (content_preimage data binary)"

text \<open>The closure \<^verbatim>\<open>add\<close> of \<^verbatim>\<open>EnvSources\<close>: append unless seen.\<close>

definition add_source :: "string \<Rightarrow> string option \<Rightarrow> SourceRef list \<Rightarrow> SourceRef list" where
  "add_source kind name out = (case name of
     None \<Rightarrow> out
   | Some n \<Rightarrow> let r = \<lparr> sr_Kind = kind, sr_Name = n \<rparr> in if r \<in> set out then out else out @ [r])"

definition EnvSources :: "AgentSpec \<Rightarrow> SourceRef list" where
  "EnvSources spec = (case sp_Runtime spec of
     None \<Rightarrow> []
   | Some rt \<Rightarrow>
     (let out = fold (\<lambda>f out. add_source ''Secret'' (ef_SecretRef f)
                        (add_source ''ConfigMap'' (ef_ConfigMapRef f) out)) (rt_EnvFrom rt) [];
          out = fold (\<lambda>e out. case ev_ValueFrom e of
                  None \<Rightarrow> out
                | Some v \<Rightarrow> add_source ''Secret'' (vf_SecretKeyRef v)
                              (add_source ''ConfigMap'' (vf_ConfigMapKeyRef v) out)) (rt_Env rt) out
      in sort_key SourceRef_String out))"

definition UnknownEnvArms :: "AgentSpec \<Rightarrow> string list" where
  "UnknownEnvArms spec = (case sp_Runtime spec of
     None \<Rightarrow> []
   | Some rt \<Rightarrow>
     map (\<lambda>_. ''envFrom entry with no recognised source'')
       (filter (\<lambda>f. ef_ConfigMapRef f = None \<and> ef_SecretRef f = None) (rt_EnvFrom rt)) @
     map (\<lambda>e. ''env.'' @ ev_Name e @ '' valueFrom arm not recognised by this operator'')
       (filter (\<lambda>e. case ev_ValueFrom e of
            None \<Rightarrow> False
          | Some v \<Rightarrow> \<not> (vf_ConfigMapKeyRef v \<noteq> None \<or> vf_SecretKeyRef v \<noteq> None \<or>
                        vf_FieldRef v \<or> vf_ResourceFieldRef v)) (rt_Env rt)))"

definition MissingSources :: "AgentSpec \<Rightarrow> Resolved \<Rightarrow> SourceRef list" where
  "MissingSources spec resolved = filter (\<lambda>r. resolved r = None) (EnvSources spec)"

section \<open>The behaviour projection\<close>

record rv_loop =
  rvl_AllowReentry :: bool
  rvl_MaxVisits :: int

record rv_envVar =
  rve_Name :: string
  rve_Value :: string
  rve_ValueFrom :: "string option"

record rv_knowledgeBind =
  rvk_Name :: string
  rvk_Version :: string
  rvk_Scope :: "string list option"

record rv_toolBind =
  rvt_Name :: string
  rvt_RequiresApproval :: bool

record rv_budget =
  rvb_TokensPerDay :: "int option"
  rvb_USDPerDay :: "string option"
  rvb_TaskTimeout :: string
  rvb_MaxHops :: "int option"

record rv_exposeProtocol =
  rvx_Visibility :: string
  rvx_Auth :: string

record rv_llm =
  rvm_Providers :: "string list"
  rvm_EgressAllowlist :: "string list option"
  rvm_Fallback :: "string option"

record rv_external =
  rvo_Endpoint :: string
  rvo_OAuthClientRef :: string

text \<open>\<^verbatim>\<open>expose\<close> is a struct of one optional member, so an option of an option here.\<close>

record behaviour =
  be_Image :: string
  be_Port :: int
  be_Loop :: "rv_loop option"
  be_Env :: "rv_envVar list"
  be_EnvFrom :: "string list"
  be_Sandbox :: string
  be_Knowledge :: "rv_knowledgeBind list"
  be_Tools :: "rv_toolBind list"
  be_EnvSourceDigests :: "string list"
  be_Budget :: "rv_budget option"
  be_Expose :: "rv_exposeProtocol option option"
  be_LLM :: "rv_llm option"
  be_External :: "rv_external option"

definition instanceIdentity :: "AzureOpenAIInstance option \<Rightarrow> VertexAIInstance option \<Rightarrow>
    BedrockInstance option \<Rightarrow> CustomInstance option \<Rightarrow> string" where
  "instanceIdentity az vx br cu =
     (case az of Some a \<Rightarrow> ''azure(endpoint='' @ az_Endpoint a @ '',deployment='' @ az_DeploymentName a
                             @ '',apiVersion='' @ az_APIVersion a @ '')''
      | None \<Rightarrow>
      (case vx of Some v \<Rightarrow> ''vertex(project='' @ vx_ProjectID v @ '',region='' @ vx_Region v @ '')''
       | None \<Rightarrow>
       (case br of Some b \<Rightarrow> ''bedrock(region='' @ br_Region b @ '',guardrail='' @ br_Guardrail b @ '')''
        | None \<Rightarrow>
        (case cu of Some c \<Rightarrow> ''custom(host='' @ cu_Host c @ '',port='' @ itoa (cu_Port c)
                                @ '',pathPrefix='' @ cu_PathPrefix c @ '')''
         | None \<Rightarrow> ''-''))))"

definition endpointIdentity :: "LLMEndpoint \<Rightarrow> string" where
  "endpointIdentity e = le_Arm e @ ''|'' @
     instanceIdentity (le_AzureOpenAI e) (le_VertexAI e) (le_Bedrock e) (le_Custom e) @
     ''|model='' @ le_Model e"

definition allowIdentity :: "LLMAllowEntry \<Rightarrow> string" where
  "allowIdentity e = la_Arm e @ ''|'' @
     instanceIdentity (la_AzureOpenAI e) (la_VertexAI e) (la_Bedrock e) (la_Custom e) @
     ''|models='' @ join '','' (sort (la_Models e))"

text \<open>
  \<^verbatim>\<open>time.Duration.String\<close>: hours, minutes and seconds with the fraction's trailing zeros dropped;
  under a second, the largest unit that keeps an integer part.
\<close>

fun fmt_frac :: "nat \<Rightarrow> nat \<Rightarrow> bool \<Rightarrow> string" where
  "fmt_frac u 0 printed = (if printed then ''.'' else [])"
| "fmt_frac u (Suc prec) printed =
     (let digit = u mod 10; p = printed \<or> digit \<noteq> 0 in
      fmt_frac (u div 10) prec p @ (if p then [digit_char digit] else []))"

definition Duration_String :: "duration \<Rightarrow> string" where
  "Duration_String d =
     (let u = nat \<bar>d\<bar>; neg = (if d < 0 then ''-'' else []) in
      if u = 0 then ''0s''
      else if u < 1000 then neg @ dec u @ ''ns''
      else if u < 1000000 then neg @ dec (u div 1000) @ fmt_frac u 3 False @ [CHR 0xC2, CHR 0xB5] @ ''s''
      else if u < 1000000000 then neg @ dec (u div 1000000) @ fmt_frac u 6 False @ ''ms''
      else
       let secs = u div 1000000000; frac = fmt_frac u 9 False; mins = secs div 60; hours = mins div 60 in
       neg @ (if hours > 0 then dec hours @ ''h'' else []) @
       (if mins > 0 then dec (mins mod 60) @ ''m'' else []) @
       dec (secs mod 60) @ frac @ ''s'')"

text \<open>
  \<open>project\<close>. The marshalled text of an env source is what \<^verbatim>\<open>marshalOrEmpty\<close> returns for it.
  \<^verbatim>\<open>sort.Slice\<close> is a sort by the compared key, which is unique where the keys are distinct.
\<close>

definition kb_project :: "KnowledgeBinding \<Rightarrow> rv_knowledgeBind" where
  "kb_project k = \<lparr> rvk_Name = kb_Name k, rvk_Version = kb_Version k,
     rvk_Scope = map_option (\<lambda>s. sort (kg_EntityTypes s)) (kb_Scope k) \<rparr>"

definition tb_project :: "ToolBinding \<Rightarrow> rv_toolBind" where
  "tb_project t = \<lparr> rvt_Name = tb_Name t, rvt_RequiresApproval = tb_RequiresApproval t \<rparr>"

definition llm_project :: "LLMSpec \<Rightarrow> rv_llm" where
  "llm_project l = \<lparr> rvm_Providers = sort (map endpointIdentity (llm_Providers l)),
     rvm_EgressAllowlist = map_option (\<lambda>a. sort (map allowIdentity a)) (llm_EgressAllowlist l),
     rvm_Fallback = map_option endpointIdentity (llm_Fallback l) \<rparr>"

definition project :: "AgentSpec \<Rightarrow> behaviour" where
  "project spec = \<lparr>
     be_Image = (case sp_Runtime spec of None \<Rightarrow> [] | Some r \<Rightarrow> rt_Image r),
     be_Port = (case sp_Runtime spec of None \<Rightarrow> 0 | Some r \<Rightarrow> rt_Port r),
     be_Loop = map_option (\<lambda>l. \<lparr> rvl_AllowReentry = lp_AllowReentry l, rvl_MaxVisits = lp_MaxVisits l \<rparr>)
                 (sp_Loop spec),
     be_Env = (case sp_Runtime spec of None \<Rightarrow> [] | Some r \<Rightarrow>
        map (\<lambda>e. \<lparr> rve_Name = ev_Name e, rve_Value = ev_Value e,
                   rve_ValueFrom = map_option vf_Marshalled (ev_ValueFrom e) \<rparr>) (rt_Env r)),
     be_EnvFrom = (case sp_Runtime spec of None \<Rightarrow> [] | Some r \<Rightarrow> map ef_Marshalled (rt_EnvFrom r)),
     be_Sandbox = (case sp_Runtime spec of None \<Rightarrow> [] | Some r \<Rightarrow>
        (case rt_Sandbox r of None \<Rightarrow> [] | Some s \<Rightarrow> sb_Profile s)),
     be_Knowledge = sort_key (\<lambda>k. (rvk_Name k, rvk_Version k)) (map kb_project (sp_Knowledge spec)),
     be_Tools = sort_key rvt_Name (map tb_project (sp_Tools spec)),
     be_EnvSourceDigests = [],
     be_Budget = map_option (\<lambda>b. \<lparr> rvb_TokensPerDay = bg_TokensPerDay b, rvb_USDPerDay = bg_USDPerDay b,
         rvb_TaskTimeout = (case bg_TaskTimeout b of None \<Rightarrow> [] | Some t \<Rightarrow> Duration_String t),
         rvb_MaxHops = bg_MaxHops b \<rparr>) (sp_Budget spec),
     be_Expose = map_option (\<lambda>e. map_option (\<lambda>a. \<lparr> rvx_Visibility = xp_Visibility a,
         rvx_Auth = xp_Auth a \<rparr>) (xs_A2A e)) (sp_Expose spec),
     be_LLM = map_option llm_project (sp_LLM spec),
     be_External = map_option (\<lambda>e. \<lparr> rvo_Endpoint = ex_Endpoint e,
         rvo_OAuthClientRef = ex_OAuthClientRef e \<rparr>) (sp_External spec) \<rparr>"

section \<open>Encoding, digest and name\<close>

definition loop_json :: "rv_loop \<Rightarrow> json" where
  "loop_json l = JObj (omit_bool ''allowReentry'' (rvl_AllowReentry l) @ omit_num ''maxVisits'' (rvl_MaxVisits l))"

definition selector_json :: "string \<Rightarrow> json" where
  "selector_json s = JObj [(''selector'', JStr s)]"

definition envVar_json :: "rv_envVar \<Rightarrow> json" where
  "envVar_json e = JObj ([(''name'', JStr (rve_Name e))] @ omit_str ''value'' (rve_Value e)
     @ omit_ptr ''valueFrom'' selector_json (rve_ValueFrom e))"

definition kgScope_json :: "string list \<Rightarrow> json" where
  "kgScope_json ts = JObj (omit_arr ''entityTypes'' (map JStr ts))"

definition knowledge_json :: "rv_knowledgeBind \<Rightarrow> json" where
  "knowledge_json k = JObj ([(''name'', JStr (rvk_Name k)), (''version'', JStr (rvk_Version k))]
     @ omit_ptr ''scope'' kgScope_json (rvk_Scope k))"

definition tool_json :: "rv_toolBind \<Rightarrow> json" where
  "tool_json t = JObj ([(''name'', JStr (rvt_Name t))] @ omit_bool ''requiresApproval'' (rvt_RequiresApproval t))"

definition budget_json :: "rv_budget \<Rightarrow> json" where
  "budget_json b = JObj (omit_ptr ''tokensPerDay'' JNum (rvb_TokensPerDay b)
     @ omit_ptr ''usdPerDay'' JStr (rvb_USDPerDay b) @ omit_str ''taskTimeout'' (rvb_TaskTimeout b)
     @ omit_ptr ''maxHops'' JNum (rvb_MaxHops b))"

definition exposeProtocol_json :: "rv_exposeProtocol \<Rightarrow> json" where
  "exposeProtocol_json a = JObj (omit_str ''visibility'' (rvx_Visibility a) @ omit_str ''auth'' (rvx_Auth a))"

definition expose_json :: "rv_exposeProtocol option \<Rightarrow> json" where
  "expose_json e = JObj (omit_ptr ''a2a'' exposeProtocol_json e)"

definition strs_json :: "string list \<Rightarrow> json" where
  "strs_json xs = JArr (map JStr xs)"

definition llm_json :: "rv_llm \<Rightarrow> json" where
  "llm_json l = JObj (omit_arr ''providers'' (map JStr (rvm_Providers l))
     @ omit_ptr ''egressAllowlist'' strs_json (rvm_EgressAllowlist l)
     @ omit_ptr ''fallback'' JStr (rvm_Fallback l))"

definition external_json :: "rv_external \<Rightarrow> json" where
  "external_json x = JObj (omit_str ''endpoint'' (rvo_Endpoint x)
     @ omit_str ''oauthClientRef'' (rvo_OAuthClientRef x))"

definition behaviour_json :: "behaviour \<Rightarrow> json" where
  "behaviour_json b = JObj (omit_str ''image'' (be_Image b) @ omit_num ''port'' (be_Port b)
     @ omit_ptr ''loop'' loop_json (be_Loop b)
     @ omit_arr ''env'' (map envVar_json (be_Env b))
     @ omit_arr ''envFrom'' (map selector_json (be_EnvFrom b))
     @ omit_str ''sandbox'' (be_Sandbox b)
     @ omit_arr ''knowledge'' (map knowledge_json (be_Knowledge b))
     @ omit_arr ''tools'' (map tool_json (be_Tools b))
     @ omit_arr ''envSourceDigests'' (map JStr (be_EnvSourceDigests b))
     @ omit_ptr ''budget'' budget_json (be_Budget b)
     @ omit_ptr ''expose'' expose_json (be_Expose b)
     @ omit_ptr ''llm'' llm_json (be_LLM b)
     @ omit_ptr ''external'' external_json (be_External b))"

text \<open>The projection with the content digests folded in, in \<open>EnvSources\<close>' order; a missing entry
  reads as Go's zero value.\<close>

definition source_entry :: "Resolved \<Rightarrow> SourceRef \<Rightarrow> string" where
  "source_entry resolved r = SourceRef_String r @ ''='' @ (case resolved r of None \<Rightarrow> [] | Some d \<Rightarrow> d)"

definition rev_projection :: "AgentSpec \<Rightarrow> Resolved \<Rightarrow> behaviour" where
  "rev_projection spec resolved =
     (project spec) \<lparr> be_EnvSourceDigests := map (source_entry resolved) (EnvSources spec) \<rparr>"

definition rev_encode :: "AgentSpec \<Rightarrow> Resolved \<Rightarrow> string" where
  "rev_encode spec resolved = json_encode True (behaviour_json (rev_projection spec resolved))"

definition rev_Digest :: "AgentSpec \<Rightarrow> Resolved \<Rightarrow> string + string" where
  "rev_Digest spec resolved =
     (if UnknownEnvArms spec \<noteq> [] then Inl (msgf ''cannot mint: unknown arms'' (UnknownEnvArms spec))
      else if MissingSources spec resolved \<noteq> []
        then Inl (msgf ''cannot mint: unresolved'' (map SourceRef_String (MissingSources spec resolved)))
      else Inr (hex_sum256 (rev_encode spec resolved)))"

abbreviation (input) HashLength :: nat where "HashLength \<equiv> 10"

definition rev_Hash :: "AgentSpec \<Rightarrow> Resolved \<Rightarrow> string + string" where
  "rev_Hash spec resolved = (case rev_Digest spec resolved of
     Inl err \<Rightarrow> Inl err | Inr d \<Rightarrow> Inr (take HashLength d))"

section \<open>The behaviour encoding is injective\<close>

text \<open>
  Every member is omitted exactly when it holds its zero value, so an object determines its
  fields: member by member through \<open>map_of\<close>.
\<close>

definition obj_members :: "json \<Rightarrow> (string \<times> json) list" where
  "obj_members v = (case v of JObj ms \<Rightarrow> ms | _ \<Rightarrow> [])"

lemma map_of_omit [simp]:
  "map_of (omit_str k s) j = (if j = k \<and> s \<noteq> [] then Some (JStr s) else None)"
  "map_of (omit_num k i) j = (if j = k \<and> i \<noteq> 0 then Some (JNum i) else None)"
  "map_of (omit_arr k xs) j = (if j = k \<and> xs \<noteq> [] then Some (JArr xs) else None)"
  "map_of (omit_bool k b) j = (if j = k \<and> b then Some (JBool True) else None)"
  "map_of (omit_ptr k f p) j = (if j = k then map_option f p else None)"
  by (auto simp: omit_defs split: option.split)

lemma loop_json_inj: "loop_json a = loop_json b \<Longrightarrow> a = b"
proof -
  assume "loop_json a = loop_json b"
  then have "map_of (obj_members (loop_json a)) k = map_of (obj_members (loop_json b)) k" for k by simp
  from this [of "''allowReentry''"] this [of "''maxVisits''"] show "a = b"
    by (auto simp: loop_json_def obj_members_def map_add_def split: if_splits)
qed

lemma selector_json_inj: "selector_json a = selector_json b \<Longrightarrow> a = b"
  by (simp add: selector_json_def)

lemma JStr_inj: "JStr a = JStr b \<Longrightarrow> a = b" and JNum_inj: "JNum i = JNum j \<Longrightarrow> i = j" by auto

lemma map_option_inj: "(\<And>x y. f x = f y \<Longrightarrow> x = y) \<Longrightarrow> map_option f p = map_option f q \<Longrightarrow> p = q"
  by (metis injI option.inj_map injD)

lemma map_inj: "(\<And>x y. f x = f y \<Longrightarrow> x = y) \<Longrightarrow> map f xs = map f ys \<Longrightarrow> xs = ys"
  by (metis injI list.inj_map injD)

lemma envVar_json_inj: "envVar_json a = envVar_json b \<Longrightarrow> a = b"
proof -
  assume "envVar_json a = envVar_json b"
  then have *: "map_of (obj_members (envVar_json a)) k = map_of (obj_members (envVar_json b)) k" for k by simp
  have "rve_ValueFrom a = rve_ValueFrom b"
    using * [of "''valueFrom''"]
    by (intro map_option_inj [OF selector_json_inj]) (simp_all add: envVar_json_def obj_members_def map_add_def split: option.splits)
  with * [of "''name''"] * [of "''value''"] show "a = b"
    by (auto simp: envVar_json_def obj_members_def map_add_def split: if_splits)
qed

lemma kgScope_json_inj: "kgScope_json a = kgScope_json b \<Longrightarrow> a = b"
  using map_inj [of JStr a b, OF JStr_inj]
  by (auto simp: kgScope_json_def omit_arr_def split: if_splits)

lemma knowledge_json_inj: "knowledge_json a = knowledge_json b \<Longrightarrow> a = b"
proof -
  assume "knowledge_json a = knowledge_json b"
  then have *: "map_of (obj_members (knowledge_json a)) k = map_of (obj_members (knowledge_json b)) k" for k by simp
  have "rvk_Scope a = rvk_Scope b"
    using * [of "''scope''"]
    by (intro map_option_inj [OF kgScope_json_inj]) (simp_all add: knowledge_json_def obj_members_def map_add_def split: option.splits)
  with * [of "''name''"] * [of "''version''"] show "a = b"
    by (auto simp: knowledge_json_def obj_members_def map_add_def split: if_splits)
qed

lemma tool_json_inj: "tool_json a = tool_json b \<Longrightarrow> a = b"
  by (cases a; cases b) (auto simp: tool_json_def omit_bool_def split: if_splits)

lemma budget_json_inj: "budget_json a = budget_json b \<Longrightarrow> a = b"
proof -
  assume "budget_json a = budget_json b"
  then have *: "map_of (obj_members (budget_json a)) k = map_of (obj_members (budget_json b)) k" for k by simp
  have m: "map_of (obj_members (budget_json x)) ''tokensPerDay'' = map_option JNum (rvb_TokensPerDay x)"
    "map_of (obj_members (budget_json x)) ''usdPerDay'' = map_option JStr (rvb_USDPerDay x)"
    "map_of (obj_members (budget_json x)) ''taskTimeout'' =
       (if rvb_TaskTimeout x = [] then None else Some (JStr (rvb_TaskTimeout x)))"
    "map_of (obj_members (budget_json x)) ''maxHops'' = map_option JNum (rvb_MaxHops x)" for x
    by (simp_all add: budget_json_def obj_members_def map_add_def split: option.splits)
  from * [of "''tokensPerDay''"] * [of "''usdPerDay''"] * [of "''maxHops''"]
  have "rvb_TokensPerDay a = rvb_TokensPerDay b" "rvb_USDPerDay a = rvb_USDPerDay b"
    "rvb_MaxHops a = rvb_MaxHops b"
    unfolding m by (auto intro: map_option_inj [OF JNum_inj] map_option_inj [OF JStr_inj])
  with * [of "''taskTimeout''"] show "a = b" by (auto simp: m split: if_splits)
qed

lemma exposeProtocol_json_inj: "exposeProtocol_json a = exposeProtocol_json b \<Longrightarrow> a = b"
proof -
  assume "exposeProtocol_json a = exposeProtocol_json b"
  then have "map_of (obj_members (exposeProtocol_json a)) k = map_of (obj_members (exposeProtocol_json b)) k" for k by simp
  from this [of "''visibility''"] this [of "''auth''"] show "a = b"
    by (auto simp: exposeProtocol_json_def obj_members_def map_add_def split: if_splits)
qed

lemma expose_json_inj: "expose_json a = expose_json b \<Longrightarrow> a = b"
  by (auto simp: expose_json_def omit_ptr_def split: option.splits intro: exposeProtocol_json_inj)

lemma external_json_inj: "external_json a = external_json b \<Longrightarrow> a = b"
proof -
  assume "external_json a = external_json b"
  then have "map_of (obj_members (external_json a)) k = map_of (obj_members (external_json b)) k" for k by simp
  from this [of "''endpoint''"] this [of "''oauthClientRef''"] show "a = b"
    by (auto simp: external_json_def obj_members_def map_add_def split: if_splits)
qed

lemma strs_json_inj: "strs_json a = strs_json b \<Longrightarrow> a = b"
  using map_inj [of JStr a b, OF JStr_inj] by (simp add: strs_json_def)

text \<open>An omitted empty list and a present non-empty one.\<close>

lemma omit_list_inj:
  assumes "(if map f xs = [] then None else Some (JArr (map f xs))) =
      (if map f ys = [] then None else Some (JArr (map f ys)))"
    and "\<And>x y. f x = f y \<Longrightarrow> x = y"
  shows "xs = ys"
  using assms(1) map_inj [of f xs ys, OF assms(2)] by (auto split: if_splits)

lemma llm_json_inj: "llm_json a = llm_json b \<Longrightarrow> a = b"
proof -
  assume "llm_json a = llm_json b"
  then have *: "map_of (obj_members (llm_json a)) k = map_of (obj_members (llm_json b)) k" for k by simp
  have m: "map_of (obj_members (llm_json x)) ''providers'' =
      (if map JStr (rvm_Providers x) = [] then None else Some (JArr (map JStr (rvm_Providers x))))"
    "map_of (obj_members (llm_json x)) ''egressAllowlist'' = map_option strs_json (rvm_EgressAllowlist x)"
    "map_of (obj_members (llm_json x)) ''fallback'' = map_option JStr (rvm_Fallback x)" for x
    by (simp_all add: llm_json_def obj_members_def map_add_def split: option.splits)
  have "rvm_Providers a = rvm_Providers b"
    using * [of "''providers''"] unfolding m by (rule omit_list_inj) simp
  moreover have "rvm_EgressAllowlist a = rvm_EgressAllowlist b"
    using * [of "''egressAllowlist''"] unfolding m by (rule map_option_inj [OF strs_json_inj, rotated])
  moreover have "rvm_Fallback a = rvm_Fallback b"
    using * [of "''fallback''"] unfolding m by (rule map_option_inj [OF JStr_inj, rotated])
  ultimately show "a = b" by simp
qed

lemma behaviour_member:
  "map_of (obj_members (behaviour_json b)) ''image'' = (if be_Image b = [] then None else Some (JStr (be_Image b)))"
  "map_of (obj_members (behaviour_json b)) ''port'' = (if be_Port b = 0 then None else Some (JNum (be_Port b)))"
  "map_of (obj_members (behaviour_json b)) ''loop'' = map_option loop_json (be_Loop b)"
  "map_of (obj_members (behaviour_json b)) ''env'' =
     (if map envVar_json (be_Env b) = [] then None else Some (JArr (map envVar_json (be_Env b))))"
  "map_of (obj_members (behaviour_json b)) ''envFrom'' =
     (if map selector_json (be_EnvFrom b) = [] then None else Some (JArr (map selector_json (be_EnvFrom b))))"
  "map_of (obj_members (behaviour_json b)) ''sandbox'' = (if be_Sandbox b = [] then None else Some (JStr (be_Sandbox b)))"
  "map_of (obj_members (behaviour_json b)) ''knowledge'' =
     (if map knowledge_json (be_Knowledge b) = [] then None else Some (JArr (map knowledge_json (be_Knowledge b))))"
  "map_of (obj_members (behaviour_json b)) ''tools'' =
     (if map tool_json (be_Tools b) = [] then None else Some (JArr (map tool_json (be_Tools b))))"
  "map_of (obj_members (behaviour_json b)) ''envSourceDigests'' =
     (if map JStr (be_EnvSourceDigests b) = [] then None else Some (JArr (map JStr (be_EnvSourceDigests b))))"
  "map_of (obj_members (behaviour_json b)) ''budget'' = map_option budget_json (be_Budget b)"
  "map_of (obj_members (behaviour_json b)) ''expose'' = map_option expose_json (be_Expose b)"
  "map_of (obj_members (behaviour_json b)) ''llm'' = map_option llm_json (be_LLM b)"
  "map_of (obj_members (behaviour_json b)) ''external'' = map_option external_json (be_External b)"
  unfolding behaviour_json_def obj_members_def
  by (simp_all add: map_add_def split: option.splits)

lemma behaviour_json_inj:
  assumes "behaviour_json a = behaviour_json b"
  shows "a = b"
proof -
  have *: "map_of (obj_members (behaviour_json a)) k = map_of (obj_members (behaviour_json b)) k" for k
    using assms by simp
  note m = * [of "''image''"] * [of "''port''"] * [of "''loop''"] * [of "''env''"] * [of "''envFrom''"]
    * [of "''sandbox''"] * [of "''knowledge''"] * [of "''tools''"] * [of "''envSourceDigests''"]
    * [of "''budget''"] * [of "''expose''"] * [of "''llm''"] * [of "''external''"]
  note m = m [unfolded behaviour_member]
  have "be_Image a = be_Image b" "be_Port a = be_Port b" "be_Sandbox a = be_Sandbox b"
    using m(1,2,6) by (auto split: if_splits)
  moreover have "be_Env a = be_Env b" using m(4) by (rule omit_list_inj) (rule envVar_json_inj)
  moreover have "be_EnvFrom a = be_EnvFrom b" using m(5) by (rule omit_list_inj) (rule selector_json_inj)
  moreover have "be_Knowledge a = be_Knowledge b" using m(7) by (rule omit_list_inj) (rule knowledge_json_inj)
  moreover have "be_Tools a = be_Tools b" using m(8) by (rule omit_list_inj) (rule tool_json_inj)
  moreover have "be_EnvSourceDigests a = be_EnvSourceDigests b" using m(9) by (rule omit_list_inj) simp
  moreover have "be_Loop a = be_Loop b" using m(3) by (rule map_option_inj [OF loop_json_inj, rotated])
  moreover have "be_Budget a = be_Budget b" using m(10) by (rule map_option_inj [OF budget_json_inj, rotated])
  moreover have "be_Expose a = be_Expose b" using m(11) by (rule map_option_inj [OF expose_json_inj, rotated])
  moreover have "be_LLM a = be_LLM b" using m(12) by (rule map_option_inj [OF llm_json_inj, rotated])
  moreover have "be_External a = be_External b" using m(13) by (rule map_option_inj [OF external_json_inj, rotated])
  ultimately show ?thesis by simp
qed

section \<open>Facts on the sources\<close>

text \<open>What it means for a spec's runtime to read a source.\<close>

definition env_reads :: "EnvVar \<Rightarrow> SourceRef \<Rightarrow> bool" where
  "env_reads e r = (case ev_ValueFrom e of None \<Rightarrow> False | Some v \<Rightarrow>
     (sr_Kind r = ''ConfigMap'' \<and> vf_ConfigMapKeyRef v = Some (sr_Name r)) \<or>
     (sr_Kind r = ''Secret'' \<and> vf_SecretKeyRef v = Some (sr_Name r)))"

definition envFrom_reads :: "EnvFromSource \<Rightarrow> SourceRef \<Rightarrow> bool" where
  "envFrom_reads f r \<longleftrightarrow>
     (sr_Kind r = ''ConfigMap'' \<and> ef_ConfigMapRef f = Some (sr_Name r)) \<or>
     (sr_Kind r = ''Secret'' \<and> ef_SecretRef f = Some (sr_Name r))"

definition reads_source :: "AgentSpec \<Rightarrow> SourceRef \<Rightarrow> bool" where
  "reads_source spec r = (case sp_Runtime spec of None \<Rightarrow> False | Some rt \<Rightarrow>
     (\<exists>f \<in> set (rt_EnvFrom rt). envFrom_reads f r) \<or> (\<exists>e \<in> set (rt_Env rt). env_reads e r))"

lemma set_add_source:
  "set (add_source kind n out) = set out \<union> {r. sr_Kind r = kind \<and> n = Some (sr_Name r)}"
  apply (auto simp: add_source_def Let_def split: option.splits)
  subgoal for x by (cases x) simp
  done

lemma distinct_add_source: "distinct out \<Longrightarrow> distinct (add_source kind n out)"
  by (simp add: add_source_def Let_def split: option.split)

lemma fold_union:
  assumes "\<And>x out. set (g x out) = set out \<union> {r. P x r}"
  shows "set (fold g xs out) = set out \<union> {r. \<exists>x \<in> set xs. P x r}"
  by (induction xs arbitrary: out) (auto simp: assms)

lemma fold_distinct:
  assumes "\<And>x out. distinct out \<Longrightarrow> distinct (g x out)"
  shows "distinct out \<Longrightarrow> distinct (fold g xs out)"
  by (induction xs arbitrary: out) (auto simp: assms)

lemma set_EnvSources: "r \<in> set (EnvSources spec) \<longleftrightarrow> reads_source spec r"
proof (cases "sp_Runtime spec")
  case (Some rt)
  let ?g = "\<lambda>f out. add_source ''Secret'' (ef_SecretRef f) (add_source ''ConfigMap'' (ef_ConfigMapRef f) out)"
  let ?h = "\<lambda>e out. case ev_ValueFrom e of None \<Rightarrow> out
      | Some v \<Rightarrow> add_source ''Secret'' (vf_SecretKeyRef v) (add_source ''ConfigMap'' (vf_ConfigMapKeyRef v) out)"
  have g: "set (?g f out) = set out \<union> {r. envFrom_reads f r}" for f out
    by (auto simp: set_add_source envFrom_reads_def)
  have h: "set (?h e out) = set out \<union> {r. env_reads e r}" for e out
    by (auto simp: set_add_source env_reads_def split: option.split)
  show ?thesis
    using fold_union [of ?g, OF g, of "rt_EnvFrom rt" "[]"] fold_union [of ?h, OF h, of "rt_Env rt"] Some
    by (auto simp: EnvSources_def reads_source_def Let_def)
qed (simp add: EnvSources_def reads_source_def)

lemma reads_source_kind: "reads_source spec r \<Longrightarrow> sr_Kind r = ''ConfigMap'' \<or> sr_Kind r = ''Secret''"
  by (auto simp: reads_source_def env_reads_def envFrom_reads_def split: option.splits)

lemma SourceRef_String_inj:
  "reads_source s r \<Longrightarrow> reads_source t q \<Longrightarrow> SourceRef_String r = SourceRef_String q \<Longrightarrow> r = q"
  by (cases r; cases q) (auto dest!: reads_source_kind simp: SourceRef_String_def)

lemma distinct_EnvSources: "distinct (EnvSources spec)"
proof (cases "sp_Runtime spec")
  case (Some rt)
  then show ?thesis
    by (simp add: EnvSources_def Let_def)
      (intro fold_distinct distinct.simps(1) [THEN iffD2]; simp add: distinct_add_source split: option.split)
qed (simp add: EnvSources_def)

text \<open>The name a source is listed under determines it, so the listing's order is unique.\<close>

lemma distinct_source_names: "distinct (map SourceRef_String (EnvSources spec))"
  using SourceRef_String_inj by (auto simp: distinct_map distinct_EnvSources inj_on_def set_EnvSources)

section \<open>Facts on the digest\<close>

lemma rev_Digest_Inr:
  "rev_Digest spec res = Inr d \<longleftrightarrow> UnknownEnvArms spec = [] \<and> MissingSources spec res = [] \<and>
     d = hex_sum256 (rev_encode spec res)"
  by (auto simp: rev_Digest_def)

lemma MissingSources_Nil: "MissingSources spec res = [] \<longleftrightarrow> (\<forall>r. reads_source spec r \<longrightarrow> res r \<noteq> None)"
  by (auto simp: MissingSources_def filter_empty_conv simp flip: set_EnvSources)

lemma source_entry_split:
  assumes "source_entry res r = source_entry res' q" "reads_source s r" "reads_source t q"
    and "res r = Some d" "res' q = Some e" "length d = 64" "length e = 64"
  shows "r = q \<and> d = e"
proof -
  from assms have "(SourceRef_String r @ ''='') @ d = (SourceRef_String q @ ''='') @ e" "length d = length e"
    by (simp_all add: source_entry_def)
  then have "SourceRef_String r = SourceRef_String q" "d = e"
    by (auto simp del: append_assoc simp: append_eq_append_conv)
  then show ?thesis using SourceRef_String_inj assms(2,3) by blast
qed

lemma source_entries_agree:
  assumes "map (source_entry res) rs = map (source_entry res') qs"
    and "\<forall>r \<in> set rs. reads_source s r \<and> (\<exists>d. res r = Some d \<and> length d = 64)"
    and "\<forall>q \<in> set qs. reads_source t q \<and> (\<exists>d. res' q = Some d \<and> length d = 64)"
  shows "rs = qs \<and> (\<forall>r \<in> set rs. res r = res' r)"
  using assms
proof (induction rs arbitrary: qs)
  case (Cons r rs)
  then obtain q qs' where qs: "qs = q # qs'" by (cases qs) auto
  with Cons.prems have "r = q \<and> res r = res' r"
    using source_entry_split [of res r res' q s t] by auto
  moreover have "rs = qs' \<and> (\<forall>r \<in> set rs. res r = res' r)"
    using Cons.prems qs by (intro Cons.IH) auto
  ultimately show ?case using qs by auto
qed simp

text \<open>Digests of content are 64 characters, so what the controller resolves sources to is sized.\<close>

definition resolved_sized :: "Resolved \<Rightarrow> bool" where
  "resolved_sized res \<longleftrightarrow> (\<forall>r d. res r = Some d \<longrightarrow> length d = 64)"

definition projection_valid :: "AgentSpec \<Rightarrow> Resolved \<Rightarrow> bool" where
  "projection_valid spec res = json_valid (behaviour_json (rev_projection spec res))"

lemma rev_encode_inj:
  assumes "rev_encode s res = rev_encode t res'" "projection_valid s res" "projection_valid t res'"
  shows "rev_projection s res = rev_projection t res'"
  using assms unfolding rev_encode_def projection_valid_def by (blast dest: json_encode_inj behaviour_json_inj)

interpretation revision_id: digest_identity
  "\<lambda>(s, res). rev_encode s res" "\<lambda>(s, res). projection_valid s res" "\<lambda>(s, res). rev_projection s res"
  by unfold_locales (auto dest: rev_encode_inj)

lemma project_digests: "be_EnvSourceDigests (project s) = []"
  by (simp add: project_def)

lemma rev_projection_eqD:
  assumes "rev_projection s res = rev_projection t res'"
  shows "project s = project t"
    and "map (source_entry res) (EnvSources s) = map (source_entry res') (EnvSources t)"
proof -
  from assms have "(rev_projection s res)\<lparr> be_EnvSourceDigests := [] \<rparr> = (rev_projection t res')\<lparr> be_EnvSourceDigests := [] \<rparr>"
    by simp
  moreover have "(project u)\<lparr> be_EnvSourceDigests := [] \<rparr> = project u" for u
    using project_digests [of u] by simp
  ultimately show "project s = project t" by (simp add: rev_projection_def)
  have "be_EnvSourceDigests (rev_projection s res) = be_EnvSourceDigests (rev_projection t res')"
    using assms by simp
  then show "map (source_entry res) (EnvSources s) = map (source_entry res') (EnvSources t)"
    by (simp add: rev_projection_def)
qed

section \<open>Facts on the content digest\<close>

lemma dec_colon_split:
  assumes "dec m @ CHR '':'' # r = dec n @ CHR '':'' # r'"
  shows "m = n \<and> r = r'"
proof -
  have "dec m = dec n \<and> CHR '':'' # r = CHR '':'' # r'"
    using assms by (intro digits_split) (auto simp: no_digit_def is_digit_def [of "CHR '':''"] dest: dec_digits)
  then show ?thesis by (auto dest: dec_inj)
qed

lemma sized_split:
  assumes "dec (length a) @ CHR '':'' # a @ r = dec (length b) @ CHR '':'' # b @ r'"
  shows "a = b \<and> r = r'"
  using dec_colon_split [OF assms] append_eq_append_conv by blast

lemma entry_split:
  assumes "dec (length (fst a)) @ CHR '':'' # fst a @ CHR ''='' # dec (length (snd a)) @ CHR '':'' # snd a @ r
    = dec (length (fst b)) @ CHR '':'' # fst b @ CHR ''='' # dec (length (snd b)) @ CHR '':'' # snd b @ r'"
  shows "a = b \<and> r = r'"
proof -
  from sized_split [OF assms] have "fst a = fst b"
    "dec (length (snd a)) @ CHR '':'' # snd a @ r = dec (length (snd b)) @ CHR '':'' # snd b @ r'" by simp_all
  then show ?thesis using sized_split [of "snd a" r "snd b" r'] by (simp add: prod_eq_iff)
qed

lemma data_entry_split: "data_entry a @ r = data_entry b @ r' \<Longrightarrow> a = b \<and> r = r'"
  using entry_split [of a "CHR 0x0A # r" b "CHR 0x0A # r'"] by (simp add: data_entry_def)

lemma binary_entry_split: "binary_entry a @ r = binary_entry b @ r' \<Longrightarrow> a = b \<and> r = r'"
  using entry_split [of a "CHR 0x0A # r" b "CHR 0x0A # r'"] by (simp add: binary_entry_def)

lemma binary_entries_inj:
  "concat (map binary_entry xs) = concat (map binary_entry ys) \<Longrightarrow> xs = ys"
proof (induction xs arbitrary: ys)
  case Nil
  then show ?case by (cases ys) (auto simp: binary_entry_def)
next
  case (Cons x xs)
  then obtain y ys' where "ys = y # ys'" by (cases ys) (auto simp: binary_entry_def)
  with Cons show ?case using binary_entry_split [of x _ y] by auto
qed

lemma binary_entries_head: "concat (map binary_entry xs) \<noteq> CHR ''d'' # r"
  by (cases xs) (auto simp: binary_entry_def)

lemma data_entry_head: "data_entry x @ r \<noteq> concat (map binary_entry ys)"
  using binary_entries_head [of ys] by (auto simp: data_entry_def dest: sym)

lemma content_entries_inj:
  "concat (map data_entry xs) @ concat (map binary_entry bs) =
   concat (map data_entry ys) @ concat (map binary_entry cs) \<Longrightarrow> xs = ys \<and> bs = cs"
proof (induction xs arbitrary: ys)
  case Nil
  show ?case
  proof (cases ys)
    case (Cons y ys')
    with Nil have "data_entry y @ concat (map data_entry ys') @ concat (map binary_entry cs)
        = concat (map binary_entry bs)" by simp
    then show ?thesis by (rule notE [OF data_entry_head])
  qed (use Nil binary_entries_inj [of bs cs] in simp)
next
  case (Cons x xs)
  then obtain y ys' where ys: "ys = y # ys'"
    using data_entry_head [of x "concat (map data_entry xs) @ concat (map binary_entry bs)" cs]
    by (cases ys) simp_all
  with Cons.prems have "data_entry x @ concat (map data_entry xs) @ concat (map binary_entry bs) =
      data_entry y @ concat (map data_entry ys') @ concat (map binary_entry cs)" by simp
  from data_entry_split [OF this] Cons.IH [of ys'] ys show ?case by simp
qed

lemma content_preimage_inj:
  assumes "content_preimage data binary = content_preimage data' binary'"
    and "distinct (map fst data)" "distinct (map fst binary)"
    and "distinct (map fst data')" "distinct (map fst binary')"
  shows "map_of data = map_of data' \<and> map_of binary = map_of binary'"
proof -
  have "sort_key fst data = sort_key fst data' \<and> sort_key fst binary = sort_key fst binary'"
    using assms(1) unfolding content_preimage_def by (rule content_entries_inj)
  then show ?thesis using assms(2-) map_of_sort_key by metis
qed

interpretation content_id: digest_identity
  "\<lambda>(data, binary). content_preimage data binary"
  "\<lambda>(data, binary). distinct (map fst data) \<and> distinct (map fst binary)"
  "\<lambda>(data, binary). (map_of data, map_of binary)"
  by unfold_locales (auto dest: content_preimage_inj)

section \<open>Facts on endpoint identities\<close>

lemma split_at:
  "c \<notin> set a \<Longrightarrow> c \<notin> set b \<Longrightarrow> a @ c # r = b @ c # r' \<Longrightarrow> a = b \<and> r = r'"
proof (induction a arbitrary: b)
  case Nil
  then show ?case by (cases b) auto
next
  case (Cons x a)
  then show ?case by (cases b) auto
qed

text \<open>
  An endpoint whose fields keep clear of the separators: none contains a bar, and none but the
  last of an instance contains a comma; at most one instance arm is set, as admission requires.
\<close>

definition clear :: "string \<Rightarrow> bool" where
  "clear s \<longleftrightarrow> CHR ''|'' \<notin> set s \<and> CHR '','' \<notin> set s"

definition endpoint_clear :: "LLMEndpoint \<Rightarrow> bool" where
  "endpoint_clear e \<longleftrightarrow> clear (le_Arm e) \<and>
     (case le_AzureOpenAI e of None \<Rightarrow> True | Some a \<Rightarrow>
        clear (az_Endpoint a) \<and> clear (az_DeploymentName a) \<and> clear (az_APIVersion a) \<and>
        le_VertexAI e = None \<and> le_Bedrock e = None \<and> le_Custom e = None) \<and>
     (case le_VertexAI e of None \<Rightarrow> True | Some v \<Rightarrow>
        clear (vx_ProjectID v) \<and> clear (vx_Region v) \<and> le_Bedrock e = None \<and> le_Custom e = None) \<and>
     (case le_Bedrock e of None \<Rightarrow> True | Some b \<Rightarrow>
        clear (br_Region b) \<and> clear (br_Guardrail b) \<and> le_Custom e = None) \<and>
     (case le_Custom e of None \<Rightarrow> True | Some c \<Rightarrow> clear (cu_Host c) \<and> clear (cu_PathPrefix c))"

lemma clear_itoa: "clear (itoa i)"
  using dec_digits [of "CHR '',''"] dec_digits [of "CHR ''|''"] by (auto simp: clear_def itoa_def is_digit_def)

lemma clear_append [simp]: "clear (a @ b) = (clear a \<and> clear b)"
  by (auto simp: clear_def)

lemma itoa_inj: "itoa i = itoa j \<Longrightarrow> i = j"
  using itoa_split [of "[]" "[]" i j] by (simp add: no_digit_def)

lemma field_split:
  "clear a \<Longrightarrow> clear b \<Longrightarrow> a @ CHR '','' # r = b @ CHR '','' # r' \<Longrightarrow> a = b \<and> r = r'"
  "clear a \<Longrightarrow> clear b \<Longrightarrow> a @ CHR ''|'' # r = b @ CHR ''|'' # r' \<Longrightarrow> a = b \<and> r = r'"
  by (meson clear_def split_at)+

lemma azure_inj:
  assumes "instanceIdentity (Some a) vx br cu = instanceIdentity (Some b) vx' br' cu'"
    and "clear (az_Endpoint a)" "clear (az_DeploymentName a)" "clear (az_Endpoint b)" "clear (az_DeploymentName b)"
  shows "a = b"
proof -
  from assms(1) have "az_Endpoint a @ CHR '','' # ''deployment='' @ az_DeploymentName a @ '',apiVersion='' @ az_APIVersion a @ '')''
     = az_Endpoint b @ CHR '','' # ''deployment='' @ az_DeploymentName b @ '',apiVersion='' @ az_APIVersion b @ '')''"
    by (simp add: instanceIdentity_def)
  from field_split(1) [OF assms(2,4) this]
  have e: "az_Endpoint a = az_Endpoint b"
    "az_DeploymentName a @ CHR '','' # ''apiVersion='' @ az_APIVersion a @ '')''
     = az_DeploymentName b @ CHR '','' # ''apiVersion='' @ az_APIVersion b @ '')''" by simp_all
  from field_split(1) [OF assms(3,5) e(2)] e(1) show ?thesis by simp
qed

lemma vertex_inj:
  assumes "instanceIdentity None (Some a) br cu = instanceIdentity None (Some b) br' cu'"
    and "clear (vx_ProjectID a)" "clear (vx_ProjectID b)"
  shows "a = b"
proof -
  from assms(1) have "vx_ProjectID a @ CHR '','' # ''region='' @ vx_Region a @ '')''
     = vx_ProjectID b @ CHR '','' # ''region='' @ vx_Region b @ '')''"
    by (simp add: instanceIdentity_def)
  from field_split(1) [OF assms(2,3) this] show ?thesis by simp
qed

lemma bedrock_inj:
  assumes "instanceIdentity None None (Some a) cu = instanceIdentity None None (Some b) cu'"
    and "clear (br_Region a)" "clear (br_Region b)"
  shows "a = b"
proof -
  from assms(1) have "br_Region a @ CHR '','' # ''guardrail='' @ br_Guardrail a @ '')''
     = br_Region b @ CHR '','' # ''guardrail='' @ br_Guardrail b @ '')''"
    by (simp add: instanceIdentity_def)
  from field_split(1) [OF assms(2,3) this] show ?thesis by simp
qed

lemma custom_inj:
  assumes "instanceIdentity None None None (Some a) = instanceIdentity None None None (Some b)"
    and "clear (cu_Host a)" "clear (cu_Host b)"
  shows "a = b"
proof -
  from assms(1) have "cu_Host a @ CHR '','' # ''port='' @ itoa (cu_Port a) @ '',pathPrefix='' @ cu_PathPrefix a @ '')''
     = cu_Host b @ CHR '','' # ''port='' @ itoa (cu_Port b) @ '',pathPrefix='' @ cu_PathPrefix b @ '')''"
    by (simp add: instanceIdentity_def)
  from field_split(1) [OF assms(2,3) this]
  have e: "cu_Host a = cu_Host b" "itoa (cu_Port a) @ CHR '','' # ''pathPrefix='' @ cu_PathPrefix a @ '')''
     = itoa (cu_Port b) @ CHR '','' # ''pathPrefix='' @ cu_PathPrefix b @ '')''" by simp_all
  from field_split(1) [OF clear_itoa clear_itoa e(2)] e(1) show ?thesis by (auto dest: itoa_inj)
qed

lemma instance_nobar:
  "endpoint_clear e \<Longrightarrow>
   CHR ''|'' \<notin> set (instanceIdentity (le_AzureOpenAI e) (le_VertexAI e) (le_Bedrock e) (le_Custom e))"
  using clear_itoa by (auto simp: endpoint_clear_def instanceIdentity_def clear_def split: option.splits)

lemma instance_clear_inj:
  assumes "endpoint_clear e" "endpoint_clear f"
    and "instanceIdentity (le_AzureOpenAI e) (le_VertexAI e) (le_Bedrock e) (le_Custom e) =
         instanceIdentity (le_AzureOpenAI f) (le_VertexAI f) (le_Bedrock f) (le_Custom f)"
  shows "le_AzureOpenAI e = le_AzureOpenAI f \<and> le_VertexAI e = le_VertexAI f \<and>
         le_Bedrock e = le_Bedrock f \<and> le_Custom e = le_Custom f"
proof -
  show ?thesis
  proof (cases "le_AzureOpenAI e")
    case (Some a)
    with assms(3) obtain b where b: "le_AzureOpenAI f = Some b"
      by (cases "le_AzureOpenAI f"; cases "le_VertexAI f"; cases "le_Bedrock f"; cases "le_Custom f")
        (simp_all add: instanceIdentity_def)
    with Some assms azure_inj [of a _ _ _ b] show ?thesis by (auto simp: endpoint_clear_def)
  next
    case az: None
    with assms(3) have az': "le_AzureOpenAI f = None"
      by (cases "le_AzureOpenAI f"; cases "le_VertexAI e"; cases "le_Bedrock e"; cases "le_Custom e")
        (simp_all add: instanceIdentity_def)
    show ?thesis
    proof (cases "le_VertexAI e")
      case (Some a)
      with az az' assms(3) obtain b where b: "le_VertexAI f = Some b"
        by (cases "le_VertexAI f"; cases "le_Bedrock f"; cases "le_Custom f") (simp_all add: instanceIdentity_def)
      with az az' Some assms vertex_inj [of a _ _ b] show ?thesis by (auto simp: endpoint_clear_def)
    next
      case vx: None
      with az az' assms(3) have vx': "le_VertexAI f = None"
        by (cases "le_VertexAI f"; cases "le_Bedrock e"; cases "le_Custom e") (simp_all add: instanceIdentity_def)
      note none = az az' vx vx'
      show ?thesis
      proof (cases "le_Bedrock e")
        case (Some a)
        with none assms(3) obtain b where b: "le_Bedrock f = Some b"
          by (cases "le_Bedrock f"; cases "le_Custom f") (simp_all add: instanceIdentity_def)
        with none Some assms bedrock_inj [of a _ b] show ?thesis by (auto simp: endpoint_clear_def)
      next
        case br: None
        with none assms(3) have br': "le_Bedrock f = None"
          by (cases "le_Bedrock f"; cases "le_Custom e") (simp_all add: instanceIdentity_def)
        have "le_Custom e = None \<longleftrightarrow> le_Custom f = None"
          using none br br' assms(3)
          by (cases "le_Custom e"; cases "le_Custom f") (simp_all add: instanceIdentity_def)
        then show ?thesis
          using none br br' assms custom_inj
          by (cases "le_Custom e"; cases "le_Custom f") (simp_all add: endpoint_clear_def)
      qed
    qed
  qed
qed

lemma endpointIdentity_clear_inj:
  assumes "endpoint_clear e" "endpoint_clear f" "endpointIdentity e = endpointIdentity f"
  shows "e = f"
proof -
  let ?i = "\<lambda>x. instanceIdentity (le_AzureOpenAI x) (le_VertexAI x) (le_Bedrock x) (le_Custom x)"
  from assms have "le_Arm e = le_Arm f \<and> ?i e @ CHR ''|'' # ''model='' @ le_Model e = ?i f @ CHR ''|'' # ''model='' @ le_Model f"
    by (intro field_split(2)) (simp_all add: endpoint_clear_def endpointIdentity_def)
  then have "le_Arm e = le_Arm f" "?i e = ?i f \<and> ''model='' @ le_Model e = ''model='' @ le_Model f"
    using split_at [OF instance_nobar [OF assms(1)] instance_nobar [OF assms(2)]] by auto
  then show ?thesis using instance_clear_inj [OF assms(1,2)] by simp
qed

section \<open>Properties of the revision identity\<close>

definition sample_runtime :: "string \<Rightarrow> AgentRuntime" where
  "sample_runtime img = \<lparr> rt_Image = img, rt_Replicas = 1, rt_Port = 8080, rt_Sandbox = None,
     rt_Resources = [], rt_Env = [], rt_EnvFrom = [\<lparr> ef_Prefix = [], ef_ConfigMapRef = Some ''cfg'',
     ef_ConfigMapOptional = None, ef_SecretRef = None, ef_SecretOptional = None, ef_Marshalled = ''selector'' \<rparr>] \<rparr>"

definition sample_spec :: "string list \<Rightarrow> AgentSpec" where
  "sample_spec ts = zero_spec \<lparr> sp_Runtime := Some (sample_runtime ''img''),
     sp_Tools := map (\<lambda>t. \<lparr> tb_Name = t, tb_RequiresApproval = False \<rparr>) ts \<rparr>"

definition sample_resolved :: Resolved where
  "sample_resolved = (\<lambda>r. if r = \<lparr> sr_Kind = ''ConfigMap'', sr_Name = ''cfg'' \<rparr>
     then Some (replicate 64 CHR ''0'') else None)"

text \<open>
  C29. A revision is minted exactly when every source its runtime reads is known and resolved:
  \<open>rev_Digest\<close> returns a digest if and only if no env source has an arm the operator does not
  recognise and every ConfigMap and Secret referenced by env or envFrom has a content digest.
  A missing referent is an error, never a zero digest.
\<close>

theorem rev_Digest_mints_iff:
  "(\<exists>d. rev_Digest spec res = Inr d) \<longleftrightarrow>
     UnknownEnvArms spec = [] \<and> (\<forall>r. reads_source spec r \<longrightarrow> res r \<noteq> None)"
  unfolding rev_Digest_Inr by (auto simp: MissingSources_Nil)

theorem rev_Digest_mints_iff_witness:
  "(\<exists>d. rev_Digest (sample_spec []) sample_resolved = Inr d) \<and>
   \<not> (\<exists>d. rev_Digest (sample_spec []) (\<lambda>_. None) = Inr d)"
proof -
  have "UnknownEnvArms (sample_spec []) = []"
    "\<forall>r. reads_source (sample_spec []) r \<longrightarrow> r = \<lparr> sr_Kind = ''ConfigMap'', sr_Name = ''cfg'' \<rparr>"
    "reads_source (sample_spec []) \<lparr> sr_Kind = ''ConfigMap'', sr_Name = ''cfg'' \<rparr>"
    by (simp_all add: UnknownEnvArms_def sample_spec_def sample_runtime_def zero_spec_def
        reads_source_def envFrom_reads_def)
  then show ?thesis
    unfolding rev_Digest_mints_iff by (auto simp: sample_resolved_def)
qed

text \<open>
  C28. The digest is an identity. Of two specs that each mint one, the digests are equal if and only if the specs have the
  same behaviour projection (every field of the behaviour surface, as \<open>project\<close> canonicalises it), read the same
  sources in the same order, and those sources resolved to the same contents. The strings of both projections are valid UTF-8,
  resolved digests have 64 characters, as \<open>ContentDigest\<close> makes them, and the two encodings are no collision of SHA-256.
\<close>

theorem rev_Digest_identity:
  assumes "rev_Digest s res = Inr d" "rev_Digest t res' = Inr d'"
    and "projection_valid s res" "projection_valid t res'"
    and "resolved_sized res" "resolved_sized res'"
    and "\<not> sha256_collision (rev_encode s res) (rev_encode t res')"
  shows "d = d' \<longleftrightarrow> project s = project t \<and> EnvSources s = EnvSources t \<and>
     (\<forall>r \<in> set (EnvSources s). res r = res' r)"
proof
  from assms(1,2) have m: "MissingSources s res = []" "MissingSources t res' = []"
    by (auto simp: rev_Digest_Inr)
  assume "d = d'"
  then have eq: "hex_sum256 (rev_encode s res) = hex_sum256 (rev_encode t res')"
    using assms(1,2) by (auto simp: rev_Digest_Inr)
  have "rev_projection s res = rev_projection t res'"
    using revision_id.digest_eq_normal [of "(s, res)" "(t, res')"] eq assms(3,4,7) by simp
  note p = rev_projection_eqD [OF this]
  have "EnvSources s = EnvSources t \<and> (\<forall>r \<in> set (EnvSources s). res r = res' r)"
    using p(2) m assms(5,6)
    by (intro source_entries_agree [of _ _ _ _ s t])
      (auto simp: set_EnvSources MissingSources_Nil resolved_sized_def)
  with p(1) show "project s = project t \<and> EnvSources s = EnvSources t \<and> (\<forall>r \<in> set (EnvSources s). res r = res' r)" by simp
next
  assume same: "project s = project t \<and> EnvSources s = EnvSources t \<and> (\<forall>r \<in> set (EnvSources s). res r = res' r)"
  then have "map (source_entry res) (EnvSources s) = map (source_entry res') (EnvSources t)"
    by (auto simp: source_entry_def cong: map_cong)
  moreover from same have "project s = project t" by simp
  ultimately have "rev_encode s res = rev_encode t res'" unfolding rev_encode_def rev_projection_def by (simp only:)
  then show "d = d'" using assms(1,2) by (auto simp: rev_Digest_Inr)
qed

theorem rev_Digest_identity_witness:
  "rev_Digest (sample_spec [''a'', ''b'']) sample_resolved = rev_Digest (sample_spec [''b'', ''a'']) sample_resolved"
proof -
  let ?s = "sample_spec [''a'', ''b'']" and ?t = "sample_spec [''b'', ''a'']"
  have p: "project ?s = project ?t" "UnknownEnvArms ?s = []" "UnknownEnvArms ?t = []"
    by (simp_all add: project_def tb_project_def UnknownEnvArms_def sample_spec_def
        sample_runtime_def zero_spec_def)
  have c: "EnvSources ?s = [\<lparr> sr_Kind = ''ConfigMap'', sr_Name = ''cfg'' \<rparr>]"
    "EnvSources ?t = [\<lparr> sr_Kind = ''ConfigMap'', sr_Name = ''cfg'' \<rparr>]"
    by (simp_all add: EnvSources_def sample_spec_def sample_runtime_def zero_spec_def add_source_def)
  with p have e: "rev_projection ?s sample_resolved = rev_projection ?t sample_resolved"
    by (simp add: rev_projection_def)
  have "MissingSources ?s sample_resolved = []" "MissingSources ?t sample_resolved = []"
    by (simp_all add: MissingSources_def c sample_resolved_def)
  then obtain d d' where d: "rev_Digest ?s sample_resolved = Inr d" "rev_Digest ?t sample_resolved = Inr d'"
    using p by (auto simp: rev_Digest_Inr)
  have "valid_utf8 (replicate n CHR ''0'')" for n by (induction n) simp_all
  with c have "projection_valid ?s sample_resolved"
    by (simp add: projection_valid_def rev_projection_def project_def sample_spec_def sample_runtime_def
        zero_spec_def behaviour_json_def omit_defs tb_project_def tool_json_def selector_json_def
        source_entry_def SourceRef_String_def sample_resolved_def)
  moreover have "resolved_sized sample_resolved" by (simp add: resolved_sized_def sample_resolved_def)
  ultimately have "d = d'"
    using rev_Digest_identity [OF d] e c p(1) by (simp add: projection_valid_def rev_encode_def sha256_collision_def)
  with d show ?thesis by simp
qed

text \<open>
  The policy surface: a spec with every leaf that \<^verbatim>\<open>leaves.go\<close> classifies \<^verbatim>\<open>inPlace\<close> set to arbitrary
  values.
\<close>

definition with_policy :: "int \<Rightarrow> string \<Rightarrow> string \<Rightarrow> CardSpec \<Rightarrow> GateRef list \<Rightarrow> ReleaseSpec option
    \<Rightarrow> AgentSpec \<Rightarrow> AgentSpec" where
  "with_policy replicas resources inline cspec gates release spec = spec
     \<lparr> sp_Runtime := map_option (\<lambda>r. r\<lparr> rt_Replicas := replicas, rt_Resources := resources \<rparr>) (sp_Runtime spec),
       sp_External := map_option (\<lambda>e. e\<lparr> ex_InlineCard := inline \<rparr>) (sp_External spec),
       sp_Card := cspec, sp_Gates := gates, sp_Release := release \<rparr>"

text \<open>
  The policy surface mints no revision: changing replicas, resources, the inline card, the card
  path, the gates or the release pin, in any combination, changes neither the digest nor whether
  one is minted. In particular asking for a rollback does not mint a revision to roll back from.
\<close>

theorem rev_Digest_policy_surface:
  "rev_Digest (with_policy replicas resources inline cspec gates release spec) res = rev_Digest spec res"
proof -
  let ?s = "with_policy replicas resources inline cspec gates release spec"
  have "project ?s = project spec" "EnvSources ?s = EnvSources spec" "UnknownEnvArms ?s = UnknownEnvArms spec"
    by (cases "sp_Runtime spec"; cases "sp_External spec";
        simp add: with_policy_def project_def EnvSources_def UnknownEnvArms_def)+
  then show ?thesis
    by (simp add: rev_Digest_def MissingSources_def rev_encode_def rev_projection_def)
qed

text \<open>
  Lists that carry no order are hashed as sets: specs that differ only in the order of tools,
  of knowledge bindings, of LLM providers and of allowlist entries have one digest. Tool names and
  knowledge (name, version) pairs are distinct, as their list-map keys make them.
\<close>

theorem rev_Digest_order:
  assumes "mset ts = mset (sp_Tools spec)" "distinct (map tb_Name ts)"
    and "mset ks = mset (sp_Knowledge spec)" "distinct (map (\<lambda>k. (kb_Name k, kb_Version k)) ks)"
    and "sp_LLM spec = Some l" "mset ps = mset (llm_Providers l)"
    and "llm_EgressAllowlist l = Some as" "mset as' = mset as"
  shows "rev_Digest (spec\<lparr> sp_Tools := ts, sp_Knowledge := ks,
           sp_LLM := Some (l\<lparr> llm_Providers := ps, llm_EgressAllowlist := Some as' \<rparr>) \<rparr>) res =
         rev_Digest spec res"
proof -
  let ?s = "spec\<lparr> sp_Tools := ts, sp_Knowledge := ks,
           sp_LLM := Some (l\<lparr> llm_Providers := ps, llm_EgressAllowlist := Some as' \<rparr>) \<rparr>"
  have "sort_key rvt_Name (map tb_project ts) = sort_key rvt_Name (map tb_project (sp_Tools spec))"
    using assms(1,2) by (intro sort_key_perm_unique) (simp_all add: tb_project_def comp_def)
  moreover have "sort_key (\<lambda>k. (rvk_Name k, rvk_Version k)) (map kb_project ks) =
      sort_key (\<lambda>k. (rvk_Name k, rvk_Version k)) (map kb_project (sp_Knowledge spec))"
    using assms(3,4) by (intro sort_key_perm_unique) (simp_all add: kb_project_def comp_def)
  moreover have "sort (map endpointIdentity ps) = sort (map endpointIdentity (llm_Providers l))"
    "sort (map allowIdentity as') = sort (map allowIdentity as)"
    using assms(6,8) by (metis mset_map sorted_list_of_multiset_mset)+
  ultimately have "project ?s = project spec"
    using assms(5,7) by (simp add: project_def llm_project_def)
  moreover have "EnvSources ?s = EnvSources spec" "UnknownEnvArms ?s = UnknownEnvArms spec"
    by (simp_all add: EnvSources_def UnknownEnvArms_def)
  ultimately show ?thesis
    by (simp add: rev_Digest_def MissingSources_def rev_encode_def rev_projection_def)
qed

definition sample_llm :: LLMSpec where
  "sample_llm = \<lparr> llm_Providers = [], llm_EgressAllowlist = Some [], llm_Fallback = None \<rparr>"

theorem rev_Digest_order_witness:
  "rev_Digest ((sample_spec [''a'', ''b''])\<lparr> sp_LLM := Some sample_llm,
     sp_Tools := rev (sp_Tools (sample_spec [''a'', ''b''])) \<rparr>) sample_resolved =
   rev_Digest ((sample_spec [''a'', ''b''])\<lparr> sp_LLM := Some sample_llm \<rparr>) sample_resolved"
proof -
  let ?s = "(sample_spec [''a'', ''b''])\<lparr> sp_LLM := Some sample_llm \<rparr>"
  show ?thesis
    using rev_Digest_order [where spec = ?s and ts = "rev (sp_Tools (sample_spec [''a'', ''b'']))"
        and ks = "sp_Knowledge ?s" and l = sample_llm and ps = "[]" and as = "[]" and as' = "[]"
        and res = sample_resolved]
    by (simp add: sample_spec_def sample_llm_def zero_spec_def)
qed

text \<open>
  The revision's name is the first ten characters of its digest, lowercase hex throughout, and
  is produced exactly when the digest is: equal digests give equal names, never the converse.
\<close>

theorem rev_Hash_name:
  "rev_Hash spec res = (case rev_Digest spec res of Inl e \<Rightarrow> Inl e | Inr d \<Rightarrow> Inr (take 10 d)) \<and>
   (\<forall>h. rev_Hash spec res = Inr h \<longrightarrow> length h = 10 \<and> list_all is_hex h)"
  by (auto simp: rev_Hash_def rev_Digest_Inr list_all_iff split: sum.splits
      dest!: in_set_takeD hex_sum256_is_hex)

theorem rev_Hash_name_witness:
  "\<exists>h. rev_Hash (sample_spec []) sample_resolved = Inr h \<and> length h = 10"
proof -
  have "\<exists>d. rev_Digest (sample_spec []) sample_resolved = Inr d"
    by (simp add: rev_Digest_def UnknownEnvArms_def MissingSources_def EnvSources_def sample_spec_def
        sample_runtime_def zero_spec_def add_source_def sample_resolved_def)
  then obtain h where "rev_Hash (sample_spec []) sample_resolved = Inr h" by (auto simp: rev_Hash_def)
  with rev_Hash_name [of "sample_spec []" sample_resolved] show ?thesis by blast
qed

text \<open>
  The content digest of a ConfigMap or Secret determines its contents: the length-prefixed
  preimage is injective, so equal digests mean the same keys and values in data and in binaryData
  separately, or a collision of SHA-256.
\<close>

theorem ContentDigest_identity:
  assumes "ContentDigest data binary = ContentDigest data' binary'"
    and "distinct (map fst data)" "distinct (map fst binary)"
    and "distinct (map fst data')" "distinct (map fst binary')"
    and "\<not> sha256_collision (content_preimage data binary) (content_preimage data' binary')"
  shows "map_of data = map_of data' \<and> map_of binary = map_of binary'"
  using content_id.digest_eq_normal [of "(data, binary)" "(data', binary')"] assms
  by (simp add: ContentDigest_def)

theorem ContentDigest_identity_witness:
  "map_of [(''a'', ''1''), (''b'', ''2'')] = map_of [(''b'', ''2''), (''a'', ''1'')]"
proof -
  have "content_preimage [(''a'', ''1''), (''b'', ''2'')] [] = content_preimage [(''b'', ''2''), (''a'', ''1'')] []"
    by (simp add: content_preimage_def)
  then show ?thesis
    using ContentDigest_identity [of "[(''a'', ''1''), (''b'', ''2'')]" "[]" "[(''b'', ''2''), (''a'', ''1'')]" "[]"]
    by (simp add: ContentDigest_def sha256_collision_def)
qed

definition custom_endpoint :: "string \<Rightarrow> string \<Rightarrow> LLMEndpoint" where
  "custom_endpoint prefix m = \<lparr> le_Arm = ''custom'', le_Model = m, le_AzureOpenAI = None,
     le_VertexAI = None, le_Bedrock = None,
     le_Custom = Some \<lparr> cu_Host = ''h'', cu_Port = 1, cu_PathPrefix = prefix \<rparr> \<rparr>"

definition openai_allow :: "string list \<Rightarrow> LLMAllowEntry" where
  "openai_allow ms = \<lparr> la_Arm = ''openai'', la_Models = ms, la_AzureOpenAI = None,
     la_VertexAI = None, la_Bedrock = None, la_Custom = None \<rparr>"

text \<open>
  The endpoint identity is injective on endpoints whose fields keep clear of the separators it
  writes, and only there: with a bar and a parenthesis in a path prefix, two custom endpoints that
  differ in path prefix and in model have one identity, and an allowlist entry for the single
  model \<^verbatim>\<open>a,b\<close> has the identity of one for the models \<^verbatim>\<open>a\<close> and \<^verbatim>\<open>b\<close>.
\<close>

theorem endpointIdentity_injective:
  "(\<forall>e f. endpoint_clear e \<and> endpoint_clear f \<and> endpointIdentity e = endpointIdentity f \<longrightarrow> e = f) \<and>
   endpointIdentity (custom_endpoint ''p)|model=a'' ''b'') = endpointIdentity (custom_endpoint ''p'' ''a)|model=b'') \<and>
   allowIdentity (openai_allow [''a,b'']) = allowIdentity (openai_allow [''a'', ''b''])"
  using endpointIdentity_clear_inj
  by (auto simp: endpointIdentity_def custom_endpoint_def instanceIdentity_def allowIdentity_def openai_allow_def)

theorem endpointIdentity_injective_witness:
  "endpointIdentity (custom_endpoint ''/v1'' ''m'') \<noteq> endpointIdentity (custom_endpoint ''/v2'' ''m'')"
proof -
  have "endpoint_clear (custom_endpoint ''/v1'' ''m'')" "endpoint_clear (custom_endpoint ''/v2'' ''m'')"
    "custom_endpoint ''/v1'' ''m'' \<noteq> custom_endpoint ''/v2'' ''m''"
    by (simp_all add: endpoint_clear_def custom_endpoint_def clear_def)
  then show ?thesis using endpointIdentity_injective by blast
qed

end
