(* ===== verification/Agent_State.thy ===== *)
theory Agent_State
  imports Revision
begin

text \<open>
  Readings and small writes of \<^verbatim>\<open>status\<close> that both controllers share: the cards
  (\<^verbatim>\<open>internal/controller/card.go\<close>), the recorded auth transaction (\<^verbatim>\<open>authtxn.go\<close>, \<^verbatim>\<open>httproute.go\<close>), the
  send predicates (\<^verbatim>\<open>sendpredicates.go\<close>) and the superseded candidates (\<^verbatim>\<open>agent_controller.go\<close>).

  A route is the list of its rules' backendRef names, which is all that is read of it here.
\<close>

section \<open>Cards\<close>

abbreviation (input) CardRetryInterval :: duration where "CardRetryInterval \<equiv> 15 * second"
abbreviation (input) CardDriftInterval :: duration where "CardDriftInterval \<equiv> 300 * second"

definition card_for :: "string \<Rightarrow> CardStatus \<Rightarrow> bool" where
  "card_for revDigest c \<longleftrightarrow> cd_RevisionDigest c = revDigest"

definition upsertCard :: "CardStatus list \<Rightarrow> CardStatus \<Rightarrow> string \<Rightarrow> CardStatus list" where
  "upsertCard cards c revDigest =
     (let c = c\<lparr> cd_RevisionDigest := revDigest \<rparr> in
      if find (card_for revDigest) cards \<noteq> None then replace_first (card_for revDigest) c cards
      else cards @ [c])"

definition cardEntry :: "AgentStatus \<Rightarrow> string \<Rightarrow> CardStatus option" where
  "cardEntry status revDigest = find (card_for revDigest) (st_Cards status)"

definition cardFetchDue :: "AgentStatus \<Rightarrow> string \<Rightarrow> go_time \<Rightarrow> bool" where
  "cardFetchDue status revDigest now = (case cardEntry status revDigest of
     None \<Rightarrow> True
   | Some c \<Rightarrow> (case cd_FetchedAt c of
       None \<Rightarrow> True
     | Some at \<Rightarrow> if cd_Digest c = [] then now - at \<ge> CardRetryInterval
                  else now - at \<ge> CardDriftInterval))"

definition cardRequeueAfter :: "AgentStatus \<Rightarrow> string \<Rightarrow> duration" where
  "cardRequeueAfter status revDigest = (case cardEntry status revDigest of
     None \<Rightarrow> CardRetryInterval
   | Some c \<Rightarrow> if cd_Digest c = [] then CardRetryInterval else CardDriftInterval)"

definition hasCardFor :: "AgentStatus \<Rightarrow> string \<Rightarrow> bool" where
  "hasCardFor status revDigest = (case cardEntry status revDigest of
     None \<Rightarrow> False | Some c \<Rightarrow> cd_Digest c \<noteq> [])"

definition recordCardAttempt :: "AgentStatus \<Rightarrow> string \<Rightarrow> string \<Rightarrow> go_time \<Rightarrow> AgentStatus" where
  "recordCardAttempt status rv revDigest at =
     (if cardEntry status revDigest \<noteq> None
      then status\<lparr> st_Cards := update_first (card_for revDigest)
             (\<lambda>c. c\<lparr> cd_FetchedAt := Some at, cd_Digest := [], cd_Revision := rv \<rparr>) (st_Cards status) \<rparr>
      else status\<lparr> st_Cards := st_Cards status @
             [\<lparr> cd_Revision = rv, cd_RevisionDigest = revDigest, cd_Name = [], cd_Version = [],
                cd_FetchedAt = Some at, cd_Digest = [], cd_Signed = False, cd_SharedTaskState = False \<rparr>] \<rparr>)"

definition pruneCards :: "AgentStatus \<Rightarrow> (string \<Rightarrow> bool) \<Rightarrow> AgentStatus \<times> bool" where
  "pruneCards status keep =
     (if st_Cards status = [] then (status, False)
      else let kept = filter (\<lambda>c. keep (cd_Revision c)) (st_Cards status) in
           (status\<lparr> st_Cards := kept \<rparr>, length kept \<noteq> length (st_Cards status)))"

text \<open>\<^verbatim>\<open>findCondition\<close>.\<close>

definition findCondition :: "condition list \<Rightarrow> string \<Rightarrow> condition option" where
  "findCondition conds t = find (\<lambda>c. c_Type c = t) conds"

section \<open>The recorded transaction\<close>

abbreviation TxCreate :: string where "TxCreate \<equiv> ''Create''"
abbreviation TxLock :: string where "TxLock \<equiv> ''Lock''"
abbreviation TxAdopt :: string where "TxAdopt \<equiv> ''Adopt''"
abbreviation StageProbingAfter :: string where "StageProbingAfter \<equiv> ''ProbingAfter''"

definition authTransaction :: "AgentStatus \<Rightarrow> AuthTransaction option" where
  "authTransaction status = (case st_Auth status of None \<Rightarrow> None | Some a \<Rightarrow> au_Transaction a)"

definition recordOf :: "AgentStatus \<Rightarrow> string \<times> AuthTransaction option" where
  "recordOf status = (case st_Auth status of None \<Rightarrow> ([], None) | Some a \<Rightarrow> (au_Mode a, au_Transaction a))"

definition isReCreation :: "AuthStatus option \<Rightarrow> bool" where
  "isReCreation auth = (case auth of
     None \<Rightarrow> False
   | Some a \<Rightarrow> (case au_Transaction a of
       None \<Rightarrow> False
     | Some tx \<Rightarrow> au_Mode a \<noteq> [] \<and>
         (tx_Kind tx = TxCreate \<or> (tx_Kind tx = TxLock \<and> tx_TargetMode tx = au_Mode a))))"

definition abandons :: "AuthStatus option \<Rightarrow> string \<Rightarrow> bool" where
  "abandons auth desiredMode = (case auth of
     None \<Rightarrow> False
   | Some a \<Rightarrow> (case au_Transaction a of
       None \<Rightarrow> False
     | Some tx \<Rightarrow>
       if isReCreation auth then False
       else if (tx_Kind tx \<noteq> TxCreate \<and> tx_Kind tx \<noteq> TxLock) \<or> tx_TargetMode tx = [] then False
       else tx_TargetMode tx \<noteq> desiredMode))"

type_synonym route = "string list list"

definition singleBackend :: "route option \<Rightarrow> string" where
  "singleBackend rt = (case rt of Some [[b]] \<Rightarrow> b | _ \<Rightarrow> [])"

definition WorkloadName :: "string \<Rightarrow> string \<Rightarrow> string" where
  "WorkloadName agent rv = agent @ ''-'' @ rv"

definition cardAttributes :: "string \<Rightarrow> AgentStatus \<Rightarrow> route option \<Rightarrow> bool" where
  "cardAttributes agentName status rt =
     (let backend = singleBackend rt in
      if backend = [] then False
      else list_ex (\<lambda>c. cd_Digest c \<noteq> [] \<and> WorkloadName agentName (cd_Revision c) = backend) (st_Cards status))"

definition beforeRevisionFor :: "string \<Rightarrow> AgentStatus \<Rightarrow> route option \<Rightarrow> int \<Rightarrow> string \<Rightarrow> string" where
  "beforeRevisionFor agentName status rt code cardDigest =
     (let backend = singleBackend rt in
      if code \<noteq> 200 \<or> cardDigest = [] \<or> backend = [] then []
      else case find (\<lambda>c. cd_Digest c \<noteq> [] \<and> WorkloadName agentName (cd_Revision c) = backend) (st_Cards status) of
        None \<Rightarrow> []
      | Some c \<Rightarrow> if cd_Digest c = cardDigest then cd_Revision c else [])"

definition cardedRevision :: "AgentStatus \<Rightarrow> string \<Rightarrow> bool" where
  "cardedRevision status rv =
     (rv \<noteq> [] \<and> list_ex (\<lambda>c. cd_Revision c = rv \<and> cd_Digest c \<noteq> []) (st_Cards status))"

section \<open>Send predicates\<close>

definition candidatePending :: "AgentStatus \<Rightarrow> bool" where
  "candidatePending status \<longleftrightarrow> st_CandidateRevisionDigest status \<noteq> [] \<and>
     st_CandidateRevisionDigest status \<noteq> st_ActiveRevisionDigest status"

definition pinnedRollbackHolds :: "string \<Rightarrow> string \<Rightarrow> string \<Rightarrow> bool \<Rightarrow> bool" where
  "pinnedRollbackHolds pin candidate spec computed =
     (if \<not> computed then pin = [] \<or> pin = candidate else spec \<noteq> candidate)"

text \<open>
  \<^verbatim>\<open>specDigestOf\<close> and \<^verbatim>\<open>pinnedRollbackCandidate\<close>; what reading the env sources gave is an argument: an
  error, or the content digests and the references it could not resolve.
\<close>

type_synonym env_read = "api_error + Resolved \<times> string list"

definition specDigestOf :: "env_read \<Rightarrow> AgentSpec \<Rightarrow> api_error + string option" where
  "specDigestOf env spec = (case env of
     Inl e \<Rightarrow> Inl e
   | Inr (resolved, unresolved) \<Rightarrow>
     if unresolved \<noteq> [] then Inr None
     else (case rev_Digest spec resolved of Inl _ \<Rightarrow> Inr None | Inr d \<Rightarrow> Inr (Some d)))"

definition pin_of :: "AgentSpec \<Rightarrow> string" where
  "pin_of spec = (case sp_Release spec of None \<Rightarrow> [] | Some r \<Rightarrow> rl_TargetRevisionDigest r)"

definition pinnedRollbackCandidate :: "env_read \<Rightarrow> Agent \<Rightarrow> bool \<times> api_error option" where
  "pinnedRollbackCandidate env agent =
     (let pin = pin_of (ag_Spec agent) in
      case specDigestOf env (ag_Spec agent) of
        Inl e \<Rightarrow> (True, Some e)
      | Inr d \<Rightarrow> (pinnedRollbackHolds pin (st_CandidateRevisionDigest (ag_Status agent))
                   (case d of None \<Rightarrow> [] | Some x \<Rightarrow> x) (d \<noteq> None), None))"

definition recordedTransaction :: "AgentStatus \<Rightarrow> AuthTransaction option" where
  "recordedTransaction status = (case authTransaction status of
     Some tx \<Rightarrow> if tx_Kind tx = TxCreate \<or> tx_Kind tx = TxLock then Some tx else None
   | None \<Rightarrow> None)"

definition exemptTransaction :: "AgentStatus \<Rightarrow> bool \<times> string" where
  "exemptTransaction status = (case recordedTransaction status of
     None \<Rightarrow> (False, ''no Create or Lock is recorded'')
   | Some tx \<Rightarrow>
     if tx_Kind tx \<noteq> TxLock then (False, ''a Create writes and publishes the route'')
     else if isReCreation (st_Auth status) then (False, ''it is the Lock of a missing policy'')
     else if tx_Stage tx \<noteq> StageProbingAfter then (False, msgf ''it is in an earlier stage'' [tx_Stage tx])
     else if tx_BeforeObserved tx then (False, ''it observed the route open before'')
     else if cardedRevision status (st_ActiveRevision status)
       then (False, msgf ''a card digest is recorded for the active revision'' [st_ActiveRevision status])
     else (True, []))"

definition evalGenerationCurrent :: "Agent \<Rightarrow> bool" where
  "evalGenerationCurrent agent \<longleftrightarrow> st_ObservedGeneration (ag_Status agent) = ag_Generation agent"

record GatewayConfig =
  gw_Enabled :: bool
  gw_Name :: string
  gw_Namespace :: string
  gw_HostnameSuffix :: string
  gw_ServingURL :: string

definition i1Hold :: "GatewayConfig \<Rightarrow> AgentStatus \<Rightarrow> bool \<Rightarrow> bool \<Rightarrow> string" where
  "i1Hold gw status compiles pinned = (case st_Auth status of
     None \<Rightarrow> []
   | Some a \<Rightarrow>
     if \<not> gw_Enabled gw \<or> pinned \<or> compiles then []
     else if au_Mode a = [] then []
     else ''its -auth input does not compile'')"

text \<open>
  \<^verbatim>\<open>workloadAvailableIn\<close>, given what the get of the candidate's Deployment returned: its revision digest
  annotation, its agent UID label and its available replicas.
\<close>

record workload =
  wl_Digest :: string
  wl_AgentUID :: string
  wl_AvailableReplicas :: int

definition workloadAvailableIn :: "api_error + workload \<Rightarrow> Agent \<Rightarrow> string \<Rightarrow> api_error + bool" where
  "workloadAvailableIn got agent digest = (case got of
     Inl e \<Rightarrow> if IsNotFound e then Inr False else Inl e
   | Inr d \<Rightarrow> if wl_Digest d \<noteq> digest \<or> wl_AgentUID d \<noteq> ag_UID agent then Inr False
              else Inr (wl_AvailableReplicas d > 0))"

section \<open>Superseded candidates\<close>

abbreviation (input) maxSupersededCandidates :: nat where "maxSupersededCandidates \<equiv> 10"

definition removeString :: "string list \<Rightarrow> string \<Rightarrow> string list" where
  "removeString xs s = filter (\<lambda>x. x \<noteq> s) xs"

definition appendSuperseded :: "string list \<Rightarrow> string \<Rightarrow> string list" where
  "appendSuperseded xs rv =
     (if rv = [] \<or> rv \<in> set xs then xs else append_capped maxSupersededCandidates xs rv)"

section \<open>What a write of status.eval leaves alone\<close>

lemma eval_frame [status_frame]:
  "authTransaction (st\<lparr> st_Eval := e \<rparr>) = authTransaction st"
  "recordedTransaction (st\<lparr> st_Eval := e \<rparr>) = recordedTransaction st"
  "cardedRevision (st\<lparr> st_Eval := e \<rparr>) rv = cardedRevision st rv"
  "exemptTransaction (st\<lparr> st_Eval := e \<rparr>) = exemptTransaction st"
  "cardEntry (st\<lparr> st_Eval := e \<rparr>) d = cardEntry st d"
  "hasCardFor (st\<lparr> st_Eval := e \<rparr>) d = hasCardFor st d"
  "cardAttributes n (st\<lparr> st_Eval := e \<rparr>) rt = cardAttributes n st rt"
  "candidatePending (st\<lparr> st_Eval := e \<rparr>) = candidatePending st"
proof -
  show a: "authTransaction (st\<lparr> st_Eval := e \<rparr>) = authTransaction st"
    "cardedRevision (st\<lparr> st_Eval := e \<rparr>) rv = cardedRevision st rv"
    "cardEntry (st\<lparr> st_Eval := e \<rparr>) d = cardEntry st d" for rv d
    by (simp_all add: authTransaction_def cardedRevision_def cardEntry_def)
  show r: "recordedTransaction (st\<lparr> st_Eval := e \<rparr>) = recordedTransaction st"
    by (simp add: recordedTransaction_def a)
  show "exemptTransaction (st\<lparr> st_Eval := e \<rparr>) = exemptTransaction st"
    by (simp add: exemptTransaction_def r a split: option.split)
  show "hasCardFor (st\<lparr> st_Eval := e \<rparr>) d = hasCardFor st d"
    "cardAttributes n (st\<lparr> st_Eval := e \<rparr>) rt = cardAttributes n st rt"
    "candidatePending (st\<lparr> st_Eval := e \<rparr>) = candidatePending st"
    by (simp_all add: hasCardFor_def a cardAttributes_def candidatePending_def)
qed

section \<open>Facts on cards\<close>

lemma find_upsert_same:
  "find (card_for d) (upsertCard cards c d) = Some (c\<lparr> cd_RevisionDigest := d \<rparr>)"
proof (cases "find (card_for d) cards")
  case None
  then show ?thesis by (simp add: upsertCard_def Let_def find_append card_for_def)
next
  case (Some x)
  then show ?thesis
    by (simp add: upsertCard_def Let_def find_replace_first card_for_def)
qed

lemma find_upsert_other:
  assumes "d \<noteq> e"
  shows "find (card_for e) (upsertCard cards c d) = find (card_for e) cards"
proof -
  have "find (card_for e) (replace_first (card_for d) (c\<lparr> cd_RevisionDigest := d \<rparr>) cards) = find (card_for e) cards"
    using assms by (intro find_replace_first_other) (auto simp: card_for_def)
  then show ?thesis
    using assms by (auto simp: upsertCard_def Let_def find_append card_for_def split: option.split)
qed

interpretation cards: keyed_record
  "\<lambda>cards d. find (card_for d) cards" "\<lambda>d c cards. upsertCard cards c d"
  "\<lambda>d c. c\<lparr> cd_RevisionDigest := d \<rparr>"
  by unfold_locales (simp_all add: find_upsert_same find_upsert_other)

interpretation superseded: bounded_log "\<lambda>rv xs. appendSuperseded xs rv" 10 "\<lambda>rv. rv \<noteq> []"
  by unfold_locales (auto simp: appendSuperseded_def length_append_capped append_capped_newest
      dest: subsetD [OF set_append_capped])

lemma cardEntry_attempt:
  "cardEntry (recordCardAttempt status rv d at) e =
     (if e = d then Some (case cardEntry status d of
          Some c \<Rightarrow> c\<lparr> cd_FetchedAt := Some at, cd_Digest := [], cd_Revision := rv \<rparr>
        | None \<Rightarrow> \<lparr> cd_Revision = rv, cd_RevisionDigest = d, cd_Name = [], cd_Version = [],
                cd_FetchedAt = Some at, cd_Digest = [], cd_Signed = False, cd_SharedTaskState = False \<rparr>)
      else cardEntry status e)"
proof (cases "cardEntry status d")
  case None
  then show ?thesis
    by (auto simp: recordCardAttempt_def cardEntry_def find_append card_for_def split: option.split)
next
  case (Some c)
  let ?f = "\<lambda>c. c\<lparr> cd_FetchedAt := Some at, cd_Digest := [], cd_Revision := rv \<rparr>"
  have "find (card_for d) (update_first (card_for d) ?f cs) = map_option ?f (find (card_for d) cs)" for cs
    by (rule find_update_first) (simp add: card_for_def)
  moreover have "e \<noteq> d \<Longrightarrow> find (card_for e) (update_first (card_for d) ?f cs) = find (card_for e) cs" for cs
    by (rule find_update_first_other) (simp_all add: card_for_def)
  ultimately show ?thesis using Some by (simp add: recordCardAttempt_def cardEntry_def)
qed

section \<open>Properties\<close>

text \<open>
  The card record is exact per revision digest. Recording a fetched card makes it the one read
  back under its digest, and a failed attempt clears it there; every other digest's card is
  untouched by either. The next fetch is due exactly when the interval named for the requeue has
  passed since, and not before.
\<close>

theorem card_record_exact:
  assumes "cd_FetchedAt c = Some at"
  shows "cardEntry (st\<lparr> st_Cards := upsertCard (st_Cards st) c d \<rparr>) e =
      (if e = d then Some (c\<lparr> cd_RevisionDigest := d \<rparr>) else cardEntry st e) \<and>
    hasCardFor (st\<lparr> st_Cards := upsertCard (st_Cards st) c d \<rparr>) e =
      (if e = d then cd_Digest c \<noteq> [] else hasCardFor st e) \<and>
    hasCardFor (recordCardAttempt st rv d at) e = (e \<noteq> d \<and> hasCardFor st e) \<and>
    (cardFetchDue (st\<lparr> st_Cards := upsertCard (st_Cards st) c d \<rparr>) d now \<longleftrightarrow>
       now - at \<ge> cardRequeueAfter (st\<lparr> st_Cards := upsertCard (st_Cards st) c d \<rparr>) d) \<and>
    (cardFetchDue (recordCardAttempt st rv d at) d now \<longleftrightarrow>
       now - at \<ge> cardRequeueAfter (recordCardAttempt st rv d at) d)"
proof -
  let ?u = "st\<lparr> st_Cards := upsertCard (st_Cards st) c d \<rparr>"
  have u: "cardEntry ?u e = (if e = d then Some (c\<lparr> cd_RevisionDigest := d \<rparr>) else cardEntry st e)" for e
    using cards.lookup_put [where k = d and w = c and s = "st_Cards st" and j = e] by (simp add: cardEntry_def)
  have a: "cardEntry (recordCardAttempt st rv d at) d = Some x \<Longrightarrow> cd_Digest x = [] \<and> cd_FetchedAt x = Some at" for x
    by (auto simp: cardEntry_attempt split: option.splits)
  have "\<exists>x. cardEntry (recordCardAttempt st rv d at) d = Some x" by (simp add: cardEntry_attempt)
  then obtain x where x: "cardEntry (recordCardAttempt st rv d at) d = Some x" by blast
  have n: "e \<noteq> d \<Longrightarrow> cardEntry (recordCardAttempt st rv d at) e = cardEntry st e"
    by (simp add: cardEntry_attempt)
  show ?thesis
    using u x a [OF x] n assms
    by (cases "e = d") (simp_all add: hasCardFor_def cardFetchDue_def cardRequeueAfter_def)
qed

definition sample_card :: "string \<Rightarrow> CardStatus" where
  "sample_card digest = \<lparr> cd_Revision = ''r1'', cd_RevisionDigest = [], cd_Name = ''agent'', cd_Version = ''1'',
     cd_FetchedAt = Some 0, cd_Digest = digest, cd_Signed = False, cd_SharedTaskState = False \<rparr>"

theorem card_record_exact_witness:
  "hasCardFor (zero_status\<lparr> st_Cards := upsertCard [] (sample_card ''c1'') ''d1'' \<rparr>) ''d1'' \<and>
   \<not> hasCardFor (zero_status\<lparr> st_Cards := upsertCard [] (sample_card ''c1'') ''d1'' \<rparr>) ''d2''"
  using card_record_exact [of "sample_card ''c1''" 0 zero_status "''d1''" "''d1''"]
    card_record_exact [of "sample_card ''c1''" 0 zero_status "''d1''" "''d2''"]
  by (simp add: sample_card_def zero_status_def hasCardFor_def cardEntry_def)

text \<open>
  The exemption's clauses 1 to 4: a recorded transaction does not hold the eval back exactly when
  it is a Lock that is not a re-creation, has reached ProbingAfter, did not observe the route open,
  and the active revision has no recorded card. Every Create, every Lock of a missing policy and
  the absence of any transaction are not exempt, with a reason given.
\<close>

theorem exemptTransaction_iff:
  "(fst (exemptTransaction st) \<longleftrightarrow>
     (\<exists>a tx. st_Auth st = Some a \<and> au_Transaction a = Some tx \<and> tx_Kind tx = TxLock \<and>
        \<not> (au_Mode a \<noteq> [] \<and> tx_TargetMode tx = au_Mode a) \<and> tx_Stage tx = StageProbingAfter \<and>
        \<not> tx_BeforeObserved tx \<and> \<not> cardedRevision st (st_ActiveRevision st))) \<and>
   (fst (exemptTransaction st) \<longleftrightarrow> snd (exemptTransaction st) = [])"
  by (auto simp: exemptTransaction_def recordedTransaction_def authTransaction_def isReCreation_def
      split: option.splits)

text \<open>
  A pinned rollback's candidate is never sent a case, and failing to know is holding: a read error
  holds with the error; with the spec's digest computed, the candidate is held exactly when the
  spec mints another revision; with it not computable, a candidate that the pin names, and any
  candidate while no pin is set, is held.
\<close>

theorem pinnedRollbackCandidate_cases:
  "(\<forall>e. env = Inl e \<longrightarrow> pinnedRollbackCandidate env agent = (True, Some e)) \<and>
   (\<forall>res d. env = Inr (res, []) \<and> rev_Digest (ag_Spec agent) res = Inr d \<longrightarrow>
      pinnedRollbackCandidate env agent = (d \<noteq> st_CandidateRevisionDigest (ag_Status agent), None)) \<and>
   (\<forall>res un. env = Inr (res, un) \<and> (un \<noteq> [] \<or> (\<exists>m. rev_Digest (ag_Spec agent) res = Inl m)) \<longrightarrow>
      pinnedRollbackCandidate env agent =
        (pin_of (ag_Spec agent) = [] \<or> pin_of (ag_Spec agent) = st_CandidateRevisionDigest (ag_Status agent), None))"
  by (auto simp: pinnedRollbackCandidate_def specDigestOf_def pinnedRollbackHolds_def Let_def
      split: sum.splits)

theorem pinnedRollbackCandidate_cases_witness:
  "pinnedRollbackCandidate (Inl \<lparr> err_class = ETimeout, err_text = [], err_nsTerminating = False \<rparr>)
     \<lparr> ag_Name = ''a'', ag_Namespace = ''n'', ag_UID = ''u'', ag_Generation = 1, ag_ResourceVersion = 1,
       ag_DeletionTimestamp = None, ag_Finalizers = [], ag_Spec = zero_spec, ag_Status = zero_status \<rparr>
   = (True, Some \<lparr> err_class = ETimeout, err_text = [], err_nsTerminating = False \<rparr>)"
  by (simp add: pinnedRollbackCandidate_cases)

text \<open>
  Superseded candidates are recorded once each and never more than ten: appending to a list
  within the bound keeps it within the bound and free of repetitions, keeps a named revision, and
  adds nothing else.
\<close>

theorem appendSuperseded_bounded:
  assumes "length xs \<le> 10" "distinct xs"
  shows "length (appendSuperseded xs rv) \<le> 10 \<and> distinct (appendSuperseded xs rv) \<and>
    (rv \<noteq> [] \<longrightarrow> rv \<in> set (appendSuperseded xs rv)) \<and> set (appendSuperseded xs rv) \<subseteq> insert rv (set xs) \<and>
    (rv = [] \<or> rv \<in> set xs \<or> length xs = 10 \<or> appendSuperseded xs rv = xs @ [rv])"
proof -
  have "distinct (append_capped n xs rv)" if "rv \<notin> set xs" for n
    using that assms(2) unfolding append_capped_def Let_def by (intro distinct_drop) simp
  then show ?thesis
    using superseded.add_bound [of xs rv] superseded.add_member [of rv xs] superseded.add_subset [of xs rv]
      assms append_capped_small [of xs 10 rv]
    by (cases "length xs < 10") (auto simp: appendSuperseded_def)
qed

theorem appendSuperseded_bounded_witness:
  "length (appendSuperseded [''r1''] ''r2'') \<le> 10 \<and> ''r2'' \<in> set (appendSuperseded [''r1''] ''r2'')"
  using appendSuperseded_bounded [of "[''r1'']" "''r2''"] by simp

end
