(* ===== verification/Conditions.thy ===== *)
theory Conditions
  imports Agent_State
begin

text \<open>
  Conditions (\<^verbatim>\<open>internal/controller/conditions.go\<close>): what one pass asserts, and how it is folded into the
  conditions an object already carries.

  The set of assertions is a Go map, here an association list with distinct keys whose order never
  matters: it is read by key and iterated sorted. One merge reads the clock once (\<open>now\<close>); the
  source calls \<^verbatim>\<open>metav1.Now\<close> per condition. \<open>sortStrings\<close> is the source's in-place insertion sort, shown to
  be a sort.
\<close>

section \<open>The pass's assertions\<close>

record conditionSet =
  cn_generation :: int
  cn_asserted :: "(string \<times> condition) list"

definition newConditionSet :: "int \<Rightarrow> conditionSet" where
  "newConditionSet generation = \<lparr> cn_generation = generation, cn_asserted = [] \<rparr>"

definition alist_delete :: "string \<Rightarrow> (string \<times> 'a) list \<Rightarrow> (string \<times> 'a) list" where
  "alist_delete t m = filter (\<lambda>kv. fst kv \<noteq> t) m"

definition alist_put :: "string \<Rightarrow> 'a \<Rightarrow> (string \<times> 'a) list \<Rightarrow> (string \<times> 'a) list" where
  "alist_put t c m = (t, c) # alist_delete t m"

definition cond_set :: "string \<Rightarrow> cond_status \<Rightarrow> string \<Rightarrow> string \<Rightarrow> conditionSet \<Rightarrow> conditionSet" where
  "cond_set t st reason msg c = c\<lparr> cn_asserted := alist_put t
     \<lparr> c_Type = t, c_Status = st, c_ObservedGeneration = cn_generation c, c_LastTransitionTime = 0,
       c_Reason = reason, c_Message = msg \<rparr> (cn_asserted c) \<rparr>"

definition cond_get :: "conditionSet \<Rightarrow> string \<Rightarrow> condition option" where
  "cond_get c t = map_of (cn_asserted c) t"

definition cond_unset :: "string \<Rightarrow> conditionSet \<Rightarrow> conditionSet" where
  "cond_unset t c = c\<lparr> cn_asserted := alist_delete t (cn_asserted c) \<rparr>"

definition cond_carry :: "condition \<Rightarrow> conditionSet \<Rightarrow> conditionSet" where
  "cond_carry cond c = c\<lparr> cn_asserted := alist_put (c_Type cond) cond (cn_asserted c) \<rparr>"

definition ownedTypes :: "string list" where
  "ownedTypes = [''Ready'', ''Progressing'', ''GatesSkipped'', ''GatesPassed'', ''SandboxDowngraded'',
     ''TaskStateUnverified'', ''Degraded'', ''EnvSourceProtectionUnavailable'', ''EnvSourceUnresolved'',
     ''RevisionHashCollision'', ''RunNamespaceUnavailable'', ''RevisionMaterialUnavailable'',
     ''GovernanceSkipped'', ''PolicyCompileFailed'', ''PolicyApplyIncomplete'', ''ImageSignatureUnverified'',
     ''GatesBypassed'', ''ActiveRevisionPassUnrecorded'']"

definition stickyTypes :: "string list" where
  "stickyTypes = [''Ready'', ''Progressing'', ''GatesPassed'', ''GovernanceSkipped'']"

section \<open>Sorting in place\<close>

fun sink :: "nat \<Rightarrow> 'a :: linorder list \<Rightarrow> 'a list" where
  "sink 0 xs = xs"
| "sink (Suc j) xs =
     (if xs ! Suc j < xs ! j then sink j (xs[Suc j := xs ! j, j := xs ! Suc j]) else xs)"

definition sortStrings :: "string list \<Rightarrow> string list" where
  "sortStrings xs = fold sink [1..<length xs] xs"

definition sortedConditions :: "(string \<times> condition) list \<Rightarrow> condition list" where
  "sortedConditions m = map (\<lambda>t. the (map_of m t)) (sortStrings (map fst m))"

section \<open>Merging\<close>

fun merge_loop :: "go_time \<Rightarrow> (string \<times> condition) list \<Rightarrow> condition list \<Rightarrow> condition list" where
  "merge_loop now asserted [] = map (\<lambda>c. c\<lparr> c_LastTransitionTime := now \<rparr>) (sortedConditions asserted)"
| "merge_loop now asserted (prev # rest) =
     (case map_of asserted (c_Type prev) of
        None \<Rightarrow>
          if c_Type prev \<in> set stickyTypes then prev # merge_loop now asserted rest
          else if c_Type prev \<in> set ownedTypes then merge_loop now asserted rest
          else prev # merge_loop now asserted rest
      | Some next \<Rightarrow>
          next\<lparr> c_LastTransitionTime :=
            (if c_Status prev = c_Status next then c_LastTransitionTime prev else now) \<rparr> #
          merge_loop now (alist_delete (c_Type prev) asserted) rest)"

definition cond_merge :: "go_time \<Rightarrow> conditionSet \<Rightarrow> condition list \<Rightarrow> condition list" where
  "cond_merge now c existing = merge_loop now (cn_asserted c) existing"

definition zero_transition :: "AgentStatus \<Rightarrow> AgentStatus" where
  "zero_transition st = st\<lparr> st_Conditions := map (\<lambda>c. c\<lparr> c_LastTransitionTime := 0 \<rparr>) (st_Conditions st) \<rparr>"

definition equalStatus :: "AgentStatus \<Rightarrow> AgentStatus \<Rightarrow> bool" where
  "equalStatus a b \<longleftrightarrow> zero_transition a = zero_transition b"

section \<open>The in-place sort sorts\<close>

lemma sink_mset: "j < length xs \<Longrightarrow> mset (sink j xs) = mset xs"
proof (induction j xs rule: sink.induct)
  case (2 j xs)
  then show ?case by (auto simp: mset_swap)
qed simp

lemma length_sink [simp]: "length (sink j xs) = length xs"
  by (induction j xs rule: sink.induct) auto

text \<open>Sinking the element at \<open>j\<close> below a sorted prefix makes the longer prefix sorted and leaves
  what follows in place.\<close>

lemma sink_split:
  assumes "sorted a"
  shows "\<exists>a'. sink (length a) (a @ x # b) = a' @ b \<and> sorted a' \<and> length a' = Suc (length a) \<and>
    set a' = insert x (set a)"
  using assms
proof (induction a arbitrary: b rule: rev_induct)
  case (snoc y a)
  show ?case
  proof (cases "x < y")
    case True
    have swap: "((a @ [y]) @ x # b)[Suc (length a) := y, length a := x] = a @ x # y # b"
      by (simp add: list_update_append)
    from snoc.IH [of "y # b"] snoc.prems obtain a' where a': "sink (length a) (a @ x # y # b) = a' @ y # b" "sorted a'"
      "length a' = Suc (length a)" "set a' = insert x (set a)" by (auto simp: sorted_append)
    have "((a @ [y]) @ x # b) ! Suc (length a) = x" "((a @ [y]) @ x # b) ! length a = y"
      by (simp_all add: nth_append)
    then have "sink (length (a @ [y])) ((a @ [y]) @ x # b) = (a' @ [y]) @ b"
      using True swap a'(1) by simp
    moreover have "sorted (a' @ [y])" using a' True snoc.prems by (auto simp: sorted_append)
    ultimately show ?thesis using a'(3,4) by (intro exI [of _ "a' @ [y]"]) auto
  next
    case False
    then have "sink (length (a @ [y])) ((a @ [y]) @ x # b) = (a @ [y, x]) @ b"
      by (simp add: nth_append)
    moreover have "sorted (a @ [y, x])" using False snoc.prems by (auto simp: sorted_append)
    ultimately show ?thesis by (intro exI [of _ "a @ [y, x]"]) auto
  qed
qed auto

lemma sink_prefix:
  assumes "sorted (take j xs)" "j < length xs"
  shows "sorted (take (Suc j) (sink j xs))"
proof -
  have "xs = take j xs @ xs ! j # drop (Suc j) xs" using assms(2) by (simp add: id_take_nth_drop)
  with assms(2) sink_split [OF assms(1), of "xs ! j" "drop (Suc j) xs"] show ?thesis
    by (auto simp: min_def)
qed

lemma fold_sink_sorted:
  "n \<le> length xs \<Longrightarrow> sorted (take n (fold sink [1..<n] xs)) \<and> mset (fold sink [1..<n] xs) = mset xs \<and>
     length (fold sink [1..<n] xs) = length xs"
proof (induction n)
  case (Suc n)
  then have ih: "sorted (take n (fold sink [1..<n] xs))" "mset (fold sink [1..<n] xs) = mset xs"
    "length (fold sink [1..<n] xs) = length xs" by simp_all
  show ?case
  proof (cases "n = 0")
    case True
    then show ?thesis using Suc.prems by (cases xs) simp_all
  next
    case False
    then have "[1..<Suc n] = [1..<n] @ [n]" by simp
    then show ?thesis using ih Suc.prems sink_prefix [of n "fold sink [1..<n] xs"]
      by (simp add: sink_mset)
  qed
qed simp

lemma sortStrings_sort: "sortStrings xs = sort xs"
proof -
  have "take (length xs) (fold sink [1..<length xs] xs) = fold sink [1..<length xs] xs"
    using fold_sink_sorted [of "length xs" xs] by simp
  then show ?thesis
    using fold_sink_sorted [of "length xs" xs]
    by (intro properties_for_sort [symmetric]) (simp_all add: sortStrings_def)
qed

section \<open>Facts on the merge\<close>

lemma map_of_alist_delete: "map_of (alist_delete t m) j = (if j = t then None else map_of m j)"
  by (induction m) (auto simp: alist_delete_def)

lemma map_of_alist_put: "map_of (alist_put t c m) j = (if j = t then Some c else map_of m j)"
  by (simp add: alist_put_def map_of_alist_delete)

lemma distinct_alist_delete: "distinct (map fst m) \<Longrightarrow> distinct (map fst (alist_delete t m))"
  by (simp add: alist_delete_def distinct_map_filter)

lemma alist_delete_keys: "t \<notin> fst ` set (alist_delete t m)"
  by (auto simp: alist_delete_def)

interpretation asserted: keyed_record "\<lambda>m t. map_of m t" alist_put "\<lambda>t c. c"
  by unfold_locales (simp_all add: map_of_alist_put)

text \<open>The assertions are well formed: keys distinct, each naming its condition's type.\<close>

definition asserted_ok :: "(string \<times> condition) list \<Rightarrow> bool" where
  "asserted_ok m \<longleftrightarrow> distinct (map fst m) \<and> (\<forall>(t, c) \<in> set m. c_Type c = t)"

lemma asserted_ok_new: "asserted_ok (cn_asserted (newConditionSet g))"
  by (simp add: asserted_ok_def newConditionSet_def)

lemma asserted_ok_delete: "asserted_ok m \<Longrightarrow> asserted_ok (alist_delete t m)"
  by (auto simp: asserted_ok_def distinct_alist_delete) (auto simp: alist_delete_def)

lemma asserted_ok_put: "asserted_ok m \<Longrightarrow> c_Type c = t \<Longrightarrow> asserted_ok (alist_put t c m)"
  using asserted_ok_delete [of m t] alist_delete_keys [of t m] by (auto simp: asserted_ok_def alist_put_def)

lemma asserted_ok_ops:
  "asserted_ok (cn_asserted c) \<Longrightarrow> asserted_ok (cn_asserted (cond_set t st r msg c))"
  "asserted_ok (cn_asserted c) \<Longrightarrow> asserted_ok (cn_asserted (cond_unset t c))"
  "asserted_ok (cn_asserted c) \<Longrightarrow> asserted_ok (cn_asserted (cond_carry k c))"
  by (simp_all add: cond_set_def cond_unset_def cond_carry_def asserted_ok_put asserted_ok_delete)

lemma asserted_ok_type: "asserted_ok m \<Longrightarrow> map_of m t = Some c \<Longrightarrow> c_Type c = t"
  by (auto simp: asserted_ok_def dest: map_of_SomeD)

lemma sortedConditions_types:
  assumes "asserted_ok m"
  shows "map c_Type (sortedConditions m) = sort (map fst m)"
proof -
  have "c_Type (the (map_of m t)) = t" if "t \<in> set (map fst m)" for t
    using that assms asserted_ok_type by (metis domIff dom_map_of_conv_image_fst list.set_map option.exhaust_sel)
  then have "map (\<lambda>t. c_Type (the (map_of m t))) (sort (map fst m)) = sort (map fst m)"
    by (intro map_idI) simp
  then show ?thesis by (simp add: sortedConditions_def sortStrings_sort comp_def)
qed

lemma find_type_map:
  assumes "\<And>t. t \<in> set ts \<Longrightarrow> c_Type (f t) = t"
  shows "findCondition (map f ts) t = (if t \<in> set ts then Some (f t) else None)"
  using assms by (induction ts) (auto simp: findCondition_def)

text \<open>What a type reads as after the pass has nothing more to fold.\<close>

lemma find_sortedConditions:
  assumes "asserted_ok m"
  shows "findCondition (map (\<lambda>c. c\<lparr> c_LastTransitionTime := now \<rparr>) (sortedConditions m)) t =
    map_option (\<lambda>c. c\<lparr> c_LastTransitionTime := now \<rparr>) (map_of m t)"
proof -
  let ?f = "\<lambda>t. (the (map_of m t))\<lparr> c_LastTransitionTime := now \<rparr>"
  have "c_Type (?f t) = t" if "t \<in> set (sortStrings (map fst m))" for t
    using that assms asserted_ok_type
    by (simp add: sortStrings_sort) (metis domIff dom_map_of_conv_image_fst image_eqI option.exhaust_sel)
  then have "findCondition (map ?f (sortStrings (map fst m))) t =
      (if t \<in> set (sortStrings (map fst m)) then Some (?f t) else None)"
    by (rule find_type_map)
  moreover have "t \<in> set (sortStrings (map fst m)) \<longleftrightarrow> map_of m t \<noteq> None"
    by (metis domIff dom_map_of_conv_image_fst list.set_map set_sort sortStrings_sort)
  ultimately show ?thesis by (auto simp: sortedConditions_def comp_def)
qed

definition transition :: "go_time \<Rightarrow> condition option \<Rightarrow> condition \<Rightarrow> condition" where
  "transition now prev next = next\<lparr> c_LastTransitionTime := (case prev of
     Some p \<Rightarrow> if c_Status p = c_Status next then c_LastTransitionTime p else now | None \<Rightarrow> now) \<rparr>"

definition carried :: "string \<Rightarrow> bool" where
  "carried t \<longleftrightarrow> t \<in> set stickyTypes \<or> t \<notin> set ownedTypes"

lemma merge_loop_lookup:
  assumes "asserted_ok m" "distinct (map c_Type existing)"
  shows "findCondition (merge_loop now m existing) t =
    (case map_of m t of
       Some next \<Rightarrow> Some (transition now (findCondition existing t) next)
     | None \<Rightarrow> if carried t then findCondition existing t else None)"
  using assms
proof (induction existing arbitrary: m)
  case Nil
  then show ?case
    by (simp add: find_sortedConditions transition_def split: option.split) (simp add: findCondition_def)
next
  case (Cons p ps)
  have other: "findCondition (c # cs) t = (if c_Type c = t then Some c else findCondition cs t)" for c cs
    by (simp add: findCondition_def)
  have fresh: "c_Type p = t \<Longrightarrow> findCondition ps t = None"
    using Cons.prems(2) by (auto simp: findCondition_def find_None_iff intro: rev_image_eqI)
  show ?case
  proof (cases "map_of m (c_Type p)")
    case None
    with Cons.IH [OF Cons.prems(1)] Cons.prems(2) fresh show ?thesis
      by (auto simp: other carried_def split: option.split)
  next
    case (Some nx)
    then have "c_Type nx = c_Type p" using Cons.prems(1) asserted_ok_type by blast
    with Some Cons.IH [OF asserted_ok_delete [OF Cons.prems(1)], of "c_Type p"] Cons.prems(2) fresh
    show ?thesis by (auto simp: other map_of_alist_delete transition_def split: option.split)
  qed
qed

lemma merge_loop_types:
  assumes "asserted_ok m" "distinct (map c_Type existing)"
  shows "map c_Type (merge_loop now m existing) =
    filter (\<lambda>t. map_of m t \<noteq> None \<or> carried t) (map c_Type existing) @
    sort (map fst (filter (\<lambda>kv. fst kv \<notin> c_Type ` set existing) m))"
  using assms
proof (induction existing arbitrary: m)
  case Nil
  then show ?case by (simp add: sortedConditions_types comp_def)
next
  case (Cons p ps)
  show ?case
  proof (cases "map_of m (c_Type p)")
    case None
    then have "filter (\<lambda>kv. fst kv \<notin> c_Type ` set (p # ps)) m = filter (\<lambda>kv. fst kv \<notin> c_Type ` set ps) m"
      by (intro filter_cong) (auto simp: map_of_eq_None_iff image_iff)
    with None Cons.IH [OF Cons.prems(1)] Cons.prems(2) show ?thesis
      by (auto simp: carried_def)
  next
    case (Some nx)
    then have ty: "c_Type nx = c_Type p" using Cons.prems(1) asserted_ok_type by blast
    have "filter (\<lambda>kv. fst kv \<notin> c_Type ` set ps) (alist_delete (c_Type p) m) =
        filter (\<lambda>kv. fst kv \<notin> c_Type ` set (p # ps)) m"
      by (simp add: alist_delete_def conj_commute)
    moreover have "filter (\<lambda>t. map_of (alist_delete (c_Type p) m) t \<noteq> None \<or> carried t) (map c_Type ps) =
        filter (\<lambda>t. map_of m t \<noteq> None \<or> carried t) (map c_Type ps)"
      using Cons.prems(2)
      by (intro filter_cong) (auto simp: map_of_alist_delete image_iff)
    ultimately show ?thesis
      using Some ty Cons.IH [OF asserted_ok_delete [OF Cons.prems(1)]] Cons.prems(2) by simp
  qed
qed

lemma merge_loop_distinct:
  assumes "asserted_ok m" "distinct (map c_Type existing)"
  shows "distinct (map c_Type (merge_loop now m existing))"
proof -
  have "distinct (map fst (filter (\<lambda>kv. fst kv \<notin> c_Type ` set existing) m))"
    using assms(1) by (simp add: asserted_ok_def distinct_map_filter)
  then show ?thesis
    unfolding merge_loop_types [OF assms] using assms(2) by auto
qed

lemma find_of_member:
  "distinct (map c_Type L) \<Longrightarrow> c \<in> set L \<Longrightarrow> findCondition L (c_Type c) = Some c"
  by (induction L) (auto simp: findCondition_def)

text \<open>A list that already says what is asserted is a fixed point of the merge, whatever the clock.\<close>

lemma merge_loop_fixpoint:
  assumes "asserted_ok m" "distinct (map c_Type L)" "fst ` set m \<subseteq> c_Type ` set L"
    and "\<And>c. c \<in> set L \<Longrightarrow> (case map_of m (c_Type c) of
        Some n \<Rightarrow> c = n\<lparr> c_LastTransitionTime := c_LastTransitionTime c \<rparr> | None \<Rightarrow> carried (c_Type c))"
  shows "merge_loop now m L = L"
  using assms
proof (induction L arbitrary: m)
  case Nil
  then show ?case by (simp add: sortedConditions_def sortStrings_def)
next
  case (Cons c L)
  show ?case
  proof (cases "map_of m (c_Type c)")
    case None
    then have "fst ` set m \<subseteq> c_Type ` set L"
      using Cons.prems(3) by (force simp: map_of_eq_None_iff)
    with Cons None show ?thesis using Cons.prems(4) [of c] by (auto simp: carried_def)
  next
    case (Some n)
    have c: "c = n\<lparr> c_LastTransitionTime := c_LastTransitionTime c \<rparr>" using Cons.prems(4) [of c] Some by simp
    then have st: "c_Status c = c_Status n" by (metis condition.select_convs(2) condition.surjective condition.update_convs(4))
    have "merge_loop now (alist_delete (c_Type c) m) L = L"
    proof (rule Cons.IH)
      show "asserted_ok (alist_delete (c_Type c) m)" using Cons.prems(1) by (rule asserted_ok_delete)
      show "fst ` set (alist_delete (c_Type c) m) \<subseteq> c_Type ` set L"
        using Cons.prems(3) by (auto simp: alist_delete_def)
      show "case map_of (alist_delete (c_Type c) m) (c_Type d) of
          None \<Rightarrow> carried (c_Type d) | Some n \<Rightarrow> d = n\<lparr> c_LastTransitionTime := c_LastTransitionTime d \<rparr>"
        if "d \<in> set L" for d
      proof -
        have "c_Type d \<noteq> c_Type c" using that Cons.prems(2) by (auto simp: image_iff)
        then show ?thesis using that Cons.prems(4) [of d] by (simp add: map_of_alist_delete)
      qed
    qed (use Cons.prems(2) in simp)
    then show ?thesis using Some st c by simp
  qed
qed

section \<open>Properties\<close>

text \<open>
  A merge speaks for every condition type exactly once. An asserted type reads as asserted, its
  transition time kept while its status is unchanged and set to now when it changed or is new; a
  type not asserted is kept verbatim if it is sticky or another controller's, and is cleared if it
  is owned and not sticky. Types stay distinct.
\<close>

theorem cond_merge_exact:
  assumes "asserted_ok (cn_asserted c)" "distinct (map c_Type existing)"
  shows "distinct (map c_Type (cond_merge now c existing)) \<and>
    findCondition (cond_merge now c existing) t =
      (case cond_get c t of
         Some next \<Rightarrow> Some (transition now (findCondition existing t) next)
       | None \<Rightarrow> if t \<in> set stickyTypes \<or> t \<notin> set ownedTypes then findCondition existing t else None)"
  using merge_loop_distinct [OF assms] merge_loop_lookup [OF assms]
  by (simp add: cond_merge_def cond_get_def carried_def)

definition sample_conditions :: "condition list" where
  "sample_conditions = [\<lparr> c_Type = ''GatesBypassed'', c_Status = CTrue, c_ObservedGeneration = 1,
     c_LastTransitionTime = 5, c_Reason = ''x'', c_Message = [] \<rparr>,
     \<lparr> c_Type = ''Foreign'', c_Status = CTrue, c_ObservedGeneration = 1,
     c_LastTransitionTime = 5, c_Reason = ''x'', c_Message = [] \<rparr>]"

theorem cond_merge_exact_witness:
  "findCondition (cond_merge 9 (newConditionSet 2) sample_conditions) ''GatesBypassed'' = None \<and>
   findCondition (cond_merge 9 (newConditionSet 2) sample_conditions) ''Foreign'' =
     findCondition sample_conditions ''Foreign''"
proof -
  have "distinct (map c_Type sample_conditions)" by (simp add: sample_conditions_def)
  from cond_merge_exact [OF asserted_ok_new this, of 9 2 "''GatesBypassed''"]
    cond_merge_exact [OF asserted_ok_new this, of 9 2 "''Foreign''"]
  show ?thesis by (simp add: cond_get_def newConditionSet_def stickyTypes_def ownedTypes_def)
qed

text \<open>
  A pass that observes nothing new writes nothing: merging the same assertions again, at any
  later time, into the conditions the first merge left gives exactly those conditions, transition
  times included, so the status compares equal and the write is skipped.
\<close>

theorem cond_merge_idempotent:
  assumes "asserted_ok (cn_asserted c)" "distinct (map c_Type existing)"
  shows "cond_merge now' c (cond_merge now c existing) = cond_merge now c existing \<and>
    equalStatus (st\<lparr> st_Conditions := cond_merge now' c (cond_merge now c existing) \<rparr>)
                (st\<lparr> st_Conditions := cond_merge now c existing \<rparr>)"
proof -
  let ?m = "cn_asserted c" and ?L = "merge_loop now (cn_asserted c) existing"
  have d: "distinct (map c_Type ?L)" by (rule merge_loop_distinct [OF assms])
  have "merge_loop now' ?m ?L = ?L"
  proof (rule merge_loop_fixpoint [OF assms(1) d])
    have "t \<in> c_Type ` set ?L" if "t \<in> fst ` set ?m" for t
    proof -
      from that obtain n where "map_of ?m t = Some n" by (metis domD dom_map_of_conv_image_fst)
      then have "findCondition ?L t \<noteq> None" by (simp add: merge_loop_lookup [OF assms])
      then show ?thesis by (auto simp: findCondition_def find_Some_iff dest!: nth_mem)
    qed
    then show "fst ` set ?m \<subseteq> c_Type ` set ?L" by blast
  next
    fix x assume "x \<in> set ?L"
    then have "findCondition ?L (c_Type x) = Some x" by (rule find_of_member [OF d])
    then show "case map_of ?m (c_Type x) of None \<Rightarrow> carried (c_Type x)
        | Some n \<Rightarrow> x = n\<lparr> c_LastTransitionTime := c_LastTransitionTime x \<rparr>"
      by (auto simp: merge_loop_lookup [OF assms] transition_def split: option.splits if_splits)
  qed
  then show ?thesis by (simp add: cond_merge_def equalStatus_def)
qed

theorem cond_merge_idempotent_witness:
  "cond_merge 11 (cond_set ''Ready'' CTrue ''Promoted'' [] (newConditionSet 2))
     (cond_merge 9 (cond_set ''Ready'' CTrue ''Promoted'' [] (newConditionSet 2)) sample_conditions) =
   cond_merge 9 (cond_set ''Ready'' CTrue ''Promoted'' [] (newConditionSet 2)) sample_conditions"
proof -
  have "distinct (map c_Type sample_conditions)" by (simp add: sample_conditions_def)
  with cond_merge_idempotent [OF asserted_ok_ops(1) [OF asserted_ok_new] this] show ?thesis by blast
qed

text \<open>
  The hand-written in-place insertion sort of condition types is a sort: it terminates with the
  same strings, in bytewise order, whatever it is given.
\<close>

theorem sortStrings_sorts: "sortStrings xs = sort xs"
  by (rule sortStrings_sort)

end
