(* ===== verification/Auth_Compiler.thy ===== *)
theory Auth_Compiler
  imports Revision
begin

text \<open>
  Package \<^verbatim>\<open>internal/compiler\<close>: the names of emitted resources (\<^verbatim>\<open>naming.go\<close>) and the compilation of
  an Agent's exposure to an auth mode and policy (\<^verbatim>\<open>auth.go\<close>).

  An \<^verbatim>\<open>unstructured\<close> object is the JSON value it holds. The CEL expression of the policy is built as
  a syntax tree and printed by cel-go's \<^verbatim>\<open>parser.Unparse\<close>, which is a parameter (\<open>unparse\<close>) here;
  what the tree admits is given by \<open>cel_true\<close>, the meaning CEL gives equality and \<^verbatim>\<open>||\<close>.
\<close>

section \<open>Naming\<close>

abbreviation ConcernServing :: string where "ConcernServing \<equiv> ''serving''"
abbreviation ConcernAuth :: string where "ConcernAuth \<equiv> ''auth''"

definition trim_right :: "char \<Rightarrow> string \<Rightarrow> string" where
  "trim_right c s = rev (dropWhile (\<lambda>x. x = c) (rev s))"

definition name_tail :: "string \<Rightarrow> string \<Rightarrow> string" where
  "name_tail concern rv = ''-'' @ concern @ (if rv \<noteq> [] then ''-'' @ rv else [])"

definition EmittedName :: "string \<Rightarrow> string \<Rightarrow> string \<Rightarrow> string + string" where
  "EmittedName name concern rv =
     (let tail = name_tail concern rv;
          full = name @ tail
      in if length full \<le> 63 then Inr full
      else let keep = (63 :: int) - int (length tail) - 1 - 16 in
        if keep < 1 then Inl (msgf ''cannot name an emitted resource'' [name, dec (length tail)])
        else Inr (trim_right CHR ''-'' (take (nat keep) name) @ tail @ ''-'' @ take 16 (hex_sum256 full)))"

definition ServingRouteName :: "string \<Rightarrow> string + string" where
  "ServingRouteName agentName = EmittedName agentName ConcernServing []"

definition AuthPolicyName :: "string \<Rightarrow> string + string" where
  "AuthPolicyName agentName = EmittedName agentName ConcernAuth []"

section \<open>Key source and route labels\<close>

abbreviation APIKeySourceLabel :: string where "APIKeySourceLabel \<equiv> ''assayd.dev/api-keys''"
abbreviation APIKeySourceValue :: string where "APIKeySourceValue \<equiv> ''true''"
abbreviation LabelAgent :: string where "LabelAgent \<equiv> ''assayd.dev/agent''"
abbreviation LabelAgentUID :: string where "LabelAgentUID \<equiv> ''assayd.dev/agent-uid''"
abbreviation LabelAgentNamespace :: string where "LabelAgentNamespace \<equiv> ''assayd.dev/agent-namespace''"
abbreviation LabelAuth :: string where "LabelAuth \<equiv> ''assayd.dev/auth''"
abbreviation AuthNoneValue :: string where "AuthNoneValue \<equiv> ''none''"

type_synonym AuthMode = string
abbreviation AuthModeNone :: AuthMode where "AuthModeNone \<equiv> ''none''"
abbreviation AuthModeAPIKey :: AuthMode where "AuthModeAPIKey \<equiv> ''apikey''"

definition KeySource :: "string \<Rightarrow> string" where
  "KeySource runNamespace = runNamespace @ ''/'' @ APIKeySourceLabel @ ''='' @ APIKeySourceValue"

definition RouteAuthLabels :: "AuthMode \<Rightarrow> (string \<rightharpoonup> string) \<Rightarrow> (string \<rightharpoonup> string)" where
  "RouteAuthLabels published base =
     (if published = AuthModeNone then base(LabelAuth \<mapsto> AuthNoneValue) else base(LabelAuth := None))"

section \<open>The admission rule\<close>

datatype cel = CelIdent string | CelSelect cel string | CelLit string | CelEq cel cel | CelOr cel cel

definition group_eq :: "string \<Rightarrow> cel" where
  "group_eq g = CelEq (CelSelect (CelIdent ''apiKey'') ''group'') (CelLit g)"

text \<open>The loop of \<^verbatim>\<open>AdmitGroupsExpression\<close> over the sorted groups: the previous group, the
  expression so far and the groups left.\<close>

fun admit_loop :: "string list \<Rightarrow> string option \<Rightarrow> cel option \<Rightarrow> string list \<Rightarrow> string + cel option" where
  "admit_loop groups prev expr [] = Inr expr"
| "admit_loop groups prev expr (g # gs) =
     (if g = [] then Inl (msgf ''a group is empty'' groups)
      else if prev = Some g then Inl (msgf ''a group is repeated'' (groups @ [g]))
      else if \<not> valid_utf8 g then Inl (msgf ''a group is not valid UTF-8'' [g])
      else admit_loop groups (Some g)
             (Some (case expr of None \<Rightarrow> group_eq g | Some e \<Rightarrow> CelOr e (group_eq g))) gs)"

definition admit_expr :: "string list \<Rightarrow> string + cel" where
  "admit_expr groups =
     (if groups = [] then Inl (msgf ''the set is empty'' [])
      else case admit_loop groups None None (sort groups) of
        Inl e \<Rightarrow> Inl e
      | Inr None \<Rightarrow> Inl []
      | Inr (Some e) \<Rightarrow> Inr e)"

type_synonym unparser = "cel \<Rightarrow> string + string"

definition AdmitGroupsExpression :: "unparser \<Rightarrow> string list \<Rightarrow> string + string" where
  "AdmitGroupsExpression unparse groups = (case admit_expr groups of
     Inl e \<Rightarrow> Inl e
   | Inr e \<Rightarrow> (case unparse e of Inl er \<Rightarrow> Inl (msgf ''encode the CEL rule'' (groups @ [er])) | Inr s \<Rightarrow> Inr s))"

text \<open>What a rule admits, given the group of the presented key.\<close>

fun cel_str :: "string \<Rightarrow> cel \<Rightarrow> string option" where
  "cel_str g (CelLit s) = Some s"
| "cel_str g (CelSelect e f) = (if e = CelIdent ''apiKey'' \<and> f = ''group'' then Some g else None)"
| "cel_str g _ = None"

fun cel_true :: "string \<Rightarrow> cel \<Rightarrow> bool" where
  "cel_true g (CelEq a b) = (cel_str g a \<noteq> None \<and> cel_str g a = cel_str g b)"
| "cel_true g (CelOr a b) = (cel_true g a \<or> cel_true g b)"
| "cel_true g _ = False"

section \<open>The policy, its digest and the target\<close>

record AuthInput =
  ai_AgentName :: string
  ai_AgentNamespace :: string
  ai_AgentUID :: string
  ai_RunNamespace :: string

definition policy_object :: "AuthInput \<Rightarrow> string \<Rightarrow> string \<Rightarrow> string \<Rightarrow> json" where
  "policy_object inp name route admit = JObj [
     (''apiVersion'', JStr ''agentgateway.dev/v1alpha1''),
     (''kind'', JStr ''AgentgatewayPolicy''),
     (''metadata'', JObj [
       (''name'', JStr name), (''namespace'', JStr (ai_RunNamespace inp)),
       (''labels'', JObj [(LabelAgentUID, JStr (ai_AgentUID inp)), (LabelAgent, JStr (ai_AgentName inp)),
          (LabelAgentNamespace, JStr (ai_AgentNamespace inp))])]),
     (''spec'', JObj [
       (''targetRefs'', JArr [JObj [(''group'', JStr ''gateway.networking.k8s.io''),
          (''kind'', JStr ''HTTPRoute''), (''name'', JStr route)]]),
       (''traffic'', JObj [
         (''apiKeyAuthentication'', JObj [(''mode'', JStr ''Strict''),
            (''configMapSelector'', JObj [(''matchLabels'', JObj [(APIKeySourceLabel, JStr APIKeySourceValue)])])]),
         (''authorization'', JObj [(''action'', JStr ''Allow''),
            (''policy'', JObj [(''matchExpressions'', JArr [JStr admit])])])])])]"

definition AuthPolicy :: "unparser \<Rightarrow> AuthInput \<Rightarrow> string + json" where
  "AuthPolicy unparse inp =
     (if ai_AgentName inp = [] then Inl (msgf ''field is empty'' [''Agent name''])
      else if ai_AgentNamespace inp = [] then Inl (msgf ''field is empty'' [''Agent namespace''])
      else if ai_AgentUID inp = [] then Inl (msgf ''field is empty'' [''Agent UID''])
      else if ai_RunNamespace inp = [] then Inl (msgf ''field is empty'' [''run namespace''])
      else case AuthPolicyName (ai_AgentName inp) of Inl e \<Rightarrow> Inl e | Inr name \<Rightarrow>
       (case ServingRouteName (ai_AgentName inp) of Inl e \<Rightarrow> Inl e | Inr route \<Rightarrow>
        (case AdmitGroupsExpression unparse [ai_AgentNamespace inp] of Inl e \<Rightarrow> Inl e | Inr admit \<Rightarrow>
           Inr (policy_object inp name route admit))))"

text \<open>\<^verbatim>\<open>json.Marshal\<close> writes the keys of a Go map sorted.\<close>

fun sort_keys :: "json \<Rightarrow> json" where
  "sort_keys (JArr xs) = JArr (map sort_keys xs)"
| "sort_keys (JObj ms) = JObj (sort_key fst (map (\<lambda>(k, v). (k, sort_keys v)) ms))"
| "sort_keys v = v"

definition nested_str :: "json option \<Rightarrow> string" where
  "nested_str v = (case v of Some (JStr s) \<Rightarrow> s | _ \<Rightarrow> [])"

definition label_member :: "json \<Rightarrow> string \<Rightarrow> (string \<times> json) list" where
  "label_member labels k = (case json_field k labels of Some (JStr s) \<Rightarrow> [(k, JStr s)] | _ \<Rightarrow> [])"

definition policy_canonical :: "json \<Rightarrow> json" where
  "policy_canonical p =
     (let meta = (case json_field ''metadata'' p of Some m \<Rightarrow> m | None \<Rightarrow> JObj []);
          labels = (case json_field ''labels'' meta of Some l \<Rightarrow> l | None \<Rightarrow> JObj []) in
      JObj [(''apiVersion'', JStr (nested_str (json_field ''apiVersion'' p))),
        (''kind'', JStr (nested_str (json_field ''kind'' p))),
        (''metadata'', JObj [(''name'', JStr (nested_str (json_field ''name'' meta))),
           (''namespace'', JStr (nested_str (json_field ''namespace'' meta))),
           (''labels'', JObj (concat (map (label_member labels) [LabelAgentUID, LabelAgent, LabelAgentNamespace])))]),
        (''spec'', (case json_field ''spec'' p of Some s \<Rightarrow> s | None \<Rightarrow> JNull))])"

definition policy_Digest :: "json \<Rightarrow> string" where
  "policy_Digest p = ''sha256:'' @ hex_sum256 (json_encode True (sort_keys (policy_canonical p)))"

datatype compile_error = NotCompilableError string | CompileError string

record AuthTarget =
  at_Mode :: AuthMode
  at_Policy :: "json option"
  at_Digest :: string

definition desiredAuthMode :: "ExposeSpec option \<Rightarrow> compile_error + AuthMode" where
  "desiredAuthMode expose = (case expose of
     None \<Rightarrow> Inr AuthModeAPIKey
   | Some e \<Rightarrow> (case xs_A2A e of
       None \<Rightarrow> Inr AuthModeAPIKey
     | Some a \<Rightarrow> if xp_Auth a = AuthModeNone \<or> xp_Auth a = AuthModeAPIKey then Inr (xp_Auth a)
                 else Inl (NotCompilableError (xp_Auth a))))"

definition CompileAuth :: "unparser \<Rightarrow> Agent \<Rightarrow> string \<Rightarrow> compile_error + AuthTarget" where
  "CompileAuth unparse agent runNamespace =
     (case desiredAuthMode (sp_Expose (ag_Spec agent)) of
        Inl e \<Rightarrow> Inl e
      | Inr mode \<Rightarrow>
        if mode = AuthModeNone then Inr \<lparr> at_Mode = AuthModeNone, at_Policy = None, at_Digest = [] \<rparr>
        else case AuthPolicy unparse \<lparr> ai_AgentName = ag_Name agent, ai_AgentNamespace = ag_Namespace agent,
               ai_AgentUID = ag_UID agent, ai_RunNamespace = runNamespace \<rparr> of
            Inl e \<Rightarrow> Inl (CompileError e)
          | Inr policy \<Rightarrow> Inr \<lparr> at_Mode = AuthModeAPIKey, at_Policy = Some policy,
                                at_Digest = policy_Digest policy \<rparr>)"

section \<open>Facts on names\<close>

lemma length_trim_right: "length (trim_right c s) \<le> length s"
  using length_dropWhile_le [of "\<lambda>x. x = c" "rev s"] by (simp add: trim_right_def)

lemma trim_right_prefix: "\<exists>t. s = trim_right c s @ t"
  by (metis append_take_drop_id dropWhile_eq_drop rev_append rev_rev_ident trim_right_def)

lemma EmittedName_cases:
  assumes "EmittedName name concern rv = Inr x"
  obtains (short) "length (name @ name_tail concern rv) \<le> 63" "x = name @ name_tail concern rv"
  | (long) k where "63 < length (name @ name_tail concern rv)" "k + length (name_tail concern rv) = 46"
      "x = trim_right CHR ''-'' (take k name) @ name_tail concern rv @ ''-'' @
           take 16 (hex_sum256 (name @ name_tail concern rv))"
proof -
  let ?t = "length (name_tail concern rv)"
  show thesis
  proof (cases "length (name @ name_tail concern rv) \<le> 63")
    case True
    with assms short show ?thesis by (auto simp: EmittedName_def)
  next
    case False
    with assms have le: "?t < 46" by (auto simp: EmittedName_def Let_def split: if_splits)
    then have "nat (63 - int ?t - 1 - 16) = 46 - ?t" by simp
    with False le assms show ?thesis
      by (intro long [of "46 - ?t"]) (auto simp: EmittedName_def Let_def split: if_splits)
  qed
qed

lemma EmittedName_length: "EmittedName name concern rv = Inr x \<Longrightarrow> length x \<le> 63"
proof (erule EmittedName_cases)
  fix k assume k: "k + length (name_tail concern rv) = 46"
    and x: "x = trim_right CHR ''-'' (take k name) @ name_tail concern rv @ ''-'' @
           take 16 (hex_sum256 (name @ name_tail concern rv))"
  have "length (trim_right CHR ''-'' (take k name)) \<le> k"
    using length_trim_right [of "CHR ''-''" "take k name"] by simp
  with k x show "length x \<le> 63" by simp
qed simp

lemma EmittedName_total:
  "(\<exists>x. EmittedName name concern rv = Inr x) \<longleftrightarrow>
     length (name @ name_tail concern rv) \<le> 63 \<or> length (name_tail concern rv) < 46"
  by (auto simp: EmittedName_def Let_def)

text \<open>Two names emitted as one differ only where the 64-bit suffixes of their hashes agree, provided
  the concern ends in a character no hex digest ends in.\<close>

lemma same_length_suffix: "length b = length d \<Longrightarrow> a @ b = c @ d \<Longrightarrow> b = d"
  by simp

lemma last_hex16: "is_hex (last (take 16 (hex_sum256 m)))"
proof -
  have "take 16 (hex_sum256 m) \<noteq> []" using length_hex_sum256 [of m] by (metis length_0_conv length_take min_def zero_neq_numeral)
  then show ?thesis by (meson hex_sum256_is_hex in_set_takeD last_in_set)
qed

lemma EmittedName_distinct:
  assumes "EmittedName n concern [] = Inr x" "EmittedName n' concern [] = Inr x"
    and "concern \<noteq> []" "\<not> is_hex (last concern)" "n \<noteq> n'"
  shows "take 16 (hex_sum256 (n @ name_tail concern [])) = take 16 (hex_sum256 (n' @ name_tail concern []))"
proof -
  have tail: "last (m @ name_tail concern []) = last concern" for m
    using assms(3) by (simp add: name_tail_def)
  have suffix: "last (m @ name_tail concern [] @ ''-'' @ take 16 (hex_sum256 s)) = last (take 16 (hex_sum256 s))" for m s
    using length_hex_sum256 [of s] by (auto simp: last_append)
  from assms(1) show ?thesis
  proof (cases rule: EmittedName_cases)
    case short
    from assms(2) show ?thesis
    proof (cases rule: EmittedName_cases)
      case long
      then show ?thesis using short tail suffix last_hex16 assms(4) by metis
    qed (use short assms(5) in simp)
  next
    case 1: (long k)
    from assms(2) show ?thesis
    proof (cases rule: EmittedName_cases)
      case short
      then show ?thesis using 1 tail suffix last_hex16 assms(4) by metis
    next
      case (long k')
      have "length (take 16 (hex_sum256 (n @ name_tail concern []))) = length (take 16 (hex_sum256 (n' @ name_tail concern [])))"
        by simp
      moreover have "(trim_right CHR ''-'' (take k n) @ name_tail concern [] @ ''-'') @
            take 16 (hex_sum256 (n @ name_tail concern [])) =
          (trim_right CHR ''-'' (take k' n') @ name_tail concern [] @ ''-'') @
            take 16 (hex_sum256 (n' @ name_tail concern []))"
        using 1(3) long(3) by simp
      ultimately show ?thesis by (rule same_length_suffix)
    qed
  qed
qed

section \<open>Facts on the admission rule\<close>

lemma group_eq_true [simp]: "cel_true g (group_eq h) \<longleftrightarrow> g = h"
  by (auto simp: group_eq_def)

lemma admit_loop_sound:
  "admit_loop groups prev expr gs = Inr (Some e) \<Longrightarrow>
   cel_true g e \<longleftrightarrow> (case expr of None \<Rightarrow> False | Some e0 \<Rightarrow> cel_true g e0) \<or> g \<in> set gs"
  by (induction gs arbitrary: prev expr) (auto split: if_splits option.splits)

lemma admit_loop_nonempty:
  "admit_loop groups prev expr gs = Inr r \<Longrightarrow> [] \<notin> set gs"
  by (induction gs arbitrary: prev expr) (auto split: if_splits)

lemma admit_expr_sound:
  assumes "admit_expr groups = Inr e"
  shows "cel_true g e \<longleftrightarrow> g \<in> set groups" and "[] \<notin> set groups"
  using assms admit_loop_sound [of groups None None "sort groups" e g]
    admit_loop_nonempty [of groups None None "sort groups"]
  by (auto simp: admit_expr_def split: if_splits sum.splits option.splits)

section \<open>Properties of the compiler\<close>

text \<open>
  An emitted name fits in 63 characters, is the plain \<^verbatim>\<open><name>-<concern>\<close> whenever that fits, and is
  refused exactly when concern and revision leave no room for the name. Two different Agents share
  the name of their serving route, or of their policy, only if the 64-bit hash suffixes of their
  full names agree.
\<close>

theorem EmittedName_sound:
  "(\<forall>x. EmittedName name concern rv = Inr x \<longrightarrow> length x \<le> 63) \<and>
   (length (name @ name_tail concern rv) \<le> 63 \<longrightarrow> EmittedName name concern rv = Inr (name @ name_tail concern rv)) \<and>
   ((\<exists>x. EmittedName name concern rv = Inr x) \<longleftrightarrow>
     length (name @ name_tail concern rv) \<le> 63 \<or> length (name_tail concern rv) < 46) \<and>
   (\<forall>n' x. ServingRouteName name = Inr x \<and> ServingRouteName n' = Inr x \<and> name \<noteq> n' \<longrightarrow>
     take 16 (hex_sum256 (name @ ''-serving'')) = take 16 (hex_sum256 (n' @ ''-serving''))) \<and>
   (\<forall>n' x. AuthPolicyName name = Inr x \<and> AuthPolicyName n' = Inr x \<and> name \<noteq> n' \<longrightarrow>
     take 16 (hex_sum256 (name @ ''-auth'')) = take 16 (hex_sum256 (n' @ ''-auth'')))"
proof -
  have "\<not> is_hex CHR ''g''" "\<not> is_hex CHR ''h''" by (simp_all add: is_hex_def)
  then have "ServingRouteName name = Inr x \<Longrightarrow> ServingRouteName n' = Inr x \<Longrightarrow> name \<noteq> n' \<Longrightarrow>
      take 16 (hex_sum256 (name @ ''-serving'')) = take 16 (hex_sum256 (n' @ ''-serving''))"
    "AuthPolicyName name = Inr x \<Longrightarrow> AuthPolicyName n' = Inr x \<Longrightarrow> name \<noteq> n' \<Longrightarrow>
      take 16 (hex_sum256 (name @ ''-auth'')) = take 16 (hex_sum256 (n' @ ''-auth''))" for n' x
    using EmittedName_distinct [of name ConcernServing x n'] EmittedName_distinct [of name ConcernAuth x n']
    by (simp_all add: ServingRouteName_def AuthPolicyName_def name_tail_def)
  then show ?thesis
    using EmittedName_length EmittedName_total by (auto simp: EmittedName_def)
qed

theorem EmittedName_sound_witness:
  "EmittedName ''agent'' ''auth'' [] = Inr ''agent-auth'' \<and> length ''agent-auth'' \<le> 63"
  using EmittedName_sound [of "''agent''" "''auth''" "[]"] by (simp add: name_tail_def)

text \<open>
  Compilation fails closed. The unauthenticated mode is compiled only for an Agent whose spec
  says \<^verbatim>\<open>none\<close>; a spec that says nothing, or \<^verbatim>\<open>apikey\<close>, compiles to a policy or to an error; every
  other value is an error naming it. A compiled policy targets the Agent's own serving route and
  carries a digest.
\<close>

theorem CompileAuth_fails_closed:
  assumes "CompileAuth unparse agent ns = Inr t"
  shows "(at_Mode t = AuthModeNone \<and> at_Policy t = None \<and>
      (\<exists>e a. sp_Expose (ag_Spec agent) = Some e \<and> xs_A2A e = Some a \<and> xp_Auth a = ''none'')) \<or>
    (at_Mode t = AuthModeAPIKey \<and>
      (\<exists>name route admit. AuthPolicyName (ag_Name agent) = Inr name \<and>
         ServingRouteName (ag_Name agent) = Inr route \<and>
         AdmitGroupsExpression unparse [ag_Namespace agent] = Inr admit \<and>
         at_Policy t = Some (policy_object \<lparr> ai_AgentName = ag_Name agent, ai_AgentNamespace = ag_Namespace agent,
             ai_AgentUID = ag_UID agent, ai_RunNamespace = ns \<rparr> name route admit) \<and>
         at_Digest t = policy_Digest (the (at_Policy t))))"
  using assms
  by (auto simp: CompileAuth_def desiredAuthMode_def AuthPolicy_def
      split: option.splits sum.splits if_splits)

definition sample_agent :: "AgentSpec \<Rightarrow> Agent" where
  "sample_agent spec = \<lparr> ag_Name = ''agent'', ag_Namespace = ''team'', ag_UID = ''u1'', ag_Generation = 1,
     ag_ResourceVersion = 1, ag_DeletionTimestamp = None, ag_Finalizers = [],
     ag_Spec = spec, ag_Status = zero_status \<rparr>"

definition sample_unparse :: unparser where
  "sample_unparse e = (case e of CelEq _ (CelLit g) \<Rightarrow> Inr (''apiKey.group == '' @ json_quote False g) | _ \<Rightarrow> Inl ''unsupported'')"

theorem CompileAuth_fails_closed_witness:
  "\<exists>t. CompileAuth sample_unparse (sample_agent zero_spec) ''run'' = Inr t \<and> at_Mode t = AuthModeAPIKey \<and> at_Policy t \<noteq> None"
proof -
  obtain t where t: "CompileAuth sample_unparse (sample_agent zero_spec) ''run'' = Inr t"
    by (simp add: CompileAuth_def desiredAuthMode_def sample_agent_def zero_spec_def AuthPolicy_def
        AuthPolicyName_def ServingRouteName_def EmittedName_def name_tail_def AdmitGroupsExpression_def
        admit_expr_def group_eq_def sample_unparse_def)
  show ?thesis using CompileAuth_fails_closed [OF t] t by (auto simp: sample_agent_def zero_spec_def)
qed

text \<open>
  The rule a policy carries admits exactly the keys of the groups it was built for: the tree
  handed to the printer is true of a key if and only if the key's group is one of them, and the
  empty group, which keys stored with no group have, is never admitted.
\<close>

theorem admit_expr_exact:
  assumes "admit_expr groups = Inr e"
  shows "\<forall>g. (cel_true g e \<longleftrightarrow> g \<in> set groups) \<and> \<not> cel_true [] e"
  using admit_expr_sound [OF assms] by blast

theorem admit_expr_exact_witness:
  "\<exists>e. admit_expr [''team''] = Inr e \<and> cel_true ''team'' e \<and> \<not> cel_true ''other'' e"
proof -
  obtain e where e: "admit_expr [''team''] = Inr e" by (simp add: admit_expr_def)
  show ?thesis using admit_expr_exact [OF e] e by auto
qed

end
