(* ===== verification/Eval_Client.thy ===== *)
theory Eval_Client
  imports Eval_Suite
begin

text \<open>
  Package \<^verbatim>\<open>internal/evalclient\<close>: the path cases are sent to (\<^verbatim>\<open>endpoint.go\<close>), the scoring of an
  answer (\<^verbatim>\<open>response.go\<close>) and one send (\<^verbatim>\<open>client.go\<close>).

  What comes from outside is an argument: \<open>url_parse\<close> is \<^verbatim>\<open>url.Parse\<close>'s result for an interface's URL;
  an answer's body is its byte length, whether it is valid UTF-8, and the JSON value it holds if it
  is one (members in the order and with the repetitions written); \<open>http_result\<close> is what the one
  HTTP exchange gave. \<open>noDuplicateKeys\<close> is the token machine of the source, run on the token stream
  of the value.
\<close>

section \<open>The endpoint\<close>

record Interface =
  if_URL :: string
  if_ProtocolBinding :: string
  if_ProtocolVersion :: string
  if_Tenant :: string

record parsed_url =
  u_RawQuery :: string
  u_ForceQuery :: bool
  u_Fragment :: string
  u_RawPath :: string
  u_Path :: string

type_synonym url_parser = "string \<Rightarrow> parsed_url option"

definition pathPunctuation :: string where
  "pathPunctuation = ''-._~/:@$&+,;=''"

definition path_byte :: "char \<Rightarrow> bool" where
  "path_byte c \<longleftrightarrow> (97 \<le> byte c \<and> byte c \<le> 122) \<or> (65 \<le> byte c \<and> byte c \<le> 90) \<or>
     (48 \<le> byte c \<and> byte c \<le> 57) \<or> c \<in> set pathPunctuation"

definition pathSendsAsWritten :: "string \<Rightarrow> bool" where
  "pathSendsAsWritten p = list_all path_byte p"

text \<open>\<^verbatim>\<open>EndpointPath\<close>; the error is a \<^verbatim>\<open>BindingError\<close>'s message, which names the entry's index.\<close>

fun endpoint_from :: "url_parser \<Rightarrow> nat \<Rightarrow> Interface list \<Rightarrow> string + string" where
  "endpoint_from url_parse i [] = Inl (msgf ''no HTTP+JSON 1.0 interface'' [])"
| "endpoint_from url_parse i (ifc # rest) =
     (if if_ProtocolBinding ifc \<noteq> ''HTTP+JSON'' \<or> if_ProtocolVersion ifc \<noteq> ''1.0''
      then endpoint_from url_parse (Suc i) rest
      else case url_parse (if_URL ifc) of
        None \<Rightarrow> Inl (msgf ''url does not parse'' [dec i])
      | Some u \<Rightarrow>
        if u_RawQuery u \<noteq> [] \<or> u_ForceQuery u \<or> u_Fragment u \<noteq> [] \<or> str_contains (if_URL ifc) ''#''
        then Inl (msgf ''url has a query or a fragment'' [dec i])
        else if u_RawPath u \<noteq> [] \<or> \<not> pathSendsAsWritten (u_Path u)
        then Inl (msgf ''path is not admitted'' [dec i, pathPunctuation])
        else if if_Tenant ifc \<noteq> [] then Inl (msgf ''interface names a tenant'' [dec i])
        else Inr (trim_suffix (u_Path u) ''/'' @ ''/message:send''))"

definition EndpointPath :: "url_parser \<Rightarrow> Interface list \<Rightarrow> string + string" where
  "EndpointPath url_parse interfaces = endpoint_from url_parse 0 interfaces"

section \<open>Scoring an answer\<close>

abbreviation ReasonMismatch :: string where "ReasonMismatch \<equiv> ''Mismatch''"
abbreviation ReasonTaskNotCompleted :: string where "ReasonTaskNotCompleted \<equiv> ''TaskNotCompleted''"
abbreviation ReasonProtocolError :: string where "ReasonProtocolError \<equiv> ''ProtocolError''"
abbreviation ReasonUnreachable :: string where "ReasonUnreachable \<equiv> ''Unreachable''"
abbreviation ReasonInterrupted :: string where "ReasonInterrupted \<equiv> ''Interrupted''"

record Outcome =
  oc_Passed :: bool
  oc_Reason :: string

definition failing :: "string \<Rightarrow> Outcome" where
  "failing r = \<lparr> oc_Passed = False, oc_Reason = r \<rparr>"

definition passing :: Outcome where
  "passing = \<lparr> oc_Passed = True, oc_Reason = [] \<rparr>"

definition satisfies :: "string \<Rightarrow> EvalExpect \<Rightarrow> bool" where
  "satisfies answer expect =
     (if xe_Equals expect \<noteq> [] then answer = xe_Equals expect
      else xe_Contains expect \<noteq> [] \<and> str_contains answer (xe_Contains expect))"

text \<open>
  \<^verbatim>\<open>object\<close>, \<^verbatim>\<open>list\<close> and \<^verbatim>\<open>present\<close>. A Go map decoded from an object keeps the last value of a
  repeated key; a member that is absent or null is not present.
\<close>

definition json_object :: "json \<Rightarrow> (string \<rightharpoonup> json) option" where
  "json_object v = (case v of JObj ms \<Rightarrow> Some (map_of (rev ms)) | _ \<Rightarrow> None)"

definition present :: "json option \<Rightarrow> json option" where
  "present v = (case v of None \<Rightarrow> None | Some JNull \<Rightarrow> None | Some w \<Rightarrow> Some w)"

definition json_list :: "json option \<Rightarrow> json list option" where
  "json_list v = (case present v of None \<Rightarrow> Some [] | Some (JArr xs) \<Rightarrow> Some xs | Some _ \<Rightarrow> None)"

definition json_string :: "json \<Rightarrow> string option" where
  "json_string v = (case v of JStr s \<Rightarrow> Some s | _ \<Rightarrow> None)"

text \<open>\<^verbatim>\<open>taskState\<close>: the state, the empty string when absent; \<open>None\<close> for a malformed one.\<close>

definition taskState :: "(string \<rightharpoonup> json) \<Rightarrow> string option" where
  "taskState task = (case present (task ''status'') of
     None \<Rightarrow> Some []
   | Some st \<Rightarrow> (case json_object st of
       None \<Rightarrow> None
     | Some s \<Rightarrow> (case present (s ''state'') of None \<Rightarrow> Some [] | Some v \<Rightarrow> json_string v)))"

fun textParts :: "json list \<Rightarrow> string list option" where
  "textParts [] = Some []"
| "textParts (p # ps) = (case json_object p of
     None \<Rightarrow> None
   | Some po \<Rightarrow> (case present (po ''text'') of
       None \<Rightarrow> textParts ps
     | Some v \<Rightarrow>
       if po ''data'' \<noteq> None \<or> present (po ''raw'') \<noteq> None \<or> present (po ''url'') \<noteq> None then None
       else (case json_string v of None \<Rightarrow> None | Some t \<Rightarrow> map_option ((#) t) (textParts ps))))"

fun artifact_parts :: "json list \<Rightarrow> json list option" where
  "artifact_parts [] = Some []"
| "artifact_parts (a # as) = (case json_object a of
     None \<Rightarrow> None
   | Some ao \<Rightarrow> (case json_list (ao ''parts'') of
       None \<Rightarrow> None
     | Some p \<Rightarrow> map_option ((@) p) (artifact_parts as)))"

text \<open>
  The token stream of a value and the stack machine of \<^verbatim>\<open>noDuplicateKeys\<close>: a frame is the set of keys
  seen (none for an array) and whether the next string is a key.
\<close>

datatype token = TOpenObj | TCloseObj | TOpenArr | TCloseArr | TStr string | TScalar

fun json_tokens :: "json \<Rightarrow> token list"
  and elem_tokens :: "json list \<Rightarrow> token list"
  and member_tokens :: "(string \<times> json) list \<Rightarrow> token list" where
  "json_tokens (JStr s) = [TStr s]"
| "json_tokens (JArr xs) = TOpenArr # elem_tokens xs @ [TCloseArr]"
| "json_tokens (JObj ms) = TOpenObj # member_tokens ms @ [TCloseObj]"
| "json_tokens _ = [TScalar]"
| "elem_tokens [] = []"
| "elem_tokens (x # xs) = json_tokens x @ elem_tokens xs"
| "member_tokens [] = []"
| "member_tokens ((k, v) # ms) = TStr k # json_tokens v @ member_tokens ms"

type_synonym frame = "string list option \<times> bool"

definition value_next :: "frame list \<Rightarrow> frame list" where
  "value_next stack = (case stack of (Some ks, _) # fs \<Rightarrow> (Some ks, True) # fs | _ \<Rightarrow> stack)"

fun dup_run :: "frame list \<Rightarrow> token list \<Rightarrow> bool" where
  "dup_run stack [] = (stack = [])"
| "dup_run stack (tok # ts) =
     (case (tok, stack) of
        (TStr s, (Some ks, True) # fs) \<Rightarrow>
          if s \<in> set ks then False else dup_run ((Some (s # ks), False) # fs) ts
      | _ \<Rightarrow> let stack' = value_next stack in
          (case tok of
             TOpenObj \<Rightarrow> dup_run ((Some [], True) # stack') ts
           | TOpenArr \<Rightarrow> dup_run ((None, False) # stack') ts
           | TCloseObj \<Rightarrow> dup_run (tl stack') ts
           | TCloseArr \<Rightarrow> dup_run (tl stack') ts
           | _ \<Rightarrow> dup_run stack' ts))"

definition noDuplicateKeys :: "json \<Rightarrow> bool" where
  "noDuplicateKeys v = dup_run [] (json_tokens v)"

text \<open>A body: its length, whether it is valid UTF-8 and the value it holds when it is JSON.\<close>

record body =
  bd_Len :: nat
  bd_UTF8 :: bool
  bd_JSON :: "json option"

definition answer_parts :: "(string \<rightharpoonup> json) \<Rightarrow> Outcome + json list" where
  "answer_parts tp = (case (present (tp ''task''), present (tp ''message'')) of
     (Some task, None) \<Rightarrow>
       (case json_object task of None \<Rightarrow> Inl (failing ReasonProtocolError) | Some t \<Rightarrow>
        (case taskState t of None \<Rightarrow> Inl (failing ReasonProtocolError) | Some state \<Rightarrow>
          if state \<noteq> ''TASK_STATE_COMPLETED'' then Inl (failing ReasonTaskNotCompleted)
          else (case json_list (t ''artifacts'') of None \<Rightarrow> Inl (failing ReasonProtocolError) | Some as \<Rightarrow>
            (case artifact_parts as of None \<Rightarrow> Inl (failing ReasonProtocolError) | Some ps \<Rightarrow> Inr ps))))
   | (None, Some message) \<Rightarrow>
       (case json_object message of None \<Rightarrow> Inl (failing ReasonProtocolError) | Some m \<Rightarrow>
        (case json_list (m ''parts'') of None \<Rightarrow> Inl (failing ReasonProtocolError) | Some ps \<Rightarrow> Inr ps))
   | _ \<Rightarrow> Inl (failing ReasonProtocolError))"

definition score :: "body \<Rightarrow> EvalExpect \<Rightarrow> Outcome" where
  "score raw expect = (case bd_JSON raw of
     None \<Rightarrow> failing ReasonProtocolError
   | Some v \<Rightarrow> (case json_object v of
       None \<Rightarrow> failing ReasonProtocolError
     | Some tp \<Rightarrow>
       if \<not> bd_UTF8 raw \<or> \<not> noDuplicateKeys v then failing ReasonProtocolError
       else (case answer_parts tp of
          Inl oc \<Rightarrow> oc
        | Inr parts \<Rightarrow> (case textParts parts of
            None \<Rightarrow> failing ReasonProtocolError
          | Some texts \<Rightarrow> if satisfies (join '' '' texts) expect then passing else failing ReasonMismatch))))"

section \<open>One send\<close>

abbreviation (input) MaxBodyBytes :: nat where "MaxBodyBytes \<equiv> 1048576"

text \<open>
  What the exchange gave: no answer, or a status with a body read whole, read in part (more than
  the limit), or broken off. \<open>canceled\<close> is the caller's cancellation, \<open>expired\<close> that the request's
  own context has ended.
\<close>

datatype body_result = BodyRead body | BodyError

datatype http_result = NoAnswer | Answer nat body_result

definition failed :: "bool \<Rightarrow> string \<Rightarrow> Outcome" where
  "failed canceled observed = (if canceled then failing ReasonInterrupted else failing observed)"

definition send_outcome :: "bool \<Rightarrow> bool \<Rightarrow> http_result \<Rightarrow> EvalExpect \<Rightarrow> Outcome" where
  "send_outcome canceled expired r expect = (case r of
     NoAnswer \<Rightarrow> failed canceled ReasonUnreachable
   | Answer status b \<Rightarrow>
     if status \<noteq> 200 then failing ReasonProtocolError
     else (case b of
        BodyError \<Rightarrow> if expired then failed canceled ReasonUnreachable else failing ReasonProtocolError
      | BodyRead raw \<Rightarrow>
        if bd_Len raw > MaxBodyBytes then failing ReasonProtocolError else score raw expect))"

text \<open>
  \<^verbatim>\<open>Check\<close>, on the address split and parsed by the standard library: the host and port if the
  address splits, whether the host is an IP address, the port's number if it is one, and whether a
  request can be built.
\<close>

datatype part = PartHost | PartPort | PartRequest

record address_view =
  av_Split :: bool
  av_HostIsIP :: bool
  av_Port :: "int option"
  av_Request :: bool

definition Check :: "address_view \<Rightarrow> part option" where
  "Check a =
     (if \<not> av_Split a then Some PartHost
      else if \<not> av_HostIsIP a then Some PartHost
      else if (case av_Port a of None \<Rightarrow> True | Some n \<Rightarrow> n < 1 \<or> n > 65535) then Some PartPort
      else if \<not> av_Request a then Some PartRequest
      else None)"

definition Send :: "address_view \<Rightarrow> bool \<Rightarrow> bool \<Rightarrow> http_result \<Rightarrow> EvalExpect \<Rightarrow> part + Outcome" where
  "Send a canceled expired r expect = (case Check a of
     Some p \<Rightarrow> Inl p
   | None \<Rightarrow> Inr (send_outcome canceled expired r expect))"

definition send_timeout :: "int \<Rightarrow> duration" where
  "send_timeout secs = (if secs \<le> 0 then DefaultCaseTimeoutSeconds * second else secs * second)"

section \<open>The token machine decides duplicate keys\<close>

text \<open>The specification: in every object, at every depth, the keys are distinct.\<close>

fun keys_distinct :: "json \<Rightarrow> bool"
  and elems_distinct :: "json list \<Rightarrow> bool"
  and members_distinct :: "(string \<times> json) list \<Rightarrow> bool" where
  "keys_distinct (JArr xs) = elems_distinct xs"
| "keys_distinct (JObj ms) = (distinct (map fst ms) \<and> members_distinct ms)"
| "keys_distinct _ = True"
| "elems_distinct [] = True"
| "elems_distinct (x # xs) = (keys_distinct x \<and> elems_distinct xs)"
| "members_distinct [] = True"
| "members_distinct ((k, v) # ms) = (keys_distinct v \<and> members_distinct ms)"

definition value_pos :: "frame list \<Rightarrow> bool" where
  "value_pos stack = (case stack of (Some _, True) # _ \<Rightarrow> False | _ \<Rightarrow> True)"

lemma dup_run_value:
  assumes "value_pos stack"
  shows "dup_run stack (TStr s # ts) = dup_run (value_next stack) ts"
    "dup_run stack (TScalar # ts) = dup_run (value_next stack) ts"
    "dup_run stack (TOpenObj # ts) = dup_run ((Some [], True) # value_next stack) ts"
    "dup_run stack (TOpenArr # ts) = dup_run ((None, False) # value_next stack) ts"
  using assms by (auto simp: value_pos_def Let_def split: list.splits option.splits prod.splits bool.splits)

lemma dup_run_steps:
  "dup_run ((Some ks, True) # fs) (TStr s # ts) = (s \<notin> set ks \<and> dup_run ((Some (s # ks), False) # fs) ts)"
  "dup_run (f # fs) (TCloseObj # ts) = dup_run fs ts"
  "dup_run (f # fs) (TCloseArr # ts) = dup_run fs ts"
  by (auto simp: value_next_def Let_def split: list.splits option.splits prod.splits)

lemma dup_run_tokens:
  "value_pos stack \<Longrightarrow> dup_run stack (json_tokens v @ ts) = (keys_distinct v \<and> dup_run (value_next stack) ts)"
  "dup_run ((None, b) # fs) (elem_tokens xs @ ts) = (elems_distinct xs \<and> dup_run ((None, b) # fs) ts)"
  "dup_run ((Some ks, True) # fs) (member_tokens ms @ TCloseObj # ts) =
     (distinct (map fst ms) \<and> set (map fst ms) \<inter> set ks = {} \<and> members_distinct ms \<and> dup_run fs ts)"
proof (induction v and xs and ms arbitrary: stack ts and b fs ts and ks fs ts
    rule: json_tokens_elem_tokens_member_tokens.induct)
  case (6 x xs)
  have "value_pos ((None, b) # fs)" "value_next ((None, b) # fs) = (None, b) # fs"
    by (simp_all add: value_pos_def value_next_def)
  with 6 show ?case by (simp del: dup_run.simps)
next
  case (8 k v ms)
  have "value_pos ((Some (k # ks), False) # fs)"
    "value_next ((Some (k # ks), False) # fs) = (Some (k # ks), True) # fs"
    by (simp_all add: value_pos_def value_next_def)
  with 8 show ?case by (auto simp: dup_run_steps simp del: dup_run.simps)
qed (simp_all add: dup_run_value dup_run_steps del: dup_run.simps)

lemma noDuplicateKeys_iff: "noDuplicateKeys v \<longleftrightarrow> keys_distinct v"
  using dup_run_tokens(1) [of "[]" v "[]"] by (simp add: noDuplicateKeys_def value_pos_def value_next_def)

section \<open>Properties of the client\<close>

lemma score_passed:
  assumes "oc_Passed (score raw expect)"
  shows "\<exists>v tp parts texts. bd_JSON raw = Some v \<and> json_object v = Some tp \<and> bd_UTF8 raw \<and>
     noDuplicateKeys v \<and> answer_parts tp = Inr parts \<and> textParts parts = Some texts \<and>
     satisfies (join '' '' texts) expect"
proof -
  have "answer_parts tp = Inl oc \<Longrightarrow> \<not> oc_Passed oc" for tp oc
    by (auto simp: answer_parts_def failing_def split: option.splits if_splits)
  then show ?thesis
    using assms
    by (auto simp: score_def failing_def passing_def split: option.splits sum.splits if_splits)
qed

lemma answer_parts_task:
  assumes "answer_parts tp = Inr parts" "present (tp ''task'') = Some task"
  shows "present (tp ''message'') = None \<and> (\<exists>t. json_object task = Some t \<and> taskState t = Some ''TASK_STATE_COMPLETED'')"
  using assms by (auto simp: answer_parts_def split: option.splits if_splits)

text \<open>
  C33. The duplicate-key check is exact: the token machine accepts a document if and only if no
  object in it, at any depth, repeats a key.
\<close>

theorem noDuplicateKeys_exact: "noDuplicateKeys v \<longleftrightarrow> keys_distinct v"
  by (rule noDuplicateKeys_iff)

text \<open>
  C34. A case passes only on a proper answer: \<open>Send\<close> gives a pass only if the address was admitted,
  the status was 200, the body was read whole within the limit, is valid UTF-8 and a JSON object
  with no repeated key that holds exactly one of task and message, a task being completed, and the
  text of its parts satisfies the expectation. A pass carries no reason and a failure always one.
\<close>

theorem Send_passed_only_if:
  assumes "Send a canceled expired r expect = Inr oc"
  shows "(oc_Passed oc \<longrightarrow> Check a = None \<and> oc_Reason oc = [] \<and>
      (\<exists>raw v tp parts texts. r = Answer 200 (BodyRead raw) \<and> bd_Len raw \<le> MaxBodyBytes \<and> bd_UTF8 raw \<and>
         bd_JSON raw = Some v \<and> json_object v = Some tp \<and> keys_distinct v \<and>
         (present (tp ''task'') = None) \<noteq> (present (tp ''message'') = None) \<and>
         answer_parts tp = Inr parts \<and> textParts parts = Some texts \<and> satisfies (join '' '' texts) expect)) \<and>
    (\<not> oc_Passed oc \<longrightarrow> oc_Reason oc \<in> {ReasonMismatch, ReasonTaskNotCompleted, ReasonProtocolError,
         ReasonUnreachable, ReasonInterrupted})"
proof (intro conjI impI)
  assume p: "oc_Passed oc"
  then obtain raw where raw: "r = Answer 200 (BodyRead raw)" "bd_Len raw \<le> MaxBodyBytes"
    "oc = score raw expect" and c: "Check a = None"
    using assms by (auto simp: Send_def send_outcome_def failed_def failing_def
        split: option.splits http_result.splits body_result.splits if_splits)
  show "Check a = None" by (rule c)
  obtain v tp parts texts where s: "bd_JSON raw = Some v" "json_object v = Some tp" "bd_UTF8 raw"
     "noDuplicateKeys v" "answer_parts tp = Inr parts" "textParts parts = Some texts"
     "satisfies (join '' '' texts) expect" using score_passed p raw(3) by blast
  then show "oc_Reason oc = []" by (simp add: raw(3) score_def passing_def)
  have "(present (tp ''task'') = None) \<noteq> (present (tp ''message'') = None)"
    using s(5) by (auto simp: answer_parts_def split: option.splits)
  with raw s show "\<exists>raw v tp parts texts. r = Answer 200 (BodyRead raw) \<and> bd_Len raw \<le> MaxBodyBytes \<and> bd_UTF8 raw \<and>
         bd_JSON raw = Some v \<and> json_object v = Some tp \<and> keys_distinct v \<and>
         (present (tp ''task'') = None) \<noteq> (present (tp ''message'') = None) \<and>
         answer_parts tp = Inr parts \<and> textParts parts = Some texts \<and> satisfies (join '' '' texts) expect"
    by (auto simp: noDuplicateKeys_iff)
next
  assume "\<not> oc_Passed oc"
  then show "oc_Reason oc \<in> {ReasonMismatch, ReasonTaskNotCompleted, ReasonProtocolError,
         ReasonUnreachable, ReasonInterrupted}"
    using assms
    by (auto simp: Send_def send_outcome_def score_def answer_parts_def failed_def failing_def passing_def
        split: option.splits http_result.splits body_result.splits sum.splits if_splits)
qed

definition sample_answer :: json where
  "sample_answer = JObj [(''message'', JObj [(''parts'', JArr [JObj [(''text'', JStr ''all ok'')]])])]"

definition sample_address :: address_view where
  "sample_address = \<lparr> av_Split = True, av_HostIsIP = True, av_Port = Some 8080, av_Request = True \<rparr>"

theorem Send_passed_only_if_witness:
  "\<exists>oc. Send sample_address False False (Answer 200 (BodyRead \<lparr> bd_Len = 57, bd_UTF8 = True, bd_JSON = Some sample_answer \<rparr>))
     \<lparr> xe_Contains = ''ok'', xe_Equals = '''' \<rparr> = Inr oc \<and> oc_Passed oc \<and> oc_Reason oc = [] \<and> keys_distinct sample_answer"
proof -
  let ?r = "Answer 200 (BodyRead \<lparr> bd_Len = 57, bd_UTF8 = True, bd_JSON = Some sample_answer \<rparr>)"
  let ?x = "\<lparr> xe_Contains = ''ok'', xe_Equals = '''' \<rparr>"
  have "str_contains ''all ok'' ''ok''" by (simp add: str_contains.simps has_prefix_def)
  then have "Send sample_address False False ?r ?x = Inr passing"
    by (simp add: Send_def Check_def sample_address_def send_outcome_def score_def sample_answer_def
        json_object_def noDuplicateKeys_iff answer_parts_def present_def json_list_def json_string_def
        satisfies_def)
  from Send_passed_only_if [OF this] this show ?thesis by (auto simp: passing_def)
qed

text \<open>
  A send's failure is classified by who cut it short: without an answer, or with the request's
  context ended before a 200's body was whole, the outcome is Interrupted if the caller cancelled
  and Unreachable otherwise; any status but 200, a redirect included, and any oversized body is
  ProtocolError, even under cancellation.
\<close>

theorem send_outcome_classes:
  "send_outcome True expired NoAnswer expect = failing ReasonInterrupted \<and>
   send_outcome False expired NoAnswer expect = failing ReasonUnreachable \<and>
   send_outcome True True (Answer 200 BodyError) expect = failing ReasonInterrupted \<and>
   send_outcome False True (Answer 200 BodyError) expect = failing ReasonUnreachable \<and>
   (status \<noteq> 200 \<longrightarrow> send_outcome canceled expired (Answer status b) expect = failing ReasonProtocolError) \<and>
   (bd_Len raw > MaxBodyBytes \<longrightarrow>
      send_outcome canceled expired (Answer status (BodyRead raw)) expect = failing ReasonProtocolError)"
  by (simp add: send_outcome_def failed_def)

theorem send_outcome_classes_witness:
  "send_outcome True True (Answer 307 BodyError) \<lparr> xe_Contains = ''ok'', xe_Equals = '''' \<rparr> = failing ReasonProtocolError"
  using send_outcome_classes by simp

text \<open>
  The endpoint of a run is judged on the card's first HTTP+JSON 1.0 interface and on no other:
  an admitted path is that interface's, unescaped and written only with admitted bytes, with
  exactly one trailing slash trimmed before \<^verbatim>\<open>/message:send\<close>; the interface names no tenant and its
  URL no query or fragment. A refused first interface is never passed over for a later one.
\<close>

definition speaks :: "Interface \<Rightarrow> bool" where
  "speaks ifc \<longleftrightarrow> if_ProtocolBinding ifc = ''HTTP+JSON'' \<and> if_ProtocolVersion ifc = ''1.0''"

lemma endpoint_from_first:
  "endpoint_from url_parse i ifs = Inr p \<Longrightarrow>
   \<exists>ifc u. find speaks ifs = Some ifc \<and> url_parse (if_URL ifc) = Some u \<and>
     if_Tenant ifc = [] \<and> u_RawQuery u = [] \<and> \<not> u_ForceQuery u \<and> u_Fragment u = [] \<and> u_RawPath u = [] \<and>
     \<not> str_contains (if_URL ifc) ''#'' \<and>
     pathSendsAsWritten (u_Path u) \<and> p = trim_suffix (u_Path u) ''/'' @ ''/message:send''"
  by (induction i ifs rule: endpoint_from.induct) (auto simp: speaks_def split: if_splits option.splits)

theorem EndpointPath_first_interface:
  assumes "EndpointPath url_parse ifs = Inr p"
  shows "\<exists>ifc u. find speaks ifs = Some ifc \<and> url_parse (if_URL ifc) = Some u \<and>
     if_Tenant ifc = [] \<and> u_RawQuery u = [] \<and> \<not> u_ForceQuery u \<and> u_Fragment u = [] \<and> u_RawPath u = [] \<and>
     \<not> str_contains (if_URL ifc) ''#'' \<and>
     pathSendsAsWritten (u_Path u) \<and> p = trim_suffix (u_Path u) ''/'' @ ''/message:send'' \<and>
     pathSendsAsWritten p"
proof -
  have "set (trim_suffix s t) \<subseteq> set s" for s t
    by (auto simp: trim_suffix_def dest: in_set_takeD)
  moreover have "pathSendsAsWritten ''/message:send''"
    by (simp add: pathSendsAsWritten_def path_byte_def pathPunctuation_def)
  ultimately show ?thesis
    using endpoint_from_first [OF assms [unfolded EndpointPath_def]]
    by (fastforce simp: pathSendsAsWritten_def list_all_iff)
qed

theorem EndpointPath_first_interface_witness:
  "EndpointPath (\<lambda>s. Some \<lparr> u_RawQuery = '''', u_ForceQuery = False, u_Fragment = '''', u_RawPath = '''', u_Path = s \<rparr>)
     [\<lparr> if_URL = ''/a2a/'', if_ProtocolBinding = ''HTTP+JSON'', if_ProtocolVersion = ''1.0'', if_Tenant = '''' \<rparr>]
   = Inr ''/a2a/message:send'' \<and> pathSendsAsWritten ''/a2a/message:send''"
proof -
  let ?p = "\<lambda>s. Some \<lparr> u_RawQuery = '''', u_ForceQuery = False, u_Fragment = '''', u_RawPath = '''', u_Path = s \<rparr>"
  let ?i = "[\<lparr> if_URL = ''/a2a/'', if_ProtocolBinding = ''HTTP+JSON'', if_ProtocolVersion = ''1.0'', if_Tenant = '''' \<rparr>]"
  have "\<not> str_contains ''/a2a/'' ''#''" by (simp add: str_contains.simps has_prefix_def)
  then have e: "EndpointPath ?p ?i = Inr ''/a2a/message:send''"
    by (simp add: EndpointPath_def pathSendsAsWritten_def path_byte_def pathPunctuation_def
        trim_suffix_def has_suffix_def)
  show ?thesis using EndpointPath_first_interface [OF e] e by auto
qed

end
