(* ===== verification/Gate.thy ===== *)
theory Gate
  imports Conditions Auth_Compiler Eval_Client
begin

text \<open>
  The eval gate of the Agent reconciler: \<^verbatim>\<open>internal/controller/gate.go\<close>, with the clause-5 hold it reads
  back (\<^verbatim>\<open>evalclause5.go\<close>) and the pin rule (\<^verbatim>\<open>pinrule.go\<close>).

  \<open>decideGate\<close> is the whole decision table, one branch per row of the source; what the reconciler
  gathers for it is the record \<open>gateInput\<close>. Messages carry the row and the values it interpolates;
  a time in a message is its count of seconds. The schema check reads the installed CRD's schema
  as a tree of properties, and its cache is explicit state.
\<close>

section \<open>Reasons and modes\<close>

abbreviation ReasonEvalRunning :: string where "ReasonEvalRunning \<equiv> ''EvalRunning''"
abbreviation ReasonEvalPaused :: string where "ReasonEvalPaused \<equiv> ''EvalPaused''"
abbreviation ReasonEvalRecordNotKept :: string where "ReasonEvalRecordNotKept \<equiv> ''EvalRecordNotKept''"
abbreviation ReasonEvalRecordUnverifiable :: string where
  "ReasonEvalRecordUnverifiable \<equiv> ''EvalRecordUnverifiable''"
abbreviation ReasonEvalSuiteNotFound :: string where "ReasonEvalSuiteNotFound \<equiv> ''EvalSuiteNotFound''"
abbreviation ReasonEvalSuiteUnreadable :: string where "ReasonEvalSuiteUnreadable \<equiv> ''EvalSuiteUnreadable''"
abbreviation ReasonEvalAwaitingCard :: string where "ReasonEvalAwaitingCard \<equiv> ''EvalAwaitingCard''"
abbreviation ReasonEvalBindingUnsupported :: string where
  "ReasonEvalBindingUnsupported \<equiv> ''EvalBindingUnsupported''"
abbreviation ReasonEvalWaitingForAuth :: string where "ReasonEvalWaitingForAuth \<equiv> ''EvalWaitingForAuth''"
abbreviation ReasonEvalCandidateUnaddressable :: string where
  "ReasonEvalCandidateUnaddressable \<equiv> ''EvalCandidateUnaddressable''"
abbreviation ReasonEvalPairAlreadyFailed :: string where
  "ReasonEvalPairAlreadyFailed \<equiv> ''EvalPairAlreadyFailed''"
abbreviation ReasonEvalFailed :: string where "ReasonEvalFailed \<equiv> ''EvalFailed''"
abbreviation ReasonEvalPassed :: string where "ReasonEvalPassed \<equiv> ''EvalPassed''"
abbreviation reasonAwaitingGates :: string where "reasonAwaitingGates \<equiv> ''AwaitingGates''"
abbreviation CondGatesBypassed :: string where "CondGatesBypassed \<equiv> ''GatesBypassed''"

datatype gateMode = gateNone | gateUnwired | gateCRDAbsent | gateEnforced

text \<open>The EvalSuite detector is nil, or a function that answers whether the CRD is installed.\<close>

definition gateModeOf :: "bool option \<Rightarrow> Agent \<Rightarrow> gateMode" where
  "gateModeOf installed agent =
     (if sp_Gates (ag_Spec agent) = [] then gateNone
      else case installed of None \<Rightarrow> gateUnwired
        | Some b \<Rightarrow> if \<not> b then gateCRDAbsent else gateEnforced)"

definition readErrorClass :: "api_error \<Rightarrow> string" where
  "readErrorClass e = (case err_class e of
     ENotFound \<Rightarrow> ''NotFound'' | EForbidden \<Rightarrow> ''Forbidden'' | EUnauthorized \<Rightarrow> ''Unauthorized''
   | ENoMatch \<Rightarrow> ''the kind is not served''
   | ETimeout \<Rightarrow> ''a timeout'' | EServerTimeout \<Rightarrow> ''a timeout'' | EDeadlineExceeded \<Rightarrow> ''a timeout''
   | ETooManyRequests \<Rightarrow> ''throttled''
   | EInternal \<Rightarrow> ''a server error'' | EServiceUnavailable \<Rightarrow> ''a server error''
   | EUnexpectedServer \<Rightarrow> ''a server error''
   | _ \<Rightarrow> ''an error of another class'')"

section \<open>The decision\<close>

record gateDecision =
  gd_satisfied :: bool
  gd_reason :: string
  gd_message :: string
  gd_readyReason :: string

definition hold :: "string \<Rightarrow> string \<Rightarrow> string \<Rightarrow> gateDecision" where
  "hold reason ready msg = \<lparr> gd_satisfied = False, gd_reason = reason, gd_message = msg, gd_readyReason = ready \<rparr>"

definition gate_satisfied :: gateDecision where
  "gate_satisfied = \<lparr> gd_satisfied = True, gd_reason = [], gd_message = [], gd_readyReason = [] \<rparr>"

definition report :: "gateDecision \<Rightarrow> conditionSet \<Rightarrow> conditionSet" where
  "report d c = (if \<not> gd_satisfied d \<and> gd_reason d \<noteq> []
     then cond_set CondGatesPassed CFalse (gd_reason d) (gd_message d) c else c)"

record gateInput =
  gi_desired :: string
  gi_desiredDigest :: string
  gi_namespace :: string
  gi_suiteName :: string
  gi_missing :: "string list"
  gi_recordErr :: "api_error option"
  gi_suite :: "EvalSuiteSpec option"
  gi_suiteErr :: "api_error option"
  gi_digestErr :: bool
  gi_suiteDigest :: string
  gi_status :: AgentStatus
  gi_available :: bool
  gi_now :: go_time
  gi_agentName :: "string option"
  gi_runNS :: string
  gi_route :: "route option"

definition caseRecord :: "EvalCaseRecord list \<Rightarrow> string \<Rightarrow> EvalCaseRecord option" where
  "caseRecord cases i = find (\<lambda>c. ec_ID c = i) cases"

definition outcomeRecorded :: "EvalCaseOutcome \<Rightarrow> bool" where
  "outcomeRecorded oc \<longleftrightarrow> oc = EvalCasePassed \<or> oc = EvalCaseFailed"

definition suite_cases :: "EvalSuiteSpec option \<Rightarrow> EvalCase list" where
  "suite_cases s = (case s of None \<Rightarrow> [] | Some x \<Rightarrow> ds_Cases (su_Dataset x))"

definition recordedOutcomes :: "EvalCaseRecord list \<Rightarrow> EvalSuiteSpec option \<Rightarrow> nat" where
  "recordedOutcomes cases s = length (filter (\<lambda>c. case caseRecord cases (ca_ID c) of
     None \<Rightarrow> False | Some rec \<Rightarrow> outcomeRecorded (ec_Outcome rec)) (suite_cases s))"

definition recordedLockDeadline :: "AgentStatus \<Rightarrow> go_time option" where
  "recordedLockDeadline status = (case authTransaction status of
     None \<Rightarrow> None
   | Some tx \<Rightarrow> if tx_Kind tx = TxLock then map_option (\<lambda>d. d div second * second) (tx_Deadline tx) else None)"

definition blockedForMatches :: "EvalBlockedFor option \<Rightarrow> string \<Rightarrow> string \<Rightarrow> AgentStatus \<Rightarrow> bool" where
  "blockedForMatches bf revDigest suiteDigest status = (case bf of
     None \<Rightarrow> False
   | Some b \<Rightarrow>
     if bf_RevisionDigest b \<noteq> revDigest \<or> bf_SuiteDigest b \<noteq> suiteDigest then False
     else (case (recordedLockDeadline status, bf_LockDeadline b) of
        (Some l, Some d) \<Rightarrow> l = d
      | (l, d) \<Rightarrow> l = None \<and> d = None))"

definition pairFailed :: "EvalPair list \<Rightarrow> string \<Rightarrow> string \<Rightarrow> bool" where
  "pairFailed failed_pairs revDigest suiteDigest =
     list_ex (\<lambda>p. ep_RevisionDigest p = revDigest \<and> ep_SuiteDigest p = suiteDigest) failed_pairs"

definition failedCases :: "EvalCaseRecord list \<Rightarrow> string" where
  "failedCases cases =
     (let out = map (\<lambda>c. ec_ID c @ '' ('' @ ec_Reason c @ '')'') (filter (\<lambda>c. ec_Reason c \<noteq> []) cases) in
      if out = [] then ''none recorded'' else join '', '' out)"

definition threshold :: "EvalSuiteSpec option \<Rightarrow> string" where
  "threshold s = (case s of None \<Rightarrow> [] | Some spec \<Rightarrow> (case Threshold spec of
     Inl err \<Rightarrow> msgf ''unreadable'' [err] | Inr th \<Rightarrow> FormatThreshold th))"

definition eval_pair_is :: "EvalStatus \<Rightarrow> gateInput \<Rightarrow> bool" where
  "eval_pair_is e inp \<longleftrightarrow> es_RevisionDigest e = gi_desiredDigest inp \<and> es_SuiteDigest e = gi_suiteDigest inp"

definition failedRows :: "gateInput \<Rightarrow> string \<Rightarrow> gateDecision option" where
  "failedRows inp pair = (case st_Eval (gi_status inp) of
     None \<Rightarrow> None
   | Some e \<Rightarrow>
     if eval_pair_is e inp \<and> es_Verdict e = EvalVerdictFailed
     then Some (hold ReasonEvalFailed ReasonEvalFailed
            (msgf ''failed'' [pair, es_Score e, threshold (gi_suite inp), failedCases (es_Cases e)]))
     else if pairFailed (es_Failed e) (gi_desiredDigest inp) (gi_suiteDigest inp)
     then Some (hold ReasonEvalPairAlreadyFailed ReasonEvalFailed (msgf ''already failed'' [pair]))
     else None)"

definition wedgeNeedsRoute :: "AgentStatus \<Rightarrow> bool" where
  "wedgeNeedsRoute status = (case recordedTransaction status of
     None \<Rightarrow> False
   | Some tx \<Rightarrow> tx_Kind tx = TxLock \<and> isReCreation (st_Auth status) \<and> tx_Stage tx = StageProbingAfter \<and>
       \<not> cardedRevision status (st_ActiveRevision status))"

definition wedgeExits :: "gateInput \<Rightarrow> string" where
  "wedgeExits inp = (case (gi_route inp, gi_agentName inp) of
     (Some rt, Some name) \<Rightarrow>
       if \<not> wedgeNeedsRoute (gi_status inp) then []
       else if cardAttributes name (gi_status inp) (Some rt) then []
       else msgf ''the wedge and its exits'' [name, st_ActiveRevision (gi_status inp), singleBackend (Some rt), gi_runNS inp]
   | _ \<Rightarrow> [])"

definition waitingMessage :: "gateInput \<Rightarrow> AuthTransaction \<Rightarrow> string \<Rightarrow> string \<Rightarrow> string" where
  "waitingMessage inp tx why pair =
     msgf ''an -auth transaction is recorded'' [tx_Kind tx, tx_Stage tx, pair, why] @
     (if wedgeExits inp \<noteq> [] then ''. '' @ wedgeExits inp else []) @
     (case tx_Deadline tx of
        None \<Rightarrow> []
      | Some d \<Rightarrow> if \<not> gi_now inp < d then msgf ''; its deadline passed'' [itoa (d div second)] else [])"

definition noVerdictRows :: "gateInput \<Rightarrow> string \<Rightarrow> gateDecision" where
  "noVerdictRows inp pair =
     (let e = st_Eval (gi_status inp);
          n = length (suite_cases (gi_suite inp)) in
      if \<not> gi_available inp then
        (let blocked = (case e of None \<Rightarrow> None | Some x \<Rightarrow>
               if blockedForMatches (es_BlockedFor x) (gi_desiredDigest inp) (gi_suiteDigest inp) (gi_status inp)
               then es_Blocked x else None);
             resume = (case blocked of
               None \<Rightarrow> ''once it is available again''
             | Some b \<Rightarrow>
               if eb_Reason b = ReasonEvalWaitingForAuth then ''and the clause-5 hold has cleared''
               else if eb_Reason b = ReasonEvalCandidateUnaddressable
                 then msgf ''and its address can be derived'' [eb_Reason b, eb_Message b]
               else if eb_Reason b = ReasonEvalBindingUnsupported \<or> eb_Reason b = ReasonEvalAwaitingCard
                 then msgf ''and the run-start refusal is answered'' [eb_Reason b, eb_Message b]
               else ''once it is available again'');
             progress = (case e of
               None \<Rightarrow> msgf ''no run has started'' [resume]
             | Some x \<Rightarrow>
               if eval_pair_is x inp \<and> es_Verdict x = EvalVerdictRunning
               then msgf ''cases have an outcome'' [dec (recordedOutcomes (es_Cases x) (gi_suite inp)), dec n, resume]
               else msgf ''no run has started'' [resume])
         in hold ReasonEvalPaused reasonAwaitingGates (msgf ''is not available'' [pair, progress]))
      else hold ReasonEvalRunning reasonAwaitingGates (msgf ''no final verdict'' [pair, dec n]))"

text \<open>The rows that need no suite: the schema check and the read of the suite.\<close>

definition schemaRows :: "gateInput \<Rightarrow> string \<Rightarrow> gateDecision option" where
  "schemaRows inp rv =
     (case gi_recordErr inp of
        Some err \<Rightarrow> Some (hold ReasonEvalRecordUnverifiable ReasonEvalRecordUnverifiable
                       (msgf ''the Agent CRD could not be read'' [readErrorClass err, rv]))
      | None \<Rightarrow>
        if gi_missing inp = [''passed''] then Some (hold ReasonEvalRecordNotKept ReasonEvalRecordNotKept
                       (msgf ''the Agent CRD does not carry status.eval.passed'' [rv]))
        else if gi_missing inp \<noteq> [] then Some (hold ReasonEvalRecordNotKept ReasonEvalRecordNotKept
                       (msgf ''the Agent CRD does not carry'' [join '', '' (gi_missing inp), rv]))
        else case gi_suiteErr inp of
           Some err \<Rightarrow>
             if IsNotFound err then Some (hold ReasonEvalSuiteNotFound reasonAwaitingGates
                       (msgf ''the EvalSuite does not exist'' [gi_suiteName inp, gi_namespace inp, rv]))
             else Some (hold ReasonEvalSuiteUnreadable reasonAwaitingGates
                       (msgf ''the EvalSuite could not be read'' [gi_suiteName inp, readErrorClass err, rv]))
         | None \<Rightarrow>
             if gi_digestErr inp then Some (hold ReasonEvalSuiteUnreadable reasonAwaitingGates
                       (msgf ''the EvalSuite cannot be digested'' [gi_suiteName inp, rv]))
             else None)"

text \<open>The rows after the failed ones: the card, the transaction, availability and the recorded block.\<close>

definition blockedRow :: "gateInput \<Rightarrow> string \<Rightarrow> EvalBlocked \<Rightarrow> gateDecision option" where
  "blockedRow inp pair b =
     (if eb_Reason b \<in> {ReasonEvalCandidateUnaddressable, ReasonEvalBindingUnsupported,
          ReasonEvalAwaitingCard, ReasonEvalWaitingForAuth}
      then Some (hold (eb_Reason b) reasonAwaitingGates (msgf ''no case can be sent'' [pair, eb_Message b]))
      else None)"

definition pendingRows :: "gateInput \<Rightarrow> string \<Rightarrow> string \<Rightarrow> gateDecision" where
  "pendingRows inp rv pair =
     (let status = gi_status inp; e = st_Eval status; tx = recordedTransaction status;
          ew = (if tx \<noteq> None then exemptTransaction status else (False, []));
          exempt = fst ew; why = snd ew in
      if \<not> hasCardFor status (gi_desiredDigest inp)
      then hold ReasonEvalAwaitingCard reasonAwaitingGates (msgf ''no card digest is recorded'' [rv])
      else
       let bfMatched = (case e of None \<Rightarrow> False | Some x \<Rightarrow>
             blockedForMatches (es_BlockedFor x) (gi_desiredDigest inp) (gi_suiteDigest inp) status) in
       if tx \<noteq> None \<and> \<not> exempt
       then hold ReasonEvalWaitingForAuth reasonAwaitingGates (waitingMessage inp (the tx) why pair)
       else if \<not> gi_available inp then noVerdictRows inp pair
       else if exempt \<and> \<not> bfMatched
       then hold ReasonEvalWaitingForAuth reasonAwaitingGates
              (msgf ''clause 5 has not been evaluated for this Lock'' [tx_Stage (the tx), pair])
       else case (if bfMatched then (case e of None \<Rightarrow> None | Some x \<Rightarrow> es_Blocked x) else None) of
          Some b \<Rightarrow> (case blockedRow inp pair b of Some d \<Rightarrow> d | None \<Rightarrow> noVerdictRows inp pair)
        | None \<Rightarrow> noVerdictRows inp pair)"

definition decideGate :: "gateInput \<Rightarrow> gateDecision" where
  "decideGate inp =
     (let rv = msgf ''revision'' [gi_desired inp, gi_desiredDigest inp] in
      case schemaRows inp rv of Some d \<Rightarrow> d | None \<Rightarrow>
       let pair = msgf ''against suite'' [rv, gi_suiteName inp, gi_suiteDigest inp];
           status = gi_status inp in
       case st_Eval status of
         Some e \<Rightarrow>
           if eval_pair_is e inp \<and> es_Verdict e = EvalVerdictPassed then
             if hasCardFor status (gi_desiredDigest inp) then gate_satisfied
             else hold ReasonEvalAwaitingCard reasonAwaitingGates
                    (msgf ''passed, but no card digest is recorded'' [pair, es_Score e])
           else (case failedRows inp pair of Some d \<Rightarrow> d | None \<Rightarrow> pendingRows inp rv pair)
       | None \<Rightarrow> (case failedRows inp pair of Some d \<Rightarrow> d | None \<Rightarrow> pendingRows inp rv pair))"

section \<open>The schema check\<close>

text \<open>A structural schema: its properties, and its items' schema when it is an array's.\<close>

datatype schema = Schema (sch_props: "(string \<times> schema) list") (sch_items: "schema option")

record crd_version =
  cv_Name :: string
  cv_Schema :: "schema option"

definition evalRecordFields :: "string list" where
  "evalRecordFields = [''suiteDigest'', ''endpointPath'', ''cardDigest'', ''blocked'', ''blockedFor'',
     ''verdict'', ''cases'', ''failed'', ''passed'']"

definition crd_eval :: "crd_version list \<Rightarrow> schema option" where
  "crd_eval versions = fold (\<lambda>v ev.
     if cv_Name v \<noteq> ''v1alpha1'' then ev
     else case cv_Schema v of
        None \<Rightarrow> ev
      | Some s \<Rightarrow> (case map_of (sch_props s) ''status'' of
          None \<Rightarrow> ev
        | Some st \<Rightarrow> (case map_of (sch_props st) ''eval'' of None \<Rightarrow> ev | Some x \<Rightarrow> Some x))) versions None"

definition field_missing :: "schema option \<Rightarrow> string \<Rightarrow> string list" where
  "field_missing ev f = (case (case ev of None \<Rightarrow> None | Some s \<Rightarrow> map_of (sch_props s) f) of
     None \<Rightarrow> [f]
   | Some prop \<Rightarrow>
     if f = ''cases'' then
       (case sch_items prop of
          None \<Rightarrow> [''cases[].claim'']
        | Some it \<Rightarrow> if map_of (sch_props it) ''claim'' = None then [''cases[].claim''] else [])
     else [])"

definition evalRecordMissingFrom :: "crd_version list \<Rightarrow> string list" where
  "evalRecordMissingFrom versions = concat (map (field_missing (crd_eval versions)) evalRecordFields)"

record evalRecordCheck =
  rc_warmed :: bool
  rc_checked :: go_time
  rc_missing :: "string list"
  rc_failing :: bool

abbreviation (input) DefaultEvalRecordCheckTTL :: duration where "DefaultEvalRecordCheckTTL \<equiv> 30 * second"

text \<open>\<^verbatim>\<open>evalRecordMissing\<close>: the configured TTL, the clock, and what a get of the CRD would return.\<close>

definition evalRecordMissing :: "duration \<Rightarrow> go_time \<Rightarrow> api_error + crd_version list \<Rightarrow> evalRecordCheck
    \<Rightarrow> (api_error + string list) \<times> evalRecordCheck" where
  "evalRecordMissing ttl0 now got c =
     (let ttl = (if ttl0 = 0 then DefaultEvalRecordCheckTTL else ttl0) in
      if rc_warmed c \<and> now - rc_checked c < ttl then (Inr (rc_missing c), c)
      else case got of
         Inl err \<Rightarrow>
           (let c' = c\<lparr> rc_failing := True \<rparr> in
            if rc_warmed c then (Inr (rc_missing c), c') else (Inl err, c'))
       | Inr crd \<Rightarrow>
           (let m = evalRecordMissingFrom crd in
            (Inr m, \<lparr> rc_warmed = True, rc_checked = now, rc_missing = m, rc_failing = False \<rparr>)))"

section \<open>Gathering the inputs\<close>

text \<open>
  \<^verbatim>\<open>gateFor\<close>: the route's read (\<open>route_got\<close>, used only when the wedge needs it and only when the read
  succeeds), the schema check's answer, and the suite's read, made only when the check found the
  record kept. Digesting a suite read from the API cannot fail.
\<close>

definition gateFor :: "Agent \<Rightarrow> AgentStatus \<Rightarrow> string \<Rightarrow> string \<Rightarrow> bool \<Rightarrow> go_time \<Rightarrow> string \<Rightarrow> route option
    \<Rightarrow> api_error + string list \<Rightarrow> api_error + EvalSuiteSpec \<Rightarrow> gateDecision" where
  "gateFor agent status desired desiredDigest available now runNS route_got rec suite_got =
     (let suite_read = (rec = Inr []);
          inp = \<lparr> gi_desired = desired, gi_desiredDigest = desiredDigest, gi_namespace = ag_Namespace agent,
            gi_suiteName = gr_EvalSuiteRef (hd (sp_Gates (ag_Spec agent))),
            gi_missing = (case rec of Inl _ \<Rightarrow> [] | Inr m \<Rightarrow> m),
            gi_recordErr = (case rec of Inl e \<Rightarrow> Some e | Inr _ \<Rightarrow> None),
            gi_suite = (if suite_read then (case suite_got of Inl _ \<Rightarrow> None | Inr s \<Rightarrow> Some s) else None),
            gi_suiteErr = (if suite_read then (case suite_got of Inl e \<Rightarrow> Some e | Inr _ \<Rightarrow> None) else None),
            gi_digestErr = False,
            gi_suiteDigest = (if suite_read then (case suite_got of Inl _ \<Rightarrow> [] | Inr s \<Rightarrow> suite_Digest s) else []),
            gi_status = status, gi_available = available, gi_now = now,
            gi_agentName = Some (ag_Name agent), gi_runNS = runNS,
            gi_route = (if wedgeNeedsRoute status then route_got else None) \<rparr>
      in decideGate inp)"

section \<open>Clause 5\<close>

record gatewayAuth =
  ga_policies :: "string list"
  ga_widening :: "string list"
  ga_unlisted :: bool
  ga_gatewayErr :: "api_error option"
  ga_listErr :: "api_error option"
  ga_listeners :: string
  ga_unreadable :: string

definition clause5Hold :: "GatewayConfig \<Rightarrow> string \<Rightarrow> string \<Rightarrow> gatewayAuth \<Rightarrow> string list \<Rightarrow> api_error option
    \<Rightarrow> EvalBlocked option" where
  "clause5Hold gw runNS rt abv foreign ferr =
     (let causes =
        (case ga_gatewayErr abv of None \<Rightarrow> [] | Some e \<Rightarrow>
           [msgf ''the Gateway could not be read'' [gw_Namespace gw, gw_Name gw, readErrorClass e]]) @
        (case ga_listErr abv of None \<Rightarrow> [] | Some e \<Rightarrow>
           [msgf ''the policies on the Gateway could not be listed'' [gw_Namespace gw, readErrorClass e]]) @
        (if ga_policies abv = [] then [] else
           [msgf ''a policy targets the Gateway'' [join '', '' (ga_policies abv), gw_Namespace gw, gw_Name gw,
              (if ga_gatewayErr abv \<noteq> None then ''listeners not read'' else ''on a listener'')]]) @
        (if ga_listeners abv = [] then [] else
           [msgf ''the Gateway admits ListenerSets'' [gw_Namespace gw, gw_Name gw, ga_listeners abv]]) @
        (case ferr of None \<Rightarrow> [] | Some e \<Rightarrow>
           [msgf ''the policies in the run namespace could not be listed'' [runNS, rt, readErrorClass e]]) @
        (if foreign = [] then [] else
           [msgf ''a foreign traffic policy targets the route'' [join '', '' foreign, runNS, rt]])
      in if causes = [] then None
         else Some \<lparr> eb_Reason = ReasonEvalWaitingForAuth, eb_Message = msgf ''clause 5'' causes \<rparr>)"

text \<open>\<^verbatim>\<open>clause5\<close>: the hold, and whether the pass also reports an error.\<close>

definition clause5 :: "GatewayConfig \<Rightarrow> string \<Rightarrow> string \<Rightarrow> gatewayAuth \<Rightarrow> string list \<Rightarrow> api_error option
    \<Rightarrow> EvalBlocked option \<times> bool" where
  "clause5 gw agentName runNS abv foreign ferr =
     (let rt = (case ServingRouteName agentName of Inl _ \<Rightarrow> [] | Inr r \<Rightarrow> r) in
      (clause5Hold gw runNS rt abv foreign ferr, ferr \<noteq> None \<or> ga_unreadable abv \<noteq> []))"

section \<open>The pin rule\<close>

definition pinIneligible :: "string \<Rightarrow> string \<Rightarrow> AgentStatus \<Rightarrow> string \<Rightarrow> string \<Rightarrow> string" where
  "pinIneligible pinDigest specDigest status suiteName suiteDigest =
     (if pinDigest = st_ActiveRevisionDigest status then []
      else if pinDigest = specDigest then msgf ''it is the current candidate'' [suiteName]
      else if suiteDigest \<noteq> [] \<and> (case st_Eval status of None \<Rightarrow> False
           | Some e \<Rightarrow> pairFailed (es_Failed e) pinDigest suiteDigest)
      then msgf ''status.eval.failed[] records it'' [suiteName, suiteDigest]
      else [])"

text \<open>\<^verbatim>\<open>pinRule\<close>: the refusal, or why the pin was admitted.\<close>

definition pinRule :: "api_error + EvalSuiteSpec \<Rightarrow> Agent \<Rightarrow> AgentStatus \<Rightarrow> string \<Rightarrow> string \<Rightarrow> string + string" where
  "pinRule suite_got agent status pinDigest specDigest =
     (let suiteName = gr_EvalSuiteRef (hd (sp_Gates (ag_Spec agent)));
          suiteDigest = (case suite_got of Inl _ \<Rightarrow> [] | Inr s \<Rightarrow> suite_Digest s);
          unread = (case suite_got of Inl e \<Rightarrow> msgf ''the EvalSuite could not be read'' [suiteName, readErrorClass e]
                    | Inr _ \<Rightarrow> []);
          why = pinIneligible pinDigest specDigest status suiteName suiteDigest in
      if why \<noteq> [] then Inl why
      else if unread \<noteq> [] then Inr (msgf ''not the candidate, and failed[] was not consulted'' [unread])
      else Inr (msgf ''not the candidate, and failed[] does not record it'' [suiteName, suiteDigest]))"

definition evalPassedFor :: "EvalStatus option \<Rightarrow> string \<Rightarrow> bool" where
  "evalPassedFor e digest = (case e of None \<Rightarrow> False
     | Some x \<Rightarrow> es_Verdict x = EvalVerdictPassed \<and> es_RevisionDigest x = digest)"

definition passedEntry :: "EvalStatus option \<Rightarrow> string \<Rightarrow> EvalPair option" where
  "passedEntry e digest = (case e of None \<Rightarrow> None
     | Some x \<Rightarrow> if digest = [] then None else find (\<lambda>p. ep_RevisionDigest p = digest) (es_Passed x))"

definition activeRevisionPassUnrecorded :: "Agent \<Rightarrow> AgentStatus \<Rightarrow> string" where
  "activeRevisionPassUnrecorded agent status =
     (let d = st_ActiveRevisionDigest status; e = st_Eval status in
      if d = [] then []
      else if evalPassedFor e d \<or> passedEntry e d \<noteq> None then []
      else msgf ''no Passed verdict is recorded'' [st_ActiveRevision status, d,
             (if pin_of (ag_Spec agent) = [] then ''the next revision is held for its gate''
              else ''no revision is promoted while the pin is set'')])"

definition servingRecord :: "EvalStatus option \<Rightarrow> string \<Rightarrow> string" where
  "servingRecord e d =
     (let suites = (case e of None \<Rightarrow> [] | Some x \<Rightarrow>
            map ep_SuiteDigest (filter (\<lambda>p. ep_RevisionDigest p = d) (es_Failed x)));
          entry = passedEntry e d;
          rd = (case e of None \<Rightarrow> [] | Some x \<Rightarrow> es_RevisionDigest x);
          out =
           (if entry \<noteq> None \<and> rd = [] then ''the pair records no run''
            else if entry \<noteq> None \<and> rd \<noteq> d then msgf ''the pair records another revision'' [rd]
            else if rd = [] then ''status.eval records no run''
            else if rd \<noteq> d \<and> suites \<noteq> [] then msgf ''another revision: not recorded whether it passed'' [rd]
            else if rd \<noteq> d then msgf ''another revision: not recorded whether it passed or ran'' [rd]
            else (case e of None \<Rightarrow> [] | Some x \<Rightarrow>
              if es_Verdict x = EvalVerdictFailed then msgf ''a Failed verdict'' [es_SuiteDigest x]
              else if es_Verdict x = EvalVerdictRunning then msgf ''a run with no verdict yet'' [es_SuiteDigest x]
              else msgf ''its verdict cleared'' [es_SuiteDigest x]))
      in out @ (case entry of None \<Rightarrow> [] | Some p \<Rightarrow> msgf '' passed[] records it'' [ep_SuiteDigest p])
         @ (if suites = [] then [] else msgf '' failed[] records pairs'' (dec (length suites) # suites)))"

definition servingPinBypass :: "Agent \<Rightarrow> AgentStatus \<Rightarrow> string \<Rightarrow> string" where
  "servingPinBypass agent status why =
     (let d = pin_of (ag_Spec agent) in
      if d = [] then []
      else if d \<noteq> st_ActiveRevisionDigest status \<or> evalPassedFor (st_Eval status) d then []
      else msgf ''the pinned revision serves by pin'' [st_ActiveRevision status, d, why] @
           servingRecord (st_Eval status) d)"

definition pendingPinBypass :: "string \<Rightarrow> string \<Rightarrow> string \<Rightarrow> string" where
  "pendingPinBypass revision digest why = msgf ''the pinned revision will be promoted'' [revision, digest, why]"

section \<open>Facts on the decision\<close>

lemmas gate_rows = decideGate_def schemaRows_def failedRows_def pendingRows_def blockedRow_def noVerdictRows_def

lemma hold_sel [simp]:
  "gd_satisfied (hold r y m) = False" "gd_reason (hold r y m) = r" "gd_message (hold r y m) = m"
  "gd_readyReason (hold r y m) = y"
  by (simp_all add: hold_def)

lemma gate_satisfied_sel [simp]: "gd_satisfied gate_satisfied" "gd_reason gate_satisfied = []"
  by (simp_all add: gate_satisfied_def)

lemma schemaRows_None:
  "schemaRows inp rv = None \<longleftrightarrow> gi_recordErr inp = None \<and> gi_missing inp = [] \<and> gi_suiteErr inp = None \<and> \<not> gi_digestErr inp"
  by (auto simp: schemaRows_def split: option.split)

lemma schemaRows_hold:
  "schemaRows inp rv = Some d \<Longrightarrow> \<not> gd_satisfied d \<and> gd_readyReason d \<noteq> [] \<and>
     gd_reason d \<in> {ReasonEvalRecordUnverifiable, ReasonEvalRecordNotKept, ReasonEvalSuiteNotFound, ReasonEvalSuiteUnreadable}"
  by (auto simp: schemaRows_def split: option.splits if_splits)

lemma failedRows_hold:
  "failedRows inp pair = Some d \<Longrightarrow> \<not> gd_satisfied d \<and> gd_readyReason d = ReasonEvalFailed \<and>
     gd_reason d \<in> {ReasonEvalFailed, ReasonEvalPairAlreadyFailed}"
  by (auto simp: failedRows_def split: option.splits if_splits)

lemma noVerdictRows_hold:
  "gd_reason (noVerdictRows inp pair) = (if gi_available inp then ReasonEvalRunning else ReasonEvalPaused)"
  "\<not> gd_satisfied (noVerdictRows inp pair)" "gd_readyReason (noVerdictRows inp pair) = reasonAwaitingGates"
  by (simp_all add: noVerdictRows_def Let_def)

lemma blockedRow_hold:
  "blockedRow inp pair b = Some d \<Longrightarrow> \<not> gd_satisfied d \<and> gd_reason d = eb_Reason b \<and>
     gd_readyReason d = reasonAwaitingGates \<and>
     eb_Reason b \<in> {ReasonEvalCandidateUnaddressable, ReasonEvalBindingUnsupported, ReasonEvalAwaitingCard, ReasonEvalWaitingForAuth}"
  by (auto simp: blockedRow_def split: if_splits)

lemma pendingRows_hold:
  "\<not> gd_satisfied (pendingRows inp rv pair) \<and> gd_readyReason (pendingRows inp rv pair) = reasonAwaitingGates \<and>
   gd_reason (pendingRows inp rv pair) \<in> {ReasonEvalAwaitingCard, ReasonEvalWaitingForAuth, ReasonEvalPaused,
      ReasonEvalRunning, ReasonEvalCandidateUnaddressable, ReasonEvalBindingUnsupported}"
proof -
  have b: "blockedRow inp pair b = Some d \<Longrightarrow> \<not> gd_satisfied d \<and> gd_readyReason d = reasonAwaitingGates \<and>
      gd_reason d \<in> {ReasonEvalAwaitingCard, ReasonEvalWaitingForAuth, ReasonEvalCandidateUnaddressable, ReasonEvalBindingUnsupported}" for b d
    using blockedRow_hold by fastforce
  show ?thesis
    unfolding pendingRows_def Let_def
    by (auto simp: noVerdictRows_hold split: option.split dest!: b)
qed

text \<open>When nothing is left to wait for: \<open>EvalRunning\<close> read back.\<close>

definition clear_to_run :: "gateInput \<Rightarrow> bool" where
  "clear_to_run inp \<longleftrightarrow> hasCardFor (gi_status inp) (gi_desiredDigest inp) \<and> gi_available inp \<and>
     (recordedTransaction (gi_status inp) = None \<or>
      (fst (exemptTransaction (gi_status inp)) \<and>
       (\<exists>e. st_Eval (gi_status inp) = Some e \<and>
          blockedForMatches (es_BlockedFor e) (gi_desiredDigest inp) (gi_suiteDigest inp) (gi_status inp)))) \<and>
     (\<forall>e b. st_Eval (gi_status inp) = Some e \<and> es_Blocked e = Some b \<and>
        blockedForMatches (es_BlockedFor e) (gi_desiredDigest inp) (gi_suiteDigest inp) (gi_status inp) \<longrightarrow>
        eb_Reason b \<notin> {ReasonEvalCandidateUnaddressable, ReasonEvalBindingUnsupported, ReasonEvalAwaitingCard,
          ReasonEvalWaitingForAuth})"

lemma pendingRows_running:
  "gd_reason (pendingRows inp rv pair) = ReasonEvalRunning \<longleftrightarrow> clear_to_run inp"
  by (cases "st_Eval (gi_status inp)"; cases "recordedTransaction (gi_status inp)")
    (auto simp: pendingRows_def clear_to_run_def Let_def noVerdictRows_hold blockedRow_def split: option.split)

lemma gate_frame:
  "wedgeNeedsRoute (st\<lparr> st_Eval := e \<rparr>) = wedgeNeedsRoute st"
  "recordedLockDeadline (st\<lparr> st_Eval := e \<rparr>) = recordedLockDeadline st"
  "blockedForMatches bf r s (st\<lparr> st_Eval := e \<rparr>) = blockedForMatches bf r s st"
proof -
  show l: "recordedLockDeadline (st\<lparr> st_Eval := e \<rparr>) = recordedLockDeadline st"
    by (simp add: recordedLockDeadline_def status_frame)
  show "wedgeNeedsRoute (st\<lparr> st_Eval := e \<rparr>) = wedgeNeedsRoute st"
    by (simp add: wedgeNeedsRoute_def status_frame split: option.split)
  show "blockedForMatches bf r s (st\<lparr> st_Eval := e \<rparr>) = blockedForMatches bf r s st"
    by (simp add: blockedForMatches_def l split: option.split)
qed

section \<open>Properties of the gate\<close>

definition sample_input :: "EvalStatus option \<Rightarrow> string \<Rightarrow> gateInput" where
  "sample_input ev cardDigest = \<lparr> gi_desired = ''r1'', gi_desiredDigest = ''d1'', gi_namespace = ''team'',
     gi_suiteName = ''suite'', gi_missing = [], gi_recordErr = None,
     gi_suite = Some (sample_suite [''a''] ''1'' 10), gi_suiteErr = None, gi_digestErr = False, gi_suiteDigest = ''s1'',
     gi_status = zero_status\<lparr> st_Eval := ev, st_Cards := upsertCard [] (sample_card cardDigest) ''d1'' \<rparr>,
     gi_available = True, gi_now = 0, gi_agentName = Some ''agent'', gi_runNS = ''run'', gi_route = None \<rparr>"

definition sample_eval :: "EvalVerdict \<Rightarrow> EvalStatus" where
  "sample_eval v = zero_eval\<lparr> es_RevisionDigest := ''d1'', es_SuiteDigest := ''s1'', es_Verdict := v \<rparr>"

lemma gate_open_iff:
  "(gd_satisfied (decideGate inp) \<longleftrightarrow>
     gi_recordErr inp = None \<and> gi_missing inp = [] \<and> gi_suiteErr inp = None \<and> \<not> gi_digestErr inp \<and>
     (\<exists>e. st_Eval (gi_status inp) = Some e \<and> es_Verdict e = EvalVerdictPassed \<and>
        es_RevisionDigest e = gi_desiredDigest inp \<and> es_SuiteDigest e = gi_suiteDigest inp) \<and>
     hasCardFor (gi_status inp) (gi_desiredDigest inp)) \<and>
   (gd_satisfied (decideGate inp) \<or> gd_reason (decideGate inp) \<noteq> [] \<and> gd_readyReason (decideGate inp) \<noteq> [])"
proof -
  have s: "schemaRows inp rv = Some d \<Longrightarrow> \<not> gd_satisfied d \<and> gd_reason d \<noteq> [] \<and> gd_readyReason d \<noteq> []" for rv d
    using schemaRows_hold by fastforce
  have f: "failedRows inp pair = Some d \<Longrightarrow> \<not> gd_satisfied d \<and> gd_reason d \<noteq> [] \<and> gd_readyReason d \<noteq> []" for pair d
    using failedRows_hold by fastforce
  have p: "\<not> gd_satisfied (pendingRows inp rv pair) \<and> gd_reason (pendingRows inp rv pair) \<noteq> [] \<and>
      gd_readyReason (pendingRows inp rv pair) \<noteq> []" for rv pair
    using pendingRows_hold [of inp rv pair] by auto
  show ?thesis
  proof (cases "schemaRows inp (msgf ''revision'' [gi_desired inp, gi_desiredDigest inp])")
    case (Some d)
    then have "\<not> (gi_recordErr inp = None \<and> gi_missing inp = [] \<and> gi_suiteErr inp = None \<and> \<not> gi_digestErr inp)"
      by (simp flip: schemaRows_None [of inp "msgf ''revision'' [gi_desired inp, gi_desiredDigest inp]"])
    moreover have "decideGate inp = d" using Some by (simp add: decideGate_def Let_def)
    ultimately show ?thesis using s [OF Some] by auto
  next
    case None
    note ok = None [unfolded schemaRows_None]
    show ?thesis
      using None ok p
      by (auto simp: decideGate_def Let_def eval_pair_is_def split: option.split dest!: f)
  qed
qed

text \<open>
  C14. Nothing is promoted past the gate without a verdict: the gate is satisfied exactly when the
  installed CRD keeps the eval record, the suite was read and digested this pass, status.eval
  records a Passed verdict for precisely this revision digest and this suite digest, and a card
  digest is recorded for the revision. Every other input holds, with a reason for GatesPassed and
  one for Ready.
\<close>

theorem decideGate_satisfied_iff:
  "(gd_satisfied (decideGate inp) \<longleftrightarrow>
     gi_recordErr inp = None \<and> gi_missing inp = [] \<and> gi_suiteErr inp = None \<and> \<not> gi_digestErr inp \<and>
     (\<exists>e. st_Eval (gi_status inp) = Some e \<and> es_Verdict e = EvalVerdictPassed \<and>
        es_RevisionDigest e = gi_desiredDigest inp \<and> es_SuiteDigest e = gi_suiteDigest inp) \<and>
     hasCardFor (gi_status inp) (gi_desiredDigest inp)) \<and>
   (gd_satisfied (decideGate inp) \<or> gd_reason (decideGate inp) \<noteq> [] \<and> gd_readyReason (decideGate inp) \<noteq> [])"
  by (rule gate_open_iff)

text \<open>
  EvalRunning is reported exactly while the eval controller may claim the next case: the schema
  rows pass, the pair is neither passed nor failed, the candidate's card is recorded and the
  candidate available, no transaction stands in the way or an exempt Lock's clause 5 was evaluated
  for this very pair and Lock, and no applicable block is recorded. In the exempt state an
  unevaluated clause 5 never reads as running.
\<close>

theorem decideGate_running_iff:
  "gd_reason (decideGate inp) = ReasonEvalRunning \<longleftrightarrow>
     schemaRows inp (msgf ''revision'' [gi_desired inp, gi_desiredDigest inp]) = None \<and>
     (\<forall>e. st_Eval (gi_status inp) = Some e \<longrightarrow>
        \<not> (eval_pair_is e inp \<and> es_Verdict e \<in> {EvalVerdictPassed, EvalVerdictFailed}) \<and>
        \<not> pairFailed (es_Failed e) (gi_desiredDigest inp) (gi_suiteDigest inp)) \<and>
     clear_to_run inp"
proof -
  let ?rv = "msgf ''revision'' [gi_desired inp, gi_desiredDigest inp]"
  have s: "schemaRows inp rv = Some d \<Longrightarrow> gd_reason d \<noteq> ReasonEvalRunning" for rv d
    using schemaRows_hold by fastforce
  have f: "failedRows inp pair = Some d \<Longrightarrow> gd_reason d \<noteq> ReasonEvalRunning" for pair d
    using failedRows_hold by fastforce
  have n: "failedRows inp pair = None \<longleftrightarrow> (\<forall>e. st_Eval (gi_status inp) = Some e \<longrightarrow>
      \<not> (eval_pair_is e inp \<and> es_Verdict e = EvalVerdictFailed) \<and>
      \<not> pairFailed (es_Failed e) (gi_desiredDigest inp) (gi_suiteDigest inp))" for pair
    by (auto simp: failedRows_def split: option.split)
  show ?thesis
  proof (cases "schemaRows inp ?rv")
    case (Some d)
    then show ?thesis using s [OF Some] by (simp add: decideGate_def Let_def)
  next
    case None
    let ?pair = "msgf ''against suite'' [?rv, gi_suiteName inp, gi_suiteDigest inp]"
    show ?thesis
    proof (cases "failedRows inp ?pair")
      case (Some d)
      then show ?thesis using f [OF Some] n [of ?pair] None
        by (auto simp: decideGate_def Let_def pendingRows_running split: option.split)
    next
      case no_fail: None
      then show ?thesis
        using n [of ?pair] None pendingRows_running [of inp ?rv ?pair]
        by (auto simp: decideGate_def Let_def split: option.split)
    qed
  qed
qed

theorem decideGate_running_iff_witness:
  "gd_reason (decideGate (sample_input (Some (sample_eval EvalVerdictRunning)) ''c1'')) = ReasonEvalRunning"
  unfolding decideGate_running_iff
  by (simp add: sample_input_def sample_eval_def zero_eval_def schemaRows_def clear_to_run_def
      recordedTransaction_def authTransaction_def zero_status_def hasCardFor_def cardEntry_def
      upsertCard_def card_for_def sample_card_def pairFailed_def)

text \<open>
  While a run goes on, an eval patch that records a case changes nothing the gate says: for an
  available candidate with no final verdict, the whole decision, message included, is the same
  whatever status.eval.cases holds, so the Agent reconciler's status write stays a no-op.
\<close>

theorem decideGate_ignores_cases:
  assumes "gi_available inp" "st_Eval (gi_status inp) = Some e" "es_Verdict e \<noteq> EvalVerdictFailed"
  shows "decideGate (inp\<lparr> gi_status := (gi_status inp)\<lparr> st_Eval := Some (e\<lparr> es_Cases := cs \<rparr>) \<rparr> \<rparr>) = decideGate inp"
proof -
  let ?i = "inp\<lparr> gi_status := (gi_status inp)\<lparr> st_Eval := Some (e\<lparr> es_Cases := cs \<rparr>) \<rparr> \<rparr>"
  let ?st = "(gi_status inp)\<lparr> st_Eval := Some (e\<lparr> es_Cases := cs \<rparr>) \<rparr>"
  note frame = gate_frame [where st = "gi_status inp" and e = "Some (e\<lparr> es_Cases := cs \<rparr>)"] status_frame
  have "schemaRows ?i rv = schemaRows inp rv" "eval_pair_is (e\<lparr> es_Cases := cs \<rparr>) ?i = eval_pair_is e inp" for rv
    by (simp_all add: schemaRows_def eval_pair_is_def split: option.split)
  moreover have "failedRows ?i pair = failedRows inp pair" for pair
    using assms by (simp add: failedRows_def eval_pair_is_def)
  moreover have "waitingMessage ?i tx why pair = waitingMessage inp tx why pair" for tx why pair
    by (simp add: waitingMessage_def wedgeExits_def frame split: option.split)
  moreover have "noVerdictRows ?i pair = noVerdictRows inp pair" for pair
    using assms(1) by (simp add: noVerdictRows_def)
  moreover have "blockedRow ?i pair b = blockedRow inp pair b" for pair b by (simp add: blockedRow_def)
  ultimately have "pendingRows ?i rv pair = pendingRows inp rv pair" for rv pair
    using assms(2) by (simp add: pendingRows_def Let_def frame split: option.split)
  with assms \<open>\<And>rv. schemaRows ?i rv = schemaRows inp rv\<close> \<open>\<And>pair. failedRows ?i pair = failedRows inp pair\<close>
    \<open>eval_pair_is (e\<lparr> es_Cases := cs \<rparr>) ?i = eval_pair_is e inp\<close>
  show ?thesis by (simp add: decideGate_def Let_def frame split: option.split)
qed

theorem decideGate_ignores_cases_witness:
  "decideGate ((sample_input (Some (sample_eval EvalVerdictRunning)) ''c1'')\<lparr> gi_status :=
       (gi_status (sample_input (Some (sample_eval EvalVerdictRunning)) ''c1''))\<lparr> st_Eval :=
         Some ((sample_eval EvalVerdictRunning)\<lparr> es_Cases :=
           [\<lparr> ec_ID = ''a'', ec_Outcome = EvalCasePassed, ec_Reason = [], ec_Claim = ''x'' \<rparr>] \<rparr>) \<rparr> \<rparr>) =
   decideGate (sample_input (Some (sample_eval EvalVerdictRunning)) ''c1'')"
  by (rule decideGate_ignores_cases) (simp_all add: sample_input_def sample_eval_def zero_eval_def)

text \<open>
  A failed pair stays failed: once status.eval.failed records the pair of this revision and
  suite, the gate never reports the candidate as running or paused; unless a Passed verdict is
  recorded for the very same pair, it holds, and past the schema rows it holds as failed.
\<close>

theorem decideGate_failed_pair_final:
  assumes "st_Eval (gi_status inp) = Some e"
    and "pairFailed (es_Failed e) (gi_desiredDigest inp) (gi_suiteDigest inp)"
    and "\<not> (eval_pair_is e inp \<and> es_Verdict e = EvalVerdictPassed)"
  shows "\<not> gd_satisfied (decideGate inp) \<and>
    gd_reason (decideGate inp) \<in> {ReasonEvalRecordUnverifiable, ReasonEvalRecordNotKept, ReasonEvalSuiteNotFound,
      ReasonEvalSuiteUnreadable, ReasonEvalFailed, ReasonEvalPairAlreadyFailed} \<and>
    (schemaRows inp (msgf ''revision'' [gi_desired inp, gi_desiredDigest inp]) = None \<longrightarrow>
       gd_readyReason (decideGate inp) = ReasonEvalFailed)"
proof (cases "schemaRows inp (msgf ''revision'' [gi_desired inp, gi_desiredDigest inp])")
  case None
  have "failedRows inp pair \<noteq> None" for pair using assms by (simp add: failedRows_def)
  then obtain d where d: "failedRows inp (msgf ''against suite'' [msgf ''revision'' [gi_desired inp, gi_desiredDigest inp],
      gi_suiteName inp, gi_suiteDigest inp]) = Some d" by blast
  with None assms have "decideGate inp = d" by (auto simp: decideGate_def Let_def)
  with failedRows_hold [OF d] None show ?thesis by auto
next
  case (Some d)
  then have "decideGate inp = d" by (simp add: decideGate_def Let_def)
  with schemaRows_hold [OF Some] Some show ?thesis by auto
qed

theorem decideGate_failed_pair_final_witness:
  "gd_readyReason (decideGate (sample_input (Some ((sample_eval EvalVerdictRunning)\<lparr> es_Failed :=
     [\<lparr> ep_RevisionDigest = ''d1'', ep_SuiteDigest = ''s1'' \<rparr>] \<rparr>)) ''c1'')) = ReasonEvalFailed"
  using decideGate_failed_pair_final [of "sample_input (Some ((sample_eval EvalVerdictRunning)\<lparr> es_Failed :=
     [\<lparr> ep_RevisionDigest = ''d1'', ep_SuiteDigest = ''s1'' \<rparr>] \<rparr>)) ''c1''"]
  by (simp add: sample_input_def sample_eval_def zero_eval_def pairFailed_def schemaRows_def)

text \<open>
  The schema check is exact and its cache fails closed. A CRD is found to keep the record if and
  only if its v1alpha1 schema carries every field of the eval record under status.eval and the
  claim under its cases. The cached check answers with an error only while no answer was ever
  obtained, never reads the CRD within the TTL, and after a successful read answers from it.
\<close>

theorem evalRecord_check_exact:
  "(evalRecordMissingFrom versions = [] \<longleftrightarrow>
     (\<exists>ev. crd_eval versions = Some ev \<and> (\<forall>f \<in> set evalRecordFields. map_of (sch_props ev) f \<noteq> None) \<and>
        (\<exists>cs it. map_of (sch_props ev) ''cases'' = Some cs \<and> sch_items cs = Some it \<and>
           map_of (sch_props it) ''claim'' \<noteq> None))) \<and>
   (fst (evalRecordMissing ttl now (Inl err) c) = (if rc_warmed c then Inr (rc_missing c) else Inl err)) \<and>
   (rc_warmed c \<and> now - rc_checked c < (if ttl = 0 then 30 * second else ttl) \<longrightarrow>
      evalRecordMissing ttl now got c = (Inr (rc_missing c), c)) \<and>
   (\<not> (rc_warmed c \<and> now - rc_checked c < (if ttl = 0 then 30 * second else ttl)) \<longrightarrow>
      evalRecordMissing ttl now (Inr versions) c = (Inr (evalRecordMissingFrom versions),
        \<lparr> rc_warmed = True, rc_checked = now, rc_missing = evalRecordMissingFrom versions, rc_failing = False \<rparr>))"
proof -
  have "evalRecordMissingFrom versions = [] \<longleftrightarrow>
     (\<exists>ev. crd_eval versions = Some ev \<and> (\<forall>f \<in> set evalRecordFields. map_of (sch_props ev) f \<noteq> None) \<and>
        (\<exists>cs it. map_of (sch_props ev) ''cases'' = Some cs \<and> sch_items cs = Some it \<and>
           map_of (sch_props it) ''claim'' \<noteq> None))"
    by (cases "crd_eval versions")
      (auto simp: evalRecordMissingFrom_def evalRecordFields_def field_missing_def split: option.splits if_splits)
  then show ?thesis by (simp add: evalRecordMissing_def Let_def)
qed

definition sample_crd :: "crd_version list" where
  "sample_crd = [\<lparr> cv_Name = ''v1alpha1'', cv_Schema = Some (Schema [(''status'', Schema [(''eval'',
     Schema (map (\<lambda>f. (f, Schema [] (Some (Schema [(''claim'', Schema [] None)] None)))) evalRecordFields) None)] None)] None) \<rparr>]"

theorem evalRecord_check_exact_witness:
  "evalRecordMissingFrom sample_crd = [] \<and>
   fst (evalRecordMissing 0 0 (Inr sample_crd) \<lparr> rc_warmed = False, rc_checked = 0, rc_missing = [], rc_failing = False \<rparr>) = Inr []"
proof -
  have "evalRecordMissingFrom sample_crd = []"
    using evalRecord_check_exact [of sample_crd]
    by (simp add: sample_crd_def evalRecordFields_def crd_eval_def)
  then show ?thesis by (simp add: evalRecordMissing_def Let_def)
qed

text \<open>
  The pin rule. On a gated Agent a resolved pin that is not serving is refused exactly when it
  names the revision the current spec mints, or the suite was read and failed[] records the pin
  against that suite's digest; an unreadable suite never blocks a rollback to another revision, and
  a pin to the revision serving is never refused.
\<close>

theorem pinRule_refuses_iff:
  "((\<exists>why. pinRule got agent status pin specDigest = Inl why) \<longleftrightarrow>
     pin \<noteq> st_ActiveRevisionDigest status \<and>
     (pin = specDigest \<or>
      (\<exists>s e. got = Inr s \<and> st_Eval status = Some e \<and> pairFailed (es_Failed e) pin (suite_Digest s))))"
proof -
  have "suite_Digest s \<noteq> []" for s by (simp add: suite_Digest_def)
  then show ?thesis
    by (auto simp: pinRule_def pinIneligible_def Let_def split: sum.split option.split)
qed

text \<open>
  Clause 5 holds whenever anything on the Gateway or the route cannot be ruled out: the hold is
  absent exactly when the Gateway was read, its policies were listed and none targets it, it admits
  no ListenerSets, and the run namespace's policies were listed and none is foreign. A hold always
  reads as waiting for auth.
\<close>

theorem clause5Hold_None_iff:
  "(clause5Hold gw runNS rt abv foreign ferr = None \<longleftrightarrow>
     ga_gatewayErr abv = None \<and> ga_listErr abv = None \<and> ga_policies abv = [] \<and> ga_listeners abv = [] \<and>
     ferr = None \<and> foreign = []) \<and>
   (\<forall>b. clause5Hold gw runNS rt abv foreign ferr = Some b \<longrightarrow> eb_Reason b = ReasonEvalWaitingForAuth)"
  by (auto simp: clause5Hold_def Let_def split: option.split)

theorem clause5Hold_None_iff_witness:
  "\<exists>b. clause5Hold \<lparr> gw_Enabled = True, gw_Name = ''main'', gw_Namespace = ''gw'', gw_HostnameSuffix = [], gw_ServingURL = [] \<rparr> ''run'' ''a-serving''
     \<lparr> ga_policies = [], ga_widening = [], ga_unlisted = False, ga_gatewayErr = None, ga_listErr = None, ga_listeners = ''All'', ga_unreadable = [] \<rparr> [] None = Some b \<and>
     eb_Reason b = ReasonEvalWaitingForAuth"
  using clause5Hold_None_iff [of "\<lparr> gw_Enabled = True, gw_Name = ''main'', gw_Namespace = ''gw'', gw_HostnameSuffix = [], gw_ServingURL = [] \<rparr>" "''run''" "''a-serving''"
     "\<lparr> ga_policies = [], ga_widening = [], ga_unlisted = False, ga_gatewayErr = None, ga_listErr = None, ga_listeners = ''All'', ga_unreadable = [] \<rparr>" "[]" None]
  by auto

end
