(* ===== verification/Eval_Run.thy ===== *)
theory Eval_Run
  imports Gate "HOL-Library.Sublist"
begin

text \<open>
  The record of an eval run and every edit of it: the helpers and the edit closures of
  \<^verbatim>\<open>internal/controller/evalcontroller.go\<close>. What a pass sees of the run is the record \<open>evalRun\<close>; each
  closure the eval controller hands to \<^verbatim>\<open>patchEval\<close> is a function on the stored \<open>EvalStatus\<close>.

  \<open>appendPassed\<close> evicts in a loop that ends only while some entry names another revision than the
  active one, so it is a partial function: \<open>None\<close> is a call that does not return.
\<close>

section \<open>Pairs\<close>

abbreviation (input) maxFailedPairs :: nat where "maxFailedPairs \<equiv> 10"
abbreviation (input) maxPassedPairs :: nat where "maxPassedPairs \<equiv> 10"
abbreviation (input) MaxEndpointPathLength :: nat where "MaxEndpointPathLength \<equiv> 1024"

definition appendFailed :: "EvalPair list \<Rightarrow> EvalPair \<Rightarrow> EvalPair list" where
  "appendFailed failed_pairs p = append_capped maxFailedPairs failed_pairs p"

definition removePassed :: "EvalPair list \<Rightarrow> string \<Rightarrow> EvalPair list" where
  "removePassed passed revisionDigest = filter (\<lambda>x. ep_RevisionDigest x \<noteq> revisionDigest) passed"

text \<open>One round of the eviction loop: the first entry of another revision than \<open>active\<close> goes.\<close>

fun evict_one :: "string \<Rightarrow> EvalPair list \<Rightarrow> EvalPair list" where
  "evict_one active [] = []"
| "evict_one active (x # xs) = (if ep_RevisionDigest x \<noteq> active then xs else x # evict_one active xs)"

partial_function (option) evict :: "string \<Rightarrow> EvalPair list \<Rightarrow> EvalPair list option" where
  "evict active out = (if length out > maxPassedPairs then evict active (evict_one active out) else Some out)"

definition appendPassed :: "EvalPair list \<Rightarrow> EvalPair \<Rightarrow> string \<Rightarrow> EvalPair list option" where
  "appendPassed passed p active = evict active (removePassed passed (ep_RevisionDigest p) @ [p])"

definition failedOf :: "EvalStatus option \<Rightarrow> EvalPair list" where
  "failedOf e = (case e of None \<Rightarrow> [] | Some x \<Rightarrow> es_Failed x)"

section \<open>Cases\<close>

definition withCase :: "EvalCaseRecord list \<Rightarrow> EvalCaseRecord \<Rightarrow> EvalCaseRecord list" where
  "withCase cases c = sort_key ec_ID (filter (\<lambda>x. ec_ID x \<noteq> ec_ID c) cases @ [c])"

definition suiteIDs :: "EvalSuiteSpec \<Rightarrow> string list" where
  "suiteIDs s = sort (map ca_ID (ds_Cases (su_Dataset s)))"

definition suiteCase :: "EvalSuiteSpec \<Rightarrow> string \<Rightarrow> EvalCase option" where
  "suiteCase s i = find (\<lambda>c. ca_ID c = i) (ds_Cases (su_Dataset s))"

section \<open>The run\<close>

record evalRun =
  er_agent :: Agent
  er_suiteName :: string
  er_suite :: EvalSuiteSpec
  er_suiteDigest :: string
  er_threshold :: int
  er_runNS :: string
  er_revision :: string
  er_revisionDigest :: string

definition run_status :: "evalRun \<Rightarrow> AgentStatus" where
  "run_status run = ag_Status (er_agent run)"

definition blockedFor :: "evalRun \<Rightarrow> EvalBlockedFor" where
  "blockedFor run = \<lparr> bf_RevisionDigest = er_revisionDigest run, bf_SuiteDigest = er_suiteDigest run,
     bf_LockDeadline = recordedLockDeadline (run_status run) \<rparr>"

definition equalBlocked :: "EvalBlocked option \<Rightarrow> EvalBlocked option \<Rightarrow> bool" where
  "equalBlocked a b = (case (a, b) of (Some x, Some y) \<Rightarrow> x = y | _ \<Rightarrow> a = None \<and> b = None)"

definition equalBlockedFor :: "EvalBlockedFor option \<Rightarrow> EvalBlockedFor option \<Rightarrow> bool" where
  "equalBlockedFor a b = (case (a, b) of
     (Some x, Some y) \<Rightarrow>
       if bf_RevisionDigest x \<noteq> bf_RevisionDigest y \<or> bf_SuiteDigest x \<noteq> bf_SuiteDigest y then False
       else (case (bf_LockDeadline x, bf_LockDeadline y) of
               (Some s, Some t) \<Rightarrow> s = t
             | (s, t) \<Rightarrow> s = None \<and> t = None)
   | _ \<Rightarrow> a = None \<and> b = None)"

definition has_outcome :: "EvalCaseRecord list \<Rightarrow> string \<Rightarrow> bool" where
  "has_outcome cases i = (case caseRecord cases i of None \<Rightarrow> False | Some c \<Rightarrow> outcomeRecorded (ec_Outcome c))"

definition has_passed :: "EvalCaseRecord list \<Rightarrow> string \<Rightarrow> bool" where
  "has_passed cases i = (case caseRecord cases i of None \<Rightarrow> False | Some c \<Rightarrow> ec_Outcome c = EvalCasePassed)"

definition withOutcome :: "evalRun \<Rightarrow> go_time \<Rightarrow> string \<Rightarrow> string \<Rightarrow> EvalCaseOutcome \<Rightarrow> string
    \<Rightarrow> EvalStatus \<Rightarrow> EvalStatus" where
  "withOutcome run now i claim outcome reason e0 =
     (let e = e0\<lparr> es_Cases := withCase (es_Cases e0)
                    \<lparr> ec_ID = i, ec_Outcome = outcome, ec_Reason = reason, ec_Claim = claim \<rparr> \<rparr>;
          ids = suiteIDs (er_suite run);
          n_done = length (filter (has_outcome (es_Cases e)) ids);
          n_passed = length (filter (\<lambda>s. has_outcome (es_Cases e) s \<and> has_passed (es_Cases e) s) ids);
          n = length (ds_Cases (su_Dataset (er_suite run))) in
      if n_done < n then e
      else let e = e\<lparr> es_Score := itoa (int n_passed) @ ''/'' @ itoa (int n), es_At := Some now,
                      es_Verdict := EvalVerdictPassed \<rparr> in
           if \<not> Passes (int n_passed) (int n) (er_threshold run)
           then e\<lparr> es_Verdict := EvalVerdictFailed,
                   es_Failed := appendFailed (es_Failed e)
                     \<lparr> ep_RevisionDigest = er_revisionDigest run, ep_SuiteDigest = er_suiteDigest run \<rparr>,
                   es_Passed := removePassed (es_Passed e) (er_revisionDigest run) \<rparr>
           else e)"

section \<open>The other edits\<close>

definition claimEdit :: "string \<Rightarrow> string \<Rightarrow> EvalStatus \<Rightarrow> EvalStatus" where
  "claimEdit i nonce e = e\<lparr> es_Cases := withCase (es_Cases e)
     \<lparr> ec_ID = i, ec_Outcome = EvalCaseSending, ec_Reason = [], ec_Claim = nonce \<rparr> \<rparr>"

definition clearEdit :: "EvalStatus \<Rightarrow> EvalStatus" where
  "clearEdit e = e\<lparr> es_Verdict := NoVerdict, es_Cases := [], es_Score := [], es_At := None \<rparr>"

definition blockedEdit :: "EvalBlocked option \<Rightarrow> EvalBlockedFor \<Rightarrow> EvalStatus option \<Rightarrow> EvalStatus" where
  "blockedEdit b want e = (case e of None \<Rightarrow> zero_eval | Some x \<Rightarrow> x)\<lparr> es_Blocked := b, es_BlockedFor := Some want \<rparr>"

definition startRecord :: "evalRun \<Rightarrow> string \<Rightarrow> string \<Rightarrow> EvalStatus" where
  "startRecord run path cardDigest = zero_eval\<lparr> es_Suite := er_suiteName run, es_Revision := er_revision run,
     es_RevisionDigest := er_revisionDigest run, es_SuiteDigest := er_suiteDigest run,
     es_EndpointPath := path, es_CardDigest := cardDigest, es_Verdict := EvalVerdictRunning,
     es_BlockedFor := Some (blockedFor run) \<rparr>"

definition startEdit :: "EvalStatus \<Rightarrow> string \<Rightarrow> EvalStatus option \<Rightarrow> EvalStatus option" where
  "startEdit want active e = (case e of
     None \<Rightarrow> Some want
   | Some x \<Rightarrow>
     (let nxt = want\<lparr> es_Failed := es_Failed x, es_Passed := es_Passed x \<rparr> in
      if es_Verdict x = EvalVerdictPassed \<and> es_RevisionDigest x \<noteq> []
      then map_option (\<lambda>ps. nxt\<lparr> es_Passed := ps \<rparr>) (appendPassed (es_Passed x)
             \<lparr> ep_RevisionDigest = es_RevisionDigest x, ep_SuiteDigest = es_SuiteDigest x \<rparr> active)
      else Some nxt))"

section \<open>Refusals\<close>

definition unaddressable :: "string \<Rightarrow> EvalBlocked" where
  "unaddressable fault = \<lparr> eb_Reason = ReasonEvalCandidateUnaddressable,
     eb_Message = msgf ''the eval controller cannot derive an address to send a case to'' [fault] \<rparr>"

definition bindingRefusal :: "string \<Rightarrow> string" where
  "bindingRefusal msg = ''the candidate's card cannot be sent a case: '' @ msg"

definition checkEndpointPath :: "string \<Rightarrow> string option" where
  "checkEndpointPath path =
     (if rune_count path > MaxEndpointPathLength
      then Some (bindingRefusal (msgf ''the endpoint path is too long'' [itoa (int (rune_count path)), itoa (int MaxEndpointPathLength)]))
      else if \<not> has_prefix path ''/''
      then Some (bindingRefusal (msgf ''the endpoint does not begin with a slash'' []))
      else None)"

definition shortDigest :: "string \<Rightarrow> string" where
  "shortDigest d = (if length d > 12 then take 12 d else d)"

section \<open>Facts on cases\<close>

lemma find_hd_filter: "find P xs = (case filter P xs of [] \<Rightarrow> None | x # _ \<Rightarrow> Some x)"
  by (induction xs) auto

lemma find_sort_key: "find (\<lambda>x. f x = k) (sort_key f xs) = find (\<lambda>x. f x = k) xs"
  by (simp add: find_hd_filter sort_key_stable)

lemma caseRecord_withCase:
  "caseRecord (withCase cases c) i = (if i = ec_ID c then Some c else caseRecord cases i)"
proof -
  have "filter (\<lambda>x. ec_ID x = i) (filter (\<lambda>x. ec_ID x \<noteq> ec_ID c) cases) =
      (if i = ec_ID c then [] else filter (\<lambda>x. ec_ID x = i) cases)"
    by (induction cases) auto
  then show ?thesis
    unfolding caseRecord_def withCase_def find_sort_key by (simp add: find_hd_filter split: list.split)
qed

interpretation recorded_cases: keyed_record caseRecord "\<lambda>i c cases. withCase cases (c\<lparr> ec_ID := i \<rparr>)" "\<lambda>i c. c\<lparr> ec_ID := i \<rparr>"
  by unfold_locales (simp_all add: caseRecord_withCase)

definition cases_ok :: "EvalCaseRecord list \<Rightarrow> bool" where
  "cases_ok cases \<longleftrightarrow> sorted (map ec_ID cases) \<and> distinct (map ec_ID cases)"

lemma distinct_map_sort_key: "distinct (map f (sort_key g xs)) = distinct (map f xs)"
  using mset_map [of f "sort_key g xs"] mset_map [of f xs] mset_eq_imp_distinct_iff by (metis mset_sort)

lemma withCase_ok: "cases_ok cases \<Longrightarrow> cases_ok (withCase cases c)"
  unfolding cases_ok_def withCase_def distinct_map_sort_key
  by (auto simp: distinct_map_filter)

lemma caseRecord_ID: "caseRecord cases i = Some c \<Longrightarrow> ec_ID c = i \<and> c \<in> set cases"
  by (auto simp: caseRecord_def find_Some_iff)

lemma caseRecord_None: "caseRecord cases i = None \<longleftrightarrow> i \<notin> ec_ID ` set cases"
  by (auto simp: caseRecord_def find_None_iff)

lemma set_withCase_IDs: "ec_ID ` set (withCase cases c) = insert (ec_ID c) (ec_ID ` set cases)"
  by (auto simp: withCase_def)

lemma suiteIDs_set [simp]: "set (suiteIDs s) = ca_ID ` set (ds_Cases (su_Dataset s))"
  "length (suiteIDs s) = length (ds_Cases (su_Dataset s))"
  by (simp_all add: suiteIDs_def)

lemma suiteCase_ID: "suiteCase s i = Some c \<Longrightarrow> ca_ID c = i \<and> c \<in> set (ds_Cases (su_Dataset s))"
  by (auto simp: suiteCase_def find_Some_iff)

lemma suiteCase_total: "i \<in> set (suiteIDs s) \<Longrightarrow> \<exists>c. suiteCase s i = Some c"
  by (auto simp: suiteCase_def find_None_iff not_None_eq [symmetric] simp del: not_None_eq)

section \<open>Facts on pairs\<close>

interpretation failed_log: bounded_log "\<lambda>p ps. appendFailed ps p" 10 "\<lambda>_. True"
  by unfold_locales (auto simp: appendFailed_def length_append_capped append_capped_newest
      dest: subsetD [OF set_append_capped])

definition passed_ok :: "EvalPair list \<Rightarrow> bool" where
  "passed_ok ps \<longleftrightarrow> distinct (map ep_RevisionDigest ps) \<and> length ps \<le> maxPassedPairs"

lemma removePassed_ok: "passed_ok ps \<Longrightarrow> passed_ok (removePassed ps d)"
  unfolding passed_ok_def removePassed_def
  by (auto simp: distinct_map_filter intro: order_trans [OF length_filter_le])

lemma evict_one_length:
  "length (evict_one active ps) = (if \<exists>p \<in> set ps. ep_RevisionDigest p \<noteq> active then length ps - 1 else length ps)"
  by (induction ps) (auto simp: Suc_diff_1 dest: length_pos_if_in_set)

lemma evict_one_stuck: "\<forall>p \<in> set ps. ep_RevisionDigest p = active \<Longrightarrow> evict_one active ps = ps"
  by (induction ps) auto

lemma evict_one_filter:
  "filter (\<lambda>p. ep_RevisionDigest p = active) (evict_one active ps) = filter (\<lambda>p. ep_RevisionDigest p = active) ps"
  by (induction ps) auto

lemma evict_one_subseq: "subseq (evict_one active ps) ps"
  by (induction ps) auto

text \<open>The loop returns exactly when at most ten entries name the active revision.\<close>

lemma evict_returns:
  assumes "length (filter (\<lambda>p. ep_RevisionDigest p = active) ps) \<le> 10"
  shows "\<exists>out. evict active ps = Some out \<and> subseq out ps \<and>
    filter (\<lambda>p. ep_RevisionDigest p = active) out = filter (\<lambda>p. ep_RevisionDigest p = active) ps \<and>
    length out = min 10 (length ps)"
  using assms
proof (induction "length ps" arbitrary: ps rule: less_induct)
  case less
  show ?case
  proof (cases "length ps > 10")
    case False
    then show ?thesis by (subst evict.simps) auto
  next
    case True
    have "\<exists>p \<in> set ps. ep_RevisionDigest p \<noteq> active"
    proof (rule ccontr)
      assume "\<not> ?thesis"
      then have "filter (\<lambda>p. ep_RevisionDigest p = active) ps = ps" by (simp add: filter_id_conv)
      with less.prems True show False by simp
    qed
    then have len: "length (evict_one active ps) = length ps - 1" by (simp add: evict_one_length)
    with True have "length (evict_one active ps) < length ps" by linarith
    then obtain out where
      out: "evict active (evict_one active ps) = Some out" "subseq out (evict_one active ps)"
      "filter (\<lambda>p. ep_RevisionDigest p = active) out = filter (\<lambda>p. ep_RevisionDigest p = active) ps"
      "length out = min 10 (length ps - 1)"
      using less.hyps [of "evict_one active ps"] less.prems len by (simp add: evict_one_filter) blast
    moreover have "subseq out ps" by (rule subseq_order.trans [OF out(2) evict_one_subseq])
    ultimately show ?thesis using True by (subst evict.simps) simp
  qed
qed

lemma evict_Some_bound:
  "evict active ps = Some out \<Longrightarrow> length (filter (\<lambda>p. ep_RevisionDigest p = active) ps) \<le> 10"
proof (erule evict.raw_induct [rotated])
  fix loop :: "string \<Rightarrow> EvalPair list \<Rightarrow> EvalPair list option" and active ps out
  assume ih: "\<And>active ps out. loop active ps = Some out \<Longrightarrow> length (filter (\<lambda>p. ep_RevisionDigest p = active) ps) \<le> 10"
    and step: "(if length ps > 10 then loop active (evict_one active ps) else Some ps) = Some out"
  show "length (filter (\<lambda>p. ep_RevisionDigest p = active) ps) \<le> 10"
  proof (cases "length ps > 10")
    case True
    with step ih [of active "evict_one active ps" out] show ?thesis by (simp add: evict_one_filter)
  qed (auto intro: order_trans [OF length_filter_le])
qed

lemma evict_diverges:
  "length (filter (\<lambda>p. ep_RevisionDigest p = active) ps) > 10 \<Longrightarrow> evict active ps = None"
  using evict_Some_bound [of active ps] by (cases "evict active ps") fastforce+

lemma evict_one_butlast:
  "\<exists>q \<in> set xs. ep_RevisionDigest q \<noteq> active \<Longrightarrow> evict_one active (xs @ [p]) = evict_one active xs @ [p]"
  by (induction xs) auto

lemma distinct_count_le_one: "distinct (map f xs) \<Longrightarrow> length (filter (\<lambda>x. f x = k) xs) \<le> 1"
  by (induction xs) (auto simp: filter_empty_conv image_iff)

lemma appendPassed_distinct:
  assumes "distinct (map ep_RevisionDigest ps)"
  shows "distinct (map ep_RevisionDigest (removePassed ps (ep_RevisionDigest p) @ [p]))"
  using assms by (auto simp: removePassed_def distinct_map_filter)

lemma appendPassed_newest:
  assumes "passed_ok ps" "appendPassed ps p active = Some out"
  shows "last out = p \<and> out \<noteq> []"
proof -
  let ?xs = "removePassed ps (ep_RevisionDigest p)"
  have len: "length ?xs \<le> 10" using removePassed_ok [OF assms(1)] by (simp add: passed_ok_def)
  show ?thesis
  proof (cases "length ?xs = 10")
    case False
    with len assms(2) show ?thesis by (auto simp: appendPassed_def evict.simps)
  next
    case True
    have "distinct (map ep_RevisionDigest ?xs)"
      using removePassed_ok [OF assms(1)] by (simp add: passed_ok_def)
    then have "length (filter (\<lambda>q. ep_RevisionDigest q = active) ?xs) \<le> 1" by (rule distinct_count_le_one)
    with True have "filter (\<lambda>q. ep_RevisionDigest q = active) ?xs \<noteq> ?xs" by auto
    then have ex: "\<exists>q \<in> set ?xs. ep_RevisionDigest q \<noteq> active" by (auto simp: filter_id_conv)
    from ex True have "evict active (?xs @ [p]) = Some (evict_one active ?xs @ [p])"
      by (subst evict.simps, subst evict.simps) (simp add: evict_one_butlast evict_one_length)
    with assms(2) show ?thesis by (auto simp: appendPassed_def)
  qed
qed

section \<open>The invariant of the record\<close>

definition eval_ok :: "EvalStatus \<Rightarrow> bool" where
  "eval_ok e \<longleftrightarrow> cases_ok (es_Cases e) \<and> length (es_Failed e) \<le> maxFailedPairs \<and> passed_ok (es_Passed e) \<and>
     (es_Verdict e = EvalVerdictFailed \<longrightarrow>
        pairFailed (es_Failed e) (es_RevisionDigest e) (es_SuiteDigest e) \<and>
        es_RevisionDigest e \<notin> ep_RevisionDigest ` set (es_Passed e))"

lemma removePassed_gone: "d \<notin> ep_RevisionDigest ` set (removePassed ps d)"
  by (auto simp: removePassed_def)

lemma pairFailed_member:
  "pairFailed ps d s \<longleftrightarrow> (\<exists>p \<in> set ps. ep_RevisionDigest p = d \<and> ep_SuiteDigest p = s)"
  by (simp add: pairFailed_def list_ex_iff)

lemma appendPassed_total:
  assumes "passed_ok ps"
  shows "\<exists>out. appendPassed ps p active = Some out \<and> passed_ok out \<and> last out = p \<and> out \<noteq> [] \<and>
    set out \<subseteq> insert p (set ps) \<and>
    (\<forall>q \<in> set ps. ep_RevisionDigest q = active \<longrightarrow> ep_RevisionDigest q \<in> ep_RevisionDigest ` set out)"
proof -
  let ?xs = "removePassed ps (ep_RevisionDigest p) @ [p]"
  have d: "distinct (map ep_RevisionDigest ?xs)"
    using assms by (intro appendPassed_distinct) (simp add: passed_ok_def)
  then have "length (filter (\<lambda>q. ep_RevisionDigest q = active) ?xs) \<le> 10"
    using distinct_count_le_one [OF d, of active] by linarith
  from evict_returns [OF this] obtain out where out: "appendPassed ps p active = Some out" "subseq out ?xs"
    "filter (\<lambda>q. ep_RevisionDigest q = active) out = filter (\<lambda>q. ep_RevisionDigest q = active) ?xs"
    "length out = min 10 (length ?xs)"
    by (auto simp: appendPassed_def)
  have "distinct (map ep_RevisionDigest out)" 
    using subseq_map [OF out(2), of ep_RevisionDigest] d distinct_nthsI unfolding subseq_conv_nths by metis
  moreover have "set out \<subseteq> insert p (set ps)"
    using set_nths_subset out(2) by (auto simp: removePassed_def dest: list_emb_set)
  moreover have "ep_RevisionDigest q \<in> ep_RevisionDigest ` set out"
    if "q \<in> set ps" "ep_RevisionDigest q = active" for q
  proof -
    have "{x \<in> set out. ep_RevisionDigest x = active} = {x \<in> set ?xs. ep_RevisionDigest x = active}"
      using arg_cong [OF out(3), of set] unfolding set_filter .
    moreover have "\<exists>x \<in> set ?xs. ep_RevisionDigest x = active"
      using that by (cases "ep_RevisionDigest p = active") (auto simp: removePassed_def)
    ultimately obtain x where "x \<in> set out" "ep_RevisionDigest x = active" by blast
    then show ?thesis using that(2) by (metis imageI)
  qed
  ultimately show ?thesis
    using out(1,4) appendPassed_newest [OF assms out(1)] unfolding passed_ok_def by auto
qed

lemma startEdit_total:
  assumes "e = None \<or> (\<exists>x. e = Some x \<and> passed_ok (es_Passed x))"
  shows "\<exists>e'. startEdit (startRecord run path cd) active e = Some e'"
  using assms appendPassed_total
  by (fastforce simp: startEdit_def Let_def)

text \<open>How a patch of the start of a run leaves the fields it does not compute.\<close>

lemma startEdit_fields:
  assumes "startEdit (startRecord run path cd) active e = Some e'"
  shows "es_Cases e' = []" "es_Verdict e' = EvalVerdictRunning" "es_RevisionDigest e' = er_revisionDigest run"
    "es_SuiteDigest e' = er_suiteDigest run" "es_EndpointPath e' = path" "es_CardDigest e' = cd"
    "es_Failed e' = failedOf e" "es_Score e' = []" "es_At e' = None" "es_Blocked e' = None"
  using assms
  by (auto simp: startEdit_def startRecord_def zero_eval_def Let_def failedOf_def split: option.splits if_splits)

lemma startEdit_passed_ok:
  assumes "startEdit (startRecord run path cd) active (Some e) = Some e'" "passed_ok (es_Passed e)"
  shows "passed_ok (es_Passed e')"
proof (cases "es_Verdict e = EvalVerdictPassed \<and> es_RevisionDigest e \<noteq> []")
  case True
  from appendPassed_total [OF assms(2)] obtain out where
    "appendPassed (es_Passed e) \<lparr> ep_RevisionDigest = es_RevisionDigest e, ep_SuiteDigest = es_SuiteDigest e \<rparr> active = Some out"
    "passed_ok out" by blast
  with True assms(1) show ?thesis by (auto simp: startEdit_def Let_def)
qed (use assms in \<open>auto simp: startEdit_def Let_def\<close>)

lemma withOutcome_fields:
  "es_Cases (withOutcome run now i claim oc reason e) =
     withCase (es_Cases e) \<lparr> ec_ID = i, ec_Outcome = oc, ec_Reason = reason, ec_Claim = claim \<rparr>"
  "es_RevisionDigest (withOutcome run now i claim oc reason e) = es_RevisionDigest e"
  "es_SuiteDigest (withOutcome run now i claim oc reason e) = es_SuiteDigest e"
  by (simp_all add: withOutcome_def Let_def)

lemma all_outcomes:
  "length (filter P (suiteIDs s)) < length (ds_Cases (su_Dataset s)) \<longleftrightarrow> (\<exists>i \<in> set (suiteIDs s). \<not> P i)"
proof -
  have "length (filter P (suiteIDs s)) < length (suiteIDs s) \<longleftrightarrow> filter (\<lambda>i. \<not> P i) (suiteIDs s) \<noteq> []"
    using sum_length_filter_compl [of P "suiteIDs s"] by (auto simp: length_greater_0_conv [symmetric] simp del: length_greater_0_conv)
  then show ?thesis by (auto simp: filter_empty_conv)
qed

lemma withOutcome_verdict':
  fixes run now i claim oc reason e
  defines "e' \<equiv> withOutcome run now i claim oc reason e"
  defines "n \<equiv> length (ds_Cases (su_Dataset (er_suite run)))"
  defines "k \<equiv> length (filter (has_passed (es_Cases e')) (suiteIDs (er_suite run)))"
  shows "((\<exists>s \<in> set (suiteIDs (er_suite run)). \<not> has_outcome (es_Cases e') s) \<longrightarrow>
       es_Verdict e' = es_Verdict e \<and> es_Score e' = es_Score e \<and> es_At e' = es_At e \<and>
       es_Failed e' = es_Failed e \<and> es_Passed e' = es_Passed e) \<and>
    ((\<forall>s \<in> set (suiteIDs (er_suite run)). has_outcome (es_Cases e') s) \<longrightarrow>
       es_Score e' = itoa (int k) @ ''/'' @ itoa (int n) \<and> es_At e' = Some now \<and>
       es_Verdict e' = (if Passes (int k) (int n) (er_threshold run) then EvalVerdictPassed else EvalVerdictFailed) \<and>
       (es_Verdict e' = EvalVerdictPassed \<longrightarrow> es_Failed e' = es_Failed e \<and> es_Passed e' = es_Passed e) \<and>
       (es_Verdict e' = EvalVerdictFailed \<longrightarrow>
          pairFailed (es_Failed e') (er_revisionDigest run) (er_suiteDigest run) \<and>
          es_Passed e' = removePassed (es_Passed e) (er_revisionDigest run)))"
proof -
  have p: "has_passed cs s \<Longrightarrow> has_outcome cs s" for cs s
    by (auto simp: has_passed_def has_outcome_def outcomeRecorded_def split: option.splits)
  have k: "k = length (filter (\<lambda>s. has_outcome (es_Cases e') s \<and> has_passed (es_Cases e') s) (suiteIDs (er_suite run)))"
    unfolding k_def by (rule arg_cong [where f = length], rule filter_cong) (auto dest: p)
  show ?thesis
  proof (cases "\<exists>s \<in> set (suiteIDs (er_suite run)). \<not> has_outcome (es_Cases e') s")
    case True
    then have "length (filter (has_outcome (es_Cases e')) (suiteIDs (er_suite run))) < n"
      unfolding n_def all_outcomes .
    with True show ?thesis by (auto simp: e'_def n_def withOutcome_fields withOutcome_def Let_def)
  next
    case False
    then have "\<not> length (filter (has_outcome (es_Cases e')) (suiteIDs (er_suite run))) < n"
      unfolding n_def all_outcomes by blast
    with False show ?thesis
      unfolding k by (auto simp: e'_def n_def withOutcome_fields withOutcome_def Let_def pairFailed_member
          intro!: bexI [OF _ failed_log.add_member])
  qed
qed

section \<open>Properties\<close>

text \<open>
  C30. A verdict is written with the outcome that completes the run, and only then. While some case of
  the suite has no outcome the verdict, score, time and both pair lists stay; once every case has
  one, the score counts exactly the passed cases, the verdict is Passed exactly when that count
  reaches the threshold, and on Failed the pair joins \<^verbatim>\<open>failed[]\<close> and the revision leaves \<^verbatim>\<open>passed[]\<close>.
\<close>

theorem withOutcome_verdict:
  fixes run now i claim oc reason e
  defines "e' \<equiv> withOutcome run now i claim oc reason e"
  defines "n \<equiv> length (ds_Cases (su_Dataset (er_suite run)))"
  defines "k \<equiv> length (filter (has_passed (es_Cases e')) (suiteIDs (er_suite run)))"
  shows "((\<exists>s \<in> set (suiteIDs (er_suite run)). \<not> has_outcome (es_Cases e') s) \<longrightarrow>
       es_Verdict e' = es_Verdict e \<and> es_Score e' = es_Score e \<and> es_At e' = es_At e \<and>
       es_Failed e' = es_Failed e \<and> es_Passed e' = es_Passed e) \<and>
    ((\<forall>s \<in> set (suiteIDs (er_suite run)). has_outcome (es_Cases e') s) \<longrightarrow>
       es_Score e' = itoa (int k) @ ''/'' @ itoa (int n) \<and> es_At e' = Some now \<and>
       es_Verdict e' = (if Passes (int k) (int n) (er_threshold run) then EvalVerdictPassed else EvalVerdictFailed) \<and>
       (es_Verdict e' = EvalVerdictPassed \<longrightarrow> es_Failed e' = es_Failed e \<and> es_Passed e' = es_Passed e) \<and>
       (es_Verdict e' = EvalVerdictFailed \<longrightarrow>
          pairFailed (es_Failed e') (er_revisionDigest run) (er_suiteDigest run) \<and>
          es_Passed e' = removePassed (es_Passed e) (er_revisionDigest run)))"
  unfolding e'_def n_def k_def by (rule withOutcome_verdict')

definition sample_run :: evalRun where
  "sample_run = \<lparr> er_agent = sample_agent zero_spec, er_suiteName = ''suite'', er_suite = sample_suite [''b'', ''a''] ''1'' 10,
     er_suiteDigest = ''s1'', er_threshold = 1000, er_runNS = ''run'', er_revision = ''r1'', er_revisionDigest = ''d1'' \<rparr>"

definition sample_done :: "string \<Rightarrow> EvalCaseRecord" where
  "sample_done i = \<lparr> ec_ID = i, ec_Outcome = EvalCasePassed, ec_Reason = [], ec_Claim = ''n'' \<rparr>"

definition sample_pair :: EvalPair where
  "sample_pair = \<lparr> ep_RevisionDigest = ''d1'', ep_SuiteDigest = ''s1'' \<rparr>"

lemma sample_run_ids: "suiteIDs (er_suite sample_run) = [''a'', ''b'']"
  by (simp add: suiteIDs_def sample_run_def sample_defs)

theorem withOutcome_verdict_witness:
  "es_Verdict (withOutcome sample_run 7 ''a'' ''n'' EvalCaseFailed ReasonMismatch
       ((sample_eval EvalVerdictRunning)\<lparr> es_Cases := [sample_done ''b''] \<rparr>)) = EvalVerdictFailed"
proof -
  let ?e = "withOutcome sample_run 7 ''a'' ''n'' EvalCaseFailed ReasonMismatch
       ((sample_eval EvalVerdictRunning)\<lparr> es_Cases := [sample_done ''b''] \<rparr>)"
  have rec: "has_outcome (es_Cases ?e) ''a''" "has_outcome (es_Cases ?e) ''b''" "\<not> has_passed (es_Cases ?e) ''a''"
    "has_passed (es_Cases ?e) ''b''"
    by (simp_all add: withOutcome_fields has_outcome_def has_passed_def caseRecord_withCase outcomeRecorded_def,
        simp_all add: caseRecord_def sample_done_def outcomeRecorded_def)
  have "\<not> Passes 1 2 1000" using Passes_iff [of 1000 1 2] by simp
  with rec show ?thesis
    using withOutcome_verdict [of sample_run 7 "''a''" "''n''" EvalCaseFailed ReasonMismatch
        "(sample_eval EvalVerdictRunning)\<lparr> es_Cases := [sample_done ''b''] \<rparr>"]
    unfolding sample_run_ids by (simp add: sample_run_def sample_defs)
qed

text \<open>
  C31. \<open>appendPassed\<close> returns exactly when at most ten entries of its input name the active revision.
  From a list within the cap with at most one entry per revision it always returns, and the result
  is such a list again: the new pair is its last entry, every other entry was there before, and a
  revision that is active is never the one forgotten.
\<close>

theorem appendPassed_bounded:
  "(appendPassed ps p active = None \<longleftrightarrow>
      10 < length (filter (\<lambda>q. ep_RevisionDigest q = active) (removePassed ps (ep_RevisionDigest p) @ [p]))) \<and>
   (passed_ok ps \<longrightarrow> (\<exists>out. appendPassed ps p active = Some out \<and> passed_ok out \<and> out \<noteq> [] \<and> last out = p \<and>
      set out \<subseteq> insert p (set ps) \<and>
      (active \<in> ep_RevisionDigest ` set ps \<longrightarrow> active \<in> ep_RevisionDigest ` set out)))"
proof
  let ?xs = "removePassed ps (ep_RevisionDigest p) @ [p]"
  show "appendPassed ps p active = None \<longleftrightarrow> 10 < length (filter (\<lambda>q. ep_RevisionDigest q = active) ?xs)"
    unfolding appendPassed_def using evict_diverges [of active ?xs] evict_returns [of active ?xs]
    by (metis not_less option.distinct(1))
  show "passed_ok ps \<longrightarrow> (\<exists>out. appendPassed ps p active = Some out \<and> passed_ok out \<and> out \<noteq> [] \<and> last out = p \<and>
      set out \<subseteq> insert p (set ps) \<and>
      (active \<in> ep_RevisionDigest ` set ps \<longrightarrow> active \<in> ep_RevisionDigest ` set out))"
    using appendPassed_total [of ps p active] by fast
qed

definition pair_of :: "string \<Rightarrow> EvalPair" where
  "pair_of d = \<lparr> ep_RevisionDigest = d, ep_SuiteDigest = ''s'' \<rparr>"

theorem appendPassed_bounded_witness:
  "\<exists>out. appendPassed (map pair_of [''0'', ''1'', ''2'', ''3'', ''4'', ''5'', ''6'', ''7'', ''8'', ''9'']) sample_pair ''0'' = Some out \<and>
     length out \<le> 10 \<and> last out = sample_pair \<and> ''0'' \<in> ep_RevisionDigest ` set out"
proof -
  have "passed_ok (map pair_of [''0'', ''1'', ''2'', ''3'', ''4'', ''5'', ''6'', ''7'', ''8'', ''9''])"
    by (simp add: passed_ok_def pair_of_def)
  moreover have "''0'' \<in> ep_RevisionDigest ` set (map pair_of [''0'', ''1'', ''2'', ''3'', ''4'', ''5'', ''6'', ''7'', ''8'', ''9''])"
    by (simp add: pair_of_def)
  ultimately show ?thesis
    using appendPassed_bounded [of "map pair_of [''0'', ''1'', ''2'', ''3'', ''4'', ''5'', ''6'', ''7'', ''8'', ''9'']" sample_pair "''0''"]
    unfolding passed_ok_def by blast
qed

lemma eval_edits_ok:
  assumes "eval_ok e" "es_RevisionDigest e = er_revisionDigest run" "es_SuiteDigest e = er_suiteDigest run"
  shows "eval_ok (claimEdit i nonce e) \<and> eval_ok (withOutcome run now i nonce oc reason e) \<and>
    eval_ok (clearEdit e) \<and> eval_ok (blockedEdit b (blockedFor run) (Some e)) \<and>
    (\<exists>e'. startEdit (startRecord run2 path cd) active (Some e) = Some e' \<and> eval_ok e')"
proof (intro conjI)
  from assms(1) have c: "cases_ok (es_Cases e)" and f: "length (es_Failed e) \<le> 10" and p: "passed_ok (es_Passed e)"
    by (simp_all add: eval_ok_def)
  show "eval_ok (claimEdit i nonce e)" "eval_ok (blockedEdit b (blockedFor run) (Some e))" "eval_ok (clearEdit e)"
    using assms(1) withCase_ok
    by (simp_all add: eval_ok_def claimEdit_def blockedEdit_def clearEdit_def cases_ok_def withCase_ok [unfolded cases_ok_def])
  show "eval_ok (withOutcome run now i nonce oc reason e)"
    using withCase_ok [OF c] failed_log.add_bound [OF f] removePassed_ok [OF p] f p assms
    by (auto simp: eval_ok_def withOutcome_def Let_def removePassed_gone pairFailed_member
        intro!: bexI [OF _ failed_log.add_member])
  from startEdit_total [of "Some e"] p obtain e' where
    e': "startEdit (startRecord run2 path cd) active (Some e) = Some e'" by blast
  have "eval_ok e'"
    using startEdit_fields [OF e'] startEdit_passed_ok [OF e' p] f
    by (simp add: eval_ok_def cases_ok_def failedOf_def)
  with e' show "\<exists>e'. startEdit (startRecord run2 path cd) active (Some e) = Some e' \<and> eval_ok e'" by blast
qed

text \<open>
  Every write of the eval controller keeps the record well formed: cases sorted by id with one
  entry per id, at most ten pairs in \<^verbatim>\<open>failed[]\<close>, at most ten in \<^verbatim>\<open>passed[]\<close> with one per revision, and a
  Failed verdict's pair in \<^verbatim>\<open>failed[]\<close> with its revision not in \<^verbatim>\<open>passed[]\<close>. The writes are a claim, an
  outcome of the recorded pair, the clear of a superseded run, \<^verbatim>\<open>blocked\<close>, and the start of a run,
  which from such a record always completes.
\<close>

theorem eval_edits_keep_record:
  assumes "eval_ok e" "es_RevisionDigest e = er_revisionDigest run" "es_SuiteDigest e = er_suiteDigest run"
  shows "eval_ok (claimEdit i nonce e) \<and> eval_ok (withOutcome run now i nonce oc reason e) \<and>
    eval_ok (clearEdit e) \<and> eval_ok (blockedEdit b (blockedFor run) (Some e)) \<and>
    (\<exists>e'. startEdit (startRecord run2 path cd) active (Some e) = Some e' \<and> eval_ok e')"
  by (rule eval_edits_ok [OF assms])

theorem eval_edits_keep_record_witness:
  "eval_ok (withOutcome sample_run 7 ''a'' ''n'' EvalCaseFailed ReasonMismatch (sample_eval EvalVerdictRunning))"
proof -
  have "eval_ok (sample_eval EvalVerdictRunning)"
    by (simp add: eval_ok_def sample_eval_def zero_eval_def cases_ok_def passed_ok_def)
  from eval_edits_keep_record [OF this, of sample_run "''a''" "''n''" 7 EvalCaseFailed ReasonMismatch] show ?thesis
    by (simp add: sample_eval_def sample_run_def)
qed

end
