(* ===== verification/Eval_Controller.thy ===== *)
theory Eval_Controller
  imports Eval_Run
begin

text \<open>
  The eval controller: \<^verbatim>\<open>internal/controller/evalcontroller.go\<close>. One pass is a program over the calls it
  makes to the outside, the datatype \<open>prog\<close>: every call carries its arguments and the continuation
  for each answer, so the whole of \<^verbatim>\<open>Reconcile\<close> with its early returns is one definition, and what the
  API server, the candidate or the clock answer is left open.

  \<^item> \<open>Patch a ed e k\<close> is \<^verbatim>\<open>patchEval\<close>: the object in hand, the edit, the \<^verbatim>\<open>status.eval\<close> it gave, and the
    answer, an error or the object as the server returned it.
  \<^item> \<open>SendCase\<close> is the one HTTP exchange of a case; its id labels it.
  \<^item> \<open>Hang\<close> and \<open>Panic\<close> are a pass that does not return and a nil dereference.
  \<^item> What a pass reads once is the record \<open>passReads\<close>; the library functions it calls (\<^verbatim>\<open>net\<close>,
    \<^verbatim>\<open>net/url\<close>, \<^verbatim>\<open>encoding/json\<close>, the CEL printer) are the record \<open>stdlib\<close>.
  \<^item> \<^verbatim>\<open>record\<close> retries until \<^verbatim>\<open>evalWriteBound\<close> has passed; \<open>pd_tries\<close> is the number of writes that fit.
\<close>

section \<open>Requeues\<close>

datatype evalWait = waitTransaction | waitFetchFailed | waitPaused | waitRefused | waitHeld | waitReadBack | waitSent

abbreviation (input) AuthProbeInterval :: duration where "AuthProbeInterval \<equiv> 5 * second"
abbreviation (input) evalSendBackstop :: duration where "evalSendBackstop \<equiv> 5 * second"
abbreviation (input) DefaultCardFetchTimeout :: duration where "DefaultCardFetchTimeout \<equiv> 5 * second"

record EvalReconciler =
  rq_Installed :: bool
  rq_Gateway :: GatewayConfig
  rq_RequeueAfter :: duration
  rq_CardFetchTimeout :: duration

definition requeueFor :: "EvalReconciler \<Rightarrow> evalWait \<Rightarrow> duration" where
  "requeueFor rq w =
     (if rq_RequeueAfter rq > 0 then rq_RequeueAfter rq
      else case w of waitTransaction \<Rightarrow> AuthProbeInterval
         | waitFetchFailed \<Rightarrow> CardRetryInterval
         | waitSent \<Rightarrow> evalSendBackstop
         | _ \<Rightarrow> CardDriftInterval)"

text \<open>What a pass returns: nothing more to do, a requeue, or an error.\<close>

datatype pass_result = RNone | RAfter duration | RErr string

definition wait :: "EvalReconciler \<Rightarrow> evalWait \<Rightarrow> pass_result" where
  "wait rq w = RAfter (requeueFor rq w)"

section \<open>Programs\<close>

record Case =
  sc_Address :: string
  sc_Path :: string
  sc_Message :: string
  sc_Expect :: EvalExpect
  sc_TimeoutSeconds :: int

text \<open>The edits of \<^verbatim>\<open>status.eval\<close>, one per closure handed to \<^verbatim>\<open>patchEval\<close>.\<close>

datatype edit =
    EClear
  | EBlocked "EvalBlocked option" EvalBlockedFor
  | EStart evalRun string string string
  | EClaim string string
  | EOutcome evalRun go_time string string EvalCaseOutcome string

datatype edited = Edited EvalStatus | EditHangs | EditPanics

definition apply_edit :: "edit \<Rightarrow> EvalStatus option \<Rightarrow> edited" where
  "apply_edit ed cur = (case ed of
     EBlocked b want \<Rightarrow> Edited (blockedEdit b want cur)
   | EStart run path cardDigest active \<Rightarrow>
       (case startEdit (startRecord run path cardDigest) active cur of None \<Rightarrow> EditHangs | Some e \<Rightarrow> Edited e)
   | EClear \<Rightarrow> (case cur of None \<Rightarrow> EditPanics | Some e \<Rightarrow> Edited (clearEdit e))
   | EClaim i nonce \<Rightarrow> (case cur of None \<Rightarrow> EditPanics | Some e \<Rightarrow> Edited (claimEdit i nonce e))
   | EOutcome run now i claim oc reason \<Rightarrow>
       (case cur of None \<Rightarrow> EditPanics | Some e \<Rightarrow> Edited (withOutcome run now i claim oc reason e)))"

text \<open>
  What the run-start card fetch gave: no request, no answer (and whether the timeout had passed), or
  a status with the bytes read, or with a body that broke off (and whether the timeout had passed).
\<close>

datatype card_body = CardBytes string | CardBroken bool
datatype card_reply = CardNoRequest | CardNoAnswer bool | CardAnswer nat card_body

type_synonym send_reply = "bool \<times> http_result"

datatype prog =
    Ret pass_result
  | GetService string "api_error + string \<Rightarrow> prog"
  | FetchCard string string "card_reply \<Rightarrow> prog"
  | Now "go_time \<Rightarrow> prog"
  | Patch Agent edit EvalStatus "api_error + Agent \<Rightarrow> prog"
  | SendCase string Case "send_reply \<Rightarrow> prog"
  | GetLive "api_error + Agent \<Rightarrow> prog"
  | Hang
  | Panic

definition patchEval :: "Agent \<Rightarrow> edit \<Rightarrow> (api_error + Agent \<Rightarrow> prog) \<Rightarrow> prog" where
  "patchEval agent ed k = (case apply_edit ed (st_Eval (ag_Status agent)) of
     Edited e \<Rightarrow> Patch agent ed e k | EditHangs \<Rightarrow> Hang | EditPanics \<Rightarrow> Panic)"

record stdlib =
  lib_addr :: "string \<Rightarrow> string \<Rightarrow> address_view"
  lib_json_valid :: "string \<Rightarrow> bool"
  lib_interfaces :: "string \<Rightarrow> Interface list option"
  lib_url :: url_parser
  lib_unparse :: unparser

record passReads =
  pd_deployment :: "api_error + workload"
  pd_suite :: "api_error + EvalSuiteSpec"
  pd_env :: env_read
  pd_above :: gatewayAuth
  pd_foreign :: "string list"
  pd_ferr :: "api_error option"
  pd_shutdown :: bool
  pd_nonce :: string
  pd_tries :: nat

section \<open>Names and addresses\<close>

definition RunNamespaceName :: "string \<Rightarrow> string" where
  "RunNamespaceName source =
     (let prefix = ''assayd-run-'' in
      if length prefix + length source \<le> 63 then prefix @ source
      else let keep = 63 - length prefix - 1 - 16 in
           prefix @ trim_right CHR ''-'' (take keep source) @ ''-'' @ take 16 (hex_sum256 source))"

definition cardPath :: "Agent \<Rightarrow> string" where
  "cardPath agent = (if cs_Path (sp_Card (ag_Spec agent)) \<noteq> [] then cs_Path (sp_Card (ag_Spec agent))
     else ''/.well-known/agent-card.json'')"

definition port :: "AgentRuntime \<Rightarrow> int" where
  "port rt = (if rt_Port rt = 0 then 8080 else rt_Port rt)"

text \<open>A nil runtime would panic in \<open>port\<close>; \<open>Reconcile\<close> has returned before for one.\<close>

definition runtime_port :: "Agent \<Rightarrow> int" where
  "runtime_port agent = (case sp_Runtime (ag_Spec agent) of None \<Rightarrow> 0 | Some rt \<Rightarrow> port rt)"

text \<open>\<^verbatim>\<open>net.JoinHostPort\<close>.\<close>

definition JoinHostPort :: "string \<Rightarrow> string \<Rightarrow> string" where
  "JoinHostPort host p = (if CHR '':'' \<in> set host then ''['' @ host @ '']:'' @ p else host @ '':'' @ p)"

text \<open>\<^verbatim>\<open>candidateAddress\<close>: the fault to record with the error, or the address.\<close>

definition candidateAddress :: "stdlib \<Rightarrow> evalRun \<Rightarrow> string \<Rightarrow> (EvalBlocked \<times> string + string \<Rightarrow> prog) \<Rightarrow> prog" where
  "candidateAddress lib run path k =
     (let name = WorkloadName (ag_Name (er_agent run)) (er_revision run); key = er_runNS run @ ''/'' @ name in
      GetService name (\<lambda>got. case got of
        Inl e \<Rightarrow> k (Inl (unaddressable (if IsNotFound e then msgf ''the candidate's Service was not found'' [key]
                   else msgf ''the candidate's Service could not be read'' [key, readErrorClass e]),
                   msgf ''read the candidate's Service'' [key, err_text e]))
      | Inr clusterIP \<Rightarrow>
          let p = runtime_port (er_agent run); addr = JoinHostPort clusterIP (itoa p) in
          (case Check (lib_addr lib addr path) of
             Some ref \<Rightarrow>
               let why = (case ref of
                   PartPort \<Rightarrow> msgf ''spec.runtime.port is not from 1 to 65535'' [itoa p]
                 | PartRequest \<Rightarrow> msgf ''no request can be built for the path'' [path]
                 | PartHost \<Rightarrow> msgf ''its ClusterIP is not an IP address'' [clusterIP])
               in k (Inl (unaddressable (msgf ''the candidate's Service'' [key, why]), msgf ''candidate address'' [addr]))
           | None \<Rightarrow> k (Inr addr))))"

section \<open>Writes with read-back\<close>

definition clearSuperseded :: "Agent \<Rightarrow> (pass_result option \<Rightarrow> prog) \<Rightarrow> prog" where
  "clearSuperseded agent k = (case st_Eval (ag_Status agent) of
     None \<Rightarrow> k None
   | Some e \<Rightarrow>
     if es_Verdict e \<noteq> EvalVerdictFailed then k None
     else let desired = (if candidatePending (ag_Status agent) then st_CandidateRevisionDigest (ag_Status agent)
                         else st_ActiveRevisionDigest (ag_Status agent)) in
       if es_RevisionDigest e = desired then k None
       else patchEval agent EClear (\<lambda>rep. case rep of
              Inl err \<Rightarrow> if IsConflict err then k (Some RNone)
                         else k (Some (RErr (msgf ''clear the superseded run'' [es_RevisionDigest e, err_text err])))
            | Inr _ \<Rightarrow> k (Some RNone)))"

text \<open>\<^verbatim>\<open>syncBlocked\<close>: what the pass must return, if anything, and the run with the object as it now is.\<close>

definition blocked_kept :: "EvalStatus option \<Rightarrow> EvalBlocked option \<Rightarrow> EvalBlockedFor \<Rightarrow> bool" where
  "blocked_kept e b want = (case e of None \<Rightarrow> False
     | Some x \<Rightarrow> equalBlocked (es_Blocked x) b \<and> equalBlockedFor (es_BlockedFor x) (Some want))"

definition syncBlocked :: "EvalReconciler \<Rightarrow> evalRun \<Rightarrow> EvalBlocked option
    \<Rightarrow> (pass_result option \<times> evalRun \<Rightarrow> prog) \<Rightarrow> prog" where
  "syncBlocked rq run b k =
     (let want = blockedFor run in
      if blocked_kept (st_Eval (run_status run)) b want then k (None, run)
      else patchEval (er_agent run) (EBlocked b want) (\<lambda>rep. case rep of
          Inl err \<Rightarrow> k (Some (if IsConflict err then RNone else RErr (msgf ''write status.eval.blocked'' [err_text err])), run)
        | Inr a \<Rightarrow> let run = run\<lparr> er_agent := a \<rparr> in
            if blocked_kept (st_Eval (ag_Status a)) b want then k (None, run)
            else k (Some (wait rq waitReadBack), run)))"

section \<open>The start of a run\<close>

definition fetchCard :: "EvalReconciler \<Rightarrow> string \<Rightarrow> string \<Rightarrow> (string + string \<Rightarrow> prog) \<Rightarrow> prog" where
  "fetchCard rq addr path k =
     (let timeout = (if rq_CardFetchTimeout rq \<le> 0 then DefaultCardFetchTimeout else rq_CardFetchTimeout rq) in
      FetchCard addr path (\<lambda>rep. k (case rep of
        CardNoRequest \<Rightarrow> Inl ''no request could be built for the card path''
      | CardNoAnswer expired \<Rightarrow> Inl (if expired then msgf ''no answer within'' [itoa timeout]
                                     else ''the connection was refused or failed'')
      | CardAnswer status b \<Rightarrow>
          if status \<noteq> 200 then Inl (msgf ''the card path answered status'' [itoa (int status)])
          else (case b of
            CardBroken expired \<Rightarrow> Inl (if expired then msgf ''the body was still arriving after'' [itoa timeout]
                                        else ''the body was cut short'')
          | CardBytes bs \<Rightarrow> if length bs > MaxBodyBytes then Inl ''the body is over 1 MiB'' else Inr bs))))"

text \<open>\<^verbatim>\<open>runStartCard\<close>, from the body or the failure's class: the refusal with its wait, or the path and digest.\<close>

definition card_refusal :: "string \<Rightarrow> string \<Rightarrow> evalWait \<Rightarrow> EvalBlocked \<times> evalWait" where
  "card_refusal reason msg w = (\<lparr> eb_Reason = reason, eb_Message = msg \<rparr>, w)"

definition runStartCard :: "stdlib \<Rightarrow> evalRun \<Rightarrow> string + string \<Rightarrow> EvalBlocked \<times> evalWait + string \<times> string" where
  "runStartCard lib run fetched =
     (case (case fetched of Inl c \<Rightarrow> Inl c
            | Inr bs \<Rightarrow> if \<not> lib_json_valid lib bs then Inl ''the body is not JSON'' else Inr bs) of
        Inl class \<Rightarrow> Inl (card_refusal ReasonEvalAwaitingCard
           (msgf ''the run-start card fetch did not succeed'' [class, itoa CardRetryInterval]) waitFetchFailed)
      | Inr bs \<Rightarrow>
          let digest = hex_sum256 bs; c = cardEntry (run_status run) (er_revisionDigest run) in
          if (case c of None \<Rightarrow> True | Some x \<Rightarrow> cd_Digest x \<noteq> digest)
          then Inl (card_refusal ReasonEvalAwaitingCard (msgf ''the card served at run start is not the recorded one''
                 [shortDigest digest, shortDigest (case c of None \<Rightarrow> [] | Some x \<Rightarrow> cd_Digest x)]) waitRefused)
          else (case lib_interfaces lib bs of
            None \<Rightarrow> Inl (card_refusal ReasonEvalBindingUnsupported
                (bindingRefusal (msgf ''its supportedInterfaces[] do not decode'' [])) waitRefused)
          | Some ifs \<Rightarrow> (case EndpointPath (lib_url lib) ifs of
              Inl err \<Rightarrow> Inl (card_refusal ReasonEvalBindingUnsupported err waitRefused)
            | Inr path \<Rightarrow> (case checkEndpointPath path of
                Some err \<Rightarrow> Inl (card_refusal ReasonEvalBindingUnsupported err waitRefused)
              | None \<Rightarrow> Inr (path, digest)))))"

definition start_kept :: "EvalStatus \<Rightarrow> EvalStatus option \<Rightarrow> bool" where
  "start_kept want got = (case got of None \<Rightarrow> False
   | Some g \<Rightarrow> es_Verdict g = es_Verdict want \<and> es_Suite g = es_Suite want \<and> es_Revision g = es_Revision want \<and>
       es_RevisionDigest g = es_RevisionDigest want \<and> es_SuiteDigest g = es_SuiteDigest want \<and>
       es_EndpointPath g = es_EndpointPath want \<and> es_CardDigest g = es_CardDigest want \<and>
       es_Blocked g = None \<and> equalBlockedFor (es_BlockedFor g) (es_BlockedFor want))"

definition startRun :: "stdlib \<Rightarrow> EvalReconciler \<Rightarrow> evalRun \<Rightarrow> (evalRun \<Rightarrow> prog) \<Rightarrow> prog" where
  "startRun lib rq run k = candidateAddress lib run (cardPath (er_agent run)) (\<lambda>r. case r of
     Inl (fault, err) \<Rightarrow> syncBlocked rq run (Some fault) (\<lambda>(stop, _). case stop of
         Some (RErr serr) \<Rightarrow> Ret (RErr serr)
       | _ \<Rightarrow> Ret (RErr err))
   | Inr addr \<Rightarrow> fetchCard rq addr (cardPath (er_agent run)) (\<lambda>fetched. case runStartCard lib run fetched of
       Inl (refusal, w) \<Rightarrow> syncBlocked rq run (Some refusal) (\<lambda>(stop, _). case stop of
           Some r \<Rightarrow> Ret r
         | None \<Rightarrow> Ret (wait rq w))
     | Inr (path, cardDigest) \<Rightarrow>
         patchEval (er_agent run) (EStart run path cardDigest (st_ActiveRevisionDigest (run_status run))) (\<lambda>rep. case rep of
           Inl err \<Rightarrow> Ret (if IsConflict err then RNone
               else RErr (msgf ''start the run'' [er_revisionDigest run, er_suiteDigest run, err_text err]))
         | Inr a \<Rightarrow>
             if start_kept (startRecord run path cardDigest) (st_Eval (ag_Status a)) then k (run\<lparr> er_agent := a \<rparr>)
             else Ret (wait rq waitReadBack))))"

section \<open>One case\<close>

text \<open>\<^verbatim>\<open>record\<close>: at most \<open>n\<close> writes before the bound expires.\<close>

definition claim_stands :: "evalRun \<Rightarrow> string \<Rightarrow> string \<Rightarrow> EvalStatus option \<Rightarrow> bool" where
  "claim_stands run i nonce e = (case e of None \<Rightarrow> False
   | Some x \<Rightarrow> if es_RevisionDigest x = er_revisionDigest run \<and> es_SuiteDigest x = er_suiteDigest run
       then (case caseRecord (es_Cases x) i of None \<Rightarrow> False
             | Some c \<Rightarrow> ec_Claim c = nonce \<and> ec_Outcome c = EvalCaseSending)
       else False)"

primrec record_loop :: "nat \<Rightarrow> evalRun \<Rightarrow> Agent \<Rightarrow> string \<Rightarrow> string \<Rightarrow> EvalCaseOutcome \<Rightarrow> string
    \<Rightarrow> (string option \<Rightarrow> prog) \<Rightarrow> prog" where
  "record_loop 0 run agent i nonce oc reason k = k (Some (msgf ''record case'' [i, ''context deadline exceeded'']))"
| "record_loop (Suc n) run agent i nonce oc reason k =
     Now (\<lambda>now. patchEval agent (EOutcome run now i nonce oc reason) (\<lambda>rep. case rep of
       Inr _ \<Rightarrow> k None
     | Inl err \<Rightarrow>
         if \<not> IsConflict err then k (Some (msgf ''record case'' [i, err_text err]))
         else GetLive (\<lambda>got. case got of
           Inl err \<Rightarrow> k (Some (msgf ''re-read the Agent to record case'' [i, err_text err]))
         | Inr live \<Rightarrow>
             if \<not> claim_stands run i nonce (st_Eval (ag_Status live)) then k None
             else record_loop n run live i nonce oc reason k)))"

definition orphan_case :: "EvalCaseRecord list \<Rightarrow> string list \<Rightarrow> EvalCaseRecord option" where
  "orphan_case cases ids = (case find (\<lambda>i. case caseRecord cases i of None \<Rightarrow> False
       | Some c \<Rightarrow> ec_Outcome c = EvalCaseSending) ids of
     None \<Rightarrow> None | Some i \<Rightarrow> caseRecord cases i)"

definition next_case :: "EvalSuiteSpec \<Rightarrow> EvalCaseRecord list \<Rightarrow> string list \<Rightarrow> EvalCase option" where
  "next_case suite cases ids = (case find (\<lambda>i. caseRecord cases i = None) ids of
     None \<Rightarrow> None | Some i \<Rightarrow> suiteCase suite i)"

definition claimed :: "EvalStatus \<Rightarrow> string \<Rightarrow> string \<Rightarrow> bool" where
  "claimed g i nonce = (case caseRecord (es_Cases g) i of None \<Rightarrow> False
     | Some c \<Rightarrow> ec_Outcome c = EvalCaseSending \<and> ec_Claim c = nonce)"

definition claimAndSend :: "stdlib \<Rightarrow> EvalReconciler \<Rightarrow> passReads \<Rightarrow> evalRun \<Rightarrow> EvalCase \<Rightarrow> string \<Rightarrow> prog" where
  "claimAndSend lib rq inp run nxt addr = (case st_Eval (run_status run) of
     None \<Rightarrow> Panic
   | Some e \<Rightarrow>
     let i = ca_ID nxt; nonce = pd_nonce inp;
         cs = \<lparr> sc_Address = addr, sc_Path = es_EndpointPath e, sc_Message = ca_Message nxt, sc_Expect = ca_Expect nxt,
                sc_TimeoutSeconds = su_CaseTimeoutSeconds (er_suite run) \<rparr> in
     if pd_shutdown inp then Ret RNone
     else patchEval (er_agent run) (EClaim i nonce) (\<lambda>rep. case rep of
         Inl err \<Rightarrow> Ret (if IsConflict err then RNone else RErr (msgf ''claim case'' [i, err_text err]))
       | Inr a \<Rightarrow> (case st_Eval (ag_Status a) of
           None \<Rightarrow> Panic
         | Some g \<Rightarrow>
           if \<not> claimed g i nonce then Ret (wait rq waitReadBack)
           else SendCase i cs (\<lambda>(expired, answer).
             case Send (lib_addr lib (sc_Address cs) (sc_Path cs)) False expired answer (sc_Expect cs) of
               Inl part \<Rightarrow> Ret (RErr (msgf ''the case could not be sent'' [i]))
             | Inr out \<Rightarrow> record_loop (pd_tries inp) (run\<lparr> er_agent := a \<rparr>) a i nonce
                 (if oc_Passed out then EvalCasePassed else EvalCaseFailed) (oc_Reason out)
                 (\<lambda>err. case err of Some s \<Rightarrow> Ret (RErr s) | None \<Rightarrow> Ret (wait rq waitSent))))))"

definition recordInterrupted :: "EvalReconciler \<Rightarrow> evalRun \<Rightarrow> EvalCaseRecord \<Rightarrow> prog" where
  "recordInterrupted rq run c = Now (\<lambda>now.
     patchEval (er_agent run) (EOutcome run now (ec_ID c) (ec_Claim c) EvalCaseFailed ReasonInterrupted) (\<lambda>rep. case rep of
       Inl err \<Rightarrow> Ret (if IsConflict err then RNone
           else RErr (msgf ''record the case as Interrupted'' [ec_ID c, err_text err]))
     | Inr _ \<Rightarrow> Ret (wait rq waitSent)))"

definition blockedOnce :: "EvalReconciler \<Rightarrow> evalRun \<Rightarrow> bool \<Rightarrow> EvalBlocked option
    \<Rightarrow> (pass_result option \<times> evalRun \<Rightarrow> prog) \<Rightarrow> prog" where
  "blockedOnce rq run written b k = (if written then k (None, run) else syncBlocked rq run b k)"

definition nextCase :: "stdlib \<Rightarrow> EvalReconciler \<Rightarrow> passReads \<Rightarrow> evalRun \<Rightarrow> bool \<Rightarrow> prog" where
  "nextCase lib rq inp run written = (case st_Eval (run_status run) of
     None \<Rightarrow> Panic
   | Some e \<Rightarrow>
     let ids = suiteIDs (er_suite run); cases = es_Cases e in
     (case orphan_case cases ids of
        Some c \<Rightarrow> blockedOnce rq run written None (\<lambda>(stop, run). case stop of
            Some r \<Rightarrow> Ret r
          | None \<Rightarrow> recordInterrupted rq run c)
      | None \<Rightarrow> (case next_case (er_suite run) cases ids of
          None \<Rightarrow> blockedOnce rq run written None (\<lambda>(stop, run). case stop of
              Some r \<Rightarrow> Ret r
            | None \<Rightarrow> Ret RNone)
        | Some nxt \<Rightarrow> candidateAddress lib run (es_EndpointPath e) (\<lambda>r. case r of
              Inl (fault, err) \<Rightarrow> blockedOnce rq run written (Some fault) (\<lambda>(stop, run). case stop of
                  Some (RErr serr) \<Rightarrow> Ret (RErr serr)
                | _ \<Rightarrow> Ret (RErr err))
            | Inr addr \<Rightarrow> blockedOnce rq run written None (\<lambda>(stop, run). case stop of
                  Some r \<Rightarrow> Ret r
                | None \<Rightarrow> claimAndSend lib rq inp run nxt addr)))))"

section \<open>The pass\<close>

definition compiles :: "stdlib \<Rightarrow> Agent \<Rightarrow> string \<Rightarrow> bool" where
  "compiles lib agent runNS \<longleftrightarrow> (\<not> isl (CompileAuth (lib_unparse lib) agent runNS)) \<and> sp_Budget (ag_Spec agent) = None"

text \<open>
  The pass from the pair on: a final verdict or a failed pair first, then clause 5, then the start
  of a run or its next case.
\<close>

definition sync_then :: "EvalReconciler \<Rightarrow> evalRun \<Rightarrow> EvalBlocked option \<Rightarrow> pass_result \<Rightarrow> prog" where
  "sync_then rq run b r = syncBlocked rq run b (\<lambda>(stop, _). case stop of Some s \<Rightarrow> Ret s | None \<Rightarrow> Ret r)"

definition recorded_pair :: "EvalStatus option \<Rightarrow> string \<Rightarrow> string \<Rightarrow> bool" where
  "recorded_pair e d s = (case e of None \<Rightarrow> False | Some x \<Rightarrow> es_RevisionDigest x = d \<and> es_SuiteDigest x = s)"

definition final_pair :: "EvalStatus option \<Rightarrow> string \<Rightarrow> string \<Rightarrow> bool" where
  "final_pair e d s \<longleftrightarrow> (recorded_pair e d s \<and> (case e of None \<Rightarrow> False
      | Some x \<Rightarrow> es_Verdict x = EvalVerdictPassed \<or> es_Verdict x = EvalVerdictFailed)) \<or>
     pairFailed (failedOf e) d s"

definition in_progress :: "EvalStatus option \<Rightarrow> string \<Rightarrow> string \<Rightarrow> bool" where
  "in_progress e d s \<longleftrightarrow> recorded_pair e d s \<and> (case e of None \<Rightarrow> False
     | Some x \<Rightarrow> es_Verdict x = EvalVerdictRunning \<and> es_EndpointPath x \<noteq> [] \<and> es_CardDigest x \<noteq> [])"

definition runPair :: "stdlib \<Rightarrow> EvalReconciler \<Rightarrow> passReads \<Rightarrow> evalRun \<Rightarrow> bool \<Rightarrow> prog" where
  "runPair lib rq inp run exempt =
     (let e = st_Eval (run_status run); d = er_revisionDigest run; s = er_suiteDigest run in
      if final_pair e d s then sync_then rq run None (wait rq waitHeld)
      else
        let (hold, readErr) = (if exempt then clause5 (rq_Gateway rq) (ag_Name (er_agent run)) (er_runNS run)
                                 (pd_above inp) (pd_foreign inp) (pd_ferr inp) else (None, False)) in
        if readErr then sync_then rq run hold (RErr (msgf ''clause 5'' [case pd_ferr inp of Some e \<Rightarrow> err_text e | None \<Rightarrow> ga_unreadable (pd_above inp)]))
        else if hold \<noteq> None then sync_then rq run hold (wait rq waitTransaction)
        else if \<not> in_progress e d s then startRun lib rq run (\<lambda>run. nextCase lib rq inp run True)
        else nextCase lib rq inp run False)"

definition reconcileCandidate :: "stdlib \<Rightarrow> EvalReconciler \<Rightarrow> passReads \<Rightarrow> Agent \<Rightarrow> bool \<Rightarrow> prog" where
  "reconcileCandidate lib rq inp agent exempt =
     (let st = ag_Status agent; candDigest = st_CandidateRevisionDigest st; runNS = RunNamespaceName (ag_Namespace agent);
          suiteName = gr_EvalSuiteRef (hd (sp_Gates (ag_Spec agent))) in
      if \<not> candidatePending st then Ret RNone
      else case workloadAvailableIn (pd_deployment inp) agent candDigest of
        Inl err \<Rightarrow> Ret (RErr (err_text err))
      | Inr available \<Rightarrow>
        if \<not> available then Ret (wait rq waitPaused)
        else if i1Hold (rq_Gateway rq) st (compiles lib agent runNS) (pin_of (ag_Spec agent) \<noteq> []) \<noteq> [] \<or>
                \<not> hasCardFor st candDigest then Ret (wait rq waitHeld)
        else case pd_suite inp of
          Inl err \<Rightarrow> if IsNotFound err then Ret (wait rq waitHeld)
                     else Ret (RErr (msgf ''read EvalSuite'' [ag_Namespace agent, suiteName, err_text err]))
        | Inr suite \<Rightarrow>
          let (held, held_err) = pinnedRollbackCandidate (pd_env inp) agent in
          (case held_err of
             Some err \<Rightarrow> Ret (RErr (msgf ''decide whether the current spec mints the candidate'' [err_text err]))
           | None \<Rightarrow> if held then Ret (wait rq waitHeld) else (case Threshold suite of
               Inl err \<Rightarrow> Ret (RErr (msgf ''EvalSuite'' [ag_Namespace agent, suiteName, err]))
             | Inr th \<Rightarrow> runPair lib rq inp
                 \<lparr> er_agent = agent, er_suiteName = suiteName, er_suite = suite, er_suiteDigest = suite_Digest suite,
                   er_threshold = th, er_runNS = runNS, er_revision = st_CandidateRevision st,
                   er_revisionDigest = candDigest \<rparr> exempt)))"

definition Reconcile :: "stdlib \<Rightarrow> EvalReconciler \<Rightarrow> passReads \<Rightarrow> api_error + Agent \<Rightarrow> prog" where
  "Reconcile lib rq inp live = (case live of
     Inl err \<Rightarrow> Ret (if IsNotFound err then RNone else RErr (err_text err))
   | Inr agent \<Rightarrow>
     if ag_DeletionTimestamp agent \<noteq> None \<or> sp_Runtime (ag_Spec agent) = None \<or> sp_Gates (ag_Spec agent) = [] \<or>
        \<not> rq_Installed rq then Ret RNone
     else if \<not> evalGenerationCurrent agent then Ret RNone
     else
       let st = ag_Status agent; exempt = recordedTransaction st \<noteq> None \<and> fst (exemptTransaction st) in
       if recordedTransaction st \<noteq> None \<and> \<not> exempt then Ret (wait rq waitTransaction)
       else if exempt then reconcileCandidate lib rq inp agent True
       else clearSuperseded agent (\<lambda>stop. case stop of
              Some r \<Rightarrow> Ret r
            | None \<Rightarrow> reconcileCandidate lib rq inp agent False))"

section \<open>What the server may answer\<close>

text \<open>
  A storage relation says what may be stored of a record written. \<open>keeps\<close> is a CRD that keeps the
  whole record; \<open>prunes\<close> allows any loss of fields, as long as no case appears that was not written
  and none changes its outcome. A patch's answer is the object it was made against with the stored
  record and a new resource version.
\<close>

type_synonym storage = "EvalStatus \<Rightarrow> EvalStatus option \<Rightarrow> bool"

definition keeps :: storage where
  "keeps e e' \<longleftrightarrow> e' = Some e"

definition prunes :: storage where
  "prunes e e' \<longleftrightarrow> (\<forall>x i c'. e' = Some x \<longrightarrow> caseRecord (es_Cases x) i = Some c' \<longrightarrow>
     (\<exists>c. caseRecord (es_Cases e) i = Some c \<and> ec_Outcome c' = ec_Outcome c))"

definition with_eval :: "EvalStatus option \<Rightarrow> nat \<Rightarrow> Agent \<Rightarrow> Agent" where
  "with_eval e rv a = a\<lparr> ag_Status := (ag_Status a)\<lparr> st_Eval := e \<rparr>, ag_ResourceVersion := rv \<rparr>"

abbreviation eval_of :: "Agent \<Rightarrow> EvalStatus option" where
  "eval_of a \<equiv> st_Eval (ag_Status a)"

lemma with_eval_sel [simp]: "eval_of (with_eval e rv a) = e" "ag_ResourceVersion (with_eval e rv a) = rv"
  "ag_Spec (with_eval e rv a) = ag_Spec a" "ag_Name (with_eval e rv a) = ag_Name a"
  by (simp_all add: with_eval_def)

definition answers :: "storage \<Rightarrow> Agent \<Rightarrow> EvalStatus \<Rightarrow> Agent \<Rightarrow> bool" where
  "answers P a e a' \<longleftrightarrow> (\<exists>e' rv. P e e' \<and> a' = with_eval e' rv a)"

lemma keeps_prunes: "keeps e e' \<Longrightarrow> prunes e e'"
  by (auto simp: keeps_def prunes_def)

section \<open>Disciplined programs\<close>

text \<open>
  \<open>disciplined P p ar a\<close>: with the object \<open>a\<close> in hand, \<open>p\<close> patches only that object, clears
  only a Failed verdict, starts a run only for a pair without a final verdict, claims only a case
  it has no entry for, records only a case it has no outcome for (and, where the record is kept whole,
  only one of the pair and suite it runs), and sends only the case \<open>ar\<close> it has claimed and
  read back, once. It panics on no answer of a server that keeps the record, and hangs only on
  a \<^verbatim>\<open>passed[]\<close> that names a revision twice or is over its cap.
\<close>

definition edit_ok :: "storage \<Rightarrow> Agent \<Rightarrow> edit \<Rightarrow> bool" where
  "edit_ok P a ed \<longleftrightarrow> (case ed of
     EClaim i nonce \<Rightarrow> (\<exists>e. eval_of a = Some e \<and> caseRecord (es_Cases e) i = None)
   | EOutcome run now i claim oc reason \<Rightarrow>
       (\<exists>e. eval_of a = Some e \<and> outcomeRecorded oc \<and>
          (\<forall>c. caseRecord (es_Cases e) i = Some c \<longrightarrow> ec_Outcome c = EvalCaseSending) \<and>
          (P = keeps \<longrightarrow> caseRecord (es_Cases e) i \<noteq> None \<and>
             es_RevisionDigest e = er_revisionDigest run \<and> es_SuiteDigest e = er_suiteDigest run \<and>
             er_suiteDigest run = suite_Digest (er_suite run) \<and> Threshold (er_suite run) = Inr (er_threshold run)))
   | EClear \<Rightarrow> (\<exists>e. eval_of a = Some e \<and> es_Verdict e = EvalVerdictFailed)
   | EStart run path cd active \<Rightarrow> \<not> final_pair (eval_of a) (er_revisionDigest run) (er_suiteDigest run)
   | EBlocked b want \<Rightarrow> True)"

definition arm :: "edit \<Rightarrow> Agent \<Rightarrow> string option" where
  "arm ed a = (case ed of
     EClaim i nonce \<Rightarrow> (case eval_of a of Some g \<Rightarrow> if claimed g i nonce then Some i else None | None \<Rightarrow> None)
   | _ \<Rightarrow> None)"

primrec disciplined :: "storage \<Rightarrow> prog \<Rightarrow> string option \<Rightarrow> Agent \<Rightarrow> bool" where
  "disciplined P (Ret r) = (\<lambda>ar a. True)"
| "disciplined P Hang = (\<lambda>ar a. \<exists>e. eval_of a = Some e \<and> \<not> passed_ok (es_Passed e))"
| "disciplined P Panic = (\<lambda>ar a. P \<noteq> keeps)"
| "disciplined P (GetService n k) = (\<lambda>ar a. \<forall>r. disciplined P (k r) ar a)"
| "disciplined P (FetchCard s t k) = (\<lambda>ar a. \<forall>r. disciplined P (k r) ar a)"
| "disciplined P (Now k) = (\<lambda>ar a. \<forall>t. disciplined P (k t) ar a)"
| "disciplined P (GetLive k) = (\<lambda>ar a. (\<forall>err. disciplined P (k (Inl err)) ar a) \<and> (\<forall>b. disciplined P (k (Inr b)) ar b))"
| "disciplined P (SendCase i cs k) = (\<lambda>ar a. ar = Some i \<and> (\<forall>r. disciplined P (k r) None a))"
| "disciplined P (Patch b ed e k) = (\<lambda>ar a. b = a \<and> apply_edit ed (eval_of a) = Edited e \<and> edit_ok P a ed \<and>
     (\<forall>err. disciplined P (k (Inl err)) None a) \<and>
     (\<forall>a'. answers P a e a' \<longrightarrow> disciplined P (k (Inr a')) (arm ed a') a'))"

lemma disciplined_patchEval:
  assumes "edit_ok P a ed" "\<And>err. disciplined P (k (Inl err)) None a"
    and "\<And>e a'. apply_edit ed (eval_of a) = Edited e \<Longrightarrow> answers P a e a' \<Longrightarrow> disciplined P (k (Inr a')) (arm ed a') a'"
  shows "disciplined P (patchEval a ed k) ar a"
proof (cases "apply_edit ed (eval_of a)")
  case EditHangs
  then obtain run path cd active where
    "ed = EStart run path cd active" "startEdit (startRecord run path cd) active (eval_of a) = None"
    by (auto simp: apply_edit_def split: edit.splits option.splits)
  with startEdit_total [of "eval_of a" run path cd active] EditHangs show ?thesis
    by (cases "eval_of a") (auto simp: patchEval_def)
next
  case EditPanics
  with assms(1) show ?thesis by (auto simp: apply_edit_def edit_ok_def split: edit.splits option.splits)
qed (use assms in \<open>simp add: patchEval_def\<close>)

lemma disciplined_candidateAddress:
  assumes "\<And>r. disciplined P (k r) ar a"
  shows "disciplined P (candidateAddress lib run path k) ar a"
  using assms by (simp add: candidateAddress_def Let_def split: sum.split option.split)

lemma disciplined_fetchCard:
  assumes "\<And>r. disciplined P (k r) ar a"
  shows "disciplined P (fetchCard rq addr path k) ar a"
  using assms by (simp add: fetchCard_def Let_def)

text \<open>The object after a write of \<^verbatim>\<open>blocked\<close>, seen from the object before it.\<close>

definition sees :: "storage \<Rightarrow> EvalStatus option \<Rightarrow> EvalStatus option \<Rightarrow> bool" where
  "sees P old new \<longleftrightarrow>
     (\<forall>x i c'. new = Some x \<longrightarrow> caseRecord (es_Cases x) i = Some c' \<longrightarrow>
        (\<exists>y c. old = Some y \<and> caseRecord (es_Cases y) i = Some c \<and> ec_Outcome c' = ec_Outcome c)) \<and>
     (P = keeps \<longrightarrow> (\<forall>y. old = Some y \<longrightarrow> (\<exists>x. new = Some x \<and> es_Cases x = es_Cases y \<and>
        es_RevisionDigest x = es_RevisionDigest y \<and> es_SuiteDigest x = es_SuiteDigest y)))"

lemma sees_refl: "sees P e e"
  by (auto simp: sees_def)

lemma blockedEdit_cases:
  "es_Cases (blockedEdit b want e) = (case e of None \<Rightarrow> [] | Some x \<Rightarrow> es_Cases x)"
  by (simp add: blockedEdit_def zero_eval_def split: option.split)

lemma sees_blocked:
  assumes sub: "\<And>e e'. P e e' \<Longrightarrow> prunes e e'" and "answers P a (blockedEdit b want (eval_of a)) a'"
  shows "sees P (eval_of a) (eval_of a')"
proof -
  from assms(2) have P: "P (blockedEdit b want (eval_of a)) (eval_of a')" by (auto simp: answers_def)
  have "\<exists>y c. eval_of a = Some y \<and> caseRecord (es_Cases y) i = Some c \<and> ec_Outcome c' = ec_Outcome c"
    if "eval_of a' = Some x" "caseRecord (es_Cases x) i = Some c'" for x i c'
    using sub [OF P] that by (auto simp: prunes_def blockedEdit_cases caseRecord_def split: option.splits)
  moreover have "\<exists>x. eval_of a' = Some x \<and> es_Cases x = es_Cases y \<and> es_RevisionDigest x = es_RevisionDigest y \<and>
      es_SuiteDigest x = es_SuiteDigest y" if "P = keeps" "eval_of a = Some y" for y
    using P that by (simp add: keeps_def blockedEdit_def)
  ultimately show ?thesis unfolding sees_def by blast
qed

lemma disciplined_syncBlocked:
  assumes sub: "\<And>e e'. P e e' \<Longrightarrow> prunes e e'" and a: "er_agent run = a"
    and k: "\<And>stop run' a'. (stop = None \<Longrightarrow> run' = run\<lparr> er_agent := a' \<rparr> \<and> sees P (eval_of a) (eval_of a'))
        \<Longrightarrow> disciplined P (k (stop, run')) None a'"
  shows "disciplined P (syncBlocked rq run b k) None a"
proof -
  have same: "run = run\<lparr> er_agent := a \<rparr>" using a by simp
  show ?thesis
    unfolding syncBlocked_def Let_def
  proof (split if_split, intro conjI impI)
    show "disciplined P (k (None, run)) None a" by (rule k) (use same sees_refl in auto)
    show "disciplined P (patchEval (er_agent run) (EBlocked b (blockedFor run)) (\<lambda>rep. case rep of
          Inl err \<Rightarrow> k (Some (if IsConflict err then RNone else RErr (msgf ''write status.eval.blocked'' [err_text err])), run)
        | Inr a \<Rightarrow> if blocked_kept (eval_of a) b (blockedFor run) then k (None, run\<lparr> er_agent := a \<rparr>)
            else k (Some (wait rq waitReadBack), run\<lparr> er_agent := a \<rparr>))) None a"
      unfolding a
    proof (rule disciplined_patchEval)
      fix e a' assume "apply_edit (EBlocked b (blockedFor run)) (eval_of a) = Edited e" "answers P a e a'"
      then have "sees P (eval_of a) (eval_of a')" by (auto simp: apply_edit_def intro: sees_blocked [OF sub])
      then show "disciplined P (case Inr a' of
          Inl err \<Rightarrow> k (Some (if IsConflict err then RNone else RErr (msgf ''write status.eval.blocked'' [err_text err])), run)
        | Inr a \<Rightarrow> if blocked_kept (eval_of a) b (blockedFor run) then k (None, run\<lparr> er_agent := a \<rparr>)
            else k (Some (wait rq waitReadBack), run\<lparr> er_agent := a \<rparr>)) (arm (EBlocked b (blockedFor run)) a') a'"
        by (auto simp: arm_def intro: k)
    qed (auto simp: edit_ok_def intro: k)
  qed
qed

section \<open>Every pass is disciplined\<close>

definition run_ok :: "evalRun \<Rightarrow> bool" where
  "run_ok run \<longleftrightarrow> er_suiteDigest run = suite_Digest (er_suite run) \<and> Threshold (er_suite run) = Inr (er_threshold run)"

definition holds_pair :: "evalRun \<Rightarrow> EvalStatus option \<Rightarrow> bool" where
  "holds_pair run e \<longleftrightarrow> recorded_pair e (er_revisionDigest run) (er_suiteDigest run)"

lemma holds_pair_Some: "holds_pair run (Some e) \<longleftrightarrow>
    es_RevisionDigest e = er_revisionDigest run \<and> es_SuiteDigest e = er_suiteDigest run"
  by (simp add: holds_pair_def recorded_pair_def)

lemma run_ok_agent [simp]: "run_ok (run\<lparr> er_agent := a \<rparr>) = run_ok run" "holds_pair (run\<lparr> er_agent := a \<rparr>) = holds_pair run"
  by (simp_all add: run_ok_def holds_pair_def fun_eq_iff)

lemma edit_ok_outcome:
  assumes "run_ok run" "eval_of a = Some e" "outcomeRecorded oc"
    and "\<And>c. caseRecord (es_Cases e) i = Some c \<Longrightarrow> ec_Outcome c = EvalCaseSending"
    and "P = keeps \<Longrightarrow> holds_pair run (eval_of a) \<and> caseRecord (es_Cases e) i \<noteq> None"
  shows "edit_ok P a (EOutcome run now i claim oc reason)"
  using assms by (auto simp: edit_ok_def run_ok_def holds_pair_Some)

lemma disciplined_record_loop:
  assumes "run_ok run" "outcomeRecorded oc" and k: "\<And>err a. disciplined P (k err) None a"
  shows "eval_of a = Some e \<Longrightarrow> claimed e i nonce \<Longrightarrow> (P = keeps \<Longrightarrow> holds_pair run (eval_of a)) \<Longrightarrow>
    disciplined P (record_loop n run a i nonce oc reason k) None a"
proof (induction n arbitrary: a e)
  case (Suc n)
  have ok: "edit_ok P a (EOutcome run now i nonce oc reason)" for now
    using Suc.prems assms(1,2) by (intro edit_ok_outcome [where e = e]) (auto simp: claimed_def split: option.splits)
  have again: "disciplined P (record_loop n run live i nonce oc reason k) None live"
    if "claim_stands run i nonce (eval_of live)" for live
  proof -
    from that obtain g where g: "eval_of live = Some g" "claimed g i nonce" "holds_pair run (eval_of live)"
      by (auto simp: claim_stands_def claimed_def holds_pair_Some split: if_splits option.splits)
    show ?thesis by (rule Suc.IH [OF g(1,2)]) (rule g(3))
  qed
  show ?case
    by (auto simp: arm_def intro!: disciplined_patchEval ok k again)
qed (simp add: k)

lemma disciplined_claimAndSend:
  assumes "run_ok run" "er_agent run = a"
    and fresh: "\<And>e. eval_of a = Some e \<Longrightarrow> caseRecord (es_Cases e) (ca_ID nxt) = None"
    and pair: "P = keeps \<Longrightarrow> holds_pair run (eval_of a)"
  shows "disciplined P (claimAndSend lib rq inp run nxt addr) None a"
proof (cases "eval_of a")
  case None
  then show ?thesis using assms(2) pair by (auto simp: claimAndSend_def run_status_def holds_pair_def recorded_pair_def)
next
  case (Some e)
  let ?i = "ca_ID nxt" and ?n = "pd_nonce inp"
  have send: "disciplined P (record_loop (pd_tries inp) (run\<lparr> er_agent := a' \<rparr>) a' ?i ?n
      (if oc_Passed out then EvalCasePassed else EvalCaseFailed) (oc_Reason out)
      (\<lambda>err. case err of Some s \<Rightarrow> Ret (RErr s) | None \<Rightarrow> Ret (wait rq waitSent))) None a'"
    if "eval_of a' = Some g" "claimed g ?i ?n" "answers P a (claimEdit ?i ?n e) a'" for a' g out
  proof (rule disciplined_record_loop [OF _ _ _ that(1,2)])
    show "run_ok (run\<lparr> er_agent := a' \<rparr>)" using assms(1) by simp
    show "outcomeRecorded (if oc_Passed out then EvalCasePassed else EvalCaseFailed)" by (simp add: outcomeRecorded_def)
    show "disciplined P (case err of Some s \<Rightarrow> Ret (RErr s) | None \<Rightarrow> Ret (wait rq waitSent)) None b" for err b
      by (simp split: option.split)
    show "holds_pair (run\<lparr> er_agent := a' \<rparr>) (eval_of a')" if "P = keeps"
      using that pair Some \<open>answers P a (claimEdit ?i ?n e) a'\<close>
      by (auto simp: answers_def keeps_def holds_pair_Some claimEdit_def)
  qed
  have "edit_ok P a (EClaim ?i ?n)" using Some fresh by (auto simp: edit_ok_def)
  moreover have lost: False if "P = keeps" "answers keeps a (claimEdit ?i ?n e) a'" "eval_of a' = None" for a'
    using that by (auto simp: answers_def keeps_def)
  ultimately show ?thesis
    using Some assms(2)
    by (auto simp: claimAndSend_def run_status_def Let_def apply_edit_def arm_def send
        intro!: disciplined_patchEval dest: lost split: option.split sum.split)
qed

lemma orphan_case_Some:
  "orphan_case cases ids = Some c \<Longrightarrow> caseRecord cases (ec_ID c) = Some c \<and> ec_Outcome c = EvalCaseSending"
  using caseRecord_ID [of cases _ c] by (auto simp: orphan_case_def find_Some_iff split: option.splits)

lemma next_case_Some: "next_case suite cases ids = Some nxt \<Longrightarrow> caseRecord cases (ca_ID nxt) = None"
  by (auto simp: next_case_def find_Some_iff split: option.splits dest: suiteCase_ID)

lemma disciplined_blockedOnce:
  assumes sub: "\<And>e e'. P e e' \<Longrightarrow> prunes e e'" and a: "er_agent run = a"
    and k: "\<And>stop run' a'. (stop = None \<Longrightarrow> run' = run\<lparr> er_agent := a' \<rparr> \<and> sees P (eval_of a) (eval_of a'))
        \<Longrightarrow> disciplined P (k (stop, run')) None a'"
  shows "disciplined P (blockedOnce rq run written b k) None a"
proof -
  have "disciplined P (k (None, run)) None a" by (rule k) (use a sees_refl in auto)
  moreover have "disciplined P (syncBlocked rq run b k) None a"
    by (rule disciplined_syncBlocked [OF sub a]) (use k in auto)
  ultimately show ?thesis by (simp add: blockedOnce_def)
qed

lemma disciplined_recordInterrupted:
  assumes "run_ok run" "er_agent run = a" "eval_of a = Some e"
    and "\<And>c'. caseRecord (es_Cases e) (ec_ID c) = Some c' \<Longrightarrow> ec_Outcome c' = EvalCaseSending"
    and "P = keeps \<Longrightarrow> holds_pair run (eval_of a) \<and> caseRecord (es_Cases e) (ec_ID c) \<noteq> None"
  shows "disciplined P (recordInterrupted rq run c) None a"
  using assms by (auto simp: recordInterrupted_def outcomeRecorded_def arm_def
      intro!: disciplined_patchEval edit_ok_outcome [where e = e])

lemma disciplined_nextCase:
  assumes sub: "\<And>e e'. P e e' \<Longrightarrow> prunes e e'" and "run_ok run" and a: "er_agent run = a"
    and pair: "P = keeps \<Longrightarrow> holds_pair run (eval_of a)"
  shows "disciplined P (nextCase lib rq inp run written) None a"
proof (cases "eval_of a")
  case None
  then show ?thesis using a pair by (auto simp: nextCase_def run_status_def holds_pair_def recorded_pair_def)
next
  case (Some e)
  have pair': "holds_pair run (eval_of a')" if "P = keeps" "sees P (eval_of a) (eval_of a')" for a'
    using pair that Some by (auto simp: sees_def holds_pair_Some)
  let ?ids = "suiteIDs (er_suite run)"
  have orphan: "disciplined P (recordInterrupted rq (run\<lparr> er_agent := a' \<rparr>) c) None a'"
    if c: "orphan_case (es_Cases e) ?ids = Some c" and s: "sees P (eval_of a) (eval_of a')" for a' c
  proof (cases "eval_of a'")
    case None
    then show ?thesis using pair' [OF _ s]
      by (auto simp: recordInterrupted_def patchEval_def apply_edit_def holds_pair_def recorded_pair_def)
  next
    case e': (Some e')
    have "caseRecord (es_Cases e) (ec_ID c) = Some c" "ec_Outcome c = EvalCaseSending"
      using orphan_case_Some [OF c] by auto
    with e' Some s pair' [OF _ s] show ?thesis using assms(2)
      by (intro disciplined_recordInterrupted [where e = e']) (fastforce simp: sees_def)+
  qed
  have claim: "disciplined P (claimAndSend lib rq inp (run\<lparr> er_agent := a' \<rparr>) nxt addr) None a'"
    if nxt: "next_case (er_suite run) (es_Cases e) ?ids = Some nxt" and s: "sees P (eval_of a) (eval_of a')" for a' nxt addr
  proof (rule disciplined_claimAndSend)
    show "caseRecord (es_Cases e') (ca_ID nxt) = None" if "eval_of a' = Some e'" for e'
      using next_case_Some [OF nxt] s that Some by (cases "caseRecord (es_Cases e') (ca_ID nxt)") (fastforce simp: sees_def)+
  qed (use assms(2) pair' s in simp_all)
  show ?thesis
    unfolding nextCase_def run_status_def a Some option.case Let_def
    by (auto intro!: disciplined_blockedOnce [OF sub a] disciplined_candidateAddress orphan claim
        split: option.split sum.split prod.split pass_result.split)
qed

lemma disciplined_startRun:
  assumes sub: "\<And>e e'. P e e' \<Longrightarrow> prunes e e'" and a: "er_agent run = a"
    and pair: "\<not> final_pair (eval_of a) (er_revisionDigest run) (er_suiteDigest run)"
    and k: "\<And>a'. holds_pair run (eval_of a') \<Longrightarrow> disciplined P (k (run\<lparr> er_agent := a' \<rparr>)) None a'"
  shows "disciplined P (startRun lib rq run k) None a"
proof -
  have kept: "disciplined P (k (run\<lparr> er_agent := a' \<rparr>)) None a'"
    if "start_kept (startRecord run path cd) (eval_of a')" for a' path cd
    using that by (intro k)
      (auto simp: start_kept_def holds_pair_def recorded_pair_def startRecord_def split: option.splits)
  show ?thesis
    unfolding startRun_def a using pair
    by (auto simp: edit_ok_def arm_def split: option.split sum.split prod.split pass_result.split
        intro!: disciplined_candidateAddress disciplined_fetchCard disciplined_syncBlocked [OF sub a] disciplined_patchEval)
      (erule kept)
qed

lemma disciplined_sync_then:
  assumes "\<And>e e'. P e e' \<Longrightarrow> prunes e e'" "er_agent run = a"
  shows "disciplined P (sync_then rq run b r) None a"
  unfolding sync_then_def by (rule disciplined_syncBlocked [OF assms]) (simp_all split: option.split)

lemma disciplined_runPair:
  assumes sub: "\<And>e e'. P e e' \<Longrightarrow> prunes e e'" and "run_ok run" and a: "er_agent run = a"
  shows "disciplined P (runPair lib rq inp run exempt) None a"
proof -
  have go: "disciplined P (nextCase lib rq inp run False) None a"
    if "in_progress (eval_of a) (er_revisionDigest run) (er_suiteDigest run)"
    using that by (intro disciplined_nextCase [OF sub assms(2) a]) (auto simp: in_progress_def holds_pair_def)
  have start: "disciplined P (startRun lib rq run (\<lambda>run. nextCase lib rq inp run True)) None a"
    if "\<not> final_pair (eval_of a) (er_revisionDigest run) (er_suiteDigest run)"
    by (rule disciplined_startRun [OF sub a that]) (use assms(2) in \<open>auto intro!: disciplined_nextCase [OF sub]\<close>)
  show ?thesis
    using go start by (auto simp: runPair_def run_status_def a Let_def disciplined_sync_then [OF sub a] split: prod.split)
qed

lemma disciplined_reconcileCandidate:
  assumes sub: "\<And>e e'. P e e' \<Longrightarrow> prunes e e'"
  shows "disciplined P (reconcileCandidate lib rq inp a exempt) None a"
  by (auto simp: reconcileCandidate_def Let_def run_ok_def intro!: disciplined_runPair [OF sub]
      split: sum.split prod.split option.split)

lemma disciplined_Reconcile:
  assumes sub: "\<And>e e'. P e e' \<Longrightarrow> prunes e e'"
  shows "disciplined P (Reconcile lib rq inp (Inr a)) None a"
proof -
  have "disciplined P (clearSuperseded a (\<lambda>stop. case stop of Some r \<Rightarrow> Ret r
      | None \<Rightarrow> reconcileCandidate lib rq inp a False)) None a"
    using disciplined_reconcileCandidate [of P lib rq inp a False] sub
    by (auto simp: clearSuperseded_def Let_def edit_ok_def arm_def intro!: disciplined_patchEval split: option.split sum.split)
  then show ?thesis using disciplined_reconcileCandidate [of P lib rq inp a True] sub
    by (auto simp: Reconcile_def Let_def)
qed

section \<open>When a pass may write or send\<close>

primrec sends_nothing :: "prog \<Rightarrow> bool" where
  "sends_nothing (Ret r) = True"
| "sends_nothing Hang = True"
| "sends_nothing Panic = True"
| "sends_nothing (GetService n k) = (\<forall>r. sends_nothing (k r))"
| "sends_nothing (FetchCard s t k) = (\<forall>r. sends_nothing (k r))"
| "sends_nothing (Now k) = (\<forall>t. sends_nothing (k t))"
| "sends_nothing (GetLive k) = (\<forall>r. sends_nothing (k r))"
| "sends_nothing (SendCase i cs k) = False"
| "sends_nothing (Patch b ed e k) = (\<forall>r. sends_nothing (k r))"

primrec writes_nothing :: "prog \<Rightarrow> bool" where
  "writes_nothing (Ret r) = True"
| "writes_nothing Hang = True"
| "writes_nothing Panic = True"
| "writes_nothing (GetService n k) = (\<forall>r. writes_nothing (k r))"
| "writes_nothing (FetchCard s t k) = (\<forall>r. writes_nothing (k r))"
| "writes_nothing (Now k) = (\<forall>t. writes_nothing (k t))"
| "writes_nothing (GetLive k) = (\<forall>r. writes_nothing (k r))"
| "writes_nothing (SendCase i cs k) = (\<forall>r. writes_nothing (k r))"
| "writes_nothing (Patch b ed e k) = False"

text \<open>A call after which nothing may be sent is one before which nothing may be.\<close>

lemma quiet_patchEval: "(\<And>r. sends_nothing (k r)) \<Longrightarrow> sends_nothing (patchEval a ed k)"
  by (simp add: patchEval_def split: edited.split)

lemma quiet_candidateAddress: "(\<And>r. sends_nothing (k r)) \<Longrightarrow> sends_nothing (candidateAddress lib run path k)"
  by (simp add: candidateAddress_def Let_def split: sum.split option.split)

lemma quiet_fetchCard: "(\<And>r. sends_nothing (k r)) \<Longrightarrow> sends_nothing (fetchCard rq addr path k)"
  by (simp add: fetchCard_def Let_def)

lemma quiet_syncBlocked: "(\<And>stop run'. sends_nothing (k (stop, run'))) \<Longrightarrow> sends_nothing (syncBlocked rq run b k)"
  by (auto simp: syncBlocked_def Let_def intro!: quiet_patchEval split: sum.split)

lemma quiet_blockedOnce: "(\<And>stop run'. sends_nothing (k (stop, run'))) \<Longrightarrow> sends_nothing (blockedOnce rq run w b k)"
  by (simp add: blockedOnce_def quiet_syncBlocked)

lemma quiet_sync_then: "sends_nothing (sync_then rq run b r)"
  unfolding sync_then_def by (intro quiet_syncBlocked) (simp split: option.split)

lemma quiet_nextCase: "pd_shutdown inp \<Longrightarrow> sends_nothing (nextCase lib rq inp run w)"
proof -
  assume "pd_shutdown inp"
  then have "sends_nothing (claimAndSend lib rq inp run' nxt addr)" for run' nxt addr
    by (simp add: claimAndSend_def Let_def split: option.split)
  then show ?thesis
    by (auto simp: nextCase_def Let_def recordInterrupted_def split: option.split sum.split pass_result.split
        intro!: quiet_blockedOnce quiet_candidateAddress quiet_patchEval)
qed

lemma quiet_startRun: "(\<And>run'. sends_nothing (k run')) \<Longrightarrow> sends_nothing (startRun lib rq run k)"
  unfolding startRun_def
  by (auto intro!: quiet_candidateAddress quiet_fetchCard quiet_syncBlocked quiet_patchEval
      split: option.split sum.split pass_result.split)

text \<open>Clause 5 as a pass beside an exempt Lock reads it.\<close>

definition clause5_clear :: "EvalReconciler \<Rightarrow> passReads \<Rightarrow> Agent \<Rightarrow> bool" where
  "clause5_clear rq inp agent \<longleftrightarrow>
     clause5 (rq_Gateway rq) (ag_Name agent) (RunNamespaceName (ag_Namespace agent)) (pd_above inp) (pd_foreign inp) (pd_ferr inp)
       = (None, False)"

lemma sends_runPair:
  assumes "\<not> sends_nothing (runPair lib rq inp run exempt)"
  shows "\<not> pd_shutdown inp \<and> \<not> final_pair (st_Eval (run_status run)) (er_revisionDigest run) (er_suiteDigest run) \<and>
    (exempt \<longrightarrow> clause5 (rq_Gateway rq) (ag_Name (er_agent run)) (er_runNS run) (pd_above inp) (pd_foreign inp) (pd_ferr inp) = (None, False))"
  using assms quiet_nextCase [of inp lib rq] quiet_startRun [of "\<lambda>run. nextCase lib rq inp run True" lib rq run]
  by (auto simp: runPair_def Let_def quiet_sync_then split: if_splits prod.splits)

section \<open>Properties\<close>

text \<open>
  C16. A pass may send a case only where every send predicate holds of the object it read: the Agent is
  live, gated and recorded by the Agent reconciler at its current generation; no Create or Lock is
  recorded but one that is exempt, and then clause 5 read clear; a candidate the current spec mints is
  pending, has an available replica of its own, a recorded card and no I1 hold; the suite was read
  with a readable threshold; the pair has no final verdict and is not in \<^verbatim>\<open>failed[]\<close>; and no shutdown
  had begun. Otherwise, whatever is answered, it sends nothing.
\<close>

theorem Reconcile_sends_only_if:
  assumes "\<not> sends_nothing (Reconcile lib rq inp (Inr a))"
  shows "ag_DeletionTimestamp a = None \<and> sp_Runtime (ag_Spec a) \<noteq> None \<and> sp_Gates (ag_Spec a) \<noteq> [] \<and> rq_Installed rq \<and>
    evalGenerationCurrent a \<and>
    (recordedTransaction (ag_Status a) = None \<or> (fst (exemptTransaction (ag_Status a)) \<and> clause5_clear rq inp a)) \<and>
    candidatePending (ag_Status a) \<and>
    workloadAvailableIn (pd_deployment inp) a (st_CandidateRevisionDigest (ag_Status a)) = Inr True \<and>
    i1Hold (rq_Gateway rq) (ag_Status a) (compiles lib a (RunNamespaceName (ag_Namespace a))) (pin_of (ag_Spec a) \<noteq> []) = [] \<and>
    hasCardFor (ag_Status a) (st_CandidateRevisionDigest (ag_Status a)) \<and>
    pinnedRollbackCandidate (pd_env inp) a = (False, None) \<and>
    (\<exists>suite th. pd_suite inp = Inr suite \<and> Threshold suite = Inr th \<and>
       \<not> final_pair (eval_of a) (st_CandidateRevisionDigest (ag_Status a)) (suite_Digest suite)) \<and>
    \<not> pd_shutdown inp"
proof -
  have cand: "candidatePending (ag_Status a) \<and>
    workloadAvailableIn (pd_deployment inp) a (st_CandidateRevisionDigest (ag_Status a)) = Inr True \<and>
    i1Hold (rq_Gateway rq) (ag_Status a) (compiles lib a (RunNamespaceName (ag_Namespace a))) (pin_of (ag_Spec a) \<noteq> []) = [] \<and>
    hasCardFor (ag_Status a) (st_CandidateRevisionDigest (ag_Status a)) \<and>
    pinnedRollbackCandidate (pd_env inp) a = (False, None) \<and>
    (\<exists>suite th. pd_suite inp = Inr suite \<and> Threshold suite = Inr th \<and>
       \<not> final_pair (eval_of a) (st_CandidateRevisionDigest (ag_Status a)) (suite_Digest suite)) \<and>
    \<not> pd_shutdown inp \<and> (x \<longrightarrow> clause5_clear rq inp a)"
    if "\<not> sends_nothing (reconcileCandidate lib rq inp a x)" for x
    using that by (auto simp: reconcileCandidate_def Let_def run_status_def clause5_clear_def dest!: sends_runPair
        split: if_splits sum.splits option.splits prod.splits)
  have clear: "sends_nothing (clearSuperseded a (\<lambda>stop. case stop of Some r \<Rightarrow> Ret r
      | None \<Rightarrow> reconcileCandidate lib rq inp a False))" if "sends_nothing (reconcileCandidate lib rq inp a False)"
    using that by (auto simp: clearSuperseded_def Let_def intro!: quiet_patchEval split: option.split sum.split)
  from assms consider (exempt) "fst (exemptTransaction (ag_Status a))" "\<not> sends_nothing (reconcileCandidate lib rq inp a True)"
    | (none) "recordedTransaction (ag_Status a) = None" "\<not> sends_nothing (reconcileCandidate lib rq inp a False)"
    using clear by (auto simp: Reconcile_def Let_def split: if_splits)
  then show ?thesis
    using assms by cases (use cand in \<open>auto simp: Reconcile_def Let_def split: if_splits\<close>)
qed

definition sample_gated_spec :: AgentSpec where
  "sample_gated_spec = zero_spec\<lparr> sp_Runtime := Some ((sample_runtime ''img'')\<lparr> rt_Env := [], rt_EnvFrom := [] \<rparr>),
     sp_Gates := [\<lparr> gr_EvalSuiteRef = ''suite'' \<rparr>] \<rparr>"

definition sample_candidate :: string where
  "sample_candidate = hex_sum256 (rev_encode sample_gated_spec (\<lambda>_. None))"

definition sample_gated :: "EvalStatus option \<Rightarrow> Agent" where
  "sample_gated e = (sample_agent sample_gated_spec)\<lparr> ag_Status := zero_status\<lparr> st_ObservedGeneration := 1,
     st_CandidateRevision := ''r1'', st_CandidateRevisionDigest := sample_candidate,
     st_Cards := [\<lparr> cd_Revision = ''r1'', cd_RevisionDigest = sample_candidate, cd_Name = ''n'', cd_Version = ''1'',
        cd_FetchedAt = Some 0, cd_Digest = ''c1'', cd_Signed = False, cd_SharedTaskState = False \<rparr>],
     st_Eval := e \<rparr> \<rparr>"

definition sample_running :: EvalStatus where
  "sample_running = zero_eval\<lparr> es_Verdict := EvalVerdictRunning, es_RevisionDigest := sample_candidate,
     es_SuiteDigest := suite_Digest (sample_suite [''b'', ''a''] ''0.66'' 10), es_EndpointPath := ''/m'', es_CardDigest := ''c1'',
     es_BlockedFor := Some \<lparr> bf_RevisionDigest = sample_candidate,
        bf_SuiteDigest = suite_Digest (sample_suite [''b'', ''a''] ''0.66'' 10), bf_LockDeadline = None \<rparr> \<rparr>"

definition sample_lib :: stdlib where
  "sample_lib = \<lparr> lib_addr = (\<lambda>_ _. sample_address), lib_json_valid = (\<lambda>_. True), lib_interfaces = (\<lambda>_. None),
     lib_url = (\<lambda>_. None), lib_unparse = sample_unparse \<rparr>"

definition sample_rq :: EvalReconciler where
  "sample_rq = \<lparr> rq_Installed = True, rq_Gateway = \<lparr> gw_Enabled = False, gw_Name = [], gw_Namespace = [], gw_HostnameSuffix = [], gw_ServingURL = [] \<rparr>,
     rq_RequeueAfter = 0, rq_CardFetchTimeout = 0 \<rparr>"

definition sample_reads :: passReads where
  "sample_reads = \<lparr> pd_deployment = Inr \<lparr> wl_Digest = sample_candidate, wl_AgentUID = ''u1'', wl_AvailableReplicas = 1 \<rparr>,
     pd_suite = Inr (sample_suite [''b'', ''a''] ''0.66'' 10), pd_env = Inr (\<lambda>_. None, []),
     pd_above = \<lparr> ga_policies = [], ga_widening = [], ga_unlisted = False, ga_gatewayErr = None, ga_listErr = None, ga_listeners = [], ga_unreadable = [] \<rparr>,
     pd_foreign = [], pd_ferr = None, pd_shutdown = False, pd_nonce = ''n'', pd_tries = 3 \<rparr>"

lemma sample_gated_pending: "candidatePending (ag_Status (sample_gated e))"
  by (simp add: candidatePending_def sample_gated_def zero_status_def sample_candidate_def flip: length_greater_0_conv)

lemma sample_minted: "pinnedRollbackCandidate (pd_env sample_reads) (sample_gated e) = (False, None)"
proof -
  have "rev_Digest sample_gated_spec (\<lambda>_. None) = Inr sample_candidate"
    by (simp add: rev_Digest_def sample_candidate_def UnknownEnvArms_def MissingSources_def EnvSources_def
        sample_gated_spec_def zero_spec_def sample_runtime_def)
  then show ?thesis
    by (simp add: pinnedRollbackCandidate_def pinnedRollbackHolds_def specDigestOf_def sample_reads_def
        sample_gated_def sample_agent_def)
qed

lemma sample_threshold: "Threshold (sample_suite [''b'', ''a''] ''0.66'' 10) = Inr 660"
  by (simp add: sample_defs Threshold_def thresholdForm_def is_digit_def dval_def Let_def)

definition sample_evalRun :: "Agent \<Rightarrow> evalRun" where
  "sample_evalRun a = \<lparr> er_agent = a, er_suiteName = ''suite'', er_suite = sample_suite [''b'', ''a''] ''0.66'' 10,
     er_suiteDigest = suite_Digest (sample_suite [''b'', ''a''] ''0.66'' 10), er_threshold = 660,
     er_runNS = RunNamespaceName ''team'', er_revision = ''r1'', er_revisionDigest = sample_candidate \<rparr>"

lemma sample_pass:
  "Reconcile sample_lib sample_rq sample_reads (Inr (sample_gated (Some sample_running))) =
     nextCase sample_lib sample_rq sample_reads (sample_evalRun (sample_gated (Some sample_running))) False"
proof -
  let ?a = "sample_gated (Some sample_running)"
  have a: "ag_DeletionTimestamp ?a = None" "sp_Runtime (ag_Spec ?a) \<noteq> None" "sp_Gates (ag_Spec ?a) = [\<lparr> gr_EvalSuiteRef = ''suite'' \<rparr>]"
    "evalGenerationCurrent ?a" "recordedTransaction (ag_Status ?a) = None" "eval_of ?a = Some sample_running"
    "ag_Namespace ?a = ''team''" "st_CandidateRevision (ag_Status ?a) = ''r1''"
    "st_CandidateRevisionDigest (ag_Status ?a) = sample_candidate"
    "st_Auth (ag_Status ?a) = None" "hasCardFor (ag_Status ?a) sample_candidate"
    by (simp_all add: sample_gated_def sample_agent_def sample_gated_spec_def zero_spec_def evalGenerationCurrent_def
        recordedTransaction_def authTransaction_def zero_status_def hasCardFor_def cardEntry_def card_for_def)
  have w: "workloadAvailableIn (pd_deployment sample_reads) ?a sample_candidate = Inr True"
    by (simp add: workloadAvailableIn_def sample_reads_def sample_gated_def sample_agent_def)
  have "es_Verdict sample_running = EvalVerdictRunning" "es_Failed sample_running = []"
    "in_progress (Some sample_running) sample_candidate (suite_Digest (sample_suite [''b'', ''a''] ''0.66'' 10))"
    by (simp_all add: sample_running_def zero_eval_def in_progress_def recorded_pair_def)
  then show ?thesis
    using a w sample_gated_pending [of "Some sample_running"] sample_minted [of "Some sample_running"] sample_threshold
    by (auto simp: Reconcile_def Let_def clearSuperseded_def reconcileCandidate_def i1Hold_def runPair_def run_status_def
        final_pair_def failedOf_def pairFailed_def sample_evalRun_def sample_rq_def sample_reads_def)
qed

text \<open>The sample pass: an address, the claim of case \<open>a\<close>, and its send.\<close>

lemma sample_prog:
  fixes e defines "e \<equiv> claimEdit ''a'' ''n'' sample_running" and "a \<equiv> sample_gated (Some sample_running)"
  shows "\<exists>n k k2. Reconcile sample_lib sample_rq sample_reads (Inr a) = GetService n k \<and>
    k (Inr ''10.0.0.1'') = Patch a (EClaim ''a'' ''n'') e k2 \<and>
    (\<forall>rv. \<exists>cs k3. k2 (Inr (with_eval (Some e) rv a)) = SendCase ''a'' cs k3)"
proof -
  let ?run = "sample_evalRun a"
  have e: "st_Eval (run_status ?run) = Some sample_running" "es_Cases sample_running = []" "eval_of a = Some sample_running"
    by (simp_all add: run_status_def sample_evalRun_def sample_gated_def sample_running_def zero_eval_def a_def)
  have ids: "suiteIDs (er_suite ?run) = [''a'', ''b'']" by (simp add: suiteIDs_def sample_evalRun_def sample_defs)
  have n: "orphan_case [] [''a'', ''b''] = None" "next_case (er_suite ?run) [] [''a'', ''b''] = Some (sample_case ''a'')"
    by (simp_all add: orphan_case_def next_case_def caseRecord_def suiteCase_def sample_evalRun_def sample_defs)
  have kept: "blocked_kept (Some sample_running) None (blockedFor ?run)"
    by (simp add: blocked_kept_def sample_running_def blockedFor_def sample_evalRun_def equalBlocked_def equalBlockedFor_def a_def
        recordedLockDeadline_def authTransaction_def run_status_def sample_gated_def zero_status_def zero_eval_def)
  have "claimed e ''a'' ''n''" by (simp add: claimed_def claimEdit_def caseRecord_withCase e_def)
  then have "\<exists>k2. claimAndSend sample_lib sample_rq sample_reads ?run (sample_case ''a'') addr = Patch a (EClaim ''a'' ''n'') e k2 \<and>
      (\<forall>rv. \<exists>cs k3. k2 (Inr (with_eval (Some e) rv a)) = SendCase ''a'' cs k3)" for addr
    using e by (auto simp: claimAndSend_def Let_def sample_reads_def patchEval_def apply_edit_def sample_case_def
        sample_evalRun_def e_def)
  moreover have "\<exists>n k. nextCase sample_lib sample_rq sample_reads ?run False = GetService n k \<and>
      (\<exists>addr. k (Inr ''10.0.0.1'') = claimAndSend sample_lib sample_rq sample_reads ?run (sample_case ''a'') addr)"
    using e n kept by (auto simp: nextCase_def ids Let_def candidateAddress_def Check_def sample_lib_def sample_address_def
        blockedOnce_def syncBlocked_def)
  ultimately show ?thesis unfolding a_def using sample_pass by metis
qed

lemma sample_sends: "\<not> sends_nothing (Reconcile sample_lib sample_rq sample_reads (Inr (sample_gated (Some sample_running))))"
proof -
  obtain n k k2 where p: "Reconcile sample_lib sample_rq sample_reads (Inr (sample_gated (Some sample_running))) = GetService n k"
    "\<exists>ed e. k (Inr ''10.0.0.1'') = Patch (sample_gated (Some sample_running)) ed e k2" "\<exists>r i cs k3. k2 r = SendCase i cs k3"
    using sample_prog by blast
  then have "\<not> sends_nothing (k (Inr ''10.0.0.1''))"
    by (metis sends_nothing.simps(8,9))
  then show ?thesis using p(1) by auto
qed

theorem Reconcile_sends_only_if_witness:
  "candidatePending (ag_Status (sample_gated (Some sample_running))) \<and> \<not> pd_shutdown sample_reads"
  using Reconcile_sends_only_if [OF sample_sends] by blast

text \<open>
  While a Create or Lock that is not exempt is recorded, or the Agent reconciler has not recorded
  what the current spec mints, or the Agent is being deleted, has no runtime or no gate, a pass makes
  no write at all and sends nothing: it returns, with the transaction's probe interval in the first
  case.
\<close>

theorem Reconcile_writes_nothing:
  "(recordedTransaction (ag_Status a) \<noteq> None \<and> \<not> fst (exemptTransaction (ag_Status a)) \<or>
    \<not> evalGenerationCurrent a \<or> ag_DeletionTimestamp a \<noteq> None \<or> sp_Runtime (ag_Spec a) = None \<or> sp_Gates (ag_Spec a) = []
     \<longrightarrow> writes_nothing (Reconcile lib rq inp (Inr a)) \<and> sends_nothing (Reconcile lib rq inp (Inr a)) \<and>
        Reconcile lib rq inp (Inr a) \<in> {Ret RNone, Ret (wait rq waitTransaction)})"
  by (auto simp: Reconcile_def Let_def)

theorem Reconcile_writes_nothing_witness:
  "writes_nothing (Reconcile sample_lib sample_rq sample_reads (Inr ((sample_gated None)\<lparr> ag_Generation := 2 \<rparr>)))"
proof -
  have "\<not> evalGenerationCurrent ((sample_gated None)\<lparr> ag_Generation := 2 \<rparr>)"
    by (simp add: evalGenerationCurrent_def sample_gated_def)
  then show ?thesis
    using Reconcile_writes_nothing [of "(sample_gated None)\<lparr> ag_Generation := 2 \<rparr>" sample_lib sample_rq sample_reads] by blast
qed

end
