(* ===== verification/Eval_Protocol.thy ===== *)
theory Eval_Protocol
  imports Eval_Controller
begin

text \<open>
  The eval controller in a cluster: any number of passes at once (two workers, an old leader beside a
  new one), each a program of \<^verbatim>\<open>Eval_Controller\<close>, over one stored Agent. The API server's optimistic
  lock, a patch whose answer is lost, a crash at any point and other writers of the object are steps
  of the relation; nothing orders them.

  Two parts are ghosts, which no step reads: the log of cases sent, and the epoch, which
  counts how often the stored record has lost a case entry. Within an epoch a case once entered
  stays entered, so an epoch is a run: its start or the clear of a superseded one ends the epoch before.
\<close>

section \<open>Worlds and steps\<close>

record pass =
  ps_agent :: Agent
  ps_armed :: "string option"
  ps_epoch :: nat
  ps_prog :: prog

record world =
  w_agent :: Agent
  w_epoch :: nat
  w_passes :: "pass list"
  w_log :: "(nat \<times> string) list"

definition case_ids :: "EvalStatus option \<Rightarrow> string set" where
  "case_ids e = (case e of None \<Rightarrow> {} | Some x \<Rightarrow> ec_ID ` set (es_Cases x))"

text \<open>A patch the server commits: the record as stored, under a new resource version.\<close>

definition commit :: "EvalStatus option \<Rightarrow> world \<Rightarrow> world" where
  "commit e w = w\<lparr> w_agent := with_eval e (Suc (ag_ResourceVersion (w_agent w))) (w_agent w),
     w_epoch := (if case_ids (eval_of (w_agent w)) \<subseteq> case_ids e then w_epoch w else Suc (w_epoch w)) \<rparr>"

definition with_pass :: "pass list \<Rightarrow> pass \<Rightarrow> pass list \<Rightarrow> world \<Rightarrow> world" where
  "with_pass xs p ys w = w\<lparr> w_passes := xs @ p # ys \<rparr>"

text \<open>The object changed by someone else, who leaves \<^verbatim>\<open>status.eval\<close> alone.\<close>

definition other_write :: "Agent \<Rightarrow> world \<Rightarrow> world" where
  "other_write a w = w\<lparr> w_agent := with_eval (eval_of (w_agent w)) (Suc (ag_ResourceVersion (w_agent w))) a \<rparr>"

definition send :: "nat \<Rightarrow> string \<Rightarrow> world \<Rightarrow> world" where
  "send ep i w = w\<lparr> w_log := w_log w @ [(ep, i)] \<rparr>"

text \<open>A call that changes nothing, answered.\<close>

inductive answered :: "prog \<Rightarrow> prog \<Rightarrow> bool" where
  service: "answered (GetService n k) (k r)"
| card: "answered (FetchCard s t k) (k r)"
| clock: "answered (Now k) (k t)"
| live_error: "answered (GetLive k) (k (Inl err))"

inductive step :: "storage \<Rightarrow> (Agent \<Rightarrow> prog \<Rightarrow> bool) \<Rightarrow> world \<Rightarrow> world \<Rightarrow> bool"
  for P :: storage and S :: "Agent \<Rightarrow> prog \<Rightarrow> bool" where
  start: "S (w_agent w) p \<Longrightarrow> w_passes w = xs \<Longrightarrow>
    step P S w (with_pass xs \<lparr> ps_agent = w_agent w, ps_armed = None, ps_epoch = w_epoch w, ps_prog = p \<rparr> [] w)"
| read: "w_passes w = xs @ p # ys \<Longrightarrow> answered (ps_prog p) q \<Longrightarrow>
    step P S w (with_pass xs (p\<lparr> ps_prog := q \<rparr>) ys w)"
| live: "w_passes w = xs @ p # ys \<Longrightarrow> ps_prog p = GetLive k \<Longrightarrow>
    step P S w (with_pass xs (p\<lparr> ps_agent := w_agent w, ps_prog := k (Inr (w_agent w)) \<rparr>) ys w)"
| patch_refused: "w_passes w = xs @ p # ys \<Longrightarrow> ps_prog p = Patch a ed e k \<Longrightarrow>
    step P S w (with_pass xs (p\<lparr> ps_armed := None, ps_prog := k (Inl err) \<rparr>) ys w)"
| patch_lost: "w_passes w = xs @ p # ys \<Longrightarrow> ps_prog p = Patch a ed e k \<Longrightarrow>
    ag_ResourceVersion a = ag_ResourceVersion (w_agent w) \<Longrightarrow> P e e' \<Longrightarrow> \<not> IsConflict err \<Longrightarrow>
    step P S w (with_pass xs (p\<lparr> ps_armed := None, ps_prog := k (Inl err) \<rparr>) ys (commit e' w))"
| patch_ok: "w_passes w = xs @ p # ys \<Longrightarrow> ps_prog p = Patch a ed e k \<Longrightarrow>
    ag_ResourceVersion a = ag_ResourceVersion (w_agent w) \<Longrightarrow> P e e' \<Longrightarrow> w' = commit e' w \<Longrightarrow>
    step P S w (with_pass xs (p\<lparr> ps_agent := w_agent w', ps_armed := arm ed (w_agent w'), ps_epoch := w_epoch w',
      ps_prog := k (Inr (w_agent w')) \<rparr>) ys w')"
| sent: "w_passes w = xs @ p # ys \<Longrightarrow> ps_prog p = SendCase i cs k \<Longrightarrow>
    step P S w (with_pass xs (p\<lparr> ps_armed := None, ps_prog := k r \<rparr>) ys (send (ps_epoch p) i w))"
| crash: "w_passes w = xs @ p # ys \<Longrightarrow> step P S w (w\<lparr> w_passes := xs @ ys \<rparr>)"
| other: "step P S w (other_write a w)"

definition fresh_world :: "Agent \<Rightarrow> world" where
  "fresh_world a = \<lparr> w_agent = a, w_epoch = 0, w_passes = [], w_log = [] \<rparr>"

abbreviation reaches :: "storage \<Rightarrow> (Agent \<Rightarrow> prog \<Rightarrow> bool) \<Rightarrow> world \<Rightarrow> world \<Rightarrow> bool" where
  "reaches P S \<equiv> (step P S)\<^sup>*\<^sup>*"

inductive_simps answered_simps [simp]: "answered (Ret r) q" "answered (SendCase i cs k) q" "answered (Patch a ed e k) q"

lemma disciplined_answered: "answered p q \<Longrightarrow> disciplined P p ar a \<Longrightarrow> disciplined P q ar a"
  by (induction rule: answered.induct) auto

section \<open>The invariant\<close>

definition armed_keys :: "pass list \<Rightarrow> (nat \<times> string) list" where
  "armed_keys ps = concat (map (\<lambda>p. case ps_armed p of None \<Rightarrow> [] | Some i \<Rightarrow> [(ps_epoch p, i)]) ps)"

definition keys :: "world \<Rightarrow> (nat \<times> string) list" where
  "keys w = w_log w @ armed_keys (w_passes w)"

definition keys_ok :: "world \<Rightarrow> bool" where
  "keys_ok w \<longleftrightarrow> distinct (keys w) \<and> (\<forall>(ep, i) \<in> set (keys w). ep \<le> w_epoch w \<and>
     (ep = w_epoch w \<longrightarrow> i \<in> case_ids (eval_of (w_agent w))))"

definition pass_ok :: "storage \<Rightarrow> Agent \<Rightarrow> pass \<Rightarrow> bool" where
  "pass_ok P a p \<longleftrightarrow> disciplined P (ps_prog p) (ps_armed p) (ps_agent p) \<and>
     ag_ResourceVersion (ps_agent p) \<le> ag_ResourceVersion a \<and>
     (ag_ResourceVersion (ps_agent p) = ag_ResourceVersion a \<longrightarrow> ps_agent p = a)"

definition world_ok :: "storage \<Rightarrow> world \<Rightarrow> bool" where
  "world_ok P w \<longleftrightarrow> keys_ok w \<and> (\<forall>p \<in> set (w_passes w). pass_ok P (w_agent w) p)"

lemma armed_keys_simps [simp]:
  "armed_keys [] = []" "armed_keys (p # ps) = (case ps_armed p of None \<Rightarrow> [] | Some i \<Rightarrow> [(ps_epoch p, i)]) @ armed_keys ps"
  "armed_keys (ps @ qs) = armed_keys ps @ armed_keys qs"
  by (simp_all add: armed_keys_def)

lemma world_sel [simp]:
  "w_agent (with_pass xs p ys w) = w_agent w" "w_epoch (with_pass xs p ys w) = w_epoch w"
  "w_passes (with_pass xs p ys w) = xs @ p # ys" "w_log (with_pass xs p ys w) = w_log w"
  "w_passes (commit e w) = w_passes w" "w_log (commit e w) = w_log w" "eval_of (w_agent (commit e w)) = e"
  "w_agent (send ep i w) = w_agent w" "w_epoch (send ep i w) = w_epoch w" "w_passes (send ep i w) = w_passes w"
  "w_log (send ep i w) = w_log w @ [(ep, i)]"
  "w_passes (other_write a w) = w_passes w" "w_log (other_write a w) = w_log w" "w_epoch (other_write a w) = w_epoch w"
  "eval_of (w_agent (other_write a w)) = eval_of (w_agent w)"
  by (simp_all add: with_pass_def commit_def send_def other_write_def)

lemma world_rv [simp]:
  "ag_ResourceVersion (w_agent (commit e w)) = Suc (ag_ResourceVersion (w_agent w))"
  "ag_ResourceVersion (w_agent (other_write a w)) = Suc (ag_ResourceVersion (w_agent w))"
  by (simp_all add: commit_def other_write_def)

lemma pass_ok_newer:
  "pass_ok P a p \<Longrightarrow> ag_ResourceVersion b = Suc (ag_ResourceVersion a) \<Longrightarrow> pass_ok P b p"
  by (auto simp: pass_ok_def)

lemma keys_okI:
  assumes "keys_ok w" "distinct (keys w')" "set (keys w') \<subseteq> set (keys w)" "w_epoch w' = w_epoch w"
    "case_ids (eval_of (w_agent w)) \<subseteq> case_ids (eval_of (w_agent w'))"
  shows "keys_ok w'"
proof -
  have "ep \<le> w_epoch w' \<and> (ep = w_epoch w' \<longrightarrow> i \<in> case_ids (eval_of (w_agent w')))" if "(ep, i) \<in> set (keys w')" for ep i
  proof -
    have "(ep, i) \<in> set (keys w)" using that assms(3) by blast
    then have "ep \<le> w_epoch w \<and> (ep = w_epoch w \<longrightarrow> i \<in> case_ids (eval_of (w_agent w)))"
      using assms(1) by (auto simp: keys_ok_def)
    then show ?thesis using assms(4,5) by auto
  qed
  then show ?thesis using assms(2) by (auto simp: keys_ok_def)
qed

lemma keys_ok_commit:
  assumes "keys_ok w"
  shows "keys_ok (commit e w)"
proof (cases "case_ids (eval_of (w_agent w)) \<subseteq> case_ids e")
  case True
  then show ?thesis using assms
    by (intro keys_okI [OF assms]) (simp_all add: keys_def keys_ok_def commit_def)
next
  case False
  then have ep: "w_epoch (commit e w) = Suc (w_epoch w)" by (simp add: commit_def)
  have k: "keys (commit e w) = keys w" by (simp add: keys_def)
  have "ep \<le> w_epoch w" if "(ep, i) \<in> set (keys w)" for ep i
    using assms that by (auto simp: keys_ok_def)
  then show ?thesis using assms unfolding keys_ok_def k ep by fastforce
qed

lemma keys_ok_pass:
  assumes "keys_ok w" "w_passes w = xs @ p # ys" "ps_armed q = None \<or> (ps_armed q = ps_armed p \<and> ps_epoch q = ps_epoch p)"
  shows "keys_ok (with_pass xs q ys w)"
  using assms by (intro keys_okI [OF assms(1)]) (auto simp: keys_def keys_ok_def split: option.splits)

lemma keys_ok_arm:
  assumes "keys_ok w" "w_passes w = xs @ p # ys" "i \<in> case_ids (eval_of (w_agent w))" "(w_epoch w, i) \<notin> set (keys w)"
    and q: "ps_armed q = Some i" "ps_epoch q = w_epoch w"
  shows "keys_ok (with_pass xs q ys w)"
proof -
  let ?w = "with_pass xs (q\<lparr> ps_armed := None \<rparr>) ys w"
  have w: "keys_ok ?w" by (rule keys_ok_pass [OF assms(1,2)]) simp
  have "set (keys ?w) \<subseteq> set (keys w)" using assms(2) by (auto simp: keys_def split: option.splits)
  with assms(4) have new: "(w_epoch w, i) \<notin> set (keys ?w)" by blast
  then have "distinct (keys (with_pass xs q ys w))"
    using w q by (auto simp: keys_ok_def keys_def)
  moreover have "set (keys (with_pass xs q ys w)) = insert (w_epoch w, i) (set (keys ?w))"
    using q by (auto simp: keys_def)
  ultimately show ?thesis using w assms(3) by (auto simp: keys_ok_def)
qed

lemma keys_ok_send:
  assumes "keys_ok w" "w_passes w = xs @ p # ys" "ps_armed p = Some i" "ps_armed q = None"
  shows "keys_ok (with_pass xs q ys (send (ps_epoch p) i w))"
  using assms by (intro keys_okI [OF assms(1)]) (auto simp: keys_def keys_ok_def)

lemma keys_ok_crash:
  assumes "keys_ok w" "w_passes w = xs @ p # ys"
  shows "keys_ok (w\<lparr> w_passes := xs @ ys \<rparr>)"
  using assms by (intro keys_okI [OF assms(1)]) (auto simp: keys_def keys_ok_def)

lemma passes_ok_replace:
  assumes "\<forall>r \<in> set (w_passes w). pass_ok P (w_agent w) r" "w_passes w = xs @ p # ys" "pass_ok P b q"
    and "b = w_agent w \<or> ag_ResourceVersion b = Suc (ag_ResourceVersion (w_agent w))"
  shows "\<forall>r \<in> set (xs @ q # ys). pass_ok P b r"
  using assms pass_ok_newer by fastforce

section \<open>What any disciplined controller guarantees\<close>

text \<open>
  The protocol's facts rest on two laws only: what is stored of a record is a pruning of it, and every
  pass that starts is disciplined. They are proved once for any such controller.
\<close>

locale eval_worker =
  fixes P :: storage
    and S :: "Agent \<Rightarrow> prog \<Rightarrow> bool"
  assumes storage: "P e e' \<Longrightarrow> prunes e e'"
    and started: "S a p \<Longrightarrow> disciplined P p None a"
begin

lemma patch_base:
  assumes "pass_ok P a p" "ps_prog p = Patch b ed e k" "ag_ResourceVersion b = ag_ResourceVersion a"
  shows "b = a" "ps_agent p = a" "apply_edit ed (eval_of a) = Edited e" "edit_ok P a ed"
    "disciplined P (k (Inl err)) None a" "answers P a e a' \<Longrightarrow> disciplined P (k (Inr a')) (arm ed a') a'"
  using assms by (auto simp: pass_ok_def)

lemma arm_new:
  assumes "keys_ok w" "edit_ok P (w_agent w) ed" "arm ed (w_agent (commit e' w)) = Some i"
  shows "i \<in> case_ids e'" "(w_epoch (commit e' w), i) \<notin> set (keys (commit e' w))"
proof -
  from assms(3) obtain nonce g where ed: "ed = EClaim i nonce" "e' = Some g" "claimed g i nonce"
    by (auto simp: arm_def split: edit.splits option.splits if_splits)
  then show "i \<in> case_ids e'"
    using caseRecord_ID [of "es_Cases g" i] by (auto simp: claimed_def case_ids_def split: option.splits)
  from assms(2) ed have fresh: "i \<notin> case_ids (eval_of (w_agent w))"
    by (auto simp: edit_ok_def case_ids_def caseRecord_None)
  have "ep \<le> w_epoch w \<and> (ep = w_epoch w \<longrightarrow> j \<in> case_ids (eval_of (w_agent w)))" if "(ep, j) \<in> set (keys w)" for ep j
    using assms(1) that by (auto simp: keys_ok_def)
  then have "(w_epoch w, i) \<notin> set (keys w)" "(Suc (w_epoch w), i) \<notin> set (keys w)"
    using fresh by fastforce+
  moreover have "keys (commit e' w) = keys w" by (simp add: keys_def)
  ultimately show "(w_epoch (commit e' w), i) \<notin> set (keys (commit e' w))" by (simp add: commit_def)
qed

lemma step_keeps_keys:
  assumes "world_ok P w" "step P S w w'"
  shows "keys_ok w'"
  using assms(2)
proof cases
  case (patch_ok xs p ys a ed e k e' w1)
  have p: "pass_ok P (w_agent w) p" and k: "keys_ok w" using assms(1) patch_ok by (auto simp: world_ok_def)
  have ok: "edit_ok P (w_agent w) ed" by (rule patch_base(4) [OF p patch_ok(3,4)])
  show ?thesis
  proof (cases "arm ed (w_agent w1)")
    case None
    then show ?thesis unfolding patch_ok by (intro keys_ok_pass [where p = p] keys_ok_commit k) (simp_all add: patch_ok)
  next
    case (Some i)
    note new = arm_new [OF k ok Some [unfolded patch_ok(6)]]
    show ?thesis unfolding patch_ok(1)
      by (rule keys_ok_arm [where p = p and i = i]) (use new Some patch_ok keys_ok_commit [OF k] in simp_all)
  qed
next
  case (sent xs p ys i cs k r)
  then have "ps_armed p = Some i" using assms(1) by (auto simp: world_ok_def pass_ok_def)
  with sent assms(1) show ?thesis by (auto simp: world_ok_def intro: keys_ok_send)
next
  case (start p xs)
  then show ?thesis using assms(1) by (auto simp: world_ok_def keys_def keys_ok_def intro!: keys_okI)
next
  case (other a)
  then show ?thesis using assms(1) by (auto simp: world_ok_def keys_def keys_ok_def intro!: keys_okI)
next
  case (crash xs p ys)
  then show ?thesis using assms(1) by (auto simp: world_ok_def intro: keys_ok_crash)
qed (use assms(1) in \<open>auto simp: world_ok_def intro!: keys_ok_pass keys_ok_commit\<close>)

lemma step_keeps_passes:
  assumes "world_ok P w" "step P S w w'"
  shows "\<forall>p \<in> set (w_passes w'). pass_ok P (w_agent w') p"
proof -
  from assms(1) have ps: "\<forall>p \<in> set (w_passes w). pass_ok P (w_agent w) p" by (simp add: world_ok_def)
  note rep = passes_ok_replace [OF ps]
  have same: "pass_ok P (w_agent w) (p\<lparr> ps_armed := ar, ps_prog := q \<rparr>)"
    if "pass_ok P (w_agent w) p" "disciplined P q ar (ps_agent p)" for p ar q
    using that by (simp add: pass_ok_def)
  show ?thesis
    using assms(2)
  proof cases
    case (patch_ok xs p ys a ed e k e' w1)
    have p: "pass_ok P (w_agent w) p" using ps patch_ok by auto
    have "answers P (w_agent w) e (w_agent w1)"
      using patch_ok by (auto simp: answers_def commit_def)
    then have "disciplined P (k (Inr (w_agent w1))) (arm ed (w_agent w1)) (w_agent w1)"
      by (rule patch_base(6) [OF p patch_ok(3,4)])
    then have "pass_ok P (w_agent w1) (p\<lparr> ps_agent := w_agent w1, ps_armed := arm ed (w_agent w1), ps_epoch := w_epoch w1,
        ps_prog := k (Inr (w_agent w1)) \<rparr>)" by (simp add: pass_ok_def)
    from rep [OF patch_ok(2) this] show ?thesis using patch_ok by simp
  next
    case (patch_lost xs p ys a ed e k e' err)
    have p: "pass_ok P (w_agent w) p" using ps patch_lost by auto
    have "disciplined P (k (Inl err)) None (ps_agent p)"
      using patch_base(2,5) [OF p patch_lost(3,4)] by simp
    from pass_ok_newer [OF same [OF p this], of "w_agent (commit e' w)"]
    have "pass_ok P (w_agent (commit e' w)) (p\<lparr> ps_armed := None, ps_prog := k (Inl err) \<rparr>)" by simp
    from rep [OF patch_lost(2) this] show ?thesis using patch_lost by simp
  next
    case (patch_refused xs p ys a ed e k err)
    have p: "pass_ok P (w_agent w) p" using ps patch_refused by auto
    then have "disciplined P (k (Inl err)) None (ps_agent p)" using patch_refused by (simp add: pass_ok_def)
    from rep [OF patch_refused(2) same [OF p this]] show ?thesis using patch_refused by simp
  next
    case (sent xs p ys i cs k r)
    have p: "pass_ok P (w_agent w) p" using ps sent by auto
    then have "disciplined P (k r) None (ps_agent p)" using sent by (cases r) (simp add: pass_ok_def)
    from rep [OF sent(2) same [OF p this]] show ?thesis using sent by simp
  next
    case (live xs p ys k)
    have p: "pass_ok P (w_agent w) p" using ps live by auto
    then have "pass_ok P (w_agent w) (p\<lparr> ps_agent := w_agent w, ps_prog := k (Inr (w_agent w)) \<rparr>)"
      using live by (simp add: pass_ok_def)
    from rep [OF live(2) this] show ?thesis using live by simp
  next
    case (start p xs)
    then show ?thesis using ps started by (simp add: pass_ok_def)
  next
    case (other a)
    then show ?thesis using ps by (auto intro: pass_ok_newer)
  next
    case (read xs p ys q)
    then have "pass_ok P (w_agent w) (p\<lparr> ps_prog := q \<rparr>)"
      using ps disciplined_answered by (fastforce simp: pass_ok_def)
    from rep [OF read(2) this] show ?thesis using read by simp
  next
    case (crash xs p ys)
    then show ?thesis using ps by simp
  qed
qed

lemma step_world_ok: "world_ok P w \<Longrightarrow> step P S w w' \<Longrightarrow> world_ok P w'"
  using step_keeps_keys [of w w'] step_keeps_passes [of w w'] unfolding world_ok_def [of P w'] by blast

lemma reaches_world_ok:
  assumes "reaches P S (fresh_world a) w"
  shows "world_ok P w"
  using assms
proof (induction rule: rtranclp_induct)
  case base
  show ?case by (simp add: world_ok_def keys_ok_def keys_def fresh_world_def)
qed (rule step_world_ok)

lemma sent_once: "reaches P S (fresh_world a) w \<Longrightarrow> distinct (w_log w)"
  using reaches_world_ok [of a w] by (simp add: world_ok_def keys_ok_def keys_def)

end

section \<open>Outcomes and verdicts\<close>

definition outcome_of :: "EvalStatus option \<Rightarrow> string \<Rightarrow> EvalCaseOutcome option" where
  "outcome_of e i = (case e of None \<Rightarrow> None | Some x \<Rightarrow> map_option ec_Outcome (caseRecord (es_Cases x) i))"

lemma outcome_of_ids: "outcome_of e i = None \<longleftrightarrow> i \<notin> case_ids e"
  by (auto simp: outcome_of_def case_ids_def caseRecord_None split: option.split)

lemma edit_keeps_outcome:
  assumes "apply_edit ed (eval_of a) = Edited e" "edit_ok P a ed" "outcome_of (eval_of a) i = Some oc" "outcomeRecorded oc"
  shows "outcome_of (Some e) i = Some oc \<or> es_Cases e = []"
proof (cases ed)
  case (EOutcome run now j claim oc' reason)
  with assms have "i \<noteq> j" by (auto simp: edit_ok_def outcome_of_def outcomeRecorded_def)
  then show ?thesis using assms EOutcome
    by (auto simp: apply_edit_def outcome_of_def withOutcome_fields caseRecord_withCase split: option.splits)
next
  case (EClaim j nonce)
  with assms have "i \<noteq> j" by (auto simp: edit_ok_def outcome_of_def)
  then show ?thesis using assms EClaim
    by (auto simp: apply_edit_def outcome_of_def claimEdit_def caseRecord_withCase split: option.splits)
next
  case (EStart run path cd active)
  then show ?thesis using assms startEdit_fields(1) by (auto simp: apply_edit_def split: option.splits)
qed (use assms in \<open>auto simp: apply_edit_def clearEdit_def outcome_of_def blockedEdit_cases split: option.splits\<close>)

lemma stored_outcome:
  assumes "prunes e e'" "outcome_of e' i = Some oc"
  shows "outcome_of (Some e) i = Some oc"
  using assms by (fastforce simp: prunes_def outcome_of_def split: option.splits)

text \<open>A verdict a suite of the recorded digest supports.\<close>

definition supports :: "EvalSuiteSpec \<Rightarrow> EvalStatus \<Rightarrow> bool" where
  "supports suite e \<longleftrightarrow> suite_Digest suite = es_SuiteDigest e \<and>
     (\<forall>i \<in> set (suiteIDs suite). has_outcome (es_Cases e) i) \<and>
     (\<exists>th. Threshold suite = Inr th \<and>
        (es_Verdict e = EvalVerdictPassed \<longleftrightarrow>
           Passes (int (length (filter (has_passed (es_Cases e)) (suiteIDs suite)))) (int (length (suiteIDs suite))) th))"

definition supported :: "EvalStatus \<Rightarrow> bool" where
  "supported e \<longleftrightarrow> (es_Verdict e = EvalVerdictPassed \<or> es_Verdict e = EvalVerdictFailed \<longrightarrow> (\<exists>suite. supports suite e))"

lemma supports_cong:
  assumes "supports suite e" "es_SuiteDigest e' = es_SuiteDigest e" "es_Verdict e' = es_Verdict e"
    and "\<And>i. has_outcome (es_Cases e) i \<Longrightarrow> caseRecord (es_Cases e') i = caseRecord (es_Cases e) i"
  shows "supports suite e'"
proof -
  have ids: "has_outcome (es_Cases e') i \<and> (has_passed (es_Cases e') i \<longleftrightarrow> has_passed (es_Cases e) i)"
    if "i \<in> set (suiteIDs suite)" for i
    using that assms(1,4) by (auto simp: supports_def has_outcome_def has_passed_def)
  then have "filter (has_passed (es_Cases e')) (suiteIDs suite) = filter (has_passed (es_Cases e)) (suiteIDs suite)"
    by (intro filter_cong) auto
  with ids assms(1-3) show ?thesis by (auto simp: supports_def)
qed

lemma withOutcome_supported:
  assumes "supported e" "caseRecord (es_Cases e) i \<noteq> None \<Longrightarrow> \<not> has_outcome (es_Cases e) i"
    and "er_suiteDigest run = suite_Digest (er_suite run)" "Threshold (er_suite run) = Inr (er_threshold run)"
    and "es_SuiteDigest e = er_suiteDigest run"
  shows "supported (withOutcome run now i claim oc reason e)"
proof -
  let ?e = "withOutcome run now i claim oc reason e" and ?ids = "suiteIDs (er_suite run)"
  have keep: "caseRecord (es_Cases ?e) j = caseRecord (es_Cases e) j" if "has_outcome (es_Cases e) j" for j
    using that assms(2) by (auto simp: withOutcome_fields caseRecord_withCase has_outcome_def split: option.splits)
  show ?thesis
  proof (cases "\<forall>s \<in> set ?ids. has_outcome (es_Cases ?e) s")
    case True
    have "supports (er_suite run) ?e"
      unfolding supports_def using True assms(3-5) withOutcome_verdict' [of run now i claim oc reason e]
      by (auto simp: withOutcome_fields)
    then show ?thesis by (auto simp: supported_def)
  next
    case False
    then have "es_Verdict ?e = es_Verdict e"
      using withOutcome_verdict' [of run now i claim oc reason e] by blast
    then show ?thesis using assms(1) supports_cong [OF _ _ _ keep]
      by (auto simp: supported_def withOutcome_fields)
  qed
qed

definition record_ok :: "EvalStatus option \<Rightarrow> bool" where
  "record_ok e = (case e of None \<Rightarrow> True | Some x \<Rightarrow> eval_ok x \<and> supported x)"

lemma fresh_record_ok: "eval_ok zero_eval" "supported zero_eval"
  by (simp_all add: eval_ok_def zero_eval_def cases_ok_def passed_ok_def supported_def)

lemma blocked_record_ok: "record_ok e \<Longrightarrow> record_ok (Some (blockedEdit b want e))"
  using fresh_record_ok
  by (cases e) (auto simp: record_ok_def blockedEdit_def eval_ok_def supported_def supports_def)

lemma start_record_ok:
  assumes "record_ok cur" "startEdit (startRecord run path cd) active cur = Some e"
  shows "record_ok (Some e)"
proof (cases cur)
  case None
  with assms(2) show ?thesis
    by (auto simp: startEdit_def startRecord_def record_ok_def eval_ok_def supported_def zero_eval_def cases_ok_def passed_ok_def)
next
  case (Some x)
  with assms(1) have x: "eval_ok x" by (simp add: record_ok_def)
  then have "passed_ok (es_Passed e)" using startEdit_passed_ok assms(2) Some by (simp add: eval_ok_def)
  with x Some startEdit_fields [OF assms(2)] show ?thesis
    by (simp add: record_ok_def eval_ok_def supported_def cases_ok_def failedOf_def)
qed

lemma edit_record_ok:
  assumes "apply_edit ed (eval_of a) = Edited e" "edit_ok keeps a ed" "record_ok (eval_of a)"
  shows "record_ok (Some e)"
proof (cases ed)
  case (EBlocked b want)
  then show ?thesis using assms blocked_record_ok by (auto simp: apply_edit_def)
next
  case (EStart run path cd active)
  then show ?thesis using assms start_record_ok by (auto simp: apply_edit_def split: option.splits)
next
  case EClear
  then obtain x where x: "eval_of a = Some x" "e = clearEdit x"
    using assms(1) by (auto simp: apply_edit_def split: option.splits)
  with assms(3) show ?thesis by (auto simp: record_ok_def supported_def clearEdit_def eval_ok_def cases_ok_def)
next
  case (EClaim i nonce)
  then obtain x where x: "eval_of a = Some x" "e = claimEdit i nonce x" "caseRecord (es_Cases x) i = None"
    using assms(1,2) by (auto simp: apply_edit_def edit_ok_def)
  from x assms(3) have ok: "eval_ok x" "supported x" by (simp_all add: record_ok_def)
  have "eval_ok e" using ok(1) withCase_ok x(2) by (auto simp: eval_ok_def claimEdit_def)
  moreover have "supports s e" if "supports s x" for s
    using that x(2,3) by (intro supports_cong [OF that])
      (auto simp: claimEdit_def caseRecord_withCase has_outcome_def split: option.splits)
  ultimately show ?thesis using ok(2) x(2) by (auto simp: record_ok_def supported_def claimEdit_def)
next
  case (EOutcome run now i claim oc reason)
  then obtain x where x: "eval_of a = Some x" "e = withOutcome run now i claim oc reason x"
      "\<not> has_outcome (es_Cases x) i" "es_RevisionDigest x = er_revisionDigest run" "es_SuiteDigest x = er_suiteDigest run"
      "er_suiteDigest run = suite_Digest (er_suite run)" "Threshold (er_suite run) = Inr (er_threshold run)"
    using assms(1,2) by (auto simp: apply_edit_def edit_ok_def has_outcome_def outcomeRecorded_def)
  from x assms(3) have "eval_ok x" "supported x" by (simp_all add: record_ok_def)
  with x show ?thesis
    using eval_edits_ok [of x run i claim now oc reason] withOutcome_supported [of x i run now claim oc reason]
    by (simp add: record_ok_def)
qed

context eval_worker
begin

lemma outcome_final:
  assumes "world_ok P w" "step P S w w'" "w_epoch w' = w_epoch w"
    and oc: "outcome_of (eval_of (w_agent w)) i = Some oc" "outcomeRecorded oc"
  shows "outcome_of (eval_of (w_agent w')) i = Some oc"
proof -
  have kept: "outcome_of e' i = Some oc"
    if p: "pass_ok P (w_agent w) p" "ps_prog p = Patch b ed e k" "ag_ResourceVersion b = ag_ResourceVersion (w_agent w)"
      and "P e e'" "w_epoch (commit e' w) = w_epoch w" for p b ed e k e'
  proof -
    have "case_ids (eval_of (w_agent w)) \<subseteq> case_ids e'"
      using that(5) by (simp add: commit_def split: if_splits)
    then obtain oc' where oc': "outcome_of e' i = Some oc'"
      using oc(1) outcome_of_ids by (metis not_Some_eq option.distinct(1) subsetD)
    from stored_outcome [OF storage [OF that(4)] oc'] have "outcome_of (Some e) i = Some oc'" .
    with edit_keeps_outcome [OF patch_base(3,4) [OF p] oc] oc' show ?thesis
      by (auto simp: outcome_of_def caseRecord_def)
  qed
  show ?thesis
    using assms(2)
  proof cases
    case (patch_ok xs p ys a ed e k e' w1)
    then show ?thesis using assms(1,3) kept [of p a ed e k e'] by (auto simp: world_ok_def)
  next
    case (patch_lost xs p ys a ed e k e' err)
    then show ?thesis using assms(1,3) kept [of p a ed e k e'] by (auto simp: world_ok_def)
  qed (use oc in simp_all)
qed

end

definition records_ok :: "world \<Rightarrow> bool" where
  "records_ok w \<longleftrightarrow> record_ok (eval_of (w_agent w)) \<and> (\<forall>p \<in> set (w_passes w). record_ok (eval_of (ps_agent p)))"

text \<open>Where the record is kept whole, every record in the store or in hand is well formed and supported.\<close>

locale keeping_worker = eval_worker keeps S for S :: "Agent \<Rightarrow> prog \<Rightarrow> bool"
begin

lemma commit_record_ok:
  assumes "pass_ok keeps (w_agent w) p" "ps_prog p = Patch b ed e k" "ag_ResourceVersion b = ag_ResourceVersion (w_agent w)"
    "keeps e e'" "record_ok (eval_of (w_agent w))"
  shows "record_ok (eval_of (w_agent (commit e' w)))"
  using edit_record_ok [OF patch_base(3,4) [OF assms(1-3)] assms(5)] assms(4) by (simp add: keeps_def)

lemma step_records_ok:
  assumes "world_ok keeps w" "records_ok w" "step keeps S w w'"
  shows "records_ok w'"
  using assms(3)
proof cases
  case (patch_ok xs p ys a ed e k e' w1)
  have "record_ok (eval_of (w_agent w1))"
    unfolding patch_ok(6) using assms(1,2) patch_ok(2)
    by (intro commit_record_ok [OF _ patch_ok(3,4,5)]) (auto simp: world_ok_def records_ok_def)
  then show ?thesis using assms(2) patch_ok by (auto simp: records_ok_def)
next
  case (patch_lost xs p ys a ed e k e' err)
  have "record_ok (eval_of (w_agent (commit e' w)))"
    using assms(1,2) patch_lost(2)
    by (intro commit_record_ok [OF _ patch_lost(3,4,5)]) (auto simp: world_ok_def records_ok_def)
  then show ?thesis using assms(2) patch_lost by (auto simp: records_ok_def)
qed (use assms(2) in \<open>auto simp: records_ok_def\<close>)

lemma reaches_records_ok:
  assumes "reaches keeps S (fresh_world a) w" "record_ok (eval_of a)"
  shows "records_ok w"
  using assms
proof (induction rule: rtranclp_induct)
  case base
  then show ?case by (simp add: records_ok_def fresh_world_def)
next
  case (step w w')
  then show ?case using step_records_ok [OF reaches_world_ok [OF step.hyps(1)]] by blast
qed

lemma not_stuck:
  assumes "reaches keeps S (fresh_world a) w" "record_ok (eval_of a)" "p \<in> set (w_passes w)"
  shows "ps_prog p \<noteq> Hang \<and> ps_prog p \<noteq> Panic"
proof -
  have "disciplined keeps (ps_prog p) (ps_armed p) (ps_agent p)" "record_ok (eval_of (ps_agent p))"
    using reaches_world_ok [OF assms(1)] reaches_records_ok [OF assms(1,2)] assms(3)
    by (auto simp: world_ok_def pass_ok_def records_ok_def)
  then show ?thesis by (auto simp: record_ok_def eval_ok_def)
qed

end

section \<open>The eval controller is such a worker\<close>

definition eval_passes :: "Agent \<Rightarrow> prog \<Rightarrow> bool" where
  "eval_passes a p \<longleftrightarrow> (\<exists>lib rq inp. p = Reconcile lib rq inp (Inr a))"

interpretation pruning: eval_worker prunes eval_passes
  by unfold_locales (auto simp: eval_passes_def intro: disciplined_Reconcile)

interpretation keeping: keeping_worker eval_passes
  by unfold_locales (auto simp: eval_passes_def intro: disciplined_Reconcile keeps_prunes)





section \<open>Properties\<close>

text \<open>
  C3. No case is sent twice in a run. Whatever passes run at once, crash, lose their patches' answers or
  race other writers, and even where the installed CRD prunes parts of the record, the log of sent
  cases has no entry twice: each case is sent at most once between two losses of case entries from the
  stored record. And a case sent in the current run has an entry in the stored record.
\<close>

theorem sent_at_most_once:
  assumes "reaches prunes eval_passes (fresh_world a) w"
  shows "distinct (w_log w) \<and>
    (\<forall>i. (w_epoch w, i) \<in> set (w_log w) \<longrightarrow> i \<in> case_ids (eval_of (w_agent w)))"
  using pruning.reaches_world_ok [OF assms] by (auto simp: world_ok_def keys_ok_def keys_def)

lemma sample_reach:
  assumes "\<And>e. P e (Some e)"
  shows "\<exists>w. reaches P eval_passes (fresh_world (sample_gated (Some sample_running))) w \<and> w_log w = [(0, ''a'')] \<and>
    eval_of (w_agent w) = Some (claimEdit ''a'' ''n'' sample_running) \<and> w_epoch w = 0"
proof -
  let ?a = "sample_gated (Some sample_running)" and ?e = "claimEdit ''a'' ''n'' sample_running"
  obtain n k k2 where p: "Reconcile sample_lib sample_rq sample_reads (Inr ?a) = GetService n k"
    "k (Inr ''10.0.0.1'') = Patch ?a (EClaim ''a'' ''n'') ?e k2"
    "\<And>rv. \<exists>cs k3. k2 (Inr (with_eval (Some ?e) rv ?a)) = SendCase ''a'' cs k3"
    using sample_prog by blast
  let ?p = "\<lambda>q. \<lparr> ps_agent = ?a, ps_armed = None, ps_epoch = 0, ps_prog = q \<rparr>"
  let ?w0 = "fresh_world ?a"
  have ev: "eval_of ?a = Some sample_running" "case_ids (Some sample_running) = {}"
    by (simp_all add: sample_gated_def case_ids_def sample_running_def zero_eval_def)
  have s1: "step P eval_passes ?w0 (with_pass [] (?p (GetService n k)) [] ?w0)"
    using step.start [of eval_passes ?w0 "GetService n k" "[]" P] p(1) by (auto simp: fresh_world_def eval_passes_def intro: sym)
  let ?w1 = "with_pass [] (?p (GetService n k)) [] ?w0"
  have s2: "step P eval_passes ?w1 (with_pass [] (?p (k (Inr ''10.0.0.1''))) [] ?w1)"
    using step.read [of ?w1 "[]" "?p (GetService n k)" "[]" "k (Inr ''10.0.0.1'')" P eval_passes] answered.service by simp
  let ?w2 = "with_pass [] (?p (k (Inr ''10.0.0.1''))) [] ?w1"
  let ?w3 = "commit (Some ?e) ?w2"
  have w3: "w_agent ?w3 = with_eval (Some ?e) (Suc (ag_ResourceVersion ?a)) ?a" "w_epoch ?w3 = 0" "w_log ?w3 = []"
    by (simp_all add: commit_def fresh_world_def ev)
  obtain cs k3 where k3: "k2 (Inr (w_agent ?w3)) = SendCase ''a'' cs k3" using p(3) unfolding w3(1) by blast
  let ?q = "(?p (k (Inr ''10.0.0.1'')))\<lparr> ps_agent := w_agent ?w3, ps_armed := arm (EClaim ''a'' ''n'') (w_agent ?w3),
      ps_epoch := w_epoch ?w3, ps_prog := k2 (Inr (w_agent ?w3)) \<rparr>"
  have s3: "step P eval_passes ?w2 (with_pass [] ?q [] ?w3)"
    using step.patch_ok [of ?w2 "[]" "?p (k (Inr ''10.0.0.1''))" "[]" ?a "EClaim ''a'' ''n''" ?e k2 P "Some ?e" ?w3 eval_passes]
      p(2) assms by (simp add: fresh_world_def)
  let ?w4 = "with_pass [] ?q [] ?w3"
  have s4: "step P eval_passes ?w4 (with_pass [] (?q\<lparr> ps_armed := None, ps_prog := k3 (False, NoAnswer) \<rparr>) [] (send (ps_epoch ?q) ''a'' ?w4))"
    using step.sent [of ?w4 "[]" ?q "[]" "''a''" cs k3 P eval_passes "(False, NoAnswer)"] k3 by simp
  let ?w5 = "with_pass [] (?q\<lparr> ps_armed := None, ps_prog := k3 (False, NoAnswer) \<rparr>) [] (send (ps_epoch ?q) ''a'' ?w4)"
  have "reaches P eval_passes ?w0 ?w5"
    using s1 s2 s3 s4 by (meson rtranclp.rtrancl_into_rtrancl rtranclp.rtrancl_refl)
  moreover have "w_log ?w5 = [(0, ''a'')]" "eval_of (w_agent ?w5) = Some ?e" "w_epoch ?w5 = 0" using w3 by simp_all
  ultimately show ?thesis by blast
qed

theorem sent_at_most_once_witness:
  "\<exists>w. reaches prunes eval_passes (fresh_world (sample_gated (Some sample_running))) w \<and> w_log w = [(0, ''a'')] \<and>
     distinct (w_log w) \<and> ''a'' \<in> case_ids (eval_of (w_agent w))"
proof -
  obtain w where w: "reaches prunes eval_passes (fresh_world (sample_gated (Some sample_running))) w" "w_log w = [(0, ''a'')]" "w_epoch w = 0"
    using sample_reach [of prunes] keeps_prunes [unfolded keeps_def] by blast
  then show ?thesis using sent_at_most_once [OF w(1)] by auto
qed

text \<open>
  C7. A recorded outcome is final within its run: no step of any pass, of a crash or of another writer
  changes a case's Passed or Failed while the run's entries stand. An old leader that finishes its
  send late never overwrites an Interrupted a new leader recorded.
\<close>

theorem outcome_never_changes:
  assumes "reaches prunes eval_passes (fresh_world a) w" "step prunes eval_passes w w'" "w_epoch w' = w_epoch w"
    and "outcome_of (eval_of (w_agent w)) i = Some oc" "outcomeRecorded oc"
  shows "outcome_of (eval_of (w_agent w')) i = Some oc"
  by (rule pruning.outcome_final [OF pruning.reaches_world_ok [OF assms(1)] assms(2-5)])

theorem outcome_never_changes_witness:
  "outcome_of (eval_of (w_agent (other_write (sample_agent zero_spec)
     (fresh_world (sample_gated (Some (sample_running\<lparr> es_Cases := [sample_done ''b''] \<rparr>))))))) ''b'' = Some EvalCasePassed"
proof (rule outcome_never_changes [where w = "fresh_world (sample_gated (Some (sample_running\<lparr> es_Cases := [sample_done ''b''] \<rparr>)))"])
  show "reaches prunes eval_passes (fresh_world (sample_gated (Some (sample_running\<lparr> es_Cases := [sample_done ''b''] \<rparr>))))
      (fresh_world (sample_gated (Some (sample_running\<lparr> es_Cases := [sample_done ''b''] \<rparr>))))" by simp
qed (auto intro: step.other simp: outcome_of_def fresh_world_def sample_gated_def sample_done_def caseRecord_def outcomeRecorded_def)


definition sample_passed :: EvalStatus where
  "sample_passed = sample_running\<lparr> es_Verdict := EvalVerdictPassed, es_Cases := [sample_done ''a'', sample_done ''b''] \<rparr>"

lemma sample_passed_ok: "record_ok (Some sample_passed)"
proof -
  have "supports (sample_suite [''b'', ''a''] ''0.66'' 10) sample_passed"
    using sample_threshold Passes_bounds(1) [of 660 2]
    by (simp add: supports_def sample_passed_def sample_running_def suiteIDs_def sample_defs has_outcome_def has_passed_def
        caseRecord_def sample_done_def outcomeRecorded_def)
  moreover have "eval_ok sample_passed"
    by (simp add: eval_ok_def sample_passed_def sample_running_def zero_eval_def cases_ok_def passed_ok_def sample_done_def)
  ultimately show ?thesis by (auto simp: record_ok_def supported_def)
qed








text \<open>
  C32. No pass is left stuck. Where the record is kept whole and starts well formed, no pass of any
  reachable state panics on a nil record or loops forever in the eviction of \<^verbatim>\<open>passed[]\<close>.
\<close>

theorem passes_never_stuck:
  assumes "reaches keeps eval_passes (fresh_world a) w" "record_ok (eval_of a)" "p \<in> set (w_passes w)"
  shows "ps_prog p \<noteq> Hang \<and> ps_prog p \<noteq> Panic"
  by (rule keeping.not_stuck [OF assms])

theorem passes_never_stuck_witness:
  "\<exists>w p. reaches keeps eval_passes (fresh_world (sample_gated (Some sample_passed))) w \<and> p \<in> set (w_passes w) \<and>
     ps_prog p \<noteq> Hang \<and> ps_prog p \<noteq> Panic"
proof -
  let ?a = "sample_gated (Some sample_passed)" and ?q = "Reconcile sample_lib sample_rq sample_reads (Inr (sample_gated (Some sample_passed)))"
  let ?w = "with_pass [] \<lparr> ps_agent = ?a, ps_armed = None, ps_epoch = 0, ps_prog = ?q \<rparr> [] (fresh_world ?a)"
  have "step keeps eval_passes (fresh_world ?a) ?w"
    using step.start [of eval_passes "fresh_world ?a" ?q "[]" keeps] by (auto simp: fresh_world_def eval_passes_def)
  then have r: "reaches keeps eval_passes (fresh_world ?a) ?w" by blast
  have "record_ok (eval_of ?a)" using sample_passed_ok by (simp add: sample_gated_def)
  from passes_never_stuck [OF r this] r show ?thesis by fastforce
qed

end
