(* ===== verification/Cluster_Ops.thy ===== *)
theory Cluster_Ops
  imports Eval_Controller
begin

text \<open>
  The Agent operator's dealings with the cluster. The objects it reads and writes besides the Agent
  (\<^verbatim>\<open>k8s.io/api\<close> Deployments, Services, ConfigMaps, Secrets, Namespaces, quotas) are records holding the
  fields the operator looks at; fields it never renders and only compares are one opaque text.

  A piece of the reconciler that talks to the API server is a value of type \<open>'a op\<close>: it returns, or
  it asks one request and goes on with whatever is answered. Nothing is assumed of the answers: a
  cached read may be stale, another writer may move an object between two requests, a write may be
  refused. \<open>op_wp P Q h m\<close> says that, after the exchanges \<open>h\<close>, every request \<open>m\<close> makes satisfies \<open>P\<close> of
  the exchanges before it and every value it returns satisfies \<open>Q\<close>; its rules are the calculus the
  component proofs use. \<open>run_op\<close> answers from a function, for concrete runs.

  An answer of the wrong kind reads as a decoding error of the client.
\<close>

named_theorems wp_rules \<open>weakest preconditions of the operator's steps\<close>

section \<open>Objects\<close>

text \<open>A Go map of strings is an association list; \<open>lbl\<close> reads it with Go's zero value for a missing key.\<close>

type_synonym strmap = "(string \<times> string) list"

definition lbl :: "strmap \<Rightarrow> string \<Rightarrow> string" where
  "lbl m k = (case map_of m k of None \<Rightarrow> [] | Some v \<Rightarrow> v)"

record ObjectMeta =
  om_Name :: string
  om_Namespace :: string
  om_UID :: string
  om_ResourceVersion :: nat
  om_Labels :: strmap
  om_Annotations :: strmap
  om_CreationTimestamp :: go_time
  om_DeletionTimestamp :: "go_time option"
  om_ControllerUID :: "string option"
  om_Finalizers :: "string list"

definition new_meta :: "string \<Rightarrow> string \<Rightarrow> strmap \<Rightarrow> strmap \<Rightarrow> ObjectMeta" where
  "new_meta ns name labels annotations = \<lparr> om_Name = name, om_Namespace = ns, om_UID = [], om_ResourceVersion = 0,
     om_Labels = labels, om_Annotations = annotations, om_CreationTimestamp = 0, om_DeletionTimestamp = None,
     om_ControllerUID = None, om_Finalizers = [] \<rparr>"

record PodEnvSource =
  pv_ConfigMapKeyRef :: "(string \<times> bool option) option"
  pv_SecretKeyRef :: "(string \<times> bool option) option"
  pv_Rest :: string

record PodEnvVar =
  pe_Name :: string
  pe_Value :: string
  pe_ValueFrom :: "PodEnvSource option"

record PodEnvFrom =
  pf_Prefix :: string
  pf_ConfigMapRef :: "(string \<times> bool option) option"
  pf_SecretRef :: "(string \<times> bool option) option"

record ContainerPort =
  cp_Name :: string
  cp_ContainerPort :: int
  cp_Protocol :: string

record Container =
  ct_Name :: string
  ct_Image :: string
  ct_Resources :: string
  ct_Env :: "PodEnvVar list"
  ct_EnvFrom :: "PodEnvFrom list"
  ct_Ports :: "ContainerPort list"
  ct_ImagePullPolicy :: string
  ct_TerminationMessagePath :: string
  ct_TerminationMessagePolicy :: string
  ct_AllowPrivilegeEscalation :: "bool option"
  ct_ReadOnlyRootFilesystem :: "bool option"
  ct_RunAsNonRoot :: "bool option"
  ct_CapabilitiesDrop :: "string list"
  ct_Other :: string

record PodSpec =
  ps_RunAsNonRoot :: "bool option"
  ps_SeccompProfile :: string
  ps_AutomountServiceAccountToken :: "bool option"
  ps_ServiceAccountName :: string
  ps_DeprecatedServiceAccount :: string
  ps_RestartPolicy :: string
  ps_TerminationGracePeriodSeconds :: "int option"
  ps_DNSPolicy :: string
  ps_SchedulerName :: string
  ps_Containers :: "Container list"
  ps_Other :: string

record Deployment =
  dp_Meta :: ObjectMeta
  dp_Replicas :: "int option"
  dp_Selector :: strmap
  dp_TemplateLabels :: strmap
  dp_PodSpec :: PodSpec
  dp_AvailableReplicas :: int

record ServicePort =
  sq_Name :: string
  sq_Port :: int
  sq_Protocol :: string
  sq_TargetPort :: string
  sq_Other :: string

record Service =
  sv_Meta :: ObjectMeta
  sv_Selector :: strmap
  sv_Type :: string
  sv_ClusterIP :: string
  sv_ExternalName :: string
  sv_ExternalIPs :: "string list"
  sv_PublishNotReadyAddresses :: bool
  sv_InternalTrafficPolicy :: "string option"
  sv_LoadBalancerSourceRanges :: "string list"
  sv_Ports :: "ServicePort list"

text \<open>A ConfigMap or a Secret, as its kind says; a Secret's content is in \<open>ko_BinaryData\<close>.\<close>

record KeyedObject =
  ko_Kind :: string
  ko_Meta :: ObjectMeta
  ko_Data :: strmap
  ko_BinaryData :: strmap
  ko_Immutable :: "bool option"

text \<open>
  A namespace has nothing but metadata here. A quantity is its value, in the smallest unit; a scope
  selector and a limit item are the text their \<^verbatim>\<open>String\<close> methods give.
\<close>

record QuotaSpec =
  qs_Hard :: "(string \<times> int) list"
  qs_Scopes :: "string list"
  qs_ScopeSelector :: "string option"

record ResourceQuota =
  rq_Meta :: ObjectMeta
  rq_Spec :: QuotaSpec

record LimitRange =
  lr_Meta :: ObjectMeta
  lr_Limits :: "string list"

text \<open>
  An \<^verbatim>\<open>HTTPRoute\<close> of the Gateway API. A filter, a header match and a query match are opaque texts: the
  operator renders none and compares only how many there are. The parents' status is the gateway
  controller's report.
\<close>

record RouteParentRef =
  pr_Group :: "string option"
  pr_Kind :: "string option"
  pr_Namespace :: "string option"
  pr_Name :: string
  pr_SectionName :: "string option"
  pr_Port :: "int option"

record RouteMatch =
  rm_Path :: "(string option \<times> string option) option"
  rm_Headers :: "string list"
  rm_QueryParams :: "string list"
  rm_Method :: "string option"

record RouteBackend =
  bk_Group :: "string option"
  bk_Kind :: "string option"
  bk_Name :: string
  bk_Namespace :: "string option"
  bk_Port :: "int option"
  bk_Weight :: "int option"
  bk_Filters :: "string list"

record RouteRule =
  ru_Name :: "string option"
  ru_Matches :: "RouteMatch list"
  ru_Filters :: "string list"
  ru_BackendRefs :: "RouteBackend list"
  ru_Timeouts :: "string option"

record RouteParentStatus =
  rs_ParentRef :: RouteParentRef
  rs_ControllerName :: string
  rs_Conditions :: "condition list"

record HTTPRoute =
  hr_Meta :: ObjectMeta
  hr_Generation :: int
  hr_ParentRefs :: "RouteParentRef list"
  hr_Hostnames :: "string list"
  hr_Rules :: "RouteRule list"
  hr_Parents :: "RouteParentStatus list"

text \<open>
  An \<^verbatim>\<open>AgentgatewayPolicy\<close>, which the operator handles unstructured: the object's type, name, labels and
  spec as JSON, the rest of its metadata, and the ancestors its status reports. Of a \<^verbatim>\<open>Gateway\<close> only the
  listeners and whether listener sets are admitted are read; of an event what tells a genuine
  rejection by the gateway.
\<close>

record PolicyAncestor =
  an_Group :: string
  an_Kind :: string
  an_Name :: string
  an_Namespace :: string
  an_ControllerName :: string
  an_Conditions :: "condition list"

record PolicyObject =
  pl_Object :: json
  pl_UID :: string
  pl_ResourceVersion :: nat
  pl_Generation :: int
  pl_Finalizers :: "string list"
  pl_CreationTimestamp :: go_time
  pl_ManagedFields :: "(string \<times> go_time option) list"
  pl_Ancestors :: "PolicyAncestor list"

record GatewayListener =
  gl_Name :: string
  gl_Port :: int
  gl_Hostname :: "string option"

record Gateway =
  gy_Labels :: strmap
  gy_AllowedListenersFrom :: "string option"
  gy_Listeners :: "GatewayListener list"

record Event =
  ev_Kind :: string
  ev_Reason :: string
  ev_Namespace :: string
  ev_EventName :: string
  ev_InvolvedAPIVersion :: string
  ev_InvolvedKind :: string
  ev_InvolvedName :: string
  ev_InvolvedNamespace :: string
  ev_Component :: string
  ev_ReportingController :: string
  ev_Times :: "go_time list"
  ev_Message :: string

datatype kind =
    KDeployment | KService | KConfigMap | KSecret | KNamespace | KResourceQuota | KLimitRange
  | KAdmissionPolicy | KAdmissionPolicyBinding | KHTTPRoute | KPolicy | KGateway

datatype kobj =
    ODeployment Deployment
  | OService Service
  | OKeyed KeyedObject
  | ONamespace ObjectMeta
  | OQuota ResourceQuota
  | OLimits LimitRange
  | ORoute HTTPRoute
  | OPolicy PolicyObject
  | OGateway Gateway
  | OOther ObjectMeta

section \<open>Requests and answers\<close>

text \<open>
  One request: a get (cached, or live through the uncached reader), a list by labels or by page, a
  write, a dry run; the writes of an Agent; the clock, random bytes, an HTTP get, a probe of the
  gateway, and the two caches the process keeps.
\<close>

datatype req =
    Get bool kind string string
  | ListOf bool kind string strmap
  | Create kobj
  | DryRunCreate kobj
  | Update kobj
  | Delete kobj "string option"
  | DeleteExact kobj string nat
  | ListPolicies string string
  | ListEvents string int string
  | HttpProbe string string
  | GetAgent bool string string
  | ListAgents string
  | UpdateStatus Agent
  | DryRunStatus Agent
  | PatchFinalizers Agent "string list"
  | GetEvalSuite string string
  | GetAgentCRD
  | ReadClock
  | RandomBytes
  | HttpGet string
  | LoadEvalCheck
  | StoreEvalCheck evalRecordCheck
  | LoadInstallUID
  | StoreInstallUID string

datatype resp =
    RObj "api_error + kobj"
  | RObjs "api_error + kobj list"
  | RDone "api_error option"
  | RAgent "api_error + Agent"
  | RAgents "api_error + Agent list"
  | RSuite "api_error + EvalSuiteSpec"
  | RCRD "api_error + crd_version list"
  | RTime go_time
  | RBytes "string option"
  | RHttp "string + int \<times> string"
  | RPolicies "api_error + PolicyObject list \<times> string"
  | REvents "api_error + Event list \<times> string"
  | RProbe "string + int \<times> string option"
  | RCheck evalRecordCheck
  | RString string

type_synonym exchange = "req \<times> resp"

datatype 'a op = Return 'a | Ask req "resp \<Rightarrow> 'a op"

primrec andThen :: "'a op \<Rightarrow> ('a \<Rightarrow> 'b op) \<Rightarrow> 'b op" where
  "andThen (Return x) f = f x"
| "andThen (Ask r k) f = Ask r (\<lambda>a. andThen (k a) f)"

lemma andThen_Return [simp]: "andThen m Return = m"
  by (induction m) auto

lemma andThen_assoc [simp]: "andThen (andThen m f) g = andThen m (\<lambda>x. andThen (f x) g)"
  by (induction m) auto

text \<open>A step that may fail: an error ends what follows, as Go's \<^verbatim>\<open>if err != nil { return err }\<close> does.\<close>

definition tryThen :: "('e + 'a) op \<Rightarrow> ('a \<Rightarrow> ('e + 'b) op) \<Rightarrow> ('e + 'b) op" where
  "tryThen m f = andThen m (\<lambda>r. case r of Inl e \<Rightarrow> Return (Inl e) | Inr x \<Rightarrow> f x)"

section \<open>Weakest preconditions\<close>

primrec op_wp :: "(exchange list \<Rightarrow> req \<Rightarrow> bool) \<Rightarrow> (exchange list \<Rightarrow> 'a \<Rightarrow> bool) \<Rightarrow> exchange list \<Rightarrow> 'a op \<Rightarrow> bool" where
  "op_wp P Q h (Return x) = Q h x"
| "op_wp P Q h (Ask r k) = (P h r \<and> (\<forall>a. op_wp P Q (h @ [(r, a)]) (k a)))"

lemma op_wp_andThen [wp_rules]: "op_wp P Q h (andThen m f) = op_wp P (\<lambda>h x. op_wp P Q h (f x)) h m"
  by (induction m arbitrary: h) auto

lemma op_wp_tryThen [wp_rules]:
  "op_wp P Q h (tryThen m f) =
     op_wp P (\<lambda>h r. case r of Inl e \<Rightarrow> Q h (Inl e) | Inr x \<Rightarrow> op_wp P Q h (f x)) h m"
proof -
  have "(\<lambda>h r. op_wp P Q h (case r of Inl e \<Rightarrow> Return (Inl e) | Inr x \<Rightarrow> f x)) =
    (\<lambda>h r. case r of Inl e \<Rightarrow> Q h (Inl e) | Inr x \<Rightarrow> op_wp P Q h (f x))"
    by (auto simp: fun_eq_iff split: sum.split)
  then show ?thesis by (simp add: tryThen_def op_wp_andThen)
qed

lemma op_wp_mono:
  assumes "op_wp P Q h m" and "\<And>h r. P h r \<Longrightarrow> P' h r" and "\<And>h x. Q h x \<Longrightarrow> Q' h x"
  shows "op_wp P' Q' h m"
  using assms by (induction m arbitrary: h) auto

lemma op_wp_conj:
  "op_wp (\<lambda>h r. P h r \<and> P' h r) (\<lambda>h x. Q h x \<and> Q' h x) h m \<longleftrightarrow> op_wp P Q h m \<and> op_wp P' Q' h m"
  by (induction m arbitrary: h) auto

text \<open>The exchanges only grow: what holds of a prefix still holds later.\<close>

lemma op_wp_extends:
  assumes "op_wp P Q h m"
  shows "op_wp (\<lambda>h' r. P h' r \<and> (\<exists>t. h' = h @ t)) (\<lambda>h' x. Q h' x \<and> (\<exists>t. h' = h @ t)) h m"
  using assms
proof (induction m arbitrary: h)
  case (Ask r k)
  show ?case
  proof (simp, intro conjI allI)
    show "P h r" using Ask.prems by simp
    fix a
    have "op_wp P Q (h @ [(r, a)]) (k a)" using Ask.prems by simp
    from Ask.IH [OF rangeI this]
    show "op_wp (\<lambda>h' r. P h' r \<and> (\<exists>t. h' = h @ t)) (\<lambda>h' x. Q h' x \<and> (\<exists>t. h' = h @ t)) (h @ [(r, a)]) (k a)"
      by (rule op_wp_mono) auto
  qed
qed simp

lemma op_wp_keep:
  assumes "op_wp P Q h m" and "K h" and "\<And>h t. K h \<Longrightarrow> K (h @ t)"
  shows "op_wp P (\<lambda>h x. Q h x \<and> K h) h m"
  using op_wp_extends [OF assms(1)] by (rule op_wp_mono) (use assms(2,3) in auto)

lemma op_wp_if [wp_rules]:
  "op_wp P Q h (if b then m else n) = (if b then op_wp P Q h m else op_wp P Q h n)"
  by simp

lemma op_wp_Let [wp_rules]: "op_wp P Q h (Let x f) = (let y = x in op_wp P Q h (f y))"
  by simp

lemma op_wp_prod [wp_rules]: "op_wp P Q h (case p of (x, y) \<Rightarrow> f x y) = (case p of (x, y) \<Rightarrow> op_wp P Q h (f x y))"
  by (cases p) simp

lemma op_wp_option [wp_rules]:
  "op_wp P Q h (case x of None \<Rightarrow> m | Some y \<Rightarrow> f y) = (case x of None \<Rightarrow> op_wp P Q h m | Some y \<Rightarrow> op_wp P Q h (f y))"
  by (cases x) simp_all

lemma op_wp_sum [wp_rules]:
  "op_wp P Q h (case x of Inl e \<Rightarrow> f e | Inr y \<Rightarrow> g y) = (case x of Inl e \<Rightarrow> op_wp P Q h (f e) | Inr y \<Rightarrow> op_wp P Q h (g y))"
  by (cases x) simp_all

section \<open>Running\<close>

text \<open>A run against answers that depend on the exchanges so far.\<close>

primrec run_op :: "(exchange list \<Rightarrow> req \<Rightarrow> resp) \<Rightarrow> exchange list \<Rightarrow> 'a op \<Rightarrow> 'a \<times> exchange list" where
  "run_op ans h (Return x) = (x, h)"
| "run_op ans h (Ask r k) = (let a = ans h r in run_op ans (h @ [(r, a)]) (k a))"

text \<open>A run is one of the behaviours a weakest precondition speaks of.\<close>

lemma op_wp_run: "op_wp P Q h m \<Longrightarrow> run_op ans h m = (x, h') \<Longrightarrow> Q h' x"
  by (induction m arbitrary: h) (auto simp: Let_def)

lemma run_op_andThen: "run_op ans h (andThen m f) = (case run_op ans h m of (x, h') \<Rightarrow> run_op ans h' (f x))"
  by (induction m arbitrary: h) (auto simp: Let_def)

lemma run_op_grows: "\<exists>t. snd (run_op ans h m) = h @ t"
proof (induction m arbitrary: h)
  case (Ask r k)
  show ?case
    using Ask [of "k (ans h r)" "h @ [(r, ans h r)]"] by (auto simp: Let_def)
qed simp

lemma op_wp_requests:
  assumes "op_wp P Q h m" and "snd (run_op ans h m) = h @ t" and "t = u @ (r, a) # v"
  shows "P (h @ u) r"
  using assms
proof (induction m arbitrary: h t u)
  case (Ask q k)
  let ?a = "ans h q"
  obtain w where w: "snd (run_op ans (h @ [(q, ?a)]) (k ?a)) = (h @ [(q, ?a)]) @ w"
    using run_op_grows by blast
  with Ask.prems(2) have t: "t = (q, ?a) # w" by (simp add: Let_def)
  show ?case
  proof (cases u)
    case Nil
    then show ?thesis using t Ask.prems by simp
  next
    case (Cons x u')
    with t Ask.prems(3) have "x = (q, ?a)" "w = u' @ (r, a) # v" by simp_all
    moreover have "op_wp P Q (h @ [(q, ?a)]) (k ?a)" using Ask.prems(1) by simp
    ultimately show ?thesis using Ask.IH [OF rangeI _ w] Cons by simp
  qed
qed simp

section \<open>Typed requests\<close>

definition decode_error :: api_error where
  "decode_error = \<lparr> err_class = EOther, err_text = ''the answer could not be decoded'', err_nsTerminating = False \<rparr>"

definition as_deployment :: "kobj \<Rightarrow> api_error + Deployment" where
  "as_deployment x = (case x of ODeployment d \<Rightarrow> Inr d | _ \<Rightarrow> Inl decode_error)"

definition as_service :: "kobj \<Rightarrow> api_error + Service" where
  "as_service x = (case x of OService s \<Rightarrow> Inr s | _ \<Rightarrow> Inl decode_error)"

definition as_keyed :: "kobj \<Rightarrow> api_error + KeyedObject" where
  "as_keyed x = (case x of OKeyed o' \<Rightarrow> Inr o' | _ \<Rightarrow> Inl decode_error)"

definition as_namespace :: "kobj \<Rightarrow> api_error + ObjectMeta" where
  "as_namespace x = (case x of ONamespace m \<Rightarrow> Inr m | _ \<Rightarrow> Inl decode_error)"

definition as_quota :: "kobj \<Rightarrow> api_error + ResourceQuota" where
  "as_quota x = (case x of OQuota q \<Rightarrow> Inr q | _ \<Rightarrow> Inl decode_error)"

definition as_limits :: "kobj \<Rightarrow> api_error + LimitRange" where
  "as_limits x = (case x of OLimits l \<Rightarrow> Inr l | _ \<Rightarrow> Inl decode_error)"

definition as_route :: "kobj \<Rightarrow> api_error + HTTPRoute" where
  "as_route x = (case x of ORoute r \<Rightarrow> Inr r | _ \<Rightarrow> Inl decode_error)"

definition as_policy :: "kobj \<Rightarrow> api_error + PolicyObject" where
  "as_policy x = (case x of OPolicy p \<Rightarrow> Inr p | _ \<Rightarrow> Inl decode_error)"

definition as_gateway :: "kobj \<Rightarrow> api_error + Gateway" where
  "as_gateway x = (case x of OGateway g \<Rightarrow> Inr g | _ \<Rightarrow> Inl decode_error)"

definition as_any :: "kobj \<Rightarrow> api_error + unit" where
  "as_any x = Inr ()"

fun decode_all :: "(kobj \<Rightarrow> api_error + 'a) \<Rightarrow> kobj list \<Rightarrow> api_error + 'a list" where
  "decode_all f [] = Inr []"
| "decode_all f (x # xs) = (case f x of Inl e \<Rightarrow> Inl e | Inr y \<Rightarrow>
     (case decode_all f xs of Inl e \<Rightarrow> Inl e | Inr ys \<Rightarrow> Inr (y # ys)))"

definition resp_obj :: "(kobj \<Rightarrow> api_error + 'a) \<Rightarrow> resp \<Rightarrow> api_error + 'a" where
  "resp_obj f a = (case a of RObj (Inr x) \<Rightarrow> f x | RObj (Inl e) \<Rightarrow> Inl e | _ \<Rightarrow> Inl decode_error)"

definition resp_objs :: "(kobj \<Rightarrow> api_error + 'a) \<Rightarrow> resp \<Rightarrow> api_error + 'a list" where
  "resp_objs f a = (case a of RObjs (Inr xs) \<Rightarrow> decode_all f xs | RObjs (Inl e) \<Rightarrow> Inl e | _ \<Rightarrow> Inl decode_error)"

definition resp_done :: "resp \<Rightarrow> api_error option" where
  "resp_done a = (case a of RDone e \<Rightarrow> e | RObj (Inr _) \<Rightarrow> None | RObj (Inl e) \<Rightarrow> Some e | _ \<Rightarrow> Some decode_error)"

definition resp_agent :: "resp \<Rightarrow> api_error + Agent" where
  "resp_agent a = (case a of RAgent r \<Rightarrow> r | _ \<Rightarrow> Inl decode_error)"

definition resp_time :: "resp \<Rightarrow> go_time" where
  "resp_time a = (case a of RTime t \<Rightarrow> t | _ \<Rightarrow> 0)"

definition getObj :: "bool \<Rightarrow> kind \<Rightarrow> (kobj \<Rightarrow> api_error + 'a) \<Rightarrow> string \<Rightarrow> string \<Rightarrow> (api_error + 'a) op" where
  "getObj live k f ns name = Ask (Get live k ns name) (\<lambda>a. Return (resp_obj f a))"

definition listObjs :: "bool \<Rightarrow> kind \<Rightarrow> (kobj \<Rightarrow> api_error + 'a) \<Rightarrow> string \<Rightarrow> strmap \<Rightarrow> (api_error + 'a list) op" where
  "listObjs live k f ns sel = Ask (ListOf live k ns sel) (\<lambda>a. Return (resp_objs f a))"

definition createObj :: "(kobj \<Rightarrow> api_error + 'a) \<Rightarrow> kobj \<Rightarrow> (api_error + 'a) op" where
  "createObj f x = Ask (Create x) (\<lambda>a. Return (resp_obj f a))"

definition updateObj :: "kobj \<Rightarrow> (api_error option) op" where
  "updateObj x = Ask (Update x) (\<lambda>a. Return (resp_done a))"

definition deleteObj :: "kobj \<Rightarrow> string option \<Rightarrow> (api_error option) op" where
  "deleteObj x uid = Ask (Delete x uid) (\<lambda>a. Return (resp_done a))"

definition clockNow :: "go_time op" where
  "clockNow = Ask ReadClock (\<lambda>a. Return (resp_time a))"

lemmas typed_requests = getObj_def listObjs_def createObj_def updateObj_def deleteObj_def clockNow_def

lemma op_wp_requests_typed [wp_rules]:
  "op_wp P Q h (getObj live k f ns name) = (P h (Get live k ns name) \<and>
     (\<forall>a. Q (h @ [(Get live k ns name, a)]) (resp_obj f a)))"
  "op_wp P Q' h (listObjs live k f ns sel) = (P h (ListOf live k ns sel) \<and>
     (\<forall>a. Q' (h @ [(ListOf live k ns sel, a)]) (resp_objs f a)))"
  "op_wp P Q h (createObj f x) = (P h (Create x) \<and> (\<forall>a. Q (h @ [(Create x, a)]) (resp_obj f a)))"
  "op_wp P R h (updateObj x) = (P h (Update x) \<and> (\<forall>a. R (h @ [(Update x, a)]) (resp_done a)))"
  "op_wp P R h (deleteObj x uid) = (P h (Delete x uid) \<and> (\<forall>a. R (h @ [(Delete x uid, a)]) (resp_done a)))"
  "op_wp P T h clockNow = (P h ReadClock \<and> (\<forall>a. T (h @ [(ReadClock, a)]) (resp_time a)))"
  by (simp_all add: typed_requests)

section \<open>Errors\<close>

text \<open>
  The operator's own error types, and \<^verbatim>\<open>fmt.Errorf\<close> with a wrapped API error. \<^verbatim>\<open>errors.As\<close> for one of the
  operator's types is a match on the constructor; apierrors' predicates look at \<open>api_cause\<close>.
\<close>

datatype shapeFault = faultType | faultHeadless | faultExternalIPs | faultNotReady

record serviceShapeError =
  se_ns :: string
  se_name :: string
  se_what :: shapeFault
  se_typ :: string
  se_externalName :: string
  se_externalIPs :: "string list"
  se_heldSince :: go_time
  se_unrecorded :: bool
  se_recordNotKept :: bool
  se_recorded :: string
  se_live :: string

record revisionCollisionError =
  co_name :: string
  co_existing :: string
  co_desired :: string
  co_shape :: "serviceShapeError option"
  co_ns :: string
  co_kind :: string
  co_role :: string
  co_servingNow :: bool

record serviceReplaceError =
  re_ns :: string
  re_name :: string
  re_stage :: string
  re_cause :: "api_error + string"
  re_standing :: bool

record unresolvablePinError =
  un_digest :: string
  un_reason :: string
  un_ineligible :: bool

record routeCollisionError =
  rc_name :: string
  rc_ns :: string
  rc_ownerNamespace :: string
  rc_ownerAgent :: string
  rc_claimantNamespace :: string
  rc_claimantAgent :: string

datatype go_error =
    ApiFail string api_error
  | PlainError string
  | RunNamespaceError string string bool
  | PinUnresolvable unresolvablePinError
  | MaterialError string string
  | Collision revisionCollisionError
  | ShapeError serviceShapeError
  | ReplaceError serviceReplaceError
  | ServiceReadError string string api_error
  | ServiceCreateError string api_error
  | RouteCollision routeCollisionError
  | RouteGone
  | RouteRaceLost string api_error
  | StaleAgent string
  | GatewayError string go_error
  | CardError string string
  | GoPanic string

fun api_cause :: "go_error \<Rightarrow> api_error option" where
  "api_cause (ApiFail _ a) = Some a"
| "api_cause (ServiceReadError _ _ a) = Some a"
| "api_cause (ServiceCreateError _ a) = Some a"
| "api_cause (ReplaceError r) = (case re_cause r of Inl a \<Rightarrow> Some a | Inr _ \<Rightarrow> None)"
| "api_cause (GatewayError _ e) = api_cause e"
| "api_cause _ = None"

text \<open>\<^verbatim>\<open>rejectedByAPIServer\<close>: an API status that is none of the classes a retry answers.\<close>

definition rejectedByAPIServer :: "api_error \<Rightarrow> bool" where
  "rejectedByAPIServer e \<longleftrightarrow> err_class e \<in> {EForbidden, EUnauthorized, EInvalid, EStatus}"

definition isNamespaceTerminating :: "go_error \<Rightarrow> bool" where
  "isNamespaceTerminating e \<longleftrightarrow> (case api_cause e of None \<Rightarrow> False | Some a \<Rightarrow> err_nsTerminating a)"

text \<open>A write whose failure is wrapped, and a delete that tolerates an object already gone.\<close>

definition updateOr :: "string \<Rightarrow> kobj \<Rightarrow> (go_error + unit) op" where
  "updateOr what x = andThen (updateObj x) (\<lambda>r. case r of
     None \<Rightarrow> Return (Inr ()) | Some e \<Rightarrow> Return (Inl (ApiFail what e)))"

definition deleteGone :: "string \<Rightarrow> kobj \<Rightarrow> (go_error + unit) op" where
  "deleteGone what x = andThen (deleteObj x None) (\<lambda>r. case r of
     None \<Rightarrow> Return (Inr ())
   | Some e \<Rightarrow> if IsNotFound e then Return (Inr ()) else Return (Inl (ApiFail what e)))"

definition listOr :: "string \<Rightarrow> bool \<Rightarrow> kind \<Rightarrow> (kobj \<Rightarrow> api_error + 'a) \<Rightarrow> string \<Rightarrow> strmap \<Rightarrow> (go_error + 'a list) op" where
  "listOr what live k f ns sel = andThen (listObjs live k f ns sel) (\<lambda>r. case r of
     Inl e \<Rightarrow> Return (Inl (ApiFail what e)) | Inr xs \<Rightarrow> Return (Inr xs))"

text \<open>A Go loop over a slice whose body may end the function with an error.\<close>

fun forEach :: "('a \<Rightarrow> ('e + unit) op) \<Rightarrow> 'a list \<Rightarrow> ('e + unit) op" where
  "forEach f [] = Return (Inr ())"
| "forEach f (x # xs) = tryThen (f x) (\<lambda>_. forEach f xs)"

lemma op_wp_wrapped [wp_rules]:
  "op_wp P Q h (updateOr what x) = (P h (Update x) \<and> (\<forall>a. Q (h @ [(Update x, a)])
     (case resp_done a of None \<Rightarrow> Inr () | Some e \<Rightarrow> Inl (ApiFail what e))))"
  "op_wp P Q h (deleteGone what x) = (P h (Delete x None) \<and> (\<forall>a. Q (h @ [(Delete x None, a)])
     (case resp_done a of None \<Rightarrow> Inr () | Some e \<Rightarrow> if IsNotFound e then Inr () else Inl (ApiFail what e))))"
  "op_wp P Q' h (listOr what live k f ns sel) = (P h (ListOf live k ns sel) \<and> (\<forall>a. Q' (h @ [(ListOf live k ns sel, a)])
     (case resp_objs f a of Inl e \<Rightarrow> Inl (ApiFail what e) | Inr xs \<Rightarrow> Inr xs)))"
  by (auto simp: updateOr_def deleteGone_def listOr_def wp_rules split: option.splits sum.splits)

text \<open>
  The rule for such a loop: an invariant of the exchanges that the body keeps, whichever way it ends.
\<close>

lemma op_wp_forEach:
  assumes "\<And>h x. I h \<Longrightarrow> x \<in> set xs \<Longrightarrow> op_wp P (\<lambda>h _. I h) h (f x)" and "I h"
  shows "op_wp P (\<lambda>h _. I h) h (forEach f xs)"
  using assms
proof (induction xs arbitrary: h)
  case (Cons x xs)
  have "op_wp P (\<lambda>h _. I h) h (f x)" using Cons.prems by simp
  then show ?case
    using Cons.IH Cons.prems(1) by (auto simp: op_wp_tryThen split: sum.split elim!: op_wp_mono)
qed simp

end
