(* ===== verification/Run_Material.thy ===== *)
theory Run_Material
  imports Cluster_Ops
begin

text \<open>
  Revision material (\<^verbatim>\<open>internal/controller/material.go\<close>): the immutable copies of the ConfigMaps and
  Secrets a revision was minted from, made once in the run namespace, verified on every pass,
  rewritten into the Pod template and collected with their revision. Also the reading of the sources
  (\<^verbatim>\<open>agent_controller.go\<close>, \<^verbatim>\<open>resolveEnvSourcesFrom\<close>) and the check a pinned revision's copies must pass
  (\<^verbatim>\<open>release.go\<close>, \<^verbatim>\<open>verifyRetainedMaterial\<close>).

  A Go map from sources to copies is an association list. The log lines of a refused deletion are
  left out.
\<close>

abbreviation LabelRevision :: string where "LabelRevision \<equiv> ''assayd.dev/revision''"
abbreviation MaterialAgentUIDLabel :: string where "MaterialAgentUIDLabel \<equiv> ''assayd.dev/agent-uid''"
abbreviation MaterialRevisionLabel :: string where "MaterialRevisionLabel \<equiv> ''assayd.dev/revision''"
abbreviation MaterialSourceAnnotation :: string where "MaterialSourceAnnotation \<equiv> ''assayd.dev/source''"
abbreviation MaterialDigestAnnotation :: string where "MaterialDigestAnnotation \<equiv> ''assayd.dev/revision-digest''"

definition MaterialName :: "string \<Rightarrow> string \<Rightarrow> nat \<Rightarrow> string" where
  "MaterialName agent rv index = agent @ ''-'' @ rv @ ''-env-'' @ dec index"

record sourceBuffer =
  sbuf_kind :: string
  sbuf_data :: strmap
  sbuf_binary :: strmap
  sbuf_digest :: string

section \<open>Reading the sources\<close>

record env_sources =
  env_resolved :: Resolved
  env_buffers :: "SourceRef \<rightharpoonup> sourceBuffer"
  env_unresolved :: "SourceRef list"

definition source_kind :: "SourceRef \<Rightarrow> kind" where
  "source_kind ref = (if sr_Kind ref = ''Secret'' then KSecret else KConfigMap)"

definition buffer_of :: "SourceRef \<Rightarrow> KeyedObject \<Rightarrow> sourceBuffer" where
  "buffer_of ref o' =
     (let data = (if sr_Kind ref = ''Secret'' then [] else ko_Data o') in
      \<lparr> sbuf_kind = sr_Kind ref, sbuf_data = data, sbuf_binary = ko_BinaryData o',
        sbuf_digest = ContentDigest data (ko_BinaryData o') \<rparr>)"

fun resolve_loop :: "Agent \<Rightarrow> SourceRef list \<Rightarrow> env_sources \<Rightarrow> (go_error + env_sources) op" where
  "resolve_loop agent [] out = Return (Inr out)"
| "resolve_loop agent (ref # refs) out =
     andThen (getObj False (source_kind ref) as_keyed (ag_Namespace agent) (sr_Name ref)) (\<lambda>got. case got of
        Inl e \<Rightarrow>
          if IsNotFound e \<or> IsForbidden e
          then resolve_loop agent refs (out\<lparr> env_unresolved := env_unresolved out @ [ref] \<rparr>)
          else Return (Inl (ApiFail (msgf ''read a source'' [SourceRef_String ref, ag_Name agent]) e))
      | Inr o' \<Rightarrow>
          let buf = buffer_of ref o' in
          resolve_loop agent refs (out\<lparr> env_resolved := (env_resolved out)(ref \<mapsto> sbuf_digest buf),
            env_buffers := (env_buffers out)(ref \<mapsto> buf) \<rparr>))"

definition resolveEnvSourcesFrom :: "Agent \<Rightarrow> (go_error + env_sources) op" where
  "resolveEnvSourcesFrom agent = resolve_loop agent (EnvSources (ag_Spec agent))
     \<lparr> env_resolved = Map.empty, env_buffers = Map.empty, env_unresolved = [] \<rparr>"

section \<open>The copies\<close>

definition createMaterial :: "KeyedObject \<Rightarrow> string \<Rightarrow> (go_error + unit) op" where
  "createMaterial obj name = andThen (createObj as_any (OKeyed obj)) (\<lambda>r. case r of
     Inr _ \<Rightarrow> Return (Inr ())
   | Inl e \<Rightarrow> Return (Inl (ApiFail (if err_class e = EAlreadyExists
         then msgf ''revision material appeared between the read and the create'' [name]
         else msgf ''create revision material'' [name]) e)))"

definition recreateMaterial :: "KeyedObject \<Rightarrow> string \<Rightarrow> (go_error + unit) op" where
  "recreateMaterial obj name = tryThen (deleteGone (msgf ''delete unrepairable revision material'' [name]) (OKeyed obj))
     (\<lambda>_. Return (Inl (PlainError (msgf ''revision material was not immutable'' [name]))))"

text \<open>The loop that stamps missing or wrong entries, and whether it changed one.\<close>

definition restamp :: "strmap \<Rightarrow> strmap \<Rightarrow> strmap \<times> bool" where
  "restamp want have_map = fold (\<lambda>(k, v) (m, needs). if lbl m k \<noteq> v then (alist_put k v m, True) else (m, needs))
     want (have_map, False)"

definition repairMetadata :: "KeyedObject \<Rightarrow> strmap \<Rightarrow> strmap \<Rightarrow> string \<Rightarrow> (go_error + unit) op" where
  "repairMetadata obj labels annotations name =
     (if ko_Immutable obj \<noteq> Some True then recreateMaterial obj name
      else let m = ko_Meta obj;
               l = restamp labels (om_Labels m);
               a = restamp annotations (om_Annotations m) in
        if \<not> (snd l \<or> snd a) then Return (Inr ())
        else updateOr (msgf ''restamp revision material'' [name])
               (OKeyed (obj\<lparr> ko_Meta := m\<lparr> om_Labels := fst l, om_Annotations := fst a \<rparr> \<rparr>)))"

definition material_labels :: "Agent \<Rightarrow> string \<Rightarrow> strmap" where
  "material_labels agent rv = [(MaterialAgentUIDLabel, ag_UID agent), (MaterialRevisionLabel, rv)]"

definition source_id :: "SourceRef \<Rightarrow> string" where
  "source_id ref = sr_Kind ref @ ''.'' @ sr_Name ref"

definition material_annotations :: "string \<Rightarrow> SourceRef \<Rightarrow> strmap" where
  "material_annotations revDigest ref =
     [(MaterialDigestAnnotation, revDigest), (MaterialSourceAnnotation, source_id ref)]"

definition copy_digest :: "SourceRef \<Rightarrow> KeyedObject \<Rightarrow> string" where
  "copy_digest ref o' =
     (if sr_Kind ref = ''Secret'' then ContentDigest [] (ko_BinaryData o')
      else ContentDigest (ko_Data o') (ko_BinaryData o'))"

definition ensureOneCopy :: "Agent \<Rightarrow> string \<Rightarrow> string \<Rightarrow> string \<Rightarrow> string \<Rightarrow> SourceRef \<Rightarrow> sourceBuffer
    \<Rightarrow> (go_error + unit) op" where
  "ensureOneCopy agent runNS name rv revDigest ref buf =
     (let labels = material_labels agent rv; annotations = material_annotations revDigest ref in
      andThen (getObj False (source_kind ref) as_keyed runNS name) (\<lambda>got. case got of
         Inl e \<Rightarrow>
           if IsNotFound e
           then createMaterial \<lparr> ko_Kind = (if sr_Kind ref = ''Secret'' then ''Secret'' else ''ConfigMap''),
                  ko_Meta = new_meta runNS name labels annotations,
                  ko_Data = (if sr_Kind ref = ''Secret'' then [] else sbuf_data buf),
                  ko_BinaryData = sbuf_binary buf, ko_Immutable = Some True \<rparr> name
           else Return (Inl (ApiFail (msgf ''read revision material'' [name]) e))
       | Inr existing \<Rightarrow>
           if copy_digest ref existing \<noteq> sbuf_digest buf
           then Return (Inl (MaterialError name ''contents differ from the source it was minted from''))
           else repairMetadata existing labels annotations name))"

type_synonym material = "(SourceRef \<times> string) list"

fun material_loop :: "Agent \<Rightarrow> string \<Rightarrow> string \<Rightarrow> string \<Rightarrow> (SourceRef \<rightharpoonup> sourceBuffer) \<Rightarrow> nat \<Rightarrow> SourceRef list
    \<Rightarrow> material \<Rightarrow> (go_error + material) op" where
  "material_loop agent runNS rv revDigest buffers i [] names = Return (Inr names)"
| "material_loop agent runNS rv revDigest buffers i (ref # refs) names = (case buffers ref of
     None \<Rightarrow> Return (Inl (PlainError (msgf ''no buffered content'' [SourceRef_String ref])))
   | Some buf \<Rightarrow>
       let name = MaterialName (ag_Name agent) rv i in
       tryThen (ensureOneCopy agent runNS name rv revDigest ref buf) (\<lambda>_.
         material_loop agent runNS rv revDigest buffers (Suc i) refs (names @ [(ref, name)])))"

definition ensureRevisionMaterial :: "Agent \<Rightarrow> string \<Rightarrow> string \<Rightarrow> string \<Rightarrow> (SourceRef \<rightharpoonup> sourceBuffer)
    \<Rightarrow> (go_error + material) op" where
  "ensureRevisionMaterial agent runNS rv revDigest buffers =
     material_loop agent runNS rv revDigest buffers 0 (EnvSources (ag_Spec agent)) []"

section \<open>The references a Pod template carries\<close>

definition rewrite_ref :: "material \<Rightarrow> string \<Rightarrow> (string \<times> bool option) option \<Rightarrow> (string \<times> bool option) option" where
  "rewrite_ref material kind r = (case r of
     None \<Rightarrow> None
   | Some (n, opt) \<Rightarrow> (case map_of material \<lparr> sr_Kind = kind, sr_Name = n \<rparr> of
       None \<Rightarrow> Some (n, opt) | Some copy \<Rightarrow> Some (copy, Some False)))"

definition spec_ref :: "string option \<Rightarrow> bool option \<Rightarrow> (string \<times> bool option) option" where
  "spec_ref name opt = map_option (\<lambda>n. (n, opt)) name"

definition pod_env :: "EnvVar \<Rightarrow> PodEnvVar" where
  "pod_env e = \<lparr> pe_Name = ev_Name e, pe_Value = ev_Value e, pe_ValueFrom = map_option (\<lambda>v.
     \<lparr> pv_ConfigMapKeyRef = spec_ref (vf_ConfigMapKeyRef v) (vf_ConfigMapOptional v),
       pv_SecretKeyRef = spec_ref (vf_SecretKeyRef v) (vf_SecretOptional v), pv_Rest = vf_Rest v \<rparr>) (ev_ValueFrom e) \<rparr>"

definition pod_env_from :: "EnvFromSource \<Rightarrow> PodEnvFrom" where
  "pod_env_from f = \<lparr> pf_Prefix = ef_Prefix f, pf_ConfigMapRef = spec_ref (ef_ConfigMapRef f) (ef_ConfigMapOptional f),
     pf_SecretRef = spec_ref (ef_SecretRef f) (ef_SecretOptional f) \<rparr>"

definition rewriteEnv :: "EnvVar list \<Rightarrow> material \<Rightarrow> PodEnvVar list" where
  "rewriteEnv envs material = map (\<lambda>e. let p = pod_env e in
     p\<lparr> pe_ValueFrom := map_option (\<lambda>v. v\<lparr>
          pv_ConfigMapKeyRef := rewrite_ref material ''ConfigMap'' (pv_ConfigMapKeyRef v),
          pv_SecretKeyRef := rewrite_ref material ''Secret'' (pv_SecretKeyRef v) \<rparr>) (pe_ValueFrom p) \<rparr>) envs"

definition rewriteEnvFrom :: "EnvFromSource list \<Rightarrow> material \<Rightarrow> PodEnvFrom list" where
  "rewriteEnvFrom froms material = map (\<lambda>f. let p = pod_env_from f in
     p\<lparr> pf_ConfigMapRef := rewrite_ref material ''ConfigMap'' (pf_ConfigMapRef p),
        pf_SecretRef := rewrite_ref material ''Secret'' (pf_SecretRef p) \<rparr>) froms"

section \<open>Collecting and verifying\<close>

definition isRevisionMaterial :: "Agent \<Rightarrow> KeyedObject \<Rightarrow> bool" where
  "isRevisionMaterial agent o' =
     (let m = ko_Meta o'; rv = lbl (om_Labels m) MaterialRevisionLabel in
      if rv = [] \<or> lbl (om_Labels m) MaterialAgentUIDLabel \<noteq> ag_UID agent then False
      else if lbl (om_Annotations m) MaterialDigestAnnotation = [] \<or> lbl (om_Annotations m) MaterialSourceAnnotation = []
      then False
      else list_ex (\<lambda>i. om_Name m = MaterialName (ag_Name agent) rv i) [0..<64])"

definition deleteMaterial :: "Agent \<Rightarrow> string \<Rightarrow> strmap \<Rightarrow> (go_error + unit) op" where
  "deleteMaterial agent ns sel = forEach (\<lambda>k.
     tryThen (listOr (msgf ''list revision material'' [ns]) False k as_keyed ns sel)
       (forEach (\<lambda>o'. if \<not> isRevisionMaterial agent o' then Return (Inr ())
          else deleteGone (msgf ''delete revision material'' [om_Name (ko_Meta o')]) (OKeyed o'))))
     [KConfigMap, KSecret]"

definition collectRevisionMaterial :: "Agent \<Rightarrow> string \<Rightarrow> (string \<Rightarrow> bool) \<Rightarrow> (go_error + unit) op" where
  "collectRevisionMaterial agent runNS keep =
     (let sel = [(MaterialAgentUIDLabel, ag_UID agent)] in
      tryThen (listOr ''list revision material'' False KConfigMap as_keyed runNS sel) (\<lambda>cms.
      tryThen (listOr ''list revision material'' False KSecret as_keyed runNS sel) (\<lambda>secs.
        forEach (\<lambda>o'.
          if \<not> isRevisionMaterial agent o' then Return (Inr ())
          else if keep (lbl (om_Labels (ko_Meta o')) MaterialRevisionLabel) then Return (Inr ())
          else deleteGone (msgf ''gc revision material'' [om_Name (ko_Meta o')]) (OKeyed o')) (cms @ secs))))"

fun verify_loop :: "Agent \<Rightarrow> string \<Rightarrow> string \<Rightarrow> string \<Rightarrow> nat \<Rightarrow> SourceRef list \<Rightarrow> (go_error + unit) op" where
  "verify_loop agent runNS rv revDigest i [] = Return (Inr ())"
| "verify_loop agent runNS rv revDigest i (ref # refs) =
     (let name = MaterialName (ag_Name agent) rv i in
      andThen (getObj False (source_kind ref) as_keyed runNS name) (\<lambda>got. case got of
         Inl e \<Rightarrow> Return (Inl (PinUnresolvable \<lparr> un_digest = revDigest,
           un_reason = msgf ''its immutable copy is missing or unreadable'' [name, SourceRef_String ref, err_text e],
           un_ineligible = False \<rparr>))
       | Inr o' \<Rightarrow>
           if lbl (om_Annotations (ko_Meta o')) MaterialSourceAnnotation \<noteq> source_id ref
           then Return (Inl (PinUnresolvable \<lparr> un_digest = revDigest,
             un_reason = msgf ''its immutable copy was made from another source''
               [name, lbl (om_Annotations (ko_Meta o')) MaterialSourceAnnotation, source_id ref],
             un_ineligible = False \<rparr>))
           else verify_loop agent runNS rv revDigest (Suc i) refs))"

definition verifyRetainedMaterial :: "Agent \<Rightarrow> string \<Rightarrow> string \<Rightarrow> string \<Rightarrow> (go_error + unit) op" where
  "verifyRetainedMaterial agent runNS rv revDigest =
     verify_loop agent runNS rv revDigest 0 (EnvSources (ag_Spec agent))"

section \<open>What the copies promise\<close>

text \<open>
  \<open>copy_made h runNS name ref buf\<close>: the exchanges show the copy \<open>name\<close> of the source \<open>ref\<close>, immutable and
  with the buffered content: it was created so, or read so and its content digest compared.
\<close>

definition copy_of :: "SourceRef \<Rightarrow> sourceBuffer \<Rightarrow> KeyedObject \<Rightarrow> bool" where
  "copy_of ref buf o' \<longleftrightarrow> ko_Immutable o' = Some True \<and> copy_digest ref o' = sbuf_digest buf"

definition copy_made :: "exchange list \<Rightarrow> string \<Rightarrow> string \<Rightarrow> SourceRef \<Rightarrow> sourceBuffer \<Rightarrow> bool" where
  "copy_made h runNS name ref buf \<longleftrightarrow>
     (\<exists>o' x. (Create (OKeyed o'), RObj (Inr x)) \<in> set h \<and> om_Name (ko_Meta o') = name \<and> om_Namespace (ko_Meta o') = runNS \<and>
        copy_of ref buf o') \<or>
     (\<exists>o'. (Get False (source_kind ref) runNS name, RObj (Inr (OKeyed o'))) \<in> set h \<and> copy_of ref buf o')"

text \<open>The requests of a pass over the copies, and what each may carry.\<close>

definition material_request :: "Agent \<Rightarrow> string \<Rightarrow> (SourceRef \<rightharpoonup> sourceBuffer) \<Rightarrow> exchange list \<Rightarrow> req \<Rightarrow> bool" where
  "material_request agent runNS buffers h r = (case r of
     Get live k ns name \<Rightarrow> ns = runNS \<and> k \<in> {KConfigMap, KSecret}
   | Create (OKeyed o') \<Rightarrow> om_Namespace (ko_Meta o') = runNS \<and>
       lbl (om_Labels (ko_Meta o')) MaterialAgentUIDLabel = ag_UID agent \<and>
       (\<exists>ref buf. buffers ref = Some buf \<and> copy_of ref buf o')
   | Update (OKeyed o') \<Rightarrow> (\<exists>q o''. (q, RObj (Inr (OKeyed o''))) \<in> set h \<and> ko_Data o' = ko_Data o'' \<and>
       ko_BinaryData o' = ko_BinaryData o'' \<and> ko_Immutable o'' = Some True \<and> ko_Immutable o' = Some True)
   | Delete (OKeyed o') p \<Rightarrow> (\<exists>q. (q, RObj (Inr (OKeyed o'))) \<in> set h) \<and> ko_Immutable o' \<noteq> Some True
   | _ \<Rightarrow> False)"

definition buffers_ok :: "(SourceRef \<rightharpoonup> sourceBuffer) \<Rightarrow> bool" where
  "buffers_ok buffers \<longleftrightarrow> (\<forall>ref buf. buffers ref = Some buf \<longrightarrow>
     sbuf_digest buf = ContentDigest (if sr_Kind ref = ''Secret'' then [] else sbuf_data buf) (sbuf_binary buf))"

lemma copy_made_append: "copy_made h runNS name ref buf \<Longrightarrow> copy_made (h @ t) runNS name ref buf"
  unfolding copy_made_def by auto

lemma resp_obj_keyed: "resp_obj as_keyed a = Inr o' \<longleftrightarrow> a = RObj (Inr (OKeyed o'))"
  by (cases a) (auto simp: resp_obj_def as_keyed_def split: sum.splits kobj.splits)

lemma resp_obj_any: "resp_obj as_any a = Inr u \<longleftrightarrow> (\<exists>x. a = RObj (Inr x))"
  by (cases a) (auto simp: resp_obj_def as_any_def split: sum.splits)

lemma ensureOneCopy_wp:
  assumes buf: "buffers ref = Some buf" and ok: "buffers_ok buffers"
  shows "op_wp (material_request agent runNS buffers) (\<lambda>h r. r = Inr () \<longrightarrow> copy_made h runNS name ref buf) h
     (ensureOneCopy agent runNS name rv revDigest ref buf)"
proof -
  have dig: "sbuf_digest buf = ContentDigest (if sr_Kind ref = ''Secret'' then [] else sbuf_data buf) (sbuf_binary buf)"
    using ok buf by (auto simp: buffers_ok_def)
  show ?thesis
    unfolding ensureOneCopy_def Let_def
    using buf dig
    by (auto simp: wp_rules material_request_def source_kind_def createMaterial_def repairMetadata_def recreateMaterial_def
        copy_made_def copy_of_def copy_digest_def new_meta_def material_labels_def lbl_def Let_def resp_obj_keyed resp_obj_any
        split: sum.splits option.splits if_splits) metis
qed

definition copies :: "string \<Rightarrow> string \<Rightarrow> nat \<Rightarrow> SourceRef list \<Rightarrow> material" where
  "copies agentName rv i refs = map (\<lambda>(j, ref). (ref, MaterialName agentName rv j)) (zip [i..<i + length refs] refs)"

lemma copies_simps [simp]:
  "copies agentName rv i [] = []"
  "copies agentName rv i (ref # refs) = (ref, MaterialName agentName rv i) # copies agentName rv (Suc i) refs"
  by (simp_all add: copies_def upt_rec)

definition copies_made :: "exchange list \<Rightarrow> string \<Rightarrow> (SourceRef \<rightharpoonup> sourceBuffer) \<Rightarrow> material \<Rightarrow> bool" where
  "copies_made h runNS buffers names \<longleftrightarrow>
     (\<forall>(ref, name) \<in> set names. \<exists>buf. buffers ref = Some buf \<and> copy_made h runNS name ref buf)"

lemma copies_made_append: "copies_made h runNS buffers names \<Longrightarrow> copies_made (h @ t) runNS buffers names"
  unfolding copies_made_def using copy_made_append by fast

lemma material_loop_wp:
  assumes "buffers_ok buffers" and "copies_made h runNS buffers names"
  shows "op_wp (material_request agent runNS buffers)
     (\<lambda>h r. \<forall>out. r = Inr out \<longrightarrow> out = names @ copies (ag_Name agent) rv i refs \<and> copies_made h runNS buffers out) h
     (material_loop agent runNS rv revDigest buffers i refs names)"
  using assms(2)
proof (induction refs arbitrary: i h names)
  case (Cons ref refs)
  show ?case
  proof (cases "buffers ref")
    case (Some buf)
    let ?name = "MaterialName (ag_Name agent) rv i"
    have one: "op_wp (material_request agent runNS buffers)
        (\<lambda>h r. (r = Inr () \<longrightarrow> copy_made h runNS ?name ref buf) \<and> copies_made h runNS buffers names) h
        (ensureOneCopy agent runNS ?name rv revDigest ref buf)"
      by (rule op_wp_keep [OF ensureOneCopy_wp [OF Some assms(1)] Cons.prems copies_made_append])
    have step: "op_wp (material_request agent runNS buffers)
       (\<lambda>h r. \<forall>out. r = Inr out \<longrightarrow> out = names @ copies (ag_Name agent) rv i (ref # refs) \<and> copies_made h runNS buffers out) h'
       (material_loop agent runNS rv revDigest buffers (Suc i) refs (names @ [(ref, ?name)]))"
      if "copy_made h' runNS ?name ref buf" "copies_made h' runNS buffers names" for h'
      using Cons.IH [of h' "names @ [(ref, ?name)]" "Suc i"] that Some by (auto simp: copies_made_def)
    show ?thesis
      unfolding material_loop.simps Some option.case Let_def op_wp_tryThen
      by (rule op_wp_mono [OF one]) (use step in \<open>auto split: sum.split\<close>)
  qed simp
qed simp

text \<open>
  C24. A pass over a revision's material returns names only when, for every source of the spec in
  order, the copy it names is in the run namespace, immutable, with exactly the buffered content:
  created so in this pass, or read back and its content digest compared. Along the way it creates
  only such copies, updates only the metadata of an immutable copy it read, deletes only a copy it
  read that was not immutable, and touches nothing else.
\<close>

theorem ensureRevisionMaterial_exact:
  assumes "buffers_ok buffers"
  shows "op_wp (material_request agent runNS buffers)
     (\<lambda>h r. \<forall>names. r = Inr names \<longrightarrow> names = copies (ag_Name agent) rv 0 (EnvSources (ag_Spec agent)) \<and>
        copies_made h runNS buffers names) []
     (ensureRevisionMaterial agent runNS rv revDigest buffers)"
  using material_loop_wp [OF assms, of "[]" runNS "[]"]
  by (simp add: ensureRevisionMaterial_def copies_made_def)

text \<open>The sources' buffers are what was read, their digests what the revision identity covers.\<close>

definition buffered :: "env_sources \<Rightarrow> bool" where
  "buffered out \<longleftrightarrow> buffers_ok (env_buffers out) \<and>
     (\<forall>ref. env_resolved out ref = map_option sbuf_digest (env_buffers out ref))"

lemma buffered_step:
  "buffered out \<Longrightarrow> buffered (out\<lparr> env_resolved := (env_resolved out)(ref \<mapsto> sbuf_digest (buffer_of ref o')),
     env_buffers := (env_buffers out)(ref \<mapsto> buffer_of ref o') \<rparr>)"
  by (auto simp: buffered_def buffers_ok_def buffer_of_def Let_def)

lemma resolve_loop_wp:
  assumes "buffered out" and "set (env_unresolved out) \<inter> dom (env_buffers out) = {}" and "distinct refs"
    and "set refs \<inter> (set (env_unresolved out) \<union> dom (env_buffers out)) = {}"
  shows "op_wp (\<lambda>h r. \<exists>k n. r = Get False k (ag_Namespace agent) n)
    (\<lambda>h r. \<forall>x. r = Inr x \<longrightarrow> buffered x \<and> set (env_unresolved x) \<union> dom (env_buffers x) =
        set refs \<union> set (env_unresolved out) \<union> dom (env_buffers out) \<and>
        set (env_unresolved x) \<inter> dom (env_buffers x) = {}) h
    (resolve_loop agent refs out)"
  using assms
proof (induction refs arbitrary: out h)
  case (Cons ref refs)
  have skip: "op_wp (\<lambda>h r. \<exists>k n. r = Get False k (ag_Namespace agent) n)
    (\<lambda>h r. \<forall>x. r = Inr x \<longrightarrow> buffered x \<and> set (env_unresolved x) \<union> dom (env_buffers x) =
        set (ref # refs) \<union> set (env_unresolved out) \<union> dom (env_buffers out) \<and>
        set (env_unresolved x) \<inter> dom (env_buffers x) = {}) h'
    (resolve_loop agent refs (out\<lparr> env_unresolved := env_unresolved out @ [ref] \<rparr>))" for h'
    using Cons.IH [of "out\<lparr> env_unresolved := env_unresolved out @ [ref] \<rparr>" h'] Cons.prems
    by (auto simp: buffered_def elim!: op_wp_mono)
  have took: "op_wp (\<lambda>h r. \<exists>k n. r = Get False k (ag_Namespace agent) n)
    (\<lambda>h r. \<forall>x. r = Inr x \<longrightarrow> buffered x \<and> set (env_unresolved x) \<union> dom (env_buffers x) =
        set (ref # refs) \<union> set (env_unresolved out) \<union> dom (env_buffers out) \<and>
        set (env_unresolved x) \<inter> dom (env_buffers x) = {}) h'
    (resolve_loop agent refs (out\<lparr> env_resolved := (env_resolved out)(ref \<mapsto> sbuf_digest (buffer_of ref o')),
            env_buffers := (env_buffers out)(ref \<mapsto> buffer_of ref o') \<rparr>))" for h' o'
    using Cons.IH [OF buffered_step [OF Cons.prems(1), of ref o'], of h'] Cons.prems
    by (auto simp del: fun_upd_apply elim!: op_wp_mono)
  show ?case
    using skip took by (auto simp: wp_rules Let_def split: sum.splits)
qed (auto simp: op_wp.simps)

lemma resolveEnvSources_wp:
  "op_wp (\<lambda>h r. \<exists>k n. r = Get False k (ag_Namespace agent) n)
    (\<lambda>h r. \<forall>x. r = Inr x \<longrightarrow> buffered x \<and>
       set (env_unresolved x) \<union> dom (env_buffers x) = set (EnvSources (ag_Spec agent)) \<and>
       set (env_unresolved x) \<inter> dom (env_buffers x) = {}) h (resolveEnvSourcesFrom agent)"
  unfolding resolveEnvSourcesFrom_def
  by (rule op_wp_mono [OF resolve_loop_wp]) (auto simp: buffered_def buffers_ok_def distinct_EnvSources)

text \<open>A source a template refers to, and the copies covering every source of a spec.\<close>

lemma map_of_copies:
  "distinct refs \<Longrightarrow> ref \<in> set refs \<Longrightarrow> \<exists>j. map_of (copies agentName rv i refs) ref = Some (MaterialName agentName rv j)"
  by (induction refs arbitrary: i) auto

definition to_copy :: "string \<Rightarrow> string \<Rightarrow> (string \<times> bool option) option \<Rightarrow> bool" where
  "to_copy agentName rv r = (case r of None \<Rightarrow> True
     | Some (n, opt) \<Rightarrow> opt = Some False \<and> (\<exists>j. n = MaterialName agentName rv j))"

lemma rewrite_ref_to_copy:
  assumes "case r of None \<Rightarrow> True | Some (n, opt) \<Rightarrow> \<lparr> sr_Kind = kind, sr_Name = n \<rparr> \<in> set (EnvSources spec)"
  shows "to_copy agentName rv (rewrite_ref (copies agentName rv 0 (EnvSources spec)) kind r)"
proof (cases r)
  case (Some p)
  obtain n opt where p: "p = (n, opt)" by force
  then obtain j where "map_of (copies agentName rv 0 (EnvSources spec)) \<lparr> sr_Kind = kind, sr_Name = n \<rparr> =
      Some (MaterialName agentName rv j)"
    using map_of_copies [OF distinct_EnvSources, of "\<lparr> sr_Kind = kind, sr_Name = n \<rparr>" spec agentName rv 0] assms Some by auto
  then show ?thesis using Some p by (auto simp: to_copy_def rewrite_ref_def)
qed (simp add: to_copy_def rewrite_ref_def)

lemma env_sources_named:
  assumes "sp_Runtime spec = Some rt"
  shows "e \<in> set (rt_Env rt) \<Longrightarrow> ev_ValueFrom e = Some v \<Longrightarrow> vf_ConfigMapKeyRef v = Some n \<Longrightarrow>
      \<lparr> sr_Kind = ''ConfigMap'', sr_Name = n \<rparr> \<in> set (EnvSources spec)"
    and "e \<in> set (rt_Env rt) \<Longrightarrow> ev_ValueFrom e = Some v \<Longrightarrow> vf_SecretKeyRef v = Some n \<Longrightarrow>
      \<lparr> sr_Kind = ''Secret'', sr_Name = n \<rparr> \<in> set (EnvSources spec)"
    and "f \<in> set (rt_EnvFrom rt) \<Longrightarrow> ef_ConfigMapRef f = Some n \<Longrightarrow> \<lparr> sr_Kind = ''ConfigMap'', sr_Name = n \<rparr> \<in> set (EnvSources spec)"
    and "f \<in> set (rt_EnvFrom rt) \<Longrightarrow> ef_SecretRef f = Some n \<Longrightarrow> \<lparr> sr_Kind = ''Secret'', sr_Name = n \<rparr> \<in> set (EnvSources spec)"
  using assms by (simp_all add: set_EnvSources reads_source_def env_reads_def envFrom_reads_def) force+

definition var_reads_copies :: "string \<Rightarrow> string \<Rightarrow> PodEnvVar \<Rightarrow> bool" where
  "var_reads_copies agentName rv p = (case pe_ValueFrom p of None \<Rightarrow> True
     | Some v \<Rightarrow> to_copy agentName rv (pv_ConfigMapKeyRef v) \<and> to_copy agentName rv (pv_SecretKeyRef v))"

definition from_reads_copies :: "string \<Rightarrow> string \<Rightarrow> PodEnvFrom \<Rightarrow> bool" where
  "from_reads_copies agentName rv p \<longleftrightarrow> to_copy agentName rv (pf_ConfigMapRef p) \<and> to_copy agentName rv (pf_SecretRef p)"

lemma rewritten_var_reads_copies:
  assumes "sp_Runtime spec = Some rt" and "p \<in> set (rewriteEnv (rt_Env rt) (copies agentName rv 0 (EnvSources spec)))"
  shows "var_reads_copies agentName rv p"
proof -
  obtain e where e: "e \<in> set (rt_Env rt)" and p: "[p] = rewriteEnv [e] (copies agentName rv 0 (EnvSources spec))"
    using assms(2) by (auto simp: rewriteEnv_def)
  show ?thesis
    using env_sources_named (1,2) [OF assms(1) e] p
    by (auto simp: var_reads_copies_def rewriteEnv_def pod_env_def spec_ref_def split: option.split intro!: rewrite_ref_to_copy)
qed

lemma rewritten_from_reads_copies:
  assumes "sp_Runtime spec = Some rt" and "p \<in> set (rewriteEnvFrom (rt_EnvFrom rt) (copies agentName rv 0 (EnvSources spec)))"
  shows "from_reads_copies agentName rv p"
  using assms(2) env_sources_named (3,4) [OF assms(1)]
  by (auto simp: from_reads_copies_def rewriteEnvFrom_def pod_env_from_def spec_ref_def Let_def split: option.split intro!: rewrite_ref_to_copy)

text \<open>
  With the copies of every source of the spec, the container environment the operator renders
  refers to nothing but copies of this revision, none of them optional: a Pod never reads the user's
  ConfigMap or Secret, and never starts without one.
\<close>

theorem rewritten_env_reads_copies:
  assumes "sp_Runtime spec = Some rt" and "material = copies agentName rv 0 (EnvSources spec)"
  shows "list_all (var_reads_copies agentName rv) (rewriteEnv (rt_Env rt) material) \<and>
     list_all (from_reads_copies agentName rv) (rewriteEnvFrom (rt_EnvFrom rt) material)"
  using rewritten_var_reads_copies [OF assms(1)] rewritten_from_reads_copies [OF assms(1)]
  by (auto simp: assms(2) list_all_iff)

text \<open>Collecting deletes only what it listed, this Agent's material of a revision that is not kept.\<close>

definition material_delete :: "Agent \<Rightarrow> (string \<Rightarrow> bool) \<Rightarrow> req \<Rightarrow> bool" where
  "material_delete agent keep r = (case r of
     ListOf live k ns sel \<Rightarrow> k \<in> {KConfigMap, KSecret}
   | Delete (OKeyed o') p \<Rightarrow> isRevisionMaterial agent o' \<and> \<not> keep (lbl (om_Labels (ko_Meta o')) MaterialRevisionLabel)
   | _ \<Rightarrow> False)"

lemma collectRevisionMaterial_wp:
  "op_wp (\<lambda>h r. material_delete agent keep r) (\<lambda>h r. True) h (collectRevisionMaterial agent runNS keep)"
  unfolding collectRevisionMaterial_def Let_def
  by (auto simp: wp_rules material_delete_def split: sum.split intro!: op_wp_forEach)

lemma deleteMaterial_wp:
  "op_wp (\<lambda>h r. material_delete agent (\<lambda>_. False) r) (\<lambda>h r. True) h (deleteMaterial agent ns sel)"
  unfolding deleteMaterial_def
  by (rule op_wp_forEach) (auto simp: wp_rules material_delete_def split: sum.split intro!: op_wp_forEach)

text \<open>A pinned revision's copies are only read, and verified one by one.\<close>

definition copy_retained :: "exchange list \<Rightarrow> string \<Rightarrow> string \<Rightarrow> SourceRef \<Rightarrow> bool" where
  "copy_retained h runNS name ref \<longleftrightarrow> (\<exists>o'. (Get False (source_kind ref) runNS name, RObj (Inr (OKeyed o'))) \<in> set h \<and>
     lbl (om_Annotations (ko_Meta o')) MaterialSourceAnnotation = source_id ref)"

lemma copy_retained_append: "copy_retained h runNS name ref \<Longrightarrow> copy_retained (h @ t) runNS name ref"
  by (auto simp: copy_retained_def)

lemma verify_loop_wp:
  assumes "\<forall>(ref, name) \<in> set done_refs. copy_retained h runNS name ref"
  shows "op_wp (\<lambda>h r. \<exists>k n. r = Get False k runNS n)
     (\<lambda>h r. (r = Inr () \<longrightarrow> (\<forall>(ref, name) \<in> set (done_refs @ copies (ag_Name agent) rv i refs). copy_retained h runNS name ref)) \<and>
        (\<forall>e. r = Inl e \<longrightarrow> (\<exists>u. e = PinUnresolvable u))) h
     (verify_loop agent runNS rv revDigest i refs)"
  using assms
proof (induction refs arbitrary: i h done_refs)
  case (Cons ref refs)
  let ?name = "MaterialName (ag_Name agent) rv i"
  have step: "op_wp (\<lambda>h r. \<exists>k n. r = Get False k runNS n)
     (\<lambda>h r. (r = Inr () \<longrightarrow> (\<forall>(ref, name) \<in> set (done_refs @ copies (ag_Name agent) rv i (ref # refs)). copy_retained h runNS name ref)) \<and>
        (\<forall>e. r = Inl e \<longrightarrow> (\<exists>u. e = PinUnresolvable u))) (h @ [(Get False (source_kind ref) runNS ?name, RObj (Inr (OKeyed o')))])
     (verify_loop agent runNS rv revDigest (Suc i) refs)"
    if "lbl (om_Annotations (ko_Meta o')) MaterialSourceAnnotation = source_id ref" for o'
  proof -
    have "\<forall>(r', nm) \<in> set (done_refs @ [(ref, ?name)]).
        copy_retained (h @ [(Get False (source_kind ref) runNS ?name, RObj (Inr (OKeyed o')))]) runNS nm r'"
      using Cons.prems that by (auto simp: copy_retained_append) (auto simp: copy_retained_def)
    from Cons.IH [OF this, of "Suc i"] show ?thesis by simp
  qed
  show ?case
    using step by (auto simp: wp_rules Let_def resp_obj_keyed split: sum.split)
qed simp

section \<open>A run\<close>

definition sample_ref :: SourceRef where
  "sample_ref = \<lparr> sr_Kind = ''ConfigMap'', sr_Name = ''cfg'' \<rparr>"

definition sample_buffers :: "SourceRef \<rightharpoonup> sourceBuffer" where
  "sample_buffers = [sample_ref \<mapsto> \<lparr> sbuf_kind = ''ConfigMap'', sbuf_data = [(''k'', ''v'')], sbuf_binary = [],
     sbuf_digest = ContentDigest [(''k'', ''v'')] [] \<rparr>]"

text \<open>A server that holds nothing and accepts every write.\<close>

definition empty_server :: "exchange list \<Rightarrow> req \<Rightarrow> resp" where
  "empty_server h r = (case r of
     Create x \<Rightarrow> RObj (Inr x)
   | _ \<Rightarrow> RObj (Inl \<lparr> err_class = ENotFound, err_text = [], err_nsTerminating = False \<rparr>))"

lemma sample_sources: "EnvSources (sample_spec []) = [sample_ref]"
  by (simp add: EnvSources_def sample_spec_def sample_runtime_def sample_ref_def add_source_def)

lemma sample_name: "MaterialName ''agent'' ''r1'' 0 = ''agent-r1-env-0''"
  by code_simp

theorem ensureRevisionMaterial_exact_witness:
  "\<exists>h. fst (run_op empty_server [] (ensureRevisionMaterial (sample_agent (sample_spec [])) ''run'' ''r1'' ''d1'' sample_buffers)) =
      Inr [(sample_ref, ''agent-r1-env-0'')] \<and> copy_made h ''run'' ''agent-r1-env-0'' sample_ref (the (sample_buffers sample_ref))"
proof -
  let ?m = "ensureRevisionMaterial (sample_agent (sample_spec [])) ''run'' ''r1'' ''d1'' sample_buffers"
  have ok: "buffers_ok sample_buffers"
    by (simp add: buffers_ok_def sample_buffers_def sample_ref_def)
  obtain r h where run: "run_op empty_server [] ?m = (r, h)" by force
  moreover have r: "r = Inr [(sample_ref, ''agent-r1-env-0'')]"
    using run by (auto simp: ensureRevisionMaterial_def sample_sources sample_agent_def sample_buffers_def ensureOneCopy_def
      createMaterial_def tryThen_def typed_requests empty_server_def Let_def resp_obj_def as_any_def
      sample_name run_op_andThen sample_ref_def)
  ultimately have "copies_made h ''run'' sample_buffers [(sample_ref, ''agent-r1-env-0'')]"
    using op_wp_run [OF ensureRevisionMaterial_exact [OF ok] run] by auto
  then show ?thesis using run r by (auto simp: copies_made_def)
qed

theorem rewritten_env_reads_copies_witness:
  "list_all (from_reads_copies ''agent'' ''r1'') (rewriteEnvFrom (rt_EnvFrom (sample_runtime ''img'')) (copies ''agent'' ''r1'' 0 [sample_ref])) \<and>
   length (rt_EnvFrom (sample_runtime ''img'')) = 1"
  using rewritten_env_reads_copies [of "sample_spec []" "sample_runtime ''img''" "copies ''agent'' ''r1'' 0 [sample_ref]" "''agent''" "''r1''"]
  by (simp add: sample_sources) (simp add: sample_spec_def sample_runtime_def)

end
