(* ===== verification/Workload.thy ===== *)
theory Workload
  imports Run_Material
begin

text \<open>
  The workload of a revision (\<^verbatim>\<open>agent_controller.go\<close>): the Deployment the operator renders, with the
  operator's own environment appended (\<^verbatim>\<open>injectedenv.go\<close>), how it converges an existing one and what it
  refuses to take over, which Deployments are a revision's, whether one is available; and the release
  pin (\<^verbatim>\<open>release.go\<close>), which names a retained workload by its digest.

  \<^verbatim>\<open>equality.Semantic.DeepEqual\<close> of two Pod specs is equality of the records, which hold every field the
  operator renders and, in \<open>ps_Other\<close> and \<open>ct_Other\<close>, all others.
\<close>

abbreviation RevisionDigestAnnotation :: string where "RevisionDigestAnnotation \<equiv> ''assayd.dev/revision-digest''"

section \<open>The injected environment\<close>

abbreviation InjectedEnvPrefix :: string where "InjectedEnvPrefix \<equiv> ''ASSAYD_''"
abbreviation EnvGatewayURL :: string where "EnvGatewayURL \<equiv> ''ASSAYD_GATEWAY_URL''"

record InjectedEnvConfig =
  ie_GatewayURL :: string

definition injectedEnv :: "InjectedEnvConfig \<Rightarrow> PodEnvVar list" where
  "injectedEnv cfg = (if ie_GatewayURL cfg \<noteq> []
     then [\<lparr> pe_Name = EnvGatewayURL, pe_Value = ie_GatewayURL cfg, pe_ValueFrom = None \<rparr>] else [])"

definition withInjectedEnv :: "PodEnvVar list \<Rightarrow> InjectedEnvConfig \<Rightarrow> PodEnvVar list" where
  "withInjectedEnv user cfg = (if injectedEnv cfg = [] then user else user @ injectedEnv cfg)"

definition UsesReservedEnvPrefix :: "AgentSpec \<Rightarrow> string" where
  "UsesReservedEnvPrefix spec = (case sp_Runtime spec of
     None \<Rightarrow> []
   | Some rt \<Rightarrow> (case find (\<lambda>e. has_prefix (ev_Name e) InjectedEnvPrefix) (rt_Env rt) of
       Some e \<Rightarrow> ev_Name e
     | None \<Rightarrow> (case find (\<lambda>f. has_prefix (ef_Prefix f) InjectedEnvPrefix) (rt_EnvFrom rt) of
         Some f \<Rightarrow> ef_Prefix f | None \<Rightarrow> [])))"

section \<open>The Deployment\<close>

definition revision_selector :: "Agent \<Rightarrow> string \<Rightarrow> strmap" where
  "revision_selector agent rv = [(LabelAgent, ag_Name agent), (LabelRevision, rv)]"

definition revision_labels :: "Agent \<Rightarrow> string \<Rightarrow> strmap" where
  "revision_labels agent rv = [(LabelAgent, ag_Name agent), (LabelRevision, rv), (LabelAgentUID, ag_UID agent),
     (LabelAgentNamespace, ag_Namespace agent)]"

definition agent_container :: "AgentRuntime \<Rightarrow> InjectedEnvConfig \<Rightarrow> material \<Rightarrow> Container" where
  "agent_container rt cfg material = \<lparr> ct_Name = ''agent'', ct_Image = rt_Image rt, ct_Resources = rt_Resources rt,
     ct_Env = withInjectedEnv (rewriteEnv (rt_Env rt) material) cfg, ct_EnvFrom = rewriteEnvFrom (rt_EnvFrom rt) material,
     ct_Ports = [\<lparr> cp_Name = ''a2a'', cp_ContainerPort = port rt, cp_Protocol = ''TCP'' \<rparr>],
     ct_ImagePullPolicy = ''Always'', ct_TerminationMessagePath = ''/dev/termination-log'',
     ct_TerminationMessagePolicy = ''File'', ct_AllowPrivilegeEscalation = Some False, ct_ReadOnlyRootFilesystem = Some True,
     ct_RunAsNonRoot = Some True, ct_CapabilitiesDrop = [''ALL''], ct_Other = [] \<rparr>"

definition deploymentFor :: "InjectedEnvConfig \<Rightarrow> Agent \<Rightarrow> AgentRuntime \<Rightarrow> string \<Rightarrow> string \<Rightarrow> material \<Rightarrow> Deployment" where
  "deploymentFor cfg agent rt runNS rv material =
     (let replicas = (if rt_Sandbox rt \<noteq> None then 1 else if rt_Replicas rt = 0 then 1 else rt_Replicas rt) in
      \<lparr> dp_Meta = new_meta runNS (WorkloadName (ag_Name agent) rv) (revision_labels agent rv) [],
        dp_Replicas = Some replicas, dp_Selector = revision_selector agent rv,
        dp_TemplateLabels = revision_labels agent rv,
        dp_PodSpec = \<lparr> ps_RunAsNonRoot = Some True, ps_SeccompProfile = ''RuntimeDefault'',
          ps_AutomountServiceAccountToken = Some False, ps_ServiceAccountName = ''default'',
          ps_DeprecatedServiceAccount = [], ps_RestartPolicy = ''Always'',
          ps_TerminationGracePeriodSeconds = Some 30, ps_DNSPolicy = ''ClusterFirst'',
          ps_SchedulerName = ''default-scheduler'', ps_Containers = [agent_container rt cfg material], ps_Other = [] \<rparr>,
        dp_AvailableReplicas = 0 \<rparr>)"

definition podSpecEquivalent :: "PodSpec \<Rightarrow> PodSpec \<Rightarrow> bool" where
  "podSpecEquivalent existing desired \<longleftrightarrow>
     existing\<lparr> ps_DeprecatedServiceAccount := [] \<rparr> = desired\<lparr> ps_DeprecatedServiceAccount := [] \<rparr>"

definition templateEquivalent :: "Deployment \<Rightarrow> Deployment \<Rightarrow> bool" where
  "templateEquivalent existing desired = (case (dp_Replicas existing, dp_Replicas desired) of
     (Some a, Some b) \<Rightarrow> a = b \<and> podSpecEquivalent (dp_PodSpec existing) (dp_PodSpec desired)
   | _ \<Rightarrow> False)"

definition collision_error :: "string \<Rightarrow> string \<Rightarrow> string \<Rightarrow> revisionCollisionError" where
  "collision_error name existing desired = \<lparr> co_name = name, co_existing = existing, co_desired = desired, co_shape = None,
     co_ns = [], co_kind = [], co_role = [], co_servingNow = False \<rparr>"

definition vouched :: "AgentStatus \<Rightarrow> string \<Rightarrow> string \<Rightarrow> bool" where
  "vouched status rv digest \<longleftrightarrow>
     (st_ActiveRevision status = rv \<and> st_ActiveRevisionDigest status = digest) \<or>
     (st_CandidateRevision status = rv \<and> st_CandidateRevisionDigest status = digest)"

text \<open>Whether an existing object may be converged: the refusal's text, or none.\<close>

definition foreign_stamp :: "Agent \<Rightarrow> AgentStatus \<Rightarrow> string \<Rightarrow> string \<Rightarrow> ObjectMeta \<Rightarrow> string option" where
  "foreign_stamp agent status rv digest m =
     (let stamp = map_of (om_Annotations m) RevisionDigestAnnotation in
      if lbl (om_Labels m) LabelAgentUID \<noteq> ag_UID agent then Some ''(another agent's)''
      else case stamp of
         Some d \<Rightarrow> if d \<noteq> digest then Some d else None
       | None \<Rightarrow> if \<not> vouched status rv digest then Some ''(no stamp)'' else None)"

definition stampDigest :: "string \<Rightarrow> ObjectMeta \<Rightarrow> ObjectMeta" where
  "stampDigest digest m = m\<lparr> om_Annotations := alist_put RevisionDigestAnnotation digest (om_Annotations m) \<rparr>"

definition ensureWorkload :: "InjectedEnvConfig \<Rightarrow> Agent \<Rightarrow> AgentRuntime \<Rightarrow> string \<Rightarrow> string \<Rightarrow> string \<Rightarrow> AgentStatus \<Rightarrow> material
    \<Rightarrow> (go_error + unit) op" where
  "ensureWorkload cfg agent rt runNS rv digest status material =
     (let d0 = deploymentFor cfg agent rt runNS rv material;
          desired = d0\<lparr> dp_Meta := stampDigest digest (dp_Meta d0) \<rparr>;
          name = om_Name (dp_Meta desired) in
      andThen (getObj False KDeployment as_deployment runNS name) (\<lambda>got. case got of
         Inl e \<Rightarrow>
           if IsNotFound e then andThen (createObj as_any (ODeployment desired)) (\<lambda>r. case r of
             Inr _ \<Rightarrow> Return (Inr ())
           | Inl e \<Rightarrow> Return (Inl (ApiFail (if err_class e = EAlreadyExists
                then msgf ''workload appeared between the read and the create'' [name]
                else msgf ''create workload'' [name]) e)))
           else Return (Inl (ApiFail (msgf ''get workload'' [name]) e))
       | Inr existing \<Rightarrow> (case foreign_stamp agent status rv digest (dp_Meta existing) of
           Some found \<Rightarrow> Return (Inl (Collision (collision_error (om_Name (dp_Meta existing)) found digest)))
         | None \<Rightarrow>
           if \<not> templateEquivalent existing desired \<or> lbl (om_Annotations (dp_Meta existing)) RevisionDigestAnnotation \<noteq> digest
           then updateOr (msgf ''converge workload'' [om_Name (dp_Meta existing)]) (ODeployment
             (existing\<lparr> dp_Meta := stampDigest digest (dp_Meta existing), dp_Replicas := dp_Replicas desired,
                dp_TemplateLabels := dp_TemplateLabels desired, dp_PodSpec := dp_PodSpec desired \<rparr>))
           else Return (Inr ()))))"

section \<open>Which workloads are a revision's\<close>

definition isRevisionWorkload :: "Agent \<Rightarrow> Deployment \<Rightarrow> bool" where
  "isRevisionWorkload agent d =
     (let rv = lbl (om_Labels (dp_Meta d)) LabelRevision in
      if rv = [] \<or> lbl (om_Labels (dp_Meta d)) LabelAgentUID \<noteq> ag_UID agent then False
      else om_Name (dp_Meta d) = WorkloadName (ag_Name agent) rv)"

definition ownedWorkloads :: "Agent \<Rightarrow> string \<Rightarrow> (go_error + Deployment list) op" where
  "ownedWorkloads agent runNS =
     tryThen (listOr (msgf ''list workloads'' [ag_Namespace agent, ag_Name agent]) False KDeployment as_deployment runNS
        [(LabelAgent, ag_Name agent)])
       (\<lambda>items. Return (Inr (filter (isRevisionWorkload agent) items)))"

definition workload_of :: "Deployment \<Rightarrow> workload" where
  "workload_of d = \<lparr> wl_Digest = lbl (om_Annotations (dp_Meta d)) RevisionDigestAnnotation,
     wl_AgentUID = lbl (om_Labels (dp_Meta d)) LabelAgentUID, wl_AvailableReplicas = dp_AvailableReplicas d \<rparr>"

definition workloadAvailable :: "Agent \<Rightarrow> string \<Rightarrow> string \<Rightarrow> string \<Rightarrow> (go_error + bool) op" where
  "workloadAvailable agent runNS rv digest =
     andThen (getObj False KDeployment as_deployment runNS (WorkloadName (ag_Name agent) rv)) (\<lambda>got.
       case workloadAvailableIn (map_sum id workload_of got) agent digest of
         Inl e \<Rightarrow> Return (Inl (ApiFail ''read the workload'' e)) | Inr b \<Rightarrow> Return (Inr b))"

definition revisionAvailable :: "Agent \<Rightarrow> string \<Rightarrow> string \<Rightarrow> string \<Rightarrow> bool op" where
  "revisionAvailable agent runNS rv digest =
     andThen (workloadAvailable agent runNS rv digest) (\<lambda>r. Return (r = Inr True))"

section \<open>The release pin\<close>

record releasePin =
  rp_Digest :: string
  rp_Revision :: string

definition carries_digest :: "string \<Rightarrow> Deployment \<Rightarrow> bool" where
  "carries_digest want d \<longleftrightarrow> (let g = lbl (om_Annotations (dp_Meta d)) RevisionDigestAnnotation in
     g \<noteq> [] \<and> g = want \<and> lbl (om_Labels (dp_Meta d)) LabelRevision \<noteq> [])"

definition resolveReleasePin :: "Agent \<Rightarrow> string \<Rightarrow> (go_error + releasePin option) op" where
  "resolveReleasePin agent runNS =
     (let want = pin_of (ag_Spec agent) in
      if want = [] then Return (Inr None)
      else tryThen (ownedWorkloads agent runNS) (\<lambda>owned.
        case find (carries_digest want) owned of
          Some d \<Rightarrow> Return (Inr (Some \<lparr> rp_Digest = want, rp_Revision = lbl (om_Labels (dp_Meta d)) LabelRevision \<rparr>))
        | None \<Rightarrow> Return (Inl (PinUnresolvable \<lparr> un_digest = want,
            un_reason = ''no retained revision of this Agent carries that digest'', un_ineligible = False \<rparr>))))"

definition pinHoldSentence :: "Agent \<Rightarrow> AgentStatus \<Rightarrow> gateMode \<Rightarrow> string \<Rightarrow> string" where
  "pinHoldSentence agent status gating specDigest =
     (if gating \<noteq> gateEnforced \<or> \<not> candidatePending status \<or> sp_Release (ag_Spec agent) = None \<or>
         \<not> pinnedRollbackHolds (pin_of (ag_Spec agent)) (st_CandidateRevisionDigest status) specDigest True
      then []
      else msgf ''the recorded candidate is held'' [st_CandidateRevision status, st_CandidateRevisionDigest status])"

definition withHoldSentence :: "string \<Rightarrow> string \<Rightarrow> string" where
  "withHoldSentence msg held =
     (if held = [] then msg
      else (if \<not> has_suffix msg ''.'' then msg @ ''.'' else msg) @ '' '' @ held)"

section \<open>What converging a workload promises\<close>

lemma resp_obj_deployment: "resp_obj as_deployment a = Inr d \<longleftrightarrow> a = RObj (Inr (ODeployment d))"
  by (cases a) (auto simp: resp_obj_def as_deployment_def split: sum.splits kobj.splits)

lemma lbl_alist_put [simp]: "lbl (alist_put k v m) j = (if j = k then v else lbl m j)"
  by (simp add: lbl_def map_of_alist_put)

lemma stampDigest_sel [simp]:
  "om_Labels (stampDigest d m) = om_Labels m" "om_Name (stampDigest d m) = om_Name m"
  "om_Namespace (stampDigest d m) = om_Namespace m" "om_UID (stampDigest d m) = om_UID m"
  "om_ResourceVersion (stampDigest d m) = om_ResourceVersion m"
  "lbl (om_Annotations (stampDigest d m)) RevisionDigestAnnotation = d"
  by (simp_all add: stampDigest_def)

text \<open>
  An object is ours to converge: it carries the Agent's UID, and the digest it is stamped with is the
  one wanted, or it has no stamp and the status vouches for the pair.
\<close>

definition ours :: "Agent \<Rightarrow> AgentStatus \<Rightarrow> string \<Rightarrow> string \<Rightarrow> ObjectMeta \<Rightarrow> bool" where
  "ours agent status rv digest m \<longleftrightarrow> lbl (om_Labels m) LabelAgentUID = ag_UID agent \<and>
     (case map_of (om_Annotations m) RevisionDigestAnnotation of Some d \<Rightarrow> d = digest | None \<Rightarrow> vouched status rv digest)"

lemma foreign_stamp_None: "foreign_stamp agent status rv digest m = None \<longleftrightarrow> ours agent status rv digest m"
  by (auto simp: foreign_stamp_def ours_def Let_def split: option.split)

definition desired_deployment :: "InjectedEnvConfig \<Rightarrow> Agent \<Rightarrow> AgentRuntime \<Rightarrow> string \<Rightarrow> string \<Rightarrow> string \<Rightarrow> material \<Rightarrow> Deployment" where
  "desired_deployment cfg agent rt runNS rv digest material =
     (let d0 = deploymentFor cfg agent rt runNS rv material in d0\<lparr> dp_Meta := stampDigest digest (dp_Meta d0) \<rparr>)"

definition converged :: "Deployment \<Rightarrow> Deployment \<Rightarrow> Deployment" where
  "converged desired existing = existing\<lparr>
     dp_Meta := stampDigest (lbl (om_Annotations (dp_Meta desired)) RevisionDigestAnnotation) (dp_Meta existing),
     dp_Replicas := dp_Replicas desired, dp_TemplateLabels := dp_TemplateLabels desired, dp_PodSpec := dp_PodSpec desired \<rparr>"

lemma desired_deployment_sel [simp]:
  "om_Name (dp_Meta (desired_deployment cfg agent rt runNS rv digest material)) = WorkloadName (ag_Name agent) rv"
  "om_Namespace (dp_Meta (desired_deployment cfg agent rt runNS rv digest material)) = runNS"
  "om_Labels (dp_Meta (desired_deployment cfg agent rt runNS rv digest material)) = revision_labels agent rv"
  "lbl (om_Annotations (dp_Meta (desired_deployment cfg agent rt runNS rv digest material))) RevisionDigestAnnotation = digest"
  "dp_Replicas (desired_deployment cfg agent rt runNS rv digest material) =
     Some (if rt_Sandbox rt \<noteq> None then 1 else if rt_Replicas rt = 0 then 1 else rt_Replicas rt)"
  by (simp_all add: desired_deployment_def deploymentFor_def new_meta_def Let_def)

definition workload_request :: "Deployment \<Rightarrow> Agent \<Rightarrow> AgentStatus \<Rightarrow> string \<Rightarrow> string \<Rightarrow> exchange list \<Rightarrow> req \<Rightarrow> bool" where
  "workload_request desired agent status rv digest h r = (case r of
     Get live k ns name \<Rightarrow> k = KDeployment \<and> ns = om_Namespace (dp_Meta desired) \<and> name = om_Name (dp_Meta desired)
   | Create x \<Rightarrow> x = ODeployment desired
   | Update (ODeployment d) \<Rightarrow> (\<exists>q existing. (q, RObj (Inr (ODeployment existing))) \<in> set h \<and>
       ours agent status rv digest (dp_Meta existing) \<and> d = converged desired existing)
   | _ \<Rightarrow> False)"

lemma ensureWorkload_wp:
  "op_wp (workload_request (desired_deployment cfg agent rt runNS rv digest material) agent status rv digest)
     (\<lambda>h r. \<forall>c. r = Inl (Collision c) \<longrightarrow> (\<exists>q existing. (q, RObj (Inr (ODeployment existing))) \<in> set h \<and>
        \<not> ours agent status rv digest (dp_Meta existing))) h
     (ensureWorkload cfg agent rt runNS rv digest status material)"
proof -
  define des where "des = desired_deployment cfg agent rt runNS rv digest material"
  have des': "(deploymentFor cfg agent rt runNS rv material)
      \<lparr> dp_Meta := stampDigest digest (dp_Meta (deploymentFor cfg agent rt runNS rv material)) \<rparr> = des"
    by (simp add: des_def desired_deployment_def Let_def)
  have sel: "om_Name (dp_Meta des) = WorkloadName (ag_Name agent) rv" "om_Namespace (dp_Meta des) = runNS"
    "lbl (om_Annotations (dp_Meta des)) RevisionDigestAnnotation = digest"
    by (simp_all add: des_def)
  show ?thesis
    unfolding ensureWorkload_def Let_def des' des_def [symmetric]
    by (auto simp: wp_rules workload_request_def sel resp_obj_deployment foreign_stamp_None converged_def
        split: sum.split option.split) (auto simp: foreign_stamp_None [symmetric])
qed

text \<open>
  Converging a revision's workload never takes over an object: the only update it makes is of a
  Deployment it just read that carries this Agent's UID and either this very digest or no stamp under
  a pair the status vouches for, and it keeps that object's identity; the only create is of the
  rendered Deployment, stamped with the digest; nothing is deleted. A collision is reported exactly
  of a Deployment that was read and is not this Agent's revision.
\<close>

theorem ensureWorkload_takes_over_nothing:
  "op_wp (workload_request (desired_deployment cfg agent rt runNS rv digest material) agent status rv digest)
     (\<lambda>h r. \<forall>c. r = Inl (Collision c) \<longrightarrow> (\<exists>q existing. (q, RObj (Inr (ODeployment existing))) \<in> set h \<and>
        \<not> ours agent status rv digest (dp_Meta existing))) []
     (ensureWorkload cfg agent rt runNS rv digest status material)"
  by (rule ensureWorkload_wp)

lemma foreign_stamp_converged:
  "lbl (om_Labels (dp_Meta e)) LabelAgentUID = ag_UID agent \<Longrightarrow>
   foreign_stamp agent status rv digest
     (dp_Meta (converged (desired_deployment cfg agent rt runNS rv digest material) e)) = None"
  by (simp add: foreign_stamp_None ours_def converged_def stampDigest_def map_of_alist_put)

lemma templateEquivalent_converged:
  "templateEquivalent (converged (desired_deployment cfg agent rt runNS rv digest material) e)
     (desired_deployment cfg agent rt runNS rv digest material)"
  by (simp add: templateEquivalent_def converged_def podSpecEquivalent_def)

text \<open>
  Convergence is stable: a pass that reads back the Deployment the last update wrote, and the same
  spec, material and digest, makes no write, whatever the API server put in the deprecated service
  account field.
\<close>

theorem ensureWorkload_stable:
  assumes "lbl (om_Labels (dp_Meta e)) LabelAgentUID = ag_UID agent"
    and "stored = converged (desired_deployment cfg agent rt runNS rv digest material) e"
    and "answer = stored\<lparr> dp_PodSpec := (dp_PodSpec stored)\<lparr> ps_DeprecatedServiceAccount := deprecated \<rparr> \<rparr>"
  shows "run_op (\<lambda>h r. RObj (Inr (ODeployment answer))) [] (ensureWorkload cfg agent rt runNS rv digest status material) =
     (Inr (), [(Get False KDeployment runNS (WorkloadName (ag_Name agent) rv), RObj (Inr (ODeployment answer)))])"
proof -
  define des where "des = desired_deployment cfg agent rt runNS rv digest material"
  have des': "(deploymentFor cfg agent rt runNS rv material)
      \<lparr> dp_Meta := stampDigest digest (dp_Meta (deploymentFor cfg agent rt runNS rv material)) \<rparr> = des"
    by (simp add: des_def desired_deployment_def Let_def)
  have meta: "dp_Meta answer = dp_Meta stored" by (simp add: assms(3))
  have "foreign_stamp agent status rv digest (dp_Meta answer) = None"
    unfolding meta assms(2) by (rule foreign_stamp_converged) (rule assms(1))
  moreover have "templateEquivalent answer des"
    using templateEquivalent_converged [of cfg agent rt runNS rv digest material e]
    by (auto simp: templateEquivalent_def podSpecEquivalent_def assms(2,3) des_def split: option.splits)
  moreover have "lbl (om_Annotations (dp_Meta answer)) RevisionDigestAnnotation = digest"
    by (simp add: meta assms(2) converged_def)
  ultimately show ?thesis
    by (simp add: ensureWorkload_def Let_def des' des_def [symmetric] getObj_def resp_obj_def as_deployment_def)
       (simp add: des_def deploymentFor_def new_meta_def Let_def)
qed

text \<open>
  Whatever variables the Agent declares, the gateway address a container ends up with is the
  operator's: of the entries named \<^verbatim>\<open>ASSAYD_GATEWAY_URL\<close> the operator's is the last, and Kubernetes keeps
  the last.
\<close>

theorem injected_env_wins:
  assumes "ie_GatewayURL cfg \<noteq> []"
  shows "last (filter (\<lambda>e. pe_Name e = EnvGatewayURL) (ct_Env (agent_container rt cfg material))) =
     \<lparr> pe_Name = EnvGatewayURL, pe_Value = ie_GatewayURL cfg, pe_ValueFrom = None \<rparr>"
  using assms by (simp add: agent_container_def withInjectedEnv_def injectedEnv_def)

text \<open>The owned workloads are listed ones of this Agent.\<close>

lemma decode_all_set: "decode_all f xs = Inr ys \<Longrightarrow> y \<in> set ys \<Longrightarrow> \<exists>x \<in> set xs. f x = Inr y"
  by (induction xs arbitrary: ys) (auto split: sum.splits)

definition listed_deployment :: "exchange list \<Rightarrow> Deployment \<Rightarrow> bool" where
  "listed_deployment h d \<longleftrightarrow> (\<exists>q xs. (q, RObjs (Inr xs)) \<in> set h \<and> ODeployment d \<in> set xs)"

lemma listed_deployment_append: "listed_deployment h d \<Longrightarrow> listed_deployment (h @ t) d"
  by (auto simp: listed_deployment_def)

lemma resp_objs_deployment:
  "resp_objs as_deployment a = Inr ds \<Longrightarrow> d \<in> set ds \<Longrightarrow> \<exists>xs. a = RObjs (Inr xs) \<and> ODeployment d \<in> set xs"
  by (cases a) (auto simp: resp_objs_def as_deployment_def split: sum.splits kobj.splits dest: decode_all_set)

lemma ownedWorkloads_wp:
  "op_wp (\<lambda>h r. r = ListOf False KDeployment runNS [(LabelAgent, ag_Name agent)])
     (\<lambda>h r. \<forall>ds d. r = Inr ds \<longrightarrow> d \<in> set ds \<longrightarrow> isRevisionWorkload agent d \<and> listed_deployment h d) h
     (ownedWorkloads agent runNS)"
  unfolding ownedWorkloads_def
  by (auto simp: wp_rules listed_deployment_def split: sum.split) (metis resp_objs_deployment)

lemma resolveReleasePin_wp:
  "op_wp (\<lambda>h r. r = ListOf False KDeployment runNS [(LabelAgent, ag_Name agent)])
     (\<lambda>h r. (\<forall>p. r = Inr (Some p) \<longrightarrow> rp_Digest p = pin_of (ag_Spec agent) \<and> rp_Digest p \<noteq> [] \<and>
          (\<exists>d. listed_deployment h d \<and> isRevisionWorkload agent d \<and> carries_digest (rp_Digest p) d \<and>
             rp_Revision p = lbl (om_Labels (dp_Meta d)) LabelRevision)) \<and>
        (r = Inr None \<longrightarrow> pin_of (ag_Spec agent) = [])) h
     (resolveReleasePin agent runNS)"
  unfolding resolveReleasePin_def Let_def op_wp_if op_wp_tryThen
  by (auto intro!: op_wp_mono [OF ownedWorkloads_wp] split: sum.split option.split simp: find_Some_iff)
     (metis nth_mem)

section \<open>A run\<close>

definition sample_env_config :: InjectedEnvConfig where
  "sample_env_config = \<lparr> ie_GatewayURL = ''http://gw'' \<rparr>"

definition sample_desired :: Deployment where
  "sample_desired = desired_deployment sample_env_config (sample_agent (sample_spec [])) (sample_runtime ''img'') ''run'' ''r1'' ''d1'' []"

text \<open>A Deployment at the revision's name that another Agent's revision stamped.\<close>

definition sample_foreign :: Deployment where
  "sample_foreign = sample_desired\<lparr> dp_Meta := (dp_Meta sample_desired)\<lparr> om_Labels := [(LabelAgentUID, ''u2'')] \<rparr> \<rparr>"

lemma sample_foreign_stamp:
  "foreign_stamp (sample_agent (sample_spec [])) zero_status ''r1'' ''d1'' (dp_Meta sample_foreign) = Some ''(another agent's)''"
  by (simp add: sample_foreign_def foreign_stamp_def lbl_def sample_agent_def)

theorem ensureWorkload_takes_over_nothing_witness:
  "\<exists>c h. run_op (\<lambda>h r. RObj (Inr (ODeployment sample_foreign))) []
       (ensureWorkload sample_env_config (sample_agent (sample_spec [])) (sample_runtime ''img'') ''run'' ''r1'' ''d1'' zero_status []) =
       (Inl (Collision c), h) \<and>
     (\<exists>q existing. (q, RObj (Inr (ODeployment existing))) \<in> set h \<and>
        \<not> ours (sample_agent (sample_spec [])) zero_status ''r1'' ''d1'' (dp_Meta existing))"
proof -
  let ?m = "ensureWorkload sample_env_config (sample_agent (sample_spec [])) (sample_runtime ''img'') ''run'' ''r1'' ''d1'' zero_status []"
  obtain r h where run: "run_op (\<lambda>h r. RObj (Inr (ODeployment sample_foreign))) [] ?m = (r, h)" by force
  moreover from run have "\<exists>c. r = Inl (Collision c)"
    by (auto simp: ensureWorkload_def typed_requests resp_obj_def as_deployment_def sample_foreign_stamp Let_def)
  ultimately show ?thesis using op_wp_run [OF ensureWorkload_takes_over_nothing run] by blast
qed

theorem ensureWorkload_stable_witness:
  "run_op (\<lambda>h r. RObj (Inr (ODeployment (converged sample_desired sample_desired)))) []
     (ensureWorkload sample_env_config (sample_agent (sample_spec [])) (sample_runtime ''img'') ''run'' ''r1'' ''d1'' zero_status []) =
   (Inr (), [(Get False KDeployment ''run'' (WorkloadName ''agent'' ''r1''), RObj (Inr (ODeployment (converged sample_desired sample_desired))))])"
proof -
  let ?a = "sample_agent (sample_spec [])" and ?s = "converged sample_desired sample_desired"
  have "lbl (om_Labels (dp_Meta sample_desired)) LabelAgentUID = ag_UID ?a"
    by (simp add: sample_desired_def revision_labels_def lbl_def)
  moreover have "?s = ?s\<lparr> dp_PodSpec := (dp_PodSpec ?s)\<lparr> ps_DeprecatedServiceAccount := [] \<rparr> \<rparr>"
    by (simp add: converged_def sample_desired_def desired_deployment_def deploymentFor_def Let_def)
  ultimately have "run_op (\<lambda>h r. RObj (Inr (ODeployment ?s))) []
     (ensureWorkload sample_env_config ?a (sample_runtime ''img'') ''run'' ''r1'' ''d1'' zero_status []) =
     (Inr (), [(Get False KDeployment ''run'' (WorkloadName (ag_Name ?a) ''r1''), RObj (Inr (ODeployment ?s)))])"
    unfolding sample_desired_def by (rule ensureWorkload_stable [OF _ refl])
  then show ?thesis by (simp add: sample_agent_def)
qed

theorem injected_env_wins_witness:
  "last (filter (\<lambda>e. pe_Name e = EnvGatewayURL) (ct_Env (agent_container (sample_runtime ''img'') sample_env_config []))) =
     \<lparr> pe_Name = EnvGatewayURL, pe_Value = ''http://gw'', pe_ValueFrom = None \<rparr>"
  using injected_env_wins [of sample_env_config "sample_runtime ''img''" "[]"] by (simp add: sample_env_config_def)

end
