(* ===== verification/Revision_Service.thy ===== *)
theory Revision_Service
  imports Workload
begin

text \<open>
  The Service of a revision (\<^verbatim>\<open>internal/controller/service.go\<close>): rendering it, converging it, refusing one
  that is not this Agent's, replacing one that cannot be repaired in place, and the record in
  \<^verbatim>\<open>status.revisionServices\<close> that says which Service this operator created.

  \<open>ensureService\<close> changes the pass's status, and the Agent it holds when a record is persisted ahead of
  the pass's final write; both are returned beside the error, if any. The text of a time in an
  annotation is its count of seconds. Log lines are left out.
\<close>

section \<open>Rendering\<close>

abbreviation ServiceTypeClusterIP :: string where "ServiceTypeClusterIP \<equiv> ''ClusterIP''"
abbreviation ClusterIPNone :: string where "ClusterIPNone \<equiv> ''None''"
abbreviation ServiceReplacedAnnotation :: string where "ServiceReplacedAnnotation \<equiv> ''assayd.dev/service-replaced-at''"
abbreviation (input) ServiceReplaceCooldown :: duration where "ServiceReplaceCooldown \<equiv> 600 * second"
abbreviation CondReasonServiceReplaceFailed :: string where "CondReasonServiceReplaceFailed \<equiv> ''RevisionServiceReplaceFailed''"
abbreviation CondReasonServiceReplaceHeld :: string where "CondReasonServiceReplaceHeld \<equiv> ''RevisionServiceReplaceHeld''"
abbreviation CondReasonServiceNotRecorded :: string where "CondReasonServiceNotRecorded \<equiv> ''RevisionServiceNotRecorded''"
abbreviation CondReasonServiceUnreadable :: string where "CondReasonServiceUnreadable \<equiv> ''RevisionServiceUnreadable''"
abbreviation CondReasonServiceRecordNotKept :: string where "CondReasonServiceRecordNotKept \<equiv> ''RevisionServiceRecordNotKept''"

definition serviceFor :: "Agent \<Rightarrow> AgentRuntime \<Rightarrow> string \<Rightarrow> string \<Rightarrow> Service" where
  "serviceFor agent rt runNS rv = \<lparr>
     sv_Meta = new_meta runNS (WorkloadName (ag_Name agent) rv) (revision_labels agent rv) [],
     sv_Selector = revision_selector agent rv, sv_Type = ServiceTypeClusterIP, sv_ClusterIP = [], sv_ExternalName = [],
     sv_ExternalIPs = [], sv_PublishNotReadyAddresses = False, sv_InternalTrafficPolicy = Some ''Cluster'',
     sv_LoadBalancerSourceRanges = [],
     sv_Ports = [\<lparr> sq_Name = ''a2a'', sq_Port = port rt, sq_Protocol = ''TCP'', sq_TargetPort = ''a2a'', sq_Other = [] \<rparr>] \<rparr>"

section \<open>The record of a created Service\<close>

definition record_for :: "string \<Rightarrow> string \<Rightarrow> RevisionServiceRecord \<Rightarrow> bool" where
  "record_for rv digest rc \<longleftrightarrow> rs_Revision rc = rv \<and> rs_RevisionDigest rc = digest"

definition recordedServiceUID :: "AgentStatus \<Rightarrow> string \<Rightarrow> string \<Rightarrow> string" where
  "recordedServiceUID status rv digest = (case find (record_for rv digest) (st_RevisionServices status) of
     None \<Rightarrow> [] | Some rc \<Rightarrow> rs_UID rc)"

definition recordServiceUID :: "AgentStatus \<Rightarrow> string \<Rightarrow> string \<Rightarrow> string \<Rightarrow> AgentStatus" where
  "recordServiceUID status rv digest uid =
     (let rc = \<lparr> rs_Revision = rv, rs_RevisionDigest = digest, rs_UID = uid \<rparr>; recs = st_RevisionServices status in
      status\<lparr> st_RevisionServices :=
        (if find (record_for rv digest) recs \<noteq> None then replace_first (record_for rv digest) rc recs else recs @ [rc]) \<rparr>)"

definition adoptServiceRecord :: "AgentStatus \<Rightarrow> string \<Rightarrow> string \<Rightarrow> Service \<Rightarrow> AgentStatus" where
  "adoptServiceRecord status rv digest existing =
     (if recordedServiceUID status rv digest \<noteq> [] \<or> om_UID (sv_Meta existing) = [] then status
      else recordServiceUID status rv digest (om_UID (sv_Meta existing)))"

definition pruneServiceRecords :: "AgentStatus \<Rightarrow> (string \<Rightarrow> bool) \<Rightarrow> AgentStatus \<times> bool" where
  "pruneServiceRecords status keep =
     (if st_RevisionServices status = [] then (status, False)
      else let kept = filter (\<lambda>rc. keep (rs_Revision rc)) (st_RevisionServices status) in
           (status\<lparr> st_RevisionServices := kept \<rparr>, length kept \<noteq> length (st_RevisionServices status)))"

text \<open>\<^verbatim>\<open>persistServiceRecord\<close>: write the record ahead of the pass, retrying on a conflict over a live read.\<close>

definition apply_record :: "string \<Rightarrow> string \<Rightarrow> string \<Rightarrow> go_time option \<Rightarrow> AgentStatus \<Rightarrow> AgentStatus" where
  "apply_record rv digest uid replacedAt st =
     (let st = recordServiceUID st rv digest uid in
      case replacedAt of None \<Rightarrow> st
      | Some t \<Rightarrow> st\<lparr> st_ServiceReplacedRevision := rv, st_ServiceReplacedAt := Some t \<rparr>)"

fun persist_retry :: "nat \<Rightarrow> Agent \<Rightarrow> (AgentStatus \<Rightarrow> AgentStatus) \<Rightarrow> api_error \<Rightarrow> unit op" where
  "persist_retry 0 agent edit err = Return ()"
| "persist_retry (Suc n) agent edit err =
     (if \<not> IsConflict err then Return ()
      else Ask (GetAgent True (ag_Namespace agent) (ag_Name agent)) (\<lambda>a. case resp_agent a of
         Inl _ \<Rightarrow> Return ()
       | Inr live \<Rightarrow>
           if ag_UID live \<noteq> ag_UID agent then Return ()
           else Ask (UpdateStatus (live\<lparr> ag_Status := edit (ag_Status live) \<rparr>)) (\<lambda>a. case resp_agent a of
              Inr _ \<Rightarrow> Return ()
            | Inl err \<Rightarrow> persist_retry n agent edit err)))"

definition persistServiceRecord :: "Agent \<Rightarrow> string \<Rightarrow> string \<Rightarrow> string \<Rightarrow> go_time option \<Rightarrow> Agent op" where
  "persistServiceRecord agent rv digest uid replacedAt =
     (let edit = apply_record rv digest uid replacedAt; current = agent\<lparr> ag_Status := edit (ag_Status agent) \<rparr> in
      Ask (UpdateStatus current) (\<lambda>a. case resp_agent a of
         Inr stored \<Rightarrow> Return (current\<lparr> ag_ResourceVersion := ag_ResourceVersion stored \<rparr>)
       | Inl err \<Rightarrow> andThen (persist_retry 4 agent edit err) (\<lambda>_. Return agent)))"

definition serviceRecordKeepable :: "Agent \<Rightarrow> string \<Rightarrow> string \<Rightarrow> string \<Rightarrow> bool op" where
  "serviceRecordKeepable agent rv digest uid =
     Ask (DryRunStatus (agent\<lparr> ag_Status := recordServiceUID (ag_Status agent) rv digest uid \<rparr>)) (\<lambda>a. case resp_agent a of
        Inl _ \<Rightarrow> Return True
      | Inr probe \<Rightarrow> Return (recordedServiceUID (ag_Status probe) rv digest = uid))"

section \<open>Shapes\<close>

definition shape_error :: "Service \<Rightarrow> shapeFault \<Rightarrow> serviceShapeError" where
  "shape_error existing what = \<lparr> se_ns = om_Namespace (sv_Meta existing), se_name = om_Name (sv_Meta existing), se_what = what,
     se_typ = [], se_externalName = [], se_externalIPs = [], se_heldSince = 0, se_unrecorded = False,
     se_recordNotKept = False, se_recorded = [], se_live = [] \<rparr>"

definition serviceNotRendered :: "Service \<Rightarrow> serviceShapeError option" where
  "serviceNotRendered existing =
     (let e = (\<lambda>what. (shape_error existing what)\<lparr> se_typ := sv_Type existing \<rparr>) in
      if sv_Type existing \<noteq> ServiceTypeClusterIP then Some ((e faultType)\<lparr> se_externalName := sv_ExternalName existing \<rparr>)
      else if sv_ClusterIP existing = ClusterIPNone then Some (e faultHeadless)
      else if sv_ExternalIPs existing \<noteq> [] then Some ((e faultExternalIPs)\<lparr> se_externalIPs := sv_ExternalIPs existing \<rparr>)
      else if sv_PublishNotReadyAddresses existing then Some (e faultNotReady)
      else None)"

definition shape_detail :: "serviceShapeError \<Rightarrow> string" where
  "shape_detail e = (case se_what e of
     faultHeadless \<Rightarrow> ''It is headless, and spec.clusterIP is immutable''
   | faultExternalIPs \<Rightarrow> msgf ''It carries spec.externalIPs'' (dec (length (se_externalIPs e)) # take 3 (se_externalIPs e))
   | faultNotReady \<Rightarrow> ''It sets spec.publishNotReadyAddresses''
   | faultType \<Rightarrow> if se_typ e = ''ExternalName'' then msgf ''It is of type ExternalName'' [se_externalName e]
                  else msgf ''It is of type'' [se_typ e])"

definition shape_reason :: "serviceShapeError \<Rightarrow> string" where
  "shape_reason e = (if se_recordNotKept e then CondReasonServiceRecordNotKept
     else if se_unrecorded e then CondReasonServiceNotRecorded else CondReasonServiceReplaceHeld)"

definition shape_text :: "serviceShapeError \<Rightarrow> string" where
  "shape_text e =
     (if se_recordNotKept e then msgf ''cannot be repaired in place: the CRD keeps no record'' [se_ns e, se_name e, shape_detail e]
      else if se_unrecorded e then msgf ''cannot be repaired in place: not recorded'' [se_ns e, se_name e, shape_detail e,
        (if se_recorded e = [] then ''no Service recorded'' else se_recorded e), se_live e]
      else msgf ''cannot be repaired in place: already replaced'' [se_ns e, se_name e, shape_detail e, itoa (se_heldSince e div second)])"

definition shapeFieldsReset :: "Service \<Rightarrow> string list" where
  "shapeFieldsReset existing =
     (if sv_Type existing \<noteq> ServiceTypeClusterIP then [''spec.type='' @ sv_Type existing] else []) @
     (if sv_ExternalName existing \<noteq> [] then [''spec.externalName''] else []) @
     (if sv_ExternalIPs existing \<noteq> [] then [''spec.externalIPs''] else []) @
     (if sv_PublishNotReadyAddresses existing then [''spec.publishNotReadyAddresses''] else []) @
     (case sv_InternalTrafficPolicy existing of None \<Rightarrow> [] | Some p \<Rightarrow>
        if p \<noteq> ''Cluster'' then [''spec.internalTrafficPolicy='' @ p] else []) @
     (if sv_LoadBalancerSourceRanges existing \<noteq> [] then [''spec.loadBalancerSourceRanges''] else [])"

definition equalInternalTrafficPolicy :: "string option \<Rightarrow> string option \<Rightarrow> bool" where
  "equalInternalTrafficPolicy a b = (case (a, b) of (Some x, Some y) \<Rightarrow> x = y | _ \<Rightarrow> a = None \<and> b = None)"

definition equalService :: "Service \<Rightarrow> Service \<Rightarrow> bool" where
  "equalService a b \<longleftrightarrow>
     length (sv_Ports a) = length (sv_Ports b) \<and> length (sv_Selector a) = length (sv_Selector b) \<and>
     list_all (\<lambda>i. sv_Ports a ! i = sv_Ports b ! i) [0..<length (sv_Ports a)] \<and>
     list_all (\<lambda>(k, v). lbl (sv_Selector a) k = v) (sv_Selector b) \<and>
     list_all (\<lambda>(k, v). lbl (om_Labels (sv_Meta a)) k = v) (om_Labels (sv_Meta b)) \<and>
     sv_Type a = sv_Type b \<and> sv_ExternalName a = sv_ExternalName b \<and>
     sv_PublishNotReadyAddresses a = sv_PublishNotReadyAddresses b \<and>
     equalInternalTrafficPolicy (sv_InternalTrafficPolicy a) (sv_InternalTrafficPolicy b) \<and>
     length (sv_ExternalIPs a) = length (sv_ExternalIPs b) \<and>
     length (sv_LoadBalancerSourceRanges a) = length (sv_LoadBalancerSourceRanges b) \<and>
     lbl (om_Annotations (sv_Meta a)) RevisionDigestAnnotation = lbl (om_Annotations (sv_Meta b)) RevisionDigestAnnotation"

section \<open>Replacing and converging\<close>

type_synonym service_result = "Agent \<times> AgentStatus \<times> go_error option"

definition replace_error :: "Service \<Rightarrow> string \<Rightarrow> api_error + string \<Rightarrow> bool \<Rightarrow> go_error" where
  "replace_error existing stage cause standing = ReplaceError \<lparr> re_ns = om_Namespace (sv_Meta existing),
     re_name = om_Name (sv_Meta existing), re_stage = stage, re_cause = cause, re_standing = standing \<rparr>"

text \<open>The delete under the recorded UID and the create that follows it.\<close>

definition delete_and_recreate :: "Agent \<Rightarrow> Service \<Rightarrow> Service \<Rightarrow> string \<Rightarrow> string \<Rightarrow> string \<Rightarrow> AgentStatus
    \<Rightarrow> service_result op" where
  "delete_and_recreate agent existing desired rv digest recorded status =
     andThen (deleteObj (OService existing) (Some recorded)) (\<lambda>r. case r of
        Some e \<Rightarrow> Return (agent, status, Some (replace_error existing
          (if IsNotFound e then ''vanished before it could be replaced'' else ''could not be deleted'') (Inl e) False))
      | None \<Rightarrow>
        andThen clockNow (\<lambda>at.
        let m = sv_Meta desired;
            desired = desired\<lparr> sv_Meta := m\<lparr> om_Annotations :=
              alist_put ServiceReplacedAnnotation (itoa (at div second)) (om_Annotations m) \<rparr> \<rparr> in
        andThen (createObj as_service (OService desired)) (\<lambda>r. case r of
           Inl e \<Rightarrow> Return (agent, status, Some (replace_error existing ''could not be recreated after it was deleted'' (Inl e) False))
         | Inr stored \<Rightarrow>
           andThen clockNow (\<lambda>t.
           let uid = om_UID (sv_Meta stored);
               status = apply_record rv digest uid (Some t) status in
           andThen (persistServiceRecord agent rv digest uid (Some t)) (\<lambda>agent.
           Return (agent, status,
             (if sv_ClusterIP stored = [] \<or> sv_ClusterIP stored = ClusterIPNone
              then Some (replace_error existing ''was recreated with no ClusterIP''
                     (Inr (msgf ''the API server stored spec.clusterIP'' [sv_ClusterIP stored])) True)
              else None)))))))"

definition replaceUnrepairableService :: "Agent \<Rightarrow> Service \<Rightarrow> Service \<Rightarrow> string \<Rightarrow> string \<Rightarrow> string \<Rightarrow> AgentStatus
    \<Rightarrow> service_result op" where
  "replaceUnrepairableService agent existing desired rv digest recorded status =
     andThen (if st_ServiceReplacedRevision status = rv \<and> st_ServiceReplacedAt status \<noteq> None
              then andThen clockNow (\<lambda>t. let since = t - the (st_ServiceReplacedAt status) in
                     Return (since \<ge> 0 \<and> since < ServiceReplaceCooldown))
              else Return False) (\<lambda>held.
     if held then Return (agent, status, Some (ShapeError ((shape_error existing faultHeadless)
            \<lparr> se_heldSince := the (st_ServiceReplacedAt status) \<rparr>)))
     else Ask (DryRunCreate (OService desired)) (\<lambda>a. case resp_obj as_any a of
        Inl e \<Rightarrow>
          if err_class e \<noteq> EAlreadyExists
          then Return (agent, status, Some (replace_error existing ''would not be admitted'' (Inl e) True))
          else delete_and_recreate agent existing desired rv digest recorded status
      | Inr _ \<Rightarrow> delete_and_recreate agent existing desired rv digest recorded status))"

definition service_updated :: "Service \<Rightarrow> string \<Rightarrow> Service \<Rightarrow> Service" where
  "service_updated desired digest existing = existing\<lparr>
     sv_Meta := (stampDigest digest (sv_Meta existing))\<lparr> om_Labels := om_Labels (sv_Meta desired) \<rparr>,
     sv_Selector := sv_Selector desired, sv_Ports := sv_Ports desired, sv_Type := sv_Type desired, sv_ExternalName := [],
     sv_ExternalIPs := [], sv_PublishNotReadyAddresses := False,
     sv_InternalTrafficPolicy := sv_InternalTrafficPolicy desired, sv_LoadBalancerSourceRanges := [] \<rparr>"

definition desired_service :: "Agent \<Rightarrow> AgentRuntime \<Rightarrow> string \<Rightarrow> string \<Rightarrow> string \<Rightarrow> Service" where
  "desired_service agent rt runNS rv digest =
     (let s = serviceFor agent rt runNS rv in
      s\<lparr> sv_Meta := (sv_Meta s)\<lparr> om_Annotations := [(RevisionDigestAnnotation, digest)] \<rparr> \<rparr>)"

text \<open>What the code does with a Service that exists.\<close>

definition converge_service :: "Agent \<Rightarrow> string \<Rightarrow> string \<Rightarrow> string \<Rightarrow> AgentStatus \<Rightarrow> Service \<Rightarrow> Service \<Rightarrow> service_result op" where
  "converge_service agent runNS rv digest status desired existing =
     (let name = om_Name (sv_Meta desired);
          recorded = recordedServiceUID status rv digest;
          is_ours = (recorded \<noteq> [] \<and> om_UID (sv_Meta existing) = recorded);
          shape = serviceNotRendered existing in
      case (if is_ours then None else foreign_stamp agent status rv digest (sv_Meta existing)) of
        Some found \<Rightarrow> Return (agent, status, Some (Collision ((collision_error name found digest)
           \<lparr> co_ns := runNS, co_kind := ''service'', co_shape := shape \<rparr>)))
      | None \<Rightarrow>
        if (case shape of None \<Rightarrow> False | Some e \<Rightarrow> se_what e = faultHeadless) then
          if \<not> is_ours then
            let refused = (shape_error existing faultHeadless)\<lparr> se_unrecorded := True, se_recorded := recorded,
                  se_live := om_UID (sv_Meta existing) \<rparr> in
            if recorded = []
            then andThen (serviceRecordKeepable agent rv digest (om_UID (sv_Meta existing))) (\<lambda>kept.
              Return (agent, status, Some (ShapeError (refused\<lparr> se_recordNotKept := \<not> kept \<rparr>))))
            else Return (agent, status, Some (ShapeError refused))
          else replaceUnrepairableService agent existing desired rv digest recorded status
        else
          let updated = service_updated desired digest existing in
          if equalService existing updated
          then Return (agent, adoptServiceRecord status rv digest existing, None)
          else andThen (updateObj (OService updated)) (\<lambda>r. case r of
             Some e \<Rightarrow> Return (agent, status, Some (ApiFail (msgf ''converge service'' [name]) e))
           | None \<Rightarrow> Return (agent, adoptServiceRecord status rv digest existing, None)))"

definition ensureService :: "Agent \<Rightarrow> AgentRuntime \<Rightarrow> string \<Rightarrow> string \<Rightarrow> string \<Rightarrow> AgentStatus \<Rightarrow> service_result op" where
  "ensureService agent rt runNS rv digest status =
     (let desired = desired_service agent rt runNS rv digest; name = om_Name (sv_Meta desired) in
      andThen (getObj True KService as_service runNS name) (\<lambda>got. case got of
         Inl e \<Rightarrow>
           if IsNotFound e then andThen (createObj as_service (OService desired)) (\<lambda>r. case r of
              Inl e \<Rightarrow> Return (agent, status, Some
                (if err_class e = EAlreadyExists then ApiFail (msgf ''service appeared between the read and the create'' [name]) e
                 else ServiceCreateError (msgf ''create service'' [name]) e))
            | Inr stored \<Rightarrow>
              let uid = om_UID (sv_Meta stored); status = recordServiceUID status rv digest uid in
              andThen (persistServiceRecord agent rv digest uid None) (\<lambda>agent. Return (agent, status, None)))
           else Return (agent, status, Some (ServiceReadError runNS name e))
       | Inr existing \<Rightarrow> converge_service agent runNS rv digest status desired existing))"

section \<open>Which Services are a revision's, and collecting them\<close>

definition isRevisionService :: "Agent \<Rightarrow> Service \<Rightarrow> bool" where
  "isRevisionService agent s =
     (let rv = lbl (om_Labels (sv_Meta s)) LabelRevision in
      if rv = [] \<or> lbl (om_Labels (sv_Meta s)) LabelAgentUID \<noteq> ag_UID agent then False
      else om_Name (sv_Meta s) = WorkloadName (ag_Name agent) rv)"

definition ownedServices :: "Agent \<Rightarrow> string \<Rightarrow> (go_error + Service list) op" where
  "ownedServices agent runNS =
     tryThen (listOr (msgf ''list services'' [ag_Namespace agent, ag_Name agent]) False KService as_service runNS
        [(LabelAgent, ag_Name agent)])
       (\<lambda>items. Return (Inr (filter (isRevisionService agent) items)))"

definition collectRevisionServices :: "Agent \<Rightarrow> string \<Rightarrow> (string \<Rightarrow> bool) \<Rightarrow> (go_error + unit) op" where
  "collectRevisionServices agent runNS keep =
     tryThen (ownedServices agent runNS) (forEach (\<lambda>s.
       if keep (lbl (om_Labels (sv_Meta s)) LabelRevision) then Return (Inr ())
       else deleteGone (msgf ''gc service'' [om_Name (sv_Meta s)]) (OService s)))"

section \<open>The errors' texts\<close>

abbreviation servedRouteNote :: string where "servedRouteNote \<equiv> '' This revision is the ACTIVE one''"

definition collision_reason :: "revisionCollisionError \<Rightarrow> string" where
  "collision_reason e = (if co_existing e = ''(another agent's)'' then ''ForeignObject''
     else if co_existing e = ''(no stamp)'' then ''Unstamped'' else ''DigestMismatch'')"

definition collision_text :: "revisionCollisionError \<Rightarrow> string" where
  "collision_text e =
     (if co_kind e = ''service'' then
        let remedy = ''delete that Service'' @ (if co_servingNow e then servedRouteNote else []);
            names = (if co_servingNow e then ''the serving route names this object'' else ''the serving route would name this object'');
            at = (if co_ns e \<noteq> [] then co_ns e @ ''/'' @ co_name e else co_name e);
            remedy = (case co_shape e of None \<Rightarrow> remedy | Some s \<Rightarrow> shape_detail s @ '' '' @ remedy) in
        if co_existing e = ''(another agent's)'' then msgf ''service does not carry the UID of this Agent'' [at, names, remedy]
        else if co_existing e = ''(no stamp)'' then msgf ''service carries no revision digest'' [at, names, remedy]
        else msgf ''service carries another revision digest'' [at, co_existing e, co_desired e, remedy]
      else if co_existing e = ''(another agent's)'' then msgf ''workload does not carry the UID of this Agent'' [co_name e]
      else if co_existing e = ''(no stamp)'' then msgf ''workload carries no revision digest'' [co_name e]
      else if co_role e \<noteq> [] then msgf ''the revision was gated with another digest'' [co_role e, co_name e, co_existing e, co_desired e]
      else msgf ''workload was rendered from another revision digest'' [co_name e, co_existing e, co_desired e])"

definition replace_text :: "serviceReplaceError \<Rightarrow> string" where
  "replace_text e = msgf ''could not be repaired in place, and the replacement'' [re_ns e, re_name e, re_stage e,
     (case re_cause e of Inl a \<Rightarrow> err_text a | Inr t \<Rightarrow> t),
     (if re_standing e then ''the object read is still at that name'' else ''whatever holds that name is what traffic reaches'')]"

definition service_read_text :: "string \<Rightarrow> string \<Rightarrow> api_error \<Rightarrow> string" where
  "service_read_text ns name e = msgf ''could not read revision Service'' [ns, name, err_text e,
     (if err_class e \<in> {EForbidden, EUnauthorized} then ''the operator's own credentials were refused'' else ''nothing was written to it'')]"

fun go_text :: "go_error \<Rightarrow> string" where
  "go_text (ApiFail what a) = what @ '': '' @ err_text a"
| "go_text (PlainError t) = t"
| "go_text (RunNamespaceError reason message terminal) = reason @ '': '' @ message"
| "go_text (PinUnresolvable u) = msgf ''spec.release.targetRevisionDigest'' [un_digest u, un_reason u]"
| "go_text (MaterialError name why) = msgf ''revision material'' [name, why]"
| "go_text (Collision c) = collision_text c"
| "go_text (ShapeError s) = shape_text s"
| "go_text (ReplaceError r) = replace_text r"
| "go_text (ServiceReadError ns name a) = service_read_text ns name a"
| "go_text (ServiceCreateError what a) = what @ '': the revision Service could not be created: '' @ err_text a"
| "go_text (RouteCollision c) = msgf ''route is already the serving route of another Agent'' [rc_ns c, rc_name c, rc_ownerNamespace c,
     rc_ownerAgent c, rc_claimantNamespace c, rc_claimantAgent c]"
| "go_text RouteGone = ''the serving route is gone, and an API-key route is never created published''"
| "go_text (RouteRaceLost name a) = msgf ''the cached read found no route and the API server already holds one'' [name, err_text a]"
| "go_text (StaleAgent t) = t"
| "go_text (GatewayError reason e) = go_text e"
| "go_text (CardError reason message) = message"
| "go_text (GoPanic t) = t"

section \<open>What a status write carries\<close>

text \<open>
  The versions of the Agent a pass has seen: an Agent read at a resource version, and the status it
  wrote itself, as sent and as answered, under the version the write was answered with (the two differ
  only in what the server prunes). An update at a version succeeds only on
  the object stored at that version, so what a write leaves of the status seen there, it leaves of
  the object.
\<close>

definition versions :: "exchange list \<Rightarrow> (nat \<times> AgentStatus) set" where
  "versions h = {(ag_ResourceVersion a, ag_Status a) | l ns n a. (GetAgent l ns n, RAgent (Inr a)) \<in> set h} \<union>
     {(ag_ResourceVersion stored, ag_Status sent) | sent stored. (UpdateStatus sent, RAgent (Inr stored)) \<in> set h} \<union>
     {(ag_ResourceVersion stored, ag_Status stored) | sent stored. (UpdateStatus sent, RAgent (Inr stored)) \<in> set h}"

lemma versions_append: "v \<in> versions h \<Longrightarrow> v \<in> versions (h @ t)"
  by (auto simp: versions_def)

lemma versions_read: "(GetAgent l ns n, RAgent (Inr a)) \<in> set h \<Longrightarrow> (ag_ResourceVersion a, ag_Status a) \<in> versions h"
  unfolding versions_def by blast

lemma versions_written:
  "(UpdateStatus sent, RAgent (Inr stored)) \<in> set h \<Longrightarrow> (ag_ResourceVersion stored, ag_Status sent) \<in> versions h"
  unfolding versions_def by blast

lemma versions_answered:
  "(UpdateStatus sent, RAgent (Inr stored)) \<in> set h \<Longrightarrow> (ag_ResourceVersion stored, ag_Status stored) \<in> versions h"
  unfolding versions_def by blast

definition but_services :: "AgentStatus \<Rightarrow> AgentStatus" where
  "but_services st = st\<lparr> st_RevisionServices := [], st_ServiceReplacedRevision := [], st_ServiceReplacedAt := None \<rparr>"

definition only_services :: "AgentStatus \<Rightarrow> AgentStatus \<Rightarrow> bool" where
  "only_services a b \<longleftrightarrow> but_services a = but_services b"

lemma only_services_refl [simp]: "only_services a a"
  by (simp add: only_services_def)

lemma only_services_trans: "only_services a b \<Longrightarrow> only_services b c \<Longrightarrow> only_services a c"
  by (simp add: only_services_def)

lemma only_services_sel:
  assumes "only_services a b"
  shows "st_Eval a = st_Eval b" "st_ActiveRevision a = st_ActiveRevision b"
    "st_ActiveRevisionDigest a = st_ActiveRevisionDigest b" "st_CandidateRevision a = st_CandidateRevision b"
    "st_CandidateRevisionDigest a = st_CandidateRevisionDigest b" "st_Auth a = st_Auth b" "st_Cards a = st_Cards b"
    "st_Conditions a = st_Conditions b" "st_SupersededCandidates a = st_SupersededCandidates b" "st_Phase a = st_Phase b"
    "st_ObservedGeneration a = st_ObservedGeneration b"
proof -
  have "f (but_services a) = f (but_services b)" for f :: "AgentStatus \<Rightarrow> 'x"
    using assms by (simp add: only_services_def)
  from this [of st_Eval] this [of st_ActiveRevision] this [of st_ActiveRevisionDigest] this [of st_CandidateRevision]
    this [of st_CandidateRevisionDigest] this [of st_Auth] this [of st_Cards] this [of st_Conditions]
    this [of st_SupersededCandidates] this [of st_Phase] this [of st_ObservedGeneration]
  show "st_Eval a = st_Eval b" "st_ActiveRevision a = st_ActiveRevision b"
    "st_ActiveRevisionDigest a = st_ActiveRevisionDigest b" "st_CandidateRevision a = st_CandidateRevision b"
    "st_CandidateRevisionDigest a = st_CandidateRevisionDigest b" "st_Auth a = st_Auth b" "st_Cards a = st_Cards b"
    "st_Conditions a = st_Conditions b" "st_SupersededCandidates a = st_SupersededCandidates b" "st_Phase a = st_Phase b"
    "st_ObservedGeneration a = st_ObservedGeneration b"
    by (simp_all add: but_services_def)
qed

lemma only_services_edits [simp]:
  "only_services st (recordServiceUID st rv digest uid)"
  "only_services st (adoptServiceRecord st rv digest s)"
  "only_services st (apply_record rv digest uid at st)"
  "only_services st (fst (pruneServiceRecords st keep))"
  by (auto simp: only_services_def but_services_def recordServiceUID_def adoptServiceRecord_def apply_record_def
      pruneServiceRecords_def Let_def split: option.split)

text \<open>The record of a Service: what was recorded under a pair is what is read back under it.\<close>

interpretation service_records: keyed_record
  "\<lambda>st k. map_option rs_UID (find (record_for (fst k) (snd k)) (st_RevisionServices st))"
  "\<lambda>k uid st. recordServiceUID st (fst k) (snd k) uid" "\<lambda>k uid. uid"
proof
  fix k :: "string \<times> string" and uid st
  show "map_option rs_UID (find (record_for (fst k) (snd k)) (st_RevisionServices (recordServiceUID st (fst k) (snd k) uid))) = Some uid"
    by (auto simp: recordServiceUID_def Let_def find_replace_first record_for_def find_append split: option.splits)
next
  fix k j :: "string \<times> string" and uid st
  assume "k \<noteq> j"
  then have other: "\<And>y. record_for (fst j) (snd j) y \<Longrightarrow> \<not> record_for (fst k) (snd k) y"
    and new: "\<not> record_for (fst j) (snd j) \<lparr> rs_Revision = fst k, rs_RevisionDigest = snd k, rs_UID = uid \<rparr>"
    by (cases k; cases j; auto simp: record_for_def)+
  show "map_option rs_UID (find (record_for (fst j) (snd j)) (st_RevisionServices (recordServiceUID st (fst k) (snd k) uid))) =
     map_option rs_UID (find (record_for (fst j) (snd j)) (st_RevisionServices st))"
    using find_replace_first_other [of "record_for (fst j) (snd j)" "record_for (fst k) (snd k)", OF other new] new
    by (auto simp: recordServiceUID_def Let_def find_append split: option.splits)
qed

lemma recordedServiceUID_record:
  "recordedServiceUID (recordServiceUID st rv digest uid) rv' digest' =
     (if (rv', digest') = (rv, digest) then uid else recordedServiceUID st rv' digest')"
  using service_records.lookup_put [where k = "(rv, digest)" and w = uid and s = st and j = "(rv', digest')"]
  by (auto simp: recordedServiceUID_def split: option.splits if_splits)

section \<open>What converging a Service promises\<close>

lemma resp_obj_service: "resp_obj as_service a = Inr s \<longleftrightarrow> a = RObj (Inr (OService s))"
  by (cases a) (auto simp: resp_obj_def as_service_def split: sum.splits kobj.splits)

lemma resp_agent_Inr: "resp_agent a = Inr x \<longleftrightarrow> a = RAgent (Inr x)"
  by (cases a) (auto simp: resp_agent_def)

definition service_read :: "exchange list \<Rightarrow> Service \<Rightarrow> bool" where
  "service_read h s \<longleftrightarrow> (\<exists>ns n. (Get True KService ns n, RObj (Inr (OService s))) \<in> set h)"

text \<open>
  The requests of \<open>ensureService\<close>: a delete is of the Service just read, headless, under the UID the
  status records for this revision; an update is of a Service just read that is recorded or stamped as
  this Agent's; a status write changes nothing but the Service records.
\<close>

definition status_write :: "(AgentStatus \<Rightarrow> AgentStatus \<Rightarrow> bool) \<Rightarrow> exchange list \<Rightarrow> Agent \<Rightarrow> bool" where
  "status_write R h a \<longleftrightarrow> (\<exists>st. (ag_ResourceVersion a, st) \<in> versions h \<and> R st (ag_Status a))"

definition service_request :: "Agent \<Rightarrow> AgentStatus \<Rightarrow> string \<Rightarrow> string \<Rightarrow> exchange list \<Rightarrow> req \<Rightarrow> bool" where
  "service_request agent status rv digest h r = (case r of
     Get live k ns n \<Rightarrow> k = KService
   | GetAgent live ns n \<Rightarrow> live
   | Create (OService s) \<Rightarrow> om_Labels (sv_Meta s) = revision_labels agent rv \<and> sv_Selector s = revision_selector agent rv \<and>
       lbl (om_Annotations (sv_Meta s)) RevisionDigestAnnotation = digest
   | DryRunCreate x \<Rightarrow> True
   | ReadClock \<Rightarrow> True
   | Update (OService s) \<Rightarrow> (\<exists>existing. service_read h existing \<and> om_UID (sv_Meta s) = om_UID (sv_Meta existing) \<and>
       sv_Selector s = revision_selector agent rv \<and>
       (recordedServiceUID status rv digest \<noteq> [] \<and> om_UID (sv_Meta existing) = recordedServiceUID status rv digest \<or>
        ours agent status rv digest (sv_Meta existing)))
   | Delete (OService s) p \<Rightarrow> service_read h s \<and> sv_ClusterIP s = ClusterIPNone \<and> recordedServiceUID status rv digest \<noteq> [] \<and>
       p = Some (recordedServiceUID status rv digest) \<and> om_UID (sv_Meta s) = recordedServiceUID status rv digest
   | UpdateStatus a \<Rightarrow> status_write only_services h a
   | DryRunStatus a \<Rightarrow> True
   | _ \<Rightarrow> False)"

definition seen :: "exchange list \<Rightarrow> Agent \<Rightarrow> bool" where
  "seen h a \<longleftrightarrow> (ag_ResourceVersion a, ag_Status a) \<in> versions h"

lemma seen_append: "seen h a \<Longrightarrow> seen (h @ t) a"
  by (simp add: seen_def versions_append)

lemma persist_retry_wp:
  assumes "\<And>st. only_services st (edit st)"
  shows "op_wp (service_request agent status rv digest) (\<lambda>h r. True) h (persist_retry n ag edit err)"
proof (induction n arbitrary: h err)
  case (Suc n)
  then show ?case
    by (auto simp: service_request_def status_write_def op_wp_sum op_wp_if resp_agent_Inr split: sum.split
        intro!: exI conjI versions_read [of _ _ _ _ "_ @ _"] assms)
qed simp

lemma persistServiceRecord_wp:
  assumes "seen h ag"
  shows "op_wp (service_request agent status rv digest)
     (\<lambda>h ag'. seen h ag' \<and> only_services (ag_Status ag) (ag_Status ag') \<and> ag_UID ag' = ag_UID ag \<and> ag_Spec ag' = ag_Spec ag \<and> ag_Name ag' = ag_Name ag \<and> ag_Namespace ag' = ag_Namespace ag) h
     (persistServiceRecord ag rv digest uid at)"
proof -
  let ?st = "apply_record rv digest uid at (ag_Status ag)"
  let ?cur = "ag\<lparr> ag_Status := ?st \<rparr>"
  have w: "status_write only_services h ?cur"
    using assms by (auto simp: status_write_def seen_def)
  have s: "seen (h @ [(UpdateStatus ?cur, RAgent (Inr stored))]) (?cur\<lparr> ag_ResourceVersion := ag_ResourceVersion stored \<rparr>)" for stored
    using versions_written [of ?cur stored "h @ [(UpdateStatus ?cur, RAgent (Inr stored))]"] by (simp add: seen_def)
  have r: "op_wp (service_request agent status rv digest) (\<lambda>h _. True \<and> seen h ag) h'
     (persist_retry 4 ag (apply_record rv digest uid at) err)" if "seen h' ag" for h' err
    by (rule op_wp_keep [OF persist_retry_wp that seen_append]) simp_all
  show ?thesis
    unfolding persistServiceRecord_def Let_def
    using w s r [OF seen_append [OF assms]]
    by (auto simp: service_request_def op_wp_sum op_wp_andThen resp_agent_Inr split: sum.split)
qed

text \<open>What \<open>ensureService\<close> returns: an Agent seen, and a status that differs only in the Service records.\<close>

definition service_post :: "Agent \<Rightarrow> AgentStatus \<Rightarrow> exchange list \<Rightarrow> service_result \<Rightarrow> bool" where
  "service_post agent status h r = (case r of (agent', status', e) \<Rightarrow>
     seen h agent' \<and> only_services status status' \<and> only_services (ag_Status agent) (ag_Status agent') \<and>
     ag_UID agent' = ag_UID agent \<and> ag_Spec agent' = ag_Spec agent \<and> ag_Name agent' = ag_Name agent \<and>
     ag_Namespace agent' = ag_Namespace agent)"

lemma desired_service_sel [simp]:
  "om_Labels (sv_Meta (desired_service agent rt runNS rv digest)) = revision_labels agent rv"
  "sv_Selector (desired_service agent rt runNS rv digest) = revision_selector agent rv"
  "om_Annotations (sv_Meta (desired_service agent rt runNS rv digest)) = [(RevisionDigestAnnotation, digest)]"
  "om_Name (sv_Meta (desired_service agent rt runNS rv digest)) = WorkloadName (ag_Name agent) rv"
  by (simp_all add: desired_service_def serviceFor_def new_meta_def Let_def)

lemma delete_and_recreate_wp:
  assumes "seen h agent" and "service_read h existing" and "sv_ClusterIP existing = ClusterIPNone"
    and "recorded \<noteq> []" "recorded = recordedServiceUID status rv digest" "om_UID (sv_Meta existing) = recorded"
    and des: "om_Labels (sv_Meta desired) = revision_labels agent rv" "sv_Selector desired = revision_selector agent rv"
      "lbl (om_Annotations (sv_Meta desired)) RevisionDigestAnnotation = digest"
  shows "op_wp (service_request agent status rv digest) (service_post agent status) h
     (delete_and_recreate agent existing desired rv digest recorded status)"
  unfolding delete_and_recreate_def Let_def
  using assms
  by (auto simp: op_wp_andThen op_wp_option op_wp_sum wp_rules service_request_def [of _ _ _ _ _ "Create _"]
      service_request_def [of _ _ _ _ _ "Delete _ _"] service_request_def [of _ _ _ _ _ ReadClock]
      service_post_def resp_obj_service split: sum.split option.split
      intro!: persistServiceRecord_wp seen_append)

lemma replaceUnrepairableService_wp:
  assumes "seen h agent" and "service_read h existing" and "sv_ClusterIP existing = ClusterIPNone"
    and "recorded \<noteq> []" "recorded = recordedServiceUID status rv digest" "om_UID (sv_Meta existing) = recorded"
    and "om_Labels (sv_Meta desired) = revision_labels agent rv" "sv_Selector desired = revision_selector agent rv"
      "lbl (om_Annotations (sv_Meta desired)) RevisionDigestAnnotation = digest"
  shows "op_wp (service_request agent status rv digest) (service_post agent status) h
     (replaceUnrepairableService agent existing desired rv digest recorded status)"
proof -
  have d: "op_wp (service_request agent status rv digest) (service_post agent status) (h @ t)
     (delete_and_recreate agent existing desired rv digest recorded status)" for t
    using assms by (intro delete_and_recreate_wp) (auto simp: seen_append service_read_def)
  have s: "seen (h @ t) agent" for t using assms(1) by (rule seen_append)
  show ?thesis
    unfolding replaceUnrepairableService_def Let_def
    using d [of "[_]"] d [of "[_, _]"] s [of "[]"] s [of "[_]"] s [of "[_, _]"]
    by (auto simp: op_wp_andThen op_wp_option op_wp_sum wp_rules service_request_def [of _ _ _ _ _ "DryRunCreate _"]
        service_request_def [of _ _ _ _ _ ReadClock] service_post_def split: sum.split option.split)
qed

lemma converge_service_wp:
  assumes "seen h agent" and "service_read h existing" and "desired = desired_service agent rt runNS rv digest"
  shows "op_wp (service_request agent status rv digest) (service_post agent status) h
     (converge_service agent runNS rv digest status desired existing)"
proof -
  have s: "seen (h @ t) agent" for t using assms(1) by (rule seen_append)
  have repl: "op_wp (service_request agent status rv digest) (service_post agent status) h
     (replaceUnrepairableService agent existing desired rv digest (recordedServiceUID status rv digest) status)"
    if "recordedServiceUID status rv digest \<noteq> []" "om_UID (sv_Meta existing) = recordedServiceUID status rv digest"
      "sv_ClusterIP existing = ClusterIPNone"
    using assms that by (intro replaceUnrepairableService_wp) (auto simp: lbl_def)
  have headless: "sv_ClusterIP existing = ClusterIPNone" if "serviceNotRendered existing = Some e" "se_what e = faultHeadless" for e
    using that by (auto simp: serviceNotRendered_def shape_error_def Let_def split: if_splits)
  have upd: "service_request agent status rv digest h (Update (OService (service_updated desired digest existing)))"
    if "recordedServiceUID status rv digest \<noteq> [] \<and> om_UID (sv_Meta existing) = recordedServiceUID status rv digest \<or>
        ours agent status rv digest (sv_Meta existing)"
    using that assms by (auto simp: service_request_def service_updated_def)
  have dry: "service_request agent status rv digest h (DryRunStatus a)" for a by (simp add: service_request_def)
  show ?thesis
    unfolding converge_service_def Let_def serviceRecordKeepable_def
    using s [of "[]"] s repl headless upd dry
    by (auto simp: op_wp_andThen op_wp_option op_wp_sum wp_rules service_post_def foreign_stamp_None
        split: sum.split option.split)
qed

lemma ensureService_wp:
  assumes "seen h agent"
  shows "op_wp (service_request agent status rv digest) (service_post agent status) h
     (ensureService agent rt runNS rv digest status)"
proof -
  have s: "seen (h @ t) agent" for t using assms by (rule seen_append)
  have conv: "op_wp (service_request agent status rv digest) (service_post agent status)
      (h @ [(Get True KService runNS (WorkloadName (ag_Name agent) rv), RObj (Inr (OService existing)))])
      (converge_service agent runNS rv digest status (desired_service agent rt runNS rv digest) existing)" for existing
    by (rule converge_service_wp [OF s _ refl]) (auto simp: service_read_def)
  show ?thesis
    unfolding ensureService_def Let_def
    using s conv
    by (auto simp: op_wp_andThen op_wp_option op_wp_sum wp_rules service_post_def resp_obj_service lbl_def
        service_request_def [of _ _ _ _ _ "Create _"] service_request_def [of _ _ _ _ _ "Get _ _ _ _"]
        split: sum.split option.split intro!: persistServiceRecord_wp)
qed

text \<open>
  Ensuring a revision's Service, against any answers, deletes a Service only when it just read it
  headless and its UID is the one the status records for this revision and digest, with that UID as
  the precondition; updates one only when it is so recorded or carries this Agent's UID and this
  digest; creates only the rendered Service; and writes of the Agent's status nothing but the Service
  records, at a resource version it has seen. The status handed on differs in nothing else.
\<close>

theorem ensureService_touches_only_its_own:
  "op_wp (service_request agent status rv digest) (service_post agent status) [(GetAgent False ns n, RAgent (Inr agent))]
     (ensureService agent rt runNS rv digest status)"
proof (rule ensureService_wp)
  show "seen [(GetAgent False ns n, RAgent (Inr agent))] agent"
    unfolding seen_def by (rule versions_read [of False ns n]) simp
qed

text \<open>
  A replacement within the cooldown of the recorded one is refused: a delete follows a reading of the clock outside the ten minutes
  from the recorded time on.
\<close>

definition cooled :: "AgentStatus \<Rightarrow> string \<Rightarrow> exchange list \<Rightarrow> req \<Rightarrow> bool" where
  "cooled status rv h r = (\<forall>x p t0. r = Delete x p \<longrightarrow> st_ServiceReplacedRevision status = rv \<longrightarrow> st_ServiceReplacedAt status = Some t0 \<longrightarrow>
     (\<exists>a. (ReadClock, a) \<in> set h \<and> \<not> (0 \<le> resp_time a - t0 \<and> resp_time a - t0 < ServiceReplaceCooldown)))"

lemma cooled_other [simp]:
  "cooled status rv h (Get l k ns n)" "cooled status rv h (Create x)" "cooled status rv h (DryRunCreate x)" "cooled status rv h ReadClock"
  "cooled status rv h (UpdateStatus a)" "cooled status rv h (DryRunStatus a)" "cooled status rv h (GetAgent l ns n)"
  "cooled status rv h (Update x)"
  by (simp_all add: cooled_def)

lemma persist_retry_cooled: "op_wp (cooled status rv) (\<lambda>h r. True) h (persist_retry n ag edit err)"
  by (induction n arbitrary: h err) (auto simp: op_wp_sum op_wp_if split: sum.split)

lemma persistServiceRecord_cooled: "op_wp (cooled status rv) (\<lambda>h r. True) h (persistServiceRecord ag rv' digest uid at)"
  unfolding persistServiceRecord_def Let_def
  by (auto simp: op_wp_sum op_wp_andThen split: sum.split intro: persist_retry_cooled)

lemma delete_and_recreate_cooled:
  assumes "cooled status rv h (Delete (OService existing) (Some recorded))"
  shows "op_wp (cooled status rv) (\<lambda>h r. True) h (delete_and_recreate agent existing desired rv digest recorded st')"
  unfolding delete_and_recreate_def Let_def
  using assms
  by (auto simp: op_wp_andThen op_wp_option op_wp_sum wp_rules split: sum.split option.split intro: persistServiceRecord_cooled)

lemma replaceUnrepairableService_cooled:
  "op_wp (cooled status rv) (\<lambda>h r. True) h (replaceUnrepairableService agent existing desired rv digest recorded status)"
proof (cases "st_ServiceReplacedRevision status = rv \<and> st_ServiceReplacedAt status \<noteq> None")
  case True
  then obtain t0 where t0: "st_ServiceReplacedRevision status = rv" "st_ServiceReplacedAt status = Some t0" by auto
  have d: "op_wp (cooled status rv) (\<lambda>h r. True) (h @ [(ReadClock, a), e])
      (delete_and_recreate agent existing desired rv digest recorded status)"
    if "\<not> (0 \<le> resp_time a - t0 \<and> resp_time a - t0 < ServiceReplaceCooldown)" for a e
    using that t0 by (intro delete_and_recreate_cooled) (auto simp: cooled_def)
  show ?thesis
    unfolding replaceUnrepairableService_def Let_def using t0 d
    by (auto simp: op_wp_andThen op_wp_sum wp_rules split: sum.split)
next
  case False
  then have d: "op_wp (cooled status rv) (\<lambda>h r. True) h'
      (delete_and_recreate agent existing desired rv digest recorded status)" for h'
    by (intro delete_and_recreate_cooled) (auto simp: cooled_def)
  from False show ?thesis
    unfolding replaceUnrepairableService_def Let_def using d
    by (auto simp: op_wp_andThen op_wp_sum wp_rules split: sum.split)
qed

text \<open>
  C26. The replacement the status records holds back the next. Where it is of this revision, no delete is requested unless the
  clock was read before and stood outside the ten minutes that begin at the recorded time: ten minutes or more after it, or before
  it. A recorded time that lies in the future does not hold the replacement, and neither does the record of another
  revision, of which the status keeps only the last.
\<close>

theorem ensureService_replaces_once_per_cooldown:
  "op_wp (cooled status rv) (\<lambda>h r. True) h (ensureService agent rt runNS rv digest status)"
  unfolding ensureService_def converge_service_def Let_def serviceRecordKeepable_def
  by (auto simp: op_wp_andThen op_wp_sum op_wp_option wp_rules split: sum.split option.split
      intro: persistServiceRecord_cooled replaceUnrepairableService_cooled)

lemma service_updated_idem: "service_updated desired digest (service_updated desired digest s) = service_updated desired digest s"
  by (simp add: service_updated_def stampDigest_def alist_put_def alist_delete_def)

lemma equalService_refl:
  "distinct (map fst (sv_Selector s)) \<Longrightarrow> distinct (map fst (om_Labels (sv_Meta s))) \<Longrightarrow> equalService s s"
  by (auto simp: equalService_def equalInternalTrafficPolicy_def list_all_iff lbl_def split: option.splits)

lemma revision_maps_distinct:
  "distinct (map fst (revision_labels agent rv))" "distinct (map fst (revision_selector agent rv))"
  by (simp_all add: revision_labels_def revision_selector_def)

lemma service_updated_rendered:
  "serviceNotRendered (service_updated (desired_service agent rt runNS rv digest) digest s) =
     (if sv_ClusterIP s = ClusterIPNone
      then Some ((shape_error (service_updated (desired_service agent rt runNS rv digest) digest s) faultHeadless)\<lparr> se_typ := ServiceTypeClusterIP \<rparr>)
      else None)"
  by (simp add: serviceNotRendered_def service_updated_def desired_service_def serviceFor_def Let_def)

text \<open>
  Convergence of a Service is stable: a pass that reads back what the last update wrote, with a
  ClusterIP, makes no write.
\<close>

theorem ensureService_stable:
  assumes "sv_ClusterIP s \<noteq> ClusterIPNone"
    and "stored = service_updated (desired_service agent rt runNS rv digest) digest s"
  shows "run_op (\<lambda>h r. RObj (Inr (OService stored))) [] (ensureService agent rt runNS rv digest status) =
     ((agent, adoptServiceRecord status rv digest stored, None),
      [(Get True KService runNS (WorkloadName (ag_Name agent) rv), RObj (Inr (OService stored)))])"
proof -
  have "foreign_stamp agent status rv digest (sv_Meta stored) = None"
    by (simp add: foreign_stamp_None ours_def assms(2) service_updated_def stampDigest_def map_of_alist_put revision_labels_def lbl_def)
  moreover have "serviceNotRendered stored = None"
    using assms(1) by (simp add: assms(2) service_updated_rendered)
  moreover have "equalService stored (service_updated (desired_service agent rt runNS rv digest) digest stored)"
    unfolding assms(2) service_updated_idem
    by (rule equalService_refl) (simp_all add: service_updated_def revision_maps_distinct)
  ultimately show ?thesis
    by (simp add: ensureService_def converge_service_def Let_def getObj_def resp_obj_def as_service_def)
qed

text \<open>Collecting deletes only this Agent's Services of revisions that are not kept.\<close>

lemma collectRevisionServices_wp:
  "op_wp (\<lambda>h r. case r of ListOf l k ns sel \<Rightarrow> k = KService
       | Delete (OService s) p \<Rightarrow> isRevisionService agent s \<and> \<not> keep (lbl (om_Labels (sv_Meta s)) LabelRevision) | _ \<Rightarrow> False)
     (\<lambda>h r. True) h (collectRevisionServices agent runNS keep)"
  unfolding collectRevisionServices_def ownedServices_def
  by (auto simp: wp_rules split: sum.split intro!: op_wp_forEach)

section \<open>A run\<close>

definition sample_service :: Service where
  "sample_service = service_updated (desired_service (sample_agent (sample_spec [])) (sample_runtime ''img'') ''run'' ''r1'' ''d1'') ''d1''
     (desired_service (sample_agent (sample_spec [])) (sample_runtime ''img'') ''run'' ''r1'' ''d1'')"

theorem ensureService_stable_witness:
  "snd (run_op (\<lambda>h r. RObj (Inr (OService sample_service))) []
      (ensureService (sample_agent (sample_spec [])) (sample_runtime ''img'') ''run'' ''r1'' ''d1'' zero_status)) =
    [(Get True KService ''run'' (WorkloadName ''agent'' ''r1''), RObj (Inr (OService sample_service)))]"
proof -
  have "sv_ClusterIP (desired_service (sample_agent (sample_spec [])) (sample_runtime ''img'') ''run'' ''r1'' ''d1'') \<noteq> ClusterIPNone"
    by (simp add: desired_service_def serviceFor_def Let_def)
  from ensureService_stable [OF this sample_service_def, of zero_status] show ?thesis by (simp add: sample_agent_def)
qed

end
