(* ===== verification/Run_Namespace.thy ===== *)
theory Run_Namespace
  imports Revision_Service
begin

text \<open>
  The run namespace of a source namespace (\<^verbatim>\<open>internal/controller/runnamespace.go\<close>): the binding record in
  the operator's own namespace that proves the operator created it, the checks a pass makes before it
  writes anything into it, its labels and mirrored quotas, and its teardown when the last Agent goes.

  The record's states are \<open>bindingState\<close>; each write of one is an optimistic \<^verbatim>\<open>Update\<close> of the ConfigMap that
  was read. \<open>decodeBinding\<close> reads the required fields in a fixed order, where the source ranges over a
  Go map: only the text of the error differs. The per-name mutex of the process is not a step of the
  model. Log lines are left out.
\<close>

section \<open>Names and labels\<close>

abbreviation RunNamespacePrefix :: string where "RunNamespacePrefix \<equiv> ''assayd-run-''"
abbreviation LabelRunNamespace :: string where "LabelRunNamespace \<equiv> ''assayd.dev/run-namespace''"
abbreviation LabelPodsBy :: string where "LabelPodsBy \<equiv> ''assayd.dev/pods-by''"
abbreviation LabelOwnedBy :: string where "LabelOwnedBy \<equiv> ''assayd.dev/owned-by''"
abbreviation AnnotationBindingNonce :: string where "AnnotationBindingNonce \<equiv> ''assayd.dev/binding-nonce''"
abbreviation LabelBinding :: string where "LabelBinding \<equiv> ''assayd.dev/run-namespace-binding''"
abbreviation bindingSchemaVersion :: string where "bindingSchemaVersion \<equiv> ''1''"
abbreviation MirrorPrefix :: string where "MirrorPrefix \<equiv> ''assayd-mirror-''"
abbreviation AnnotationMirrorSource :: string where "AnnotationMirrorSource \<equiv> ''assayd.dev/mirror-source''"
abbreviation ReasonNotCreatedByOperator :: string where "ReasonNotCreatedByOperator \<equiv> ''NotCreatedByOperator''"
abbreviation ReasonNameCollision :: string where "ReasonNameCollision \<equiv> ''NameCollision''"
abbreviation ReasonTerminating :: string where "ReasonTerminating \<equiv> ''Terminating''"
abbreviation ReasonBindingRecordInvalid :: string where "ReasonBindingRecordInvalid \<equiv> ''BindingRecordInvalid''"
abbreviation ReasonLabelAuthorityAbsent :: string where "ReasonLabelAuthorityAbsent \<equiv> ''LabelAuthorityAbsent''"

definition pssLabels :: "string list" where
  "pssLabels = [''pod-security.kubernetes.io/enforce'', ''pod-security.kubernetes.io/enforce-version'',
     ''pod-security.kubernetes.io/audit'', ''pod-security.kubernetes.io/audit-version'',
     ''pod-security.kubernetes.io/warn'', ''pod-security.kubernetes.io/warn-version'']"

definition trim_right_any :: "string \<Rightarrow> string \<Rightarrow> string" where
  "trim_right_any cs s = rev (dropWhile (\<lambda>x. x \<in> set cs) (rev s))"

definition MirrorName :: "string \<Rightarrow> string" where
  "MirrorName source =
     (if length MirrorPrefix + length source \<le> 253 then MirrorPrefix @ source
      else MirrorPrefix @ trim_right_any ''-.'' (take (253 - length MirrorPrefix - 17) source) @ ''-'' @
           take 16 (hex_sum256 source))"

definition BindingName :: "string \<Rightarrow> string" where
  "BindingName runNamespace = ''assayd-run-binding-'' @ runNamespace"

section \<open>The binding record\<close>

datatype bindingState = bindingCreating | bindingBound | bindingTerminating | bindingDeleting

definition state_text :: "bindingState \<Rightarrow> string" where
  "state_text s = (case s of bindingCreating \<Rightarrow> ''Creating'' | bindingBound \<Rightarrow> ''Bound''
     | bindingTerminating \<Rightarrow> ''Terminating'' | bindingDeleting \<Rightarrow> ''Deleting'')"

definition state_of :: "string \<Rightarrow> bindingState option" where
  "state_of t = find (\<lambda>s. state_text s = t) [bindingCreating, bindingBound, bindingTerminating, bindingDeleting]"

record binding =
  bd_obj :: KeyedObject
  bd_sourceNamespace :: string
  bd_sourceNamespaceUID :: string
  bd_runNamespace :: string
  bd_runNamespaceUID :: string
  bd_nonce :: string
  bd_state :: bindingState

definition binding_field :: "KeyedObject \<Rightarrow> string \<Rightarrow> string + string" where
  "binding_field cm k = (case map_of (ko_Data cm) k of
     None \<Rightarrow> Inl (msgf ''binding record is missing'' [om_Name (ko_Meta cm), k])
   | Some v \<Rightarrow> if v = [] then Inl (msgf ''binding record is missing'' [om_Name (ko_Meta cm), k]) else Inr v)"

definition decodeBinding :: "KeyedObject \<Rightarrow> string + binding" where
  "decodeBinding cm = (case binding_field cm ''schemaVersion'' of Inl e \<Rightarrow> Inl e | Inr ver \<Rightarrow>
     if ver \<noteq> bindingSchemaVersion then Inl (msgf ''binding record has another schemaVersion'' [om_Name (ko_Meta cm), ver])
     else case binding_field cm ''sourceNamespace'' of Inl e \<Rightarrow> Inl e | Inr src \<Rightarrow>
     (case binding_field cm ''sourceNamespaceUID'' of Inl e \<Rightarrow> Inl e | Inr srcUID \<Rightarrow>
     (case binding_field cm ''runNamespace'' of Inl e \<Rightarrow> Inl e | Inr runNS \<Rightarrow>
     (case binding_field cm ''nonce'' of Inl e \<Rightarrow> Inl e | Inr nonce \<Rightarrow>
     (case binding_field cm ''state'' of Inl e \<Rightarrow> Inl e | Inr st \<Rightarrow>
     (case state_of st of
        None \<Rightarrow> Inl (msgf ''binding record has unknown state'' [om_Name (ko_Meta cm), st])
      | Some s \<Rightarrow>
        if s \<noteq> bindingCreating \<and> lbl (ko_Data cm) ''runNamespaceUID'' = []
        then Inl (msgf ''binding record has no runNamespaceUID'' [om_Name (ko_Meta cm), st])
        else Inr \<lparr> bd_obj = cm, bd_sourceNamespace = src, bd_sourceNamespaceUID = srcUID, bd_runNamespace = runNS,
               bd_runNamespaceUID = lbl (ko_Data cm) ''runNamespaceUID'', bd_nonce = nonce, bd_state = s \<rparr>))))))"

definition encode :: "binding \<Rightarrow> binding" where
  "encode b = b\<lparr> bd_obj := (bd_obj b)\<lparr> ko_Data := [(''schemaVersion'', bindingSchemaVersion),
     (''sourceNamespace'', bd_sourceNamespace b), (''sourceNamespaceUID'', bd_sourceNamespaceUID b),
     (''runNamespace'', bd_runNamespace b), (''runNamespaceUID'', bd_runNamespaceUID b), (''nonce'', bd_nonce b),
     (''state'', state_text (bd_state b))] \<rparr> \<rparr>"

section \<open>Steps on the record and the namespace\<close>

definition newNonce :: "(go_error + string) op" where
  "newNonce = Ask RandomBytes (\<lambda>a. Return (case a of RBytes (Some b) \<Rightarrow> Inr b
     | _ \<Rightarrow> Inl (PlainError ''generate binding nonce'')))"

definition installIdentity :: "string \<Rightarrow> (go_error + string) op" where
  "installIdentity opNS = Ask LoadInstallUID (\<lambda>a.
     let uid = (case a of RString u \<Rightarrow> u | _ \<Rightarrow> []) in
     if uid \<noteq> [] then Return (Inr uid)
     else andThen (getObj False KNamespace as_namespace [] opNS) (\<lambda>got. case got of
        Inl e \<Rightarrow> Return (Inl (ApiFail (msgf ''read the operator namespace'' [opNS]) e))
      | Inr ns \<Rightarrow> Ask (StoreInstallUID (om_UID ns)) (\<lambda>_. Return (Inr (om_UID ns)))))"

definition policy_installed :: "kind \<Rightarrow> string \<Rightarrow> (go_error + bool) op" where
  "policy_installed k name = andThen (getObj False k as_any [] name) (\<lambda>got. Return (case got of
     Inr _ \<Rightarrow> Inr True
   | Inl e \<Rightarrow> if IsNotFound e then Inr False else Inl (ApiFail (msgf ''check admission policy'' [name]) e)))"

fun all_installed :: "(kind \<times> string) list \<Rightarrow> (go_error + bool) op" where
  "all_installed [] = Return (Inr True)"
| "all_installed ((k, name) # rest) = tryThen (policy_installed k name) (\<lambda>ok.
     if ok then all_installed rest else Return (Inr False))"

definition LabelAuthorityPresent :: "(go_error + bool) op" where
  "LabelAuthorityPresent = all_installed
     [(KAdmissionPolicy, ''assayd-namespace-labels''), (KAdmissionPolicyBinding, ''assayd-namespace-labels''),
      (KAdmissionPolicy, ''assayd-gateway-routes''), (KAdmissionPolicyBinding, ''assayd-gateway-routes'')]"

definition readBinding :: "string \<Rightarrow> string \<Rightarrow> (go_error + binding option) op" where
  "readBinding opNS runName = andThen (getObj True KConfigMap as_keyed opNS (BindingName runName)) (\<lambda>got. Return (case got of
     Inl e \<Rightarrow> if IsNotFound e then Inr None else Inl (ApiFail (msgf ''read binding record'' [opNS, BindingName runName]) e)
   | Inr cm \<Rightarrow> (case decodeBinding cm of
       Inl e \<Rightarrow> Inl (RunNamespaceError ReasonBindingRecordInvalid e True)
     | Inr b \<Rightarrow> Inr (Some b))))"

text \<open>\<^verbatim>\<open>swapBinding\<close>: the object the update stored replaces the one that was read.\<close>

definition swapBinding :: "binding \<Rightarrow> bindingState \<Rightarrow> (go_error + binding) op" where
  "swapBinding b to = (let b' = encode (b\<lparr> bd_state := to \<rparr>) in
     Ask (Update (OKeyed (bd_obj b'))) (\<lambda>a. Return (case resp_obj as_keyed a of
        Inl e \<Rightarrow> Inl (ApiFail (if IsConflict e then msgf ''binding moved while swapping'' [om_Name (ko_Meta (bd_obj b)), state_text (bd_state b), state_text to]
                              else msgf ''swap binding'' [om_Name (ko_Meta (bd_obj b)), state_text (bd_state b), state_text to]) e)
      | Inr o' \<Rightarrow> Inr (b'\<lparr> bd_obj := o' \<rparr>))))"

definition runNamespaceFor :: "string \<Rightarrow> ObjectMeta \<Rightarrow> string \<Rightarrow> string \<Rightarrow> ObjectMeta" where
  "runNamespaceFor name source nonce installUID =
     new_meta [] name
       ([(LabelRunNamespace, ''true''), (LabelPodsBy, ''agent-operator''), (LabelAgentNamespace, om_Name source),
         (LabelOwnedBy, installUID)] @
        concat (map (\<lambda>k. case map_of (om_Labels source) k of None \<Rightarrow> [] | Some v \<Rightarrow> [(k, v)]) pssLabels))
       [(AnnotationBindingNonce, nonce)]"

definition reconcileRunNamespaceLabels :: "ObjectMeta \<Rightarrow> ObjectMeta \<Rightarrow> string \<Rightarrow> (go_error + unit) op" where
  "reconcileRunNamespaceLabels ns source installUID =
     (let want = om_Labels (runNamespaceFor (om_Name ns) source [] installUID);
          stamped = restamp want (om_Labels ns);
          stale = filter (\<lambda>k. map_of want k = None \<and> map_of (fst stamped) k \<noteq> None) pssLabels;
          labels = fold alist_delete stale (fst stamped) in
      if \<not> (snd stamped \<or> stale \<noteq> []) then Return (Inr ())
      else updateOr (msgf ''reconcile labels on run namespace'' [om_Name ns]) (ONamespace (ns\<lparr> om_Labels := labels \<rparr>)))"

definition deleteRunNamespace :: "ObjectMeta \<Rightarrow> (go_error + unit) op" where
  "deleteRunNamespace ns =
     (if \<not> has_prefix (om_Name ns) RunNamespacePrefix
      then Return (Inl (PlainError (msgf ''refusing to delete namespace'' [om_Name ns])))
      else andThen (deleteObj (ONamespace ns) (Some (om_UID ns))) (\<lambda>r. Return (case r of
         None \<Rightarrow> Inr ()
       | Some e \<Rightarrow> if IsNotFound e \<or> IsConflict e then Inr ()
                   else Inl (ApiFail (msgf ''delete run namespace'' [om_Name ns]) e))))"

text \<open>\<^verbatim>\<open>runNamespaceStillNeeded\<close>: \<open>self\<close> is the UID of the Agent being finalized, if any.\<close>

fun known_agents :: "string option \<Rightarrow> Agent list \<Rightarrow> bool \<times> string list" where
  "known_agents self [] = (False, [])"
| "known_agents self (a # rest) =
     (if self = Some (ag_UID a) \<or> sp_External (ag_Spec a) \<noteq> None then known_agents self rest
      else if ag_DeletionTimestamp a = None then (True, [ag_UID a])
      else case known_agents self rest of (live, known) \<Rightarrow> (live, ag_UID a # known))"

definition material_left :: "kind \<Rightarrow> string \<Rightarrow> string list \<Rightarrow> (go_error + bool) op" where
  "material_left k runNS known = tryThen (listOr (msgf ''live-list material'' [runNS]) True k as_keyed runNS [])
     (\<lambda>items. Return (Inr (list_ex (\<lambda>o'. lbl (om_Labels (ko_Meta o')) LabelAgentUID \<in> set known) items)))"

definition runNamespaceStillNeeded :: "binding \<Rightarrow> string option \<Rightarrow> (go_error + bool) op" where
  "runNamespaceStillNeeded b self =
     andThen (getObj True KNamespace as_namespace [] (bd_sourceNamespace b)) (\<lambda>got. case got of
        Inl e \<Rightarrow> if IsNotFound e then Return (Inr False)
                 else Return (Inl (ApiFail (msgf ''read namespace'' [bd_sourceNamespace b]) e))
      | Inr source \<Rightarrow>
        if om_UID source \<noteq> bd_sourceNamespaceUID b then Return (Inr False)
        else Ask (ListAgents (bd_sourceNamespace b)) (\<lambda>a. case (case a of RAgents r \<Rightarrow> r | _ \<Rightarrow> Inl decode_error) of
           Inl e \<Rightarrow> Return (Inl (ApiFail (msgf ''live-list agents'' [bd_sourceNamespace b]) e))
         | Inr agents \<Rightarrow>
           let known = known_agents self agents in
           if fst known then Return (Inr True)
           else if snd known = [] then Return (Inr False)
           else tryThen (listOr (msgf ''live-list workloads'' [bd_runNamespace b]) True KDeployment as_deployment (bd_runNamespace b) [])
             (\<lambda>ds. if list_ex (\<lambda>d. lbl (om_Labels (dp_Meta d)) LabelAgentUID \<in> set (snd known)) ds then Return (Inr True)
              else tryThen (material_left KConfigMap (bd_runNamespace b) (snd known)) (\<lambda>left.
                if left then Return (Inr True) else material_left KSecret (bd_runNamespace b) (snd known)))))"

text \<open>\<^verbatim>\<open>runNamespaceHandler\<close> returns the record as it left it.\<close>

definition runNamespaceHandler :: "binding \<Rightarrow> string option \<Rightarrow> (go_error + binding) op" where
  "runNamespaceHandler b self =
     (if bd_state b \<noteq> bindingTerminating \<and> bd_state b \<noteq> bindingDeleting then Return (Inr b)
      else andThen (getObj True KNamespace as_namespace [] (bd_runNamespace b)) (\<lambda>got.
        let gone = tryThen (deleteGone (msgf ''delete binding'' [om_Name (ko_Meta (bd_obj b))]) (OKeyed (bd_obj b)))
              (\<lambda>_. Return (Inr b)) in
        case got of
          Inl e \<Rightarrow> if IsNotFound e then gone else Return (Inl (ApiFail (msgf ''read run namespace'' [bd_runNamespace b]) e))
        | Inr ns \<Rightarrow>
          if om_UID ns \<noteq> bd_runNamespaceUID b then gone
          else if om_DeletionTimestamp ns \<noteq> None then Return (Inr b)
          else if bd_state b = bindingTerminating then
            tryThen (runNamespaceStillNeeded b self) (\<lambda>live.
              if live then swapBinding b bindingBound
              else tryThen (swapBinding b bindingDeleting) (\<lambda>b. tryThen (deleteRunNamespace ns) (\<lambda>_. Return (Inr b))))
          else tryThen (deleteRunNamespace ns) (\<lambda>_. Return (Inr b))))"

section \<open>Mirrored quotas and limit ranges\<close>

definition mirrorMeta :: "string \<Rightarrow> string \<Rightarrow> string \<Rightarrow> string \<Rightarrow> ObjectMeta" where
  "mirrorMeta name runName sourceNS sourceName =
     new_meta runName name [(LabelAgentNamespace, sourceNS)] [(AnnotationMirrorSource, sourceName)]"

definition isMirror :: "ObjectMeta \<Rightarrow> bool" where
  "isMirror m \<longleftrightarrow> has_prefix (om_Name m) MirrorPrefix \<and> lbl (om_Annotations m) AnnotationMirrorSource \<noteq> []"

definition quotaSpecEqual :: "QuotaSpec \<Rightarrow> QuotaSpec \<Rightarrow> bool" where
  "quotaSpecEqual a b \<longleftrightarrow>
     length (qs_Hard a) = length (qs_Hard b) \<and> length (qs_Scopes a) = length (qs_Scopes b) \<and>
     list_all (\<lambda>(k, v). map_of (qs_Hard b) k = Some v) (qs_Hard a) \<and>
     sort (qs_Scopes a) = sort (qs_Scopes b) \<and> qs_ScopeSelector a = qs_ScopeSelector b"

definition limitSpecEqual :: "string list \<Rightarrow> string list \<Rightarrow> bool" where
  "limitSpecEqual a b \<longleftrightarrow> length a = length b \<and> list_all (\<lambda>i. a ! i = b ! i) [0..<length a]"

definition mirror_quota :: "string \<Rightarrow> string \<Rightarrow> ResourceQuota \<Rightarrow> (go_error + unit) op" where
  "mirror_quota sourceNS runName q =
     (let name = MirrorName (om_Name (rq_Meta q));
          desired = \<lparr> rq_Meta = mirrorMeta name runName sourceNS (om_Name (rq_Meta q)), rq_Spec = rq_Spec q \<rparr> in
      andThen (getObj False KResourceQuota as_quota runName name) (\<lambda>got. case got of
         Inl e \<Rightarrow>
           if IsNotFound e then andThen (createObj as_any (OQuota desired)) (\<lambda>r. Return (case r of
              Inr _ \<Rightarrow> Inr ()
            | Inl e \<Rightarrow> if err_class e = EAlreadyExists then Inr () else Inl (ApiFail (msgf ''mirror quota'' [om_Name (rq_Meta q), runName]) e)))
           else Return (Inl (ApiFail (msgf ''read mirrored quota'' [name]) e))
       | Inr existing \<Rightarrow>
           if quotaSpecEqual (rq_Spec existing) (rq_Spec desired) then Return (Inr ())
           else updateOr (msgf ''update mirrored quota'' [name]) (OQuota (existing\<lparr> rq_Spec := rq_Spec desired \<rparr>))))"

definition mirror_limits :: "string \<Rightarrow> string \<Rightarrow> LimitRange \<Rightarrow> (go_error + unit) op" where
  "mirror_limits sourceNS runName l =
     (let name = MirrorName (om_Name (lr_Meta l));
          desired = \<lparr> lr_Meta = mirrorMeta name runName sourceNS (om_Name (lr_Meta l)), lr_Limits = lr_Limits l \<rparr> in
      andThen (getObj False KLimitRange as_limits runName name) (\<lambda>got. case got of
         Inl e \<Rightarrow>
           if IsNotFound e then andThen (createObj as_any (OLimits desired)) (\<lambda>r. Return (case r of
              Inr _ \<Rightarrow> Inr ()
            | Inl e \<Rightarrow> if err_class e = EAlreadyExists then Inr () else Inl (ApiFail (msgf ''mirror limit range'' [om_Name (lr_Meta l), runName]) e)))
           else Return (Inl (ApiFail (msgf ''read mirrored limit range'' [name]) e))
       | Inr existing \<Rightarrow>
           if limitSpecEqual (lr_Limits existing) (lr_Limits desired) then Return (Inr ())
           else updateOr (msgf ''update mirrored limit range'' [name]) (OLimits (existing\<lparr> lr_Limits := lr_Limits desired \<rparr>))))"

definition mirrorInto :: "ObjectMeta \<Rightarrow> string \<Rightarrow> (go_error + unit) op" where
  "mirrorInto source runName =
     (let src = om_Name source in
      tryThen (listOr (msgf ''list quotas'' [src]) False KResourceQuota as_quota src []) (\<lambda>quotas.
      tryThen (forEach (mirror_quota src runName) quotas) (\<lambda>_.
      tryThen (listOr (msgf ''list mirrored quotas'' [runName]) False KResourceQuota as_quota runName []) (\<lambda>mirroredQ.
      tryThen (forEach (\<lambda>m. if isMirror (rq_Meta m) \<and> om_Name (rq_Meta m) \<notin> (\<lambda>q. MirrorName (om_Name (rq_Meta q))) ` set quotas
          then deleteGone (msgf ''delete stale mirrored quota'' [om_Name (rq_Meta m)]) (OQuota m) else Return (Inr ())) mirroredQ) (\<lambda>_.
      tryThen (listOr (msgf ''list limit ranges'' [src]) False KLimitRange as_limits src []) (\<lambda>limits.
      tryThen (forEach (mirror_limits src runName) limits) (\<lambda>_.
      tryThen (listOr (msgf ''list mirrored limit ranges'' [runName]) False KLimitRange as_limits runName []) (\<lambda>mirroredL.
        forEach (\<lambda>m. if isMirror (lr_Meta m) \<and> om_Name (lr_Meta m) \<notin> (\<lambda>q. MirrorName (om_Name (lr_Meta q))) ` set limits
          then deleteGone (msgf ''delete stale mirrored limit range'' [om_Name (lr_Meta m)]) (OLimits m) else Return (Inr ())) mirroredL))))))))"

section \<open>Ensuring the run namespace\<close>

definition terminating_error :: "string \<Rightarrow> string list \<Rightarrow> go_error" where
  "terminating_error tag args = RunNamespaceError ReasonTerminating (msgf tag args) False"

definition notCreatedByOperator :: "string \<Rightarrow> string \<Rightarrow> string \<Rightarrow> go_error" where
  "notCreatedByOperator runName source why = RunNamespaceError ReasonNotCreatedByOperator
     (msgf ''run namespace'' [runName, why, source]) True"

text \<open>A record that belongs to a source namespace that was deleted and recreated.\<close>

definition discard_stale :: "binding \<Rightarrow> Agent \<Rightarrow> string \<Rightarrow> (go_error + string) op" where
  "discard_stale b agent runName =
     (if bd_state b = bindingCreating then
        andThen (getObj True KNamespace as_namespace [] runName) (\<lambda>got.
          let drop = tryThen (deleteGone (msgf ''delete binding'' [om_Name (ko_Meta (bd_obj b))]) (OKeyed (bd_obj b)))
                (\<lambda>_. Return (Inl (terminating_error ''namespace was deleted and recreated before its run namespace was bound'' [ag_Namespace agent]))) in
          case got of
            Inr ns \<Rightarrow>
              if lbl (om_Annotations ns) AnnotationBindingNonce = bd_nonce b
              then tryThen (deleteRunNamespace ns) (\<lambda>_. drop)
              else drop
          | Inl e \<Rightarrow> if IsNotFound e then drop else Return (Inl (ApiFail (msgf ''read run namespace'' [runName]) e)))
      else tryThen (if bd_state b = bindingBound then swapBinding b bindingTerminating else Return (Inr b)) (\<lambda>b.
        tryThen (runNamespaceHandler b None) (\<lambda>_.
          Return (Inl (terminating_error ''namespace was deleted and recreated'' [ag_Namespace agent, runName])))))"

text \<open>The state Creating: the namespace does not exist yet, or one exists whose nonce decides.\<close>

definition create_namespace :: "string \<Rightarrow> binding \<Rightarrow> ObjectMeta \<Rightarrow> string \<Rightarrow> (go_error + string) op" where
  "create_namespace opNS b source runName =
     tryThen (installIdentity opNS) (\<lambda>installUID.
     andThen (createObj as_namespace (ONamespace (runNamespaceFor runName source (bd_nonce b) installUID))) (\<lambda>r. case r of
        Inl e \<Rightarrow> Return (Inl (ApiFail (if err_class e = EAlreadyExists
            then msgf ''run namespace appeared between the read and the create'' [runName]
            else msgf ''create run namespace'' [runName]) e))
      | Inr stored \<Rightarrow>
        tryThen (mirrorInto source (om_Name stored)) (\<lambda>_.
        tryThen (swapBinding (b\<lparr> bd_runNamespaceUID := om_UID stored \<rparr>) bindingBound) (\<lambda>_.
          Return (Inr runName)))))"

definition ensure_creating :: "string \<Rightarrow> binding \<Rightarrow> Agent \<Rightarrow> ObjectMeta \<Rightarrow> string \<Rightarrow> api_error + ObjectMeta \<Rightarrow> (go_error + string) op" where
  "ensure_creating opNS b agent source runName got = (case got of
     Inl e \<Rightarrow> create_namespace opNS b source runName
   | Inr ns \<Rightarrow>
     if om_DeletionTimestamp ns \<noteq> None
     then Return (Inl (terminating_error ''run namespace is being deleted'' [runName]))
     else if lbl (om_Annotations ns) AnnotationBindingNonce = bd_nonce b then
       tryThen (deleteRunNamespace ns) (\<lambda>_.
       tryThen newNonce (\<lambda>nonce.
       tryThen (swapBinding (b\<lparr> bd_nonce := nonce \<rparr>) bindingCreating) (\<lambda>_.
         Return (Inl (terminating_error ''run namespace was created but never recorded'' [runName])))))
     else Return (Inl (notCreatedByOperator runName (ag_Namespace agent) ''carries no nonce, or another'')))"

definition ensure_bound :: "string \<Rightarrow> binding \<Rightarrow> Agent \<Rightarrow> ObjectMeta \<Rightarrow> string \<Rightarrow> api_error + ObjectMeta \<Rightarrow> (go_error + string) op" where
  "ensure_bound opNS b agent source runName got = (case got of
     Inl e \<Rightarrow>
       tryThen newNonce (\<lambda>nonce.
       tryThen (swapBinding (b\<lparr> bd_nonce := nonce, bd_runNamespaceUID := [] \<rparr>) bindingCreating) (\<lambda>_.
         Return (Inl (terminating_error ''run namespace was deleted by someone'' [runName]))))
   | Inr ns \<Rightarrow>
     if om_DeletionTimestamp ns \<noteq> None then
       tryThen (swapBinding b bindingTerminating) (\<lambda>b.
       tryThen (runNamespaceHandler b None) (\<lambda>_.
         Return (Inl (terminating_error ''run namespace is being deleted by someone else'' [runName]))))
     else if om_UID ns \<noteq> bd_runNamespaceUID b
     then Return (Inl (notCreatedByOperator runName (ag_Namespace agent) (msgf ''has another UID'' [om_UID ns, bd_runNamespaceUID b])))
     else
       tryThen (installIdentity opNS) (\<lambda>installUID.
       tryThen (reconcileRunNamespaceLabels ns source installUID) (\<lambda>_.
       tryThen (mirrorInto source runName) (\<lambda>_. Return (Inr runName)))))"

definition ensure_with_binding :: "string \<Rightarrow> binding \<Rightarrow> Agent \<Rightarrow> ObjectMeta \<Rightarrow> string \<Rightarrow> (go_error + string) op" where
  "ensure_with_binding opNS b agent source runName =
     (if bd_sourceNamespace b \<noteq> ag_Namespace agent
      then Return (Inl (RunNamespaceError ReasonNameCollision
             (msgf ''both map to the run namespace'' [bd_sourceNamespace b, ag_Namespace agent, runName]) True))
      else if bd_sourceNamespaceUID b \<noteq> om_UID source then discard_stale b agent runName
      else if bd_state b = bindingTerminating \<or> bd_state b = bindingDeleting then
        tryThen (runNamespaceHandler b None) (\<lambda>_. Return (Inl (terminating_error ''run namespace is being torn down'' [runName])))
      else andThen (getObj True KNamespace as_namespace [] runName) (\<lambda>got.
        if (case got of Inl e \<Rightarrow> \<not> IsNotFound e | Inr _ \<Rightarrow> False)
        then Return (Inl (ApiFail (msgf ''read run namespace'' [runName]) (projl got)))
        else if bd_state b = bindingCreating then ensure_creating opNS b agent source runName got
        else ensure_bound opNS b agent source runName got))"

definition new_binding :: "string \<Rightarrow> Agent \<Rightarrow> string \<Rightarrow> string \<Rightarrow> string \<Rightarrow> binding" where
  "new_binding opNS agent sUID runName nonce = encode
     \<lparr> bd_obj = \<lparr> ko_Kind = ''ConfigMap'', ko_Meta = new_meta opNS (BindingName runName) [(LabelBinding, ''true'')] [],
         ko_Data = [], ko_BinaryData = [], ko_Immutable = None \<rparr>,
       bd_sourceNamespace = ag_Namespace agent, bd_sourceNamespaceUID = sUID, bd_runNamespace = runName,
       bd_runNamespaceUID = [], bd_nonce = nonce, bd_state = bindingCreating \<rparr>"

text \<open>No record exists: a namespace of that name is somebody's, or a fresh record comes first.\<close>

definition create_binding :: "string \<Rightarrow> Agent \<Rightarrow> ObjectMeta \<Rightarrow> string \<Rightarrow> string \<Rightarrow> (go_error + string) op" where
  "create_binding opNS agent source runName nonce =
     (let b = new_binding opNS agent (om_UID source) runName nonce in
      andThen (createObj as_keyed (OKeyed (bd_obj b))) (\<lambda>r. case r of
         Inl e \<Rightarrow> Return (Inl (ApiFail (if err_class e = EAlreadyExists
             then msgf ''binding record appeared between the read and the create'' [runName]
             else msgf ''create binding record'' [runName]) e))
       | Inr o' \<Rightarrow> ensure_with_binding opNS (b\<lparr> bd_obj := o' \<rparr>) agent source runName))"

definition ensure_unrecorded :: "string \<Rightarrow> Agent \<Rightarrow> ObjectMeta \<Rightarrow> string \<Rightarrow> (go_error + string) op" where
  "ensure_unrecorded opNS agent source runName =
     andThen (getObj True KNamespace as_namespace [] runName) (\<lambda>got. case got of
        Inr ns \<Rightarrow>
          if om_DeletionTimestamp ns \<noteq> None
          then Return (Inl (terminating_error ''a namespace of that name is being deleted'' [runName]))
          else Return (Inl (RunNamespaceError ReasonNotCreatedByOperator
                 (msgf ''run namespace exists and this operator holds no binding record'' [runName, opNS, BindingName runName]) True))
      | Inl e \<Rightarrow>
          if \<not> IsNotFound e then Return (Inl (ApiFail (msgf ''read run namespace'' [runName]) e))
          else tryThen newNonce (create_binding opNS agent source runName))"

definition ensureRunNamespace :: "string \<Rightarrow> Agent \<Rightarrow> (go_error + string) op" where
  "ensureRunNamespace opNS agent =
     (if opNS = [] then Return (Inl (PlainError ''run namespace: the reconciler was built without an operator namespace''))
      else tryThen LabelAuthorityPresent (\<lambda>ok.
        if \<not> ok then Return (Inl (RunNamespaceError ReasonLabelAuthorityAbsent ''the admission policies are not installed'' True))
        else andThen (getObj True KNamespace as_namespace [] (ag_Namespace agent)) (\<lambda>got. case got of
           Inl e \<Rightarrow> Return (Inl (ApiFail (msgf ''read the Agent namespace'' [ag_Namespace agent]) e))
         | Inr source \<Rightarrow>
           let runName = RunNamespaceName (ag_Namespace agent) in
           tryThen (readBinding opNS runName) (\<lambda>found. case found of
              Some b \<Rightarrow> ensure_with_binding opNS b agent source runName
            | None \<Rightarrow> ensure_unrecorded opNS agent source runName))))"

definition releaseRunNamespaceIfLast :: "string \<Rightarrow> Agent \<Rightarrow> (go_error + unit) op" where
  "releaseRunNamespaceIfLast opNS agent =
     (let runName = RunNamespaceName (ag_Namespace agent); self = Some (ag_UID agent);
          handled = (\<lambda>b. tryThen (runNamespaceHandler b self) (\<lambda>_. Return (Inr ()))) in
      andThen (readBinding opNS runName) (\<lambda>r. case r of
         Inl (RunNamespaceError _ _ _) \<Rightarrow> Return (Inr ())
       | Inl e \<Rightarrow> Return (Inl e)
       | Inr None \<Rightarrow> Return (Inr ())
       | Inr (Some b) \<Rightarrow>
         if bd_sourceNamespace b \<noteq> ag_Namespace agent then Return (Inr ())
         else if bd_state b = bindingBound then
           tryThen (runNamespaceStillNeeded b self) (\<lambda>live.
             if live then Return (Inr ())
             else andThen (swapBinding b bindingTerminating) (\<lambda>r. case r of
                Inr b \<Rightarrow> handled b
              | Inl e \<Rightarrow>
                if (case api_cause e of Some a \<Rightarrow> IsConflict a | None \<Rightarrow> False)
                then tryThen (readBinding opNS runName) (\<lambda>found. case found of
                       None \<Rightarrow> Return (Inr ()) | Some b \<Rightarrow> handled b)
                else Return (Inl e)))
         else handled b))"

text \<open>The reconciler of run namespaces: a terminating record is driven on, and looked at again after five seconds.\<close>

definition run_namespace_Reconcile :: "string \<Rightarrow> string \<Rightarrow> (go_error + duration) op" where
  "run_namespace_Reconcile opNS name =
     andThen (readBinding opNS name) (\<lambda>r. case r of
        Inl (RunNamespaceError _ _ _) \<Rightarrow> Return (Inr 0)
      | Inl e \<Rightarrow> Return (Inl e)
      | Inr None \<Rightarrow> Return (Inr 0)
      | Inr (Some b) \<Rightarrow> tryThen (runNamespaceHandler b None) (\<lambda>b.
          Return (Inr (if bd_state b = bindingTerminating \<or> bd_state b = bindingDeleting then 5 * second else 0))))"

section \<open>The record round-trips\<close>

definition binding_ok :: "binding \<Rightarrow> bool" where
  "binding_ok b \<longleftrightarrow> bd_sourceNamespace b \<noteq> [] \<and> bd_sourceNamespaceUID b \<noteq> [] \<and> bd_runNamespace b \<noteq> [] \<and> bd_nonce b \<noteq> [] \<and>
     (bd_state b \<noteq> bindingCreating \<longrightarrow> bd_runNamespaceUID b \<noteq> [])"

lemma state_of_text [simp]: "state_of (state_text s) = Some s"
  by (cases s) (simp_all add: state_of_def state_text_def)

lemma state_text_nonempty [simp]: "state_text s \<noteq> []"
  by (cases s) (simp_all add: state_text_def)

text \<open>
  C27. A binding record written by the operator is read back exactly: decoding the ConfigMap that
  encodes a record gives the record.
\<close>

theorem binding_roundtrip:
  assumes "binding_ok b"
  shows "decodeBinding (bd_obj (encode b)) = Inr (encode b)"
  using assms by (auto simp: decodeBinding_def encode_def binding_field_def binding_ok_def lbl_def)

lemma decodeBinding_ok: "decodeBinding cm = Inr b \<Longrightarrow> binding_ok b \<and> bd_obj b = cm"
  by (auto simp: decodeBinding_def binding_field_def binding_ok_def split: sum.splits option.splits if_splits)

section \<open>What the record guards\<close>

text \<open>
  \<open>known h b\<close>: the exchanges show the record \<open>b\<close> stored, because it was read, or because a write of it
  was answered with success.
\<close>

definition encodes :: "KeyedObject \<Rightarrow> binding \<Rightarrow> bool" where
  "encodes o' b \<longleftrightarrow> ko_Data o' = ko_Data (bd_obj (encode b))"

definition known :: "exchange list \<Rightarrow> binding \<Rightarrow> bool" where
  "known h b \<longleftrightarrow> (\<exists>q cm. (q, RObj (Inr (OKeyed cm))) \<in> set h \<and> decodeBinding cm = Inr b) \<or>
     (\<exists>o'. encodes o' b \<and> ((Create (OKeyed o'), RObj (Inr (OKeyed (bd_obj b)))) \<in> set h \<or>
        (Update (OKeyed o'), RObj (Inr (OKeyed (bd_obj b)))) \<in> set h))"

definition binding_moves :: "(bindingState \<times> bindingState) set" where
  "binding_moves = {(bindingCreating, bindingBound), (bindingCreating, bindingCreating), (bindingBound, bindingCreating),
     (bindingBound, bindingTerminating), (bindingTerminating, bindingBound), (bindingTerminating, bindingDeleting)}"

text \<open>
  When a namespace may be deleted: the record is Deleting and holds its UID, or the record is still
  Creating and the namespace carries its nonce.
\<close>

definition may_delete :: "binding \<Rightarrow> ObjectMeta \<Rightarrow> bool" where
  "may_delete b ns \<longleftrightarrow> (bd_state b = bindingDeleting \<and> om_UID ns = bd_runNamespaceUID b) \<or>
     (bd_state b = bindingCreating \<and> lbl (om_Annotations ns) AnnotationBindingNonce = bd_nonce b)"

definition namespace_read :: "exchange list \<Rightarrow> ObjectMeta \<Rightarrow> bool" where
  "namespace_read h ns \<longleftrightarrow> (\<exists>name. (Get True KNamespace [] name, RObj (Inr (ONamespace ns))) \<in> set h)"

definition ns_request :: "exchange list \<Rightarrow> req \<Rightarrow> bool" where
  "ns_request h r = (case r of
     Delete (ONamespace ns) p \<Rightarrow> p = Some (om_UID ns) \<and> has_prefix (om_Name ns) RunNamespacePrefix \<and> namespace_read h ns \<and>
       (\<exists>b. known h b \<and> may_delete b ns)
   | Create (ONamespace ns) \<Rightarrow> (\<exists>b. known h b \<and> bd_state b = bindingCreating \<and> lbl (om_Annotations ns) AnnotationBindingNonce = bd_nonce b)
   | Update (ONamespace ns) \<Rightarrow> (\<exists>b. known h b \<and> bd_state b = bindingBound \<and> om_UID ns = bd_runNamespaceUID b)
   | Update (OKeyed o') \<Rightarrow> (\<exists>b b'. known h b \<and> encodes o' b' \<and> ko_Meta o' = ko_Meta (bd_obj b) \<and> (bd_state b, bd_state b') \<in> binding_moves)
   | Create (OKeyed o') \<Rightarrow> (\<exists>b. encodes o' b \<and> bd_state b = bindingCreating)
   | Delete (OKeyed o') p \<Rightarrow> (\<exists>b. known h b \<and> o' = bd_obj b \<and> bd_state b \<noteq> bindingBound)
   | Delete (OQuota q) p \<Rightarrow> isMirror (rq_Meta q)
   | Delete (OLimits l) p \<Rightarrow> isMirror (lr_Meta l)
   | Create (OQuota q) \<Rightarrow> has_prefix (om_Name (rq_Meta q)) MirrorPrefix
   | Create (OLimits l) \<Rightarrow> has_prefix (om_Name (lr_Meta l)) MirrorPrefix
   | Update (OQuota q) \<Rightarrow> True
   | Update (OLimits l) \<Rightarrow> True
   | Get live k ns n \<Rightarrow> True
   | ListOf live k ns sel \<Rightarrow> True
   | ListAgents ns \<Rightarrow> True
   | RandomBytes \<Rightarrow> True
   | LoadInstallUID \<Rightarrow> True
   | StoreInstallUID u \<Rightarrow> True
   | _ \<Rightarrow> False)"

lemma known_append: "known h b \<Longrightarrow> known (h @ t) b"
  by (auto simp: known_def)

lemma namespace_read_append: "namespace_read h ns \<Longrightarrow> namespace_read (h @ t) ns"
  by (auto simp: namespace_read_def)

lemma ns_request_reads [simp]:
  "ns_request h (Get live k ns n)" "ns_request h (ListOf live k ns sel)" "ns_request h (ListAgents ns)" "ns_request h RandomBytes"
  "ns_request h LoadInstallUID" "ns_request h (StoreInstallUID u)" "ns_request h (Update (OQuota q))" "ns_request h (Update (OLimits l))"
  by (simp_all add: ns_request_def)

lemma resp_obj_namespace: "resp_obj as_namespace a = Inr ns \<longleftrightarrow> a = RObj (Inr (ONamespace ns))"
  by (cases a) (auto simp: resp_obj_def as_namespace_def split: sum.splits kobj.splits)

lemma encode_sel [simp]:
  "bd_sourceNamespace (encode b) = bd_sourceNamespace b" "bd_sourceNamespaceUID (encode b) = bd_sourceNamespaceUID b"
  "bd_runNamespace (encode b) = bd_runNamespace b" "bd_runNamespaceUID (encode b) = bd_runNamespaceUID b"
  "bd_nonce (encode b) = bd_nonce b" "bd_state (encode b) = bd_state b"
  "ko_Meta (bd_obj (encode b)) = ko_Meta (bd_obj b)"
  by (simp_all add: encode_def)

lemma encodes_encode [simp]: "encodes (bd_obj (encode b)) b"
  by (simp add: encodes_def)

lemma encodes_obj: "encodes o' (b\<lparr> bd_obj := x \<rparr>) = encodes o' b" "encodes o' (encode b) = encodes o' b"
  by (simp_all add: encodes_def encode_def)

lemma swapBinding_wp:
  assumes "known h b0" and "ko_Meta (bd_obj b) = ko_Meta (bd_obj b0)" and "(bd_state b0, to) \<in> binding_moves"
  shows "op_wp ns_request (\<lambda>h r. \<forall>b'. r = Inr b' \<longrightarrow> known h b' \<and> (\<exists>o'. b' = (encode (b\<lparr> bd_state := to \<rparr>))\<lparr> bd_obj := o' \<rparr>)) h
     (swapBinding b to)"
proof -
  let ?b = "encode (b\<lparr> bd_state := to \<rparr>)"
  have "\<exists>b1 b'. known h b1 \<and> encodes (bd_obj ?b) b' \<and> ko_Meta (bd_obj ?b) = ko_Meta (bd_obj b1) \<and> (bd_state b1, bd_state b') \<in> binding_moves"
    by (rule exI [of _ b0], rule exI [of _ "b\<lparr> bd_state := to \<rparr>"]) (use assms in simp)
  then have "ns_request h (Update (OKeyed (bd_obj ?b)))" by (simp add: ns_request_def)
  moreover have "known (h @ [(Update (OKeyed (bd_obj ?b)), RObj (Inr (OKeyed o')))]) (?b\<lparr> bd_obj := o' \<rparr>)" for o'
    unfolding known_def by (rule disjI2, rule exI [of _ "bd_obj ?b"]) (simp add: encodes_obj)
  ultimately show ?thesis
    by (auto simp: swapBinding_def Let_def resp_obj_keyed split: sum.split)
qed

text \<open>The steps that leave the record alone.\<close>

lemma forEach_ns [intro]:
  "(\<And>h x. x \<in> set xs \<Longrightarrow> op_wp ns_request (\<lambda>_ _. True) h (f x)) \<Longrightarrow> op_wp ns_request (\<lambda>_ _. True) h (forEach f xs)"
  using op_wp_forEach [of "\<lambda>_. True" xs ns_request f h] by simp

lemma MirrorName_prefix: "has_prefix (MirrorName s) MirrorPrefix"
  by (simp add: MirrorName_def has_prefix_def)

lemma mirror_quota_wp: "op_wp ns_request (\<lambda>_ _. True) h (mirror_quota src runName q)"
  unfolding mirror_quota_def Let_def
  by (auto simp: wp_rules ns_request_def [of _ "Create _"] mirrorMeta_def new_meta_def MirrorName_prefix split: sum.split)

lemma mirror_limits_wp: "op_wp ns_request (\<lambda>_ _. True) h (mirror_limits src runName q)"
  unfolding mirror_limits_def Let_def
  by (auto simp: wp_rules ns_request_def [of _ "Create _"] mirrorMeta_def new_meta_def MirrorName_prefix split: sum.split)

lemma op_wp_try_any:
  assumes "op_wp P (\<lambda>_ _. True) h m" and "\<And>h x. op_wp P (\<lambda>_ _. True) h (f x)"
  shows "op_wp P (\<lambda>_ _. True) h (tryThen m f)"
  unfolding op_wp_tryThen by (rule op_wp_mono [OF assms(1)]) (use assms(2) in \<open>auto split: sum.split\<close>)

lemma mirrorInto_wp: "op_wp ns_request (\<lambda>_ _. True) h (mirrorInto source runName)"
  unfolding mirrorInto_def Let_def
  by (intro op_wp_try_any forEach_ns mirror_quota_wp mirror_limits_wp)
     (auto simp: wp_rules ns_request_def [of _ "Delete _ _"])

lemma newNonce_wp: "op_wp ns_request (\<lambda>_ _. True) h newNonce"
  by (simp add: newNonce_def)

lemma installIdentity_wp: "op_wp ns_request (\<lambda>_ _. True) h (installIdentity opNS)"
  unfolding installIdentity_def Let_def by (auto simp: wp_rules split: sum.split)

lemma runNamespaceStillNeeded_wp: "op_wp ns_request (\<lambda>_ _. True) h (runNamespaceStillNeeded b self)"
  unfolding runNamespaceStillNeeded_def material_left_def Let_def
  by (auto simp: wp_rules split: sum.split)

lemma LabelAuthorityPresent_wp: "op_wp ns_request (\<lambda>_ _. True) h LabelAuthorityPresent"
  unfolding LabelAuthorityPresent_def policy_installed_def by (auto simp: wp_rules policy_installed_def split: sum.split)

lemma readBinding_wp:
  "op_wp ns_request (\<lambda>h r. \<forall>b. r = Inr (Some b) \<longrightarrow> known h b) h (readBinding opNS runName)"
  unfolding readBinding_def
  by (auto simp: wp_rules known_def resp_obj_keyed split: sum.splits)

lemma deleteRunNamespace_wp:
  assumes "namespace_read h ns" and "known h b" and "may_delete b ns"
  shows "op_wp ns_request (\<lambda>_ _. True) h (deleteRunNamespace ns)"
  using assms unfolding deleteRunNamespace_def
  by (auto simp: wp_rules ns_request_def [of _ "Delete _ _"])

lemma delete_record_wp:
  assumes "known h b" and "bd_state b \<noteq> bindingBound"
  shows "op_wp ns_request (\<lambda>_ _. True) h (deleteGone what (OKeyed (bd_obj b)))"
  using assms by (auto simp: wp_rules ns_request_def [of _ "Delete _ _"])

text \<open>A step followed by others that only need what survives it.\<close>

lemma op_wp_try_keep:
  assumes "op_wp P Q h m" and "K h" and "\<And>h t. K h \<Longrightarrow> K (h @ t)"
    and "\<And>h x. Q h (Inr x) \<Longrightarrow> K h \<Longrightarrow> op_wp P R h (f x)" and "\<And>h e. Q h (Inl e) \<Longrightarrow> R h (Inl e)"
  shows "op_wp P R h (tryThen m f)"
  unfolding op_wp_tryThen
  by (rule op_wp_mono [OF op_wp_keep [OF assms(1,2,3)]]) (use assms(4,5) in \<open>auto split: sum.split\<close>)

lemma runNamespaceHandler_wp:
  assumes "known h b"
  shows "op_wp ns_request (\<lambda>_ _. True) h (runNamespaceHandler b self)"
proof -
  let ?g = "Get True KNamespace [] (bd_runNamespace b)"
  have k: "known (h @ t) b" for t using assms by (rule known_append)
  have gone: "op_wp ns_request (\<lambda>_ _. True) (h @ t)
      (tryThen (deleteGone what (OKeyed (bd_obj b))) (\<lambda>_. Return (Inr b)))" if "bd_state b \<noteq> bindingBound" for t what
    by (rule op_wp_try_any [OF delete_record_wp [OF k that]]) simp
  have del: "op_wp ns_request (\<lambda>_ _. True) h' (tryThen (deleteRunNamespace ns) (\<lambda>_. Return (Inr b')))"
    if "namespace_read h' ns" "known h' b'" "bd_state b' = bindingDeleting" "om_UID ns = bd_runNamespaceUID b'" for h' ns b'
    by (rule op_wp_try_any [OF deleteRunNamespace_wp [OF that(1,2)]]) (use that in \<open>auto simp: may_delete_def\<close>)
  have still: "op_wp ns_request (\<lambda>_ _. True) (h @ [(?g, RObj (Inr (ONamespace ns)))])
     (tryThen (runNamespaceStillNeeded b self) (\<lambda>live.
        if live then swapBinding b bindingBound
        else tryThen (swapBinding b bindingDeleting) (\<lambda>b. tryThen (deleteRunNamespace ns) (\<lambda>_. Return (Inr b)))))"
    if st: "bd_state b = bindingTerminating" and uid: "om_UID ns = bd_runNamespaceUID b" for ns
  proof (rule op_wp_try_keep [OF runNamespaceStillNeeded_wp, where K = "\<lambda>h. known h b \<and> namespace_read h ns"])
    show "known (h @ [(?g, RObj (Inr (ONamespace ns)))]) b \<and> namespace_read (h @ [(?g, RObj (Inr (ONamespace ns)))]) ns"
      using k by (auto simp: namespace_read_def)
    fix h' live assume K: "known h' b \<and> namespace_read h' ns"
    have swap: "op_wp ns_request (\<lambda>_ _. True) h' (swapBinding b bindingBound)"
      by (rule op_wp_mono [OF swapBinding_wp [of h' b b]]) (use K st in \<open>auto simp: binding_moves_def\<close>)
    have "op_wp ns_request (\<lambda>_ _. True) h' (tryThen (swapBinding b bindingDeleting) (\<lambda>b. tryThen (deleteRunNamespace ns) (\<lambda>_. Return (Inr b))))"
    proof (rule op_wp_try_keep [OF swapBinding_wp [of h' b b], where K = "\<lambda>h. namespace_read h ns"])
      fix h'' b' assume "\<forall>b''. Inr b' = Inr b'' \<longrightarrow> known h'' b'' \<and> (\<exists>o'. b'' = (encode (b\<lparr> bd_state := bindingDeleting \<rparr>))\<lparr> bd_obj := o' \<rparr>)"
        and "namespace_read h'' ns"
      then show "op_wp ns_request (\<lambda>_ _. True) h'' (tryThen (deleteRunNamespace ns) (\<lambda>_. Return (Inr b')))"
        using uid by (intro del) auto
    qed (use K st in \<open>auto simp: binding_moves_def namespace_read_append\<close>)
    with swap show "op_wp ns_request (\<lambda>_ _. True) h' (if live then swapBinding b bindingBound
        else tryThen (swapBinding b bindingDeleting) (\<lambda>b. tryThen (deleteRunNamespace ns) (\<lambda>_. Return (Inr b))))" by simp
  qed (auto simp: known_append namespace_read_append)
  have deleting: "op_wp ns_request (\<lambda>_ _. True) (h @ [(?g, RObj (Inr (ONamespace ns)))])
      (tryThen (deleteRunNamespace ns) (\<lambda>_. Return (Inr b)))"
    if "bd_state b = bindingDeleting" "om_UID ns = bd_runNamespaceUID b" for ns
    by (rule del) (use k that in \<open>auto simp: namespace_read_def\<close>)
  show ?thesis
    unfolding runNamespaceHandler_def Let_def
    using gone [of "[_]"] still deleting
    by (cases "bd_state b") (auto simp: wp_rules resp_obj_namespace namespace_read_def split: sum.split)
qed

text \<open>
  The namespace a pass may use: it was read live and undeleted with the UID a Bound record of this
  source namespace holds, or it was created in this pass under the record's nonce and its UID was
  recorded.
\<close>

definition proven :: "exchange list \<Rightarrow> ObjectMeta \<Rightarrow> string \<Rightarrow> bool" where
  "proven h source runName \<longleftrightarrow>
     (\<exists>b ns. known h b \<and> bd_state b = bindingBound \<and> bd_sourceNamespaceUID b = om_UID source \<and> om_UID ns = bd_runNamespaceUID b \<and>
        om_DeletionTimestamp ns = None \<and> (Get True KNamespace [] runName, RObj (Inr (ONamespace ns))) \<in> set h) \<or>
     (\<exists>b sent stored. known h b \<and> bd_state b = bindingBound \<and> bd_sourceNamespaceUID b = om_UID source \<and> bd_runNamespaceUID b = om_UID stored \<and>
        lbl (om_Annotations sent) AnnotationBindingNonce = bd_nonce b \<and> om_Name sent = runName \<and>
        (Create (ONamespace sent), RObj (Inr (ONamespace stored))) \<in> set h)"

lemma proven_append: "proven h source runName \<Longrightarrow> proven (h @ t) source runName"
  unfolding proven_def using known_append by fastforce

lemma runNamespaceFor_sel [simp]:
  "om_Name (runNamespaceFor name source nonce i) = name"
  "lbl (om_Annotations (runNamespaceFor name source nonce i)) AnnotationBindingNonce = nonce"
  by (simp_all add: runNamespaceFor_def new_meta_def lbl_def)

abbreviation ensured :: "ObjectMeta \<Rightarrow> string \<Rightarrow> exchange list \<Rightarrow> go_error + string \<Rightarrow> bool" where
  "ensured source runName h r \<equiv> (\<forall>name. r = Inr name \<longrightarrow> name = runName \<and> proven h source runName)"

lemma create_namespace_wp:
  assumes "known h b" and "bd_state b = bindingCreating" and "bd_sourceNamespaceUID b = om_UID source"
  shows "op_wp ns_request (ensured source runName) h (create_namespace opNS b source runName)"
  unfolding create_namespace_def
proof (rule op_wp_try_keep [OF installIdentity_wp, where K = "\<lambda>h. known h b"], rule assms(1), rule known_append, assumption)
  fix h installUID assume K: "known h b"
  let ?ns = "runNamespaceFor runName source (bd_nonce b) installUID"
  have c: "ns_request h (Create (ONamespace ?ns))"
    using K assms(2) by (auto simp: ns_request_def)
  have rest: "op_wp ns_request (ensured source runName) (h @ [(Create (ONamespace ?ns), RObj (Inr (ONamespace stored)))])
     (tryThen (mirrorInto source (om_Name stored)) (\<lambda>_.
        tryThen (swapBinding (b\<lparr> bd_runNamespaceUID := om_UID stored \<rparr>) bindingBound) (\<lambda>_. Return (Inr runName))))" for stored
  proof (rule op_wp_try_keep [OF mirrorInto_wp,
        where K = "\<lambda>h. known h b \<and> (Create (ONamespace ?ns), RObj (Inr (ONamespace stored))) \<in> set h"])
    fix h assume K': "known h b \<and> (Create (ONamespace ?ns), RObj (Inr (ONamespace stored))) \<in> set h"
    show "op_wp ns_request (ensured source runName) h
        (tryThen (swapBinding (b\<lparr> bd_runNamespaceUID := om_UID stored \<rparr>) bindingBound) (\<lambda>_. Return (Inr runName)))"
    proof (rule op_wp_try_keep [OF swapBinding_wp [of h b],
          where K = "\<lambda>h. (Create (ONamespace ?ns), RObj (Inr (ONamespace stored))) \<in> set h"])
      fix h b' assume q: "\<forall>b''. Inr b' = Inr b'' \<longrightarrow> known h b'' \<and>
          (\<exists>o'. b'' = (encode (b\<lparr> bd_runNamespaceUID := om_UID stored, bd_state := bindingBound \<rparr>))\<lparr> bd_obj := o' \<rparr>)"
        and m: "(Create (ONamespace ?ns), RObj (Inr (ONamespace stored))) \<in> set h"
      from q have "known h b'" "bd_state b' = bindingBound" "bd_sourceNamespaceUID b' = om_UID source"
        "bd_runNamespaceUID b' = om_UID stored" "bd_nonce b' = bd_nonce b" using assms(3) by auto
      with m have "proven h source runName" unfolding proven_def by (metis runNamespaceFor_sel)
      then show "op_wp ns_request (ensured source runName) h (Return (Inr runName))" by simp
    qed (use K' assms in \<open>auto simp: binding_moves_def\<close>)
  qed (use known_append [OF K] in \<open>auto simp: known_append\<close>)
  show "op_wp ns_request (ensured source runName) h
    (andThen (createObj as_namespace (ONamespace ?ns)) (\<lambda>r. case r of
        Inl e \<Rightarrow> Return (Inl (ApiFail (if err_class e = EAlreadyExists
            then msgf ''run namespace appeared between the read and the create'' [runName]
            else msgf ''create run namespace'' [runName]) e))
      | Inr stored \<Rightarrow>
        tryThen (mirrorInto source (om_Name stored)) (\<lambda>_.
        tryThen (swapBinding (b\<lparr> bd_runNamespaceUID := om_UID stored \<rparr>) bindingBound) (\<lambda>_.
          Return (Inr runName)))))"
    using c rest by (auto simp: op_wp_andThen op_wp_sum resp_obj_namespace createObj_def split: sum.split)
qed simp

lemma ensure_creating_wp:
  assumes "known h b" and "bd_state b = bindingCreating" and "bd_sourceNamespaceUID b = om_UID source"
    and "\<And>ns. got = Inr ns \<Longrightarrow> namespace_read h ns"
  shows "op_wp ns_request (ensured source runName) h (ensure_creating opNS b agent source runName got)"
proof (cases got)
  case (Inl e)
  then show ?thesis using create_namespace_wp [OF assms(1-3)] by (simp add: ensure_creating_def)
next
  case (Inr ns)
  have "op_wp ns_request (ensured source runName) h
     (tryThen (deleteRunNamespace ns) (\<lambda>_. tryThen newNonce (\<lambda>nonce.
       tryThen (swapBinding (b\<lparr> bd_nonce := nonce \<rparr>) bindingCreating) (\<lambda>_. Return (Inl (terminating_error tag args))))))"
    if nonce: "lbl (om_Annotations ns) AnnotationBindingNonce = bd_nonce b" for tag args
  proof (rule op_wp_try_keep [OF deleteRunNamespace_wp [OF assms(4) [OF Inr] assms(1)], where K = "\<lambda>h. known h b"])
    show "may_delete b ns" using nonce assms(2) by (simp add: may_delete_def)
    fix h assume K: "known h b"
    show "op_wp ns_request (ensured source runName) h (tryThen newNonce (\<lambda>nonce.
       tryThen (swapBinding (b\<lparr> bd_nonce := nonce \<rparr>) bindingCreating) (\<lambda>_. Return (Inl (terminating_error tag args)))))"
    proof (rule op_wp_try_keep [OF newNonce_wp, where K = "\<lambda>h. known h b"])
      fix h nonce assume "known h b"
      then show "op_wp ns_request (ensured source runName) h
         (tryThen (swapBinding (b\<lparr> bd_nonce := nonce \<rparr>) bindingCreating) (\<lambda>_. Return (Inl (terminating_error tag args))))"
        using assms(2) by (intro op_wp_try_keep [OF swapBinding_wp [of h b], where K = "\<lambda>_. True"]) (auto simp: binding_moves_def)
    qed (use K in \<open>auto simp: known_append\<close>)
  qed (use assms(1) in \<open>auto simp: known_append\<close>)
  then show ?thesis by (simp add: ensure_creating_def Inr)
qed

lemma ensure_bound_wp:
  assumes "known h b" and "bd_state b = bindingBound" and "bd_sourceNamespaceUID b = om_UID source"
    and "\<And>ns. got = Inr ns \<Longrightarrow> (Get True KNamespace [] runName, RObj (Inr (ONamespace ns))) \<in> set h"
  shows "op_wp ns_request (ensured source runName) h (ensure_bound opNS b agent source runName got)"
proof (cases got)
  case (Inl e)
  have "op_wp ns_request (ensured source runName) h (tryThen newNonce (\<lambda>nonce.
       tryThen (swapBinding (b\<lparr> bd_nonce := nonce, bd_runNamespaceUID := [] \<rparr>) bindingCreating) (\<lambda>_.
         Return (Inl (terminating_error ''run namespace was deleted by someone'' [runName])))))"
  proof (rule op_wp_try_keep [OF newNonce_wp, where K = "\<lambda>h. known h b"])
    fix h nonce assume "known h b"
    then show "op_wp ns_request (ensured source runName) h (tryThen (swapBinding (b\<lparr> bd_nonce := nonce, bd_runNamespaceUID := [] \<rparr>) bindingCreating)
        (\<lambda>_. Return (Inl (terminating_error ''run namespace was deleted by someone'' [runName]))))"
      using assms(2) by (intro op_wp_try_keep [OF swapBinding_wp [of h b], where K = "\<lambda>_. True"]) (auto simp: binding_moves_def)
  qed (use assms(1) in \<open>auto simp: known_append\<close>)
  then show ?thesis by (simp add: ensure_bound_def Inl)
next
  case (Inr ns)
  have down: "op_wp ns_request (ensured source runName) h (tryThen (swapBinding b bindingTerminating) (\<lambda>b.
       tryThen (runNamespaceHandler b None) (\<lambda>_. Return (Inl e))))" for e
  proof (rule op_wp_try_keep [OF swapBinding_wp [of h b b], where K = "\<lambda>_. True"])
    fix h b' assume "\<forall>b''. Inr b' = Inr b'' \<longrightarrow> known h b'' \<and> (\<exists>o'. b'' = (encode (b\<lparr> bd_state := bindingTerminating \<rparr>))\<lparr> bd_obj := o' \<rparr>)"
    then have "known h b'" by simp
    then show "op_wp ns_request (ensured source runName) h (tryThen (runNamespaceHandler b' None) (\<lambda>_. Return (Inl e)))"
      by (intro op_wp_try_keep [OF runNamespaceHandler_wp, where K = "\<lambda>_. True"]) auto
  qed (use assms(1,2) in \<open>auto simp: binding_moves_def\<close>)
  have use: "op_wp ns_request (ensured source runName) h (tryThen (installIdentity opNS) (\<lambda>installUID.
       tryThen (reconcileRunNamespaceLabels ns source installUID) (\<lambda>_.
       tryThen (mirrorInto source runName) (\<lambda>_. Return (Inr runName)))))"
    if "om_DeletionTimestamp ns = None" "om_UID ns = bd_runNamespaceUID b"
  proof -
    have p: "proven h source runName" unfolding proven_def using assms(1-3) assms(4) [OF Inr] that by blast
    have lab: "op_wp ns_request (\<lambda>_ _. True) h' (reconcileRunNamespaceLabels ns source i)" if "known h' b" for h' i
      using that assms(2) \<open>om_UID ns = bd_runNamespaceUID b\<close> unfolding reconcileRunNamespaceLabels_def Let_def
      by (auto simp: wp_rules ns_request_def)
    have m: "op_wp ns_request (ensured source runName) h' (tryThen (mirrorInto source runName) (\<lambda>_. Return (Inr runName)))"
      if "proven h' source runName" for h'
      using that by (intro op_wp_try_keep [OF mirrorInto_wp, where K = "\<lambda>h. proven h source runName"]) (auto simp: proven_append)
    show ?thesis
    proof (rule op_wp_try_keep [OF installIdentity_wp, where K = "\<lambda>h. known h b \<and> proven h source runName"])
      fix h i assume K: "known h b \<and> proven h source runName"
      show "op_wp ns_request (ensured source runName) h (tryThen (reconcileRunNamespaceLabels ns source i) (\<lambda>_.
         tryThen (mirrorInto source runName) (\<lambda>_. Return (Inr runName))))"
        using K by (intro op_wp_try_keep [OF lab, where K = "\<lambda>h. proven h source runName"]) (auto simp: proven_append m)
    qed (use assms(1) p in \<open>auto simp: known_append proven_append\<close>)
  qed
  show ?thesis using down use by (simp add: ensure_bound_def Inr)
qed

lemma discard_stale_wp:
  assumes "known h b"
  shows "op_wp ns_request (\<lambda>_ r. \<forall>name. r \<noteq> Inr name) h (discard_stale b agent runName)"
proof (cases "bd_state b = bindingCreating")
  case True
  define drop where "drop = tryThen (deleteGone (msgf ''delete binding'' [om_Name (ko_Meta (bd_obj b))]) (OKeyed (bd_obj b)))
    (\<lambda>_. Return (Inl (terminating_error ''namespace was deleted and recreated before its run namespace was bound'' [ag_Namespace agent])) :: (go_error + string) op)"
  have d: "op_wp ns_request (\<lambda>_ r. \<forall>name. r \<noteq> Inr name) h' drop" if "known h' b" for h'
    unfolding drop_def using that True
    by (intro op_wp_try_keep [OF delete_record_wp, where K = "\<lambda>_. True"]) auto
  have del: "op_wp ns_request (\<lambda>_ r. \<forall>name. r \<noteq> Inr name)
      (h @ [(Get True KNamespace [] runName, RObj (Inr (ONamespace ns)))]) (tryThen (deleteRunNamespace ns) (\<lambda>_. drop))"
    if "lbl (om_Annotations ns) AnnotationBindingNonce = bd_nonce b" for ns
    using that True known_append [OF assms] d
    by (intro op_wp_try_keep [OF deleteRunNamespace_wp [of _ ns b], where K = "\<lambda>h. known h b"])
       (auto simp: namespace_read_def may_delete_def known_append)
  show ?thesis
    unfolding discard_stale_def drop_def [symmetric] Let_def
    using True del d [OF known_append [OF assms]]
    by (auto simp: op_wp_andThen op_wp_sum getObj_def resp_obj_namespace split: sum.split)
next
  case False
  have h: "op_wp ns_request (\<lambda>_ r. \<forall>name. r \<noteq> Inr name) h' (tryThen (runNamespaceHandler b' None) (\<lambda>_. Return (Inl e) :: (go_error + string) op))"
    if "known h' b'" for h' b' e
    using that by (intro op_wp_try_keep [OF runNamespaceHandler_wp, where K = "\<lambda>_. True"]) auto
  have "op_wp ns_request (\<lambda>_ r. \<forall>name. r \<noteq> Inr name) h
      (tryThen (swapBinding b bindingTerminating) (\<lambda>b. tryThen (runNamespaceHandler b None) (\<lambda>_. Return (Inl e) :: (go_error + string) op)))"
    if "bd_state b = bindingBound" for e
    using that assms h by (intro op_wp_try_keep [OF swapBinding_wp [of h b b], where K = "\<lambda>_. True"]) (auto simp: binding_moves_def)
  then show ?thesis using False h [OF assms] runNamespaceHandler_wp [OF assms] by (simp add: discard_stale_def op_wp_tryThen)
qed

lemma ensure_with_binding_wp:
  assumes "known h b"
  shows "op_wp ns_request (ensured source runName) h (ensure_with_binding opNS b agent source runName)"
proof -
  have stale: "op_wp ns_request (ensured source runName) h (discard_stale b agent runName)"
    by (rule op_wp_mono [OF discard_stale_wp [OF assms]]) auto
  have down: "op_wp ns_request (ensured source runName) h (tryThen (runNamespaceHandler b None) (\<lambda>_. Return (Inl e)))" for e
    using assms by (intro op_wp_try_keep [OF runNamespaceHandler_wp, where K = "\<lambda>_. True"]) auto
  let ?q = "Get True KNamespace [] runName"
  have c: "op_wp ns_request (ensured source runName) (h @ [(?q, a)]) (ensure_creating opNS b agent source runName (resp_obj as_namespace a))"
    if "bd_state b = bindingCreating" "bd_sourceNamespaceUID b = om_UID source" for a
    using that known_append [OF assms] by (intro ensure_creating_wp) (auto simp: resp_obj_namespace namespace_read_def)
  have bd: "op_wp ns_request (ensured source runName) (h @ [(?q, a)]) (ensure_bound opNS b agent source runName (resp_obj as_namespace a))"
    if "bd_state b = bindingBound" "bd_sourceNamespaceUID b = om_UID source" for a
    using that known_append [OF assms] by (intro ensure_bound_wp) (auto simp: resp_obj_namespace)
  show ?thesis
    unfolding ensure_with_binding_def
    using stale down c bd by (cases "bd_state b") (auto simp: op_wp_andThen op_wp_if getObj_def split: sum.splits)
qed

lemma create_binding_wp: "op_wp ns_request (ensured source runName) h (create_binding opNS agent source runName nonce)"
proof -
  define b where "b = new_binding opNS agent (om_UID source) runName nonce"
  have enc: "encodes (bd_obj b) b" "bd_state b = bindingCreating" by (simp_all add: b_def new_binding_def encodes_obj)
  then have c: "ns_request h (Create (OKeyed (bd_obj b)))" by (auto simp: ns_request_def)
  have "known (h @ [(Create (OKeyed (bd_obj b)), RObj (Inr (OKeyed o')))]) (b\<lparr> bd_obj := o' \<rparr>)" for o'
    unfolding known_def using enc(1) by (intro disjI2 exI [of _ "bd_obj b"]) (simp add: encodes_obj)
  with c show ?thesis
    unfolding create_binding_def b_def [symmetric] Let_def
    by (auto simp: op_wp_andThen op_wp_sum createObj_def resp_obj_keyed split: sum.split intro!: ensure_with_binding_wp)
qed

lemma ensure_unrecorded_wp: "op_wp ns_request (ensured source runName) h (ensure_unrecorded opNS agent source runName)"
proof -
  have "op_wp ns_request (ensured source runName) h' (tryThen newNonce (create_binding opNS agent source runName))" for h'
    by (rule op_wp_try_keep [OF newNonce_wp, where K = "\<lambda>_. True"]) (auto intro: create_binding_wp)
  then show ?thesis
    unfolding ensure_unrecorded_def by (auto simp: op_wp_andThen op_wp_sum op_wp_if getObj_def split: sum.split)
qed

lemma ensure_found_wp:
  "op_wp ns_request (ensured source runName) h (tryThen (readBinding opNS runName) (\<lambda>found. case found of
      Some b \<Rightarrow> ensure_with_binding opNS b agent source runName | None \<Rightarrow> ensure_unrecorded opNS agent source runName))"
  by (rule op_wp_try_keep [OF readBinding_wp, where K = "\<lambda>_. True"])
     (auto simp: op_wp_option split: option.split intro: ensure_with_binding_wp ensure_unrecorded_wp)

definition run_namespace_proven :: "Agent \<Rightarrow> exchange list \<Rightarrow> string \<Rightarrow> bool" where
  "run_namespace_proven agent h name \<longleftrightarrow> name = RunNamespaceName (ag_Namespace agent) \<and>
     (\<exists>source. (Get True KNamespace [] (ag_Namespace agent), RObj (Inr (ONamespace source))) \<in> set h \<and> proven h source name)"

lemma ensureRunNamespace_wp:
  "op_wp ns_request (\<lambda>h r. \<forall>name. r = Inr name \<longrightarrow> run_namespace_proven agent h name) h (ensureRunNamespace opNS agent)"
proof (cases "opNS = []")
  case False
  let ?run = "RunNamespaceName (ag_Namespace agent)"
  let ?q = "Get True KNamespace [] (ag_Namespace agent)"
  have found: "op_wp ns_request (\<lambda>h r. \<forall>name. r = Inr name \<longrightarrow> run_namespace_proven agent h name) (h' @ [(?q, RObj (Inr (ONamespace source)))])
      (tryThen (readBinding opNS ?run) (\<lambda>found. case found of
          Some b \<Rightarrow> ensure_with_binding opNS b agent source ?run | None \<Rightarrow> ensure_unrecorded opNS agent source ?run))" for h' source
    by (rule op_wp_mono [OF op_wp_keep [OF ensure_found_wp, where K = "\<lambda>h. (?q, RObj (Inr (ONamespace source))) \<in> set h"]])
       (auto simp: run_namespace_proven_def)
  show ?thesis
    unfolding ensureRunNamespace_def if_not_P [OF False]
    by (rule op_wp_try_keep [OF LabelAuthorityPresent_wp, where K = "\<lambda>_. True"])
       (auto simp: op_wp_andThen op_wp_sum getObj_def resp_obj_namespace Let_def split: sum.split intro!: found)
qed (simp add: ensureRunNamespace_def)

lemma handled_wp: "known h b \<Longrightarrow> op_wp ns_request (\<lambda>_ _. True) h (tryThen (runNamespaceHandler b self) (\<lambda>b. Return (f b)))"
  by (rule op_wp_try_any [OF runNamespaceHandler_wp]) simp_all

lemma releaseRunNamespaceIfLast_wp: "op_wp ns_request (\<lambda>_ _. True) h (releaseRunNamespaceIfLast opNS agent)"
proof -
  let ?run = "RunNamespaceName (ag_Namespace agent)"
  let ?self = "Some (ag_UID agent)"
  have again: "op_wp ns_request (\<lambda>_ _. True) h' (tryThen (readBinding opNS ?run) (\<lambda>found. case found of
      None \<Rightarrow> Return (Inr ()) | Some b \<Rightarrow> tryThen (runNamespaceHandler b ?self) (\<lambda>_. Return (Inr ()))))" for h'
    by (rule op_wp_try_keep [OF readBinding_wp, where K = "\<lambda>_. True"]) (auto simp: op_wp_option split: option.split intro: handled_wp)
  have swap: "op_wp ns_request (\<lambda>_ _. True) h' (andThen (swapBinding b bindingTerminating) (\<lambda>r. case r of
        Inr b \<Rightarrow> tryThen (runNamespaceHandler b ?self) (\<lambda>_. Return (Inr ()))
      | Inl e \<Rightarrow> if (case api_cause e of Some a \<Rightarrow> IsConflict a | None \<Rightarrow> False)
          then tryThen (readBinding opNS ?run) (\<lambda>found. case found of
                 None \<Rightarrow> Return (Inr ()) | Some b \<Rightarrow> tryThen (runNamespaceHandler b ?self) (\<lambda>_. Return (Inr ())))
          else Return (Inl e)))" if "known h' b" "bd_state b = bindingBound" for h' b
    unfolding op_wp_andThen
    by (rule op_wp_mono [OF swapBinding_wp [of h' b b]])
       (use that again in \<open>auto simp: binding_moves_def op_wp_sum op_wp_if split: sum.split intro: handled_wp\<close>)
  have bound: "op_wp ns_request (\<lambda>_ _. True) h' (tryThen (runNamespaceStillNeeded b ?self) (\<lambda>live.
      if live then Return (Inr ()) else andThen (swapBinding b bindingTerminating) (\<lambda>r. case r of
        Inr b \<Rightarrow> tryThen (runNamespaceHandler b ?self) (\<lambda>_. Return (Inr ()))
      | Inl e \<Rightarrow> if (case api_cause e of Some a \<Rightarrow> IsConflict a | None \<Rightarrow> False)
          then tryThen (readBinding opNS ?run) (\<lambda>found. case found of
                 None \<Rightarrow> Return (Inr ()) | Some b \<Rightarrow> tryThen (runNamespaceHandler b ?self) (\<lambda>_. Return (Inr ())))
          else Return (Inl e))))" if "known h' b" "bd_state b = bindingBound" for h' b
    by (rule op_wp_try_keep [OF runNamespaceStillNeeded_wp, where K = "\<lambda>h. known h b"])
       (use that swap in \<open>auto simp: known_append\<close>)
  show ?thesis
    unfolding releaseRunNamespaceIfLast_def Let_def op_wp_andThen
    by (rule op_wp_mono [OF readBinding_wp])
       (auto split: sum.split option.split go_error.split intro: bound handled_wp)
qed

lemma run_namespace_Reconcile_wp: "op_wp ns_request (\<lambda>_ _. True) h (run_namespace_Reconcile opNS name)"
  unfolding run_namespace_Reconcile_def op_wp_andThen
  by (rule op_wp_mono [OF readBinding_wp]) (auto split: sum.split option.split go_error.split intro: handled_wp)

section \<open>Properties of the run namespace\<close>

text \<open>
  C18. A pass uses a run namespace only with proof that the operator created it: the name it is given is
  this source namespace's, and either the namespace was read live, undeleted, with the UID that a Bound
  record of the very same source namespace holds, or it was created in this pass under the record's
  nonce and its UID recorded. On the way a namespace is deleted only under its UID, when a Deleting
  record holds that UID or a Creating record its nonce; labels are written only on the recorded
  namespace; the record moves only along its state machine; and only mirrors are removed.
\<close>

theorem ensureRunNamespace_only_proven:
  "op_wp ns_request (\<lambda>h r. \<forall>name. r = Inr name \<longrightarrow> run_namespace_proven agent h name) [] (ensureRunNamespace opNS agent)"
  by (rule ensureRunNamespace_wp)

text \<open>
  Teardown keeps the same discipline, whatever the API server answers: neither the release of the
  namespace by its last Agent nor the run-namespace reconciler deletes a namespace unless a record
  stored as Deleting holds its UID, or a Creating one its nonce.
\<close>

theorem teardown_keeps_discipline:
  "op_wp ns_request (\<lambda>_ _. True) [] (releaseRunNamespaceIfLast opNS agent) \<and>
   op_wp ns_request (\<lambda>_ _. True) [] (run_namespace_Reconcile opNS runName)"
  using releaseRunNamespaceIfLast_wp run_namespace_Reconcile_wp by blast

definition source_gone :: "binding \<Rightarrow> (exchange list \<Rightarrow> req \<Rightarrow> resp) \<Rightarrow> bool" where
  "source_gone b ans \<longleftrightarrow> (\<forall>h. \<exists>e. ans h (Get True KNamespace [] (bd_sourceNamespace b)) = RObj (Inl e) \<and> IsNotFound e)"

definition writes_succeed :: "(exchange list \<Rightarrow> req \<Rightarrow> resp) \<Rightarrow> bool" where
  "writes_succeed ans \<longleftrightarrow> (\<forall>h o'. ans h (Update (OKeyed o')) = RObj (Inr (OKeyed o'))) \<and> (\<forall>h x p. ans h (Delete x p) = RDone None)"

text \<open>
  C25. Teardown makes progress. With the source namespace gone and no write failing, one pass over a Terminating record
  that finds the run namespace undeleted under the recorded UID moves the record to Deleting and requests the namespace's
  deletion under that UID. A later pass that finds the namespace still terminating keeps the record and requests nothing
  more; a later pass that finds it gone removes the record.
\<close>

theorem teardown_progress:
  assumes "bd_state b = bindingTerminating" and "source_gone b ans" and "writes_succeed ans"
    and "\<forall>h. ans h (Get True KNamespace [] (bd_runNamespace b)) = RObj (Inr (ONamespace ns))"
    and "om_UID ns = bd_runNamespaceUID b" and "om_DeletionTimestamp ns = None" and "has_prefix (om_Name ns) RunNamespacePrefix"
    and "\<forall>h. waits h (Get True KNamespace [] (bd_runNamespace b)) = RObj (Inr (ONamespace (ns\<lparr> om_DeletionTimestamp := Some t \<rparr>)))"
    and "IsNotFound gone" and "\<forall>h. ans' h (Get True KNamespace [] (bd_runNamespace b)) = RObj (Inl gone)" and "writes_succeed ans'"
  shows "\<exists>b' h. run_op ans [] (runNamespaceHandler b None) = (Inr b', h) \<and> bd_state b' = bindingDeleting \<and>
      (Delete (ONamespace ns) (Some (bd_runNamespaceUID b)), RDone None) \<in> set h \<and>
      (\<exists>a. run_op waits [] (runNamespaceHandler b' None) = (Inr b', [(Get True KNamespace [] (bd_runNamespace b), a)])) \<and>
      (\<exists>h'. run_op ans' [] (runNamespaceHandler b' None) = (Inr b', h') \<and> (Delete (OKeyed (bd_obj b')) None, RDone None) \<in> set h')"
proof -
  let ?src = "Get True KNamespace [] (bd_sourceNamespace b)"
  have "\<forall>h. \<exists>e. ans h ?src = RObj (Inl e) \<and> IsNotFound e" using assms(2) by (auto simp: source_gone_def)
  then obtain e where e: "\<And>h. ans h ?src = RObj (Inl (e h)) \<and> IsNotFound (e h)" by metis
  let ?b = "encode (b\<lparr> bd_state := bindingDeleting \<rparr>)"
  have "resp_obj as_namespace (ans h ?src) = Inl (e h)" for h using e by (simp add: resp_obj_def)
  moreover have "resp_obj as_namespace (ans h (Get True KNamespace [] (bd_runNamespace b))) = Inr ns" for h
    using assms(4) by (simp add: resp_obj_def as_namespace_def)
  moreover have "resp_obj as_namespace (ans' h (Get True KNamespace [] (bd_runNamespace b))) = Inl gone" for h
    using assms(10) by (simp add: resp_obj_def)
  moreover have "resp_obj as_namespace (waits h (Get True KNamespace [] (bd_runNamespace b))) = Inr (ns\<lparr> om_DeletionTimestamp := Some t \<rparr>)" for h
    using assms(8) by (simp add: resp_obj_def as_namespace_def)
  moreover have "resp_obj as_keyed (ans h (Update (OKeyed x))) = Inr x" for h x
    using assms(3) by (simp add: writes_succeed_def resp_obj_def as_keyed_def)
  moreover have d: "ans h (Delete x p) = RDone None" "ans' h (Delete x p) = RDone None" for h x p
    using assms(3,11) by (simp_all add: writes_succeed_def)
  moreover have "resp_done (RDone None) = None" by (simp add: resp_done_def)
  ultimately show ?thesis
    using assms(1,5,6,7,9) e
    by (simp add: runNamespaceHandler_def runNamespaceStillNeeded_def swapBinding_def deleteRunNamespace_def tryThen_def
        run_op_andThen typed_requests deleteGone_def Let_def)
qed

section \<open>Runs\<close>

definition sample_binding :: "bindingState \<Rightarrow> binding" where
  "sample_binding st = encode \<lparr> bd_obj = \<lparr> ko_Kind = ''ConfigMap'', ko_Meta = new_meta ''op'' ''b'' [] [], ko_Data = [], ko_BinaryData = [],
       ko_Immutable = None \<rparr>,
     bd_sourceNamespace = ''team'', bd_sourceNamespaceUID = ''n1'', bd_runNamespace = ''assayd-run-team'', bd_runNamespaceUID = ''n1'',
     bd_nonce = ''x'', bd_state = st \<rparr>"

definition sample_namespace :: ObjectMeta where
  "sample_namespace = (new_meta [] ''assayd-run-team'' [] [])\<lparr> om_UID := ''n1'' \<rparr>"

lemma sample_binding_ok: "binding_ok (sample_binding st)"
  by (simp add: sample_binding_def binding_ok_def)

theorem binding_roundtrip_witness:
  "decodeBinding (bd_obj (encode (sample_binding bindingBound))) = Inr (encode (sample_binding bindingBound))"
  by (rule binding_roundtrip) (rule sample_binding_ok)

text \<open>A server that holds one bound record and one namespace, no quotas, and accepts every write.\<close>

definition bound_server :: "exchange list \<Rightarrow> req \<Rightarrow> resp" where
  "bound_server h r = (case r of
     Get live KNamespace ns name \<Rightarrow> RObj (Inr (ONamespace sample_namespace))
   | Get live KConfigMap ns name \<Rightarrow> RObj (Inr (OKeyed (bd_obj (sample_binding bindingBound))))
   | Get live k ns name \<Rightarrow> RObj (Inr (OOther sample_namespace))
   | ListOf live k ns sel \<Rightarrow> RObjs (Inr [])
   | LoadInstallUID \<Rightarrow> RString ''i''
   | _ \<Rightarrow> RDone None)"

lemma sample_binding_decodes: "decodeBinding (bd_obj (sample_binding st)) = Inr (sample_binding st)"
proof -
  have "encode (sample_binding st) = sample_binding st" by (simp add: sample_binding_def encode_def)
  moreover have "decodeBinding (bd_obj (encode (sample_binding st))) = Inr (encode (sample_binding st))"
    using sample_binding_ok [of st] by (auto simp: decodeBinding_def encode_def binding_field_def binding_ok_def lbl_def)
  ultimately show ?thesis by simp
qed

lemma sample_binding_sel [simp]:
  "bd_sourceNamespace (sample_binding st) = ''team''" "bd_sourceNamespaceUID (sample_binding st) = ''n1''"
  "bd_runNamespaceUID (sample_binding st) = ''n1''" "bd_state (sample_binding st) = st" "bd_runNamespace (sample_binding st) = ''assayd-run-team''"
  by (simp_all add: sample_binding_def)

theorem ensureRunNamespace_only_proven_witness:
  "\<exists>name h. run_op bound_server [] (ensureRunNamespace ''op'' (sample_agent (sample_spec []))) = (Inr name, h) \<and>
     run_namespace_proven (sample_agent (sample_spec [])) h name"
proof -
  let ?m = "ensureRunNamespace ''op'' (sample_agent (sample_spec []))"
  obtain r h where run: "run_op bound_server [] ?m = (r, h)" by force
  moreover from run have "\<exists>name. r = Inr name"
    by (auto simp: ensureRunNamespace_def LabelAuthorityPresent_def policy_installed_def tryThen_def run_op_andThen typed_requests
        bound_server_def resp_obj_def as_any_def as_namespace_def as_keyed_def readBinding_def sample_binding_decodes
        ensure_with_binding_def ensure_bound_def installIdentity_def reconcileRunNamespaceLabels_def mirrorInto_def
        listOr_def resp_objs_def updateOr_def resp_done_def sample_namespace_def new_meta_def sample_agent_def Let_def
        split: prod.splits if_splits)
  ultimately show ?thesis using op_wp_run [OF ensureRunNamespace_only_proven run] by blast
qed

definition teardown_server :: "exchange list \<Rightarrow> req \<Rightarrow> resp" where
  "teardown_server h r = (case r of
     Get live KNamespace ns name \<Rightarrow> if name = ''assayd-run-team'' then RObj (Inr (ONamespace sample_namespace))
       else RObj (Inl \<lparr> err_class = ENotFound, err_text = [], err_nsTerminating = False \<rparr>)
   | Update (OKeyed o') \<Rightarrow> RObj (Inr (OKeyed o'))
   | _ \<Rightarrow> RDone None)"

definition waiting_server :: "exchange list \<Rightarrow> req \<Rightarrow> resp" where
  "waiting_server h r = (case r of
     Get live KNamespace ns name \<Rightarrow> RObj (Inr (ONamespace (sample_namespace\<lparr> om_DeletionTimestamp := Some 60 \<rparr>)))
   | _ \<Rightarrow> RDone None)"

definition gone_server :: "exchange list \<Rightarrow> req \<Rightarrow> resp" where
  "gone_server h r = (case r of
     Get live k ns name \<Rightarrow> RObj (Inl \<lparr> err_class = ENotFound, err_text = [], err_nsTerminating = False \<rparr>)
   | Update (OKeyed o') \<Rightarrow> RObj (Inr (OKeyed o'))
   | _ \<Rightarrow> RDone None)"

theorem teardown_progress_witness:
  "\<exists>b' h. run_op teardown_server [] (runNamespaceHandler (sample_binding bindingTerminating) None) = (Inr b', h) \<and>
     bd_state b' = bindingDeleting \<and> (Delete (ONamespace sample_namespace) (Some ''n1''), RDone None) \<in> set h \<and>
     (\<exists>h'. run_op waiting_server [] (runNamespaceHandler b' None) = (Inr b', h') \<and> length h' = 1) \<and>
     (\<exists>h'. run_op gone_server [] (runNamespaceHandler b' None) = (Inr b', h') \<and> (Delete (OKeyed (bd_obj b')) None, RDone None) \<in> set h')"
proof -
  have "source_gone (sample_binding bindingTerminating) teardown_server"
    by (simp add: source_gone_def teardown_server_def)
  moreover have "writes_succeed teardown_server" "writes_succeed gone_server"
    by (simp_all add: writes_succeed_def teardown_server_def gone_server_def)
  moreover have "\<forall>h. teardown_server h (Get True KNamespace [] (bd_runNamespace (sample_binding bindingTerminating))) = RObj (Inr (ONamespace sample_namespace))"
    by (simp add: teardown_server_def)
  moreover have "\<forall>h. gone_server h (Get True KNamespace [] (bd_runNamespace (sample_binding bindingTerminating))) =
      RObj (Inl \<lparr> err_class = ENotFound, err_text = [], err_nsTerminating = False \<rparr>)"
    by (simp add: gone_server_def)
  moreover have "om_UID sample_namespace = bd_runNamespaceUID (sample_binding bindingTerminating)" "om_DeletionTimestamp sample_namespace = None"
    "has_prefix (om_Name sample_namespace) RunNamespacePrefix"
    by (simp_all add: sample_namespace_def new_meta_def has_prefix_def)
  moreover have "\<forall>h. waiting_server h (Get True KNamespace [] (bd_runNamespace (sample_binding bindingTerminating))) =
      RObj (Inr (ONamespace (sample_namespace\<lparr> om_DeletionTimestamp := Some 60 \<rparr>)))"
    by (simp add: waiting_server_def)
  ultimately obtain b' h where pass: "run_op teardown_server [] (runNamespaceHandler (sample_binding bindingTerminating) None) = (Inr b', h)"
      "bd_state b' = bindingDeleting" "(Delete (ONamespace sample_namespace) (Some ''n1''), RDone None) \<in> set h"
      and wait: "\<exists>a. run_op waiting_server [] (runNamespaceHandler b' None) = (Inr b', [(Get True KNamespace [] ''assayd-run-team'', a)])"
      and drop: "\<exists>h'. run_op gone_server [] (runNamespaceHandler b' None) = (Inr b', h') \<and> (Delete (OKeyed (bd_obj b')) None, RDone None) \<in> set h'"
    using teardown_progress [of "sample_binding bindingTerminating" teardown_server sample_namespace waiting_server 60
      "\<lparr> err_class = ENotFound, err_text = [], err_nsTerminating = False \<rparr>" gone_server] by auto
  have "\<exists>h'. run_op waiting_server [] (runNamespaceHandler b' None) = (Inr b', h') \<and> length h' = 1" using wait by auto
  with pass drop show ?thesis by blast
qed

end
