(* ===== verification/Rollout.thy ===== *)
theory Rollout
  imports Run_Namespace
begin

text \<open>
  What an Agent pass decides, without the API server (\<^verbatim>\<open>internal/controller/agent_controller.go\<close>): the
  conditions it asserts on the way (gates, sandbox, task state, image signature, governance, carried
  reports), the choice of the gate a revision must pass, and the rollout switch, which is the one
  place a revision becomes the active one. Also the bounding of condition messages.

  The switch is a function of what the pass has gathered (\<open>rollout_input\<close>) from a status and a set of
  assertions to both; each branch is one case of the source's switch. The clock, where a branch reads
  it, is an argument.
\<close>

abbreviation ReasonEvalHeldForAuth :: string where "ReasonEvalHeldForAuth \<equiv> ''EvalHeldForAuth''"
abbreviation ReasonActiveRevisionNotEvaluated :: string where
  "ReasonActiveRevisionNotEvaluated \<equiv> ''ActiveRevisionNotEvaluated''"
abbreviation ReasonPinnedRollback :: string where "ReasonPinnedRollback \<equiv> ''PinnedRollback''"
abbreviation ReasonPinnedRevisionNotEligible :: string where
  "ReasonPinnedRevisionNotEligible \<equiv> ''PinnedRevisionNotEligible''"
abbreviation ReasonNoPassedVerdictRecorded :: string where "ReasonNoPassedVerdictRecorded \<equiv> ''NoPassedVerdictRecorded''"
abbreviation ReasonAuthLockPending :: string where "ReasonAuthLockPending \<equiv> ''AuthLockPending''"
abbreviation ReasonAuthLockUnverified :: string where "ReasonAuthLockUnverified \<equiv> ''AuthLockUnverified''"
abbreviation ReasonAuthPolicyMissing :: string where "ReasonAuthPolicyMissing \<equiv> ''AuthPolicyMissing''"
abbreviation ReasonGoverned :: string where "ReasonGoverned \<equiv> ''Governed''"
abbreviation ReasonAuthOptedOut :: string where "ReasonAuthOptedOut \<equiv> ''AuthOptedOut''"
abbreviation ReasonAuthVerifiedOnOneReplica :: string where "ReasonAuthVerifiedOnOneReplica \<equiv> ''AuthVerifiedOnOneReplica''"
abbreviation ReasonGatewayAuthPolicy :: string where "ReasonGatewayAuthPolicy \<equiv> ''GatewayAuthPolicy''"
abbreviation ReasonForeignTrafficPolicy :: string where "ReasonForeignTrafficPolicy \<equiv> ''ForeignTrafficPolicy''"
abbreviation ReasonServingRouteNotAccepted :: string where "ReasonServingRouteNotAccepted \<equiv> ''ServingRouteNotAccepted''"
abbreviation ReasonAuthPolicyNotAttached :: string where "ReasonAuthPolicyNotAttached \<equiv> ''AuthPolicyNotAttached''"
abbreviation ReasonAPIKeySourceEmpty :: string where "ReasonAPIKeySourceEmpty \<equiv> ''ApiKeySourceEmpty''"
abbreviation ReasonAuthEnforcementPending :: string where "ReasonAuthEnforcementPending \<equiv> ''AuthEnforcementPending''"

section \<open>Assessments\<close>

definition specPinDigest :: "Agent \<Rightarrow> string" where
  "specPinDigest agent = pin_of (ag_Spec agent)"

definition verdict_text :: "EvalVerdict \<Rightarrow> string" where
  "verdict_text v = (case v of NoVerdict \<Rightarrow> [] | EvalVerdictRunning \<Rightarrow> ''Running''
     | EvalVerdictPassed \<Rightarrow> ''Passed'' | EvalVerdictFailed \<Rightarrow> ''Failed'')"

definition removedGateMessage :: "string \<Rightarrow> string \<Rightarrow> string \<Rightarrow> string" where
  "removedGateMessage active activeDigest note =
     (if active = [] then ''spec.gates was removed; no revision is active yet'' @ note
      else if activeDigest = [] then msgf ''spec.gates was removed; the active revision'' [active] @ note
      else msgf ''spec.gates was removed; the active revision'' [active, activeDigest] @ note)"

definition removedGateNote :: "EvalStatus option \<Rightarrow> string \<Rightarrow> string \<Rightarrow> string \<Rightarrow> string \<Rightarrow> string" where
  "removedGateNote ev desired desiredDigest activeDigest pin = (case ev of
     None \<Rightarrow> []
   | Some e \<Rightarrow>
     if desiredDigest = [] \<or> es_RevisionDigest e \<noteq> desiredDigest \<or>
        (es_Verdict e \<noteq> EvalVerdictFailed \<and> es_Verdict e \<noteq> EvalVerdictRunning) then []
     else msgf '' status.eval records a verdict that does not hold it'' [verdict_text (es_Verdict e), desired, desiredDigest, es_Suite e, es_SuiteDigest e,
       (if desiredDigest = activeDigest then ''it is the active revision''
        else if pin \<noteq> [] \<and> pin \<noteq> desiredDigest then ''it takes no traffic while the pin names another revision''
        else ''it takes traffic once it is available'')])"

definition assessGates :: "Agent \<Rightarrow> gateMode \<Rightarrow> string \<Rightarrow> string \<Rightarrow> conditionSet \<Rightarrow> conditionSet" where
  "assessGates agent mode desired desiredDigest c = (let st = ag_Status agent in case mode of
     gateNone \<Rightarrow>
       let removed = removedGateNote (st_Eval st) desired desiredDigest (st_ActiveRevisionDigest st) (specPinDigest agent);
           c = cond_set CondGatesSkipped CTrue ''NoGatesDeclared'' (''no spec.gates are declared'' @ removed) c in
       if findCondition (st_Conditions st) CondGatesPassed \<noteq> None
       then cond_set CondGatesPassed CFalse ''NoGatesDeclared''
              (removedGateMessage (st_ActiveRevision st) (st_ActiveRevisionDigest st) removed) c
       else c
   | gateUnwired \<Rightarrow> cond_set CondGatesPassed CFalse ''GateDetectionUnwired'' ''the operator was built without EvalSuite detection'' c
   | gateCRDAbsent \<Rightarrow> cond_set CondGatesSkipped CTrue ''EvalSuiteCRDAbsent'' ''the EvalSuite CRD is not installed'' c
   | gateEnforced \<Rightarrow>
       let msg = servingPinBypass agent st [];
           c = (if msg \<noteq> [] then cond_set CondGatesBypassed CTrue ReasonPinnedRollback msg c else c);
           msg = activeRevisionPassUnrecorded agent st in
       if msg \<noteq> [] then cond_set CondActiveRevisionPassUnrecorded CTrue ReasonNoPassedVerdictRecorded msg c else c)"

definition assessPromotedGate :: "EvalStatus option \<Rightarrow> string \<Rightarrow> string \<Rightarrow> conditionSet \<Rightarrow> conditionSet" where
  "assessPromotedGate ev desired desiredDigest c =
     (if evalPassedFor ev desiredDigest
      then cond_set CondGatesPassed CTrue ReasonEvalPassed (case ev of None \<Rightarrow> [] | Some e \<Rightarrow>
             msgf ''passed suite'' [desired, desiredDigest, es_Suite e, es_SuiteDigest e, es_Score e]) c
      else case passedEntry ev desiredDigest of
        Some p \<Rightarrow> cond_set CondGatesPassed CTrue ReasonEvalPassed
          (msgf ''passed against a suite, as passed[] records'' [desired, desiredDigest, ep_SuiteDigest p]) c
      | None \<Rightarrow> cond_set CondGatesPassed CFalse ReasonActiveRevisionNotEvaluated
          (msgf ''is serving and was not evaluated'' [desired, desiredDigest,
             (case ev of None \<Rightarrow> ''status.eval records no verdict'' | Some e \<Rightarrow>
                if es_RevisionDigest e = [] then ''status.eval records no verdict''
                else msgf ''records of another pair'' [(if es_Verdict e = NoVerdict then ''no verdict'' else verdict_text (es_Verdict e)), es_Revision e, es_RevisionDigest e, es_Suite e, es_SuiteDigest e])]) c)"

definition assessSandbox :: "Agent \<Rightarrow> conditionSet \<Rightarrow> conditionSet" where
  "assessSandbox agent c = (case sp_Runtime (ag_Spec agent) of
     None \<Rightarrow> c
   | Some rt \<Rightarrow> (case rt_Sandbox rt of
       None \<Rightarrow> c
     | Some box \<Rightarrow> cond_set CondSandboxDowngraded CTrue ''SandboxRuntimeUnavailable'' (msgf ''no sandbox runtime is bound'' [sb_Profile box]) c))"

definition assessTaskState :: "Agent \<Rightarrow> conditionSet \<Rightarrow> conditionSet" where
  "assessTaskState agent c = (case sp_Runtime (ag_Spec agent) of
     None \<Rightarrow> c
   | Some rt \<Rightarrow> if rt_Replicas rt \<le> 1 then c
       else cond_set CondTaskStateUnverified CTrue ''ProtocolHasNoDeclaration'' (msgf ''replicas'' [itoa (rt_Replicas rt)]) c)"

text \<open>The regular expression \<^verbatim>\<open>@sha256:[0-9a-f]{64}$\<close>.\<close>

definition is_lower_hex :: "char \<Rightarrow> bool" where
  "is_lower_hex ch \<longleftrightarrow> ch \<in> set ''0123456789abcdef''"

definition digestPinned :: "string \<Rightarrow> bool" where
  "digestPinned img \<longleftrightarrow> 72 \<le> length img \<and>
     (let t = drop (length img - 72) img in has_prefix t ''@sha256:'' \<and> list_all is_lower_hex (drop 8 t))"

definition assessImageSignature :: "Agent \<Rightarrow> conditionSet \<Rightarrow> conditionSet" where
  "assessImageSignature agent c = cond_set CondImageSignatureUnverified CTrue ''SignatureVerificationNotBuilt''
     (case sp_Runtime (ag_Spec agent) of
        Some rt \<Rightarrow> if digestPinned (rt_Image rt) then ''spec.runtime.image is pinned by a sha256 digest; its signature is not verified''
                   else msgf ''spec.runtime.image is not pinned by a sha256 digest'' [rt_Image rt]
      | None \<Rightarrow> if sp_External (ag_Spec agent) \<noteq> None then ''this Agent runs outside this cluster''
                else ''this Agent names no image'') c"

definition governanceReason :: "AuthVerification option \<Rightarrow> string" where
  "governanceReason v = (case v of
     None \<Rightarrow> ReasonAuthVerifiedOnOneReplica
   | Some x \<Rightarrow> if vr_ReplicasDeclared x = Some 1 \<and> vr_ReplicasProbed x \<ge> 1 then ReasonGoverned else ReasonAuthVerifiedOnOneReplica)"

definition governanceFor :: "AuthStatus \<Rightarrow> cond_status \<times> string \<times> string" where
  "governanceFor auth =
     (if au_Mode auth = AuthModeNone then (CTrue, ReasonAuthOptedOut, ''spec.expose.a2a.auth is none'')
      else (CFalse, governanceReason (au_Verified auth), msgf ''published only after an anonymous request got 401 on replicas''
        (case au_Verified auth of None \<Rightarrow> [''0'', ''an unknown number of'']
         | Some v \<Rightarrow> [itoa (vr_ReplicasProbed v), (case vr_ReplicasDeclared v of None \<Rightarrow> ''an unknown number of'' | Some d \<Rightarrow> itoa d)])))"

definition vacuousGovernance :: "string \<Rightarrow> cond_status \<times> string \<times> string" where
  "vacuousGovernance why = (CFalse, ReasonGoverned, msgf ''vacuously'' [why])"

definition set_governance :: "cond_status \<times> string \<times> string \<Rightarrow> conditionSet \<Rightarrow> conditionSet" where
  "set_governance g c = (case g of (st, reason, msg) \<Rightarrow> cond_set CondGovernanceSkipped st reason msg c)"

definition assessGovernance :: "GatewayConfig \<Rightarrow> go_time \<Rightarrow> AgentStatus \<Rightarrow> conditionSet \<Rightarrow> conditionSet" where
  "assessGovernance gw at status c =
     (let tx = authTransaction status; kind = (case tx of None \<Rightarrow> [] | Some t \<Rightarrow> tx_Kind t);
          mode = (case st_Auth status of None \<Rightarrow> [] | Some a \<Rightarrow> au_Mode a) in
      if \<not> gw_Enabled gw then cond_set CondGovernanceSkipped CTrue ''GatewayDisabled'' ''gateway.enabled is false'' c
      else if kind = TxLock \<and> \<not> isReCreation (st_Auth status) then
        let m = ''the serving route is being locked in place by a Lock'';
            c = cond_set CondGovernanceSkipped CTrue ReasonAuthLockPending m c in
        (case tx of None \<Rightarrow> c | Some t \<Rightarrow> (case tx_Deadline t of
           None \<Rightarrow> c
         | Some d \<Rightarrow> if \<not> at < d then cond_set CondPolicyApplyIncomplete CTrue ReasonAuthLockUnverified (m @ ''. Its deadline has passed'') c else c))
      else if kind = TxLock then
        let m = ''a served Agent's -auth policy was missing and is being re-created'' in
        cond_set CondPolicyApplyIncomplete CTrue ReasonAuthPolicyMissing m (cond_set CondGovernanceSkipped CTrue ReasonAuthPolicyMissing m c)
      else if kind = TxCreate \<and> mode \<noteq> [] then set_governance (vacuousGovernance ''the route is being re-created as a prepared route'') c
      else if mode \<noteq> [] then set_governance (governanceFor (the (st_Auth status))) c
      else if kind = TxAdopt then c
      else set_governance (vacuousGovernance ''this operator has published no route for this Agent'') c)"

section \<open>Carried reports\<close>

abbreviation carriedNote :: string where "carriedNote \<equiv> '' | carried as the last pass that derived it stored it''"
abbreviation compileCarriedNote :: string where "compileCarriedNote \<equiv> '' | carried as the last pass that compiled the policy stored it''"

definition carried :: "condition \<Rightarrow> condition" where
  "carried c = (if has_suffix (c_Message c) carriedNote then c else c\<lparr> c_Message := c_Message c @ carriedNote \<rparr>)"

definition carriedReason :: "string \<Rightarrow> bool" where
  "carriedReason reason \<longleftrightarrow> reason \<in> {ReasonGatewayAuthPolicy, ReasonForeignTrafficPolicy, ReasonServingRouteNotAccepted,
     ReasonAuthPolicyNotAttached, ReasonAPIKeySourceEmpty}"

definition a80Carried :: "string \<Rightarrow> bool" where
  "a80Carried reason \<longleftrightarrow> carriedReason reason \<and>
     reason \<in> {ReasonServingRouteNotAccepted, ReasonAuthPolicyNotAttached, ReasonAPIKeySourceEmpty}"

definition judgesServed :: "AgentStatus \<Rightarrow> bool" where
  "judgesServed status = (case st_Auth status of
     None \<Rightarrow> False
   | Some a \<Rightarrow> (case au_Transaction a of None \<Rightarrow> au_Mode a \<noteq> [] | Some tx \<Rightarrow> tx_Kind tx = TxAdopt))"

definition routeNames :: "GatewayConfig \<Rightarrow> AgentStatus \<Rightarrow> string \<Rightarrow> bool" where
  "routeNames gw status rv \<longleftrightarrow> gw_Enabled gw \<and> st_ActiveRevision status = rv \<and> judgesServed status"

definition stored_true :: "Agent \<Rightarrow> string \<Rightarrow> (string \<Rightarrow> bool) \<Rightarrow> condition option" where
  "stored_true agent t P = (case findCondition (st_Conditions (ag_Status agent)) t of
     None \<Rightarrow> None | Some c \<Rightarrow> if c_Status c = CTrue \<and> P (c_Reason c) then Some c else None)"

definition storedHold :: "Agent \<Rightarrow> AgentStatus \<Rightarrow> condition option" where
  "storedHold agent status = (case stored_true agent CondPolicyApplyIncomplete (\<lambda>r. r = ReasonGatewayAuthPolicy) of
     None \<Rightarrow> None
   | Some c \<Rightarrow> (case authTransaction status of
       None \<Rightarrow> None
     | Some tx \<Rightarrow> if (tx_Kind tx \<noteq> TxCreate \<and> tx_Kind tx \<noteq> TxLock) \<or> tx_Stage tx \<noteq> StageProbingAfter then None else Some c))"

definition carry_stored :: "Agent \<Rightarrow> (string \<Rightarrow> bool) \<Rightarrow> conditionSet \<Rightarrow> conditionSet" where
  "carry_stored agent P c = fold (\<lambda>t c. case stored_true agent t P of
     None \<Rightarrow> c
   | Some x \<Rightarrow> if cond_get c t \<noteq> None \<and> t = CondPolicyApplyIncomplete then c else cond_carry (carried x) c)
     [CondGovernanceSkipped, CondPolicyApplyIncomplete] c"

definition seedStoredAbove :: "GatewayConfig \<Rightarrow> Agent \<Rightarrow> AgentStatus \<Rightarrow> conditionSet \<Rightarrow> conditionSet" where
  "seedStoredAbove gw agent status c =
     (if \<not> gw_Enabled gw then c
      else
       let c = (if cond_get c CondPolicyApplyIncomplete = None
                then (case storedHold agent status of None \<Rightarrow> c | Some x \<Rightarrow> cond_carry (carried x) c) else c);
           c = carry_stored agent (\<lambda>r. r = ReasonForeignTrafficPolicy) c;
           c = (if judgesServed status then carry_stored agent a80Carried c else c) in
       if (case st_Auth status of None \<Rightarrow> True | Some a \<Rightarrow> au_Mode a \<noteq> AuthModeAPIKey \<or> au_Transaction a \<noteq> None) then c
       else case stored_true agent CondGovernanceSkipped (\<lambda>r. r = ReasonGatewayAuthPolicy) of
          None \<Rightarrow> c
        | Some gs \<Rightarrow>
          let c = cond_carry (carried gs) c in
          (case stored_true agent CondPolicyApplyIncomplete (\<lambda>r. r = ReasonGatewayAuthPolicy) of
             None \<Rightarrow> c
           | Some x \<Rightarrow> if cond_get c CondPolicyApplyIncomplete = None then cond_carry (carried x) c else c))"

definition carryGatewayReport :: "GatewayConfig \<Rightarrow> Agent \<Rightarrow> conditionSet \<Rightarrow> conditionSet" where
  "carryGatewayReport gw agent c =
     (if \<not> gw_Enabled gw then c
      else fold (\<lambda>t c.
        if cond_get c t \<noteq> None then c
        else case findCondition (st_Conditions (ag_Status agent)) t of
           None \<Rightarrow> c
         | Some x \<Rightarrow>
           let note = (if t = CondPolicyCompileFailed then compileCarriedNote else carriedNote) in
           cond_carry (if has_suffix (c_Message x) note then x else x\<lparr> c_Message := c_Message x @ note \<rparr>) c)
        [CondPolicyApplyIncomplete, CondPolicyCompileFailed] c)"

definition incompleteOrder :: "string list" where
  "incompleteOrder = [ReasonAuthPolicyMissing, ReasonForeignTrafficPolicy, ReasonGatewayAuthPolicy,
     ReasonServingRouteNotAccepted, ReasonAuthPolicyNotAttached, ReasonAPIKeySourceEmpty]"

fun index_of :: "'a \<Rightarrow> 'a list \<Rightarrow> int" where
  "index_of x [] = -1"
| "index_of x (y # ys) = (if y = x then 0 else (let i = index_of x ys in if i < 0 then -1 else i + 1))"

definition incompleteRank :: "string \<Rightarrow> int" where
  "incompleteRank reason = index_of reason incompleteOrder"

definition raiseIncomplete :: "string \<Rightarrow> string \<Rightarrow> conditionSet \<Rightarrow> conditionSet" where
  "raiseIncomplete reason msg c = (case cond_get c CondPolicyApplyIncomplete of
     None \<Rightarrow> cond_set CondPolicyApplyIncomplete CTrue reason msg c
   | Some x \<Rightarrow>
     if incompleteRank reason \<ge> 0 \<and> incompleteRank (c_Reason x) > incompleteRank reason
     then cond_set CondPolicyApplyIncomplete CTrue reason (msg @ '' | '' @ c_Reason x @ '': '' @ c_Message x) c
     else cond_set CondPolicyApplyIncomplete CTrue (c_Reason x) (c_Message x @ '' | '' @ reason @ '': '' @ msg) c)"

definition heldAbove :: "conditionSet \<Rightarrow> bool" where
  "heldAbove c = (case cond_get c CondPolicyApplyIncomplete of None \<Rightarrow> False | Some x \<Rightarrow> c_Reason x = ReasonGatewayAuthPolicy)"

section \<open>Outcomes of the gateway step\<close>

record failure =
  fl_reason :: string
  fl_message :: string

record keySourcePolicy =
  kp_read :: bool
  kp_obj :: "PolicyObject option"

record gatewayOutcome =
  gw_requeue :: duration
  gw_withhold :: "failure option"
  gw_served :: bool
  gw_foreign :: "string list"
  gw_nack :: string
  gw_nackNote :: string
  gw_aboveRead :: bool
  gw_aboveHold :: string
  gw_judgeRoute :: "HTTPRoute option"
  gw_judgePolicy :: "PolicyObject option"
  gw_keyPolicy :: keySourcePolicy

definition no_outcome :: gatewayOutcome where
  "no_outcome = \<lparr> gw_requeue = 0, gw_withhold = None, gw_served = False, gw_foreign = [], gw_nack = [], gw_nackNote = [],
     gw_aboveRead = False, gw_aboveHold = [], gw_judgeRoute = None, gw_judgePolicy = None,
     gw_keyPolicy = \<lparr> kp_read = False, kp_obj = None \<rparr> \<rparr>"

definition earliest :: "duration \<Rightarrow> duration \<Rightarrow> duration" where
  "earliest a b = (if a = 0 \<or> (b \<noteq> 0 \<and> b < a) then b else a)"

definition withholdReady :: "gatewayOutcome \<Rightarrow> AgentStatus \<times> conditionSet \<Rightarrow> AgentStatus \<times> conditionSet" where
  "withholdReady gw acc = (case acc of (status, c) \<Rightarrow> (case gw_withhold gw of
     None \<Rightarrow> (status, c)
   | Some w \<Rightarrow>
     if (case cond_get c CondReady of Some r \<Rightarrow> c_Status r \<noteq> CTrue | None \<Rightarrow> False) then (status, c)
     else
       let c = cond_set CondReady CFalse (fl_reason w) (fl_message w) c in
       if gw_served gw
       then (status\<lparr> st_Phase := PhaseDegraded \<rparr>, cond_set CondDegraded CTrue (fl_reason w) (fl_message w) c)
       else (status\<lparr> st_Phase := PhasePending \<rparr>, c)))"

section \<open>The rollout\<close>

definition collisionAgainstStatus :: "AgentStatus \<Rightarrow> string \<Rightarrow> string \<Rightarrow> revisionCollisionError option" where
  "collisionAgainstStatus st rv digest =
     map_option (\<lambda>(role, name, dig). (collision_error name dig digest)\<lparr> co_role := role \<rparr>)
       (find (\<lambda>(role, name, dig). name = rv \<and> dig \<noteq> [] \<and> dig \<noteq> digest)
          [(''active'', st_ActiveRevision st, st_ActiveRevisionDigest st),
           (''candidate'', st_CandidateRevision st, st_CandidateRevisionDigest st)])"

definition supersede :: "string \<Rightarrow> AgentStatus \<Rightarrow> AgentStatus" where
  "supersede desiredDigest st =
     (if st_CandidateRevision st \<noteq> [] \<and> st_CandidateRevisionDigest st \<noteq> desiredDigest
      then st\<lparr> st_SupersededCandidates := appendSuperseded (st_SupersededCandidates st)
                 (st_CandidateRevision st @ ''@'' @ st_CandidateRevisionDigest st),
               st_CandidateRevision := [], st_CandidateRevisionDigest := [] \<rparr>
      else st)"

text \<open>What the pass knows when it comes to the rollout switch.\<close>

record rollout_input =
  ro_agent :: Agent
  ro_gating :: gateMode
  ro_gate :: gateDecision
  ro_desired :: string
  ro_digest :: string
  ro_ready :: bool
  ro_activeAvailable :: bool
  ro_authHold :: string
  ro_pin :: "releasePin option"
  ro_pinWhy :: string

datatype rollout_branch = StillServing | NotAvailable | AuthHeld | GateHeld | Promoted

definition branch_of :: "rollout_input \<Rightarrow> AgentStatus \<Rightarrow> rollout_branch" where
  "branch_of inp st =
     (if \<not> ro_ready inp \<and> st_ActiveRevision st \<noteq> [] \<and> st_ActiveRevisionDigest st \<noteq> ro_digest inp \<and> ro_activeAvailable inp
      then StillServing
      else if \<not> ro_ready inp then NotAvailable
      else if ro_authHold inp \<noteq> [] \<and> st_ActiveRevision st \<noteq> [] \<and> st_ActiveRevisionDigest st \<noteq> ro_digest inp then AuthHeld
      else if \<not> gd_satisfied (ro_gate inp) \<and> st_ActiveRevisionDigest st \<noteq> ro_digest inp then GateHeld
      else Promoted)"

definition as_candidate :: "rollout_input \<Rightarrow> AgentStatus \<Rightarrow> AgentStatus" where
  "as_candidate inp st = st\<lparr> st_CandidateRevision := ro_desired inp, st_CandidateRevisionDigest := ro_digest inp \<rparr>"

definition no_candidate :: "AgentStatus \<Rightarrow> AgentStatus" where
  "no_candidate st = st\<lparr> st_CandidateRevision := [], st_CandidateRevisionDigest := [] \<rparr>"

definition serving :: "string \<Rightarrow> conditionSet \<Rightarrow> conditionSet" where
  "serving rv c = cond_set CondReady CTrue ''Available'' (msgf ''revision is serving'' [rv]) c"

definition promote :: "rollout_input \<Rightarrow> AgentStatus \<Rightarrow> AgentStatus" where
  "promote inp st = (no_candidate st)\<lparr> st_ActiveRevision := ro_desired inp, st_ActiveRevisionDigest := ro_digest inp,
     st_SupersededCandidates := removeString (st_SupersededCandidates st) (ro_desired inp @ ''@'' @ ro_digest inp),
     st_Phase := PhaseReady \<rparr>"

definition promoted_conds :: "rollout_input \<Rightarrow> AgentStatus \<Rightarrow> conditionSet \<Rightarrow> conditionSet" where
  "promoted_conds inp st c =
     (let c = cond_set CondProgressing CFalse ''RolloutComplete'' (msgf ''is the active revision'' [ro_desired inp]) c;
          c = serving (ro_desired inp) c in
      if ro_pin inp \<noteq> None \<and> ro_gating inp = gateEnforced \<and> \<not> evalPassedFor (st_Eval st) (ro_digest inp) then c
      else if ro_gating inp = gateEnforced then assessPromotedGate (st_Eval st) (ro_desired inp) (ro_digest inp) c
      else if ro_gating inp = gateNone \<and> findCondition (st_Conditions (ag_Status (ro_agent inp))) CondGatesPassed \<noteq> None
      then cond_set CondGatesPassed CFalse ''NoGatesDeclared'' (removedGateMessage (ro_desired inp) (ro_digest inp)
             (removedGateNote (st_Eval st) (ro_desired inp) (ro_digest inp) (st_ActiveRevisionDigest st) (specPinDigest (ro_agent inp)))) c
      else c)"

definition not_available :: "rollout_input \<Rightarrow> AgentStatus \<times> conditionSet \<Rightarrow> AgentStatus \<times> conditionSet" where
  "not_available inp acc = (case acc of (st, c) \<Rightarrow>
     let c = cond_set CondProgressing CFalse ''NoRolloutInFlight'' ''no other revision is coming up'' c in
     if st_ActiveRevisionDigest st = ro_digest inp
     then let m = msgf ''is the active revision but has no available replicas'' [ro_desired inp] in
       ((no_candidate st)\<lparr> st_Phase := PhaseDegraded \<rparr>,
        cond_set CondReady CFalse ''WorkloadUnavailable'' m (cond_set CondDegraded CTrue ''WorkloadUnavailable'' m c))
     else ((as_candidate inp st)\<lparr> st_Phase := PhasePending \<rparr>,
       report (ro_gate inp) (cond_set CondReady CFalse ''WorkloadNotAvailable'' (msgf ''has no available replicas yet'' [ro_desired inp]) c)))"

definition gate_held :: "rollout_input \<Rightarrow> AgentStatus \<Rightarrow> conditionSet \<Rightarrow> conditionSet" where
  "gate_held inp st c =
     (let c = report (ro_gate inp) (cond_set CondProgressing CTrue reasonAwaitingGates (msgf ''held at zero traffic pending its eval gates'' [ro_desired inp]) c) in
      if st_ActiveRevision st \<noteq> [] then serving (st_ActiveRevision st) c
      else if gd_reason (ro_gate inp) \<noteq> []
      then cond_set CondReady CFalse (gd_readyReason (ro_gate inp)) (msgf ''no earlier revision is serving'' [gd_message (ro_gate inp)]) c
      else cond_set CondReady CFalse reasonAwaitingGates (msgf ''held, and no earlier revision is serving'' [ro_desired inp]) c)"

definition rollout :: "rollout_input \<Rightarrow> AgentStatus \<times> conditionSet \<Rightarrow> AgentStatus \<times> conditionSet" where
  "rollout inp acc = (case acc of (st, c) \<Rightarrow> (case branch_of inp st of
     StillServing \<Rightarrow> ((as_candidate inp st)\<lparr> st_Phase := PhaseReady \<rparr>,
       report (ro_gate inp) (cond_set CondProgressing CTrue ''CandidateNotAvailable''
         (msgf ''is rolling out'' [ro_desired inp, st_ActiveRevision st]) (serving (st_ActiveRevision st) c)))
   | NotAvailable \<Rightarrow> not_available inp (st, c)
   | AuthHeld \<Rightarrow> ((as_candidate inp st)\<lparr> st_Phase := PhaseHeld \<rparr>,
       let c = serving (st_ActiveRevision st) (cond_set CondProgressing CTrue ''AuthInputUncompilable''
                 (msgf ''is available and held at zero traffic'' [ro_desired inp, ro_authHold inp]) c) in
       if ro_gating inp = gateEnforced
       then cond_set CondGatesPassed CFalse ReasonEvalHeldForAuth (msgf ''is held by the -auth promotion hold'' [ro_desired inp, ro_authHold inp]) c
       else c)
   | GateHeld \<Rightarrow> ((as_candidate inp st)\<lparr> st_Phase := PhaseHeld \<rparr>, gate_held inp st c)
   | Promoted \<Rightarrow> (promote inp st, promoted_conds inp (promote inp st) c)))"

text \<open>The two conditions derived from the status the switch left.\<close>

definition pin_conditions :: "rollout_input \<Rightarrow> AgentStatus \<Rightarrow> conditionSet \<Rightarrow> conditionSet" where
  "pin_conditions inp st c = (case ro_pin inp of
     None \<Rightarrow> c
   | Some pin \<Rightarrow>
     if ro_gating inp \<noteq> gateEnforced then c
     else
       let msg = servingPinBypass (ro_agent inp) st (ro_pinWhy inp) in
       if msg \<noteq> [] then cond_set CondGatesBypassed CTrue ReasonPinnedRollback msg c
       else if st_ActiveRevisionDigest st \<noteq> rp_Digest pin \<and> ro_pinWhy inp \<noteq> []
       then cond_set CondGatesBypassed CTrue ReasonPinnedRollback (pendingPinBypass (rp_Revision pin) (rp_Digest pin) (ro_pinWhy inp)) c
       else cond_unset CondGatesBypassed c)"

definition unrecorded_condition :: "rollout_input \<Rightarrow> AgentStatus \<Rightarrow> conditionSet \<Rightarrow> conditionSet" where
  "unrecorded_condition inp st c =
     (if ro_gating inp \<noteq> gateEnforced then c
      else
       let msg = activeRevisionPassUnrecorded (ro_agent inp) st in
       if msg \<noteq> [] then cond_set CondActiveRevisionPassUnrecorded CTrue ReasonNoPassedVerdictRecorded msg c
       else cond_unset CondActiveRevisionPassUnrecorded c)"

section \<open>Condition messages fit\<close>

abbreviation (input) ConditionMessageMax :: nat where "ConditionMessageMax \<equiv> 32768"

definition conditionMessageTruncated :: string where
  "conditionMessageTruncated = [CHR 0xE2, CHR 0x80, CHR 0xA6] @ '' (message truncated at the API server's limit)''"

text \<open>
  \<^verbatim>\<open>string([]rune(s)[:n])\<close>: the first \<open>n\<close> runes, a byte that starts no valid sequence becoming the
  replacement character.
\<close>

function take_runes :: "nat \<Rightarrow> string \<Rightarrow> string" where
  "take_runes n s =
     (if n = 0 \<or> s = [] then []
      else (if utf8_size s = 0 then [CHR 0xEF, CHR 0xBF, CHR 0xBD] else take (utf8_size s) s) @
           take_runes (n - 1) (drop (max 1 (utf8_size s)) s))"
  by pat_completeness auto
termination by (relation "measure fst") auto

declare take_runes.simps [simp del]

definition boundMessage :: "string \<Rightarrow> string" where
  "boundMessage msg =
     (if rune_count msg \<le> ConditionMessageMax then msg
      else take_runes (ConditionMessageMax - rune_count conditionMessageTruncated) msg @ conditionMessageTruncated)"

definition boundConditionMessages :: "condition list \<Rightarrow> condition list" where
  "boundConditionMessages conds = map (\<lambda>c. c\<lparr> c_Message := boundMessage (c_Message c) \<rparr>) conds"

lemma utf8_size_prefix:
  assumes "utf8_size s = n" "n \<noteq> 0"
  shows "utf8_size (take n s @ t) = n \<and> length (take n s) = n"
proof -
  obtain a s' where s: "s = a # s'" using assms by (cases s) (auto simp: utf8_size_def)
  consider (one) "byte a < 128" | (two) "194 \<le> byte a" "byte a \<le> 223" | (three) "224 \<le> byte a" "byte a \<le> 239"
    | (four) "240 \<le> byte a" "byte a \<le> 244" | (none) "n = 0"
    using assms unfolding s by (fastforce simp: utf8_size_def)
  then show ?thesis
  proof cases
    case two
    then show ?thesis using assms unfolding s by (cases s') (auto simp: utf8_size_def split: if_splits)
  next
    case three
    then show ?thesis using assms unfolding s
      by (cases s'; cases "tl s'") (auto simp: utf8_size_def split: if_splits)
  next
    case four
    then show ?thesis using assms unfolding s
      by (cases s'; cases "tl s'"; cases "tl (tl s')") (auto simp: utf8_size_def split: if_splits)
  qed (use assms s in \<open>auto simp: utf8_size_def\<close>)
qed

lemma rune_count_unit:
  assumes "utf8_size (u @ t) = length u" "u \<noteq> []"
  shows "rune_count (u @ t) = Suc (rune_count t)"
  using assms by (simp add: rune_count.simps [of "u @ t"] max_def Suc_leI)

lemma rune_count_replacement: "rune_count ([CHR 0xEF, CHR 0xBF, CHR 0xBD] @ t) = Suc (rune_count t)"
  by (rule rune_count_unit) (simp_all add: utf8_size_def second_ok_def cont_byte_def)

lemma rune_count_take_runes: "rune_count (take_runes n s @ t) \<le> n + rune_count t"
proof (induction n s rule: take_runes.induct)
  case (1 n s)
  show ?case
  proof (cases "n = 0 \<or> s = []")
    case True
    then show ?thesis by (auto simp: take_runes.simps [of n s])
  next
    case False
    let ?rest = "take_runes (n - 1) (drop (max 1 (utf8_size s)) s)"
    have ih: "rune_count (?rest @ t) \<le> n - 1 + rune_count t" using 1 False by simp
    have "rune_count (take_runes n s @ t) = Suc (rune_count (?rest @ t))"
    proof (cases "utf8_size s = 0")
      case True
      then show ?thesis
        using False rune_count_replacement [of "?rest @ t"] by (simp add: take_runes.simps [of n s])
    next
      case size: False
      have "utf8_size (take (utf8_size s) s @ ?rest @ t) = length (take (utf8_size s) s)"
        using utf8_size_prefix [OF refl size, of "?rest @ t"] by simp
      moreover have "take (utf8_size s) s \<noteq> []" using False size by simp
      ultimately show ?thesis
        using False size rune_count_unit [of "take (utf8_size s) s" "?rest @ t"] by (simp add: take_runes.simps [of n s])
    qed
    then show ?thesis using ih False by (cases n) auto
  qed
qed

text \<open>
  Every condition message the operator writes fits the API server's limit, whatever it was made
  from, invalid UTF-8 included: bounding leaves at most 32768 runes, leaves a message that fits as it
  is, and changes nothing else of a condition.
\<close>

theorem boundConditionMessages_fit:
  "list_all (\<lambda>c. rune_count (c_Message c) \<le> ConditionMessageMax) (boundConditionMessages conds) \<and>
   map (\<lambda>c. (c_Type c, c_Status c, c_Reason c)) (boundConditionMessages conds) = map (\<lambda>c. (c_Type c, c_Status c, c_Reason c)) conds \<and>
   boundConditionMessages (filter (\<lambda>c. rune_count (c_Message c) \<le> ConditionMessageMax) conds) =
     filter (\<lambda>c. rune_count (c_Message c) \<le> ConditionMessageMax) conds"
proof -
  have n: "rune_count conditionMessageTruncated \<le> ConditionMessageMax"
    by code_simp
  have fits: "rune_count (boundMessage m) \<le> ConditionMessageMax" for m
    using rune_count_take_runes [of "ConditionMessageMax - rune_count conditionMessageTruncated" m conditionMessageTruncated] n
    by (simp add: boundMessage_def)
  show ?thesis
    using fits by (simp add: boundConditionMessages_def list_all_iff comp_def)
      (auto simp: boundMessage_def intro!: map_idI)
qed

section \<open>What the switch promises\<close>

text \<open>
  C19. A revision becomes the active one in one branch of the rollout and no other: the active digest
  changes exactly when the wanted revision is another one, its workload is available, its gate is
  satisfied, and no authentication hold stands over a revision that serves. The candidate recorded is never the
  active revision, and the switch touches neither the eval record nor the authentication record, the
  cards or the Service records.
\<close>

theorem rollout_promotes_iff:
  fixes inp :: rollout_input and st :: AgentStatus and c :: conditionSet
  defines "st' \<equiv> fst (rollout inp (st, c))"
  shows "(st_ActiveRevisionDigest st' \<noteq> st_ActiveRevisionDigest st \<longleftrightarrow>
      ro_digest inp \<noteq> st_ActiveRevisionDigest st \<and> ro_ready inp \<and> gd_satisfied (ro_gate inp) \<and>
      (ro_authHold inp = [] \<or> st_ActiveRevision st = [])) \<and>
    (st_ActiveRevisionDigest st' \<noteq> st_ActiveRevisionDigest st) = (st_ActiveRevisionDigest st' = ro_digest inp \<and> st_ActiveRevisionDigest st \<noteq> ro_digest inp) \<and>
    (st_CandidateRevisionDigest st' = [] \<or> st_CandidateRevisionDigest st' = ro_digest inp \<and> st_ActiveRevisionDigest st' \<noteq> ro_digest inp) \<and>
    st_Eval st' = st_Eval st \<and> st_Auth st' = st_Auth st \<and> st_Cards st' = st_Cards st \<and> st_RevisionServices st' = st_RevisionServices st"
  unfolding st'_def
  by (auto simp: rollout_def branch_of_def promote_def not_available_def as_candidate_def no_candidate_def Let_def)

end
