(* ===== verification/Serving_Route.thy ===== *)
theory Serving_Route
  imports Rollout
begin

text \<open>
  The serving route (\<^verbatim>\<open>internal/controller/httproute.go\<close>): the HTTPRoute the operator renders for an Agent's
  active revision, whether an existing one is another Agent's, how it converges, and what of it is
  read and collected. A route may be published before its authentication policy is enforced only as a
  prepared route, one with no backend; an API-key route is never created published.
\<close>

abbreviation GatewayListenerName :: string where "GatewayListenerName \<equiv> ''http''"
abbreviation ServicePortName :: string where "ServicePortName \<equiv> ''a2a''"
abbreviation GatewayGroupName :: string where "GatewayGroupName \<equiv> ''gateway.networking.k8s.io''"

definition Hostname :: "GatewayConfig \<Rightarrow> string \<Rightarrow> string \<Rightarrow> string" where
  "Hostname g agentName agentNamespace = agentName @ ''.'' @ agentNamespace @ ''.'' @ gw_HostnameSuffix g"

record routePublication =
  rp_prepared :: bool
  rp_mode :: AuthMode

text \<open>The labels of \<^verbatim>\<open>compiler.RouteAuthLabels\<close>, as an association list.\<close>

definition route_labels :: "AuthMode \<Rightarrow> strmap \<Rightarrow> strmap" where
  "route_labels mode base = (if mode = AuthModeNone then alist_put LabelAuth AuthNoneValue base else alist_delete LabelAuth base)"

lemma route_labels_map: "map_of (route_labels mode base) = RouteAuthLabels mode (map_of base)"
  by (auto simp: route_labels_def RouteAuthLabels_def map_of_alist_put map_of_alist_delete fun_eq_iff)

definition serving_backend :: "Agent \<Rightarrow> string \<Rightarrow> int \<Rightarrow> RouteBackend" where
  "serving_backend agent rv servicePort = \<lparr> bk_Group = Some [], bk_Kind = Some ''Service'', bk_Name = WorkloadName (ag_Name agent) rv,
     bk_Namespace = None, bk_Port = Some servicePort, bk_Weight = Some 100, bk_Filters = [] \<rparr>"

definition servingRouteFor :: "GatewayConfig \<Rightarrow> Agent \<Rightarrow> string \<Rightarrow> string \<Rightarrow> string \<Rightarrow> int \<Rightarrow> routePublication \<Rightarrow> HTTPRoute" where
  "servingRouteFor g agent runNS rv name servicePort pub =
     \<lparr> hr_Meta = new_meta runNS name (route_labels (rp_mode pub) (revision_labels agent rv)) [],
       hr_Generation = 0,
       hr_ParentRefs = [\<lparr> pr_Group = Some GatewayGroupName, pr_Kind = Some ''Gateway'', pr_Namespace = Some (gw_Namespace g),
         pr_Name = gw_Name g, pr_SectionName = Some GatewayListenerName, pr_Port = None \<rparr>],
       hr_Hostnames = [Hostname g (ag_Name agent) (ag_Namespace agent)],
       hr_Rules = [\<lparr> ru_Name = None,
         ru_Matches = [\<lparr> rm_Path = Some (Some ''PathPrefix'', Some ''/''), rm_Headers = [], rm_QueryParams = [], rm_Method = None \<rparr>],
         ru_Filters = [],
         ru_BackendRefs = (if rp_prepared pub then [] else [serving_backend agent rv servicePort]),
         ru_Timeouts = None \<rparr>],
       hr_Parents = [] \<rparr>"

section \<open>Comparing routes\<close>

definition equalParentRef :: "RouteParentRef \<Rightarrow> RouteParentRef \<Rightarrow> bool" where
  "equalParentRef a b \<longleftrightarrow> pr_Name a = pr_Name b \<and> pr_Namespace a = pr_Namespace b \<and> pr_SectionName a = pr_SectionName b \<and>
     pr_Kind a = pr_Kind b \<and> pr_Group a = pr_Group b \<and> pr_Port a = pr_Port b"

definition equal_match :: "RouteMatch \<Rightarrow> RouteMatch \<Rightarrow> bool" where
  "equal_match a b \<longleftrightarrow> length (rm_Headers a) = length (rm_Headers b) \<and> length (rm_QueryParams a) = length (rm_QueryParams b) \<and>
     rm_Method a = rm_Method b \<and> rm_Path a = rm_Path b"

definition equalMatches :: "RouteMatch list \<Rightarrow> RouteMatch list \<Rightarrow> bool" where
  "equalMatches a b = list_all2 equal_match a b"

definition equal_backend :: "RouteBackend \<Rightarrow> RouteBackend \<Rightarrow> bool" where
  "equal_backend x y \<longleftrightarrow> length (bk_Filters x) = length (bk_Filters y) \<and> bk_Namespace x = bk_Namespace y \<and> bk_Name x = bk_Name y \<and>
     bk_Port x = bk_Port y \<and> bk_Weight x = bk_Weight y \<and> bk_Kind x = bk_Kind y \<and> bk_Group x = bk_Group y"

definition equal_rule :: "RouteRule \<Rightarrow> RouteRule \<Rightarrow> bool" where
  "equal_rule a b \<longleftrightarrow> length (ru_Filters a) = length (ru_Filters b) \<and> ru_Timeouts a = ru_Timeouts b \<and> ru_Name a = ru_Name b \<and>
     equalMatches (ru_Matches a) (ru_Matches b) \<and> list_all2 equal_backend (ru_BackendRefs a) (ru_BackendRefs b)"

definition equalRoute :: "HTTPRoute \<Rightarrow> HTTPRoute \<Rightarrow> bool" where
  "equalRoute a b \<longleftrightarrow>
     lbl (om_Annotations (hr_Meta a)) RevisionDigestAnnotation = lbl (om_Annotations (hr_Meta b)) RevisionDigestAnnotation \<and>
     list_all (\<lambda>(k, v). lbl (om_Labels (hr_Meta a)) k = v) (om_Labels (hr_Meta b)) \<and>
     (map_of (om_Labels (hr_Meta b)) LabelAuth = None \<longrightarrow> map_of (om_Labels (hr_Meta a)) LabelAuth = None) \<and>
     hr_Hostnames a = hr_Hostnames b \<and>
     list_all2 equalParentRef (hr_ParentRefs a) (hr_ParentRefs b) \<and>
     list_all2 equal_rule (hr_Rules a) (hr_Rules b)"

section \<open>Whose route it is\<close>

definition routeCollision :: "Agent \<Rightarrow> HTTPRoute \<Rightarrow> routeCollisionError option" where
  "routeCollision agent existing =
     (let l = om_Labels (hr_Meta existing) in
      case map_of l LabelAgentUID of
        None \<Rightarrow> None
      | Some uid \<Rightarrow>
        if uid = ag_UID agent then None
        else if lbl l LabelAgent = ag_Name agent \<and> lbl l LabelAgentNamespace = ag_Namespace agent then None
        else Some \<lparr> rc_name = om_Name (hr_Meta existing), rc_ns = om_Namespace (hr_Meta existing),
          rc_ownerNamespace = lbl l LabelAgentNamespace, rc_ownerAgent = lbl l LabelAgent,
          rc_claimantNamespace = ag_Namespace agent, rc_claimantAgent = ag_Name agent \<rparr>)"

text \<open>The serving route, if there is one: from the cache, or live.\<close>

definition read_route :: "bool \<Rightarrow> string \<Rightarrow> Agent \<Rightarrow> string \<Rightarrow> string \<Rightarrow> (go_error + HTTPRoute option) op" where
  "read_route live what agent runNS name =
     andThen (getObj live KHTTPRoute as_route runNS name) (\<lambda>got. Return (case got of
        Inl e \<Rightarrow> if IsNotFound e then Inr None else Inl (ApiFail (msgf what [name, runNS]) e)
      | Inr rt \<Rightarrow> (case routeCollision agent rt of Some c \<Rightarrow> Inl (RouteCollision c) | None \<Rightarrow> Inr (Some rt))))"

definition currentServingRoute :: "Agent \<Rightarrow> string \<Rightarrow> string \<Rightarrow> (go_error + HTTPRoute option) op" where
  "currentServingRoute agent runNS name = read_route False ''get route'' agent runNS name"

definition liveServingRoute :: "Agent \<Rightarrow> string \<Rightarrow> string \<Rightarrow> (go_error + HTTPRoute option) op" where
  "liveServingRoute agent runNS name = read_route True ''read route live'' agent runNS name"

definition routePublished :: "HTTPRoute \<Rightarrow> bool" where
  "routePublished rt \<longleftrightarrow> list_ex (\<lambda>ru. ru_BackendRefs ru \<noteq> []) (hr_Rules rt)"

text \<open>The view of a route the card and gate predicates have: its rules' backend names.\<close>

definition route_view :: "HTTPRoute \<Rightarrow> route" where
  "route_view rt = map (\<lambda>ru. map bk_Name (ru_BackendRefs ru)) (hr_Rules rt)"

section \<open>Converging it\<close>

definition servingBackendPort :: "Agent \<Rightarrow> string \<Rightarrow> string \<Rightarrow> (go_error + int) op" where
  "servingBackendPort agent runNS rv =
     (let name = WorkloadName (ag_Name agent) rv in
      andThen (getObj False KService as_service runNS name) (\<lambda>got. Return (case got of
         Inl e \<Rightarrow> Inl (ApiFail (msgf ''read the serving Service'' [runNS, name]) e)
       | Inr svc \<Rightarrow> (case find (\<lambda>p. sq_Name p = ServicePortName) (sv_Ports svc) of
           Some p \<Rightarrow> Inr (sq_Port p)
         | None \<Rightarrow> Inl (PlainError (msgf ''the serving Service publishes no such port'' [runNS, name, ServicePortName]))))))"

definition route_updated :: "HTTPRoute \<Rightarrow> string \<Rightarrow> HTTPRoute \<Rightarrow> HTTPRoute" where
  "route_updated desired digest existing = existing\<lparr>
     hr_Meta := stampDigest digest ((hr_Meta existing)\<lparr> om_Labels := om_Labels (hr_Meta desired) \<rparr>),
     hr_ParentRefs := hr_ParentRefs desired, hr_Hostnames := hr_Hostnames desired, hr_Rules := hr_Rules desired \<rparr>"

text \<open>The route as created (or rendered, where the create's answer is the rendered object), and whether it was created.\<close>

definition converge_route :: "Agent \<Rightarrow> string \<Rightarrow> string \<Rightarrow> routePublication \<Rightarrow> HTTPRoute \<Rightarrow> (go_error + HTTPRoute \<times> bool) op" where
  "converge_route agent runNS digest pub desired =
     (let name = om_Name (hr_Meta desired) in
      andThen (getObj False KHTTPRoute as_route runNS name) (\<lambda>got. case got of
         Inl e \<Rightarrow>
           if \<not> IsNotFound e then Return (Inl (ApiFail (msgf ''get route'' [name, runNS]) e))
           else if \<not> rp_prepared pub \<and> rp_mode pub = AuthModeAPIKey then Return (Inl RouteGone)
           else andThen (createObj as_route (ORoute desired)) (\<lambda>r. Return (case r of
              Inl e \<Rightarrow> Inl (if err_class e = EAlreadyExists then RouteRaceLost name e
                             else ApiFail (msgf ''create route'' [name, runNS]) e)
            | Inr rt \<Rightarrow> Inr (rt, True)))
       | Inr existing \<Rightarrow> (case routeCollision agent existing of
           Some c \<Rightarrow> Return (Inl (RouteCollision c))
         | None \<Rightarrow>
           let updated = route_updated desired digest existing in
           if equalRoute existing updated then Return (Inr (existing, False))
           else Ask (Update (ORoute updated)) (\<lambda>a. Return (case resp_obj as_route a of
              Inl e \<Rightarrow> Inl (ApiFail (msgf ''converge route'' [name, runNS]) e)
            | Inr rt \<Rightarrow> Inr (rt, False))))))"

definition desired_route :: "GatewayConfig \<Rightarrow> Agent \<Rightarrow> string \<Rightarrow> string \<Rightarrow> string \<Rightarrow> string \<Rightarrow> int \<Rightarrow> routePublication \<Rightarrow> HTTPRoute" where
  "desired_route g agent runNS rv digest name servicePort pub =
     (let d = servingRouteFor g agent runNS rv name servicePort pub in
      d\<lparr> hr_Meta := (hr_Meta d)\<lparr> om_Annotations := [(RevisionDigestAnnotation, digest)] \<rparr> \<rparr>)"

definition ensureServingRoute :: "GatewayConfig \<Rightarrow> Agent \<Rightarrow> string \<Rightarrow> string \<Rightarrow> string \<Rightarrow> string \<Rightarrow> routePublication
    \<Rightarrow> (go_error + HTTPRoute \<times> bool) op" where
  "ensureServingRoute g agent runNS rv digest name pub =
     tryThen (if rp_prepared pub then Return (Inr 0) else servingBackendPort agent runNS rv) (\<lambda>svcPort.
       converge_route agent runNS digest pub (desired_route g agent runNS rv digest name svcPort pub))"

text \<open>\<^verbatim>\<open>transientRouteWrite\<close>.\<close>

fun lost_race :: "go_error \<Rightarrow> bool" where
  "lost_race (RouteRaceLost _ _) = True"
| "lost_race (StaleAgent _) = True"
| "lost_race (GatewayError _ e) = lost_race e"
| "lost_race _ = False"

definition transientRouteWrite :: "go_error \<Rightarrow> bool" where
  "transientRouteWrite e \<longleftrightarrow> (case api_cause e of Some a \<Rightarrow> err_class a = EAlreadyExists \<or> IsConflict a | None \<Rightarrow> False) \<or> lost_race e"

section \<open>Collecting\<close>

definition listOwnedRoutes :: "bool \<Rightarrow> Agent \<Rightarrow> string \<Rightarrow> (go_error + HTTPRoute list) op" where
  "listOwnedRoutes live agent runNS = (case ServingRouteName (ag_Name agent) of
     Inl err \<Rightarrow> Return (Inl (PlainError err))
   | Inr name \<Rightarrow> tryThen (listOr (msgf ''list routes'' [ag_Namespace agent, ag_Name agent]) live KHTTPRoute as_route runNS
        [(LabelAgent, ag_Name agent)])
        (\<lambda>items. Return (Inr (filter (\<lambda>rt. lbl (om_Labels (hr_Meta rt)) LabelAgentUID = ag_UID agent \<and> om_Name (hr_Meta rt) = name) items))))"

definition ownedRoutes :: "Agent \<Rightarrow> string \<Rightarrow> (go_error + HTTPRoute list) op" where
  "ownedRoutes agent runNS = listOwnedRoutes False agent runNS"

definition collectRoutes :: "Agent \<Rightarrow> string \<Rightarrow> string \<Rightarrow> (go_error + unit) op" where
  "collectRoutes agent runNS keep = tryThen (ownedRoutes agent runNS) (forEach (\<lambda>rt.
     if om_Name (hr_Meta rt) = keep then Return (Inr ())
     else deleteGone (msgf ''gc route'' [om_Name (hr_Meta rt), runNS]) (ORoute rt)))"

section \<open>What converging a route promises\<close>

lemma resp_obj_route: "resp_obj as_route a = Inr rt \<longleftrightarrow> a = RObj (Inr (ORoute rt))"
  by (cases a) (auto simp: resp_obj_def as_route_def split: sum.splits kobj.splits)

definition route_backends :: "HTTPRoute \<Rightarrow> string list" where
  "route_backends rt = concat (route_view rt)"

lemma routePublished_backends: "routePublished rt \<longleftrightarrow> route_backends rt \<noteq> []"
  by (auto simp: routePublished_def route_backends_def route_view_def list_ex_iff)

lemma desired_route_sel [simp]:
  "om_Name (hr_Meta (desired_route g agent runNS rv digest name p pub)) = name"
  "om_Namespace (hr_Meta (desired_route g agent runNS rv digest name p pub)) = runNS"
  "route_backends (desired_route g agent runNS rv digest name p pub) = (if rp_prepared pub then [] else [WorkloadName (ag_Name agent) rv])"
  "om_Labels (hr_Meta (desired_route g agent runNS rv digest name p pub)) = route_labels (rp_mode pub) (revision_labels agent rv)"
  "hr_Rules (route_updated d digest x) = hr_Rules d"
  by (simp_all add: desired_route_def servingRouteFor_def new_meta_def Let_def route_backends_def route_view_def serving_backend_def
      route_updated_def)

text \<open>
  The requests: a create carries no backend, or is not of an API-key route; an update is of a route
  just read at the name that is not another Agent's, and carries the rendered rules; a published route
  names the port the revision's own Service publishes; nothing is deleted.
\<close>

definition port_read :: "exchange list \<Rightarrow> string \<Rightarrow> string \<Rightarrow> int \<Rightarrow> bool" where
  "port_read h runNS svcName p \<longleftrightarrow> (\<exists>svc q. (Get False KService runNS svcName, RObj (Inr (OService svc))) \<in> set h \<and>
     q \<in> set (sv_Ports svc) \<and> sq_Name q = ServicePortName \<and> sq_Port q = p)"

definition rendered :: "GatewayConfig \<Rightarrow> Agent \<Rightarrow> string \<Rightarrow> string \<Rightarrow> string \<Rightarrow> string \<Rightarrow> routePublication \<Rightarrow> exchange list \<Rightarrow> HTTPRoute \<Rightarrow> bool" where
  "rendered g agent runNS rv digest name pub h d \<longleftrightarrow> (\<exists>p. d = desired_route g agent runNS rv digest name p pub \<and>
     (rp_prepared pub \<or> port_read h runNS (WorkloadName (ag_Name agent) rv) p))"

definition route_request :: "GatewayConfig \<Rightarrow> Agent \<Rightarrow> string \<Rightarrow> string \<Rightarrow> string \<Rightarrow> string \<Rightarrow> routePublication \<Rightarrow> exchange list \<Rightarrow> req \<Rightarrow> bool" where
  "route_request g agent runNS rv digest name pub h r = (case r of
     Get live k ns n \<Rightarrow> ns = runNS \<and> k \<in> {KService, KHTTPRoute}
   | Create (ORoute d) \<Rightarrow> rendered g agent runNS rv digest name pub h d \<and> (rp_mode pub = AuthModeAPIKey \<longrightarrow> \<not> routePublished d)
   | Update (ORoute x) \<Rightarrow> (\<exists>d existing. rendered g agent runNS rv digest name pub h d \<and>
       (Get False KHTTPRoute runNS name, RObj (Inr (ORoute existing))) \<in> set h \<and> routeCollision agent existing = None \<and>
       x = route_updated d digest existing)
   | _ \<Rightarrow> False)"

lemma rendered_append: "rendered g agent runNS rv digest name pub h d \<Longrightarrow> rendered g agent runNS rv digest name pub (h @ t) d"
  by (fastforce simp: rendered_def port_read_def)

lemma converge_route_wp:
  assumes "rendered g agent runNS rv digest name pub h d"
  shows "op_wp (route_request g agent runNS rv digest name pub) (\<lambda>_ _. True) h (converge_route agent runNS digest pub d)"
proof -
  have name: "om_Name (hr_Meta d) = name" and pub: "rp_prepared pub \<Longrightarrow> \<not> routePublished d"
    using assms by (auto simp: rendered_def routePublished_backends)
  note keep = rendered_append [OF assms]
  show ?thesis
    unfolding converge_route_def Let_def name
    using keep pub
    by (auto simp: wp_rules route_request_def resp_obj_route split: sum.split option.split)
qed

lemma ensureServingRoute_wp:
  "op_wp (route_request g agent runNS rv digest name pub) (\<lambda>_ _. True) h (ensureServingRoute g agent runNS rv digest name pub)"
proof -
  let ?d = "\<lambda>p. desired_route g agent runNS rv digest name p pub"
  have prep: "rp_prepared pub \<Longrightarrow> op_wp (route_request g agent runNS rv digest name pub) (\<lambda>_ _. True) h
      (converge_route agent runNS digest pub (?d 0))"
    by (rule converge_route_wp) (auto simp: rendered_def)
  have serve: "op_wp (route_request g agent runNS rv digest name pub) (\<lambda>_ _. True)
      (h @ [(Get False KService runNS (WorkloadName (ag_Name agent) rv), RObj (Inr (OService svc)))])
      (converge_route agent runNS digest pub (?d (sq_Port q)))"
    if "find (\<lambda>p. sq_Name p = ServicePortName) (sv_Ports svc) = Some q" for svc q
  proof (rule converge_route_wp)
    have "q \<in> set (sv_Ports svc)" "sq_Name q = ServicePortName" using that by (auto simp: find_Some_iff)
    then show "rendered g agent runNS rv digest name pub
        (h @ [(Get False KService runNS (WorkloadName (ag_Name agent) rv), RObj (Inr (OService svc)))]) (?d (sq_Port q))"
      unfolding rendered_def port_read_def by (intro exI [of _ "sq_Port q"]) auto
  qed
  show ?thesis
  proof (cases "rp_prepared pub")
    case True
    then show ?thesis using prep by (simp add: ensureServingRoute_def op_wp_tryThen)
  next
    case False
    then show ?thesis
      by (auto simp: ensureServingRoute_def op_wp_tryThen servingBackendPort_def Let_def op_wp_andThen op_wp_requests_typed
          route_request_def resp_obj_service intro!: serve split: sum.split option.split)
  qed
qed

text \<open>
  C20. Publishing a route. Whatever the API server answers, ensuring an Agent's serving route creates
  an API-key route only without a backend, so that no request reaches the Agent before its policy is
  enforced; rewrites a route at the name only if it is not labelled as another Agent's, and only into the rendered
  one; names as backend only the wanted revision's Service, on the port that Service was read to
  publish; and deletes nothing.
\<close>

theorem ensureServingRoute_publishes_safely:
  "op_wp (route_request g agent runNS rv digest name pub) (\<lambda>_ _. True) [] (ensureServingRoute g agent runNS rv digest name pub)"
  by (rule ensureServingRoute_wp)

text \<open>
  What a route carries of the rendering, and the comparison that decides whether to write: against a
  rendered route it is exact, although it looks only at how many filters and matches there are.
\<close>

definition carries :: "HTTPRoute \<Rightarrow> string \<Rightarrow> HTTPRoute \<Rightarrow> bool" where
  "carries d digest rt \<longleftrightarrow> lbl (om_Annotations (hr_Meta rt)) RevisionDigestAnnotation = digest \<and>
     list_all (\<lambda>(k, v). lbl (om_Labels (hr_Meta rt)) k = v) (om_Labels (hr_Meta d)) \<and>
     (map_of (om_Labels (hr_Meta d)) LabelAuth = None \<longrightarrow> map_of (om_Labels (hr_Meta rt)) LabelAuth = None) \<and>
     hr_Hostnames rt = hr_Hostnames d \<and> hr_ParentRefs rt = hr_ParentRefs d \<and> hr_Rules rt = hr_Rules d"

lemma equalParentRef_eq: "equalParentRef = (=)"
  by (auto simp: equalParentRef_def fun_eq_iff)

lemma equal_rendered:
  "rm_Headers n = [] \<Longrightarrow> rm_QueryParams n = [] \<Longrightarrow> equal_match m n = (m = n)"
  "bk_Filters y = [] \<Longrightarrow> equal_backend x y = (x = y)"
  by (auto simp: equal_match_def equal_backend_def)

lemma list_all2_rendered:
  assumes "\<And>x y. y \<in> set ys \<Longrightarrow> P x y = (x = y)"
  shows "list_all2 P xs ys = (xs = ys)"
  using assms by (induction ys arbitrary: xs) (auto simp: list_all2_Cons2)

lemma equal_rule_rendered:
  assumes "ru_Filters b = []" "\<forall>m \<in> set (ru_Matches b). rm_Headers m = [] \<and> rm_QueryParams m = []"
    "\<forall>y \<in> set (ru_BackendRefs b). bk_Filters y = []"
  shows "equal_rule a b = (a = b)"
proof -
  have "equalMatches (ru_Matches a) (ru_Matches b) = (ru_Matches a = ru_Matches b)"
    unfolding equalMatches_def using assms(2) by (intro list_all2_rendered) (simp add: equal_rendered)
  moreover have "list_all2 equal_backend (ru_BackendRefs a) (ru_BackendRefs b) = (ru_BackendRefs a = ru_BackendRefs b)"
    using assms(3) by (intro list_all2_rendered) (simp add: equal_rendered)
  ultimately show ?thesis using assms(1) by (auto simp: equal_rule_def)
qed

text \<open>
  The hand-written comparison is exact: a converged route is left alone exactly when it already
  carries everything the operator renders - the digest, the labels, no authentication label where none
  is wanted, the parents, the host names and the rules - so a drift in any of them is repaired and
  nothing else causes a write.
\<close>

theorem equalRoute_exact:
  "equalRoute rt (route_updated (desired_route g agent runNS rv digest name p pub) digest rt) =
   carries (desired_route g agent runNS rv digest name p pub) digest rt"
proof -
  let ?d = "desired_route g agent runNS rv digest name p pub"
  have rules: "list_all2 equal_rule (hr_Rules rt) (hr_Rules ?d) = (hr_Rules rt = hr_Rules ?d)"
    by (intro list_all2_rendered equal_rule_rendered)
       (auto simp: desired_route_def servingRouteFor_def Let_def serving_backend_def split: if_splits)
  show ?thesis
    by (simp add: equalRoute_def carries_def rules [symmetric] equalParentRef_eq list.rel_eq)
       (auto simp: route_updated_def)
qed

end
