(* ===== verification/Go_Text.thy ===== *)
theory Go_Text
  imports Go_Json
begin

text \<open>
  What the code uses of \<^verbatim>\<open>strings\<close> and \<^verbatim>\<open>strconv\<close> besides prefixes and joins: splitting at a byte, searching,
  replacing every occurrence, trimming white space, and reading decimal numbers.
\<close>

section \<open>Splitting and cutting\<close>

fun split_on :: "char \<Rightarrow> string \<Rightarrow> string list" where
  "split_on d [] = [[]]"
| "split_on d (x # xs) = (if x = d then [] # split_on d xs else (case split_on d xs of [] \<Rightarrow> [[x]] | p # ps \<Rightarrow> (x # p) # ps))"

definition cut_before :: "char \<Rightarrow> string \<Rightarrow> string" where
  "cut_before d s = takeWhile (\<lambda>x. x \<noteq> d) s"

definition trim_prefix :: "string \<Rightarrow> string \<Rightarrow> string" where
  "trim_prefix p s = (if has_prefix s p then drop (length p) s else s)"

lemma split_on_nonempty [simp]: "split_on d s \<noteq> []"
  by (induction s) (auto split: list.split)

lemma join_split_on: "join [d] (split_on d s) = s"
proof (induction s)
  case (Cons x s)
  obtain p ps where "split_on d s = p # ps" using split_on_nonempty by (metis neq_Nil_conv)
  with Cons show ?case by (cases ps) auto
qed (simp add: join_def)

lemma split_on_plain [simp]: "d \<notin> set s \<Longrightarrow> split_on d s = [s]"
  by (induction s) auto

lemma split_on_append: "d \<notin> set a \<Longrightarrow> split_on d (a @ d # s) = a # split_on d s"
  by (induction a) auto

lemma split_on_parts: "p \<in> set (split_on d s) \<Longrightarrow> d \<notin> set p"
  by (induction s arbitrary: p) (auto split: list.splits if_splits)

lemma split_on_join: "ps \<noteq> [] \<Longrightarrow> \<forall>p \<in> set ps. d \<notin> set p \<Longrightarrow> split_on d (join [d] ps) = ps"
proof (induction ps)
  case (Cons p ps)
  then show ?case by (cases ps) (auto simp: split_on_append)
qed simp

section \<open>Searching\<close>

text \<open>\<^verbatim>\<open>strings.Index\<close>: where the first occurrence begins.\<close>

fun str_index :: "string \<Rightarrow> string \<Rightarrow> nat option" where
  "str_index s p = (if has_prefix s p then Some 0 else case s of [] \<Rightarrow> None | _ # s' \<Rightarrow> map_option Suc (str_index s' p))"

declare str_index.simps [simp del]

lemma str_index_None: "str_index s p = None \<longleftrightarrow> \<not> str_contains s p"
  by (induction s p rule: str_index.induct) (subst str_index.simps, subst str_contains.simps, auto split: list.splits)

lemma str_index_Some:
  "str_index s p = Some n \<Longrightarrow> \<exists>u v. s = u @ p @ v \<and> length u = n \<and> (\<forall>u' v'. s = u' @ p @ v' \<longrightarrow> n \<le> length u')"
proof (induction s p arbitrary: n rule: str_index.induct)
  case (1 s p)
  show ?case
  proof (cases "has_prefix s p")
    case True
    then show ?thesis using 1(2) by (subst (asm) str_index.simps) (auto simp: has_prefix_iff)
  next
    case False
    then obtain c s' m where s: "s = c # s'" "str_index s' p = Some m" "n = Suc m"
      using 1(2) by (subst (asm) str_index.simps) (auto split: list.splits)
    obtain u v where uv: "s' = u @ p @ v" "length u = m" "\<forall>u' v'. s' = u' @ p @ v' \<longrightarrow> m \<le> length u'"
      using 1(1) [OF False s(1,2)] by blast
    have "n \<le> length u'" if "s = u' @ p @ v'" for u' v'
      using that False s uv(3) by (cases u') (auto simp: has_prefix_iff)
    then show ?thesis using s uv by (intro exI [of _ "c # u"] exI [of _ v]) auto
  qed
qed

lemma str_index_eq:
  assumes "s = u @ p @ v" "\<And>u' v'. s = u' @ p @ v' \<Longrightarrow> length u \<le> length u'"
  shows "str_index s p = Some (length u)"
proof -
  have "str_index s p \<noteq> None" using assms(1) by (auto simp: str_index_None str_contains_iff)
  then obtain n where n: "str_index s p = Some n" by blast
  with str_index_Some [OF n] assms show ?thesis by (metis le_antisym option.inject)
qed

section \<open>Replacing\<close>

text \<open>\<^verbatim>\<open>strings.ReplaceAll\<close> of a text that is not empty, from the left.\<close>

function replace_all :: "string \<Rightarrow> string \<Rightarrow> string \<Rightarrow> string" where
  "replace_all old new s = (case s of [] \<Rightarrow> []
     | c # s' \<Rightarrow> if old \<noteq> [] \<and> has_prefix s old then new @ replace_all old new (drop (length old) s) else c # replace_all old new s')"
  by auto
termination
  by (relation "measure (\<lambda>(_, _, s). length s)") auto

declare replace_all.simps [simp del]

lemma replace_all_Nil [simp]: "replace_all old new [] = []"
  by (simp add: replace_all.simps)

lemma replace_all_byte: "replace_all [c] new s = concat (map (\<lambda>x. if x = c then new else [x]) s)"
  by (induction s) (subst replace_all.simps, simp add: has_prefix_def)+

lemma replace_all_hit: "old \<noteq> [] \<Longrightarrow> replace_all old new (old @ s) = new @ replace_all old new s"
  by (cases old; subst replace_all.simps; simp add: has_prefix_def)

lemma replace_all_miss: "\<not> has_prefix (c # s) old \<Longrightarrow> replace_all old new (c # s) = c # replace_all old new s"
  by (subst replace_all.simps) simp

section \<open>White space\<close>

text \<open>
  The white space \<^verbatim>\<open>strings.TrimSpace\<close> trims, as UTF-8: a byte, U+0085 and U+00A0, and the ones of three bytes.
\<close>

definition space_bytes :: "nat list list" where
  "space_bytes = [[9], [10], [11], [12], [13], [32], [0xC2, 0x85], [0xC2, 0xA0], [0xE1, 0x9A, 0x80],
     [0xE2, 0x80, 0x80], [0xE2, 0x80, 0x81], [0xE2, 0x80, 0x82], [0xE2, 0x80, 0x83], [0xE2, 0x80, 0x84], [0xE2, 0x80, 0x85],
     [0xE2, 0x80, 0x86], [0xE2, 0x80, 0x87], [0xE2, 0x80, 0x88], [0xE2, 0x80, 0x89], [0xE2, 0x80, 0x8A],
     [0xE2, 0x80, 0xA8], [0xE2, 0x80, 0xA9], [0xE2, 0x80, 0xAF], [0xE2, 0x81, 0x9F], [0xE3, 0x80, 0x80]]"

definition spaces :: "string list" where
  "spaces = map (map char_of) space_bytes"

definition leading_space :: "string \<Rightarrow> nat" where
  "leading_space s = (case find (has_prefix s) spaces of None \<Rightarrow> 0 | Some w \<Rightarrow> length w)"

definition trailing_space :: "string \<Rightarrow> nat" where
  "trailing_space s = (case find (has_suffix s) spaces of None \<Rightarrow> 0 | Some w \<Rightarrow> length w)"

function trim_left_space :: "string \<Rightarrow> string" where
  "trim_left_space s = (if s = [] \<or> leading_space s = 0 then s else trim_left_space (drop (leading_space s) s))"
  by auto
termination
  by (relation "measure length") auto

function trim_right_space :: "string \<Rightarrow> string" where
  "trim_right_space s = (if s = [] \<or> trailing_space s = 0 then s else trim_right_space (take (length s - trailing_space s) s))"
  by auto
termination
  by (relation "measure length") auto

declare trim_left_space.simps [simp del] trim_right_space.simps [simp del]

definition trim_space :: "string \<Rightarrow> string" where
  "trim_space s = trim_right_space (trim_left_space s)"

section \<open>Numbers\<close>

text \<open>\<^verbatim>\<open>strconv.Atoi\<close>: an optional sign and decimal digits, in the range of an int of 64 bits.\<close>

definition Atoi :: "string \<Rightarrow> int option" where
  "Atoi s =
     (let (negative, ds) = (case s of c # t \<Rightarrow> if c = CHR ''-'' then (True, t) else if c = CHR ''+'' then (False, t) else (False, s)
                            | [] \<Rightarrow> (False, [])) in
      if ds = [] \<or> \<not> list_all is_digit ds then None
      else let n = (if negative then - int (undec ds) else int (undec ds)) in
        if n < - (2 ^ 63) \<or> n \<ge> 2 ^ 63 then None else Some n)"

lemma Atoi_dec: "n < 2 ^ 63 \<Longrightarrow> Atoi (dec n) = Some (int n)"
proof -
  assume n: "n < 2 ^ 63"
  have digits: "\<forall>c \<in> set (dec n). is_digit c" by (blast intro: dec_digits)
  obtain c t where ct: "dec n = c # t" by (meson dec_nonempty neq_Nil_conv)
  then have "is_digit c" using digits by simp
  then have "c \<noteq> CHR ''-''" "c \<noteq> CHR ''+''" by (auto simp: is_digit_def)
  moreover have "int n < 2 ^ 63" using n by simp
  ultimately show ?thesis
    using digits undec_dec [of n] ct by (simp add: Atoi_def list_all_iff)
qed

end
