(* ===== verification/Gateway_Reads.thy ===== *)
theory Gateway_Reads
  imports Serving_Route Go_Text
begin

text \<open>
  What the operator reads of the gateway: which traffic policies on the Gateway could answer for an
  Agent's route (\<^verbatim>\<open>authabove.go\<close>), which policies in the run namespace target the route and are not the
  operator's (\<^verbatim>\<open>authforeign.go\<close>), whether the gateway rejected a policy since it was written
  (\<^verbatim>\<open>authnack.go\<close>, with \<^verbatim>\<open>NackedPolicies\<close> and \<^verbatim>\<open>nackToAgents\<close> of \<^verbatim>\<open>gatewaywiring.go\<close>), what an anonymous
  request through it is answered (\<^verbatim>\<open>authprobe.go\<close>), and whether its controller reports the route and the
  policy converged (the end of \<^verbatim>\<open>authtxn.go\<close>).

  A policy is unstructured JSON, read by path as \<^verbatim>\<open>unstructured\<close> reads it. The parser of the serving URL
  and the decoder of an event's message are arguments. The paged list of policies runs until the
  server gives no continuation; \<open>ge_pages\<close> bounds it, and a list within the bound does not depend on
  it (\<open>list_pages_enough\<close>).
\<close>

record gateway_env =
  ge_pages :: nat
  ge_parseURL :: "string \<Rightarrow> string + string \<times> string"
  ge_decodeNack :: "string \<Rightarrow> string list option"
  ge_nackPageSize :: int
  ge_nackMaxPages :: int

section \<open>Reading unstructured objects\<close>

fun nested_at :: "string list \<Rightarrow> json \<Rightarrow> json option" where
  "nested_at [] j = Some j"
| "nested_at (k # ks) j = (case json_field k j of None \<Rightarrow> None | Some v \<Rightarrow> nested_at ks v)"

definition nested_slice :: "string list \<Rightarrow> json \<Rightarrow> json list" where
  "nested_slice path j = (case nested_at path j of Some (JArr xs) \<Rightarrow> xs | _ \<Rightarrow> [])"

definition nested_members :: "json option \<Rightarrow> (string \<times> json) list" where
  "nested_members v = (case v of Some (JObj ms) \<Rightarrow> ms | _ \<Rightarrow> [])"

definition str_at :: "string \<Rightarrow> json \<Rightarrow> string" where
  "str_at k j = nested_str (json_field k j)"

definition is_str :: "json \<Rightarrow> bool" where
  "is_str v \<longleftrightarrow> (case v of JStr _ \<Rightarrow> True | _ \<Rightarrow> False)"

definition pl_Name :: "PolicyObject \<Rightarrow> string" where
  "pl_Name p = nested_str (nested_at [''metadata'', ''name''] (pl_Object p))"

definition pl_Namespace :: "PolicyObject \<Rightarrow> string" where
  "pl_Namespace p = nested_str (nested_at [''metadata'', ''namespace''] (pl_Object p))"

text \<open>\<^verbatim>\<open>GetLabels\<close>: nothing if one of the labels is not a string.\<close>

definition json_labels :: "json \<Rightarrow> strmap" where
  "json_labels j = (let ms = nested_members (nested_at [''metadata'', ''labels''] j) in
     if list_all (is_str \<circ> snd) ms then map (\<lambda>(k, v). (k, nested_str (Some v))) ms else [])"

abbreviation pl_Labels :: "PolicyObject \<Rightarrow> strmap" where "pl_Labels p \<equiv> json_labels (pl_Object p)"

section \<open>Policies above the route\<close>

definition harmlessPolicyFields :: "string list" where
  "harmlessPolicyFields = [''traffic.buffer'', ''traffic.cors'', ''traffic.csrf'', ''traffic.delay'', ''traffic.hostRewrite'',
     ''traffic.phase'', ''traffic.retry'', ''traffic.timeouts'', ''backend.ai'', ''backend.health'', ''backend.http'', ''backend.mcp'',
     ''backend.tcp'', ''backend.tls'', ''frontend.accessLog'', ''frontend.connect'', ''frontend.http'', ''frontend.metrics'',
     ''frontend.networkAuthorization'', ''frontend.proxyProtocol'', ''frontend.tcp'', ''frontend.tls'', ''frontend.tracing'']"

definition authenticationFields :: "string list" where
  "authenticationFields = [''traffic.apiKeyAuthentication'', ''traffic.basicAuthentication'', ''traffic.jwtAuthentication'']"

text \<open>One field: whether it counts, whether it widens, and whether it moves the policy before routing.\<close>

definition field_effect :: "string \<Rightarrow> json \<Rightarrow> bool \<times> bool \<times> bool" where
  "field_effect key fv =
     (let s = nested_str (Some fv) in
      if key = ''strategy.inheritance'' then (let b = (s \<noteq> ''Default'' \<and> s \<noteq> []) in (b, b, False))
      else if key = ''traffic.phase'' then (False, False, s \<noteq> ''PostRouting'' \<and> s \<noteq> [])
      else if key \<in> set harmlessPolicyFields then (False, False, False)
      else (True, key \<notin> set authenticationFields, False))"

definition section_effects :: "string \<Rightarrow> json \<Rightarrow> (bool \<times> bool \<times> bool) list" where
  "section_effects sec v =
     (if sec = ''targetRefs'' \<or> sec = ''targetSelectors'' then []
      else case v of JObj flds \<Rightarrow> map (\<lambda>(f, fv). field_effect (sec @ ''.'' @ f) fv) flds
           | _ \<Rightarrow> [(True, True, False)])"

definition classifyPolicy :: "json \<Rightarrow> bool \<times> bool" where
  "classifyPolicy p =
     (let es = concat (map (\<lambda>(sec, v). section_effects sec v) (nested_members (nested_at [''spec''] p)));
          counts = list_ex fst es in
      (counts, list_ex (fst \<circ> snd) es \<or> counts \<and> list_ex (snd \<circ> snd) es))"

definition hostMatches :: "string \<Rightarrow> string \<Rightarrow> bool" where
  "hostMatches pattern host \<longleftrightarrow> pattern = [] \<or> pattern = host \<or>
     (case pattern of CHR ''*'' # rest \<Rightarrow> has_suffix host rest \<and> length host > length rest | _ \<Rightarrow> False)"

definition capturingListeners :: "Gateway \<Rightarrow> string \<Rightarrow> string list" where
  "capturingListeners g host =
     (let prt = foldl (\<lambda>acc l. if gl_Name l = GatewayListenerName then gl_Port l else acc) 0 (gy_Listeners g) in
      GatewayListenerName # map gl_Name (filter (\<lambda>l. prt \<noteq> 0 \<and> gl_Port l = prt \<and>
        (case gl_Hostname l of None \<Rightarrow> True | Some hn \<Rightarrow> hostMatches hn host)) (gy_Listeners g)))"

definition isGatewayRef :: "json \<Rightarrow> bool" where
  "isGatewayRef m \<longleftrightarrow> str_at ''kind'' m = ''Gateway'' \<and> (str_at ''group'' m = GatewayGroupName \<or> str_at ''group'' m = [])"

definition isHTTPRouteRef :: "json \<Rightarrow> bool" where
  "isHTTPRouteRef m \<longleftrightarrow> str_at ''kind'' m = ''HTTPRoute'' \<and> (str_at ''group'' m = GatewayGroupName \<or> str_at ''group'' m = [])"

definition labelsMatch :: "(string \<times> json) list \<Rightarrow> strmap \<Rightarrow> bool" where
  "labelsMatch want have \<longleftrightarrow> list_all (\<lambda>(k, v). lbl have k = nested_str (Some v)) want"

definition targetsGateway :: "json \<Rightarrow> string \<Rightarrow> strmap \<Rightarrow> string list \<Rightarrow> bool \<Rightarrow> bool" where
  "targetsGateway p gwName gwLabels capture isKnown =
     (let on = (\<lambda>m. let s = str_at ''sectionName'' m in s = [] \<or> \<not> isKnown \<or> s \<in> set capture) in
      list_ex (\<lambda>m. isGatewayRef m \<and> str_at ''name'' m = gwName \<and> on m) (nested_slice [''spec'', ''targetRefs''] p) \<or>
      list_ex (\<lambda>m. isGatewayRef m \<and> on m \<and> (\<not> isKnown \<or> labelsMatch (nested_members (json_field ''matchLabels'' m)) gwLabels))
        (nested_slice [''spec'', ''targetSelectors''] p))"

definition admitsListenerSets :: "Gateway \<Rightarrow> string" where
  "admitsListenerSets g = (case gy_AllowedListenersFrom g of None \<Rightarrow> [] | Some f \<Rightarrow> if f = ''None'' then [] else f)"

definition joinCauses :: "string \<Rightarrow> string \<Rightarrow> string" where
  "joinCauses a b = (if a = [] then b else a @ ''; and '' @ b)"

text \<open>The paged list of the policies of a namespace.\<close>

definition pages_exhausted :: api_error where
  "pages_exhausted = \<lparr> err_class = EOther, err_text = ''the list has more pages than are modelled'', err_nsTerminating = False \<rparr>"

definition resp_policies :: "resp \<Rightarrow> api_error + PolicyObject list \<times> string" where
  "resp_policies a = (case a of RPolicies x \<Rightarrow> x | _ \<Rightarrow> Inl decode_error)"

fun list_pages :: "nat \<Rightarrow> string \<Rightarrow> string \<Rightarrow> PolicyObject list \<Rightarrow> (api_error + PolicyObject list) op" where
  "list_pages 0 ns cont items = Return (Inl pages_exhausted)"
| "list_pages (Suc n) ns cont items = Ask (ListPolicies ns cont) (\<lambda>a. case resp_policies a of
     Inl e \<Rightarrow> Return (Inl e)
   | Inr (page, cont') \<Rightarrow> if cont' = [] then Return (Inr (items @ page)) else list_pages n ns cont' (items @ page))"

definition listPolicies :: "nat \<Rightarrow> string \<Rightarrow> bool \<Rightarrow> (api_error + PolicyObject list) op" where
  "listPolicies pages ns notServedIsEmpty = andThen (list_pages pages ns [] []) (\<lambda>r. Return (case r of
     Inl e \<Rightarrow> if notServedIsEmpty \<and> IsNotFound e then Inr [] else Inl e
   | Inr items \<Rightarrow> Inr items))"

definition no_gatewayAuth :: gatewayAuth where
  "no_gatewayAuth = \<lparr> ga_policies = [], ga_widening = [], ga_unlisted = False, ga_gatewayErr = None, ga_listErr = None,
     ga_listeners = [], ga_unreadable = [] \<rparr>"

definition gateway_unreadable :: "GatewayConfig \<Rightarrow> api_error \<Rightarrow> string" where
  "gateway_unreadable gw e =
     (let at = [gw_Namespace gw, gw_Name gw] in
      (if err_class e = ENoMatch then msgf ''the Gateway API is not served'' at
       else if IsNotFound e then msgf ''the Gateway does not exist'' at
       else if IsForbidden e then msgf ''the operator may not read the Gateway'' (at @ [err_text e])
       else msgf ''the Gateway could not be read'' (at @ [err_text e])) @ '', so its listeners, labels and allowedListeners are unknown'')"

definition policy_key :: "PolicyObject \<Rightarrow> string" where
  "policy_key p = pl_Namespace p @ ''/'' @ pl_Name p"

definition gatewayAuthPolicies :: "gateway_env \<Rightarrow> GatewayConfig \<Rightarrow> string \<Rightarrow> gatewayAuth op" where
  "gatewayAuthPolicies env gw host =
     andThen (getObj True KGateway as_gateway (gw_Namespace gw) (gw_Name gw)) (\<lambda>got.
       let isKnown = \<not> isl got;
           base = (case got of
             Inl e \<Rightarrow> no_gatewayAuth\<lparr> ga_gatewayErr := Some e, ga_unreadable := gateway_unreadable gw e \<rparr>
           | Inr g \<Rightarrow> no_gatewayAuth\<lparr> ga_listeners := admitsListenerSets g \<rparr>) in
       andThen (listPolicies (ge_pages env) (gw_Namespace gw) False) (\<lambda>listed. Return (case listed of
         Inl e \<Rightarrow> base\<lparr> ga_unreadable := joinCauses (ga_unreadable base)
             (msgf ''the policies on the Gateway could not be listed'' [gw_Namespace gw, err_text e]),
           ga_unlisted := True, ga_listErr := Some e \<rparr>
       | Inr items \<Rightarrow>
         let capture = (case got of Inl _ \<Rightarrow> [] | Inr g \<Rightarrow> capturingListeners g host);
             lbls = (case got of Inl _ \<Rightarrow> [] | Inr g \<Rightarrow> gy_Labels g);
             ours = filter (\<lambda>p. fst (classifyPolicy (pl_Object p)) \<and> targetsGateway (pl_Object p) (gw_Name gw) lbls capture isKnown) items in
         base\<lparr> ga_policies := sort (map policy_key ours),
           ga_widening := sort (map policy_key (filter (\<lambda>p. snd (classifyPolicy (pl_Object p))) ours)) \<rparr>)))"

definition above_stands :: "gatewayAuth \<Rightarrow> bool" where
  "above_stands g \<longleftrightarrow> ga_policies g \<noteq> [] \<or> ga_listeners g \<noteq> [] \<or> ga_unreadable g \<noteq> []"

definition above_describe :: "gatewayAuth \<Rightarrow> GatewayConfig \<Rightarrow> string" where
  "above_describe g gw = join ''; and ''
     ((if ga_unreadable g \<noteq> [] then [ga_unreadable g] else []) @
      (if ga_policies g \<noteq> [] then [msgf ''a policy targets the Gateway'' [join '', '' (ga_policies g), gw_Namespace gw, gw_Name gw]] else []) @
      (if ga_listeners g \<noteq> [] then [msgf ''the Gateway admits ListenerSets'' [gw_Namespace gw, gw_Name gw, ga_listeners g]] else []))"

definition holdMessage :: "gatewayAuth \<Rightarrow> GatewayConfig \<Rightarrow> string \<Rightarrow> string \<Rightarrow> bool \<Rightarrow> string" where
  "holdMessage g gw runNS policy got401 =
     msgf (if got401 then ''the last anonymous probe got a 401, and it is not credited'' else ''no 401 is credited'')
       [runNS, policy, above_describe g gw]"

definition wideningMessage :: "gatewayAuth \<Rightarrow> GatewayConfig \<Rightarrow> string" where
  "wideningMessage g gw = msgf ''a policy on the Gateway may widen this route's -auth'' [join '', '' (ga_widening g), gw_Namespace gw, gw_Name gw,
     (if ga_unreadable g \<noteq> [] then ''on a listener that may take this Agent's traffic '' @ ga_unreadable g
      else ''on a listener that can take this Agent's traffic''), GatewayListenerName]"

definition unlistedMessage :: "gatewayAuth \<Rightarrow> string" where
  "unlistedMessage g = ga_unreadable g @ ''. So it cannot be ruled out that a policy on the Gateway widens this route's -auth''"

definition servedNote :: "gatewayAuth \<Rightarrow> GatewayConfig \<Rightarrow> string \<Rightarrow> string" where
  "servedNote g gw mode = msgf ''what would hold a new -auth transaction stands'' [above_describe g gw] @
     (if mode = AuthModeNone then ''. Its route carries no -auth'' else ''. No policy on the Gateway sets more than authentication alone'')"

section \<open>Foreign policies on the route\<close>

definition policyTargetsRoute :: "json \<Rightarrow> string \<Rightarrow> strmap \<Rightarrow> bool" where
  "policyTargetsRoute p rt labels \<longleftrightarrow>
     list_ex (\<lambda>m. isHTTPRouteRef m \<and> str_at ''name'' m = rt) (nested_slice [''spec'', ''targetRefs''] p) \<or>
     list_ex (\<lambda>m. isHTTPRouteRef m \<and> labelsMatch (nested_members (json_field ''matchLabels'' m)) labels) (nested_slice [''spec'', ''targetSelectors''] p)"

definition servingRouteLabels :: "Agent \<Rightarrow> string \<Rightarrow> string \<Rightarrow> (go_error + strmap) op" where
  "servingRouteLabels agent runNS rt = andThen (getObj False KHTTPRoute as_route runNS rt) (\<lambda>got. Return (case got of
     Inr r \<Rightarrow> Inr (om_Labels (hr_Meta r))
   | Inl e \<Rightarrow> if \<not> IsNotFound e then Inl (ApiFail (msgf ''get route'' [rt, runNS]) e)
       else Inr [(LabelAgent, ag_Name agent), (LabelAgentNamespace, ag_Namespace agent), (LabelAgentUID, ag_UID agent)]))"

definition foreign_policy :: "Agent \<Rightarrow> string \<Rightarrow> string \<Rightarrow> strmap \<Rightarrow> PolicyObject \<Rightarrow> bool" where
  "foreign_policy agent own rt labels p \<longleftrightarrow>
     \<not> (pl_Name p = own \<and> lbl (pl_Labels p) LabelAgentUID = ag_UID agent) \<and>
     nested_at [''spec'', ''traffic''] (pl_Object p) \<noteq> None \<and> policyTargetsRoute (pl_Object p) rt labels"

definition foreignTrafficPolicies :: "gateway_env \<Rightarrow> Agent \<Rightarrow> string \<Rightarrow> string \<Rightarrow> (go_error + string list) op" where
  "foreignTrafficPolicies env agent runNS rt = (case AuthPolicyName (ag_Name agent) of
     Inl err \<Rightarrow> Return (Inl (PlainError err))
   | Inr own \<Rightarrow> andThen (listPolicies (ge_pages env) runNS True) (\<lambda>listed. case listed of
       Inl e \<Rightarrow> Return (Inl (ApiFail (msgf ''list the policies to find a foreign traffic policy'' [runNS]) e))
     | Inr items \<Rightarrow>
       if items = [] then Return (Inr [])
       else tryThen (servingRouteLabels agent runNS rt) (\<lambda>labels.
         Return (Inr (sort (map policy_key (filter (foreign_policy agent own rt labels) items)))))))"

section \<open>Rejections by the gateway\<close>

abbreviation AgentgatewayControllerName :: string where "AgentgatewayControllerName \<equiv> ''agentgateway.dev/agentgateway''"
abbreviation NackEventReason :: string where "NackEventReason \<equiv> ''AgentGatewayNackError''"
abbreviation (input) maxNackedPolicies :: nat where "maxNackedPolicies \<equiv> 64"

text \<open>The policy a key names: its namespace and its name.\<close>

definition nacked_key :: "string \<Rightarrow> (string \<times> string) option" where
  "nacked_key key =
     (if \<not> has_prefix key ''policy/'' then None
      else case split_on (CHR ''/'') (cut_before (CHR '':'') (drop 7 key)) of
        [a, ns, name] \<Rightarrow> if a = [] \<or> ns = [] \<or> name = [] then None else Some (ns, name)
      | _ \<Rightarrow> None)"

definition NackedPolicies :: "(string \<Rightarrow> string list option) \<Rightarrow> string \<Rightarrow> (string \<times> string) list \<times> nat" where
  "NackedPolicies decode message = (case decode (trim_prefix ''(combined from similar events): '' message) of
     None \<Rightarrow> ([], 0)
   | Some keys \<Rightarrow> let found = rev (remdups (rev (List.map_filter nacked_key keys))) in
       (take maxNackedPolicies found, length found - maxNackedPolicies))"

text \<open>\<^verbatim>\<open>schema.ParseGroupVersion\<close>, its group: none of a version alone, an error of more than one slash.\<close>

definition api_group :: "string \<Rightarrow> string option" where
  "api_group v = (case split_on (CHR ''/'') v of [_] \<Rightarrow> Some [] | [g, _] \<Rightarrow> Some g | _ \<Rightarrow> None)"

definition GenuineNack :: "Event \<Rightarrow> GatewayConfig \<Rightarrow> bool" where
  "GenuineNack ev gw \<longleftrightarrow> ev_Kind ev = ''Warning'' \<and> ev_Reason ev = NackEventReason \<and> ev_Namespace ev = gw_Namespace gw \<and>
     api_group (ev_InvolvedAPIVersion ev) = Some GatewayGroupName \<and> ev_InvolvedKind ev = ''Gateway'' \<and>
     ev_InvolvedName ev = gw_Name gw \<and> ev_InvolvedNamespace ev = gw_Namespace gw \<and>
     ev_Component ev = AgentgatewayControllerName \<and> ev_ReportingController ev = AgentgatewayControllerName"

text \<open>Times that are not set are 0, before every time that is.\<close>

definition eventLastSeen :: "Event \<Rightarrow> go_time" where
  "eventLastSeen ev = foldl max 0 (ev_Times ev)"

definition policyWrittenAt :: "PolicyObject \<Rightarrow> go_time" where
  "policyWrittenAt p =
     (let at = foldl max 0 (List.map_filter (\<lambda>(sub, t). if sub = [] then t else None) (pl_ManagedFields p)) in
      if at = 0 then pl_CreationTimestamp p else at)"

definition nackPage :: "gateway_env \<Rightarrow> int" where
  "nackPage env = (if ge_nackPageSize env > 0 then ge_nackPageSize env else 100)"

definition nackPages :: "gateway_env \<Rightarrow> nat" where
  "nackPages env = (if ge_nackMaxPages env > 0 then nat (ge_nackMaxPages env) else 10)"

definition resp_events :: "resp \<Rightarrow> api_error + Event list \<times> string" where
  "resp_events a = (case a of REvents x \<Rightarrow> x | _ \<Rightarrow> Inl decode_error)"

text \<open>The events of at most so many pages, and the continuation that is left; nothing if a page fails.\<close>

fun event_pages :: "nat \<Rightarrow> int \<Rightarrow> string \<Rightarrow> string \<Rightarrow> Event list \<Rightarrow> ((Event list \<times> string) option) op" where
  "event_pages 0 psize ns cont evs = Return (Some (evs, cont))"
| "event_pages (Suc n) psize ns cont evs = Ask (ListEvents ns psize cont) (\<lambda>a. case resp_events a of
     Inl e \<Rightarrow> Return None
   | Inr (page, cont') \<Rightarrow> if cont' = [] then Return (Some (evs @ page, [])) else event_pages n psize ns cont' (evs @ page))"

text \<open>The latest genuine rejection of the policy after it was written; the first of those at one time.\<close>

definition newest_nack :: "(string \<Rightarrow> string list option) \<Rightarrow> GatewayConfig \<Rightarrow> string \<times> string \<Rightarrow> go_time \<Rightarrow> Event list \<Rightarrow> Event option \<times> go_time" where
  "newest_nack decode gw key written evs = foldl (\<lambda>(found, at) ev.
     let last = eventLastSeen ev in
     if GenuineNack ev gw \<and> last > written \<and> last > at \<and> key \<in> set (fst (NackedPolicies decode (ev_Message ev)))
     then (Some ev, last) else (found, at)) (None, 0) evs"

definition nack_detail :: "string \<Rightarrow> string" where
  "nack_detail m = (if length m > 512 then take 512 m @ [CHR 0xE2, CHR 0x80, CHR 0xA6] else m)"

definition freshNack :: "gateway_env \<Rightarrow> GatewayConfig \<Rightarrow> string \<Rightarrow> PolicyObject option \<Rightarrow> gatewayOutcome \<Rightarrow> (string \<times> gatewayOutcome) op" where
  "freshNack env gw runNS policy out = (case policy of
     None \<Rightarrow> Return ([], out)
   | Some p \<Rightarrow>
     if gw_Namespace gw = [] then Return ([], out)
     else andThen (event_pages (nackPages env) (nackPage env) (gw_Namespace gw) [] []) (\<lambda>got. case got of
        None \<Rightarrow> Return ([], out)
      | Some (evs, cont) \<Rightarrow>
        let out' = (if cont \<noteq> [] then out\<lparr> gw_nackNote := msgf ''. NACK Events past the first were not inspected'' [itoa (int (length evs))] \<rparr> else out) in
        Return (case newest_nack (ge_decodeNack env) gw (runNS, pl_Name p) (policyWrittenAt p) evs of
          (None, _) \<Rightarrow> ([], out')
        | (Some ev, at) \<Rightarrow> (msgf ''the gateway rejected the policy'' [runNS, pl_Name p, itoa at, ev_Namespace ev, ev_EventName ev, nack_detail (ev_Message ev)], out'))))"

text \<open>Which Agents an event concerns.\<close>

fun nacked_agents :: "(string \<times> string) list \<Rightarrow> (string \<times> string) list \<Rightarrow> ((string \<times> string) list) op" where
  "nacked_agents [] acc = Return acc"
| "nacked_agents ((ns, name) # keys) acc = andThen (getObj False KPolicy as_policy ns name) (\<lambda>got. case got of
     Inl e \<Rightarrow> nacked_agents keys acc
   | Inr p \<Rightarrow>
     let agent = (lbl (pl_Labels p) LabelAgentNamespace, lbl (pl_Labels p) LabelAgent) in
     if fst agent = [] \<or> snd agent = [] \<or> agent \<in> set acc then nacked_agents keys acc
     else nacked_agents keys (acc @ [agent]))"

definition nackToAgents :: "gateway_env \<Rightarrow> Event \<Rightarrow> ((string \<times> string) list) op" where
  "nackToAgents env ev = nacked_agents (fst (NackedPolicies (ge_decodeNack env) (ev_Message ev))) []"

section \<open>The probe\<close>

record AuthProbeAnswer =
  pa_Code :: int
  pa_CardDigest :: string

text \<open>
  \<^verbatim>\<open>url.URL.String\<close> for a scheme, a host and a path. The host is an address and a port, or one from a flag,
  which need no escape; a byte of the path outside the unreserved and path characters is escaped.
\<close>

definition path_char :: "char \<Rightarrow> bool" where
  "path_char ch \<longleftrightarrow> (ch \<in> set ''abcdefghijklmnopqrstuvwxyzABCDEFGHIJKLMNOPQRSTUVWXYZ0123456789-_.~$&+,/:;=@'')"

definition upper_hex :: "nat \<Rightarrow> char" where
  "upper_hex n = ''0123456789ABCDEF'' ! n"

definition path_escape :: "string \<Rightarrow> string" where
  "path_escape p = concat (map (\<lambda>ch. if path_char ch then [ch]
     else [CHR ''%'', upper_hex (of_char ch div 16), upper_hex (of_char ch mod 16)]) p)"

definition cardURL :: "string \<Rightarrow> string \<Rightarrow> string \<Rightarrow> string" where
  "cardURL scheme host path = scheme @ ''://'' @ host @
     (if path \<noteq> [] \<and> hd path \<noteq> CHR ''/'' then ''/'' else []) @ path_escape path"

definition probeURL :: "gateway_env \<Rightarrow> string \<Rightarrow> string \<Rightarrow> string + string" where
  "probeURL env servingURL path = (case ge_parseURL env servingURL of
     Inl e \<Rightarrow> Inl (msgf ''--gateway-serving-url'' [servingURL, e])
   | Inr (scheme, host) \<Rightarrow> Inr (cardURL scheme host path))"

abbreviation (input) cardBodyLimit :: nat where "cardBodyLimit \<equiv> 1048576"

definition http_probe :: "string \<Rightarrow> string \<Rightarrow> (string + AuthProbeAnswer) op" where
  "http_probe url host = Ask (HttpProbe url host) (\<lambda>a. Return (case a of
     RProbe (Inr (code, body)) \<Rightarrow> Inr \<lparr> pa_Code = code, pa_CardDigest =
        (case body of Some b \<Rightarrow> if code = 200 then hex_sum256 (take cardBodyLimit b) else [] | None \<Rightarrow> []) \<rparr>
   | RProbe (Inl e) \<Rightarrow> Inl e
   | _ \<Rightarrow> Inl ''no answer''))"

definition probeAgent :: "gateway_env \<Rightarrow> GatewayConfig \<Rightarrow> Agent \<Rightarrow> (string + AuthProbeAnswer) op" where
  "probeAgent env gw agent =
     (if gw_ServingURL gw = [] then Return (Inl ''--gateway-serving-url is unset, so there is no address to probe'')
      else case probeURL env (gw_ServingURL gw) (cardPath agent) of
        Inl e \<Rightarrow> Return (Inl e)
      | Inr url \<Rightarrow> http_probe url (Hostname gw (ag_Name agent) (ag_Namespace agent)))"

definition describeProbe :: "Agent \<Rightarrow> string + AuthProbeAnswer \<Rightarrow> string" where
  "describeProbe agent got = (case got of
     Inl e \<Rightarrow> msgf ''the last anonymous probe got no answer'' [cardPath agent, e]
   | Inr a \<Rightarrow>
     if pa_Code a = 500 then msgf ''the last anonymous probe got 500: the route has no backend'' [cardPath agent]
     else if pa_Code a = 404 then msgf ''the last anonymous probe got 404: the route is not attached'' [cardPath agent]
     else msgf ''the last anonymous probe did not get 401'' [cardPath agent, itoa (pa_Code a)])"

section \<open>What the gateway reports\<close>

text \<open>The entry of the serving Gateway in a route's status, and in a policy's.\<close>

definition gateway_parent :: "GatewayConfig \<Rightarrow> HTTPRoute \<Rightarrow> RouteParentStatus \<Rightarrow> bool" where
  "gateway_parent gw rt p \<longleftrightarrow> pr_Name (rs_ParentRef p) = gw_Name gw \<and>
     (case pr_Namespace (rs_ParentRef p) of None \<Rightarrow> om_Namespace (hr_Meta rt) | Some ns \<Rightarrow> ns) = gw_Namespace gw"

definition gateway_ancestor :: "GatewayConfig \<Rightarrow> PolicyAncestor \<Rightarrow> bool" where
  "gateway_ancestor gw a \<longleftrightarrow> an_Group a = GatewayGroupName \<and> an_Kind a = ''Gateway'' \<and> an_Name a = gw_Name gw \<and> an_Namespace a = gw_Namespace gw"

definition status_summary :: "PolicyAncestor \<Rightarrow> bool" where
  "status_summary a \<longleftrightarrow> an_Group a = ''agentgateway.dev'' \<and> an_Name a = ''StatusSummary''"

definition cond_status_text :: "cond_status \<Rightarrow> string" where
  "cond_status_text st = (case st of CTrue \<Rightarrow> ''True'' | CFalse \<Rightarrow> ''False'' | CUnknown \<Rightarrow> ''Unknown'')"

definition describeConditions :: "PolicyAncestor \<Rightarrow> string" where
  "describeConditions a = join '', '' (map (\<lambda>c. c_Type c @ ''='' @ cond_status_text (c_Status c) @ ''/'' @ c_Reason c) (an_Conditions a))"

definition route_where :: "HTTPRoute \<Rightarrow> string" where
  "route_where rt = msgf ''route at generation'' [om_Namespace (hr_Meta rt), om_Name (hr_Meta rt), itoa (hr_Generation rt)]"

definition policy_where :: "PolicyObject \<Rightarrow> string" where
  "policy_where p = msgf ''policy at generation'' [pl_Namespace p, pl_Name p, itoa (pl_Generation p)]"

text \<open>Why a wanted condition (of a type, and of a reason if one is named) does not hold at a generation.\<close>

definition unmet_condition :: "string \<Rightarrow> GatewayConfig \<Rightarrow> int \<Rightarrow> condition list \<Rightarrow> string \<times> string \<Rightarrow> string option" where
  "unmet_condition at gw gen conds want = (case want of (t, reason) \<Rightarrow> (case findCondition conds t of
     None \<Rightarrow> Some (msgf ''the Gateway reports no such condition'' [at, gw_Namespace gw, gw_Name gw, t])
   | Some c \<Rightarrow>
     if c_ObservedGeneration c \<noteq> gen then Some (msgf ''is reported for another generation'' [at, t, itoa (c_ObservedGeneration c)])
     else if c_Status c \<noteq> CTrue then Some (msgf ''is not True'' [at, t, cond_status_text (c_Status c), c_Reason c, c_Message c])
     else if reason \<noteq> [] \<and> c_Reason c \<noteq> reason then Some (msgf ''is True with another reason'' [at, t, c_Reason c, reason])
     else None))"

fun first_unmet :: "('a \<Rightarrow> string option) \<Rightarrow> 'a list \<Rightarrow> string option" where
  "first_unmet f [] = None"
| "first_unmet f (x # xs) = (case f x of Some why \<Rightarrow> Some why | None \<Rightarrow> first_unmet f xs)"

text \<open>\<^verbatim>\<open>routeConverged\<close> and \<^verbatim>\<open>policyConverged\<close>: nothing once converged, and otherwise why not.\<close>

definition routeConverged :: "HTTPRoute \<Rightarrow> GatewayConfig \<Rightarrow> string option" where
  "routeConverged rt gw = (case find (gateway_parent gw rt) (hr_Parents rt) of
     None \<Rightarrow> Some (msgf ''the Gateway has written no status for it'' [route_where rt, gw_Namespace gw, gw_Name gw])
   | Some p \<Rightarrow> first_unmet (unmet_condition (route_where rt) gw (hr_Generation rt) (rs_Conditions p)) [(''Accepted'', []), (''ResolvedRefs'', [])])"

definition policyConverged :: "PolicyObject \<Rightarrow> GatewayConfig \<Rightarrow> string option" where
  "policyConverged p gw =
     (if pl_Ancestors p = [] then Some (msgf ''it reports no ancestors'' [policy_where p])
      else case find status_summary (pl_Ancestors p) of
        Some m \<Rightarrow> Some (msgf ''the policy attached to nothing'' [policy_where p, describeConditions m])
      | None \<Rightarrow> (case find (gateway_ancestor gw) (rev (pl_Ancestors p)) of
          None \<Rightarrow> Some (msgf ''no ancestor is the Gateway'' [policy_where p, gw_Namespace gw, gw_Name gw])
        | Some m \<Rightarrow> first_unmet (unmet_condition (policy_where p) gw (pl_Generation p) (an_Conditions m)) [(''Accepted'', ''Valid''), (''Attached'', [])]))"

section \<open>The paged list is complete\<close>

text \<open>
  A list whose pages end within the bound: the model's bound changes nothing, neither what is asked nor
  what is returned.
\<close>

lemma list_pages_enough:
  assumes "run_op ans h (list_pages n ns cont items) = (Inr xs, h')" and "n \<le> k"
  shows "run_op ans h (list_pages k ns cont items) = (Inr xs, h')"
  using assms
proof (induction n arbitrary: h cont items k)
  case (Suc n)
  then obtain k' where "k = Suc k'" "n \<le> k'" by (metis Suc_le_D Suc_le_mono)
  with Suc show ?case
    by (auto simp: Let_def split: sum.splits if_splits)
qed simp

end
