(* ===== verification/Agent_Controller.thy ===== *)
theory Agent_Controller
  imports Gateway_Reads
begin

text \<open>
  One pass of the Agent reconciler (\<^verbatim>\<open>internal/controller/agent_controller.go\<close>, with the card fetch of
  \<^verbatim>\<open>card.go\<close>, the reads of \<^verbatim>\<open>gate.go\<close> and the pin report of \<^verbatim>\<open>release.go\<close>): from the read of the Agent to the
  status write and the collection of what no revision needs any more, and the finalizer.

  The pass is a program over requests (\<open>Cluster_Ops\<close>), with every early return of the source a branch.
  The gateway's two operations, reconciling and revoking, are arguments: \<open>gateway_ops\<close>, whose contract
  with the pass is the locale \<open>gateway_contract\<close>. The JSON decoder and the printer of CEL are arguments
  too. A pass that returns an error is retried by the queue; otherwise it says when it wants to run
  again.
\<close>

abbreviation Finalizer :: string where "Finalizer \<equiv> ''assayd.dev/agent-teardown''"
abbreviation (input) RefusedServiceRecheck :: duration where "RefusedServiceRecheck \<equiv> 60 * second"
abbreviation (input) teardownPendingRequeue :: duration where "teardownPendingRequeue \<equiv> 30 * second"
abbreviation (input) DefaultRevisionHistoryLimit :: nat where "DefaultRevisionHistoryLimit \<equiv> 2"

record fetchedCard =
  fc_Name :: string
  fc_Version :: string
  fc_ProtocolVersions :: "string list"

record AgentReconciler =
  ac_EvalSuiteInstalled :: "bool option"
  ac_OperatorNamespace :: string
  ac_InjectedEnv :: InjectedEnvConfig
  ac_Gateway :: GatewayConfig
  ac_EvalRecordCheckTTL :: duration
  ac_unparse :: unparser
  ac_decodeCard :: "string \<Rightarrow> string + fetchedCard"
  ac_env :: gateway_env
  ac_AuthDeadline :: duration

datatype requeue = Done | Requeue | RequeueAfter duration

type_synonym result = "go_error + requeue"

section \<open>Writing status\<close>

text \<open>The Agent afterwards is what the API server answered; a write that would change nothing is not made.\<close>

definition writeStatus :: "Agent \<Rightarrow> AgentStatus \<Rightarrow> (go_error + Agent) op" where
  "writeStatus agent status =
     (let status = status\<lparr> st_Conditions := boundConditionMessages (st_Conditions status) \<rparr> in
      if equalStatus (ag_Status agent) status then Return (Inr agent)
      else Ask (UpdateStatus (agent\<lparr> ag_Status := status \<rparr>)) (\<lambda>a. Return (case resp_agent a of
         Inl e \<Rightarrow> Inl (ApiFail (msgf ''update status'' [ag_Namespace agent, ag_Name agent]) e)
       | Inr stored \<Rightarrow> Inr stored)))"

text \<open>The last three lines of every report: merge the conditions, observe the generation, write.\<close>

definition settle :: "Agent \<Rightarrow> AgentStatus \<Rightarrow> conditionSet \<Rightarrow> (go_error + Agent) op" where
  "settle agent status c = andThen clockNow (\<lambda>at. writeStatus agent
     (status\<lparr> st_Conditions := cond_merge at c (st_Conditions (ag_Status agent)), st_ObservedGeneration := ag_Generation agent \<rparr>))"

definition settle_then :: "Agent \<Rightarrow> AgentStatus \<Rightarrow> conditionSet \<Rightarrow> result \<Rightarrow> result op" where
  "settle_then agent status c res = tryThen (settle agent status c) (\<lambda>_. Return res)"

definition not_ready :: "string \<Rightarrow> string \<Rightarrow> conditionSet \<Rightarrow> conditionSet" where
  "not_ready reason msg c = cond_set CondDegraded CTrue reason msg (cond_set CondReady CFalse reason msg c)"

section \<open>Reports\<close>

definition reportUnreconcilable :: "AgentReconciler \<Rightarrow> Agent \<Rightarrow> result op" where
  "reportUnreconcilable r agent = andThen clockNow (\<lambda>at.
     let c = assessImageSignature agent (assessGovernance (ac_Gateway r) at (ag_Status agent) (newConditionSet (ag_Generation agent)));
         c = cond_set CondDegraded CTrue ''NoWorkloadSpecified'' ''neither spec.runtime nor spec.external is set'' c;
         c = cond_set CondReady CFalse ''NoWorkloadSpecified'' ''the agent specifies no workload'' c in
     settle_then agent ((ag_Status agent)\<lparr> st_Phase := PhaseDegraded \<rparr>) c (Inr Done))"

definition reconcileExternal :: "AgentReconciler \<Rightarrow> Agent \<Rightarrow> result op" where
  "reconcileExternal r agent = andThen clockNow (\<lambda>at.
     let c = cond_set CondReady CFalse ''ExternalRegistrationUnimplemented'' ''external agents are held rather than reported ready''
               (newConditionSet (ag_Generation agent));
         c = assessImageSignature agent (assessGovernance (ac_Gateway r) at (ag_Status agent) c) in
     settle_then agent ((ag_Status agent)\<lparr> st_Phase := PhasePending \<rparr>) c (Inr Done))"

definition pass_assessments :: "AgentReconciler \<Rightarrow> go_time \<Rightarrow> Agent \<Rightarrow> string \<Rightarrow> string \<Rightarrow> conditionSet" where
  "pass_assessments r at agent desired desiredDigest =
     assessImageSignature agent (assessGovernance (ac_Gateway r) at (ag_Status agent) (assessTaskState agent (assessSandbox agent
       (assessGates agent (gateModeOf (ac_EvalSuiteInstalled r) agent) desired desiredDigest (newConditionSet (ag_Generation agent))))))"

definition reportUnresolvedSources :: "AgentReconciler \<Rightarrow> Agent \<Rightarrow> SourceRef list \<Rightarrow> string \<Rightarrow> result \<Rightarrow> result op" where
  "reportUnresolvedSources r agent unresolved cause res = andThen clockNow (\<lambda>at.
     let msg = (if unresolved = [] then cause
                else msgf ''create the sources, or remove the reference'' [join '', '' (map SourceRef_String unresolved), cause]);
         c = cond_set CondEnvSourceUnresolved CTrue ''Unresolved'' msg (pass_assessments r at agent [] []);
         c = cond_set CondReady CFalse ''EnvSourceUnresolved'' msg c in
     settle_then agent ((ag_Status agent)\<lparr> st_Phase := PhasePending \<rparr>) c res)"

definition reportCollision :: "AgentReconciler \<Rightarrow> Agent \<Rightarrow> AgentStatus \<Rightarrow> conditionSet \<Rightarrow> revisionCollisionError \<Rightarrow> result \<Rightarrow> result op" where
  "reportCollision r agent status c e res =
     (let c = carryGatewayReport (ac_Gateway r) agent c;
          c = cond_set CondRevisionHashCollision CTrue (collision_reason e) (collision_text e) c;
          c = not_ready ''RevisionHashCollision'' (collision_text e) c in
      settle_then agent (status\<lparr> st_Phase := PhaseDegraded \<rparr>) c res)"

definition reportUnresolvablePin :: "Agent \<Rightarrow> AgentStatus \<Rightarrow> conditionSet \<Rightarrow> unresolvablePinError \<Rightarrow> gateMode \<Rightarrow> string \<Rightarrow> result \<Rightarrow> result op" where
  "reportUnresolvablePin agent status c e gating specDigest res =
     (let reason = (if un_ineligible e then ReasonPinnedRevisionNotEligible else ''ReleasePinUnresolvable'');
          msg = withHoldSentence (go_text (PinUnresolvable e)) (pinHoldSentence agent status gating specDigest) in
      settle_then agent (status\<lparr> st_Phase := PhaseDegraded \<rparr>) (cond_set CondDegraded CTrue reason msg c) res)"

section \<open>The card\<close>

definition JoinHostPort :: "string \<Rightarrow> string \<Rightarrow> string" where
  "JoinHostPort host prt = (if CHR '':'' \<in> set host then ''['' @ host @ '']:'' @ prt else host @ '':'' @ prt)"

text \<open>\<^verbatim>\<open>fetchOnce\<close>: a named card error, another error's text, or the body's first MiB.\<close>

definition fetchOnce :: "string \<Rightarrow> ((go_error + string) + string) op" where
  "fetchOnce url = Ask (HttpGet url) (\<lambda>a. Return (case a of
     RHttp (Inr (code, body)) \<Rightarrow>
       if code \<in> {301, 302, 303, 307, 308}
       then Inl (Inl (CardError ''CardRedirected'' (msgf ''the card path answered a redirect'' [url, itoa code])))
       else if code \<noteq> 200 then Inl (Inr (msgf ''status'' [itoa code]))
       else Inr (take cardBodyLimit body)
   | RHttp (Inl e) \<Rightarrow> Inl (Inr e)
   | _ \<Rightarrow> Inl (Inr ''no answer'')))"

definition validate_card :: "AgentReconciler \<Rightarrow> Agent \<Rightarrow> string \<Rightarrow> string \<Rightarrow> string \<Rightarrow> go_time \<Rightarrow> go_error + CardStatus" where
  "validate_card r agent rv url body at = (case ac_decodeCard r body of
     Inl e \<Rightarrow> Inl (CardError ''CardUnparseable'' (msgf ''the agent card is not valid JSON'' [url, e]))
   | Inr fcard \<Rightarrow>
     if fc_Name fcard \<noteq> ag_Name agent
     then Inl (CardError ''CardNameMismatch'' (msgf ''the agent card names another agent'' [fc_Name fcard, ag_Name agent]))
     else if fc_ProtocolVersions fcard = []
     then Inl (CardError ''CardNoInterfaces'' (msgf ''the agent card declares no supportedInterfaces'' [url]))
     else if ''1.0'' \<notin> set (fc_ProtocolVersions fcard)
     then Inl (CardError ''CardProtocolUnsupported'' (msgf ''the agent card declares unsupported protocol versions'' (fc_ProtocolVersions fcard)))
     else Inr \<lparr> cd_Revision = rv, cd_RevisionDigest = [], cd_Name = fc_Name fcard, cd_Version = fc_Version fcard,
       cd_FetchedAt = Some at, cd_Digest = hex_sum256 body, cd_Signed = False, cd_SharedTaskState = False \<rparr>)"

definition fetchAndValidateCard :: "AgentReconciler \<Rightarrow> Agent \<Rightarrow> AgentRuntime \<Rightarrow> string \<Rightarrow> string \<Rightarrow> (go_error + CardStatus) op" where
  "fetchAndValidateCard r agent rt runNS rv =
     (let svcName = WorkloadName (ag_Name agent) rv in
      andThen (getObj False KService as_service runNS svcName) (\<lambda>got. case got of
         Inl e \<Rightarrow> Return (Inl (CardError ''CardUnreachable'' (msgf ''the Service could not be read'' [runNS, svcName, err_text e])))
       | Inr svc \<Rightarrow>
         if sv_ClusterIP svc = [] \<or> sv_ClusterIP svc = ClusterIPNone
         then Return (Inl (CardError ''CardUnreachable'' (msgf ''the Service has no ClusterIP'' [runNS, svcName])))
         else
           let url = cardURL ''http'' (JoinHostPort (sv_ClusterIP svc) (itoa (port rt))) (cardPath agent) in
           andThen (fetchOnce url) (\<lambda>fetched. case fetched of
             Inl (Inl ce) \<Rightarrow> Return (Inl ce)
           | Inl (Inr e) \<Rightarrow> Return (Inl (CardError ''CardUnreachable'' (msgf ''could not fetch the agent card'' [url, e])))
           | Inr body \<Rightarrow> andThen clockNow (\<lambda>at. Return (validate_card r agent rv url body at)))))"

text \<open>
  The card step of a pass. A drifted card's message prints the digest from the entry \<^verbatim>\<open>upsertCard\<close> has
  already overwritten in place, the new one.
\<close>

definition card_step :: "AgentReconciler \<Rightarrow> Agent \<Rightarrow> AgentRuntime \<Rightarrow> string \<Rightarrow> string \<Rightarrow> string \<Rightarrow> AgentStatus \<times> conditionSet
    \<Rightarrow> (go_error + AgentStatus \<times> conditionSet) op" where
  "card_step r agent rt runNS desired digest acc = (case acc of (status, c) \<Rightarrow>
     andThen clockNow (\<lambda>at.
       if \<not> cardFetchDue status digest at then Return (Inr (status, c))
       else andThen (fetchAndValidateCard r agent rt runNS desired) (\<lambda>got. case got of
          Inl (CardError reason m) \<Rightarrow> andThen clockNow (\<lambda>at2.
            Return (Inr (recordCardAttempt status desired digest at2, cond_set CondRegistered CFalse reason m c)))
        | Inl e \<Rightarrow> Return (Inl e)
        | Inr fcard \<Rightarrow>
          let drifted = (case cardEntry status digest of None \<Rightarrow> False | Some p \<Rightarrow> cd_Digest p \<noteq> [] \<and> cd_Digest p \<noteq> cd_Digest fcard);
              status' = status\<lparr> st_Cards := upsertCard (st_Cards status) fcard digest \<rparr>;
              c = (if drifted then cond_set CondRegistered CTrue ''CardDrifted''
                     (msgf ''now serves a different card'' [desired, take 12 (cd_Digest fcard), take 12 (cd_Digest fcard)]) c
                   else cond_set CondRegistered CTrue ''CardValidated'' (msgf ''serves a valid card'' [desired, take 12 (cd_Digest fcard)]) c) in
          Return (Inr (status', cond_set CondCardUnsigned CTrue ''NoSigningConfigured'' ''the card is not signature-verified'' c)))))"

section \<open>The gate's reads\<close>

text \<open>\<^verbatim>\<open>evalRecordMissing\<close> under its lock: the cached answer, or a read of the CRD that renews it.\<close>

definition resp_check :: "resp \<Rightarrow> evalRecordCheck" where
  "resp_check a = (case a of RCheck c \<Rightarrow> c | _ \<Rightarrow> \<lparr> rc_warmed = False, rc_checked = 0, rc_missing = [], rc_failing = False \<rparr>)"

definition resp_crd :: "resp \<Rightarrow> api_error + crd_version list" where
  "resp_crd a = (case a of RCRD x \<Rightarrow> x | _ \<Rightarrow> Inl decode_error)"

definition resp_suite :: "resp \<Rightarrow> api_error + EvalSuiteSpec" where
  "resp_suite a = (case a of RSuite x \<Rightarrow> x | _ \<Rightarrow> Inl decode_error)"

definition readEvalRecord :: "duration \<Rightarrow> (api_error + string list) op" where
  "readEvalRecord ttl0 =
     (let ttl = (if ttl0 = 0 then DefaultEvalRecordCheckTTL else ttl0) in
      Ask LoadEvalCheck (\<lambda>a. let c = resp_check a in
      andThen clockNow (\<lambda>at.
        if rc_warmed c \<and> at - rc_checked c < ttl then Return (Inr (rc_missing c))
        else Ask GetAgentCRD (\<lambda>a. let got = resp_crd a in
          andThen clockNow (\<lambda>at2. case evalRecordMissing ttl0 at got c of (res, c') \<Rightarrow>
            Ask (StoreEvalCheck (case got of Inr _ \<Rightarrow> c'\<lparr> rc_checked := at2 \<rparr> | Inl _ \<Rightarrow> c')) (\<lambda>_. Return res))))))"

definition readSuite :: "Agent \<Rightarrow> (api_error + EvalSuiteSpec) op" where
  "readSuite agent = Ask (GetEvalSuite (ag_Namespace agent) (gr_EvalSuiteRef (hd (sp_Gates (ag_Spec agent))))) (\<lambda>a. Return (resp_suite a))"

definition wedge_route :: "Agent \<Rightarrow> AgentStatus \<Rightarrow> (route option) op" where
  "wedge_route agent status =
     (if \<not> wedgeNeedsRoute status then Return None
      else andThen (currentServingRoute agent (RunNamespaceName (ag_Namespace agent))
             (case ServingRouteName (ag_Name agent) of Inl _ \<Rightarrow> [] | Inr n \<Rightarrow> n))
           (\<lambda>got. Return (case got of Inr (Some rt) \<Rightarrow> Some (route_view rt) | _ \<Rightarrow> None)))"

text \<open>\<^verbatim>\<open>gateFor\<close>: the clock, the route where the wedge needs it, the record's fields, and the suite if they are kept.\<close>

definition readGate :: "AgentReconciler \<Rightarrow> Agent \<Rightarrow> AgentStatus \<Rightarrow> string \<Rightarrow> string \<Rightarrow> bool \<Rightarrow> gateDecision op" where
  "readGate r agent status desired digest available =
     andThen clockNow (\<lambda>at.
     andThen (wedge_route agent status) (\<lambda>rt.
     andThen (readEvalRecord (ac_EvalRecordCheckTTL r)) (\<lambda>rec.
       let decide = gateFor agent status desired digest available at (RunNamespaceName (ag_Namespace agent)) rt rec in
       if rec = Inr [] then andThen (readSuite agent) (\<lambda>suite. Return (decide suite))
       else Return (decide (Inl decode_error)))))"

text \<open>\<^verbatim>\<open>pinRule\<close>: the reason a pin is refused, or why it is admitted.\<close>

definition readPinRule :: "Agent \<Rightarrow> AgentStatus \<Rightarrow> releasePin \<Rightarrow> string \<Rightarrow> (unresolvablePinError + string) op" where
  "readPinRule agent status pin specDigest = andThen (readSuite agent) (\<lambda>suite.
     Return (case pinRule suite agent status (rp_Digest pin) specDigest of
       Inl why \<Rightarrow> Inl \<lparr> un_digest = rp_Digest pin, un_reason = why, un_ineligible = True \<rparr>
     | Inr why \<Rightarrow> Inr why))"

section \<open>Collecting what no revision needs\<close>

definition collectPreA42Leftovers :: "Agent \<Rightarrow> (go_error + unit) op" where
  "collectPreA42Leftovers agent =
     tryThen (listOr (msgf ''list pre-A42 workloads'' [ag_Namespace agent, ag_Name agent]) False KDeployment as_deployment
        (ag_Namespace agent) [(LabelAgent, ag_Name agent)]) (\<lambda>items.
     tryThen (forEach (\<lambda>d. if om_ControllerUID (dp_Meta d) \<noteq> Some (ag_UID agent) then Return (Inr ())
        else deleteGone (msgf ''delete pre-A42 workload'' [om_Name (dp_Meta d)]) (ODeployment d)) items) (\<lambda>_.
       deleteMaterial agent (ag_Namespace agent) [(MaterialAgentUIDLabel, ag_UID agent)]))"

definition protected :: "AgentStatus \<Rightarrow> string \<Rightarrow> bool" where
  "protected status rv \<longleftrightarrow> rv \<noteq> [] \<and> (rv = st_ActiveRevision status \<or> rv = st_CandidateRevision status)"

definition revision_label :: "Deployment \<Rightarrow> string" where
  "revision_label d = lbl (om_Labels (dp_Meta d)) LabelRevision"

text \<open>The workloads that are neither active nor candidate, the newest first and by descending name among equals.\<close>

definition retainable :: "AgentStatus \<Rightarrow> Deployment list \<Rightarrow> Deployment list" where
  "retainable status owned = rev (sort_key (\<lambda>d. om_CreationTimestamp (dp_Meta d)) (sort_key (\<lambda>d. om_Name (dp_Meta d))
     (filter (\<lambda>d. \<not> protected status (revision_label d)) owned)))"

definition kept_revision :: "AgentStatus \<Rightarrow> Deployment list \<Rightarrow> string \<Rightarrow> bool" where
  "kept_revision status owned rv \<longleftrightarrow> protected status rv \<or>
     rv \<in> set (map revision_label (take DefaultRevisionHistoryLimit (retainable status owned)))"

definition collectGarbage :: "Agent \<Rightarrow> string \<Rightarrow> Deployment list \<Rightarrow> AgentStatus \<Rightarrow> (go_error + unit) op" where
  "collectGarbage agent runNS owned status =
     (let keep = kept_revision status owned in
      tryThen (forEach (\<lambda>d. deleteGone (msgf ''gc workload'' [om_Name (dp_Meta d)]) (ODeployment d))
        (drop DefaultRevisionHistoryLimit (retainable status owned))) (\<lambda>_.
      tryThen (collectRevisionMaterial agent runNS keep) (\<lambda>_.
      tryThen (collectRevisionServices agent runNS keep) (\<lambda>_.
        let c = pruneCards status keep; s = pruneServiceRecords (fst c) keep in
        tryThen (if snd c \<or> snd s then writeStatus agent (fst s) else Return (Inr agent)) (\<lambda>agent.
          collectPreA42Leftovers agent)))))"

section \<open>The gateway's part of a pass\<close>

record authDesire =
  ad_target :: "compile_error + AuthTarget"
  ad_budget :: bool

definition desiredAuth :: "unparser \<Rightarrow> Agent \<Rightarrow> string \<Rightarrow> authDesire" where
  "desiredAuth unparse agent runNS = \<lparr> ad_target = CompileAuth unparse agent runNS, ad_budget = (sp_Budget (ag_Spec agent) \<noteq> None) \<rparr>"

definition desire_compiles :: "authDesire \<Rightarrow> bool" where
  "desire_compiles d \<longleftrightarrow> \<not> isl (ad_target d) \<and> \<not> ad_budget d"

text \<open>
  What the gateway part gives back: the Agent (it may write its own record ahead of the pass's
  write), the status and the assertions it left, its outcome, and its error. A nil dereference in it
  (\<open>GoPanic\<close>) ends the pass, and the controller recovers it as the pass's error.
\<close>

type_synonym gateway_result = "Agent \<times> (AgentStatus \<times> conditionSet) \<times> gatewayOutcome \<times> go_error option"

record gateway_ops =
  go_reconcile :: "Agent \<Rightarrow> string \<Rightarrow> AgentStatus \<times> conditionSet \<Rightarrow> authDesire \<Rightarrow> gateway_result op"
  go_revoke :: "Agent \<Rightarrow> string \<Rightarrow> (go_error + string) op"

definition gatewayErrorReason :: "go_error \<Rightarrow> string" where
  "gatewayErrorReason e = (case e of GatewayError reason _ \<Rightarrow> reason | _ \<Rightarrow> ''RouteApplyFailed'')"

definition lost_race_reason :: "AgentStatus \<Rightarrow> AuthTransaction \<Rightarrow> bool \<Rightarrow> string" where
  "lost_race_reason status tx held =
     (let rec = isReCreation (st_Auth status) in
      if held \<and> \<not> (tx_Kind tx = TxLock \<and> rec) then ReasonGatewayAuthPolicy
      else if tx_Kind tx = TxLock then (if rec then ReasonAuthPolicyMissing else ReasonAuthLockUnverified)
      else ReasonAuthEnforcementPending)"

definition gateway_error :: "go_time \<Rightarrow> gatewayOutcome \<Rightarrow> go_error \<Rightarrow> AgentStatus \<times> conditionSet \<Rightarrow> AgentStatus \<times> conditionSet" where
  "gateway_error at out rerr acc = (case acc of (status, c) \<Rightarrow>
     if \<not> transientRouteWrite rerr then
       let msg = go_text rerr; reason = gatewayErrorReason rerr;
           c = cond_set CondReady CFalse reason msg (raiseIncomplete reason msg c) in
       if (case st_Auth status of None \<Rightarrow> False
           | Some a \<Rightarrow> au_Mode a = [] \<and> (case au_Transaction a of None \<Rightarrow> False | Some tx \<Rightarrow> tx_Kind tx = TxCreate))
       then (status\<lparr> st_Phase := PhasePending \<rparr>, c)
       else (status\<lparr> st_Phase := PhaseDegraded \<rparr>, cond_set CondDegraded CTrue reason msg c)
     else
       let held = heldAbove c;
           racing = (case authTransaction status of
             None \<Rightarrow> None
           | Some tx \<Rightarrow>
             if tx_Kind tx = TxCreate \<or>
                (tx_Kind tx = TxLock \<and> (held \<or> isReCreation (st_Auth status) \<or>
                   (case tx_Deadline tx of None \<Rightarrow> False | Some d \<Rightarrow> \<not> at < d)))
             then Some tx else None) in
       (case racing of
          Some tx \<Rightarrow> withholdReady (no_outcome\<lparr> gw_withhold := Some
            \<lparr> fl_reason = lost_race_reason status tx held,
              fl_message = msgf ''this pass lost a race and is retried'' [tx_Kind tx, tx_Stage tx, go_text rerr] \<rparr>,
            gw_served := ((case st_Auth status of None \<Rightarrow> False | Some a \<Rightarrow> au_Mode a \<noteq> []) \<or> tx_Kind tx = TxLock) \<rparr>) (status, c)
        | None \<Rightarrow> (case gw_withhold out of
            Some w \<Rightarrow>
              if fl_reason w \<in> {ReasonGatewayAuthPolicy, ReasonServingRouteNotAccepted, ReasonAuthPolicyNotAttached, ReasonAPIKeySourceEmpty}
              then withholdReady out (status, c) else (status, c)
          | None \<Rightarrow> (status, c))))"

section \<open>One pass\<close>

record pass =
  pa_agent :: Agent
  pa_runtime :: AgentRuntime
  pa_buffers :: "SourceRef \<rightharpoonup> sourceBuffer"
  pa_runNS :: string
  pa_owned :: "Deployment list"
  pa_status :: AgentStatus
  pa_conds :: conditionSet
  pa_gating :: gateMode
  pa_desired :: string
  pa_digest :: string
  pa_specDigest :: string
  pa_pin :: "releasePin option"
  pa_pinWhy :: string

definition report_pass :: "pass \<Rightarrow> AgentPhase \<Rightarrow> conditionSet \<Rightarrow> result \<Rightarrow> result op" where
  "report_pass p phase c res = settle_then (pa_agent p) ((pa_status p)\<lparr> st_Phase := phase \<rparr>) c res"

definition report_pin :: "pass \<Rightarrow> unresolvablePinError \<Rightarrow> result \<Rightarrow> result op" where
  "report_pin p u res = reportUnresolvablePin (pa_agent p) (pa_status p) (pa_conds p) u (pa_gating p) (pa_specDigest p) res"

definition requeue_after :: "duration \<Rightarrow> requeue" where
  "requeue_after d = (if d = 0 then Done else RequeueAfter d)"

text \<open>The end of a pass: the gateway, the status write, and the collection.\<close>

definition activeRevisionUnaddressable :: "Agent \<Rightarrow> string \<Rightarrow> AgentStatus \<Rightarrow> string \<Rightarrow> string op" where
  "activeRevisionUnaddressable agent runNS status desired =
     (let active = st_ActiveRevision status; name = WorkloadName (ag_Name agent) active in
      if active = [] \<or> active = desired then Return []
      else andThen (getObj True KService as_service runNS name) (\<lambda>got. Return (case got of
         Inl _ \<Rightarrow> []
       | Inr svc \<Rightarrow> if sv_ClusterIP svc \<noteq> [] \<and> sv_ClusterIP svc \<noteq> ClusterIPNone then []
           else msgf ''the ACTIVE revision is serving, and its Service has no ClusterIP'' [active, runNS, name, sv_ClusterIP svc, desired])))"

definition settled :: "go_time \<Rightarrow> Agent \<Rightarrow> AgentStatus \<times> conditionSet \<Rightarrow> AgentStatus" where
  "settled at agent acc = (case acc of (status, c) \<Rightarrow>
     status\<lparr> st_Conditions := cond_merge at c (st_Conditions (ag_Status agent)), st_ObservedGeneration := ag_Generation agent \<rparr>)"

definition finish_pass :: "gateway_ops \<Rightarrow> pass \<Rightarrow> authDesire \<Rightarrow> duration \<Rightarrow> result op" where
  "finish_pass gw p desire cardRequeue =
     andThen (go_reconcile gw (pa_agent p) (pa_runNS p) (pa_status p, pa_conds p) desire) (\<lambda>(agent, acc, out, err).
     andThen clockNow (\<lambda>at.
       case err of
         Some (GoPanic t) \<Rightarrow> Return (Inl (GoPanic t))
       | Some rerr \<Rightarrow> tryThen (writeStatus agent (settled at agent (gateway_error at out rerr acc))) (\<lambda>_. Return (Inl rerr))
       | None \<Rightarrow>
         let status = settled at agent (withholdReady out acc) in
         tryThen (writeStatus agent status) (\<lambda>agent.
         tryThen (collectGarbage agent (pa_runNS p) (pa_owned p) status) (\<lambda>_.
           Return (Inr (requeue_after (earliest cardRequeue (gw_requeue out))))))))"

definition address_step :: "gateway_ops \<Rightarrow> pass \<Rightarrow> authDesire \<Rightarrow> duration \<Rightarrow> result op" where
  "address_step gw p desire cardRequeue =
     andThen (activeRevisionUnaddressable (pa_agent p) (pa_runNS p) (pa_status p) (pa_desired p)) (\<lambda>unusable.
       let p' = (if unusable = [] then p
                 else p\<lparr> pa_conds := not_ready ''ActiveRevisionServiceUnaddressable'' unusable (pa_conds p),
                        pa_status := (pa_status p)\<lparr> st_Phase := PhaseDegraded \<rparr> \<rparr>) in
       finish_pass gw p' desire cardRequeue)"

text \<open>The decision: availability, the card, the gate, and the rollout.\<close>

definition choose_gate :: "AgentReconciler \<Rightarrow> pass \<Rightarrow> AgentStatus \<Rightarrow> bool \<Rightarrow> gateDecision op" where
  "choose_gate r p status ready =
     (if st_ActiveRevisionDigest status = pa_digest p then Return gate_satisfied
      else if pa_pin p \<noteq> None \<and> pa_pinWhy p \<noteq> [] then Return gate_satisfied
      else if pa_gating p = gateUnwired
      then Return \<lparr> gd_satisfied = False, gd_reason = [], gd_message = [], gd_readyReason = [] \<rparr>
      else if pa_gating p = gateEnforced then readGate r (pa_agent p) status (pa_desired p) (pa_digest p) ready
      else Return gate_satisfied)"

definition rollout_step :: "gateway_ops \<Rightarrow> pass \<Rightarrow> authDesire \<Rightarrow> string \<Rightarrow> bool \<Rightarrow> AgentStatus \<times> conditionSet \<Rightarrow> gateDecision \<Rightarrow> bool \<Rightarrow> result op" where
  "rollout_step gw p desire authHold ready acc gate activeAvailable =
     (let inp = \<lparr> ro_agent = pa_agent p, ro_gating = pa_gating p, ro_gate = gate, ro_desired = pa_desired p, ro_digest = pa_digest p,
            ro_ready = ready, ro_activeAvailable = activeAvailable, ro_authHold = authHold, ro_pin = pa_pin p, ro_pinWhy = pa_pinWhy p \<rparr>;
          acc' = rollout inp acc;
          c = unrecorded_condition inp (fst acc') (pin_conditions inp (fst acc') (snd acc')) in
      address_step gw (p\<lparr> pa_status := fst acc', pa_conds := c \<rparr>) desire
        (if ready then cardRequeueAfter (fst acc) (pa_digest p) else 0))"

definition decide_step :: "AgentReconciler \<Rightarrow> gateway_ops \<Rightarrow> pass \<Rightarrow> result op" where
  "decide_step r gw p =
     (let agent = pa_agent p; runNS = pa_runNS p in
      tryThen (workloadAvailable agent runNS (pa_desired p) (pa_digest p)) (\<lambda>ready.
        let desire = desiredAuth (ac_unparse r) agent runNS;
            authHold = i1Hold (ac_Gateway r) (pa_status p) (desire_compiles desire) (pa_pin p \<noteq> None) in
        tryThen (if ready then card_step r agent (pa_runtime p) runNS (pa_desired p) (pa_digest p) (pa_status p, pa_conds p)
                 else Return (Inr (pa_status p, pa_conds p))) (\<lambda>acc.
        andThen (choose_gate r p (fst acc) ready) (\<lambda>gate.
        andThen (if \<not> ready \<and> st_ActiveRevision (fst acc) \<noteq> [] \<and> st_ActiveRevisionDigest (fst acc) \<noteq> pa_digest p
                 then revisionAvailable agent runNS (st_ActiveRevision (fst acc)) (st_ActiveRevisionDigest (fst acc))
                 else Return False) (\<lambda>av.
          rollout_step gw p desire authHold ready acc gate av)))))"

text \<open>The Service, and what each way it can be refused reports.\<close>

definition service_failed :: "AgentReconciler \<Rightarrow> pass \<Rightarrow> go_error \<Rightarrow> result op" where
  "service_failed r p e =
     (let gw = ac_Gateway r; serves = routeNames gw (pa_status p) (pa_desired p); recheck = Inr (RequeueAfter RefusedServiceRecheck);
          degraded = (\<lambda>reason msg. report_pass p PhaseDegraded (carryGatewayReport gw (pa_agent p) (not_ready reason msg (pa_conds p))) recheck) in
      case e of
        Collision c \<Rightarrow> reportCollision r (pa_agent p) (pa_status p) (pa_conds p) (c\<lparr> co_servingNow := serves \<rparr>) recheck
      | ReplaceError x \<Rightarrow> degraded ''RevisionServiceReplaceFailed'' (replace_text x)
      | ShapeError s \<Rightarrow> degraded (shape_reason s) (shape_text s @ (if serves then servedRouteNote else []))
      | ServiceReadError ns name a \<Rightarrow>
          if rejectedByAPIServer a then degraded ''RevisionServiceUnreadable'' (go_text e) else Return (Inl e)
      | _ \<Rightarrow> (case api_cause e of
          Some a \<Rightarrow>
            if rejectedByAPIServer a
            then degraded ''ServiceRejected'' (msgf (case e of ServiceCreateError _ _ \<Rightarrow> ''could not CREATE the Service''
                   | _ \<Rightarrow> ''could not repair the Service in place'') [go_text e])
            else Return (Inl e)
        | None \<Rightarrow> Return (Inl e)))"

definition service_step :: "AgentReconciler \<Rightarrow> gateway_ops \<Rightarrow> pass \<Rightarrow> result op" where
  "service_step r gw p =
     (if pa_pin p \<noteq> None then decide_step r gw p
      else andThen (ensureService (pa_agent p) (pa_runtime p) (pa_runNS p) (pa_desired p) (pa_digest p) (pa_status p)) (\<lambda>(agent, status, err).
        let p' = p\<lparr> pa_agent := agent, pa_status := status \<rparr> in
        case err of None \<Rightarrow> decide_step r gw p' | Some e \<Rightarrow> service_failed r p' e))"

definition workload_step :: "AgentReconciler \<Rightarrow> gateway_ops \<Rightarrow> pass \<Rightarrow> material \<Rightarrow> result op" where
  "workload_step r gw p material =
     (if pa_pin p \<noteq> None then service_step r gw p
      else andThen (ensureWorkload (ac_InjectedEnv r) (pa_agent p) (pa_runtime p) (pa_runNS p) (pa_desired p) (pa_digest p) (pa_status p) material)
        (\<lambda>res. case res of
           Inr _ \<Rightarrow> service_step r gw p
         | Inl (Collision c) \<Rightarrow> reportCollision r (pa_agent p) (pa_status p) (pa_conds p) c (Inr Done)
         | Inl e \<Rightarrow>
           if (case api_cause e of Some a \<Rightarrow> err_class a = EInvalid | None \<Rightarrow> False)
           then report_pass p PhaseDegraded (carryGatewayReport (ac_Gateway r) (pa_agent p) (not_ready ''WorkloadRejected'' (go_text e) (pa_conds p))) (Inr Done)
           else Return (Inl e)))"

text \<open>The material.\<close>

definition material_failed :: "pass \<Rightarrow> go_error \<Rightarrow> result op" where
  "material_failed p merr =
     (if isNamespaceTerminating merr then
        let msg = msgf ''run namespace is being deleted'' [pa_runNS p, go_text merr];
            c = cond_set CondReady CFalse ''RunNamespaceUnavailable'' msg
                  (cond_set CondRunNamespaceUnavailable CTrue ReasonTerminating msg (pa_conds p)) in
        report_pass p PhasePending c (Inr (RequeueAfter (5 * second)))
      else
        let invalid = (case merr of MaterialError _ _ \<Rightarrow> True | _ \<Rightarrow> False);
            c = cond_set CondRevisionMaterialUnavailable CTrue (if invalid then ''MaterialInvalid'' else ''MaterialUnavailable'') (go_text merr) (pa_conds p);
            c = cond_set CondReady CFalse ''RevisionMaterialUnavailable'' (go_text merr) c in
        report_pass p PhaseDegraded c (if invalid then Inr Done else Inl merr))"

definition material_step :: "AgentReconciler \<Rightarrow> gateway_ops \<Rightarrow> pass \<Rightarrow> result op" where
  "material_step r gw p = (case pa_pin p of
     Some pin \<Rightarrow>
       if pa_gating p = gateEnforced then workload_step r gw p []
       else andThen (verifyRetainedMaterial (pa_agent p) (pa_runNS p) (pa_desired p) (pa_digest p)) (\<lambda>res. case res of
          Inr _ \<Rightarrow> workload_step r gw p []
        | Inl (PinUnresolvable u) \<Rightarrow> report_pin p u (Inr Done)
        | Inl e \<Rightarrow> material_failed p e)
   | None \<Rightarrow> andThen (ensureRevisionMaterial (pa_agent p) (pa_runNS p) (pa_desired p) (pa_digest p) (pa_buffers p)) (\<lambda>res. case res of
          Inr material \<Rightarrow> workload_step r gw p material
        | Inl e \<Rightarrow> material_failed p e))"

text \<open>The wanted revision: the spec's, or the pinned one; a collision of names; a candidate that is superseded.\<close>

definition desired_step :: "AgentReconciler \<Rightarrow> gateway_ops \<Rightarrow> pass \<Rightarrow> result op" where
  "desired_step r gw p = (case collisionAgainstStatus (pa_status p) (pa_desired p) (pa_digest p) of
     Some c \<Rightarrow> reportCollision r (pa_agent p) (pa_status p) (pa_conds p) c (Inr Done)
   | None \<Rightarrow> material_step r gw (p\<lparr> pa_status := supersede (pa_digest p) (pa_status p) \<rparr>))"

definition pinned :: "releasePin \<Rightarrow> string \<Rightarrow> pass \<Rightarrow> pass" where
  "pinned pin why p = p\<lparr> pa_pin := Some pin, pa_pinWhy := why, pa_desired := rp_Revision pin, pa_digest := rp_Digest pin,
     pa_conds := (if why = [] then pa_conds p
       else cond_set CondGatesBypassed CTrue ReasonPinnedRollback (pendingPinBypass (rp_Revision pin) (rp_Digest pin) why) (pa_conds p)) \<rparr>"

definition pin_rule_step :: "AgentReconciler \<Rightarrow> gateway_ops \<Rightarrow> pass \<Rightarrow> releasePin \<Rightarrow> result op" where
  "pin_rule_step r gw p pin =
     andThen (verifyRetainedMaterial (pa_agent p) (pa_runNS p) (rp_Revision pin) (rp_Digest pin)) (\<lambda>res. case res of
        Inl (PinUnresolvable u) \<Rightarrow> report_pin p u (Inr Done)
      | Inl e \<Rightarrow> Return (Inl e)
      | Inr _ \<Rightarrow>
        if rp_Digest pin = st_ActiveRevisionDigest (pa_status p) then desired_step r gw (pinned pin [] p)
        else andThen (readPinRule (pa_agent p) (pa_status p) pin (pa_digest p)) (\<lambda>rule. case rule of
           Inl u \<Rightarrow> report_pin p u (Inr (RequeueAfter CardDriftInterval))
         | Inr why \<Rightarrow> desired_step r gw (pinned pin why p)))"

definition pin_step :: "AgentReconciler \<Rightarrow> gateway_ops \<Rightarrow> pass \<Rightarrow> result op" where
  "pin_step r gw p = andThen (resolveReleasePin (pa_agent p) (pa_runNS p)) (\<lambda>res. case res of
     Inl (PinUnresolvable u) \<Rightarrow> report_pin p u (Inr Done)
   | Inl e \<Rightarrow> Return (Inl e)
   | Inr None \<Rightarrow> desired_step r gw p
   | Inr (Some pin) \<Rightarrow> if pa_gating p = gateEnforced then pin_rule_step r gw p pin else desired_step r gw (pinned pin [] p))"

text \<open>The run namespace, or why there is none.\<close>

definition no_run_namespace :: "pass \<Rightarrow> string \<Rightarrow> string \<Rightarrow> bool \<Rightarrow> result op" where
  "no_run_namespace p reason msg terminal =
     (let c = cond_set CondReady CFalse ''RunNamespaceUnavailable'' msg (cond_set CondRunNamespaceUnavailable CTrue reason msg (pa_conds p)) in
      if terminal
      then report_pass p PhaseDegraded (cond_set CondDegraded CTrue ''RunNamespaceUnavailable'' msg c) (Inr (RequeueAfter CardDriftInterval))
      else report_pass p PhasePending c (Inr (RequeueAfter (5 * second))))"

definition namespace_step :: "AgentReconciler \<Rightarrow> gateway_ops \<Rightarrow> pass \<Rightarrow> result op" where
  "namespace_step r gw p = andThen (ensureRunNamespace (ac_OperatorNamespace r) (pa_agent p)) (\<lambda>res. case res of
     Inl (RunNamespaceError reason msg terminal) \<Rightarrow> no_run_namespace p reason msg terminal
   | Inl e \<Rightarrow> Return (Inl e)
   | Inr runNS \<Rightarrow> tryThen (ownedWorkloads (pa_agent p) runNS) (\<lambda>owned.
       pin_step r gw (p\<lparr> pa_runNS := runNS, pa_owned := owned \<rparr>)))"

definition new_pass :: "AgentReconciler \<Rightarrow> go_time \<Rightarrow> Agent \<Rightarrow> AgentRuntime \<Rightarrow> env_sources \<Rightarrow> string \<Rightarrow> pass" where
  "new_pass r at agent rt src digest = (let desired = take HashLength digest in
     \<lparr> pa_agent = agent, pa_runtime = rt, pa_buffers = env_buffers src, pa_runNS = [], pa_owned = [],
       pa_status = ag_Status agent,
       pa_conds = seedStoredAbove (ac_Gateway r) agent (ag_Status agent) (pass_assessments r at agent desired digest),
       pa_gating = gateModeOf (ac_EvalSuiteInstalled r) agent, pa_desired = desired, pa_digest = digest, pa_specDigest = digest,
       pa_pin = None, pa_pinWhy = [] \<rparr>)"

definition reconcileRuntime :: "AgentReconciler \<Rightarrow> gateway_ops \<Rightarrow> Agent \<Rightarrow> AgentRuntime \<Rightarrow> result op" where
  "reconcileRuntime r gw agent rt = tryThen (resolveEnvSourcesFrom agent) (\<lambda>src.
     case rev_Digest (ag_Spec agent) (env_resolved src) of
       Inl err \<Rightarrow> reportUnresolvedSources r agent (env_unresolved src) err
         (Inr (if env_unresolved src \<noteq> [] then RequeueAfter CardDriftInterval else Done))
     | Inr digest \<Rightarrow> andThen clockNow (\<lambda>at. namespace_step r gw (new_pass r at agent rt src digest)))"

section \<open>Teardown\<close>

text \<open>\<^verbatim>\<open>meta.SetStatusCondition\<close>: the transition time moves with the status only.\<close>

definition setStatusCondition :: "go_time \<Rightarrow> condition \<Rightarrow> condition list \<Rightarrow> condition list" where
  "setStatusCondition at x conds = (case findCondition conds (c_Type x) of
     None \<Rightarrow> conds @ [x\<lparr> c_LastTransitionTime := at \<rparr>]
   | Some _ \<Rightarrow> update_first (\<lambda>c. c_Type c = c_Type x) (\<lambda>c. x\<lparr> c_LastTransitionTime :=
       (if c_Status c = c_Status x then c_LastTransitionTime c else at) \<rparr>) conds)"

definition reportTeardownWaiting :: "Agent \<Rightarrow> string \<Rightarrow> result op" where
  "reportTeardownWaiting agent waiting = andThen clockNow (\<lambda>at.
     let st = ag_Status agent;
         x = \<lparr> c_Type = CondReady, c_Status = CFalse, c_ObservedGeneration = ag_Generation agent, c_LastTransitionTime = 0,
               c_Reason = ''TeardownWaiting'', c_Message = msgf ''the Agent is being deleted, and teardown is waiting'' [waiting] \<rparr> in
     tryThen (writeStatus agent (st\<lparr> st_Conditions := setStatusCondition at x (st_Conditions st) \<rparr>)) (\<lambda>_.
       Return (Inr (RequeueAfter teardownPendingRequeue))))"

definition deleteOwned :: "Agent \<Rightarrow> string \<Rightarrow> (go_error + unit) op" where
  "deleteOwned agent runNS =
     tryThen (ownedWorkloads agent runNS) (\<lambda>owned.
     tryThen (forEach (\<lambda>d. deleteGone (msgf ''delete workload'' [om_Name (dp_Meta d)]) (ODeployment d)) owned) (\<lambda>_.
     tryThen (ownedServices agent runNS) (\<lambda>svcs.
     tryThen (forEach (\<lambda>s. deleteGone (msgf ''delete service'' [om_Name (sv_Meta s)]) (OService s)) svcs) (\<lambda>_.
       deleteMaterial agent runNS [(MaterialAgentUIDLabel, ag_UID agent)]))))"

definition releaseFinalizer :: "Agent \<Rightarrow> result op" where
  "releaseFinalizer agent = Ask (PatchFinalizers agent (removeString (ag_Finalizers agent) Finalizer)) (\<lambda>a. Return (case resp_agent a of
     Inl e \<Rightarrow> Inl (ApiFail (msgf ''release finalizer'' [ag_Namespace agent, ag_Name agent]) e) | Inr _ \<Rightarrow> Inr Done))"

definition finish_teardown :: "AgentReconciler \<Rightarrow> Agent \<Rightarrow> result op" where
  "finish_teardown r agent =
     tryThen (collectPreA42Leftovers agent) (\<lambda>_.
     tryThen (releaseRunNamespaceIfLast (ac_OperatorNamespace r) agent) (\<lambda>_. releaseFinalizer agent))"

definition finalize :: "AgentReconciler \<Rightarrow> gateway_ops \<Rightarrow> Agent \<Rightarrow> result op" where
  "finalize r gw agent =
     (let runNS = RunNamespaceName (ag_Namespace agent) in
      if Finalizer \<notin> set (ag_Finalizers agent) then Return (Inr Done)
      else andThen (getObj False KNamespace as_namespace [] runNS) (\<lambda>got. case got of
         Inl e \<Rightarrow> if IsNotFound e then finish_teardown r agent
                  else Return (Inl (ApiFail (msgf ''read run namespace'' [runNS]) e))
       | Inr run \<Rightarrow>
         if om_DeletionTimestamp run \<noteq> None then finish_teardown r agent
         else tryThen (if gw_Enabled (ac_Gateway r) then go_revoke gw agent runNS else Return (Inr [])) (\<lambda>waiting.
           if waiting \<noteq> [] then reportTeardownWaiting agent waiting
           else tryThen (deleteOwned agent runNS) (\<lambda>_. finish_teardown r agent))))"

section \<open>Reconcile\<close>

definition agent_Reconcile :: "AgentReconciler \<Rightarrow> gateway_ops \<Rightarrow> string \<Rightarrow> string \<Rightarrow> result op" where
  "agent_Reconcile r gw ns name = Ask (GetAgent False ns name) (\<lambda>a. case resp_agent a of
     Inl e \<Rightarrow> Return (if IsNotFound e then Inr Done else Inl (ApiFail ''get the Agent'' e))
   | Inr agent \<Rightarrow>
     if ag_DeletionTimestamp agent \<noteq> None then finalize r gw agent
     else if Finalizer \<notin> set (ag_Finalizers agent)
     then Ask (PatchFinalizers agent (ag_Finalizers agent @ [Finalizer])) (\<lambda>a. Return (case resp_agent a of
        Inl e \<Rightarrow> Inl (ApiFail (msgf ''add finalizer'' [ns, name]) e) | Inr _ \<Rightarrow> Inr Requeue))
     else if sp_External (ag_Spec agent) \<noteq> None then reconcileExternal r agent
     else case sp_Runtime (ag_Spec agent) of
        None \<Rightarrow> reportUnreconcilable r agent
      | Some rt \<Rightarrow> reconcileRuntime r gw agent rt)"

end
