(* ===== verification/Agent_Pass.thy ===== *)
theory Agent_Pass
  imports Agent_Controller
begin

text \<open>
  What one pass of the Agent reconciler (\<open>Agent_Controller\<close>) may write of an Agent's release. The exchanges
  of a pass are arbitrary answers to its requests; a claim about a write refers to the version of the
  Agent it is made at (\<open>versions\<close>), which the API server's optimistic lock makes the version stored.

  The gateway's part of the pass is behind the locale \<open>gateway_contract\<close>: whatever it writes ahead of the
  pass's own write changes neither the active revision nor the eval record.
\<close>

section \<open>Operations that write no status\<close>

definition quiet_request :: "exchange list \<Rightarrow> req \<Rightarrow> bool" where
  "quiet_request h q \<longleftrightarrow> (case q of UpdateStatus _ \<Rightarrow> False | _ \<Rightarrow> True)"

definition quiet :: "'a op \<Rightarrow> bool" where
  "quiet m \<longleftrightarrow> (\<forall>h. op_wp quiet_request (\<lambda>_ _. True) h m)"

lemma quiet_request_simps [simp]:
  "quiet_request h (Get l k ns n)" "quiet_request h (ListOf l k ns sel)" "quiet_request h (Create x)"
  "quiet_request h (Update x)" "quiet_request h (Delete x u)" "quiet_request h ReadClock"
  "quiet_request h (GetAgent l ns n)" "quiet_request h (GetEvalSuite ns n)" "quiet_request h GetAgentCRD"
  "quiet_request h LoadEvalCheck" "quiet_request h (StoreEvalCheck c)" "quiet_request h (HttpGet url)"
  "quiet_request h (PatchFinalizers a fs)" "\<not> quiet_request h (UpdateStatus a)"
  by (simp_all add: quiet_request_def)

lemma quietI:
  assumes "\<And>h. op_wp P Q h m" and "\<And>h a. \<not> P h (UpdateStatus a)"
  shows "quiet m"
proof -
  have "op_wp quiet_request (\<lambda>_ _. True) h m" for h
    by (rule op_wp_mono [OF assms(1)]) (auto simp: quiet_request_def assms(2) split: req.split)
  then show ?thesis by (simp add: quiet_def)
qed

lemma quiet_Ask: "quiet_request [] q \<Longrightarrow> (\<And>a. quiet (k a)) \<Longrightarrow> quiet (Ask q k)"
  by (cases q) (simp_all add: quiet_def quiet_request_def)

lemma quiet_andThen: "quiet m \<Longrightarrow> (\<And>x. quiet (f x)) \<Longrightarrow> quiet (andThen m f)"
  unfolding quiet_def op_wp_andThen by (blast intro: op_wp_mono)

lemma quiet_tryThen: "quiet m \<Longrightarrow> (\<And>x. quiet (f x)) \<Longrightarrow> quiet (tryThen m f)"
  unfolding tryThen_def by (rule quiet_andThen) (auto simp: quiet_def split: sum.split)

lemma quiet_basic:
  "quiet (Return x)" "quiet clockNow" "quiet (getObj l k f ns n)" "quiet (listOr what l k f ns sel)" "quiet (deleteGone what y)"
  by (auto simp: quiet_def wp_rules)

lemma quiet_forEach: "(\<And>x. quiet (f x)) \<Longrightarrow> quiet (forEach f xs)"
  by (induction xs) (auto intro: quiet_tryThen quiet_basic)

lemmas quiet_intros = quiet_basic quiet_andThen quiet_tryThen quiet_forEach quiet_Ask

lemma quiet_components:
  "quiet (resolveEnvSourcesFrom agent)" "quiet (ensureRunNamespace opNS agent)" "quiet (releaseRunNamespaceIfLast opNS agent)"
  "quiet (ownedWorkloads agent runNS)" "quiet (resolveReleasePin agent runNS)"
  "quiet (verifyRetainedMaterial agent runNS rv digest)" "quiet (collectRevisionMaterial agent runNS keep)"
  "quiet (deleteMaterial agent runNS sel)" "quiet (collectRevisionServices agent runNS keep)"
  "quiet (ensureWorkload cfg agent rt runNS rv digest status material)"
proof -
  show "quiet (resolveEnvSourcesFrom agent)" by (rule quietI [OF resolveEnvSources_wp]) simp
  show "quiet (ensureRunNamespace opNS agent)" by (rule quietI [OF ensureRunNamespace_wp]) (simp add: ns_request_def)
  show "quiet (releaseRunNamespaceIfLast opNS agent)" by (rule quietI [OF releaseRunNamespaceIfLast_wp]) (simp add: ns_request_def)
  show "quiet (ownedWorkloads agent runNS)" by (rule quietI [OF ownedWorkloads_wp]) simp
  show "quiet (resolveReleasePin agent runNS)" by (rule quietI [OF resolveReleasePin_wp]) simp
  show "quiet (verifyRetainedMaterial agent runNS rv digest)"
    unfolding verifyRetainedMaterial_def by (rule quietI [OF verify_loop_wp [of "[]"]]) simp_all
  show "quiet (collectRevisionMaterial agent runNS keep)" by (rule quietI [OF collectRevisionMaterial_wp]) (simp add: material_delete_def)
  show "quiet (deleteMaterial agent runNS sel)" by (rule quietI [OF deleteMaterial_wp]) (simp add: material_delete_def)
  show "quiet (collectRevisionServices agent runNS keep)" by (rule quietI [OF collectRevisionServices_wp]) simp
  show "quiet (ensureWorkload cfg agent rt runNS rv digest status material)"
    by (rule quietI [OF ensureWorkload_wp]) (simp add: workload_request_def)
qed

lemma quiet_ensureRevisionMaterial: "quiet (ensureRevisionMaterial agent runNS rv digest buffers)"
proof -
  have one: "quiet (ensureOneCopy agent runNS name rv digest ref buf)" for name ref buf
    unfolding ensureOneCopy_def createMaterial_def repairMetadata_def recreateMaterial_def Let_def
    by (auto simp: quiet_def wp_rules split: sum.split option.split)
  have "quiet (material_loop agent runNS rv digest buffers i refs names)" for i refs names
    by (induction refs arbitrary: i names) (auto intro!: quiet_tryThen one simp: quiet_basic Let_def split: option.split)
  then show ?thesis by (simp add: ensureRevisionMaterial_def)
qed

lemma quiet_card: "quiet (fetchAndValidateCard r agent rt runNS rv)" "quiet (card_step r agent rt runNS rv digest acc)"
proof -
  show f: "quiet (fetchAndValidateCard r agent rt runNS rv)"
    unfolding fetchAndValidateCard_def fetchOnce_def
    by (auto simp: quiet_def wp_rules Let_def split: sum.split)
  show "quiet (card_step r agent rt runNS rv digest acc)"
    unfolding card_step_def Let_def
    by (auto intro!: quiet_intros f split: prod.split sum.split go_error.split)
qed

section \<open>What a write may change of a release\<close>

text \<open>
  The Agent was read by this pass; a write keeps the release if it leaves the active revision and the
  eval record as they are at its version (the active revision by its digest: a pass
  may rewrite its short name). A server is faithful if it stores a status as it was sent,
  in these fields, and answers the Agent it was sent for.
\<close>

definition read_agent :: "exchange list \<Rightarrow> string \<Rightarrow> string \<Rightarrow> Agent \<Rightarrow> bool" where
  "read_agent h ns name agent \<longleftrightarrow> (GetAgent False ns name, RAgent (Inr agent)) \<in> set h"

definition same_agent :: "Agent \<Rightarrow> Agent \<Rightarrow> bool" where
  "same_agent a b \<longleftrightarrow> ag_UID a = ag_UID b \<and> ag_Spec a = ag_Spec b \<and> ag_Name a = ag_Name b \<and> ag_Namespace a = ag_Namespace b"

definition keeps_release :: "AgentStatus \<Rightarrow> AgentStatus \<Rightarrow> bool" where
  "keeps_release st st' \<longleftrightarrow> st_Eval st' = st_Eval st \<and> st_ActiveRevisionDigest st' = st_ActiveRevisionDigest st"

definition faithful :: "exchange list \<Rightarrow> bool" where
  "faithful h \<longleftrightarrow> (\<forall>sent stored. (UpdateStatus sent, RAgent (Inr stored)) \<in> set h \<longrightarrow>
     keeps_release (ag_Status sent) (ag_Status stored) \<and> same_agent sent stored)"

text \<open>
  What must have been read for a promotion: the revision's Deployment, available, of this Agent and
  stamped with the digest; and, if the Agent is gated and gates are enforced, either the gate's suite with a Passed verdict in the
  record for this digest and this suite, or the suite consulted for a pin of this very digest that
  is not the spec's own revision and is not recorded as failed.
\<close>

definition available_read :: "exchange list \<Rightarrow> Agent \<Rightarrow> string \<Rightarrow> string \<Rightarrow> bool" where
  "available_read h agent rv digest \<longleftrightarrow> (\<exists>runNS d. (Get False KDeployment runNS (WorkloadName (ag_Name agent) rv), RObj (Inr (ODeployment d))) \<in> set h \<and>
     workloadAvailableIn (Inr (workload_of d)) agent digest = Inr True)"

definition suite_asked :: "exchange list \<Rightarrow> Agent \<Rightarrow> resp \<Rightarrow> bool" where
  "suite_asked h agent a \<longleftrightarrow> (GetEvalSuite (ag_Namespace agent) (gr_EvalSuiteRef (hd (sp_Gates (ag_Spec agent)))), a) \<in> set h"

definition gate_passed :: "exchange list \<Rightarrow> Agent \<Rightarrow> EvalStatus option \<Rightarrow> string \<Rightarrow> bool" where
  "gate_passed h agent ev digest \<longleftrightarrow> (\<exists>suite e. suite_asked h agent (RSuite (Inr suite)) \<and> ev = Some e \<and>
     es_Verdict e = EvalVerdictPassed \<and> es_RevisionDigest e = digest \<and> es_SuiteDigest e = suite_Digest suite)"

text \<open>The digest of the spec, with its sources as this pass read them.\<close>

definition sources_read :: "exchange list \<Rightarrow> env_sources \<Rightarrow> bool" where
  "sources_read h src \<longleftrightarrow> (\<forall>ref d. env_resolved src ref = Some d \<longrightarrow>
     (\<exists>q o'. (q, RObj (Inr (OKeyed o'))) \<in> set h \<and> d = sbuf_digest (buffer_of ref o')))"

definition spec_digest :: "exchange list \<Rightarrow> Agent \<Rightarrow> string \<Rightarrow> bool" where
  "spec_digest h agent digest \<longleftrightarrow> (\<exists>src. sources_read h src \<and> rev_Digest (ag_Spec agent) (env_resolved src) = Inr digest)"

definition pin_admitted :: "exchange list \<Rightarrow> Agent \<Rightarrow> EvalStatus option \<Rightarrow> string \<Rightarrow> bool" where
  "pin_admitted h agent ev digest \<longleftrightarrow> pin_of (ag_Spec agent) = digest \<and> (\<exists>a specDigest. suite_asked h agent a \<and> spec_digest h agent specDigest \<and> digest \<noteq> specDigest \<and>
     (\<forall>s e. resp_suite a = Inr s \<longrightarrow> ev = Some e \<longrightarrow> \<not> pairFailed (es_Failed e) digest (suite_Digest s)))"

definition may_promote :: "AgentReconciler \<Rightarrow> exchange list \<Rightarrow> Agent \<Rightarrow> EvalStatus option \<Rightarrow> string \<Rightarrow> string \<Rightarrow> bool" where
  "may_promote r h agent ev rv digest \<longleftrightarrow> available_read h agent rv digest \<and>
     (case gateModeOf (ac_EvalSuiteInstalled r) agent of
        gateUnwired \<Rightarrow> False
      | gateEnforced \<Rightarrow> gate_passed h agent ev digest \<or> pin_admitted h agent ev digest
      | _ \<Rightarrow> True)"

definition release_step :: "AgentReconciler \<Rightarrow> string \<Rightarrow> string \<Rightarrow> exchange list \<Rightarrow> AgentStatus \<Rightarrow> AgentStatus \<Rightarrow> bool" where
  "release_step r ns name h st st' \<longleftrightarrow> keeps_release st st' \<or>
     st_Eval st' = st_Eval st \<and>
     (\<exists>agent rv. read_agent h ns name agent \<and> may_promote r h agent (st_Eval st) rv (st_ActiveRevisionDigest st'))"

definition pass_request :: "AgentReconciler \<Rightarrow> string \<Rightarrow> string \<Rightarrow> exchange list \<Rightarrow> req \<Rightarrow> bool" where
  "pass_request r ns name h q = (case q of
     UpdateStatus a \<Rightarrow> faithful h \<longrightarrow> status_write (release_step r ns name h) h a
   | _ \<Rightarrow> True)"

lemma keeps_release_refl [simp]: "keeps_release st st"
  by (simp add: keeps_release_def)

lemma same_agent_refl [simp]: "same_agent a a"
  by (simp add: same_agent_def)

lemma same_agent_trans: "same_agent a b \<Longrightarrow> same_agent b c \<Longrightarrow> same_agent a c"
  by (simp add: same_agent_def)

lemma faithful_prefix: "faithful (h @ t) \<Longrightarrow> faithful h"
  by (auto simp: faithful_def)

lemma read_agent_append: "read_agent h ns name agent \<Longrightarrow> read_agent (h @ t) ns name agent"
  by (simp add: read_agent_def)

lemma sources_read_append: "sources_read h src \<Longrightarrow> sources_read (h @ t) src"
  unfolding sources_read_def by (metis UnCI set_append)

lemma spec_digest_append: "spec_digest h agent digest \<Longrightarrow> spec_digest (h @ t) agent digest"
  unfolding spec_digest_def using sources_read_append by blast

lemma available_read_append: "available_read h agent rv digest \<Longrightarrow> available_read (h @ t) agent rv digest"
  by (auto simp: available_read_def)

lemma suite_asked_append: "suite_asked h agent a \<Longrightarrow> suite_asked (h @ t) agent a"
  by (simp add: suite_asked_def)

lemma gate_passed_append: "gate_passed h agent ev digest \<Longrightarrow> gate_passed (h @ t) agent ev digest"
  unfolding gate_passed_def using suite_asked_append by blast

lemma pin_admitted_append: "pin_admitted h agent ev digest \<Longrightarrow> pin_admitted (h @ t) agent ev digest"
  unfolding pin_admitted_def using suite_asked_append spec_digest_append by blast

lemma may_promote_append: "may_promote r h agent ev rv digest \<Longrightarrow> may_promote r (h @ t) agent ev rv digest"
  unfolding may_promote_def using available_read_append gate_passed_append pin_admitted_append
  by (auto split: gateMode.split)

lemma release_step_append: "release_step r ns name h st st' \<Longrightarrow> release_step r ns name (h @ t) st st'"
  unfolding release_step_def using may_promote_append read_agent_append by blast

lemma release_step_cong:
  assumes "release_step r ns name h st st'" "keeps_release st su" "keeps_release st' su'"
  shows "release_step r ns name h su su'"
  using assms by (auto simp: release_step_def keeps_release_def)

lemma keeps_release_sel [simp]:
  "keeps_release st (st\<lparr> st_Conditions := cs \<rparr>)" "keeps_release st (st\<lparr> st_Phase := ph \<rparr>)"
  "keeps_release st (st'\<lparr> st_Conditions := cs, st_ObservedGeneration := g \<rparr>) = keeps_release st st'"
  "keeps_release st (st'\<lparr> st_Phase := ph \<rparr>) = keeps_release st st'"
  "keeps_release st (fst (pruneCards st' keep)) = keeps_release st st'"
  "keeps_release st (fst (pruneServiceRecords st' keep)) = keeps_release st st'"
  by (auto simp: keeps_release_def pruneCards_def pruneServiceRecords_def Let_def)

lemma may_promote_same: "same_agent a b \<Longrightarrow> may_promote r h a = may_promote r h b"
  by (auto simp: same_agent_def may_promote_def available_read_def gate_passed_def pin_admitted_def suite_asked_def spec_digest_def
      gateModeOf_def workloadAvailableIn_def fun_eq_iff split: gateMode.split)

lemma pass_request_quiet: "quiet_request h q \<Longrightarrow> pass_request r ns name h q"
  by (cases q) (simp_all add: quiet_request_def pass_request_def)

lemma pass_request_kept: "status_write keeps_release h a \<Longrightarrow> pass_request r ns name h (UpdateStatus a)"
  by (auto simp: pass_request_def status_write_def release_step_def)

text \<open>A silent step, whose result may be known, and what follows it.\<close>

lemma silent_andThen:
  assumes "op_wp P R h m" and "\<And>h q. P h q \<Longrightarrow> P' h q" and "\<And>t x. R (h @ t) x \<Longrightarrow> op_wp P' Q (h @ t) (f x)"
  shows "op_wp P' Q h (andThen m f)"
  unfolding op_wp_andThen
  by (rule op_wp_mono [OF op_wp_extends [OF assms(1)]]) (use assms(2,3) in auto)

lemma silent_tryThen:
  assumes "op_wp P R h m" and "\<And>h q. P h q \<Longrightarrow> P' h q" and "\<And>t x. R (h @ t) (Inr x) \<Longrightarrow> op_wp P' Q (h @ t) (f x)"
    and "\<And>t e. Q (h @ t) (Inl e)"
  shows "op_wp P' Q h (tryThen m f)"
  unfolding tryThen_def
  by (rule silent_andThen [OF assms(1,2)]) (auto simp: assms(3,4) split: sum.split)

lemma quiet_step:
  assumes "quiet m" and "\<And>t x. op_wp (pass_request r ns name) Q (h @ t) (f x)"
  shows "op_wp (pass_request r ns name) Q h (andThen m f)"
  by (rule silent_andThen [OF assms(1) [unfolded quiet_def, rule_format] pass_request_quiet assms(2)])

lemma quiet_try:
  assumes "quiet m" and "\<And>t x. op_wp (pass_request r ns name) Q (h @ t) (f x)" and "\<And>t e. Q (h @ t) (Inl e)"
  shows "op_wp (pass_request r ns name) Q h (tryThen m f)"
  unfolding tryThen_def
  by (rule quiet_step [OF assms(1)]) (auto simp: assms(2,3) split: sum.split)

lemma quiet_only: "quiet m \<Longrightarrow> (\<And>t x. Q (h @ t) x) \<Longrightarrow> op_wp (pass_request r ns name) Q h m"
  using quiet_step [of m r ns name Q h Return] by simp

section \<open>Writing\<close>

definition writable :: "AgentReconciler \<Rightarrow> string \<Rightarrow> string \<Rightarrow> exchange list \<Rightarrow> Agent \<Rightarrow> AgentStatus \<Rightarrow> bool" where
  "writable r ns name h agent status \<longleftrightarrow> faithful h \<longrightarrow>
     (\<exists>st. (ag_ResourceVersion agent, st) \<in> versions h \<and> release_step r ns name h st status)"

lemma writable_append: "writable r ns name h agent status \<Longrightarrow> writable r ns name (h @ t) agent status"
  unfolding writable_def using faithful_prefix versions_append release_step_append by blast

lemma writable_cong: "writable r ns name h agent st \<Longrightarrow> keeps_release st st' \<Longrightarrow> writable r ns name h agent st'"
  unfolding writable_def using release_step_cong keeps_release_refl by blast

lemma writable_seen: "seen h agent \<Longrightarrow> keeps_release (ag_Status agent) st \<Longrightarrow> writable r ns name h agent st"
  by (auto simp: writable_def seen_def release_step_def)

lemma writeStatus_wp:
  assumes "writable r ns name h agent status"
  shows "op_wp (pass_request r ns name) (\<lambda>h res. \<forall>a. res = Inr a \<longrightarrow> writable r ns name h a status) h (writeStatus agent status)"
proof -
  let ?s = "status\<lparr> st_Conditions := boundConditionMessages (st_Conditions status) \<rparr>"
  let ?a = "agent\<lparr> ag_Status := ?s \<rparr>"
  have k: "keeps_release status ?s" "keeps_release ?s status" by (simp_all add: keeps_release_def)
  have "writable r ns name h agent ?s" using assms k(1) by (rule writable_cong)
  then have "pass_request r ns name h (UpdateStatus ?a)"
    by (auto simp: pass_request_def writable_def status_write_def)
  moreover have "writable r ns name (h @ [(UpdateStatus ?a, RAgent (Inr b))]) b status" for b
  proof -
    have "(ag_ResourceVersion b, ?s) \<in> versions (h @ [(UpdateStatus ?a, RAgent (Inr b))])"
      using versions_written [of ?a b "h @ [(UpdateStatus ?a, RAgent (Inr b))]"] by simp
    then show ?thesis using k(2) by (auto simp: writable_def release_step_def)
  qed
  ultimately show ?thesis
    using assms by (auto simp: writeStatus_def Let_def resp_agent_Inr split: sum.split)
qed

lemma settle_then_wp:
  assumes "writable r ns name h agent status" and "\<And>h x. Q h x"
  shows "op_wp (pass_request r ns name) Q h (settle_then agent status c res)"
proof -
  have w: "op_wp (pass_request r ns name) (\<lambda>_ _. True) h' (settle agent status c)" if "writable r ns name h' agent status" for h'
    unfolding settle_def
  proof (rule quiet_step [OF quiet_basic(2)])
    fix t at
    have "writable r ns name (h' @ t) agent (status\<lparr> st_Conditions := cond_merge at c (st_Conditions (ag_Status agent)), st_ObservedGeneration := ag_Generation agent \<rparr>)"
      by (rule writable_cong [OF writable_append [OF that]]) simp
    from writeStatus_wp [OF this] show "op_wp (pass_request r ns name) (\<lambda>_ _. True) (h' @ t) (writeStatus agent
       (status\<lparr> st_Conditions := cond_merge at c (st_Conditions (ag_Status agent)), st_ObservedGeneration := ag_Generation agent \<rparr>))"
      by (rule op_wp_mono) simp_all
  qed
  show ?thesis
    unfolding settle_then_def op_wp_tryThen
    by (rule op_wp_mono [OF w [OF assms(1)]]) (auto simp: assms(2) split: sum.split)
qed

section \<open>The steps of a pass\<close>

abbreviation safe :: "AgentReconciler \<Rightarrow> string \<Rightarrow> string \<Rightarrow> exchange list \<Rightarrow> 'a op \<Rightarrow> bool" where
  "safe r ns name \<equiv> op_wp (pass_request r ns name) (\<lambda>_ _. True)"

lemma safe_settle: "writable r ns name h agent status \<Longrightarrow> safe r ns name h (settle_then agent status c res)"
  by (rule settle_then_wp) simp_all

lemma safe_quiet: "quiet m \<Longrightarrow> safe r ns name h m"
  by (rule quiet_only) simp_all

lemma resolve_loop_read:
  assumes "sources_read h out"
  shows "op_wp quiet_request (\<lambda>h res. \<forall>src. res = Inr src \<longrightarrow> sources_read h src) h (resolve_loop agent refs out)"
  using assms
proof (induction refs arbitrary: h out)
  case (Cons ref refs)
  have took: "sources_read (h @ [(q, RObj (Inr (OKeyed o')))]) (out\<lparr> env_resolved := (env_resolved out)(ref \<mapsto> sbuf_digest (buffer_of ref o')),
      env_buffers := bs \<rparr>)" for q o' bs
    using Cons.prems unfolding sources_read_def by auto metis
  have skip: "sources_read (h @ t) (out\<lparr> env_unresolved := us \<rparr>)" for t us
    using sources_read_append [OF Cons.prems, of t] by (simp add: sources_read_def)
  show ?case
    by (auto simp: wp_rules Let_def resp_obj_keyed split: sum.split intro!: Cons.IH took skip)
qed simp

text \<open>What a pass knows before it decides.\<close>

definition pass_ok :: "AgentReconciler \<Rightarrow> string \<Rightarrow> string \<Rightarrow> exchange list \<Rightarrow> pass \<Rightarrow> bool" where
  "pass_ok r ns name h p \<longleftrightarrow> seen h (pa_agent p) \<and> (\<exists>agent. read_agent h ns name agent \<and> same_agent agent (pa_agent p)) \<and>
     keeps_release (ag_Status (pa_agent p)) (pa_status p) \<and> pa_gating p = gateModeOf (ac_EvalSuiteInstalled r) (pa_agent p) \<and>
     spec_digest h (pa_agent p) (pa_specDigest p) \<and>
     (pa_pin p \<noteq> None \<and> pa_pinWhy p \<noteq> [] \<longrightarrow> pa_gating p = gateEnforced \<and> pin_admitted h (pa_agent p) (st_Eval (pa_status p)) (pa_digest p))"

lemma pass_ok_append: "pass_ok r ns name h p \<Longrightarrow> pass_ok r ns name (h @ t) p"
  unfolding pass_ok_def using seen_append read_agent_append spec_digest_append pin_admitted_append by blast

lemma pass_ok_writable:
  "pass_ok r ns name h p \<Longrightarrow> keeps_release (pa_status p) st \<Longrightarrow> writable r ns name h (pa_agent p) st"
  by (auto simp: pass_ok_def keeps_release_def intro!: writable_seen)

lemma safe_reports:
  assumes "pass_ok r ns name h p"
  shows "safe r ns name h (report_pass p phase c res)" "safe r ns name h (report_pin p u res)"
    "safe r ns name h (reportCollision rr (pa_agent p) (pa_status p) c' e res)"
    "safe r ns name h (material_failed p merr)" "safe r ns name h (no_run_namespace p reason msg terminal)"
    "safe r ns name h (service_failed rr p e')"
proof -
  have w: "writable r ns name h (pa_agent p) ((pa_status p)\<lparr> st_Phase := ph \<rparr>)" for ph
    using assms by (rule pass_ok_writable) simp
  show rep: "safe r ns name h (report_pass p phase c res)" for phase c res
    unfolding report_pass_def by (rule safe_settle [OF w])
  show "safe r ns name h (report_pin p u res)"
    unfolding report_pin_def reportUnresolvablePin_def Let_def by (rule safe_settle [OF w])
  show col: "safe r ns name h (reportCollision rr (pa_agent p) (pa_status p) c' e res)" for c' e res
    unfolding reportCollision_def Let_def by (rule safe_settle [OF w])
  show "safe r ns name h (material_failed p merr)"
    unfolding material_failed_def Let_def by (auto intro: rep)
  show "safe r ns name h (no_run_namespace p reason msg terminal)"
    unfolding no_run_namespace_def Let_def by (auto intro: rep)
  show "safe r ns name h (service_failed rr p e')"
    unfolding service_failed_def Let_def
    by (cases e') (simp_all add: rep col op_wp_if op_wp_option split: option.split)
qed

text \<open>The gate's reads: satisfied means passed for the suite that was read.\<close>

lemma readGate_wp:
  "op_wp quiet_request (\<lambda>h d. gd_satisfied d \<longrightarrow> gate_passed h agent (st_Eval status) digest) h
     (readGate r agent status desired digest available)"
proof -
  have cur: "op_wp quiet_request (\<lambda>_ _. True) h (currentServingRoute agent runNS nm)" for h runNS nm
    by (auto simp: currentServingRoute_def read_route_def wp_rules split: sum.split option.split)
  have route: "op_wp quiet_request (\<lambda>_ _. True) h (wedge_route agent status)" for h
    unfolding wedge_route_def by (auto simp: wp_rules intro!: op_wp_mono [OF cur])
  have rec: "op_wp quiet_request (\<lambda>_ _. True) h (readEvalRecord ttl)" for h ttl
    unfolding readEvalRecord_def by (auto simp: wp_rules Let_def split: prod.split)
  have pass: "gate_passed (h @ [(GetEvalSuite (ag_Namespace agent) (gr_EvalSuiteRef (hd (sp_Gates (ag_Spec agent)))), a)]) agent (st_Eval status) digest"
    if "gd_satisfied (gateFor agent status desired digest available at runNS rt (Inr []) (resp_suite a))" for h a at runNS rt
    using that
    by (cases a) (auto simp: gateFor_def Let_def gate_open_iff gate_passed_def suite_asked_def resp_suite_def split: sum.splits)
  show ?thesis
    unfolding readGate_def readSuite_def
    by (auto simp: wp_rules Let_def intro!: op_wp_mono [OF route] op_wp_mono [OF rec] pass) (auto simp: gateFor_def gate_open_iff Let_def split: sum.splits)
qed

definition gate_open :: "exchange list \<Rightarrow> pass \<Rightarrow> EvalStatus option \<Rightarrow> bool" where
  "gate_open h p ev \<longleftrightarrow> (case pa_gating p of
     gateUnwired \<Rightarrow> False
   | gateEnforced \<Rightarrow> gate_passed h (pa_agent p) ev (pa_digest p) \<or> pin_admitted h (pa_agent p) ev (pa_digest p)
   | _ \<Rightarrow> True)"

lemma gate_open_append: "gate_open h p ev \<Longrightarrow> gate_open (h @ t) p ev"
  unfolding gate_open_def using gate_passed_append pin_admitted_append by (auto split: gateMode.splits)

lemma choose_gate_wp:
  assumes "pass_ok r ns name h p" and "st_Eval status = st_Eval (pa_status p)"
  shows "op_wp quiet_request (\<lambda>h gate. gd_satisfied gate \<longrightarrow> st_ActiveRevisionDigest status = pa_digest p \<or> gate_open h p (st_Eval status)) h
     (choose_gate r p status ready)"
  unfolding choose_gate_def
  using assms by (auto simp: gate_open_def pass_ok_def intro!: op_wp_mono [OF readGate_wp] split: gateMode.split)

lemma workloadAvailable_wp:
  "op_wp quiet_request (\<lambda>h res. res = Inr True \<longrightarrow> available_read h agent rv digest) h (workloadAvailable agent runNS rv digest)"
proof -
  have "available_read (h @ [(Get False KDeployment runNS (WorkloadName (ag_Name agent) rv), a)]) agent rv digest"
    if "workloadAvailableIn (map_sum id workload_of (resp_obj as_deployment a)) agent digest = Inr True" for h a
  proof (cases "resp_obj as_deployment a")
    case (Inr d)
    with that show ?thesis by (auto simp: available_read_def resp_obj_deployment)
  qed (use that in \<open>auto simp: workloadAvailableIn_def split: if_splits\<close>)
  then show ?thesis
    unfolding workloadAvailable_def by (auto simp: wp_rules split: sum.split)
qed

lemma card_step_wp:
  "op_wp quiet_request (\<lambda>h res. \<forall>acc'. res = Inr acc' \<longrightarrow> keeps_release (fst acc) (fst acc')) h (card_step r agent rt runNS rv digest acc)"
proof -
  have rec: "keeps_release st (recordCardAttempt st rv digest at)" for st at
    by (auto simp: recordCardAttempt_def keeps_release_def Let_def split: option.split)
  show ?thesis
    unfolding card_step_def Let_def
    by (auto simp: op_wp_andThen op_wp_sum wp_rules split: prod.split sum.split go_error.split
        intro!: op_wp_mono [OF quiet_card(1) [unfolded quiet_def, rule_format]])
      (auto simp: keeps_release_def rec [unfolded keeps_release_def])
qed

section \<open>The pass over a gateway that keeps its contract\<close>

text \<open>
  The gateway's part: a status it writes keeps the release of the version it is written at; it hands
  back an Agent whose release is the one seen at its version (a failed write leaves it with the status
  that was not written), and a status whose release is the one it was given. Revoking writes no status.
\<close>

definition release_seen :: "exchange list \<Rightarrow> Agent \<Rightarrow> bool" where
  "release_seen h a \<longleftrightarrow> (\<exists>st. (ag_ResourceVersion a, st) \<in> versions h \<and> keeps_release st (ag_Status a))"

definition gateway_request :: "exchange list \<Rightarrow> req \<Rightarrow> bool" where
  "gateway_request h q = (case q of UpdateStatus a \<Rightarrow> status_write keeps_release h a | _ \<Rightarrow> True)"

definition gateway_post :: "Agent \<Rightarrow> AgentStatus \<Rightarrow> exchange list \<Rightarrow> gateway_result \<Rightarrow> bool" where
  "gateway_post agent status h res = (case res of (agent', acc, out, err) \<Rightarrow>
     release_seen h agent' \<and> (faithful h \<longrightarrow> keeps_release (ag_Status agent) (ag_Status agent')) \<and> keeps_release status (fst acc))"

lemma seen_release_seen: "seen h a \<Longrightarrow> release_seen h a"
  by (auto simp: seen_def release_seen_def)

lemma release_seen_append: "release_seen h a \<Longrightarrow> release_seen (h @ t) a"
  unfolding release_seen_def using versions_append by blast

text \<open>A desired mode that compiles is one the compiler knows.\<close>

definition compiled_desire :: "authDesire \<Rightarrow> bool" where
  "compiled_desire d \<longleftrightarrow> (\<forall>t. ad_target d = Inr t \<longrightarrow> at_Mode t \<in> {AuthModeNone, AuthModeAPIKey})"

lemma compiled_desiredAuth [simp]: "compiled_desire (desiredAuth unparse agent runNS)"
  by (auto simp: compiled_desire_def desiredAuth_def CompileAuth_def split: sum.splits if_splits)

locale gateway_contract =
  fixes gw :: gateway_ops
  assumes reconcile_kept: "seen h agent \<Longrightarrow> compiled_desire desire \<Longrightarrow>
      op_wp gateway_request (gateway_post agent (fst acc)) h (go_reconcile gw agent runNS acc desire)"
    and revoke_quiet: "quiet (go_revoke gw agent runNS)"
begin

lemma gateway_request_pass: "gateway_request h q \<Longrightarrow> pass_request r ns name h q"
  by (cases q) (auto simp: gateway_request_def pass_request_def status_write_def release_step_def)

lemma keeps_release_gateway: "keeps_release (fst acc) (fst (withholdReady out acc))" "keeps_release (fst acc) (fst (gateway_error at out e acc))"
  by (auto simp: withholdReady_def gateway_error_def keeps_release_def Let_def split: prod.split option.split)

lemma settled_kept: "keeps_release (fst acc) (settled at agent acc)"
  by (simp add: settled_def keeps_release_def split: prod.split)

lemma collectGarbage_wp:
  assumes "writable r ns name h agent status"
  shows "safe r ns name h (collectGarbage agent runNS owned status)"
proof -
  have pre: "quiet (collectPreA42Leftovers a)" for a
    unfolding collectPreA42Leftovers_def by (auto intro!: quiet_intros quiet_components)
  have w: "safe r ns name h' (tryThen (if b then writeStatus agent st' else Return (Inr agent)) collectPreA42Leftovers)"
    if "writable r ns name h' agent st'" for h' b st'
    unfolding op_wp_tryThen op_wp_if
    by (auto intro!: op_wp_mono [OF writeStatus_wp [OF that]] safe_quiet pre split: sum.split)
  show ?thesis
    unfolding collectGarbage_def Let_def
    by (intro quiet_try quiet_intros quiet_components w writable_cong [OF assms [THEN writable_append, THEN writable_append, THEN writable_append]])
       simp_all
qed

lemma finish_pass_wp:
  assumes "seen h (pa_agent p)" and "release_step r ns name h (ag_Status (pa_agent p)) (pa_status p)"
    and "compiled_desire desire"
  shows "safe r ns name h (finish_pass gw p desire n)"
  unfolding finish_pass_def
proof (rule silent_andThen [OF reconcile_kept [OF assms(1,3)] gateway_request_pass])
  fix t x
  assume "gateway_post (pa_agent p) (fst (pa_status p, pa_conds p)) (h @ t) x"
  moreover obtain agent acc out err where x: "x = (agent, acc, out, err)" by (cases x) auto
  ultimately have k: "release_seen (h @ t) agent" "faithful (h @ t) \<longrightarrow> keeps_release (ag_Status (pa_agent p)) (ag_Status agent)"
    "keeps_release (pa_status p) (fst acc)" by (auto simp: gateway_post_def)
  have w: "writable r ns name (h @ t) agent st" if "keeps_release (fst acc) st" for st
  proof -
    have "keeps_release (pa_status p) st" using that k(3) by (simp add: keeps_release_def)
    then show ?thesis
      using k(1,2) release_step_cong [OF release_step_append [OF assms(2)]]
      unfolding writable_def release_seen_def keeps_release_def by metis
  qed
  have e: "keeps_release (fst acc) (settled at agent (gateway_error at out e acc))"
     "keeps_release (fst acc) (settled at agent (withholdReady out acc))" for at e
    using settled_kept keeps_release_gateway by (simp_all add: keeps_release_def)
  have e1: "safe r ns name (h @ t @ u) (tryThen (writeStatus agent (settled at agent (gateway_error at out e acc))) (\<lambda>_. Return (Inl e)))" for u at e
    unfolding op_wp_tryThen
    using op_wp_mono [OF writeStatus_wp [OF writable_append [OF w [OF e(1)]]]] by (force split: sum.split)
  have e2: "safe r ns name (h @ t @ u) (tryThen (writeStatus agent (settled at agent (withholdReady out acc))) (\<lambda>agent'.
         tryThen (collectGarbage agent' (pa_runNS p) (pa_owned p) (settled at agent (withholdReady out acc))) (\<lambda>_.
           Return (Inr (requeue_after (earliest n (gw_requeue out)))))))" for u at
    unfolding op_wp_tryThen
    by (rule op_wp_mono [OF writeStatus_wp [OF writable_append [OF w [OF e(2)], of u at, simplified]]])
      (auto split: sum.split intro!: op_wp_mono [OF collectGarbage_wp])
  show "safe r ns name (h @ t) (case x of (agent, acc, out, err) \<Rightarrow> andThen clockNow (\<lambda>at.
       case err of
         Some (GoPanic p) \<Rightarrow> Return (Inl (GoPanic p))
       | Some rerr \<Rightarrow> tryThen (writeStatus agent (settled at agent (gateway_error at out rerr acc))) (\<lambda>_. Return (Inl rerr))
       | None \<Rightarrow>
         let status = settled at agent (withholdReady out acc) in
         tryThen (writeStatus agent status) (\<lambda>agent.
         tryThen (collectGarbage agent (pa_runNS p) (pa_owned p) status) (\<lambda>_.
           Return (Inr (requeue_after (earliest n (gw_requeue out)))))))) "
    unfolding x prod.case Let_def
    by (rule quiet_step [OF quiet_basic(2)]) (auto simp: e1 e2 split: option.split go_error.split)
qed

lemma address_step_wp:
  assumes "seen h (pa_agent p)" and "release_step r ns name h (ag_Status (pa_agent p)) (pa_status p)"
    and "compiled_desire desire"
  shows "safe r ns name h (address_step gw p desire n)"
proof -
  have q: "quiet (activeRevisionUnaddressable agent runNS status desired)" for agent runNS status desired
    unfolding activeRevisionUnaddressable_def by (auto simp: Let_def intro!: quiet_intros)
  have k: "release_step r ns name h' (ag_Status (pa_agent p)) ((pa_status p)\<lparr> st_Phase := ph \<rparr>)"
    if "release_step r ns name h' (ag_Status (pa_agent p)) (pa_status p)" for ph h'
    using release_step_cong [OF that, of _ "(pa_status p)\<lparr> st_Phase := ph \<rparr>"] by simp
  show ?thesis
    unfolding address_step_def Let_def
    by (rule quiet_step [OF q], rule finish_pass_wp) (auto simp: assms seen_append intro!: release_step_append k)
qed

text \<open>The decision. What the rollout makes active is what was found available, with its gate open.\<close>

lemma rollout_release:
  assumes "pass_ok r ns name h p" and "keeps_release (pa_status p) st"
    and "ro_ready inp \<longrightarrow> available_read h (pa_agent p) (pa_desired p) (pa_digest p)"
    and "gd_satisfied (ro_gate inp) \<longrightarrow> st_ActiveRevisionDigest st = pa_digest p \<or> gate_open h p (st_Eval st)"
    and "ro_desired inp = pa_desired p" "ro_digest inp = pa_digest p"
  shows "release_step r ns name h (ag_Status (pa_agent p)) (fst (rollout inp (st, c)))"
proof -
  let ?st = "fst (rollout inp (st, c))"
  have eval: "st_Eval ?st = st_Eval st"
    by (auto simp: rollout_def branch_of_def promote_def not_available_def as_candidate_def no_candidate_def Let_def)
  have "keeps_release st ?st \<or> st_ActiveRevision ?st = pa_desired p \<and> st_ActiveRevisionDigest ?st = pa_digest p \<and>
      pa_digest p \<noteq> st_ActiveRevisionDigest st \<and> ro_ready inp \<and> gd_satisfied (ro_gate inp)"
    using assms(5,6)
    by (auto simp: rollout_def branch_of_def promote_def not_available_def as_candidate_def no_candidate_def keeps_release_def Let_def)
  then show ?thesis
  proof
    assume "keeps_release st ?st"
    with assms(1,2) show ?thesis by (auto simp: pass_ok_def release_step_def keeps_release_def)
  next
    assume pr: "st_ActiveRevision ?st = pa_desired p \<and> st_ActiveRevisionDigest ?st = pa_digest p \<and>
      pa_digest p \<noteq> st_ActiveRevisionDigest st \<and> ro_ready inp \<and> gd_satisfied (ro_gate inp)"
    then have "may_promote r h (pa_agent p) (st_Eval st) (pa_desired p) (pa_digest p)"
      using assms(1,3,4) by (auto simp: may_promote_def gate_open_def pass_ok_def split: gateMode.splits)
    moreover obtain agent where "read_agent h ns name agent" "same_agent agent (pa_agent p)"
      using assms(1) by (auto simp: pass_ok_def)
    moreover have "st_Eval st = st_Eval (ag_Status (pa_agent p))"
      using assms(1,2) by (simp add: pass_ok_def keeps_release_def)
    ultimately show ?thesis
      using pr eval may_promote_same unfolding release_step_def by metis
  qed
qed

lemma rollout_step_wp:
  assumes "pass_ok r ns name h p" and "keeps_release (pa_status p) (fst acc)"
    and "ready \<longrightarrow> available_read h (pa_agent p) (pa_desired p) (pa_digest p)"
    and "gd_satisfied gate \<longrightarrow> st_ActiveRevisionDigest (fst acc) = pa_digest p \<or> gate_open h p (st_Eval (fst acc))" and "compiled_desire desire"
  shows "safe r ns name h (rollout_step gw p desire authHold ready acc gate av)"
proof -
  have "seen h (pa_agent p)" using assms(1) by (simp add: pass_ok_def)
  then show ?thesis
    unfolding rollout_step_def Let_def
    by (intro address_step_wp) (use assms in \<open>simp_all, intro rollout_release [of r ns name h p "fst acc" _ "snd acc", simplified], simp_all\<close>)
qed

lemma decide_step_wp:
  assumes "pass_ok r ns name h p"
  shows "safe r ns name h (decide_step r gw p)"
proof -
  let ?av = "\<lambda>h ready. ready \<longrightarrow> available_read h (pa_agent p) (pa_desired p) (pa_digest p)"
  have ok: "pass_ok r ns name (h @ t) p" for t using assms by (rule pass_ok_append)
  have av: "op_wp quiet_request (\<lambda>h res. \<forall>ready. res = Inr ready \<longrightarrow> ?av h ready) h
      (workloadAvailable (pa_agent p) (pa_runNS p) (pa_desired p) (pa_digest p))"
    by (rule op_wp_mono [OF workloadAvailable_wp]) auto
  have card: "op_wp quiet_request (\<lambda>h res. \<forall>acc. res = Inr acc \<longrightarrow> keeps_release (pa_status p) (fst acc)) h'
      (if b then card_step r (pa_agent p) (pa_runtime p) (pa_runNS p) (pa_desired p) (pa_digest p) (pa_status p, pa_conds p)
       else Return (Inr (pa_status p, pa_conds p)))" for h' b
    using card_step_wp [of "(pa_status p, pa_conds p)"] by auto
  have q: "quiet (if b then revisionAvailable (pa_agent p) (pa_runNS p) rv dg else Return False)" for b rv dg
    unfolding revisionAvailable_def workloadAvailable_def by (auto intro!: quiet_intros split: sum.split)
  have roll: "safe r ns name ((((h @ t1) @ t2) @ t3) @ t4) (rollout_step gw p desire hold ready acc gate b)"
    if "?av (h @ t1) ready" "keeps_release (pa_status p) (fst acc)" "compiled_desire desire"
      "gd_satisfied gate \<longrightarrow> st_ActiveRevisionDigest (fst acc) = pa_digest p \<or> gate_open (((h @ t1) @ t2) @ t3) p (st_Eval (fst acc))"
    for t1 t2 t3 t4 desire hold ready acc gate b
    using that ok available_read_append [of "h @ t1" _ _ _ "t2 @ t3 @ t4"] gate_open_append [of "((h @ t1) @ t2) @ t3" _ _ t4]
    by (intro rollout_step_wp) auto
  have gated: "safe r ns name ((h @ t1) @ t2) (andThen (choose_gate r p (fst acc) ready) (\<lambda>gate.
      andThen (if c then revisionAvailable (pa_agent p) (pa_runNS p) rv dg else Return False)
        (\<lambda>b. rollout_step gw p desire hold ready acc gate b)))"
    if "?av (h @ t1) ready" "keeps_release (pa_status p) (fst acc)" "compiled_desire desire" for t1 t2 desire hold ready acc c rv dg
  proof -
    have ok2: "pass_ok r ns name ((h @ t1) @ t2) p" using ok [of "t1 @ t2"] by simp
    have ev: "st_Eval (fst acc) = st_Eval (pa_status p)" using that(2) by (simp add: keeps_release_def)
    show ?thesis
      by (rule silent_andThen [OF choose_gate_wp [OF ok2 ev] pass_request_quiet], assumption, rule quiet_step [OF q])
         (rule roll [OF that], assumption)
  qed
  show ?thesis
    unfolding decide_step_def Let_def
    by (rule silent_tryThen [OF av pass_request_quiet], assumption, rule silent_tryThen [OF card pass_request_quiet], assumption,
        rule gated) simp_all
qed

lemma only_services_release: "only_services st st' \<Longrightarrow> keeps_release st st'"
  by (auto simp: keeps_release_def dest: only_services_sel)

lemma service_step_wp:
  assumes "pass_ok r ns name h p"
  shows "safe r ns name h (service_step r gw p)"
proof (cases "pa_pin p")
  case None
  have req: "service_request agent status rv digest h q \<Longrightarrow> pass_request r ns name h q" for agent status rv digest h q
    by (cases q) (auto simp: service_request_def pass_request_def status_write_def release_step_def intro: only_services_release)
  have ok: "pass_ok r ns name (h @ t) (p\<lparr> pa_agent := agent, pa_status := status \<rparr>)"
    if "service_post (pa_agent p) (pa_status p) (h @ t) (agent, status, e)" for t agent status e
  proof -
    have s: "seen (h @ t) agent" "only_services (pa_status p) status" "only_services (ag_Status (pa_agent p)) (ag_Status agent)"
      "same_agent (pa_agent p) agent" using that by (auto simp: service_post_def same_agent_def)
    have k: "keeps_release (ag_Status agent) status"
      using assms only_services_release [OF s(2)] only_services_release [OF s(3)] by (simp add: pass_ok_def keeps_release_def)
    obtain a where "read_agent (h @ t) ns name a" "same_agent a (pa_agent p)"
      using assms read_agent_append unfolding pass_ok_def by blast
    with s k show ?thesis
      using spec_digest_append [of h "pa_agent p" "pa_specDigest p" t] assms None
      by (auto simp: pass_ok_def same_agent_def spec_digest_def gateModeOf_def)
  qed
  show ?thesis
    unfolding service_step_def None Let_def
    using assms ok by (auto simp: pass_ok_def intro!: silent_andThen [OF ensureService_wp req] decide_step_wp safe_reports split: option.split)
qed (auto simp: service_step_def intro: decide_step_wp assms)

lemma workload_step_wp:
  assumes "pass_ok r ns name h p"
  shows "safe r ns name h (workload_step r gw p material)"
proof (cases "pa_pin p")
  case None
  have ok: "pass_ok r ns name (h @ t) p" for t using assms by (rule pass_ok_append)
  show ?thesis
    unfolding workload_step_def None
    by (simp, rule quiet_step [OF quiet_components(10)])
       (auto split: sum.split go_error.split option.split intro!: service_step_wp safe_reports ok)
qed (auto simp: workload_step_def intro: service_step_wp assms)

lemma material_step_wp:
  assumes "pass_ok r ns name h p"
  shows "safe r ns name h (material_step r gw p)"
proof -
  have ok: "pass_ok r ns name (h @ t) p" for t using assms by (rule pass_ok_append)
  have f: "safe r ns name (h @ t) (case res of Inr u \<Rightarrow> workload_step r gw p (m u) | Inl (PinUnresolvable u) \<Rightarrow> report_pin p u (Inr Done)
      | Inl e \<Rightarrow> material_failed p e)" for t res m
    by (auto split: sum.split go_error.split intro!: workload_step_wp safe_reports ok)
  show ?thesis
    unfolding material_step_def
    by (auto split: option.split sum.split go_error.split intro!: quiet_step quiet_components quiet_ensureRevisionMaterial
       workload_step_wp safe_reports ok assms)
qed

lemma desired_step_wp:
  assumes "pass_ok r ns name h p"
  shows "safe r ns name h (desired_step r gw p)"
proof -
  have "pass_ok r ns name h (p\<lparr> pa_status := supersede (pa_digest p) (pa_status p) \<rparr>)"
    using assms by (auto simp: pass_ok_def keeps_release_def supersede_def)
  then show ?thesis
    unfolding desired_step_def by (auto split: option.split intro: material_step_wp safe_reports assms)
qed

text \<open>The pin: under an enforced gate it replaces the wanted revision only once the rule admits it.\<close>

lemma readPinRule_wp:
  "op_wp quiet_request (\<lambda>h res. \<forall>why. res = Inr why \<longrightarrow> rp_Digest pin \<noteq> st_ActiveRevisionDigest status \<longrightarrow>
      rp_Digest pin \<noteq> specDigest \<and> (\<exists>a. suite_asked h agent a \<and>
        (\<forall>s e. resp_suite a = Inr s \<longrightarrow> st_Eval status = Some e \<longrightarrow> \<not> pairFailed (es_Failed e) (rp_Digest pin) (suite_Digest s)))) h
     (readPinRule agent status pin specDigest)"
proof -
  have "suite_Digest s \<noteq> []" for s by (simp add: suite_Digest_def)
  then have "pinRule got agent status pd sd = Inr why \<Longrightarrow> pd \<noteq> st_ActiveRevisionDigest status \<Longrightarrow>
      pd \<noteq> sd \<and> (\<forall>s e. got = Inr s \<longrightarrow> st_Eval status = Some e \<longrightarrow> \<not> pairFailed (es_Failed e) pd (suite_Digest s))" for got why pd sd
    by (auto simp: pinRule_def pinIneligible_def Let_def split: sum.splits option.splits if_splits)
  then show ?thesis
    unfolding readPinRule_def readSuite_def
    by (auto simp: wp_rules suite_asked_def split: sum.split)
qed

lemma pass_ok_pinned:
  assumes "pass_ok r ns name h p"
    and "why \<noteq> [] \<longrightarrow> pa_gating p = gateEnforced \<and> pin_admitted h (pa_agent p) (st_Eval (pa_status p)) (rp_Digest pin)"
  shows "pass_ok r ns name h (pinned pin why p)"
  using assms by (auto simp: pass_ok_def pinned_def)

lemma pin_rule_step_wp:
  assumes ok: "pass_ok r ns name h p" and "pa_gating p = gateEnforced" and pin: "rp_Digest pin = pin_of (ag_Spec (pa_agent p))"
    and spec: "pa_digest p = pa_specDigest p"
  shows "safe r ns name h (pin_rule_step r gw p pin)"
proof -
  have ok': "pass_ok r ns name (h @ t) p" for t using ok by (rule pass_ok_append)
  have rule: "safe r ns name (h @ t) (andThen (readPinRule (pa_agent p) (pa_status p) pin (pa_digest p)) (\<lambda>rule. case rule of
           Inl u \<Rightarrow> report_pin p u wait
         | Inr why \<Rightarrow> desired_step r gw (pinned pin why p)))"
    if "rp_Digest pin \<noteq> st_ActiveRevisionDigest (pa_status p)" for t wait
  proof (rule silent_andThen [OF readPinRule_wp pass_request_quiet], assumption, rename_tac u res, case_tac res)
    fix u why and res :: "unresolvablePinError + string"
    assume r: "\<forall>why. res = Inr why \<longrightarrow> rp_Digest pin \<noteq> st_ActiveRevisionDigest (pa_status p) \<longrightarrow> rp_Digest pin \<noteq> pa_digest p \<and>
        (\<exists>a. suite_asked ((h @ t) @ u) (pa_agent p) a \<and> (\<forall>s e. resp_suite a = Inr s \<longrightarrow> st_Eval (pa_status p) = Some e \<longrightarrow>
           \<not> pairFailed (es_Failed e) (rp_Digest pin) (suite_Digest s)))" and res: "res = Inr why"
    have "spec_digest ((h @ t) @ u) (pa_agent p) (pa_digest p)"
      using ok' [of "t @ u"] spec by (simp add: pass_ok_def)
    with r res that have "pin_admitted ((h @ t) @ u) (pa_agent p) (st_Eval (pa_status p)) (rp_Digest pin)"
      unfolding pin_admitted_def pin [symmetric] by blast
    then have "pass_ok r ns name ((h @ t) @ u) (pinned pin why p)"
      using ok' [of "t @ u"] assms(2) by (intro pass_ok_pinned) auto
    then show "safe r ns name ((h @ t) @ u) (case res of
           Inl u \<Rightarrow> report_pin p u wait
         | Inr why \<Rightarrow> desired_step r gw (pinned pin why p))"
      using desired_step_wp res by simp
  qed (use ok' [of "t @ _"] in \<open>auto intro!: safe_reports\<close>)
  show ?thesis
    unfolding pin_rule_step_def
    by (rule quiet_step [OF quiet_components(6)])
       (auto split: sum.split go_error.split intro!: safe_reports ok' rule desired_step_wp pass_ok_pinned)
qed

lemma pin_step_wp:
  assumes "pass_ok r ns name h p" and "pa_digest p = pa_specDigest p"
  shows "safe r ns name h (pin_step r gw p)"
proof -
  have ok: "pass_ok r ns name (h @ t) p" for t using assms(1) by (rule pass_ok_append)
  have req: "q = ListOf False KDeployment (pa_runNS p) [(LabelAgent, ag_Name (pa_agent p))] \<Longrightarrow> pass_request r ns name h q" for h q
    by (simp add: pass_request_def)
  show ?thesis
    unfolding pin_step_def
    by (rule silent_andThen [OF resolveReleasePin_wp req], assumption)
       (auto split: sum.split option.split go_error.split intro!: safe_reports ok desired_step_wp pass_ok_pinned pin_rule_step_wp assms(2))
qed

lemma namespace_step_wp:
  assumes "pass_ok r ns name h p" and "pa_digest p = pa_specDigest p"
  shows "safe r ns name h (namespace_step r gw p)"
proof -
  have ok: "pass_ok r ns name (h @ t) p" for t using assms(1) by (rule pass_ok_append)
  have ok2: "pass_ok r ns name (h @ t) (p\<lparr> pa_runNS := x, pa_owned := y \<rparr>)" for t x y using ok [of t] by (auto simp: pass_ok_def)
  have own: "safe r ns name (h @ t) (tryThen (ownedWorkloads (pa_agent p) runNS) (\<lambda>owned.
       pin_step r gw (p\<lparr> pa_runNS := runNS, pa_owned := owned \<rparr>)))" for t runNS
    by (rule quiet_try [OF quiet_components(4)]) (use ok2 [of "t @ _"] assms(2) in \<open>auto intro!: pin_step_wp\<close>)
  show ?thesis
    unfolding namespace_step_def
    by (rule quiet_step [OF quiet_components(2)])
       (auto split: sum.split go_error.split intro!: safe_reports ok own)
qed

lemma reconcileRuntime_wp:
  assumes "read_agent h ns name agent"
  shows "safe r ns name h (reconcileRuntime r gw agent rt)"
proof -
  have seen: "seen (h @ t) agent" for t
    using assms by (auto simp: read_agent_def seen_def intro!: versions_append versions_read)
  have src: "op_wp quiet_request (\<lambda>h res. \<forall>src. res = Inr src \<longrightarrow> sources_read h src) h (resolveEnvSourcesFrom agent)"
    unfolding resolveEnvSourcesFrom_def by (rule resolve_loop_read) (simp add: sources_read_def)
  have go: "safe r ns name (h @ t @ u) (namespace_step r gw (new_pass r at agent rt src digest))"
    if "sources_read (h @ t) src" "rev_Digest (ag_Spec agent) (env_resolved src) = Inr digest" for t u at src digest
  proof -
    have "spec_digest (h @ t @ u) agent digest"
      using that sources_read_append [of "h @ t" src u] unfolding spec_digest_def by auto
    moreover have "read_agent (h @ t @ u) ns name agent" using assms by (simp add: read_agent_append)
    ultimately show ?thesis
      using seen [of "t @ u"] by (intro namespace_step_wp) (auto simp: pass_ok_def new_pass_def Let_def intro: same_agent_refl)
  qed
  have rep: "safe r ns name (h @ t) (reportUnresolvedSources r agent un cause res)" for t un cause res
    unfolding reportUnresolvedSources_def Let_def
    by (rule quiet_step [OF quiet_basic(2)], rule safe_settle, rule writable_seen) (use seen [of "t @ _"] in simp_all)
  show ?thesis
    unfolding reconcileRuntime_def
    by (rule silent_tryThen [OF src pass_request_quiet], assumption)
       (auto simp: rep go split: sum.split intro!: quiet_step quiet_basic)
qed

lemma finalize_wp:
  assumes "seen h agent"
  shows "safe r ns name h (finalize r gw agent)"
proof -
  have seen: "seen (h @ t) agent" for t using assms by (rule seen_append)
  have q1: "quiet (finish_teardown r agent)"
    unfolding finish_teardown_def collectPreA42Leftovers_def releaseFinalizer_def
    by (auto intro!: quiet_intros quiet_components)
  have q2: "quiet (deleteOwned agent runNS)" for runNS
    unfolding deleteOwned_def ownedServices_def by (auto intro!: quiet_intros quiet_components)
  have rep: "safe r ns name (h @ t) (reportTeardownWaiting agent waiting)" for t waiting
  proof -
    have "writable r ns name ((h @ t) @ u) agent ((ag_Status agent)\<lparr> st_Conditions := cs \<rparr>)" for u cs
      using seen [of "t @ u"] by (intro writable_seen) simp_all
    from op_wp_mono [OF writeStatus_wp [OF this], where Q' = "\<lambda>_ _. True" and P' = "pass_request r ns name"]
    have w: "safe r ns name ((h @ t) @ u) (writeStatus agent ((ag_Status agent)\<lparr> st_Conditions := cs \<rparr>))" for u cs
      by simp
    show ?thesis
      unfolding reportTeardownWaiting_def Let_def
      by (rule quiet_step [OF quiet_basic(2)], unfold op_wp_tryThen, rule op_wp_mono [OF w]) (auto split: sum.split)
  qed
  have rest: "safe r ns name (h @ t) (tryThen (if b then go_revoke gw agent runNS else Return (Inr [])) (\<lambda>waiting.
           if waiting \<noteq> [] then reportTeardownWaiting agent waiting
           else tryThen (deleteOwned agent runNS) (\<lambda>_. finish_teardown r agent)))" for t b runNS
    by (rule quiet_try)
       (auto intro!: revoke_quiet quiet_basic rep safe_quiet quiet_tryThen q1 q2 simp: append_assoc)
  show ?thesis
    unfolding finalize_def Let_def op_wp_if
  proof (rule if_split [THEN iffD2], intro conjI impI)
    show "safe r ns name h (andThen (getObj False KNamespace as_namespace [] (RunNamespaceName (ag_Namespace agent))) (\<lambda>got. case got of
         Inl e \<Rightarrow> if IsNotFound e then finish_teardown r agent
                  else Return (Inl (ApiFail (msgf ''read run namespace'' [RunNamespaceName (ag_Namespace agent)]) e))
       | Inr run \<Rightarrow>
         if om_DeletionTimestamp run \<noteq> None then finish_teardown r agent
         else tryThen (if gw_Enabled (ac_Gateway r) then go_revoke gw agent (RunNamespaceName (ag_Namespace agent)) else Return (Inr [])) (\<lambda>waiting.
           if waiting \<noteq> [] then reportTeardownWaiting agent waiting
           else tryThen (deleteOwned agent (RunNamespaceName (ag_Namespace agent))) (\<lambda>_. finish_teardown r agent))))"
      by (rule quiet_step [OF quiet_basic(3)])
         (simp only: op_wp_sum op_wp_if rest op_wp.simps safe_quiet [OF q1] if_cancel HOL.simp_thms split: sum.split)
  qed simp
qed

lemma agent_Reconcile_wp: "safe r ns name [] (agent_Reconcile r gw ns name)"
proof -
  let ?q = "GetAgent False ns name"
  have read: "read_agent [(?q, RAgent (Inr agent))] ns name agent" for agent by (simp add: read_agent_def)
  have seen: "seen [(?q, RAgent (Inr agent))] agent" for agent by (auto simp: seen_def intro: versions_read)
  have ext: "safe r ns name [(?q, RAgent (Inr agent))] (reconcileExternal r agent)"
    "safe r ns name [(?q, RAgent (Inr agent))] (reportUnreconcilable r agent)" for agent
    unfolding reconcileExternal_def reportUnreconcilable_def Let_def
    by (rule quiet_step [OF quiet_basic(2)], rule safe_settle, rule writable_seen [OF seen_append [OF seen]], simp)+
  show ?thesis
    unfolding agent_Reconcile_def
    by (auto simp: pass_request_def resp_agent_Inr split: sum.split option.split
        intro!: ext reconcileRuntime_wp read finalize_wp seen)
qed

end

end
