(* ===== verification/Auth_Served.thy ===== *)
theory Auth_Served
  imports Agent_Controller
begin

text \<open>
  What the gateway says of a served Agent, and what a pass reports of it: the route's and the policy's
  report at the generation they are at (\<^verbatim>\<open>authserved.go\<close>), the claims status keeps of them between
  passes, and whether the source of API keys the policy selects holds a key (\<^verbatim>\<open>authkeysource.go\<close>).

  A judgement is a function of a status, a set of assertions and an outcome to the three (\<open>judged\<close>). It
  withdraws nothing: it claims, it clears, or it holds the claim of an earlier pass.
\<close>

section \<open>Reports\<close>

datatype gatewayReport = reportUnknown | reportBroken | reportHolding

datatype policyClause = clauseUnknown | clauseUnattached | clauseRejected | clausePartlyValid

definition reported_at :: "int \<Rightarrow> condition list \<Rightarrow> string \<Rightarrow> condition option" where
  "reported_at gen conds t = (case findCondition conds t of
     None \<Rightarrow> None | Some c \<Rightarrow> if c_ObservedGeneration c = gen then Some c else None)"

definition routeReport :: "HTTPRoute option \<Rightarrow> GatewayConfig \<Rightarrow> gatewayReport \<times> string" where
  "routeReport r gw = (case r of
     None \<Rightarrow> (reportUnknown, [])
   | Some rt \<Rightarrow> (case find (\<lambda>p. gateway_parent gw rt p \<and> rs_ControllerName p = AgentgatewayControllerName) (hr_Parents rt) of
       None \<Rightarrow> (reportUnknown, [])
     | Some p \<Rightarrow>
       let isKnown = List.map_filter (reported_at (hr_Generation rt) (rs_Conditions p)) [''Accepted'', ''ResolvedRefs''] in
       (case find (\<lambda>c. c_Status c = CFalse) isKnown of
          Some c \<Rightarrow> (reportBroken, msgf ''the Gateway reports the route refused'' [route_where rt, gw_Namespace gw, gw_Name gw, c_Type c, c_Reason c, c_Message c])
        | None \<Rightarrow> if length isKnown = 2 then (reportHolding, []) else (reportUnknown, []))))"

definition reports_false :: "condition option \<Rightarrow> bool" where
  "reports_false x \<longleftrightarrow> (case x of None \<Rightarrow> False | Some c \<Rightarrow> c_Status c = CFalse)"

definition condition_note :: "string \<Rightarrow> GatewayConfig \<Rightarrow> condition option \<Rightarrow> string" where
  "condition_note at gw x = (case x of None \<Rightarrow> []
     | Some c \<Rightarrow> msgf ''the Gateway reports the policy'' [at, gw_Namespace gw, gw_Name gw, c_Type c, cond_status_text (c_Status c), c_Reason c, c_Message c])"

definition policyReport :: "PolicyObject option \<Rightarrow> GatewayConfig \<Rightarrow> gatewayReport \<times> policyClause \<times> string" where
  "policyReport r gw = (case r of
     None \<Rightarrow> (reportUnknown, clauseUnknown, [])
   | Some p \<Rightarrow>
     let at = policy_where p in
     (case find status_summary (pl_Ancestors p) of
        Some m \<Rightarrow> (reportBroken, clauseUnattached, msgf ''the policy attached to nothing'' [at, describeConditions m])
      | None \<Rightarrow> (case find (gateway_ancestor gw) (rev (pl_Ancestors p)) of
          None \<Rightarrow> (reportUnknown, clauseUnknown, [])
        | Some m \<Rightarrow>
          let accepted = reported_at (pl_Generation p) (an_Conditions m) ''Accepted'';
              attached = reported_at (pl_Generation p) (an_Conditions m) ''Attached'' in
          if reports_false attached then (reportBroken, clauseUnattached, condition_note at gw attached)
          else if reports_false accepted then (reportBroken, clauseRejected, condition_note at gw accepted)
          else if (case accepted of None \<Rightarrow> False | Some c \<Rightarrow> c_Status c = CTrue \<and> c_Reason c \<noteq> ''Valid'')
          then (reportBroken, clausePartlyValid, condition_note at gw accepted)
          else if accepted \<noteq> None \<and> attached \<noteq> None then (reportHolding, clauseUnknown, [])
          else (reportUnknown, clauseUnknown, []))))"

section \<open>Claims\<close>

record servedClaims =
  cl_routeRefused :: bool
  cl_policyUnattached :: bool
  cl_keySourceEmpty :: bool

definition storedClaims :: "Agent \<Rightarrow> servedClaims" where
  "storedClaims agent = (case st_Auth (ag_Status agent) of
     None \<Rightarrow> \<lparr> cl_routeRefused = False, cl_policyUnattached = False, cl_keySourceEmpty = False \<rparr>
   | Some a \<Rightarrow> \<lparr> cl_routeRefused = au_RouteRefused a, cl_policyUnattached = au_PolicyUnattached a, cl_keySourceEmpty = au_KeySourceEmpty a \<rparr>)"

definition claims_in :: "servedClaims \<Rightarrow> AuthStatus \<Rightarrow> AuthStatus" where
  "claims_in cl a = a\<lparr> au_RouteRefused := cl_routeRefused cl, au_PolicyUnattached := cl_policyUnattached cl, au_KeySourceEmpty := cl_keySourceEmpty cl \<rparr>"

text \<open>\<^verbatim>\<open>writeTo\<close>.\<close>

definition writeTo :: "servedClaims \<Rightarrow> AgentStatus \<Rightarrow> AgentStatus" where
  "writeTo cl status = status\<lparr> st_Auth := map_option (claims_in cl) (st_Auth status) \<rparr>"

section \<open>Messages\<close>

abbreviation heldMark :: string where "heldMark \<equiv> '' | carried from the last pass that got a report''"
abbreviation heldNote :: string where "heldNote \<equiv> '' | carried from the last pass that got a report; the Gateway has not reported since''"
abbreviation unjudgedNote :: string where "unjudgedNote \<equiv> '' | carried from the last pass that got a report; this pass judged no policy''"

definition erroredNote :: "go_error \<Rightarrow> string" where
  "erroredNote e = '' | carried across a pass whose -auth step could not complete'' @ msgf ''; the objects were not re-read'' [go_text e]"

definition heldMessage :: "string \<Rightarrow> string \<Rightarrow> string" where
  "heldMessage fallback note = fallback @ note"

definition routeRefusedMessage :: "string \<Rightarrow> string" where
  "routeRefusedMessage why = msgf ''the Gateway is not accepting this Agent's serving route'' [why]"

datatype routeLead = routeServing | routeNamed | routeUnread

definition servedRouteLead :: "gatewayReport \<Rightarrow> servedClaims \<Rightarrow> routeLead" where
  "servedRouteLead rep stored =
     (if rep = reportHolding then routeServing
      else if rep = reportBroken \<or> cl_routeRefused stored then routeNamed else routeUnread)"

definition routeHedge :: "routeLead \<Rightarrow> string" where
  "routeHedge route = (if route = routeNamed then ''this pass did not read the route as accepted; PolicyApplyIncomplete carries its reading: ''
     else ''this pass did not read the route as accepted, and no refusal of it stands: '')"

definition policyBrokenMessage :: "policyClause \<Rightarrow> string \<Rightarrow> routeLead \<Rightarrow> bool \<Rightarrow> string" where
  "policyBrokenMessage clause why route judged =
     (let lead = (case clause of
            clauseUnattached \<Rightarrow> if route = routeServing then ''the route is serving while the Gateway does not attach the policy: ''
              else ''the Gateway does not attach the policy. '' @ routeHedge route
          | clauseRejected \<Rightarrow> if route = routeServing then ''the route is serving while the Gateway rejected the policy: ''
              else ''the Gateway rejected the policy outright. '' @ routeHedge route
          | clausePartlyValid \<Rightarrow> ''the Gateway accepted the policy but not the whole of it: ''
          | clauseUnknown \<Rightarrow> ''a claim from an earlier pass is standing, and this pass re-derived nothing: '');
          consequence = (if clause = clauseUnattached \<or> clause = clauseRejected then ''. The hole is announced, not closed'' else []) @
            (if judged then ''. The policy is present, carries this Agent's UID and renders to the applied digest'' else []) in
      lead @ why @ consequence @ ''. Nothing is withdrawn, deleted or rewritten'')"

section \<open>Holding and announcing\<close>

definition withholdInOrder :: "string \<Rightarrow> string \<Rightarrow> gatewayOutcome \<Rightarrow> gatewayOutcome" where
  "withholdInOrder reason msg out =
     (if (case gw_withhold out of None \<Rightarrow> True
          | Some w \<Rightarrow> incompleteRank reason \<ge> 0 \<and> incompleteRank (fl_reason w) > incompleteRank reason)
      then out\<lparr> gw_withhold := Some \<lparr> fl_reason = reason, fl_message = msg \<rparr> \<rparr> else out)"

type_synonym report = "conditionSet \<times> gatewayOutcome"

text \<open>Raising a claim and withholding Ready for it, of a served Agent.\<close>

definition announce :: "string \<Rightarrow> string \<Rightarrow> report \<Rightarrow> report" where
  "announce reason msg acc = (case acc of (c, out) \<Rightarrow>
     (raiseIncomplete reason msg c, (withholdInOrder reason msg out)\<lparr> gw_served := True \<rparr>))"

definition holdIncomplete :: "Agent \<Rightarrow> string \<Rightarrow> string \<Rightarrow> string \<Rightarrow> report \<Rightarrow> report" where
  "holdIncomplete agent reason fallback note acc = (case acc of (c, out) \<Rightarrow>
     let msg = heldMessage fallback note in
     case stored_true agent CondPolicyApplyIncomplete (\<lambda>r. r = reason) of
       Some x \<Rightarrow>
         if cond_get c CondPolicyApplyIncomplete = None
         then (cond_carry (x\<lparr> c_Message := msg \<rparr>) c, (withholdInOrder reason msg out)\<lparr> gw_served := True \<rparr>)
         else announce reason msg (c, out)
     | None \<Rightarrow> announce reason msg (c, out))"

definition governanceKeptAbove :: "conditionSet \<Rightarrow> bool" where
  "governanceKeptAbove c \<longleftrightarrow> (case cond_get c CondGovernanceSkipped of
     None \<Rightarrow> False
   | Some x \<Rightarrow> c_Status x = CTrue \<and> (c_Reason x = ReasonForeignTrafficPolicy \<or> c_Reason x = ReasonGatewayAuthPolicy))"

definition appendGovernance :: "string \<Rightarrow> string \<Rightarrow> conditionSet \<Rightarrow> conditionSet" where
  "appendGovernance reason msg c = (case cond_get c CondGovernanceSkipped of
     Some x \<Rightarrow> if governanceKeptAbove c
       then cond_set CondGovernanceSkipped CTrue (c_Reason x) (c_Message x @ '' | '' @ reason @ '': '' @ msg) c
       else cond_set CondGovernanceSkipped CTrue reason msg c
   | None \<Rightarrow> cond_set CondGovernanceSkipped CTrue reason msg c)"

definition holdGovernance :: "Agent \<Rightarrow> string \<Rightarrow> string \<Rightarrow> conditionSet \<Rightarrow> conditionSet" where
  "holdGovernance agent fallback note c =
     (let msg = heldMessage fallback note in
      case stored_true agent CondGovernanceSkipped (\<lambda>r. r = ReasonAuthPolicyNotAttached) of
        Some x \<Rightarrow> if governanceKeptAbove c then appendGovernance ReasonAuthPolicyNotAttached msg c
          else cond_carry (x\<lparr> c_Message := msg \<rparr>) c
      | None \<Rightarrow> appendGovernance ReasonAuthPolicyNotAttached msg c)"

definition noteGovernance :: "string \<Rightarrow> conditionSet \<Rightarrow> conditionSet" where
  "noteGovernance note c = (case cond_get c CondGovernanceSkipped of
     None \<Rightarrow> c
   | Some x \<Rightarrow> cond_set CondGovernanceSkipped (c_Status x) (c_Reason x) (c_Message x @ '' | '' @ note) c)"

section \<open>Judging a served Agent\<close>

type_synonym judged = "AgentStatus \<times> conditionSet \<times> gatewayOutcome"

definition judge_route :: "GatewayConfig \<Rightarrow> Agent \<Rightarrow> servedClaims \<Rightarrow> report \<Rightarrow> bool \<times> report" where
  "judge_route gw agent stored acc = (case routeReport (gw_judgeRoute (snd acc)) gw of (rep, why) \<Rightarrow> (case rep of
     reportBroken \<Rightarrow>
       let (c, out) = announce ReasonServingRouteNotAccepted (routeRefusedMessage why) acc in
       (True, noteGovernance (ReasonServingRouteNotAccepted @ '': the Gateway is not accepting this Agent's route'') c, out)
   | reportHolding \<Rightarrow> (False, acc)
   | reportUnknown \<Rightarrow>
       if cl_routeRefused stored then
         let (c, out) = holdIncomplete agent ReasonServingRouteNotAccepted
               (routeRefusedMessage ''the Gateway has not reported on it since'') heldNote acc in
         (True, noteGovernance (ReasonServingRouteNotAccepted @ '': the Gateway was last reported not to be accepting this Agent's route'') c, out)
       else (False, acc)))"

definition judge_policy :: "GatewayConfig \<Rightarrow> Agent \<Rightarrow> servedClaims \<Rightarrow> routeLead \<Rightarrow> report \<Rightarrow> bool \<times> report" where
  "judge_policy gw agent stored route acc = (case policyReport (gw_judgePolicy (snd acc)) gw of (rep, clause, why) \<Rightarrow> (case rep of
     reportBroken \<Rightarrow>
       let msg = policyBrokenMessage clause why route True; (c, out) = announce ReasonAuthPolicyNotAttached msg acc in
       (True, appendGovernance ReasonAuthPolicyNotAttached msg c, out)
   | reportHolding \<Rightarrow> (False, acc)
   | reportUnknown \<Rightarrow>
       if cl_policyUnattached stored then
         let judged = (gw_judgePolicy (snd acc) \<noteq> None);
             note = (if judged then heldNote else unjudgedNote);
             held = policyBrokenMessage clauseUnknown
               (if judged then ''the Gateway has not reported on it at its current generation since''
                else ''this pass did not judge a policy at all'') route judged;
             (c, out) = holdIncomplete agent ReasonAuthPolicyNotAttached held note acc in
         (True, holdGovernance agent held note c, out)
       else (False, acc)))"

definition judgeServed :: "GatewayConfig \<Rightarrow> Agent \<Rightarrow> servedClaims \<Rightarrow> judged \<Rightarrow> judged" where
  "judgeServed gw agent stored j = (case j of (status, acc) \<Rightarrow>
     if \<not> gw_Enabled gw \<or> \<not> judgesServed status then j
     else
       let lead = servedRouteLead (fst (routeReport (gw_judgeRoute (snd acc)) gw)) stored;
           (refused, acc) = judge_route gw agent stored acc;
           (unattached, acc) = judge_policy gw agent stored lead acc in
       (writeTo (stored\<lparr> cl_routeRefused := refused, cl_policyUnattached := unattached \<rparr>) status, acc))"

definition holdServedJudgement :: "GatewayConfig \<Rightarrow> Agent \<Rightarrow> servedClaims \<Rightarrow> go_error \<Rightarrow> judged \<Rightarrow> judged" where
  "holdServedJudgement gw agent stored err j = (case j of (status, acc) \<Rightarrow>
     if \<not> gw_Enabled gw \<or> \<not> judgesServed status then j
     else
       let note = erroredNote err;
           acc = (if cl_routeRefused stored
                  then holdIncomplete agent ReasonServingRouteNotAccepted (routeRefusedMessage ''this pass could not re-read it'') note acc else acc) in
       if cl_policyUnattached stored then
         let held = policyBrokenMessage clauseUnknown ''this pass could not re-read it'' (servedRouteLead reportUnknown stored) False;
             (c, out) = holdIncomplete agent ReasonAuthPolicyNotAttached held note acc in
         (status, holdGovernance agent held note c, out)
       else (status, acc))"

section \<open>The source of API keys\<close>

datatype keySourceReading = keySourceUnknown | keySourceEmpty | keySourcePresent

abbreviation (input) keySourceMaxNamedConfigMs :: nat where "keySourceMaxNamedConfigMs \<equiv> 5"

abbreviation keySourceHeldLead :: string where "keySourceHeldLead \<equiv> ''a claim from an earlier pass is standing: that pass's live list found no key''"
abbreviation keySourceHeldMark :: string where "keySourceHeldMark \<equiv> '' | carried from the last pass whose list of the key source succeeded''"

definition judgesKeySource :: "GatewayConfig \<Rightarrow> AgentStatus \<Rightarrow> bool" where
  "judgesKeySource gw status \<longleftrightarrow> gw_Enabled gw \<and> (case st_Auth status of
     None \<Rightarrow> False | Some a \<Rightarrow> au_Mode a = AuthModeAPIKey \<and> au_Transaction a = None)"

text \<open>The namespace and the labels a policy selects its keys by; nothing if the selector cannot be read as labels.\<close>

definition keySourceSelector :: "PolicyObject \<Rightarrow> (string \<times> strmap) option" where
  "keySourceSelector p = (case nested_at [''spec'', ''traffic'', ''apiKeyAuthentication'', ''configMapSelector''] (pl_Object p) of
     Some (JObj sel) \<Rightarrow>
       if (case json_field ''matchExpressions'' (JObj sel) of None \<Rightarrow> False | Some (JArr xs) \<Rightarrow> xs \<noteq> [] | Some _ \<Rightarrow> True) then None
       else (case json_field ''matchLabels'' (JObj sel) of
         Some (JObj raw) \<Rightarrow> if raw = [] \<or> \<not> list_all (is_str \<circ> snd) raw then None
           else Some (pl_Namespace p, map (\<lambda>(k, v). (k, nested_str (Some v))) raw)
       | _ \<Rightarrow> None)
   | _ \<Rightarrow> None)"

text \<open>\<^verbatim>\<open>labels.SelectorFromSet\<close>, printed.\<close>

definition selector_text :: "strmap \<Rightarrow> string" where
  "selector_text sel = join '','' (map (\<lambda>(k, v). k @ ''='' @ v) (sort_key fst sel))"

definition keySourceEmptyMessage :: "string \<Rightarrow> string \<Rightarrow> string \<Rightarrow> string list \<Rightarrow> nat \<Rightarrow> string" where
  "keySourceEmptyMessage ns selector grp emptyOnes binaryOnly =
     (let names = sort emptyOnes;
          more = (if length names > keySourceMaxNamedConfigMs then [itoa (int (length names - keySourceMaxNamedConfigMs))] else []) in
      msgf ''no API key can authenticate to this Agent'' ([selector, ns, grp] @
        (if names = [] then [''a live list found none there'']
         else [itoa (int (length names)), join '', '' (take keySourceMaxNamedConfigMs names)] @ more @
           (if binaryOnly > 0 then [''entries under binaryData are not read'', itoa (int binaryOnly)] else []))))"

definition countKeySource :: "string \<Rightarrow> string \<Rightarrow> string \<Rightarrow> KeyedObject list \<Rightarrow> keySourceReading \<times> string" where
  "countKeySource ns selector grp items =
     (if list_ex (\<lambda>o'. ko_Data o' \<noteq> []) items then (keySourcePresent, [])
      else (keySourceEmpty, keySourceEmptyMessage ns selector grp (map (\<lambda>o'. om_Name (ko_Meta o')) items)
             (length (filter (\<lambda>o'. ko_BinaryData o' \<noteq> []) items))))"

definition keyGroup :: "Agent \<Rightarrow> AgentStatus \<Rightarrow> string" where
  "keyGroup agent status = (case st_Auth status of
     None \<Rightarrow> ag_Namespace agent
   | Some a \<Rightarrow> (case au_AdmittedGroups a of [] \<Rightarrow> ag_Namespace agent | g # _ \<Rightarrow> g))"

definition liveAuthPolicy :: "Agent \<Rightarrow> string \<Rightarrow> (go_error + PolicyObject option) op" where
  "liveAuthPolicy agent runNS = (case AuthPolicyName (ag_Name agent) of
     Inl err \<Rightarrow> Return (Inl (PlainError err))
   | Inr name \<Rightarrow> andThen (getObj True KPolicy as_policy runNS name) (\<lambda>got. Return (case got of
       Inl e \<Rightarrow> if IsNotFound e then Inr None else Inl (ApiFail (msgf ''read policy'' [name, runNS]) e)
     | Inr p \<Rightarrow> if lbl (pl_Labels p) LabelAgentUID \<noteq> ag_UID agent then Inr None else Inr (Some p))))"

text \<open>What a pass reads of the key source: a reading and its message, and otherwise a note why it could not.\<close>

definition read_key_source :: "Agent \<Rightarrow> AgentStatus \<Rightarrow> PolicyObject \<Rightarrow> (keySourceReading \<times> string \<times> string) op" where
  "read_key_source agent status policy = (case keySourceSelector policy of
     None \<Rightarrow> Return (keySourceUnknown, [], ''; the live policy's selector could not be read'')
   | Some (ns, sel) \<Rightarrow> andThen (listObjs True KConfigMap as_keyed ns sel) (\<lambda>listed. Return (case listed of
       Inl e \<Rightarrow> (keySourceUnknown, [], msgf ''; the list failed'' [err_text e])
     | Inr items \<Rightarrow> (case countKeySource ns (selector_text sel) (keyGroup agent status) items of (reading, msg) \<Rightarrow> (reading, msg, [])))))"

definition key_source_reading :: "Agent \<Rightarrow> string \<Rightarrow> AgentStatus \<Rightarrow> keySourcePolicy \<Rightarrow> (keySourceReading \<times> string \<times> string) op" where
  "key_source_reading agent runNS status kp =
     andThen (if kp_read kp then Return (Inr (kp_obj kp)) else liveAuthPolicy agent runNS) (\<lambda>got. case got of
        Inl e \<Rightarrow> Return (keySourceUnknown, [], msgf ''; the live policy could not be read'' [go_text e])
      | Inr None \<Rightarrow> Return (keySourceUnknown, [], ''; no policy of this Agent's was found to read a selector from'')
      | Inr (Some policy) \<Rightarrow> read_key_source agent status policy)"

definition set_keySourceEmpty :: "bool \<Rightarrow> AgentStatus \<Rightarrow> AgentStatus" where
  "set_keySourceEmpty b status = status\<lparr> st_Auth := map_option (\<lambda>a. a\<lparr> au_KeySourceEmpty := b \<rparr>) (st_Auth status) \<rparr>"

definition judgeKeySource :: "GatewayConfig \<Rightarrow> Agent \<Rightarrow> string \<Rightarrow> servedClaims \<Rightarrow> judged \<Rightarrow> judged op" where
  "judgeKeySource gw agent runNS stored j = (case j of (status, acc) \<Rightarrow>
     if \<not> judgesKeySource gw status then Return j
     else andThen (key_source_reading agent runNS status (gw_keyPolicy (snd acc))) (\<lambda>(reading, msg, note).
       let claim = cl_keySourceEmpty stored in
       Return (case reading of
         keySourceEmpty \<Rightarrow> (set_keySourceEmpty True status, announce ReasonAPIKeySourceEmpty msg acc)
       | keySourcePresent \<Rightarrow> (set_keySourceEmpty False status, acc)
       | keySourceUnknown \<Rightarrow> (set_keySourceEmpty claim status,
           if claim then holdIncomplete agent ReasonAPIKeySourceEmpty keySourceHeldLead (keySourceHeldMark @ note) acc else acc))))"

definition holdKeySource :: "GatewayConfig \<Rightarrow> Agent \<Rightarrow> servedClaims \<Rightarrow> go_error \<Rightarrow> judged \<Rightarrow> judged" where
  "holdKeySource gw agent stored err j = (case j of (status, acc) \<Rightarrow>
     if \<not> judgesKeySource gw status then j
     else (set_keySourceEmpty (cl_keySourceEmpty stored) status,
       if cl_keySourceEmpty stored
       then holdIncomplete agent ReasonAPIKeySourceEmpty keySourceHeldLead
         (keySourceHeldMark @ msgf ''; this pass's -auth step could not complete'' [go_text err]) acc
       else acc))"

end
