(* ===== verification/Auth_Steps.thy ===== *)
theory Auth_Steps
  imports Auth_Served
begin

text \<open>
  What the -auth transactions of \<^verbatim>\<open>internal/controller/authtxn.go\<close> are made of: the desired mode and what does
  not compile, how a record has the route published, the record's write and its read-back, the policy's
  reads, writes and delete, and the teardown of \<^verbatim>\<open>gatewaywiring.go\<close>.

  A step is a program over requests that threads the Agent as last written, the status, the assertions
  and the outcome, and may fail: \<open>'a gm\<close>. A failure keeps what was changed before it. A nil pointer that
  the source dereferences is the failure \<open>GoPanic\<close>.
\<close>

abbreviation StageRefused :: string where "StageRefused \<equiv> ''Refused''"
abbreviation StageProbingBefore :: string where "StageProbingBefore \<equiv> ''ProbingBefore''"
abbreviation StagePreparingRoute :: string where "StagePreparingRoute \<equiv> ''PreparingRoute''"
abbreviation StageApplyingPolicies :: string where "StageApplyingPolicies \<equiv> ''ApplyingPolicies''"
abbreviation StageConverging :: string where "StageConverging \<equiv> ''Converging''"
abbreviation StagePublishing :: string where "StagePublishing \<equiv> ''Publishing''"

abbreviation (input) AuthTransactionDeadline :: duration where "AuthTransactionDeadline \<equiv> 240 * second"
abbreviation (input) AuthProbeInterval :: duration where "AuthProbeInterval \<equiv> 5 * second"

abbreviation ReasonAuthInputAbsent :: string where "ReasonAuthInputAbsent \<equiv> ''AuthInputAbsent''"
abbreviation ReasonConcernNotBuilt :: string where "ReasonConcernNotBuilt \<equiv> ''ConcernNotBuilt''"
abbreviation ReasonAuthTransitionNotBuilt :: string where "ReasonAuthTransitionNotBuilt \<equiv> ''AuthTransitionNotBuilt''"
abbreviation ReasonAuthEnforcementUnverified :: string where "ReasonAuthEnforcementUnverified \<equiv> ''AuthEnforcementUnverified''"
abbreviation ReasonPolicyWriteFailed :: string where "ReasonPolicyWriteFailed \<equiv> ''PolicyWriteFailed''"
abbreviation ReasonAuthTargetUnrenderable :: string where "ReasonAuthTargetUnrenderable \<equiv> ''AuthTargetUnrenderable''"
abbreviation ReasonAuthRecordNotKept :: string where "ReasonAuthRecordNotKept \<equiv> ''AuthRecordNotKept''"
abbreviation ReasonCompilerUpgradeUnsupported :: string where "ReasonCompilerUpgradeUnsupported \<equiv> ''CompilerUpgradeUnsupported''"
abbreviation ReasonAuthAbandonWaiting :: string where "ReasonAuthAbandonWaiting \<equiv> ''AuthAbandonWaiting''"

section \<open>Steps\<close>

record gstate =
  gs_agent :: Agent
  gs_status :: AgentStatus
  gs_conds :: conditionSet
  gs_out :: gatewayOutcome

type_synonym 'a gm = "gstate \<Rightarrow> ((go_error + 'a) \<times> gstate) op"

definition gret :: "'a \<Rightarrow> 'a gm" where
  "gret x s = Return (Inr x, s)"

definition gfail :: "go_error \<Rightarrow> 'a gm" where
  "gfail e s = Return (Inl e, s)"

definition gbind :: "'a gm \<Rightarrow> ('a \<Rightarrow> 'b gm) \<Rightarrow> 'b gm" where
  "gbind m f s = andThen (m s) (\<lambda>(r, s'). case r of Inl e \<Rightarrow> Return (Inl e, s') | Inr x \<Rightarrow> f x s')"

definition glift :: "(go_error + 'a) op \<Rightarrow> 'a gm" where
  "glift m s = andThen m (\<lambda>r. Return (r, s))"

definition gask :: "'a op \<Rightarrow> 'a gm" where
  "gask m s = andThen m (\<lambda>x. Return (Inr x, s))"

definition gmod :: "(gstate \<Rightarrow> gstate) \<Rightarrow> unit gm" where
  "gmod f s = Return (Inr (), f s)"

definition gwith :: "(gstate \<Rightarrow> 'a gm) \<Rightarrow> 'a gm" where
  "gwith f s = f s s"

text \<open>The reason a write of the policy failed.\<close>

definition policy_write :: "(go_error + 'a) op \<Rightarrow> 'a gm" where
  "policy_write m = glift (andThen m (\<lambda>r. Return (case r of Inl (GoPanic t) \<Rightarrow> Inl (GoPanic t) | Inl e \<Rightarrow> Inl (GatewayError ReasonPolicyWriteFailed e) | Inr x \<Rightarrow> Inr x)))"

definition nil_deref :: go_error where
  "nil_deref = GoPanic ''invalid memory address or nil pointer dereference''"

text \<open>The transaction, read and changed in place.\<close>

definition with_tx :: "(AuthStatus \<Rightarrow> AuthTransaction \<Rightarrow> 'a gm) \<Rightarrow> 'a gm" where
  "with_tx f = gwith (\<lambda>s. case st_Auth (gs_status s) of
     None \<Rightarrow> gfail nil_deref
   | Some a \<Rightarrow> (case au_Transaction a of None \<Rightarrow> gfail nil_deref | Some tx \<Rightarrow> f a tx))"

definition in_tx :: "(AuthTransaction \<Rightarrow> AuthTransaction) \<Rightarrow> AgentStatus \<Rightarrow> AgentStatus" where
  "in_tx g st = st\<lparr> st_Auth := map_option (\<lambda>a. a\<lparr> au_Transaction := map_option g (au_Transaction a) \<rparr>) (st_Auth st) \<rparr>"

definition set_tx :: "(AuthTransaction \<Rightarrow> AuthTransaction) \<Rightarrow> unit gm" where
  "set_tx g = gmod (\<lambda>s. s\<lparr> gs_status := in_tx g (gs_status s) \<rparr>)"

definition set_auth :: "AuthStatus option \<Rightarrow> unit gm" where
  "set_auth a = gmod (\<lambda>s. s\<lparr> gs_status := (gs_status s)\<lparr> st_Auth := a \<rparr> \<rparr>)"

definition set_conds :: "(conditionSet \<Rightarrow> conditionSet) \<Rightarrow> unit gm" where
  "set_conds g = gmod (\<lambda>s. s\<lparr> gs_conds := g (gs_conds s) \<rparr>)"

definition set_out :: "(gatewayOutcome \<Rightarrow> gatewayOutcome) \<Rightarrow> unit gm" where
  "set_out g = gmod (\<lambda>s. s\<lparr> gs_out := g (gs_out s) \<rparr>)"

abbreviation then_do :: "unit gm \<Rightarrow> 'a gm \<Rightarrow> 'a gm" where
  "then_do m n \<equiv> gbind m (\<lambda>_. n)"

section \<open>Desired modes and what does not compile\<close>

definition desiredModeName :: "Agent \<Rightarrow> string" where
  "desiredModeName agent = (case sp_Expose (ag_Spec agent) of
     None \<Rightarrow> AuthModeAPIKey | Some e \<Rightarrow> (case xs_A2A e of None \<Rightarrow> AuthModeAPIKey | Some a \<Rightarrow> xp_Auth a))"

definition compile_error_text :: "compile_error \<Rightarrow> string" where
  "compile_error_text e = (case e of NotCompilableError m \<Rightarrow> msgf ''spec.expose.a2a.auth does not compile'' [m] | CompileError t \<Rightarrow> t)"

definition compileFailures :: "authDesire \<Rightarrow> string \<Rightarrow> string \<Rightarrow> failure list" where
  "compileFailures d recorded inFlight =
     (case ad_target d of
        Inl e \<Rightarrow> [\<lparr> fl_reason = ReasonAuthInputAbsent, fl_message = compile_error_text e @ ''. '' @
          (if recorded \<noteq> [] \<and> inFlight \<noteq> [] then msgf ''the -auth last served with is still applied, and the route is being re-created'' [recorded]
           else if recorded \<noteq> [] then msgf ''the -auth last served with is still enforced'' [recorded]
           else ''No route is published, and no transaction is entered, until it compiles'') \<rparr>]
      | Inr target \<Rightarrow>
          if recorded = AuthModeAPIKey \<and> at_Mode target = AuthModeNone
          then [\<lparr> fl_reason = ReasonAuthTransitionNotBuilt, fl_message = ''spec.expose.a2a.auth moved from apikey to none, which is refused'' \<rparr>]
          else []) @
     (if ad_budget d then [\<lparr> fl_reason = ReasonConcernNotBuilt, fl_message = ''spec.budget is stored and nothing enforces a budget'' \<rparr>] else [])"

definition joinFailures :: "failure list \<Rightarrow> string" where
  "joinFailures fs = join '' | '' (map (\<lambda>f. fl_reason f @ '': '' @ fl_message f) fs)"

definition k2Consent :: "AuthTransaction \<Rightarrow> Agent \<Rightarrow> bool" where
  "k2Consent tx agent \<longleftrightarrow> desiredModeName agent = AuthModeAPIKey \<and> tx_RefusedMode tx \<noteq> [] \<and> tx_RefusedMode tx \<noteq> AuthModeAPIKey"

text \<open>How the serving route is published, as status says.\<close>

definition routePublicationFor :: "AuthStatus option \<Rightarrow> routePublication" where
  "routePublicationFor auth = (case auth of
     None \<Rightarrow> \<lparr> rp_prepared = False, rp_mode = [] \<rparr>
   | Some a \<Rightarrow>
     let plain = (if au_Mode a \<noteq> [] then \<lparr> rp_prepared = False, rp_mode = au_Mode a \<rparr> else \<lparr> rp_prepared = False, rp_mode = [] \<rparr>) in
     (case au_Transaction a of
        None \<Rightarrow> plain
      | Some tx \<Rightarrow>
        if tx_Kind tx = TxCreate
        then (if tx_Stage tx = StagePublishing then \<lparr> rp_prepared = False, rp_mode = tx_TargetMode tx \<rparr>
              else \<lparr> rp_prepared = True, rp_mode = [] \<rparr>)
        else plain))"

definition foreignAtOwnName :: "string list \<Rightarrow> Agent \<Rightarrow> string \<Rightarrow> bool" where
  "foreignAtOwnName foreign agent runNS = (case AuthPolicyName (ag_Name agent) of
     Inl _ \<Rightarrow> False | Inr own \<Rightarrow> runNS @ ''/'' @ own \<in> set foreign)"

abbreviation ownNameHeld :: string where
  "ownNameHeld \<equiv> ''a policy at this Agent's -auth name does not carry this Agent's UID: it is neither taken over nor deleted''"

definition writesOwnPolicy :: "AgentStatus \<Rightarrow> bool" where
  "writesOwnPolicy status = (case st_Auth status of
     None \<Rightarrow> False
   | Some a \<Rightarrow> au_Mode a = AuthModeAPIKey \<or> (case au_Transaction a of
       None \<Rightarrow> False
     | Some tx \<Rightarrow> (tx_Kind tx = TxCreate \<or> tx_Kind tx = TxLock) \<and> tx_TargetMode tx = AuthModeAPIKey))"

definition own_policy_name :: "Agent \<Rightarrow> string" where
  "own_policy_name agent = (case AuthPolicyName (ag_Name agent) of Inl _ \<Rightarrow> [] | Inr own \<Rightarrow> own)"

section \<open>Writing the record\<close>

definition authKept :: "AuthStatus option \<Rightarrow> AuthStatus option \<Rightarrow> bool" where
  "authKept want got = (case want of
     None \<Rightarrow> got = None
   | Some w \<Rightarrow> (case got of
       None \<Rightarrow> False
     | Some g \<Rightarrow> au_Mode g = au_Mode w \<and> au_RouteRefused g = au_RouteRefused w \<and> au_PolicyUnattached g = au_PolicyUnattached w \<and>
         (case au_Transaction w of
            None \<Rightarrow> au_Transaction g = None
          | Some wt \<Rightarrow> (case au_Transaction g of
              None \<Rightarrow> False
            | Some gt \<Rightarrow> tx_Kind gt = tx_Kind wt \<and> tx_Stage gt = tx_Stage wt \<and> tx_Written gt = tx_Written wt \<and>
                tx_TargetMode gt = tx_TargetMode wt))))"

text \<open>
  The status as the Agent was last written, with the record of the status at hand. A failed write leaves the
  Agent at hand with the status that was not written.
\<close>

definition next_status :: "gstate \<Rightarrow> AgentStatus" where
  "next_status s = (ag_Status (gs_agent s))\<lparr> st_Auth := st_Auth (gs_status s) \<rparr>"

definition persistStatus :: "unit gm" where
  "persistStatus s = andThen (writeStatus (gs_agent s) (next_status s)) (\<lambda>r. Return (case r of
     Inl e \<Rightarrow> (Inl e, s\<lparr> gs_agent := (gs_agent s)\<lparr> ag_Status := (next_status s)\<lparr> st_Conditions := boundConditionMessages (st_Conditions (next_status s)) \<rparr> \<rparr> \<rparr>)
   | Inr agent \<Rightarrow>
     (if authKept (st_Auth (gs_status s)) (st_Auth (ag_Status agent)) then Inr ()
      else Inl (GatewayError ReasonAuthRecordNotKept (PlainError ''status.auth was written and did not come back'')),
      s\<lparr> gs_agent := agent \<rparr>)))"

definition to_stage :: "string \<Rightarrow> 'a \<Rightarrow> 'a gm" where
  "to_stage stage x = then_do (set_tx (\<lambda>tx. tx\<lparr> tx_Stage := stage \<rparr>)) (then_do persistStatus (gret x))"

definition authDeadline :: "AgentReconciler \<Rightarrow> duration" where
  "authDeadline r = (if ac_AuthDeadline r > 0 then ac_AuthDeadline r else AuthTransactionDeadline)"

text \<open>A deadline from now, in whole seconds.\<close>

definition deadline_at :: "AgentReconciler \<Rightarrow> go_time \<Rightarrow> go_time" where
  "deadline_at r at = (let d = at + authDeadline r in d - d mod second)"

definition new_tx :: "string \<Rightarrow> string \<Rightarrow> string \<Rightarrow> string \<Rightarrow> go_time \<Rightarrow> AuthTransaction" where
  "new_tx knd mode digest stage d = \<lparr> tx_Kind = knd, tx_TargetMode = mode, tx_TargetDigest = digest, tx_Stage = stage, tx_Written = False,
     tx_Deadline = Some d, tx_Probe = None, tx_BeforeObserved = False, tx_BeforeRevision = [], tx_RefusedMode = [] \<rparr>"

definition new_auth :: "string \<Rightarrow> AuthStatus" where
  "new_auth mode = \<lparr> au_Mode = mode, au_KeySource = [], au_AdmittedGroups = [], au_AppliedDigest = [], au_Verified = None,
     au_Transaction = None, au_RouteRefused = False, au_PolicyUnattached = False, au_KeySourceEmpty = False \<rparr>"

text \<open>The live Agent must be the one at hand.\<close>

definition requireFreshAgent :: "Agent \<Rightarrow> (go_error + unit) op" where
  "requireFreshAgent agent = Ask (GetAgent True (ag_Namespace agent) (ag_Name agent)) (\<lambda>a. Return (case resp_agent a of
     Inl e \<Rightarrow> Inl (ApiFail (msgf ''read agent live'' [ag_Namespace agent, ag_Name agent]) e)
   | Inr live \<Rightarrow> if ag_ResourceVersion live \<noteq> ag_ResourceVersion agent
       then Inl (StaleAgent (msgf ''the cached Agent is older than the live one'' [ag_Namespace agent, ag_Name agent]))
       else Inr ()))"

section \<open>The policy\<close>

definition agent_policy :: "AgentReconciler \<Rightarrow> Agent \<Rightarrow> string \<Rightarrow> string + json" where
  "agent_policy r agent runNS = AuthPolicy (ac_unparse r) \<lparr> ai_AgentName = ag_Name agent, ai_AgentNamespace = ag_Namespace agent,
     ai_AgentUID = ag_UID agent, ai_RunNamespace = runNS \<rparr>"

definition createTarget :: "AgentReconciler \<Rightarrow> Agent \<Rightarrow> string \<Rightarrow> AuthTransaction \<Rightarrow> go_error + AuthTarget" where
  "createTarget r agent runNS tx =
     (if tx_TargetMode tx = AuthModeNone then Inr \<lparr> at_Mode = AuthModeNone, at_Policy = None, at_Digest = [] \<rparr>
      else if tx_TargetMode tx = AuthModeAPIKey then (case agent_policy r agent runNS of
         Inl e \<Rightarrow> Inl (PlainError e)
       | Inr policy \<Rightarrow>
         let digest = policy_Digest policy in
         if digest \<noteq> tx_TargetDigest tx
         then Inl (GatewayError ReasonAuthTargetUnrenderable (PlainError
                (msgf ''the recorded target is not the policy this operator renders'' [tx_TargetDigest tx, digest])))
         else Inr \<lparr> at_Mode = AuthModeAPIKey, at_Policy = Some policy, at_Digest = digest \<rparr>)
      else Inl (PlainError (msgf ''status.auth.transaction targets a mode that does not compile'' [tx_TargetMode tx])))"

definition lock_target :: "AgentReconciler \<Rightarrow> Agent \<Rightarrow> string \<Rightarrow> AuthTransaction \<Rightarrow> go_error + AuthTarget" where
  "lock_target r agent runNS tx = (case createTarget r agent runNS tx of
     Inl (GatewayError reason e) \<Rightarrow> Inl (GatewayError reason (PlainError (''the Lock in status.auth.transaction: '' @ go_text e)))
   | Inl e \<Rightarrow> Inl (PlainError (''the Lock in status.auth.transaction: '' @ go_text e))
   | Inr t \<Rightarrow> Inr t)"

definition rendered_policy :: "json \<Rightarrow> PolicyObject" where
  "rendered_policy j = \<lparr> pl_Object = j, pl_UID = [], pl_ResourceVersion = 0, pl_Generation = 0, pl_Finalizers = [],
     pl_CreationTimestamp = 0, pl_ManagedFields = [], pl_Ancestors = [] \<rparr>"

definition json_put :: "string \<Rightarrow> json \<Rightarrow> json \<Rightarrow> json" where
  "json_put k v j = (case j of JObj ms \<Rightarrow> JObj (alist_put k v ms) | _ \<Rightarrow> j)"

definition set_labels :: "strmap \<Rightarrow> json \<Rightarrow> json" where
  "set_labels ls j = json_put ''metadata'' (json_put ''labels'' (JObj (map (\<lambda>(k, v). (k, JStr v)) ls))
     (case json_field ''metadata'' j of Some m \<Rightarrow> m | None \<Rightarrow> JObj [])) j"

definition policy_updated :: "json \<Rightarrow> PolicyObject \<Rightarrow> PolicyObject" where
  "policy_updated desired existing = existing\<lparr> pl_Object :=
     json_put ''spec'' (case json_field ''spec'' desired of Some v \<Rightarrow> v | None \<Rightarrow> JNull)
       (set_labels (fold (\<lambda>(k, v). alist_put k v) (json_labels desired) (pl_Labels existing)) (pl_Object existing)) \<rparr>"

definition policyCollision :: "Agent \<Rightarrow> PolicyObject \<Rightarrow> go_error option" where
  "policyCollision agent existing = (let l = pl_Labels existing in
     if lbl l LabelAgentUID = ag_UID agent then None
     else Some (PlainError (msgf ''policy has this Agent's -auth name and does not carry its UID''
       [pl_Namespace existing, pl_Name existing, lbl l LabelAgentUID, lbl l LabelAgentNamespace, lbl l LabelAgent])))"

definition writeAuthPolicy :: "Agent \<Rightarrow> PolicyObject \<Rightarrow> json \<Rightarrow> string \<Rightarrow> (go_error + PolicyObject) op" where
  "writeAuthPolicy agent existing desired digest = (case policyCollision agent existing of
     Some e \<Rightarrow> Return (Inl e)
   | None \<Rightarrow>
     if policy_Digest (pl_Object existing) = digest then Return (Inr existing)
     else Ask (Update (OPolicy (policy_updated desired existing))) (\<lambda>a. Return (case resp_obj as_policy a of
        Inl e \<Rightarrow> Inl (ApiFail (msgf ''converge policy'' [pl_Name existing, pl_Namespace existing]) e)
      | Inr p \<Rightarrow> Inr p)))"

definition read_policy_error :: "string \<Rightarrow> string \<Rightarrow> api_error \<Rightarrow> go_error" where
  "read_policy_error name runNS e = ApiFail (msgf ''read policy'' [name, runNS]) e"

definition ensureAuthPolicy :: "Agent \<Rightarrow> json \<Rightarrow> (go_error + PolicyObject) op" where
  "ensureAuthPolicy agent desired =
     (let d = rendered_policy desired in
      andThen (getObj False KPolicy as_policy (pl_Namespace d) (pl_Name d)) (\<lambda>got. case got of
         Inl e \<Rightarrow>
           if \<not> IsNotFound e then Return (Inl (read_policy_error (pl_Name d) (pl_Namespace d) e))
           else andThen (createObj as_policy (OPolicy d)) (\<lambda>r. Return (case r of
              Inl e \<Rightarrow> Inl (ApiFail (msgf ''create policy'' [pl_Name d, pl_Namespace d]) e) | Inr p \<Rightarrow> Inr p))
       | Inr existing \<Rightarrow> writeAuthPolicy agent existing desired (policy_Digest desired)))"

text \<open>Whether the policy is there and renders to the target's digest; the policy if it is there.\<close>

definition authPolicyIntact :: "string \<Rightarrow> AuthTarget \<Rightarrow> (go_error + PolicyObject option \<times> bool) op" where
  "authPolicyIntact runNS target = (case at_Policy target of
     None \<Rightarrow> Return (Inr (None, True))
   | Some desired \<Rightarrow>
     let name = pl_Name (rendered_policy desired) in
     andThen (getObj False KPolicy as_policy runNS name) (\<lambda>got. Return (case got of
        Inl e \<Rightarrow> if IsNotFound e then Inr (None, False) else Inl (read_policy_error name runNS e)
      | Inr p \<Rightarrow> Inr (Some p, policy_Digest (pl_Object p) = at_Digest target))))"

definition authPolicyPresent :: "Agent \<Rightarrow> string \<Rightarrow> (go_error + bool) op" where
  "authPolicyPresent agent runNS = (case AuthPolicyName (ag_Name agent) of
     Inl e \<Rightarrow> Return (Inl (PlainError e))
   | Inr name \<Rightarrow> andThen (getObj False KPolicy as_policy runNS name) (\<lambda>got. Return (case got of
       Inl e \<Rightarrow> if IsNotFound e then Inr False else Inl (read_policy_error name runNS e)
     | Inr _ \<Rightarrow> Inr True)))"

text \<open>The served policy, put back as recorded: the one to judge, and the live one, each if it is this Agent's.\<close>

definition reassertServedPolicy :: "AgentReconciler \<Rightarrow> Agent \<Rightarrow> string \<Rightarrow> AuthStatus \<Rightarrow> (go_error + PolicyObject option \<times> PolicyObject option) op" where
  "reassertServedPolicy r agent runNS auth = (case agent_policy r agent runNS of
     Inl e \<Rightarrow> Return (Inl (PlainError e))
   | Inr recorded \<Rightarrow>
     let digest = policy_Digest recorded; name = pl_Name (rendered_policy recorded) in
     andThen (getObj False KPolicy as_policy runNS name) (\<lambda>got. case got of
        Inl e \<Rightarrow> Return (if IsNotFound e then Inr (None, None) else Inl (read_policy_error name runNS e))
      | Inr existing \<Rightarrow>
        if lbl (pl_Labels existing) LabelAgentUID \<noteq> ag_UID agent then Return (Inr (None, None))
        else if digest \<noteq> au_AppliedDigest auth then Return (Inr (None, Some existing))
        else andThen (writeAuthPolicy agent existing recorded digest) (\<lambda>w. Return (case w of
           Inl e \<Rightarrow> Inl e | Inr p \<Rightarrow> Inr (Some p, Some p)))))"

section \<open>Tearing down\<close>

definition heldBy :: "string \<Rightarrow> string \<Rightarrow> string \<Rightarrow> string list \<Rightarrow> string" where
  "heldBy knd ns name finalizers = msgf ''whose delete is held by the finalizers'' ([knd, ns, name] @ finalizers)"

definition heldBy_policy :: "PolicyObject \<Rightarrow> string" where
  "heldBy_policy p = heldBy ''AgentgatewayPolicy'' (pl_Namespace p) (pl_Name p) (pl_Finalizers p)"

definition heldBy_route :: "HTTPRoute \<Rightarrow> string" where
  "heldBy_route rt = heldBy ''HTTPRoute'' (om_Namespace (hr_Meta rt)) (om_Name (hr_Meta rt)) (om_Finalizers (hr_Meta rt))"

definition confirm_deleted :: "string \<Rightarrow> string \<Rightarrow> api_error + PolicyObject \<Rightarrow> (go_error + string) op" where
  "confirm_deleted name runNS got = Return (case got of
     Inl e \<Rightarrow> if IsNotFound e then Inr [] else Inl (ApiFail (msgf ''confirm policy is deleted'' [name, runNS]) e)
   | Inr after \<Rightarrow> Inr (heldBy_policy after))"

definition deleteAuthPolicy :: "Agent \<Rightarrow> string \<Rightarrow> (go_error + string) op" where
  "deleteAuthPolicy agent runNS = (case AuthPolicyName (ag_Name agent) of
     Inl e \<Rightarrow> Return (Inl (PlainError e))
   | Inr name \<Rightarrow> andThen (getObj False KPolicy as_policy runNS name) (\<lambda>got. case got of
       Inl e \<Rightarrow> Return (if IsNotFound e then Inr [] else Inl (read_policy_error name runNS e))
     | Inr p \<Rightarrow>
       if lbl (pl_Labels p) LabelAgentUID \<noteq> ag_UID agent then Return (Inr [])
       else Ask (DeleteExact (OPolicy p) (pl_UID p) (pl_ResourceVersion p)) (\<lambda>a. case resp_done a of
          Some e \<Rightarrow> if IsNotFound e then andThen (getObj False KPolicy as_policy runNS name) (confirm_deleted name runNS)
             else Return (Inl (ApiFail (msgf ''delete policy'' [name, runNS]) e))
        | None \<Rightarrow> andThen (getObj False KPolicy as_policy runNS name) (confirm_deleted name runNS))))"

definition revokeGateway :: "Agent \<Rightarrow> string \<Rightarrow> (go_error + string) op" where
  "revokeGateway agent runNS =
     tryThen (listOwnedRoutes True agent runNS) (\<lambda>routes.
     tryThen (forEach (\<lambda>rt. deleteGone (msgf ''delete route'' [om_Name (hr_Meta rt), runNS]) (ORoute rt)) routes) (\<lambda>_.
     tryThen (listOwnedRoutes True agent runNS) (\<lambda>remaining. case remaining of
        rt # _ \<Rightarrow> Return (Inr (heldBy_route rt))
      | [] \<Rightarrow> deleteAuthPolicy agent runNS)))"

end
