(* ===== verification/Auth_Transaction.thy ===== *)
theory Auth_Transaction
  imports Auth_Steps
begin

text \<open>
  The transactions that put an Agent's route under its -auth policy (\<^verbatim>\<open>internal/controller/authtxn.go\<close>):
  Create publishes a route only once an anonymous request through it was refused; Lock puts a policy on
  a route that already serves; Adopt is the refusal of a route nobody recorded; a served Agent's route
  and policy are kept, and re-created by one of the two.

  Each stage of a transaction writes its successor to status before anything else is done, so that the
  stored stage is never behind the gateway. The loops run at most twelve stages, as the source's do.
  A variable of a loop that is set only in a stage that ends it is part of how that stage ends.
\<close>

section \<open>Shared by Create and Lock\<close>

definition governance :: "cond_status \<times> string \<times> string \<Rightarrow> unit gm" where
  "governance g = set_conds (set_governance g)"

definition unsettled :: string where
  "unsettled = ''the transaction moved back and forth without settling in one pass; a write it made did not keep''"

text \<open>A rejection since the policy was written; it takes the transaction back to Converging.\<close>

definition note_nack :: "AgentReconciler \<Rightarrow> string \<Rightarrow> PolicyObject option \<Rightarrow> string \<Rightarrow> string gm" where
  "note_nack r runNS policy stage = gwith (\<lambda>s.
     gbind (gask (freshNack (ac_env r) (ac_Gateway r) runNS policy (gs_out s))) (\<lambda>(n, out).
     then_do (set_out (\<lambda>_. out))
     (if n = [] then gret []
      else then_do (set_out (\<lambda>out. out\<lparr> gw_nack := n \<rparr>))
        (if stage \<noteq> StageConverging then to_stage StageConverging n else gret n))))"

definition converged :: "AgentReconciler \<Rightarrow> HTTPRoute \<Rightarrow> PolicyObject option \<Rightarrow> (string option) gm" where
  "converged r rt policy = (case routeConverged rt (ac_Gateway r) of
     Some why \<Rightarrow> gret (Some why)
   | None \<Rightarrow> (case policy of None \<Rightarrow> gfail nil_deref | Some p \<Rightarrow> gret (policyConverged p (ac_Gateway r))))"

definition above_hold :: "AgentReconciler \<Rightarrow> string \<Rightarrow> gatewayAuth \<Rightarrow> bool \<Rightarrow> gstate \<Rightarrow> string" where
  "above_hold r runNS abv got401 s = holdMessage abv (ac_Gateway r) runNS (own_policy_name (gs_agent s)) got401"

definition note_above :: "AgentReconciler \<Rightarrow> string \<Rightarrow> gatewayAuth \<Rightarrow> bool \<Rightarrow> unit gm" where
  "note_above r runNS abv got401 = gmod (\<lambda>s. s\<lparr> gs_out := (gs_out s)\<lparr> gw_aboveHold := above_hold r runNS abv got401 s \<rparr> \<rparr>)"

definition read_policies_above :: "AgentReconciler \<Rightarrow> gatewayAuth gm" where
  "read_policies_above r = gwith (\<lambda>s. gask (gatewayAuthPolicies (ac_env r) (ac_Gateway r)
     (Hostname (ac_Gateway r) (ag_Name (gs_agent s)) (ag_Namespace (gs_agent s)))))"

definition read_above :: "AgentReconciler \<Rightarrow> string \<Rightarrow> gatewayAuth gm" where
  "read_above r runNS = gbind (read_policies_above r) (\<lambda>abv.
     then_do (set_out (\<lambda>out. out\<lparr> gw_aboveRead := True \<rparr>))
     (then_do (if above_stands abv then note_above r runNS abv False else gret ()) (gret abv)))"

text \<open>The second read, after a 401: what held before it still holds.\<close>

definition recheck_above :: "AgentReconciler \<Rightarrow> string \<Rightarrow> gatewayAuth \<Rightarrow> (gatewayAuth \<times> bool) gm" where
  "recheck_above r runNS abv = gbind (read_policies_above r) (\<lambda>again.
     let held = above_stands abv;
         abv' = (if above_stands again \<or> \<not> held then again else abv);
         held' = (held \<or> above_stands again) in
     then_do (if held' then note_above r runNS abv' True else gret ()) (gret (abv', held')))"

definition probe :: "AgentReconciler \<Rightarrow> (string + AuthProbeAnswer) gm" where
  "probe r = gwith (\<lambda>s. gask (probeAgent (ac_env r) (ac_Gateway r) (gs_agent s)))"

definition answer_code :: "string + AuthProbeAnswer \<Rightarrow> int option" where
  "answer_code a = (case a of Inl _ \<Rightarrow> None | Inr x \<Rightarrow> Some (pa_Code x))"

definition foreign_unmet :: "AgentReconciler \<Rightarrow> string \<Rightarrow> gatewayAuth \<Rightarrow> gstate \<Rightarrow> string" where
  "foreign_unmet r runNS abv s = msgf ''a traffic policy the operator did not emit targets the route, so no probe answer is taken'' (gw_foreign (gs_out s)) @
     (if above_stands abv then ''; and '' @ above_hold r runNS abv False s else [])"

definition past_deadline :: "go_time \<Rightarrow> AuthTransaction \<Rightarrow> bool" where
  "past_deadline at tx \<longleftrightarrow> (case tx_Deadline tx of None \<Rightarrow> False | Some d \<Rightarrow> \<not> at < d)"

definition probe_again :: "bool \<Rightarrow> duration" where
  "probe_again late = (if late then CardRetryInterval else AuthProbeInterval)"

text \<open>When to run again: as the stage asked, and otherwise after the deadline. A deadline that was lost is a nil dereference.\<close>

definition settle_requeue :: "duration \<Rightarrow> go_time \<Rightarrow> bool \<Rightarrow> AuthTransaction \<Rightarrow> go_error + duration" where
  "settle_requeue asked at late tx =
     (if asked \<noteq> 0 then Inr asked
      else if late then Inr CardRetryInterval
      else case tx_Deadline tx of None \<Rightarrow> Inl nil_deref | Some d \<Rightarrow> Inr (d - at + second))"

definition deadline_text :: "AuthTransaction \<Rightarrow> string" where
  "deadline_text tx = (case tx_Deadline tx of None \<Rightarrow> [] | Some d \<Rightarrow> itoa d)"

definition withhold_first :: "string \<Rightarrow> string \<Rightarrow> gatewayOutcome \<Rightarrow> gatewayOutcome" where
  "withhold_first reason msg out = (if gw_withhold out = None then out\<lparr> gw_withhold := Some \<lparr> fl_reason = reason, fl_message = msg \<rparr> \<rparr> else out)"

text \<open>The active revision's route, as status has it published, and the routes that are not it collected.\<close>

definition serve_route :: "AgentReconciler \<Rightarrow> string \<Rightarrow> string \<Rightarrow> (HTTPRoute \<times> bool) gm" where
  "serve_route r runNS name = gwith (\<lambda>s. glift (ensureServingRoute (ac_Gateway r) (gs_agent s) runNS (st_ActiveRevision (gs_status s))
     (st_ActiveRevisionDigest (gs_status s)) name (routePublicationFor (st_Auth (gs_status s)))))"

definition collect_routes :: "string \<Rightarrow> string \<Rightarrow> unit gm" where
  "collect_routes runNS keep = gwith (\<lambda>s. glift (collectRoutes (gs_agent s) runNS keep))"

definition current_route :: "string \<Rightarrow> string \<Rightarrow> (HTTPRoute option) gm" where
  "current_route runNS name = gwith (\<lambda>s. glift (currentServingRoute (gs_agent s) runNS name))"

definition policy_intact :: "string \<Rightarrow> AuthTarget \<Rightarrow> (PolicyObject option \<times> bool) gm" where
  "policy_intact runNS target = glift (authPolicyIntact runNS target)"

definition apply_policy :: "AuthTarget \<Rightarrow> unit gm" where
  "apply_policy target = (case at_Policy target of
     None \<Rightarrow> gfail nil_deref
   | Some p \<Rightarrow> gwith (\<lambda>s. gbind (policy_write (ensureAuthPolicy (gs_agent s) p)) (\<lambda>_. gret ())))"

text \<open>An error that only says the route is gone is handled; any other ends the step.\<close>

definition catch_gone :: "'a gm \<Rightarrow> ('a option) gm" where
  "catch_gone m s = andThen (m s) (\<lambda>(r, s'). Return (case r of
     Inl e \<Rightarrow> (if e = RouteGone then Inr None else Inl e, s') | Inr x \<Rightarrow> (Inr (Some x), s')))"

definition servedRecord :: "Agent \<Rightarrow> string \<Rightarrow> AuthTarget \<Rightarrow> AuthStatus" where
  "servedRecord agent runNS target =
     (if at_Mode target = AuthModeNone then new_auth AuthModeNone
      else (new_auth AuthModeAPIKey)\<lparr> au_KeySource := KeySource runNS, au_AdmittedGroups := [ag_Namespace agent],
        au_AppliedDigest := at_Digest target, au_Verified := Some \<lparr> vr_ReplicasProbed = 1, vr_ReplicasDeclared = None \<rparr> \<rparr>)"

definition recordServed :: "string \<Rightarrow> AuthTarget \<Rightarrow> unit gm" where
  "recordServed runNS target = gwith (\<lambda>s.
     let auth = servedRecord (gs_agent s) runNS target in
     then_do (set_auth (Some auth)) (then_do persistStatus (governance (governanceFor auth))))"

section \<open>Create\<close>

text \<open>How a stage ends: with the next one, with what is not met, or served.\<close>

record create_break =
  cb_unmet :: string
  cb_requeue :: duration
  cb_published :: bool
  cb_held :: bool

datatype create_step = CreateAgain | CreateBreak create_break | CreateServed

definition break_create :: "string \<Rightarrow> duration \<Rightarrow> create_step gm" where
  "break_create unmet requeue = gret (CreateBreak \<lparr> cb_unmet = unmet, cb_requeue = requeue, cb_published = False, cb_held = False \<rparr>)"

definition create_prepare :: "AgentReconciler \<Rightarrow> string \<Rightarrow> string \<Rightarrow> create_step gm" where
  "create_prepare r runNS name =
     gbind (serve_route r runNS name) (\<lambda>_.
     then_do (collect_routes runNS name)
     (then_do (set_tx (\<lambda>tx. tx\<lparr> tx_Written := True \<rparr>)) (to_stage StageApplyingPolicies CreateAgain)))"

definition create_apply :: "AgentReconciler \<Rightarrow> string \<Rightarrow> AuthTarget \<Rightarrow> create_step gm" where
  "create_apply r runNS target = gwith (\<lambda>s.
     if foreignAtOwnName (gw_foreign (gs_out s)) (gs_agent s) runNS then break_create ownNameHeld AuthProbeInterval
     else then_do (apply_policy target) (to_stage StageConverging CreateAgain))"

definition create_credit :: "AgentReconciler \<Rightarrow> string \<Rightarrow> bool \<Rightarrow> gatewayAuth \<Rightarrow> string + AuthProbeAnswer \<Rightarrow> create_step gm" where
  "create_credit r runNS late abv answer =
     (let got401 = (answer_code answer = Some 401) in
      gbind (if got401 then recheck_above r runNS abv else gret (abv, above_stands abv)) (\<lambda>(abv, held).
        if got401 \<and> \<not> held then to_stage StagePublishing CreateAgain
        else then_do persistStatus (gwith (\<lambda>s.
          let unmet = (if held \<and> got401 then above_hold r runNS abv True s
                else describeProbe (gs_agent s) answer @ (if held then ''; and '' @ above_hold r runNS abv False s else [])) in
          gret (CreateBreak \<lparr> cb_unmet = unmet, cb_requeue = probe_again late, cb_published = False, cb_held = held \<rparr>)))))"

definition create_probe :: "AgentReconciler \<Rightarrow> string \<Rightarrow> bool \<Rightarrow> create_step gm" where
  "create_probe r runNS late =
     gbind (read_above r runNS) (\<lambda>abv. gwith (\<lambda>s.
       if gw_foreign (gs_out s) \<noteq> []
       then gret (CreateBreak \<lparr> cb_unmet = foreign_unmet r runNS abv s, cb_requeue = AuthProbeInterval, cb_published = False,
              cb_held = above_stands abv \<rparr>)
       else gbind (probe r) (\<lambda>answer.
         then_do (set_tx (\<lambda>tx. tx\<lparr> tx_Probe := Some \<lparr> pr_Before = None, pr_After = answer_code answer \<rparr> \<rparr>))
           (create_credit r runNS late abv answer))))"

definition create_verify :: "AgentReconciler \<Rightarrow> string \<Rightarrow> string \<Rightarrow> AuthTarget \<Rightarrow> bool \<Rightarrow> string \<Rightarrow> create_step gm" where
  "create_verify r runNS name target late stage =
     gbind (serve_route r runNS name) (\<lambda>(rt, created).
     gbind (policy_intact runNS target) (\<lambda>(policy, intact).
       if created \<or> \<not> intact then to_stage StageApplyingPolicies CreateAgain
       else gbind (note_nack r runNS policy stage) (\<lambda>n.
         if n \<noteq> [] then break_create n AuthProbeInterval
         else if stage = StageConverging
         then gbind (converged r rt policy) (\<lambda>why. case why of
            Some w \<Rightarrow> break_create w 0
          | None \<Rightarrow> to_stage StageProbingAfter CreateAgain)
         else create_probe r runNS late)))"

definition publish_route :: "AgentReconciler \<Rightarrow> string \<Rightarrow> string \<Rightarrow> AuthTarget \<Rightarrow> create_step gm" where
  "publish_route r runNS name target =
     gbind (current_route runNS name) (\<lambda>current.
       if current = None \<and> at_Mode target = AuthModeAPIKey then to_stage StagePreparingRoute CreateAgain
       else gbind (catch_gone (serve_route r runNS name)) (\<lambda>got. case got of
          None \<Rightarrow> to_stage StagePreparingRoute CreateAgain
        | Some (rt, _) \<Rightarrow>
          then_do (collect_routes runNS name)
          (case routeConverged rt (ac_Gateway r) of
             Some why \<Rightarrow> gret (CreateBreak \<lparr> cb_unmet = msgf ''the published route has not converged'' [why], cb_requeue = 0,
                cb_published = True, cb_held = False \<rparr>)
           | None \<Rightarrow> then_do (recordServed runNS target) (gret CreateServed))))"

definition create_foreign :: "string \<Rightarrow> string \<Rightarrow> create_step gm" where
  "create_foreign runNS name = gbind (current_route runNS name) (\<lambda>current. gwith (\<lambda>s.
     let out = (case current of Some rt \<Rightarrow> routePublished rt | None \<Rightarrow> False) in
     gret (CreateBreak \<lparr> cb_unmet = msgf (if out then ''a foreign traffic policy targets the published route''
          else ''a foreign traffic policy targets the route, so it is not published'') (gw_foreign (gs_out s)),
        cb_requeue = AuthProbeInterval, cb_published = out, cb_held = False \<rparr>)))"

definition create_publish :: "AgentReconciler \<Rightarrow> string \<Rightarrow> string \<Rightarrow> AuthTarget \<Rightarrow> create_step gm" where
  "create_publish r runNS name target =
     gbind (if at_Mode target = AuthModeAPIKey then gbind (policy_intact runNS target) (\<lambda>(_, intact). gret intact) else gret True) (\<lambda>intact.
       if \<not> intact then to_stage StagePreparingRoute CreateAgain
       else gwith (\<lambda>s.
         if st_ActiveRevision (gs_status s) = [] then break_create ''no revision of this Agent is serving, so there is no backend to publish'' 0
         else if gw_foreign (gs_out s) \<noteq> [] then create_foreign runNS name
         else publish_route r runNS name target))"

definition create_stage :: "AgentReconciler \<Rightarrow> string \<Rightarrow> string \<Rightarrow> AuthTarget \<Rightarrow> bool \<Rightarrow> create_step gm" where
  "create_stage r runNS name target late = with_tx (\<lambda>auth tx.
     let stage = tx_Stage tx in
     if stage = StagePreparingRoute then create_prepare r runNS name
     else if stage = StageApplyingPolicies then create_apply r runNS target
     else if stage = StageConverging \<or> stage = StageProbingAfter then create_verify r runNS name target late stage
     else if stage = StagePublishing then create_publish r runNS name target
     else gfail (PlainError (msgf ''status.auth.transaction is a Create in a stage this operator does not know'' [stage])))"

fun create_loop :: "nat \<Rightarrow> create_step gm \<Rightarrow> create_step gm" where
  "create_loop 0 body = break_create unsettled AuthProbeInterval"
| "create_loop (Suc n) body = gbind body (\<lambda>st. case st of CreateAgain \<Rightarrow> create_loop n body | _ \<Rightarrow> gret st)"

text \<open>What a Create that is not done reports.\<close>

definition create_report :: "AuthTransaction \<Rightarrow> bool \<Rightarrow> create_break \<Rightarrow> string \<Rightarrow> unit gm" where
  "create_report tx late b unmet =
     (let msg = msgf ''the Create of this Agent's -auth is in stage'' [tx_TargetMode tx, tx_Stage tx, unmet];
          full = msg @ (if late then msgf ''. Its deadline has passed'' [deadline_text tx] else []) @
            (if cb_published b then ''. The transaction keeps working'' else ''. The route stays unpublished, and the transaction keeps working'') in
      gwith (\<lambda>s.
        if late \<or> gw_nack (gs_out s) \<noteq> []
        then then_do (set_conds (cond_set CondPolicyApplyIncomplete CTrue ReasonAuthEnforcementUnverified full))
               (set_out (withhold_first ReasonAuthEnforcementUnverified full))
        else if cb_held b
        then let held = msg @ ''. The route stays prepared and unpublished, and the Create holds in ProbingAfter'' in
             then_do (set_conds (raiseIncomplete ReasonGatewayAuthPolicy held)) (set_out (withholdInOrder ReasonGatewayAuthPolicy held))
        else if \<not> cb_published b
        then set_out (withhold_first ReasonAuthEnforcementPending (msg @ ''. The route is not published until an anonymous request through it gets 401''))
        else gret ()))"

definition create_governance :: "string \<Rightarrow> AuthTarget \<Rightarrow> AuthTransaction \<Rightarrow> create_break \<Rightarrow> gstate \<Rightarrow> cond_status \<times> string \<times> string" where
  "create_governance runNS target tx b s =
     (if cb_published b \<and> at_Mode target = AuthModeNone then governanceFor (servedRecord (gs_agent s) runNS target)
      else if cb_published b then (CFalse, ReasonAuthVerifiedOnOneReplica, ''the route is published and has not converged at the control plane yet'')
      else vacuousGovernance (''this Agent's route is prepared and not yet published, in the Create's stage '' @ tx_Stage tx))"

definition create_finish :: "string \<Rightarrow> AuthTarget \<Rightarrow> go_time \<Rightarrow> bool \<Rightarrow> create_break \<Rightarrow> unit gm" where
  "create_finish runNS target at late b = with_tx (\<lambda>auth tx. gwith (\<lambda>s.
     let unmet = cb_unmet b @ gw_nackNote (gs_out s) in
     case settle_requeue (cb_requeue b) at late tx of
       Inl e \<Rightarrow> gfail e
     | Inr d \<Rightarrow>
       then_do (set_out (\<lambda>out. out\<lparr> gw_requeue := d, gw_served := (gw_served out \<or> au_Mode auth \<noteq> []) \<rparr>))
       (then_do (create_report tx late b unmet) (gwith (\<lambda>s. governance (create_governance runNS target tx b s))))))"

definition runCreate :: "AgentReconciler \<Rightarrow> string \<Rightarrow> string \<Rightarrow> unit gm" where
  "runCreate r runNS name = with_tx (\<lambda>auth tx. gwith (\<lambda>s.
     case createTarget r (gs_agent s) runNS tx of
       Inl e \<Rightarrow> gfail e
     | Inr target \<Rightarrow> gbind (gask clockNow) (\<lambda>at.
         let late = past_deadline at tx in
         gbind (create_loop 12 (create_stage r runNS name target late)) (\<lambda>st. case st of
            CreateBreak b \<Rightarrow> create_finish runNS target at late b
          | _ \<Rightarrow> gret ()))))"

section \<open>Re-creating the route\<close>

definition enter_tx :: "AgentReconciler \<Rightarrow> (AuthStatus \<Rightarrow> go_time \<Rightarrow> AuthTransaction) \<Rightarrow> unit gm" where
  "enter_tx r f = gwith (\<lambda>s. case st_Auth (gs_status s) of
     None \<Rightarrow> gfail nil_deref
   | Some a \<Rightarrow> gbind (gask clockNow) (\<lambda>at.
       then_do (set_auth (Some (a\<lparr> au_Transaction := Some (f a (deadline_at r at)) \<rparr>))) persistStatus))"

definition recreateRoute :: "AgentReconciler \<Rightarrow> string \<Rightarrow> string \<Rightarrow> unit gm" where
  "recreateRoute r runNS name =
     then_do (enter_tx r (\<lambda>a d. new_tx TxCreate (au_Mode a) (au_AppliedDigest a) StagePreparingRoute d)) (runCreate r runNS name)"

section \<open>Lock\<close>

record lock_break =
  lb_unmet :: string
  lb_requeue :: duration
  lb_rt :: HTTPRoute
  lb_repointed :: bool
  lb_held :: bool

datatype lock_step = LockAgain | LockBreak lock_break | LockDone

definition break_lock :: "HTTPRoute \<Rightarrow> string \<Rightarrow> duration \<Rightarrow> lock_step gm" where
  "break_lock rt unmet requeue = gret (LockBreak \<lparr> lb_unmet = unmet, lb_requeue = requeue, lb_rt = rt, lb_repointed = False, lb_held = False \<rparr>)"

text \<open>When and why a 401 through the route can be attributed (\<open>cardAttributes\<close> says whether).\<close>

definition attributed_at :: "Agent \<Rightarrow> AgentStatus \<Rightarrow> HTTPRoute \<Rightarrow> string" where
  "attributed_at agent status rt =
     (case find (\<lambda>c. cd_Digest c \<noteq> [] \<and> WorkloadName (ag_Name agent) (cd_Revision c) = singleBackend (Some (route_view rt))) (st_Cards status) of
        None \<Rightarrow> []
      | Some c \<Rightarrow> (case cd_FetchedAt c of None \<Rightarrow> ''an unrecorded time'' | Some at \<Rightarrow> itoa at))"

definition unattributed_why :: "HTTPRoute \<Rightarrow> string" where
  "unattributed_why rt = (let backend = singleBackend (Some (route_view rt)) in
     if backend = [] then ''the route does not carry exactly one backendRef, so it is unattributable''
     else msgf ''no card digest is recorded for the revision the route names'' [backend])"

definition attributes :: "gstate \<Rightarrow> HTTPRoute \<Rightarrow> bool" where
  "attributes s rt = cardAttributes (ag_Name (gs_agent s)) (gs_status s) (Some (route_view rt))"

definition lockServed :: "AgentReconciler \<Rightarrow> string \<Rightarrow> string \<Rightarrow> AuthTarget \<Rightarrow> bool \<Rightarrow> bool \<Rightarrow> string \<Rightarrow> string \<Rightarrow> unit gm" where
  "lockServed r runNS name target reCreate observed beforeRev fetchedAt =
     then_do (recordServed runNS target)
     (then_do (if reCreate then gret () else gbind (serve_route r runNS name) (\<lambda>_. gret ()))
     (gwith (\<lambda>s. case st_Auth (gs_status s) of
        None \<Rightarrow> gfail nil_deref
      | Some auth \<Rightarrow> (case governanceFor auth of (st, reason, msg) \<Rightarrow>
          governance (st, reason, msg @
            (if reCreate then msgf ''. Its policy was missing and was re-created; the 401 is attributed by the card'' [fetchedAt]
             else if observed then msgf ''. It was locked in place; the transition was observed'' [beforeRev]
             else msgf ''. It was locked in place; the 401 is attributed by the card'' [fetchedAt]))))))"

definition lock_probe_before :: "AgentReconciler \<Rightarrow> HTTPRoute \<Rightarrow> lock_step gm" where
  "lock_probe_before r rt = gbind (probe r) (\<lambda>answer. gwith (\<lambda>s.
     let before = (case answer of Inl _ \<Rightarrow> []
           | Inr a \<Rightarrow> beforeRevisionFor (ag_Name (gs_agent s)) (gs_status s) (Some (route_view rt)) (pa_Code a) (pa_CardDigest a)) in
     then_do (set_tx (\<lambda>tx. (if before = [] then tx else tx\<lparr> tx_BeforeObserved := True, tx_BeforeRevision := before \<rparr>)
        \<lparr> tx_Probe := Some \<lparr> pr_Before = answer_code answer, pr_After = None \<rparr>, tx_Written := True \<rparr>))
       (to_stage StageApplyingPolicies LockAgain)))"

definition lock_apply :: "AgentReconciler \<Rightarrow> string \<Rightarrow> HTTPRoute \<Rightarrow> AuthTarget \<Rightarrow> lock_step gm" where
  "lock_apply r runNS rt target = gwith (\<lambda>s.
     if foreignAtOwnName (gw_foreign (gs_out s)) (gs_agent s) runNS then break_lock rt ownNameHeld AuthProbeInterval
     else then_do (apply_policy target) (to_stage StageConverging LockAgain))"

text \<open>The answer of the probe: served if it is a 401 that can be attributed and that nothing above the route may have given.\<close>

definition lock_credit :: "AgentReconciler \<Rightarrow> string \<Rightarrow> string \<Rightarrow> AuthTarget \<Rightarrow> bool \<Rightarrow> bool \<Rightarrow> gatewayAuth \<Rightarrow> HTTPRoute \<Rightarrow> bool
    \<Rightarrow> string + AuthProbeAnswer \<Rightarrow> lock_step gm" where
  "lock_credit r runNS name target late reCreate abv rt repointed answer = with_tx (\<lambda>auth tx. gwith (\<lambda>s.
     let attributed = attributes s rt;
         creditable = (answer_code answer = Some 401 \<and> (tx_BeforeObserved tx \<or> attributed)) in
     gbind (if creditable then recheck_above r runNS abv else gret (abv, above_stands abv)) (\<lambda>(abv, held).
       if creditable \<and> \<not> held
       then then_do (lockServed r runNS name target reCreate (tx_BeforeObserved tx) (tx_BeforeRevision tx) (attributed_at (gs_agent s) (gs_status s) rt))
              (gret LockDone)
       else then_do persistStatus (gwith (\<lambda>s.
         let unmet = (if creditable then above_hold r runNS abv True s
               else if answer_code answer = Some 401 then msgf ''the last anonymous probe got a 401 that cannot be attributed'' [unattributed_why rt]
               else describeProbe (gs_agent s) answer) @
              (if held \<and> \<not> creditable then ''; and '' @ above_hold r runNS abv False s else []) in
         gret (LockBreak \<lparr> lb_unmet = unmet, lb_requeue = probe_again late, lb_rt = rt, lb_repointed = repointed, lb_held = held \<rparr>))))))"

definition lock_probe_after :: "AgentReconciler \<Rightarrow> string \<Rightarrow> string \<Rightarrow> AuthTarget \<Rightarrow> bool \<Rightarrow> bool \<Rightarrow> gatewayAuth \<Rightarrow> HTTPRoute \<Rightarrow> bool \<Rightarrow> lock_step gm" where
  "lock_probe_after r runNS name target late reCreate abv rt repointed = (case routeConverged rt (ac_Gateway r) of
     Some why \<Rightarrow> gwith (\<lambda>s.
       let unmet = msgf ''no anonymous request is sent until the Gateway reports the serving route accepted'' [why] @
             (if above_stands abv then ''; and '' @ above_hold r runNS abv False s else []) in
       gret (LockBreak \<lparr> lb_unmet = unmet, lb_requeue = probe_again late, lb_rt = rt, lb_repointed = repointed, lb_held = above_stands abv \<rparr>))
   | None \<Rightarrow> gbind (probe r) (\<lambda>answer.
       then_do (set_tx (\<lambda>tx. tx\<lparr> tx_Probe := Some ((case tx_Probe tx of None \<Rightarrow> \<lparr> pr_Before = None, pr_After = None \<rparr> | Some p \<Rightarrow> p)
          \<lparr> pr_After := answer_code answer \<rparr>) \<rparr>))
         (lock_credit r runNS name target late reCreate abv rt repointed answer)))"

text \<open>A re-created policy's route is moved onto the active revision once that revision's card is recorded.\<close>

definition lock_repoint :: "AgentReconciler \<Rightarrow> string \<Rightarrow> string \<Rightarrow> AuthTarget \<Rightarrow> bool \<Rightarrow> bool \<Rightarrow> gatewayAuth \<Rightarrow> HTTPRoute \<Rightarrow> lock_step gm" where
  "lock_repoint r runNS name target late reCreate abv rt = gwith (\<lambda>s.
     if reCreate \<and> cardedRevision (gs_status s) (st_ActiveRevision (gs_status s))
     then gbind (catch_gone (serve_route r runNS name)) (\<lambda>got. case got of
        None \<Rightarrow> then_do (recreateRoute r runNS name) (gret LockDone)
      | Some (cur, _) \<Rightarrow> then_do (collect_routes runNS name) (lock_probe_after r runNS name target late reCreate abv cur True))
     else lock_probe_after r runNS name target late reCreate abv rt False)"

definition lock_verify :: "AgentReconciler \<Rightarrow> string \<Rightarrow> string \<Rightarrow> AuthTarget \<Rightarrow> bool \<Rightarrow> bool \<Rightarrow> HTTPRoute \<Rightarrow> string \<Rightarrow> lock_step gm" where
  "lock_verify r runNS name target late reCreate rt stage =
     gbind (policy_intact runNS target) (\<lambda>(policy, intact).
       if \<not> intact then to_stage StageApplyingPolicies LockAgain
       else gbind (note_nack r runNS policy stage) (\<lambda>n.
         if n \<noteq> [] then break_lock rt n AuthProbeInterval
         else if stage = StageConverging
         then gbind (converged r rt policy) (\<lambda>why. case why of
            Some w \<Rightarrow> break_lock rt w 0
          | None \<Rightarrow> to_stage StageProbingAfter LockAgain)
         else gbind (read_above r runNS) (\<lambda>abv. gwith (\<lambda>s.
           if gw_foreign (gs_out s) \<noteq> []
           then gret (LockBreak \<lparr> lb_unmet = foreign_unmet r runNS abv s, lb_requeue = AuthProbeInterval, lb_rt = rt,
                  lb_repointed = False, lb_held = above_stands abv \<rparr>)
           else lock_repoint r runNS name target late reCreate abv rt))))"

definition lock_stage :: "AgentReconciler \<Rightarrow> string \<Rightarrow> string \<Rightarrow> AuthTarget \<Rightarrow> bool \<Rightarrow> bool \<Rightarrow> HTTPRoute \<Rightarrow> lock_step gm" where
  "lock_stage r runNS name target late reCreate rt = with_tx (\<lambda>auth tx.
     let stage = tx_Stage tx in
     if stage = StageProbingBefore then lock_probe_before r rt
     else if stage = StageApplyingPolicies then lock_apply r runNS rt target
     else if stage = StageConverging \<or> stage = StageProbingAfter then lock_verify r runNS name target late reCreate rt stage
     else gfail (PlainError (msgf ''status.auth.transaction is a Lock in a stage this operator does not know'' [stage])))"

fun lock_loop :: "nat \<Rightarrow> HTTPRoute \<Rightarrow> lock_step gm \<Rightarrow> lock_step gm" where
  "lock_loop 0 rt body = break_lock rt unsettled AuthProbeInterval"
| "lock_loop (Suc n) rt body = gbind body (\<lambda>st. case st of LockAgain \<Rightarrow> lock_loop n rt body | _ \<Rightarrow> gret st)"

text \<open>What a Lock of a missing policy says of the route, and of how its state ends.\<close>

definition missingPolicyRouteNote :: "Agent \<Rightarrow> AgentStatus \<Rightarrow> HTTPRoute \<Rightarrow> string \<Rightarrow> bool \<Rightarrow> bool \<Rightarrow> string list \<Rightarrow> string" where
  "missingPolicyRouteNote agent status rt runNS repointed held foreign =
     (let route = (case ServingRouteName (ag_Name agent) of Inl _ \<Rightarrow> [] | Inr n \<Rightarrow> n);
          backend = singleBackend (Some (route_view rt));
          named = (if backend = [] then msgf ''the route names no revision'' [runNS, route] else msgf ''the route names a revision'' [runNS, route, backend]) @
            (if repointed then msgf '', and was re-pointed at status.activeRevision'' [st_ActiveRevision status] else '', and the route was left as found'');
          candidate = (st_CandidateRevision status \<noteq> []);
          ends = (if candidate then msgf ''nothing is fetching the active revision's card: a candidate is the desired revision'' [st_CandidateRevision status]
              else ''this ends without an administrator when the active revision's own card records'') @
            (if foreign \<noteq> [] then ''; none of that ends it while the foreign traffic policy stands''
             else if held then ''; none of that ends it while the Gateway-level policy stands'' else []);
          only = (if candidate then ''; act only where that candidate can never promote'' else []);
          active = WorkloadName (ag_Name agent) (st_ActiveRevision status);
          exits = (if backend = [] then only @ ''; only the first exit applies''
            else if backend = active \<and> \<not> candidate then ''; neither exit is needed here''
            else if backend = active then only @ ''; the exit that works then is the second''
            else only @ ''; either exit applies'') in
      if cardAttributes (ag_Name agent) status (Some (route_view rt)) \<or> cardedRevision status (st_ActiveRevision status) then named
      else msgf ''no 401 through this route can be attributed'' [named, ends, exits])"

definition lockPendingMessage :: "bool \<Rightarrow> string \<Rightarrow> AuthTransaction \<Rightarrow> string \<Rightarrow> string" where
  "lockPendingMessage k2 policy tx unmet =
     msgf (if k2 then ''the owner edited auth to apikey, so the route is being locked in place'' else ''auth moved from none to apikey, so the route is being locked in place'')
       [policy, tx_Stage tx, unmet, (if tx_BeforeObserved tx then msgf ''the before-state was observed'' [tx_BeforeRevision tx] else ''the before-state was not observed'')]"

definition lock_report :: "AgentReconciler \<Rightarrow> string \<Rightarrow> bool \<Rightarrow> bool \<Rightarrow> AuthTransaction \<Rightarrow> bool \<Rightarrow> lock_break \<Rightarrow> string \<Rightarrow> unit gm" where
  "lock_report r runNS reCreate k2 tx late b unmet = gwith (\<lambda>s.
     let policy = own_policy_name (gs_agent s);
         note = (if late then msgf ''. Its deadline has passed, and the Lock keeps working'' [deadline_text tx] else []) in
     if reCreate then
       let msg = msgf ''this Agent's policy was missing and was re-created; it is trusted only once a 401 can be attributed'' [runNS, policy,
             missingPolicyRouteNote (gs_agent s) (gs_status s) (lb_rt b) runNS (lb_repointed b) (lb_held b) (gw_foreign (gs_out s)), tx_Stage tx, unmet] @ note in
       then_do (set_conds (\<lambda>c. cond_set CondPolicyApplyIncomplete CTrue ReasonAuthPolicyMissing msg (cond_set CondGovernanceSkipped CTrue ReasonAuthPolicyMissing msg c)))
         (set_out (withhold_first ReasonAuthPolicyMissing msg))
     else
       let msg = lockPendingMessage k2 policy tx unmet @ note in
       then_do (set_conds (cond_set CondGovernanceSkipped CTrue ReasonAuthLockPending msg))
         (if late \<or> gw_nack (gs_out s) \<noteq> []
          then then_do (set_conds (cond_set CondPolicyApplyIncomplete CTrue ReasonAuthLockUnverified msg)) (set_out (withhold_first ReasonAuthLockUnverified msg))
          else if lb_held b
          then then_do (set_conds (cond_set CondPolicyApplyIncomplete CTrue ReasonGatewayAuthPolicy msg)) (set_out (withholdInOrder ReasonGatewayAuthPolicy msg))
          else gret ()))"

definition lock_finish :: "AgentReconciler \<Rightarrow> string \<Rightarrow> bool \<Rightarrow> bool \<Rightarrow> go_time \<Rightarrow> bool \<Rightarrow> lock_break \<Rightarrow> unit gm" where
  "lock_finish r runNS reCreate k2 at late b = with_tx (\<lambda>auth tx. gwith (\<lambda>s.
     case settle_requeue (lb_requeue b) at late tx of
       Inl e \<Rightarrow> gfail e
     | Inr d \<Rightarrow> then_do (set_out (\<lambda>out. out\<lparr> gw_requeue := d, gw_served := True \<rparr>))
         (lock_report r runNS reCreate k2 tx late b (lb_unmet b @ gw_nackNote (gs_out s)))))"

text \<open>The route a Lock works on; nothing if it was re-created instead.\<close>

definition lock_route :: "AgentReconciler \<Rightarrow> string \<Rightarrow> string \<Rightarrow> bool \<Rightarrow> AuthTransaction \<Rightarrow> (HTTPRoute option) gm" where
  "lock_route r runNS name reCreate tx = gwith (\<lambda>s.
     let agent = gs_agent s; active = st_ActiveRevision (gs_status s) in
     if reCreate then gbind (current_route runNS name) (\<lambda>cur.
       if (case cur of None \<Rightarrow> True | Some rt \<Rightarrow> \<not> routePublished rt) \<and> active \<noteq> []
       then then_do (recreateRoute r runNS name) (gret None)
       else case cur of
          None \<Rightarrow> gfail (PlainError (msgf ''a Lock of a missing policy has no route and no serving revision'' [ag_Name agent]))
        | Some rt \<Rightarrow> then_do (set_out (\<lambda>out. out\<lparr> gw_judgeRoute := Some rt \<rparr>)) (gret (Some rt)))
     else if active = [] then gfail (PlainError (msgf ''a Lock has no serving revision to keep published'' [ag_Name agent]))
     else gbind (serve_route r runNS name) (\<lambda>(rt, _).
       then_do (collect_routes runNS name)
       (then_do (set_out (\<lambda>out. out\<lparr> gw_judgeRoute := Some rt \<rparr>))
       (if tx_BeforeRevision tx \<noteq> [] \<and> singleBackend (Some (route_view rt)) \<noteq> WorkloadName (ag_Name agent) (tx_BeforeRevision tx)
        then then_do (set_tx (\<lambda>tx. tx\<lparr> tx_BeforeObserved := False, tx_BeforeRevision := [] \<rparr>)) (then_do persistStatus (gret (Some rt)))
        else gret (Some rt)))))"

definition runLock :: "AgentReconciler \<Rightarrow> string \<Rightarrow> string \<Rightarrow> unit gm" where
  "runLock r runNS name = with_tx (\<lambda>auth tx. gwith (\<lambda>s.
     let reCreate = isReCreation (Some auth); k2 = (au_Mode auth = []) in
     case lock_target r (gs_agent s) runNS tx of
       Inl e \<Rightarrow> gfail e
     | Inr target \<Rightarrow> gbind (lock_route r runNS name reCreate tx) (\<lambda>route. case route of
         None \<Rightarrow> gret ()
       | Some rt \<Rightarrow> gbind (gask clockNow) (\<lambda>at.
           let late = past_deadline at tx in
           gbind (lock_loop 12 rt (lock_stage r runNS name target late reCreate rt)) (\<lambda>st. case st of
              LockBreak b \<Rightarrow> lock_finish r runNS reCreate k2 at late b
            | _ \<Rightarrow> gret ())))))"

end
