(* ===== verification/Auth_Gateway.thy ===== *)
theory Auth_Gateway
  imports Auth_Transaction
begin

text \<open>
  The gateway's part of a pass (\<^verbatim>\<open>internal/controller/authtxn.go\<close>, \<^verbatim>\<open>reconcileGateway\<close> and what it calls):
  which transaction runs, its entry and its abandonment, the refusal of a route nobody recorded, a
  served Agent's route and policy, and the reports of foreign policies and of policies above the route.
  \<open>gateway_parts\<close> is what the Agent reconciler is given of it.
\<close>

section \<open>Adopt: the refusal\<close>

text \<open>A failed step whose outcome is dropped.\<close>

definition without_outcome :: "unit gm \<Rightarrow> unit gm" where
  "without_outcome m s = andThen (m s) (\<lambda>(r, s'). Return (r, if isl r then s'\<lparr> gs_out := no_outcome \<rparr> else s'))"

definition refused_mode :: "Agent \<Rightarrow> AuthStatus option \<Rightarrow> string" where
  "refused_mode agent auth = (let refused = desiredModeName agent in
     case auth of
       None \<Rightarrow> refused
     | Some a \<Rightarrow> (case au_Transaction a of
         None \<Rightarrow> refused
       | Some tx \<Rightarrow> if tx_Kind tx = TxAdopt \<and> refused = AuthModeAPIKey \<and> tx_RefusedMode tx \<noteq> [] then tx_RefusedMode tx else refused))"

definition adopt_tx :: "string \<Rightarrow> AuthTransaction" where
  "adopt_tx refused = \<lparr> tx_Kind = TxAdopt, tx_TargetMode = [], tx_TargetDigest = [], tx_Stage = StageRefused, tx_Written = False,
     tx_Deadline = None, tx_Probe = None, tx_BeforeObserved = False, tx_BeforeRevision = [], tx_RefusedMode = refused \<rparr>"

definition write_claims :: "servedClaims \<Rightarrow> unit gm" where
  "write_claims cl = gmod (\<lambda>s. s\<lparr> gs_status := writeTo cl (gs_status s) \<rparr>)"

definition refuseAdopt :: "AgentReconciler \<Rightarrow> string \<Rightarrow> string \<Rightarrow> authDesire \<Rightarrow> unit gm" where
  "refuseAdopt r runNS name desire = then_do (set_out (\<lambda>_. no_outcome)) (without_outcome (
     then_do (gwith (\<lambda>s. if st_ActiveRevision (gs_status s) = [] then gret ()
       else gbind (serve_route r runNS name) (\<lambda>(rt, _). set_out (\<lambda>out. out\<lparr> gw_judgeRoute := Some rt \<rparr>))))
     (then_do (collect_routes runNS name)
     (gwith (\<lambda>s.
       let refused = refused_mode (gs_agent s) (st_Auth (gs_status s));
           claims = storedClaims (gs_agent s) in
       then_do (set_auth (Some ((new_auth [])\<lparr> au_Transaction := Some (adopt_tx refused) \<rparr>)))
       (then_do (write_claims claims)
       (then_do persistStatus
         (governance (CTrue, ReasonCompilerUpgradeUnsupported, msgf ''the route is published and this operator has no record of publishing it''
           [runNS, name,
            (if refused = AuthModeAPIKey then ''edit auth to none, wait until refusedMode reads none, then edit it to apikey''
             else ''editing auth to apikey locks this route in place'') @
            (if \<not> desire_compiles desire \<and> \<not> isl (ad_target desire) then ''. spec.budget does not compile: remove it first'' else [])])))))))))"

section \<open>Entering and abandoning\<close>

definition enterLock :: "AgentReconciler \<Rightarrow> string \<Rightarrow> string \<Rightarrow> authDesire \<Rightarrow> unit gm" where
  "enterLock r runNS name desire = gbind (gask clockNow) (\<lambda>at. gwith (\<lambda>s.
     let digest = (case ad_target desire of Inl _ \<Rightarrow> [] | Inr t \<Rightarrow> at_Digest t);
         tx = new_tx TxLock AuthModeAPIKey digest StageProbingBefore (deadline_at r at) in
     then_do (case st_Auth (gs_status s) of
        Some a \<Rightarrow> if au_Mode a \<noteq> [] then set_auth (Some (a\<lparr> au_Transaction := Some tx \<rparr>))
          else then_do (set_auth (Some ((new_auth [])\<lparr> au_Transaction := Some tx \<rparr>))) (write_claims (storedClaims (gs_agent s)))
      | None \<Rightarrow> then_do (set_auth (Some ((new_auth [])\<lparr> au_Transaction := Some tx \<rparr>))) (write_claims (storedClaims (gs_agent s))))
     (then_do persistStatus (runLock r runNS name))))"

definition abandonWaiting :: "AuthStatus \<Rightarrow> AuthTransaction \<Rightarrow> string \<Rightarrow> unit gm" where
  "abandonWaiting auth tx waiting = gwith (\<lambda>s.
     let msg = msgf ''the -auth transaction is abandoned, and what it must remove is not gone yet''
           [tx_Kind tx, tx_TargetMode tx, desiredModeName (gs_agent s), waiting] in
     then_do (set_conds (cond_set CondPolicyApplyIncomplete CTrue ReasonAuthAbandonWaiting msg))
       (set_out (\<lambda>out. (withhold_first ReasonAuthAbandonWaiting msg out)
          \<lparr> gw_served := (au_Mode auth \<noteq> [] \<or> tx_Kind tx = TxLock), gw_requeue := 30 * second \<rparr>)))"

definition live_route :: "string \<Rightarrow> string \<Rightarrow> (HTTPRoute option) gm" where
  "live_route runNS name = gwith (\<lambda>s. glift (liveServingRoute (gs_agent s) runNS name))"

definition strip_route :: "HTTPRoute \<Rightarrow> HTTPRoute" where
  "strip_route rt = rt\<lparr> hr_Rules := map (\<lambda>ru. ru\<lparr> ru_BackendRefs := [] \<rparr>) (hr_Rules rt) \<rparr>"

definition stripRoute :: "string \<Rightarrow> string \<Rightarrow> HTTPRoute \<Rightarrow> (go_error + HTTPRoute) op" where
  "stripRoute runNS name rt = Ask (Update (ORoute (strip_route rt))) (\<lambda>a. Return (case resp_obj as_route a of
     Inl e \<Rightarrow> Inl (ApiFail (msgf ''strip route before the abandonment removes anything'' [name, runNS]) e) | Inr x \<Rightarrow> Inr x))"

definition deleteRoute :: "string \<Rightarrow> string \<Rightarrow> HTTPRoute \<Rightarrow> (go_error + unit) op" where
  "deleteRoute runNS name rt =
     (if om_DeletionTimestamp (hr_Meta rt) \<noteq> None then Return (Inr ())
      else andThen (deleteObj (ORoute rt) (Some (om_UID (hr_Meta rt)))) (\<lambda>e. Return (case e of
        None \<Rightarrow> Inr ()
      | Some x \<Rightarrow> if IsNotFound x then Inr () else Inl (ApiFail (msgf ''delete route'' [name, runNS]) x))))"

text \<open>An abandoned Create's route loses its backends, and is deleted if no route is prepared in its place; what still holds it.\<close>

definition abandon_route :: "string \<Rightarrow> string \<Rightarrow> authDesire \<Rightarrow> string gm" where
  "abandon_route runNS name desire =
     gbind (live_route runNS name) (\<lambda>got. case got of
        None \<Rightarrow> gret []
      | Some rt \<Rightarrow>
        gbind (if routePublished rt then glift (stripRoute runNS name rt) else gret rt) (\<lambda>rt.
          if desire_compiles desire then gret []
          else then_do (glift (deleteRoute runNS name rt))
            (gbind (live_route runNS name) (\<lambda>still. gret (case still of None \<Rightarrow> [] | Some x \<Rightarrow> heldBy_route x)))))"

text \<open>Whether the step goes on after the abandonment.\<close>

definition abandon_record :: "AgentReconciler \<Rightarrow> string \<Rightarrow> string \<Rightarrow> authDesire \<Rightarrow> AuthStatus \<Rightarrow> AuthTransaction \<Rightarrow> bool gm" where
  "abandon_record r runNS name desire auth tx =
     (if tx_Kind tx = TxLock \<and> au_Mode auth = [] then then_do (refuseAdopt r runNS name desire) (gret False)
      else if tx_Kind tx = TxLock then gwith (\<lambda>s.
        let kept = storedClaims (gs_agent s) in
        then_do (set_auth (Some (new_auth (au_Mode auth)))) (then_do (write_claims kept) (then_do persistStatus (gret True))))
      else then_do (set_auth None) (if desire_compiles desire then gret True else then_do persistStatus (gret True)))"

definition abandon :: "AgentReconciler \<Rightarrow> string \<Rightarrow> string \<Rightarrow> authDesire \<Rightarrow> bool gm" where
  "abandon r runNS name desire = with_tx (\<lambda>auth tx.
     gbind (if tx_Kind tx = TxCreate then abandon_route runNS name desire else gret []) (\<lambda>waiting.
       if waiting \<noteq> [] then then_do (abandonWaiting auth tx waiting) (gret False)
       else gbind (if tx_Written tx then gwith (\<lambda>s. policy_write (deleteAuthPolicy (gs_agent s) runNS)) else gret []) (\<lambda>waiting.
         if waiting \<noteq> [] then then_do (abandonWaiting auth tx waiting) (gret False)
         else abandon_record r runNS name desire auth tx)))"

section \<open>A served Agent\<close>

definition lockMissingPolicy :: "AgentReconciler \<Rightarrow> string \<Rightarrow> string \<Rightarrow> unit gm" where
  "lockMissingPolicy r runNS name =
     then_do (enter_tx r (\<lambda>a d. (new_tx TxLock (au_Mode a) (au_AppliedDigest a) StageApplyingPolicies d)\<lparr> tx_Written := True \<rparr>)) (runLock r runNS name)"

definition keep_route :: "AgentReconciler \<Rightarrow> string \<Rightarrow> string \<Rightarrow> AuthStatus \<Rightarrow> unit gm" where
  "keep_route r runNS name auth = gwith (\<lambda>s.
     let finish = (\<lambda>keep. then_do (collect_routes runNS keep) (gwith (\<lambda>s. governance (governanceFor auth)))) in
     if st_ActiveRevision (gs_status s) = [] then finish []
     else gbind (catch_gone (serve_route r runNS name)) (\<lambda>got. case got of
        None \<Rightarrow> recreateRoute r runNS name
      | Some (rt, _) \<Rightarrow>
        then_do (if au_Mode auth = AuthModeAPIKey then gret () else set_out (\<lambda>out. out\<lparr> gw_judgeRoute := Some rt \<rparr>)) (finish name)))"

definition keep_policy :: "AgentReconciler \<Rightarrow> string \<Rightarrow> string \<Rightarrow> AuthStatus \<Rightarrow> unit gm" where
  "keep_policy r runNS name auth = gwith (\<lambda>s.
     gbind (glift (authPolicyPresent (gs_agent s) runNS)) (\<lambda>present.
       if \<not> present then lockMissingPolicy r runNS name
       else gbind (policy_write (reassertServedPolicy r (gs_agent s) runNS auth)) (\<lambda>(judged, live).
         then_do (set_out (\<lambda>out. out\<lparr> gw_keyPolicy := \<lparr> kp_read = True, kp_obj = live \<rparr>, gw_judgePolicy := judged \<rparr>))
           (keep_route r runNS name auth))))"

definition reconcileServed :: "AgentReconciler \<Rightarrow> string \<Rightarrow> string \<Rightarrow> unit gm" where
  "reconcileServed r runNS name = gwith (\<lambda>s. case st_Auth (gs_status s) of
     None \<Rightarrow> gfail nil_deref
   | Some auth \<Rightarrow>
     if au_Mode auth = AuthModeAPIKey \<and> st_ActiveRevision (gs_status s) \<noteq> []
     then gbind (current_route runNS name) (\<lambda>cur. case cur of
        None \<Rightarrow> recreateRoute r runNS name
      | Some rt \<Rightarrow>
        if \<not> routePublished rt then recreateRoute r runNS name
        else then_do (set_out (\<lambda>out. out\<lparr> gw_judgeRoute := Some rt \<rparr>)) (keep_policy r runNS name auth))
     else keep_route r runNS name auth)"

section \<open>The step\<close>

definition compile_failed :: "bool \<Rightarrow> failure list \<Rightarrow> unit gm" where
  "compile_failed served fails = (case fails of
     [] \<Rightarrow> gret ()
   | f # _ \<Rightarrow> then_do (set_conds (cond_set CondPolicyCompileFailed CTrue (fl_reason f) (joinFailures fails)))
       (set_out (\<lambda>out. out\<lparr> gw_withhold := Some \<lparr> fl_reason = fl_reason f, fl_message = joinFailures fails \<rparr>, gw_served := served \<rparr>)))"

text \<open>What an abandoned Lock leaves is added to what does not compile.\<close>

definition abandoned_note :: "string \<Rightarrow> bool \<Rightarrow> failure list \<Rightarrow> (failure list) gm" where
  "abandoned_note runNS abandonedLock fails = (case fails of
     [] \<Rightarrow> gret []
   | f # fs \<Rightarrow>
     if \<not> abandonedLock \<or> fl_reason f \<noteq> ReasonAuthInputAbsent then gret fails
     else gwith (\<lambda>s. gbind (glift (authPolicyPresent (gs_agent s) runNS)) (\<lambda>remains.
       gret (f\<lparr> fl_message := fl_message f @ msgf (if remains then ''. The Lock to apikey was abandoned, and a policy that is not this Agent's remains''
          else ''. The Lock to apikey was abandoned, and its policy was deleted'') [runNS, own_policy_name (gs_agent s)] \<rparr> # fs))))"

definition enter_create :: "AgentReconciler \<Rightarrow> string \<Rightarrow> string \<Rightarrow> AuthTarget \<Rightarrow> unit gm" where
  "enter_create r runNS name target = gbind (gask clockNow) (\<lambda>at. gwith (\<lambda>s.
     let tx = new_tx TxCreate (at_Mode target) (at_Digest target)
           (if at_Mode target = AuthModeNone then StagePublishing else StagePreparingRoute) (deadline_at r at);
         a = (case st_Auth (gs_status s) of None \<Rightarrow> new_auth [] | Some a \<Rightarrow> a) in
     then_do (set_auth (Some (a\<lparr> au_Transaction := Some tx \<rparr>))) (then_do persistStatus (runCreate r runNS name))))"

text \<open>No record and no transaction: nothing while nothing serves or compiles, and otherwise a Create.\<close>

definition first_step :: "AgentReconciler \<Rightarrow> string \<Rightarrow> string \<Rightarrow> authDesire \<Rightarrow> unit gm" where
  "first_step r runNS name desire = gwith (\<lambda>s. case ad_target desire of
     Inr target \<Rightarrow>
       if ad_budget desire \<or> st_ActiveRevision (gs_status s) = []
       then then_do (collect_routes runNS []) (governance (vacuousGovernance
         (if ad_budget desire then ''this Agent's serving route does not compile, so no route is prepared for it'' else ''no revision of this Agent is serving yet'')))
       else enter_create r runNS name target
   | Inl _ \<Rightarrow> then_do (collect_routes runNS []) (governance (vacuousGovernance ''this Agent's serving route does not compile, so no route is prepared for it'')))"

definition served_step :: "AgentReconciler \<Rightarrow> string \<Rightarrow> string \<Rightarrow> authDesire \<Rightarrow> string \<Rightarrow> unit gm" where
  "served_step r runNS name desire recorded = then_do (reconcileServed r runNS name) (gwith (\<lambda>s.
     case authTransaction (gs_status s) of
       None \<Rightarrow> gret ()
     | Some tx \<Rightarrow> if tx_Kind tx \<noteq> TxCreate then gret ()
         else compile_failed (gw_served (gs_out s)) (compileFailures desire recorded (tx_TargetMode tx))))"

text \<open>The transaction that is recorded, or the one the desired mode asks for.\<close>

definition dispatch :: "AgentReconciler \<Rightarrow> string \<Rightarrow> string \<Rightarrow> authDesire \<Rightarrow> unit gm" where
  "dispatch r runNS name desire = gwith (\<lambda>s. case recordOf (gs_status s) of (recorded, tx) \<Rightarrow> (case tx of
     Some t \<Rightarrow>
       if tx_Kind t = TxCreate then runCreate r runNS name
       else if tx_Kind t = TxLock then runLock r runNS name
       else gfail (PlainError (msgf ''status.auth.transaction is of a kind this operator does not run'' [tx_Kind t]))
   | None \<Rightarrow>
       if recorded = AuthModeNone \<and> desire_compiles desire \<and> (case ad_target desire of Inl _ \<Rightarrow> False | Inr t \<Rightarrow> at_Mode t = AuthModeAPIKey) \<and>
          st_ActiveRevision (gs_status s) \<noteq> []
       then enterLock r runNS name desire
       else if recorded \<noteq> [] then served_step r runNS name desire recorded
       else first_step r runNS name desire))"

definition recorded_step :: "AgentReconciler \<Rightarrow> string \<Rightarrow> string \<Rightarrow> authDesire \<Rightarrow> bool \<Rightarrow> unit gm" where
  "recorded_step r runNS name desire abandonedLock = gwith (\<lambda>s. case recordOf (gs_status s) of (recorded, tx) \<Rightarrow>
     let inFlight = (case tx of None \<Rightarrow> [] | Some t \<Rightarrow> if tx_Kind t = TxCreate then tx_TargetMode t else []) in
     gbind (abandoned_note runNS abandonedLock (compileFailures desire recorded inFlight)) (\<lambda>fails.
     then_do (compile_failed (recorded \<noteq> []) fails) (dispatch r runNS name desire)))"

definition transaction_step :: "AgentReconciler \<Rightarrow> string \<Rightarrow> string \<Rightarrow> authDesire \<Rightarrow> unit gm" where
  "transaction_step r runNS name desire = gwith (\<lambda>s. case recordOf (gs_status s) of (recorded, tx) \<Rightarrow>
     if tx \<noteq> None \<and> abandons (st_Auth (gs_status s)) (desiredModeName (gs_agent s))
     then gbind (abandon r runNS name desire) (\<lambda>goes_on.
       if goes_on then recorded_step r runNS name desire (case tx of None \<Rightarrow> False | Some t \<Rightarrow> tx_Kind t = TxLock) else gret ())
     else recorded_step r runNS name desire False)"

definition authStep :: "AgentReconciler \<Rightarrow> string \<Rightarrow> string \<Rightarrow> authDesire \<Rightarrow> unit gm" where
  "authStep r runNS name desire = gwith (\<lambda>s. case recordOf (gs_status s) of (recorded, tx) \<Rightarrow> (case tx of
     Some t \<Rightarrow>
       if tx_Kind t = TxAdopt
       then (if k2Consent t (gs_agent s) \<and> desire_compiles desire \<and> st_ActiveRevision (gs_status s) \<noteq> []
             then enterLock r runNS name desire else refuseAdopt r runNS name desire)
       else transaction_step r runNS name desire
   | None \<Rightarrow>
       if recorded = []
       then gbind (live_route runNS name) (\<lambda>existing.
         if (case existing of None \<Rightarrow> False | Some rt \<Rightarrow> routePublished rt) then refuseAdopt r runNS name desire
         else transaction_step r runNS name desire)
       else transaction_step r runNS name desire))"

text \<open>The outcome names the foreign policies found, whichever way the step ends.\<close>

definition with_foreign :: "string list \<Rightarrow> unit gm \<Rightarrow> unit gm" where
  "with_foreign foreign m s = andThen (m (s\<lparr> gs_out := (gs_out s)\<lparr> gw_foreign := foreign \<rparr> \<rparr>)) (\<lambda>(r, s').
     Return (r, s'\<lparr> gs_out := (gs_out s')\<lparr> gw_foreign := foreign \<rparr> \<rparr>))"

definition gatewayStep :: "AgentReconciler \<Rightarrow> string \<Rightarrow> authDesire \<Rightarrow> unit gm" where
  "gatewayStep r runNS desire = gwith (\<lambda>s.
     if \<not> gw_Enabled (ac_Gateway r) then gret ()
     else case ServingRouteName (ag_Name (gs_agent s)) of
       Inl e \<Rightarrow> gfail (PlainError e)
     | Inr name \<Rightarrow>
       then_do (glift (requireFreshAgent (gs_agent s)))
       (gbind (glift (foreignTrafficPolicies (ac_env r) (gs_agent s) runNS name)) (\<lambda>foreign.
         with_foreign foreign (authStep r runNS name desire))))"

section \<open>Reports\<close>

definition reportForeign :: "Agent \<Rightarrow> string \<Rightarrow> AgentStatus \<Rightarrow> report \<Rightarrow> report" where
  "reportForeign agent runNS status acc = (case acc of (c, out) \<Rightarrow>
     if gw_foreign out = [] then acc
     else
       let msg = msgf ''a traffic policy the operator did not emit targets this Agent's route'' (gw_foreign out) @
             (if foreignAtOwnName (gw_foreign out) agent runNS \<and> writesOwnPolicy status
              then msgf ''. A policy at this Agent's own -auth name does not carry its UID, so it is not re-asserted'' [runNS, own_policy_name agent] else []);
           c = raiseIncomplete ReasonForeignTrafficPolicy msg c;
           c = (if (case authTransaction status of None \<Rightarrow> True | Some tx \<Rightarrow> tx_Kind tx \<noteq> TxAdopt)
                then cond_set CondGovernanceSkipped CTrue ReasonForeignTrafficPolicy msg c else c);
           out = withholdInOrder ReasonForeignTrafficPolicy msg out in
       (c, if (case st_Auth status of None \<Rightarrow> False
               | Some a \<Rightarrow> au_Mode a \<noteq> [] \<or> (case au_Transaction a of None \<Rightarrow> False | Some tx \<Rightarrow> tx_Kind tx = TxAdopt \<or> tx_Kind tx = TxLock))
           then out\<lparr> gw_served := True \<rparr> else out))"

definition above_served :: "GatewayConfig \<Rightarrow> string \<Rightarrow> gatewayAuth \<Rightarrow> report \<Rightarrow> report" where
  "above_served gw mode abv acc = (case acc of (c, out) \<Rightarrow>
     if \<not> above_stands abv then acc
     else if mode = AuthModeAPIKey \<and> ga_widening abv \<noteq> [] then
       let msg = wideningMessage abv gw;
           c = (case cond_get c CondGovernanceSkipped of
             Some x \<Rightarrow> if c_Status x = CTrue \<and> c_Reason x = ReasonForeignTrafficPolicy
               then cond_set CondGovernanceSkipped CTrue (c_Reason x) (c_Message x @ '' | '' @ ReasonGatewayAuthPolicy @ '': '' @ msg) c
               else cond_set CondGovernanceSkipped CTrue ReasonGatewayAuthPolicy msg c
           | None \<Rightarrow> cond_set CondGovernanceSkipped CTrue ReasonGatewayAuthPolicy msg c) in
       announce ReasonGatewayAuthPolicy msg (c, out)
     else if mode = AuthModeAPIKey \<and> ga_unlisted abv then (cond_set CondGovernanceSkipped CTrue ReasonGatewayAuthPolicy (unlistedMessage abv) c, out)
     else (noteGovernance (servedNote abv gw mode) c, out))"

definition reportAboveServed :: "AgentReconciler \<Rightarrow> Agent \<Rightarrow> AgentStatus \<Rightarrow> report \<Rightarrow> report op" where
  "reportAboveServed r agent status acc = (case st_Auth status of
     None \<Rightarrow> Return acc
   | Some auth \<Rightarrow>
     if \<not> gw_Enabled (ac_Gateway r) \<or> au_Mode auth = [] \<or> au_Transaction auth \<noteq> None then Return acc
     else andThen (gatewayAuthPolicies (ac_env r) (ac_Gateway r) (Hostname (ac_Gateway r) (ag_Name agent) (ag_Namespace agent)))
       (\<lambda>abv. Return (above_served (ac_Gateway r) (au_Mode auth) abv acc)))"

text \<open>What earlier readings the step starts without: a missing or unverified policy's claim, which it derives anew, and what was carried.\<close>

definition pre_claim :: "conditionSet \<Rightarrow> condition option" where
  "pre_claim c = (case cond_get c CondPolicyApplyIncomplete of
     None \<Rightarrow> None
   | Some x \<Rightarrow> if c_Reason x = ReasonAuthPolicyMissing \<or> c_Reason x = ReasonAuthLockUnverified then Some x else None)"

definition carried_in :: "conditionSet \<Rightarrow> string \<Rightarrow> bool" where
  "carried_in c t \<longleftrightarrow> (case cond_get c t of None \<Rightarrow> False | Some x \<Rightarrow> carriedReason (c_Reason x))"

definition cleared :: "conditionSet \<Rightarrow> conditionSet" where
  "cleared c = (if pre_claim c \<noteq> None \<or> carried_in c CondPolicyApplyIncomplete then cond_unset CondPolicyApplyIncomplete c else c)"

definition trim_suffix :: "string \<Rightarrow> string \<Rightarrow> string" where
  "trim_suffix t s = (if has_suffix s t then take (length s - length t) s else s)"

text \<open>A step that failed keeps the claim it started with, if its Lock is still there, and what it found above the route.\<close>

definition keep_claims :: "condition option \<Rightarrow> condition option \<Rightarrow> AgentStatus \<Rightarrow> report \<Rightarrow> report" where
  "keep_claims pre stored status acc = (case acc of (c, out) \<Rightarrow>
     if cond_get c CondPolicyApplyIncomplete \<noteq> None then acc
     else
       let c = (case pre of
             None \<Rightarrow> c
           | Some x \<Rightarrow> if (case authTransaction status of None \<Rightarrow> False | Some tx \<Rightarrow> tx_Kind tx = TxLock)
               then cond_set CondPolicyApplyIncomplete (c_Status x) (c_Reason x) (c_Message x) c else c);
           c = (if gw_aboveHold out \<noteq> [] then raiseIncomplete ReasonGatewayAuthPolicy (gw_aboveHold out) c
             else case stored of
               None \<Rightarrow> c
             | Some x \<Rightarrow> if gw_aboveRead out then c else raiseIncomplete ReasonGatewayAuthPolicy (trim_suffix carriedNote (c_Message x)) c) in
       (c, out))"

text \<open>The judgements that follow a step.\<close>

definition judge_step :: "AgentReconciler \<Rightarrow> string \<Rightarrow> servedClaims \<Rightarrow> bool \<Rightarrow> go_error option \<Rightarrow> Agent \<Rightarrow> judged \<Rightarrow> judged op" where
  "judge_step r runNS claims judged err agent j = (let gw = ac_Gateway r in case err of
     None \<Rightarrow>
       let (status, acc) = j in
       andThen (reportAboveServed r agent status (reportForeign agent runNS status acc)) (\<lambda>acc.
         let j = (if judged then judgeServed gw agent claims (status, acc) else (status, acc)) in
         judgeKeySource gw agent runNS claims j)
   | Some e \<Rightarrow>
       let (status, acc) = j in
       andThen (if transientRouteWrite e then reportAboveServed r agent status acc else Return acc) (\<lambda>acc.
         let j = (if judged then holdServedJudgement gw agent claims e (status, acc) else (status, acc)) in
         Return (holdKeySource gw agent claims e j)))"

definition reconcileGateway :: "AgentReconciler \<Rightarrow> Agent \<Rightarrow> string \<Rightarrow> AgentStatus \<times> conditionSet \<Rightarrow> authDesire \<Rightarrow> gateway_result op" where
  "reconcileGateway r agent runNS acc desire = (case acc of (status, c0) \<Rightarrow>
     andThen (if carried_in (cleared c0) CondGovernanceSkipped
         then andThen clockNow (\<lambda>at. Return (assessGovernance (ac_Gateway r) at status (cleared c0))) else Return (cleared c0)) (\<lambda>c.
     andThen (gatewayStep r runNS desire \<lparr> gs_agent = agent, gs_status = status, gs_conds = c, gs_out = no_outcome \<rparr>) (\<lambda>(res, s).
       let err = (case res of Inl e \<Rightarrow> Some e | Inr _ \<Rightarrow> None);
           base = (gs_conds s, gs_out s);
           acc = (if err = None then base else keep_claims (pre_claim c0) (storedHold agent status) (gs_status s) base) in
       case err of
         Some (GoPanic t) \<Rightarrow> Return (gs_agent s, (gs_status s, gs_conds s), gs_out s, err)
       | _ \<Rightarrow> andThen (judge_step r runNS (storedClaims agent) (judgesServed status) err (gs_agent s) (gs_status s, acc)) (\<lambda>(status', c', out).
           Return (gs_agent s, (status', c'), out, err)))))"

definition gateway_parts :: "AgentReconciler \<Rightarrow> gateway_ops" where
  "gateway_parts r = \<lparr> go_reconcile = reconcileGateway r, go_revoke = revokeGateway \<rparr>"

end
