(* ===== verification/Auth_Machine.thy ===== *)
theory Auth_Machine
  imports Auth_Steps
begin

text \<open>
  The abstract specification of an Agent's -auth record: what it is served under, and the transaction
  that is to change it. A step is one that the transactions of \<^verbatim>\<open>authtxn.go\<close> may take; the ones that claim
  enforcement (a Create's Publishing under a key, a Lock's end) need evidence. The invariants of the machine
  are proved here; that the gateway's part of a pass refines it is in \<open>Auth_Safety\<close>.
\<close>

section \<open>The machine\<close>

text \<open>The mode served, and the transaction's kind, target mode and stage.\<close>

type_synonym auth_state = "string \<times> (string \<times> string \<times> string) option"

definition abs_auth :: "AuthStatus option \<Rightarrow> auth_state" where
  "abs_auth auth = (case auth of
     None \<Rightarrow> ([], None)
   | Some a \<Rightarrow> (au_Mode a, map_option (\<lambda>tx. (tx_Kind tx, tx_TargetMode tx, tx_Stage tx)) (au_Transaction a)))"

definition create_moves :: "(string \<times> string) set" where
  "create_moves = {(StagePreparingRoute, StageApplyingPolicies), (StageApplyingPolicies, StageConverging),
     (StageConverging, StageApplyingPolicies), (StageConverging, StageProbingAfter), (StageProbingAfter, StageApplyingPolicies),
     (StageProbingAfter, StageConverging), (StagePublishing, StagePreparingRoute)}"

definition lock_moves :: "(string \<times> string) set" where
  "lock_moves = {(StageProbingBefore, StageApplyingPolicies), (StageApplyingPolicies, StageConverging),
     (StageConverging, StageApplyingPolicies), (StageConverging, StageProbingAfter), (StageProbingAfter, StageApplyingPolicies),
     (StageProbingAfter, StageConverging)}"

inductive auth_machine :: "bool \<Rightarrow> auth_state \<Rightarrow> auth_state \<Rightarrow> bool" for evidence :: bool where
  open_route: "auth_machine evidence ([], None) ([], Some (TxCreate, AuthModeNone, StagePublishing))"
| enter_create: "auth_machine evidence ([], None) ([], Some (TxCreate, AuthModeAPIKey, StagePreparingRoute))"
| recreate: "m \<noteq> [] \<Longrightarrow> auth_machine evidence (m, None) (m, Some (TxCreate, m, StagePreparingRoute))"
| recreate_locked: "m \<noteq> [] \<Longrightarrow> auth_machine evidence (m, Some (TxLock, m, stage)) (m, Some (TxCreate, m, StagePreparingRoute))"
| create_move: "(stage, stage') \<in> create_moves \<Longrightarrow>
    auth_machine evidence (m, Some (TxCreate, tgt, stage)) (m, Some (TxCreate, tgt, stage'))"
| credit: "tgt = AuthModeAPIKey \<longrightarrow> evidence \<Longrightarrow>
    auth_machine evidence (m, Some (TxCreate, tgt, StageProbingAfter)) (m, Some (TxCreate, tgt, StagePublishing))"
| publish: "auth_machine evidence (m, Some (TxCreate, tgt, StagePublishing)) (tgt, None)"
| uncreate: "auth_machine evidence ([], Some (TxCreate, tgt, stage)) ([], None)"
| enter_lock: "auth_machine evidence (AuthModeNone, None) (AuthModeNone, Some (TxLock, AuthModeAPIKey, StageProbingBefore))"
| consent: "auth_machine evidence (m, Some (TxAdopt, tgt, stage)) (m, Some (TxLock, AuthModeAPIKey, StageProbingBefore))"
| lock_missing: "auth_machine evidence (AuthModeAPIKey, None) (AuthModeAPIKey, Some (TxLock, AuthModeAPIKey, StageApplyingPolicies))"
| lock_move: "(stage, stage') \<in> lock_moves \<Longrightarrow>
    auth_machine evidence (m, Some (TxLock, tgt, stage)) (m, Some (TxLock, tgt, stage'))"
| locked: "tgt = AuthModeAPIKey \<longrightarrow> evidence \<Longrightarrow> auth_machine evidence (m, Some (TxLock, tgt, StageProbingAfter)) (tgt, None)"
| unlock: "m \<noteq> [] \<Longrightarrow> tgt \<noteq> m \<Longrightarrow> auth_machine evidence (m, Some (TxLock, tgt, stage)) (m, None)"
| adopt: "auth_machine evidence ([], None) ([], Some (TxAdopt, [], StageRefused))"
| adopt_again: "auth_machine evidence (m, Some (TxAdopt, tgt, stage)) ([], Some (TxAdopt, [], StageRefused))"
| adopt_locked: "auth_machine evidence ([], Some (TxLock, tgt, stage)) ([], Some (TxAdopt, [], StageRefused))"

inductive_simps auth_machine_unrecorded: "auth_machine evidence ([], None) y"

abbreviation auth_path :: "bool \<Rightarrow> auth_state \<Rightarrow> auth_state \<Rightarrow> bool" where
  "auth_path evidence \<equiv> (auth_machine evidence)\<^sup>*\<^sup>*"

lemma auth_machine_mono: "auth_machine e x y \<Longrightarrow> e \<longrightarrow> e' \<Longrightarrow> auth_machine e' x y"
  by (erule auth_machine.cases) (auto intro: auth_machine.intros)

lemma auth_path_mono: "auth_path e x y \<Longrightarrow> e \<longrightarrow> e' \<Longrightarrow> auth_path e' x y"
  by (induction rule: rtranclp_induct) (auto intro: rtranclp.rtrancl_into_rtrancl auth_machine_mono)

section \<open>Well-formed records\<close>

text \<open>
  The type of a record: the modes are the compiler's; a first Create has no mode and a re-creation's target is
  the mode served; a Lock's target is a key, and it locks what is unauthenticated or what is missing
  its policy; a refusal records no mode.
\<close>

definition wf_stage :: "string \<Rightarrow> string \<Rightarrow> bool" where
  "wf_stage knd stage \<longleftrightarrow>
     (knd = TxCreate \<longrightarrow> stage \<in> {StagePreparingRoute, StageApplyingPolicies, StageConverging, StageProbingAfter, StagePublishing}) \<and>
     (knd = TxLock \<longrightarrow> stage \<in> {StageProbingBefore, StageApplyingPolicies, StageConverging, StageProbingAfter}) \<and>
     (knd = TxAdopt \<longrightarrow> stage = StageRefused)"

definition wf_auth :: "auth_state \<Rightarrow> bool" where
  "wf_auth x \<longleftrightarrow> (case x of (m, t) \<Rightarrow> m \<in> {[], AuthModeNone, AuthModeAPIKey} \<and> (case t of
     None \<Rightarrow> True
   | Some (knd, tgt, stage) \<Rightarrow> wf_stage knd stage \<and>
       (knd = TxCreate \<and> tgt \<in> {AuthModeNone, AuthModeAPIKey} \<and> (m = [] \<or> m = tgt) \<or>
        knd = TxLock \<and> tgt = AuthModeAPIKey \<and> (m = AuthModeAPIKey \<longrightarrow> stage \<noteq> StageProbingBefore) \<or>
        knd = TxAdopt \<and> m = [])))"

lemma wf_auth_step: "auth_machine e x y \<Longrightarrow> wf_auth x \<Longrightarrow> wf_auth y"
  by (erule auth_machine.cases) (auto simp: wf_auth_def wf_stage_def create_moves_def lock_moves_def)

lemma wf_auth_path: "auth_path e x y \<Longrightarrow> wf_auth x \<Longrightarrow> wf_auth y"
  by (induction rule: rtranclp_induct) (auto intro: wf_auth_step)

section \<open>What a key is worth\<close>

text \<open>
  A record claims enforcement if it is served under a key, or is a Create under a key that may publish.
  Without evidence no record comes to claim it; a record served under a key is only ever served under
  a key; and one that re-creates its route publishes it again only on evidence.
\<close>

definition keyed :: "auth_state \<Rightarrow> bool" where
  "keyed x \<longleftrightarrow> fst x = AuthModeAPIKey \<or> snd x = Some (TxCreate, AuthModeAPIKey, StagePublishing)"

definition may_publish :: "auth_state \<Rightarrow> bool" where
  "may_publish x \<longleftrightarrow> x = (AuthModeAPIKey, None) \<or> snd x = Some (TxCreate, AuthModeAPIKey, StagePublishing)"

lemma keyed_step: "auth_machine e x y \<Longrightarrow> keyed y \<Longrightarrow> keyed x \<or> e"
  by (erule auth_machine.cases) (auto simp: keyed_def create_moves_def lock_moves_def split: if_splits)

lemma keyed_path: "auth_path e x y \<Longrightarrow> keyed y \<Longrightarrow> keyed x \<or> e"
  by (induction rule: rtranclp_induct) (auto dest: keyed_step)

lemma may_publish_step: "auth_machine e x y \<Longrightarrow> may_publish y \<Longrightarrow> wf_auth x \<Longrightarrow> may_publish x \<or> e"
  by (erule auth_machine.cases) (auto simp: may_publish_def wf_auth_def create_moves_def split: if_splits)

lemma may_publish_path: "auth_path e x y \<Longrightarrow> may_publish y \<Longrightarrow> wf_auth x \<Longrightarrow> may_publish x \<or> e"
  by (induction rule: rtranclp_induct) (auto dest: may_publish_step wf_auth_path)

definition publishing :: "auth_state \<Rightarrow> bool" where
  "publishing x \<longleftrightarrow> snd x = Some (TxCreate, AuthModeAPIKey, StagePublishing)"

lemma publishing_step: "auth_machine e x y \<Longrightarrow> publishing y \<Longrightarrow> publishing x \<or> e"
  by (erule auth_machine.cases) (auto simp: publishing_def create_moves_def split: if_splits)

lemma publishing_path: "auth_path e x y \<Longrightarrow> publishing y \<Longrightarrow> publishing x \<or> e"
  by (induction rule: rtranclp_induct) (auto dest: publishing_step)

lemma one_way_step: "auth_machine e x y \<Longrightarrow> wf_auth x \<Longrightarrow> fst x = AuthModeAPIKey \<Longrightarrow> fst y = AuthModeAPIKey"
  by (erule auth_machine.cases) (auto simp: wf_auth_def)

lemma one_way_path: "auth_path e x y \<Longrightarrow> wf_auth x \<Longrightarrow> fst x = AuthModeAPIKey \<Longrightarrow> fst y = AuthModeAPIKey"
  by (induction rule: rtranclp_induct) (auto intro: one_way_step wf_auth_path)

end
