(* ===== verification/Auth_Safety.thy ===== *)
theory Auth_Safety
  imports Agent_Pass Auth_Gateway Auth_Machine
begin

text \<open>
  What the gateway's part of a pass does, whatever the API server and the gateway answer: which objects it
  writes, and that the records it writes are paths of \<open>auth_machine\<close>, with the evidence that a record
  claiming enforcement needs in the exchanges before it.

  A triple \<open>tri A m B\<close> is about a step that starts with the invariant \<open>holds\<close> and \<open>A\<close>: its requests are
  the ones \<open>may\<close> allows; if it goes on, the invariant and \<open>B\<close> hold; if it fails, the Agent at hand is one
  whose release was seen.
\<close>

section \<open>Reads\<close>

definition reads :: "exchange list \<Rightarrow> req \<Rightarrow> bool" where
  "reads h q \<longleftrightarrow> (case q of
     Get _ _ _ _ \<Rightarrow> True | ListOf _ _ _ _ \<Rightarrow> True | ListPolicies _ _ \<Rightarrow> True | ListEvents _ _ _ \<Rightarrow> True | HttpProbe _ _ \<Rightarrow> True
   | GetAgent _ _ _ \<Rightarrow> True | ReadClock \<Rightarrow> True | _ \<Rightarrow> False)"

lemma reads_simps [simp]:
  "reads h (Get l k ns n)" "reads h (ListOf l k ns sel)" "reads h (ListPolicies ns cont)" "reads h (ListEvents ns k' cont)"
  "reads h (HttpProbe url host)" "reads h (GetAgent l ns n)" "reads h ReadClock"
  by (simp_all add: reads_def)

text \<open>The pages of a list of policies, from a continuation to the last one.\<close>

inductive pages_from :: "exchange list \<Rightarrow> string \<Rightarrow> string \<Rightarrow> PolicyObject list \<Rightarrow> bool" for h :: "exchange list" and ns :: string where
  last_page: "(ListPolicies ns cont, RPolicies (Inr (page, []))) \<in> set h \<Longrightarrow> pages_from h ns cont page"
| page: "(ListPolicies ns cont, RPolicies (Inr (page, cont'))) \<in> set h \<Longrightarrow> cont' \<noteq> [] \<Longrightarrow> pages_from h ns cont' items \<Longrightarrow>
    pages_from h ns cont (page @ items)"

lemma pages_from_mono: "pages_from h ns cont items \<Longrightarrow> set h \<subseteq> set h' \<Longrightarrow> pages_from h' ns cont items"
  by (induction rule: pages_from.induct) (auto intro: pages_from.intros)

lemma list_pages_wp:
  "op_wp reads (\<lambda>h' res. \<exists>t. h' = h @ t0 @ t \<and> (\<forall>xs. res = Inr xs \<longrightarrow> (\<exists>ys. xs = items @ ys \<and> pages_from t ns cont ys))) (h @ t0)
     (list_pages n ns cont items)"
proof (induction n arbitrary: t0 cont items)
  case (Suc n)
  have "op_wp reads (\<lambda>h' res. \<exists>t. h' = h @ t0 @ t \<and> (\<forall>xs. res = Inr xs \<longrightarrow> (\<exists>ys. xs = items @ ys \<and> pages_from t ns cont ys)))
      (h @ t0 @ [(ListPolicies ns cont, RPolicies (Inr (page, cont')))]) (list_pages n ns cont' (items @ page))"
    if "cont' \<noteq> []" for page cont'
    using Suc.IH [where ?t0.0 = "t0 @ [(ListPolicies ns cont, RPolicies (Inr (page, cont')))]" and cont = cont' and items = "items @ page"]
  proof (rule op_wp_mono, goal_cases)
    case (2 h' res)
    then obtain t where t: "h' = h @ (t0 @ [(ListPolicies ns cont, RPolicies (Inr (page, cont')))]) @ t"
      "\<forall>xs. res = Inr xs \<longrightarrow> (\<exists>ys. xs = (items @ page) @ ys \<and> pages_from t ns cont' ys)" by blast
    have "pages_from ((ListPolicies ns cont, RPolicies (Inr (page, cont'))) # t) ns cont (page @ ys)" if "pages_from t ns cont' ys" for ys
      using that \<open>cont' \<noteq> []\<close> by (auto intro!: pages_from.page intro: pages_from_mono)
    with t show ?case by (intro exI [of _ "(ListPolicies ns cont, RPolicies (Inr (page, cont'))) # t"]) auto
  qed simp_all
  then show ?case
    by (auto simp: resp_policies_def wp_rules split: resp.split sum.split intro: pages_from.last_page)
qed auto

text \<open>The Gateway was read, and listed no policy that could answer for the host: nothing above the route stands.\<close>

definition above_clean :: "GatewayConfig \<Rightarrow> string \<Rightarrow> exchange list \<Rightarrow> bool" where
  "above_clean gw host h \<longleftrightarrow> (\<exists>g items. (Get True KGateway (gw_Namespace gw) (gw_Name gw), RObj (Inr (OGateway g))) \<in> set h \<and>
     admitsListenerSets g = [] \<and> pages_from h (gw_Namespace gw) [] items \<and>
     (\<forall>p\<in>set items. fst (classifyPolicy (pl_Object p)) \<longrightarrow>
        \<not> targetsGateway (pl_Object p) (gw_Name gw) (gy_Labels g) (capturingListeners g host) True))"

lemma resp_obj_gateway: "resp_obj as_gateway a = Inr g \<longleftrightarrow> a = RObj (Inr (OGateway g))"
  by (cases a) (auto simp: resp_obj_def as_gateway_def split: sum.splits kobj.splits)

lemma resp_obj_policy: "resp_obj as_policy a = Inr p \<longleftrightarrow> a = RObj (Inr (OPolicy p))"
  by (cases a) (auto simp: resp_obj_def as_policy_def split: sum.splits kobj.splits)

lemma resp_gateway [simp]: "resp_obj as_gateway (RObj (Inr (OGateway g))) = Inr g"
  by (simp add: resp_obj_gateway)

lemma sort_empty [simp]: "sort xs = [] \<longleftrightarrow> xs = []"
  by (metis length_0_conv length_sort)

lemma gateway_unreadable_nonempty [simp]: "gateway_unreadable gw e \<noteq> []" "joinCauses a (msgf tag args) \<noteq> []"
  by (auto simp: gateway_unreadable_def joinCauses_def Let_def)

lemma gatewayAuthPolicies_wp:
  "op_wp reads (\<lambda>h' a. \<exists>t. h' = h @ t \<and> (\<not> above_stands a \<longrightarrow> above_clean gw host t)) h (gatewayAuthPolicies env gw host)"
proof -
  let ?q = "Get True KGateway (gw_Namespace gw) (gw_Name gw)"
  have list: "op_wp reads (\<lambda>h' r. \<exists>t. h' = h @ [(?q, a)] @ t \<and> (\<forall>items. r = Inr items \<longrightarrow> pages_from t (gw_Namespace gw) [] items))
      (h @ [(?q, a)]) (listPolicies (ge_pages env) (gw_Namespace gw) False)" for a
    unfolding listPolicies_def op_wp_andThen
    by (rule op_wp_mono [OF list_pages_wp [of h "[(?q, a)]" "[]"]]) (auto split: sum.split)
  have list: "op_wp reads (\<lambda>h' a. \<exists>t. h' = h @ t \<and> (\<not> above_stands a \<longrightarrow> above_clean gw host t)) (h @ [(?q, a)])
      (andThen (listPolicies (ge_pages env) (gw_Namespace gw) False) (\<lambda>r. Return (f r)))"
    if "\<And>e. above_stands (f (Inl e))"
      and "\<And>items t. pages_from t (gw_Namespace gw) [] items \<Longrightarrow> \<not> above_stands (f (Inr items)) \<Longrightarrow> above_clean gw host ((?q, a) # t)" for f a
    unfolding op_wp_andThen
  proof (rule op_wp_mono [OF list])
    fix h' and x :: "api_error + PolicyObject list"
    assume "\<exists>t. h' = h @ [(?q, a)] @ t \<and> (\<forall>items. x = Inr items \<longrightarrow> pages_from t (gw_Namespace gw) [] items)"
    then show "op_wp reads (\<lambda>h' a. \<exists>t. h' = h @ t \<and> (\<not> above_stands a \<longrightarrow> above_clean gw host t)) h' (Return (f x))"
      using that by (cases x) auto
  qed simp
  have clean: "above_clean gw host ((?q, RObj (Inr (OGateway g))) # t)"
    if "pages_from t (gw_Namespace gw) [] items" "admitsListenerSets g = []"
      "\<forall>p\<in>set items. fst (classifyPolicy (pl_Object p)) \<longrightarrow> \<not> targetsGateway (pl_Object p) (gw_Name gw) (gy_Labels g) (capturingListeners g host) True"
    for t items g
    using that by (auto simp: above_clean_def intro!: exI [of _ g] exI [of _ items] intro: pages_from_mono)
  show ?thesis
    unfolding gatewayAuthPolicies_def op_wp_andThen [of _ _ _ "getObj _ _ _ _ _"] op_wp_requests_typed Let_def
    by (intro conjI allI, simp, rule list)
      (auto simp: above_stands_def no_gatewayAuth_def resp_obj_gateway filter_empty_conv split: sum.splits intro: clean)
qed

definition silent :: "'a op \<Rightarrow> bool" where
  "silent m \<longleftrightarrow> (\<forall>h. op_wp reads (\<lambda>_ _. True) h m)"

lemma silent_intros:
  "silent (Return x)" "silent clockNow" "silent (getObj l k f ns n)" "silent (listObjs l k f ns sel)"
  by (auto simp: silent_def wp_rules)

lemma silent_Ask: "reads [] q \<Longrightarrow> (\<And>a. silent (g a)) \<Longrightarrow> silent (Ask q g)"
  by (cases q) (simp_all add: silent_def reads_def)

lemma silent_then: "silent m \<Longrightarrow> (\<And>x. silent (f x)) \<Longrightarrow> silent (andThen m f)"
  unfolding silent_def op_wp_andThen by (blast intro: op_wp_mono)

lemma silent_try: "silent m \<Longrightarrow> (\<And>x. silent (f x)) \<Longrightarrow> silent (tryThen m f)"
  unfolding tryThen_def by (rule silent_then) (auto intro: silent_intros split: sum.split)

lemmas silent_rules = silent_intros silent_Ask silent_then silent_try

lemma silent_lists: "silent (listPolicies n ns e)" "silent (gatewayAuthPolicies env gw host)"
proof -
  have "silent (list_pages n ns cont items)" for cont items
    by (induction n arbitrary: cont items) (auto intro!: silent_rules split: sum.split)
  then show "silent (listPolicies n ns e)"
    unfolding listPolicies_def by (auto intro!: silent_rules)
  show "silent (gatewayAuthPolicies env gw host)"
    unfolding silent_def by (auto intro: op_wp_mono [OF gatewayAuthPolicies_wp])
qed

lemma silent_event_pages: "silent (event_pages n k' ns cont evs)"
  by (induction n arbitrary: cont evs) (auto intro!: silent_rules split: sum.split)

lemma silent_parts:
  "silent (foreignTrafficPolicies env agent runNS rt)" "silent (freshNack env gw runNS policy out)" "silent (probeAgent env gw agent)"
  "silent (currentServingRoute agent runNS name)" "silent (liveServingRoute agent runNS name)" "silent (authPolicyIntact runNS target)"
  "silent (authPolicyPresent agent runNS)" "silent (liveAuthPolicy agent runNS)" "silent (requireFreshAgent agent)"
proof -
  show "silent (foreignTrafficPolicies env agent runNS rt)"
    unfolding foreignTrafficPolicies_def servingRouteLabels_def by (auto intro!: silent_rules silent_lists split: sum.split)
  show "silent (freshNack env gw runNS policy out)"
    unfolding freshNack_def Let_def by (auto intro!: silent_rules silent_event_pages split: option.split)
  show "silent (probeAgent env gw agent)"
    unfolding probeAgent_def http_probe_def by (auto intro!: silent_rules split: sum.split)
  show "silent (authPolicyIntact runNS target)"
    unfolding authPolicyIntact_def Let_def by (auto intro!: silent_rules split: option.split)
qed (unfold currentServingRoute_def liveServingRoute_def read_route_def authPolicyPresent_def liveAuthPolicy_def requireFreshAgent_def,
  auto intro!: silent_rules split: sum.split)

lemma silent_key_source: "silent (judgeKeySource gw agent runNS stored j)"
proof -
  have "silent (read_key_source agent status policy)" for status policy
    unfolding read_key_source_def by (auto intro!: silent_rules split: option.split)
  then have "silent (key_source_reading agent runNS status kp)" for status kp
    unfolding key_source_reading_def by (auto intro!: silent_rules silent_parts split: sum.split option.split)
  then show ?thesis
    unfolding judgeKeySource_def Let_def by (auto intro!: silent_rules split: prod.split)
qed

section \<open>What a step may ask\<close>

text \<open>
  The Agent at hand is the one the pass started with, if the server is faithful. A 401 counts as evidence
  if the policy was read before it as this Agent's compiled policy renders, and if after it the Gateway and
  its policies were read and nothing above the route could have answered.
\<close>

definition agent_at :: "Agent \<Rightarrow> exchange list \<Rightarrow> Agent \<Rightarrow> bool" where
  "agent_at ag0 h ag \<longleftrightarrow> (faithful h \<longrightarrow> same_agent ag0 ag)"

definition intact_read :: "AgentReconciler \<Rightarrow> Agent \<Rightarrow> string \<Rightarrow> exchange list \<Rightarrow> bool" where
  "intact_read r ag runNS h \<longleftrightarrow> (\<exists>pol p. agent_policy r ag runNS = Inr pol \<and>
     (Get False KPolicy runNS (pl_Name (rendered_policy pol)), RObj (Inr (OPolicy p))) \<in> set h \<and> policy_Digest (pl_Object p) = policy_Digest pol)"

definition agent_host :: "AgentReconciler \<Rightarrow> Agent \<Rightarrow> string" where
  "agent_host r ag = Hostname (ac_Gateway r) (ag_Name ag) (ag_Namespace ag)"

definition refusal :: "AgentReconciler \<Rightarrow> Agent \<Rightarrow> exchange \<Rightarrow> bool" where
  "refusal r ag x \<longleftrightarrow> (\<exists>url body. probeURL (ac_env r) (gw_ServingURL (ac_Gateway r)) (cardPath ag) = Inr url \<and>
     x = (HttpProbe url (agent_host r ag), RProbe (Inr (401, body))))"

definition refused :: "AgentReconciler \<Rightarrow> Agent \<Rightarrow> string \<Rightarrow> exchange list \<Rightarrow> bool" where
  "refused r ag0 runNS h \<longleftrightarrow> (faithful h \<longrightarrow> (\<exists>u x v. h = u @ x # v \<and> intact_read r ag0 runNS u \<and> refusal r ag0 x \<and>
     above_clean (ac_Gateway r) (agent_host r ag0) v))"

definition auth_only :: "AgentStatus \<Rightarrow> AgentStatus \<Rightarrow> bool" where
  "auth_only st st' \<longleftrightarrow> (\<exists>a. st' = st\<lparr> st_Auth := a, st_Conditions := boundConditionMessages (st_Conditions st) \<rparr>)"

definition own_policy_read :: "Agent \<Rightarrow> exchange list \<Rightarrow> PolicyObject \<Rightarrow> bool" where
  "own_policy_read ag0 h p \<longleftrightarrow> (\<exists>ns n. (Get False KPolicy ns n, RObj (Inr (OPolicy p))) \<in> set h) \<and> lbl (pl_Labels p) LabelAgentUID = ag_UID ag0"

text \<open>The name of the Agent's serving route, and a route read live at it that is not labelled another Agent's.\<close>

definition own_route :: "Agent \<Rightarrow> string" where
  "own_route ag = (case ServingRouteName (ag_Name ag) of Inl e \<Rightarrow> [] | Inr name \<Rightarrow> name)"

definition live_read :: "Agent \<Rightarrow> Agent \<Rightarrow> string \<Rightarrow> exchange list \<Rightarrow> HTTPRoute \<Rightarrow> bool" where
  "live_read ag0 ag runNS h rt \<longleftrightarrow> (Get True KHTTPRoute runNS (own_route ag0), RObj (Inr (ORoute rt))) \<in> set h \<and> routeCollision ag rt = None"

definition policy_request :: "AgentReconciler \<Rightarrow> Agent \<Rightarrow> string \<Rightarrow> exchange list \<Rightarrow> req \<Rightarrow> bool" where
  "policy_request r ag0 runNS h q \<longleftrightarrow> (case q of
     Create (OPolicy p) \<Rightarrow> faithful h \<longrightarrow> (\<exists>j. agent_policy r ag0 runNS = Inr j \<and> p = rendered_policy j)
   | Update (OPolicy x) \<Rightarrow> faithful h \<longrightarrow> (\<exists>j p. agent_policy r ag0 runNS = Inr j \<and> own_policy_read ag0 h p \<and> x = policy_updated j p)
   | DeleteExact (OPolicy p) uid rv \<Rightarrow> faithful h \<longrightarrow> own_policy_read ag0 h p \<and> uid = pl_UID p \<and> rv = pl_ResourceVersion p
   | _ \<Rightarrow> False)"

text \<open>
  The route is rendered for the revision the status serves, and published as a record permits that the machine reaches from the
  one at the start.
\<close>

definition serving_request :: "AgentReconciler \<Rightarrow> Agent \<Rightarrow> string \<Rightarrow> AgentStatus \<Rightarrow> exchange list \<Rightarrow> req \<Rightarrow> bool" where
  "serving_request r ag0 runNS st0 h q \<longleftrightarrow> (\<exists>ag. agent_at ag0 h ag \<and>
     ((\<exists>auth. auth_path (refused r ag0 runNS h) (abs_auth (st_Auth st0)) (abs_auth auth) \<and>
         route_request (ac_Gateway r) ag runNS (st_ActiveRevision st0) (st_ActiveRevisionDigest st0) (own_route ag0) (routePublicationFor auth) h q) \<or>
      (\<exists>rt. live_read ag0 ag runNS h rt \<and> q = Update (ORoute (strip_route rt))) \<or>
      (\<exists>rt. lbl (om_Labels (hr_Meta rt)) LabelAgentUID = ag_UID ag \<and> ServingRouteName (ag_Name ag) = Inr (om_Name (hr_Meta rt)) \<and>
         q = Delete (ORoute rt) None) \<or>
      (\<exists>rt x. live_read ag0 ag runNS h rt \<and> (x = rt \<or> (Update (ORoute (strip_route rt)), RObj (Inr (ORoute x))) \<in> set h) \<and>
         q = Delete (ORoute x) (Some (om_UID (hr_Meta x))))))"

definition keeps_revision :: "AgentStatus \<Rightarrow> AgentStatus \<Rightarrow> bool" where
  "keeps_revision st st' \<longleftrightarrow> keeps_release st st' \<and> st_ActiveRevision st' = st_ActiveRevision st"

lemma keeps_revision_refl [simp]: "keeps_revision st st"
  by (simp add: keeps_revision_def keeps_release_def)

definition may :: "AgentReconciler \<Rightarrow> Agent \<Rightarrow> string \<Rightarrow> AgentStatus \<Rightarrow> exchange list \<Rightarrow> req \<Rightarrow> bool" where
  "may r ag0 runNS st0 h q \<longleftrightarrow> reads h q \<or> policy_request r ag0 runNS h q \<or> serving_request r ag0 runNS st0 h q \<or>
     (\<exists>a. q = UpdateStatus a \<and> status_write auth_only h a \<and>
        auth_path (refused r ag0 runNS h) (abs_auth (st_Auth st0)) (abs_auth (st_Auth (ag_Status a))))"

definition traced :: "AgentReconciler \<Rightarrow> Agent \<Rightarrow> string \<Rightarrow> AgentStatus \<Rightarrow> exchange list \<Rightarrow> gstate \<Rightarrow> bool" where
  "traced r ag0 runNS st0 h s \<longleftrightarrow> agent_at ag0 h (gs_agent s) \<and> (faithful h \<longrightarrow> keeps_release (ag_Status ag0) (ag_Status (gs_agent s))) \<and>
     keeps_revision st0 (gs_status s) \<and> auth_path (refused r ag0 runNS h) (abs_auth (st_Auth st0)) (abs_auth (st_Auth (gs_status s)))"

definition holds :: "AgentReconciler \<Rightarrow> Agent \<Rightarrow> string \<Rightarrow> AgentStatus \<Rightarrow> exchange list \<Rightarrow> gstate \<Rightarrow> bool" where
  "holds r ag0 runNS st0 h s \<longleftrightarrow> seen h (gs_agent s) \<and> traced r ag0 runNS st0 h s"

definition fell :: "AgentReconciler \<Rightarrow> Agent \<Rightarrow> string \<Rightarrow> AgentStatus \<Rightarrow> exchange list \<Rightarrow> gstate \<Rightarrow> bool" where
  "fell r ag0 runNS st0 h s \<longleftrightarrow> release_seen h (gs_agent s) \<and> traced r ag0 runNS st0 h s"

lemma agent_at_append: "agent_at ag0 h ag \<Longrightarrow> agent_at ag0 (h @ t) ag"
  using faithful_prefix by (auto simp: agent_at_def)

lemma refused_append: "refused r ag0 runNS h \<Longrightarrow> refused r ag0 runNS (h @ t)"
proof -
  have "above_clean gw host (v @ t)" if "above_clean gw host v" for gw host v
    using that pages_from_mono [of v _ "[]" _ "v @ t"] unfolding above_clean_def by (metis UnCI set_append sup_ge1)
  then show "refused r ag0 runNS h \<Longrightarrow> refused r ag0 runNS (h @ t)"
    unfolding refused_def using faithful_prefix by (metis append.assoc append_Cons)
qed

lemma traced_append: "traced r ag0 runNS st0 h s \<Longrightarrow> traced r ag0 runNS st0 (h @ t) s"
  unfolding traced_def using agent_at_append faithful_prefix auth_path_mono refused_append by metis

lemma holds_append: "holds r ag0 runNS st0 h s \<Longrightarrow> holds r ag0 runNS st0 (h @ t) s"
  by (auto simp: holds_def intro: seen_append traced_append)

lemma fell_append: "fell r ag0 runNS st0 h s \<Longrightarrow> fell r ag0 runNS st0 (h @ t) s"
  by (auto simp: fell_def intro: release_seen_append traced_append)

lemma holds_fell: "holds r ag0 runNS st0 h s \<Longrightarrow> fell r ag0 runNS st0 h s"
  by (auto simp: holds_def fell_def intro: seen_release_seen)

lemma reads_may: "reads h q \<Longrightarrow> may r ag0 runNS st0 h q"
  by (simp add: may_def)

section \<open>Triples\<close>

definition ends :: "AgentReconciler \<Rightarrow> Agent \<Rightarrow> string \<Rightarrow> AgentStatus \<Rightarrow> ('a \<Rightarrow> exchange list \<Rightarrow> gstate \<Rightarrow> bool) \<Rightarrow> exchange list \<Rightarrow>
    (go_error + 'a) \<times> gstate \<Rightarrow> bool" where
  "ends r ag0 runNS st0 B h res \<longleftrightarrow> (case res of (Inl e, s) \<Rightarrow> fell r ag0 runNS st0 h s | (Inr x, s) \<Rightarrow> holds r ag0 runNS st0 h s \<and> B x h s)"

definition tri :: "AgentReconciler \<Rightarrow> Agent \<Rightarrow> string \<Rightarrow> AgentStatus \<Rightarrow> (exchange list \<Rightarrow> gstate \<Rightarrow> bool) \<Rightarrow> 'a gm
    \<Rightarrow> ('a \<Rightarrow> exchange list \<Rightarrow> gstate \<Rightarrow> bool) \<Rightarrow> bool" where
  "tri r ag0 runNS st0 A m B \<longleftrightarrow> (\<forall>h s. holds r ag0 runNS st0 h s \<longrightarrow> A h s \<longrightarrow>
     op_wp (may r ag0 runNS st0) (ends r ag0 runNS st0 B) h (m s))"

abbreviation yes :: "exchange list \<Rightarrow> gstate \<Rightarrow> bool" where "yes \<equiv> \<lambda>_ _. True"

text \<open>An assertion that later exchanges keep.\<close>

definition stable :: "(exchange list \<Rightarrow> gstate \<Rightarrow> bool) \<Rightarrow> bool" where
  "stable A \<longleftrightarrow> (\<forall>h t s. A h s \<longrightarrow> A (h @ t) s)"

lemma stable_basic [simp]: "stable yes" "stable (\<lambda>h s. P s)"
  by (simp_all add: stable_def)

lemma stable_conj: "stable A \<Longrightarrow> stable B \<Longrightarrow> stable (\<lambda>h s. A h s \<and> B h s)"
  by (simp add: stable_def)

lemma tri_conseq:
  assumes "tri r ag0 runNS st0 A m B" and "\<And>h s. A' h s \<Longrightarrow> A h s" and "\<And>x h s. B x h s \<Longrightarrow> B' x h s"
  shows "tri r ag0 runNS st0 A' m B'"
proof -
  have "ends r ag0 runNS st0 B h res \<Longrightarrow> ends r ag0 runNS st0 B' h res" for h res
    using assms(3) by (auto simp: ends_def split: prod.splits sum.splits)
  note ends = this
  have "op_wp (may r ag0 runNS st0) (ends r ag0 runNS st0 B') h (m s)" if "holds r ag0 runNS st0 h s" "A' h s" for h s
    using assms(1) that assms(2) [OF that(2)] unfolding tri_def by (blast intro: op_wp_mono ends)
  then show ?thesis by (simp add: tri_def)
qed

lemma tri_ret: "(\<And>h s. A h s \<Longrightarrow> B x h s) \<Longrightarrow> tri r ag0 runNS st0 A (gret x) B"
  by (simp add: tri_def gret_def ends_def)

lemma tri_fail: "tri r ag0 runNS st0 A (gfail e) B"
  by (simp add: tri_def gfail_def ends_def holds_fell)

lemma tri_bind:
  assumes "tri r ag0 runNS st0 A m B" and "\<And>x. tri r ag0 runNS st0 (B x) (f x) C"
  shows "tri r ag0 runNS st0 A (gbind m f) C"
proof -
  have "op_wp (may r ag0 runNS st0) (ends r ag0 runNS st0 C) h (case res of (r, s') \<Rightarrow> (case r of Inl e \<Rightarrow> Return (Inl e, s') | Inr x \<Rightarrow> f x s'))"
    if "ends r ag0 runNS st0 B h res" for h res
    using that assms(2) by (cases res; cases "fst res") (auto simp: ends_def tri_def)
  note go = this
  have "op_wp (may r ag0 runNS st0) (ends r ag0 runNS st0 C) h (gbind m f s)" if "holds r ag0 runNS st0 h s" "A h s" for h s
    unfolding gbind_def op_wp_andThen
    by (rule op_wp_mono [OF assms(1) [unfolded tri_def, rule_format, OF that] _ go])
  then show ?thesis by (simp add: tri_def)
qed

lemma tri_with: "(\<And>s0. tri r ag0 runNS st0 (\<lambda>h s. A h s \<and> s = s0) (f s0) C) \<Longrightarrow> tri r ag0 runNS st0 A (gwith f) C"
  by (simp add: tri_def gwith_def)

text \<open>A lifted operation leaves the state; what it returns may be known.\<close>

lemma tri_lift:
  assumes "\<And>h s. holds r ag0 runNS st0 h s \<Longrightarrow> A h s \<Longrightarrow> op_wp (may r ag0 runNS st0) (\<lambda>h' res. \<forall>x. res = Inr x \<longrightarrow> R x h') h m"
    and "stable A"
  shows "tri r ag0 runNS st0 A (glift m) (\<lambda>x h s. A h s \<and> R x h)"
proof -
  have "op_wp (may r ag0 runNS st0) (ends r ag0 runNS st0 (\<lambda>x h s. A h s \<and> R x h)) h (glift m s)"
    if "holds r ag0 runNS st0 h s" "A h s" for h s
    unfolding glift_def op_wp_andThen
    by (rule op_wp_mono [OF op_wp_extends [OF assms(1) [OF that]]])
      (use that assms(2) holds_append in \<open>auto simp: ends_def stable_def holds_append intro!: holds_fell split: sum.splits\<close>)
  then show ?thesis by (simp add: tri_def)
qed

lemma tri_ask:
  assumes "\<And>h s. holds r ag0 runNS st0 h s \<Longrightarrow> A h s \<Longrightarrow> op_wp (may r ag0 runNS st0) (\<lambda>h' x. R x h') h m" and "stable A"
  shows "tri r ag0 runNS st0 A (gask m) (\<lambda>x h s. A h s \<and> R x h)"
proof -
  have "op_wp (may r ag0 runNS st0) (ends r ag0 runNS st0 (\<lambda>x h s. A h s \<and> R x h)) h (gask m s)"
    if "holds r ag0 runNS st0 h s" "A h s" for h s
    unfolding gask_def op_wp_andThen
    by (rule op_wp_mono [OF op_wp_extends [OF assms(1) [OF that]]])
      (use that assms(2) holds_append in \<open>auto simp: ends_def stable_def\<close>)
  then show ?thesis by (simp add: tri_def)
qed

lemma silent_may: "silent m \<Longrightarrow> op_wp (may r ag0 runNS st0) (\<lambda>_ _. True) h m"
  unfolding silent_def by (blast intro: op_wp_mono reads_may)

lemma tri_silent: "silent m \<Longrightarrow> stable A \<Longrightarrow> tri r ag0 runNS st0 A (glift m) (\<lambda>_. A)"
  by (rule tri_conseq [OF tri_lift [where R = "\<lambda>_ _. True"]]) (auto intro: op_wp_mono [OF silent_may])

lemma tri_look: "silent m \<Longrightarrow> stable A \<Longrightarrow> tri r ag0 runNS st0 A (gask m) (\<lambda>_. A)"
  by (rule tri_conseq [OF tri_ask [where R = "\<lambda>_ _. True"]]) (auto intro: op_wp_mono [OF silent_may])

text \<open>Changes of what is not the record, and of the record.\<close>

definition same_record :: "gstate \<Rightarrow> gstate \<Rightarrow> bool" where
  "same_record s s' \<longleftrightarrow> gs_agent s' = gs_agent s \<and> gs_status s' = gs_status s"

lemma tri_mod:
  assumes "\<And>s. gs_agent (g s) = gs_agent s" and "\<And>s. keeps_revision (gs_status s) (gs_status (g s))"
    and "\<And>h s. holds r ag0 runNS st0 h s \<Longrightarrow> A h s \<Longrightarrow>
      auth_path (refused r ag0 runNS h) (abs_auth (st_Auth (gs_status s))) (abs_auth (st_Auth (gs_status (g s)))) \<and> B () h (g s)"
  shows "tri r ag0 runNS st0 A (gmod g) B"
proof -
  have "keeps_revision st0 (gs_status (g s))" if "keeps_revision st0 (gs_status s)" for s
    using that assms(2) [of s] by (simp add: keeps_revision_def keeps_release_def)
  then show ?thesis
    using assms(1,3) by (auto simp: tri_def gmod_def ends_def holds_def traced_def intro: rtranclp_trans)
qed

lemma tri_report:
  assumes "\<And>h s. A h s \<Longrightarrow> B () h (g s)" and "\<And>s. same_record s (g s)"
  shows "tri r ag0 runNS st0 A (gmod g) B"
  by (rule tri_mod) (use assms in \<open>auto simp: same_record_def\<close>)

lemma tri_set_conds: "tri r ag0 runNS st0 (\<lambda>h s. A h (gs_agent s) (gs_status s)) (set_conds g) (\<lambda>_ h s. A h (gs_agent s) (gs_status s))"
  unfolding set_conds_def by (rule tri_report) (auto simp: same_record_def)

lemma tri_set_out: "tri r ag0 runNS st0 (\<lambda>h s. A h (gs_agent s) (gs_status s)) (set_out g) (\<lambda>_ h s. A h (gs_agent s) (gs_status s))"
  unfolding set_out_def by (rule tri_report) (auto simp: same_record_def)

lemma tri_with_tx:
  assumes "\<And>auth tx. tri r ag0 runNS st0 (\<lambda>h s. A h s \<and> st_Auth (gs_status s) = Some auth \<and> au_Transaction auth = Some tx) (f auth tx) C"
  shows "tri r ag0 runNS st0 A (with_tx f) C"
  unfolding with_tx_def
  by (rule tri_with) (auto split: option.split intro!: tri_fail tri_conseq [OF assms])

section \<open>The record's write\<close>

lemma tri_persist:
  assumes "stable (\<lambda>h s. A h (gs_status s))"
  shows "tri r ag0 runNS st0 (\<lambda>h s. A h (gs_status s)) persistStatus (\<lambda>_ h s. A h (gs_status s))"
proof -
  have "op_wp (may r ag0 runNS st0) (ends r ag0 runNS st0 (\<lambda>_ h s. A h (gs_status s))) h (persistStatus s)"
    if ok: "holds r ag0 runNS st0 h s" and A: "A h (gs_status s)" for h s
  proof -
    let ?n = "next_status s" and ?a = "gs_agent s"
    let ?b = "?n\<lparr> st_Conditions := boundConditionMessages (st_Conditions ?n) \<rparr>"
    let ?sent = "?a\<lparr> ag_Status := ?b \<rparr>"
    have b: "auth_only (ag_Status ?a) ?b" "st_Auth ?b = st_Auth (gs_status s)" "keeps_release (ag_Status ?a) ?b" "same_agent ?a ?sent"
      by (auto simp: auth_only_def next_status_def keeps_release_def same_agent_def)
    have req: "may r ag0 runNS st0 h (UpdateStatus ?sent)"
      using ok b(1,2) by (auto simp: may_def status_write_def holds_def seen_def traced_def)
    have fail: "fell r ag0 runNS st0 (h @ [x]) (s\<lparr> gs_agent := ?sent \<rparr>)" for x
    proof -
      have "release_seen (h @ [x]) ?sent"
        using ok b(3) versions_append by (fastforce simp: release_seen_def holds_def seen_def)
      moreover have "traced r ag0 runNS st0 (h @ [x]) s" using ok by (simp add: holds_def traced_append)
      ultimately show ?thesis
        using b(3,4) unfolding fell_def traced_def agent_at_def keeps_release_def
        by (auto intro: same_agent_trans)
    qed
    have go: "holds r ag0 runNS st0 (h @ [(UpdateStatus ?sent, RAgent (Inr g))]) (s\<lparr> gs_agent := g \<rparr>)" for g
    proof -
      let ?h = "h @ [(UpdateStatus ?sent, RAgent (Inr g))]"
      have "seen ?h g" by (auto simp: seen_def intro: versions_answered)
      moreover have f: "keeps_release ?b (ag_Status g) \<and> same_agent ?sent g" if "faithful ?h"
        using that unfolding faithful_def by fastforce
      moreover have "traced r ag0 runNS st0 ?h s" using ok by (simp add: holds_def traced_append)
      ultimately show ?thesis
        using b(3,4) unfolding holds_def traced_def agent_at_def keeps_release_def
        by (auto intro: same_agent_trans)
    qed
    have A': "A (h @ t) (gs_status s)" for t using assms A by (simp add: stable_def)
    show ?thesis
      unfolding persistStatus_def writeStatus_def Let_def
      using req fail go holds_fell [OF go] A' A ok holds_fell [OF ok]
      by (auto simp: wp_rules ends_def resp_agent_Inr split: sum.split)
  qed
  then show ?thesis by (simp add: tri_def)
qed

section \<open>The operations\<close>

lemma same_agent_policy: "same_agent ag0 ag \<Longrightarrow> agent_policy r ag runNS = agent_policy r ag0 runNS"
  by (simp add: agent_policy_def same_agent_def)

definition target_ok :: "AgentReconciler \<Rightarrow> Agent \<Rightarrow> string \<Rightarrow> AuthTarget \<Rightarrow> exchange list \<Rightarrow> bool" where
  "target_ok r ag0 runNS t h \<longleftrightarrow> (at_Mode t = AuthModeAPIKey \<longrightarrow> at_Policy t \<noteq> None) \<and>
     (faithful h \<longrightarrow> (\<forall>p. at_Policy t = Some p \<longrightarrow> agent_policy r ag0 runNS = Inr p \<and> at_Digest t = policy_Digest p))"

lemma createTarget_ok:
  assumes "createTarget r ag runNS tx = Inr t" and "agent_at ag0 h ag"
  shows "target_ok r ag0 runNS t h \<and> at_Mode t = tx_TargetMode tx"
  using assms same_agent_policy [of ag0 ag r runNS]
  by (auto simp: createTarget_def target_ok_def agent_at_def Let_def split: if_splits sum.splits)

lemma lock_target_ok:
  assumes "lock_target r ag runNS tx = Inr t" and "agent_at ag0 h ag"
  shows "target_ok r ag0 runNS t h \<and> at_Mode t = tx_TargetMode tx"
  using assms by (auto simp: lock_target_def split: sum.splits go_error.splits dest: createTarget_ok)

lemma holds_agent: "holds r ag0 runNS st0 h s \<Longrightarrow> agent_at ag0 h (gs_agent s)"
  by (simp add: holds_def traced_def)

text \<open>What holds and goes on to hold may be used of every later request.\<close>

lemma op_wp_while:
  assumes "op_wp P Q h m" and "K h" and "\<And>h x. K h \<Longrightarrow> K (h @ [x])" and "\<And>h q. K h \<Longrightarrow> P h q \<Longrightarrow> P' h q"
  shows "op_wp P' Q h m"
  using assms(1,2)
proof (induction m arbitrary: h)
  case (Ask q g)
  then show ?case using assms(3,4) by auto
qed simp

lemma tri_op:
  assumes "\<And>h s. holds r ag0 runNS st0 h s \<Longrightarrow> A h s \<Longrightarrow> op_wp (may r ag0 runNS st0) (\<lambda>_ _. True) h (m s)" and "stable A"
  shows "tri r ag0 runNS st0 A (gwith (\<lambda>s. glift (m s))) (\<lambda>_. A)"
proof (rule tri_with)
  fix s0
  have "tri r ag0 runNS st0 (\<lambda>h s. A h s \<and> s = s0) (glift (m s0)) (\<lambda>x h s. (A h s \<and> s = s0) \<and> True)"
    by (rule tri_lift) (use assms in \<open>auto simp: stable_def intro: op_wp_mono [OF assms(1)]\<close>)
  then show "tri r ag0 runNS st0 (\<lambda>h s. A h s \<and> s = s0) (glift (m s0)) (\<lambda>_. A)"
    by (rule tri_conseq) auto
qed

lemma ensureServingRoute_may:
  assumes "holds r ag0 runNS st0 h s"
  shows "op_wp (may r ag0 runNS st0) (\<lambda>_ _. True) h (ensureServingRoute (ac_Gateway r) (gs_agent s) runNS (st_ActiveRevision (gs_status s))
     (st_ActiveRevisionDigest (gs_status s)) (own_route ag0) (routePublicationFor (st_Auth (gs_status s))))"
proof (rule op_wp_while [OF ensureServingRoute_wp])
  show "traced r ag0 runNS st0 h s" using assms by (simp add: holds_def)
  show "may r ag0 runNS st0 h' q" if "traced r ag0 runNS st0 h' s" and "route_request (ac_Gateway r) (gs_agent s) runNS (st_ActiveRevision (gs_status s))
     (st_ActiveRevisionDigest (gs_status s)) (own_route ag0) (routePublicationFor (st_Auth (gs_status s))) h' q" for h' q
    using that by (auto simp: may_def serving_request_def traced_def keeps_revision_def keeps_release_def)
qed (rule traced_append)

lemma tri_serve_route: "stable A \<Longrightarrow> tri r ag0 runNS st0 A (serve_route r runNS (own_route ag0)) (\<lambda>_. A)"
  unfolding serve_route_def by (rule tri_op) (auto intro: ensureServingRoute_may)

lemma collectRoutes_wp:
  assumes "agent_at ag0 h ag"
  shows "op_wp (may r ag0 runNS st0) (\<lambda>_ _. True) h (collectRoutes ag runNS keep)"
proof -
  have del: "may r ag0 runNS st0 h' (Delete (ORoute rt) None)"
    if "agent_at ag0 h' ag" "lbl (om_Labels (hr_Meta rt)) LabelAgentUID = ag_UID ag" "ServingRouteName (ag_Name ag) = Inr (om_Name (hr_Meta rt))" for h' rt
    using that by (auto simp: may_def serving_request_def)
  have loop: "op_wp (may r ag0 runNS st0) (\<lambda>h' _. agent_at ag0 h' ag) h' (forEach (\<lambda>rt.
     if om_Name (hr_Meta rt) = keep then Return (Inr ())
     else deleteGone (msgf ''gc route'' [om_Name (hr_Meta rt), runNS]) (ORoute rt)) rts)"
    if "agent_at ag0 h' ag" "\<forall>rt\<in>set rts. lbl (om_Labels (hr_Meta rt)) LabelAgentUID = ag_UID ag \<and> ServingRouteName (ag_Name ag) = Inr (om_Name (hr_Meta rt))"
    for h' rts
    by (rule op_wp_forEach) (use that in \<open>auto simp: wp_rules intro!: del agent_at_append\<close>)
  show ?thesis
    unfolding collectRoutes_def ownedRoutes_def listOwnedRoutes_def
    using assms
    by (auto simp: wp_rules op_wp_tryThen intro!: op_wp_mono [OF loop] agent_at_append reads_may split: sum.split)
qed

lemma tri_collect_routes: "stable A \<Longrightarrow> tri r ag0 runNS st0 A (collect_routes runNS keep) (\<lambda>_. A)"
  unfolding collect_routes_def by (rule tri_op) (auto intro: collectRoutes_wp holds_agent)

lemma tri_current_route: "stable A \<Longrightarrow> tri r ag0 runNS st0 A (current_route runNS name) (\<lambda>_. A)"
  unfolding current_route_def by (rule tri_op) (auto intro: silent_may silent_parts)

text \<open>A live read of the route that goes on is of one that is not another Agent's.\<close>

lemma tri_live_route:
  assumes "stable A"
  shows "tri r ag0 runNS st0 A (live_route runNS (own_route ag0)) (\<lambda>rt h s. A h s \<and> (\<forall>x. rt = Some x \<longrightarrow> live_read ag0 (gs_agent s) runNS h x))"
  unfolding live_route_def
proof (rule tri_with)
  fix s0 :: gstate
  have read: "op_wp (may r ag0 runNS st0) (\<lambda>h' res. \<forall>rt. res = Inr rt \<longrightarrow> (\<forall>x. rt = Some x \<longrightarrow> live_read ag0 (gs_agent s0) runNS h' x)) h
      (liveServingRoute (gs_agent s0) runNS (own_route ag0))" for h
    unfolding liveServingRoute_def read_route_def
    by (auto simp: wp_rules live_read_def resp_obj_route intro: reads_may split: sum.split option.split)
  have "tri r ag0 runNS st0 (\<lambda>h s. A h s \<and> s = s0) (glift (liveServingRoute (gs_agent s0) runNS (own_route ag0)))
     (\<lambda>rt h s. (A h s \<and> s = s0) \<and> (\<forall>x. rt = Some x \<longrightarrow> live_read ag0 (gs_agent s0) runNS h x))"
    by (rule tri_lift [OF read]) (use assms in \<open>auto simp: stable_def\<close>)
  then show "tri r ag0 runNS st0 (\<lambda>h s. A h s \<and> s = s0) (glift (liveServingRoute (gs_agent s0) runNS (own_route ag0)))
     (\<lambda>rt h s. A h s \<and> (\<forall>x. rt = Some x \<longrightarrow> live_read ag0 (gs_agent s) runNS h x))"
    by (rule tri_conseq) auto
qed

text \<open>The policy.\<close>

lemma tri_policy_write:
  assumes "tri r ag0 runNS st0 A (glift m) B"
  shows "tri r ag0 runNS st0 A (policy_write m) B"
proof -
  have "ends r ag0 runNS st0 B h (case res of Inl (GoPanic t) \<Rightarrow> Inl (GoPanic t) | Inl e \<Rightarrow> Inl (GatewayError ReasonPolicyWriteFailed e) | Inr x \<Rightarrow> Inr x, s)"
    if "ends r ag0 runNS st0 B h (res, s)" for h res s
    using that by (auto simp: ends_def split: sum.splits go_error.splits)
  note wrapped = this
  have "op_wp (may r ag0 runNS st0) (ends r ag0 runNS st0 B) h (policy_write m s)" if "holds r ag0 runNS st0 h s" "A h s" for h s
  proof -
    have "op_wp (may r ag0 runNS st0) (\<lambda>h res. ends r ag0 runNS st0 B h (res, s)) h m"
      using assms that by (auto simp: tri_def glift_def op_wp_andThen)
    then show ?thesis
      unfolding policy_write_def glift_def op_wp_andThen op_wp.simps by (rule op_wp_mono) (simp_all only: wrapped)
  qed
  then show ?thesis by (simp add: tri_def)
qed

lemma writeAuthPolicy_wp:
  assumes "agent_at ag0 h ag" and "faithful h \<longrightarrow> agent_policy r ag0 runNS = Inr j"
    and "(Get False KPolicy ns n, RObj (Inr (OPolicy p))) \<in> set h"
  shows "op_wp (may r ag0 runNS st0) (\<lambda>_ _. True) h (writeAuthPolicy ag p j digest)"
proof -
  have "may r ag0 runNS st0 h (Update (OPolicy (policy_updated j p)))" if "policyCollision ag p = None"
  proof -
    have "policy_request r ag0 runNS h (Update (OPolicy (policy_updated j p)))"
      using that assms
      by (auto simp: policy_request_def own_policy_read_def policyCollision_def agent_at_def same_agent_def Let_def split: if_splits)
    then show ?thesis by (simp add: may_def)
  qed
  then show ?thesis
    unfolding writeAuthPolicy_def by (auto split: option.split)
qed

lemma tri_apply_policy:
  assumes "stable A" and "\<And>h s. A h s \<Longrightarrow> target_ok r ag0 runNS t h"
  shows "tri r ag0 runNS st0 A (apply_policy t) (\<lambda>_. A)"
proof (cases "at_Policy t")
  case (Some j)
  let ?d = "rendered_policy j"
  have wp: "op_wp (may r ag0 runNS st0) (\<lambda>_ _. True) h (ensureAuthPolicy ag j)"
    if "agent_at ag0 h ag" "faithful h \<longrightarrow> agent_policy r ag0 runNS = Inr j" for h ag
  proof -
    have j: "faithful (h @ u) \<longrightarrow> agent_policy r ag0 runNS = Inr j" for u using that(2) faithful_prefix by blast
    have "may r ag0 runNS st0 (h @ u) (Create (OPolicy ?d))" for u
      using j [of u] by (auto simp: may_def policy_request_def)
    then show ?thesis
      unfolding ensureAuthPolicy_def Let_def
      by (auto simp: op_wp_andThen op_wp_requests_typed resp_obj_policy split: sum.split
          intro!: writeAuthPolicy_wp [of _ _ _ _ _ _ "pl_Namespace ?d" "pl_Name ?d"] reads_may agent_at_append that(1) j)
  qed
  have j: "faithful h \<longrightarrow> agent_policy r ag0 runNS = Inr j" if "A h s" for h s
    using assms(2) [OF that] Some by (simp add: target_ok_def)
  have "tri r ag0 runNS st0 (\<lambda>h s. A h s \<and> s = s0) (policy_write (ensureAuthPolicy (gs_agent s0) j)) (\<lambda>_. A)" for s0
  proof -
    have "tri r ag0 runNS st0 (\<lambda>h s. A h s \<and> s = s0) (glift (ensureAuthPolicy (gs_agent s0) j)) (\<lambda>x h s. (A h s \<and> s = s0) \<and> True)"
      by (rule tri_lift) (use assms(1) j in \<open>auto simp: stable_def intro: op_wp_mono [OF wp] holds_agent\<close>)
    then show ?thesis by (intro tri_policy_write) (auto elim: tri_conseq)
  qed
  then show ?thesis
    unfolding apply_policy_def Some by (auto intro!: tri_with tri_bind tri_ret)
qed (simp add: apply_policy_def tri_fail)

lemma tri_policy_intact:
  assumes "stable A" and "\<And>h s. A h s \<Longrightarrow> target_ok r ag0 runNS t h"
  shows "tri r ag0 runNS st0 A (policy_intact runNS t)
    (\<lambda>res h s. A h s \<and> (snd res \<and> at_Policy t \<noteq> None \<and> faithful h \<longrightarrow> intact_read r ag0 runNS h))"
proof -
  have "op_wp (may r ag0 runNS st0) (\<lambda>h' res. \<forall>x. res = Inr x \<longrightarrow> snd x \<and> at_Policy t \<noteq> None \<and> faithful h' \<longrightarrow> intact_read r ag0 runNS h') h
      (authPolicyIntact runNS t)" if "target_ok r ag0 runNS t h" for h s
  proof (cases "at_Policy t")
    case (Some j)
    have j: "faithful (h @ u) \<Longrightarrow> agent_policy r ag0 runNS = Inr j \<and> at_Digest t = policy_Digest j" for u
      using that Some faithful_prefix by (auto simp: target_ok_def)
    show ?thesis
      unfolding authPolicyIntact_def Some Let_def
      by (auto simp: wp_rules resp_obj_policy split: sum.split intro!: reads_may) (use j in \<open>fastforce simp: intact_read_def\<close>)
  qed (simp add: authPolicyIntact_def)
  then show ?thesis
    unfolding policy_intact_def by (intro tri_lift) (use assms in auto)
qed

section \<open>Assertions of a transaction\<close>

text \<open>The record is at a state of the machine, and something that later exchanges keep is known of the exchanges.\<close>

definition on :: "auth_state \<Rightarrow> (exchange list \<Rightarrow> bool) \<Rightarrow> exchange list \<Rightarrow> gstate \<Rightarrow> bool" where
  "on x G h s \<longleftrightarrow> abs_auth (st_Auth (gs_status s)) = x \<and> G h"

definition kept :: "(exchange list \<Rightarrow> bool) \<Rightarrow> bool" where
  "kept G \<longleftrightarrow> (\<forall>h t. G h \<longrightarrow> G (h @ t))"

lemma stable_on [simp]: "kept G \<Longrightarrow> stable (on x G)"
  by (simp add: stable_def on_def kept_def)

lemma kept_basic [simp]: "kept (\<lambda>_. P)" "kept (refused r ag0 runNS)"
  by (simp_all add: kept_def refused_append)

lemma kept_conj [intro]: "kept G \<Longrightarrow> kept G' \<Longrightarrow> kept (\<lambda>h. G h \<and> G' h)"
  by (simp add: kept_def)

lemma kept_imp [intro]: "kept G \<Longrightarrow> kept (\<lambda>h. P \<longrightarrow> G h)" "kept G \<Longrightarrow> kept (\<lambda>h. faithful h \<longrightarrow> G h)"
  using faithful_prefix unfolding kept_def by blast+

lemma kept_key [intro]: "kept G \<Longrightarrow> kept (\<lambda>h. P \<and> faithful h \<longrightarrow> G h)"
  using faithful_prefix unfolding kept_def by blast

lemma intact_read_kept [simp]: "kept (intact_read r ag runNS)"
  unfolding kept_def intact_read_def by (metis UnCI set_append)

lemma kept_target [simp]: "kept (target_ok r ag0 runNS t)"
  using faithful_prefix by (auto simp: kept_def target_ok_def)

lemma tri_with_any: "(\<And>s0. tri r ag0 runNS st0 A (f s0) C) \<Longrightarrow> tri r ag0 runNS st0 A (gwith f) C"
  by (rule tri_with) (blast intro: tri_conseq)

lemma tri_on:
  assumes "kept G"
  shows "tri r ag0 runNS st0 (on x G) (serve_route r runNS (own_route ag0)) (\<lambda>_. on x G)"
    "tri r ag0 runNS st0 (on x G) (collect_routes runNS keep) (\<lambda>_. on x G)"
    "tri r ag0 runNS st0 (on x G) (current_route runNS name) (\<lambda>_. on x G)"
    "tri r ag0 runNS st0 (on x G) persistStatus (\<lambda>_. on x G)"
    "tri r ag0 runNS st0 (on x G) (set_conds g) (\<lambda>_. on x G)"
    "tri r ag0 runNS st0 (on x G) (governance gv) (\<lambda>_. on x G)"
    "tri r ag0 runNS st0 (on x G) (set_out f) (\<lambda>_. on x G)"
    "silent m \<Longrightarrow> tri r ag0 runNS st0 (on x G) (gask m) (\<lambda>_. on x G)"
    "silent n \<Longrightarrow> tri r ag0 runNS st0 (on x G) (glift n) (\<lambda>_. on x G)"
    "tri r ag0 runNS st0 (on x G) (write_claims cl) (\<lambda>_. on x G)"
    "tri r ag0 runNS st0 (on x G) (note_above r runNS abv b) (\<lambda>_. on x G)"
proof -
  note kept = stable_on [OF assms]
  show "tri r ag0 runNS st0 (on x G) persistStatus (\<lambda>_. on x G)"
    using tri_persist [of "\<lambda>h st. abs_auth (st_Auth st) = x \<and> G h" r ag0 runNS st0] kept [of x]
    by (simp add: stable_def on_def [abs_def])
  have c: "tri r ag0 runNS st0 (on x G) (set_conds g) (\<lambda>_. on x G)" for g
    using tri_set_conds [of r ag0 runNS st0 "\<lambda>h _ st. abs_auth (st_Auth st) = x \<and> G h" g] by (simp add: on_def [abs_def])
  show "tri r ag0 runNS st0 (on x G) (set_conds g) (\<lambda>_. on x G)" by (rule c)
  show "tri r ag0 runNS st0 (on x G) (governance gv) (\<lambda>_. on x G)" unfolding governance_def by (rule c)
  show "tri r ag0 runNS st0 (on x G) (set_out f) (\<lambda>_. on x G)"
    using tri_set_out [of r ag0 runNS st0 "\<lambda>h _ st. abs_auth (st_Auth st) = x \<and> G h" f] by (simp add: on_def [abs_def])
  show "tri r ag0 runNS st0 (on x G) (note_above r runNS abv b) (\<lambda>_. on x G)"
    unfolding note_above_def by (rule tri_report) (auto simp: on_def same_record_def)
  show "tri r ag0 runNS st0 (on x G) (write_claims cl) (\<lambda>_. on x G)"
  proof -
    have "abs_auth (st_Auth (writeTo cl st)) = abs_auth (st_Auth st)" for st
      by (cases "st_Auth st") (auto simp: writeTo_def claims_in_def abs_auth_def)
    then show ?thesis
      unfolding write_claims_def by (intro tri_mod) (auto simp: on_def keeps_revision_def keeps_release_def writeTo_def)
  qed
qed (intro tri_serve_route tri_collect_routes tri_current_route tri_look tri_silent stable_on assms; assumption)+

lemma tri_on_note_tx:
  assumes "\<And>tx. tx_Kind (g tx) = tx_Kind tx" "\<And>tx. tx_TargetMode (g tx) = tx_TargetMode tx" "\<And>tx. tx_Stage (g tx) = tx_Stage tx"
  shows "tri r ag0 runNS st0 (on x G) (set_tx g) (\<lambda>_. on x G)"
proof -
  have "abs_auth (st_Auth (in_tx g st)) = abs_auth (st_Auth st)" for st
    using assms by (cases "st_Auth st"; cases "au_Transaction (the (st_Auth st))") (auto simp: in_tx_def abs_auth_def)
  then show ?thesis
    unfolding set_tx_def by (intro tri_mod) (auto simp: on_def keeps_revision_def keeps_release_def in_tx_def)
qed

lemma tri_on_apply:
  assumes "kept G" and "\<And>h. G h \<Longrightarrow> target_ok r ag0 runNS t h"
  shows "tri r ag0 runNS st0 (on x G) (apply_policy t) (\<lambda>_. on x G)"
  by (rule tri_apply_policy) (use assms in \<open>auto simp: on_def\<close>)

text \<open>The next stage, if the machine has it.\<close>

lemma tri_to_stage:
  assumes "kept G" and "\<And>h. G h \<Longrightarrow> auth_machine (refused r ag0 runNS h) (m, Some (k', tgt, stage)) (m, Some (k', tgt, stage'))"
  shows "tri r ag0 runNS st0 (on (m, Some (k', tgt, stage)) G) (to_stage stage' y) (\<lambda>z h s. z = y \<and> on (m, Some (k', tgt, stage')) G h s)"
proof -
  let ?g = "\<lambda>tx. tx\<lparr> tx_Stage := stage' \<rparr>"
  have step: "abs_auth (st_Auth (in_tx ?g st)) = (m, Some (k', tgt, stage'))" if "abs_auth (st_Auth st) = (m, Some (k', tgt, stage))" for st
    using that by (auto simp: in_tx_def abs_auth_def split: option.splits)
  have "tri r ag0 runNS st0 (on (m, Some (k', tgt, stage)) G) (set_tx ?g) (\<lambda>_. on (m, Some (k', tgt, stage')) G)"
    unfolding set_tx_def
    by (rule tri_mod) (use assms(2) step in \<open>auto simp: on_def keeps_revision_def keeps_release_def in_tx_def\<close>)
  then show ?thesis
    unfolding to_stage_def
    by (rule tri_bind) (rule tri_bind [OF tri_on(4) [OF assms(1)]], rule tri_ret, simp)
qed

lemma tri_on_set_auth:
  assumes "\<And>h. G h \<Longrightarrow> auth_machine (refused r ag0 runNS h) x (abs_auth a)"
  shows "tri r ag0 runNS st0 (on x G) (set_auth a) (\<lambda>_. on (abs_auth a) G)"
  unfolding set_auth_def
  by (rule tri_mod) (use assms in \<open>auto simp: on_def keeps_revision_def keeps_release_def\<close>)

lemma tri_on_catch_gone:
  assumes "kept G"
  shows "tri r ag0 runNS st0 (on x G) (catch_gone (serve_route r runNS (own_route ag0))) (\<lambda>_. on x G)"
proof -
  have "op_wp (may r ag0 runNS st0) (ends r ag0 runNS st0 (\<lambda>_. on x G)) h (catch_gone (serve_route r runNS (own_route ag0)) s)"
    if ok: "holds r ag0 runNS st0 h s" and on: "on x G h s" for h s
  proof -
    let ?m = "ensureServingRoute (ac_Gateway r) (gs_agent s) runNS (st_ActiveRevision (gs_status s))
     (st_ActiveRevisionDigest (gs_status s)) (own_route ag0) (routePublicationFor (st_Auth (gs_status s)))"
    have m: "op_wp (may r ag0 runNS st0) (\<lambda>_ _. True) h ?m" by (rule ensureServingRoute_may [OF ok])
    have "on x G (h @ t) s" for t using stable_on [OF assms, of x] on by (simp add: stable_def)
    then show ?thesis
      unfolding catch_gone_def serve_route_def gwith_def glift_def op_wp_andThen
      by (auto intro!: op_wp_mono [OF op_wp_extends [OF m]] simp: ends_def holds_append [OF ok] holds_fell [OF holds_append [OF ok]] split: sum.split)
  qed
  then show ?thesis by (simp add: tri_def)
qed

section \<open>The evidence\<close>

definition hit :: "AgentReconciler \<Rightarrow> Agent \<Rightarrow> string \<Rightarrow> exchange list \<Rightarrow> bool" where
  "hit r ag0 runNS h \<longleftrightarrow> (faithful h \<longrightarrow> (\<exists>u x v. h = u @ x # v \<and> intact_read r ag0 runNS u \<and> refusal r ag0 x))"

lemma kept_hit [simp]: "kept (hit r ag0 runNS)"
  unfolding kept_def hit_def using faithful_prefix by (metis append.assoc append_Cons)

lemma same_agent_probe: "same_agent ag0 ag \<Longrightarrow> cardPath ag = cardPath ag0 \<and> agent_host r ag = agent_host r ag0"
  by (simp add: same_agent_def cardPath_def agent_host_def)

lemma tri_probe:
  assumes "kept G"
  shows "tri r ag0 runNS st0 (on x (\<lambda>h. G h \<and> (key \<and> faithful h \<longrightarrow> intact_read r ag0 runNS h))) (probe r)
    (\<lambda>ans. on x (\<lambda>h. G h \<and> (key \<and> answer_code ans = Some 401 \<longrightarrow> hit r ag0 runNS h)))"
  unfolding probe_def
proof (rule tri_with)
  fix s0 :: gstate
  let ?A = "\<lambda>h s. on x (\<lambda>h. G h \<and> (key \<and> faithful h \<longrightarrow> intact_read r ag0 runNS h)) h s \<and> s = s0"
  let ?m = "probeAgent (ac_env r) (ac_Gateway r) (gs_agent s0)"
  have st: "stable ?A"
    using stable_on [OF kept_conj [OF assms kept_key [OF intact_read_kept]], of x] by (simp add: stable_def)
  have "op_wp (may r ag0 runNS st0) (\<lambda>h' ans. key \<and> answer_code ans = Some 401 \<longrightarrow> hit r ag0 runNS h') h ?m"
    if "holds r ag0 runNS st0 h s" "?A h s" for h s
  proof -
    have ag: "faithful h \<Longrightarrow> same_agent ag0 (gs_agent s0)" using that holds_agent [OF that(1)] by (simp add: agent_at_def)
    have "hit r ag0 runNS (h @ [(HttpProbe url (Hostname (ac_Gateway r) (ag_Name (gs_agent s0)) (ag_Namespace (gs_agent s0))), a)])"
      if "key" "probeURL (ac_env r) (gw_ServingURL (ac_Gateway r)) (cardPath (gs_agent s0)) = Inr url" "a = RProbe (Inr (401, body))" for url a body
      unfolding hit_def refusal_def
    proof (intro impI exI conjI)
      assume "faithful (h @ [(HttpProbe url (Hostname (ac_Gateway r) (ag_Name (gs_agent s0)) (ag_Namespace (gs_agent s0))), a)])"
      then have f: "faithful h" by (rule faithful_prefix)
      from ag [OF f] same_agent_probe have p: "cardPath (gs_agent s0) = cardPath ag0" "agent_host r (gs_agent s0) = agent_host r ag0" by auto
      show "intact_read r ag0 runNS h" using \<open>?A h s\<close> \<open>key\<close> f by (simp add: on_def)
      show "probeURL (ac_env r) (gw_ServingURL (ac_Gateway r)) (cardPath ag0) = Inr url" using that(2) p by simp
      show "(HttpProbe url (Hostname (ac_Gateway r) (ag_Name (gs_agent s0)) (ag_Namespace (gs_agent s0))), a) =
          (HttpProbe url (agent_host r ag0), RProbe (Inr (401, body)))" using p that(3) by (simp add: agent_host_def)
    qed simp
    then show ?thesis
      unfolding probeAgent_def http_probe_def
      by (auto simp: answer_code_def reads_may split: sum.splits resp.splits)
  qed
  from tri_ask [OF this st]
  show "tri r ag0 runNS st0 ?A (gask ?m) (\<lambda>ans. on x (\<lambda>h. G h \<and> (key \<and> answer_code ans = Some 401 \<longrightarrow> hit r ag0 runNS h)))"
    by (rule tri_conseq) (auto simp: on_def)
qed

lemma hit_refused:
  assumes "hit r ag0 runNS h" and "faithful (h @ t) \<Longrightarrow> above_clean (ac_Gateway r) (agent_host r ag0) t"
  shows "refused r ag0 runNS (h @ t)"
  unfolding refused_def
proof
  assume f: "faithful (h @ t)"
  then obtain u x v where h: "h = u @ x # v" "intact_read r ag0 runNS u" "refusal r ag0 x"
    using assms(1) faithful_prefix unfolding hit_def by blast
  have "above_clean gw host (v @ t)" if "above_clean gw host t" for gw host
    using that pages_from_mono [of t _ "[]" _ "v @ t"] unfolding above_clean_def by (metis UnCI set_append sup_ge2)
  with h assms(2) [OF f] show "\<exists>u x v. h @ t = u @ x # v \<and> intact_read r ag0 runNS u \<and> refusal r ag0 x \<and>
      above_clean (ac_Gateway r) (agent_host r ag0) v"
    by (metis append.assoc append_Cons)
qed

lemma tri_recheck:
  assumes "kept G"
  shows "tri r ag0 runNS st0 (on x (\<lambda>h. G h \<and> (key \<longrightarrow> hit r ag0 runNS h))) (recheck_above r runNS abv)
    (\<lambda>res. on x (\<lambda>h. G h \<and> (key \<and> \<not> snd res \<longrightarrow> refused r ag0 runNS h)))"
proof -
  let ?A = "on x (\<lambda>h. G h \<and> (key \<longrightarrow> hit r ag0 runNS h))"
  let ?B = "\<lambda>again. on x (\<lambda>h. G h \<and> (key \<and> \<not> above_stands again \<longrightarrow> refused r ag0 runNS h))"
  have kB: "kept (\<lambda>h. G h \<and> (b \<longrightarrow> refused r ag0 runNS h))" for b by (intro kept_conj assms kept_imp) simp
  have "tri r ag0 runNS st0 ?A (read_policies_above r) ?B"
    unfolding read_policies_above_def
  proof (rule tri_with)
    fix s0 :: gstate
    let ?m = "gatewayAuthPolicies (ac_env r) (ac_Gateway r) (Hostname (ac_Gateway r) (ag_Name (gs_agent s0)) (ag_Namespace (gs_agent s0)))"
    have st: "stable (\<lambda>h s. ?A h s \<and> s = s0)"
      using stable_on [OF kept_conj [OF assms kept_imp(1) [OF kept_hit]], of x] by (simp add: stable_def)
    have "op_wp (may r ag0 runNS st0) (\<lambda>h' again. key \<and> \<not> above_stands again \<longrightarrow> refused r ag0 runNS h') h ?m"
      if "holds r ag0 runNS st0 h s" "?A h s \<and> s = s0" for h s
    proof (rule op_wp_mono [OF gatewayAuthPolicies_wp], goal_cases)
      case (2 h' again)
      then obtain t where t: "h' = h @ t" "\<not> above_stands again \<longrightarrow> above_clean (ac_Gateway r) (agent_host r (gs_agent s0)) t"
        unfolding agent_host_def by blast
      have host: "agent_host r (gs_agent s0) = agent_host r ag0" if "faithful (h @ t)"
        using that \<open>?A h s \<and> s = s0\<close> holds_agent [OF \<open>holds r ag0 runNS st0 h s\<close>] faithful_prefix [of h t] same_agent_probe
        unfolding agent_at_def by metis
      have "refused r ag0 runNS (h @ t)" if "key" "\<not> above_stands again"
        by (rule hit_refused) (use that t host \<open>?A h s \<and> s = s0\<close> in \<open>auto simp: on_def\<close>)
      then show ?case using t(1) by simp
    qed (rule reads_may)
    from tri_ask [OF this st]
    show "tri r ag0 runNS st0 (\<lambda>h s. ?A h s \<and> s = s0) (gask ?m) ?B" by (rule tri_conseq) (auto simp: on_def)
  qed
  then show ?thesis
    unfolding recheck_above_def Let_def
  proof (rule tri_bind)
    fix again
    let ?held = "above_stands abv \<or> above_stands again"
    have "tri r ag0 runNS st0 (?B again) (if b then note_above r runNS z True else gret ()) (\<lambda>_. ?B again)" for b z
      by (auto intro: tri_on(11) kB tri_ret)
    then show "tri r ag0 runNS st0 (?B again)
        (then_do (if ?held then note_above r runNS (if above_stands again \<or> \<not> above_stands abv then again else abv) True else gret ())
          (gret (if above_stands again \<or> \<not> above_stands abv then again else abv, ?held)))
        (\<lambda>res. on x (\<lambda>h. G h \<and> (key \<and> \<not> snd res \<longrightarrow> refused r ag0 runNS h)))"
      by (rule tri_bind) (auto intro!: tri_ret simp: on_def)
  qed
qed

end
