(* ===== verification/Auth_Refinement.thy ===== *)
theory Auth_Refinement
  imports Auth_Safety
begin

text \<open>
  The transactions of \<^verbatim>\<open>authtxn.go\<close> refine \<open>auth_machine\<close>: a triple for each stage and each step, from the
  state the record is at to the states the machine allows after it.
\<close>

section \<open>A transaction in any stage\<close>

definition at_some :: "string \<Rightarrow> string \<Rightarrow> string \<Rightarrow> (exchange list \<Rightarrow> bool) \<Rightarrow> exchange list \<Rightarrow> gstate \<Rightarrow> bool" where
  "at_some m knd tgt G h s \<longleftrightarrow> (\<exists>stage. on (m, Some (knd, tgt, stage)) G h s)"

lemma stable_at_some [simp]: "kept G \<Longrightarrow> stable (at_some m knd tgt G)"
  using stable_on unfolding at_some_def stable_def by blast

lemma tri_ex: "(\<And>x. tri r ag0 runNS st0 (A x) m B) \<Longrightarrow> tri r ag0 runNS st0 (\<lambda>h s. \<exists>x. A x h s) m B"
  by (auto simp: tri_def)

lemma tri_at_some:
  "(\<And>stage. tri r ag0 runNS st0 (on (m, Some (knd, tgt, stage)) G) c B) \<Longrightarrow> tri r ag0 runNS st0 (at_some m knd tgt G) c B"
  unfolding at_some_def [abs_def] by (rule tri_ex)

text \<open>What a transaction says of itself where the record is at a state.\<close>

lemma tri_on_tx:
  assumes "\<And>auth tx. au_Mode auth = m \<Longrightarrow> au_Transaction auth = Some tx \<Longrightarrow> tx_Kind tx = knd \<Longrightarrow> tx_TargetMode tx = tgt \<Longrightarrow> tx_Stage tx = stage
     \<Longrightarrow> tri r ag0 runNS st0 (on (m, Some (knd, tgt, stage)) G) (f auth tx) C"
  shows "tri r ag0 runNS st0 (on (m, Some (knd, tgt, stage)) G) (with_tx f) C"
proof (rule tri_with_tx)
  fix auth tx
  show "tri r ag0 runNS st0 (\<lambda>h s. on (m, Some (knd, tgt, stage)) G h s \<and> st_Auth (gs_status s) = Some auth \<and> au_Transaction auth = Some tx) (f auth tx) C"
  proof (cases "au_Mode auth = m \<and> tx_Kind tx = knd \<and> tx_TargetMode tx = tgt \<and> tx_Stage tx = stage \<and> au_Transaction auth = Some tx")
    case True
    then show ?thesis by (auto intro: tri_conseq [OF assms])
  qed (auto simp: tri_def on_def abs_auth_def)
qed

lemma tri_if: "(b \<Longrightarrow> tri r ag0 runNS st0 A m B) \<Longrightarrow> (\<not> b \<Longrightarrow> tri r ag0 runNS st0 A n B) \<Longrightarrow> tri r ag0 runNS st0 A (if b then m else n) B"
  by simp

lemma tri_post: "tri r ag0 runNS st0 A m B \<Longrightarrow> (\<And>x h s. B x h s \<Longrightarrow> B' x h s) \<Longrightarrow> tri r ag0 runNS st0 A m B'"
  by (erule tri_conseq)

lemma tri_pre: "tri r ag0 runNS st0 A m B \<Longrightarrow> (\<And>h s. A' h s \<Longrightarrow> A h s) \<Longrightarrow> tri r ag0 runNS st0 A' m B"
  by (erule tri_conseq)

section \<open>Nacks, convergence and what stands above\<close>

lemma tri_converged: "tri r ag0 runNS st0 A (converged r rt policy) (\<lambda>_. A)"
  unfolding converged_def by (auto intro: tri_ret tri_fail split: option.split)

lemma tri_read_above:
  assumes "kept G"
  shows "tri r ag0 runNS st0 (on x G) (read_above r runNS) (\<lambda>_. on x G)"
proof -
  note on = tri_on [OF assms]
  have "tri r ag0 runNS st0 (on x G) (read_policies_above r) (\<lambda>_. on x G)"
    unfolding read_policies_above_def by (rule tri_with_any) (intro on silent_lists)
  then show ?thesis
    unfolding read_above_def
    by (rule tri_bind, intro tri_bind [OF on(7)] tri_bind [where B = "\<lambda>_. on x G"] tri_if) (auto intro: on tri_ret)
qed

text \<open>A rejection takes the transaction back to Converging, whose record is written.\<close>

lemma tri_note_nack:
  assumes "kept G" and "stage \<in> {StageConverging, StageProbingAfter}"
    and ret: "\<And>e. auth_machine e (m, Some (knd, tgt, StageProbingAfter)) (m, Some (knd, tgt, StageConverging))"
  shows "tri r ag0 runNS st0 (on (m, Some (knd, tgt, stage)) G) (note_nack r runNS policy stage)
     (\<lambda>n h s. if n = [] then on (m, Some (knd, tgt, stage)) G h s else at_some m knd tgt G h s)"
proof -
  note on = tri_on [OF assms(1)]
  have moved: "tri r ag0 runNS st0 (on (m, Some (knd, tgt, stage)) G) (if stage \<noteq> StageConverging then to_stage StageConverging n else gret n)
      (\<lambda>z h s. z = n \<and> at_some m knd tgt G h s)" for n
  proof (rule tri_if)
    assume "stage \<noteq> StageConverging"
    then have "stage = StageProbingAfter" using assms(2) by simp
    then show "tri r ag0 runNS st0 (on (m, Some (knd, tgt, stage)) G) (to_stage StageConverging n) (\<lambda>z h s. z = n \<and> at_some m knd tgt G h s)"
      by (auto intro!: tri_post [OF tri_to_stage [OF assms(1)]] simp: ret at_some_def)
  qed (auto intro!: tri_ret simp: at_some_def)
  have rest: "tri r ag0 runNS st0 (on (m, Some (knd, tgt, stage)) G)
     (if n = [] then gret [] else then_do (set_out f) (if stage \<noteq> StageConverging then to_stage StageConverging n else gret n))
     (\<lambda>n h s. if n = [] then on (m, Some (knd, tgt, stage)) G h s else at_some m knd tgt G h s)" for n f
    by (rule tri_if, rule tri_ret, simp, rule tri_bind [OF on(7)], rule tri_post [OF moved], simp)
  show ?thesis
    unfolding note_nack_def
    by (rule tri_with_any, rule tri_bind [OF on(8) [OF silent_parts(2)]], unfold split_beta, rule tri_bind [OF on(7) rest])
qed

section \<open>Create\<close>

definition in_create :: "string \<Rightarrow> string \<Rightarrow> (exchange list \<Rightarrow> bool) \<Rightarrow> create_step \<Rightarrow> exchange list \<Rightarrow> gstate \<Rightarrow> bool" where
  "in_create m tgt G st h s \<longleftrightarrow> (case st of CreateServed \<Rightarrow> True | _ \<Rightarrow> at_some m TxCreate tgt G h s)"

lemma in_create_simps [simp]:
  "on (m, Some (TxCreate, tgt, stage)) G h s \<Longrightarrow> in_create m tgt G st h s" "at_some m TxCreate tgt G h s \<Longrightarrow> in_create m tgt G st h s"
  by (auto simp: in_create_def at_some_def split: create_step.split)

lemma tri_create_move:
  assumes "kept G" and "(stage, stage') \<in> create_moves"
  shows "tri r ag0 runNS st0 (on (m, Some (TxCreate, tgt, stage)) G) (to_stage stage' y) (in_create m tgt G)"
  using assms by (auto intro!: tri_post [OF tri_to_stage] auth_machine.create_move)

lemma tri_create_break: "tri r ag0 runNS st0 (at_some m TxCreate tgt G) (break_create u d) (in_create m tgt G)"
  unfolding break_create_def by (rule tri_ret) simp

lemma tri_create_prepare:
  assumes "kept G"
  shows "tri r ag0 runNS st0 (on (m, Some (TxCreate, tgt, StagePreparingRoute)) G) (create_prepare r runNS (own_route ag0)) (in_create m tgt G)"
  unfolding create_prepare_def
  by (rule tri_bind [OF tri_on(1) [OF assms]], rule tri_bind [OF tri_on(2) [OF assms]], rule tri_bind [OF tri_on_note_tx])
    (simp_all add: tri_create_move assms create_moves_def)

lemma tri_create_apply:
  assumes "kept G" and "\<And>h. G h \<Longrightarrow> target_ok r ag0 runNS t h"
  shows "tri r ag0 runNS st0 (on (m, Some (TxCreate, tgt, StageApplyingPolicies)) G) (create_apply r runNS t) (in_create m tgt G)"
proof -
  have "tri r ag0 runNS st0 (on (m, Some (TxCreate, tgt, StageApplyingPolicies)) G) (then_do (apply_policy t) (to_stage StageConverging CreateAgain)) (in_create m tgt G)"
    by (rule tri_bind [OF tri_on_apply [OF assms]]) (simp_all add: tri_create_move assms create_moves_def)
  then show ?thesis
    unfolding create_apply_def by (intro tri_with_any tri_if tri_pre [OF tri_create_break]) (auto simp: at_some_def)
qed

text \<open>The key is credited only with the evidence.\<close>

lemma tri_create_credit:
  assumes "kept G"
  shows "tri r ag0 runNS st0
    (on (m, Some (TxCreate, tgt, StageProbingAfter)) (\<lambda>h. G h \<and> (tgt = AuthModeAPIKey \<and> answer_code ans = Some 401 \<longrightarrow> hit r ag0 runNS h)))
    (create_credit r runNS late abv ans) (in_create m tgt G)"
proof -
  let ?x = "(m, Some (TxCreate, tgt, StageProbingAfter))"
  let ?key = "tgt = AuthModeAPIKey" and ?got = "answer_code ans = Some 401"
  have kG: "kept (\<lambda>h. G h \<and> (b \<longrightarrow> refused r ag0 runNS h))" for b by (intro kept_conj assms kept_imp) simp
  have read: "tri r ag0 runNS st0 (on ?x (\<lambda>h. G h \<and> (?key \<and> ?got \<longrightarrow> hit r ag0 runNS h)))
     (if ?got then recheck_above r runNS abv else gret (abv, above_stands abv))
     (\<lambda>res. on ?x (\<lambda>h. G h \<and> (?key \<and> ?got \<and> \<not> snd res \<longrightarrow> refused r ag0 runNS h)))"
  proof (rule tri_if)
    assume "?got"
    then show "tri r ag0 runNS st0 (on ?x (\<lambda>h. G h \<and> (?key \<and> ?got \<longrightarrow> hit r ag0 runNS h))) (recheck_above r runNS abv)
       (\<lambda>res. on ?x (\<lambda>h. G h \<and> (?key \<and> ?got \<and> \<not> snd res \<longrightarrow> refused r ag0 runNS h)))"
      using tri_recheck [OF assms, of r ag0 runNS st0 ?x ?key abv] by simp
  qed (auto intro!: tri_ret simp: on_def)
  have credit: "tri r ag0 runNS st0 (on ?x (\<lambda>h. G h \<and> (?key \<and> ?got \<and> \<not> held \<longrightarrow> refused r ag0 runNS h))) (to_stage StagePublishing CreateAgain) (in_create m tgt G)"
    if "?got" "\<not> held" for held
    by (rule tri_post [OF tri_to_stage [OF kG]]) (use that in \<open>auto intro: auth_machine.credit simp: in_create_def at_some_def on_def\<close>)
  have wait: "tri r ag0 runNS st0 (on ?x (\<lambda>h. G h \<and> (b \<longrightarrow> refused r ag0 runNS h))) (then_do persistStatus (gwith (\<lambda>s. gret (CreateBreak (f s))))) (in_create m tgt G)" for b f
    by (rule tri_bind [OF tri_on(4) [OF kG] tri_with_any]) (auto intro!: tri_ret simp: in_create_def at_some_def on_def)
  show ?thesis
    unfolding create_credit_def Let_def
    by (rule tri_bind [OF read], unfold split_beta, rule tri_if, rule credit, simp, simp, rule wait)
qed

text \<open>What is known of the policy by the time a probe may count.\<close>

abbreviation with_intact :: "AgentReconciler \<Rightarrow> Agent \<Rightarrow> string \<Rightarrow> string \<Rightarrow> (exchange list \<Rightarrow> bool) \<Rightarrow> exchange list \<Rightarrow> bool" where
  "with_intact r ag0 runNS tgt G \<equiv> \<lambda>h. G h \<and> (tgt = AuthModeAPIKey \<and> faithful h \<longrightarrow> intact_read r ag0 runNS h)"

lemma kept_with_intact: "kept G \<Longrightarrow> kept (with_intact r ag0 runNS tgt G)"
  by (intro kept_conj kept_key) simp_all

lemma on_mono: "on x G h s \<Longrightarrow> (\<And>h. G h \<Longrightarrow> G' h) \<Longrightarrow> on x G' h s"
  by (simp add: on_def)

lemma at_some_mono: "at_some m knd tgt G h s \<Longrightarrow> (\<And>h. G h \<Longrightarrow> G' h) \<Longrightarrow> at_some m knd tgt G' h s"
  using on_mono unfolding at_some_def by blast

lemma tri_on_intact:
  assumes "kept G" and "\<And>h. G h \<Longrightarrow> target_ok r ag0 runNS t h" and "at_Mode t = tgt"
  shows "tri r ag0 runNS st0 (on x G) (policy_intact runNS t)
    (\<lambda>res. on x (\<lambda>h. G h \<and> (snd res \<longrightarrow> with_intact r ag0 runNS tgt G h)))"
  by (rule tri_post [OF tri_policy_intact [OF stable_on [OF assms(1)]]])
    (use assms(2,3) in \<open>auto simp: on_def target_ok_def\<close>)

lemma tri_create_probe:
  assumes "kept G"
  shows "tri r ag0 runNS st0 (on (m, Some (TxCreate, tgt, StageProbingAfter)) (with_intact r ag0 runNS tgt G)) (create_probe r runNS late) (in_create m tgt G)"
proof -
  let ?x = "(m, Some (TxCreate, tgt, StageProbingAfter))"
  note kI = kept_with_intact [OF assms]
  have credit: "tri r ag0 runNS st0 (on ?x (with_intact r ag0 runNS tgt G)) (gbind (probe r) (\<lambda>ans. then_do (set_tx (\<lambda>tx. tx\<lparr> tx_Probe := p ans \<rparr>)) (create_credit r runNS late abv ans))) (in_create m tgt G)"
    for p abv
    by (rule tri_bind [OF tri_probe [OF assms]], rule tri_bind [OF tri_on_note_tx]) (auto intro: tri_create_credit [OF assms])
  have hold: "tri r ag0 runNS st0 (on ?x (with_intact r ag0 runNS tgt G)) (gret (CreateBreak b)) (in_create m tgt G)" for b
    by (rule tri_ret) (auto simp: in_create_def at_some_def on_def)
  show ?thesis
    unfolding create_probe_def
    by (rule tri_bind [OF tri_read_above [OF kI]]) (intro tri_with_any tri_if hold credit)
qed

lemma tri_create_verify:
  assumes "kept G" and "\<And>h. G h \<Longrightarrow> target_ok r ag0 runNS t h" and "at_Mode t = tgt"
    and "stage \<in> {StageConverging, StageProbingAfter}"
  shows "tri r ag0 runNS st0 (on (m, Some (TxCreate, tgt, stage)) G) (create_verify r runNS (own_route ag0) t late stage) (in_create m tgt G)"
proof -
  let ?x = "(m, Some (TxCreate, tgt, stage))" and ?I = "with_intact r ag0 runNS tgt G"
  note kI = kept_with_intact [OF assms(1)]
  have weaken: "in_create m tgt ?I st h s \<Longrightarrow> in_create m tgt G st h s" for st h s
    by (auto simp: in_create_def elim: at_some_mono split: create_step.splits)
  have moves: "(StageProbingAfter, StageConverging) \<in> create_moves" "(stage, StageApplyingPolicies) \<in> create_moves"
    "stage = StageConverging \<Longrightarrow> (stage, StageProbingAfter) \<in> create_moves"
    using assms(4) by (auto simp: create_moves_def)
  have again: "tri r ag0 runNS st0 (on ?x (\<lambda>h. G h \<and> P h)) (to_stage StageApplyingPolicies CreateAgain) (in_create m tgt G)" for P
    by (rule tri_pre [OF tri_create_move [OF assms(1) moves(2)]]) (simp add: on_def)
  have verified: "tri r ag0 runNS st0 (on ?x ?I) (if stage = StageConverging
      then gbind (converged r rt policy) (\<lambda>why. case why of Some w \<Rightarrow> break_create w 0 | None \<Rightarrow> to_stage StageProbingAfter CreateAgain)
      else create_probe r runNS late) (in_create m tgt G)" for rt policy
  proof (rule tri_if)
    assume conv: "stage = StageConverging"
    show "tri r ag0 runNS st0 (on ?x ?I) (gbind (converged r rt policy)
        (\<lambda>why. case why of Some w \<Rightarrow> break_create w 0 | None \<Rightarrow> to_stage StageProbingAfter CreateAgain)) (in_create m tgt G)"
      by (rule tri_bind [OF tri_converged])
        (auto split: option.split intro!: tri_conseq [OF tri_create_break] tri_post [OF tri_create_move [OF kI moves(3) [OF conv]]] weaken simp: at_some_def)
  next
    assume "stage \<noteq> StageConverging"
    then have "stage = StageProbingAfter" using assms(4) by simp
    then show "tri r ag0 runNS st0 (on ?x ?I) (create_probe r runNS late) (in_create m tgt G)"
      using tri_create_probe [OF assms(1)] by simp
  qed
  have nacked: "tri r ag0 runNS st0 (on ?x ?I) (gbind (note_nack r runNS policy stage) (\<lambda>n. if n \<noteq> [] then break_create n d else
      if stage = StageConverging
      then gbind (converged r rt policy) (\<lambda>why. case why of Some w \<Rightarrow> break_create w 0 | None \<Rightarrow> to_stage StageProbingAfter CreateAgain)
      else create_probe r runNS late)) (in_create m tgt G)" for rt policy d
    by (rule tri_bind [OF tri_note_nack [OF kI assms(4) auth_machine.create_move [OF moves(1)]]], rule tri_if,
        rule tri_conseq [OF tri_create_break], simp, rule weaken, assumption, rule tri_pre [OF verified], simp)
  show ?thesis
    unfolding create_verify_def
    by (rule tri_bind [OF tri_on(1) [OF assms(1)]], unfold split_beta, rule tri_bind [OF tri_on_intact [OF assms(1) assms(2) assms(3)]],
        assumption, rule tri_if, rule again, rule tri_pre [OF nacked]) (simp add: on_def)
qed

text \<open>Publishing: the record is served as its target says.\<close>

lemma servedRecord_abs: "at_Mode t \<in> {AuthModeNone, AuthModeAPIKey} \<Longrightarrow> abs_auth (Some (servedRecord ag runNS t)) = (at_Mode t, None)"
  by (auto simp: servedRecord_def abs_auth_def new_auth_def)

lemma tri_recordServed:
  assumes "kept G" and "\<And>h. G h \<Longrightarrow> auth_machine (refused r ag0 runNS h) x (at_Mode t, None)" and "at_Mode t \<in> {AuthModeNone, AuthModeAPIKey}"
  shows "tri r ag0 runNS st0 (on x G) (recordServed runNS t) (\<lambda>_. on (at_Mode t, None) G)"
proof -
  have "tri r ag0 runNS st0 (on x G) (set_auth (Some (servedRecord ag runNS t))) (\<lambda>_. on (at_Mode t, None) G)" for ag
    using tri_on_set_auth [of G r ag0 runNS x "Some (servedRecord ag runNS t)" st0] servedRecord_abs [OF assms(3)] assms(2) by simp
  note set_auth = this
  show ?thesis
    unfolding recordServed_def Let_def
    by (rule tri_with_any, rule tri_bind [OF set_auth], rule tri_bind [OF tri_on(4) [OF assms(1)]], rule tri_on(6) [OF assms(1)])
qed

lemma tri_publish_route:
  assumes "kept G" and "at_Mode t = tgt" and "tgt \<in> {AuthModeNone, AuthModeAPIKey}"
  shows "tri r ag0 runNS st0 (on (m, Some (TxCreate, tgt, StagePublishing)) G) (publish_route r runNS (own_route ag0) t) (in_create m tgt G)"
proof -
  let ?x = "(m, Some (TxCreate, tgt, StagePublishing))"
  note on = tri_on [OF assms(1)]
  have redo: "tri r ag0 runNS st0 (on ?x G) (to_stage StagePreparingRoute CreateAgain) (in_create m tgt G)"
    by (rule tri_create_move [OF assms(1)]) (simp add: create_moves_def)
  have mode: "at_Mode t \<in> {AuthModeNone, AuthModeAPIKey}" using assms(2,3) by simp
  have served: "tri r ag0 runNS st0 (on ?x G) (then_do (recordServed runNS t) (gret CreateServed)) (in_create m tgt G)"
    by (rule tri_bind [OF tri_recordServed [OF assms(1) _ mode]], simp add: assms(2) auth_machine.publish)
      (rule tri_ret, simp add: in_create_def)
  have got: "tri r ag0 runNS st0 (on ?x G) (case routeConverged rt gw of Some why \<Rightarrow> gret (CreateBreak (f why))
      | None \<Rightarrow> then_do (recordServed runNS t) (gret CreateServed)) (in_create m tgt G)" for rt gw f
    by (cases "routeConverged rt gw") (simp_all add: served tri_ret)
  have "tri r ag0 runNS st0 (on ?x G) (case res of None \<Rightarrow> to_stage StagePreparingRoute CreateAgain
     | Some (rt, b) \<Rightarrow> then_do (collect_routes runNS (own_route ag0)) (case routeConverged rt gw of Some why \<Rightarrow> gret (CreateBreak (f why))
      | None \<Rightarrow> then_do (recordServed runNS t) (gret CreateServed))) (in_create m tgt G)" for res :: "(HTTPRoute \<times> bool) option" and gw f
    by (cases res) (auto simp: redo intro: tri_bind [OF on(2) got])
  note published = this
  show ?thesis
    unfolding publish_route_def
    by (rule tri_bind [OF on(3)], rule tri_if, rule redo, rule tri_bind [OF tri_on_catch_gone [OF assms(1)]], rule published)
qed

lemma tri_create_publish:
  assumes "kept G" and "\<And>h. G h \<Longrightarrow> target_ok r ag0 runNS t h" and "at_Mode t = tgt" and "tgt \<in> {AuthModeNone, AuthModeAPIKey}"
  shows "tri r ag0 runNS st0 (on (m, Some (TxCreate, tgt, StagePublishing)) G) (create_publish r runNS (own_route ag0) t) (in_create m tgt G)"
proof -
  let ?x = "(m, Some (TxCreate, tgt, StagePublishing))"
  note on = tri_on [OF assms(1)]
  have intact: "tri r ag0 runNS st0 (on ?x G) (if b then gbind (policy_intact runNS t) (\<lambda>(p, intact). gret intact) else gret True) (\<lambda>_. on ?x G)" for b
    by (rule tri_if, rule tri_bind [OF tri_on_intact [OF assms(1) assms(2) assms(3)]], assumption, unfold split_beta)
      (auto intro!: tri_ret simp: on_def)
  have foreign: "tri r ag0 runNS st0 (on ?x G) (create_foreign runNS (own_route ag0)) (in_create m tgt G)"
    unfolding create_foreign_def Let_def by (rule tri_bind [OF on(3)], rule tri_with_any, rule tri_ret) simp
  have break: "tri r ag0 runNS st0 (on ?x G) (break_create u d) (in_create m tgt G)" for u d
    by (rule tri_pre [OF tri_create_break]) (auto simp: at_some_def)
  have redo: "tri r ag0 runNS st0 (on ?x G) (to_stage StagePreparingRoute CreateAgain) (in_create m tgt G)"
    by (rule tri_create_move [OF assms(1)]) (simp add: create_moves_def)
  show ?thesis
    unfolding create_publish_def
    by (rule tri_bind [OF intact], rule tri_if, rule redo, rule tri_with_any) (intro tri_if break foreign tri_publish_route [OF assms(1,3,4)])
qed

lemma tri_create_stage:
  assumes "kept G" and "\<And>h. G h \<Longrightarrow> target_ok r ag0 runNS t h" and "at_Mode t = tgt" and "tgt \<in> {AuthModeNone, AuthModeAPIKey}"
  shows "tri r ag0 runNS st0 (at_some m TxCreate tgt G) (create_stage r runNS (own_route ag0) t late) (in_create m tgt G)"
proof (rule tri_at_some)
  fix stage
  show "tri r ag0 runNS st0 (on (m, Some (TxCreate, tgt, stage)) G) (create_stage r runNS (own_route ag0) t late) (in_create m tgt G)"
    unfolding create_stage_def Let_def
  proof (rule tri_on_tx)
    fix auth tx
    assume st: "tx_Stage tx = stage"
    show "tri r ag0 runNS st0 (on (m, Some (TxCreate, tgt, stage)) G)
       (if tx_Stage tx = StagePreparingRoute then create_prepare r runNS (own_route ag0)
        else if tx_Stage tx = StageApplyingPolicies then create_apply r runNS t
        else if tx_Stage tx = StageConverging \<or> tx_Stage tx = StageProbingAfter then create_verify r runNS (own_route ag0) t late (tx_Stage tx)
        else if tx_Stage tx = StagePublishing then create_publish r runNS (own_route ag0) t
        else gfail (PlainError (msgf ''status.auth.transaction is a Create in a stage this operator does not know'' [tx_Stage tx]))) (in_create m tgt G)"
      unfolding st using assms
      by (intro tri_if tri_fail) (simp_all add: tri_create_prepare tri_create_apply tri_create_verify tri_create_publish)
  qed
qed

lemma tri_create_loop:
  assumes "tri r ag0 runNS st0 (at_some m TxCreate tgt G) body (in_create m tgt G)"
  shows "tri r ag0 runNS st0 (at_some m TxCreate tgt G) (create_loop n body) (in_create m tgt G)"
proof (induction n)
  case (Suc n)
  have "tri r ag0 runNS st0 (in_create m tgt G st) (case st of CreateAgain \<Rightarrow> create_loop n body | _ \<Rightarrow> gret st) (in_create m tgt G)" for st
    by (cases st) (auto intro!: tri_ret intro: tri_pre [OF Suc.IH] simp: in_create_def)
  then show ?case by (auto intro: tri_bind [OF assms])
qed (auto intro: tri_create_break)

lemma tri_conds: "stable (\<lambda>h s. True)" "tri r ag0 runNS st0 yes (set_conds f) (\<lambda>_. yes)" "tri r ag0 runNS st0 yes (set_out g) (\<lambda>_. yes)"
  "tri r ag0 runNS st0 yes (governance gv) (\<lambda>_. yes)"
  using tri_set_conds [of r ag0 runNS st0 "\<lambda>_ _ _. True"] tri_set_out [of r ag0 runNS st0 "\<lambda>_ _ _. True"] by (simp_all add: governance_def)

lemma tri_any: "tri r ag0 runNS st0 yes m B \<Longrightarrow> tri r ag0 runNS st0 A m B"
  by (erule tri_pre) simp

lemma tri_create_finish: "tri r ag0 runNS st0 A (create_finish runNS t at late b) (\<lambda>_. yes)"
proof -
  have report: "tri r ag0 runNS st0 yes (create_report tx late b u) (\<lambda>_. yes)" for tx u
    unfolding create_report_def Let_def by (intro tri_with_any tri_if tri_ret tri_bind [OF tri_conds(2)] tri_conds) simp
  have "tri r ag0 runNS st0 yes (case d of Inl e \<Rightarrow> gfail e | Inr d \<Rightarrow> then_do (set_out (f d)) (then_do (create_report tx late b u) (gwith (\<lambda>s. governance (g s))))) (\<lambda>_. yes)"
    for d :: "go_error + duration" and f g tx u
  proof (cases d)
    case (Inr z)
    show ?thesis unfolding Inr sum.case by (rule tri_bind [OF tri_conds(3)], rule tri_bind [OF report], rule tri_with_any, rule tri_conds(4))
  qed (simp add: tri_fail)
  note fin = this
  show ?thesis
    unfolding create_finish_def Let_def by (rule tri_with_tx, rule tri_with_any, rule tri_any, rule fin)
qed

lemma createTarget_mode: "createTarget r ag runNS tx = Inr t \<Longrightarrow> at_Mode t \<in> {AuthModeNone, AuthModeAPIKey}"
  by (auto simp: createTarget_def Let_def split: if_splits sum.splits)

text \<open>The Agent at hand is the pass's own: the target of the recorded transaction is its policy.\<close>

lemma tri_with_agent:
  assumes "\<And>s0. tri r ag0 runNS st0 (\<lambda>h s. A h s \<and> agent_at ag0 h (gs_agent s0)) (f s0) C"
  shows "tri r ag0 runNS st0 A (gwith f) C"
  using assms holds_agent unfolding tri_def gwith_def by blast

lemma tri_runCreate: "tri r ag0 runNS st0 (at_some m TxCreate tgt (\<lambda>_. True)) (runCreate r runNS (own_route ag0)) (\<lambda>_. yes)"
proof (rule tri_at_some)
  fix stage
  let ?on = "on (m, Some (TxCreate, tgt, stage))"
  have fin: "tri r ag0 runNS st0 (in_create m tgt G st) (case st of CreateBreak b \<Rightarrow> create_finish runNS t at late b | _ \<Rightarrow> gret ()) (\<lambda>_. yes)" for G st t at late
    by (cases st) (auto intro: tri_ret tri_create_finish)
  have run: "tri r ag0 runNS st0 (\<lambda>h s. ?on (\<lambda>_. True) h s \<and> agent_at ag0 h ag) (case createTarget r ag runNS tx of
       Inl e \<Rightarrow> gfail e
     | Inr target \<Rightarrow> gbind (gask clockNow) (\<lambda>at. gbind (create_loop 12 (create_stage r runNS (own_route ag0) target (late at))) (\<lambda>st. case st of
            CreateBreak b \<Rightarrow> create_finish runNS target at (late at) b | _ \<Rightarrow> gret ()))) (\<lambda>_. yes)"
    if "tx_TargetMode tx = tgt" for ag tx late
  proof (cases "createTarget r ag runNS tx")
    case (Inr t)
    note ok = createTarget_ok [OF Inr] createTarget_mode [OF Inr]
    let ?G = "target_ok r ag0 runNS t"
    have mode: "at_Mode t = tgt" if "agent_at ag0 h ag" for h using ok(1) [OF that] \<open>tx_TargetMode tx = tgt\<close> by simp
    have "tri r ag0 runNS st0 (?on ?G) (gbind (gask clockNow) (\<lambda>at. gbind (create_loop 12 (create_stage r runNS (own_route ag0) t (late at))) (\<lambda>st. case st of
            CreateBreak b \<Rightarrow> create_finish runNS t at (late at) b | _ \<Rightarrow> gret ()))) (\<lambda>_. yes)" if m: "at_Mode t = tgt"
      by (rule tri_bind [OF tri_on(8) [OF kept_target silent_intros(2)]], rule tri_bind [OF tri_pre [OF tri_create_loop [OF tri_create_stage]] fin])
        (use m ok(2) in \<open>auto simp: at_some_def\<close>)
    then show ?thesis
      unfolding Inr sum.case using ok(1) mode
      by (auto simp: tri_def on_def)
  qed (simp add: tri_fail)
  show "tri r ag0 runNS st0 (?on (\<lambda>_. True)) (runCreate r runNS (own_route ag0)) (\<lambda>_. yes)"
    unfolding runCreate_def Let_def by (rule tri_on_tx, rule tri_with_agent, rule run)
qed

section \<open>Re-creating the route\<close>

lemma tri_enter_tx:
  assumes "kept G" and "\<And>a d. tx_Kind (f a d) = knd \<and> tx_TargetMode (f a d) = tgt a \<and> tx_Stage (f a d) = stage"
    and "\<And>a h. au_Mode a = m \<Longrightarrow> auth_machine (refused r ag0 runNS h) (m, t) (m, Some (knd, tgt a, stage))"
    and "\<And>a. au_Mode a = m \<Longrightarrow> tgt a = tgt'" and "m \<noteq> []"
  shows "tri r ag0 runNS st0 (on (m, t) G) (enter_tx r f) (\<lambda>_. on (m, Some (knd, tgt', stage)) G)"
proof -
  have set: "tri r ag0 runNS st0 (on (m, t) G) (then_do (set_auth (Some (a\<lparr> au_Transaction := Some (f a d) \<rparr>))) persistStatus) (\<lambda>_. on (m, Some (knd, tgt', stage)) G)"
    if "au_Mode a = m" for a d
  proof (rule tri_bind [where B = "\<lambda>_. on (m, Some (knd, tgt', stage)) G"])
    have "abs_auth (Some (a\<lparr> au_Transaction := Some (f a d) \<rparr>)) = (m, Some (knd, tgt', stage))"
      using that assms(2,4) by (simp add: abs_auth_def)
    then show "tri r ag0 runNS st0 (on (m, t) G) (set_auth (Some (a\<lparr> au_Transaction := Some (f a d) \<rparr>))) (\<lambda>_. on (m, Some (knd, tgt', stage)) G)"
      using tri_on_set_auth [of G r ag0 runNS "(m, t)" "Some (a\<lparr> au_Transaction := Some (f a d) \<rparr>)" st0] assms(3) [OF that] assms(4) [OF that] by simp
  qed (rule tri_on(4) [OF assms(1)])
  have "tri r ag0 runNS st0 (\<lambda>h s. on (m, t) G h s \<and> s = s0) (case st_Auth (gs_status s0) of
        None \<Rightarrow> gfail nil_deref
      | Some a \<Rightarrow> gbind (gask clockNow) (\<lambda>at. then_do (set_auth (Some (a\<lparr> au_Transaction := Some (f a (deadline_at r at)) \<rparr>))) persistStatus))
      (\<lambda>_. on (m, Some (knd, tgt', stage)) G)" for s0
  proof (cases "st_Auth (gs_status s0)")
    case (Some a)
    show ?thesis
    proof (cases "au_Mode a = m")
      case True
      show ?thesis
        unfolding Some option.case
        by (rule tri_pre [OF tri_bind [OF tri_on(8) [OF assms(1) silent_intros(2)] set [OF True]]]) simp
    qed (use Some in \<open>auto simp: tri_def on_def abs_auth_def\<close>)
  qed (simp add: tri_fail)
  then show ?thesis
    unfolding enter_tx_def by (rule tri_with)
qed

lemma tri_recreateRoute:
  assumes "kept G" and "m \<noteq> []" and "t = None \<or> (\<exists>stage. t = Some (TxLock, m, stage))"
  shows "tri r ag0 runNS st0 (on (m, t) G) (recreateRoute r runNS (own_route ag0)) (\<lambda>_. yes)"
proof -
  have step: "auth_machine e (m, t) (m, Some (TxCreate, m, StagePreparingRoute))" for e
    using assms(2,3) by (auto intro: auth_machine.recreate auth_machine.recreate_locked)
  show ?thesis
    unfolding recreateRoute_def
    by (rule tri_bind [OF tri_enter_tx [OF assms(1), where knd = TxCreate and tgt = au_Mode and stage = StagePreparingRoute and tgt' = m]])
      (use assms(2) step in \<open>auto simp: new_tx_def at_some_def on_def intro: tri_pre [OF tri_runCreate [of _ _ _ _ m m]]\<close>)
qed

section \<open>Lock\<close>

definition in_lock :: "string \<Rightarrow> string \<Rightarrow> (exchange list \<Rightarrow> bool) \<Rightarrow> lock_step \<Rightarrow> exchange list \<Rightarrow> gstate \<Rightarrow> bool" where
  "in_lock m tgt G st h s \<longleftrightarrow> (case st of LockDone \<Rightarrow> True | _ \<Rightarrow> at_some m TxLock tgt G h s)"

lemma in_lock_simps [simp]:
  "on (m, Some (TxLock, tgt, stage)) G h s \<Longrightarrow> in_lock m tgt G st h s" "at_some m TxLock tgt G h s \<Longrightarrow> in_lock m tgt G st h s"
  "in_lock m tgt G LockDone h s"
  by (auto simp: in_lock_def at_some_def split: lock_step.split)

lemma in_lock_mono: "in_lock m tgt G st h s \<Longrightarrow> (\<And>h. G h \<Longrightarrow> G' h) \<Longrightarrow> in_lock m tgt G' st h s"
  by (auto simp: in_lock_def elim: at_some_mono split: lock_step.splits)

lemma tri_lock_move:
  assumes "kept G" and "(stage, stage') \<in> lock_moves"
  shows "tri r ag0 runNS st0 (on (m, Some (TxLock, tgt, stage)) G) (to_stage stage' y) (in_lock m tgt G)"
  using assms by (auto intro!: tri_post [OF tri_to_stage] auth_machine.lock_move)

lemma tri_lock_break: "tri r ag0 runNS st0 (at_some m TxLock tgt G) (break_lock rt u d) (in_lock m tgt G)"
  unfolding break_lock_def by (rule tri_ret) simp

lemma tri_lock_probe_before:
  assumes "kept G"
  shows "tri r ag0 runNS st0 (on (m, Some (TxLock, tgt, StageProbingBefore)) G) (lock_probe_before r rt) (in_lock m tgt G)"
  unfolding lock_probe_before_def Let_def probe_def
  by (rule tri_bind, rule tri_with_any, rule tri_on(8) [OF assms silent_parts(3)], rule tri_with_any, rule tri_bind [OF tri_on_note_tx])
    (simp_all add: tri_lock_move assms lock_moves_def)

lemma tri_lock_apply:
  assumes "kept G" and "\<And>h. G h \<Longrightarrow> target_ok r ag0 runNS t h"
  shows "tri r ag0 runNS st0 (on (m, Some (TxLock, tgt, StageApplyingPolicies)) G) (lock_apply r runNS rt t) (in_lock m tgt G)"
proof -
  have "tri r ag0 runNS st0 (on (m, Some (TxLock, tgt, StageApplyingPolicies)) G) (then_do (apply_policy t) (to_stage StageConverging LockAgain)) (in_lock m tgt G)"
    by (rule tri_bind [OF tri_on_apply [OF assms]]) (simp_all add: tri_lock_move assms lock_moves_def)
  then show ?thesis
    unfolding lock_apply_def by (intro tri_with_any tri_if tri_pre [OF tri_lock_break]) (auto simp: at_some_def)
qed

lemma tri_lockServed:
  assumes "kept G" and "\<And>h. G h \<Longrightarrow> auth_machine (refused r ag0 runNS h) x (at_Mode t, None)" and "at_Mode t \<in> {AuthModeNone, AuthModeAPIKey}"
  shows "tri r ag0 runNS st0 (on x G) (lockServed r runNS (own_route ag0) t reCreate observed before when1) (\<lambda>_. yes)"
proof -
  have say: "tri r ag0 runNS st0 yes (gwith (\<lambda>s. case st_Auth (gs_status s) of None \<Rightarrow> gfail nil_deref
      | Some auth \<Rightarrow> (case governanceFor auth of (st, reason, msg) \<Rightarrow> governance (st, reason, msg @ z)))) (\<lambda>_. yes)" for z
    by (rule tri_with_any) (auto split: option.split prod.split intro: tri_fail tri_conds)
  have serve: "tri r ag0 runNS st0 yes (if reCreate then gret () else gbind (serve_route r runNS (own_route ag0)) (\<lambda>_. gret ())) (\<lambda>_. yes)"
    by (rule tri_if, rule tri_ret, simp, rule tri_bind [OF tri_serve_route [OF stable_basic(1)]], rule tri_ret, simp)
  show ?thesis
    unfolding lockServed_def by (rule tri_bind [OF tri_recordServed [OF assms]], assumption, rule tri_any, rule tri_bind [OF serve say])
qed

text \<open>A 401 locks the Agent only with the evidence.\<close>

lemma tri_lock_credit:
  assumes "kept G" and "at_Mode t = tgt" and "tgt \<in> {AuthModeNone, AuthModeAPIKey}"
  shows "tri r ag0 runNS st0
    (on (m, Some (TxLock, tgt, StageProbingAfter)) (\<lambda>h. G h \<and> (tgt = AuthModeAPIKey \<and> answer_code ans = Some 401 \<longrightarrow> hit r ag0 runNS h)))
    (lock_credit r runNS (own_route ag0) t late reCreate abv rt repointed ans) (in_lock m tgt G)"
proof -
  let ?x = "(m, Some (TxLock, tgt, StageProbingAfter))"
  let ?key = "tgt = AuthModeAPIKey" and ?got = "answer_code ans = Some 401"
  let ?H = "\<lambda>h. G h \<and> (?key \<and> ?got \<longrightarrow> hit r ag0 runNS h)"
  have kG: "kept (\<lambda>h. G h \<and> (b \<longrightarrow> refused r ag0 runNS h))" for b by (intro kept_conj assms kept_imp) simp
  have read: "tri r ag0 runNS st0 (on ?x ?H) (if creditable then recheck_above r runNS abv else gret (abv, above_stands abv))
     (\<lambda>res. on ?x (\<lambda>h. G h \<and> (?key \<and> creditable \<and> \<not> snd res \<longrightarrow> refused r ag0 runNS h)))" if "creditable \<Longrightarrow> ?got" for creditable
  proof (rule tri_if)
    assume "creditable"
    with that show "tri r ag0 runNS st0 (on ?x ?H) (recheck_above r runNS abv)
       (\<lambda>res. on ?x (\<lambda>h. G h \<and> (?key \<and> creditable \<and> \<not> snd res \<longrightarrow> refused r ag0 runNS h)))"
      using tri_recheck [OF assms(1), of r ag0 runNS st0 ?x ?key abv] by simp
  qed (auto intro!: tri_ret simp: on_def)
  have credit: "tri r ag0 runNS st0 (on ?x (\<lambda>h. G h \<and> (?key \<and> creditable \<and> \<not> held \<longrightarrow> refused r ag0 runNS h)))
     (then_do (lockServed r runNS (own_route ag0) t reCreate ob before when1) (gret LockDone)) (in_lock m tgt G)" if "creditable \<and> \<not> held" for creditable held ob before when1
    by (rule tri_bind [OF tri_lockServed [OF kG]]) (use that assms(2,3) in \<open>auto intro: auth_machine.locked tri_ret\<close>)
  have wait: "tri r ag0 runNS st0 (on ?x (\<lambda>h. G h \<and> (b \<longrightarrow> refused r ag0 runNS h))) (then_do persistStatus (gwith (\<lambda>s. gret (LockBreak (f s))))) (in_lock m tgt G)" for b f
    by (rule tri_bind [OF tri_on(4) [OF kG] tri_with_any]) (auto intro!: tri_ret simp: in_lock_def at_some_def on_def)
  show ?thesis
    unfolding lock_credit_def Let_def
    by (rule tri_on_tx, rule tri_with_any, rule tri_bind [OF read], simp, unfold split_beta, rule tri_if, rule credit, simp, rule wait)
qed

lemma tri_lock_probe_after:
  assumes "kept G" and "at_Mode t = tgt" and "tgt \<in> {AuthModeNone, AuthModeAPIKey}"
  shows "tri r ag0 runNS st0 (on (m, Some (TxLock, tgt, StageProbingAfter)) (with_intact r ag0 runNS tgt G))
    (lock_probe_after r runNS (own_route ag0) t late reCreate abv rt repointed) (in_lock m tgt G)"
proof (cases "routeConverged rt (ac_Gateway r)")
  case None
  show ?thesis
    unfolding lock_probe_after_def None option.case
    by (rule tri_bind [OF tri_probe [OF assms(1)]], rule tri_bind [OF tri_on_note_tx]) (auto intro: tri_lock_credit [OF assms])
qed (auto simp: lock_probe_after_def Let_def in_lock_def at_some_def on_def intro!: tri_with_any tri_ret)

lemma tri_lock_repoint:
  assumes "kept G" and "at_Mode t = tgt" and "tgt \<in> {AuthModeNone, AuthModeAPIKey}" and "reCreate \<Longrightarrow> m \<noteq> [] \<and> tgt = m"
  shows "tri r ag0 runNS st0 (on (m, Some (TxLock, tgt, StageProbingAfter)) (with_intact r ag0 runNS tgt G))
    (lock_repoint r runNS (own_route ag0) t late reCreate abv rt) (in_lock m tgt G)"
proof -
  let ?x = "(m, Some (TxLock, tgt, StageProbingAfter))" and ?I = "with_intact r ag0 runNS tgt G"
  note kI = kept_with_intact [OF assms(1)]
  have "tri r ag0 runNS st0 (on ?x ?I) (then_do (recreateRoute r runNS (own_route ag0)) (gret LockDone)) (in_lock m tgt G)" if reCreate
    by (rule tri_bind [OF tri_recreateRoute [OF kI]]) (use assms(4) [OF that] in \<open>auto intro: tri_ret\<close>)
  moreover have "tri r ag0 runNS st0 (on ?x ?I) (then_do (collect_routes runNS (own_route ag0)) (lock_probe_after r runNS (own_route ag0) t late reCreate abv cur True)) (in_lock m tgt G)" for cur
    by (rule tri_bind [OF tri_on(2) [OF kI] tri_lock_probe_after [OF assms(1,2,3)]])
  ultimately have got: "tri r ag0 runNS st0 (on ?x ?I) (case got of None \<Rightarrow> then_do (recreateRoute r runNS (own_route ag0)) (gret LockDone)
      | Some (cur, b) \<Rightarrow> then_do (collect_routes runNS (own_route ag0)) (lock_probe_after r runNS (own_route ag0) t late reCreate abv cur True)) (in_lock m tgt G)"
    if reCreate for got :: "(HTTPRoute \<times> bool) option"
    using that by (cases got) auto
  show ?thesis
    unfolding lock_repoint_def
    by (rule tri_with_any, rule tri_if, rule tri_bind [OF tri_on_catch_gone [OF kI]], rule got, simp, rule tri_lock_probe_after [OF assms(1,2,3)])
qed

lemma tri_lock_verify:
  assumes "kept G" and "\<And>h. G h \<Longrightarrow> target_ok r ag0 runNS t h" and "at_Mode t = tgt" and "tgt \<in> {AuthModeNone, AuthModeAPIKey}"
    and "reCreate \<Longrightarrow> m \<noteq> [] \<and> tgt = m" and "stage \<in> {StageConverging, StageProbingAfter}"
  shows "tri r ag0 runNS st0 (on (m, Some (TxLock, tgt, stage)) G) (lock_verify r runNS (own_route ag0) t late reCreate rt stage) (in_lock m tgt G)"
proof -
  let ?x = "(m, Some (TxLock, tgt, stage))" and ?I = "with_intact r ag0 runNS tgt G"
  note kI = kept_with_intact [OF assms(1)]
  have moves: "(StageProbingAfter, StageConverging) \<in> lock_moves" "(stage, StageApplyingPolicies) \<in> lock_moves"
    "stage = StageConverging \<Longrightarrow> (stage, StageProbingAfter) \<in> lock_moves"
    using assms(6) by (auto simp: lock_moves_def)
  have again: "tri r ag0 runNS st0 (on ?x (\<lambda>h. G h \<and> P h)) (to_stage StageApplyingPolicies LockAgain) (in_lock m tgt G)" for P
    by (rule tri_pre [OF tri_lock_move [OF assms(1) moves(2)]]) (simp add: on_def)
  let ?converge = "\<lambda>policy. gbind (converged r rt policy) (\<lambda>why. case why of Some w \<Rightarrow> break_lock rt w 0 | None \<Rightarrow> to_stage StageProbingAfter LockAgain)"
  let ?look = "gbind (read_above r runNS) (\<lambda>abv. gwith (\<lambda>s.
           if gw_foreign (gs_out s) \<noteq> []
           then gret (LockBreak \<lparr> lb_unmet = foreign_unmet r runNS abv s, lb_requeue = 5 * second, lb_rt = rt,
                  lb_repointed = False, lb_held = above_stands abv \<rparr>)
           else lock_repoint r runNS (own_route ag0) t late reCreate abv rt))"
  have converge: "tri r ag0 runNS st0 (on ?x ?I) (?converge policy) (in_lock m tgt G)" if conv: "stage = StageConverging" for policy
    by (rule tri_bind [OF tri_converged])
      (auto split: option.split intro!: tri_conseq [OF tri_lock_break] tri_post [OF tri_lock_move [OF kI moves(3) [OF conv]]]
        elim: in_lock_mono simp: at_some_def)
  have look: "tri r ag0 runNS st0 (on ?x ?I) ?look (in_lock m tgt G)" if "stage = StageProbingAfter"
    unfolding that
    by (rule tri_bind [OF tri_read_above [OF kI]], rule tri_with_any, rule tri_if, rule tri_ret)
      (auto simp: in_lock_def at_some_def on_def intro: tri_lock_repoint [OF assms(1,3,4,5)])
  have verified: "tri r ag0 runNS st0 (on ?x ?I) (if stage = StageConverging then ?converge policy else ?look) (in_lock m tgt G)" for policy
    by (rule tri_if, rule converge, assumption, rule look) (use assms(6) in auto)
  have nacked: "tri r ag0 runNS st0 (on ?x ?I) (gbind (note_nack r runNS policy stage) (\<lambda>n. if n \<noteq> [] then break_lock rt n d else
      if stage = StageConverging then ?converge policy else ?look)) (in_lock m tgt G)" for policy d
    by (rule tri_bind [OF tri_note_nack [OF kI assms(6) auth_machine.lock_move [OF moves(1)]]], rule tri_if,
        rule tri_conseq [OF tri_lock_break], simp, erule in_lock_mono, simp, rule tri_pre [OF verified], simp)
  show ?thesis
    unfolding lock_verify_def
    by (rule tri_bind [OF tri_on_intact [OF assms(1) assms(2) assms(3)]], assumption, unfold split_beta, rule tri_if, rule again,
        rule tri_pre [OF nacked]) (simp add: on_def)
qed

lemma tri_lock_stage:
  assumes "kept G" and "\<And>h. G h \<Longrightarrow> target_ok r ag0 runNS t h" and "at_Mode t = tgt" and "tgt \<in> {AuthModeNone, AuthModeAPIKey}"
    and "reCreate \<Longrightarrow> m \<noteq> [] \<and> tgt = m"
  shows "tri r ag0 runNS st0 (at_some m TxLock tgt G) (lock_stage r runNS (own_route ag0) t late reCreate rt) (in_lock m tgt G)"
proof (rule tri_at_some)
  fix stage
  show "tri r ag0 runNS st0 (on (m, Some (TxLock, tgt, stage)) G) (lock_stage r runNS (own_route ag0) t late reCreate rt) (in_lock m tgt G)"
    unfolding lock_stage_def Let_def
  proof (rule tri_on_tx)
    fix auth tx
    assume st: "tx_Stage tx = stage"
    show "tri r ag0 runNS st0 (on (m, Some (TxLock, tgt, stage)) G)
       (if tx_Stage tx = StageProbingBefore then lock_probe_before r rt
        else if tx_Stage tx = StageApplyingPolicies then lock_apply r runNS rt t
        else if tx_Stage tx = StageConverging \<or> tx_Stage tx = StageProbingAfter then lock_verify r runNS (own_route ag0) t late reCreate rt (tx_Stage tx)
        else gfail (PlainError (msgf ''status.auth.transaction is a Lock in a stage this operator does not know'' [tx_Stage tx]))) (in_lock m tgt G)"
      unfolding st using assms
      by (intro tri_if tri_fail) (simp_all add: tri_lock_probe_before tri_lock_apply tri_lock_verify)
  qed
qed

lemma tri_lock_loop:
  assumes "tri r ag0 runNS st0 (at_some m TxLock tgt G) body (in_lock m tgt G)"
  shows "tri r ag0 runNS st0 (at_some m TxLock tgt G) (lock_loop n rt body) (in_lock m tgt G)"
proof (induction n)
  case (Suc n)
  have "tri r ag0 runNS st0 (in_lock m tgt G st) (case st of LockAgain \<Rightarrow> lock_loop n rt body | _ \<Rightarrow> gret st) (in_lock m tgt G)" for st
    by (cases st) (auto intro!: tri_ret intro: tri_pre [OF Suc.IH] simp: in_lock_def)
  then show ?case by (auto intro: tri_bind [OF assms])
qed (auto intro: tri_lock_break)

lemma tri_lock_finish: "tri r ag0 runNS st0 A (lock_finish r runNS reCreate k2 at late b) (\<lambda>_. yes)"
proof -
  have report: "tri r ag0 runNS st0 yes (lock_report r runNS reCreate k2 tx late b u) (\<lambda>_. yes)" for tx u
    unfolding lock_report_def Let_def by (intro tri_with_any tri_if tri_ret tri_bind [OF tri_conds(2)] tri_conds) simp
  have fin: "tri r ag0 runNS st0 yes (case d of Inl e \<Rightarrow> gfail e | Inr d \<Rightarrow> then_do (set_out (f d)) (lock_report r runNS reCreate k2 tx late b u)) (\<lambda>_. yes)"
    for d :: "go_error + duration" and f tx u
  proof (cases d)
    case (Inr z)
    show ?thesis unfolding Inr sum.case by (rule tri_bind [OF tri_conds(3) report])
  qed (simp add: tri_fail)
  show ?thesis
    unfolding lock_finish_def by (rule tri_with_tx, rule tri_with_any, rule tri_any, rule fin)
qed

text \<open>The route a Lock works on: the record is where it was, unless the route is re-created.\<close>

lemma tri_lock_route:
  assumes "kept G" and "reCreate \<Longrightarrow> m \<noteq> [] \<and> tgt = m"
  shows "tri r ag0 runNS st0 (on (m, Some (TxLock, tgt, stage)) G) (lock_route r runNS (own_route ag0) reCreate tx)
     (\<lambda>res h s. res \<noteq> None \<longrightarrow> on (m, Some (TxLock, tgt, stage)) G h s)"
proof -
  let ?x = "(m, Some (TxLock, tgt, stage))"
  let ?B = "\<lambda>res h s. res \<noteq> None \<longrightarrow> on ?x G h s"
  note on = tri_on [OF assms(1)]
  have recreate: "tri r ag0 runNS st0 (on ?x G) (then_do (recreateRoute r runNS (own_route ag0)) (gret None)) ?B" if reCreate
    by (rule tri_bind [OF tri_recreateRoute [OF assms(1)]]) (use assms(2) [OF that] in \<open>auto intro: tri_ret\<close>)
  have found: "tri r ag0 runNS st0 (on ?x G) (case cur of None \<Rightarrow> gfail e
      | Some rt \<Rightarrow> then_do (set_out (f rt)) (gret (Some rt))) ?B" for cur e f
    by (cases cur) (auto intro: tri_fail tri_ret tri_bind [OF on(7)])
  have observed: "tri r ag0 runNS st0 (on ?x G) (if b then then_do (set_tx (\<lambda>tx. tx\<lparr> tx_BeforeObserved := False, tx_BeforeRevision := [] \<rparr>))
      (then_do persistStatus (gret (Some rt))) else gret (Some rt)) ?B" for b rt
    by (rule tri_if, rule tri_bind [OF tri_on_note_tx], simp_all, rule tri_bind [OF on(4)], rule tri_ret, simp, rule tri_ret, simp)
  show ?thesis
    unfolding lock_route_def Let_def
    by (rule tri_with_any, rule tri_if, rule tri_bind [OF on(3)], rule tri_if, rule recreate, assumption, rule found, rule tri_if, rule tri_fail,
        rule tri_bind [OF on(1)], unfold split_beta, rule tri_bind [OF on(2)], rule tri_bind [OF on(7)], rule observed)
qed

lemma tri_runLock: "tri r ag0 runNS st0 (at_some m TxLock tgt (\<lambda>_. True)) (runLock r runNS (own_route ag0)) (\<lambda>_. yes)"
proof (rule tri_at_some)
  fix stage
  let ?on = "on (m, Some (TxLock, tgt, stage))"
  have fin: "tri r ag0 runNS st0 (in_lock m tgt G st) (case st of LockBreak b \<Rightarrow> lock_finish r runNS reCreate k2 at late b | _ \<Rightarrow> gret ()) (\<lambda>_. yes)"
    for G st reCreate k2 at late
    by (cases st) (auto intro: tri_ret tri_lock_finish)
  let ?run = "\<lambda>target reCreate k2 tx late route. (case route of None \<Rightarrow> gret ()
       | Some rt \<Rightarrow> gbind (gask clockNow) (\<lambda>at. gbind (lock_loop 12 rt (lock_stage r runNS (own_route ag0) target (late at) reCreate rt)) (\<lambda>st. case st of
              LockBreak b \<Rightarrow> lock_finish r runNS reCreate k2 at (late at) b | _ \<Rightarrow> gret ())))"
  have run: "tri r ag0 runNS st0 (\<lambda>h s. ?on (\<lambda>_. True) h s \<and> agent_at ag0 h ag) (case lock_target r ag runNS tx of
       Inl e \<Rightarrow> gfail e
     | Inr target \<Rightarrow> gbind (lock_route r runNS (own_route ag0) reCreate tx) (?run target reCreate k2 tx late)) (\<lambda>_. yes)"
    if "tx_TargetMode tx = tgt" and reCreate: "reCreate \<Longrightarrow> m \<noteq> [] \<and> tgt = m" for ag tx late reCreate k2
  proof (cases "lock_target r ag runNS tx")
    case (Inr t)
    have ok: "target_ok r ag0 runNS t h \<and> at_Mode t = tgt" if "agent_at ag0 h ag" for h
      using lock_target_ok [OF Inr that] \<open>tx_TargetMode tx = tgt\<close> by simp
    have mode: "at_Mode t \<in> {AuthModeNone, AuthModeAPIKey}"
      using Inr createTarget_mode unfolding lock_target_def by (auto split: sum.splits go_error.splits)
    let ?G = "target_ok r ag0 runNS t"
    have go: "tri r ag0 runNS st0 (?on ?G) (gbind (lock_route r runNS (own_route ag0) reCreate tx) (?run t reCreate k2 tx late)) (\<lambda>_. yes)" if m: "at_Mode t = tgt"
    proof (rule tri_bind [OF tri_lock_route [OF kept_target reCreate]])
      fix route
      show "tri r ag0 runNS st0 (\<lambda>h s. route \<noteq> None \<longrightarrow> ?on ?G h s) (?run t reCreate k2 tx late route) (\<lambda>_. yes)"
      proof (cases route)
        case (Some rt)
        have stage: "tri r ag0 runNS st0 (at_some m TxLock tgt ?G) (lock_stage r runNS (own_route ag0) t late' reCreate rt) (in_lock m tgt ?G)" for late'
          by (rule tri_lock_stage [OF kept_target _ m _ reCreate]) (use m mode in auto)
        show ?thesis
          unfolding Some option.case
          by (rule tri_pre, rule tri_bind [OF tri_on(8) [OF kept_target silent_intros(2)]], rule tri_bind [OF tri_pre [OF tri_lock_loop [OF stage]] fin])
            (auto simp: at_some_def)
      qed (simp add: tri_ret)
    qed
    then show ?thesis
      unfolding Inr sum.case using ok by (auto simp: tri_def on_def)
  qed (simp add: tri_fail)
  show "tri r ag0 runNS st0 (?on (\<lambda>_. True)) (runLock r runNS (own_route ag0)) (\<lambda>_. yes)"
    unfolding runLock_def Let_def by (rule tri_on_tx, rule tri_with_agent, rule run) (auto simp: isReCreation_def)
qed

section \<open>Adopt\<close>

lemma tri_without_outcome:
  assumes "tri r ag0 runNS st0 A m B"
  shows "tri r ag0 runNS st0 A (without_outcome m) B"
proof -
  have out: "ends r ag0 runNS st0 B h (res, s\<lparr> gs_out := no_outcome \<rparr>)" if "ends r ag0 runNS st0 B h (res, s)" "isl res" for h res s
    using that by (auto simp: ends_def fell_def traced_def split: sum.splits)
  have "op_wp (may r ag0 runNS st0) (ends r ag0 runNS st0 B) h (without_outcome m s)" if "holds r ag0 runNS st0 h s" "A h s" for h s
    unfolding without_outcome_def op_wp_andThen
    by (rule op_wp_mono [OF assms [unfolded tri_def, rule_format, OF that]]) (auto intro: out)
  then show ?thesis by (simp add: tri_def)
qed

lemma tri_refuseAdopt:
  assumes "kept G" and "\<And>e. auth_machine e x ([], Some (TxAdopt, [], StageRefused))"
  shows "tri r ag0 runNS st0 (on x G) (refuseAdopt r runNS (own_route ag0) desire) (\<lambda>_. yes)"
proof -
  note on = tri_on [OF assms(1)]
  let ?y = "([], Some (TxAdopt, [], StageRefused))"
  have serve: "tri r ag0 runNS st0 (on x G) (gwith (\<lambda>s. if st_ActiveRevision (gs_status s) = [] then gret ()
       else gbind (serve_route r runNS (own_route ag0)) (\<lambda>(rt, _). set_out (f rt)))) (\<lambda>_. on x G)" for f
    by (rule tri_with_any, rule tri_if, rule tri_ret, assumption, rule tri_bind [OF on(1)], unfold split_beta, rule on(7))
  have "abs_auth (Some ((new_auth [])\<lparr> au_Transaction := Some (adopt_tx refused) \<rparr>)) = ?y" for refused
    by (simp add: abs_auth_def new_auth_def adopt_tx_def)
  then have adopt: "tri r ag0 runNS st0 (on x G) (set_auth (Some ((new_auth [])\<lparr> au_Transaction := Some (adopt_tx refused) \<rparr>))) (\<lambda>_. on ?y G)" for refused
    using tri_on_set_auth [of G r ag0 runNS x "Some ((new_auth [])\<lparr> au_Transaction := Some (adopt_tx refused) \<rparr>)" st0] assms(2) by simp
  show ?thesis
    unfolding refuseAdopt_def Let_def
    by (rule tri_bind [OF on(7)], rule tri_without_outcome, rule tri_bind [OF serve], rule tri_bind [OF on(2)], rule tri_with_any,
        rule tri_bind [OF adopt], rule tri_bind [OF on(10)], rule tri_bind [OF on(4)], rule tri_post [OF on(6)])
      (simp_all add: assms(1))
qed

section \<open>Entering a Lock\<close>

lemma tri_enterLock:
  assumes "kept G" and "\<And>e. auth_machine e (m, t) (m, Some (TxLock, AuthModeAPIKey, StageProbingBefore))"
  shows "tri r ag0 runNS st0 (on (m, t) G) (enterLock r runNS (own_route ag0) desire) (\<lambda>_. yes)"
proof -
  note on = tri_on [OF assms(1)]
  let ?y = "(m, Some (TxLock, AuthModeAPIKey, StageProbingBefore))"
  have set: "tri r ag0 runNS st0 (on (m, t) G) (set_auth (Some a)) (\<lambda>_. on ?y G)" if "abs_auth (Some a) = ?y" for a
    using tri_on_set_auth [of G r ag0 runNS "(m, t)" "Some a" st0] assms(2) that by simp
  let ?enter = "\<lambda>s tx. case st_Auth (gs_status s) of
        Some a \<Rightarrow> if au_Mode a \<noteq> [] then set_auth (Some (a\<lparr> au_Transaction := Some tx \<rparr>))
          else then_do (set_auth (Some ((new_auth [])\<lparr> au_Transaction := Some tx \<rparr>))) (write_claims (storedClaims (gs_agent s)))
      | None \<Rightarrow> then_do (set_auth (Some ((new_auth [])\<lparr> au_Transaction := Some tx \<rparr>))) (write_claims (storedClaims (gs_agent s)))"
  have enter: "tri r ag0 runNS st0 (\<lambda>h s. on (m, t) G h s \<and> s = s0) (?enter s0 (new_tx TxLock AuthModeAPIKey digest StageProbingBefore d)) (\<lambda>_. on ?y G)"
    for s0 digest d
  proof (cases "fst (abs_auth (st_Auth (gs_status s0))) = m")
    case True
    have fresh: "tri r ag0 runNS st0 (on (m, t) G) (then_do (set_auth (Some ((new_auth [])\<lparr> au_Transaction :=
        Some (new_tx TxLock AuthModeAPIKey digest StageProbingBefore d) \<rparr>))) (write_claims cl)) (\<lambda>_. on ?y G)" if "m = []" for cl
      by (rule tri_bind [OF set on(10)]) (simp add: that abs_auth_def new_auth_def new_tx_def)
    have "tri r ag0 runNS st0 (on (m, t) G) (?enter s0 (new_tx TxLock AuthModeAPIKey digest StageProbingBefore d)) (\<lambda>_. on ?y G)"
    proof (cases "st_Auth (gs_status s0)")
      case None
      with True fresh show ?thesis by (simp add: abs_auth_def)
    next
      case (Some a)
      with True have "au_Mode a = m" by (simp add: abs_auth_def)
      then show ?thesis
        unfolding Some option.case
        by (intro tri_if set fresh) (simp_all add: abs_auth_def new_tx_def)
    qed
    then show ?thesis by (rule tri_pre) simp
  qed (auto simp: tri_def on_def)
  show ?thesis
    unfolding enterLock_def Let_def
    by (rule tri_bind [OF on(8) [OF silent_intros(2)]], rule tri_with, rule tri_bind [OF enter], rule tri_bind [OF on(4)], rule tri_pre [OF tri_runLock])
      (auto simp: at_some_def on_def)
qed

section \<open>Abandoning\<close>

text \<open>A policy that is deleted was read as this Agent's, and is deleted as read.\<close>

lemma deleteAuthPolicy_wp:
  assumes "agent_at ag0 h ag"
  shows "op_wp (may r ag0 runNS st0) (\<lambda>_ _. True) h (deleteAuthPolicy ag ns)"
proof -
  have del: "may r ag0 runNS st0 (h @ [(Get False KPolicy ns n, RObj (Inr (OPolicy p)))]) (DeleteExact (OPolicy p) (pl_UID p) (pl_ResourceVersion p))"
    if "lbl (pl_Labels p) LabelAgentUID = ag_UID ag" for n p
  proof -
    have "own_policy_read ag0 (h @ [(Get False KPolicy ns n, RObj (Inr (OPolicy p)))]) p" if "faithful (h @ [(Get False KPolicy ns n, RObj (Inr (OPolicy p)))])"
      using that faithful_prefix assms \<open>lbl (pl_Labels p) LabelAgentUID = ag_UID ag\<close> by (auto simp: own_policy_read_def agent_at_def same_agent_def)
    then show ?thesis by (simp add: may_def policy_request_def)
  qed
  show ?thesis
    unfolding deleteAuthPolicy_def confirm_deleted_def
    by (auto simp: wp_rules resp_obj_policy reads_may intro!: del split: sum.split option.split)
qed

lemma tri_policy_op:
  assumes "\<And>h s. agent_at ag0 h (gs_agent s) \<Longrightarrow> op_wp (may r ag0 runNS st0) (\<lambda>_ _. True) h (m s)" and "stable A"
  shows "tri r ag0 runNS st0 A (gwith (\<lambda>s. policy_write (m s))) (\<lambda>_. A)"
proof (rule tri_with)
  fix s0
  have "tri r ag0 runNS st0 (\<lambda>h s. A h s \<and> s = s0) (glift (m s0)) (\<lambda>x h s. (A h s \<and> s = s0) \<and> True)"
    by (rule tri_lift) (use assms in \<open>auto simp: stable_def intro: op_wp_mono [OF assms(1)] holds_agent\<close>)
  then show "tri r ag0 runNS st0 (\<lambda>h s. A h s \<and> s = s0) (policy_write (m s0)) (\<lambda>_. A)"
    by (intro tri_policy_write) (auto elim: tri_post)
qed

text \<open>The route that is stripped or deleted is the one that was read as not another Agent's.\<close>

definition stripped :: "Agent \<Rightarrow> string \<Rightarrow> exchange list \<Rightarrow> gstate \<Rightarrow> HTTPRoute \<Rightarrow> bool" where
  "stripped ag0 runNS h s x \<longleftrightarrow> (\<exists>rt. live_read ag0 (gs_agent s) runNS h rt \<and> (x = rt \<or> (Update (ORoute (strip_route rt)), RObj (Inr (ORoute x))) \<in> set h))"

lemma stable_stripped: "stable A \<Longrightarrow> stable (\<lambda>h s. A h s \<and> stripped ag0 runNS h s x)"
  unfolding stable_def stripped_def live_read_def by (metis UnCI set_append)

lemma tri_abandon_route:
  assumes "kept G"
  shows "tri r ag0 runNS st0 (on x G) (abandon_route runNS (own_route ag0) desire) (\<lambda>_. on x G)"
proof -
  note st = stable_on [OF assms, of x]
  have strip: "tri r ag0 runNS st0 (\<lambda>h s. on x G h s \<and> live_read ag0 (gs_agent s) runNS h rt)
      (if routePublished rt then glift (stripRoute runNS (own_route ag0) rt) else gret rt) (\<lambda>y h s. on x G h s \<and> stripped ag0 runNS h s y)" for rt
  proof (rule tri_if)
    have live: "live_read ag0 ag runNS h rt \<Longrightarrow> live_read ag0 ag runNS (h @ u) rt" for ag h u by (auto simp: live_read_def)
    have "tri r ag0 runNS st0 (\<lambda>h s. on x G h s \<and> live_read ag0 (gs_agent s) runNS h rt) (glift (stripRoute runNS (own_route ag0) rt))
       (\<lambda>y h s. (on x G h s \<and> live_read ag0 (gs_agent s) runNS h rt) \<and> (Update (ORoute (strip_route rt)), RObj (Inr (ORoute y))) \<in> set h)"
      by (rule tri_lift) (use st live in \<open>auto simp: stripRoute_def may_def serving_request_def resp_obj_route stable_def
            dest!: holds_agent split: sum.split\<close>)
    then show "tri r ag0 runNS st0 (\<lambda>h s. on x G h s \<and> live_read ag0 (gs_agent s) runNS h rt) (glift (stripRoute runNS (own_route ag0) rt))
       (\<lambda>y h s. on x G h s \<and> stripped ag0 runNS h s y)"
      by (rule tri_post) (auto simp: stripped_def)
  qed (auto intro!: tri_ret simp: stripped_def)
  have del: "tri r ag0 runNS st0 (\<lambda>h s. on x G h s \<and> stripped ag0 runNS h s y) (glift (deleteRoute runNS (own_route ag0) y)) (\<lambda>_. on x G)" for y
  proof -
    have "tri r ag0 runNS st0 (\<lambda>h s. on x G h s \<and> stripped ag0 runNS h s y) (glift (deleteRoute runNS (own_route ag0) y))
       (\<lambda>_ h s. (on x G h s \<and> stripped ag0 runNS h s y) \<and> True)"
      by (rule tri_lift [OF _ stable_stripped [OF st]])
        (auto simp: deleteRoute_def wp_rules may_def serving_request_def stripped_def dest!: holds_agent)
    then show ?thesis by (rule tri_post) simp
  qed
  have gone: "tri r ag0 runNS st0 (on x G) (gbind (live_route runNS (own_route ag0)) (\<lambda>still. gret (f still))) (\<lambda>_. on x G)" for f
    by (rule tri_bind [OF tri_live_route [OF st] tri_ret]) simp
  have found: "tri r ag0 runNS st0 (\<lambda>h s. on x G h s \<and> live_read ag0 (gs_agent s) runNS h rt)
     (gbind (if routePublished rt then glift (stripRoute runNS (own_route ag0) rt) else gret rt) (\<lambda>rt.
          if b then gret []
          else then_do (glift (deleteRoute runNS (own_route ag0) rt)) (gbind (live_route runNS (own_route ag0)) (\<lambda>still. gret (f still))))) (\<lambda>_. on x G)" for rt b f
    by (rule tri_bind [OF strip], rule tri_if, rule tri_ret, simp, rule tri_bind [OF del gone])
  have "tri r ag0 runNS st0 (\<lambda>h s. on x G h s \<and> (\<forall>x. got = Some x \<longrightarrow> live_read ag0 (gs_agent s) runNS h x)) (case got of
        None \<Rightarrow> gret []
      | Some rt \<Rightarrow> gbind (if routePublished rt then glift (stripRoute runNS (own_route ag0) rt) else gret rt) (\<lambda>rt.
          if b then gret []
          else then_do (glift (deleteRoute runNS (own_route ag0) rt)) (gbind (live_route runNS (own_route ag0)) (\<lambda>still. gret (f still))))) (\<lambda>_. on x G)" for got b f
    by (cases got) (simp add: tri_ret, simp only: option.case, rule tri_pre [OF found], simp)
  then show ?thesis
    unfolding abandon_route_def by (rule tri_bind [OF tri_live_route [OF st]])
qed

lemma tri_abandonWaiting: "tri r ag0 runNS st0 A (abandonWaiting auth tx w) (\<lambda>_. yes)"
  unfolding abandonWaiting_def Let_def by (rule tri_any, rule tri_with_any, rule tri_bind [OF tri_conds(2) tri_conds(3)])

definition abandonable :: "string \<Rightarrow> string \<Rightarrow> string \<Rightarrow> bool" where
  "abandonable m knd tgt \<longleftrightarrow> knd = TxCreate \<and> m = [] \<or> knd = TxLock \<and> (m = [] \<or> tgt \<noteq> m)"

lemma tri_abandon_record:
  assumes "kept G" and "abandonable m knd tgt" and "au_Mode auth = m" and "tx_Kind tx = knd" and "tx_TargetMode tx = tgt"
  shows "tri r ag0 runNS st0 (on (m, Some (knd, tgt, stage)) G) (abandon_record r runNS (own_route ag0) desire auth tx) (\<lambda>goes_on h s. goes_on \<longrightarrow> on (m, None) G h s)"
proof -
  let ?x = "(m, Some (knd, tgt, stage))"
  note on = tri_on [OF assms(1)]
  let ?B = "\<lambda>goes_on h s. goes_on \<longrightarrow> on (m, None) G h s"
  have refuse: "tri r ag0 runNS st0 (on ?x G) (then_do (refuseAdopt r runNS (own_route ag0) desire) (gret False)) ?B" if "knd = TxLock" "m = []"
    by (rule tri_bind [OF tri_refuseAdopt [OF assms(1)]]) (auto simp: that intro: auth_machine.adopt_locked tri_ret)
  have unlock: "tri r ag0 runNS st0 (on ?x G) (set_auth (Some (new_auth m))) (\<lambda>_. on (m, None) G)" if "knd = TxLock" "m \<noteq> []"
    using tri_on_set_auth [of G r ag0 runNS ?x "Some (new_auth m)" st0] assms(2) that
    by (auto simp: abs_auth_def new_auth_def abandonable_def intro: auth_machine.unlock)
  have uncreate: "tri r ag0 runNS st0 (on ?x G) (set_auth None) (\<lambda>_. on (m, None) G)" if "knd \<noteq> TxLock"
    using tri_on_set_auth [of G r ag0 runNS ?x None st0] assms(2) that
    by (auto simp: abs_auth_def abandonable_def intro: auth_machine.uncreate)
  have kept: "tri r ag0 runNS st0 (on ?x G) (gwith (\<lambda>s. then_do (set_auth (Some (new_auth m)))
      (then_do (write_claims (storedClaims (gs_agent s))) (then_do persistStatus (gret True))))) ?B" if "knd = TxLock" "m \<noteq> []"
    by (rule tri_with_any, rule tri_bind [OF unlock [OF that]], rule tri_bind [OF on(10)], rule tri_bind [OF on(4)], rule tri_ret, simp)
  have dropped: "tri r ag0 runNS st0 (on ?x G) (then_do (set_auth None) (if b then gret True else then_do persistStatus (gret True))) ?B" if "knd \<noteq> TxLock" for b
    by (rule tri_bind [OF uncreate [OF that]], rule tri_if, rule tri_ret, simp, rule tri_bind [OF on(4)], rule tri_ret, simp)
  show ?thesis
    unfolding abandon_record_def Let_def assms(3,4)
    by (rule tri_if, rule refuse, simp, simp, rule tri_if, rule kept, simp, simp, rule dropped, simp)
qed

lemma tri_abandon:
  assumes "kept G" and "abandonable m knd tgt"
  shows "tri r ag0 runNS st0 (on (m, Some (knd, tgt, stage)) G) (abandon r runNS (own_route ag0) desire) (\<lambda>goes_on h s. goes_on \<longrightarrow> on (m, None) G h s)"
proof -
  let ?x = "(m, Some (knd, tgt, stage))"
  let ?B = "\<lambda>goes_on h s. goes_on \<longrightarrow> on (m, None) G h s"
  have wait: "tri r ag0 runNS st0 (on ?x G) (then_do (abandonWaiting auth tx w) (gret False)) ?B" for auth tx w
    by (rule tri_bind [OF tri_abandonWaiting tri_ret]) simp
  have route: "tri r ag0 runNS st0 (on ?x G) (if b then abandon_route runNS (own_route ag0) desire else gret []) (\<lambda>_. on ?x G)" for b
    by (rule tri_if, rule tri_abandon_route [OF assms(1)], rule tri_ret)
  have policy: "tri r ag0 runNS st0 (on ?x G) (if b then gwith (\<lambda>s. policy_write (deleteAuthPolicy (gs_agent s) runNS)) else gret []) (\<lambda>_. on ?x G)" for b
    by (rule tri_if, rule tri_policy_op [OF deleteAuthPolicy_wp stable_on [OF assms(1)]], assumption, rule tri_ret)
  show ?thesis
    unfolding abandon_def
    by (rule tri_on_tx, rule tri_bind [OF route], rule tri_if, rule wait, rule tri_bind [OF policy], rule tri_if, rule wait,
        rule tri_abandon_record [OF assms]) simp_all
qed

section \<open>A served Agent\<close>

lemma tri_lockMissingPolicy:
  assumes "kept G"
  shows "tri r ag0 runNS st0 (on (AuthModeAPIKey, None) G) (lockMissingPolicy r runNS (own_route ag0)) (\<lambda>_. yes)"
  unfolding lockMissingPolicy_def
  by (rule tri_bind [OF tri_enter_tx [OF assms, where knd = TxLock and tgt = au_Mode and stage = StageApplyingPolicies and tgt' = AuthModeAPIKey]])
    (auto simp: new_tx_def at_some_def on_def intro: auth_machine.lock_missing tri_pre [OF tri_runLock])

lemma tri_keep_route:
  assumes "kept G" and "m \<noteq> []"
  shows "tri r ag0 runNS st0 (on (m, None) G) (keep_route r runNS (own_route ag0) auth) (\<lambda>_. yes)"
proof -
  note on = tri_on [OF assms(1)]
  have fin: "tri r ag0 runNS st0 (on (m, None) G) (then_do (collect_routes runNS keep) (gwith (\<lambda>s. governance gv))) (\<lambda>_. yes)" for keep gv
    by (rule tri_bind [OF on(2)], rule tri_with_any, rule tri_post [OF on(6)]) simp
  have found: "tri r ag0 runNS st0 (on (m, None) G) (then_do (if b then gret () else set_out f) (then_do (collect_routes runNS keep) (gwith (\<lambda>s. governance gv)))) (\<lambda>_. yes)"
    for b f keep gv
    by (rule tri_bind [where B = "\<lambda>_. on (m, None) G"], rule tri_if, rule tri_ret, assumption, rule on(7), rule fin)
  have got: "tri r ag0 runNS st0 (on (m, None) G) (case got of None \<Rightarrow> recreateRoute r runNS (own_route ag0)
     | Some (rt, z) \<Rightarrow> then_do (if b then gret () else set_out (f rt)) (then_do (collect_routes runNS keep) (gwith (\<lambda>s. governance gv)))) (\<lambda>_. yes)"
    for got :: "(HTTPRoute \<times> bool) option" and b f keep gv
    by (cases got) (simp add: tri_recreateRoute assms, simp only: option.case split_beta, rule found)
  show ?thesis
    unfolding keep_route_def Let_def
    by (rule tri_with_any, rule tri_if, rule fin, rule tri_bind [OF tri_on_catch_gone [OF assms(1)]], rule got)
qed

lemma reassertServedPolicy_wp:
  assumes "agent_at ag0 h ag"
  shows "op_wp (may r ag0 runNS st0) (\<lambda>_ _. True) h (reassertServedPolicy r ag runNS auth)"
proof -
  have j: "faithful (h @ u) \<longrightarrow> agent_policy r ag0 runNS = Inr j" if "agent_policy r ag runNS = Inr j" for j u
    using assms that same_agent_policy [of ag0 ag r runNS] faithful_prefix unfolding agent_at_def by metis
  have w: "op_wp (may r ag0 runNS st0) (\<lambda>_ _. True) (h @ [(Get False KPolicy runNS n, RObj (Inr (OPolicy p)))]) (writeAuthPolicy ag p j d)"
    if "agent_policy r ag runNS = Inr j" for n p j d
    by (rule writeAuthPolicy_wp [where ns = runNS and n = n, OF agent_at_append [OF assms] j [OF that]]) simp
  show ?thesis
    unfolding reassertServedPolicy_def Let_def
    by (auto simp: op_wp_andThen op_wp_requests_typed resp_obj_policy reads_may w split: sum.split)
qed

lemma tri_keep_policy:
  assumes "kept G"
  shows "tri r ag0 runNS st0 (on (AuthModeAPIKey, None) G) (keep_policy r runNS (own_route ag0) auth) (\<lambda>_. yes)"
proof -
  note on = tri_on [OF assms]
  let ?x = "(AuthModeAPIKey, None)"
  have reassert: "tri r ag0 runNS st0 (\<lambda>h s. on ?x G h s \<and> s = s0) (policy_write (reassertServedPolicy r (gs_agent s0) runNS auth)) (\<lambda>_. on ?x G)" for s0
    using tri_policy_op [of ag0 r runNS st0 "\<lambda>s. reassertServedPolicy r (gs_agent s) runNS auth" "on ?x G"] reassertServedPolicy_wp stable_on [OF assms]
    by (auto simp: tri_def gwith_def)
  have st: "stable (\<lambda>h s. on ?x G h s \<and> s = s0)" for s0 by (rule stable_conj) (simp_all add: assms)
  have keep: "tri r ag0 runNS st0 (on ?x G) (then_do (set_out f) (keep_route r runNS (own_route ag0) auth)) (\<lambda>_. yes)" for f
    by (rule tri_bind [OF on(7) tri_keep_route [OF assms]]) simp
  show ?thesis
    unfolding keep_policy_def
    by (rule tri_with, rule tri_bind [OF tri_silent [OF silent_parts(7) st]], rule tri_if, rule tri_pre [OF tri_lockMissingPolicy [OF assms]], simp,
        rule tri_bind [OF reassert], unfold split_beta, rule keep)
qed

lemma tri_reconcileServed:
  assumes "kept G" and "m \<noteq> []"
  shows "tri r ag0 runNS st0 (on (m, None) G) (reconcileServed r runNS (own_route ag0)) (\<lambda>_. yes)"
proof -
  note on = tri_on [OF assms(1)]
  have keep: "tri r ag0 runNS st0 (on (m, None) G) (then_do (set_out f) (keep_policy r runNS (own_route ag0) auth)) (\<lambda>_. yes)" if "m = AuthModeAPIKey" for f auth
    unfolding that by (rule tri_bind [OF on(7) [unfolded that] tri_keep_policy [OF assms(1)]])
  have cur: "tri r ag0 runNS st0 (on (m, None) G) (case cur of None \<Rightarrow> recreateRoute r runNS (own_route ag0)
      | Some rt \<Rightarrow> if \<not> routePublished rt then recreateRoute r runNS (own_route ag0) else then_do (set_out (f rt)) (keep_policy r runNS (own_route ag0) auth)) (\<lambda>_. yes)"
    if "m = AuthModeAPIKey" for cur f auth
    by (cases cur) (simp_all add: tri_recreateRoute assms keep [OF that])
  have "tri r ag0 runNS st0 (\<lambda>h s. on (m, None) G h s \<and> s = s0) (case st_Auth (gs_status s0) of
     None \<Rightarrow> gfail nil_deref
   | Some auth \<Rightarrow>
     if au_Mode auth = AuthModeAPIKey \<and> st_ActiveRevision (gs_status s0) \<noteq> []
     then gbind (current_route runNS (own_route ag0)) (\<lambda>cur. case cur of
        None \<Rightarrow> recreateRoute r runNS (own_route ag0)
      | Some rt \<Rightarrow>
        if \<not> routePublished rt then recreateRoute r runNS (own_route ag0)
        else then_do (set_out (\<lambda>out. out\<lparr> gw_judgeRoute := Some rt \<rparr>)) (keep_policy r runNS (own_route ag0) auth))
     else keep_route r runNS (own_route ag0) auth) (\<lambda>_. yes)" for s0
  proof (cases "fst (abs_auth (st_Auth (gs_status s0))) = m")
    case True
    show ?thesis
    proof (cases "st_Auth (gs_status s0)")
      case (Some auth)
      with True have m: "au_Mode auth = m" by (simp add: abs_auth_def)
      show ?thesis
        unfolding Some option.case m
        by (rule tri_pre, rule tri_if, rule tri_bind [OF on(3)], rule cur) (simp_all add: tri_keep_route assms)
    qed (simp add: tri_fail)
  qed (auto simp: tri_def on_def)
  then show ?thesis
    unfolding reconcileServed_def by (rule tri_with)
qed

section \<open>The step\<close>

text \<open>The recorded mode and transaction are what the record is at.\<close>

lemma tri_record:
  assumes "\<And>s0 tx. map_option (\<lambda>tx. (tx_Kind tx, tx_TargetMode tx, tx_Stage tx)) tx = t \<Longrightarrow> snd (recordOf (gs_status s0)) = tx \<Longrightarrow>
     tri r ag0 runNS st0 (on (m, t) G) (f s0 m tx) C"
  shows "tri r ag0 runNS st0 (on (m, t) G) (gwith (\<lambda>s. case recordOf (gs_status s) of (recorded, tx) \<Rightarrow> f s recorded tx)) C"
proof (rule tri_with)
  fix s0 :: gstate
  obtain recorded tx where rec: "recordOf (gs_status s0) = (recorded, tx)" by fastforce
  then have a: "abs_auth (st_Auth (gs_status s0)) = (recorded, map_option (\<lambda>tx. (tx_Kind tx, tx_TargetMode tx, tx_Stage tx)) tx)"
    by (auto simp: recordOf_def abs_auth_def split: option.splits)
  show "tri r ag0 runNS st0 (\<lambda>h s. on (m, t) G h s \<and> s = s0) (case recordOf (gs_status s0) of (recorded, tx) \<Rightarrow> f s0 recorded tx) C"
  proof (cases "recorded = m \<and> map_option (\<lambda>tx. (tx_Kind tx, tx_TargetMode tx, tx_Stage tx)) tx = t")
    case True
    with rec show ?thesis by (auto intro: tri_pre [OF assms])
  qed (use a in \<open>auto simp: tri_def on_def\<close>)
qed

abbreviation true :: "exchange list \<Rightarrow> bool" where "true \<equiv> \<lambda>_. True"

lemma tri_compile_failed:
  assumes "kept G"
  shows "tri r ag0 runNS st0 (on x G) (compile_failed b fails) (\<lambda>_. on x G)"
proof (cases fails)
  case (Cons f fs)
  show ?thesis unfolding compile_failed_def Cons list.case by (rule tri_bind [OF tri_on(5) [OF assms] tri_on(7) [OF assms]])
qed (simp add: compile_failed_def tri_ret)

lemma tri_abandoned_note:
  assumes "kept G"
  shows "tri r ag0 runNS st0 (on x G) (abandoned_note runNS b fails) (\<lambda>_. on x G)"
proof (cases fails)
  case (Cons f fs)
  show ?thesis
    unfolding abandoned_note_def Cons list.case
    by (rule tri_if, rule tri_ret, assumption, rule tri_with_any, rule tri_bind [OF tri_on(9) [OF assms silent_parts(7)]], rule tri_ret)
qed (simp add: abandoned_note_def tri_ret)

lemma tri_enter_create:
  assumes "kept G" and "at_Mode t \<in> {AuthModeNone, AuthModeAPIKey}"
  shows "tri r ag0 runNS st0 (on ([], None) G) (enter_create r runNS (own_route ag0) t) (\<lambda>_. yes)"
proof -
  note on = tri_on [OF assms(1)]
  let ?stage = "if at_Mode t = AuthModeNone then StagePublishing else StagePreparingRoute"
  let ?y = "([], Some (TxCreate, at_Mode t, ?stage))"
  have step: "auth_machine e ([], None) ?y" for e
    using assms(2) auth_machine.open_route auth_machine.enter_create by auto
  have set: "tri r ag0 runNS st0 (\<lambda>h s. on ([], None) G h s \<and> s = s0) (set_auth (Some ((case st_Auth (gs_status s0) of None \<Rightarrow> new_auth [] | Some a \<Rightarrow> a)
     \<lparr> au_Transaction := Some (new_tx TxCreate (at_Mode t) digest ?stage d) \<rparr>))) (\<lambda>_. on ?y G)" for s0 digest d
  proof (cases "fst (abs_auth (st_Auth (gs_status s0))) = []")
    case True
    let ?a = "(case st_Auth (gs_status s0) of None \<Rightarrow> new_auth [] | Some a \<Rightarrow> a)\<lparr> au_Transaction := Some (new_tx TxCreate (at_Mode t) digest ?stage d) \<rparr>"
    have "abs_auth (Some ?a) = ?y"
      using True by (simp add: abs_auth_def new_auth_def new_tx_def split: option.splits)
    then show ?thesis
      using tri_on_set_auth [of G r ag0 runNS "([], None)" "Some ?a" st0] step by (auto elim: tri_pre)
  qed (auto simp: tri_def on_def)
  show ?thesis
    unfolding enter_create_def Let_def
    by (rule tri_bind [OF on(8) [OF silent_intros(2)]], rule tri_with, rule tri_bind [OF set], rule tri_bind [OF on(4)], rule tri_pre [OF tri_runCreate])
      (auto simp: at_some_def on_def)
qed

lemma tri_first_step:
  assumes "kept G" and "compiled_desire desire"
  shows "tri r ag0 runNS st0 (on ([], None) G) (first_step r runNS (own_route ag0) desire) (\<lambda>_. yes)"
proof -
  note on = tri_on [OF assms(1)]
  have none: "tri r ag0 runNS st0 (on ([], None) G) (then_do (collect_routes runNS []) (governance gv)) (\<lambda>_. yes)" for gv
    by (rule tri_bind [OF on(2)], rule tri_post [OF on(6)]) simp
  show ?thesis
  proof (cases "ad_target desire")
    case (Inr t)
    then have "at_Mode t \<in> {AuthModeNone, AuthModeAPIKey}" using assms(2) by (simp add: compiled_desire_def)
    then show ?thesis
      unfolding first_step_def Inr sum.case by (intro tri_with_any tri_if none tri_enter_create [OF assms(1)])
  qed (simp add: first_step_def none tri_with_any)
qed

lemma tri_served_step:
  assumes "kept G" and "m \<noteq> []"
  shows "tri r ag0 runNS st0 (on (m, None) G) (served_step r runNS (own_route ag0) desire m) (\<lambda>_. yes)"
proof -
  have failed: "tri r ag0 runNS st0 yes (compile_failed b fails) (\<lambda>_. yes)" for b fails
    unfolding compile_failed_def by (cases fails) (simp_all add: tri_ret tri_bind [OF tri_conds(2) tri_conds(3)])
  have "tri r ag0 runNS st0 yes (case otx of None \<Rightarrow> gret () | Some tx \<Rightarrow> if tx_Kind tx \<noteq> TxCreate then gret () else compile_failed b (f tx)) (\<lambda>_. yes)"
    for otx b f
    by (cases otx) (simp_all add: tri_ret failed)
  note said = this
  show ?thesis
    unfolding served_step_def by (rule tri_bind [OF tri_reconcileServed [OF assms]], rule tri_with_any, rule said)
qed

lemma tri_dispatch:
  assumes "compiled_desire desire"
  shows "tri r ag0 runNS st0 (on (m, t) true) (dispatch r runNS (own_route ag0) desire) (\<lambda>_. yes)"
  unfolding dispatch_def
proof (rule tri_record)
  fix s0 :: gstate and tx :: "AuthTransaction option"
  assume t: "map_option (\<lambda>tx. (tx_Kind tx, tx_TargetMode tx, tx_Stage tx)) tx = t"
  show "tri r ag0 runNS st0 (on (m, t) true) (case tx of
     Some t \<Rightarrow>
       if tx_Kind t = TxCreate then runCreate r runNS (own_route ag0)
       else if tx_Kind t = TxLock then runLock r runNS (own_route ag0)
       else gfail (PlainError (msgf ''status.auth.transaction is of a kind this operator does not run'' [tx_Kind t]))
   | None \<Rightarrow>
       if m = AuthModeNone \<and> desire_compiles desire \<and> (case ad_target desire of Inl _ \<Rightarrow> False | Inr t \<Rightarrow> at_Mode t = AuthModeAPIKey) \<and>
          st_ActiveRevision (gs_status s0) \<noteq> []
       then enterLock r runNS (own_route ag0) desire
       else if m \<noteq> [] then served_step r runNS (own_route ag0) desire m
       else first_step r runNS (own_route ag0) desire) (\<lambda>_. yes)"
  proof (cases tx)
    case (Some x)
    have "tri r ag0 runNS st0 (on (m, t) true) (runCreate r runNS (own_route ag0)) (\<lambda>_. yes)" if "tx_Kind x = TxCreate"
      by (rule tri_pre [OF tri_runCreate]) (use t Some that in \<open>auto simp: at_some_def\<close>)
    moreover have "tri r ag0 runNS st0 (on (m, t) true) (runLock r runNS (own_route ag0)) (\<lambda>_. yes)" if "tx_Kind x = TxLock"
      by (rule tri_pre [OF tri_runLock]) (use t Some that in \<open>auto simp: at_some_def\<close>)
    ultimately show ?thesis unfolding Some option.case by (intro tri_if tri_fail)
  next
    case None
    with t have t: "t = None" by simp
    have "tri r ag0 runNS st0 (on (m, None) true) (enterLock r runNS (own_route ag0) desire) (\<lambda>_. yes)" if "m = AuthModeNone"
      by (rule tri_enterLock) (simp_all add: that auth_machine.enter_lock)
    then show ?thesis
      unfolding None option.case t by (intro tri_if tri_served_step) (use tri_first_step [OF _ assms] in auto)
  qed
qed

lemma tri_recorded_step:
  assumes "compiled_desire desire"
  shows "tri r ag0 runNS st0 (on (m, t) true) (recorded_step r runNS (own_route ag0) desire b) (\<lambda>_. yes)"
  unfolding recorded_step_def Let_def
  by (rule tri_record, rule tri_bind [OF tri_abandoned_note], simp, rule tri_bind [OF tri_compile_failed], simp, rule tri_dispatch [OF assms])

lemma abandons_abandonable:
  "abandons auth mode \<Longrightarrow> abs_auth auth = (m, Some (knd, tgt, stage)) \<Longrightarrow> abandonable m knd tgt"
  by (auto simp: abandons_def abs_auth_def abandonable_def isReCreation_def split: option.splits if_splits)

lemma tri_transaction_step:
  assumes "compiled_desire desire"
  shows "tri r ag0 runNS st0 (on (m, t) true) (transaction_step r runNS (own_route ag0) desire) (\<lambda>_. yes)"
proof -
  have goes: "tri r ag0 runNS st0 (\<lambda>h s. goes_on \<longrightarrow> on (m, None) true h s) (if goes_on then recorded_step r runNS (own_route ag0) desire b else gret ()) (\<lambda>_. yes)" for goes_on b
    by (cases goes_on) (simp_all add: tri_recorded_step [OF assms] tri_ret)
  have "tri r ag0 runNS st0 (\<lambda>h s. on (m, t) true h s \<and> s = s0) (case recordOf (gs_status s0) of (recorded, tx) \<Rightarrow>
     if tx \<noteq> None \<and> abandons (st_Auth (gs_status s0)) (desiredModeName (gs_agent s0))
     then gbind (abandon r runNS (own_route ag0) desire) (\<lambda>goes_on.
       if goes_on then recorded_step r runNS (own_route ag0) desire (case tx of None \<Rightarrow> False | Some t \<Rightarrow> tx_Kind t = TxLock) else gret ())
     else recorded_step r runNS (own_route ag0) desire False) (\<lambda>_. yes)" for s0
  proof (cases "abs_auth (st_Auth (gs_status s0)) = (m, t)")
    case True
    have "tri r ag0 runNS st0 (on (m, t) true) (gbind (abandon r runNS (own_route ag0) desire) (\<lambda>goes_on. if goes_on then recorded_step r runNS (own_route ag0) desire b else gret ())) (\<lambda>_. yes)"
      if "abandons (st_Auth (gs_status s0)) mode" for mode b
    proof -
      from that obtain knd tgt stage where t: "t = Some (knd, tgt, stage)"
        using True by (auto simp: abandons_def abs_auth_def split: option.splits)
      have ok: "abandonable m knd tgt"
        using abandons_abandonable [OF that, of m knd tgt stage] True t by simp
      show ?thesis
        unfolding t by (rule tri_bind [OF tri_abandon [OF _ ok]], simp, rule goes)
    qed
    note abandoned = this
    show ?thesis
      unfolding split_beta
      by (rule tri_pre [where A = "on (m, t) true"], rule tri_if, rule abandoned, erule conjunct2, rule tri_recorded_step [OF assms], simp)
  qed (auto simp: tri_def on_def)
  then show ?thesis
    unfolding transaction_step_def by (rule tri_with)
qed

lemma tri_authStep:
  assumes "compiled_desire desire"
  shows "tri r ag0 runNS st0 (on (m, t) true) (authStep r runNS (own_route ag0) desire) (\<lambda>_. yes)"
  unfolding authStep_def
proof (rule tri_record)
  fix s0 :: gstate and tx :: "AuthTransaction option"
  assume t: "map_option (\<lambda>tx. (tx_Kind tx, tx_TargetMode tx, tx_Stage tx)) tx = t"
  note step = tri_transaction_step [OF assms]
  show "tri r ag0 runNS st0 (on (m, t) true) (case tx of
     Some t \<Rightarrow>
       if tx_Kind t = TxAdopt
       then (if k2Consent t (gs_agent s0) \<and> desire_compiles desire \<and> st_ActiveRevision (gs_status s0) \<noteq> []
             then enterLock r runNS (own_route ag0) desire else refuseAdopt r runNS (own_route ag0) desire)
       else transaction_step r runNS (own_route ag0) desire
   | None \<Rightarrow>
       if m = []
       then gbind (live_route runNS (own_route ag0)) (\<lambda>existing.
         if (case existing of None \<Rightarrow> False | Some rt \<Rightarrow> routePublished rt) then refuseAdopt r runNS (own_route ag0) desire
         else transaction_step r runNS (own_route ag0) desire)
       else transaction_step r runNS (own_route ag0) desire) (\<lambda>_. yes)"
  proof (cases tx)
    case (Some x)
    have "tri r ag0 runNS st0 (on (m, t) true) (enterLock r runNS (own_route ag0) desire) (\<lambda>_. yes)"
      "tri r ag0 runNS st0 (on (m, t) true) (refuseAdopt r runNS (own_route ag0) desire) (\<lambda>_. yes)" if "tx_Kind x = TxAdopt"
      using t that unfolding Some
      by (auto intro: tri_enterLock tri_refuseAdopt auth_machine.consent auth_machine.adopt_again)
    then show ?thesis unfolding Some option.case by (intro tri_if step)
  next
    case None
    with t have t: "t = None" by simp
    have "tri r ag0 runNS st0 (on ([], None) true) (refuseAdopt r runNS (own_route ag0) desire) (\<lambda>_. yes)"
      by (rule tri_refuseAdopt) (simp_all add: auth_machine.adopt)
    then have "tri r ag0 runNS st0 (on ([], None) true) (gbind (live_route runNS (own_route ag0)) (\<lambda>existing. if f existing
         then refuseAdopt r runNS (own_route ag0) desire else transaction_step r runNS (own_route ag0) desire)) (\<lambda>_. yes)" for f
      by (intro tri_bind [OF tri_post [OF tri_live_route [where A = "on ([], None) true"], where B' = "\<lambda>_. on ([], None) true"]] tri_if step) simp_all
    then show ?thesis
      unfolding None option.case t by (intro tri_if step) simp
  qed
qed

lemma tri_with_foreign:
  assumes "tri r ag0 runNS st0 (on x G) m (\<lambda>_. yes)"
  shows "tri r ag0 runNS st0 (on x G) (with_foreign foreign m) (\<lambda>_. yes)"
proof -
  have "ends r ag0 runNS st0 (\<lambda>_. yes) h (res, s\<lparr> gs_out := f s \<rparr>)" if "ends r ag0 runNS st0 (\<lambda>_. yes) h (res, s)" for h f s and res :: "go_error + unit"
    using that by (auto simp: ends_def fell_def holds_def traced_def split: sum.splits)
  note out = this
  have "op_wp (may r ag0 runNS st0) (ends r ag0 runNS st0 (\<lambda>_. yes)) h (with_foreign foreign m s)" if "holds r ag0 runNS st0 h s" "on x G h s" for h s
  proof -
    let ?s = "s\<lparr> gs_out := (gs_out s)\<lparr> gw_foreign := foreign \<rparr> \<rparr>"
    have "holds r ag0 runNS st0 h ?s" "on x G h ?s" using that by (auto simp: holds_def traced_def on_def)
    then show ?thesis
      unfolding with_foreign_def op_wp_andThen
      by (intro op_wp_mono [OF assms [unfolded tri_def, rule_format]]) (auto intro: out)
  qed
  then show ?thesis by (simp add: tri_def)
qed

lemma tri_gatewayStep:
  assumes "compiled_desire desire"
  shows "tri r ag0 runNS st0 (\<lambda>_ s. gs_agent s = ag0) (gatewayStep r runNS desire) (\<lambda>_. yes)"
proof -
  have run: "tri r ag0 runNS st0 (on x true) (case ServingRouteName (ag_Name ag0) of Inl e \<Rightarrow> gfail (PlainError e) | Inr name \<Rightarrow>
       then_do (glift (requireFreshAgent ag0)) (gbind (glift (foreignTrafficPolicies (ac_env r) ag0 runNS name)) (\<lambda>foreign.
         with_foreign foreign (authStep r runNS name desire)))) (\<lambda>_. yes)" for x
  proof (cases "ServingRouteName (ag_Name ag0)")
    case (Inr name)
    then have name: "name = own_route ag0" by (simp add: own_route_def)
    have step: "tri r ag0 runNS st0 (on x true) (with_foreign foreign (authStep r runNS name desire)) (\<lambda>_. yes)" for foreign
      unfolding name by (rule tri_with_foreign) (cases x, simp add: tri_authStep [OF assms])
    show ?thesis
      unfolding Inr sum.case
      by (rule tri_bind [OF tri_on(9) [OF kept_basic(1) silent_parts(9)]], rule tri_bind [OF tri_on(9) [OF kept_basic(1) silent_parts(1)]], rule step)
  qed (simp add: tri_fail)
  have "tri r ag0 runNS st0 (\<lambda>h s. on x true h s \<and> gs_agent s = ag0) (gatewayStep r runNS desire) (\<lambda>_. yes)" for x
    unfolding gatewayStep_def
  proof (rule tri_with)
    fix s0
    show "tri r ag0 runNS st0 (\<lambda>h s. (on x true h s \<and> gs_agent s = ag0) \<and> s = s0) (if \<not> gw_Enabled (ac_Gateway r) then gret ()
       else case ServingRouteName (ag_Name (gs_agent s0)) of Inl e \<Rightarrow> gfail (PlainError e) | Inr name \<Rightarrow>
         then_do (glift (requireFreshAgent (gs_agent s0))) (gbind (glift (foreignTrafficPolicies (ac_env r) (gs_agent s0) runNS name)) (\<lambda>foreign.
           with_foreign foreign (authStep r runNS name desire)))) (\<lambda>_. yes)"
    proof (cases "gs_agent s0 = ag0")
      case True
      show ?thesis unfolding True by (rule tri_if, rule tri_ret, simp, rule tri_pre [OF run [of x]]) simp
    qed (auto simp: tri_def)
  qed
  then have "tri r ag0 runNS st0 (\<lambda>h s. \<exists>x. on x true h s \<and> gs_agent s = ag0) (gatewayStep r runNS desire) (\<lambda>_. yes)" by (rule tri_ex)
  then show ?thesis by (rule tri_pre) (simp add: on_def)
qed

end
