(* ===== verification/Discovery.thy ===== *)
theory Discovery
  imports Gateway_Reads
begin

text \<open>
  Whether the cluster serves the EvalSuite kind (\<^verbatim>\<open>discovery.go\<close>), which decides whether a declared gate
  holds a rollout. The detector asks the API server and keeps the answer for a while. The answer of
  the discovery client is an input of each call, and so are the readings of the clock before and after
  it; the log lines on a change of the answer are not modelled, the state that decides them is.

  Shown: the answer given is always the last lookup's that succeeded, and before any has, that the kind is served;
  so a gate is skipped only if a lookup found no such kind and none since found one; and exactly when
  a call makes a lookup.
\<close>

section \<open>The lookup\<close>

text \<open>
  The resources served, a group and version with its kinds, and the error: of a partial failure, told by its type,
  the groups that failed.
\<close>

datatype discovery_error = DiscoveryFailed string | GroupsFailed "string list" string

type_synonym discovery = "(string \<times> string list) list \<times> discovery_error option"

abbreviation evalSuiteGroup :: string where "evalSuiteGroup \<equiv> ''assayd.dev''"
abbreviation evalSuiteKind :: string where "evalSuiteKind \<equiv> ''EvalSuite''"

fun serves_suite :: "(string \<times> string list) list \<Rightarrow> bool" where
  "serves_suite [] = False"
| "serves_suite ((version, kinds) # served) =
     (if api_group version \<noteq> Some evalSuiteGroup then serves_suite served
      else if evalSuiteKind \<in> set kinds then True
      else serves_suite served)"

definition detector_lookup :: "discovery \<Rightarrow> string + bool" where
  "detector_lookup got = (case got of
     (resources, None) \<Rightarrow> Inr (serves_suite resources)
   | (resources, Some (DiscoveryFailed e)) \<Rightarrow> Inl (msgf ''discover server resources'' [e])
   | (resources, Some (GroupsFailed groups e)) \<Rightarrow>
       if evalSuiteGroup \<in> set groups then Inl (msgf ''discover'' [evalSuiteGroup, e]) else Inr (serves_suite resources))"

section \<open>The detector\<close>

abbreviation failureBackoff :: duration where "failureBackoff \<equiv> 5 * second"

record EvalSuiteDetector =
  dt_ttl :: duration
  dt_cached :: bool
  dt_checked :: go_time
  dt_warmed :: bool
  dt_last :: "bool option"

definition NewEvalSuiteDetector :: "'cfg option \<Rightarrow> ('cfg \<Rightarrow> string + 'client) \<Rightarrow> duration \<Rightarrow> string + EvalSuiteDetector" where
  "NewEvalSuiteDetector config build ttl = (case config of
     None \<Rightarrow> Inl ''eval-suite detector: rest config is required''
   | Some c \<Rightarrow>
     if ttl \<le> 0 then Inl (msgf ''eval-suite detector: ttl must be positive'' [itoa ttl])
     else case build c of
       Inl e \<Rightarrow> Inl (msgf ''eval-suite detector: build discovery client'' [e])
     | Inr _ \<Rightarrow> Inr \<lparr> dt_ttl = ttl, dt_cached = False, dt_checked = 0, dt_warmed = False, dt_last = None \<rparr>)"

definition answer_stands :: "EvalSuiteDetector \<Rightarrow> go_time \<Rightarrow> bool" where
  "answer_stands d at \<longleftrightarrow> dt_warmed d \<and> at - dt_checked d < dt_ttl d"

definition Installed :: "EvalSuiteDetector \<Rightarrow> go_time \<Rightarrow> discovery \<Rightarrow> go_time \<Rightarrow> bool \<times> EvalSuiteDetector" where
  "Installed d at got later =
     (if answer_stands d at then (dt_cached d, d)
      else case detector_lookup got of
        Inl e \<Rightarrow> (if dt_warmed d then dt_cached d else True, d\<lparr> dt_checked := later - dt_ttl d + failureBackoff \<rparr>)
      | Inr found \<Rightarrow> (found, d\<lparr> dt_cached := found, dt_checked := later, dt_warmed := True,
            dt_last := (if dt_last d = None \<or> dt_last d \<noteq> Some found then Some found else dt_last d) \<rparr>))"

text \<open>
  A sequence of calls: when each is made, what the API server would answer, and when. For each, the answer given and
  the outcome of its lookup, if it makes one.
\<close>

type_synonym detector_call = "go_time \<times> discovery \<times> go_time"
type_synonym detector_step = "bool \<times> (string + bool) option"

fun detect :: "EvalSuiteDetector \<Rightarrow> detector_call list \<Rightarrow> detector_step list" where
  "detect d [] = []"
| "detect d ((at, got, later) # calls) =
     (fst (Installed d at got later), if answer_stands d at then None else Some (detector_lookup got)) #
     detect (snd (Installed d at got later)) calls"

lemma length_detect [simp]: "length (detect d calls) = length calls"
  by (induction d calls rule: detect.induct) simp_all

section \<open>Failing closed\<close>

lemma serves_suite_iff:
  "serves_suite served \<longleftrightarrow> (\<exists>(version, kinds)\<in>set served. api_group version = Some evalSuiteGroup \<and> evalSuiteKind \<in> set kinds)"
  by (induction served rule: serves_suite.induct) auto

text \<open>The answer that stands after a step: the lookup's if one was made and succeeded.\<close>

definition standing :: "bool \<Rightarrow> (string + bool) option \<Rightarrow> bool" where
  "standing b looked = (case looked of Some (Inr found) \<Rightarrow> found | _ \<Rightarrow> b)"

primrec standings :: "bool \<Rightarrow> (string + bool) option list \<Rightarrow> bool list" where
  "standings b [] = []"
| "standings b (l # ls) = standing b l # standings (standing b l) ls"

definition presumed :: "EvalSuiteDetector \<Rightarrow> bool" where
  "presumed d = (if dt_warmed d then dt_cached d else True)"

lemma detect_standings: "map fst (detect d calls) = standings (presumed d) (map snd (detect d calls))"
proof (induction d calls rule: detect.induct)
  case (2 d at got later calls)
  have "fst (Installed d at got later) = standing (presumed d) (if answer_stands d at then None else Some (detector_lookup got))"
    by (auto simp: Installed_def standing_def presumed_def answer_stands_def split: sum.split)
  moreover have "presumed (snd (Installed d at got later)) = fst (Installed d at got later)"
    by (auto simp: Installed_def presumed_def answer_stands_def split: sum.split)
  ultimately show ?case using 2 by (simp split: if_split)
qed simp

lemma new_detector:
  assumes "NewEvalSuiteDetector config build ttl = Inr d"
  shows "presumed d" "\<not> dt_warmed d" "dt_ttl d = ttl"
  using assms by (auto simp: NewEvalSuiteDetector_def presumed_def split: option.splits if_splits sum.splits)

lemma length_standings [simp]: "length (standings b ls) = length ls"
  by (induction ls arbitrary: b) simp_all

lemma standings_Suc:
  "Suc i < length ls \<Longrightarrow> standings b ls ! Suc i = standing (standings b ls ! i) (ls ! Suc i)"
proof (induction ls arbitrary: b i)
  case (Cons l ls)
  then show ?case by (cases i; cases ls) auto
qed simp

lemma standings_0: "ls \<noteq> [] \<Longrightarrow> standings b ls ! 0 = standing b (ls ! 0)"
  by (cases ls) simp_all

lemma standing_False: "\<not> standing b l \<longleftrightarrow> l = Some (Inr False) \<or> (\<not> b \<and> l \<noteq> Some (Inr True))"
  by (cases l) (auto simp: standing_def split: sum.split)

lemma standings_False:
  assumes "i < length ls" and "\<not> standings True ls ! i"
  shows "\<exists>j\<le>i. ls ! j = Some (Inr False) \<and> (\<forall>k. j < k \<and> k \<le> i \<longrightarrow> ls ! k \<noteq> Some (Inr True))"
  using assms
proof (induction i)
  case 0
  then show ?case using standings_0 [of ls True] by (auto simp: standing_False)
next
  case (Suc i)
  then consider "ls ! Suc i = Some (Inr False)" | "\<not> standings True ls ! i" "ls ! Suc i \<noteq> Some (Inr True)"
    by (auto simp: standings_Suc standing_False)
  then show ?case
  proof cases
    case 1
    then show ?thesis by (intro exI [of _ "Suc i"]) auto
  next
    case 2
    with Suc obtain j where "j \<le> i" "ls ! j = Some (Inr False)" "\<forall>k. j < k \<and> k \<le> i \<longrightarrow> ls ! k \<noteq> Some (Inr True)" by auto
    with 2(2) show ?thesis by (intro exI [of _ j]) (auto simp: le_Suc_eq)
  qed
qed

lemma detect_looked:
  "i < length calls \<Longrightarrow> snd (detect d calls ! i) = Some l \<Longrightarrow> l = detector_lookup (fst (snd (calls ! i)))"
  by (induction d calls arbitrary: i rule: detect.induct) (auto simp: nth_Cons split: nat.splits if_splits)

text \<open>An answer of the API server that the cluster serves no EvalSuite kind: no resource of the group has it, and the group did not fail.\<close>

definition answers_absent :: "discovery \<Rightarrow> bool" where
  "answers_absent got \<longleftrightarrow>
     (\<forall>(version, kinds)\<in>set (fst got). api_group version = Some evalSuiteGroup \<longrightarrow> evalSuiteKind \<notin> set kinds) \<and>
     (case snd got of None \<Rightarrow> True | Some (DiscoveryFailed _) \<Rightarrow> False | Some (GroupsFailed groups _) \<Rightarrow> evalSuiteGroup \<notin> set groups)"

lemma lookup_absent: "detector_lookup got = Inr False \<longleftrightarrow> answers_absent got"
  by (cases got) (auto simp: detector_lookup_def answers_absent_def serves_suite_iff split: option.splits discovery_error.splits)

text \<open>
  C17. A gate is skipped for want of the EvalSuite kind only on an answer: at whatever times the detector is called and
  whatever the API server answers, if a call makes the reconciler skip the gates of an Agent that declares some, then
  some call up to it had the answer that no such kind is served, with the group discovered, and no lookup since then found
  one. No error, and no want of an answer, skips a gate.
\<close>

theorem gate_skipped_only_on_answer:
  assumes "NewEvalSuiteDetector config build ttl = Inr d" and "i < length calls"
    and "gateModeOf (Some (fst (detect d calls ! i))) agent = gateCRDAbsent"
  shows "\<exists>j\<le>i. answers_absent (fst (snd (calls ! j))) \<and>
    (\<forall>k. j < k \<and> k \<le> i \<longrightarrow> snd (detect d calls ! k) \<noteq> Some (Inr True))"
proof -
  let ?ls = "map snd (detect d calls)"
  have p: "presumed d" by (rule new_detector [OF assms(1)])
  have "\<not> fst (detect d calls ! i)" using assms(3) by (simp add: gateModeOf_def split: if_splits)
  then have "\<not> map fst (detect d calls) ! i" using assms(2) by simp
  then have "\<not> standings True ?ls ! i" unfolding detect_standings using p by simp
  from standings_False [OF _ this] assms(2) obtain j where j: "j \<le> i" "?ls ! j = Some (Inr False)"
    and later: "\<forall>k. j < k \<and> k \<le> i \<longrightarrow> ?ls ! k \<noteq> Some (Inr True)" by auto
  have "snd (detect d calls ! j) = Some (Inr False)" using j assms(2) by simp
  from detect_looked [OF _ this] j(1) assms(2) have "detector_lookup (fst (snd (calls ! j))) = Inr False" by auto
  then have "answers_absent (fst (snd (calls ! j)))" by (simp add: lookup_absent)
  with j(1) later assms(2) show ?thesis by (intro exI [of _ j]) auto
qed

section \<open>When a lookup is made\<close>

text \<open>The lookups made so far: the time after the last one and its outcome, and whether any succeeded.\<close>

definition last_lookup :: "(go_time \<times> (string + bool) option) list \<Rightarrow> (go_time \<times> (string + bool)) option" where
  "last_lookup made = foldl (\<lambda>acc (t, l). case l of None \<Rightarrow> acc | Some r \<Rightarrow> Some (t, r)) None made"

definition ever_found :: "(go_time \<times> (string + bool) option) list \<Rightarrow> bool" where
  "ever_found made \<longleftrightarrow> (\<exists>t b. (t, Some (Inr b)) \<in> set made)"

definition lookup_spared :: "duration \<Rightarrow> (go_time \<times> (string + bool) option) list \<Rightarrow> go_time \<Rightarrow> bool" where
  "lookup_spared ttl made at \<longleftrightarrow> ever_found made \<and> (case last_lookup made of
     None \<Rightarrow> False
   | Some (t, Inr _) \<Rightarrow> at < t + ttl
   | Some (t, Inl _) \<Rightarrow> at < t + failureBackoff)"

lemma last_lookup_snoc: "last_lookup (made @ [(t, l)]) = (case l of None \<Rightarrow> last_lookup made | Some r \<Rightarrow> Some (t, r))"
  by (simp add: last_lookup_def split: option.split)

lemma ever_found_snoc: "ever_found (made @ [(t, l)]) \<longleftrightarrow> ever_found made \<or> (\<exists>b. l = Some (Inr b))"
  by (auto simp: ever_found_def)

definition knows :: "EvalSuiteDetector \<Rightarrow> (go_time \<times> (string + bool) option) list \<Rightarrow> bool" where
  "knows d made \<longleftrightarrow> dt_warmed d = ever_found made \<and> (dt_warmed d \<longrightarrow> (case last_lookup made of
     None \<Rightarrow> False
   | Some (t, Inr _) \<Rightarrow> dt_checked d = t
   | Some (t, Inl _) \<Rightarrow> dt_checked d = t - dt_ttl d + failureBackoff))"

lemma knows_spared: "knows d made \<Longrightarrow> answer_stands d at \<longleftrightarrow> lookup_spared (dt_ttl d) made at"
  by (auto simp: knows_def lookup_spared_def answer_stands_def split: option.splits sum.splits)

lemma Installed_ttl [simp]: "dt_ttl (snd (Installed d at got later)) = dt_ttl d"
  by (auto simp: Installed_def split: sum.split)

lemma knows_step:
  assumes "knows d made"
  shows "knows (snd (Installed d at got later)) (made @ [(later, if answer_stands d at then None else Some (detector_lookup got))])"
proof (cases "answer_stands d at")
  case True
  then have "snd (Installed d at got later) = d" by (simp add: Installed_def)
  with assms True show ?thesis by (simp add: knows_def last_lookup_snoc ever_found_snoc)
next
  case False
  with assms show ?thesis by (auto simp: knows_def Installed_def last_lookup_snoc ever_found_snoc split: sum.split)
qed

definition lookups_made :: "EvalSuiteDetector \<Rightarrow> detector_call list \<Rightarrow> nat \<Rightarrow> (go_time \<times> (string + bool) option) list" where
  "lookups_made d calls i = zip (map (snd \<circ> snd) (take i calls)) (map snd (take i (detect d calls)))"

lemma detect_spares:
  "knows d made \<Longrightarrow> i < length calls \<Longrightarrow>
     snd (detect d calls ! i) = None \<longleftrightarrow> lookup_spared (dt_ttl d) (made @ lookups_made d calls i) (fst (calls ! i))"
proof (induction d calls arbitrary: i made rule: detect.induct)
  case (2 d at got later calls)
  show ?case
  proof (cases i)
    case 0
    then show ?thesis using knows_spared [OF 2(2)] by (simp add: lookups_made_def)
  next
    case (Suc j)
    then show ?thesis using 2(1) [OF knows_step [OF 2(2)], of j] 2(3) by (simp add: lookups_made_def)
  qed
qed simp

text \<open>
  C23. A call makes no lookup exactly if one has succeeded before and the last one made is recent: less than the detector's
  interval ago if it succeeded, less than the back-off ago if it failed. In particular no call waits out the back-off
  before a first lookup has succeeded: each makes its own.
\<close>

theorem lookup_spared_iff:
  assumes "NewEvalSuiteDetector config build ttl = Inr d" and "i < length calls"
  shows "snd (detect d calls ! i) = None \<longleftrightarrow> lookup_spared ttl (lookups_made d calls i) (fst (calls ! i))"
proof -
  have "knows d []" using new_detector [OF assms(1)] by (simp add: knows_def ever_found_def)
  from detect_spares [OF this assms(2)] new_detector(3) [OF assms(1)] show ?thesis by simp
qed

section \<open>Witnesses\<close>

definition sample_detector :: EvalSuiteDetector where
  "sample_detector = \<lparr> dt_ttl = 30 * second, dt_cached = False, dt_checked = 0, dt_warmed = False, dt_last = None \<rparr>"

text \<open>An error, an answer without the kind, an error within the interval, and one after it.\<close>

definition sample_calls :: "detector_call list" where
  "sample_calls = [(1 * second, ([], Some (DiscoveryFailed ''refused'')), 2 * second),
     (3 * second, ([(''assayd.dev/v1alpha1'', [''Agent''])], None), 4 * second),
     (5 * second, ([], Some (DiscoveryFailed ''refused'')), 5 * second),
     (40 * second, ([], Some (DiscoveryFailed ''refused'')), 41 * second)]"

lemma sample_detector_new: "NewEvalSuiteDetector (Some ()) (\<lambda>_. Inr ()) (30 * second) = Inr sample_detector"
  by (simp add: NewEvalSuiteDetector_def sample_detector_def)

lemma sample_detect: "detect sample_detector sample_calls =
    [(True, Some (Inl (msgf ''discover server resources'' [''refused'']))), (False, Some (Inr False)), (False, None),
     (False, Some (Inl (msgf ''discover server resources'' [''refused''])))]"
  by (simp add: sample_calls_def sample_detector_def Installed_def answer_stands_def detector_lookup_def api_group_def)

lemma sample_times: "length sample_calls = 4" "fst (sample_calls ! 2) = 5 * second"
  by (simp_all add: sample_calls_def)

theorem gate_skipped_only_on_answer_witness:
  "\<exists>j\<le>3. answers_absent (fst (snd (sample_calls ! j)))"
proof -
  have "gateModeOf (Some (fst (detect sample_detector sample_calls ! 3))) (sample_gated None) = gateCRDAbsent"
    by (simp add: sample_detect gateModeOf_def sample_gated_def sample_gated_spec_def sample_agent_def)
  from gate_skipped_only_on_answer [OF sample_detector_new _ this] sample_times(1) show ?thesis by auto
qed

theorem lookup_spared_iff_witness:
  "lookup_spared (30 * second) (lookups_made sample_detector sample_calls 2) (5 * second)"
  using lookup_spared_iff [OF sample_detector_new, of 2 sample_calls] by (simp add: sample_detect sample_times)

end
