(* ===== verification/Watches.thy ===== *)
theory Watches
  imports Agent_Controller Auth_Steps Discovery Go_Text
begin

text \<open>
  What wakes a pass, and what the operator refuses to start with: the mappings \<^verbatim>\<open>SetupWithManager\<close> registers
  (\<^verbatim>\<open>agent_controller.go\<close>), what the gateway's watch cache holds (\<^verbatim>\<open>gatewaywiring.go\<close>), the key-set watch and
  its index (\<^verbatim>\<open>authkeysource.go\<close>), and the checks of \<^verbatim>\<open>NewAgentReconciler\<close>, \<^verbatim>\<open>NewEvalReconciler\<close> and
  \<^verbatim>\<open>ValidateGatewayServingURL\<close>. The manager, its informers and the scheme are the library's; a watch is the
  predicate of the objects it delivers and the requests they map to. The parser of URLs and the check
  of DNS names are arguments.

  Shown: everything rendered for an Agent wakes that Agent and no other; a rejection a transaction would go back
  for reaches it; a change of a key set wakes exactly the Agents whose keys may be in it; and an operator that
  starts with the gateway enabled has an address to probe.
\<close>

section \<open>From an object to its Agents\<close>

type_synonym request = "string \<times> string"

definition byAgentLabels :: "strmap \<Rightarrow> request list" where
  "byAgentLabels l =
     (if lbl l LabelAgentNamespace = [] \<or> lbl l LabelAgent = [] then []
      else [(lbl l LabelAgentNamespace, lbl l LabelAgent)])"

definition agent_key :: "Agent \<Rightarrow> request" where
  "agent_key agent = (ag_Namespace agent, ag_Name agent)"

text \<open>A quota or limit range of a source namespace: the Agents listed there, none if the list fails.\<close>

definition byNamespace :: "string \<Rightarrow> request list op" where
  "byNamespace ns = Ask (ListAgents ns) (\<lambda>a. Return (case a of RAgents (Inr agents) \<Rightarrow> map agent_key agents | _ \<Rightarrow> []))"

text \<open>The namespaces the run-namespace reconciler is for.\<close>

definition isRun :: "ObjectMeta \<Rightarrow> bool" where
  "isRun ns \<longleftrightarrow> has_prefix (om_Name ns) RunNamespacePrefix \<and> lbl (om_Labels ns) LabelPodsBy = ''agent-operator''"

section \<open>The gateway's watches\<close>

text \<open>
  What the cache holds: the Warning events of the Gateway's namespace with the rejection's reason, the policies that carry
  the Agent's label, and the ConfigMaps that carry the key-source label, as metadata without annotations.
\<close>

definition event_watched :: "string \<Rightarrow> Event \<Rightarrow> bool" where
  "event_watched gatewayNamespace ev \<longleftrightarrow>
     ev_Namespace ev = gatewayNamespace \<and> ev_Kind ev = ''Warning'' \<and> ev_Reason ev = NackEventReason"

definition policy_watched :: "PolicyObject \<Rightarrow> bool" where
  "policy_watched p \<longleftrightarrow> map_of (pl_Labels p) LabelAgent \<noteq> None"

definition keySet_watched :: "ObjectMeta \<Rightarrow> bool" where
  "keySet_watched o' \<longleftrightarrow> map_of (om_Labels o') APIKeySourceLabel = Some APIKeySourceValue"

definition stripKeySetMetadata :: "ObjectMeta \<Rightarrow> ObjectMeta" where
  "stripKeySetMetadata o' = o'\<lparr> om_Annotations := [] \<rparr>"

text \<open>The index of Agents by run namespace, and the Agents a change of a key set concerns: the answer of the cached list by it.\<close>

definition agentRunNamespace :: "Agent \<Rightarrow> string list" where
  "agentRunNamespace agent = [RunNamespaceName (ag_Namespace agent)]"

definition KeySetRequests :: "(string \<Rightarrow> api_error + Agent list) \<Rightarrow> ObjectMeta \<Rightarrow> request list" where
  "KeySetRequests listed o' =
     (if \<not> has_prefix (om_Namespace o') RunNamespacePrefix then []
      else case listed (om_Namespace o') of Inl e \<Rightarrow> [] | Inr agents \<Rightarrow> map agent_key agents)"

section \<open>Refusing to start\<close>

record parsed_url =
  pu_Scheme :: string
  pu_User :: bool
  pu_Host :: string
  pu_Hostname :: string
  pu_Port :: string
  pu_Path :: string
  pu_RawQuery :: string
  pu_ForceQuery :: bool
  pu_Fragment :: string

definition ValidateGatewayServingURL :: "(string \<Rightarrow> string + parsed_url) \<Rightarrow> string \<Rightarrow> string option" where
  "ValidateGatewayServingURL parse raw = (case parse raw of
     Inl e \<Rightarrow> Some (msgf ''is not a URL'' [raw, e])
   | Inr u \<Rightarrow>
     if pu_Scheme u \<noteq> ''http'' \<and> pu_Scheme u \<noteq> ''https'' then Some (msgf ''must be an absolute http or https URL'' [raw])
     else if pu_Hostname u = [] then Some (msgf ''names no host'' [raw])
     else if pu_User u then Some (msgf ''carries user information'' [raw])
     else if pu_Path u \<noteq> [] then Some (msgf ''has a path'' [raw])
     else if pu_RawQuery u \<noteq> [] \<or> pu_ForceQuery u \<or> pu_Fragment u \<noteq> [] then Some (msgf ''has a query or a fragment'' [raw])
     else if pu_Port u \<noteq> [] then (case Atoi (pu_Port u) of
          None \<Rightarrow> Some (msgf ''has a port that is not one from 1 to 65535'' [raw, pu_Port u])
        | Some n \<Rightarrow> if n < 1 \<or> n > 65535 then Some (msgf ''has a port that is not one from 1 to 65535'' [raw, pu_Port u]) else None)
     else None)"

text \<open>
  What a constructor is given besides the reconciler's fields: whether the client, the uncached reader, the scheme and
  the check of the label authority are there. \<open>dns\<close> says what is wrong with a DNS name.
\<close>

record wiring =
  wi_Client :: bool
  wi_Reader :: bool
  wi_Scheme :: bool
  wi_LabelAuthority :: bool

definition NewAgentReconciler :: "(string \<Rightarrow> string list) \<Rightarrow> (string \<Rightarrow> string + parsed_url) \<Rightarrow> wiring \<Rightarrow> AgentReconciler \<Rightarrow> string + AgentReconciler" where
  "NewAgentReconciler dns parse w r =
     (let gw = ac_Gateway r in
      if \<not> wi_Client w then Inl ''client is required''
      else if \<not> wi_Reader w then Inl ''an uncached reader is required''
      else if \<not> wi_Scheme w then Inl ''scheme is required''
      else if ac_OperatorNamespace r = [] then Inl ''operatorNamespace is required''
      else if ac_EvalSuiteInstalled r = None then Inl ''evalSuiteInstalled is required''
      else if \<not> wi_LabelAuthority w then Inl ''labelAuthority is required''
      else if gw_Enabled gw \<and> gw_Name gw = [] then Inl ''--gateway-name is empty''
      else if gw_Enabled gw \<and> gw_Namespace gw = [] then Inl ''--gateway-namespace is empty''
      else if gw_Enabled gw \<and> gw_HostnameSuffix gw = [] then Inl ''--gateway-hostname-suffix is empty''
      else if gw_Enabled gw \<and> dns (gw_HostnameSuffix gw) \<noteq> []
      then Inl (msgf ''--gateway-hostname-suffix is not a lowercase DNS subdomain'' (gw_HostnameSuffix gw # dns (gw_HostnameSuffix gw)))
      else if gw_Enabled gw \<and> gw_ServingURL gw = [] then Inl ''--gateway-serving-url is empty''
      else case (if gw_ServingURL gw \<noteq> [] then ValidateGatewayServingURL parse (gw_ServingURL gw) else None) of
        Some e \<Rightarrow> Inl (msgf ''--gateway-serving-url'' [e])
      | None \<Rightarrow> Inr r)"

definition NewEvalReconciler :: "wiring \<Rightarrow> bool option \<Rightarrow> EvalReconciler \<Rightarrow> string + EvalReconciler" where
  "NewEvalReconciler w installed rq =
     (if \<not> wi_Client w then Inl ''client is required''
      else if \<not> wi_Reader w then Inl ''an uncached reader is required''
      else case installed of None \<Rightarrow> Inl ''evalSuiteInstalled is required'' | Some b \<Rightarrow> Inr (rq\<lparr> rq_Installed := b \<rparr>))"

section \<open>What is rendered wakes its Agent\<close>

lemma byAgentLabels_revision:
  "ag_Namespace agent \<noteq> [] \<Longrightarrow> ag_Name agent \<noteq> [] \<Longrightarrow> byAgentLabels (revision_labels agent rv) = [agent_key agent]"
  by (simp add: byAgentLabels_def revision_labels_def lbl_def agent_key_def)

lemma byAgentLabels_route:
  "byAgentLabels (route_labels mode base) = byAgentLabels base"
  by (simp add: byAgentLabels_def lbl_def route_labels_map RouteAuthLabels_def)

lemma policy_labels:
  "json_labels (policy_object inp name route admit) =
     [(LabelAgentUID, ai_AgentUID inp), (LabelAgent, ai_AgentName inp), (LabelAgentNamespace, ai_AgentNamespace inp)]"
  by (simp add: policy_object_def json_labels_def json_field_def nested_members_def nested_str_def is_str_def Let_def)

text \<open>
  Everything the operator renders for an Agent and watches wakes exactly that Agent: the Deployment of each revision,
  its route in every publication and mode, its compiled policy, which the scoped cache holds; and a run namespace it
  makes is one the run-namespace reconciler is for.
\<close>

theorem rendered_objects_wake_their_agent:
  assumes "ag_Namespace agent \<noteq> []" and "ag_Name agent \<noteq> []"
    and "AuthPolicy unparse inp = Inr obj" and "(ai_AgentNamespace inp, ai_AgentName inp) = agent_key agent"
  shows "byAgentLabels (om_Labels (dp_Meta (deploymentFor cfg agent rt runNS rv material))) = [agent_key agent] \<and>
    byAgentLabels (om_Labels (hr_Meta (servingRouteFor gw agent runNS rv name servicePort pub))) = [agent_key agent] \<and>
    policy_watched (rendered_policy obj) \<and> byAgentLabels (pl_Labels (rendered_policy obj)) = [agent_key agent] \<and>
    isRun (runNamespaceFor (RunNamespaceName (ag_Namespace agent)) source nonce installUID)"
proof (intro conjI)
  show "byAgentLabels (om_Labels (dp_Meta (deploymentFor cfg agent rt runNS rv material))) = [agent_key agent]"
    using assms(1,2) by (simp add: deploymentFor_def Let_def new_meta_def byAgentLabels_revision)
  show "byAgentLabels (om_Labels (hr_Meta (servingRouteFor gw agent runNS rv name servicePort pub))) = [agent_key agent]"
    using assms(1,2) by (simp add: servingRouteFor_def new_meta_def byAgentLabels_route byAgentLabels_revision)
  obtain n route admit where obj: "obj = policy_object inp n route admit"
    using assms(3) by (auto simp: AuthPolicy_def split: if_splits sum.splits)
  show "policy_watched (rendered_policy obj)"
    by (simp add: policy_watched_def rendered_policy_def obj policy_labels)
  show "byAgentLabels (pl_Labels (rendered_policy obj)) = [agent_key agent]"
    using assms(1,2,4) by (simp add: byAgentLabels_def rendered_policy_def obj policy_labels lbl_def agent_key_def)
  show "isRun (runNamespaceFor (RunNamespaceName (ag_Namespace agent)) source nonce installUID)"
    by (simp add: isRun_def runNamespaceFor_def new_meta_def lbl_def RunNamespaceName_def has_prefix_def Let_def)
qed

section \<open>A rejection reaches its Agent\<close>

definition policy_read_maps :: "exchange list \<Rightarrow> request list \<Rightarrow> string \<times> string \<Rightarrow> bool" where
  "policy_read_maps h reqs key \<longleftrightarrow> (\<exists>a. (Get False KPolicy (fst key) (snd key), a) \<in> set h \<and>
     (\<forall>p. resp_obj as_policy a = Inr p \<longrightarrow> set (byAgentLabels (pl_Labels p)) \<subseteq> set reqs))"

lemma nacked_agents_wp:
  "op_wp (\<lambda>_ q. \<exists>key\<in>set keys. q = Get False KPolicy (fst key) (snd key))
     (\<lambda>h' reqs. set h \<subseteq> set h' \<and> set acc \<subseteq> set reqs \<and> (\<forall>key\<in>set keys. policy_read_maps h' reqs key)) h (nacked_agents keys acc)"
proof (induction keys arbitrary: acc h)
  case (Cons key keys)
  obtain ns name where key: "key = (ns, name)" by (cases key)
  define P where "P = (\<lambda>(_::exchange list) q. \<exists>key\<in>set (key # keys). q = Get False KPolicy (fst key) (snd key))"
  define Q where "Q = (\<lambda>h' reqs. set h \<subseteq> set h' \<and> set acc \<subseteq> set reqs \<and> (\<forall>key\<in>set (key # keys). policy_read_maps h' reqs key))"
  have more: "op_wp P Q (h @ [(Get False KPolicy ns name, a)]) (nacked_agents keys acc')"
    if "\<And>p. resp_obj as_policy a = Inr p \<Longrightarrow> set (byAgentLabels (pl_Labels p)) \<subseteq> set acc'" and "set acc \<subseteq> set acc'" for a acc'
    by (rule op_wp_mono [OF Cons]) (use that in \<open>auto simp: key P_def Q_def policy_read_maps_def subset_iff intro!: exI [of _ a]\<close>)
  have "op_wp P Q (h @ [(Get False KPolicy ns name, a)]) (case resp_obj as_policy a of
      Inl e \<Rightarrow> nacked_agents keys acc
    | Inr p \<Rightarrow> let agent = (lbl (pl_Labels p) LabelAgentNamespace, lbl (pl_Labels p) LabelAgent) in
        if fst agent = [] \<or> snd agent = [] \<or> agent \<in> set acc then nacked_agents keys acc else nacked_agents keys (acc @ [agent]))" for a
    by (cases "resp_obj as_policy a") (auto simp: Let_def byAgentLabels_def intro!: more split: if_splits)
  moreover have "P h (Get False KPolicy ns name)" by (simp add: P_def key)
  ultimately have "op_wp P Q h (nacked_agents (key # keys) acc)"
    unfolding key nacked_agents.simps getObj_def andThen.simps op_wp.simps by blast
  then show ?case by (simp only: P_def Q_def)
qed simp

lemma NackedPolicies_bound: "length (fst (NackedPolicies decode message)) \<le> maxNackedPolicies"
  by (simp add: NackedPolicies_def Let_def split: option.split)

text \<open>
  C22. A rejection that a transaction would go back for is not lost: an event that is the Gateway's own and names a policy
  passes the watch's selection, and its mapping reads that policy, live or not, and enqueues the Agent the policy's labels
  name, if it can be read. It reads at most 64 policies, and only those the event names.
\<close>

theorem rejection_wakes_its_agent:
  assumes "GenuineNack ev gw" and "key \<in> set (fst (NackedPolicies (ge_decodeNack env) (ev_Message ev)))"
  shows "event_watched (gw_Namespace gw) ev \<and>
    op_wp (\<lambda>_ q. \<exists>key\<in>set (fst (NackedPolicies (ge_decodeNack env) (ev_Message ev))). q = Get False KPolicy (fst key) (snd key))
      (\<lambda>h reqs. policy_read_maps h reqs key) [] (nackToAgents env ev) \<and>
    length (fst (NackedPolicies (ge_decodeNack env) (ev_Message ev))) \<le> 64"
proof (intro conjI)
  show "event_watched (gw_Namespace gw) ev" using assms(1) by (simp add: GenuineNack_def event_watched_def)
  show "op_wp (\<lambda>_ q. \<exists>key\<in>set (fst (NackedPolicies (ge_decodeNack env) (ev_Message ev))). q = Get False KPolicy (fst key) (snd key))
      (\<lambda>h reqs. policy_read_maps h reqs key) [] (nackToAgents env ev)"
    unfolding nackToAgents_def by (rule op_wp_mono [OF nacked_agents_wp]) (use assms(2) in auto)
  show "length (fst (NackedPolicies (ge_decodeNack env) (ev_Message ev))) \<le> 64"
    using NackedPolicies_bound by simp
qed

section \<open>A change of keys reaches every Agent it may concern\<close>

text \<open>The answer of the list by the index, of the Agents there are.\<close>

definition indexed :: "Agent list \<Rightarrow> string \<Rightarrow> Agent list" where
  "indexed agents runNS = filter (\<lambda>agent. runNS \<in> set (agentRunNamespace agent)) agents"

lemma RunNamespaceName_prefix: "has_prefix (RunNamespaceName source) RunNamespacePrefix"
  by (simp add: RunNamespaceName_def has_prefix_def Let_def)

text \<open>
  A changed ConfigMap wakes exactly the Agents whose run namespace it is in: the drop of what is outside run namespaces
  loses none of them.
\<close>

theorem keySet_change_wakes_its_agents:
  "KeySetRequests (\<lambda>runNS. Inr (indexed agents runNS)) (stripKeySetMetadata o') =
     map agent_key (filter (\<lambda>agent. RunNamespaceName (ag_Namespace agent) = om_Namespace o') agents)"
proof (cases "has_prefix (om_Namespace o') RunNamespacePrefix")
  case True
  then show ?thesis by (simp add: KeySetRequests_def stripKeySetMetadata_def indexed_def agentRunNamespace_def eq_commute)
next
  case False
  have "RunNamespaceName source \<noteq> om_Namespace o'" for source
    using RunNamespaceName_prefix [of source] False by auto
  then have "filter (\<lambda>agent. RunNamespaceName (ag_Namespace agent) = om_Namespace o') agents = []" by simp
  with False show ?thesis by (simp add: KeySetRequests_def stripKeySetMetadata_def)
qed

section \<open>What starts\<close>

lemma ValidateGatewayServingURL_ok:
  assumes "ValidateGatewayServingURL parse raw = None"
  shows "\<exists>u. parse raw = Inr u \<and> pu_Scheme u \<in> {''http'', ''https''} \<and> pu_Hostname u \<noteq> [] \<and> \<not> pu_User u \<and> pu_Path u = [] \<and>
    pu_RawQuery u = [] \<and> \<not> pu_ForceQuery u \<and> pu_Fragment u = [] \<and>
    (pu_Port u = [] \<or> (\<exists>n. Atoi (pu_Port u) = Some n \<and> 1 \<le> n \<and> n \<le> 65535))"
proof (cases "parse raw")
  case (Inl e)
  with assms show ?thesis by (simp add: ValidateGatewayServingURL_def)
next
  case (Inr u)
  have port: "pu_Port u = [] \<or> (\<exists>n. Atoi (pu_Port u) = Some n \<and> 1 \<le> n \<and> n \<le> 65535)"
    and rest: "pu_Scheme u \<in> {''http'', ''https''}" "pu_Hostname u \<noteq> []" "\<not> pu_User u" "pu_Path u = []" "pu_RawQuery u = []"
      "\<not> pu_ForceQuery u" "pu_Fragment u = []"
    using assms [unfolded ValidateGatewayServingURL_def Inr sum.case]
    by (simp_all split: if_split_asm option.split_asm)
  with Inr show ?thesis by blast
qed

lemma NewAgentReconciler_ok:
  assumes "NewAgentReconciler dns parse w r = Inr r'"
  shows "r' = r" and "ac_EvalSuiteInstalled r \<noteq> None" and "ac_OperatorNamespace r \<noteq> []"
    and "gw_Enabled (ac_Gateway r) \<Longrightarrow> gw_Name (ac_Gateway r) \<noteq> [] \<and> gw_Namespace (ac_Gateway r) \<noteq> [] \<and>
      gw_HostnameSuffix (ac_Gateway r) \<noteq> [] \<and> dns (gw_HostnameSuffix (ac_Gateway r)) = [] \<and> gw_ServingURL (ac_Gateway r) \<noteq> []"
    and "gw_ServingURL (ac_Gateway r) \<noteq> [] \<Longrightarrow> ValidateGatewayServingURL parse (gw_ServingURL (ac_Gateway r)) = None"
  using assms [unfolded NewAgentReconciler_def Let_def] by (simp_all split: if_split_asm option.split_asm)

text \<open>
  An operator that starts with the gateway enabled has its gate wired, a Gateway to attach to, and an address to probe: its
  serving URL names a listener over http or https and nothing else, so the anonymous probe of any Agent is sent, to that host, at
  the Agent's card path and under the Agent's own host name. \<open>parse\<close> is the parser both the check and the probe use.
\<close>

theorem started_operator_probes_the_listener:
  assumes "NewAgentReconciler dns parse w r = Inr r'" and "gw_Enabled (ac_Gateway r)"
    and "ge_parseURL (ac_env r) = (\<lambda>raw. map_sum id (\<lambda>u. (pu_Scheme u, pu_Host u)) (parse raw))"
  shows "r' = r \<and> gateModeOf (ac_EvalSuiteInstalled r') agent \<noteq> gateUnwired \<and>
    (\<exists>u. parse (gw_ServingURL (ac_Gateway r)) = Inr u \<and> pu_Scheme u \<in> {''http'', ''https''} \<and> pu_Hostname u \<noteq> [] \<and>
      \<not> pu_User u \<and> pu_Path u = [] \<and> pu_RawQuery u = [] \<and> pu_Fragment u = [] \<and>
      probeAgent (ac_env r') (ac_Gateway r') agent =
        http_probe (cardURL (pu_Scheme u) (pu_Host u) (cardPath agent)) (Hostname (ac_Gateway r) (ag_Name agent) (ag_Namespace agent)))"
proof -
  note ok = NewAgentReconciler_ok [OF assms(1)]
  have url: "gw_ServingURL (ac_Gateway r) \<noteq> []" using ok(4) assms(2) by simp
  then obtain u where u: "parse (gw_ServingURL (ac_Gateway r)) = Inr u" "pu_Scheme u \<in> {''http'', ''https''}" "pu_Hostname u \<noteq> []"
    "\<not> pu_User u" "pu_Path u = []" "pu_RawQuery u = []" "pu_Fragment u = []"
    using ValidateGatewayServingURL_ok [OF ok(5)] by blast
  then have "probeAgent (ac_env r) (ac_Gateway r) agent =
        http_probe (cardURL (pu_Scheme u) (pu_Host u) (cardPath agent)) (Hostname (ac_Gateway r) (ag_Name agent) (ag_Namespace agent))"
    using url by (simp add: probeAgent_def probeURL_def assms(3))
  moreover have "gateModeOf (ac_EvalSuiteInstalled r) agent \<noteq> gateUnwired"
    using ok(2) by (auto simp: gateModeOf_def split: option.splits)
  ultimately show ?thesis using u ok(1) by auto
qed

section \<open>Witnesses\<close>

definition sample_gateway :: GatewayConfig where
  "sample_gateway = \<lparr> gw_Enabled = True, gw_Name = ''assayd'', gw_Namespace = ''gw'', gw_HostnameSuffix = ''example.com'', gw_ServingURL = ''http://gw'' \<rparr>"

definition sample_nack :: "go_time \<Rightarrow> Event" where
  "sample_nack t = \<lparr> ev_Kind = ''Warning'', ev_Reason = NackEventReason, ev_Namespace = ''gw'', ev_EventName = ''e'',
     ev_InvolvedAPIVersion = ''gateway.networking.k8s.io/v1'', ev_InvolvedKind = ''Gateway'', ev_InvolvedName = ''assayd'',
     ev_InvolvedNamespace = ''gw'', ev_Component = AgentgatewayControllerName, ev_ReportingController = AgentgatewayControllerName,
     ev_Times = [t], ev_Message = ''m'' \<rparr>"

definition sample_auth_input :: AuthInput where
  "sample_auth_input = \<lparr> ai_AgentName = ''agent'', ai_AgentNamespace = ''team'', ai_AgentUID = ''u1'', ai_RunNamespace = ''run'' \<rparr>"

theorem rendered_objects_wake_their_agent_witness:
  "byAgentLabels (om_Labels (dp_Meta (deploymentFor sample_env_config (sample_agent zero_spec) (sample_runtime ''img'') ''run'' ''r1'' []))) =
      [(''team'', ''agent'')]"
proof -
  obtain p where "AuthPolicy sample_unparse sample_auth_input = Inr p"
    by (simp add: AuthPolicy_def sample_auth_input_def AuthPolicyName_def ServingRouteName_def EmittedName_def name_tail_def
        AdmitGroupsExpression_def admit_expr_def group_eq_def sample_unparse_def)
  from rendered_objects_wake_their_agent [of "sample_agent zero_spec", OF _ _ this, of sample_env_config "sample_runtime ''img''" "''run''" "''r1''"]
  show "byAgentLabels (om_Labels (dp_Meta (deploymentFor sample_env_config (sample_agent zero_spec) (sample_runtime ''img'') ''run'' ''r1'' []))) =
      [(''team'', ''agent'')]"
    by (simp add: sample_agent_def sample_auth_input_def agent_key_def)
qed

definition sample_env :: gateway_env where
  "sample_env = \<lparr> ge_pages = 1, ge_parseURL = (\<lambda>_. Inr (''http'', ''gw'')), ge_decodeNack = (\<lambda>_. Some [''policy/t/ns/p'']),
     ge_nackPageSize = 0, ge_nackMaxPages = 0 \<rparr>"

theorem rejection_wakes_its_agent_witness:
  "event_watched ''gw'' (sample_nack 7) \<and>
   op_wp (\<lambda>_ q. q = Get False KPolicy ''ns'' ''p'') (\<lambda>h reqs. policy_read_maps h reqs (''ns'', ''p'')) [] (nackToAgents sample_env (sample_nack 7))"
proof -
  have g: "GenuineNack (sample_nack 7) sample_gateway" by code_simp
  have n: "fst (NackedPolicies (ge_decodeNack sample_env) (ev_Message (sample_nack 7))) = [(''ns'', ''p'')]"
    unfolding sample_env_def by code_simp
  from rejection_wakes_its_agent [OF g, of "(''ns'', ''p'')" sample_env] n show ?thesis by (simp add: sample_gateway_def)
qed

definition sample_url :: parsed_url where
  "sample_url = \<lparr> pu_Scheme = ''http'', pu_User = False, pu_Host = ''gw'', pu_Hostname = ''gw'', pu_Port = [], pu_Path = [], pu_RawQuery = [],
     pu_ForceQuery = False, pu_Fragment = [] \<rparr>"

definition sample_reconciler :: AgentReconciler where
  "sample_reconciler = \<lparr> ac_EvalSuiteInstalled = Some True, ac_OperatorNamespace = ''assayd-system'', ac_InjectedEnv = sample_env_config,
     ac_Gateway = sample_gateway, ac_EvalRecordCheckTTL = 0, ac_unparse = sample_unparse, ac_decodeCard = Inl, ac_env = sample_env,
     ac_AuthDeadline = 0 \<rparr>"

theorem started_operator_probes_the_listener_witness:
  "probeAgent sample_env sample_gateway (sample_agent zero_spec) =
     http_probe (cardURL ''http'' ''gw'' (cardPath (sample_agent zero_spec))) (Hostname sample_gateway ''agent'' ''team'')"
proof -
  let ?w = "\<lparr> wi_Client = True, wi_Reader = True, wi_Scheme = True, wi_LabelAuthority = True \<rparr>"
  have "NewAgentReconciler (\<lambda>_. []) (\<lambda>_. Inr sample_url) ?w sample_reconciler = Inr sample_reconciler"
    by (simp add: NewAgentReconciler_def sample_reconciler_def sample_gateway_def ValidateGatewayServingURL_def sample_url_def)
  from started_operator_probes_the_listener [OF this, of "sample_agent zero_spec"] show ?thesis
    by (simp add: sample_reconciler_def sample_gateway_def sample_env_def sample_url_def sample_agent_def fun_eq_iff)
qed

end
