(* ===== verification/Auth_Properties.thy ===== *)
theory Auth_Properties
  imports Auth_Refinement Watches
begin

text \<open>
  What the gateway's part of a pass promises: the contract \<open>gateway_contract\<close> the Agent reconciler's pass
  rests on, which gives the safety of a promotion for the whole pass; the refinement of \<open>auth_machine\<close>; that
  a record claims enforcement only on evidence; and which objects it writes and deletes.
\<close>

section \<open>The judgements leave the record where it is\<close>

definition same_auth :: "AgentStatus \<Rightarrow> AgentStatus \<Rightarrow> bool" where
  "same_auth st st' \<longleftrightarrow> keeps_release st st' \<and> abs_auth (st_Auth st') = abs_auth (st_Auth st)"

lemma same_auth_refl [simp]: "same_auth st st"
  by (simp add: same_auth_def)

lemma same_auth_trans: "same_auth st st' \<Longrightarrow> same_auth st' st'' \<Longrightarrow> same_auth st st''"
  by (simp add: same_auth_def keeps_release_def)

lemma same_auth_flags [simp]: "same_auth st (writeTo cl st)" "same_auth st (set_keySourceEmpty b st)"
  by (auto simp: same_auth_def keeps_release_def writeTo_def claims_in_def set_keySourceEmpty_def abs_auth_def split: option.split)

lemma judgeServed_same [simp]: "same_auth (fst j) (fst (judgeServed gw agent cl j))"
  by (auto simp: judgeServed_def Let_def split: prod.split)

lemma holdServedJudgement_same [simp]: "same_auth (fst j) (fst (holdServedJudgement gw agent cl e j))"
  by (auto simp: holdServedJudgement_def Let_def split: prod.split)

lemma holdKeySource_same [simp]: "same_auth (fst j) (fst (holdKeySource gw agent cl e j))"
  by (auto simp: holdKeySource_def split: prod.split)

lemma op_wp_silent: "silent m \<Longrightarrow> (\<And>h x. Q h x) \<Longrightarrow> op_wp reads Q h m"
  unfolding silent_def by (blast intro: op_wp_mono)

lemma silent_key_reading: "silent (key_source_reading agent runNS status kp)"
proof -
  have "silent (read_key_source agent status policy)" for status policy
    unfolding read_key_source_def by (auto intro!: silent_rules split: option.split)
  then show ?thesis
    unfolding key_source_reading_def by (auto intro!: silent_rules silent_parts split: sum.split option.split)
qed

lemma judgeKeySource_wp: "op_wp reads (\<lambda>_ j'. same_auth (fst j) (fst j')) h (judgeKeySource gw agent runNS cl j)"
  unfolding judgeKeySource_def
  by (auto simp: op_wp_andThen Let_def intro!: op_wp_silent [OF silent_key_reading] split: prod.split keySourceReading.split)

lemma reportAboveServed_wp: "op_wp reads (\<lambda>_ _. True) h (reportAboveServed r agent status acc)"
  unfolding reportAboveServed_def
  by (auto simp: op_wp_andThen intro!: op_wp_silent [OF silent_lists(2)] split: option.split)

lemma judge_step_wp: "op_wp reads (\<lambda>_ j'. same_auth (fst j) (fst j')) h (judge_step r runNS cl b err agent j)"
proof (cases err)
  case None
  have j: "same_auth (fst j) (fst (if b then judgeServed (ac_Gateway r) agent cl (fst j, acc) else (fst j, acc)))" for acc
    using judgeServed_same [of "(fst j, acc)"] by simp
  have "op_wp reads (\<lambda>_ j'. same_auth (fst j) (fst j')) h' (judgeKeySource (ac_Gateway r) agent runNS cl
      (if b then judgeServed (ac_Gateway r) agent cl (fst j, acc) else (fst j, acc)))" for h' acc
    by (rule op_wp_mono [OF judgeKeySource_wp], assumption) (rule same_auth_trans [OF j])
  then show ?thesis
    unfolding judge_step_def None option.case Let_def split_beta
    by (auto simp: op_wp_andThen intro!: op_wp_mono [OF reportAboveServed_wp])
next
  case (Some e)
  have "same_auth (fst j) (fst (holdKeySource gw agent cl e (if b then holdServedJudgement gw agent cl e (fst j, acc) else (fst j, acc))))" for gw acc
    by (rule same_auth_trans [OF _ holdKeySource_same]) (use holdServedJudgement_same [of "(fst j, acc)"] in auto)
  then show ?thesis
    unfolding judge_step_def Some option.case Let_def split_beta
    by (auto simp: op_wp_andThen intro!: op_wp_mono [OF reportAboveServed_wp])
qed

section \<open>A pass of the gateway's part\<close>

definition gateway_ends :: "AgentReconciler \<Rightarrow> Agent \<Rightarrow> string \<Rightarrow> AgentStatus \<Rightarrow> exchange list \<Rightarrow> gateway_result \<Rightarrow> bool" where
  "gateway_ends r ag0 runNS st0 h res \<longleftrightarrow> (case res of (agent, acc, out, err) \<Rightarrow>
     release_seen h agent \<and> agent_at ag0 h agent \<and> (faithful h \<longrightarrow> keeps_release (ag_Status ag0) (ag_Status agent)) \<and>
     keeps_release st0 (fst acc) \<and> auth_path (refused r ag0 runNS h) (abs_auth (st_Auth st0)) (abs_auth (st_Auth (fst acc))))"

lemma gateway_endsI:
  assumes "fell r ag0 runNS st0 h s" and "same_auth (gs_status s) (fst acc)"
  shows "gateway_ends r ag0 runNS st0 h (gs_agent s, acc, out, err)"
proof -
  have "keeps_release st0 (fst acc)" using assms by (simp add: fell_def traced_def same_auth_def keeps_revision_def keeps_release_def)
  then show ?thesis
    using assms by (auto simp: gateway_ends_def fell_def traced_def same_auth_def keeps_revision_def keeps_release_def)
qed

lemma reconcileGateway_wp:
  assumes "seen h agent" and "compiled_desire desire"
  shows "op_wp (may r agent runNS (fst acc)) (gateway_ends r agent runNS (fst acc)) h (reconcileGateway r agent runNS acc desire)"
proof -
  let ?st = "fst acc"
  let ?P = "may r agent runNS ?st" and ?Q = "gateway_ends r agent runNS ?st"
  have start: "holds r agent runNS ?st (h @ t) \<lparr> gs_agent = agent, gs_status = ?st, gs_conds = c, gs_out = out \<rparr>" for t c out
    using assms(1) by (simp add: holds_def traced_def agent_at_def seen_append)
  have after: "op_wp ?P ?Q h' (andThen (judge_step r runNS cl b err (gs_agent s) (gs_status s, rep)) (\<lambda>(status', c', out).
      Return (gs_agent s, (status', c'), out, err')))" if "fell r agent runNS ?st h' s" for h' s cl b err err' rep
  proof -
    have "op_wp ?P (\<lambda>h'' j. fell r agent runNS ?st h'' s \<and> same_auth (gs_status s) (fst j)) h'
        (judge_step r runNS cl b err (gs_agent s) (gs_status s, rep))"
      by (rule op_wp_mono [OF op_wp_extends [OF judge_step_wp]]) (use that in \<open>auto intro: reads_may fell_append\<close>)
    then show ?thesis
      unfolding op_wp_andThen by (rule op_wp_mono) (auto intro: gateway_endsI split: prod.split)
  qed
  have panic: "?Q h' (gs_agent s, (gs_status s, c), out, err)" if "fell r agent runNS ?st h' s" for h' s c out err
    by (rule gateway_endsI [OF that]) simp
  have ended: "fell r agent runNS ?st h' (snd res)" if "ends r agent runNS ?st (\<lambda>_ _ _. True) h' res" for h' and res :: "(go_error + unit) \<times> gstate"
    using that by (auto simp: ends_def intro: holds_fell split: prod.splits sum.splits)
  have step: "op_wp ?P ?Q (h @ t) (andThen (gatewayStep r runNS desire \<lparr> gs_agent = agent, gs_status = ?st, gs_conds = c, gs_out = no_outcome \<rparr>) (\<lambda>(res, s).
       case (case res of Inl e \<Rightarrow> Some e | Inr _ \<Rightarrow> None) of
         Some (GoPanic t) \<Rightarrow> Return (gs_agent s, (gs_status s, gs_conds s), gs_out s, case res of Inl e \<Rightarrow> Some e | Inr _ \<Rightarrow> None)
       | _ \<Rightarrow> andThen (judge_step r runNS cl b (case res of Inl e \<Rightarrow> Some e | Inr _ \<Rightarrow> None) (gs_agent s) (gs_status s, rep res s)) (\<lambda>(status', c', out).
           Return (gs_agent s, (status', c'), out, case res of Inl e \<Rightarrow> Some e | Inr _ \<Rightarrow> None))))" for t c cl b rep
    unfolding op_wp_andThen [of _ _ _ "gatewayStep r runNS desire _"]
    by (rule op_wp_mono [OF tri_gatewayStep [OF assms(2), unfolded tri_def, rule_format, OF start], OF gstate.select_convs(1)])
      (auto dest!: ended intro: after panic split: sum.split option.split go_error.split)
  show ?thesis
    unfolding reconcileGateway_def Let_def
    by (cases acc) (use step [of "[]"] step in \<open>auto simp: op_wp_andThen clockNow_def intro: reads_may\<close>)
qed

section \<open>The contract\<close>

lemma revoke_quiet_parts: "quiet (deleteAuthPolicy agent runNS)" "quiet (revokeGateway agent runNS)"
proof -
  show policy: "quiet (deleteAuthPolicy agent runNS)"
    unfolding deleteAuthPolicy_def confirm_deleted_def quiet_def
    by (auto simp: wp_rules quiet_request_def split: sum.split option.split)
  show "quiet (revokeGateway agent runNS)"
    unfolding revokeGateway_def listOwnedRoutes_def
    by (auto intro!: quiet_intros quiet_components policy split: list.split sum.split)
qed

lemma may_gateway_request: "may r agent runNS st h q \<Longrightarrow> gateway_request h q"
  by (auto simp: may_def gateway_request_def reads_def policy_request_def serving_request_def route_request_def status_write_def auth_only_def
      keeps_release_def split: req.splits kobj.splits)

interpretation gateway: gateway_contract "gateway_parts r" for r
proof
  show "op_wp gateway_request (gateway_post agent (fst acc)) h (go_reconcile (gateway_parts r) agent runNS acc desire)"
    if "seen h agent" "compiled_desire desire" for h agent desire acc runNS
    unfolding gateway_parts_def gateway_ops.select_convs
    by (rule op_wp_mono [OF reconcileGateway_wp [OF that]]) (auto intro: may_gateway_request simp: gateway_ends_def gateway_post_def split: prod.splits)
  show "quiet (go_revoke (gateway_parts r) agent runNS)" for agent runNS
    by (simp add: gateway_parts_def revoke_quiet_parts)
qed

section \<open>What a pass of the gateway's part may do\<close>

text \<open>After the pass read the Agent, with whatever status the pass has at hand.\<close>

abbreviation agent_was_read :: "Agent \<Rightarrow> exchange list" where
  "agent_was_read agent \<equiv> [(GetAgent False (ag_Namespace agent) (ag_Name agent), RAgent (Inr agent))]"

lemma seen_was_read: "seen (agent_was_read agent) agent"
  by (auto simp: seen_def intro: versions_read)

lemmas gateway_pass = reconcileGateway_wp [OF seen_was_read compiled_desiredAuth]

lemma may_auth_path: "may r agent runNS st h (UpdateStatus a) \<Longrightarrow>
    auth_path (refused r agent runNS h) (abs_auth (st_Auth st)) (abs_auth (st_Auth (ag_Status a)))"
  by (auto simp: may_def reads_def policy_request_def serving_request_def route_request_def split: kobj.splits)

text \<open>A relation between the record the pass started with and one it writes or hands back, which may depend on what was exchanged.\<close>

definition record_request :: "(exchange list \<Rightarrow> auth_state \<Rightarrow> bool) \<Rightarrow> exchange list \<Rightarrow> req \<Rightarrow> bool" where
  "record_request R h q = (case q of UpdateStatus a \<Rightarrow> R h (abs_auth (st_Auth (ag_Status a))) | _ \<Rightarrow> True)"

definition record_result :: "(exchange list \<Rightarrow> auth_state \<Rightarrow> bool) \<Rightarrow> exchange list \<Rightarrow> gateway_result \<Rightarrow> bool" where
  "record_result R h res = (case res of (agent, acc, out, err) \<Rightarrow> R h (abs_auth (st_Auth (fst acc))))"

lemma record_wp:
  assumes "\<And>h y. auth_path (refused r agent runNS h) (abs_auth (st_Auth (fst acc))) y \<Longrightarrow> R h y"
  shows "op_wp (record_request R) (record_result R) (agent_was_read agent)
     (reconcileGateway r agent runNS acc (desiredAuth unparse agent' ns'))"
  by (rule op_wp_mono [OF gateway_pass])
    (auto simp: record_request_def record_result_def gateway_ends_def intro!: assms dest: may_auth_path split: req.split prod.splits)

text \<open>What a record claims, it claims on evidence; a record that keeps its type and stays locked.\<close>

definition on_evidence :: "(auth_state \<Rightarrow> bool) \<Rightarrow> AgentReconciler \<Rightarrow> Agent \<Rightarrow> string \<Rightarrow> exchange list \<Rightarrow> auth_state \<Rightarrow> bool" where
  "on_evidence claims r agent runNS h y \<longleftrightarrow> (claims y \<longrightarrow> refused r agent runNS h)"

definition follows_type :: "auth_state \<Rightarrow> auth_state \<Rightarrow> bool" where
  "follows_type x y \<longleftrightarrow> wf_auth y \<and> (fst x = AuthModeAPIKey \<longrightarrow> fst y = AuthModeAPIKey)"


text \<open>
  C5. A key is claimed only on evidence: a record that is served under a key, or is a Create under a key that may
  publish, was so when the pass started, or, if the server is faithful, an anonymous request through this Agent's
  host got 401 after its policy was read as compiled and before the Gateway and its policies were read with
  nothing above the route that could have answered.
\<close>

theorem key_claimed_on_evidence:
  "op_wp (record_request (\<lambda>h y. keyed (abs_auth (st_Auth (fst acc))) \<or> on_evidence keyed r agent runNS h y))
     (record_result (\<lambda>h y. keyed (abs_auth (st_Auth (fst acc))) \<or> on_evidence keyed r agent runNS h y)) (agent_was_read agent)
     (reconcileGateway r agent runNS acc (desiredAuth unparse agent runNS))"
  by (rule record_wp) (auto simp: on_evidence_def dest: keyed_path)

text \<open>
  C11. The type of a record: a well-formed record is only ever followed by well-formed ones; and the lock is one way,
  a record served under a key is followed by records served under a key.
\<close>

theorem records_keep_type:
  assumes "wf_auth (abs_auth (st_Auth (fst acc)))"
  shows "op_wp (record_request (\<lambda>h. follows_type (abs_auth (st_Auth (fst acc)))))
     (record_result (\<lambda>h. follows_type (abs_auth (st_Auth (fst acc))))) (agent_was_read agent)
     (reconcileGateway r agent runNS acc (desiredAuth unparse agent runNS))"
  by (rule record_wp) (use assms in \<open>auto simp: follows_type_def intro: wf_auth_path one_way_path\<close>)

text \<open>A claim the record did not make before: a Create under a key that may publish, and a record that is served under a key again.\<close>

definition published_anew :: "auth_state \<Rightarrow> auth_state \<Rightarrow> bool" where
  "published_anew x y \<longleftrightarrow> publishing y \<or> y = (AuthModeAPIKey, None) \<and> x \<noteq> y"

lemma published_anew_path: "auth_path e x y \<Longrightarrow> wf_auth x \<Longrightarrow> \<not> publishing x \<Longrightarrow> published_anew x y \<Longrightarrow> e"
  using publishing_path [of e x y] may_publish_path [of e x y]
  by (auto simp: published_anew_def may_publish_def publishing_def)

text \<open>
  C12. A route is published again only on new evidence. Unless the record is a Create under a key already stored at Publishing
  when the pass starts, a pass writes one at Publishing, or makes a record served under a key that was not so at the start,
  only after the evidence of this pass, on a server that is faithful about the Agent. This holds of a record served under the key
  whose route is gone: what it was served under before is not enough to publish the route that is re-created.
\<close>

theorem republish_on_new_evidence:
  assumes "wf_auth (abs_auth (st_Auth (fst acc)))" and "\<not> publishing (abs_auth (st_Auth (fst acc)))"
  shows "op_wp (record_request (on_evidence (published_anew (abs_auth (st_Auth (fst acc)))) r agent runNS))
     (record_result (on_evidence (published_anew (abs_auth (st_Auth (fst acc)))) r agent runNS)) (agent_was_read agent)
     (reconcileGateway r agent runNS acc (desiredAuth unparse agent runNS))"
  by (rule record_wp) (use assms in \<open>auto simp: on_evidence_def dest: published_anew_path\<close>)

text \<open>The requests on objects of this Agent, in a pass that starts from a status.\<close>

definition own_objects :: "AgentReconciler \<Rightarrow> Agent \<Rightarrow> string \<Rightarrow> AgentStatus \<Rightarrow> exchange list \<Rightarrow> req \<Rightarrow> bool" where
  "own_objects r agent runNS st0 h q \<longleftrightarrow> reads h q \<or> policy_request r agent runNS h q \<or> serving_request r agent runNS st0 h q \<or>
     (\<exists>a. q = UpdateStatus a \<and> status_write auth_only h a)"

text \<open>
  C9. The objects, on a server that answers status writes with the same Agent and its release (\<open>faithful\<close>). Besides reads, a
  pass requests only this. It creates the policy compiled from the Agent's spec, and updates or deletes, at the version read, a policy
  read with the Agent's UID. It creates or updates the HTTPRoute of the Agent's own route name, rendered for the revision and digest the
  status serves, published as a record permits that the abstract machine reaches from the one at the start with the evidence so far; an update is of a route
  read at that name that does not collide. It strips or deletes a route read live at that name that does not collide: its UID label is
  absent or the Agent's, or its labels name this Agent. It collects a listed route only with the Agent's UID
  and a name that is the Agent's route name. Its status writes change the record, and bound the messages of conditions, and nothing else of
  the version they are made at. On any server, the route's name, revision, digest and publication and the status writes are as said.
\<close>

theorem gateway_touches_only_its_own:
  "op_wp (own_objects r agent runNS (fst acc)) (\<lambda>_ _. True) (agent_was_read agent)
     (reconcileGateway r agent runNS acc (desiredAuth unparse agent runNS))"
  by (rule op_wp_mono [OF gateway_pass]) (auto simp: own_objects_def may_def)

text \<open>
  C8. A whole pass promotes only what it may: with the modelled gateway, every status write of a pass either keeps
  the release of the version it is made at or promotes a revision whose Deployment was read available under its
  digest, with its gate open on what was read.
\<close>

theorem pass_promotes_only_open:
  "op_wp (pass_request r ns name) (\<lambda>_ _. True) [] (agent_Reconcile r (gateway_parts r) ns name)"
  by (rule gateway.agent_Reconcile_wp)

section \<open>Tearing down\<close>

definition owned_route :: "Agent \<Rightarrow> HTTPRoute \<Rightarrow> bool" where
  "owned_route agent rt \<longleftrightarrow> lbl (om_Labels (hr_Meta rt)) LabelAgentUID = ag_UID agent \<and> ServingRouteName (ag_Name agent) = Inr (om_Name (hr_Meta rt))"

text \<open>A live list of routes that holds none of the Agent's.\<close>

definition routes_gone :: "Agent \<Rightarrow> string \<Rightarrow> exchange list \<Rightarrow> bool" where
  "routes_gone agent runNS h \<longleftrightarrow> (\<exists>a rts. (ListOf True KHTTPRoute runNS [(LabelAgent, ag_Name agent)], a) \<in> set h \<and>
     resp_objs as_route a = Inr rts \<and> (\<forall>rt\<in>set rts. \<not> owned_route agent rt))"

text \<open>Routes are deleted if they are the Agent's; the policy only once no route is left, as read, and only if it is the Agent's.\<close>

definition revoke_request :: "Agent \<Rightarrow> string \<Rightarrow> exchange list \<Rightarrow> req \<Rightarrow> bool" where
  "revoke_request agent runNS h q \<longleftrightarrow> reads h q \<or> (\<exists>rt. q = Delete (ORoute rt) None \<and> owned_route agent rt) \<or>
     (\<exists>p n. q = DeleteExact (OPolicy p) (pl_UID p) (pl_ResourceVersion p) \<and> routes_gone agent runNS h \<and>
        (Get False KPolicy runNS n, RObj (Inr (OPolicy p))) \<in> set h \<and> lbl (pl_Labels p) LabelAgentUID = ag_UID agent)"

text \<open>It is done only once no route and no policy of the Agent's is left.\<close>

definition revoke_result :: "Agent \<Rightarrow> string \<Rightarrow> exchange list \<Rightarrow> go_error + string \<Rightarrow> bool" where
  "revoke_result agent runNS h res \<longleftrightarrow> (res = Inr [] \<longrightarrow> routes_gone agent runNS h \<and>
     (\<exists>name a. AuthPolicyName (ag_Name agent) = Inr name \<and> (Get False KPolicy runNS name, a) \<in> set h \<and>
        (case resp_obj as_policy a of Inl e \<Rightarrow> IsNotFound e | Inr p \<Rightarrow> lbl (pl_Labels p) LabelAgentUID \<noteq> ag_UID agent)))"

lemma heldBy_nonempty [simp]: "heldBy_route rt \<noteq> []" "heldBy_policy p \<noteq> []"
  by (simp_all add: heldBy_route_def heldBy_policy_def heldBy_def)

lemma routes_gone_append: "routes_gone agent runNS h \<Longrightarrow> routes_gone agent runNS (h @ t)"
  unfolding routes_gone_def by (metis UnCI set_append)

lemma listOwnedRoutes_wp:
  "op_wp reads (\<lambda>h' res. \<forall>rts. res = Inr rts \<longrightarrow> (\<forall>rt\<in>set rts. owned_route agent rt) \<and> (rts = [] \<longrightarrow> routes_gone agent runNS h')) h
     (listOwnedRoutes True agent runNS)"
  unfolding listOwnedRoutes_def listOr_def listObjs_def
  by (auto simp: wp_rules owned_route_def routes_gone_def filter_empty_conv split: sum.split intro!: exI)

lemma revoke_result_other: "revoke_result agent runNS h (Inl e)" "revoke_result agent runNS h (Inr (heldBy_policy p))" "revoke_result agent runNS h (Inr (heldBy_route rt))"
  by (simp_all add: revoke_result_def)

lemma revoke_result_gone:
  assumes "routes_gone agent runNS h" and "AuthPolicyName (ag_Name agent) = Inr name" and "(Get False KPolicy runNS name, a) \<in> set h"
    and "case resp_obj as_policy a of Inl e \<Rightarrow> IsNotFound e | Inr p \<Rightarrow> lbl (pl_Labels p) LabelAgentUID \<noteq> ag_UID agent"
  shows "revoke_result agent runNS h res"
  using assms unfolding revoke_result_def by blast

lemma confirm_deleted_wp:
  assumes "routes_gone agent runNS h" and "AuthPolicyName (ag_Name agent) = Inr name"
  shows "op_wp (revoke_request agent runNS) (revoke_result agent runNS) h
     (andThen (getObj False KPolicy as_policy runNS name) (confirm_deleted name runNS))"
proof -
  let ?q = "Get False KPolicy runNS name"
  have "revoke_result agent runNS (h @ [(?q, a)]) (case resp_obj as_policy a of
     Inl e \<Rightarrow> if IsNotFound e then Inr [] else Inl (ApiFail (msgf ''confirm policy is deleted'' [name, runNS]) e)
   | Inr after \<Rightarrow> Inr (heldBy_policy after))" for a
  proof (cases "resp_obj as_policy a")
    case (Inl e)
    have "revoke_result agent runNS (h @ [(?q, a)]) (Inr [])" if "IsNotFound e"
      by (rule revoke_result_gone [OF routes_gone_append [OF assms(1)] assms(2), of a]) (use Inl that in simp_all)
    then show ?thesis by (simp add: Inl revoke_result_other)
  qed (simp add: revoke_result_other)
  then show ?thesis
    by (simp add: confirm_deleted_def getObj_def op_wp_andThen revoke_request_def)
qed

lemma revoke_policy_wp:
  assumes "routes_gone agent runNS h"
  shows "op_wp (revoke_request agent runNS) (revoke_result agent runNS) h (deleteAuthPolicy agent runNS)"
proof (cases "AuthPolicyName (ag_Name agent)")
  case (Inr name)
  let ?q = "Get False KPolicy runNS name"
  have gone: "routes_gone agent runNS (h @ t)" for t using assms by (rule routes_gone_append)
  have got: "op_wp (revoke_request agent runNS) (revoke_result agent runNS) (h @ [(?q, a)]) (case resp_obj as_policy a of
       Inl e \<Rightarrow> Return (if IsNotFound e then Inr [] else Inl (read_policy_error name runNS e))
     | Inr p \<Rightarrow>
       if lbl (pl_Labels p) LabelAgentUID \<noteq> ag_UID agent then Return (Inr [])
       else Ask (DeleteExact (OPolicy p) (pl_UID p) (pl_ResourceVersion p)) (\<lambda>a. case resp_done a of
          Some e \<Rightarrow> if IsNotFound e then andThen (getObj False KPolicy as_policy runNS name) (confirm_deleted name runNS)
             else Return (Inl (ApiFail (msgf ''delete policy'' [name, runNS]) e))
        | None \<Rightarrow> andThen (getObj False KPolicy as_policy runNS name) (confirm_deleted name runNS)))" for a
  proof (cases "resp_obj as_policy a")
    case (Inl e)
    have "revoke_result agent runNS (h @ [(?q, a)]) (Inr [])" if "IsNotFound e"
      by (rule revoke_result_gone [OF gone Inr, of a]) (use Inl that in simp_all)
    then show ?thesis by (simp add: Inl revoke_result_other)
  next
    case read: (Inr p)
    have other: "revoke_result agent runNS (h @ [(?q, a)]) (Inr [])" if "lbl (pl_Labels p) LabelAgentUID \<noteq> ag_UID agent"
      by (rule revoke_result_gone [OF gone Inr, of a]) (use read that in simp_all)
    have a: "a = RObj (Inr (OPolicy p))" using read by (simp add: resp_obj_policy)
    have "revoke_request agent runNS (h @ [(?q, a)]) (DeleteExact (OPolicy p) (pl_UID p) (pl_ResourceVersion p))"
      if "lbl (pl_Labels p) LabelAgentUID = ag_UID agent"
      using that gone a by (auto simp: revoke_request_def)
    then show ?thesis
      using confirm_deleted_wp [OF gone [of "[(?q, a), d]" for d] Inr] other
      by (simp add: read revoke_result_other split: option.split)
  qed
  show ?thesis
    unfolding deleteAuthPolicy_def Inr sum.case getObj_def [of False KPolicy as_policy runNS name] andThen.simps op_wp.simps
    using got [unfolded getObj_def andThen.simps] by (intro conjI allI) (simp add: revoke_request_def)
qed (simp add: deleteAuthPolicy_def revoke_result_other)

text \<open>
  C10. The teardown is in order and takes nothing that is not the Agent's: a route is deleted only if it carries the
  Agent's UID and its route's name; the policy is deleted, as it was read, only after a live list held no route
  of the Agent's; and it is reported done only once both are gone, or the policy is another's.
\<close>

theorem revokeGateway_in_order:
  "op_wp (revoke_request agent runNS) (revoke_result agent runNS) [] (revokeGateway agent runNS)"
proof -
  have loop: "op_wp (revoke_request agent runNS) (\<lambda>_ _. True) h (forEach (\<lambda>rt. deleteGone (msgf ''delete route'' [om_Name (hr_Meta rt), runNS]) (ORoute rt)) rts)"
    if "\<forall>rt\<in>set rts. owned_route agent rt" for h rts
    by (rule op_wp_forEach) (use that in \<open>auto simp: deleteGone_def deleteObj_def op_wp_andThen revoke_request_def split: option.split\<close>)
  have list: "op_wp (revoke_request agent runNS) (\<lambda>h' res. \<forall>rts. res = Inr rts \<longrightarrow> (\<forall>rt\<in>set rts. owned_route agent rt) \<and>
      (rts = [] \<longrightarrow> routes_gone agent runNS h')) h (listOwnedRoutes True agent runNS)" for h
    by (rule op_wp_mono [OF listOwnedRoutes_wp]) (auto simp: revoke_request_def)
  have again: "op_wp (revoke_request agent runNS) (revoke_result agent runNS) h (tryThen (listOwnedRoutes True agent runNS) (\<lambda>remaining. case remaining of
        rt # _ \<Rightarrow> Return (Inr (heldBy_route rt)) | [] \<Rightarrow> deleteAuthPolicy agent runNS))" for h
    unfolding op_wp_tryThen
    by (rule op_wp_mono [OF list]) (auto simp: revoke_result_other intro: revoke_policy_wp split: sum.split list.split)
  show ?thesis
    unfolding revokeGateway_def op_wp_tryThen [of _ _ _ "listOwnedRoutes True agent runNS"]
    by (rule op_wp_mono [OF list]) (auto simp: op_wp_tryThen revoke_result_other intro!: op_wp_mono [OF loop] again [unfolded op_wp_tryThen, simplified revoke_result_other] split: sum.split)
qed

section \<open>What is claimed of a served Agent\<close>

lemma announce_judges [simp]: "gw_judgePolicy (snd (announce reason msg acc)) = gw_judgePolicy (snd acc)"
  by (auto simp: announce_def withholdInOrder_def split: prod.split)

lemma holdIncomplete_judges [simp]: "gw_judgePolicy (snd (holdIncomplete agent reason fallback z acc)) = gw_judgePolicy (snd acc)"
  by (auto simp: holdIncomplete_def withholdInOrder_def Let_def split: prod.split option.split)

lemma judge_route_policy: "gw_judgePolicy (snd (snd (judge_route gw agent cl acc))) = gw_judgePolicy (snd acc)"
  by (simp add: judge_route_def Let_def split_beta split: gatewayReport.split)

text \<open>
  What the Gateway reports, said of the objects themselves. Of a route: the conditions in the first entry of its status for the
  Gateway, written by the Gateway's own controller. Of a policy: those in the last entry of its status for the Gateway.
  Only a condition that observed the object's generation says anything of it.
\<close>

definition first_of :: "('a \<Rightarrow> bool) \<Rightarrow> 'a list \<Rightarrow> 'a \<Rightarrow> bool" where
  "first_of Q xs x \<longleftrightarrow> (\<exists>ys zs. xs = ys @ x # zs \<and> Q x \<and> (\<forall>y \<in> set ys. \<not> Q y))"

definition last_of :: "('a \<Rightarrow> bool) \<Rightarrow> 'a list \<Rightarrow> 'a \<Rightarrow> bool" where
  "last_of Q xs x \<longleftrightarrow> (\<exists>ys zs. xs = ys @ x # zs \<and> Q x \<and> (\<forall>y \<in> set zs. \<not> Q y))"

definition route_says :: "GatewayConfig \<Rightarrow> HTTPRoute \<Rightarrow> string \<Rightarrow> condition \<Rightarrow> bool" where
  "route_says gw rt t c \<longleftrightarrow> (\<exists>p.
     first_of (\<lambda>p. pr_Name (rs_ParentRef p) = gw_Name gw \<and> rs_ControllerName p = ''agentgateway.dev/agentgateway'' \<and>
       (pr_Namespace (rs_ParentRef p) = Some (gw_Namespace gw) \<or>
        pr_Namespace (rs_ParentRef p) = None \<and> om_Namespace (hr_Meta rt) = gw_Namespace gw)) (hr_Parents rt) p \<and>
     first_of (\<lambda>c. c_Type c = t) (rs_Conditions p) c \<and> c_ObservedGeneration c = hr_Generation rt)"

definition policy_says :: "GatewayConfig \<Rightarrow> PolicyObject \<Rightarrow> string \<Rightarrow> condition \<Rightarrow> bool" where
  "policy_says gw p t c \<longleftrightarrow> (\<exists>m.
     last_of (\<lambda>m. an_Group m = GatewayGroupName \<and> an_Kind m = ''Gateway'' \<and> an_Name m = gw_Name gw \<and> an_Namespace m = gw_Namespace gw)
       (pl_Ancestors p) m \<and>
     first_of (\<lambda>c. c_Type c = t) (an_Conditions m) c \<and> c_ObservedGeneration c = pl_Generation p)"

text \<open>What raises a claim, and what withdraws one.\<close>

definition route_refused :: "GatewayConfig \<Rightarrow> HTTPRoute \<Rightarrow> bool" where
  "route_refused gw rt \<longleftrightarrow> (\<exists>c. (route_says gw rt ''Accepted'' c \<or> route_says gw rt ''ResolvedRefs'' c) \<and> c_Status c = CFalse)"

definition route_reported :: "GatewayConfig \<Rightarrow> HTTPRoute \<Rightarrow> bool" where
  "route_reported gw rt \<longleftrightarrow> (\<exists>c. route_says gw rt ''Accepted'' c) \<and> (\<exists>c. route_says gw rt ''ResolvedRefs'' c)"

definition policy_broken :: "GatewayConfig \<Rightarrow> PolicyObject \<Rightarrow> bool" where
  "policy_broken gw p \<longleftrightarrow> (\<exists>m \<in> set (pl_Ancestors p). an_Group m = ''agentgateway.dev'' \<and> an_Name m = ''StatusSummary'') \<or>
     (\<exists>c. policy_says gw p ''Attached'' c \<and> c_Status c = CFalse) \<or>
     (\<exists>c. policy_says gw p ''Accepted'' c \<and> (c_Status c = CFalse \<or> c_Status c = CTrue \<and> c_Reason c \<noteq> ''Valid''))"

definition policy_reported :: "GatewayConfig \<Rightarrow> PolicyObject \<Rightarrow> bool" where
  "policy_reported gw p \<longleftrightarrow> (\<exists>c. policy_says gw p ''Accepted'' c) \<and> (\<exists>c. policy_says gw p ''Attached'' c)"

definition claim_after :: "('a \<Rightarrow> bool) \<Rightarrow> ('a \<Rightarrow> bool) \<Rightarrow> 'a option \<Rightarrow> bool \<Rightarrow> bool" where
  "claim_after bad reported x claim \<longleftrightarrow> (case x of None \<Rightarrow> claim | Some y \<Rightarrow> bad y \<or> claim \<and> \<not> reported y)"

lemma first_of_Cons [simp]: "first_of Q (y # ys) x \<longleftrightarrow> (if Q y then x = y else first_of Q ys x)"
proof (cases "Q y")
  case False
  have "first_of Q ys x \<Longrightarrow> first_of Q (y # ys) x"
    unfolding first_of_def using False by (metis append_Cons set_ConsD)
  with False show ?thesis by (auto simp: first_of_def Cons_eq_append_conv)
qed (auto simp: first_of_def Cons_eq_append_conv)

lemma first_of_Nil [simp]: "\<not> first_of Q [] x"
  by (simp add: first_of_def)

lemma first_of_find: "first_of Q xs x \<longleftrightarrow> find Q xs = Some x"
  by (induction xs) auto

lemma last_of_find: "last_of Q xs x \<longleftrightarrow> find Q (rev xs) = Some x"
proof -
  have "last_of Q xs x \<longleftrightarrow> first_of Q (rev xs) x"
  proof
    assume "last_of Q xs x"
    then obtain ys zs where "xs = ys @ x # zs" "Q x" "\<forall>y \<in> set zs. \<not> Q y" unfolding last_of_def by blast
    then show "first_of Q (rev xs) x" unfolding first_of_def by (intro exI [of _ "rev zs"] exI [of _ "rev ys"]) simp
  next
    assume "first_of Q (rev xs) x"
    then obtain ys zs where "rev xs = ys @ x # zs" "Q x" "\<forall>y \<in> set ys. \<not> Q y" unfolding first_of_def by blast
    moreover from this have "xs = rev zs @ x # rev ys" by (simp add: rev_swap)
    ultimately show "last_of Q xs x" unfolding last_of_def by (intro exI [of _ "rev zs"] exI [of _ "rev ys"]) simp
  qed
  then show ?thesis by (simp add: first_of_find)
qed

lemma reported_at_says: "reported_at gen conds t = Some c \<longleftrightarrow> first_of (\<lambda>c. c_Type c = t) conds c \<and> c_ObservedGeneration c = gen"
  by (auto simp: reported_at_def findCondition_def first_of_find split: option.splits)

lemma route_says_find:
  "route_says gw rt t c \<longleftrightarrow> (\<exists>p. find (\<lambda>p. gateway_parent gw rt p \<and> rs_ControllerName p = AgentgatewayControllerName) (hr_Parents rt) = Some p \<and>
     reported_at (hr_Generation rt) (rs_Conditions p) t = Some c)"
proof -
  have "(\<lambda>p. pr_Name (rs_ParentRef p) = gw_Name gw \<and> rs_ControllerName p = ''agentgateway.dev/agentgateway'' \<and>
       (pr_Namespace (rs_ParentRef p) = Some (gw_Namespace gw) \<or>
        pr_Namespace (rs_ParentRef p) = None \<and> om_Namespace (hr_Meta rt) = gw_Namespace gw)) =
      (\<lambda>p. gateway_parent gw rt p \<and> rs_ControllerName p = AgentgatewayControllerName)"
    by (auto simp: gateway_parent_def fun_eq_iff split: option.splits)
  then show ?thesis by (simp only: route_says_def first_of_find reported_at_says)
qed

lemma policy_says_find:
  "policy_says gw p t c \<longleftrightarrow> (\<exists>m. find (gateway_ancestor gw) (rev (pl_Ancestors p)) = Some m \<and>
     reported_at (pl_Generation p) (an_Conditions m) t = Some c)"
proof -
  have "(\<lambda>m. an_Group m = GatewayGroupName \<and> an_Kind m = ''Gateway'' \<and> an_Name m = gw_Name gw \<and> an_Namespace m = gw_Namespace gw) =
      gateway_ancestor gw"
    by (simp add: gateway_ancestor_def fun_eq_iff)
  then show ?thesis by (simp only: policy_says_def last_of_find first_of_find reported_at_says)
qed

lemma routeReport_claim:
  "(case fst (routeReport r gw) of reportBroken \<Rightarrow> True | reportHolding \<Rightarrow> False | reportUnknown \<Rightarrow> claim) =
     claim_after (route_refused gw) (route_reported gw) r claim"
proof (cases r)
  case (Some rt)
  show ?thesis
  proof (cases "find (\<lambda>p. gateway_parent gw rt p \<and> rs_ControllerName p = AgentgatewayControllerName) (hr_Parents rt)")
    case None
    then show ?thesis
      by (simp add: Some routeReport_def claim_after_def route_refused_def route_reported_def route_says_find)
  next
    case parent: (Some p)
    show ?thesis
      by (cases "reported_at (hr_Generation rt) (rs_Conditions p) ''Accepted''"; cases "reported_at (hr_Generation rt) (rs_Conditions p) ''ResolvedRefs''")
        (auto simp: Some parent routeReport_def claim_after_def route_refused_def route_reported_def route_says_find map_filter_simps)
  qed
qed (simp add: routeReport_def claim_after_def)

lemma policyReport_claim:
  "(case fst (policyReport r gw) of reportBroken \<Rightarrow> True | reportHolding \<Rightarrow> False | reportUnknown \<Rightarrow> claim) =
     claim_after (policy_broken gw) (policy_reported gw) r claim"
proof (cases r)
  case (Some p)
  have summary: "find status_summary (pl_Ancestors p) = None \<longleftrightarrow>
      \<not> (\<exists>m \<in> set (pl_Ancestors p). an_Group m = ''agentgateway.dev'' \<and> an_Name m = ''StatusSummary'')"
    by (auto simp: find_None_iff status_summary_def)
  show ?thesis
  proof (cases "find status_summary (pl_Ancestors p)")
    case no_summary: None
    show ?thesis
    proof (cases "find (gateway_ancestor gw) (rev (pl_Ancestors p))")
      case None
      then show ?thesis
        using no_summary summary by (auto simp: Some policyReport_def claim_after_def policy_broken_def policy_reported_def policy_says_find)
    next
      case own: (Some m)
      show ?thesis
        using no_summary summary
        by (cases "reported_at (pl_Generation p) (an_Conditions m) ''Accepted''"; cases "reported_at (pl_Generation p) (an_Conditions m) ''Attached''")
          (auto simp: Some own policyReport_def claim_after_def policy_broken_def policy_reported_def policy_says_find reports_false_def Let_def)
    qed
  next
    case (Some m)
    then have "policy_broken gw p" using summary unfolding policy_broken_def by fastforce
    then show ?thesis using Some \<open>r = Some p\<close> by (simp add: policyReport_def claim_after_def Let_def)
  qed
qed (simp add: policyReport_def claim_after_def)

text \<open>
  C21. The claims kept of a served Agent follow what the Gateway reports of the objects read, at the objects' own generations.
  That the route is refused is claimed when Accepted or ResolvedRefs is False there, and withdrawn only when both are reported and neither is
  False; that the policy is not attached is claimed when the status carries the summary of a policy attached to nothing, or
  Attached is False, or Accepted is False or True for another reason than Valid, and withdrawn only when both are reported and none of this holds. A stale
  report, another controller's entry of a route or no object at all leaves the stored claim as it was; the claim on the source of keys is left
  to its own judgement, and a status that is not judged is left alone.
\<close>

theorem judgeServed_claims:
  "st_Auth (fst (judgeServed gw agent stored (status, acc))) =
    (if gw_Enabled gw \<and> judgesServed status
     then map_option (claims_in
       \<lparr> cl_routeRefused = claim_after (route_refused gw) (route_reported gw) (gw_judgeRoute (snd acc)) (cl_routeRefused stored),
         cl_policyUnattached = claim_after (policy_broken gw) (policy_reported gw) (gw_judgePolicy (snd acc)) (cl_policyUnattached stored),
         cl_keySourceEmpty = cl_keySourceEmpty stored \<rparr>) (st_Auth status)
     else st_Auth status)"
proof -
  have route: "fst (judge_route gw agent stored acc) = (case fst (routeReport (gw_judgeRoute (snd acc)) gw) of
            reportBroken \<Rightarrow> True | reportHolding \<Rightarrow> False | reportUnknown \<Rightarrow> cl_routeRefused stored)"
    by (auto simp: judge_route_def Let_def split: prod.splits gatewayReport.split)
  have policy: "fst (judge_policy gw agent stored lead acc') = (case fst (policyReport (gw_judgePolicy (snd acc')) gw) of
            reportBroken \<Rightarrow> True | reportHolding \<Rightarrow> False | reportUnknown \<Rightarrow> cl_policyUnattached stored)" for lead acc'
    by (auto simp: judge_policy_def Let_def split: prod.splits gatewayReport.split)
  have claims: "cl\<lparr> cl_routeRefused := a, cl_policyUnattached := b \<rparr> =
      \<lparr> cl_routeRefused = a, cl_policyUnattached = b, cl_keySourceEmpty = cl_keySourceEmpty cl \<rparr>" for a b and cl :: servedClaims
    by (cases cl) simp
  show ?thesis
    unfolding judgeServed_def
    by (simp add: Let_def split_beta writeTo_def route policy judge_route_policy claims routeReport_claim policyReport_claim)
qed

section \<open>Rejections\<close>

text \<open>An event that rejects the policy after it was written.\<close>

definition rejects :: "(string \<Rightarrow> string list option) \<Rightarrow> GatewayConfig \<Rightarrow> string \<times> string \<Rightarrow> go_time \<Rightarrow> Event \<Rightarrow> bool" where
  "rejects decode gw key written ev \<longleftrightarrow> GenuineNack ev gw \<and> written < eventLastSeen ev \<and> key \<in> set (fst (NackedPolicies decode (ev_Message ev)))"

text \<open>
  The rejection a transaction goes back to Converging for: it is found exactly if some event read is the Gateway's
  own, names this policy and was last seen after the policy's last write; and it is a latest of those.
\<close>

theorem newest_nack_exact:
  assumes "0 \<le> written"
  shows "(case newest_nack decode gw key written evs of
      (None, _) \<Rightarrow> \<forall>ev\<in>set evs. \<not> rejects decode gw key written ev
    | (Some ev, at) \<Rightarrow> ev \<in> set evs \<and> rejects decode gw key written ev \<and> at = eventLastSeen ev \<and>
        (\<forall>x\<in>set evs. rejects decode gw key written x \<longrightarrow> eventLastSeen x \<le> at))"
proof -
  define best where "best = (\<lambda>evs res. case res of
      (None, at) \<Rightarrow> at = 0 \<and> (\<forall>ev\<in>set evs. \<not> rejects decode gw key written ev)
    | (Some ev, at) \<Rightarrow> ev \<in> set evs \<and> rejects decode gw key written ev \<and> at = eventLastSeen ev \<and>
        (\<forall>x\<in>set evs. rejects decode gw key written x \<longrightarrow> eventLastSeen x \<le> at))"
  have "best evs (newest_nack decode gw key written evs)"
  proof (induction evs rule: rev_induct)
    case (snoc ev evs)
    then show ?case
      using assms by (auto simp: best_def newest_nack_def rejects_def Let_def split: prod.splits option.splits)
  qed (simp add: best_def newest_nack_def)
  then show ?thesis by (auto simp: best_def split: prod.splits option.splits)
qed

section \<open>Witnesses\<close>

text \<open>An Agent with no record: any reconciler, any Agent, a status as a new Agent has it.\<close>

lemma new_record: "wf_auth (abs_auth (st_Auth (fst (zero_status, c))))"
  by (simp add: zero_status_def abs_auth_def wf_auth_def)

text \<open>A status whose record is served under a key.\<close>

definition served_status :: AgentStatus where
  "served_status = zero_status\<lparr> st_Auth := Some (new_auth AuthModeAPIKey) \<rparr>"

lemma served_status_abs: "abs_auth (st_Auth (fst (served_status, c))) = (AuthModeAPIKey, None)"
  by (simp add: served_status_def abs_auth_def new_auth_def)

theorem records_keep_type_witness:
  "\<forall>r unparse. op_wp (record_request (\<lambda>h. follows_type ([], None))) (record_result (\<lambda>h. follows_type ([], None))) (agent_was_read (sample_agent zero_spec))
     (reconcileGateway r (sample_agent zero_spec) ''assayd-run-team'' (zero_status, newConditionSet 1) (desiredAuth unparse (sample_agent zero_spec) ''assayd-run-team''))"
proof (intro allI)
  fix r :: AgentReconciler and unparse
  have "abs_auth (st_Auth (fst (zero_status, newConditionSet 1))) = ([], None)" by (simp add: zero_status_def abs_auth_def)
  with records_keep_type [OF new_record, of "newConditionSet 1" "sample_agent zero_spec" r "''assayd-run-team''" unparse]
  show "op_wp (record_request (\<lambda>h. follows_type ([], None))) (record_result (\<lambda>h. follows_type ([], None))) (agent_was_read (sample_agent zero_spec))
     (reconcileGateway r (sample_agent zero_spec) ''assayd-run-team'' (zero_status, newConditionSet 1) (desiredAuth unparse (sample_agent zero_spec) ''assayd-run-team''))"
    by simp
qed

theorem republish_on_new_evidence_witness:
  "\<forall>r unparse. op_wp (record_request (on_evidence (published_anew (AuthModeAPIKey, None)) r (sample_agent zero_spec) ''assayd-run-team''))
     (record_result (on_evidence (published_anew (AuthModeAPIKey, None)) r (sample_agent zero_spec) ''assayd-run-team'')) (agent_was_read (sample_agent zero_spec))
     (reconcileGateway r (sample_agent zero_spec) ''assayd-run-team'' (served_status, newConditionSet 1) (desiredAuth unparse (sample_agent zero_spec) ''assayd-run-team''))"
proof (intro allI)
  fix r :: AgentReconciler and unparse
  have "wf_auth (abs_auth (st_Auth (fst (served_status, newConditionSet 1))))" "\<not> publishing (abs_auth (st_Auth (fst (served_status, newConditionSet 1))))"
    unfolding served_status_abs by (simp_all add: wf_auth_def publishing_def)
  from republish_on_new_evidence [OF this, of r "sample_agent zero_spec" "''assayd-run-team''" unparse, unfolded served_status_abs]
  show "op_wp (record_request (on_evidence (published_anew (AuthModeAPIKey, None)) r (sample_agent zero_spec) ''assayd-run-team''))
     (record_result (on_evidence (published_anew (AuthModeAPIKey, None)) r (sample_agent zero_spec) ''assayd-run-team'')) (agent_was_read (sample_agent zero_spec))
     (reconcileGateway r (sample_agent zero_spec) ''assayd-run-team'' (served_status, newConditionSet 1) (desiredAuth unparse (sample_agent zero_spec) ''assayd-run-team''))" .
qed

theorem newest_nack_exact_witness:
  "rejects (\<lambda>_. Some [''policy/t/ns/p'']) sample_gateway (''ns'', ''p'') 5 (sample_nack 7) \<and>
   (case newest_nack (\<lambda>_. Some [''policy/t/ns/p'']) sample_gateway (''ns'', ''p'') 5 [sample_nack 3, sample_nack 7, sample_nack 6] of
      (None, _) \<Rightarrow> False
    | (Some ev, at) \<Rightarrow> ev \<in> set [sample_nack 3, sample_nack 7, sample_nack 6] \<and> 7 \<le> at)"
proof -
  have r: "rejects (\<lambda>_. Some [''policy/t/ns/p'']) sample_gateway (''ns'', ''p'') 5 (sample_nack 7)" by code_simp
  from r newest_nack_exact [where written = 5 and decode = "\<lambda>_. Some [''policy/t/ns/p'']" and gw = sample_gateway and
      key = "(''ns'', ''p'')" and evs = "[sample_nack 3, sample_nack 7, sample_nack 6]"]
  show ?thesis by (auto split: prod.splits option.splits simp: sample_nack_def eventLastSeen_def)
qed

end
