(* ===== verification/Promotion.thy ===== *)
theory Promotion
  imports Eval_Protocol Auth_Properties
begin

text \<open>
  The two controllers together. The eval controller's runs, over all interleavings (\<open>Eval_Protocol\<close>), leave only
  records whose Passed verdict a suite supports; the Agent reconciler's pass (\<open>Agent_Pass\<close>, \<open>Auth_Properties\<close>) writes a
  promotion only on what it read. Here: a promotion written by a whole pass that read Agents the eval controller
  can leave is of a revision whose verdict was earned.
\<close>

section \<open>What a pass has written\<close>





section \<open>The records a pass goes by\<close>







section \<open>Earned promotions\<close>







end
