(* ===== verification/Leaves.thy ===== *)
theory Leaves
  imports Revision
begin

text \<open>
  The inventory of a spec's leaves (\<^verbatim>\<open>internal/revision/leaves.go\<close>): the walk over a struct type by reflection, and the
  table that classifies every leaf of an Agent's spec as behaviour, which mints a revision, or policy, which does
  not. A type is what reflection sees of it; the structs there are, with their fields, are an argument. A call of
  \<^verbatim>\<open>Fatalf\<close> ends the walk. The writers of leaves, which build values by reflection for tests, are not modelled.

  Shown: the walk always ends, and fails exactly on types from which a struct that contains itself is reached.
\<close>

section \<open>Types\<close>

type_synonym struct_name = "string \<times> string"

datatype go_type =
    TStruct struct_name
  | TPtr go_type
  | TSlice go_type
  | TMap go_type go_type
  | TString
  | TBool
  | TInt
  | TOther string

record go_field =
  gf_Name :: string
  gf_PkgPath :: string
  gf_Type :: go_type

type_synonym structs = "(struct_name \<times> go_field list) list"

definition struct_fields :: "structs \<Rightarrow> struct_name \<Rightarrow> go_field list" where
  "struct_fields env n = (case map_of env n of None \<Rightarrow> [] | Some fs \<Rightarrow> fs)"

text \<open>Structs that are one value.\<close>

definition LeafTypes :: "struct_name list" where
  "LeafTypes = [(''k8s.io/apimachinery/pkg/api/resource'', ''Quantity'')]"

record Leaf =
  lf_Path :: string
  lf_Chain :: "nat list"
  lf_Typ :: go_type

text \<open>Past pointers and slices, a slice marked in the path.\<close>

fun peel :: "string \<Rightarrow> go_type \<Rightarrow> string \<times> go_type" where
  "peel path (TPtr t) = peel path t"
| "peel path (TSlice t) = peel (path @ ''[]'') t"
| "peel path t = (path, t)"

definition descends :: "structs \<Rightarrow> go_type \<Rightarrow> struct_name option" where
  "descends env t = (case t of
     TStruct n \<Rightarrow> if n \<notin> set LeafTypes \<and> fst n \<noteq> ''time'' \<and> struct_fields env n \<noteq> [] then Some n else None
   | _ \<Rightarrow> None)"

section \<open>The walk\<close>

function walk_fields :: "structs \<Rightarrow> go_field list \<Rightarrow> nat \<Rightarrow> string \<Rightarrow> nat list \<Rightarrow> struct_name list \<Rightarrow> string + Leaf list" where
  "walk_fields env [] i prefix chain stack = Inr []"
| "walk_fields env (f # fs) i prefix chain stack =
     (if gf_PkgPath f \<noteq> [] then walk_fields env fs (Suc i) prefix chain stack
      else case peel (prefix @ ''.'' @ gf_Name f) (gf_Type f) of (path, t) \<Rightarrow>
        (case (case descends env t of
             None \<Rightarrow> Inr [\<lparr> lf_Path = path, lf_Chain = chain @ [i], lf_Typ = gf_Type f \<rparr>]
           | Some n \<Rightarrow>
             if n \<in> set stack then Inl (msgf ''leaf walk: a type is already on the walk'' [path, fst n, snd n])
             else walk_fields env (struct_fields env n) 0 path (chain @ [i]) (n # stack)) of
           Inl e \<Rightarrow> Inl e
         | Inr here \<Rightarrow> (case walk_fields env fs (Suc i) prefix chain stack of
             Inl e \<Rightarrow> Inl e
           | Inr rest \<Rightarrow> Inr (here @ rest))))"
  by pat_completeness auto

lemma descends_fields: "descends env t = Some n \<Longrightarrow> n \<in> set (map fst env)"
  by (cases "map_of env n") (auto simp: descends_def struct_fields_def image_iff split: go_type.splits if_splits dest!: map_of_SomeD intro: rev_bexI)

lemma unvisited_fewer:
  assumes "descends env t = Some n" and "n \<notin> set stack"
  shows "card (set (map fst env) - set (n # stack)) < card (set (map fst env) - set stack)"
  by (intro psubset_card_mono) (use assms descends_fields [OF assms(1)] in auto)

termination walk_fields
  by (relation "measures [\<lambda>(env, fs, i, prefix, chain, stack). card (set (map fst env) - set stack), \<lambda>(env, fs, i, prefix, chain, stack). length fs]")
    (auto dest: unvisited_fewer)

definition leaves :: "structs \<Rightarrow> struct_name \<Rightarrow> string \<Rightarrow> nat list \<Rightarrow> struct_name list \<Rightarrow> string + Leaf list" where
  "leaves env n prefix chain stack =
     (if n \<in> set stack then Inl (msgf ''leaf walk: a type is already on the walk'' [prefix, fst n, snd n])
      else walk_fields env (struct_fields env n) 0 prefix chain (n # stack))"

definition Leaves :: "structs \<Rightarrow> struct_name \<Rightarrow> string \<Rightarrow> nat list \<Rightarrow> string + Leaf list" where
  "Leaves env n prefix chain = leaves env n prefix chain []"

section \<open>The classification\<close>

datatype leafClass = mints | inPlace

definition specLeafClass :: "(string \<times> leafClass) list" where
  "specLeafClass = [
     (''spec.Runtime.Image'', mints),
     (''spec.Runtime.Port'', mints),
     (''spec.Loop.AllowReentry'', mints),
     (''spec.Loop.MaxVisits'', mints),
     (''spec.Runtime.Sandbox.Profile'', mints),
     (''spec.Runtime.Env[].Name'', mints),
     (''spec.Runtime.Env[].Value'', mints),
     (''spec.Runtime.Env[].ValueFrom.FieldRef.APIVersion'', mints),
     (''spec.Runtime.Env[].ValueFrom.FieldRef.FieldPath'', mints),
     (''spec.Runtime.Env[].ValueFrom.ResourceFieldRef.ContainerName'', mints),
     (''spec.Runtime.Env[].ValueFrom.ResourceFieldRef.Resource'', mints),
     (''spec.Runtime.Env[].ValueFrom.ResourceFieldRef.Divisor'', mints),
     (''spec.Runtime.Env[].ValueFrom.ConfigMapKeyRef.LocalObjectReference.Name'', mints),
     (''spec.Runtime.Env[].ValueFrom.ConfigMapKeyRef.Key'', mints),
     (''spec.Runtime.Env[].ValueFrom.ConfigMapKeyRef.Optional'', mints),
     (''spec.Runtime.Env[].ValueFrom.SecretKeyRef.LocalObjectReference.Name'', mints),
     (''spec.Runtime.Env[].ValueFrom.SecretKeyRef.Key'', mints),
     (''spec.Runtime.Env[].ValueFrom.SecretKeyRef.Optional'', mints),
     (''spec.Runtime.Env[].ValueFrom.FileKeyRef.VolumeName'', mints),
     (''spec.Runtime.Env[].ValueFrom.FileKeyRef.Path'', mints),
     (''spec.Runtime.Env[].ValueFrom.FileKeyRef.Key'', mints),
     (''spec.Runtime.Env[].ValueFrom.FileKeyRef.Optional'', mints),
     (''spec.Runtime.EnvFrom[].Prefix'', mints),
     (''spec.Runtime.EnvFrom[].ConfigMapRef.LocalObjectReference.Name'', mints),
     (''spec.Runtime.EnvFrom[].ConfigMapRef.Optional'', mints),
     (''spec.Runtime.EnvFrom[].SecretRef.LocalObjectReference.Name'', mints),
     (''spec.Runtime.EnvFrom[].SecretRef.Optional'', mints),
     (''spec.External.Endpoint'', mints),
     (''spec.External.OAuthClientRef'', mints),
     (''spec.Knowledge[].Name'', mints),
     (''spec.Knowledge[].Version'', mints),
     (''spec.Knowledge[].Scope.EntityTypes[]'', mints),
     (''spec.Tools[].Name'', mints),
     (''spec.Tools[].RequiresApproval'', mints),
     (''spec.LLM.Providers[].Arm'', mints),
     (''spec.LLM.Providers[].Model'', mints),
     (''spec.LLM.Providers[].AzureOpenAI.Endpoint'', mints),
     (''spec.LLM.Providers[].AzureOpenAI.DeploymentName'', mints),
     (''spec.LLM.Providers[].AzureOpenAI.APIVersion'', mints),
     (''spec.LLM.Providers[].VertexAI.ProjectID'', mints),
     (''spec.LLM.Providers[].VertexAI.Region'', mints),
     (''spec.LLM.Providers[].Bedrock.Region'', mints),
     (''spec.LLM.Providers[].Bedrock.Guardrail'', mints),
     (''spec.LLM.Providers[].Custom.Host'', mints),
     (''spec.LLM.Providers[].Custom.Port'', mints),
     (''spec.LLM.Providers[].Custom.PathPrefix'', mints),
     (''spec.LLM.EgressAllowlist[].Arm'', mints),
     (''spec.LLM.EgressAllowlist[].Models[]'', mints),
     (''spec.LLM.EgressAllowlist[].AzureOpenAI.Endpoint'', mints),
     (''spec.LLM.EgressAllowlist[].AzureOpenAI.DeploymentName'', mints),
     (''spec.LLM.EgressAllowlist[].AzureOpenAI.APIVersion'', mints),
     (''spec.LLM.EgressAllowlist[].VertexAI.ProjectID'', mints),
     (''spec.LLM.EgressAllowlist[].VertexAI.Region'', mints),
     (''spec.LLM.EgressAllowlist[].Bedrock.Region'', mints),
     (''spec.LLM.EgressAllowlist[].Bedrock.Guardrail'', mints),
     (''spec.LLM.EgressAllowlist[].Custom.Host'', mints),
     (''spec.LLM.EgressAllowlist[].Custom.Port'', mints),
     (''spec.LLM.EgressAllowlist[].Custom.PathPrefix'', mints),
     (''spec.LLM.Fallback.Arm'', mints),
     (''spec.LLM.Fallback.Model'', mints),
     (''spec.LLM.Fallback.AzureOpenAI.Endpoint'', mints),
     (''spec.LLM.Fallback.AzureOpenAI.DeploymentName'', mints),
     (''spec.LLM.Fallback.AzureOpenAI.APIVersion'', mints),
     (''spec.LLM.Fallback.VertexAI.ProjectID'', mints),
     (''spec.LLM.Fallback.VertexAI.Region'', mints),
     (''spec.LLM.Fallback.Bedrock.Region'', mints),
     (''spec.LLM.Fallback.Bedrock.Guardrail'', mints),
     (''spec.LLM.Fallback.Custom.Host'', mints),
     (''spec.LLM.Fallback.Custom.Port'', mints),
     (''spec.LLM.Fallback.Custom.PathPrefix'', mints),
     (''spec.Budget.TokensPerDay'', mints),
     (''spec.Budget.USDPerDay'', mints),
     (''spec.Budget.TaskTimeout.Duration'', mints),
     (''spec.Budget.MaxHops'', mints),
     (''spec.Expose.A2A.Visibility'', mints),
     (''spec.Expose.A2A.Auth'', mints),
     (''spec.Runtime.Replicas'', inPlace),
     (''spec.Runtime.Resources.Limits'', inPlace),
     (''spec.Runtime.Resources.Requests'', inPlace),
     (''spec.Runtime.Resources.Claims[].Name'', inPlace),
     (''spec.Runtime.Resources.Claims[].Request'', inPlace),
     (''spec.External.InlineCard'', inPlace),
     (''spec.Card.Path'', inPlace),
     (''spec.Gates[].EvalSuiteRef'', inPlace),
     (''spec.Release.TargetRevisionDigest'', inPlace)]"

definition Classified :: "string \<Rightarrow> bool" where
  "Classified path \<longleftrightarrow> map_of specLeafClass path \<noteq> None"

definition ClassifiedAsBehaviour :: "string \<Rightarrow> bool" where
  "ClassifiedAsBehaviour path \<longleftrightarrow>
     (case map_of specLeafClass path of None \<Rightarrow> mints | Some c \<Rightarrow> c) = mints \<and> Classified path"

section \<open>When the walk fails\<close>

text \<open>A struct contains another: through a field that is walked, past pointers and slices.\<close>

definition contains :: "structs \<Rightarrow> (struct_name \<times> struct_name) set" where
  "contains env = {(n, m). \<exists>f\<in>set (struct_fields env n). gf_PkgPath f = [] \<and> descends env (snd (peel [] (gf_Type f))) = Some m}"

lemma peel_type: "snd (peel path t) = snd (peel [] t)"
proof (induction t arbitrary: path)
  case (TSlice t)
  show ?case using TSlice [of "path @ ''[]''"] TSlice [of "''[]''"] by simp
qed auto

text \<open>One field of a walk: the struct it goes into, if any, and what the walk does there.\<close>

definition enters :: "structs \<Rightarrow> go_field \<Rightarrow> struct_name option" where
  "enters env f = (if gf_PkgPath f \<noteq> [] then None else descends env (snd (peel [] (gf_Type f))))"

lemma contains_enters: "(n, m) \<in> contains env \<longleftrightarrow> (\<exists>f\<in>set (struct_fields env n). enters env f = Some m)"
  by (auto simp: contains_def enters_def)

lemma walk_Cons:
  "walk_fields env (f # fs) i prefix chain stack =
     (case enters env f of
        None \<Rightarrow> map_sum id (\<lambda>rest. (if gf_PkgPath f \<noteq> [] then [] else
            [\<lparr> lf_Path = fst (peel (prefix @ ''.'' @ gf_Name f) (gf_Type f)), lf_Chain = chain @ [i], lf_Typ = gf_Type f \<rparr>]) @ rest)
          (walk_fields env fs (Suc i) prefix chain stack)
      | Some n \<Rightarrow>
          (case (let path = fst (peel (prefix @ ''.'' @ gf_Name f) (gf_Type f)) in
               if n \<in> set stack then Inl (msgf ''leaf walk: a type is already on the walk'' [path, fst n, snd n])
               else walk_fields env (struct_fields env n) 0 path (chain @ [i]) (n # stack)) of
             Inl e \<Rightarrow> Inl e
           | Inr here \<Rightarrow> map_sum id (\<lambda>rest. here @ rest) (walk_fields env fs (Suc i) prefix chain stack)))"
proof -
  obtain path t where p: "peel (prefix @ ''.'' @ gf_Name f) (gf_Type f) = (path, t)" by fastforce
  then have "t = snd (peel [] (gf_Type f))" using peel_type [of "prefix @ ''.'' @ gf_Name f" "gf_Type f"] by simp
  with p show ?thesis
    by (cases "walk_fields env fs (Suc i) prefix chain stack") (auto simp: enters_def Let_def split: option.split sum.split)
qed

lemma walk_Cons_ok:
  assumes "walk_fields env (f # fs) i prefix chain stack = Inr ls"
  shows "\<exists>rest. walk_fields env fs (Suc i) prefix chain stack = Inr rest"
    and "enters env f = Some n \<Longrightarrow> n \<notin> set stack \<and> (\<exists>path here. walk_fields env (struct_fields env n) 0 path (chain @ [i]) (n # stack) = Inr here)"
  using assms unfolding walk_Cons
  by (cases "walk_fields env fs (Suc i) prefix chain stack"; auto simp: Let_def split: option.splits sum.splits if_splits)+

lemma walk_Cons_fails:
  assumes "walk_fields env (f # fs) i prefix chain stack = Inl e"
  shows "(\<exists>e. walk_fields env fs (Suc i) prefix chain stack = Inl e) \<or>
    (\<exists>n. enters env f = Some n \<and> (n \<in> set stack \<or>
      (\<exists>path e. walk_fields env (struct_fields env n) 0 path (chain @ [i]) (n # stack) = Inl e)))"
  using assms unfolding walk_Cons
  by (cases "walk_fields env fs (Suc i) prefix chain stack"; auto simp: Let_def split: option.splits sum.splits if_splits)

lemma walk_fails:
  "walk_fields env fs i prefix chain (h # st) = Inl e \<Longrightarrow> set fs \<subseteq> set (struct_fields env h) \<Longrightarrow>
     \<forall>x\<in>set (h # st). (x, h) \<in> (contains env)\<^sup>* \<Longrightarrow>
     \<exists>m. (h, m) \<in> (contains env)\<^sup>* \<and> (m, m) \<in> (contains env)\<^sup>+"
proof (induction "(card (set (map fst env) - set (h # st)), length fs)" arbitrary: fs i prefix chain h st e
    rule: wf_induct_rule [OF wf_lex_prod [OF wf_less_than wf_less_than]])
  case 1
  then obtain f fs' where fs: "fs = f # fs'" by (cases fs) auto
  from walk_Cons_fails [OF 1(2) [unfolded fs]]
  consider e' where "walk_fields env fs' (Suc i) prefix chain (h # st) = Inl e'"
    | n where "enters env f = Some n" "n \<in> set (h # st)"
    | n path e' where "enters env f = Some n" "n \<notin> set (h # st)"
        "walk_fields env (struct_fields env n) 0 path (chain @ [i]) (n # h # st) = Inl e'" by blast
  then show ?case
  proof cases
    case a: 1
    show ?thesis by (rule 1(1) [OF _ a]) (use 1(3,4) fs in auto)
  next
    case 2
    then have "(h, n) \<in> contains env" "(n, h) \<in> (contains env)\<^sup>*" using 1(3,4) by (auto simp: contains_enters fs)
    then show ?thesis by (intro exI [of _ n]) auto
  next
    case 3
    then have hn: "(h, n) \<in> contains env" using 1(3) by (auto simp: contains_enters fs)
    have "\<exists>m. (n, m) \<in> (contains env)\<^sup>* \<and> (m, m) \<in> (contains env)\<^sup>+"
    proof (rule 1(1) [OF _ 3(3)])
      have "card (set (map fst env) - set (n # h # st)) < card (set (map fst env) - set (h # st))"
        using 3(1,2) by (intro unvisited_fewer [of env "snd (peel [] (gf_Type f))"]) (auto simp: enters_def split: if_splits)
      then show "((card (set (map fst env) - set (n # h # st)), length (struct_fields env n)),
          card (set (map fst env) - set (h # st)), length fs) \<in> less_than <*lex*> less_than" by simp
      show "\<forall>x\<in>set (n # h # st). (x, n) \<in> (contains env)\<^sup>*"
        using 1(4) hn by (auto intro: rtrancl_into_rtrancl)
    qed auto
    with hn show ?thesis by (meson converse_rtrancl_into_rtrancl)
  qed
qed

text \<open>A walk that succeeds goes into every struct contained, and none of them is on the walk.\<close>

definition walked :: "structs \<Rightarrow> struct_name list \<Rightarrow> struct_name \<Rightarrow> bool" where
  "walked env stack n \<longleftrightarrow> n \<in> set stack \<and> (\<exists>path chain ls. walk_fields env (struct_fields env n) 0 path chain stack = Inr ls)"

lemma walk_enters:
  "walk_fields env fs i prefix chain stack = Inr ls \<Longrightarrow> f \<in> set fs \<Longrightarrow> enters env f = Some m \<Longrightarrow>
     m \<notin> set stack \<and> walked env (m # stack) m"
proof (induction fs arbitrary: i ls)
  case (Cons g fs)
  from walk_Cons_ok [OF Cons.prems(1)] obtain rest where rest: "walk_fields env fs (Suc i) prefix chain stack = Inr rest" by blast
  show ?case
  proof (cases "f = g")
    case True
    with walk_Cons_ok(2) [OF Cons.prems(1), of m] Cons.prems(3) show ?thesis by (auto simp: walked_def)
  next
    case False
    with Cons.IH [OF rest] Cons.prems show ?thesis by auto
  qed
qed simp

lemma walked_step:
  assumes "walked env stack n" and "(n, m) \<in> contains env"
  shows "m \<notin> set stack \<and> walked env (m # stack) m"
proof -
  obtain path chain ls where "walk_fields env (struct_fields env n) 0 path chain stack = Inr ls"
    using assms(1) by (auto simp: walked_def)
  moreover obtain f where "f \<in> set (struct_fields env n)" "enters env f = Some m" using assms(2) by (auto simp: contains_enters)
  ultimately show ?thesis by (rule walk_enters)
qed

lemma walked_reach: "(n, m) \<in> (contains env)\<^sup>* \<Longrightarrow> walked env stack n \<Longrightarrow> \<exists>stack. walked env stack m"
  by (induction rule: rtrancl_induct) (auto dest: walked_step)

lemma walked_acyclic:
  "(n, m) \<in> (contains env)\<^sup>+ \<Longrightarrow> walked env stack n \<Longrightarrow> \<exists>st. n \<in> set st \<and> m \<notin> set st \<and> walked env (m # st) m"
proof (induction rule: trancl_induct)
  case (base m)
  then show ?case using walked_step [of env stack n m] by (auto simp: walked_def)
next
  case (step m k)
  then obtain st where "n \<in> set st" "walked env (m # st) m" by auto
  with walked_step [OF this(2) step(2)] show ?case by (intro exI [of _ "m # st"]) auto
qed

text \<open>
  The walk of a type's leaves always ends. It fails exactly if a struct that contains itself, past pointers and slices and
  through exported fields, is reached from the type; so a spec whose types have no such cycle is always inventoried, and
  one that has is refused and never walked for ever.
\<close>

theorem Leaves_fails_iff_cycle:
  "(\<exists>e. Leaves env n prefix chain = Inl e) \<longleftrightarrow> (\<exists>m. (n, m) \<in> (contains env)\<^sup>* \<and> (m, m) \<in> (contains env)\<^sup>+)"
proof
  assume "\<exists>e. Leaves env n prefix chain = Inl e"
  then show "\<exists>m. (n, m) \<in> (contains env)\<^sup>* \<and> (m, m) \<in> (contains env)\<^sup>+"
    using walk_fails [of env "struct_fields env n" 0 prefix chain n "[]"] by (auto simp: Leaves_def leaves_def)
next
  assume "\<exists>m. (n, m) \<in> (contains env)\<^sup>* \<and> (m, m) \<in> (contains env)\<^sup>+"
  then obtain m where m: "(n, m) \<in> (contains env)\<^sup>*" "(m, m) \<in> (contains env)\<^sup>+" by blast
  show "\<exists>e. Leaves env n prefix chain = Inl e"
  proof (rule ccontr)
    assume "\<nexists>e. Leaves env n prefix chain = Inl e"
    then obtain ls where "walk_fields env (struct_fields env n) 0 prefix chain [n] = Inr ls"
      by (cases "walk_fields env (struct_fields env n) 0 prefix chain [n]") (auto simp: Leaves_def leaves_def)
    then have "walked env [n] n" by (auto simp: walked_def)
    from walked_reach [OF m(1) this] walked_acyclic [OF m(2)] show False by auto
  qed
qed

text \<open>A behaviour leaf is a classified one.\<close>

lemma behaviour_classified: "ClassifiedAsBehaviour path \<longleftrightarrow> map_of specLeafClass path = Some mints"
  by (auto simp: ClassifiedAsBehaviour_def Classified_def split: option.splits)

end
