(* ===== verification/Auth_Progress.thy ===== *)
theory Auth_Progress
  imports Auth_Gateway Watches
begin

text \<open>
  That a Create gets done (\<^verbatim>\<open>runCreate\<close> of \<^verbatim>\<open>authtxn.go\<close>): from each of its stages, with its objects in place and
  a cooperative cluster, one pass publishes the route under the key, and that pass or the next one records the Agent as served: the
  API server answers the update that publishes the route with a status that says nothing of it yet, and the Gateway reports on it later.
  The cluster is a function of the exchanges so far; what is asked of it is \<open>cooperative\<close>. A computation
  \<open>settles\<close> if its value does not depend on when it runs, before the route is published or after; \<open>leads\<close> follows
  one run to its end.
\<close>

section \<open>Runs\<close>

type_synonym server = "exchange list \<Rightarrow> req \<Rightarrow> resp"

text \<open>The published route was sent to the API server.\<close>

definition published_in :: "exchange list \<Rightarrow> bool" where
  "published_in h \<longleftrightarrow> (\<exists>x a. routePublished x \<and> (Update (ORoute x), a) \<in> set h)"

lemma published_append [simp]: "published_in h \<Longrightarrow> published_in (h @ t)"
  by (auto simp: published_in_def)



definition leads :: "server \<Rightarrow> 'a gm \<Rightarrow> gstate \<Rightarrow> exchange list \<Rightarrow> ('a \<Rightarrow> gstate \<Rightarrow> exchange list \<Rightarrow> bool) \<Rightarrow> bool" where
  "leads ans m s h Q \<longleftrightarrow> (case run_op ans h (m s) of ((res, s'), h') \<Rightarrow> (case res of Inl e \<Rightarrow> False | Inr x \<Rightarrow> Q x s' h'))"






lemma leads_gret [simp]: "leads ans (gret x) s h Q = Q x s h"
  by (simp add: leads_def gret_def)







section \<open>A cooperative cluster\<close>


abbreviation prepared :: routePublication where
  "prepared \<equiv> \<lparr> rp_prepared = True, rp_mode = [] \<rparr>"

abbreviation keyed_publication :: routePublication where
  "keyed_publication \<equiv> \<lparr> rp_prepared = False, rp_mode = AuthModeAPIKey \<rparr>"









section \<open>A Create in flight\<close>

definition this_agent :: "Agent \<Rightarrow> Agent \<Rightarrow> bool" where
  "this_agent a b \<longleftrightarrow> (\<exists>st rv. b = a\<lparr> ag_Status := st, ag_ResourceVersion := rv \<rparr>)"

text \<open>A Create under a key, in a stage, whose target has this digest; its deadline was recorded when it was entered.\<close>

definition in_stage :: "string \<Rightarrow> string \<Rightarrow> AgentStatus \<Rightarrow> bool" where
  "in_stage aim stage st \<longleftrightarrow> (\<exists>a tx. st_Auth st = Some a \<and> au_Transaction a = Some tx \<and> tx_Kind tx = TxCreate \<and>
     tx_TargetMode tx = AuthModeAPIKey \<and> tx_TargetDigest tx = aim \<and> tx_Deadline tx \<noteq> None \<and> tx_Stage tx = stage)"

definition creating :: "Agent \<Rightarrow> string \<Rightarrow> string \<Rightarrow> string \<Rightarrow> string \<Rightarrow> gstate \<Rightarrow> bool" where
  "creating agent rv digest aim stage s \<longleftrightarrow> this_agent agent (gs_agent s) \<and> st_ActiveRevision (gs_status s) = rv \<and>
     st_ActiveRevisionDigest (gs_status s) = digest \<and> gw_foreign (gs_out s) = [] \<and> in_stage aim stage (gs_status s)"


lemma this_agent_stored [simp]: "this_agent a (a\<lparr> ag_Status := st, ag_ResourceVersion := rv \<rparr>)"
  unfolding this_agent_def by blast


lemma authKept_self [simp]: "authKept a a"
  by (simp add: authKept_def split: option.split)




section \<open>What the steps find\<close>








lemma desired_name [simp]: "om_Name (hr_Meta (desired_route g agent runNS rv digest name p pub)) = name"
  by (simp add: desired_route_def servingRouteFor_def Let_def stampDigest_def new_meta_def)










section \<open>The stages\<close>




lemma creating_out: "creating agent rv digest aim stage s \<Longrightarrow> gw_foreign out = [] \<Longrightarrow> creating agent rv digest aim stage (s\<lparr> gs_out := out \<rparr>)"
  by (simp add: creating_def)















section \<open>Publishing\<close>













section \<open>The loop\<close>













section \<open>A cluster that cooperates\<close>

text \<open>
  An API server that keeps one route: prepared and accepted at its first generation; an update is stored at the next one and
  answered with the status of the first; later the Gateway reports on it.
\<close>

definition sample_true :: "int \<Rightarrow> string \<Rightarrow> string \<Rightarrow> condition" where
  "sample_true gen t reason = \<lparr> c_Type = t, c_Status = CTrue, c_ObservedGeneration = gen, c_LastTransitionTime = 0, c_Reason = reason, c_Message = [] \<rparr>"

definition sample_accepted :: "int \<Rightarrow> HTTPRoute \<Rightarrow> HTTPRoute" where
  "sample_accepted gen x = x\<lparr> hr_Generation := gen, hr_Parents := [\<lparr>
     rs_ParentRef = \<lparr> pr_Group = None, pr_Kind = None, pr_Namespace = Some ''gw'', pr_Name = ''assayd'', pr_SectionName = None, pr_Port = None \<rparr>,
     rs_ControllerName = [], rs_Conditions = [sample_true gen ''Accepted'' [], sample_true gen ''ResolvedRefs'' []] \<rparr>] \<rparr>"

abbreviation sample_render :: "int \<Rightarrow> routePublication \<Rightarrow> HTTPRoute" where
  "sample_render \<equiv> desired_route sample_gateway (sample_agent zero_spec) ''run'' ''r1'' ''d1'' ''agent-serving''"

definition sample_prepared :: HTTPRoute where
  "sample_prepared = sample_accepted 1 (sample_render 0 prepared)"

definition sample_stored :: "HTTPRoute \<Rightarrow> HTTPRoute" where
  "sample_stored x = x\<lparr> hr_Generation := hr_Generation x + 1 \<rparr>"





lemma sample_accepted_converged [simp]: "routeConverged (sample_accepted gen x) sample_gateway = None"
  by (simp add: routeConverged_def sample_accepted_def gateway_parent_def sample_gateway_def unmet_condition_def findCondition_def sample_true_def)


text \<open>The update that publishes the route is answered with a route that has not converged.\<close>

lemma sample_update_unreported:
  "routeConverged (sample_stored (route_updated (sample_render 8080 keyed_publication) ''d1'' sample_prepared)) sample_gateway \<noteq> None"
  by (simp add: routeConverged_def sample_stored_def sample_prepared_def sample_accepted_def route_updated_def gateway_parent_def sample_gateway_def
      unmet_condition_def findCondition_def sample_true_def)





end
