(* ===== verification/Operator_Start.thy ===== *)
theory Operator_Start
  imports Watches
begin

text \<open>
  The start of the operator (\<^verbatim>\<open>run\<close> and \<^verbatim>\<open>managerOptions\<close> of \<^verbatim>\<open>cmd/operator/main.go\<close>, \<^verbatim>\<open>SetupWithManager\<close> of both
  controllers): its flags, what it is built of and in what order, and each refusal. What the libraries answer, the
  parsing of the flags included, is an argument; log lines are omitted.

  Shown: exactly which flags and clusters it starts with.
\<close>

section \<open>Flags\<close>

record op_flags =
  fl_OperatorNamespace :: string
  fl_GatewayURL :: string
  fl_Gateway :: GatewayConfig
  fl_MetricsAddr :: string
  fl_ProbeAddr :: string
  fl_LeaderElect :: bool
  fl_GateCheckTTL :: duration

definition saNamespace :: "string + string \<Rightarrow> string" where
  "saNamespace file = (case file of Inl e \<Rightarrow> [] | Inr b \<Rightarrow> trim_space b)"

definition default_flags :: "string + string \<Rightarrow> op_flags" where
  "default_flags file = \<lparr> fl_OperatorNamespace = saNamespace file, fl_GatewayURL = [],
     fl_Gateway = \<lparr> gw_Enabled = False, gw_Name = [], gw_Namespace = [], gw_HostnameSuffix = ''assayd.internal'', gw_ServingURL = [] \<rparr>,
     fl_MetricsAddr = '':8080'', fl_ProbeAddr = '':8081'', fl_LeaderElect = True, fl_GateCheckTTL = 30 * second \<rparr>"

section \<open>The manager\<close>

record manager_options =
  mo_Uncached :: "string list"
  mo_MetricsAddr :: string
  mo_ProbeAddr :: string
  mo_LeaderElection :: bool
  mo_LeaderElectionID :: string
  mo_ReleaseOnCancel :: bool
  mo_GracefulShutdown :: duration

definition gracefulShutdownTimeout :: duration where
  "gracefulShutdownTimeout = 30 * second"

definition managerOptions :: "string \<Rightarrow> string \<Rightarrow> bool \<Rightarrow> manager_options" where
  "managerOptions metricsAddr probeAddr leaderElect =
     \<lparr> mo_Uncached = [''ConfigMap'', ''Secret'', ''Namespace''], mo_MetricsAddr = metricsAddr, mo_ProbeAddr = probeAddr,
       mo_LeaderElection = leaderElect, mo_LeaderElectionID = ''agent-operator.assayd.dev'', mo_ReleaseOnCancel = True,
       mo_GracefulShutdown = gracefulShutdownTimeout \<rparr>"

text \<open>The readiness check: whether this process has been elected.\<close>

definition reconciling :: "bool \<Rightarrow> string option" where
  "reconciling elected = (if elected then None else Some ''not reconciling: leader election has not completed'')"

text \<open>What the libraries answer while the operator is built, each error with its text.\<close>

record 'cfg cluster =
  cl_config :: "string + 'cfg"
  cl_manager :: "manager_options \<Rightarrow> string option"
  cl_discovery :: "duration \<Rightarrow> 'cfg \<Rightarrow> string + unit"
  cl_addCheck :: "string option"
  cl_index :: "string option"
  cl_serves :: "string \<Rightarrow> string option"
  cl_gatewaySources :: "string \<Rightarrow> string option"
  cl_complete :: "string \<Rightarrow> string option"
  cl_addHealthz :: "string option"
  cl_addReadyz :: "string option"
  cl_start :: "string option"

text \<open>A step that fails ends the start with its error.\<close>

definition require :: "string \<Rightarrow> string option \<Rightarrow> string + 'a \<Rightarrow> string + 'a" where
  "require what err k = (case err of Some e \<Rightarrow> Inl (msgf what [e]) | None \<Rightarrow> k)"

definition given :: "string \<Rightarrow> string + 'b \<Rightarrow> ('b \<Rightarrow> string + 'a) \<Rightarrow> string + 'a" where
  "given what got k = (case got of Inl e \<Rightarrow> Inl (msgf what [e]) | Inr x \<Rightarrow> k x)"

text \<open>What the Agent controller watches; routes and the gateway's own sources only where the gateway is enabled, and served.\<close>

definition SetupWithManager :: "'cfg cluster \<Rightarrow> GatewayConfig \<Rightarrow> string + string list" where
  "SetupWithManager cl gw =
     require ''index Agents by run namespace'' (cl_index cl)
       (if gw_Enabled gw then
          require ''--gateway-enabled is set and this cluster serves no HTTPRoute'' (cl_serves cl ''HTTPRoute'')
            (require ''--gateway-enabled is set and this cluster serves no AgentgatewayPolicy'' (cl_serves cl ''AgentgatewayPolicy'')
              (require ''gateway sources'' (cl_gatewaySources cl (gw_Namespace gw))
                (require ''agent'' (cl_complete cl ''agent'')
                  (require ''run-namespace'' (cl_complete cl ''run-namespace'')
                    (Inr [''Agent'', ''Deployment'', ''ResourceQuota'', ''LimitRange'', ''HTTPRoute'', ''AgentgatewayPolicy'', ''Event'', ''ConfigMap''])))))
        else require ''agent'' (cl_complete cl ''agent'')
          (require ''run-namespace'' (cl_complete cl ''run-namespace'') (Inr [''Agent'', ''Deployment'', ''ResourceQuota'', ''LimitRange''])))"

section \<open>The start\<close>

record operator =
  po_Agents :: AgentReconciler
  po_Evals :: EvalReconciler
  po_Detector :: EvalSuiteDetector
  po_Options :: manager_options
  po_Watched :: "string list"

text \<open>
  The reconcilers as they are built: \<open>base\<close> has the parameters of the model, and \<open>installed\<close> is what the detector
  answers in a pass. Fields the constructors leave out are zero.
\<close>

definition agents_of :: "AgentReconciler \<Rightarrow> bool \<Rightarrow> op_flags \<Rightarrow> AgentReconciler" where
  "agents_of base installed fl = base\<lparr> ac_EvalSuiteInstalled := Some installed, ac_OperatorNamespace := fl_OperatorNamespace fl,
     ac_InjectedEnv := \<lparr> ie_GatewayURL = fl_GatewayURL fl \<rparr>, ac_Gateway := fl_Gateway fl, ac_EvalRecordCheckTTL := 0, ac_AuthDeadline := 0 \<rparr>"

definition evals_of :: "op_flags \<Rightarrow> EvalReconciler" where
  "evals_of fl = \<lparr> rq_Installed = True, rq_Gateway = fl_Gateway fl, rq_RequeueAfter = 0, rq_CardFetchTimeout = 0 \<rparr>"

abbreviation wired :: wiring where
  "wired \<equiv> \<lparr> wi_Client = True, wi_Reader = True, wi_Scheme = True, wi_LabelAuthority = True \<rparr>"

definition discoveryTimeout :: duration where
  "discoveryTimeout = 5 * second"

definition run ::
  "(string \<Rightarrow> string list) \<Rightarrow> (string \<Rightarrow> string + parsed_url) \<Rightarrow> 'cfg cluster \<Rightarrow> AgentReconciler \<Rightarrow> bool \<Rightarrow> op_flags \<Rightarrow> string + operator" where
  "run dns parse cl base installed fl =
     (if fl_OperatorNamespace fl = [] then Inl ''--operator-namespace is unset and no ServiceAccount namespace file is mounted''
      else (let opts = managerOptions (fl_MetricsAddr fl) (fl_ProbeAddr fl) (fl_LeaderElect fl) in
        given ''load kubeconfig'' (cl_config cl) (\<lambda>cfg.
        require ''build manager'' (cl_manager cl opts)
        (given ''build eval-suite detector'' (NewEvalSuiteDetector (Some cfg) (cl_discovery cl discoveryTimeout) (fl_GateCheckTTL fl)) (\<lambda>detector.
        given ''build agent reconciler'' (NewAgentReconciler dns parse wired (agents_of base installed fl)) (\<lambda>agents.
        require ''add startup check'' (cl_addCheck cl)
        (given ''register agent reconciler'' (SetupWithManager cl (ac_Gateway agents)) (\<lambda>watched.
        given ''build eval controller'' (NewEvalReconciler wired (Some installed) (evals_of fl)) (\<lambda>evals.
        require ''register eval controller'' (cl_complete cl ''agent-eval'')
        (require ''add health check'' (cl_addHealthz cl)
        (require ''add ready check'' (cl_addReadyz cl)
        (require ''manager exited'' (cl_start cl)
        (Inr \<lparr> po_Agents = agents, po_Evals = evals, po_Detector = detector, po_Options = opts, po_Watched = watched \<rparr>)))))))))))))"

section \<open>What it starts with\<close>

lemma require_ok [simp]: "require what err k = Inr x \<longleftrightarrow> err = None \<and> k = Inr x"
  by (simp add: require_def split: option.split)

lemma given_ok [simp]: "given what got k = Inr x \<longleftrightarrow> (\<exists>y. got = Inr y \<and> k y = Inr x)"
  by (simp add: given_def split: sum.split)

text \<open>The gateway's flags: complete where it is enabled, and the serving URL well formed where it is set.\<close>

definition gateway_stated :: "(string \<Rightarrow> string list) \<Rightarrow> (string \<Rightarrow> string + parsed_url) \<Rightarrow> GatewayConfig \<Rightarrow> bool" where
  "gateway_stated dns parse gw \<longleftrightarrow>
     (gw_Enabled gw \<longrightarrow> gw_Name gw \<noteq> [] \<and> gw_Namespace gw \<noteq> [] \<and> gw_HostnameSuffix gw \<noteq> [] \<and> dns (gw_HostnameSuffix gw) = [] \<and>
        gw_ServingURL gw \<noteq> []) \<and>
     (gw_ServingURL gw \<noteq> [] \<longrightarrow> ValidateGatewayServingURL parse (gw_ServingURL gw) = None)"

lemma NewAgentReconciler_iff:
  "NewAgentReconciler dns parse wired (agents_of base installed fl) = Inr r \<longleftrightarrow>
     r = agents_of base installed fl \<and> fl_OperatorNamespace fl \<noteq> [] \<and> gateway_stated dns parse (fl_Gateway fl)"
  by (auto simp: NewAgentReconciler_def agents_of_def gateway_stated_def Let_def split: if_split_asm option.split_asm)

lemma SetupWithManager_iff:
  "SetupWithManager cl gw = Inr ws \<longleftrightarrow>
     cl_index cl = None \<and> cl_complete cl ''agent'' = None \<and> cl_complete cl ''run-namespace'' = None \<and>
     (gw_Enabled gw \<longrightarrow> cl_serves cl ''HTTPRoute'' = None \<and> cl_serves cl ''AgentgatewayPolicy'' = None \<and> cl_gatewaySources cl (gw_Namespace gw) = None) \<and>
     ws = [''Agent'', ''Deployment'', ''ResourceQuota'', ''LimitRange''] @
       (if gw_Enabled gw then [''HTTPRoute'', ''AgentgatewayPolicy'', ''Event'', ''ConfigMap''] else [])"
  by (auto simp: SetupWithManager_def)

lemma detector_iff:
  "NewEvalSuiteDetector (Some cfg) build ttl = Inr d \<longleftrightarrow>
     0 < ttl \<and> (\<exists>c. build cfg = Inr c) \<and> d = \<lparr> dt_ttl = ttl, dt_cached = False, dt_checked = 0, dt_warmed = False, dt_last = None \<rparr>"
  by (auto simp: NewEvalSuiteDetector_def split: sum.splits)

text \<open>What is asked of the cluster by an operator with these flags.\<close>

definition cluster_ready :: "'cfg cluster \<Rightarrow> op_flags \<Rightarrow> bool" where
  "cluster_ready cl fl \<longleftrightarrow>
     (case cl_config cl of Inl e \<Rightarrow> False | Inr cfg \<Rightarrow> cl_discovery cl discoveryTimeout cfg = Inr ()) \<and>
     cl_manager cl (managerOptions (fl_MetricsAddr fl) (fl_ProbeAddr fl) (fl_LeaderElect fl)) = None \<and>
     cl_addCheck cl = None \<and> cl_index cl = None \<and> cl_complete cl ''agent'' = None \<and> cl_complete cl ''run-namespace'' = None \<and>
     cl_complete cl ''agent-eval'' = None \<and> cl_addHealthz cl = None \<and> cl_addReadyz cl = None \<and> cl_start cl = None \<and>
     (gw_Enabled (fl_Gateway fl) \<longrightarrow> cl_serves cl ''HTTPRoute'' = None \<and> cl_serves cl ''AgentgatewayPolicy'' = None \<and>
        cl_gatewaySources cl (gw_Namespace (fl_Gateway fl)) = None)"

lemma run_ok:
  "run dns parse cl base installed fl = Inr op \<longleftrightarrow>
     fl_OperatorNamespace fl \<noteq> [] \<and> 0 < fl_GateCheckTTL fl \<and> gateway_stated dns parse (fl_Gateway fl) \<and> cluster_ready cl fl \<and>
     op = \<lparr> po_Agents = agents_of base installed fl, po_Evals = (evals_of fl)\<lparr> rq_Installed := installed \<rparr>,
       po_Detector = \<lparr> dt_ttl = fl_GateCheckTTL fl, dt_cached = False, dt_checked = 0, dt_warmed = False, dt_last = None \<rparr>,
       po_Options = managerOptions (fl_MetricsAddr fl) (fl_ProbeAddr fl) (fl_LeaderElect fl),
       po_Watched = [''Agent'', ''Deployment'', ''ResourceQuota'', ''LimitRange''] @
         (if gw_Enabled (fl_Gateway fl) then [''HTTPRoute'', ''AgentgatewayPolicy'', ''Event'', ''ConfigMap''] else []) \<rparr>"
proof -
  have gw: "ac_Gateway (agents_of base installed fl) = fl_Gateway fl" by (simp add: agents_of_def)
  have evals: "NewEvalReconciler wired (Some installed) (evals_of fl) = Inr e \<longleftrightarrow> e = (evals_of fl)\<lparr> rq_Installed := installed \<rparr>" for e
    by (auto simp: NewEvalReconciler_def)
  show ?thesis
    unfolding run_def Let_def cluster_ready_def
    by (cases "cl_config cl")
      (auto simp: given_ok detector_iff NewAgentReconciler_iff SetupWithManager_iff evals gw)
qed

text \<open>
  The operator starts exactly with a namespace for its records, a positive interval for the check of the EvalSuite kind,
  a gateway stated in full or not at all, and a cluster that answers; and what it starts has its gate wired from a
  detector that presumes the kind until it has looked, both controllers on one Gateway, no cached Secret, ConfigMap or
  Namespace, and the routes and policies watched where there are any.
\<close>

theorem operator_starts_exactly:
  "(case run dns parse cl base installed fl of
      Inl e \<Rightarrow> \<not> (fl_OperatorNamespace fl \<noteq> [] \<and> 0 < fl_GateCheckTTL fl \<and> gateway_stated dns parse (fl_Gateway fl) \<and> cluster_ready cl fl)
    | Inr op \<Rightarrow> fl_OperatorNamespace fl \<noteq> [] \<and> 0 < fl_GateCheckTTL fl \<and> gateway_stated dns parse (fl_Gateway fl) \<and> cluster_ready cl fl \<and>
        gateModeOf (ac_EvalSuiteInstalled (po_Agents op)) agent \<noteq> gateUnwired \<and> presumed (po_Detector op) \<and>
        rq_Gateway (po_Evals op) = ac_Gateway (po_Agents op) \<and>
        set (mo_Uncached (po_Options op)) = {''ConfigMap'', ''Secret'', ''Namespace''} \<and>
        (''HTTPRoute'' \<in> set (po_Watched op)) = gw_Enabled (fl_Gateway fl))"
proof (cases "run dns parse cl base installed fl")
  case (Inl e)
  then show ?thesis using run_ok [of dns parse cl base installed fl] by force
next
  case (Inr op)
  from Inr [unfolded run_ok] have stated: "fl_OperatorNamespace fl \<noteq> []" "0 < fl_GateCheckTTL fl" "gateway_stated dns parse (fl_Gateway fl)"
      "cluster_ready cl fl"
    and op: "po_Agents op = agents_of base installed fl" "po_Evals op = (evals_of fl)\<lparr> rq_Installed := installed \<rparr>"
      "presumed (po_Detector op)" "mo_Uncached (po_Options op) = [''ConfigMap'', ''Secret'', ''Namespace'']"
      "(''HTTPRoute'' \<in> set (po_Watched op)) = gw_Enabled (fl_Gateway fl)"
    by (simp_all add: presumed_def managerOptions_def)
  then show ?thesis unfolding Inr sum.case by (simp add: agents_of_def evals_of_def gateModeOf_def)
qed

end
