(* ===== verification/Ref_Pages.thy ===== *)
theory Ref_Pages
  imports Go_Text
begin

text \<open>
  The pages the reference generator writes (\<^verbatim>\<open>internal/refgen/generate.go\<close>): headings and their anchors, in-page
  links, the tables it wraps, and the checks a page passes before it is written. The regular expressions are
  the functions they denote, leftmost-first as Go's are. Lower case is ASCII's here; of a text with
  other characters it is the argument \<open>uni\<close>, \<^verbatim>\<open>unicode.ToLower\<close>'s tables. The YAML parser is an argument too.
  Prose is reduced to a tag and its values, as messages are.

  Shown: a page that is written has no link that lands nowhere and no two headings with one anchor; wrapping the
  tables and demoting the headings of a page leave every anchor as it was.
\<close>

section \<open>Lower case and anchors\<close>

definition ascii_lower :: "char \<Rightarrow> char" where
  "ascii_lower c = (if 65 \<le> (of_char c :: nat) \<and> (of_char c :: nat) \<le> 90 then char_of (of_char c + 32 :: nat) else c)"

definition to_lower :: "(string \<Rightarrow> string) \<Rightarrow> string \<Rightarrow> string" where
  "to_lower uni s = (if list_all (\<lambda>c. (of_char c :: nat) < 128) s then map ascii_lower s else uni s)"

definition anchor_keeps :: "char \<Rightarrow> bool" where
  "anchor_keeps c \<longleftrightarrow> c \<in> set ''abcdefghijklmnopqrstuvwxyz0123456789 _-''"

definition anchor :: "(string \<Rightarrow> string) \<Rightarrow> string \<Rightarrow> string" where
  "anchor uni s = map (\<lambda>c. if c = CHR '' '' then CHR ''-'' else c) (filter anchor_keeps (to_lower uni s))"

section \<open>Headings\<close>

abbreviation blank :: "char \<Rightarrow> bool" where "blank c \<equiv> c = CHR '' '' \<or> c = CHR 0x09"
abbreviation nl :: char where "nl \<equiv> CHR 0x0A"

text \<open>\<open>headingLine\<close> on one line: the number of marks, and the text without the blanks around it (the last blank, if there is nothing else).\<close>

definition heading_match :: "string \<Rightarrow> (nat \<times> string) option" where
  "heading_match line =
     (let marks = length (takeWhile (\<lambda>c. c = CHR ''#'') line);
          rest = drop marks line;
          blanks = takeWhile blank rest;
          body = dropWhile blank rest in
      if marks = 0 \<or> 6 < marks \<or> blanks = [] then None
      else if body \<noteq> [] then Some (marks, rev (dropWhile blank (rev body)))
      else if length blanks \<ge> 2 then Some (marks, [last blanks]) else None)"

definition headings :: "string \<Rightarrow> (nat \<times> string) list" where
  "headings md = List.map_filter heading_match (split_on nl md)"

definition plain_text :: "string \<Rightarrow> string" where
  "plain_text s = filter (\<lambda>c. c \<notin> {CHR ''`'', CHR ''*'', CHR ''_''}) s"

definition heading_slug :: "(string \<Rightarrow> string) \<Rightarrow> string \<Rightarrow> string" where
  "heading_slug uni t = anchor uni (plain_text t)"

text \<open>Fenced code is taken out before anything is counted.\<close>

abbreviation fence :: string where "fence \<equiv> ''```''"

function strip_fences :: "string \<Rightarrow> string" where
  "strip_fences s = (case str_index s fence of
     None \<Rightarrow> s
   | Some i \<Rightarrow> (case str_index (drop (i + 3) s) fence of
       None \<Rightarrow> s
     | Some j \<Rightarrow> take i s @ strip_fences (drop (i + 3 + j + 3) s)))"
  by auto
termination
proof (relation "measure length")
  fix s i j
  assume "str_index s fence = Some i"
  from str_index_Some [OF this] have "s \<noteq> []" by auto
  then show "(drop (i + 3 + j + 3) s, s) \<in> measure length" by simp
qed simp

declare strip_fences.simps [simp del]

section \<open>Links and targets\<close>

abbreviation link_space :: "char \<Rightarrow> bool" where "link_space c \<equiv> c \<in> {CHR 0x09, CHR 0x0A, CHR 0x0C, CHR 0x0D, CHR '' ''}"

text \<open>\<open>mdLink\<close>: every \<^verbatim>\<open>](#name)\<close>.\<close>

function md_links :: "string \<Rightarrow> string list" where
  "md_links s = (case s of [] \<Rightarrow> [] | _ # s' \<Rightarrow>
     let name = takeWhile (\<lambda>c. c \<noteq> CHR '')'' \<and> \<not> link_space c) (drop 3 s); rest = drop (3 + length name) s in
     if has_prefix s ''](#'' \<and> name \<noteq> [] \<and> has_prefix rest '')'' then name # md_links (drop 1 rest) else md_links s')"
  by auto
termination
  by (relation "measure length") auto

declare md_links.simps [simp del]

abbreviation quote :: char where "quote \<equiv> CHR 0x22"

definition folded_prefix :: "string \<Rightarrow> string \<Rightarrow> bool" where
  "folded_prefix s p \<longleftrightarrow> map ascii_lower (take (length p) s) = p"

text \<open>A quoted value after a prefix: what is quoted, and what follows it.\<close>

definition quoted_after :: "string \<Rightarrow> string \<Rightarrow> (string \<times> string) option" where
  "quoted_after p s =
     (let name = takeWhile (\<lambda>c. c \<noteq> quote) (drop (length p) s); rest = drop (length p + length name) s in
      if folded_prefix s p \<and> name \<noteq> [] \<and> rest \<noteq> [] then Some (name, drop 1 rest) else None)"

text \<open>\<open>htmlAnchor\<close>: of one element, the last \<^verbatim>\<open>href\<close> before its end.\<close>

fun last_href :: "nat \<Rightarrow> string \<Rightarrow> (string \<times> string) option" where
  "last_href 0 s = None"
| "last_href (Suc k) s = (case quoted_after (''href='' @ [quote] @ ''#'') (drop (Suc k) s) of
     Some x \<Rightarrow> Some x | None \<Rightarrow> last_href k s)"

definition html_anchor_at :: "string \<Rightarrow> (string \<times> string) option" where
  "html_anchor_at s =
     (if folded_prefix s ''<a'' then last_href (length (takeWhile (\<lambda>c. c \<noteq> CHR ''>'') (drop 2 s))) (drop 2 s) else None)"

lemma quoted_after_shorter: "quoted_after p s = Some (name, rest) \<Longrightarrow> length rest < length s"
  by (auto simp: quoted_after_def Let_def split: if_splits)

lemma last_href_shorter: "last_href k s = Some (name, rest) \<Longrightarrow> length rest < length s"
  by (induction k) (auto split: option.splits dest!: quoted_after_shorter)

lemma html_anchor_shorter: "html_anchor_at s = Some (name, rest) \<Longrightarrow> length rest < length s"
  by (auto simp: html_anchor_at_def split: if_splits dest!: last_href_shorter)

function html_links :: "string \<Rightarrow> string list" where
  "html_links s = (case html_anchor_at s of
     Some (name, rest) \<Rightarrow> name # html_links rest
   | None \<Rightarrow> (case s of [] \<Rightarrow> [] | _ # s' \<Rightarrow> html_links s'))"
  by auto
termination
  by (relation "measure length") (auto dest: html_anchor_shorter)

declare html_links.simps [simp del]

definition word_char :: "char \<Rightarrow> bool" where
  "word_char c \<longleftrightarrow> c \<in> set ''abcdefghijklmnopqrstuvwxyzABCDEFGHIJKLMNOPQRSTUVWXYZ0123456789_''"

text \<open>\<open>htmlIDAttr\<close>: an \<^verbatim>\<open>id\<close> at a word's start; the flag says whether the byte before is a word's.\<close>

function html_ids :: "bool \<Rightarrow> string \<Rightarrow> string list" where
  "html_ids inside s = (case s of [] \<Rightarrow> [] | c # s' \<Rightarrow>
     (case if inside then None else quoted_after (''id='' @ [quote]) s of
        Some (name, rest) \<Rightarrow> name # html_ids False rest
      | None \<Rightarrow> html_ids (word_char c) s'))"
  by auto
termination
  by (relation "measure (length \<circ> snd)") (auto split: if_splits dest: quoted_after_shorter)

declare html_ids.simps [simp del]

section \<open>The anchors of a page\<close>

text \<open>The targets a renderer makes of the headings, a taken one numbered, and the headings that needed a number.\<close>

fun slug_targets :: "(string \<Rightarrow> string) \<Rightarrow> string list \<Rightarrow> string list \<Rightarrow> string list \<times> string list" where
  "slug_targets uni seen [] = ([], [])"
| "slug_targets uni seen (t # ts) =
     (let slug = heading_slug uni t; n = count_list seen slug in
      if slug = [] then slug_targets uni seen ts
      else case slug_targets uni (slug # seen) ts of (have_, dups) \<Rightarrow>
        (if n > 0 then ((slug @ ''-'' @ dec n) # slug # have_, t # dups) else (slug # have_, dups)))"

definition pageAnchors :: "(string \<Rightarrow> string) \<Rightarrow> string \<Rightarrow> string list \<times> string list" where
  "pageAnchors uni body =
     (let b = strip_fences body in
      case slug_targets uni [] (map snd (headings b)) of (have_, dups) \<Rightarrow> (have_ @ map (to_lower uni) (html_ids False b), dups))"

definition page_links :: "(string \<Rightarrow> string) \<Rightarrow> string \<Rightarrow> string list" where
  "page_links uni body = (let b = strip_fences body in map (to_lower uni) (md_links b @ html_links b))"

definition DeadAnchors :: "(string \<Rightarrow> string) \<Rightarrow> string \<Rightarrow> string list" where
  "DeadAnchors uni body = rev (remdups (rev (filter (\<lambda>t. t \<notin> set (fst (pageAnchors uni body))) (page_links uni body))))"

definition checkAnchors :: "(string \<Rightarrow> string) \<Rightarrow> string \<Rightarrow> string \<Rightarrow> string option" where
  "checkAnchors uni name body =
     (let dupes = snd (pageAnchors uni body);
          dead = DeadAnchors uni body;
          problems = (if dead \<noteq> [] then [msgf ''links point at an anchor the page does not have'' (itoa (int (length dead)) # dead)] else []) @
            (if dupes \<noteq> [] then [msgf ''headings slug to an anchor another heading already took'' (itoa (int (length dupes)) # dupes)] else []) in
      if problems \<noteq> [] then Some (msgf ''would have been written with broken navigation'' (name # problems)) else None)"

lemma slug_targets_Cons:
  "snd (slug_targets uni seen (t # ts)) = (let slug = heading_slug uni t in
     if slug = [] then snd (slug_targets uni seen ts)
     else if slug \<in> set seen then t # snd (slug_targets uni (slug # seen) ts) else snd (slug_targets uni (slug # seen) ts))"
  "fst (slug_targets uni seen (t # ts)) = (let slug = heading_slug uni t in
     if slug = [] then fst (slug_targets uni seen ts)
     else if slug \<in> set seen then (slug @ ''-'' @ dec (count_list seen slug)) # slug # fst (slug_targets uni (slug # seen) ts)
     else slug # fst (slug_targets uni (slug # seen) ts))"
  by (auto simp: Let_def count_list_0_iff split: prod.split)

declare slug_targets.simps(2) [simp del]

text \<open>The slugs of a page's headings; one that is empty is no target.\<close>

definition slugs_of :: "(string \<Rightarrow> string) \<Rightarrow> string list \<Rightarrow> string list" where
  "slugs_of uni ts = filter (\<lambda>s. s \<noteq> []) (map (heading_slug uni) ts)"

definition page_slugs :: "(string \<Rightarrow> string) \<Rightarrow> string \<Rightarrow> string list" where
  "page_slugs uni body = slugs_of uni (map snd (headings (strip_fences body)))"

definition page_ids :: "(string \<Rightarrow> string) \<Rightarrow> string \<Rightarrow> string list" where
  "page_ids uni body = map (to_lower uni) (html_ids False (strip_fences body))"

lemma slugs_of_simps [simp]:
  "slugs_of uni [] = []"
  "slugs_of uni (t # ts) = (if heading_slug uni t = [] then slugs_of uni ts else heading_slug uni t # slugs_of uni ts)"
  by (simp_all add: slugs_of_def)

lemma slug_targets_dups:
  "snd (slug_targets uni seen ts) = [] \<longleftrightarrow> distinct (slugs_of uni ts) \<and> set (slugs_of uni ts) \<inter> set seen = {}"
  by (induction ts arbitrary: seen) (simp_all add: slug_targets_Cons Let_def, blast)

lemma slug_targets_have:
  "snd (slug_targets uni seen ts) = [] \<Longrightarrow> set (fst (slug_targets uni seen ts)) = set (slugs_of uni ts)"
  by (induction ts arbitrary: seen) (simp_all add: slug_targets_Cons Let_def split: if_splits)

lemma checkAnchors_iff:
  "checkAnchors uni name body = None \<longleftrightarrow>
     distinct (page_slugs uni body) \<and> set (page_links uni body) \<subseteq> set (page_slugs uni body) \<union> set (page_ids uni body)"
proof -
  let ?t = "slug_targets uni [] (map snd (headings (strip_fences body)))"
  have anchors: "pageAnchors uni body = (fst ?t @ page_ids uni body, snd ?t)"
    by (simp add: pageAnchors_def Let_def page_ids_def case_prod_beta)
  have dups: "snd ?t = [] \<longleftrightarrow> distinct (page_slugs uni body)"
    by (simp add: slug_targets_dups page_slugs_def)
  have "DeadAnchors uni body = [] \<longleftrightarrow> set (page_links uni body) \<subseteq> set (page_slugs uni body) \<union> set (page_ids uni body)"
    if "snd ?t = []"
    using slug_targets_have [OF that] by (auto simp: DeadAnchors_def filter_empty_conv anchors page_slugs_def)
  with dups show ?thesis by (auto simp: checkAnchors_def Let_def anchors)
qed

text \<open>
  The navigation check is exact: a page passes if and only if no two of its headings have one anchor and every
  in-page link, Markdown or HTML, names the anchor of a heading or an explicit id. Links and headings
  inside fenced code do not count either way.
\<close>

theorem checkAnchors_exact:
  "checkAnchors uni name body = None \<longleftrightarrow>
     distinct (page_slugs uni body) \<and> set (page_links uni body) \<subseteq> set (page_slugs uni body) \<union> set (page_ids uni body)"
  by (rule checkAnchors_iff)

section \<open>Tables\<close>

text \<open>\<^verbatim>\<open>html.EscapeString\<close>.\<close>

definition html_escape :: "string \<Rightarrow> string" where
  "html_escape s = concat (map (\<lambda>c.
     if c = CHR ''&'' then ''&amp;'' else if c = CHR 0x27 then ''&#39;'' else if c = CHR ''<'' then ''&lt;''
     else if c = CHR ''>'' then ''&gt;'' else if c = quote then ''&#34;'' else [c]) s)"

definition quoted :: "string \<Rightarrow> string" where
  "quoted s = quote # s @ [quote]"

definition table_region :: "string \<Rightarrow> string" where
  "table_region label = ''<div class='' @ quoted ''ref-table'' @ '' role='' @ quoted ''region'' @ '' tabindex='' @ quoted ''0'' @
     '' aria-label='' @ quoted (html_escape label) @ ''>''"

text \<open>A heading line's text as the pages quote it.\<close>

definition heading_label :: "string \<Rightarrow> string" where
  "heading_label line = trim_space (dropWhile (\<lambda>c. c = CHR ''#'') line)"

abbreviation row :: "string \<Rightarrow> bool" where "row line \<equiv> has_prefix line ''|''"

function wrap_lines :: "bool \<Rightarrow> string \<Rightarrow> string list \<Rightarrow> string list" where
  "wrap_lines fenced heading [] = []"
| "wrap_lines fenced heading (line # ls) =
     (let fenced' = (if has_prefix line fence then \<not> fenced else fenced);
          heading' = (if \<not> fenced' \<and> heading_match line \<noteq> None then heading_label line else heading) in
      if fenced' \<or> \<not> row line \<or> ls = [] \<or> \<not> has_prefix (hd ls) ''|---'' then line # wrap_lines fenced' heading' ls
      else [table_region (''Table under '' @ heading' @ ''. Scroll or use the arrow keys to pan.''), []] @
        line # takeWhile row ls @ [[], ''</div>''] @ wrap_lines fenced' heading' (dropWhile row ls))"
  by pat_completeness auto
termination
  by (relation "measure (\<lambda>(_, _, ls). length ls)") (auto simp: less_Suc_eq_le length_dropWhile_le)

definition wrapMarkdownTables :: "string \<Rightarrow> string" where
  "wrapMarkdownTables md = join [nl] (wrap_lines False ''the page'' (split_on nl md))"

text \<open>\<^verbatim>\<open>demoteHeadings\<close> (\<^verbatim>\<open>crd.go\<close>): every heading one level down, the deepest level excepted.\<close>

definition demote_line :: "string \<Rightarrow> string" where
  "demote_line line = (case heading_match line of Some (marks, _) \<Rightarrow> if marks < 6 then CHR ''#'' # line else line | None \<Rightarrow> line)"

definition demoteHeadings :: "string \<Rightarrow> string" where
  "demoteHeadings md = join [nl] (map demote_line (split_on nl md))"

lemma heading_match_hash: "heading_match line \<noteq> None \<Longrightarrow> \<exists>t. line = CHR ''#'' # t"
  by (cases line) (auto simp: heading_match_def Let_def split: if_splits)

lemma heading_match_other [simp]: "c \<noteq> CHR ''#'' \<Longrightarrow> heading_match (c # s) = None"
  by (metis heading_match_hash list.inject)

lemma heading_match_Nil [simp]: "heading_match [] = None"
  by (simp add: heading_match_def)

lemma heading_match_demote:
  "heading_match (demote_line line) = map_option (\<lambda>(n, t). (if n < 6 then Suc n else n, t)) (heading_match line)"
proof (cases "heading_match line")
  case None
  then show ?thesis by (simp add: demote_line_def)
next
  case (Some x)
  obtain n t where x: "x = (n, t)" by (cases x)
  show ?thesis
  proof (cases "n < 6")
    case True
    with Some x show ?thesis
      by (simp add: demote_line_def) (auto simp: heading_match_def Let_def split: if_splits)
  next
    case False
    with Some x show ?thesis by (simp add: demote_line_def)
  qed
qed

lemma no_nl_escape [simp]: "nl \<in> set (html_escape s) \<longleftrightarrow> nl \<in> set s"
  by (induction s) (auto simp: html_escape_def)

lemma map_filter_simps:
  "List.map_filter f [] = []"
  "List.map_filter f (x # xs) = (case f x of None \<Rightarrow> List.map_filter f xs | Some y \<Rightarrow> y # List.map_filter f xs)"
  "List.map_filter f (xs @ ys) = List.map_filter f xs @ List.map_filter f ys"
  by (auto simp: List.map_filter_def split: option.splits)

text \<open>
  The comment on \<^verbatim>\<open>demoteHeadings\<close> says anchors do not move: every heading keeps its text, and so its anchor,
  and goes one level down unless it is at the deepest.
\<close>

theorem demoteHeadings_keeps_texts:
  "headings (demoteHeadings md) = map (\<lambda>(n, t). (if n < 6 then Suc n else n, t)) (headings md)"
proof -
  let ?ls = "split_on nl md"
  have "nl \<notin> set (demote_line l)" if "l \<in> set ?ls" for l
    using split_on_parts [OF that] by (auto simp: demote_line_def split: option.split)
  then have "split_on nl (demoteHeadings md) = map demote_line ?ls"
    unfolding demoteHeadings_def by (intro split_on_join) auto
  moreover have "List.map_filter heading_match (map demote_line ls) = map (\<lambda>(n, t). (if n < 6 then Suc n else n, t)) (List.map_filter heading_match ls)" for ls
    by (induction ls) (auto simp: map_filter_simps heading_match_demote split: option.split)
  ultimately show ?thesis by (simp add: headings_def)
qed

lemma heading_match_row: "row line \<Longrightarrow> heading_match line = None"
  by (cases line) (auto simp: has_prefix_def)

lemma heading_match_region [simp]: "heading_match (table_region label) = None"
  by (simp add: table_region_def)

lemma rows_no_heading: "List.map_filter heading_match (takeWhile row ls) = []"
  by (induction ls) (auto simp: map_filter_simps heading_match_row)

lemma wrap_lines_headings: "List.map_filter heading_match (wrap_lines fenced heading ls) = List.map_filter heading_match ls"
proof (induction fenced heading ls rule: wrap_lines.induct)
  case (2 fenced heading line ls)
  have split: "List.map_filter heading_match ls = List.map_filter heading_match (dropWhile row ls)"
    using map_filter_simps(3) [of heading_match "takeWhile row ls" "dropWhile row ls"] rows_no_heading by simp
  show ?case
    using 2 split by (auto simp: Let_def map_filter_simps rows_no_heading heading_match_row split: option.split)
qed simp

lemma set_trim_space: "set (trim_space s) \<subseteq> set s"
proof -
  have "set (trim_left_space s) \<subseteq> set s" for s
    by (induction s rule: trim_left_space.induct) (subst trim_left_space.simps, auto dest: in_set_dropD)
  moreover have "set (trim_right_space s) \<subseteq> set s" for s
    by (induction s rule: trim_right_space.induct) (subst trim_right_space.simps, auto dest: in_set_takeD)
  ultimately show ?thesis unfolding trim_space_def by blast
qed

lemma wrap_lines_no_nl:
  "\<forall>l \<in> set ls. nl \<notin> set l \<Longrightarrow> nl \<notin> set heading \<Longrightarrow> l \<in> set (wrap_lines fenced heading ls) \<Longrightarrow> nl \<notin> set l"
proof (induction fenced heading ls rule: wrap_lines.induct)
  case (2 fenced heading line ls)
  have label: "nl \<notin> set (heading_label line)"
    using 2(3) set_trim_space unfolding heading_label_def by (auto dest: set_dropWhileD)
  show ?case
    using 2 label by (auto simp: Let_def table_region_def quoted_def dest: set_takeWhileD set_dropWhileD split: if_splits)
qed simp

text \<open>Wrapping the tables of a page adds no heading and loses none.\<close>

theorem wrapMarkdownTables_keeps_headings: "headings (wrapMarkdownTables md) = headings md"
proof -
  let ?ls = "wrap_lines False ''the page'' (split_on nl md)"
  have "?ls \<noteq> []" by (cases "split_on nl md") (auto simp: Let_def)
  moreover have "nl \<notin> set l" if "l \<in> set ?ls" for l
    using wrap_lines_no_nl [OF _ _ that] split_on_parts by fastforce
  ultimately have "split_on nl (wrapMarkdownTables md) = ?ls"
    unfolding wrapMarkdownTables_def by (intro split_on_join) auto
  then show ?thesis by (simp add: headings_def wrap_lines_headings)
qed

section \<open>Writing a page\<close>

text \<open>\<^verbatim>\<open>yamlScalar\<close>: a YAML double-quoted scalar.\<close>

definition yaml_escape :: "char \<Rightarrow> string" where
  "yaml_escape c = (if c = CHR 0x5C then [CHR 0x5C, CHR 0x5C] else if c = quote then [CHR 0x5C, quote]
     else if c = nl then [CHR 0x5C, CHR ''n''] else if c = CHR 0x0D then [CHR 0x5C, CHR ''r'']
     else if c = CHR 0x09 then [CHR 0x5C, CHR ''t''] else [c])"

definition yamlScalar :: "string \<Rightarrow> string" where
  "yamlScalar s = quoted (concat (map yaml_escape s))"

definition frontMatter :: "string \<Rightarrow> string \<Rightarrow> string" where
  "frontMatter title description = ''---'' @ [nl] @ ''title: '' @ yamlScalar title @ [nl] @ ''description: '' @ yamlScalar description @ [nl] @ ''---'' @ [nl]"

text \<open>A parsed block is its keys with their values, where those are strings.\<close>

type_synonym yaml_parser = "string \<Rightarrow> string + (string \<times> string option) list"

definition FrontMatter :: "yaml_parser \<Rightarrow> string \<Rightarrow> string + (string \<times> string option) list" where
  "FrontMatter parse body =
     (let mark = ''---'' @ [nl]; rest = drop (length mark) body in
      if \<not> has_prefix body mark then Inl ''the page has no front matter''
      else case str_index rest (nl # mark) of
        None \<Rightarrow> Inl ''the front matter block is never closed''
      | Some i \<Rightarrow> (case parse (take (Suc i) rest) of Inl e \<Rightarrow> Inl (msgf ''the front matter is not valid YAML'' [e]) | Inr fm \<Rightarrow> Inr fm))"

definition front_title :: "(string \<times> string option) list \<Rightarrow> string" where
  "front_title fm = (case map_of fm ''title'' of Some (Some t) \<Rightarrow> t | _ \<Rightarrow> [])"

definition checkFrontMatter :: "yaml_parser \<Rightarrow> string \<Rightarrow> string \<Rightarrow> string option" where
  "checkFrontMatter parse name body = (case FrontMatter parse body of
     Inl e \<Rightarrow> Some (msgf ''would have been written with front matter no site can load'' [name, e])
   | Inr fm \<Rightarrow> if trim_space (front_title fm) = [] then Some (msgf ''would have been written with no title in its front matter'' [name]) else None)"

text \<open>What is written to the file, or why nothing is.\<close>

definition finished_body :: "string \<Rightarrow> string" where
  "finished_body body = (let b = replace_all [CHR 0x0D, nl] [nl] body in
     wrapMarkdownTables (if has_suffix b [nl] then b else b @ [nl]))"

definition write_page :: "(string \<Rightarrow> string) \<Rightarrow> yaml_parser \<Rightarrow> string \<Rightarrow> string \<Rightarrow> string + string" where
  "write_page uni parse name body =
     (let b = finished_body body in
      case checkFrontMatter parse name b of Some e \<Rightarrow> Inl e
      | None \<Rightarrow> (case checkAnchors uni name b of Some e \<Rightarrow> Inl e | None \<Rightarrow> Inr b))"

text \<open>\<^verbatim>\<open>checkCRDs\<close>: the files of \<^verbatim>\<open>config/crd\<close> are the ones that have a page.\<close>

definition checkCRDs :: "string list \<Rightarrow> (string \<times> bool) list \<Rightarrow> string option" where
  "checkCRDs sources ents =
     (let yamls = sort (map fst (filter (\<lambda>(n, dir). \<not> dir \<and> (has_suffix n ''.yaml'' \<or> has_suffix n ''.yml'')) ents));
          want = sort sources in
      if join '','' yamls \<noteq> join '','' want
      then Some (msgf ''the CRD pages state that config/crd holds exactly these'' (want @ itoa (int (length yamls)) # yamls))
      else None)"

text \<open>
  A page that is written has a title a site can load, no two headings with one anchor, and no in-page link that
  lands nowhere.
\<close>

theorem write_page_navigable:
  assumes "write_page uni parse name body = Inr b"
  shows "distinct (page_slugs uni b) \<and> set (page_links uni b) \<subseteq> set (page_slugs uni b) \<union> set (page_ids uni b) \<and>
    (\<exists>fm. FrontMatter parse b = Inr fm \<and> trim_space (front_title fm) \<noteq> []) \<and> b = finished_body body"
  using assms checkAnchors_iff [of uni name b]
  by (auto simp: write_page_def Let_def checkFrontMatter_def split: option.splits sum.splits if_splits)

lemma wrap_lines_plain: "list_all (\<lambda>l. \<not> row l) ls \<Longrightarrow> wrap_lines fenced heading ls = ls"
  by (induction fenced heading ls rule: wrap_lines.induct) (auto simp: Let_def)

text \<open>A page of plain lines is finished as it is.\<close>

lemma finished_plain:
  assumes "CHR 0x0D \<notin> set body" "has_suffix body [nl]" "list_all (\<lambda>l. \<not> row l) (split_on nl body)"
  shows "finished_body body = body"
proof -
  have "replace_all [CHR 0x0D, nl] [nl] s = s" if "CHR 0x0D \<notin> set s" for s
    using that by (induction s) (auto simp: replace_all_miss has_prefix_def)
  with assms show ?thesis by (simp add: finished_body_def Let_def wrapMarkdownTables_def wrap_lines_plain join_split_on)
qed

definition sample_page :: string where
  "sample_page = frontMatter ''A'' [] @ join [nl] [''## K'', ''](#k)'', []]"

theorem write_page_navigable_witness:
  "\<exists>b. write_page id (\<lambda>_. Inr [(''title'', Some ''A'')]) ''p.md'' sample_page = Inr b \<and>
     set (page_links id b) \<subseteq> set (page_slugs id b) \<union> set (page_ids id b)"
proof -
  let ?parse = "\<lambda>_. Inr [(''title'', Some ''A'')] :: string + (string \<times> string option) list"
  have plain: "CHR 0x0D \<notin> set sample_page" "has_suffix sample_page [nl]" "list_all (\<lambda>l. \<not> row l) (split_on nl sample_page)"
    by code_simp+
  have front: "FrontMatter ?parse sample_page = ?parse []" "trim_space ''A'' \<noteq> []" by code_simp+
  have slugs: "page_slugs id sample_page = [''k'']" and links: "page_links id sample_page = [''k'']" by code_simp+
  have "checkAnchors id ''p.md'' sample_page = None"
    unfolding checkAnchors_iff slugs links by simp
  then have "write_page id ?parse ''p.md'' sample_page = Inr sample_page"
    by (simp add: write_page_def Let_def finished_plain [OF plain] checkFrontMatter_def front front_title_def)
  with write_page_navigable [OF this] show ?thesis by blast
qed

end
