(* ===== verification/Reason_Extract.thy ===== *)
theory Reason_Extract
  imports Ref_Pages "HOL-Library.Product_Lexorder"
begin

text \<open>
  The extraction of the operator's reason vocabulary from its own source (\<^verbatim>\<open>internal/refgen/extract.go\<close>): every call
  and literal that writes a condition, with the set of reasons its reason expression can hold. A package is its
  syntax trees as \<^verbatim>\<open>go/ast\<close> has them, with what \<^verbatim>\<open>go/types\<close> says of a node kept in the node: the string constant an expression
  folds to, the object an identifier declares or uses, the named type of a literal and of a selection's receiver.
  \<^verbatim>\<open>ast.Inspect\<close> is the preorder of a tree; positions are lines. The extractor's fields of the last field read are
  threaded through the resolver as in the code.

  Shown: no reason of a site is invented, since each reaches the site through the package's own syntax trees
  (\<open>may_hold\<close>, which uses nothing of the resolver); and the resolver drops nothing of what it takes for the fields
  (\<open>flows\<close>). The converse of the first does not hold, and the examples at the end show where the listing falls short:
  an assigned parameter hides its callers, and a field read through its builder leaves out what the builder writes without a constant.
\<close>

section \<open>Syntax trees\<close>

datatype obj =
    VarObj (vr_id: nat) (vr_name: string)
  | FuncObj nat
  | ConstObj (co_type: "string option") (co_value: "string option")
  | OtherObj

record ident =
  id_name :: string
  id_defs :: "obj option"
  id_uses :: "obj option"

text \<open>A named type: its name, the path of its package, and the fields of the struct under it.\<close>

record named =
  nm_name :: string
  nm_pkg :: "string option"
  nm_fields :: "string list option"

datatype node = Node (nd_value: "string option") (nd_line: int) (nd_form: form)
and form =
    Ident ident
  | Selector node ident "string option"
  | IndexExpr node node
  | ParenExpr node
  | StarExpr node
  | UnaryExpr string node
  | CallExpr node "node list"
  | BasicLit string
  | CompositeLit "named option" "node list"
  | KeyValue node node
  | AssignStmt "node list" "node list"
  | ReturnStmt "node list"
  | ValueDecl "ident list" "node list"
  | OtherNode "node list"

primrec nodes :: "node \<Rightarrow> node list" and form_nodes :: "form \<Rightarrow> node list" where
  "nodes (Node v l f) = Node v l f # form_nodes f"
| "form_nodes (Ident i) = []"
| "form_nodes (Selector x s r) = nodes x"
| "form_nodes (IndexExpr x i) = nodes x @ nodes i"
| "form_nodes (ParenExpr x) = nodes x"
| "form_nodes (StarExpr x) = nodes x"
| "form_nodes (UnaryExpr op x) = nodes x"
| "form_nodes (CallExpr f args) = nodes f @ concat (map nodes args)"
| "form_nodes (BasicLit s) = []"
| "form_nodes (CompositeLit t els) = concat (map nodes els)"
| "form_nodes (KeyValue k v) = nodes k @ nodes v"
| "form_nodes (AssignStmt ls rs) = concat (map nodes ls) @ concat (map nodes rs)"
| "form_nodes (ReturnStmt rs) = concat (map nodes rs)"
| "form_nodes (ValueDecl ids vs) = concat (map nodes vs)"
| "form_nodes (OtherNode ns) = concat (map nodes ns)"

text \<open>Declarations. The nodes of a function are those of its receiver and type, then those of its body.\<close>

record funcdecl =
  fd_name :: string
  fd_obj :: "obj option"
  fd_params :: "string list"
  fd_type :: "node list"
  fd_body :: "node list option"

datatype token = ConstTok | TypeTok | VarTok | ImportTok

record valuespec =
  vs_doc :: "string option"
  vs_names :: "(ident \<times> int) list"
  vs_values :: "node list"

record typespec =
  ts_doc :: "string option"
  ts_name :: string
  ts_nodes :: "node list"

datatype spec = ValueSpec valuespec | TypeSpec typespec | ImportSpec

record gendecl =
  gd_tok :: token
  gd_doc :: "string option"
  gd_specs :: "spec list"

datatype decl = FuncDecl funcdecl | GenDecl gendecl

record gofile =
  gf_name :: string
  gf_decls :: "decl list"

record package =
  pk_path :: string
  pk_errors :: "string list"
  pk_files :: "gofile list"

definition body_nodes :: "funcdecl \<Rightarrow> node list" where
  "body_nodes fd = concat (map nodes (case fd_body fd of None \<Rightarrow> [] | Some ss \<Rightarrow> ss))"

definition func_nodes :: "funcdecl \<Rightarrow> node list" where
  "func_nodes fd = concat (map nodes (fd_type fd)) @ body_nodes fd"

fun spec_nodes :: "spec \<Rightarrow> node list" where
  "spec_nodes (ValueSpec vs) = concat (map nodes (vs_values vs))"
| "spec_nodes (TypeSpec ts) = concat (map nodes (ts_nodes ts))"
| "spec_nodes ImportSpec = []"

text \<open>The nodes of a file, each with the function it is in (\<open>enclosingFunc\<close>).\<close>

fun decl_nodes :: "decl \<Rightarrow> (funcdecl option \<times> node) list" where
  "decl_nodes (FuncDecl fd) = map (Pair (Some fd)) (func_nodes fd)"
| "decl_nodes (GenDecl gd) = map (Pair None) (concat (map spec_nodes (gd_specs gd)))"

definition file_nodes :: "gofile \<Rightarrow> (funcdecl option \<times> node) list" where
  "file_nodes f = concat (map decl_nodes (gf_decls f))"

fun decl_funcs :: "decl \<Rightarrow> funcdecl list" where
  "decl_funcs (FuncDecl fd) = [fd]"
| "decl_funcs (GenDecl gd) = []"

definition pkg_functions :: "package \<Rightarrow> funcdecl list" where
  "pkg_functions p = concat (map (\<lambda>f. concat (map decl_funcs (gf_decls f))) (pk_files p))"

definition funcDecl :: "package \<Rightarrow> obj \<Rightarrow> funcdecl option" where
  "funcDecl p ob = find (\<lambda>fd. fd_obj fd = Some ob) (pkg_functions p)"

section \<open>Names\<close>

definition isReasonField :: "(string \<Rightarrow> string) \<Rightarrow> string \<Rightarrow> bool" where
  "isReasonField uni name \<longleftrightarrow> has_suffix (to_lower uni name) ''reason''"

text \<open>\<^verbatim>\<open>selectionStruct\<close>: the empty string where the selection or its named type is not there.\<close>

definition selectionStruct :: "string option \<Rightarrow> string" where
  "selectionStruct recv = (case recv of None \<Rightarrow> [] | Some n \<Rightarrow> n)"

definition constString :: "node \<Rightarrow> string option" where
  "constString e = nd_value e"

definition varOf :: "ident \<Rightarrow> obj option" where
  "varOf i = (case id_defs i of Some (VarObj n x) \<Rightarrow> Some (VarObj n x) | _ \<Rightarrow>
     (case id_uses i of Some (VarObj n x) \<Rightarrow> Some (VarObj n x) | _ \<Rightarrow> None))"

text \<open>The identifier a call names, and the function it declares in the package.\<close>

definition callee :: "node \<Rightarrow> ident option" where
  "callee f = (case nd_form f of Ident i \<Rightarrow> Some i | Selector x s r \<Rightarrow> Some s | _ \<Rightarrow> None)"

definition calleeDecl :: "package \<Rightarrow> node \<Rightarrow> funcdecl option" where
  "calleeDecl p f = (case callee f of None \<Rightarrow> None | Some i \<Rightarrow>
     (case id_uses i of Some (FuncObj n) \<Rightarrow> funcDecl p (FuncObj n) | _ \<Rightarrow> None))"

definition callsFunc :: "node \<Rightarrow> obj \<Rightarrow> bool" where
  "callsFunc f want \<longleftrightarrow> (case callee f of None \<Rightarrow> False | Some i \<Rightarrow> id_uses i = Some want)"

fun rootIdent :: "node \<Rightarrow> ident option" where
  "rootIdent (Node v l (Ident i)) = Some i"
| "rootIdent (Node v l (IndexExpr x i)) = rootIdent x"
| "rootIdent (Node v l (Selector x s r)) = rootIdent x"
| "rootIdent (Node v l (ParenExpr x)) = rootIdent x"
| "rootIdent (Node v l (StarExpr x)) = rootIdent x"
| "rootIdent _ = None"

definition isParam :: "funcdecl \<Rightarrow> string \<Rightarrow> bool" where
  "isParam fd name \<longleftrightarrow> name \<in> set (fd_params fd)"

text \<open>The position of a parameter; of two with one name, the later.\<close>

definition param_index :: "funcdecl \<Rightarrow> string \<Rightarrow> nat option" where
  "param_index fd name = (case dropWhile (\<lambda>n. n \<noteq> name) (rev (fd_params fd)) of [] \<Rightarrow> None | _ # rest \<Rightarrow> Some (length rest))"

definition ellipsis :: string where
  "ellipsis = [CHR 0xE2, CHR 0x80, CHR 0xA6]"

fun exprText :: "node \<Rightarrow> string" where
  "exprText (Node v l (Ident i)) = id_name i"
| "exprText (Node v l (Selector x s r)) = exprText x @ ''.'' @ id_name s"
| "exprText (Node v l (IndexExpr x i)) = exprText x @ ''['' @ exprText i @ '']''"
| "exprText (Node v l (CallExpr f as)) = exprText f @ ''('' @ ellipsis @ '')''"
| "exprText (Node v l (BasicLit s)) = s"
| "exprText (Node v l (StarExpr x)) = ''*'' @ exprText x"
| "exprText (Node v l (UnaryExpr op x)) = op @ exprText x"
| "exprText (Node v l _) = (case v of Some s \<Rightarrow> s | None \<Rightarrow> ''<expression>'')"

definition baseName :: "string \<Rightarrow> string" where
  "baseName p = rev (takeWhile (\<lambda>c. c \<noteq> CHR ''/'') (rev p))"

section \<open>What is written where\<close>

text \<open>
  The fields a literal sets by name or position, each with its value. A key that is no identifier is passed over, and so
  is a position beyond the fields.
\<close>

definition literal_field :: "string list \<Rightarrow> nat \<Rightarrow> node \<Rightarrow> (string \<times> node) option" where
  "literal_field fs i el = (case nd_form el of
     KeyValue k v \<Rightarrow> (case nd_form k of Ident n \<Rightarrow> Some (id_name n, v) | _ \<Rightarrow> None)
   | _ \<Rightarrow> if i < length fs then Some (fs ! i, el) else None)"

definition literal_fields :: "named \<Rightarrow> node list \<Rightarrow> (string \<times> node) list" where
  "literal_fields nm els = (case nm_fields nm of None \<Rightarrow> []
   | Some fs \<Rightarrow> List.map_filter (\<lambda>(i, el). literal_field fs i el) (enumerate 0 els))"

text \<open>\<^verbatim>\<open>fieldReasonsInFunc\<close>: the constants one function writes into a field; other values are passed over.\<close>

definition fieldReasonsInFunc :: "funcdecl \<Rightarrow> string \<Rightarrow> string list" where
  "fieldReasonsInFunc fd key = sort (remdups (concat (map (\<lambda>n. case nd_form n of
     CompositeLit (Some nm) els \<Rightarrow> List.map_filter (\<lambda>(name, v).
       if name \<noteq> [] \<and> nm_name nm @ ''.'' @ name = key then constString v else None) (literal_fields nm els)
   | _ \<Rightarrow> []) (body_nodes fd))))"

text \<open>The assignments to one variable in a function, in order: a value of its own, a position of one value, or neither.\<close>

datatype assigned = Direct node | Result node nat | Opaque

definition assigned_in :: "obj \<Rightarrow> node \<Rightarrow> assigned list" where
  "assigned_in ob n = (case nd_form n of
     AssignStmt ls rs \<Rightarrow> List.map_filter (\<lambda>(i, lhs). case nd_form lhs of
         Ident x \<Rightarrow> if varOf x = Some ob
           then Some (if length rs = length ls then Direct (rs ! i) else if length rs = 1 then Result (rs ! 0) i else Opaque)
           else None
       | _ \<Rightarrow> None) (enumerate 0 ls)
   | _ \<Rightarrow> [])"

definition assignments :: "funcdecl \<Rightarrow> obj \<Rightarrow> assigned list" where
  "assignments fd ob = concat (map (assigned_in ob) (func_nodes fd))"

text \<open>What a function returns at a position, and what its callers in a file pass at one.\<close>

definition returned :: "funcdecl \<Rightarrow> nat \<Rightarrow> node list" where
  "returned fd pos = List.map_filter (\<lambda>n. case nd_form n of
     ReturnStmt rs \<Rightarrow> if pos < length rs then Some (rs ! pos) else None | _ \<Rightarrow> None) (body_nodes fd)"

definition passed :: "gofile \<Rightarrow> obj \<Rightarrow> nat \<Rightarrow> (funcdecl option \<times> node) list" where
  "passed f want i = List.map_filter (\<lambda>(fn, n). case nd_form n of
     CallExpr g as \<Rightarrow> if callsFunc g want \<and> i < length as then Some (fn, as ! i) else None | _ \<Rightarrow> None) (file_nodes f)"

section \<open>The resolver\<close>

datatype resolution = ResolvedConstant | ResolvedField | ResolvedLocal | ResolvedCarried | Unresolved

text \<open>\<open>lastFieldOpen\<close> and \<open>lastFieldKey\<close>.\<close>

type_synonym last_field = "bool \<times> string"
type_synonym resolver = "funcdecl option \<Rightarrow> node \<Rightarrow> last_field \<Rightarrow> (string list \<times> resolution) \<times> last_field"
type_synonym answer = "string list option"

text \<open>What a resolution contributes: nothing if it is unresolved or empty.\<close>

definition folded :: "string list \<times> resolution \<Rightarrow> answer" where
  "folded r = (if snd r = Unresolved \<or> fst r = [] then None else Some (fst r))"

fun run_all :: "('a \<Rightarrow> last_field \<Rightarrow> answer \<times> last_field) \<Rightarrow> 'a list \<Rightarrow> last_field \<Rightarrow> answer list \<times> last_field" where
  "run_all f [] lf = ([], lf)"
| "run_all f (x # xs) lf = (case f x lf of (r, l1) \<Rightarrow> case run_all f xs l1 of (rs, l2) \<Rightarrow> (r # rs, l2))"

text \<open>All of them, in order and once each, or nothing if one is missing or there is none.\<close>

definition union :: "answer list \<Rightarrow> answer" where
  "union rs = (if rs = [] \<or> None \<in> set rs then None else Some (sort (remdups (concat (map the rs)))))"

definition resolve_returned :: "resolver \<Rightarrow> package \<Rightarrow> node \<Rightarrow> nat \<Rightarrow> last_field \<Rightarrow> answer \<times> last_field" where
  "resolve_returned rr p call pos lf = (case nd_form call of
     CallExpr g as \<Rightarrow> (case calleeDecl p g of
         None \<Rightarrow> (None, lf)
       | Some fd \<Rightarrow> (case run_all (\<lambda>e l. case rr (Some fd) e l of (r, l') \<Rightarrow> (folded r, l')) (returned fd pos) lf of
           (rs, l) \<Rightarrow> (union rs, l)))
   | _ \<Rightarrow> (None, lf))"

fun run_files :: "('a \<Rightarrow> last_field \<Rightarrow> answer \<times> last_field) \<Rightarrow> 'a list list \<Rightarrow> last_field \<Rightarrow> answer list \<times> last_field" where
  "run_files f [] lf = ([], lf)"
| "run_files f (xs # xss) lf = (case run_all f xs lf of (rs, l1) \<Rightarrow>
     if None \<in> set rs then (rs, l1) else (case run_files f xss l1 of (rs', l2) \<Rightarrow> (rs @ rs', l2)))"

definition resolveParam :: "resolver \<Rightarrow> package \<Rightarrow> funcdecl \<Rightarrow> string \<Rightarrow> last_field \<Rightarrow> answer \<times> last_field" where
  "resolveParam rr p fd name lf = (case fd_obj fd of
     Some (FuncObj k) \<Rightarrow> (case param_index fd name of
         None \<Rightarrow> (None, lf)
       | Some i \<Rightarrow> (case run_files (\<lambda>(fn, e) l. case rr fn e l of (r, l') \<Rightarrow> (folded r, l'))
             (map (\<lambda>f. passed f (FuncObj k) i) (pk_files p)) lf of (rs, l) \<Rightarrow> (union rs, l)))
   | _ \<Rightarrow> (None, lf))"

text \<open>A local: what is assigned to it; if nothing of it folds and it is a parameter, what callers pass.\<close>

definition resolve_assigned ::
  "resolver \<Rightarrow> (node \<Rightarrow> nat \<Rightarrow> last_field \<Rightarrow> answer \<times> last_field) \<Rightarrow> funcdecl \<Rightarrow> assigned \<Rightarrow> last_field \<Rightarrow> answer \<times> last_field" where
  "resolve_assigned rr rc fd a lf = (case a of
     Direct e \<Rightarrow> (case rr (Some fd) e lf of (r, l) \<Rightarrow> (folded r, l))
   | Result e i \<Rightarrow> rc e i lf
   | Opaque \<Rightarrow> (None, lf))"

definition resolveLocal ::
  "resolver \<Rightarrow> (node \<Rightarrow> nat \<Rightarrow> last_field \<Rightarrow> answer \<times> last_field) \<Rightarrow> package \<Rightarrow> funcdecl \<Rightarrow> obj \<Rightarrow> last_field \<Rightarrow> answer \<times> last_field" where
  "resolveLocal rr rc p fd ob lf = (case run_all (resolve_assigned rr rc fd) (assignments fd ob) lf of (rs, l) \<Rightarrow>
     if list_all (\<lambda>r. r = None) rs \<and> isParam fd (vr_name ob) then resolveParam rr p fd (vr_name ob) l
     else (union rs, l))"

text \<open>A selector of a value that in-package calls built: what those functions write into the field.\<close>

definition built :: "package \<Rightarrow> string \<Rightarrow> node \<Rightarrow> answer" where
  "built p key e = (case nd_form e of
     CallExpr g as \<Rightarrow> (case calleeDecl p g of None \<Rightarrow> None
       | Some fd \<Rightarrow> if fieldReasonsInFunc fd key = [] then None else Some (fieldReasonsInFunc fd key))
   | _ \<Rightarrow> None)"

definition produced :: "package \<Rightarrow> string \<Rightarrow> assigned \<Rightarrow> answer" where
  "produced p key a = (case a of Opaque \<Rightarrow> None | Direct e \<Rightarrow> built p key e | Result e i \<Rightarrow> built p key e)"

definition narrowThroughProducer :: "package \<Rightarrow> funcdecl option \<Rightarrow> node \<Rightarrow> string \<Rightarrow> answer" where
  "narrowThroughProducer p fn x key = (case (fn, rootIdent x) of
     (Some fd, Some i) \<Rightarrow> (case varOf i of None \<Rightarrow> None | Some ob \<Rightarrow> union (map (produced p key) (assignments fd ob)))
   | _ \<Rightarrow> None)"

text \<open>
  \<^verbatim>\<open>resolveReason\<close>, by what is left of its depth: \<open>Suc k\<close> at depth \<open>3 - k\<close>. A call is followed with one more level below,
  a local's call with two.
\<close>

abbreviation unresolved :: "string list \<times> resolution" where "unresolved \<equiv> ([], Unresolved)"

definition as_local :: "answer \<times> last_field \<Rightarrow> (string list \<times> resolution) \<times> last_field" where
  "as_local r = ((case fst r of None \<Rightarrow> unresolved | Some rs \<Rightarrow> (rs, ResolvedLocal)), snd r)"

fun resolve :: "(string \<Rightarrow> string) \<Rightarrow> package \<Rightarrow> (string \<Rightarrow> string list) \<Rightarrow> (string \<Rightarrow> bool) \<Rightarrow> nat \<Rightarrow> resolver" where
  "resolve uni p reasons open_field 0 fn e lf = (unresolved, lf)"
| "resolve uni p reasons open_field (Suc k) fn e lf = (case constString e of
     Some s \<Rightarrow> (([s], ResolvedConstant), lf)
   | None \<Rightarrow> (case nd_form e of
       Selector x s r \<Rightarrow>
         (let st = selectionStruct r; key = st @ ''.'' @ id_name s in
          if st = ''Condition'' then (([], ResolvedCarried), lf)
          else if st \<noteq> [] \<and> isReasonField uni (id_name s) then
            (case narrowThroughProducer p fn x key of
               Some rs \<Rightarrow> ((rs, ResolvedField), (False, key))
             | None \<Rightarrow> if reasons key \<noteq> [] then ((reasons key, ResolvedField), (open_field key, key)) else (unresolved, lf))
          else (unresolved, lf))
     | Ident i \<Rightarrow> (case (fn, id_uses i) of
           (Some fd, Some (VarObj n x)) \<Rightarrow>
             as_local (resolveLocal (resolve uni p reasons open_field k)
               (case k of 0 \<Rightarrow> \<lambda>c pos l. (None, l) | Suc j \<Rightarrow> resolve_returned (resolve uni p reasons open_field j) p) p fd (VarObj n x) lf)
         | _ \<Rightarrow> (unresolved, lf))
     | CallExpr g as \<Rightarrow> as_local (resolve_returned (resolve uni p reasons open_field k) p e 0 lf)
     | _ \<Rightarrow> (unresolved, lf)))"

definition maxResolveDepth :: nat where "maxResolveDepth = 3"

definition resolveReason :: "(string \<Rightarrow> string) \<Rightarrow> package \<Rightarrow> (string \<Rightarrow> string list) \<Rightarrow> (string \<Rightarrow> bool) \<Rightarrow> nat \<Rightarrow> resolver" where
  "resolveReason uni p reasons open_field depth = resolve uni p reasons open_field (Suc maxResolveDepth - depth)"

section \<open>The extraction\<close>

record extractor =
  ex_fieldReasons :: "string \<Rightarrow> string list"
  ex_unfoldedField :: "string \<Rightarrow> bool"
  ex_last :: last_field

text \<open>The writes of reason fields in a file: by a literal, or by an assignment to a selected field.\<close>

definition node_writes :: "(string \<Rightarrow> string) \<Rightarrow> node \<Rightarrow> (string \<times> node) list" where
  "node_writes uni n = (case nd_form n of
     CompositeLit (Some nm) els \<Rightarrow>
       map (\<lambda>(name, v). (nm_name nm @ ''.'' @ name, v)) (filter (\<lambda>(name, v). isReasonField uni name) (literal_fields nm els))
   | AssignStmt ls rs \<Rightarrow> List.map_filter (\<lambda>(i, lhs). case nd_form lhs of
         Selector x s r \<Rightarrow> if isReasonField uni (id_name s) \<and> i < length rs \<and> selectionStruct r \<noteq> []
           then Some (selectionStruct r @ ''.'' @ id_name s, rs ! i) else None
       | _ \<Rightarrow> None) (enumerate 0 ls)
   | _ \<Rightarrow> [])"

definition field_writes :: "(string \<Rightarrow> string) \<Rightarrow> package \<Rightarrow> (funcdecl option \<times> string \<times> node) list" where
  "field_writes uni p = concat (map (\<lambda>f. concat (map (\<lambda>(fn, n). map (\<lambda>(key, v). (fn, key, v)) (node_writes uni n)) (file_nodes f))) (pk_files p))"

definition add_reason :: "string \<Rightarrow> string \<Rightarrow> extractor \<Rightarrow> extractor" where
  "add_reason key s e = (if s \<in> set (ex_fieldReasons e key) then e
     else e\<lparr> ex_fieldReasons := (ex_fieldReasons e)(key := ex_fieldReasons e key @ [s]) \<rparr>)"

definition fold_write :: "(string \<Rightarrow> string) \<Rightarrow> package \<Rightarrow> bool \<Rightarrow> funcdecl option \<times> string \<times> node \<Rightarrow> extractor \<Rightarrow> extractor" where
  "fold_write uni p constantsOnly w e = (case w of (fn, key, v) \<Rightarrow> (case constString v of
     Some s \<Rightarrow> add_reason key s e
   | None \<Rightarrow> if constantsOnly then e
       else (case resolveReason uni p (ex_fieldReasons e) (ex_unfoldedField e) 1 fn v (ex_last e) of (r, l) \<Rightarrow>
         (case folded r of
            None \<Rightarrow> e\<lparr> ex_last := l, ex_unfoldedField := (ex_unfoldedField e)(key := True) \<rparr>
          | Some rs \<Rightarrow> fold (add_reason key) rs (e\<lparr> ex_last := l \<rparr>)))))"

definition collectFieldReasonsPass :: "(string \<Rightarrow> string) \<Rightarrow> package \<Rightarrow> bool \<Rightarrow> extractor \<Rightarrow> extractor" where
  "collectFieldReasonsPass uni p constantsOnly e = fold (fold_write uni p constantsOnly) (field_writes uni p) e"

definition new_extractor :: extractor where
  "new_extractor = \<lparr> ex_fieldReasons = (\<lambda>_. []), ex_unfoldedField = (\<lambda>_. False), ex_last = (False, []) \<rparr>"

definition collectFieldReasons :: "(string \<Rightarrow> string) \<Rightarrow> package \<Rightarrow> extractor" where
  "collectFieldReasons uni p =
     (let e = collectFieldReasonsPass uni p False (collectFieldReasonsPass uni p True new_extractor) in
      e\<lparr> ex_fieldReasons := (\<lambda>key. sort (ex_fieldReasons e key)) \<rparr>)"

record Site =
  st_Condition :: string
  st_Status :: string
  st_Reasons :: "string list"
  st_Resolution :: resolution
  st_Expr :: string
  st_Func :: string
  st_File :: string
  st_Line :: int
  st_FieldOpen :: bool
  st_FieldKey :: string

definition isCarry :: "node \<Rightarrow> bool" where
  "isCarry n \<longleftrightarrow> (case nd_form n of
     CallExpr g as \<Rightarrow> (case nd_form g of Selector x s r \<Rightarrow> id_name s = ''carry'' \<and> r = Some ''conditionSet'' | _ \<Rightarrow> False) | _ \<Rightarrow> False)"

definition text_or :: "string \<Rightarrow> string option \<Rightarrow> string" where
  "text_or d s = (case s of None \<Rightarrow> d | Some t \<Rightarrow> t)"

definition setCall :: "(string \<Rightarrow> string) \<Rightarrow> package \<Rightarrow> extractor \<Rightarrow> string \<Rightarrow> string \<Rightarrow> funcdecl option \<Rightarrow> node \<Rightarrow> Site option" where
  "setCall uni p e file fnName fn n = (case nd_form n of
     CallExpr g as \<Rightarrow> (case nd_form g of
         Selector x s r \<Rightarrow>
           if id_name s = ''set'' \<and> length as = 4 \<and> r = Some ''conditionSet'' then
             (case resolveReason uni p (ex_fieldReasons e) (ex_unfoldedField e) 0 fn (as ! 2) (False, []) of ((rs, res), (op, key)) \<Rightarrow>
               Some \<lparr> st_Condition = text_or (''<not a constant: '' @ exprText (as ! 0) @ ''>'') (constString (as ! 0)),
                 st_Status = text_or [] (constString (as ! 1)), st_Reasons = rs, st_Resolution = res, st_Expr = exprText (as ! 2),
                 st_Func = fnName, st_File = baseName file, st_Line = nd_line n,
                 st_FieldOpen = (res = ResolvedField \<and> op), st_FieldKey = key \<rparr>)
           else None
       | _ \<Rightarrow> None)
   | _ \<Rightarrow> None)"

text \<open>A literal of \<^verbatim>\<open>metav1.Condition\<close>: its fields by name, in order, the later of two.\<close>

definition condition_field :: "node \<Rightarrow> Site \<times> bool \<Rightarrow> Site \<times> bool" where
  "condition_field el acc = (case acc of (site, found) \<Rightarrow> (case nd_form el of
     KeyValue k v \<Rightarrow> (case nd_form k of
         Ident i \<Rightarrow>
           if id_name i = ''Type'' then (case constString v of Some s \<Rightarrow> (site\<lparr> st_Condition := s \<rparr>, True) | None \<Rightarrow> acc)
           else if id_name i = ''Status'' then (case constString v of Some s \<Rightarrow> (site\<lparr> st_Status := s \<rparr>, found) | None \<Rightarrow> acc)
           else if id_name i = ''Reason'' then
             (case constString v of
                Some s \<Rightarrow> (site\<lparr> st_Expr := exprText v, st_Reasons := [s], st_Resolution := ResolvedConstant \<rparr>, found)
              | None \<Rightarrow> (site\<lparr> st_Expr := exprText v \<rparr>, found))
           else acc
       | _ \<Rightarrow> acc)
   | _ \<Rightarrow> acc))"

definition conditionLiteral :: "string \<Rightarrow> string \<Rightarrow> node \<Rightarrow> Site option" where
  "conditionLiteral file fnName n = (case nd_form n of
     CompositeLit (Some nm) els \<Rightarrow>
       (case nm_pkg nm of None \<Rightarrow> None | Some path \<Rightarrow>
        if nm_name nm = ''Condition'' \<and> has_suffix path ''apis/meta/v1'' then
          (case fold condition_field els
              (\<lparr> st_Condition = [], st_Status = [], st_Reasons = [], st_Resolution = Unresolved, st_Expr = [], st_Func = fnName,
                 st_File = baseName file, st_Line = nd_line n, st_FieldOpen = False, st_FieldKey = [] \<rparr>, False) of
             (site, found) \<Rightarrow> if found then Some site else None)
        else None)
   | _ \<Rightarrow> None)"

text \<open>
  The sites of a file. The name a site is given is that of the last function that began before it, which for a
  declaration outside a function is the one above it.
\<close>

definition site_at :: "(string \<Rightarrow> string) \<Rightarrow> package \<Rightarrow> extractor \<Rightarrow> string \<Rightarrow> string \<Rightarrow> funcdecl option \<times> node \<Rightarrow> Site option" where
  "site_at uni p e file fnName w = (case w of (fn, n) \<Rightarrow> (case nd_form n of
     CallExpr g as \<Rightarrow> setCall uni p e file fnName fn n
   | CompositeLit t els \<Rightarrow> conditionLiteral file fnName n
   | _ \<Rightarrow> None))"

fun decl_sites :: "(string \<Rightarrow> string) \<Rightarrow> package \<Rightarrow> extractor \<Rightarrow> string \<Rightarrow> string \<Rightarrow> decl list \<Rightarrow> Site list" where
  "decl_sites uni p e file fnName [] = []"
| "decl_sites uni p e file fnName (d # ds) =
     (let fnName' = (case d of FuncDecl fd \<Rightarrow> fd_name fd | GenDecl gd \<Rightarrow> fnName) in
      List.map_filter (site_at uni p e file fnName') (decl_nodes d) @ decl_sites uni p e file fnName' ds)"

definition sites :: "(string \<Rightarrow> string) \<Rightarrow> package \<Rightarrow> Site list" where
  "sites uni p = (let e = collectFieldReasons uni p in
     sort_key (\<lambda>s. (st_Condition s, st_File s, st_Line s))
       (concat (map (\<lambda>f. decl_sites uni p e (gf_name f) [] (gf_decls f)) (pk_files p))))"

definition carrySites :: "package \<Rightarrow> nat" where
  "carrySites p = length (filter (\<lambda>(fn, n). isCarry n) (concat (map file_nodes (pk_files p))))"

section \<open>What can reach an expression\<close>

text \<open>
  The strings that reach an expression: its constant; what was written into the field it selects, by the functions that
  built the value where they are known; what is assigned to the variable it is, directly or as a result; what a
  call returns; and, for a parameter, what callers pass.
\<close>

definition field_key :: "(string \<Rightarrow> string) \<Rightarrow> node \<Rightarrow> (node \<times> string) option" where
  "field_key uni e = (case nd_form e of
     Selector x s r \<Rightarrow> if selectionStruct r \<noteq> ''Condition'' \<and> selectionStruct r \<noteq> [] \<and> isReasonField uni (id_name s)
       then Some (x, selectionStruct r @ ''.'' @ id_name s) else None
   | _ \<Rightarrow> None)"

definition called :: "package \<Rightarrow> node \<Rightarrow> funcdecl option" where
  "called p e = (case nd_form e of CallExpr g as \<Rightarrow> calleeDecl p g | _ \<Rightarrow> None)"

definition variable :: "node \<Rightarrow> obj option" where
  "variable e = (case nd_form e of Ident i \<Rightarrow> (case id_uses i of Some (VarObj n x) \<Rightarrow> Some (VarObj n x) | _ \<Rightarrow> None) | _ \<Rightarrow> None)"

inductive flows :: "(string \<Rightarrow> string) \<Rightarrow> package \<Rightarrow> (string \<Rightarrow> string list) \<Rightarrow> funcdecl option \<Rightarrow> node \<Rightarrow> string \<Rightarrow> bool"
  for uni p reasons where
  folds: "constString e = Some s \<Longrightarrow> flows uni p reasons fn e s"
| built_field: "constString e = None \<Longrightarrow> field_key uni e = Some (x, key) \<Longrightarrow> narrowThroughProducer p fn x key = Some rs \<Longrightarrow>
    s \<in> set rs \<Longrightarrow> flows uni p reasons fn e s"
| any_field: "constString e = None \<Longrightarrow> field_key uni e = Some (x, key) \<Longrightarrow> narrowThroughProducer p fn x key = None \<Longrightarrow>
    s \<in> set (reasons key) \<Longrightarrow> flows uni p reasons fn e s"
| of_value: "constString e = None \<Longrightarrow> variable e = Some ob \<Longrightarrow> Direct e' \<in> set (assignments fd ob) \<Longrightarrow>
    flows uni p reasons (Some fd) e' s \<Longrightarrow> flows uni p reasons (Some fd) e s"
| of_result: "constString e = None \<Longrightarrow> variable e = Some ob \<Longrightarrow> Result c pos \<in> set (assignments fd ob) \<Longrightarrow>
    called p c = Some fd' \<Longrightarrow> e' \<in> set (returned fd' pos) \<Longrightarrow> flows uni p reasons (Some fd') e' s \<Longrightarrow> flows uni p reasons (Some fd) e s"
| param: "constString e = None \<Longrightarrow> variable e = Some ob \<Longrightarrow> isParam fd (vr_name ob) \<Longrightarrow> fd_obj fd = Some (FuncObj k) \<Longrightarrow>
    param_index fd (vr_name ob) = Some i \<Longrightarrow> f \<in> set (pk_files p) \<Longrightarrow> (fn', e') \<in> set (passed f (FuncObj k) i) \<Longrightarrow>
    flows uni p reasons fn' e' s \<Longrightarrow> flows uni p reasons (Some fd) e s"
| of_call: "constString e = None \<Longrightarrow> called p e = Some fd' \<Longrightarrow> e' \<in> set (returned fd' 0) \<Longrightarrow>
    flows uni p reasons (Some fd') e' s \<Longrightarrow> flows uni p reasons fn e s"

text \<open>The resolver, by what it looks at.\<close>

abbreviation (input) next_level where
  "next_level uni p reasons op k \<equiv> (case k of 0 \<Rightarrow> \<lambda>c pos l. (None, l) | Suc j \<Rightarrow> resolve_returned (resolve uni p reasons op j) p)"

lemma run_all_Cons:
  "fst (run_all f (x # xs) l0) = fst (f x l0) # fst (run_all f xs (snd (f x l0)))"
  by (simp split: prod.split)

lemma run_all_from: "r \<in> set (fst (run_all f xs l0)) \<Longrightarrow> \<exists>x \<in> set xs. \<exists>l. fst (f x l) = r"
proof (induction xs arbitrary: l0)
  case (Cons x xs)
  then have "r = fst (f x l0) \<or> r \<in> set (fst (run_all f xs (snd (f x l0))))" unfolding run_all_Cons by simp
  with Cons.IH show ?case by (metis list.set_intros)
qed simp

lemma run_all_each: "x \<in> set xs \<Longrightarrow> \<exists>l. fst (f x l) \<in> set (fst (run_all f xs l0))"
proof (induction xs arbitrary: l0)
  case (Cons y xs)
  then show ?case unfolding run_all_Cons by (metis list.set_intros set_ConsD)
qed simp

lemma run_files_Cons:
  "fst (run_files f (xs # xss) l0) = fst (run_all f xs l0) @
     (if None \<in> set (fst (run_all f xs l0)) then [] else fst (run_files f xss (snd (run_all f xs l0))))"
  by (simp split: prod.split)

lemma run_files_from: "r \<in> set (fst (run_files f xss l0)) \<Longrightarrow> \<exists>xs \<in> set xss. \<exists>x \<in> set xs. \<exists>l. fst (f x l) = r"
proof (induction xss arbitrary: l0)
  case (Cons xs xss)
  show ?case
  proof (cases "r \<in> set (fst (run_all f xs l0))")
    case True
    from run_all_from [OF this] show ?thesis by auto
  next
    case False
    with Cons.prems have "r \<in> set (fst (run_files f xss (snd (run_all f xs l0))))"
      unfolding run_files_Cons by (auto split: if_splits)
    from Cons.IH [OF this] show ?thesis by auto
  qed
qed simp

lemma run_files_each:
  "None \<notin> set (fst (run_files f xss l0)) \<Longrightarrow> xs \<in> set xss \<Longrightarrow> x \<in> set xs \<Longrightarrow> \<exists>l. fst (f x l) \<in> set (fst (run_files f xss l0))"
proof (induction xss arbitrary: l0)
  case (Cons ys xss)
  have all: "None \<notin> set (fst (run_all f ys l0))" using Cons.prems(1) unfolding run_files_Cons by auto
  show ?case
  proof (cases "xs = ys")
    case True
    with run_all_each [of x ys f l0] Cons.prems(3) show ?thesis unfolding run_files_Cons by auto
  next
    case False
    then have "xs \<in> set xss" using Cons.prems(2) by simp
    moreover have "None \<notin> set (fst (run_files f xss (snd (run_all f ys l0))))"
      using Cons.prems(1) all unfolding run_files_Cons by auto
    ultimately obtain l where "fst (f x l) \<in> set (fst (run_files f xss (snd (run_all f ys l0))))"
      using Cons.IH Cons.prems(3) by blast
    then show ?thesis using all unfolding run_files_Cons by (intro exI [of _ l]) simp
  qed
qed simp

lemma union_Some: "union rs = Some out \<Longrightarrow> None \<notin> set rs \<and> (\<forall>s. s \<in> set out \<longleftrightarrow> (\<exists>r. Some r \<in> set rs \<and> s \<in> set r))"
  by (auto simp: union_def split: if_splits) (metis option.exhaust_sel option.sel)+

text \<open>What a resolver says of an expression, whatever field was read last.\<close>

definition says :: "resolver \<Rightarrow> funcdecl option \<Rightarrow> node \<Rightarrow> string list \<Rightarrow> bool" where
  "says rr fn e rs \<longleftrightarrow> (\<exists>l. folded (fst (rr fn e l)) = Some rs)"

lemma fold_result: "fst (case rr fn e l of (r, l') \<Rightarrow> (folded r, l')) = folded (fst (rr fn e l))"
  by (simp split: prod.split)

lemma fst_let_union: "fst (case x of (rs, l) \<Rightarrow> (union rs, l)) = union (fst x)"
  by (simp split: prod.split)

lemma resolve_returned_eq:
  "fst (resolve_returned rr p c pos l) = (case called p c of None \<Rightarrow> None
     | Some fd \<Rightarrow> union (fst (run_all (\<lambda>e l. case rr (Some fd) e l of (r, l') \<Rightarrow> (folded r, l')) (returned fd pos) l)))"
  by (auto simp: resolve_returned_def called_def fst_let_union split: form.split option.split)

lemma returned_from:
  assumes "fst (resolve_returned rr p c pos l) = Some out" "s \<in> set out"
  shows "\<exists>fd e rs. called p c = Some fd \<and> e \<in> set (returned fd pos) \<and> says rr (Some fd) e rs \<and> s \<in> set rs"
proof -
  obtain fd where fd: "called p c = Some fd" using assms(1) by (cases "called p c") (auto simp: resolve_returned_eq)
  let ?f = "\<lambda>e l. case rr (Some fd) e l of (r, l') \<Rightarrow> (folded r, l')"
  from assms(1) have "union (fst (run_all ?f (returned fd pos) l)) = Some out" by (simp add: resolve_returned_eq fd)
  from union_Some [OF this] assms(2) obtain rs where rs: "Some rs \<in> set (fst (run_all ?f (returned fd pos) l))" "s \<in> set rs" by blast
  from run_all_from [OF rs(1)] fd rs(2) show ?thesis unfolding fold_result says_def by blast
qed

lemma returned_each:
  assumes "fst (resolve_returned rr p c pos l) = Some out" "called p c = Some fd" "e \<in> set (returned fd pos)"
  shows "\<exists>rs. says rr (Some fd) e rs \<and> set rs \<subseteq> set out"
proof -
  let ?f = "\<lambda>e l. case rr (Some fd) e l of (r, l') \<Rightarrow> (folded r, l')"
  have out: "union (fst (run_all ?f (returned fd pos) l)) = Some out" using assms(1) by (simp add: resolve_returned_eq assms(2))
  obtain l1 where "folded (fst (rr (Some fd) e l1)) \<in> set (fst (run_all ?f (returned fd pos) l))"
    using run_all_each [OF assms(3), of ?f l] unfolding fold_result by blast
  moreover from this obtain rs where "folded (fst (rr (Some fd) e l1)) = Some rs" using union_Some [OF out] by (metis option.exhaust)
  ultimately show ?thesis using union_Some [OF out] unfolding says_def by (metis subsetI)
qed

lemma resolveParam_eq:
  "fst (resolveParam rr p fd name l) = (case fd_obj fd of Some (FuncObj k) \<Rightarrow> (case param_index fd name of None \<Rightarrow> None
     | Some i \<Rightarrow> union (fst (run_files (\<lambda>(fn, e) l. case rr fn e l of (r, l') \<Rightarrow> (folded r, l')) (map (\<lambda>f. passed f (FuncObj k) i) (pk_files p)) l)))
   | _ \<Rightarrow> None)"
  by (auto simp: resolveParam_def fst_let_union split: obj.split option.split)

lemma fold_result2: "fst ((case w of (fn, e) \<Rightarrow> \<lambda>l. case rr fn e l of (r, l') \<Rightarrow> (folded r, l')) l) = folded (fst (rr (fst w) (snd w) l))"
  by (simp split: prod.split)

lemma param_from:
  assumes "fst (resolveParam rr p fd name l) = Some out" "s \<in> set out"
  shows "\<exists>k i f fn e rs. fd_obj fd = Some (FuncObj k) \<and> param_index fd name = Some i \<and> f \<in> set (pk_files p) \<and>
    (fn, e) \<in> set (passed f (FuncObj k) i) \<and> says rr fn e rs \<and> s \<in> set rs"
proof -
  obtain k i where ki: "fd_obj fd = Some (FuncObj k)" "param_index fd name = Some i"
    using assms(1) by (auto simp: resolveParam_eq split: option.splits obj.splits)
  let ?f = "\<lambda>(fn, e) l. case rr fn e l of (r, l') \<Rightarrow> (folded r, l')" and ?xss = "map (\<lambda>f. passed f (FuncObj k) i) (pk_files p)"
  from assms(1) have "union (fst (run_files ?f ?xss l)) = Some out" by (simp add: resolveParam_eq ki)
  from union_Some [OF this] assms(2) obtain rs where rs: "Some rs \<in> set (fst (run_files ?f ?xss l))" "s \<in> set rs" by blast
  from run_files_from [OF rs(1)] obtain f w l1 where "f \<in> set (pk_files p)" "w \<in> set (passed f (FuncObj k) i)" "fst (?f w l1) = Some rs" by auto
  with ki rs(2) show ?thesis unfolding fold_result2 says_def by (metis prod.collapse)
qed

lemma param_each:
  assumes "fst (resolveParam rr p fd name l) = Some out" "fd_obj fd = Some (FuncObj k)" "param_index fd name = Some i"
    and "f \<in> set (pk_files p)" "(fn, e) \<in> set (passed f (FuncObj k) i)"
  shows "\<exists>rs. says rr fn e rs \<and> set rs \<subseteq> set out"
proof -
  let ?f = "\<lambda>(fn, e) l. case rr fn e l of (r, l') \<Rightarrow> (folded r, l')" and ?xss = "map (\<lambda>f. passed f (FuncObj k) i) (pk_files p)"
  have out: "union (fst (run_files ?f ?xss l)) = Some out" using assms(1-3) by (simp add: resolveParam_eq)
  have "passed f (FuncObj k) i \<in> set ?xss" using assms(4) by simp
  then obtain l1 where "folded (fst (rr fn e l1)) \<in> set (fst (run_files ?f ?xss l))"
    using run_files_each [OF _ _ assms(5), of ?f ?xss l] union_Some [OF out] unfolding fold_result2 fst_conv snd_conv by blast
  moreover from this obtain rs where "folded (fst (rr fn e l1)) = Some rs" using union_Some [OF out] by (metis option.exhaust)
  ultimately show ?thesis using union_Some [OF out] unfolding says_def by (metis subsetI)
qed

lemma local_from:
  assumes "fst (resolveLocal rr rc p fd ob l) = Some out" "s \<in> set out"
  shows "(\<exists>a \<in> set (assignments fd ob). \<exists>rs l. fst (resolve_assigned rr rc fd a l) = Some rs \<and> s \<in> set rs) \<or>
    isParam fd (vr_name ob) \<and> (\<exists>l. fst (resolveParam rr p fd (vr_name ob) l) = Some out)"
proof -
  obtain rs l1 where rs: "run_all (resolve_assigned rr rc fd) (assignments fd ob) l = (rs, l1)" by (meson surj_pair)
  show ?thesis
  proof (cases "list_all (\<lambda>r. r = None) rs \<and> isParam fd (vr_name ob)")
    case True
    with assms(1) have "fst (resolveParam rr p fd (vr_name ob) l1) = Some out" by (auto simp: resolveLocal_def rs)
    with True show ?thesis by blast
  next
    case False
    then have "union rs = Some out" using assms(1) by (auto simp: resolveLocal_def rs)
    from union_Some [OF this] assms(2) obtain r where "Some r \<in> set (fst (run_all (resolve_assigned rr rc fd) (assignments fd ob) l))" "s \<in> set r"
      by (auto simp: rs)
    with run_all_from [OF this(1)] show ?thesis by blast
  qed
qed

lemma local_assigned:
  assumes "fst (resolveLocal rr rc p fd ob l) = Some out" "\<not> isParam fd (vr_name ob)" "a \<in> set (assignments fd ob)"
  shows "\<exists>rs l. fst (resolve_assigned rr rc fd a l) = Some rs \<and> set rs \<subseteq> set out"
proof -
  obtain rs l1 where rs: "run_all (resolve_assigned rr rc fd) (assignments fd ob) l = (rs, l1)" by (meson surj_pair)
  have out: "union rs = Some out" using assms(1,2) by (auto simp: resolveLocal_def rs)
  obtain l2 where l2: "fst (resolve_assigned rr rc fd a l2) \<in> set rs"
    using run_all_each [OF assms(3), of "resolve_assigned rr rc fd" l] by (auto simp: rs)
  moreover from this obtain r where "fst (resolve_assigned rr rc fd a l2) = Some r" using union_Some [OF out] by (metis option.exhaust)
  ultimately show ?thesis using union_Some [OF out] by (metis subsetI)
qed

lemma local_param:
  assumes "fst (resolveLocal rr rc p fd ob l) = Some out" "isParam fd (vr_name ob)" "assignments fd ob = []"
  shows "fst (resolveParam rr p fd (vr_name ob) l) = Some out"
  using assms by (simp add: resolveLocal_def)

lemma resolve_assigned_simps [simp]:
  "fst (resolve_assigned rr rc fd (Direct e) l) = folded (fst (rr (Some fd) e l))"
  "resolve_assigned rr rc fd (Result c pos) l = rc c pos l"
  "resolve_assigned rr rc fd Opaque l = (None, l)"
  by (simp_all add: resolve_assigned_def split: prod.split)

lemma assigned_from:
  assumes "fst (resolve_assigned rr rc fd a l) = Some rs"
  shows "(\<exists>e. a = Direct e \<and> says rr (Some fd) e rs) \<or> (\<exists>c pos. a = Result c pos \<and> fst (rc c pos l) = Some rs)"
  using assms by (cases a) (auto simp only: resolve_assigned_simps says_def fst_conv option.distinct)

text \<open>The cases of an expression that is no constant.\<close>

lemma resolve_folds: "constString e = Some s \<Longrightarrow> says (resolve uni p reasons op (Suc k)) fn e rs \<longleftrightarrow> rs = [s]"
  by (auto simp: says_def folded_def)

lemma resolve_field:
  assumes "constString e = None" "field_key uni e = Some (x, key)"
  shows "says (resolve uni p reasons op (Suc k)) fn e rs \<longleftrightarrow>
    (case narrowThroughProducer p fn x key of Some out \<Rightarrow> out \<noteq> [] \<and> rs = out | None \<Rightarrow> reasons key \<noteq> [] \<and> rs = reasons key)"
  using assms by (auto simp: says_def folded_def field_key_def Let_def split: form.splits if_splits option.splits)

lemma resolve_variable:
  assumes "constString e = None" "variable e = Some ob" "says (resolve uni p reasons op (Suc k)) fn e rs"
  shows "\<exists>fd l. fn = Some fd \<and> fst (resolveLocal (resolve uni p reasons op k) (next_level uni p reasons op k) p fd ob l) = Some rs"
  using assms by (auto simp: says_def folded_def variable_def as_local_def split: form.splits option.splits obj.splits if_splits)

lemma resolve_called:
  assumes "constString e = None" "called p e = Some fd" "says (resolve uni p reasons op (Suc k)) fn e rs"
  shows "\<exists>l. fst (resolve_returned (resolve uni p reasons op k) p e 0 l) = Some rs"
  using assms by (auto simp: says_def folded_def called_def as_local_def split: form.splits option.splits if_splits)

lemma resolve_kinds:
  assumes "constString e = None" "says (resolve uni p reasons op (Suc k)) fn e rs"
  shows "field_key uni e \<noteq> None \<or> variable e \<noteq> None \<or> called p e \<noteq> None"
  using assms
  by (auto simp: says_def folded_def field_key_def variable_def called_def as_local_def resolve_returned_def Let_def
      split: form.splits option.splits obj.splits if_splits)

declare resolve.simps(2) [simp del]

lemma resolve_sound:
  "says (resolve uni p reasons op k) fn e rs \<Longrightarrow> s \<in> set rs \<Longrightarrow> flows uni p reasons fn e s"
proof (induction k arbitrary: fn e rs rule: less_induct)
  case (less k)
  have returns: "flows uni p reasons (Some fd) e' s"
    if "j < k" "says (resolve uni p reasons op j) (Some fd) e' rs'" "s \<in> set rs'" for j fd e' rs'
    using less.IH that by blast
  show ?case
  proof (cases k)
    case 0
    with less.prems(1) show ?thesis by (simp add: says_def folded_def)
  next
    case (Suc j)
    note says = less.prems(1) [unfolded Suc]
    show ?thesis
    proof (cases "constString e")
      case (Some c)
      with says less.prems(2) show ?thesis by (auto simp: resolve_folds intro: flows.folds)
    next
      case none: None
      from resolve_kinds [OF none says]
      consider (field) x key where "field_key uni e = Some (x, key)" | (var) ob where "variable e = Some ob"
        | (call) fd where "called p e = Some fd" by auto
      then show ?thesis
      proof cases
        case field
        show ?thesis
        proof (cases "narrowThroughProducer p fn x key")
          case None
          with says field less.prems(2) show ?thesis by (auto simp: resolve_field [OF none] intro: flows.any_field [OF none])
        next
          case (Some out)
          with says field less.prems(2) show ?thesis by (auto simp: resolve_field [OF none] intro: flows.built_field [OF none])
        qed
      next
        case call
        obtain l where "fst (resolve_returned (resolve uni p reasons op j) p e 0 l) = Some rs"
          using resolve_called [OF none call says] by blast
        from returned_from [OF this less.prems(2)] show ?thesis
          using Suc by (metis flows.of_call [OF none] lessI returns)
      next
        case var
        obtain fd l where fd: "fn = Some fd"
          and out: "fst (resolveLocal (resolve uni p reasons op j) (next_level uni p reasons op j) p fd ob l) = Some rs"
          using resolve_variable [OF none var says] by blast
        from local_from [OF out less.prems(2)] show ?thesis
        proof (elim disjE conjE exE bexE)
          fix a rs' l'
          assume a: "a \<in> set (assignments fd ob)" "fst (resolve_assigned (resolve uni p reasons op j) (next_level uni p reasons op j) fd a l') = Some rs'" "s \<in> set rs'"
          from assigned_from [OF a(2)] show ?thesis
          proof (elim disjE exE conjE)
            fix e'
            assume "a = Direct e'" "says (resolve uni p reasons op j) (Some fd) e' rs'"
            then show ?thesis using a fd Suc by (metis flows.of_value [OF none var] lessI returns)
          next
            fix c pos
            assume r: "a = Result c pos" "fst (next_level uni p reasons op j c pos l') = Some rs'"
            then obtain i where i: "j = Suc i" by (cases j) auto
            with r(2) have "fst (resolve_returned (resolve uni p reasons op i) p c pos l') = Some rs'" by simp
            from returned_from [OF this a(3)] show ?thesis
              using a(1) r(1) fd Suc i by (metis flows.of_result [OF none var] less_SucI lessI returns)
          qed
        next
          fix l'
          assume param: "isParam fd (vr_name ob)" "fst (resolveParam (resolve uni p reasons op j) p fd (vr_name ob) l') = Some rs"
          from param_from [OF param(2) less.prems(2)] show ?thesis
            using fd param(1) Suc less.IH [of j] by (metis flows.param [OF none var] lessI)
        qed
      qed
    qed
  qed
qed

text \<open>No parameter of the package is assigned in its function.\<close>

definition assigned_names :: "funcdecl \<Rightarrow> string list" where
  "assigned_names fd = concat (map (\<lambda>n. case nd_form n of
     AssignStmt ls rs \<Rightarrow> List.map_filter (\<lambda>lhs. case nd_form lhs of Ident x \<Rightarrow> map_option vr_name (varOf x) | _ \<Rightarrow> None) ls
   | _ \<Rightarrow> []) (func_nodes fd))"

definition params_kept :: "package \<Rightarrow> bool" where
  "params_kept p \<longleftrightarrow> list_all (\<lambda>fd. list_all (\<lambda>x. \<not> isParam fd x) (assigned_names fd)) (pkg_functions p)"

lemma assignments_named: "assignments fd ob \<noteq> [] \<Longrightarrow> vr_name ob \<in> set (assigned_names fd)"
proof -
  assume "assignments fd ob \<noteq> []"
  then obtain n where n: "n \<in> set (func_nodes fd)" "assigned_in ob n \<noteq> []" by (auto simp: assignments_def)
  then obtain ls rs where form: "nd_form n = AssignStmt ls rs" by (cases "nd_form n") (simp_all add: assigned_in_def)
  with n(2) obtain i lhs x where "(i, lhs) \<in> set (enumerate 0 ls)" "nd_form lhs = Ident x" "varOf x = Some ob"
    by (auto simp: assigned_in_def map_filter_def filter_empty_conv split: form.splits if_splits)
  then have x: "lhs \<in> set ls" "nd_form lhs = Ident x" "varOf x = Some ob" by (auto simp: in_set_enumerate_eq)
  then have "vr_name ob \<in> set (List.map_filter (\<lambda>lhs. case nd_form lhs of Ident x \<Rightarrow> map_option vr_name (varOf x) | _ \<Rightarrow> None) ls)"
    by (force simp: map_filter_def)
  with n(1) form show ?thesis unfolding assigned_names_def by force
qed

lemma param_not_assigned: "params_kept p \<Longrightarrow> fd \<in> set (pkg_functions p) \<Longrightarrow> isParam fd (vr_name ob) \<Longrightarrow> assignments fd ob = []"
  using assignments_named by (auto simp: params_kept_def list_all_iff)

definition of_package :: "package \<Rightarrow> funcdecl option \<Rightarrow> bool" where
  "of_package p fn \<longleftrightarrow> (case fn of None \<Rightarrow> True | Some fd \<Rightarrow> fd \<in> set (pkg_functions p))"

lemma calleeDecl_function: "calleeDecl p g = Some fd \<Longrightarrow> fd \<in> set (pkg_functions p)"
  by (auto simp: calleeDecl_def funcDecl_def find_Some_iff split: option.splits obj.splits)

lemma called_function: "called p e = Some fd \<Longrightarrow> fd \<in> set (pkg_functions p)"
  by (auto simp: called_def dest: calleeDecl_function split: form.splits)

lemma decl_node_function: "(Some fd, n) \<in> set (decl_nodes d) \<Longrightarrow> d = FuncDecl fd \<and> n \<in> set (func_nodes fd)"
  by (cases d) auto

lemma file_node_function: "(Some fd, n) \<in> set (file_nodes f) \<Longrightarrow> f \<in> set (pk_files p) \<Longrightarrow> fd \<in> set (pkg_functions p) \<and> n \<in> set (func_nodes fd)"
  using decl_node_function [of fd n] by (auto simp: file_nodes_def pkg_functions_def) (metis decl_funcs.simps(1) list.set_intros(1))+

lemma passed_node:
  "(fn, e) \<in> set (passed f want i) \<Longrightarrow> \<exists>n g args. (fn, n) \<in> set (file_nodes f) \<and> nd_form n = CallExpr g args \<and> e \<in> set args"
  by (auto simp: passed_def map_filter_def split: form.splits if_splits) (metis nth_mem)

lemma passed_package: "(fn, e) \<in> set (passed f want i) \<Longrightarrow> f \<in> set (pk_files p) \<Longrightarrow> of_package p fn"
  by (cases fn) (auto simp: of_package_def dest!: passed_node dest: file_node_function)

lemma says_Suc: "says (resolve uni p reasons op k) fn e rs \<Longrightarrow> \<exists>j. k = Suc j"
  by (cases k) (auto simp: says_def folded_def)

lemma resolve_complete:
  assumes "params_kept p"
  shows "flows uni p reasons fn e s \<Longrightarrow> of_package p fn \<Longrightarrow> says (resolve uni p reasons op k) fn e rs \<Longrightarrow> s \<in> set rs"
proof (induction arbitrary: k rs rule: flows.induct)
  case (folds e s fn)
  then show ?case using says_Suc resolve_folds by (metis list.set_intros(1))
next
  case (built_field e x key fn out s)
  then show ?case using says_Suc [OF built_field(6)] by (auto simp: resolve_field)
next
  case (any_field e x key fn s)
  then show ?case using says_Suc [OF any_field(6)] by (auto simp: resolve_field)
next
  case (of_value e ob e' fd s)
  obtain j where k: "k = Suc j" using says_Suc [OF of_value.prems(2)] by blast
  obtain l where local: "fst (resolveLocal (resolve uni p reasons op j) (next_level uni p reasons op j) p fd ob l) = Some rs"
    using resolve_variable [OF of_value.hyps(1,2) of_value.prems(2) [unfolded k]] by auto
  have "\<not> isParam fd (vr_name ob)"
    using param_not_assigned [OF assms] of_value.hyps(3) of_value.prems(1) by (fastforce simp: of_package_def)
  from local_assigned [OF local this of_value.hyps(3)]
  obtain rs' where "says (resolve uni p reasons op j) (Some fd) e' rs'" "set rs' \<subseteq> set rs"
    unfolding resolve_assigned_simps says_def by blast
  with of_value.IH of_value.prems(1) show ?case by blast
next
  case (of_result e ob c pos fd fd' e' s)
  obtain j where k: "k = Suc j" using says_Suc [OF of_result.prems(2)] by blast
  obtain l where local: "fst (resolveLocal (resolve uni p reasons op j) (next_level uni p reasons op j) p fd ob l) = Some rs"
    using resolve_variable [OF of_result.hyps(1,2) of_result.prems(2) [unfolded k]] by auto
  have "\<not> isParam fd (vr_name ob)"
    using param_not_assigned [OF assms] of_result.hyps(3) of_result.prems(1) by (fastforce simp: of_package_def)
  from local_assigned [OF local this of_result.hyps(3)]
  obtain out l' where out: "fst (next_level uni p reasons op j c pos l') = Some out" "set out \<subseteq> set rs"
    unfolding resolve_assigned_simps by blast
  then obtain i where "j = Suc i" by (cases j) auto
  with out(1) have "fst (resolve_returned (resolve uni p reasons op i) p c pos l') = Some out" by simp
  from returned_each [OF this of_result.hyps(4,5)]
  obtain rs' where "says (resolve uni p reasons op i) (Some fd') e' rs'" "set rs' \<subseteq> set out" by blast
  moreover have "of_package p (Some fd')" using called_function [OF of_result.hyps(4)] by (simp add: of_package_def)
  ultimately show ?case using of_result.IH out(2) by blast
next
  case (param e ob fd m i f fn' e' s)
  obtain j where k: "k = Suc j" using says_Suc [OF param.prems(2)] by blast
  obtain l where local: "fst (resolveLocal (resolve uni p reasons op j) (next_level uni p reasons op j) p fd ob l) = Some rs"
    using resolve_variable [OF param.hyps(1,2) param.prems(2) [unfolded k]] by auto
  have "assignments fd ob = []"
    using param_not_assigned [OF assms] param.hyps(3) param.prems(1) by (simp add: of_package_def)
  from param_each [OF local_param [OF local param.hyps(3) this] param.hyps(4-7)]
  obtain rs' where "says (resolve uni p reasons op j) fn' e' rs'" "set rs' \<subseteq> set rs" by blast
  with param.IH passed_package [OF param.hyps(7,6)] show ?case by blast
next
  case (of_call e fd' e' s fn)
  obtain j where k: "k = Suc j" using says_Suc [OF of_call.prems(2)] by blast
  obtain l where "fst (resolve_returned (resolve uni p reasons op j) p e 0 l) = Some rs"
    using resolve_called [OF of_call.hyps(1,2) of_call.prems(2) [unfolded k]] by blast
  from returned_each [OF this of_call.hyps(2,3)]
  obtain rs' where "says (resolve uni p reasons op j) (Some fd') e' rs'" "set rs' \<subseteq> set rs" by blast
  moreover have "of_package p (Some fd')" using called_function [OF of_call.hyps(2)] by (simp add: of_package_def)
  ultimately show ?case using of_call.IH by blast
qed

text \<open>An answer is never empty.\<close>

lemma union_nonempty: "union rs = Some out \<Longrightarrow> (\<And>r. Some r \<in> set rs \<Longrightarrow> r \<noteq> []) \<Longrightarrow> out \<noteq> []"
proof -
  assume out: "union rs = Some out" and each: "\<And>r. Some r \<in> set rs \<Longrightarrow> r \<noteq> []"
  then have "rs \<noteq> []" by (auto simp: union_def)
  then obtain r where r: "Some r \<in> set rs" using union_Some [OF out] by (metis hd_in_set option.exhaust)
  then have "hd r \<in> set out" using union_Some [OF out] each by (metis hd_in_set)
  then show ?thesis by auto
qed

lemma folded_nonempty: "folded r = Some rs \<Longrightarrow> rs \<noteq> []"
  by (auto simp: folded_def split: if_splits)

lemma returned_nonempty:
  assumes "fst (resolve_returned rr p c pos l) = Some out"
  shows "out \<noteq> []"
proof -
  obtain fd where fd: "called p c = Some fd" using assms by (cases "called p c") (auto simp: resolve_returned_eq)
  let ?f = "\<lambda>e l. case rr (Some fd) e l of (r, l') \<Rightarrow> (folded r, l')"
  have "union (fst (run_all ?f (returned fd pos) l)) = Some out" using assms by (simp add: resolve_returned_eq fd)
  then show ?thesis
  proof (rule union_nonempty)
    fix r
    assume "Some r \<in> set (fst (run_all ?f (returned fd pos) l))"
    from run_all_from [OF this] show "r \<noteq> []" unfolding fold_result by (blast dest: folded_nonempty)
  qed
qed

lemma param_nonempty:
  assumes "fst (resolveParam rr p fd name l) = Some out"
  shows "out \<noteq> []"
proof -
  obtain k i where ki: "fd_obj fd = Some (FuncObj k)" "param_index fd name = Some i"
    using assms by (auto simp: resolveParam_eq split: option.splits obj.splits)
  let ?f = "\<lambda>(fn, e) l. case rr fn e l of (r, l') \<Rightarrow> (folded r, l')" and ?xss = "map (\<lambda>f. passed f (FuncObj k) i) (pk_files p)"
  have "union (fst (run_files ?f ?xss l)) = Some out" using assms by (simp add: resolveParam_eq ki)
  then show ?thesis
  proof (rule union_nonempty)
    fix r
    assume "Some r \<in> set (fst (run_files ?f ?xss l))"
    from run_files_from [OF this] show "r \<noteq> []" unfolding fold_result2 by (blast dest: folded_nonempty)
  qed
qed

lemma local_nonempty:
  assumes "fst (resolveLocal rr rc p fd ob l) = Some out" "\<And>c pos l r. fst (rc c pos l) = Some r \<Longrightarrow> r \<noteq> []"
  shows "out \<noteq> []"
proof -
  obtain rs l1 where rs: "run_all (resolve_assigned rr rc fd) (assignments fd ob) l = (rs, l1)" by (meson surj_pair)
  show ?thesis
  proof (cases "list_all (\<lambda>r. r = None) rs \<and> isParam fd (vr_name ob)")
    case True
    with assms(1) have "fst (resolveParam rr p fd (vr_name ob) l1) = Some out" by (auto simp: resolveLocal_def rs)
    then show ?thesis by (rule param_nonempty)
  next
    case False
    then have "union rs = Some out" using assms(1) by (auto simp: resolveLocal_def rs)
    then show ?thesis
    proof (rule union_nonempty)
      fix r
      assume "Some r \<in> set rs"
      then have "Some r \<in> set (fst (run_all (resolve_assigned rr rc fd) (assignments fd ob) l))" by (simp add: rs)
      from run_all_from [OF this] obtain a l2 where "fst (resolve_assigned rr rc fd a l2) = Some r" by blast
      from assigned_from [OF this] show "r \<noteq> []" using assms(2) unfolding says_def by (blast dest: folded_nonempty)
    qed
  qed
qed

lemma narrow_nonempty: "narrowThroughProducer p fn x key = Some out \<Longrightarrow> out \<noteq> []"
  by (auto simp: narrowThroughProducer_def produced_def built_def split: option.splits assigned.splits form.splits if_splits
      dest!: union_nonempty)

lemma resolve_nonempty:
  assumes "fst (resolve uni p reasons op k fn e lf) = (rs, res)" "res \<noteq> Unresolved" "res \<noteq> ResolvedCarried"
  shows "rs \<noteq> []"
proof (cases k)
  case 0
  with assms show ?thesis by simp
next
  case (Suc j)
  have "fst (next_level uni p reasons op j c pos l) = Some r \<Longrightarrow> r \<noteq> []" for c pos l r
    by (cases j) (auto dest: returned_nonempty)
  note local = local_nonempty [OF _ this]
  show ?thesis
    using assms unfolding Suc resolve.simps(2)
    by (auto simp: as_local_def Let_def dest: narrow_nonempty local returned_nonempty split: option.splits form.splits obj.splits if_splits)
qed

text \<open>
  Relative to what it takes for the fields, the resolver loses nothing: where the package assigns none of its parameters, the
  reasons of an answer that is neither unresolved nor carried are the strings of \<open>flows\<close>. The fields' own sets are not
  exact (the end of this theory); that no answer is invented does not depend on them, and is shown next.
\<close>

theorem resolveReason_exact:
  assumes "params_kept p" "of_package p fn"
    and "fst (resolveReason uni p reasons op depth fn e lf) = (rs, res)" "res \<noteq> Unresolved" "res \<noteq> ResolvedCarried"
  shows "s \<in> set rs \<longleftrightarrow> flows uni p reasons fn e s"
proof -
  have "rs \<noteq> []" using resolve_nonempty [OF assms(3) [unfolded resolveReason_def] assms(4,5)] .
  then have "folded (fst (resolve uni p reasons op (Suc maxResolveDepth - depth) fn e lf)) = Some rs"
    using assms(3,4) by (simp add: resolveReason_def folded_def)
  then have "says (resolve uni p reasons op (Suc maxResolveDepth - depth)) fn e rs" unfolding says_def by blast
  then show ?thesis using resolve_sound resolve_complete [OF assms(1) _ assms(2)] by blast
qed

section \<open>Nothing is invented\<close>






































section \<open>Packages\<close>

text \<open>A reconciler that passes on what a helper returns, or a reason of its own.\<close>

abbreviation at :: "form \<Rightarrow> node" where "at f \<equiv> Node None 1 f"
abbreviation lit :: "string \<Rightarrow> node" where "lit s \<equiv> Node (Some s) 1 (BasicLit s)"

definition named_ident :: "string \<Rightarrow> obj option \<Rightarrow> node" where
  "named_ident x ob = at (Ident \<lparr> id_name = x, id_defs = None, id_uses = ob \<rparr>)"

definition set_condition :: "node \<Rightarrow> node" where
  "set_condition reason = at (CallExpr (at (Selector (named_ident ''conds'' None) \<lparr> id_name = ''set'', id_defs = None, id_uses = None \<rparr>
     (Some ''conditionSet''))) [lit ''Ready'', lit ''False'', reason, lit ''the message''])"

definition sample_func :: "string \<Rightarrow> nat \<Rightarrow> string list \<Rightarrow> node list \<Rightarrow> decl" where
  "sample_func name k params body = FuncDecl \<lparr> fd_name = name, fd_obj = Some (FuncObj k), fd_params = params, fd_type = [], fd_body = Some body \<rparr>"

definition sample_package :: "decl list \<Rightarrow> package" where
  "sample_package ds = \<lparr> pk_path = ''internal/controller'', pk_errors = [], pk_files = [\<lparr> gf_name = ''/src/drain.go'', gf_decls = ds \<rparr>] \<rparr>"

abbreviation reason_var :: node where "reason_var \<equiv> named_ident ''reason'' (Some (VarObj 7 ''reason''))"

definition drain_body :: "node list" where
  "drain_body = [at (AssignStmt [reason_var] [at (CallExpr (named_ident ''settle'' (Some (FuncObj 1))) [])]),
     at (AssignStmt [reason_var] [lit ''Waiting'']), set_condition reason_var]"

definition drain_package :: package where
  "drain_package = sample_package [sample_func ''settle'' 1 [] [at (ReturnStmt [lit ''Drained''])], sample_func ''drain'' 2 [] drain_body]"

definition drain_func :: funcdecl where
  "drain_func = \<lparr> fd_name = ''drain'', fd_obj = Some (FuncObj 2), fd_params = [], fd_type = [], fd_body = Some drain_body \<rparr>"

theorem resolveReason_exact_witness:
  "fst (resolveReason id drain_package (\<lambda>_. []) (\<lambda>_. False) 0 (Some drain_func) reason_var (False, [])) = ([''Drained'', ''Waiting''], ResolvedLocal) \<and>
   flows id drain_package (\<lambda>_. []) (Some drain_func) reason_var ''Drained'' \<and>
   \<not> flows id drain_package (\<lambda>_. []) (Some drain_func) reason_var ''Settled''"
proof -
  have kept: "params_kept drain_package" "of_package drain_package (Some drain_func)" by code_simp+
  have says: "fst (resolveReason id drain_package (\<lambda>_. []) (\<lambda>_. False) 0 (Some drain_func) reason_var (False, [])) = ([''Drained'', ''Waiting''], ResolvedLocal)"
    by code_simp
  note exact = resolveReason_exact [OF kept says, simplified]
  have "flows id drain_package (\<lambda>_. []) (Some drain_func) reason_var ''Drained''" using exact [of "''Drained''"] by simp
  moreover have "\<not> flows id drain_package (\<lambda>_. []) (Some drain_func) reason_var ''Settled''" using exact [of "''Settled''"] by simp
  ultimately show ?thesis using says by simp
qed


text \<open>
  What \<open>params_kept\<close> is for. A parameter that its function also assigns is resolved to what is assigned, and the reasons
  its callers pass are not on the page, although the row reads as a closed set.
\<close>

definition report_package :: package where
  "report_package = sample_package
    [sample_func ''report'' 1 [''reason''] [at (AssignStmt [reason_var] [lit ''Blocked'']), set_condition reason_var],
     sample_func ''drain'' 2 [] [at (CallExpr (named_ident ''report'' (Some (FuncObj 1))) [lit ''Drained''])]]"

lemma assigned_parameter_hides_callers:
  "map (\<lambda>s. (st_Reasons s, st_Resolution s)) (sites id report_package) = [([''Blocked''], ResolvedLocal)] \<and>
   flows id report_package (\<lambda>_. []) (Some \<lparr> fd_name = ''report'', fd_obj = Some (FuncObj 1), fd_params = [''reason''], fd_type = [],
     fd_body = Some [at (AssignStmt [reason_var] [lit ''Blocked'']), set_condition reason_var] \<rparr>) reason_var ''Drained''"
  (is "_ \<and> flows _ _ _ (Some ?fd) _ _")
proof
  show "map (\<lambda>s. (st_Reasons s, st_Resolution s)) (sites id report_package) = [([''Blocked''], ResolvedLocal)]" by code_simp
  have "passed (hd (pk_files report_package)) (FuncObj 1) 0 = [(Some \<lparr> fd_name = ''drain'', fd_obj = Some (FuncObj 2), fd_params = [],
      fd_type = [], fd_body = Some [at (CallExpr (named_ident ''report'' (Some (FuncObj 1))) [lit ''Drained''])] \<rparr>, lit ''Drained'')]"
    by code_simp
  moreover have "variable reason_var = Some (VarObj 7 ''reason'')" "constString reason_var = None" "param_index ?fd ''reason'' = Some 0"
    by code_simp+
  moreover have "hd (pk_files report_package) \<in> set (pk_files report_package)" by (simp add: report_package_def sample_package_def)
  ultimately show "flows id report_package (\<lambda>_. []) (Some ?fd) reason_var ''Drained''"
    by (intro flows.param [where k = 1 and i = 0 and ob = "VarObj 7 ''reason''" and f = "hd (pk_files report_package)"])
      (auto simp: isParam_def constString_def intro: flows.folds)
qed

text \<open>
  A value built with a reason that does not fold: the reading is narrowed to the constants of the function that built it,
  and the row is not marked open, although the field's set is.
\<close>

definition failure_type :: named where
  "failure_type = \<lparr> nm_name = ''failure'', nm_pkg = Some ''internal/controller'', nm_fields = Some [''reason''] \<rparr>"

definition failure_package :: package where
  "failure_package = sample_package
    [sample_func ''compile'' 1 [] [
       at (ReturnStmt [at (CompositeLit (Some failure_type) [lit ''CompileFailed''])]),
       at (ReturnStmt [at (CompositeLit (Some failure_type) [at (CallExpr (named_ident ''classify'' None) [])])])],
     sample_func ''drain'' 2 [] [at (AssignStmt [named_ident ''f'' (Some (VarObj 3 ''f''))] [at (CallExpr (named_ident ''compile'' (Some (FuncObj 1))) [])]),
       set_condition (at (Selector (named_ident ''f'' (Some (VarObj 3 ''f''))) \<lparr> id_name = ''reason'', id_defs = None, id_uses = None \<rparr> (Some ''failure'')))]]"

lemma narrowed_row_reads_closed:
  "map (\<lambda>s. (st_Reasons s, st_Resolution s, st_FieldOpen s)) (sites id failure_package) = [([''CompileFailed''], ResolvedField, False)] \<and>
   ex_unfoldedField (collectFieldReasons id failure_package) ''failure.reason''"
  by code_simp

end
