(* ===== verification/Reason_Vocabulary.thy ===== *)
theory Reason_Vocabulary
  imports Reason_Extract
begin

text \<open>
  The vocabulary of conditions and reasons (\<^verbatim>\<open>internal/refgen/vocabulary.go\<close>): the constants of the API and the
  controller package with their documentation, which condition types are owned and sticky, and the sites of \<open>Reason_Extract\<close>
  gathered by condition and by reason. \<open>packages.Load\<close> is an argument, as its result or its error; a Go map is an
  association list whose keys are in the order they were first written.

  Shown: the vocabulary has no hole. Every site is under a declared condition, and a reason lists exactly the
  sites that can set it.
\<close>

section \<open>Constants and their documentation\<close>

record NamedDoc =
  no_Name :: string
  no_Value :: string
  no_Doc :: string

record ReasonConst =
  rc_Ident :: string
  rc_Value :: string
  rc_Doc :: string
  rc_File :: string
  rc_Line :: int

record ConditionType =
  cd_Name :: string
  cd_Doc :: string
  cd_Owned :: bool
  cd_Sticky :: bool
  cd_Sites :: "Site list"
  cd_Reasons :: "string list"

record Vocabulary =
  vo_Phases :: "NamedDoc list"
  vo_PhaseDoc :: string
  vo_Conditions :: "ConditionType list"
  vo_ReasonConsts :: "ReasonConst list"
  vo_Sites :: "Site list"
  vo_CarrySites :: nat
  vo_OpenFields :: "string list"
  vo_ReasonsByName :: "(string \<times> Site list) list"

definition cleanDoc :: "string \<Rightarrow> string" where
  "cleanDoc s = replace_all ''>'' ''&gt;'' (replace_all ''<'' ''&lt;'' (replace_all ''&'' ''&amp;''
     (trim_space (join '' '' (filter (\<lambda>l. \<not> has_prefix l ''+'') (map trim_space (split_on nl (trim_space s))))))))"

definition docOf :: "string option \<Rightarrow> string option \<Rightarrow> nat \<Rightarrow> string" where
  "docOf own grouped size_of = (case own of Some d \<Rightarrow> cleanDoc d
   | None \<Rightarrow> (case grouped of Some d \<Rightarrow> if size_of = 1 then cleanDoc d else [] | None \<Rightarrow> []))"

text \<open>The constants a package declares in \<^verbatim>\<open>const\<close> groups: the name, the type and value \<^verbatim>\<open>go/types\<close> gives it, and its documentation.\<close>

fun gen_decls :: "decl \<Rightarrow> gendecl list" where
  "gen_decls (GenDecl gd) = [gd]"
| "gen_decls (FuncDecl fd) = []"

fun value_specs :: "spec \<Rightarrow> valuespec list" where
  "value_specs (ValueSpec vs) = [vs]"
| "value_specs (TypeSpec ts) = []"
| "value_specs ImportSpec = []"

definition file_decls :: "token \<Rightarrow> gofile \<Rightarrow> gendecl list" where
  "file_decls tok f = filter (\<lambda>gd. gd_tok gd = tok) (concat (map gen_decls (gf_decls f)))"

definition const_names :: "gofile \<Rightarrow> ((ident \<times> int) \<times> string) list" where
  "const_names f = concat (map (\<lambda>gd. concat (map (\<lambda>vs. map (\<lambda>n. (n, docOf (vs_doc vs) (gd_doc gd) (length (gd_specs gd)))) (vs_names vs))
     (concat (map value_specs (gd_specs gd))))) (file_decls ConstTok f))"

definition string_const :: "ident \<Rightarrow> (string option \<times> string) option" where
  "string_const i = (case id_defs i of Some (ConstObj t (Some s)) \<Rightarrow> Some (t, s) | _ \<Rightarrow> None)"

definition constantsOfType :: "package \<Rightarrow> string \<Rightarrow> NamedDoc list" where
  "constantsOfType p typeName = concat (map (\<lambda>f. List.map_filter (\<lambda>((i, line), doc). case string_const i of
       Some (t, s) \<Rightarrow> if t = Some typeName then Some \<lparr> no_Name = id_name i, no_Value = s, no_Doc = doc \<rparr> else None
     | None \<Rightarrow> None) (const_names f)) (pk_files p))"

definition constantsWithPrefix :: "package \<Rightarrow> string \<Rightarrow> NamedDoc list" where
  "constantsWithPrefix p prefix = concat (map (\<lambda>f. List.map_filter (\<lambda>((i, line), doc).
       if \<not> has_prefix (id_name i) prefix then None else (case string_const i of
         Some (t, s) \<Rightarrow> Some \<lparr> no_Name = id_name i, no_Value = s, no_Doc = doc \<rparr> | None \<Rightarrow> None)) (const_names f)) (pk_files p))"

definition reasonConstants :: "package \<Rightarrow> ReasonConst list" where
  "reasonConstants p = sort_key rc_Value (concat (map (\<lambda>f. List.map_filter (\<lambda>((i, line), doc).
       if \<not> has_prefix (id_name i) ''Reason'' then None else (case string_const i of
         Some (t, s) \<Rightarrow> Some \<lparr> rc_Ident = id_name i, rc_Value = s, rc_Doc = doc, rc_File = baseName (gf_name f), rc_Line = line \<rparr>
       | None \<Rightarrow> None)) (const_names f)) (pk_files p)))"

text \<open>The first declaration of the type that is documented, by itself or by its group.\<close>

fun type_specs :: "spec \<Rightarrow> typespec list" where
  "type_specs (TypeSpec ts) = [ts]"
| "type_specs (ValueSpec vs) = []"
| "type_specs ImportSpec = []"

definition typeDoc :: "package \<Rightarrow> string \<Rightarrow> string" where
  "typeDoc p name = (case concat (map (\<lambda>f. concat (map (\<lambda>gd. List.map_filter (\<lambda>ts.
       if ts_name ts \<noteq> name then None else (case ts_doc ts of Some d \<Rightarrow> Some d | None \<Rightarrow> gd_doc gd))
       (concat (map type_specs (gd_specs gd)))) (file_decls TypeTok f))) (pk_files p)) of
     [] \<Rightarrow> [] | d # _ \<Rightarrow> cleanDoc d)"

text \<open>The condition types, held to the list of the closure test: the constants \<^verbatim>\<open>designConditions\<close> uses.\<close>

definition node_idents :: "node \<Rightarrow> ident list" where
  "node_idents n = (case nd_form n of Ident i \<Rightarrow> [i] | Selector x s r \<Rightarrow> [s] | ValueDecl ids vs \<Rightarrow> ids | _ \<Rightarrow> [])"

definition used_const :: "ident \<Rightarrow> string option" where
  "used_const i = (case id_uses i of Some (ConstObj t v) \<Rightarrow> v | _ \<Rightarrow> None)"

definition design_conditions :: "package \<Rightarrow> string list" where
  "design_conditions p = concat (map (\<lambda>fd. List.map_filter used_const (concat (map node_idents (func_nodes fd))))
     (filter (\<lambda>fd. fd_name fd = ''designConditions'') (pkg_functions p)))"

definition conditionTypes :: "package \<Rightarrow> string + NamedDoc list" where
  "conditionTypes api =
     (let out = sort_key no_Value (constantsOfType api ''ConditionType'');
          missing = filter (\<lambda>x. x \<notin> set (design_conditions api)) (map no_Value out) in
      if missing \<noteq> [] then Inl (msgf ''declared as constants but not in designConditions()'' missing) else Inr out)"

text \<open>The keys of the literals of \<^verbatim>\<open>ownedTypes\<close> and \<^verbatim>\<open>stickyTypes\<close>.\<close>

definition literal_keys :: "string \<Rightarrow> valuespec \<Rightarrow> string list" where
  "literal_keys name vs = (case (vs_names vs, vs_values vs) of
     ([(i, line)], [v]) \<Rightarrow> if id_name i \<noteq> name then [] else (case nd_form v of
         CompositeLit t els \<Rightarrow> List.map_filter (\<lambda>el. case nd_form el of KeyValue k x \<Rightarrow> constString k | _ \<Rightarrow> None) els
       | _ \<Rightarrow> [])
   | _ \<Rightarrow> [])"

definition set_membership :: "package \<Rightarrow> string \<Rightarrow> string list" where
  "set_membership p name = concat (map (\<lambda>f. concat (map (\<lambda>gd. concat (map (literal_keys name) (concat (map value_specs (gd_specs gd)))))
     (file_decls VarTok f))) (pk_files p))"

definition conditionSetMembership :: "package \<Rightarrow> string list \<times> string list" where
  "conditionSetMembership p = (set_membership p ''ownedTypes'', set_membership p ''stickyTypes'')"

section \<open>The vocabulary\<close>

text \<open>\<^verbatim>\<open>m[k] = append(m[k], x)\<close>.\<close>

fun append_at :: "'k \<Rightarrow> 'a \<Rightarrow> ('k \<times> 'a list) list \<Rightarrow> ('k \<times> 'a list) list" where
  "append_at k x [] = [(k, [x])]"
| "append_at k x ((k', xs) # m) = (if k' = k then (k', xs @ [x]) # m else (k', xs) # append_at k x m)"

definition entries_at :: "('k \<times> 'a list) list \<Rightarrow> 'k \<Rightarrow> 'a list" where
  "entries_at m k = (case map_of m k of None \<Rightarrow> [] | Some xs \<Rightarrow> xs)"

definition by_condition :: "Site list \<Rightarrow> (string \<times> Site list) list" where
  "by_condition ss = fold (\<lambda>s. append_at (st_Condition s) s) ss []"

definition by_reason :: "Site list \<Rightarrow> (string \<times> Site list) list" where
  "by_reason ss = fold (\<lambda>s. fold (\<lambda>r. append_at r s) (st_Reasons s)) ss []"

definition condition_type :: "string list \<times> string list \<Rightarrow> (string \<times> Site list) list \<Rightarrow> NamedDoc \<Rightarrow> ConditionType" where
  "condition_type members bycond ct = (let ss = entries_at bycond (no_Value ct) in
     \<lparr> cd_Name = no_Value ct, cd_Doc = no_Doc ct, cd_Owned = (no_Value ct \<in> set (fst members)), cd_Sticky = (no_Value ct \<in> set (snd members)),
       cd_Sites = ss, cd_Reasons = sort (remdups (concat (map st_Reasons ss))) \<rparr>)"

definition open_fields :: "Site list \<Rightarrow> string list" where
  "open_fields ss = sort (remdups (map st_FieldKey (filter (\<lambda>s. st_FieldOpen s \<and> st_FieldKey s \<noteq> []) ss)))"

abbreviation apiPkg :: string where "apiPkg \<equiv> ''github.com/Quinyte/assayd/api/v1alpha1''"
abbreviation controllerPkg :: string where "controllerPkg \<equiv> ''github.com/Quinyte/assayd/internal/controller''"

text \<open>The package of a path, the later of two.\<close>

definition package_at :: "string \<Rightarrow> package list \<Rightarrow> package option" where
  "package_at path pkgs = find (\<lambda>p. pk_path p = path) (rev pkgs)"

definition gather_vocabulary :: "(string \<Rightarrow> string) \<Rightarrow> package \<Rightarrow> package \<Rightarrow> NamedDoc list \<Rightarrow> string + Vocabulary" where
  "gather_vocabulary uni api ctrl types =
     (let ss = sites uni ctrl; bycond = by_condition ss; conds = map (condition_type (conditionSetMembership ctrl) bycond) types;
          stray = filter (\<lambda>c. c \<notin> set (map cd_Name conds)) (map fst bycond) in
      if stray \<noteq> [] then Inl (msgf ''the operator writes condition types that api/v1alpha1 does not declare'' (sort stray))
      else Inr \<lparr> vo_Phases = constantsWithPrefix api ''Phase'', vo_PhaseDoc = typeDoc api ''AgentPhase'', vo_Conditions = conds,
        vo_ReasonConsts = reasonConstants ctrl, vo_Sites = ss, vo_CarrySites = carrySites ctrl, vo_OpenFields = open_fields ss,
        vo_ReasonsByName = by_reason ss \<rparr>)"

definition ExtractVocabulary :: "(string \<Rightarrow> string) \<Rightarrow> string + package list \<Rightarrow> string + Vocabulary" where
  "ExtractVocabulary uni loaded = (case loaded of
     Inl e \<Rightarrow> Inl (msgf ''load packages'' [e])
   | Inr pkgs \<Rightarrow>
       if concat (map pk_errors pkgs) \<noteq> [] then Inl (msgf ''the packages do not type-check'' (concat (map pk_errors pkgs)))
       else (case (package_at apiPkg pkgs, package_at controllerPkg pkgs) of
           (Some api, Some ctrl) \<Rightarrow> (case conditionTypes api of Inl e \<Rightarrow> Inl e | Inr types \<Rightarrow> gather_vocabulary uni api ctrl types)
         | _ \<Rightarrow> Inl (msgf ''loaded packages but not both'' [dec (length pkgs), apiPkg, controllerPkg])))"

section \<open>No hole\<close>

lemma append_at_lookup: "entries_at (append_at k x m) k' = entries_at m k' @ (if k' = k then [x] else [])"
  by (induction k x m rule: append_at.induct) (auto simp: entries_at_def split: option.split)

lemma by_condition_entries: "entries_at (by_condition ss) c = filter (\<lambda>s. st_Condition s = c) ss"
proof -
  have "entries_at (fold (\<lambda>s. append_at (st_Condition s) s) ss m) c = entries_at m c @ filter (\<lambda>s. st_Condition s = c) ss" for m
    by (induction ss arbitrary: m) (auto simp: append_at_lookup)
  then show ?thesis by (simp add: by_condition_def entries_at_def)
qed

lemma append_at_keys: "fst ` set (append_at k x m) = insert k (fst ` set m)"
  by (induction k x m rule: append_at.induct) auto

lemma by_condition_keys: "fst ` set (by_condition ss) = st_Condition ` set ss"
proof -
  have "fst ` set (fold (\<lambda>s. append_at (st_Condition s) s) ss m) = fst ` set m \<union> st_Condition ` set ss" for m
    by (induction ss arbitrary: m) (auto simp: append_at_keys)
  then show ?thesis by (simp add: by_condition_def)
qed

lemma by_reason_entries: "set (entries_at (by_reason ss) r) = {s \<in> set ss. r \<in> set (st_Reasons s)}"
proof -
  have inner: "set (entries_at (fold (\<lambda>r. append_at r s) rs m) r) = set (entries_at m r) \<union> (if r \<in> set rs then {s} else {})" for rs s m
    by (induction rs arbitrary: m) (auto simp: append_at_lookup)
  have "set (entries_at (fold (\<lambda>s. fold (\<lambda>r. append_at r s) (st_Reasons s)) ss m) r) =
      set (entries_at m r) \<union> {s \<in> set ss. r \<in> set (st_Reasons s)}" for m
    by (induction ss arbitrary: m) (auto simp: inner)
  then show ?thesis by (simp add: by_reason_def entries_at_def)
qed

lemma by_reason_keys: "fst ` set (by_reason ss) = set (concat (map st_Reasons ss))"
proof -
  have inner: "fst ` set (fold (\<lambda>r. append_at r s) rs m) = fst ` set m \<union> set rs" for rs s and m :: "(string \<times> Site list) list"
    by (induction rs arbitrary: m) (auto simp: append_at_keys)
  have "fst ` set (fold (\<lambda>s. fold (\<lambda>r. append_at r s) (st_Reasons s)) ss m) = fst ` set m \<union> set (concat (map st_Reasons ss))" for m
    by (induction ss arbitrary: m) (auto simp: inner)
  then show ?thesis by (simp add: by_reason_def)
qed

lemma extracted:
  assumes "ExtractVocabulary uni loaded = Inr v"
  obtains api ctrl types where "conditionTypes api = Inr types" "gather_vocabulary uni api ctrl types = Inr v"
  using assms by (auto simp: ExtractVocabulary_def split: sum.splits option.splits if_splits)

lemma extracted_sites:
  assumes "ExtractVocabulary uni loaded = Inr v"
  shows "\<exists>ctrl types. vo_Sites v = sites uni ctrl \<and> vo_ReasonsByName v = by_reason (sites uni ctrl) \<and>
    vo_Conditions v = map (condition_type (conditionSetMembership ctrl) (by_condition (sites uni ctrl))) types \<and>
    filter (\<lambda>c. c \<notin> set (map cd_Name (vo_Conditions v))) (map fst (by_condition (sites uni ctrl))) = []"
proof -
  from extracted [OF assms] obtain api ctrl types where v: "gather_vocabulary uni api ctrl types = Inr v" by blast
  show ?thesis
    by (rule exI [of _ ctrl], rule exI [of _ types]) (use v in \<open>auto simp: gather_vocabulary_def Let_def split: if_splits\<close>)
qed

lemma extracted_reasons:
  "ExtractVocabulary uni loaded = Inr v \<Longrightarrow> set (entries_at (vo_ReasonsByName v) r) = {s \<in> set (vo_Sites v). r \<in> set (st_Reasons s)}"
  using extracted_sites [of uni loaded v] by (auto simp: by_reason_entries)

text \<open>
  The vocabulary has no hole: when it is extracted, every site writes a declared condition, a condition lists
  exactly its own sites and the reasons they can set, and a reason lists exactly the sites that can set it.
\<close>

theorem vocabulary_has_no_hole:
  assumes "ExtractVocabulary uni loaded = Inr v"
  shows "st_Condition ` set (vo_Sites v) \<subseteq> cd_Name ` set (vo_Conditions v) \<and>
    list_all (\<lambda>c. cd_Sites c = filter (\<lambda>s. st_Condition s = cd_Name c) (vo_Sites v) \<and>
      set (cd_Reasons c) = set (concat (map st_Reasons (cd_Sites c)))) (vo_Conditions v) \<and>
    set (entries_at (vo_ReasonsByName v) r) = {s \<in> set (vo_Sites v). r \<in> set (st_Reasons s)}"
proof -
  from extracted_sites [OF assms] obtain ctrl types where sites: "vo_Sites v = sites uni ctrl" "vo_ReasonsByName v = by_reason (sites uni ctrl)"
      "vo_Conditions v = map (condition_type (conditionSetMembership ctrl) (by_condition (sites uni ctrl))) types"
    and known: "filter (\<lambda>c. c \<notin> set (map cd_Name (vo_Conditions v))) (map fst (by_condition (sites uni ctrl))) = []" by blast
  let ?ss = "sites uni ctrl"
  have "st_Condition ` set ?ss \<subseteq> cd_Name ` set (vo_Conditions v)"
    using known unfolding by_condition_keys [symmetric] by (auto simp: filter_empty_conv)
  moreover have "list_all (\<lambda>c. cd_Sites c = filter (\<lambda>s. st_Condition s = cd_Name c) ?ss \<and>
      set (cd_Reasons c) = set (concat (map st_Reasons (cd_Sites c)))) (vo_Conditions v)"
    by (simp add: sites list_all_iff condition_type_def Let_def by_condition_entries)
  ultimately show ?thesis by (simp add: sites by_reason_entries)
qed

definition sample_api :: package where
  "sample_api = \<lparr> pk_path = apiPkg, pk_errors = [], pk_files = [\<lparr> gf_name = ''agent_types.go'', gf_decls =
     [GenDecl \<lparr> gd_tok = ConstTok, gd_doc = None, gd_specs = [ValueSpec \<lparr> vs_doc = None,
        vs_names = [(\<lparr> id_name = ''CondReady'', id_defs = Some (ConstObj (Some ''ConditionType'') (Some ''Ready'')), id_uses = None \<rparr>, 3)],
        vs_values = [lit ''Ready''] \<rparr>] \<rparr>,
      sample_func ''designConditions'' 9 [] [named_ident ''CondReady'' (Some (ConstObj (Some ''ConditionType'') (Some ''Ready'')))]] \<rparr>] \<rparr>"

definition sample_load :: "string + package list" where
  "sample_load = Inr [sample_api, drain_package\<lparr> pk_path := controllerPkg \<rparr>]"

lemma sample_types: "conditionTypes sample_api = Inr [\<lparr> no_Name = ''CondReady'', no_Value = ''Ready'', no_Doc = [] \<rparr>]"
  by code_simp

lemma sample_sites: "map (\<lambda>s. (st_Condition s, st_Reasons s)) (sites id (drain_package\<lparr> pk_path := controllerPkg \<rparr>)) = [(''Ready'', [''Drained'', ''Waiting''])]"
  by code_simp

lemma gathers:
  assumes "st_Condition ` set (sites uni ctrl) \<subseteq> no_Value ` set types"
  shows "\<exists>v. gather_vocabulary uni api ctrl types = Inr v \<and> vo_Sites v = sites uni ctrl"
proof -
  have "map cd_Name (map (condition_type m b) types) = map no_Value types" for m b by (simp add: condition_type_def Let_def)
  moreover have "set (map fst (by_condition (sites uni ctrl))) \<subseteq> set (map no_Value types)" using assms by (simp add: by_condition_keys)
  then have "filter (\<lambda>c. c \<notin> set (map no_Value types)) (map fst (by_condition (sites uni ctrl))) = []" by (auto simp: filter_empty_conv)
  ultimately show ?thesis unfolding gather_vocabulary_def Let_def by (simp del: map_map set_map)
qed

lemma sample_vocabulary:
  "\<exists>v. ExtractVocabulary id sample_load = Inr v \<and> vo_Sites v = sites id (drain_package\<lparr> pk_path := controllerPkg \<rparr>)"
proof -
  have "st_Condition ` set (sites id (drain_package\<lparr> pk_path := controllerPkg \<rparr>)) = fst ` set (map (\<lambda>s. (st_Condition s, st_Reasons s)) (sites id (drain_package\<lparr> pk_path := controllerPkg \<rparr>)))"
    by (simp add: image_image)
  then have "st_Condition ` set (sites id (drain_package\<lparr> pk_path := controllerPkg \<rparr>)) = {''Ready''}" unfolding sample_sites by simp
  moreover have "ExtractVocabulary id sample_load = gather_vocabulary id sample_api (drain_package\<lparr> pk_path := controllerPkg \<rparr>)
      [\<lparr> no_Name = ''CondReady'', no_Value = ''Ready'', no_Doc = [] \<rparr>]"
    using sample_types by (simp add: ExtractVocabulary_def sample_load_def package_at_def sample_api_def drain_package_def sample_package_def)
  ultimately show ?thesis using gathers by simp
qed

theorem vocabulary_has_no_hole_witness:
  "\<exists>v. ExtractVocabulary id sample_load = Inr v \<and> [''Drained'', ''Waiting''] \<in> set (map st_Reasons (entries_at (vo_ReasonsByName v) ''Waiting''))"
proof -
  obtain v where v: "ExtractVocabulary id sample_load = Inr v" "vo_Sites v = sites id (drain_package\<lparr> pk_path := controllerPkg \<rparr>)"
    using sample_vocabulary by blast
  have "(''Ready'', [''Drained'', ''Waiting'']) \<in> set (map (\<lambda>s. (st_Condition s, st_Reasons s)) (vo_Sites v))"
    unfolding v(2) sample_sites by simp
  then obtain s where "s \<in> set (vo_Sites v)" "st_Reasons s = [''Drained'', ''Waiting'']" by auto
  then have "s \<in> set (entries_at (vo_ReasonsByName v) ''Waiting'')" "st_Reasons s = [''Drained'', ''Waiting'']"
    using vocabulary_has_no_hole [OF v(1), of "''Waiting''"] by auto
  with v(1) show ?thesis by (metis imageI set_map)
qed

end
