(* ===== verification/Crd_Rules.thy ===== *)
theory Crd_Rules
  imports Ref_Pages "HOL-Library.Product_Lexorder"
begin

text \<open>
  The validation rules of a CRD, as the reference page lists them (\<^verbatim>\<open>internal/refgen/crdrules.go\<close>): every
  \<^verbatim>\<open>x-kubernetes-validations\<close> entry of the schema with the node it sits on, the section that publishes them, and the gate
  that holds the page to the CRD. A schema is what the traversal sees of \<^verbatim>\<open>JSONSchemaProps\<close>; the properties are a
  Go map, an association list. Reading the file and parsing its YAML are not modelled.

  Shown: the traversal reaches exactly the rules of the subschemas there are; escaping a message is undone by
  \<^verbatim>\<open>unescapeMD\<close>; the gate passes exactly the pages that publish every rule under its own node and count them
  rightly; and the section the generator renders passes its gate.
\<close>

section \<open>Schemas and rules\<close>

record ValidationRule =
  xv_Rule :: string
  xv_Message :: string
  xv_Reason :: "string option"
  xv_FieldPath :: string

datatype schema = Schema
  (sx_Validations: "ValidationRule list")
  (sx_Properties: "(string \<times> schema) list")
  (sx_Items: "schema option")
  (sx_Tuple: "schema list")
  (sx_Additional: "schema option")
  (sx_AllOf: "schema list")
  (sx_AnyOf: "schema list")
  (sx_OneOf: "schema list")
  (sx_Not: "schema option")

record CELRule =
  ru_Node :: string
  ru_Rule :: string
  ru_Message :: string
  ru_Reason :: string
  ru_FieldPath :: string

definition rule_of :: "string \<Rightarrow> ValidationRule \<Rightarrow> CELRule" where
  "rule_of node v = \<lparr> ru_Node = node, ru_Rule = xv_Rule v, ru_Message = xv_Message v,
     ru_Reason = (case xv_Reason v of None \<Rightarrow> [] | Some x \<Rightarrow> x), ru_FieldPath = xv_FieldPath v \<rparr>"

text \<open>The subschemas of a node, in the order they are read, with the names of their nodes.\<close>

definition one_child :: "string \<Rightarrow> schema option \<Rightarrow> (string \<times> schema) list" where
  "one_child node s = (case s of None \<Rightarrow> [] | Some t \<Rightarrow> [(node, t)])"

definition numbered :: "(nat \<Rightarrow> string) \<Rightarrow> schema list \<Rightarrow> (string \<times> schema) list" where
  "numbered name ss = map (\<lambda>i. (name i, ss ! i)) [0..<length ss]"

definition braced :: "string \<Rightarrow> string \<Rightarrow> nat \<Rightarrow> string" where
  "braced node word i = node @ ''{'' @ word @ '' '' @ dec i @ ''}''"

definition children :: "string \<Rightarrow> schema \<Rightarrow> (string \<times> schema) list" where
  "children node s =
     map (\<lambda>(name, p). (node @ ''.'' @ name, p)) (sort_key fst (sx_Properties s)) @
     one_child (node @ ''[index]'') (sx_Items s) @
     numbered (\<lambda>i. node @ ''['' @ dec i @ '']'') (sx_Tuple s) @
     one_child (node @ ''[key]'') (sx_Additional s) @
     numbered (braced node ''allOf'') (sx_AllOf s) @
     numbered (braced node ''anyOf'') (sx_AnyOf s) @
     numbered (braced node ''oneOf'') (sx_OneOf s) @
     one_child (node @ ''{not}'') (sx_Not s)"

lemma numbered_iff: "(n, t) \<in> set (numbered name ss) \<longleftrightarrow> (\<exists>i < length ss. n = name i \<and> t = ss ! i)"
  by (auto simp: numbered_def)

lemma one_child_iff: "(n, t) \<in> set (one_child node s) \<longleftrightarrow> n = node \<and> s = Some t"
  by (auto simp: one_child_def split: option.splits)

lemma children_size: "(n, t) \<in> set (children node s) \<Longrightarrow> size t < size s"
proof -
  have list: "i < length ss \<Longrightarrow> size (ss ! i) < Suc (size_list size ss)" for i and ss :: "schema list"
    using size_list_estimation' [of "ss ! i" ss "size (ss ! i)" size] by simp
  have pairs: "(name, p) \<in> set ps \<Longrightarrow> size p < Suc (size_list (size_prod (\<lambda>_. 0) size) ps)" for name p and ps :: "(string \<times> schema) list"
    using size_list_estimation' [of "(name, p)" ps "size p" "size_prod (\<lambda>_. 0) size"] by simp
  assume "(n, t) \<in> set (children node s)"
  then show ?thesis
    by (cases s) (auto simp: children_def numbered_iff one_child_iff dest!: list pairs)
qed

function collectRules :: "string \<Rightarrow> schema \<Rightarrow> CELRule list" where
  "collectRules node s = map (rule_of node) (sx_Validations s) @ concat (map (\<lambda>(n, t). collectRules n t) (children node s))"
  by auto
termination
  by (relation "measure (size \<circ> snd)") (auto dest: children_size)

declare collectRules.simps [simp del]

record CRD =
  crd_Kind :: string
  crd_Schemas :: "schema option list"

text \<open>\<^verbatim>\<open>nodeLess\<close>, as a key: by depth and then by name. The sort is stable.\<close>

definition node_key :: "string \<Rightarrow> nat \<times> string" where
  "node_key node = (count_list node CHR ''.'', node)"

definition celRules :: "CRD \<Rightarrow> CELRule list" where
  "celRules crd = sort_key (node_key \<circ> ru_Node)
     (concat (map (\<lambda>s. case s of None \<Rightarrow> [] | Some t \<Rightarrow> collectRules (crd_Kind crd) t) (crd_Schemas crd)))"

definition rulesOn :: "CELRule list \<Rightarrow> string \<Rightarrow> nat" where
  "rulesOn rules node = length (filter (\<lambda>r. ru_Node r = node) rules)"

definition countNodes :: "CELRule list \<Rightarrow> nat" where
  "countNodes rules = length (remdups (map ru_Node rules))"

section \<open>The traversal is complete\<close>

text \<open>The subschemas of a schema and the names of their nodes, by every field that holds one.\<close>

inductive subschema :: "string \<Rightarrow> schema \<Rightarrow> string \<Rightarrow> schema \<Rightarrow> bool" where
  itself: "subschema node s node s"
| property: "(name, p) \<in> set (sx_Properties s) \<Longrightarrow> subschema (node @ ''.'' @ name) p n t \<Longrightarrow> subschema node s n t"
| item: "sx_Items s = Some p \<Longrightarrow> subschema (node @ ''[index]'') p n t \<Longrightarrow> subschema node s n t"
| tuple: "i < length (sx_Tuple s) \<Longrightarrow> subschema (node @ ''['' @ dec i @ '']'') (sx_Tuple s ! i) n t \<Longrightarrow> subschema node s n t"
| additional: "sx_Additional s = Some p \<Longrightarrow> subschema (node @ ''[key]'') p n t \<Longrightarrow> subschema node s n t"
| all_of: "i < length (sx_AllOf s) \<Longrightarrow> subschema (braced node ''allOf'' i) (sx_AllOf s ! i) n t \<Longrightarrow> subschema node s n t"
| any_of: "i < length (sx_AnyOf s) \<Longrightarrow> subschema (braced node ''anyOf'' i) (sx_AnyOf s ! i) n t \<Longrightarrow> subschema node s n t"
| one_of: "i < length (sx_OneOf s) \<Longrightarrow> subschema (braced node ''oneOf'' i) (sx_OneOf s ! i) n t \<Longrightarrow> subschema node s n t"
| negated: "sx_Not s = Some p \<Longrightarrow> subschema (node @ ''{not}'') p n t \<Longrightarrow> subschema node s n t"

lemma named_iff:
  "(m, p) \<in> set (map (\<lambda>(name, p). (node @ ''.'' @ name, p)) (sort_key fst ps)) \<longleftrightarrow> (\<exists>name. m = node @ ''.'' @ name \<and> (name, p) \<in> set ps)"
  by auto

lemma children_iff:
  "(m, p) \<in> set (children node s) \<longleftrightarrow>
     (\<exists>name. m = node @ ''.'' @ name \<and> (name, p) \<in> set (sx_Properties s)) \<or> m = node @ ''[index]'' \<and> sx_Items s = Some p \<or>
     (\<exists>i < length (sx_Tuple s). m = node @ ''['' @ dec i @ '']'' \<and> p = sx_Tuple s ! i) \<or> m = node @ ''[key]'' \<and> sx_Additional s = Some p \<or>
     (\<exists>i < length (sx_AllOf s). m = braced node ''allOf'' i \<and> p = sx_AllOf s ! i) \<or>
     (\<exists>i < length (sx_AnyOf s). m = braced node ''anyOf'' i \<and> p = sx_AnyOf s ! i) \<or>
     (\<exists>i < length (sx_OneOf s). m = braced node ''oneOf'' i \<and> p = sx_OneOf s ! i) \<or> m = node @ ''{not}'' \<and> sx_Not s = Some p"
  unfolding children_def set_append Un_iff named_iff numbered_iff one_child_iff by (rule refl)

lemma children_intros:
  "(name, p) \<in> set (sx_Properties s) \<Longrightarrow> (node @ ''.'' @ name, p) \<in> set (children node s)"
  "sx_Items s = Some p \<Longrightarrow> (node @ ''[index]'', p) \<in> set (children node s)"
  "i < length (sx_Tuple s) \<Longrightarrow> (node @ ''['' @ dec i @ '']'', sx_Tuple s ! i) \<in> set (children node s)"
  "sx_Additional s = Some p \<Longrightarrow> (node @ ''[key]'', p) \<in> set (children node s)"
  "i < length (sx_AllOf s) \<Longrightarrow> (braced node ''allOf'' i, sx_AllOf s ! i) \<in> set (children node s)"
  "i < length (sx_AnyOf s) \<Longrightarrow> (braced node ''anyOf'' i, sx_AnyOf s ! i) \<in> set (children node s)"
  "i < length (sx_OneOf s) \<Longrightarrow> (braced node ''oneOf'' i, sx_OneOf s ! i) \<in> set (children node s)"
  "sx_Not s = Some p \<Longrightarrow> (node @ ''{not}'', p) \<in> set (children node s)"
  unfolding children_iff by blast+

lemma subschema_step:
  assumes "subschema node s n t"
  shows "n = node \<and> t = s \<or> (\<exists>m p. (m, p) \<in> set (children node s) \<and> subschema m p n t)"
  using assms
proof (cases rule: subschema.cases)
  case itself
  then show ?thesis by simp
next
  case (property name p)
  then show ?thesis using children_intros(1) by blast
next
  case (item p)
  then show ?thesis using children_intros(2) by blast
next
  case (tuple i)
  then show ?thesis using children_intros(3) by blast
next
  case (additional p)
  then show ?thesis using children_intros(4) by blast
next
  case (all_of i)
  then show ?thesis using children_intros(5) by blast
next
  case (any_of i)
  then show ?thesis using children_intros(6) by blast
next
  case (one_of i)
  then show ?thesis using children_intros(7) by blast
next
  case (negated p)
  then show ?thesis using children_intros(8) by blast
qed

lemma subschema_child: "(m, p) \<in> set (children node s) \<Longrightarrow> subschema m p n t \<Longrightarrow> subschema node s n t"
  unfolding children_iff by (elim disjE exE conjE; hypsubst; erule (1) subschema.intros)

text \<open>What a schema publishes: a rule of one of its subschemas, with the name of that node.\<close>

definition declares :: "string \<Rightarrow> schema \<Rightarrow> CELRule \<Rightarrow> bool" where
  "declares node s r \<longleftrightarrow> (\<exists>n t v. subschema node s n t \<and> v \<in> set (sx_Validations t) \<and> r = rule_of n v)"

lemma declares_step:
  "declares node s r \<longleftrightarrow> (\<exists>v \<in> set (sx_Validations s). r = rule_of node v) \<or> (\<exists>(m, p) \<in> set (children node s). declares m p r)"
proof
  assume "declares node s r"
  then obtain n t v where v: "subschema node s n t" "v \<in> set (sx_Validations t)" "r = rule_of n v" by (auto simp: declares_def)
  from subschema_step [OF v(1)] show "(\<exists>v \<in> set (sx_Validations s). r = rule_of node v) \<or> (\<exists>(m, p) \<in> set (children node s). declares m p r)"
  proof
    assume "n = node \<and> t = s"
    with v show ?thesis by blast
  next
    assume "\<exists>m p. (m, p) \<in> set (children node s) \<and> subschema m p n t"
    with v show ?thesis unfolding declares_def by blast
  qed
next
  assume "(\<exists>v \<in> set (sx_Validations s). r = rule_of node v) \<or> (\<exists>(m, p) \<in> set (children node s). declares m p r)"
  then show "declares node s r"
    using subschema_child subschema.itself by (fastforce simp: declares_def)
qed

lemma collectRules_iff: "r \<in> set (collectRules node s) \<longleftrightarrow> declares node s r"
proof (induction node s rule: collectRules.induct)
  case (1 node s)
  show ?case
    by (subst declares_step, subst collectRules.simps) (use 1 in auto)
qed

text \<open>
  C35. Nothing is missed: the list holds a rule exactly if some subschema of a version's schema declares it, under that
  node's name, whatever field of the schema leads to it; and it is ordered by depth and then by name.
\<close>

theorem celRules_complete:
  "(r \<in> set (celRules crd) \<longleftrightarrow> (\<exists>t. Some t \<in> set (crd_Schemas crd) \<and> declares (crd_Kind crd) t r)) \<and>
   sorted (map (node_key \<circ> ru_Node) (celRules crd))"
proof -
  have "r \<in> set (celRules crd) \<longleftrightarrow> (\<exists>s \<in> set (crd_Schemas crd). r \<in> set (case s of None \<Rightarrow> [] | Some t \<Rightarrow> collectRules (crd_Kind crd) t))"
    by (simp add: celRules_def)
  also have "\<dots> \<longleftrightarrow> (\<exists>t. Some t \<in> set (crd_Schemas crd) \<and> r \<in> set (collectRules (crd_Kind crd) t))"
    by (auto split: option.splits)
  finally show ?thesis by (simp add: collectRules_iff celRules_def)
qed

section \<open>Messages\<close>

definition escapeMD :: "string \<Rightarrow> string" where
  "escapeMD s = replace_all ''>'' ''&gt;'' (replace_all ''<'' ''&lt;'' (replace_all ''&'' ''&amp;'' s))"

definition unescapeMD :: "string \<Rightarrow> string" where
  "unescapeMD s = replace_all ''&amp;'' ''&'' (replace_all ''&lt;'' ''<'' (replace_all ''&gt;'' ''>'' s))"

definition one_line :: "string \<Rightarrow> string" where
  "one_line s = replace_all [nl] '' '' s"

definition renderedMessage :: "string \<Rightarrow> string" where
  "renderedMessage msg = one_line (escapeMD msg)"

definition escape_byte :: "bool \<Rightarrow> bool \<Rightarrow> char \<Rightarrow> string" where
  "escape_byte lt gt c = (if c = CHR ''&'' then ''&amp;'' else if c = CHR ''<'' \<and> lt then ''&lt;'' else if c = CHR ''>'' \<and> gt then ''&gt;'' else [c])"

lemma escapeMD_bytes: "escapeMD s = concat (map (escape_byte True True) s)"
  by (induction s) (simp_all add: escapeMD_def replace_all_byte escape_byte_def)

lemma undo_gt: "replace_all ''&gt;'' ''>'' (concat (map (escape_byte True True) s)) = concat (map (escape_byte True False) s)"
proof (induction s)
  case (Cons c s)
  have "replace_all ''&gt;'' ''>'' (escape_byte True True c @ t) = escape_byte True False c @ replace_all ''&gt;'' ''>'' t" for t
    using replace_all_hit [of "''&gt;''" "''>''" t] by (simp add: escape_byte_def replace_all_miss has_prefix_def)
  with Cons show ?case by simp
qed simp

lemma undo_lt: "replace_all ''&lt;'' ''<'' (concat (map (escape_byte True False) s)) = concat (map (escape_byte False False) s)"
proof (induction s)
  case (Cons c s)
  have "replace_all ''&lt;'' ''<'' (escape_byte True False c @ t) = escape_byte False False c @ replace_all ''&lt;'' ''<'' t" for t
    using replace_all_hit [of "''&lt;''" "''<''" t] by (simp add: escape_byte_def replace_all_miss has_prefix_def)
  with Cons show ?case by simp
qed simp

lemma undo_amp: "replace_all ''&amp;'' ''&'' (concat (map (escape_byte False False) s)) = s"
proof (induction s)
  case (Cons c s)
  have "replace_all ''&amp;'' ''&'' (escape_byte False False c @ t) = c # replace_all ''&amp;'' ''&'' t" for t
    using replace_all_hit [of "''&amp;''" "''&''" t] by (simp add: escape_byte_def replace_all_miss has_prefix_def)
  with Cons show ?case by simp
qed simp

lemma unescape_escape: "unescapeMD (escapeMD s) = s"
  by (simp add: unescapeMD_def escapeMD_bytes undo_gt undo_lt undo_amp)

lemma one_line_map: "one_line s = map (\<lambda>c. if c = nl then CHR '' '' else c) s"
  by (induction s) (simp_all add: one_line_def replace_all_byte)

lemma renderedMessage_escape: "renderedMessage msg = escapeMD (one_line msg)"
  by (induction msg) (simp_all add: renderedMessage_def escapeMD_bytes one_line_map escape_byte_def)

text \<open>
  A published message is the CRD's: undoing the escapes in the reverse order gives the message back, its line
  breaks as spaces, whatever it contains. The gate's check of this round trip never refuses a page.
\<close>

theorem message_round_trip: "unescapeMD (escapeMD msg) = msg \<and> unescapeMD (renderedMessage msg) = one_line msg"
  by (simp add: renderedMessage_escape unescape_escape)

section \<open>The section\<close>

abbreviation tick :: string where "tick \<equiv> ''`''"
abbreviation para :: string where "para \<equiv> [nl, nl]"

definition celHeading :: "string \<Rightarrow> string" where
  "celHeading node = ''### Rules on `'' @ node @ tick"

abbreviation celSectionHeading :: string where "celSectionHeading \<equiv> ''## Every validation rule''"

text \<open>The node at or above this one that the field tables have a heading for: its anchor and its name.\<close>

definition up_node :: "string \<Rightarrow> string" where
  "up_node n = rev (drop 1 (dropWhile (\<lambda>c. c \<noteq> CHR ''.'') (rev n)))"

function nearestSection :: "(string \<Rightarrow> string) \<Rightarrow> string \<Rightarrow> string list \<Rightarrow> string \<times> string" where
  "nearestSection uni n heads =
     (if CHR ''.'' \<notin> set n then ([], [])
      else if anchor uni n \<in> set heads then (anchor uni n, n) else nearestSection uni (up_node n) heads)"
  by auto
termination
proof (relation "measure (\<lambda>(_, n, _). length n)")
  fix uni :: "string \<Rightarrow> string" and n :: string and heads :: "string list"
  assume "\<not> CHR ''.'' \<notin> set n"
  then have "n \<noteq> []" by auto
  moreover have "length (dropWhile (\<lambda>c. c \<noteq> CHR ''.'') (rev n)) \<le> length n"
    using length_dropWhile_le [of _ "rev n"] by simp
  ultimately show "((uni, up_node n, heads), (uni, n, heads)) \<in> measure (\<lambda>(_, n, _). length n)"
    by (cases n) (auto simp: up_node_def)
qed simp

declare nearestSection.simps [simp del]

definition section_slugs :: "(string \<Rightarrow> string) \<Rightarrow> string \<Rightarrow> string list" where
  "section_slugs uni table_body = map (heading_slug uni \<circ> snd) (headings table_body)"

definition census :: "nat \<Rightarrow> nat \<Rightarrow> string" where
  "census n m = ''All '' @ dec n @ '' `x-kubernetes-validations` rules in the CRD, on all '' @ dec m @ '' schema nodes''"

text \<open>What follows the census in the section's opening.\<close>

definition cel_opening :: string where
  "cel_opening = join [nl] ['' that carry any.'', [],
     ''**This section, and not the field tables above, is the complete list.** The tables carry a'',
     ''`Validations` row for object-typed fields only: an ARRAY ITEM schema's rules and the root'',
     ''schema's do not appear there at all, so a field with no `Validations` row in a table is not a'',
     ''field with no rules. The generator reads every rule out of the CRD itself and fails rather than'',
     ''writing this page if any of them is missing from it.'', [],
     ''Each rule is CEL, evaluated by the API server on every write, and a write that fails one is'',
     ''REFUSED with the message beside it. `self` is the node the rule sits on.'', [], []]"

definition node_opening :: "(string \<Rightarrow> string) \<Rightarrow> string list \<Rightarrow> string \<Rightarrow> string" where
  "node_opening uni heads node = celHeading node @ para @
     (case nearestSection uni node heads of (target, label) \<Rightarrow>
        if target \<noteq> [] then ''[Fields of `'' @ label @ ''`](#'' @ target @ '')'' @ para else [])"

definition rule_body :: "CELRule \<Rightarrow> string" where
  "rule_body r = ''```cel'' @ nl # ru_Rule r @ nl # ''```'' @ para @ ''> '' @ renderedMessage (ru_Message r) @ para @
     (let extra = (if ru_Reason r \<noteq> [] then [''reason `'' @ ru_Reason r @ tick] else []) @
            (if ru_FieldPath r \<noteq> [] then [''fieldPath `'' @ ru_FieldPath r @ tick] else []) in
      if extra \<noteq> [] then ''Refused with '' @ join '', '' extra @ ''.'' @ para else [])"

fun render_rules :: "(string \<Rightarrow> string) \<Rightarrow> string list \<Rightarrow> string \<Rightarrow> CELRule list \<Rightarrow> string" where
  "render_rules uni heads node [] = []"
| "render_rules uni heads node (r # rs) =
     (if ru_Node r \<noteq> node then node_opening uni heads (ru_Node r) else []) @ rule_body r @ render_rules uni heads (ru_Node r) rs"

definition renderCELSection :: "(string \<Rightarrow> string) \<Rightarrow> CELRule list \<Rightarrow> string \<Rightarrow> string" where
  "renderCELSection uni rules table_body =
     celSectionHeading @ para @ census (length rules) (countNodes rules) @ cel_opening @
     render_rules uni (section_slugs uni table_body) [] rules"

section \<open>The gate\<close>

text \<open>Where the first of the marks of a heading of this level or above begins, or the end of the text.\<close>

definition section_end :: "string \<Rightarrow> nat" where
  "section_end rest = foldl (\<lambda>end mark. case str_index rest mark of Some j \<Rightarrow> if j < end then j else end | None \<Rightarrow> end)
     (length rest) [nl # ''### '', nl # ''## '', nl # ''# '']"

definition censusScope :: "string \<Rightarrow> string option" where
  "censusScope page = (case str_index page celSectionHeading of
     None \<Rightarrow> None
   | Some i \<Rightarrow> let rest = drop (i + length celSectionHeading) page in Some (take (section_end rest) rest))"

text \<open>\<open>censusLine\<close>: the numbers of every sentence that matches, as written.\<close>

definition census_at :: "string \<Rightarrow> (string \<times> string \<times> string) option" where
  "census_at s =
     (let n = takeWhile is_digit (drop 4 s); s1 = drop (4 + length n) s;
          mid = '' `x-kubernetes-validations` rules in the CRD, on all '';
          m = takeWhile is_digit (drop (length mid) s1); s2 = drop (length mid + length m) s1 in
      if has_prefix s ''All '' \<and> n \<noteq> [] \<and> has_prefix s1 mid \<and> m \<noteq> [] \<and> has_prefix s2 '' schema nodes''
      then Some (n, m, drop (length '' schema nodes'') s2) else None)"

lemma census_at_shorter: "census_at s = Some (n, m, rest) \<Longrightarrow> length rest < length s"
  by (cases s) (auto simp: census_at_def Let_def has_prefix_def split: if_splits)

function censuses :: "string \<Rightarrow> (string \<times> string) list" where
  "censuses s = (case census_at s of
     Some (n, m, rest) \<Rightarrow> (n, m) # censuses rest
   | None \<Rightarrow> (case s of [] \<Rightarrow> [] | _ # s' \<Rightarrow> censuses s'))"
  by auto
termination
  by (relation "measure length") (auto dest: census_at_shorter)

declare censuses.simps [simp del]

definition verifyCensus :: "string \<Rightarrow> CELRule list \<Rightarrow> string option" where
  "verifyCensus page rules = (case censusScope page of
     None \<Rightarrow> Some ''the CRD reference would have been written without its section''
   | Some scope \<Rightarrow> (case censuses scope of
       [] \<Rightarrow> Some ''the CRD reference would have been written without the sentence that states how many rules the CRD has''
     | [(n, m)] \<Rightarrow> (case (Atoi n, Atoi m) of
         (None, _) \<Rightarrow> Some (msgf ''the rule count in the page's own census is not a number'' [n])
       | (_, None) \<Rightarrow> Some (msgf ''the node count in the page's own census is not a number'' [m])
       | (Some a, Some b) \<Rightarrow>
           if a \<noteq> int (length rules) \<or> b \<noteq> int (countNodes rules)
           then Some (msgf ''the page announces other numbers than the CRD carries'' [itoa a, itoa b, dec (length rules), dec (countNodes rules)])
           else None)
     | cs \<Rightarrow> Some (msgf ''more than one sentence matches the census'' [dec (length cs)])))"

text \<open>The body under each node's heading; of two with one name the later counts.\<close>

function sections_in :: "string \<Rightarrow> (string \<times> string) list" where
  "sections_in s = (case str_index s ''### Rules on `'' of
     None \<Rightarrow> []
   | Some i \<Rightarrow> let t = drop (i + 14) s in (case str_index t tick of
       None \<Rightarrow> []
     | Some k \<Rightarrow> let rest = drop k t; e = section_end rest in
         (take k t, take e rest) # sections_in (drop (if e = 0 then 1 else e) rest)))"
  by auto
termination
proof (relation "measure length")
  fix s i t k rest e
  assume "str_index s ''### Rules on `'' = Some i" "t = drop (i + 14) s" "rest = drop k t"
  with str_index_Some [OF this(1)] show "(drop (if e = 0 then 1 else e) rest, s) \<in> measure length" by auto
qed simp

declare sections_in.simps [simp del]

definition ruleSections :: "string \<Rightarrow> string \<Rightarrow> string option" where
  "ruleSections page = map_of (rev (sections_in page))"

definition rule_published :: "(string \<Rightarrow> string option) \<Rightarrow> CELRule \<Rightarrow> bool" where
  "rule_published sections r \<longleftrightarrow> (case sections (ru_Node r) of None \<Rightarrow> False
   | Some body \<Rightarrow> str_contains body (ru_Rule r) \<and> (ru_Message r = [] \<or> str_contains body (renderedMessage (ru_Message r))))"

text \<open>What is missing: a whole node once, with all its rules, or one rule or message; and how many rules that is.\<close>

fun gaps :: "CELRule list \<Rightarrow> (string \<Rightarrow> string option) \<Rightarrow> string list \<Rightarrow> CELRule list \<Rightarrow> string list \<times> nat" where
  "gaps rules sections reported [] = ([], 0)"
| "gaps rules sections reported (r # rs) = (case sections (ru_Node r) of
     None \<Rightarrow>
       if ru_Node r \<in> set reported then gaps rules sections reported rs
       else (case gaps rules sections (ru_Node r # reported) rs of (missing, k) \<Rightarrow>
         (msgf ''the whole node'' [ru_Node r, dec (rulesOn rules (ru_Node r)), celHeading (ru_Node r)] # missing, rulesOn rules (ru_Node r) + k))
   | Some body \<Rightarrow> (case gaps rules sections reported rs of (missing, k) \<Rightarrow>
       if \<not> str_contains body (ru_Rule r) then (msgf ''rule'' [ru_Node r, ru_Rule r] # missing, Suc k)
       else if ru_Message r \<noteq> [] \<and> \<not> str_contains body (renderedMessage (ru_Message r))
       then (msgf ''the message for'' [ru_Node r, ru_Rule r] # missing, Suc k) else (missing, k)))"

definition round_trips :: "CELRule \<Rightarrow> bool" where
  "round_trips r \<longleftrightarrow> unescapeMD (renderedMessage (ru_Message r)) = one_line (ru_Message r)"

definition verifyEveryRuleIsPublished :: "string \<Rightarrow> CRD \<Rightarrow> string option" where
  "verifyEveryRuleIsPublished page crd =
     (let rules = celRules crd in
      if rules = [] then Some ''no validation rules were found at all''
      else case verifyCensus page rules of Some e \<Rightarrow> Some e
      | None \<Rightarrow> (case find (\<lambda>r. \<not> round_trips r) rules of
          Some r \<Rightarrow> Some (msgf ''the renderer's message transformation does not round-trip'' [ru_Rule r, ru_Node r])
        | None \<Rightarrow> (case gaps rules (ruleSections page) [] rules of (missing, k) \<Rightarrow>
            if missing \<noteq> [] then Some (msgf ''validation rules missing from the node they belong to'' (dec k # dec (length rules) # missing))
            else None)))"

lemma gaps_Cons:
  "fst (gaps rules sec reported (r # rs)) = [] \<longleftrightarrow>
     (rule_published sec r \<or> ru_Node r \<in> set reported \<and> sec (ru_Node r) = None) \<and> fst (gaps rules sec reported rs) = []"
  by (auto simp: rule_published_def split: option.split prod.split)

lemma gaps_none:
  "fst (gaps rules sec reported rs) = [] \<longleftrightarrow> (\<forall>r \<in> set rs. rule_published sec r \<or> ru_Node r \<in> set reported \<and> sec (ru_Node r) = None)"
  by (induction rs) (simp_all add: gaps_Cons del: gaps.simps(2))

lemma verifyEveryRuleIsPublished_iff:
  "verifyEveryRuleIsPublished page crd = None \<longleftrightarrow>
     celRules crd \<noteq> [] \<and>
     (\<exists>scope n m. censusScope page = Some scope \<and> censuses scope = [(n, m)] \<and>
        Atoi n = Some (int (length (celRules crd))) \<and> Atoi m = Some (int (countNodes (celRules crd)))) \<and>
     list_all (rule_published (ruleSections page)) (celRules crd)"
proof -
  have trips: "round_trips r" for r by (simp add: round_trips_def renderedMessage_escape unescape_escape)
  have census: "verifyCensus page rules = None \<longleftrightarrow> (\<exists>scope n m. censusScope page = Some scope \<and> censuses scope = [(n, m)] \<and>
      Atoi n = Some (int (length rules)) \<and> Atoi m = Some (int (countNodes rules)))" for rules
    by (auto simp: verifyCensus_def split: option.splits list.splits)
  have "find (\<lambda>r. \<not> round_trips r) rules = None" for rules by (simp add: find_None_iff trips)
  then show ?thesis
    unfolding verifyEveryRuleIsPublished_def Let_def
    using census [of "celRules crd"] gaps_none [of "celRules crd" "ruleSections page" "[]" "celRules crd"]
    by (auto simp: list_all_iff split: option.splits prod.splits)
qed

text \<open>
  C36. The gate is exact. A page passes if and only if the CRD has rules, the page's own count of them is written once in
  the section's opening and is right, and every rule of the CRD, with its message, is in the body under
  the heading of the very node it sits on.
\<close>

theorem verifyEveryRuleIsPublished_exact:
  "verifyEveryRuleIsPublished page crd = None \<longleftrightarrow>
     celRules crd \<noteq> [] \<and>
     (\<exists>scope n m. censusScope page = Some scope \<and> censuses scope = [(n, m)] \<and>
        Atoi n = Some (int (length (celRules crd))) \<and> Atoi m = Some (int (countNodes (celRules crd)))) \<and>
     list_all (rule_published (ruleSections page)) (celRules crd)"
  by (rule verifyEveryRuleIsPublished_iff)

section \<open>Lines\<close>

text \<open>A line that opens a heading of a level that ends a section; a text is safe if none of its lines does.\<close>

definition safe_line :: "string \<Rightarrow> bool" where
  "safe_line l \<longleftrightarrow> \<not> has_prefix l ''### '' \<and> \<not> has_prefix l ''## '' \<and> \<not> has_prefix l ''# ''"

definition safe_text :: "string \<Rightarrow> bool" where
  "safe_text s \<longleftrightarrow> list_all safe_line (split_on nl s)"

lemma split_on_nl: "split_on d (a @ d # b) = split_on d a @ split_on d b"
proof (induction a)
  case (Cons x a)
  obtain p ps where "split_on d a = p # ps" using split_on_nonempty by (metis neq_Nil_conv)
  with Cons show ?case by auto
qed simp

lemma safe_text_nl [simp]: "safe_text (a @ nl # b) \<longleftrightarrow> safe_text a \<and> safe_text b" "safe_text (nl # b) \<longleftrightarrow> safe_text b"
  using split_on_nl [of nl a b] by (simp_all add: safe_text_def safe_line_def has_prefix_def)

lemma safe_text_line: "nl \<notin> set l \<Longrightarrow> safe_text l \<longleftrightarrow> safe_line l"
  by (simp add: safe_text_def)

text \<open>The lines after the first break.\<close>

definition rest_lines :: "string \<Rightarrow> bool" where
  "rest_lines s \<longleftrightarrow> list_all safe_line (tl (split_on nl s))"

lemma rest_lines_Cons [simp]: "rest_lines (c # s) \<longleftrightarrow> (if c = nl then safe_text s else rest_lines s)"
  by (cases "split_on nl s") (auto simp: rest_lines_def safe_text_def)

lemma rest_lines_Nil [simp]: "rest_lines []"
  by (simp add: rest_lines_def)

lemma rest_lines_append: "nl \<notin> set a \<Longrightarrow> rest_lines (a @ s) \<longleftrightarrow> rest_lines s"
  by (induction a) auto

lemma safe_text_Nil [simp]: "safe_text []"
  by (simp add: safe_text_def safe_line_def has_prefix_def)

lemma safe_line_other [simp]: "c \<noteq> CHR ''#'' \<Longrightarrow> safe_line (c # s)"
  by (simp add: safe_line_def has_prefix_def)

lemma safe_text_Cons [simp]: "c \<noteq> CHR ''#'' \<Longrightarrow> safe_text (c # s) \<longleftrightarrow> rest_lines (c # s)"
  by (cases "split_on nl s") (auto simp: rest_lines_def safe_text_def safe_line_def has_prefix_def)

lemma safe_text_rest: "safe_text s \<Longrightarrow> rest_lines s"
  by (cases "split_on nl s") (auto simp: rest_lines_def safe_text_def)

lemma contains_line: "nl \<notin> set q \<Longrightarrow> str_contains s (nl # q) \<Longrightarrow> \<exists>l \<in> set (split_on nl s). has_prefix l q"
proof -
  assume q: "nl \<notin> set q" and "str_contains s (nl # q)"
  then obtain u v where s: "s = u @ nl # q @ v" by (auto simp: str_contains_iff)
  have "hd (split_on nl (q @ v)) = q @ hd (split_on nl v)"
    using q by (induction q) (auto split: list.split dest: split_on_nonempty [THEN notE])
  then have "has_prefix (hd (split_on nl (q @ v))) q" by (simp add: has_prefix_def)
  moreover have "hd (split_on nl (q @ v)) \<in> set (split_on nl s)"
    unfolding s split_on_nl using split_on_nonempty by simp
  ultimately show ?thesis by blast
qed

abbreviation marks :: "string list" where "marks \<equiv> [nl # ''### '', nl # ''## '', nl # ''# '']"

lemma safe_no_marks: "safe_text s \<Longrightarrow> m \<in> set marks \<Longrightarrow> \<not> str_contains s m"
  using contains_line [of "''### ''" s] contains_line [of "''## ''" s] contains_line [of "''# ''" s]
  by (auto simp: safe_text_def list_all_iff safe_line_def)

section \<open>Where a section ends\<close>

lemma section_end_all: "safe_text s \<Longrightarrow> section_end s = length s"
proof -
  assume "safe_text s"
  then have "str_index s m = None" if "m \<in> set marks" for m
    using safe_no_marks that by (simp add: str_index_None)
  then show ?thesis by (simp add: section_end_def)
qed

lemma mark_after:
  assumes "nl \<notin> set q" "\<not> str_contains w (nl # q)" "w @ nl # z = u @ (nl # q) @ v"
  shows "length w \<le> length u"
proof (rule ccontr)
  assume "\<not> length w \<le> length u"
  then obtain a w' where w: "w = u @ a # w'"
    by (metis append_take_drop_id assms(3) append_eq_append_conv_if id_take_nth_drop linorder_not_le)
  with assms(3) have eq: "a = nl" "w' @ nl # z = q @ v" by auto
  have "length q \<le> length w'"
  proof (rule ccontr)
    assume "\<not> length q \<le> length w'"
    then have "q ! length w' = nl" using eq(2) by (metis nth_append nth_append_length linorder_not_le)
    then show False using assms(1) \<open>\<not> length q \<le> length w'\<close> by (metis linorder_not_le nth_mem)
  qed
  then have "take (length q) w' = q" using eq(2) by (metis append_eq_append_conv_if take_append append_eq_conv_conj)
  then have "w' = q @ drop (length q) w'" by (metis append_take_drop_id)
  then have "str_contains w (nl # q)" unfolding str_contains_iff w eq(1) by (metis append_Cons)
  with assms(2) show False by simp
qed

lemma section_end_next:
  assumes "safe_text w"
  shows "section_end (w @ nl # ''### Rules on `'' @ z) = length w"
proof -
  define s where "s = w @ nl # ''### Rules on `'' @ z"
  have first: "str_index s (nl # ''### '') = Some (length w)"
    using mark_after [of "''### ''" w "''### Rules on `'' @ z"] safe_no_marks [OF assms]
    unfolding s_def by (intro str_index_eq [where v = "''Rules on `'' @ z"]) auto
  have rest: "case str_index s (nl # q) of Some j \<Rightarrow> \<not> j < length w | None \<Rightarrow> True" if "q \<in> {''## '', ''# ''}" for q
  proof (cases "str_index s (nl # q)")
    case (Some j)
    obtain u v where uv: "s = u @ (nl # q) @ v" "length u = j" using str_index_Some [OF Some] by blast
    have "nl \<notin> set q" "\<not> str_contains w (nl # q)" using that safe_no_marks [OF assms, of "nl # q"] by auto
    then have "length w \<le> length u"
      by (rule mark_after [of q w "''### Rules on `'' @ z" u v]) (use uv(1) in \<open>simp add: s_def\<close>)
    then show ?thesis by (simp add: Some uv(2))
  qed simp
  have "length w < length s" by (simp add: s_def)
  with rest [of "''## ''"] rest [of "''# ''"] have "section_end s = length w"
    by (simp add: section_end_def first split: option.splits)
  then show ?thesis by (simp add: s_def)
qed

section \<open>The blocks of the list\<close>

text \<open>The list as its headings split it: for each node its name and what is written under its heading.\<close>

abbreviation rule_mark :: string where "rule_mark \<equiv> ''### Rules on `''"

fun blocks :: "(string \<times> string) list \<Rightarrow> string" where
  "blocks [] = []"
| "blocks ((n, t) # bs) = rule_mark @ n @ tick @ t @ blocks bs"

definition good_block :: "string \<times> string \<Rightarrow> bool" where
  "good_block b \<longleftrightarrow> CHR ''`'' \<notin> set (fst b) \<and> safe_text (snd b) \<and> (\<exists>t. snd b = t @ [nl])"

definition read_back :: "string \<times> string \<Rightarrow> string \<times> string \<Rightarrow> bool" where
  "read_back b s \<longleftrightarrow> fst s = fst b \<and> (snd s = tick @ snd b \<or> snd s @ [nl] = tick @ snd b)"

lemma occurs_after:
  assumes "nl \<notin> set q" "\<not> str_contains p q" "p = [] \<or> last p = nl" "p @ z = u @ q @ v"
  shows "length p \<le> length u"
proof (rule ccontr)
  assume short: "\<not> length p \<le> length u"
  then obtain w where p: "p = u @ w" "w \<noteq> []" using assms(4) by (auto simp: append_eq_append_conv2)
  then have w: "w @ z = q @ v" "last w = nl" using assms(3,4) by auto
  show False
  proof (cases "length q \<le> length w")
    case True
    with w(1) have "w = q @ drop (length q) w" by (metis append_eq_conv_conj append_take_drop_id take_append append_Nil2 diff_is_0_eq take_eq_Nil)
    with p(1) assms(2) show False unfolding str_contains_iff by blast
  next
    case False
    then have "last w = q ! (length w - 1)" using w(1) p(2)
      by (metis append_eq_append_conv_if last_conv_nth nth_append diff_less length_greater_0_conv less_imp_le_nat linorder_not_le zero_less_one nth_take)
    moreover have "length w - 1 < length q" using False by simp
    ultimately show False using w(2) assms(1) by (metis nth_mem)
  qed
qed

lemma str_index_after:
  assumes "nl \<notin> set q" "\<not> str_contains p q" "p = [] \<or> last p = nl"
  shows "str_index (p @ q @ z) q = Some (length p)"
  by (rule str_index_eq) (auto intro: occurs_after [OF assms])

lemma str_contains_after:
  assumes "nl \<notin> set q" "\<not> str_contains p q" "p = [] \<or> last p = nl" "\<not> str_contains z q"
  shows "\<not> str_contains (p @ z) q"
proof
  assume "str_contains (p @ z) q"
  then obtain u v where eq: "p @ z = u @ q @ v" by (auto simp: str_contains_iff)
  have "length p \<le> length u" by (rule occurs_after [OF assms(1-3) eq])
  with eq have "z = drop (length p) u @ q @ v" by (simp add: append_eq_append_conv2 append_eq_conv_conj)
  with assms(4) show False by (auto simp: str_contains_iff)
qed

lemma sections_in_block:
  assumes "\<not> str_contains p rule_mark" "p = [] \<or> last p = nl" "CHR ''`'' \<notin> set n"
  shows "sections_in (p @ rule_mark @ n @ tick @ t) =
    (n, take (section_end (tick @ t)) (tick @ t)) #
    sections_in (drop (if section_end (tick @ t) = 0 then 1 else section_end (tick @ t)) (tick @ t))"
proof -
  have "str_index (p @ rule_mark @ n @ tick @ t) rule_mark = Some (length p)"
    by (rule str_index_after) (use assms in auto)
  moreover have "str_index (n @ tick @ t) tick = Some (length n)"
    by (rule str_index_eq [where v = t]) (use assms(3) in \<open>auto simp: append_eq_append_conv2 append_eq_Cons_conv\<close>)
  ultimately show ?thesis by (subst sections_in.simps) (simp add: Let_def)
qed

lemma sections_in_none: "\<not> str_contains p rule_mark \<Longrightarrow> sections_in p = []"
  by (subst sections_in.simps) (simp add: str_index_None [THEN iffD2])

lemma sections_in_blocks:
  assumes "\<not> str_contains p rule_mark" "p = [] \<or> last p = nl" "list_all good_block bs"
  shows "list_all2 read_back bs (sections_in (p @ blocks bs))"
  using assms
proof (induction bs arbitrary: p rule: blocks.induct)
  case 1
  then show ?case by (simp add: sections_in_none)
next
  case (2 n t bs)
  then obtain t' where good: "CHR ''`'' \<notin> set n" "safe_text t" "t = t' @ [nl]" "list_all good_block bs"
    unfolding list.pred_inject(2) good_block_def [of "(n, t)"] by auto
  note step = sections_in_block [OF 2(2,3) good(1), of "t @ blocks bs"]
  show ?case
  proof (cases bs)
    case Nil
    have "section_end (tick @ t) = length (tick @ t)"
      by (rule section_end_all) (simp add: safe_text_rest good(2))
    moreover have "sections_in [] = []" by (rule sections_in_none) (simp add: str_contains.simps has_prefix_def)
    ultimately show ?thesis using step Nil by (simp add: read_back_def)
  next
    case (Cons b bs')
    obtain m s where b: "b = (m, s)" by (cases b)
    have rest: "tick @ t @ blocks bs = (tick @ t') @ nl # rule_mark @ m @ tick @ s @ blocks bs'"
      by (simp add: Cons b good(3))
    have safe: "safe_text (tick @ t')" using good(2) unfolding good(3) by (simp add: safe_text_rest)
    have e: "section_end (tick @ t @ blocks bs) = length (tick @ t')"
      unfolding rest by (rule section_end_next [OF safe])
    have "list_all2 read_back bs (sections_in ([nl] @ blocks bs))"
      by (rule 2(1)) (use good(4) in \<open>simp_all add: str_contains.simps has_prefix_def\<close>)
    moreover have "drop (length (tick @ t')) (tick @ t @ blocks bs) = [nl] @ blocks bs" by (simp add: good(3))
    moreover have "take (length (tick @ t')) (tick @ t @ blocks bs) = tick @ t'" by (simp add: good(3))
    moreover have "read_back (n, t) (n, tick @ t')" by (simp add: read_back_def good(3))
    ultimately show ?thesis using step e by simp
  qed
qed

section \<open>The section as blocks\<close>

abbreviation same_node :: "CELRule \<Rightarrow> CELRule \<Rightarrow> bool" where "same_node r r' \<equiv> ru_Node r' = ru_Node r"

definition under_heading :: "(string \<Rightarrow> string) \<Rightarrow> string list \<Rightarrow> CELRule \<Rightarrow> CELRule list \<Rightarrow> string" where
  "under_heading uni heads r rs = para @
     (case nearestSection uni (ru_Node r) heads of (target, label) \<Rightarrow>
        if target \<noteq> [] then ''[Fields of `'' @ label @ ''`](#'' @ target @ '')'' @ para else []) @
     concat (map rule_body (r # rs))"

lemma under_heading_bodies: "\<exists>a. under_heading uni heads r rs = a @ concat (map rule_body (r # rs))"
  unfolding under_heading_def append.assoc [symmetric] by (rule exI, rule refl)

function node_blocks :: "(string \<Rightarrow> string) \<Rightarrow> string list \<Rightarrow> CELRule list \<Rightarrow> (string \<times> string) list" where
  "node_blocks uni heads [] = []"
| "node_blocks uni heads (r # rs) =
     (ru_Node r, under_heading uni heads r (takeWhile (same_node r) rs)) # node_blocks uni heads (dropWhile (same_node r) rs)"
  by pat_completeness auto
termination
  by (relation "measure (\<lambda>(_, _, rs). length rs)") (auto simp: le_imp_less_Suc length_dropWhile_le)

lemma render_rules_same:
  "render_rules uni heads n rs = concat (map rule_body (takeWhile (\<lambda>r. ru_Node r = n) rs)) @ render_rules uni heads n (dropWhile (\<lambda>r. ru_Node r = n) rs)"
  by (induction rs) auto

lemma render_rules_blocks:
  "(\<forall>r rs'. rs = r # rs' \<longrightarrow> ru_Node r \<noteq> n) \<Longrightarrow> render_rules uni heads n rs = blocks (node_blocks uni heads rs)"
proof (induction uni heads rs arbitrary: n rule: node_blocks.induct)
  case (2 uni heads r rs)
  have rest: "render_rules uni heads (ru_Node r) (dropWhile (same_node r) rs) = blocks (node_blocks uni heads (dropWhile (same_node r) rs))"
    by (rule 2(1)) (auto simp: dropWhile_eq_Cons_conv)
  show ?case
    using 2(2) render_rules_same [of uni heads "ru_Node r" rs] rest
    by (simp add: node_opening_def celHeading_def under_heading_def split: prod.split)
qed simp

lemma sorted_contiguous:
  "sorted (map (node_key \<circ> ru_Node) (r # rs)) \<Longrightarrow> r' \<in> set (dropWhile (same_node r) rs) \<Longrightarrow> ru_Node r' \<noteq> ru_Node r"
proof (induction rs)
  case (Cons x rs)
  show ?case
  proof (cases "same_node r x")
    case True
    with Cons show ?thesis by simp
  next
    case False
    with Cons.prems(1) have "node_key (ru_Node r) < node_key (ru_Node x)"
      by (auto simp: node_key_def order.strict_iff_order)
    moreover have "node_key (ru_Node x) \<le> node_key (ru_Node r')" if "r' \<in> set (x # rs)"
      using Cons.prems(1) that by auto
    moreover have "r' \<in> set (x # rs)" using Cons.prems(2) False by simp
    ultimately show ?thesis by auto
  qed
qed simp

lemma sorted_dropWhile: "sorted (map f (r # rs)) \<Longrightarrow> sorted (map f (dropWhile P rs))"
  by (induction rs) auto

lemma node_blocks_names: "fst ` set (node_blocks uni heads rs) \<subseteq> ru_Node ` set rs"
  by (induction uni heads rs rule: node_blocks.induct) (auto dest: set_dropWhileD)

lemma node_blocks_distinct:
  "sorted (map (node_key \<circ> ru_Node) rs) \<Longrightarrow> distinct (map fst (node_blocks uni heads rs))"
proof (induction uni heads rs rule: node_blocks.induct)
  case (2 uni heads r rs)
  have "ru_Node r \<notin> fst ` set (node_blocks uni heads (dropWhile (same_node r) rs))"
  proof
    assume "ru_Node r \<in> fst ` set (node_blocks uni heads (dropWhile (same_node r) rs))"
    then have "ru_Node r \<in> ru_Node ` set (dropWhile (same_node r) rs)" using node_blocks_names by (rule set_rev_mp)
    then show False using sorted_contiguous [OF 2(2)] by (metis imageE)
  qed
  with 2(1) [OF sorted_dropWhile [OF 2(2)]] show ?case by simp
qed simp

text \<open>Every rule is written under its node.\<close>

lemma node_blocks_rule:
  "r \<in> set rs \<Longrightarrow> \<exists>u v. (ru_Node r, u @ rule_body r @ v) \<in> set (node_blocks uni heads rs)"
proof (induction uni heads rs rule: node_blocks.induct)
  case (2 uni heads r0 rs)
  show ?case
  proof (cases "r \<in> set (r0 # takeWhile (same_node r0) rs)")
    case True
    then have same: "ru_Node r = ru_Node r0" by (auto dest: set_takeWhileD)
    obtain xs ys where "r0 # takeWhile (same_node r0) rs = xs @ r # ys" using split_list [OF True] by blast
    then have "concat (map rule_body (r0 # takeWhile (same_node r0) rs)) = concat (map rule_body xs) @ rule_body r @ concat (map rule_body ys)"
      by (simp only: map_append concat_append list.map concat.simps)
    moreover obtain a where "under_heading uni heads r0 (takeWhile (same_node r0) rs) = a @ concat (map rule_body (r0 # takeWhile (same_node r0) rs))"
      using under_heading_bodies by blast
    ultimately have "\<exists>u v. under_heading uni heads r0 (takeWhile (same_node r0) rs) = u @ rule_body r @ v"
      by (metis append.assoc)
    then show ?thesis unfolding node_blocks.simps same by (metis list.set_intros(1))
  next
    case False
    then have "r \<in> set (dropWhile (same_node r0) rs)"
      using 2(2) by (metis Un_iff set_append takeWhile_dropWhile_id set_ConsD list.set_intros)
    from 2(1) [OF this] show ?thesis by auto
  qed
qed simp

section \<open>The generator passes its gate\<close>

text \<open>A rule whose parts are each on lines of their own: no heading in the CEL text, one line for everything else.\<close>

definition plain_rule :: "CELRule \<Rightarrow> bool" where
  "plain_rule r \<longleftrightarrow> ru_Node r \<noteq> [] \<and> CHR ''`'' \<notin> set (ru_Node r) \<and> nl \<notin> set (ru_Node r) \<and>
     safe_text (ru_Rule r) \<and> nl \<notin> set (ru_Reason r) \<and> nl \<notin> set (ru_FieldPath r)"

lemma message_line: "nl \<notin> set (renderedMessage msg)"
  by (induction msg) (auto simp: renderedMessage_escape escapeMD_bytes one_line_map escape_byte_def)

lemma join_line: "\<forall>x \<in> set xs. nl \<notin> set x \<Longrightarrow> nl \<notin> set sep \<Longrightarrow> nl \<notin> set (join sep xs)"
  by (cases xs) (auto simp: join_def)

lemma rule_body_safe: "plain_rule r \<Longrightarrow> safe_text (rule_body r @ t) \<longleftrightarrow> safe_text t"
  using message_line [of "ru_Message r"]
  by (simp add: rule_body_def Let_def plain_rule_def rest_lines_append join_line)

lemma bodies_safe: "list_all plain_rule rs \<Longrightarrow> safe_text (concat (map rule_body rs))"
  by (induction rs) (simp_all add: rule_body_safe)

lemma rule_body_last: "rule_body r \<noteq> [] \<and> last (rule_body r) = nl"
  by (simp add: rule_body_def Let_def)

lemma bodies_last: "last (concat (map rule_body (r # rs))) = nl"
proof (induction rs arbitrary: r)
  case (Cons x rs)
  then show ?case using rule_body_last [of x] by simp
qed (simp add: rule_body_last)

lemma anchor_line: "nl \<notin> set (anchor uni n)"
  by (auto simp: anchor_def anchor_keeps_def)

lemma nearestSection_line:
  "nl \<notin> set n \<Longrightarrow> nl \<notin> set (fst (nearestSection uni n heads)) \<and> nl \<notin> set (snd (nearestSection uni n heads))"
proof (induction uni n heads rule: nearestSection.induct)
  case (1 uni n heads)
  have "nl \<notin> set (up_node n)"
    using 1(2) by (auto simp: up_node_def dest!: in_set_dropD set_dropWhileD)
  with 1 show ?case by (subst nearestSection.simps, subst nearestSection.simps) (auto simp: anchor_line)
qed

lemma node_blocks_good: "list_all plain_rule rs \<Longrightarrow> list_all good_block (node_blocks uni heads rs)"
proof (induction uni heads rs rule: node_blocks.induct)
  case (2 uni heads r rs)
  define ts where "ts = takeWhile (same_node r) rs"
  have plain: "plain_rule r" "list_all plain_rule (r # ts)" "list_all plain_rule (dropWhile (same_node r) rs)"
    using 2(2) by (auto simp: ts_def list_all_iff dest: set_takeWhileD set_dropWhileD)
  obtain target label where near: "nearestSection uni (ru_Node r) heads = (target, label)" by (cases "nearestSection uni (ru_Node r) heads")
  then have "nl \<notin> set target" "nl \<notin> set label"
    using nearestSection_line [of "ru_Node r" uni heads] plain(1) by (simp_all add: plain_rule_def)
  then have safe: "safe_text (under_heading uni heads r ts)"
    using bodies_safe [OF plain(2)] by (simp add: under_heading_def near rest_lines_append del: concat.simps list.map)
  have "concat (map rule_body (r # ts)) \<noteq> []" using rule_body_last by simp
  then have "under_heading uni heads r ts \<noteq> []" "last (under_heading uni heads r ts) = nl"
    using bodies_last [of r ts] by (simp_all add: under_heading_def del: concat.simps list.map split: prod.split)
  then have "under_heading uni heads r ts = butlast (under_heading uni heads r ts) @ [nl]"
    by (metis append_butlast_last_id)
  with safe 2(1) [OF plain(3)] plain(1) show ?case
    by (auto simp: good_block_def plain_rule_def simp flip: ts_def)
qed simp

text \<open>The opening holds the one census there is.\<close>

lemma digits_take: "takeWhile is_digit (dec n @ CHR '' '' # s) = dec n"
  using dec_digits [of _ n] by (subst takeWhile_append2) (auto simp: is_digit_def)

lemma census_at_census: "census_at (census a b @ s) = Some (dec a, dec b, s)"
proof -
  define mid where "mid = '' `x-kubernetes-validations` rules in the CRD, on all ''"
  define tail where "tail = '' schema nodes''"
  have eq: "census a b @ s = ''All '' @ dec a @ mid @ dec b @ tail @ s" by (simp add: census_def mid_def tail_def)
  have first: "drop 4 (census a b @ s) = dec a @ mid @ dec b @ tail @ s" by (simp add: eq)
  have a: "takeWhile is_digit (dec a @ mid @ u) = dec a" for u unfolding mid_def by (simp add: digits_take)
  have b: "takeWhile is_digit (dec b @ tail @ u) = dec b" for u unfolding tail_def by (simp add: digits_take)
  have second: "drop (4 + length (dec a)) (census a b @ s) = mid @ dec b @ tail @ s"
    unfolding drop_drop [symmetric] add.commute [of 4] first by simp
  have third: "drop (length mid + length (dec b)) (mid @ dec b @ tail @ s) = tail @ s"
    unfolding drop_drop [symmetric] add.commute [of "length mid"] by simp
  have "has_prefix (census a b @ s) ''All ''" by (simp add: eq has_prefix_def)
  moreover have "has_prefix (u @ v) u" for u v :: string by (simp add: has_prefix_def)
  ultimately show ?thesis
    unfolding census_at_def Let_def mid_def [symmetric] tail_def [symmetric] first a second
    by (simp add: b third dec_nonempty)
qed

lemma censuses_none: "\<not> str_contains s ''All '' \<Longrightarrow> censuses s = []"
proof (induction s)
  case Nil
  then show ?case by (subst censuses.simps) (simp add: census_at_def has_prefix_def)
next
  case (Cons c s)
  have "census_at (c # s) = None" using Cons.prems by (subst (asm) str_contains.simps) (simp add: census_at_def Let_def split: if_splits)
  moreover have "\<not> str_contains s ''All ''" using Cons.prems by (subst (asm) str_contains.simps) (simp split: if_splits)
  ultimately show ?case using Cons.IH by (subst censuses.simps) simp
qed

lemma cel_opening_no_census: "\<not> str_contains cel_opening ''All ''"
  by code_simp

lemma cel_opening_facts:
  "safe_text cel_opening" "CHR ''#'' \<notin> set cel_opening" "cel_opening = butlast cel_opening @ [nl]"
  by code_simp+

lemma dec_line: "nl \<notin> set (dec n)" "CHR ''#'' \<notin> set (dec n)"
  using dec_digits [of nl n] dec_digits [of "CHR ''#''" n] by (auto simp: is_digit_def)

definition cel_census :: "CELRule list \<Rightarrow> string" where
  "cel_census rules = para @ census (length rules) (countNodes rules) @ cel_opening"

lemma cel_census_safe: "safe_text (cel_census rules)"
  by (simp add: cel_census_def census_def rest_lines_append dec_line safe_text_rest cel_opening_facts(1))

lemma cel_census_no_mark: "\<not> str_contains (cel_census rules) rule_mark"
proof
  assume "str_contains (cel_census rules) rule_mark"
  then have "CHR ''#'' \<in> set (cel_census rules)" by (auto simp: str_contains_iff)
  then show False by (simp add: cel_census_def census_def dec_line cel_opening_facts(2))
qed

lemma cel_census_split: "cel_census rules = (para @ census (length rules) (countNodes rules) @ butlast cel_opening) @ [nl]"
  unfolding cel_census_def append.assoc cel_opening_facts(3) [symmetric] by (rule refl)

lemma cel_census_butlast: "butlast (cel_census rules) = para @ census (length rules) (countNodes rules) @ butlast cel_opening"
  unfolding cel_census_split by (rule butlast_snoc)

lemma cel_census_last: "cel_census rules = butlast (cel_census rules) @ [nl]"
  unfolding cel_census_butlast by (rule cel_census_split)

lemma censuses_skip: "c \<noteq> CHR ''A'' \<Longrightarrow> censuses (c # s) = censuses s"
  by (subst censuses.simps) (simp add: census_at_def has_prefix_def)

lemma cel_census_count: "censuses (butlast (cel_census rules)) = [(dec (length rules), dec (countNodes rules))]"
proof -
  have "\<not> str_contains (butlast cel_opening) ''All ''"
    using cel_opening_no_census cel_opening_facts(3) by (metis str_contains_iff append.assoc)
  then have "censuses (census a b @ butlast cel_opening) = [(dec a, dec b)]" for a b
    by (subst censuses.simps) (simp add: census_at_census censuses_none)
  then show ?thesis unfolding cel_census_butlast by (simp add: censuses_skip)
qed

lemma contains_in_line: "b @ [nl] = x @ q @ nl # y \<Longrightarrow> str_contains b q"
  unfolding str_contains_iff by (metis append.assoc butlast.simps(2) butlast_append butlast_snoc list.distinct(1) append_is_Nil_conv)

lemma rule_body_parts:
  "\<exists>x y. rule_body r = x @ ru_Rule r @ nl # y" "\<exists>x y. rule_body r = x @ renderedMessage (ru_Message r) @ nl # y"
proof -
  let ?open = "''```cel'' @ [nl]" and ?mid = "nl # ''```'' @ para @ ''> ''"
  obtain z where z: "rule_body r = ?open @ ru_Rule r @ ?mid @ renderedMessage (ru_Message r) @ para @ z"
    by (simp add: rule_body_def Let_def)
  then have "rule_body r = (?open @ ru_Rule r @ ?mid) @ renderedMessage (ru_Message r) @ nl # [nl] @ z" by simp
  then show "\<exists>x y. rule_body r = x @ renderedMessage (ru_Message r) @ nl # y" by blast
  from z have "rule_body r = ?open @ ru_Rule r @ nl # ''```'' @ para @ ''> '' @ renderedMessage (ru_Message r) @ para @ z" by simp
  then show "\<exists>x y. rule_body r = x @ ru_Rule r @ nl # y" by blast
qed

text \<open>
  C37. The generator's own page passes. Whatever the tables before it, a page whose first part ends in a newline and holds
  neither heading of the list, and a CRD whose rules are plain, give a page the gate accepts: the two halves, what is
  written and what is looked for, agree on every rule, node, message and count.
\<close>

theorem rendered_rules_pass_the_gate:
  assumes "celRules crd \<noteq> []" "length (celRules crd) < 2 ^ 63" "list_all plain_rule (celRules crd)"
    and "front = [] \<or> last front = nl" "\<not> str_contains front celSectionHeading" "\<not> str_contains front ''### Rules on `''"
  shows "verifyEveryRuleIsPublished (front @ renderCELSection uni (celRules crd) tables) crd = None"
proof -
  let ?rules = "celRules crd"
  define bs where "bs = node_blocks uni (section_slugs uni tables) ?rules"
  obtain r rs where rules: "?rules = r # rs" using assms(1) by (cases ?rules) auto
  have good: "list_all good_block bs" unfolding bs_def by (rule node_blocks_good [OF assms(3)])
  have "ru_Node r \<noteq> []" using assms(3) by (simp add: rules plain_rule_def)
  then have rendered: "renderCELSection uni ?rules tables = celSectionHeading @ cel_census ?rules @ blocks bs"
    unfolding renderCELSection_def cel_census_def bs_def
    by (subst render_rules_blocks) (simp_all add: rules)
  define page where "page = front @ celSectionHeading @ cel_census ?rules @ blocks bs"
  obtain m t bs' where bs: "bs = (m, t) # bs'" unfolding bs_def rules by (metis node_blocks.simps(2))
  \<comment> \<open>the census\<close>
  have "str_index page celSectionHeading = Some (length front)"
    unfolding page_def by (rule str_index_after) (use assms(4,5) in auto)
  moreover have "section_end (cel_census ?rules @ blocks bs) = length (butlast (cel_census ?rules))"
    using section_end_next [of "butlast (cel_census ?rules)" "m @ tick @ t @ blocks bs'"] cel_census_safe [of ?rules]
      safe_text_nl(1) [of "butlast (cel_census ?rules)" "[]"] cel_census_last [of ?rules]
    by (metis append.assoc append_Cons append_Nil blocks.simps(2) bs)
  moreover have "drop (length front + length celSectionHeading) page = cel_census ?rules @ blocks bs"
    by (simp add: page_def)
  moreover have "take (length (butlast (cel_census ?rules))) (cel_census ?rules @ blocks bs) = butlast (cel_census ?rules)"
    by (simp add: butlast_conv_take)
  ultimately have scope: "censusScope page = Some (butlast (cel_census ?rules))"
    by (simp add: censusScope_def Let_def)
  have "countNodes ?rules \<le> length ?rules"
    using length_remdups_leq [of "map ru_Node ?rules"] by (simp add: countNodes_def)
  then have atoi: "Atoi (dec (length ?rules)) = Some (int (length ?rules))" "Atoi (dec (countNodes ?rules)) = Some (int (countNodes ?rules))"
    using assms(2) by (simp_all add: Atoi_dec)
  \<comment> \<open>the rules\<close>
  define head where "head = front @ celSectionHeading @ cel_census ?rules"
  have "\<not> str_contains head rule_mark"
    unfolding head_def
  proof (rule str_contains_after)
    have split: "celSectionHeading @ cel_census ?rules = (celSectionHeading @ [nl]) @ tl (cel_census ?rules)"
      by (simp add: cel_census_def)
    have rest: "\<not> str_contains (tl (cel_census ?rules)) rule_mark"
      using cel_census_no_mark [of ?rules] by (metis append_Cons cel_census_def list.sel(3) str_contains_iff)
    have "\<not> str_contains (celSectionHeading @ [nl]) rule_mark" by (simp add: str_contains.simps has_prefix_def)
    from this rest show "\<not> str_contains (celSectionHeading @ cel_census ?rules) rule_mark"
      unfolding split by (intro str_contains_after [where p = "celSectionHeading @ [nl]"]) (assumption | simp)+
  qed (use assms(4,6) in simp_all)
  moreover have "last head = nl" unfolding head_def by (subst cel_census_last) simp
  ultimately have sections: "list_all2 read_back bs (sections_in page)"
    using sections_in_blocks [of head bs] good by (simp add: page_def head_def)
  then have names: "map fst (sections_in page) = map fst bs"
    by (induction rule: list_all2_induct) (simp_all add: read_back_def)
  have distinct: "distinct (map fst (sections_in page))"
    unfolding names bs_def by (rule node_blocks_distinct) (simp add: celRules_def)
  have "rule_published (ruleSections page) x" if x: "x \<in> set ?rules" for x
  proof -
    obtain u v where "(ru_Node x, u @ rule_body x @ v) \<in> set bs" using node_blocks_rule [OF x, of uni "section_slugs uni tables"] unfolding bs_def by blast
    with sections obtain body where body: "(ru_Node x, body) \<in> set (sections_in page)"
        "body = tick @ u @ rule_body x @ v \<or> body @ [nl] = tick @ u @ rule_body x @ v"
      by (auto simp: list_all2_conv_all_nth in_set_conv_nth read_back_def) (metis prod.collapse fst_conv snd_conv)
    have "ruleSections page (ru_Node x) = Some body"
      unfolding ruleSections_def by (rule map_of_is_SomeI) (use body(1) distinct in \<open>simp_all add: rev_map [symmetric]\<close>)
    moreover have "str_contains body q" if "rule_body x = a @ q @ nl # b" for a q b
      using body(2) contains_in_line [of body "tick @ u @ a" q "b @ v"] unfolding that str_contains_iff
      by (metis append.assoc append_Cons)
    then have "str_contains body (ru_Rule x)" "str_contains body (renderedMessage (ru_Message x))"
      using rule_body_parts [of x] by metis+
    ultimately show ?thesis by (simp add: rule_published_def)
  qed
  with scope atoi cel_census_count assms(1) show ?thesis
    unfolding rendered page_def [symmetric] verifyEveryRuleIsPublished_iff by (auto simp: list_all_iff)
qed

text \<open>A CRD with a rule at the root and one on the items of an array, as the tables leave out.\<close>

definition sample_leaf :: "ValidationRule list \<Rightarrow> schema option \<Rightarrow> (string \<times> schema) list \<Rightarrow> schema" where
  "sample_leaf vs item ps = Schema vs ps item [] None [] [] [] None"

definition sample_crd :: CRD where
  "sample_crd = \<lparr> crd_Kind = ''Agent'', crd_Schemas = [None, Some (sample_leaf
     [\<lparr> xv_Rule = ''has(self.spec)'', xv_Message = ''a < b & c'', xv_Reason = Some ''FieldValueInvalid'', xv_FieldPath = [] \<rparr>] None
     [(''tools'', sample_leaf [] (Some (sample_leaf
        [\<lparr> xv_Rule = ''self.a == 1'', xv_Message = ''one'' @ nl # ''two'', xv_Reason = None, xv_FieldPath = ''.a'' \<rparr>] None [])) [])])] \<rparr>"

lemma sample_crd_rules: "celRules sample_crd =
  [\<lparr> ru_Node = ''Agent'', ru_Rule = ''has(self.spec)'', ru_Message = ''a < b & c'', ru_Reason = ''FieldValueInvalid'', ru_FieldPath = [] \<rparr>,
   \<lparr> ru_Node = ''Agent.tools[index]'', ru_Rule = ''self.a == 1'', ru_Message = ''one'' @ nl # ''two'', ru_Reason = [], ru_FieldPath = ''.a'' \<rparr>]"
  by (simp add: celRules_def sample_crd_def sample_leaf_def collectRules.simps children_def one_child_def numbered_def rule_of_def node_key_def)

theorem rendered_rules_pass_the_gate_witness:
  "celRules sample_crd \<noteq> [] \<and>
   verifyEveryRuleIsPublished (''Fields'' @ nl # renderCELSection id (celRules sample_crd) ''## Agent'') sample_crd = None"
proof -
  have "verifyEveryRuleIsPublished ((''Fields'' @ [nl]) @ renderCELSection id (celRules sample_crd) ''## Agent'') sample_crd = None"
    by (rule rendered_rules_pass_the_gate [where uni = id])
      (simp_all add: sample_crd_rules plain_rule_def safe_text_def safe_line_def has_prefix_def str_contains.simps)
  then show ?thesis by (simp add: sample_crd_rules)
qed

end
