(* ===== verification/Condition_Reference.thy ===== *)
theory Condition_Reference
  imports Reason_Vocabulary Crd_Rules
begin

text \<open>
  The page of conditions and reasons (\<^verbatim>\<open>internal/refgen/conditions.go\<close>) and the scan of the tests that name a reason
  (\<^verbatim>\<open>pinning.go\<close>): the annotations and the join that holds them to the code, and the page from both. The parsed
  annotation file and the files of the test trees are arguments. The long paragraphs of the page are a tag with the
  values in them, its headings, tables and lists are as written.

  Shown: the join accepts exactly the annotations that describe the reasons of the code, each once and completely;
  and a page that is written has a section for every reason the operator can set, and no dead link.
\<close>

section \<open>Annotations\<close>

record Annotation =
  an_Reason :: string
  an_State :: string
  an_Operator :: string
  an_Traffic :: string
  an_Disagreement :: string
  an_Note :: string

abbreviation TrafficWithdrawn :: string where "TrafficWithdrawn \<equiv> ''withdrawn''"
abbreviation TrafficKept :: string where "TrafficKept \<equiv> ''not-withdrawn''"
abbreviation TrafficDepends :: string where "TrafficDepends \<equiv> ''depends''"
abbreviation TrafficUnknown :: string where "TrafficUnknown \<equiv> ''unknown''"

definition entry_problem :: "string \<Rightarrow> Annotation \<Rightarrow> string option" where
  "entry_problem reason e =
     (if trim_space (an_State e) = [] then Some (reason @ '': no `state`'')
      else if trim_space (an_Operator e) = [] then Some (reason @ '': no `operator`'')
      else if an_Traffic e \<notin> {TrafficWithdrawn, TrafficKept, TrafficDepends, TrafficUnknown}
      then Some (msgf ''traffic is not one of withdrawn/not-withdrawn/depends/unknown'' [reason, an_Traffic e])
      else if an_Traffic e = TrafficDepends \<and> trim_space (an_Note e) = []
      then Some (reason @ '': `traffic: depends` needs a `note` saying which arm is which'')
      else None)"

definition annotation_of :: "Annotation list \<Rightarrow> string \<Rightarrow> Annotation option" where
  "annotation_of es = map_of (rev (map (\<lambda>e. (an_Reason e, e)) es))"

fun repeated :: "string list \<Rightarrow> string list \<Rightarrow> string list" where
  "repeated seen [] = []"
| "repeated seen (x # xs) = (if x \<in> set seen then x # repeated seen xs else repeated (x # seen) xs)"

definition problem :: "string \<Rightarrow> string list \<Rightarrow> string list" where
  "problem tag xs = (if xs = [] then [] else [msgf tag xs])"

definition reason_names :: "Vocabulary \<Rightarrow> string list" where
  "reason_names v = map fst (vo_ReasonsByName v)"

definition loadAnnotations :: "Vocabulary \<Rightarrow> string + Annotation list \<Rightarrow> string + Annotation list" where
  "loadAnnotations v parsed = (case parsed of
     Inl e \<Rightarrow> Inl (msgf ''parse internal/refgen/reasons.yaml'' [e])
   | Inr es \<Rightarrow>
       (let missing = filter (\<lambda>r. annotation_of es r = None) (reason_names v);
            bad = List.map_filter (\<lambda>r. case annotation_of es r of None \<Rightarrow> None | Some e \<Rightarrow> entry_problem r e) (reason_names v);
            extra = filter (\<lambda>r. r \<notin> set (reason_names v)) (remdups (map an_Reason es));
            dupes = repeated [] (map an_Reason es);
            problems = problem ''reasons the operator can set that are not described'' (sort missing) @
              problem ''reasons described that no code path sets'' (sort extra) @
              problem ''duplicate entries'' (sort dupes) @ problem ''incomplete entries'' (sort bad) in
        if problems \<noteq> [] then Inl (msgf ''reasons.yaml and internal/controller disagree'' problems) else Inr es))"

section \<open>Tests that name a reason\<close>

text \<open>A file of a test tree: the tree, the directories below it, its name and what it holds.\<close>

record tree_file =
  tf_tree :: string
  tf_dirs :: "string list"
  tf_name :: string
  tf_body :: string

definition tf_path :: "tree_file \<Rightarrow> string" where
  "tf_path f = join ''/'' (tf_tree f # tf_dirs f @ [tf_name f])"

definition testTrees :: "string list" where
  "testTrees = [''internal'', ''api'', ''test'']"

definition scanned :: "tree_file \<Rightarrow> bool" where
  "scanned f \<longleftrightarrow> tf_tree f \<in> set testTrees \<and> ''testdata'' \<notin> set (tf_dirs f) \<and>
     \<not> (tf_tree f = ''internal'' \<and> take 1 (tf_dirs f) = [''refgen'']) \<and>
     has_suffix (tf_name f) ''.go'' \<and> (tf_tree f = ''test'' \<or> has_suffix (tf_name f) ''_test.go'')"

text \<open>A word boundary between two bytes, or at the end of the text.\<close>

definition word_at :: "char option \<Rightarrow> bool" where
  "word_at c = (case c of None \<Rightarrow> False | Some x \<Rightarrow> word_char x)"

definition first_byte :: "string \<Rightarrow> char option" where
  "first_byte s = (case s of [] \<Rightarrow> None | c # _ \<Rightarrow> Some c)"

fun names_word :: "char option \<Rightarrow> string \<Rightarrow> string \<Rightarrow> bool" where
  "names_word before q s = ((has_prefix s q \<and> word_at before \<noteq> word_at (first_byte s) \<and>
       word_at (if q = [] then before else Some (last q)) \<noteq> word_at (first_byte (drop (length q) s))) \<or>
     (case s of [] \<Rightarrow> False | c # s' \<Rightarrow> names_word (Some c) q s'))"

declare names_word.simps [simp del]

definition const_of :: "Vocabulary \<Rightarrow> string \<Rightarrow> ReasonConst option" where
  "const_of v r = find (\<lambda>rc. rc_Value rc = r) (rev (vo_ReasonConsts v))"

definition ident_of :: "Vocabulary \<Rightarrow> string \<Rightarrow> string" where
  "ident_of v r = (case const_of v r of None \<Rightarrow> [] | Some rc \<Rightarrow> rc_Ident rc)"

definition mentions :: "Vocabulary \<Rightarrow> string \<Rightarrow> string \<Rightarrow> bool" where
  "mentions v r body \<longleftrightarrow> names_word None r body \<or> ident_of v r \<noteq> [] \<and> names_word None (ident_of v r) body"

definition ScanTestReferences :: "Vocabulary \<Rightarrow> tree_file list \<Rightarrow> string \<Rightarrow> string list" where
  "ScanTestReferences v fs r = (if r \<in> set (reason_names v)
     then sort (map tf_path (filter (\<lambda>f. mentions v r (tf_body f)) (sort_key tf_path (filter scanned fs)))) else [])"

section \<open>The page\<close>

definition dash :: string where "dash = [CHR 0xE2, CHR 0x80, CHR 0x94]"
definition mid_dot :: string where "mid_dot = [CHR 0xC2, CHR 0xB7]"

definition ticked :: "string \<Rightarrow> string" where
  "ticked s = ''`'' @ s @ ''`''"

definition linked :: "(string \<Rightarrow> string) \<Rightarrow> string \<Rightarrow> string" where
  "linked uni s = ''['' @ ticked s @ ''](#'' @ anchor uni s @ '')''"

definition yesNo :: "bool \<Rightarrow> string" where
  "yesNo b = (if b then ''yes'' else ''no'')"

definition joinCode :: "string list \<Rightarrow> string" where
  "joinCode xs = join '', '' (map ticked xs)"

definition bulletsPlain :: "string list \<Rightarrow> string" where
  "bulletsPlain xs = rev (dropWhile (\<lambda>c. c = nl) (rev (concat (map (\<lambda>x. ''- '' @ ticked x @ [nl]) xs))))"

definition bullets :: "(string \<Rightarrow> string) \<Rightarrow> string list \<Rightarrow> string" where
  "bullets uni xs = rev (dropWhile (\<lambda>c. c = nl) (rev (concat (map (\<lambda>x. ''- '' @ linked uni x @ [nl]) xs))))"

definition trafficText :: "string \<Rightarrow> string" where
  "trafficText t =
     (if t = TrafficWithdrawn then msgf ''**withdrawn**'' []
      else if t = TrafficKept then msgf ''**not withdrawn**'' []
      else if t = TrafficDepends then msgf ''**depends on the arm**'' []
      else msgf ''**not established.**'' [])"

definition resolution_text :: "resolution \<Rightarrow> string" where
  "resolution_text r = (case r of ResolvedConstant \<Rightarrow> ''constant'' | ResolvedField \<Rightarrow> ''field'' | ResolvedLocal \<Rightarrow> ''local''
     | ResolvedCarried \<Rightarrow> ''carried'' | Unresolved \<Rightarrow> ''unresolved'')"

definition resolutionNote :: "Site \<Rightarrow> string" where
  "resolutionNote s = (case st_Resolution s of
     ResolvedConstant \<Rightarrow> ''constant at the call site''
   | ResolvedField \<Rightarrow>
       if st_FieldOpen s then msgf ''from a field whose writes did not all fold'' [ticked (st_Expr s), dec (length (st_Reasons s))]
       else msgf ''from one of the reasons that field can hold'' [ticked (st_Expr s), dec (length (st_Reasons s))]
   | ResolvedLocal \<Rightarrow>
       if length (st_Reasons s) = 1 then msgf ''from a local which folds to this one reason'' [ticked (st_Expr s)]
       else msgf ''from a local, one of the reasons it folds to'' [ticked (st_Expr s), dec (length (st_Reasons s))]
   | r \<Rightarrow> resolution_text r)"

definition phases_section :: "Vocabulary \<Rightarrow> string" where
  "phases_section v = ''## Phases'' @ para @ msgf ''status.phase is the one-word summary'' [] @ para @
     (if vo_PhaseDoc v \<noteq> [] then vo_PhaseDoc v @ para else []) @
     join ('' '' @ mid_dot @ '' '') (map (\<lambda>p. ticked (no_Value p)) (vo_Phases v)) @ para @
     concat (map (\<lambda>p. if no_Doc p \<noteq> [] then ''- '' @ ticked (no_Value p) @ '' '' @ dash @ '' '' @ no_Doc p @ [nl] else []) (vo_Phases v)) @ [nl]"

definition condition_row :: "(string \<Rightarrow> string) \<Rightarrow> ConditionType \<Rightarrow> string" where
  "condition_row uni c = ''| '' @ ticked (cd_Name c) @ '' | '' @
     (if cd_Sites c = [] then ''no'' else dec (length (cd_Sites c)) @ '' site(s)'') @ '' | '' @ yesNo (cd_Owned c) @ '' | '' @ yesNo (cd_Sticky c) @ '' | '' @
     (if cd_Reasons c = [] then dash else join '', '' (map (linked uni) (cd_Reasons c))) @ '' |'' @ [nl]"

definition types_section :: "(string \<Rightarrow> string) \<Rightarrow> Vocabulary \<Rightarrow> string" where
  "types_section uni v = ''## Condition types'' @ para @ msgf ''conditionsTableNote'' [] @ para @
     ''| Condition | Written here | Owned | Sticky | Reasons |'' @ [nl] @ ''|---|---|---|---|---|'' @ [nl] @
     concat (map (condition_row uni) (vo_Conditions v)) @ [nl] @
     (let documented = filter (\<lambda>c. cd_Doc c \<noteq> []) (vo_Conditions v) in
      if documented = [] then []
      else ''### What each type means'' @ para @ msgf ''the doc comment of each type, verbatim'' [] @ para @
        concat (map (\<lambda>c. ''- **'' @ ticked (cd_Name c) @ ''** '' @ dash @ '' '' @ cd_Doc c @ [nl]) documented) @ [nl]) @
     (let unwritten = map cd_Name (filter (\<lambda>c. cd_Sites c = []) (vo_Conditions v)) in
      if unwritten = [] then []
      else ''### Declared, and not written by this operator'' @ para @
        msgf ''have no call site'' [dec (length unwritten), dec (length (vo_Conditions v))] @ para @ bulletsPlain unwritten @ para)"

text \<open>The conditions and statuses a reason is written with, each pair once.\<close>

definition site_pairs :: "Site list \<Rightarrow> (string \<times> string) list" where
  "site_pairs ss = sort (remdups (map (\<lambda>s. (st_Condition s, st_Status s)) ss))"

definition reason_heading :: "string \<Rightarrow> string" where
  "reason_heading r = ''### '' @ ticked r"

definition reason_code :: "Vocabulary \<Rightarrow> string \<Rightarrow> string" where
  "reason_code v r = (let ss = entries_at (vo_ReasonsByName v) r in
     ''**Conditions:** '' @ join '', '' (map (\<lambda>(c, st). ticked (c @ ''='' @ (if st = [] then ''status computed at run time'' else st))) (site_pairs ss)) @ para @
     (case const_of v r of
        Some rc \<Rightarrow> ''**Constant:** '' @ ticked (rc_Ident rc) @ '' (`internal/controller/'' @ rc_File rc @ '':'' @ itoa (rc_Line rc) @ ''`)'' @ para @
          (if rc_Doc rc \<noteq> [] then ''> '' @ replace_all [nl] '' '' (rc_Doc rc) @ para else [])
      | None \<Rightarrow> ''**Constant:** none '' @ dash @ '' written as a string literal at the call site.'' @ para) @
     ''**Set at:**'' @ para @
     concat (map (\<lambda>s. ''- `internal/controller/'' @ st_File s @ '':'' @ itoa (st_Line s) @ ''` in `'' @ st_Func s @ ''()` '' @ dash @ '' '' @
       resolutionNote s @ [nl]) ss) @ [nl])"

definition the_annotation :: "Annotation list \<Rightarrow> string \<Rightarrow> Annotation" where
  "the_annotation es r = (case annotation_of es r of Some a \<Rightarrow> a
   | None \<Rightarrow> \<lparr> an_Reason = [], an_State = [], an_Operator = [], an_Traffic = [], an_Disagreement = [], an_Note = [] \<rparr>)"

definition reason_section :: "Vocabulary \<Rightarrow> Annotation list \<Rightarrow> (string \<Rightarrow> string list) \<Rightarrow> string \<Rightarrow> string" where
  "reason_section v es refs r = (let a = the_annotation es r in
     reason_heading r @ para @ reason_code v r @
     (if refs r = [] then msgf ''**Referenced by a test:** no'' [] @ para else ''**Referenced by a test:** '' @ joinCode (refs r) @ para) @
     ''**State:** '' @ an_State a @ para @ ''**What the operator does:** '' @ an_Operator a @ para @
     ''**Traffic:** '' @ trafficText (an_Traffic a) @ para @
     (if an_Disagreement a \<noteq> [] then ''**Code and design disagree:** '' @ an_Disagreement a @ para else []) @
     (if an_Note a \<noteq> [] then ''**Note:** '' @ an_Note a @ para else []))"

definition unreferenced_section :: "(string \<Rightarrow> string) \<Rightarrow> (string \<Rightarrow> string list) \<Rightarrow> string list \<Rightarrow> string" where
  "unreferenced_section uni refs reasons = (let unreferenced = filter (\<lambda>r. refs r = []) reasons in
     ''---'' @ para @ ''## Reasons no test in this repository names'' @ para @
     (if unreferenced = [] then msgf ''None'' [] @ para
      else msgf ''are named by no test file'' [dec (length unreferenced), dec (length reasons)] @ para @ bullets uni unreferenced @ para))"

definition count_of :: "Site list \<Rightarrow> resolution \<Rightarrow> string" where
  "count_of ss r = dec (length (filter (\<lambda>s. st_Resolution s = r) ss))"

definition honestyNote :: "(string \<Rightarrow> string) \<Rightarrow> Vocabulary \<Rightarrow> (string \<Rightarrow> string list) \<Rightarrow> Annotation list \<Rightarrow> string" where
  "honestyNote uni v refs es =
     (let ss = vo_Sites v; unresolved = filter (\<lambda>s. st_Resolution s = Unresolved) ss;
          live = filter (\<lambda>r. r \<in> set (reason_names v)) (remdups (map an_Reason es));
          having = (\<lambda>P. sort (filter (\<lambda>r. P (the_annotation es r)) live));
          unknown = having (\<lambda>a. an_Traffic a = TrafficUnknown); disagreements = having (\<lambda>a. an_Disagreement a \<noteq> []) in
      ''---'' @ para @ ''## Honesty notes'' @ para @
      msgf ''How each reason was resolved'' (map (count_of ss) [ResolvedConstant, ResolvedField, ResolvedLocal, ResolvedCarried, Unresolved]) @ para @
      (if unresolved \<noteq> [] then msgf ''Call sites this page could not resolve'' [] @ para @
         concat (map (\<lambda>s. ''- '' @ ticked (st_Condition s) @ '' at `internal/controller/'' @ st_File s @ '':'' @ itoa (st_Line s) @ ''` in `'' @ st_Func s @
           ''()` '' @ dash @ '' reason expression '' @ ticked (st_Expr s) @ [nl]) unresolved) @ [nl]
       else msgf ''Every call site resolved'' [] @ para) @
      (if unknown \<noteq> [] then msgf ''Traffic not established'' [dec (length unknown)] @ para @ bullets uni unknown @ para else []) @
      (if disagreements \<noteq> [] then msgf ''Where the code and a design disagree'' [dec (length disagreements)] @ para @ bullets uni disagreements @ para else []) @
      (if 0 < vo_CarrySites v then msgf ''Conditions re-asserted rather than decided'' [dec (vo_CarrySites v)] @ para else []) @
      (if vo_OpenFields v \<noteq> [] then msgf ''Reason sets that are not closed'' [dec (length (vo_OpenFields v))] @ para @ bulletsPlain (vo_OpenFields v) @ para
       else msgf ''Every reason set is closed'' [] @ para) @
      msgf ''Coverage of the test reference scan'' [dec (length (filter (\<lambda>r. refs r \<noteq> []) (reason_names v))), dec (length (reason_names v))] @ para)"

definition page_head :: "(string \<Rightarrow> string) \<Rightarrow> Vocabulary \<Rightarrow> string" where
  "page_head uni v =
     frontMatter ''Conditions and reasons'' (msgf ''Every condition the assayd operator writes'' []) @ msgf ''generatedNotice'' [] @ [nl] @
     msgf ''conditionsPreamble'' [dec (length (vo_Conditions v)), dec (length (vo_ReasonsByName v))] @ para @
     phases_section v @ types_section uni v @ ''## Reasons'' @ para @ msgf ''One section per reason string the operator can set'' [] @ para"

definition conditions_page :: "(string \<Rightarrow> string) \<Rightarrow> Vocabulary \<Rightarrow> Annotation list \<Rightarrow> (string \<Rightarrow> string list) \<Rightarrow> string" where
  "conditions_page uni v es refs =
     (let reasons = sort (reason_names v) in page_head uni v @
      concat (map (reason_section v es refs) reasons) @ unreferenced_section uni refs reasons @ honestyNote uni v refs es)"

definition renderConditions :: "(string \<Rightarrow> string) \<Rightarrow> yaml_parser \<Rightarrow> string + package list \<Rightarrow> string + Annotation list \<Rightarrow> tree_file list \<Rightarrow> string + string" where
  "renderConditions uni parse loaded parsed fs = (case ExtractVocabulary uni loaded of Inl e \<Rightarrow> Inl e | Inr v \<Rightarrow>
     (case loadAnnotations v parsed of Inl e \<Rightarrow> Inl e | Inr es \<Rightarrow>
        write_page uni parse ''conditions.md'' (conditions_page uni v es (ScanTestReferences v fs))))"

section \<open>The join\<close>

text \<open>An entry that answers what it has to.\<close>

definition complete_entry :: "Annotation \<Rightarrow> bool" where
  "complete_entry e \<longleftrightarrow> trim_space (an_State e) \<noteq> [] \<and> trim_space (an_Operator e) \<noteq> [] \<and>
     an_Traffic e \<in> {TrafficWithdrawn, TrafficKept, TrafficDepends, TrafficUnknown} \<and>
     (an_Traffic e = TrafficDepends \<longrightarrow> trim_space (an_Note e) \<noteq> [])"

lemma entry_problem_None: "entry_problem r e = None \<longleftrightarrow> complete_entry e"
  by (auto simp: entry_problem_def complete_entry_def)

lemma repeated_none: "repeated seen xs = [] \<longleftrightarrow> distinct xs \<and> set xs \<inter> set seen = {}"
  by (induction seen xs rule: repeated.induct) auto

lemma annotation_of_None: "annotation_of es r = None \<longleftrightarrow> r \<notin> set (map an_Reason es)"
  by (auto simp: annotation_of_def map_of_eq_None_iff image_image)

lemma annotation_of_Some: "distinct (map an_Reason es) \<Longrightarrow> annotation_of es r = Some e \<longleftrightarrow> e \<in> set es \<and> an_Reason e = r"
proof -
  assume "distinct (map an_Reason es)"
  then have "distinct (map fst (rev (map (\<lambda>e. (an_Reason e, e)) es)))" by (simp add: rev_map [symmetric] comp_def)
  then show ?thesis unfolding annotation_of_def by (auto simp: map_of_eq_Some_iff)
qed

lemma problem_none [simp]: "problem tag xs = [] \<longleftrightarrow> xs = []"
  by (simp add: problem_def)

lemma sort_none [simp]: "sort xs = [] \<longleftrightarrow> xs = []"
  by (metis set_empty set_sort)

lemma map_filter_none: "List.map_filter f xs = [] \<longleftrightarrow> (\<forall>x \<in> set xs. f x = None)"
  by (auto simp: map_filter_def filter_empty_conv)

lemma loadAnnotations_iff:
  "(\<exists>out. loadAnnotations v (Inr es) = Inr out) \<longleftrightarrow>
     distinct (map an_Reason es) \<and> set (map an_Reason es) = set (reason_names v) \<and> list_all complete_entry es"
proof -
  let ?bad = "\<lambda>r. case annotation_of es r of None \<Rightarrow> None | Some e \<Rightarrow> entry_problem r e"
  have "(\<exists>out. loadAnnotations v (Inr es) = Inr out) \<longleftrightarrow>
      (\<forall>r \<in> set (reason_names v). annotation_of es r \<noteq> None) \<and> (\<forall>r \<in> set (reason_names v). ?bad r = None) \<and>
      set (map an_Reason es) \<subseteq> set (reason_names v) \<and> distinct (map an_Reason es)"
    unfolding loadAnnotations_def Let_def sum.case
    by (auto simp: filter_empty_conv map_filter_none repeated_none)
  also have "\<dots> \<longleftrightarrow> distinct (map an_Reason es) \<and> set (map an_Reason es) = set (reason_names v) \<and> list_all complete_entry es"
    by (auto simp: annotation_of_None annotation_of_Some list_all_iff entry_problem_None split: option.split)
  finally show ?thesis .
qed

text \<open>
  C39. The join is exact. The annotations are accepted if and only if they describe the reasons of the code and no others, each
  once and completely.
\<close>

theorem loadAnnotations_exact:
  "(\<exists>out. loadAnnotations v (Inr es) = Inr out) \<longleftrightarrow>
     distinct (map an_Reason es) \<and> set (map an_Reason es) = set (reason_names v) \<and> list_all complete_entry es"
  by (rule loadAnnotations_iff)

section \<open>Every reason has its section\<close>

lemma headings_nl: "headings (a @ nl # b) = headings a @ headings b"
  by (simp add: headings_def split_on_nl List.map_filter_def)

lemma reason_heading_line: "nl \<notin> set r \<Longrightarrow> headings (reason_heading r) = [(3, ticked r)]"
  by (simp add: headings_def reason_heading_def ticked_def heading_match_def Let_def List.map_filter_simps)

lemma ends_nl: "last (reason_section v es refs r) = nl \<and> reason_section v es refs r \<noteq> []"
  by (simp add: reason_section_def Let_def)

lemma concat_ends: "p \<noteq> [] \<Longrightarrow> last p = nl \<Longrightarrow> last (p @ concat (map (reason_section v es refs) rs)) = nl"
proof (induction rs rule: rev_induct)
  case (snoc r rs)
  then show ?case using ends_nl [of v es refs r] by simp
qed simp

lemma reason_section_split: "\<exists>t. reason_section v es refs r = reason_heading r @ nl # t"
  by (simp add: reason_section_def Let_def)

lemma reason_section_in:
  assumes "r \<in> set rs" "p \<noteq> []" "last p = nl"
  shows "\<exists>a b. p @ concat (map (reason_section v es refs) rs) @ q = a @ nl # reason_heading r @ nl # b"
proof -
  obtain xs ys where rs: "rs = xs @ r # ys" using split_list [OF assms(1)] by blast
  obtain t where t: "reason_section v es refs r = reason_heading r @ nl # t" using reason_section_split by blast
  let ?before = "p @ concat (map (reason_section v es refs) xs)"
  have "last ?before = nl" using concat_ends [OF assms(2,3)] .
  then have before: "?before = butlast ?before @ [nl]" using assms(2) by (metis append_butlast_last_id append_is_Nil_conv)
  have "p @ concat (map (reason_section v es refs) rs) @ q =
      ?before @ reason_heading r @ nl # t @ concat (map (reason_section v es refs) ys) @ q"
    by (simp add: rs t)
  also have "\<dots> = butlast ?before @ nl # reason_heading r @ nl # t @ concat (map (reason_section v es refs) ys) @ q"
    by (subst before) simp
  finally show ?thesis by blast
qed

abbreviation crlf :: string where "crlf \<equiv> [CHR 0x0D, nl]"

lemma replace_crlf_nl: "replace_all crlf [nl] (x @ nl # y) = replace_all crlf [nl] (x @ [nl]) @ replace_all crlf [nl] y"
proof (induction x rule: length_induct)
  case (1 x)
  show ?case
  proof (cases x)
    case Nil
    then show ?thesis by (simp add: replace_all_miss has_prefix_def)
  next
    case (Cons c x')
    show ?thesis
    proof (cases "c = CHR 0x0D \<and> hd (x' @ [nl]) = nl")
      case False
      then have miss: "\<not> has_prefix (c # x' @ nl # y) crlf" "\<not> has_prefix (c # x' @ [nl]) crlf"
        by (cases x'; auto simp: has_prefix_def)+
      have "replace_all crlf [nl] (x' @ nl # y) = replace_all crlf [nl] (x' @ [nl]) @ replace_all crlf [nl] y"
        using 1 Cons by simp
      then show ?thesis using miss by (simp add: Cons replace_all_miss)
    next
      case True
      have hit: "replace_all crlf [nl] (CHR 0x0D # nl # z) = nl # replace_all crlf [nl] z" for z
        using replace_all_hit [of crlf "[nl]" z] by simp
      show ?thesis
      proof (cases x')
        case Nil
        with True Cons show ?thesis using hit [of "[]"] hit [of y] by simp
      next
        case (Cons d x'')
        with True have "x = CHR 0x0D # nl # x''" using \<open>x = c # x'\<close> by simp
        moreover from this have "replace_all crlf [nl] (x'' @ nl # y) = replace_all crlf [nl] (x'' @ [nl]) @ replace_all crlf [nl] y"
          using 1 by simp
        ultimately show ?thesis using hit by simp
      qed
    qed
  qed
qed

lemma replace_crlf_line: "CHR 0x0D \<notin> set h \<Longrightarrow> replace_all crlf [nl] (h @ nl # z) = h @ nl # replace_all crlf [nl] z"
  by (induction h) (auto simp: replace_all_miss has_prefix_def)

lemma replace_crlf_ends: "\<exists>z. replace_all crlf [nl] (x @ [nl]) = z @ [nl]"
proof (induction x rule: length_induct)
    case (1 x)
    show ?case
    proof (cases "has_prefix (x @ [nl]) crlf")
      case True
      then obtain z where z: "x @ [nl] = crlf @ z" by (auto simp: has_prefix_iff)
      then have hit: "replace_all crlf [nl] (x @ [nl]) = nl # replace_all crlf [nl] z" using replace_all_hit [of crlf "[nl]" z] by simp
      show ?thesis
      proof (cases "z = []")
        case True
        with hit show ?thesis by (intro exI [of _ "[]"]) simp
      next
        case False
        then obtain w where w: "z = w @ [nl]" using z by (metis append_butlast_last_id last_appendR last_snoc)
        then have "length w < length x" using arg_cong [OF z, of length] by simp
        then obtain t where "replace_all crlf [nl] (w @ [nl]) = t @ [nl]" using 1 by blast
        with hit w show ?thesis by (metis append_Cons)
      qed
    next
      case False
      show ?thesis
      proof (cases x)
        case Nil
        then show ?thesis by (simp add: replace_all_miss has_prefix_def)
      next
        case (Cons c x')
        then obtain t where "replace_all crlf [nl] (x' @ [nl]) = t @ [nl]" using 1 by auto
        with False Cons show ?thesis by (simp add: replace_all_miss)
      qed
    qed
qed

lemma heading_finished:
  assumes "nl \<notin> set h" "CHR 0x0D \<notin> set h"
  shows "set (headings h) \<subseteq> set (headings (finished_body (a @ nl # h @ nl # b)))"
proof -
  obtain z where z: "replace_all crlf [nl] (a @ [nl]) = z @ [nl]" using replace_crlf_ends by blast
  have "replace_all crlf [nl] (a @ nl # h @ nl # b) = z @ nl # h @ nl # replace_all crlf [nl] b"
    by (simp only: replace_crlf_nl [of a "h @ nl # b"] z replace_crlf_line [OF assms(2)] append_assoc append_Cons append_Nil)
  note finished = finished_body_def [of "a @ nl # h @ nl # b", unfolded Let_def this]
  have "\<exists>t. headings (finished_body (a @ nl # h @ nl # b)) = headings (z @ nl # h @ nl # t)"
  proof (cases "has_suffix (z @ nl # h @ nl # replace_all crlf [nl] b) [nl]")
    case True
    then show ?thesis unfolding finished wrapMarkdownTables_keeps_headings by (intro exI [of _ "replace_all crlf [nl] b"]) simp
  next
    case False
    then show ?thesis unfolding finished wrapMarkdownTables_keeps_headings by (intro exI [of _ "replace_all crlf [nl] b @ [nl]"]) simp
  qed
  then obtain t where "headings (finished_body (a @ nl # h @ nl # b)) = headings z @ headings h @ headings t"
    unfolding headings_nl by blast
  then show ?thesis by auto
qed

lemma conditions_page_heading:
  assumes "r \<in> set (reason_names v)" "nl \<notin> set r" "CHR 0x0D \<notin> set r"
  shows "(3, ticked r) \<in> set (headings (finished_body (conditions_page uni v es refs)))"
proof -
  have "\<exists>a b. conditions_page uni v es refs = a @ nl # reason_heading r @ nl # b" (is "\<exists>a b. ?eq a b")
    unfolding conditions_page_def Let_def
    by (rule reason_section_in) (use assms in \<open>simp_all add: page_head_def\<close>)
  then obtain a b where eq: "?eq a b" by blast
  have plain: "nl \<notin> set (reason_heading r)" "CHR 0x0D \<notin> set (reason_heading r)"
    using assms by (simp_all add: reason_heading_def ticked_def)
  show ?thesis using heading_finished [OF plain, of a b] unfolding eq reason_heading_line [OF assms(2)] by simp
qed

lemma loaded_annotations: "loadAnnotations v parsed = Inr es \<Longrightarrow> parsed = Inr es"
  by (auto simp: loadAnnotations_def Let_def split: sum.splits if_splits)

lemma entries_at_key: "x \<in> set (entries_at m k) \<Longrightarrow> k \<in> set (map fst m)"
  by (cases "map_of m k") (auto simp: entries_at_def dest: map_of_SomeD intro: rev_image_eqI)

lemma site_reason_named:
  assumes "ExtractVocabulary uni loaded = Inr v" "s \<in> set (vo_Sites v)" "r \<in> set (st_Reasons s)"
  shows "r \<in> set (reason_names v)"
  using extracted_reasons [OF assms(1), of r] assms(2,3) entries_at_key [of s "vo_ReasonsByName v" r] by (simp add: reason_names_def)

text \<open>
  C40. The page leaves no reason out. Once the annotations are accepted, every reason some site can set has one
  complete annotation and a section of its own on the finished page; and if the page is written, no two of its headings
  have one anchor and no link of it lands nowhere.
\<close>

theorem renderConditions_documents:
  assumes "ExtractVocabulary uni loaded = Inr v" "loadAnnotations v (Inr es) = Inr es"
    and "s \<in> set (vo_Sites v)" "r \<in> set (st_Reasons s)" "nl \<notin> set r" "CHR 0x0D \<notin> set r"
  shows "(3, ticked r) \<in> set (headings (finished_body (conditions_page uni v es (ScanTestReferences v fs)))) \<and>
    (\<exists>e. e \<in> set es \<and> an_Reason e = r \<and> complete_entry e) \<and>
    (renderConditions uni parse loaded (Inr es) fs = Inr page \<longrightarrow> (3, ticked r) \<in> set (headings page) \<and>
       distinct (page_slugs uni page) \<and> set (page_links uni page) \<subseteq> set (page_slugs uni page) \<union> set (page_ids uni page))"
proof (intro conjI impI)
  have r: "r \<in> set (reason_names v)" by (rule site_reason_named [OF assms(1,3,4)])
  show heading: "(3, ticked r) \<in> set (headings (finished_body (conditions_page uni v es (ScanTestReferences v fs))))"
    by (rule conditions_page_heading [OF r assms(5,6)])
  have "set (map an_Reason es) = set (reason_names v)" "list_all complete_entry es"
    using loadAnnotations_iff [of v es] assms(2) by blast+
  then show "\<exists>e. e \<in> set es \<and> an_Reason e = r \<and> complete_entry e" using r unfolding list_all_iff by (metis imageE set_map)
  assume "renderConditions uni parse loaded (Inr es) fs = Inr page"
  then have "write_page uni parse ''conditions.md'' (conditions_page uni v es (ScanTestReferences v fs)) = Inr page"
    using assms(1,2) by (simp add: renderConditions_def)
  note page = write_page_navigable [OF this]
  then show "(3, ticked r) \<in> set (headings page)" using heading by simp
  show "distinct (page_slugs uni page)" "set (page_links uni page) \<subseteq> set (page_slugs uni page) \<union> set (page_ids uni page)"
    using page by blast+
qed

definition sample_annotation :: "string \<Rightarrow> Annotation" where
  "sample_annotation r = \<lparr> an_Reason = r, an_State = ''a'', an_Operator = ''a'', an_Traffic = TrafficKept, an_Disagreement = [], an_Note = [] \<rparr>"

lemma sample_reasons:
  assumes "ExtractVocabulary id sample_load = Inr v" "vo_Sites v = sites id (drain_package\<lparr> pk_path := controllerPkg \<rparr>)"
  shows "set (reason_names v) = {''Drained'', ''Waiting''} \<and> (\<exists>s \<in> set (vo_Sites v). ''Waiting'' \<in> set (st_Reasons s))"
proof -
  have "map st_Reasons (vo_Sites v) = map snd (map (\<lambda>s. (st_Condition s, st_Reasons s)) (sites id (drain_package\<lparr> pk_path := controllerPkg \<rparr>)))"
    by (simp add: assms(2))
  then have sites: "map st_Reasons (vo_Sites v) = [[''Drained'', ''Waiting'']]" by (simp only: sample_sites list.map snd_conv)
  have "set (reason_names v) = set (concat (map st_Reasons (vo_Sites v)))"
    using extracted_sites [OF assms(1)] unfolding reason_names_def set_map by_reason_keys [symmetric] by metis
  with sites show ?thesis by (cases "vo_Sites v") auto
qed

lemma trim_one: "[c] \<notin> set spaces \<Longrightarrow> trim_space [c] = [c]"
proof -
  assume c: "[c] \<notin> set spaces"
  have spaces: "[] \<notin> set spaces" by (simp add: spaces_def space_bytes_def)
  have "has_prefix [c] w \<Longrightarrow> w = [] \<or> w = [c]" for w by (cases w) (auto simp: has_prefix_def)
  moreover have "has_suffix [c] w \<Longrightarrow> w = [] \<or> w = [c]" for w by (cases w) (auto simp: has_suffix_def)
  ultimately have "find (has_prefix [c]) spaces = None" "find (has_suffix [c]) spaces = None"
    using c spaces unfolding find_None_iff by blast+
  then show ?thesis
    by (simp add: trim_space_def trim_left_space.simps trim_right_space.simps leading_space_def trailing_space_def)
qed

lemma trim_sample: "trim_space ''a'' = ''a''"
  by (rule trim_one) code_simp

theorem renderConditions_documents_witness:
  "\<exists>v. ExtractVocabulary id sample_load = Inr v \<and>
     (3, ticked ''Waiting'') \<in> set (headings (finished_body (conditions_page id v (map sample_annotation [''Drained'', ''Waiting'']) (ScanTestReferences v []))))"
proof -
  obtain v where v: "ExtractVocabulary id sample_load = Inr v" "vo_Sites v = sites id (drain_package\<lparr> pk_path := controllerPkg \<rparr>)"
    using sample_vocabulary by blast
  from sample_reasons [OF v] obtain s where s: "s \<in> set (vo_Sites v)" "''Waiting'' \<in> set (st_Reasons s)"
    and names: "set (reason_names v) = {''Drained'', ''Waiting''}" by blast
  let ?es = "map sample_annotation [''Drained'', ''Waiting'']"
  have "list_all complete_entry ?es" by (simp add: complete_entry_def sample_annotation_def trim_sample)
  moreover have "map an_Reason ?es = [''Drained'', ''Waiting'']" by (simp add: sample_annotation_def)
  ultimately have "\<exists>out. loadAnnotations v (Inr ?es) = Inr out"
    unfolding loadAnnotations_iff using names by (simp only: list.set distinct.simps) simp
  then obtain out where "loadAnnotations v (Inr ?es) = Inr out" by blast
  then have "loadAnnotations v (Inr ?es) = Inr ?es" using loaded_annotations by fastforce
  then have "(3, ticked ''Waiting'') \<in> set (headings (finished_body (conditions_page id v ?es (ScanTestReferences v []))))"
    by (intro renderConditions_documents [OF v(1) _ s, THEN conjunct1]) simp_all
  with v(1) show ?thesis by blast
qed

end
