(* ===== verification/Chart_Values.thy ===== *)
theory Chart_Values
  imports Ref_Pages
begin

text \<open>
  The page of the chart's values (\<^verbatim>\<open>internal/refgen/values.go\<close>): the keys of \<^verbatim>\<open>values.yaml\<close> in file order, each with its
  default and the comments around it, and the table of what the local profile overrides. A file is the tree
  \<^verbatim>\<open>yaml.v3\<close> parses; the parser is not modelled. The page's opening paragraphs are a tag with their values.

  Shown: the list is exactly the keys of the file at every depth, and an entry of the index links to the section
  of its key, unless the key holds a character that Markdown drops from a heading.
\<close>

section \<open>The keys of a file\<close>

datatype ykind = ScalarNode | SequenceNode | MappingNode | OtherKind

datatype ynode = YNode
  (yn_kind: ykind)
  (yn_tag: string)
  (yn_value: string)
  (yn_head: string)
  (yn_line: string)
  (yn_content: "ynode list")

fun pairs :: "'a list \<Rightarrow> ('a \<times> 'a) list" where
  "pairs (k # v # r) = (k, v) # pairs r"
| "pairs _ = []"

lemma pairs_member: "(k, v) \<in> set (pairs xs) \<Longrightarrow> k \<in> set xs \<and> v \<in> set xs"
  by (induction xs rule: pairs.induct) auto

lemma content_size: "x \<in> set (yn_content n) \<Longrightarrow> size x < size n"
  using size_list_estimation' [of x "yn_content n" "size x" size] by (cases n) simp

fun renderScalar :: "ynode \<Rightarrow> string" where
  "renderScalar (YNode kind tag val head line content) = (case kind of
     ScalarNode \<Rightarrow> if tag = ''!!null'' \<or> val = [] then [quote, quote] else val
   | SequenceNode \<Rightarrow> if content = [] then ''[]'' else ''['' @ join '', '' (map renderScalar content) @ '']''
   | MappingNode \<Rightarrow> if content = [] then ''{}'' else [CHR ''{'', CHR 0xE2, CHR 0x80, CHR 0xA6, CHR ''}'']
   | OtherKind \<Rightarrow> [])"

text \<open>
  \<^verbatim>\<open>commentText\<close>: prose is joined to a paragraph, lines set further in are kept as code, and an empty line ends either.
\<close>

record comment_state =
  cs_paras :: "string list"
  cs_cur :: "string list"
  cs_code :: "string list"

definition flushText :: "comment_state \<Rightarrow> comment_state" where
  "flushText c = (if cs_cur c = [] then c else c\<lparr> cs_paras := cs_paras c @ [join '' '' (cs_cur c)], cs_cur := [] \<rparr>)"

definition flushCode :: "comment_state \<Rightarrow> comment_state" where
  "flushCode c = (if cs_code c = [] then c
     else c\<lparr> cs_paras := cs_paras c @ [fence @ [nl] @ join [nl] (cs_code c) @ [nl] @ fence], cs_code := [] \<rparr>)"

definition comment_line :: "string \<Rightarrow> comment_state \<Rightarrow> comment_state" where
  "comment_line raw c = (let line = trim_prefix (trim_space raw) ''#'' in
     if trim_space line = [] then flushCode (flushText c)
     else if has_prefix line ''   '' then (let c' = flushText c in c'\<lparr> cs_code := cs_code c' @ [trim_prefix line ''  ''] \<rparr>)
     else (let c' = flushCode c in c'\<lparr> cs_cur := cs_cur c' @ [trim_space line] \<rparr>))"

definition comment_group :: "string \<Rightarrow> comment_state \<Rightarrow> comment_state" where
  "comment_group g c = (if trim_space g = [] then c else flushCode (flushText (fold comment_line (split_on nl g) c)))"

definition commentText :: "string list \<Rightarrow> string" where
  "commentText groups = join [nl, nl] (cs_paras (fold comment_group groups \<lparr> cs_paras = [], cs_cur = [], cs_code = [] \<rparr>))"

record chart_value =
  cv_Path :: string
  cv_Default :: string
  cv_Doc :: string
  cv_Leaf :: bool
  cv_Depth :: nat
  cv_Children :: nat

definition nested :: "ynode \<Rightarrow> bool" where
  "nested v \<longleftrightarrow> yn_kind v = MappingNode \<and> yn_content v \<noteq> []"

definition key_path :: "string \<Rightarrow> ynode \<Rightarrow> string" where
  "key_path prefix k = (if prefix = [] then yn_value k else prefix @ ''.'' @ yn_value k)"

definition value_of :: "string \<Rightarrow> nat \<Rightarrow> ynode \<Rightarrow> ynode \<Rightarrow> chart_value" where
  "value_of prefix depth k v = \<lparr> cv_Path = key_path prefix k, cv_Default = renderScalar v,
     cv_Doc = commentText [yn_head k, yn_line k, yn_line v, yn_head v], cv_Leaf = (\<not> nested v), cv_Depth = depth,
     cv_Children = length (yn_content v) div 2 \<rparr>"

function walkMapping :: "ynode \<Rightarrow> string \<Rightarrow> nat \<Rightarrow> chart_value list" where
  "walkMapping n prefix depth =
     (if yn_kind n \<noteq> MappingNode then []
      else concat (map (\<lambda>(k, v). value_of prefix depth k v #
        (if nested v then walkMapping v (key_path prefix k) (Suc depth) else [])) (pairs (yn_content n))))"
  by auto
termination
  by (relation "measure (\<lambda>(n, _). size n)") (auto dest!: pairs_member intro: content_size)

declare walkMapping.simps [simp del]

text \<open>What is read of a file: its document's children, or that it does not parse. The comment at its top is the document's.\<close>

definition readValues :: "string \<Rightarrow> string + ynode \<Rightarrow> string + chart_value list" where
  "readValues path parsed = (case parsed of
     Inl e \<Rightarrow> Inl (msgf ''parse'' [path, e])
   | Inr doc \<Rightarrow> (case yn_content doc of [] \<Rightarrow> Inl (path @ '' is empty'') | n # _ \<Rightarrow> Inr (walkMapping n [] 0)))"

definition fileIntro :: "ynode \<Rightarrow> string" where
  "fileIntro doc = commentText [if yn_head doc = [] \<and> yn_content doc \<noteq> [] then yn_head (hd (yn_content doc)) else yn_head doc]"

definition chartVersions :: "string \<Rightarrow> string + string \<times> string \<Rightarrow> string + string \<times> string" where
  "chartVersions path parsed = (case parsed of Inl e \<Rightarrow> Inl e
   | Inr (version, app) \<Rightarrow> if version = [] \<or> app = [] then Inl (path @ '' declares no version or appVersion'') else Inr (version, app))"

section \<open>The page\<close>

definition code_text :: "string \<Rightarrow> string" where
  "code_text s = (if s = [] then [CHR ''`'', quote, quote, CHR ''`''] else ''`'' @ replace_all ''`'' [CHR 0x27] s @ ''`'')"

definition quoted_path :: "string \<Rightarrow> string" where
  "quoted_path p = ''`'' @ p @ ''`''"

definition index_row :: "(string \<Rightarrow> string) \<Rightarrow> chart_value \<Rightarrow> string" where
  "index_row uni v = ''| ['' @ quoted_path (cv_Path v) @ ''](#'' @ anchor uni (cv_Path v) @ '') | '' @ code_text (cv_Default v) @ '' |'' @ [nl]"

definition value_heading :: "chart_value \<Rightarrow> string" where
  "value_heading v = replicate (min (cv_Depth v + 2) 6) (CHR ''#'') @ '' '' @ quoted_path (cv_Path v)"

definition value_section :: "chart_value \<Rightarrow> string" where
  "value_section v = value_heading v @ [nl, nl] @
     (if cv_Leaf v then ''**Default:** '' @ code_text (cv_Default v) @ [nl, nl]
      else ''A group of '' @ dec (cv_Children v) @ '' key(s).'' @ [nl, nl]) @
     (if cv_Doc v \<noteq> [] then cv_Doc v @ [nl, nl] else [])"

definition default_of :: "chart_value list \<Rightarrow> string \<Rightarrow> string option" where
  "default_of vals = map_of (rev (map (\<lambda>v. (cv_Path v, cv_Default v)) vals))"

definition local_row :: "chart_value list \<Rightarrow> chart_value \<Rightarrow> string" where
  "local_row vals v = ''| '' @ quoted_path (cv_Path v) @ '' | '' @ code_text (cv_Default v) @ '' | '' @
     (case default_of vals (cv_Path v) of None \<Rightarrow> ''_not set in values.yaml_'' | Some d \<Rightarrow> code_text d) @ '' |'' @ [nl]"

definition values_page :: "(string \<Rightarrow> string) \<Rightarrow> chart_value list \<Rightarrow> chart_value list \<Rightarrow> string \<times> string \<Rightarrow> string \<Rightarrow> string" where
  "values_page uni vals local versions intro =
     frontMatter ''Chart values'' (msgf ''Every key in values.yaml'' []) @ msgf ''generatedNotice'' [] @ [nl] @
     msgf ''Every value, its default, and what the chart says about it'' [fst versions, snd versions] @ [nl, nl] @
     (if intro \<noteq> [] then ''The file opens by saying:'' @ [nl, nl] @ ''> '' @ replace_all [nl, nl] ([nl] @ ''>'' @ [nl] @ ''> '') intro @ [nl, nl] else []) @
     ''## Every key'' @ [nl, nl] @ ''| Key | Default |'' @ [nl] @ ''|---|---|'' @ [nl] @
     concat (map (index_row uni) (filter cv_Leaf vals)) @ [nl] @ ''---'' @ [nl, nl] @
     concat (map value_section vals) @
     ''---'' @ [nl, nl] @ ''## The local profile'' @ [nl, nl] @ msgf ''overrides these keys'' [] @ [nl, nl] @
     ''| Key | Local value | Default |'' @ [nl] @ ''|---|---|---|'' @ [nl] @
     concat (map (local_row vals) (filter cv_Leaf local)) @ [nl]"

definition renderValues ::
  "(string \<Rightarrow> string) \<Rightarrow> yaml_parser \<Rightarrow> string + ynode \<Rightarrow> string + ynode \<Rightarrow> string + string \<times> string \<Rightarrow> string + string" where
  "renderValues uni parse main local chart = (case readValues ''charts/assayd/values.yaml'' main of Inl e \<Rightarrow> Inl e | Inr vals \<Rightarrow>
     (case readValues ''charts/assayd/values-local.yaml'' local of Inl e \<Rightarrow> Inl e | Inr overrides \<Rightarrow>
     (case chartVersions ''charts/assayd/Chart.yaml'' chart of Inl e \<Rightarrow> Inl e | Inr versions \<Rightarrow>
        write_page uni parse ''helm-values.md'' (values_page uni vals overrides versions
          (case main of Inl e \<Rightarrow> [] | Inr doc \<Rightarrow> fileIntro doc)))))"

section \<open>Every key is listed\<close>

text \<open>The keys of a mapping and of the mappings below it, with the path and depth of each.\<close>

inductive key_in :: "ynode \<Rightarrow> string \<Rightarrow> nat \<Rightarrow> string \<Rightarrow> nat \<Rightarrow> ynode \<Rightarrow> ynode \<Rightarrow> bool" where
  here: "yn_kind n = MappingNode \<Longrightarrow> (k, v) \<in> set (pairs (yn_content n)) \<Longrightarrow> key_in n prefix depth prefix depth k v"
| below: "yn_kind n = MappingNode \<Longrightarrow> (k', v') \<in> set (pairs (yn_content n)) \<Longrightarrow> nested v' \<Longrightarrow>
    key_in v' (key_path prefix k') (Suc depth) pre d k v \<Longrightarrow> key_in n prefix depth pre d k v"

lemma key_in_iff: "key_in n prefix depth pre d k v \<longleftrightarrow> yn_kind n = MappingNode \<and>
    ((k, v) \<in> set (pairs (yn_content n)) \<and> pre = prefix \<and> d = depth \<or>
     (\<exists>(k', v') \<in> set (pairs (yn_content n)). nested v' \<and> key_in v' (key_path prefix k') (Suc depth) pre d k v))"
  by (subst key_in.simps) auto

text \<open>
  The list is exactly the keys of the file: an entry is listed if and only if it is of a key at some depth, under
  that key's full path, with its value and comments.
\<close>

theorem walkMapping_complete:
  "e \<in> set (walkMapping n prefix depth) \<longleftrightarrow> (\<exists>pre d k v. key_in n prefix depth pre d k v \<and> e = value_of pre d k v)"
proof (induction n prefix depth rule: walkMapping.induct)
  case (1 n prefix depth)
  show ?case
  proof (cases "yn_kind n = MappingNode")
    case False
    then show ?thesis by (subst walkMapping.simps) (auto simp: key_in_iff [of n])
  next
    case True
    have IH: "nested v \<Longrightarrow> e \<in> set (walkMapping v (key_path prefix k) (Suc depth)) \<longleftrightarrow>
        (\<exists>pre d k' v'. key_in v (key_path prefix k) (Suc depth) pre d k' v' \<and> e = value_of pre d k' v')"
      if "(k, v) \<in> set (pairs (yn_content n))" for k v
      using "1.IH" [OF _ that refl] True by simp
    have "e \<in> set (walkMapping n prefix depth) \<longleftrightarrow> (\<exists>(k, v) \<in> set (pairs (yn_content n)). e = value_of prefix depth k v \<or>
        nested v \<and> e \<in> set (walkMapping v (key_path prefix k) (Suc depth)))"
      by (subst walkMapping.simps) (auto simp: True)
    also have "\<dots> \<longleftrightarrow> (\<exists>(k, v) \<in> set (pairs (yn_content n)). e = value_of prefix depth k v \<or>
        nested v \<and> (\<exists>pre d k' v'. key_in v (key_path prefix k) (Suc depth) pre d k' v' \<and> e = value_of pre d k' v'))"
    proof (intro bex_cong refl)
      fix x
      assume member: "x \<in> set (pairs (yn_content n))"
      obtain k v where x: "x = (k, v)" by (cases x)
      show "(case x of (k, v) \<Rightarrow> e = value_of prefix depth k v \<or> nested v \<and> e \<in> set (walkMapping v (key_path prefix k) (Suc depth))) \<longleftrightarrow>
          (case x of (k, v) \<Rightarrow> e = value_of prefix depth k v \<or>
            nested v \<and> (\<exists>pre d k' v'. key_in v (key_path prefix k) (Suc depth) pre d k' v' \<and> e = value_of pre d k' v'))"
        using IH [OF member [unfolded x]] by (cases "nested v") (simp_all add: x)
    qed
    also have "\<dots> \<longleftrightarrow> (\<exists>pre d k v. key_in n prefix depth pre d k v \<and> e = value_of pre d k v)"
      unfolding key_in_iff [of n] using True by (simp only: simp_thms) blast
    finally show ?thesis .
  qed
qed

section \<open>The index links to the sections\<close>

definition slug_byte :: "char \<Rightarrow> string" where
  "slug_byte c = (let d = ascii_lower c in if anchor_keeps d then [if d = CHR '' '' then CHR ''-'' else d] else [])"

lemma anchor_bytes: "list_all (\<lambda>c. of_char c < (128::nat)) s \<Longrightarrow> anchor uni s = concat (map slug_byte s)"
proof -
  assume "list_all (\<lambda>c. of_char c < (128::nat)) s"
  then have "to_lower uni s = map ascii_lower s" by (simp add: to_lower_def)
  then have "anchor uni s = map (\<lambda>c. if c = CHR '' '' then CHR ''-'' else c) (filter anchor_keeps (map ascii_lower s))" by (simp add: anchor_def)
  also have "\<dots> = concat (map slug_byte s)" by (induction s) (simp_all add: slug_byte_def Let_def)
  finally show ?thesis .
qed

lemma slug_marks: "slug_byte CHR ''`'' = []" "slug_byte CHR ''*'' = []" "slug_byte CHR ''_'' = ''_''"
  by (simp_all add: slug_byte_def Let_def ascii_lower_def anchor_keeps_def)

lemma heading_bytes:
  "list_all (\<lambda>c. of_char c < (128::nat)) p \<Longrightarrow>
   heading_slug uni (quoted_path p) = concat (map slug_byte (filter (\<lambda>c. c \<noteq> CHR ''_'') p))"
proof -
  assume p: "list_all (\<lambda>c. of_char c < (128::nat)) p"
  then have "list_all (\<lambda>c. of_char c < (128::nat)) (plain_text (quoted_path p))"
    by (auto simp: plain_text_def quoted_path_def list_all_iff)
  then have "heading_slug uni (quoted_path p) = concat (map slug_byte (plain_text (quoted_path p)))"
    by (simp add: heading_slug_def anchor_bytes)
  also have "\<dots> = concat (map slug_byte (filter (\<lambda>c. c \<noteq> CHR ''_'') p))"
    unfolding plain_text_def quoted_path_def by (induction p) (auto simp: slug_marks)
  finally show ?thesis .
qed

lemma underscores_counted:
  "length (concat (map slug_byte (filter (\<lambda>c. c \<noteq> CHR ''_'') p))) + count_list p CHR ''_'' = length (concat (map slug_byte p))"
  by (induction p) (auto simp: slug_marks)

text \<open>
  An index entry's link is the anchor of its key's own heading exactly when the key holds no underscore: emphasis marks are
  dropped before a heading is slugged, and of those only an underscore is kept by an anchor. A page with a key like that is
  refused by the gate on links.
\<close>

theorem index_link_lands:
  assumes "list_all (\<lambda>c. of_char c < (128::nat)) p"
  shows "anchor uni p = heading_slug uni (quoted_path p) \<longleftrightarrow> CHR ''_'' \<notin> set p"
proof
  assume "anchor uni p = heading_slug uni (quoted_path p)"
  then have "count_list p CHR ''_'' = 0"
    using underscores_counted [of p] by (simp add: anchor_bytes [OF assms] heading_bytes [OF assms])
  then show "CHR ''_'' \<notin> set p" by (simp add: count_list_0_iff)
next
  assume "CHR ''_'' \<notin> set p"
  then have "filter (\<lambda>c. c \<noteq> CHR ''_'') p = p" by (auto simp: filter_id_conv)
  then show "anchor uni p = heading_slug uni (quoted_path p)" by (simp add: anchor_bytes [OF assms] heading_bytes [OF assms])
qed

theorem index_link_lands_witness:
  "anchor id ''gateway.enabled'' = heading_slug id (quoted_path ''gateway.enabled'') \<and>
   anchor id ''kube_api'' \<noteq> heading_slug id (quoted_path ''kube_api'')"
  using index_link_lands [of "''gateway.enabled''" id] index_link_lands [of "''kube_api''" id] by simp

end
