(* ===== verification/Crd_Page.thy ===== *)
theory Crd_Page
  imports Crd_Rules
begin

text \<open>
  The page of a CRD (the rest of \<^verbatim>\<open>internal/refgen/crd.go\<close>): the repair of the field tables' HTML, and the page from the
  tables, the scope paragraph and the list of rules of \<open>Crd_Rules\<close>. What the table renderer prints is an argument; the page's
  opening paragraphs are a tag with their values.

  Shown: the repair escapes every item of a rule list, and a page that is written passed the gate on its rules.
\<close>

record crdPage =
  pg_source :: string
  pg_page :: string
  pg_kind :: string
  pg_types :: string
  pg_title :: string
  pg_description :: string

definition renderedCRDs :: "crdPage list" where
  "renderedCRDs =
     [\<lparr> pg_source = ''config/crd/assayd.dev_agents.yaml'', pg_page = ''crd-agent.md'', pg_kind = ''Agent'', pg_types = ''api/v1alpha1/agent_types.go'',
        pg_title = ''The Agent CRD'',
        pg_description = ''Every field of the Agent custom resource: type, required, default, CEL validation and doc text.'' \<rparr>,
      \<lparr> pg_source = ''config/crd/assayd.dev_evalsuites.yaml'', pg_page = ''crd-evalsuite.md'', pg_kind = ''EvalSuite'', pg_types = ''api/v1alpha1/evalsuite_types.go'',
        pg_title = ''The EvalSuite CRD'',
        pg_description = ''Every field of the EvalSuite custom resource: type, required, default, CEL validation and doc text.'' \<rparr>]"

definition count_word :: "nat \<Rightarrow> string" where
  "count_word n = (if n = 1 then ''one'' else if n = 2 then ''two'' else if n = 3 then ''three'' else if n = 4 then ''four'' else if n = 5 then ''five'' else [])"

definition scopeParagraph :: "crdPage \<Rightarrow> string" where
  "scopeParagraph p = msgf ''This page is the schema of one of the custom resources the chart installs''
     [pg_kind p, count_word (length renderedCRDs), join '' and '' (map (\<lambda>c. tick @ pg_kind c @ tick) renderedCRDs),
      join [nl] (map (\<lambda>c. ''- `'' @ pg_kind c @ ''`, from `'' @ pg_types c @ ''`: `docs/reference/'' @ pg_page c @ tick) renderedCRDs)] @ [nl]"

section \<open>The tables\<close>

text \<open>\<open>validationItems\<close>: an item with its text on one line, and as many as follow one another.\<close>

definition li_item :: "string \<Rightarrow> (string \<times> string) option" where
  "li_item s = (if \<not> has_prefix s ''<li>'' then None
     else (let t = drop 4 s in case str_index t ''</li>'' of None \<Rightarrow> None
       | Some k \<Rightarrow> if nl \<in> set (take k t) then None else Some (take k t, drop (k + 5) t)))"

lemma li_item_shorter: "li_item s = Some (i, r) \<Longrightarrow> length r < length s"
  by (cases s) (auto simp: li_item_def Let_def has_prefix_def split: if_splits option.splits)

function li_run :: "string \<Rightarrow> string list \<times> string" where
  "li_run s = (case li_item s of None \<Rightarrow> ([], s) | Some (i, r) \<Rightarrow> (case li_run r of (items, rest) \<Rightarrow> (i # items, rest)))"
  by auto
termination
  by (relation "measure length") (auto dest: li_item_shorter)

declare li_run.simps [simp del]

lemma li_run_length: "length (snd (li_run s)) \<le> length s"
proof (induction s rule: li_run.induct)
  case (1 s)
  show ?case
  proof (cases "li_item s")
    case None
    then show ?thesis by (subst li_run.simps) simp
  next
    case (Some x)
    then obtain i r where x: "li_item s = Some (i, r)" by (cases x) auto
    then show ?thesis using 1 [OF x refl] li_item_shorter [OF x] by (subst li_run.simps) (auto split: prod.splits)
  qed
qed

definition run_mark :: string where
  "run_mark = ''<i>Validations</i>:''"

text \<open>The text with each run wrapped and its items escaped, and the items as they were.\<close>

definition escaped_items :: "string list \<Rightarrow> string" where
  "escaped_items items = concat (map (\<lambda>i. ''<li>'' @ html_escape i @ ''</li>'') items)"

function repair_runs :: "string \<Rightarrow> string \<times> string list" where
  "repair_runs s =
     (if has_prefix s run_mark \<and> fst (li_run (drop (length run_mark) s)) \<noteq> [] then
        (case repair_runs (snd (li_run (drop (length run_mark) s))) of (t, items) \<Rightarrow>
           (run_mark @ ''<ul>'' @ escaped_items (fst (li_run (drop (length run_mark) s))) @ ''</ul>'' @ t,
            fst (li_run (drop (length run_mark) s)) @ items))
      else (case s of [] \<Rightarrow> ([], []) | c # s' \<Rightarrow> (case repair_runs s' of (t, items) \<Rightarrow> (c # t, items))))"
  by auto
termination
proof (relation "measure length")
  fix s
  assume "has_prefix s run_mark \<and> fst (li_run (drop (length run_mark) s)) \<noteq> []"
  then have "run_mark \<noteq> []" "s \<noteq> []" by (auto simp: run_mark_def has_prefix_def)
  with li_run_length [of "drop (length run_mark) s"] show "(snd (li_run (drop (length run_mark) s)), s) \<in> measure length"
    by (cases s; cases run_mark) (auto simp: le_less_trans)
qed auto

declare repair_runs.simps [simp del]

text \<open>\<open>entity\<close>: a character reference, named, decimal or hexadecimal.\<close>

definition hex_digit :: "char \<Rightarrow> bool" where
  "hex_digit c \<longleftrightarrow> c \<in> set ''0123456789abcdefABCDEF''"

definition letter :: "char \<Rightarrow> bool" where
  "letter c \<longleftrightarrow> c \<in> set ''abcdefghijklmnopqrstuvwxyzABCDEFGHIJKLMNOPQRSTUVWXYZ''"

definition closed_by :: "(char \<Rightarrow> bool) \<Rightarrow> string \<Rightarrow> bool" where
  "closed_by P s \<longleftrightarrow> takeWhile P s \<noteq> [] \<and> take 1 (dropWhile P s) = '';''"

definition entity_at :: "string \<Rightarrow> bool" where
  "entity_at s \<longleftrightarrow> (case s of
     c # t \<Rightarrow> c = CHR ''&'' \<and> (case t of [] \<Rightarrow> False
       | d # u \<Rightarrow> if d = CHR ''#'' then closed_by is_digit u \<or> (case u of [] \<Rightarrow> False | x # w \<Rightarrow> (x = CHR ''x'' \<or> x = CHR ''X'') \<and> closed_by hex_digit w)
                  else letter d \<and> closed_by (\<lambda>c. letter c \<or> is_digit c) t)
   | [] \<Rightarrow> False)"

fun has_entity :: "string \<Rightarrow> bool" where
  "has_entity [] = False"
| "has_entity (c # s) = (entity_at (c # s) \<or> has_entity s)"

definition field_region :: "string \<Rightarrow> string" where
  "field_region heading = table_region (''Fields of '' @ heading @ ''. Scroll or use the arrow keys to pan.'')"

fun region_lines :: "string \<Rightarrow> string list \<Rightarrow> string list" where
  "region_lines heading [] = []"
| "region_lines heading (line # ls) =
     (let heading' = (if heading_match line \<noteq> None then heading_label line else heading) in
      (if trim_space line = ''<table>'' then [field_region heading', line]
       else if trim_space line = ''</table>'' then [line, ''</div>''] else [line]) @ region_lines heading' ls)"

definition repairTableHTML :: "string \<Rightarrow> string + string" where
  "repairTableHTML md = (case repair_runs md of (t, items) \<Rightarrow>
     (case find has_entity items of
        Some i \<Rightarrow> Inl (msgf ''a validation rule already carries an HTML entity'' [i])
      | None \<Rightarrow> Inr (join [nl] (region_lines ''the table'' (split_on nl t)))))"

section \<open>The page\<close>

text \<open>\<^verbatim>\<open>strings.Count\<close> of a text that is not empty.\<close>

function str_count :: "string \<Rightarrow> string \<Rightarrow> nat" where
  "str_count p s = (case s of [] \<Rightarrow> 0 | c # s' \<Rightarrow> if p \<noteq> [] \<and> has_prefix s p then Suc (str_count p (drop (length p) s)) else str_count p s')"
  by auto
termination
  by (relation "measure (length \<circ> snd)") auto

declare str_count.simps [simp del]

definition renderedValidationNodes :: "string \<Rightarrow> nat" where
  "renderedValidationNodes s = str_count ''<i>Validations</i>'' s"

definition table_text :: "string \<Rightarrow> string + string" where
  "table_text s = repairTableHTML (demoteHeadings (case str_index s ''# assayd.dev/v1alpha1'' of None \<Rightarrow> s | Some i \<Rightarrow> drop i s))"

definition crd_front :: "crdPage \<Rightarrow> CELRule list \<Rightarrow> string \<Rightarrow> string" where
  "crd_front p rules tables =
     frontMatter (pg_title p) (pg_description p) @ msgf ''generatedNotice'' [] @ [nl] @ scopeParagraph p @ [nl] @
     msgf ''Defaults are applied by the API SERVER, not by the operator''
       [dec (length rules), dec (countNodes rules), dec (renderedValidationNodes tables)] @ para @
     ''---'' @ para @ tables @ (if has_suffix tables [nl] then [] else [nl]) @ [nl] @ ''---'' @ para"

definition renderCRDPage ::
  "(string \<Rightarrow> string) \<Rightarrow> yaml_parser \<Rightarrow> crdPage \<Rightarrow> string + CRD \<Rightarrow> string + string \<Rightarrow> string + string" where
  "renderCRDPage uni parse p read tool = (case read of Inl e \<Rightarrow> Inl e | Inr crd \<Rightarrow> (case tool of Inl e \<Rightarrow> Inl e | Inr s \<Rightarrow>
     (case table_text s of Inl e \<Rightarrow> Inl e | Inr tables \<Rightarrow>
       (let rules = celRules crd; page = crd_front p rules tables @ renderCELSection uni rules tables in
        case verifyEveryRuleIsPublished page crd of Some e \<Rightarrow> Inl e | None \<Rightarrow> write_page uni parse (pg_page p) page))))"

section \<open>What is repaired, and what is written\<close>

text \<open>No markup of a rule's text reaches the page: an item is its bytes, with the five that mean something in HTML as references.\<close>

lemma html_escape_plain: "CHR ''<'' \<notin> set (html_escape s)" "CHR ''>'' \<notin> set (html_escape s)" "quote \<notin> set (html_escape s)"
  unfolding html_escape_def by (induction s) simp_all

lemma repair_runs_plain: "\<not> str_contains s run_mark \<Longrightarrow> repair_runs s = (s, [])"
proof (induction s)
  case Nil
  then show ?case by (subst repair_runs.simps) (simp add: run_mark_def has_prefix_def)
next
  case (Cons c s)
  have "\<not> has_prefix (c # s) run_mark" "\<not> str_contains s run_mark"
    using Cons.prems by (subst (asm) str_contains.simps, simp)+
  with Cons.IH show ?case by (subst repair_runs.simps) simp
qed

lemma renderCRDPage_gated:
  assumes "renderCRDPage uni parse p read tool = Inr page"
  shows "\<exists>crd body. read = Inr crd \<and> page = finished_body body \<and> list_all (rule_published (ruleSections body)) (celRules crd) \<and>
    distinct (page_slugs uni page) \<and> set (page_links uni page) \<subseteq> set (page_slugs uni page) \<union> set (page_ids uni page)"
proof -
  from assms obtain crd body where body: "read = Inr crd" "verifyEveryRuleIsPublished body crd = None" "write_page uni parse (pg_page p) body = Inr page"
    by (auto simp: renderCRDPage_def Let_def split: sum.splits option.splits)
  then show ?thesis using verifyEveryRuleIsPublished_iff [of body crd] write_page_navigable [OF body(3)] by blast
qed

end
