(* ===== verification/Reference.thy ===== *)
theory Reference
  imports Condition_Reference Chart_Values Crd_Page
begin

text \<open>
  The run of the generator (\<^verbatim>\<open>Generate\<close> of \<^verbatim>\<open>internal/refgen/generate.go\<close>): the set of CRDs is checked, and each page is
  written as it is rendered. What is read of the repository, and the answers of the file system, are arguments.

  Shown: a run that ends without an error has written every page, each navigable; one that ends with an error has written
  a prefix of them.
\<close>

record repository =
  rp_crds :: "(string \<times> bool) list"
  rp_crd :: "crdPage \<Rightarrow> string + CRD"
  rp_crdoc :: "crdPage \<Rightarrow> string + string"
  rp_values :: "string + ynode"
  rp_local :: "string + ynode"
  rp_chart :: "string + string \<times> string"
  rp_packages :: "string + package list"
  rp_annotations :: "string + Annotation list"
  rp_tests :: "tree_file list"

text \<open>\<open>mkdir\<close> and \<open>store\<close>: the error of making the directory and of writing a page to it.\<close>

fun write_all :: "(string \<Rightarrow> string \<Rightarrow> string option) \<Rightarrow> (string \<times> (string + string)) list \<Rightarrow> (string \<times> string) list \<times> string option" where
  "write_all store [] = ([], None)"
| "write_all store ((name, rendered) # ps) = (case rendered of Inl e \<Rightarrow> ([], Some e)
   | Inr page \<Rightarrow> (case store name page of Some e \<Rightarrow> ([], Some e)
     | None \<Rightarrow> (case write_all store ps of (written, err) \<Rightarrow> ((name, page) # written, err))))"

definition crd_pages :: "(string \<Rightarrow> string) \<Rightarrow> yaml_parser \<Rightarrow> repository \<Rightarrow> (string \<times> (string + string)) list" where
  "crd_pages uni parse rp = map (\<lambda>p. (pg_page p, renderCRDPage uni parse p (rp_crd rp p) (rp_crdoc rp p))) renderedCRDs"

definition reference_pages :: "(string \<Rightarrow> string) \<Rightarrow> yaml_parser \<Rightarrow> repository \<Rightarrow> (string \<times> (string + string)) list" where
  "reference_pages uni parse rp = crd_pages uni parse rp @
     [(''helm-values.md'', renderValues uni parse (rp_values rp) (rp_local rp) (rp_chart rp)),
      (''conditions.md'', renderConditions uni parse (rp_packages rp) (rp_annotations rp) (rp_tests rp))]"

text \<open>\<^verbatim>\<open>filepath.Base\<close> of a path that ends in no slash.\<close>

definition crd_files :: "string list" where
  "crd_files = map (\<lambda>p. baseName (pg_source p)) renderedCRDs"

definition Generate ::
  "(string \<Rightarrow> string) \<Rightarrow> yaml_parser \<Rightarrow> repository \<Rightarrow> string option \<Rightarrow> (string \<Rightarrow> string \<Rightarrow> string option) \<Rightarrow> (string \<times> string) list \<times> string option" where
  "Generate uni parse rp mkdir store = (case mkdir of Some e \<Rightarrow> ([], Some e) | None \<Rightarrow>
     (case checkCRDs crd_files (rp_crds rp) of Some e \<Rightarrow> ([], Some e) | None \<Rightarrow> write_all store (reference_pages uni parse rp)))"

definition reference_names :: "string list" where
  "reference_names = [''crd-agent.md'', ''crd-evalsuite.md'', ''helm-values.md'', ''conditions.md'']"

text \<open>A page a reader can get around in: its headings have anchors of their own, and its links land.\<close>

definition navigable :: "(string \<Rightarrow> string) \<Rightarrow> string \<Rightarrow> bool" where
  "navigable uni page \<longleftrightarrow> distinct (page_slugs uni page) \<and> set (page_links uni page) \<subseteq> set (page_slugs uni page) \<union> set (page_ids uni page)"

lemma write_all_written:
  "write_all store ps = (ws, err) \<Longrightarrow>
     (\<exists>k. map fst ws = take k (map fst ps)) \<and> ((err = None) = (map fst ws = map fst ps)) \<and> (\<forall>w \<in> set ws. \<exists>n. (n, Inr (snd w)) \<in> set ps)"
proof (induction store ps arbitrary: ws err rule: write_all.induct)
  case (1 store)
  then show ?case by simp
next
  case (2 store name rendered ps)
  show ?case
  proof (cases "\<exists>page. rendered = Inr page \<and> store name page = None")
    case False
    have "ws = [] \<and> err \<noteq> None"
    proof (cases rendered)
      case (Inr page)
      with False obtain e where "store name page = Some e" by auto
      with Inr "2.prems" have "(ws, err) = ([], Some e)" by simp
      then show ?thesis by simp
    qed (use "2.prems" in auto)
    then show ?thesis by (auto intro: exI [of _ 0])
  next
    case True
    then obtain page where page: "rendered = Inr page" "store name page = None" by blast
    obtain ws' where rest: "write_all store ps = (ws', err)" and ws: "ws = (name, page) # ws'"
      using "2.prems" page by (auto split: prod.splits)
    from "2.IH" [OF page rest] obtain k where k: "map fst ws' = take k (map fst ps)"
      and others: "(err = None) = (map fst ws' = map fst ps)" "\<forall>w \<in> set ws'. \<exists>n. (n, Inr (snd w)) \<in> set ps" by blast
    have "map fst ws = take (Suc k) (map fst ((name, rendered) # ps))" using k ws by simp
    moreover have "(err = None) = (map fst ws = map fst ((name, rendered) # ps))" using others(1) ws by simp
    moreover have "\<forall>w \<in> set ws. \<exists>n. (n, Inr (snd w)) \<in> set ((name, rendered) # ps)" using others(2) ws page(1) by auto
    ultimately show ?thesis by blast
  qed
qed

lemma rendered_navigable:
  assumes "(n, Inr page) \<in> set (reference_pages uni parse rp)"
  shows "navigable uni page"
proof -
  from assms consider p where "renderCRDPage uni parse p (rp_crd rp p) (rp_crdoc rp p) = Inr page"
    | "renderValues uni parse (rp_values rp) (rp_local rp) (rp_chart rp) = Inr page"
    | "renderConditions uni parse (rp_packages rp) (rp_annotations rp) (rp_tests rp) = Inr page"
    by (auto simp: reference_pages_def crd_pages_def)
  then have "\<exists>name body. write_page uni parse name body = Inr page"
    by cases (auto simp: renderCRDPage_def renderValues_def renderConditions_def Let_def split: sum.splits option.splits)
  then show ?thesis using write_page_navigable unfolding navigable_def by blast
qed

lemma reference_names: "map fst (reference_pages uni parse rp) = reference_names"
  by (simp add: reference_pages_def crd_pages_def renderedCRDs_def reference_names_def)

text \<open>
  The generator succeeds exactly when it has written its four pages, after the set of CRDs was found to be the one with
  pages; otherwise it has written the first of them in order. Every page it wrote is navigable.
\<close>

theorem Generate_publishes_whole:
  "(case Generate uni parse rp mkdir store of (written, err) \<Rightarrow>
      list_all (\<lambda>w. navigable uni (snd w)) written \<and> (\<exists>k. map fst written = take k reference_names) \<and>
      (err = None) = (map fst written = reference_names) \<and> (written = [] \<or> checkCRDs crd_files (rp_crds rp) = None))"
proof (cases "mkdir = None \<and> checkCRDs crd_files (rp_crds rp) = None")
  case False
  then have "\<exists>e. Generate uni parse rp mkdir store = ([], Some e)" by (auto simp: Generate_def split: option.splits)
  then obtain e where "Generate uni parse rp mkdir store = ([], Some e)" by blast
  then show ?thesis by (auto simp: reference_names_def intro: exI [of _ 0])
next
  case True
  obtain ws err where run: "write_all store (reference_pages uni parse rp) = (ws, err)" by fastforce
  with True have "Generate uni parse rp mkdir store = (ws, err)" by (simp add: Generate_def)
  moreover have "list_all (\<lambda>w. navigable uni (snd w)) ws"
    using write_all_written [OF run] rendered_navigable unfolding list_all_iff by blast
  ultimately show ?thesis using True write_all_written [OF run] by (simp add: reference_names)
qed

end
