(* ===== verification/Spec2Isabelle.thy ===== *)
theory Spec2Isabelle
  imports Promotion Leaves Auth_Progress Operator_Start Reference
begin

text \<open>
  assayd is a Kubernetes operator for agents. An \<^verbatim>\<open>Agent\<close> object declares a workload; every behaviour it
  declares has a content digest, its revision. A revision that differs from the active one is a
  candidate: it runs at zero traffic until its gate is satisfied, and only then is it promoted. Gates are
  \<^verbatim>\<open>EvalSuite\<close> objects: the eval controller sends each case of the suite to the candidate once, records
  the outcomes in \<^verbatim>\<open>status.eval\<close> and writes a verdict; the Agent reconciler reads the verdict and promotes.
  Traffic reaches a revision through a route whose authentication policy is compiled from the Agent.

  \<^bold>\<open>How the theories correspond to the source.\<close>

  \<^item> \<open>Prelude\<close>: strings as byte lists, times in nanoseconds, API errors as a class and a text, messages as
    a tag with the values interpolated, lists written by key (\<open>keyed_record\<close>) and capped logs
    (\<open>bounded_log\<close>), the two interfaces most of the status is kept behind.
  \<^item> \<open>Go_Sha256\<close>, \<open>Go_Json\<close>: what the code uses of \<^verbatim>\<open>crypto/sha256\<close>, \<^verbatim>\<open>encoding/hex\<close> and \<^verbatim>\<open>encoding/json\<close>. The
    JSON encoder is proved injective; facts on digests conclude equality or exhibit a collision. \<open>Go_Text\<close>: what it uses
    of \<^verbatim>\<open>strings\<close> and \<^verbatim>\<open>strconv\<close>.
  \<^item> \<open>Api_Types\<close>: \<^verbatim>\<open>api/v1alpha1\<close>, one record per struct.
  \<^item> \<open>Eval_Suite\<close>: \<^verbatim>\<open>internal/evalsuite\<close>, the suite digest and the verdict rule.
  \<^item> \<open>Revision\<close>: \<^verbatim>\<open>internal/revision\<close>, the projection of a spec onto behaviour and its digest.
  \<^item> \<open>Auth_Compiler\<close>: \<^verbatim>\<open>internal/compiler\<close>, names and the authentication policy.
  \<^item> \<open>Eval_Client\<close>: \<^verbatim>\<open>internal/evalclient\<close>, the endpoint, the address check and the scoring of an answer.
  \<^item> \<open>Agent_State\<close>: readings and writes of status both controllers share (\<^verbatim>\<open>card.go\<close>, \<^verbatim>\<open>sendpredicates.go\<close>,
    parts of \<^verbatim>\<open>authtxn.go\<close>).
  \<^item> \<open>Conditions\<close>: \<^verbatim>\<open>conditions.go\<close>.
  \<^item> \<open>Gate\<close>: \<^verbatim>\<open>gate.go\<close>, \<^verbatim>\<open>evalclause5.go\<close>, \<^verbatim>\<open>pinrule.go\<close>.
  \<^item> \<open>Eval_Run\<close>, \<open>Eval_Controller\<close>, \<open>Eval_Protocol\<close>: \<^verbatim>\<open>evalcontroller.go\<close>: the edits of the record, one pass as
    a program over its calls, and any number of passes over one stored object.
  \<^item> \<open>Cluster_Ops\<close>: the objects of the API server the Agent reconciler reads and writes, requests and answers, and
    programs over them (\<open>op\<close>) with their weakest preconditions (\<open>op_wp\<close>) over the exchanges made so far.
  \<^item> \<open>Run_Material\<close> (\<^verbatim>\<open>material.go\<close>, \<^verbatim>\<open>injectedenv.go\<close>), \<open>Workload\<close> (the Deployment, \<^verbatim>\<open>agent_controller.go\<close>,
    \<^verbatim>\<open>imagesignature.go\<close>), \<open>Revision_Service\<close> (\<^verbatim>\<open>service.go\<close>), \<open>Run_Namespace\<close> (\<^verbatim>\<open>runnamespace.go\<close>),
    \<open>Serving_Route\<close> (\<^verbatim>\<open>httproute.go\<close>): what a revision is made of, one program per operation.
  \<^item> \<open>Rollout\<close>: the switch at the end of a pass and the status a pass writes (\<^verbatim>\<open>agent_controller.go\<close>,
    \<^verbatim>\<open>release.go\<close>).
  \<^item> \<open>Gateway_Reads\<close>: what is read of the Gateway, its policies, its events and through it (\<^verbatim>\<open>authabove.go\<close>,
    \<^verbatim>\<open>authforeign.go\<close>, \<^verbatim>\<open>authnack.go\<close>, \<^verbatim>\<open>authprobe.go\<close>, \<^verbatim>\<open>policyreads.go\<close>, parts of \<^verbatim>\<open>gatewaywiring.go\<close>).
  \<^item> \<open>Auth_Served\<close> (\<^verbatim>\<open>authserved.go\<close>, \<^verbatim>\<open>authkeysource.go\<close>), \<open>Auth_Steps\<close>, \<open>Auth_Transaction\<close>, \<open>Auth_Gateway\<close>
    (\<^verbatim>\<open>authtxn.go\<close>): what is said of a served Agent; the writes of a transaction; its two engines, stage by
    stage; and the gateway's part of a pass, \<^verbatim>\<open>reconcileGateway\<close>.
  \<^item> \<open>Discovery\<close> (\<^verbatim>\<open>discovery.go\<close>): whether the EvalSuite kind is served. \<open>Watches\<close>: what wakes a pass and what the
    operator refuses to start with (\<^verbatim>\<open>SetupWithManager\<close> and the constructors, parts of \<^verbatim>\<open>gatewaywiring.go\<close> and
    \<^verbatim>\<open>authkeysource.go\<close>). \<open>Leaves\<close> (\<^verbatim>\<open>internal/revision/leaves.go\<close>): the inventory of a spec's leaves.
    \<open>Operator_Start\<close> (\<^verbatim>\<open>cmd/operator/main.go\<close>): what the operator is built of, in order, and what it does not start with.
  \<^item> \<open>Agent_Controller\<close>, \<open>Agent_Pass\<close>: a whole pass of the Agent reconciler, the finalizer included. The gateway's
    part is behind the interface \<open>gateway_contract\<close>, and so are the other parts behind theirs.
  \<^item> \<open>Auth_Machine\<close>: the abstract machine of an Agent's -auth record and its invariants. \<open>Auth_Safety\<close> and
    \<open>Auth_Refinement\<close>: what each step of the gateway's part may request, and that each refines the machine.
    \<open>Auth_Properties\<close>: the properties, and the interpretation of \<open>gateway_contract\<close>. \<open>Auth_Progress\<close>: that a
    Create is published by one pass and recorded served by the next when the cluster cooperates.
  \<^item> \<open>Ref_Pages\<close> (\<^verbatim>\<open>generate.go\<close> of \<^verbatim>\<open>internal/refgen\<close>): the generator of the published reference, and the gates a page
    passes before it is written. Its pages: a CRD, with the list of its rules (\<open>Crd_Rules\<close>, \<^verbatim>\<open>crdrules.go\<close>, and
    \<open>Crd_Page\<close>, \<^verbatim>\<open>crd.go\<close>); the chart's values (\<open>Chart_Values\<close>, \<^verbatim>\<open>values.go\<close>); and the conditions and reasons
    (\<open>Condition_Reference\<close>, \<^verbatim>\<open>conditions.go\<close> and \<^verbatim>\<open>pinning.go\<close>), which it reads out of the operator's own syntax trees
    (\<open>Reason_Extract\<close>, \<^verbatim>\<open>extract.go\<close>, and \<open>Reason_Vocabulary\<close>, \<^verbatim>\<open>vocabulary.go\<close>). \<open>Reference\<close> is its run over all of them.
  \<^item> \<open>Promotion\<close>: the two controllers together, and this theory: the gate they meet at.

  \<^bold>\<open>What is shown.\<close> Digests identify exactly what they are meant to (\<open>Eval_Suite\<close>, \<open>Revision\<close>); the
  compiled policy admits exactly the groups it names and nothing is compiled open by mistake
  (\<open>Auth_Compiler\<close>); an answer passes only if it was whole and satisfied the expectation (\<open>Eval_Client\<close>);
  the gate's table is characterised row by row (\<open>Gate\<close>); every write of the eval record keeps it well formed
  and writes a verdict exactly when the run is complete (\<open>Eval_Run\<close>); a pass sends only when every
  send predicate holds (\<open>Eval_Controller\<close>); and over all interleavings no case is sent twice in a run, no
  outcome is overwritten and every Passed verdict is earned (\<open>Eval_Protocol\<close>). Each operation of the Agent
  reconciler writes only what is its Agent's, whatever the API server answers (the component theories), and
  a whole pass promotes only an available revision whose gate is open (\<open>Agent_Pass\<close>, \<open>Auth_Properties\<close>). The
  gateway's part refines an abstract machine whose steps that claim enforcement of a key need evidence
  (\<open>Auth_Refinement\<close>). The reference is complete and honest: the list of a CRD's rules has every rule under its own
  node, the gate on it is exact and passes what the generator writes (\<open>Crd_Rules\<close>); no reason of a
  site is invented, each reaching it through the package's own syntax trees, and the lemmas at the end show what the resolver
  misses (\<open>Reason_Extract\<close>); every reason has a complete annotation and a section of its own (\<open>Condition_Reference\<close>); and every key
  of the chart is listed (\<open>Chart_Values\<close>). The last theorems join the two controllers: the gate opens only on
  an earned verdict (here), and a whole pass promotes, under an enforced gate, only on one (\<open>Promotion\<close>).

  \<^bold>\<open>Bounds and fuel.\<close> The one retry loop bounded by time, \<^verbatim>\<open>record\<close>, takes the number of writes that fit
  its deadline, any number, and ends in the deadline's error; the one loop that may not end,
  the eviction in \<^verbatim>\<open>appendPassed\<close>, is a partial function whose termination is characterised. The paged list
  of policies takes a bound on its pages, and a list within the bound does not depend on it. The loop
  of a transaction has the source's own bound of twelve steps in a pass, of which a Create needs five
  (\<open>Auth_Progress\<close>). The resolver of reasons goes three levels below a site, as the source does. Everything
  else is structurally recursive. The int64 arithmetic of the verdict rule is exact for counts up to
  \<^verbatim>\<open>MaxInt64 / 1000\<close>, far above the number of cases a suite may have.

  \<^bold>\<open>What is not modelled.\<close> Reads and writes of the Kubernetes API and HTTP exchanges are requests with
  arbitrary answers, not code; the CEL printer, URL and address parsing and the JSON decoder are
  parameters. The prose of messages is reduced to a tag and its values. Logging, metrics, the manager, its
  caches and informers, the parsing of flags, generated deep copies and the writers of leaves that tests use are left out; so are,
  of the reference generator, its reading of files, the parsers and tools it runs (\<^verbatim>\<open>go/packages\<close>, \<^verbatim>\<open>yaml.v3\<close>, \<^verbatim>\<open>crdoc\<close>) and its
  debug print; their results are arguments.
\<close>

section \<open>From a verdict to a promotion\<close>

lemma suite_same_verdict:
  assumes "suite_Digest r = suite_Digest s" "suite_valid r" "suite_valid s"
    and "\<not> sha256_collision (canonicalJSON (suite_json (suite_normal r))) (canonicalJSON (suite_json (suite_normal s)))"
  shows "suiteIDs r = suiteIDs s \<and> Threshold r = Threshold s"
proof -
  have eq: "suite_normal r = suite_normal s"
    by (rule suite_id.digest_eq_normal [OF assms(1) [unfolded suite_Digest_def] assms(2-4)])
  have n: "ds_Cases (su_Dataset (suite_normal u)) = sort_key ca_ID (ds_Cases (su_Dataset u))"
    "su_Metrics (suite_normal u) = su_Metrics u" for u
    by (simp_all add: suite_normal_def)
  from eq n have c: "sort_key ca_ID (ds_Cases (su_Dataset r)) = sort_key ca_ID (ds_Cases (su_Dataset s))"
    and m: "su_Metrics r = su_Metrics s" by metis+
  have "suiteIDs u = map ca_ID (sort_key ca_ID (ds_Cases (su_Dataset u)))" for u
    unfolding suiteIDs_def by (rule properties_for_sort) simp_all
  with c m show ?thesis by (simp add: Threshold_def)
qed

lemma supports_same:
  assumes "supports r e" "suiteIDs r = suiteIDs s" "Threshold r = Threshold s" "suite_Digest r = suite_Digest s"
  shows "supports s e"
  using assms by (simp add: supports_def)

text \<open>
  C1. The gate opens only on a verdict that was earned. In every state the eval controller can reach over a
  CRD that keeps the record, if the Agent reconciler's gate on the stored status is satisfied for a
  revision and the suite it read, then the record is of exactly this revision and this suite's digest, its
  verdict is Passed, and a suite of that digest supports it: every case has a recorded outcome and
  enough of them passed. That suite is the one the gate read, unless the two exhibit a collision
  of SHA-256.
\<close>

theorem gate_opens_only_on_earned_pass:
  assumes "reaches keeps eval_passes (fresh_world a) w" "record_ok (eval_of a)"
    and "gd_satisfied (gateFor (w_agent w) (ag_Status (w_agent w)) desired desiredDigest available now runNS rt (Inr missing) (Inr suite))"
  shows "missing = [] \<and> hasCardFor (ag_Status (w_agent w)) desiredDigest \<and>
    (\<exists>e read. eval_of (w_agent w) = Some e \<and> es_Verdict e = EvalVerdictPassed \<and>
       es_RevisionDigest e = desiredDigest \<and> es_SuiteDigest e = suite_Digest suite \<and>
       suite_Digest read = suite_Digest suite \<and> supports read e \<and>
       (suite_valid read \<longrightarrow> suite_valid suite \<longrightarrow>
        \<not> sha256_collision (canonicalJSON (suite_json (suite_normal read))) (canonicalJSON (suite_json (suite_normal suite))) \<longrightarrow>
        supports suite e))"
proof -
  from assms(3) obtain e where m: "missing = []" "hasCardFor (ag_Status (w_agent w)) desiredDigest"
    and e: "eval_of (w_agent w) = Some e" "es_Verdict e = EvalVerdictPassed" "es_RevisionDigest e = desiredDigest"
      "es_SuiteDigest e = suite_Digest suite"
    by (auto simp: gateFor_def Let_def gate_open_iff)
  from keeping.reaches_records_ok [OF assms(1,2)] e obtain read where r: "supports read e"
    by (auto simp: records_ok_def record_ok_def supported_def)
  then have d: "suite_Digest read = suite_Digest suite" using e(4) by (simp add: supports_def)
  have "supports suite e" if "suite_valid read" "suite_valid suite"
      "\<not> sha256_collision (canonicalJSON (suite_json (suite_normal read))) (canonicalJSON (suite_json (suite_normal suite)))"
    using suite_same_verdict [OF d that] by (intro supports_same [OF r _ _ d]) auto
  with m e r d show ?thesis by blast
qed

theorem gate_opens_only_on_earned_pass_witness:
  "hasCardFor (ag_Status (sample_gated (Some sample_passed))) sample_candidate \<and>
   (\<exists>read. suite_Digest read = suite_Digest (sample_suite [''b'', ''a''] ''0.66'' 10) \<and> supports read sample_passed)"
proof -
  let ?a = "sample_gated (Some sample_passed)" and ?s = "sample_suite [''b'', ''a''] ''0.66'' 10"
  have e: "eval_of ?a = Some sample_passed" by (simp add: sample_gated_def)
  have card: "hasCardFor (ag_Status ?a) sample_candidate"
    by (simp add: sample_gated_def hasCardFor_def cardEntry_def card_for_def)
  have "gd_satisfied (gateFor (w_agent (fresh_world ?a)) (ag_Status (w_agent (fresh_world ?a))) ''r1'' sample_candidate True 0 ''run'' None (Inr []) (Inr ?s))"
    using e card
    by (simp add: gateFor_def Let_def gate_open_iff fresh_world_def sample_passed_def sample_running_def)
  from gate_opens_only_on_earned_pass [OF _ _ this, of ?a] show ?thesis
    using e card sample_passed_ok by (auto simp: fresh_world_def)
qed

end
